(* ===== verification/MlxPrelude.thy ===== *)
theory MlxPrelude
  imports Main "HOL-Library.Word"
begin

text \<open>
  Shared vocabulary of the development: the fixed-width integer types of the driver's C++
  sources, the IOKit return codes as a datatype, big-endian conversions of
  \<^verbatim>\<open>libkern/OSByteOrder.h\<close> as byte lists, the bit view of a byte buffer, and the generic
  lemmas on words and lists every component uses.
\<close>

unbundle bit_operations_syntax

named_theorems mlx_simps \<open>unfolding rules the component proofs share\<close>

type_synonym u8 = "8 word"
type_synonym u16 = "16 word"
type_synonym u32 = "32 word"
type_synonym u64 = "64 word"
type_synonym buffer = "u8 list"

section \<open>IOKit return codes\<close>

text \<open>
  The \<^verbatim>\<open>kIOReturn*\<close> values the driver produces or compares with.
  \<open>kIOReturnCode\<close> carries any other code an IOKit service hands back.
\<close>

datatype ioreturn =
    kIOReturnSuccess
  | kIOReturnError
  | kIOReturnNoMemory
  | kIOReturnNoResources
  | kIOReturnBadArgument
  | kIOReturnUnsupported
  | kIOReturnNotReady
  | kIOReturnNotPermitted
  | kIOReturnNotPrivileged
  | kIOReturnNotFound
  | kIOReturnBusy
  | kIOReturnTimeout
  | kIOReturnNoSpace
  | kIOReturnIOError
  | kIOReturnInvalid
  | kIOReturnOutputStall
  | kIOReturnOutputSuccess
  | kIOReturnCode u32

section \<open>Lists and words\<close>

lemma and_push_bit_one [mlx_simps]:
  "(v AND push_bit n 1 = 0) = (\<not> bit v n)" for v :: "'a::len word"
  using bit_iff_and_push_bit_not_eq_0 [of v n] by simp

lemma and_exp_eq_0 [mlx_simps]:
  "(v AND 2 ^ n = 0) = (\<not> bit v n)" for v :: "'a::len word"
  using and_push_bit_one [of v n] by simp

lemma bit_word_exp_iff: "bit (2 ^ m :: 'a::len word) n = (n < LENGTH('a) \<and> m = n)"
  by (auto simp: bit_exp_iff)

lemma unat_word_exp: "k < LENGTH('a) \<Longrightarrow> unat (2 ^ k :: 'a::len word) = 2 ^ k"
proof -
  assume "k < LENGTH('a)"
  then have "unat (of_nat (2 ^ k) :: 'a word) = 2 ^ k"
    by (simp only: unsigned_of_nat) (simp add: take_bit_nat_eq_self)
  then show ?thesis by simp
qed

lemma bit_ucast_u8: "m \<le> 7 \<Longrightarrow> bit (ucast x :: u8) m = bit x m" for x :: "'a::len word"
  by (simp add: bit_ucast_iff)

lemma not_less_eq_8: "k mod 8 \<le> (7::nat)"
  using mod_less_divisor [of 8 k] by simp

lemma div_mod_8_unique:
  "(k::nat) div 8 = d div 8 \<Longrightarrow> 7 - k mod 8 = 7 - d mod 8 \<Longrightarrow> k = d"
proof -
  assume a: "k div 8 = d div 8" and b: "7 - k mod 8 = 7 - d mod 8"
  from b not_less_eq_8 [of k] not_less_eq_8 [of d] have "k mod 8 = d mod 8" by linarith
  with a show ?thesis by (metis div_mult_mod_eq)
qed

lemma word_eq_take_bit_iff:
  "(\<And>j. j < w \<Longrightarrow> bit a j = bit v j) \<Longrightarrow> (\<And>j. w \<le> j \<Longrightarrow> \<not> bit a j) \<Longrightarrow> a = take_bit w v"
  for a v :: "'a::len word"
  by (rule bit_word_eqI) (auto simp: bit_take_bit_iff not_le [symmetric])

lemma take_bit_word_small:
  "unat v < 2 ^ n \<Longrightarrow> take_bit n v = v" for v :: "'a::len word"
  by (metis take_bit_nat_eq_self unsigned_take_bit_eq word_unat_eq_iff)

lemma unat_of_nat_small: "n < 2 ^ LENGTH('a) \<Longrightarrow> unat (of_nat n :: 'a::len word) = n"
  by (simp only: unsigned_of_nat of_nat_id take_bit_nat_eq_self)

lemma unat_ucast_up [mlx_simps]:
  "LENGTH('a) \<le> LENGTH('b) \<Longrightarrow> unat (ucast x :: 'b::len word) = unat x" for x :: "'a::len word"
proof -
  assume "LENGTH('a) \<le> LENGTH('b)"
  then have "(2::nat) ^ LENGTH('a) \<le> 2 ^ LENGTH('b)" by simp
  then have "unat x < 2 ^ LENGTH('b)" using unsigned_less [of x, where 'a=nat] by linarith
  then show ?thesis by (simp add: unsigned_ucast_eq take_bit_nat_eq_self)
qed

lemma unat_ucast_simps [simp]:
  "unat (ucast (a :: u8) :: u64) = unat a"
  "unat (ucast (b :: u16) :: u64) = unat b"
  "unat (ucast (c :: u32) :: u64) = unat c"
  "unat (ucast (a :: u8) :: u32) = unat a"
  "unat (ucast (b :: u16) :: u32) = unat b"
  "unat (ucast (a :: u8) :: u16) = unat a"
  by (rule unat_ucast_up, simp)+

lemma take_bit_full [simp]: "take_bit 64 (v :: u64) = v" "take_bit 32 (w :: u32) = w"
  by (rule take_bit_word_small, use unsigned_less [of v, where 'a = nat] in simp)
    (rule take_bit_word_small, use unsigned_less [of w, where 'a = nat] in simp)

text \<open>\<^verbatim>\<open>__builtin_ctz\<close>; the code never calls it on 0.\<close>

definition ctz :: "u32 \<Rightarrow> nat" where
  "ctz x = (case find (bit x) [0..<32] of Some i \<Rightarrow> i | None \<Rightarrow> 32)"

lemma ctz_bit: "x \<noteq> 0 \<Longrightarrow> bit x (ctz x) \<and> ctz x < 32"
proof -
  assume "x \<noteq> 0"
  then obtain n where "bit x n" by (auto simp: bit_eq_iff)
  then have n: "bit x n" "n < 32" by (auto dest: bit_imp_le_length)
  then obtain i where i: "find (bit x) [0..<32] = Some i"
    using find_None_iff [of "bit x" "[0..<32]"] by (cases "find (bit x) [0..<32]") auto
  then have "bit x i" "i < 32" by (auto simp: find_Some_iff)
  with i show ?thesis by (simp add: ctz_def)
qed

lemma mask_give_back: "bit x i \<Longrightarrow> (x AND NOT (push_bit i 1)) OR push_bit i 1 = x" for x :: u32
  by (rule bit_word_eqI)
    (auto simp: bit_or_iff bit_and_iff bit_not_iff bit_word_exp_iff)

lemma bit_mask_taken:
  "i < 32 \<Longrightarrow> bit (x AND NOT (push_bit k 1)) i = (bit x i \<and> i \<noteq> k)" for x :: u32
  by (auto simp: bit_and_iff bit_not_iff bit_word_exp_iff)

text \<open>Bit \<open>k\<close> of an array of 64-bit words, as the driver's bitmaps index it.\<close>

definition bit64s :: "u64 list \<Rightarrow> nat \<Rightarrow> bool" where
  "bit64s m k = bit (m ! (k div 64)) (k mod 64)"

lemma bit64s_set:
  assumes "e < 64 * length m"
  shows "bit64s (m[e div 64 := m ! (e div 64) OR push_bit (e mod 64) 1]) k = (k = e \<or> bit64s m k)"
proof (cases "k div 64 = e div 64")
  case True
  then have "(e mod 64 = k mod 64) = (k = e)" by (metis div_mult_mod_eq)
  moreover have "e div 64 < length m" using assms by (simp add: less_mult_imp_div_less mult.commute)
  ultimately show ?thesis
    using True by (auto simp: bit64s_def bit_or_iff bit_word_exp_iff)
next
  case False
  then show ?thesis by (auto simp: bit64s_def)
qed

lemma bit64s_clear:
  assumes "e < 64 * length m"
  shows "bit64s (m[e div 64 := m ! (e div 64) AND NOT (push_bit (e mod 64) 1)]) k =
    (k \<noteq> e \<and> bit64s m k)"
proof (cases "k div 64 = e div 64")
  case True
  then have "(e mod 64 = k mod 64) = (k = e)" by (metis div_mult_mod_eq)
  moreover have "e div 64 < length m" using assms by (simp add: less_mult_imp_div_less mult.commute)
  ultimately show ?thesis
    using True by (auto simp: bit64s_def bit_and_iff bit_not_iff bit_word_exp_iff)
next
  case False
  then show ?thesis by (auto simp: bit64s_def)
qed

section \<open>Buffers as bit strings\<close>

text \<open>
  The mlx5 interface format (IFC) counts bits from the most significant bit of byte zero.
  \<open>bufBit b k\<close> is the IFC bit \<open>k\<close> of a buffer.
\<close>

definition bufBit :: "buffer \<Rightarrow> nat \<Rightarrow> bool" where
  "bufBit b k = bit (b ! (k div 8)) (7 - k mod 8)"

definition bufBits :: "buffer \<Rightarrow> nat" where
  "bufBits b = 8 * length b"

lemma bufBit_replicate0 [simp]: "k < 8 * n \<Longrightarrow> \<not> bufBit (replicate n 0) k"
  by (simp add: bufBit_def)

lemma bufBit_eqI:
  assumes "length a = length b"
    and "\<And>k. k < 8 * length a \<Longrightarrow> bufBit a k = bufBit b k"
  shows "a = b"
proof (rule nth_equalityI [OF assms(1)])
  fix i assume i: "i < length a"
  show "a ! i = b ! i"
  proof (rule bit_word_eqI)
    fix n assume "n < LENGTH(8)"
    define m where "m = 7 - n"
    have m: "m < 8" and n: "n = 7 - m" using \<open>n < LENGTH(8)\<close> by (auto simp: m_def)
    have "8 * i + m < 8 * length a" using i m by simp
    then show "bit (a ! i) n = bit (b ! i) n"
      using assms(2) [of "8 * i + m"] m by (simp add: bufBit_def n)
  qed
qed

lemma bufBit_drop:
  "8 * n + k < 8 * length b \<Longrightarrow> bufBit (drop n b) k = bufBit b (8 * n + k)"
  by (simp add: bufBit_def nth_drop)

section \<open>Big-endian stores\<close>

text \<open>
  \<^verbatim>\<open>OSWriteBigInt16/32/64(base, offset, value)\<close>: the \<open>n\<close> low bytes of the value, most
  significant first, stored from byte \<open>offset\<close>.
\<close>

fun osWriteBig :: "nat \<Rightarrow> buffer \<Rightarrow> nat \<Rightarrow> u64 \<Rightarrow> buffer" where
  "osWriteBig 0 b off v = b"
| "osWriteBig (Suc n) b off v =
     osWriteBig n (b[off := ucast (drop_bit (8 * n) v)]) (Suc off) v"

definition OSWriteBigInt16 :: "buffer \<Rightarrow> nat \<Rightarrow> u64 \<Rightarrow> buffer" where
  "OSWriteBigInt16 = osWriteBig 2"

definition OSWriteBigInt32 :: "buffer \<Rightarrow> nat \<Rightarrow> u64 \<Rightarrow> buffer" where
  "OSWriteBigInt32 = osWriteBig 4"

definition OSWriteBigInt64 :: "buffer \<Rightarrow> nat \<Rightarrow> u64 \<Rightarrow> buffer" where
  "OSWriteBigInt64 = osWriteBig 8"

lemma length_osWriteBig [simp]: "length (osWriteBig n b off v) = length b"
  by (induction n b off v rule: osWriteBig.induct) auto

lemma length_OSWriteBig [simp]:
  "length (OSWriteBigInt16 b off v) = length b"
  "length (OSWriteBigInt32 b off v) = length b"
  "length (OSWriteBigInt64 b off v) = length b"
  by (simp_all add: OSWriteBigInt16_def OSWriteBigInt32_def OSWriteBigInt64_def)

lemma nth_osWriteBig:
  "off + n \<le> length b \<Longrightarrow> i < length b \<Longrightarrow>
   osWriteBig n b off v ! i =
     (if off \<le> i \<and> i < off + n then ucast (drop_bit (8 * (off + n - 1 - i)) v) else b ! i)"
  by (induction n b off v rule: osWriteBig.induct) (auto simp: nth_list_update)

text \<open>
  \<^verbatim>\<open>memcpy(dst + off, src, len)\<close> on buffers.
\<close>

definition copyInto :: "buffer \<Rightarrow> nat \<Rightarrow> buffer \<Rightarrow> buffer" where
  "copyInto dst off src = take off dst @ src @ drop (off + length src) dst"

lemma length_copyInto [simp]:
  "off + length src \<le> length dst \<Longrightarrow> length (copyInto dst off src) = length dst"
  by (simp add: copyInto_def)

lemma nth_copyInto:
  "off + length src \<le> length dst \<Longrightarrow> i < length dst \<Longrightarrow>
   copyInto dst off src ! i =
     (if off \<le> i \<and> i < off + length src then src ! (i - off) else dst ! i)"
  by (auto simp: copyInto_def nth_append)

lemma take_drop_copyInto:
  "off + length src \<le> length dst \<Longrightarrow> take (length src) (drop off (copyInto dst off src)) = src"
  by (simp add: copyInto_def)

end
