(* ===== verification/MlxIfc.thy ===== *)
theory MlxIfc
  imports MlxPrelude
begin

text \<open>
  \<^verbatim>\<open>Sources/hw/MlxIfcHelpers.hpp\<close>: the two bit-field accessors every command encoder and
  parser of the driver is built on. A buffer is a list of bytes; the accessors are bit by bit
  loops, as in the source. The locale \<open>bit_store\<close> is the contract the encoders rely on: a
  field reads back what was written to it, and writing a field leaves every disjoint field
  alone. It is interpreted on \<open>mlxSetBits\<close> and \<open>mlxGetBits\<close> themselves. A C++ access
  outside the buffer would be undefined behaviour, so every law carries the bounds condition
  \<open>off + w \<le> bufBits b\<close>, which each encoder's lemmas discharge.
\<close>

unbundle bit_operations_syntax

section \<open>The accessors\<close>

definition setBitsStep :: "nat \<Rightarrow> nat \<Rightarrow> u64 \<Rightarrow> buffer \<Rightarrow> nat \<Rightarrow> buffer" where
  "setBitsStep bitOffset bitWidth value bytes i =
     (let dstBit = bitOffset + i;
          mask = (push_bit (7 - dstBit mod 8) 1 :: u8);
          srcMask = (push_bit (bitWidth - i - 1) 1 :: u64)
      in if value AND srcMask \<noteq> 0
         then bytes[dstBit div 8 := (bytes ! (dstBit div 8)) OR mask]
         else bytes[dstBit div 8 := (bytes ! (dstBit div 8)) AND NOT mask])"

definition mlxSetBits :: "buffer \<Rightarrow> nat \<Rightarrow> nat \<Rightarrow> u64 \<Rightarrow> buffer" where
  "mlxSetBits buffer bitOffset bitWidth value =
     foldl (setBitsStep bitOffset bitWidth value) buffer [0..<bitWidth]"

definition getBitsStep :: "buffer \<Rightarrow> nat \<Rightarrow> u64 \<Rightarrow> nat \<Rightarrow> u64" where
  "getBitsStep bytes bitOffset value i =
     (let srcBit = bitOffset + i
      in push_bit 1 value OR
         (ucast (drop_bit (7 - srcBit mod 8) (bytes ! (srcBit div 8))) AND 1))"

definition mlxGetBits :: "buffer \<Rightarrow> nat \<Rightarrow> nat \<Rightarrow> u64" where
  "mlxGetBits buffer bitOffset bitWidth =
     foldl (getBitsStep buffer bitOffset) 0 [0..<bitWidth]"

section \<open>Bit-level meaning of the loops\<close>

lemma length_setBitsStep [simp]: "length (setBitsStep off w v b i) = length b"
  by (simp add: setBitsStep_def Let_def)

lemma bufBit_setBitsStep:
  assumes "off + i < 8 * length b"
  shows "bufBit (setBitsStep off w v b i) k =
    (if k = off + i then bit v (w - i - 1) else bufBit b k)"
proof -
  let ?d = "off + i"
  have d: "?d div 8 < length b" using assms by (simp add: less_mult_imp_div_less mult.commute)
  have m: "7 - k mod 8 < 8" by simp
  show ?thesis
  proof (cases "k div 8 = ?d div 8")
    case False
    then have "k \<noteq> ?d" by auto
    with False show ?thesis
      by (auto simp: bufBit_def setBitsStep_def Let_def nth_list_update)
  next
    case True
    have "(7 - k mod 8 = 7 - ?d mod 8) = (k = ?d)"
      using div_mod_8_unique [OF True] by auto
    with True d m show ?thesis
      by (auto simp: bufBit_def setBitsStep_def Let_def and_exp_eq_0 bit_word_exp_iff
          bit_or_iff bit_and_iff bit_not_iff)
  qed
qed

lemma setBits_foldl:
  assumes "n \<le> w" and "off + w \<le> 8 * length b"
  shows "length (foldl (setBitsStep off w v) b [0..<n]) = length b \<and>
    (\<forall>k. bufBit (foldl (setBitsStep off w v) b [0..<n]) k =
      (if off \<le> k \<and> k < off + n then bit v (w - 1 - (k - off)) else bufBit b k))"
  using assms(1)
proof (induction n)
  case 0
  then show ?case by auto
next
  case (Suc n)
  let ?b = "foldl (setBitsStep off w v) b [0..<n]"
  have len: "length ?b = length b" and
    ih: "\<And>k. bufBit ?b k =
      (if off \<le> k \<and> k < off + n then bit v (w - 1 - (k - off)) else bufBit b k)"
    using Suc by auto
  have "off + n < 8 * length ?b" using Suc.prems assms(2) len by simp
  note step = bufBit_setBitsStep [OF this, of w v]
  show ?case using len by (auto simp: step ih)
qed

lemma length_mlxSetBits [simp]: "length (mlxSetBits b off w v) = length b"
proof -
  have "length (foldl (setBitsStep off w v) b xs) = length b" for xs
    by (induction xs arbitrary: b) auto
  then show ?thesis by (simp add: mlxSetBits_def)
qed

lemma bufBits_mlxSetBits [simp]: "bufBits (mlxSetBits b off w v) = bufBits b"
  by (simp add: bufBits_def)

lemma bufBit_mlxSetBits:
  "off + w \<le> bufBits b \<Longrightarrow>
   bufBit (mlxSetBits b off w v) k =
     (if off \<le> k \<and> k < off + w then bit v (w - 1 - (k - off)) else bufBit b k)"
  using setBits_foldl [of w w off b v] by (simp add: mlxSetBits_def bufBits_def)

lemma bit_getBitsStep:
  "bit (getBitsStep b off v i) j =
     (j < 64 \<and> (if j = 0 then bufBit b (off + i) else bit v (j - 1)))"
  unfolding getBitsStep_def Let_def bufBit_def bit_or_iff bit_and_iff bit_push_bit_iff
    bit_1_iff bit_ucast_iff bit_drop_bit_eq
  by (cases j) (auto dest: bit_imp_le_length)

lemma bit_getBits_foldl:
  "bit (foldl (getBitsStep b off) 0 [0..<n]) j =
     (j < 64 \<and> j < n \<and> bufBit b (off + n - 1 - j))"
proof (induction n arbitrary: j)
  case 0
  then show ?case by simp
next
  case (Suc n)
  have "foldl (getBitsStep b off) 0 [0..<Suc n] =
      getBitsStep b off (foldl (getBitsStep b off) 0 [0..<n]) n" by simp
  then have "bit (foldl (getBitsStep b off) 0 [0..<Suc n]) j =
      (j < 64 \<and> (if j = 0 then bufBit b (off + n)
        else j - 1 < 64 \<and> j - 1 < n \<and> bufBit b (off + n - 1 - (j - 1))))"
    by (simp only: bit_getBitsStep Suc.IH)
  moreover have "off + n - 1 - (j - 1) = off + Suc n - 1 - j" if "j \<noteq> 0"
    using that by simp
  ultimately show ?case by auto
qed

lemma bit_mlxGetBits:
  "bit (mlxGetBits b off w) j = (j < 64 \<and> j < w \<and> bufBit b (off + w - 1 - j))"
  by (simp add: mlxGetBits_def bit_getBits_foldl)

section \<open>The field contract\<close>

locale bit_store =
  fixes setf :: "'s \<Rightarrow> nat \<Rightarrow> nat \<Rightarrow> u64 \<Rightarrow> 's"
    and getf :: "'s \<Rightarrow> nat \<Rightarrow> nat \<Rightarrow> u64"
    and cap :: "'s \<Rightarrow> nat"
  assumes cap_set: "cap (setf s off w v) = cap s"
    and get_set_same: "off + w \<le> cap s \<Longrightarrow> w \<le> 64 \<Longrightarrow> getf (setf s off w v) off w = take_bit w v"
    and get_set_other: "off + w \<le> cap s \<Longrightarrow> off' + w' \<le> off \<or> off + w \<le> off' \<Longrightarrow>
      getf (setf s off w v) off' w' = getf s off' w'"
begin

lemma cap_fields [simp]: "cap (foldl (\<lambda>b (o', w, v). setf b o' w v) s fs) = cap s"
  by (induction fs arbitrary: s) (auto simp: cap_set)

lemma fields_other:
  "(\<forall>(o', w, v)\<in>set fs. o' + w \<le> cap s \<and> (off + k \<le> o' \<or> o' + w \<le> off)) \<Longrightarrow>
   getf (foldl (\<lambda>b (o', w, v). setf b o' w v) s fs) off k = getf s off k"
proof (induction fs arbitrary: s)
  case Nil
  then show ?case by simp
next
  case (Cons f fs)
  obtain o' w v where f: "f = (o', w, v)" by (cases f)
  from Cons.prems have "getf (setf s o' w v) off k = getf s off k"
    by (intro get_set_other) (auto simp: f)
  moreover from Cons.prems have
    "getf (foldl (\<lambda>b (o', w, v). setf b o' w v) (setf s o' w v) fs) off k =
     getf (setf s o' w v) off k"
    by (intro Cons.IH) (auto simp: f cap_set)
  ultimately show ?case by (simp add: f)
qed

text \<open>A field of a program of pairwise disjoint writes reads back its own value.\<close>

lemma fields_get:
  "sorted_wrt (\<lambda>(o1, w1, v1) (o2, w2, v2). o1 + w1 \<le> o2 \<or> o2 + w2 \<le> o1) fs \<Longrightarrow>
   (\<forall>(o', w, v)\<in>set fs. o' + w \<le> cap s) \<Longrightarrow> (off, k, x) \<in> set fs \<Longrightarrow> k \<le> 64 \<Longrightarrow>
   getf (foldl (\<lambda>b (o', w, v). setf b o' w v) s fs) off k = take_bit k x"
proof (induction fs arbitrary: s)
  case Nil
  then show ?case by simp
next
  case (Cons f fs)
  obtain o' w v where f: "f = (o', w, v)" by (cases f)
  show ?case
  proof (cases "(off, k, x) \<in> set fs")
    case True
    have "getf (foldl (\<lambda>b (o', w, v). setf b o' w v) (setf s o' w v) fs) off k = take_bit k x"
      by (rule Cons.IH) (use Cons.prems True in \<open>auto simp: f cap_set\<close>)
    then show ?thesis by (simp add: f)
  next
    case False
    with Cons.prems have eq: "o' = off" "w = k" "v = x" by (auto simp: f)
    have "getf (foldl (\<lambda>b (o', w, v). setf b o' w v) (setf s o' w v) fs) off k =
        getf (setf s o' w v) off k"
      by (rule fields_other) (use Cons.prems eq in \<open>auto simp: f cap_set\<close>)
    also have "\<dots> = take_bit k x"
      using Cons.prems eq by (simp add: f get_set_same)
    finally show ?thesis by (simp add: f)
  qed
qed

end

lemma mlxGetBits_set_same:
  "off + w \<le> bufBits b \<Longrightarrow> w \<le> 64 \<Longrightarrow>
   mlxGetBits (mlxSetBits b off w v) off w = take_bit w v"
  by (rule word_eq_take_bit_iff)
    (auto simp: bit_mlxGetBits bufBit_mlxSetBits)

lemma mlxGetBits_set_other:
  "off + w \<le> bufBits b \<Longrightarrow> off' + w' \<le> off \<or> off + w \<le> off' \<Longrightarrow>
   mlxGetBits (mlxSetBits b off w v) off' w' = mlxGetBits b off' w'"
  by (rule bit_word_eqI) (auto simp: bit_mlxGetBits bufBit_mlxSetBits)

interpretation ifc: bit_store mlxSetBits mlxGetBits bufBits
  by unfold_locales (auto simp: mlxGetBits_set_same mlxGetBits_set_other)

section \<open>Field programs\<close>

text \<open>
  A run of \<^verbatim>\<open>mlxSetBits(buf, offset, width, value)\<close> statements, in source order.
\<close>

type_synonym field = "nat \<times> nat \<times> u64"

definition setFields :: "buffer \<Rightarrow> field list \<Rightarrow> buffer" where
  "setFields b fs = foldl (\<lambda>b (off, w, v). mlxSetBits b off w v) b fs"

definition fieldsDisjoint :: "field list \<Rightarrow> bool" where
  "fieldsDisjoint = sorted_wrt (\<lambda>(o1, w1, v1) (o2, w2, v2). o1 + w1 \<le> o2 \<or> o2 + w2 \<le> o1)"

definition fieldsWithin :: "field list \<Rightarrow> nat \<Rightarrow> bool" where
  "fieldsWithin fs n = (\<forall>(off, w, v)\<in>set fs. off + w \<le> n)"

lemma setFields_simps [simp]:
  "setFields b [] = b"
  "setFields b ((off, w, v) # fs) = setFields (mlxSetBits b off w v) fs"
  by (simp_all add: setFields_def)

lemma setFields_append: "setFields b (fs @ gs) = setFields (setFields b fs) gs"
  by (simp add: setFields_def)

lemma length_setFields [simp]: "length (setFields b fs) = length b"
  by (induction fs arbitrary: b) auto

lemma bufBits_setFields [simp]: "bufBits (setFields b fs) = bufBits b"
  by (simp add: bufBits_def)

lemma getBits_setFields:
  "fieldsDisjoint fs \<Longrightarrow> fieldsWithin fs (bufBits b) \<Longrightarrow> (off, k, x) \<in> set fs \<Longrightarrow> k \<le> 64 \<Longrightarrow>
   mlxGetBits (setFields b fs) off k = take_bit k x"
  using ifc.fields_get [of fs b off k x]
  by (simp add: setFields_def fieldsDisjoint_def fieldsWithin_def)

lemma getBits_setFields_other:
  "\<forall>(o', w, v)\<in>set fs. o' + w \<le> bufBits b \<and> (off + k \<le> o' \<or> o' + w \<le> off) \<Longrightarrow>
   mlxGetBits (setFields b fs) off k = mlxGetBits b off k"
  using ifc.fields_other [of fs b off k] by (simp add: setFields_def)

lemma bufBit_setFields_other:
  "\<forall>(o', w, v)\<in>set fs. o' + w \<le> bufBits b \<and> (k < o' \<or> o' + w \<le> k) \<Longrightarrow>
   bufBit (setFields b fs) k = bufBit b k"
  by (induction fs arbitrary: b) (auto simp: bufBit_mlxSetBits)

lemma mlxGetBits_zero [simp]: "off + w \<le> 8 * n \<Longrightarrow> mlxGetBits (replicate n 0) off w = 0"
  by (rule bit_word_eqI) (auto simp: bit_mlxGetBits)

lemma take_bit_mlxGetBits [simp]: "w \<le> n \<Longrightarrow> take_bit n (mlxGetBits b off w) = mlxGetBits b off w"
  by (rule bit_word_eqI) (auto simp: bit_take_bit_iff bit_mlxGetBits)

lemma mlxGetBits_less: "w < 64 \<Longrightarrow> unat (mlxGetBits b off w) < 2 ^ w"
proof -
  assume "w < 64"
  have "take_bit w (mlxGetBits b off w) = mlxGetBits b off w" by simp
  then show ?thesis
    by (metis take_bit_nat_less_exp unsigned_take_bit_eq)
qed

text \<open>The big-endian byte stores are bit-field writes at a byte boundary.\<close>

lemma bit_osWriteBig:
  assumes "off + n \<le> length b" and "n \<le> 8"
  shows "osWriteBig n b off v = mlxSetBits b (8 * off) (8 * n) v"
proof (rule bufBit_eqI)
  fix k assume k: "k < 8 * length (osWriteBig n b off v)"
  then have i: "k div 8 < length b" by (simp add: less_mult_imp_div_less mult.commute)
  have le7: "k mod 8 \<le> 7" by (rule not_less_eq_8)
  have win: "(off \<le> k div 8 \<and> k div 8 < off + n) = (8 * off \<le> k \<and> k < 8 * off + 8 * n)"
    by (auto simp: less_eq_div_iff_mult_less_eq div_less_iff_less_mult algebra_simps)
  have pos: "8 * (off + n - 1 - k div 8) + (7 - k mod 8) = 8 * n - 1 - (k - 8 * off)"
    if in_field: "off \<le> k div 8" "k div 8 < off + n"
  proof -
    from in_field(1) obtain e where e: "k div 8 = off + e" by (auto simp: le_iff_add)
    with in_field(2) have "e < n" by simp
    then obtain d where d: "n = Suc (e + d)" by (auto dest: less_imp_Suc_add)
    have "k = 8 * (off + e) + k mod 8" using e div_mult_mod_eq [of k 8] by simp
    then obtain r where r: "k = 8 * (off + e) + r" "r \<le> 7" "k mod 8 = r" using le7 by auto
    then have "k - 8 * off = 8 * e + r" by simp
    then show ?thesis using r(2) by (simp add: e d r(3))
  qed
  show "bufBit (osWriteBig n b off v) k = bufBit (mlxSetBits b (8 * off) (8 * n) v) k"
  proof (cases "off \<le> k div 8 \<and> k div 8 < off + n")
    case True
    with win pos assms i le7 show ?thesis
      by (simp add: bufBit_mlxSetBits bufBits_def bufBit_def [of "osWriteBig n b off v"]
          nth_osWriteBig bit_ucast_u8 bit_drop_bit_eq add.commute)
  next
    case False
    with win assms have "bufBit (mlxSetBits b (8 * off) (8 * n) v) k = bufBit b k"
      by (auto simp: bufBit_mlxSetBits bufBits_def)
    moreover have "osWriteBig n b off v ! (k div 8) = b ! (k div 8)"
      using False assms i by (auto simp: nth_osWriteBig)
    ultimately show ?thesis by (simp add: bufBit_def)
  qed
qed simp

lemma OSWriteBig_mlxSetBits:
  "off + 2 \<le> length b \<Longrightarrow> OSWriteBigInt16 b off v = mlxSetBits b (8 * off) 16 v"
  "off + 4 \<le> length b \<Longrightarrow> OSWriteBigInt32 b off v = mlxSetBits b (8 * off) 32 v"
  "off + 8 \<le> length b \<Longrightarrow> OSWriteBigInt64 b off v = mlxSetBits b (8 * off) 64 v"
  by (simp_all add: OSWriteBigInt16_def OSWriteBigInt32_def OSWriteBigInt64_def bit_osWriteBig)

section \<open>Byte runs next to bit fields\<close>

definition bytesAt :: "buffer \<Rightarrow> nat \<Rightarrow> nat \<Rightarrow> buffer" where
  "bytesAt b off n = take n (drop off b)"

lemma bufBit_copyInto_other:
  "off + length src \<le> length b \<Longrightarrow> k < 8 * length b \<Longrightarrow> k < 8 * off \<or> 8 * (off + length src) \<le> k \<Longrightarrow>
   bufBit (copyInto b off src) k = bufBit b k"
  by (auto simp: bufBit_def nth_copyInto less_mult_imp_div_less mult.commute)

lemma mlxGetBits_cong:
  "(\<And>k. off \<le> k \<Longrightarrow> k < off + w \<Longrightarrow> bufBit a k = bufBit b k) \<Longrightarrow>
   mlxGetBits a off w = mlxGetBits b off w"
  by (rule bit_word_eqI) (auto simp: bit_mlxGetBits)

lemma getBits_copyInto_other:
  "off + length src \<le> length b \<Longrightarrow> off' + w \<le> 8 * length b \<Longrightarrow>
   off' + w \<le> 8 * off \<or> 8 * (off + length src) \<le> off' \<Longrightarrow>
   mlxGetBits (copyInto b off src) off' w = mlxGetBits b off' w"
  by (rule mlxGetBits_cong, rule bufBit_copyInto_other) auto

lemma bytesAt_copyInto_same:
  "off + length src \<le> length b \<Longrightarrow> length src = n \<Longrightarrow> bytesAt (copyInto b off src) off n = src"
  by (auto simp: bytesAt_def take_drop_copyInto)

lemma bytesAt_copyInto_other:
  "off + length src \<le> length b \<Longrightarrow> off' + n \<le> off \<or> off + length src \<le> off' \<Longrightarrow>
   off' + n \<le> length b \<Longrightarrow> bytesAt (copyInto b off src) off' n = bytesAt b off' n"
  unfolding bytesAt_def by (rule nth_equalityI) (auto simp: nth_copyInto)

text \<open>Writing one slot of a ring of 64-byte entries.\<close>

lemma ring_slots:
  assumes "length b = n * 64" "length w = 64" "i < n" "j < n"
  shows "bytesAt (copyInto b (i * 64) w) (j * 64) 64 = (if j = i then w else bytesAt b (j * 64) 64)"
proof (cases "j = i")
  case True
  then show ?thesis using assms by (simp add: bytesAt_copyInto_same)
next
  case False
  then have "j * 64 + 64 \<le> i * 64 \<or> i * 64 + 64 \<le> j * 64" by linarith
  then show ?thesis using assms False by (simp add: bytesAt_copyInto_other)
qed

lemma nth_setFields_other:
  assumes "\<forall>(o', w, v)\<in>set fs. o' + w \<le> bufBits b \<and> (8 * i + 8 \<le> o' \<or> o' + w \<le> 8 * i)"
    and "i < length b"
  shows "setFields b fs ! i = b ! i"
proof (rule bit_word_eqI)
  fix n assume n: "n < LENGTH(8)"
  have "\<forall>(o', w, v)\<in>set fs. o' + w \<le> bufBits b \<and> (8 * i + (7 - n) < o' \<or> o' + w \<le> 8 * i + (7 - n))"
    using assms(1) n by fastforce
  from bufBit_setFields_other [OF this] n
  show "bit (setFields b fs ! i) n = bit (b ! i) n" by (simp add: bufBit_def)
qed

lemma bytesAt_setFields_other:
  assumes "\<forall>(o', w, v)\<in>set fs. o' + w \<le> bufBits b \<and> (8 * (off + n) \<le> o' \<or> o' + w \<le> 8 * off)"
    and "off + n \<le> length b"
  shows "bytesAt (setFields b fs) off n = bytesAt b off n"
  unfolding bytesAt_def
proof (rule nth_equalityI)
  fix i assume "i < length (take n (drop off (setFields b fs)))"
  then have "i < n" "off + i < length b" using assms(2) by auto
  moreover have "setFields b fs ! (off + i) = b ! (off + i)"
    by (rule nth_setFields_other) (use assms \<open>i < n\<close> in fastforce)+
  ultimately show "take n (drop off (setFields b fs)) ! i = take n (drop off b) ! i" by simp
qed simp

lemma bytesAt_osWriteBig_other:
  "off + k \<le> length b \<Longrightarrow> off' + n \<le> length b \<Longrightarrow> off' + n \<le> off \<or> off + k \<le> off' \<Longrightarrow>
   bytesAt (osWriteBig k b off v) off' n = bytesAt b off' n"
  unfolding bytesAt_def by (rule nth_equalityI) (auto simp: nth_osWriteBig)

lemma bytesAt_OSWriteBig_other:
  assumes "off' + n \<le> length b"
  shows "off + 4 \<le> length b \<Longrightarrow> off' + n \<le> off \<or> off + 4 \<le> off' \<Longrightarrow>
      bytesAt (OSWriteBigInt32 b off v) off' n = bytesAt b off' n"
    and "off + 8 \<le> length b \<Longrightarrow> off' + n \<le> off \<or> off + 8 \<le> off' \<Longrightarrow>
      bytesAt (OSWriteBigInt64 b off v) off' n = bytesAt b off' n"
  using assms
  by (simp_all add: OSWriteBigInt32_def OSWriteBigInt64_def bytesAt_osWriteBig_other)

lemma bytesAt_list_update_other:
  "i < off \<or> off + n \<le> i \<Longrightarrow> bytesAt (b[i := v]) off n = bytesAt b off n"
  by (auto simp: bytesAt_def drop_update_cancel take_update_cancel drop_update_swap)

lemma getBits_list_update_other:
  "8 * i + 8 \<le> off \<or> off + w \<le> 8 * i \<Longrightarrow> mlxGetBits (b[i := v]) off w = mlxGetBits b off w"
proof (rule mlxGetBits_cong)
  fix k assume "8 * i + 8 \<le> off \<or> off + w \<le> 8 * i" "off \<le> k" "k < off + w"
  then have "i \<noteq> k div 8" by (auto simp: less_mult_imp_div_less)
  then show "bufBit (b[i := v]) k = bufBit b k" by (simp add: bufBit_def)
qed

lemma length_bytesAt [simp]: "off + n \<le> length b \<Longrightarrow> length (bytesAt b off n) = n"
  by (simp add: bytesAt_def)

end
