(* ===== verification/MlxP0.thy ===== *)
theory MlxP0
  imports MlxIfc
begin

text \<open>
  \<^verbatim>\<open>Sources/hw/MlxP0Encoding.hpp\<close>: the QP context encoders of the three QP transitions, the
  expansion of a DMA segment into 4 KiB memory-translation (MTT) pages, and the CREATE_MKEY
  encoder. A pointer that the code tests for NULL is an \<open>option\<close>. An encoder returns the
  success flag with the buffer and the option mask as they are on return, because the C++
  functions may have written part of the buffer when they return false.
\<close>

unbundle bit_operations_syntax

section \<open>Constants and data\<close>

definition MLX_QPC_BYTES :: nat where "MLX_QPC_BYTES = 0x740 div 8"
definition MLX_QP_MODIFY_IN_BYTES :: nat where "MLX_QP_MODIFY_IN_BYTES = 0x880 div 8"
definition MLX_QPC_BIT_OFFSET :: nat where "MLX_QPC_BIT_OFFSET = 0xc0"
definition MLX_QPC_PRIMARY_PATH_BIT_OFFSET :: nat where
  "MLX_QPC_PRIMARY_PATH_BIT_OFFSET = 0xc0"
definition MLX_CREATE_MKEY_FIXED_BYTES :: u32 where
  "MLX_CREATE_MKEY_FIXED_BYTES = 0x880 div 8"
definition MLX_MTT_PAGE_SHIFT :: nat where "MLX_MTT_PAGE_SHIFT = 12"
definition MLX_MTT_PAGE_SIZE :: u64 where "MLX_MTT_PAGE_SIZE = push_bit MLX_MTT_PAGE_SHIFT 1"
definition MLX_CREATE_MKEY_MAX_PAGES :: u32 where
  "MLX_CREATE_MKEY_MAX_PAGES = (4112 - MLX_CREATE_MKEY_FIXED_BYTES) div 8"

lemmas p0_const_defs = MLX_QPC_BYTES_def MLX_QP_MODIFY_IN_BYTES_def MLX_QPC_BIT_OFFSET_def
  MLX_QPC_PRIMARY_PATH_BIT_OFFSET_def MLX_CREATE_MKEY_FIXED_BYTES_def MLX_MTT_PAGE_SHIFT_def
  MLX_MTT_PAGE_SIZE_def MLX_CREATE_MKEY_MAX_PAGES_def

definition MLX_MR_ACCESS_LOCAL_WRITE :: u32 where "MLX_MR_ACCESS_LOCAL_WRITE = push_bit 0 1"
definition MLX_MR_ACCESS_REMOTE_WRITE :: u32 where "MLX_MR_ACCESS_REMOTE_WRITE = push_bit 1 1"
definition MLX_MR_ACCESS_REMOTE_READ :: u32 where "MLX_MR_ACCESS_REMOTE_READ = push_bit 2 1"
definition MLX_MR_ACCESS_REMOTE_ATOMIC :: u32 where "MLX_MR_ACCESS_REMOTE_ATOMIC = push_bit 3 1"
definition MLX_MR_ACCESS_SUPPORTED :: u32 where "MLX_MR_ACCESS_SUPPORTED = push_bit 4 1 - 1"

record MlxRocePathFields =
  path_dmac :: buffer
  path_dgid :: buffer
  path_sgidIndex :: u32
  path_hopLimit :: u8
  path_trafficClass :: u8
  path_udpSport :: u16
  path_pkeyIndex :: u16
  path_portNum :: u8

text \<open>The two fixed-size arrays of the struct.\<close>

definition pathWf :: "MlxRocePathFields \<Rightarrow> bool" where
  "pathWf p = (length (path_dmac p) = 6 \<and> length (path_dgid p) = 16)"

section \<open>Queue pair contexts\<close>

function log2Loop :: "u32 \<Rightarrow> u32 \<Rightarrow> u32" where
  "log2Loop val lg = (if 1 < val then log2Loop (drop_bit 1 val) (lg + 1) else lg)"
  by pat_completeness auto
termination
proof (relation "measure (\<lambda>(val, lg). unat val)")
  fix val lg :: u32
  assume "1 < val"
  then have "1 < unat val" by (simp add: word_less_nat_alt)
  then show "((drop_bit 1 val, lg + 1), (val, lg)) \<in> measure (\<lambda>(val, lg). unat val)"
    by (simp add: drop_bit_eq_div unat_div)
qed simp

declare log2Loop.simps [simp del]

definition mlxLog2PowerOfTwo :: "u32 \<Rightarrow> u32" where
  "mlxLog2PowerOfTwo val = log2Loop val 0"

definition mlxEncodeRst2InitQpc ::
  "buffer option \<Rightarrow> nat \<Rightarrow> u32 \<Rightarrow> u32 \<Rightarrow> u32 option \<Rightarrow> bool \<times> buffer option \<times> u32 option" where
  "mlxEncodeRst2InitQpc qpcBuffer qpcSize pkeyIndex portNum optParamMask =
     (case qpcBuffer of
        None \<Rightarrow> (False, None, optParamMask)
      | Some qpc \<Rightarrow>
          if qpcSize < MLX_QPC_BYTES \<or> 0xffff < pkeyIndex \<or> portNum = 0 \<or> 0xff < portNum
          then (False, Some qpc, optParamMask)
          else (True,
            Some (setFields qpc
              [(0x08, 8, 0),
               (MLX_QPC_PRIMARY_PATH_BIT_OFFSET + 0x10, 16, ucast pkeyIndex),
               (MLX_QPC_PRIMARY_PATH_BIT_OFFSET + 0x128, 8, ucast portNum)]),
            map_option (\<lambda>_. 0) optParamMask))"

definition mlxEncodeRocePrimaryPath ::
  "buffer option \<Rightarrow> nat \<Rightarrow> MlxRocePathFields option \<Rightarrow> bool \<times> buffer option" where
  "mlxEncodeRocePrimaryPath qpcBuffer qpcSize path =
     (case (qpcBuffer, path) of
        (Some qpc, Some p) \<Rightarrow>
          if qpcSize < MLX_QPC_BYTES \<or> 0xff < path_sgidIndex p \<or> path_portNum p = 0
          then (False, Some qpc)
          else
            (let ads = MLX_QPC_PRIMARY_PATH_BIT_OFFSET;
                 qpc = setFields qpc
                   [(ads + 0x10, 16, ucast (path_pkeyIndex p)),
                    (ads + 0x48, 8, ucast (path_sgidIndex p)),
                    (ads + 0x58, 8, if path_hopLimit p \<noteq> 0 then ucast (path_hopLimit p) else 64),
                    (ads + 0x10a, 6, drop_bit 2 (ucast (path_trafficClass p))),
                    (ads + 0x110, 16, ucast (path_udpSport p)),
                    (ads + 0x121, 3, 0),
                    (ads + 0x128, 8, ucast (path_portNum p))];
                 qpc = copyInto qpc ((ads + 0x80) div 8) (path_dgid p);
                 qpc = copyInto qpc ((ads + 0x130) div 8) (path_dmac p)
             in (True, Some qpc))
      | _ \<Rightarrow> (False, qpcBuffer))"

definition mlxEncodeInit2RtrQpc ::
  "buffer option \<Rightarrow> nat \<Rightarrow> MlxRocePathFields option \<Rightarrow> u32 \<Rightarrow> u32 \<Rightarrow> u32 \<Rightarrow> u32 \<Rightarrow> u32 option \<Rightarrow>
   bool \<times> buffer option \<times> u32 option" where
  "mlxEncodeInit2RtrQpc qpcBuffer qpcSize path destQpn pathMtu rqPsn maxDestRdAtomic
       optParamMask =
     (case qpcBuffer of
        None \<Rightarrow> (False, None, optParamMask)
      | Some qpc \<Rightarrow>
          if qpcSize < MLX_QPC_BYTES \<or> path = None \<or> 0xffffff < destQpn \<or> pathMtu = 0 \<or>
             5 < pathMtu \<or> 0xffffff < rqPsn \<or> 128 < maxDestRdAtomic \<or>
             maxDestRdAtomic AND (maxDestRdAtomic - 1) \<noteq> 0
          then (False, Some qpc, optParamMask)
          else
            (let qpc = setFields qpc
                   [(0x08, 8, 0),
                    (0x40, 3, ucast pathMtu),
                    (0xa8, 24, ucast destQpn),
                    (0x4a8, 24, ucast rqPsn)];
                 (ok, qpc') = mlxEncodeRocePrimaryPath (Some qpc) qpcSize path
             in if \<not> ok then (False, qpc', optParamMask)
                else if maxDestRdAtomic \<noteq> 0
                then (True,
                  map_option (\<lambda>qpc. setFields qpc
                    [(0x488, 3, ucast (mlxLog2PowerOfTwo maxDestRdAtomic)),
                     (0x490, 1, 1),
                     (0x491, 1, 1)]) qpc',
                  map_option (\<lambda>_. push_bit 1 1 OR push_bit 3 1) optParamMask)
                else (True, qpc', map_option (\<lambda>_. 0) optParamMask)))"

definition mlxEncodeRtr2RtsQpc ::
  "buffer option \<Rightarrow> nat \<Rightarrow> u32 \<Rightarrow> u32 \<Rightarrow> u32 \<Rightarrow> u32 option \<Rightarrow>
   bool \<times> buffer option \<times> u32 option" where
  "mlxEncodeRtr2RtsQpc qpcBuffer qpcSize sqPsn minRnrTimer maxRdAtomic optParamMask =
     (case qpcBuffer of
        None \<Rightarrow> (False, None, optParamMask)
      | Some qpc \<Rightarrow>
          if qpcSize < MLX_QPC_BYTES \<or> 0xffffff < sqPsn \<or> 0x1f < minRnrTimer \<or>
             128 < maxRdAtomic \<or> maxRdAtomic AND (maxRdAtomic - 1) \<noteq> 0
          then (False, Some qpc, optParamMask)
          else
            (let qpc = setFields qpc
                   [(0x08, 8, 0),
                    (0x3c8, 24, ucast sqPsn),
                    (0x4a3, 5, ucast minRnrTimer)];
                 qpc = (if maxRdAtomic \<noteq> 0
                        then setFields qpc [(0x388, 3, ucast (mlxLog2PowerOfTwo maxRdAtomic))]
                        else qpc)
             in (True, Some qpc, map_option (\<lambda>_. push_bit 6 1) optParamMask)))"

section \<open>Memory translation pages\<close>

text \<open>
  The loop of \<^verbatim>\<open>mlxAppendMttPages\<close>. The list holds the first \<open>*pageCount\<close> entries of the
  \<open>pages\<close> array, which are the only ones the loop reads; its length is the count.
\<close>

function appendMttLoop :: "u64 \<Rightarrow> u64 \<Rightarrow> u64 list \<Rightarrow> nat \<Rightarrow> bool \<times> u64 list" where
  "appendMttLoop dmaAddress len pages capacity =
     (if len = 0 then (True, pages)
      else
        (let page = dmaAddress AND NOT (MLX_MTT_PAGE_SIZE - 1);
             fresh = (pages = [] \<or> last pages \<noteq> page)
         in if fresh \<and> capacity \<le> length pages then (False, pages)
            else
              (let pages = (if fresh then pages @ [page] else pages);
                   step = MLX_MTT_PAGE_SIZE - (dmaAddress AND (MLX_MTT_PAGE_SIZE - 1));
                   step = (if len < step then len else step)
               in appendMttLoop (dmaAddress + step) (len - step) pages capacity)))"
  by pat_completeness auto

lemma mtt_page_size: "MLX_MTT_PAGE_SIZE = 4096"
  by (simp add: MLX_MTT_PAGE_SIZE_def MLX_MTT_PAGE_SHIFT_def)

lemma unat_page_off: "unat (a AND 4095 :: u64) = unat a mod 4096"
proof -
  have "a AND 4095 = take_bit 12 a" by (simp add: take_bit_eq_mask mask_eq_exp_minus_1)
  then show ?thesis by (simp add: unsigned_take_bit_eq take_bit_eq_mod unat_mod)
qed

lemma unat_mtt_step: "unat (4096 - (a AND 4095) :: u64) = 4096 - unat a mod 4096"
proof -
  have "a AND 4095 \<le> (4096 :: u64)"
    using mod_less_divisor [of 4096 "unat a"] by (simp add: unat_page_off word_le_nat_alt)
  then show ?thesis by (simp add: unat_sub unat_page_off)
qed

definition mttStep :: "u64 \<Rightarrow> u64 \<Rightarrow> u64" where
  "mttStep a len = (if len < 4096 - (a AND 4095) then len else 4096 - (a AND 4095))"

lemma mttStep_bounds:
  assumes "len \<noteq> 0"
  shows "0 < unat (mttStep a len)" and "mttStep a len \<le> len"
    and "unat (mttStep a len) = min (unat len) (4096 - unat a mod 4096)"
proof -
  show eq: "unat (mttStep a len) = min (unat len) (4096 - unat a mod 4096)"
    by (auto simp: mttStep_def unat_mtt_step word_less_nat_alt)
  show "0 < unat (mttStep a len)" using assms by (simp add: eq unat_gt_0)
  show "mttStep a len \<le> len" by (auto simp: mttStep_def)
qed

termination appendMttLoop
proof (relation "measure (\<lambda>(a, len, pages, c). unat len)", simp, goal_cases)
  case (1 a len pages c page fresh pages' step step')
  have "step' = mttStep a len" using 1 by (simp add: mttStep_def mtt_page_size)
  then have "unat (len - step') < unat len"
    using mttStep_bounds [OF 1(1), of a] by (simp add: unat_sub)
  then show ?case by simp
qed

declare appendMttLoop.simps [simp del]

definition mlxAppendMttPages ::
  "u64 \<Rightarrow> u64 \<Rightarrow> u64 list option \<Rightarrow> nat \<Rightarrow> bool \<times> u64 list option" where
  "mlxAppendMttPages dmaAddress len pages capacity =
     (case pages of
        None \<Rightarrow> (False, None)
      | Some ps \<Rightarrow>
          if len = 0 \<or> len > - 1 - dmaAddress then (False, Some ps)
          else map_prod id Some (appendMttLoop dmaAddress len ps capacity))"

definition mlxMttPageCount :: "u64 \<Rightarrow> u64 \<Rightarrow> u64" where
  "mlxMttPageCount startAddress len =
     (let pageOffset = startAddress AND (MLX_MTT_PAGE_SIZE - 1)
      in if len = 0 \<or> len > - 1 - startAddress \<or> len > - 1 - pageOffset then 0
         else
           (let span = pageOffset + len
            in drop_bit MLX_MTT_PAGE_SHIFT span +
               (if span AND (MLX_MTT_PAGE_SIZE - 1) \<noteq> 0 then 1 else 0)))"

definition mlxMttOctwordCount :: "u32 \<Rightarrow> u32" where
  "mlxMttOctwordCount pageCount = (pageCount + 1) div 2"

definition mlxCreateMkeyInputSize :: "u32 \<Rightarrow> u32" where
  "mlxCreateMkeyInputSize pageCount =
     MLX_CREATE_MKEY_FIXED_BYTES + mlxMttOctwordCount pageCount * 16"

section \<open>CREATE\_MKEY\<close>

definition accessBit :: "u32 \<Rightarrow> u32 \<Rightarrow> u64" where
  "accessBit flags f = (if flags AND f \<noteq> 0 then 1 else 0)"

text \<open>The \<^verbatim>\<open>mlxSetBits(mkc, ...)\<close> statements; \<open>mkc\<close> starts at input bit \<open>0x80\<close>.\<close>

definition mkcFields :: "u32 \<Rightarrow> u8 \<Rightarrow> u32 \<Rightarrow> u64 \<Rightarrow> u64 \<Rightarrow> u32 \<Rightarrow> field list" where
  "mkcFields accessFlags keyVariant pd startAddress len xltOctwords =
     [(0x80 + 0x11, 1, accessBit accessFlags MLX_MR_ACCESS_REMOTE_ATOMIC),
      (0x80 + 0x12, 1, accessBit accessFlags MLX_MR_ACCESS_REMOTE_WRITE),
      (0x80 + 0x13, 1, accessBit accessFlags MLX_MR_ACCESS_REMOTE_READ),
      (0x80 + 0x14, 1, accessBit accessFlags MLX_MR_ACCESS_LOCAL_WRITE),
      (0x80 + 0x15, 1, 1),
      (0x80 + 0x16, 2, 1),
      (0x80 + 0x10, 1, 1),
      (0x80 + 0x20, 24, 0xffffff),
      (0x80 + 0x38, 8, ucast keyVariant),
      (0x80 + 0x60, 1, 1),
      (0x80 + 0x68, 24, ucast pd),
      (0x80 + 0x80, 64, startAddress),
      (0x80 + 0xc0, 64, len),
      (0x80 + 0x1a0, 32, ucast xltOctwords),
      (0x80 + 0x1db, 5, of_nat MLX_MTT_PAGE_SHIFT),
      (0x300, 32, ucast xltOctwords)]"

text \<open>
  \<open>pages\<close> points at \<open>pageCount\<close> entries (the callers' arrays), hence the \<open>take\<close>.
  Every check precedes the first write, so a refused input is left as it was.
\<close>

definition mlxEncodeCreateMkey ::
  "buffer option \<Rightarrow> nat \<Rightarrow> u64 list option \<Rightarrow> u32 \<Rightarrow> u64 \<Rightarrow> u64 \<Rightarrow> u32 \<Rightarrow> u32 \<Rightarrow> u8 \<Rightarrow>
   (buffer \<times> u32) option" where
  "mlxEncodeCreateMkey input capacity pages pageCount startAddress len accessFlags pd
       keyVariant =
     (if MLX_CREATE_MKEY_MAX_PAGES < pageCount then None
      else
        (let expectedPages = mlxMttPageCount startAddress len;
             size = mlxCreateMkeyInputSize pageCount
         in case (input, pages) of
              (Some inb, Some ps) \<Rightarrow>
                if pageCount = 0 \<or> len = 0 \<or> keyVariant = 0 \<or>
                   accessFlags AND NOT MLX_MR_ACCESS_SUPPORTED \<noteq> 0 \<or> 0xffffff < pd \<or>
                   expectedPages \<noteq> ucast pageCount \<or> capacity < unat size
                then None
                else if list_ex (\<lambda>p. p AND (MLX_MTT_PAGE_SIZE - 1) \<noteq> 0) (take (unat pageCount) ps)
                then None
                else Some
                  (setFields
                    (setFields inb
                      (mkcFields accessFlags keyVariant pd startAddress len
                        (mlxMttOctwordCount pageCount)))
                    (map (\<lambda>i. (0x880 + i * 64, 64, ps ! i)) [0..<unat pageCount]),
                   size)
            | _ \<Rightarrow> None))"

definition mlxComposeMkey :: "u32 \<Rightarrow> u8 \<Rightarrow> u32" where
  "mlxComposeMkey index variant = push_bit 8 index OR ucast variant"

definition mlxMkeyIndex :: "u32 \<Rightarrow> u32" where
  "mlxMkeyIndex key = drop_bit 8 key"

section \<open>Queue pair context lemmas\<close>

lemma log2Loop_exp: "k < 32 \<Longrightarrow> log2Loop (2 ^ k) lg = lg + of_nat k"
proof (induction k arbitrary: lg)
  case 0
  then show ?case by (subst log2Loop.simps) simp
next
  case (Suc k)
  have "1 < (2 :: nat) ^ Suc k" by (rule one_less_power) simp_all
  then have gt: "1 < (2 ^ Suc k :: u32)"
    using Suc.prems unat_word_exp [of "Suc k", where 'a = 32] by (simp only: word_less_nat_alt) simp
  have half: "drop_bit 1 (2 ^ Suc k :: u32) = 2 ^ k"
    using Suc.prems
    by (intro bit_word_eqI) (simp only: bit_drop_bit_eq bit_word_exp_iff o_def, auto)
  have "log2Loop (2 ^ Suc k) lg = log2Loop (2 ^ k) (lg + 1)"
    by (subst log2Loop.simps) (simp only: gt half if_True)
  then show ?case using Suc by (simp add: add.assoc)
qed

lemma pow2_cases:
  assumes "x AND (x - 1) = 0" and "x \<noteq> 0" and "x \<le> 128"
  shows "x \<in> {1, 2, 4, 8, 16, 32, 64, 128 :: u32}"
proof -
  have "unat x \<le> 128" using assms(3) by (simp add: word_le_nat_alt)
  then have "unat x \<in> set [0..<129]" by simp
  then have "of_nat (unat x) \<in> set (map of_nat [0..<129] :: u32 list)" by (simp only: set_map imageI)
  then have "x \<in> set (map of_nat [0..<129])" by (simp only: of_nat_unat ucast_id)
  then show ?thesis using assms(1,2)
    by (simp add: upt_rec) (elim disjE; simp)
qed

lemma log2_pow2:
  assumes "x AND (x - 1) = 0" and "x \<noteq> 0" and "x \<le> 128"
  shows "push_bit (unat (mlxLog2PowerOfTwo x)) 1 = x" and "mlxLog2PowerOfTwo x \<le> 7"
proof -
  have ex: "\<exists>k \<le> 7. x = 2 ^ k"
    using pow2_cases [OF assms]
    by simp (elim disjE; intro exI [of _ "unat (mlxLog2PowerOfTwo x)"]; simp add: mlxLog2PowerOfTwo_def log2Loop.simps)
  then obtain k where k: "k \<le> 7" "x = 2 ^ k" by blast
  then have lg: "mlxLog2PowerOfTwo x = of_nat k" using log2Loop_exp [of k 0] by (simp add: mlxLog2PowerOfTwo_def)
  moreover have "unat (of_nat k :: u32) = k" using k(1) by (simp add: unsigned_of_nat take_bit_nat_eq_self)
  ultimately show "push_bit (unat (mlxLog2PowerOfTwo x)) 1 = x" using k by simp
  show "mlxLog2PowerOfTwo x \<le> 7"
    using lg k(1) \<open>unat (of_nat k :: u32) = k\<close> by (simp add: word_le_nat_alt)
qed

text \<open>The accepting branch of each encoder, as one field program.\<close>

lemma rst2init_accepts:
  "MLX_QPC_BYTES \<le> n \<Longrightarrow> pk \<le> 0xffff \<Longrightarrow> port \<noteq> 0 \<Longrightarrow> port \<le> 0xff \<Longrightarrow>
   mlxEncodeRst2InitQpc (Some q) n pk port opt =
     (True, Some (setFields q [(0x08, 8, 0), (0xd0, 16, ucast pk), (0x1e8, 8, ucast port)]),
      map_option (\<lambda>_. 0) opt)"
  by (simp add: mlxEncodeRst2InitQpc_def MLX_QPC_PRIMARY_PATH_BIT_OFFSET_def not_less)

definition pathFields :: "MlxRocePathFields \<Rightarrow> field list" where
  "pathFields p =
     [(0xd0, 16, ucast (path_pkeyIndex p)), (0x108, 8, ucast (path_sgidIndex p)),
      (0x118, 8, if path_hopLimit p \<noteq> 0 then ucast (path_hopLimit p) else 64),
      (0x1ca, 6, drop_bit 2 (ucast (path_trafficClass p))), (0x1d0, 16, ucast (path_udpSport p)),
      (0x1e1, 3, 0), (0x1e8, 8, ucast (path_portNum p))]"

lemma rocePath_accepts:
  "MLX_QPC_BYTES \<le> n \<Longrightarrow> path_sgidIndex p \<le> 0xff \<Longrightarrow> path_portNum p \<noteq> 0 \<Longrightarrow>
   mlxEncodeRocePrimaryPath (Some q) n (Some p) =
     (True, Some (copyInto (copyInto (setFields q (pathFields p)) 40 (path_dgid p)) 62 (path_dmac p)))"
  by (simp add: mlxEncodeRocePrimaryPath_def pathFields_def MLX_QPC_PRIMARY_PATH_BIT_OFFSET_def
      not_less Let_def)

lemma field_value:
  "x \<le> 2 ^ n - 1 \<Longrightarrow> n < 32 \<Longrightarrow> take_bit n (ucast x :: u64) = ucast x" for x :: u32
proof -
  assume a: "x \<le> 2 ^ n - 1" and n: "n < 32"
  have "unat (2 ^ n - 1 :: u32) = 2 ^ n - 1"
    using n by (simp add: unat_sub word_le_nat_alt unat_word_exp)
  with a have "unat x \<le> 2 ^ n - 1" by (simp add: word_le_nat_alt)
  then have "unat x < 2 ^ n" using n by (metis Suc_pred' le_imp_less_Suc zero_less_numeral zero_less_power)
  then show ?thesis by (intro take_bit_word_small) simp
qed

lemma field_value_narrow:
  "take_bit 8 (ucast a :: u64) = ucast a" "take_bit 16 (ucast b :: u64) = ucast b"
  for a :: u8 and b :: u16
  using unsigned_less [of a, where 'a=nat] unsigned_less [of b, where 'a=nat]
  by (intro take_bit_word_small; simp)+

section \<open>What an accepted transition holds\<close>

lemma init2rtr_accept_iff:
  "fst (mlxEncodeInit2RtrQpc (Some q) n path dqpn mtu psn rd opt) =
     (MLX_QPC_BYTES \<le> n \<and> dqpn \<le> 0xffffff \<and> 1 \<le> mtu \<and> mtu \<le> 5 \<and> psn \<le> 0xffffff \<and>
      rd \<le> 128 \<and> rd AND (rd - 1) = 0 \<and>
      (\<exists>p. path = Some p \<and> path_sgidIndex p \<le> 0xff \<and> path_portNum p \<noteq> 0))"
proof -
  have one: "(1 \<le> mtu) = (mtu \<noteq> 0)" by (simp add: word_le_nat_alt unat_gt_0 Suc_le_eq)
  show ?thesis
    unfolding one
    by (cases path) (auto simp: mlxEncodeInit2RtrQpc_def mlxEncodeRocePrimaryPath_def not_less Let_def)
qed

lemma init2rtr_accepts:
  assumes "fst (mlxEncodeInit2RtrQpc (Some q) n (Some p) dqpn mtu psn rd opt)"
  shows "mlxEncodeInit2RtrQpc (Some q) n (Some p) dqpn mtu psn rd opt =
    (True,
     Some (setFields
       (copyInto (copyInto
          (setFields q ([(0x08, 8, 0), (0x40, 3, ucast mtu), (0xa8, 24, ucast dqpn),
             (0x4a8, 24, ucast psn)] @ pathFields p)) 40 (path_dgid p)) 62 (path_dmac p))
       (if rd = 0 then [] else
         [(0x488, 3, ucast (mlxLog2PowerOfTwo rd)), (0x490, 1, 1), (0x491, 1, 1)])),
     map_option (\<lambda>_. if rd = 0 then 0 else 10) opt)"
proof -
  from assms [unfolded init2rtr_accept_iff]
  have a: "\<not> n < MLX_QPC_BYTES" "\<not> 0xffffff < dqpn" "mtu \<noteq> 0" "\<not> 5 < mtu" "\<not> 0xffffff < psn"
    "\<not> 128 < rd" "rd AND (rd - 1) = 0" "path_sgidIndex p \<le> 0xff" "path_portNum p \<noteq> 0"
    by (auto simp: not_less)
  from a(1) have n: "MLX_QPC_BYTES \<le> n" by simp
  show ?thesis
    using a by (simp add: mlxEncodeInit2RtrQpc_def rocePath_accepts [OF n] setFields_append Let_def)
qed

lemmas readback_simps = fieldsDisjoint_def fieldsWithin_def bufBits_def field_value_narrow

lemma getBits_two_copies:
  assumes "232 \<le> length b" and "length g = 16" and "length m = 6"
    and "off + w \<le> 1856" and "off + w \<le> 320 \<or> 448 \<le> off \<and> off + w \<le> 496 \<or> 544 \<le> off"
  shows "mlxGetBits (copyInto (copyInto b 40 g) 62 m) off w = mlxGetBits b off w"
proof -
  have "mlxGetBits (copyInto (copyInto b 40 g) 62 m) off w = mlxGetBits (copyInto b 40 g) off w"
    using assms by (intro getBits_copyInto_other) auto
  also have "\<dots> = mlxGetBits b off w"
    using assms by (intro getBits_copyInto_other) auto
  finally show ?thesis .
qed

text \<open>
  The fields that \<open>mlxEncodeInit2RtrQpc\<close> must leave in the context, read back at the offsets
  of the interface description: transport, MTU, peer, sequence number and primary path.
\<close>

definition rtrContext :: "buffer \<Rightarrow> MlxRocePathFields \<Rightarrow> u32 \<Rightarrow> u32 \<Rightarrow> u32 \<Rightarrow> bool" where
  "rtrContext q p dqpn mtu psn =
     (mlxGetBits q 0x08 8 = 0 \<and> mlxGetBits q 0x40 3 = ucast mtu \<and>
      mlxGetBits q 0xa8 24 = ucast dqpn \<and> mlxGetBits q 0x4a8 24 = ucast psn \<and>
      mlxGetBits q 0xd0 16 = ucast (path_pkeyIndex p) \<and>
      mlxGetBits q 0x108 8 = ucast (path_sgidIndex p) \<and>
      mlxGetBits q 0x118 8 = (if path_hopLimit p = 0 then 64 else ucast (path_hopLimit p)) \<and>
      mlxGetBits q 0x1ca 6 = ucast (drop_bit 2 (path_trafficClass p)) \<and>
      mlxGetBits q 0x1d0 16 = ucast (path_udpSport p) \<and>
      mlxGetBits q 0x1e8 8 = ucast (path_portNum p) \<and>
      bytesAt q 40 16 = path_dgid p \<and> bytesAt q 62 6 = path_dmac p)"

lemma traffic_class_dscp:
  "take_bit 6 (drop_bit 2 (ucast t :: u64)) = ucast (drop_bit 2 t)" for t :: u8
  by (rule bit_word_eqI) (auto simp: bit_take_bit_iff bit_drop_bit_eq bit_ucast_iff dest: bit_imp_le_length)

lemma rtr_fields:
  assumes "232 \<le> length q" and "pathWf p" and "path_sgidIndex p \<le> 0xff"
    and "mtu \<le> 7" and "dqpn \<le> 0xffffff" and "psn \<le> 0xffffff"
    and "gs = [] \<or> (\<exists>v. gs = [(0x488, 3, v), (0x490, 1, 1), (0x491, 1, 1)])"
  shows "rtrContext (setFields
       (copyInto (copyInto
          (setFields q ([(0x08, 8, 0), (0x40, 3, ucast mtu), (0xa8, 24, ucast dqpn),
             (0x4a8, 24, ucast psn)] @ pathFields p)) 40 (path_dgid p)) 62 (path_dmac p)) gs)
     p dqpn mtu psn"
proof -
  let ?fs = "[(0x08, 8, 0), (0x40, 3, ucast mtu), (0xa8, 24, ucast dqpn),
             (0x4a8, 24, ucast psn)] @ pathFields p"
  let ?b = "setFields q ?fs"
  let ?c = "copyInto (copyInto ?b 40 (path_dgid p)) 62 (path_dmac p)"
  let ?d = "setFields ?c gs"
  have wf: "length (path_dgid p) = 16" "length (path_dmac p) = 6"
    using assms(2) by (auto simp: pathWf_def)
  have len: "length ?b = length q" "length ?c = length q" using assms(1) wf by simp_all
  have other: "mlxGetBits ?d off w = mlxGetBits ?c off w" if "off + w \<le> 0x488 \<or> 0x492 \<le> off" for off w
    using assms(1,7) that len by (intro getBits_setFields_other) (auto simp: bufBits_def)
  have get: "mlxGetBits ?d off w = take_bit w v"
    if "(off, w, v) \<in> set ?fs" "w \<le> 64" "off + w \<le> 1856"
      "off + w \<le> 320 \<or> 448 \<le> off \<and> off + w \<le> 496 \<or> 544 \<le> off"
      "off + w \<le> 0x488 \<or> 0x492 \<le> off"
    for off w v
  proof -
    have "mlxGetBits ?d off w = mlxGetBits ?c off w" by (rule other) fact
    also have "\<dots> = mlxGetBits ?b off w"
      using that assms(1) wf len(1) by (intro getBits_two_copies) auto
    also have "\<dots> = take_bit w v"
      using that(1,2) assms(1)
      by (intro getBits_setFields) (auto simp: fieldsDisjoint_def fieldsWithin_def bufBits_def pathFields_def)
    finally show ?thesis .
  qed
  have bytes: "bytesAt ?d off k = bytesAt ?c off k" if "off + k \<le> 0x488 div 8" for off k
    using that assms(1,7) len by (intro bytesAt_setFields_other) (auto simp: bufBits_def)
  have dmac: "bytesAt ?d 62 6 = path_dmac p"
    using bytes [of 62 6] assms(1) wf len by (simp add: bytesAt_copyInto_same)
  have "bytesAt ?c 40 16 = bytesAt (copyInto ?b 40 (path_dgid p)) 40 16"
    using assms(1) wf len by (intro bytesAt_copyInto_other) auto
  then have dgid: "bytesAt ?d 40 16 = path_dgid p"
    using bytes [of 40 16] assms(1) wf len by (simp add: bytesAt_copyInto_same)
  have vals: "take_bit 3 (ucast mtu :: u64) = ucast mtu" "take_bit 24 (ucast dqpn :: u64) = ucast dqpn"
    "take_bit 24 (ucast psn :: u64) = ucast psn"
    "take_bit 8 (ucast (path_sgidIndex p) :: u64) = ucast (path_sgidIndex p)"
    using assms by (auto intro!: field_value)
  have hop: "take_bit 8 (if path_hopLimit p \<noteq> 0 then ucast (path_hopLimit p) else 64 :: u64) =
      (if path_hopLimit p = 0 then 64 else ucast (path_hopLimit p))"
    by (simp add: field_value_narrow)
  define d where "d = ?d"
  note g = get [folded d_def, unfolded set_append Un_iff pathFields_def]
  have "mlxGetBits d 0x08 8 = take_bit 8 0" "mlxGetBits d 0x40 3 = take_bit 3 (ucast mtu)"
    "mlxGetBits d 0xa8 24 = take_bit 24 (ucast dqpn)"
    "mlxGetBits d 0x4a8 24 = take_bit 24 (ucast psn)"
    "mlxGetBits d 0xd0 16 = take_bit 16 (ucast (path_pkeyIndex p))"
    "mlxGetBits d 0x108 8 = take_bit 8 (ucast (path_sgidIndex p))"
    "mlxGetBits d 0x118 8 = take_bit 8 (if path_hopLimit p \<noteq> 0 then ucast (path_hopLimit p) else 64)"
    "mlxGetBits d 0x1ca 6 = take_bit 6 (drop_bit 2 (ucast (path_trafficClass p)))"
    "mlxGetBits d 0x1d0 16 = take_bit 16 (ucast (path_udpSport p))"
    "mlxGetBits d 0x1e8 8 = take_bit 8 (ucast (path_portNum p))"
    by (rule g; simp)+
  with dgid dmac show ?thesis
    unfolding rtrContext_def d_def [symmetric]
    by (simp only: vals hop field_value_narrow traffic_class_dscp take_bit_of_0)
qed

text \<open>an accepted INIT-to-RTR encoding leaves a context whose transport, MTU, destination
  QP number, receive sequence number and whole RoCE path read back as the caller's values
  (hop limit 0 becoming 64, the traffic class reduced to its DSCP), and, when an inbound
  read depth is asked for, a depth field whose power of two is that depth, the remote read
  and write bits and exactly their bits in the optional-parameter mask.\<close>

theorem init2rtr_programs_context:
  assumes "mlxEncodeInit2RtrQpc (Some q) n (Some p) dqpn mtu psn rd (Some m) =
      (True, Some q', Some m')"
    and "length q = n" and "pathWf p"
  shows "length q' = n \<and> rtrContext q' p dqpn mtu psn \<and>
    (if rd = 0 then m' = 0
     else push_bit (unat (mlxGetBits q' 0x488 3)) 1 = rd \<and> mlxGetBits q' 0x490 1 = 1 \<and>
       mlxGetBits q' 0x491 1 = 1 \<and> m' = push_bit 1 1 OR push_bit 3 1)"
proof -
  let ?b = "copyInto (copyInto (setFields q ([(0x08, 8, 0), (0x40, 3, ucast mtu),
      (0xa8, 24, ucast dqpn), (0x4a8, 24, ucast psn)] @ pathFields p)) 40 (path_dgid p))
      62 (path_dmac p)"
  let ?gs = "if rd = 0 then [] else
      [(0x488, 3, ucast (mlxLog2PowerOfTwo rd)), (0x490, 1, 1), (0x491, 1, 1 :: u64)]"
  have fst: "fst (mlxEncodeInit2RtrQpc (Some q) n (Some p) dqpn mtu psn rd (Some m))"
    by (simp add: assms(1))
  from fst [unfolded init2rtr_accept_iff]
  have a: "MLX_QPC_BYTES \<le> n" "dqpn \<le> 0xffffff" "mtu \<le> 5" "psn \<le> 0xffffff" "rd \<le> 128"
    "rd AND (rd - 1) = 0" "path_sgidIndex p \<le> 0xff" by auto
  have len: "232 \<le> length q" using a(1) assms(2) by (simp add: MLX_QPC_BYTES_def)
  have q': "q' = setFields ?b ?gs" and m': "m' = (if rd = 0 then 0 else 10)"
    using init2rtr_accepts [OF fst] assms(1) by simp_all
  have "mtu \<le> 7" using a(3) by (rule order_trans) simp
  with len assms(3) a have ctx: "rtrContext q' p dqpn mtu psn"
    unfolding q' by (intro rtr_fields) auto
  have lb: "length ?b = n" using len assms(2,3) by (simp add: pathWf_def)
  have depth: "push_bit (unat (mlxGetBits q' 0x488 3)) 1 = rd \<and> mlxGetBits q' 0x490 1 = 1 \<and>
      mlxGetBits q' 0x491 1 = 1" if "rd \<noteq> 0"
  proof -
    have g: "mlxGetBits q' off w = take_bit w v" if "(off, w, v) \<in> set ?gs" "w \<le> 64" for off w v
      unfolding q' using that lb len assms(2)
      by (intro getBits_setFields) (auto simp: fieldsDisjoint_def fieldsWithin_def bufBits_def)
    have lg: "mlxLog2PowerOfTwo rd \<le> 2 ^ 3 - 1" using log2_pow2(2) [OF a(6) that a(5)] by simp
    have "mlxGetBits q' 0x488 3 = ucast (mlxLog2PowerOfTwo rd)"
      using g [of "0x488" 3 "ucast (mlxLog2PowerOfTwo rd)"] that field_value [OF lg] by simp
    moreover have "mlxGetBits q' 0x490 1 = 1" "mlxGetBits q' 0x491 1 = 1"
      using g [of "0x490" 1 1] g [of "0x491" 1 1] that by simp_all
    ultimately show ?thesis
      using log2_pow2(1) [OF a(6) that a(5)] by simp
  qed
  show ?thesis using ctx depth m' lb q' by auto
qed

theorem init2rtr_programs_context_witness:
  "\<exists>q'. mlxEncodeInit2RtrQpc (Some (replicate 232 0)) 232
      (Some \<lparr>path_dmac = [1, 2, 3, 4, 5, 6], path_dgid = replicate 16 0xfe, path_sgidIndex = 7,
         path_hopLimit = 0, path_trafficClass = 0xb8, path_udpSport = 0xc000, path_pkeyIndex = 1,
         path_portNum = 1\<rparr>) 0x123 3 0xabc 16 (Some 0) = (True, Some q', Some 10) \<and>
    push_bit (unat (mlxGetBits q' 0x488 3)) 1 = (16 :: u32) \<and> mlxGetBits q' 0x118 8 = 64"
proof -
  let ?p = "\<lparr>path_dmac = [1, 2, 3, 4, 5, 6], path_dgid = replicate 16 0xfe, path_sgidIndex = 7,
         path_hopLimit = 0, path_trafficClass = 0xb8, path_udpSport = 0xc000, path_pkeyIndex = 1,
         path_portNum = 1 :: u8\<rparr>"
  have "fst (mlxEncodeInit2RtrQpc (Some (replicate 232 0)) 232 (Some ?p) 0x123 3 0xabc 16 (Some 0))"
    by (simp add: init2rtr_accept_iff MLX_QPC_BYTES_def)
  from init2rtr_accepts [OF this] obtain q' where
    q': "mlxEncodeInit2RtrQpc (Some (replicate 232 0)) 232 (Some ?p) 0x123 3 0xabc 16 (Some 0) =
      (True, Some q', Some 10)" by simp
  have "rtrContext q' ?p 0x123 3 0xabc \<and> push_bit (unat (mlxGetBits q' 0x488 3)) 1 = (16 :: u32)"
    using init2rtr_programs_context [OF q'] by (simp add: pathWf_def)
  with q' show ?thesis by (auto simp: rtrContext_def)
qed

text \<open>an accepted RTR-to-RTS encoding leaves the send sequence number, the RNR timer, the RC
  transport and, when an outbound read depth is asked for, a depth field whose power of two is
  that depth; only the RNR-timeout bit is set in the mask; a depth of 0 leaves the depth field
  of the buffer alone.\<close>

theorem rtr2rts_programs_context:
  assumes "mlxEncodeRtr2RtsQpc (Some q) n psn rnr rd (Some m) = (True, Some q', Some m')"
    and "length q = n"
  shows "length q' = n \<and> mlxGetBits q' 0x08 8 = 0 \<and> mlxGetBits q' 0x3c8 24 = ucast psn \<and>
    mlxGetBits q' 0x4a3 5 = ucast rnr \<and> m' = push_bit 6 1 \<and>
    (if rd = 0 then mlxGetBits q' 0x388 3 = mlxGetBits q 0x388 3
     else push_bit (unat (mlxGetBits q' 0x388 3)) 1 = rd)"
proof -
  let ?gs = "if rd = 0 then [] else [(0x388, 3, ucast (mlxLog2PowerOfTwo rd))]"
  let ?fs = "[(0x08, 8, 0), (0x3c8, 24, ucast psn), (0x4a3, 5, ucast rnr)] @ ?gs"
  have a: "MLX_QPC_BYTES \<le> n" "psn \<le> 0xffffff" "rnr \<le> 0x1f" "rd \<le> 128" "rd AND (rd - 1) = 0"
    using assms(1) by (auto simp: mlxEncodeRtr2RtsQpc_def not_less Let_def split: if_splits)
  have q': "q' = setFields q ?fs" and m': "m' = push_bit 6 1"
    using assms(1) a by (auto simp: mlxEncodeRtr2RtsQpc_def Let_def split: if_splits)
  have len: "232 \<le> length q" using a(1) assms(2) by (simp add: MLX_QPC_BYTES_def)
  have g: "mlxGetBits q' off w = take_bit w v" if "(off, w, v) \<in> set ?fs" "w \<le> 64" for off w v
    unfolding q' using that len
    by (intro getBits_setFields) (auto simp: fieldsDisjoint_def fieldsWithin_def bufBits_def)
  have vals: "take_bit 24 (ucast psn :: u64) = ucast psn" "take_bit 5 (ucast rnr :: u64) = ucast rnr"
    using a by (auto intro!: field_value)
  have keep: "mlxGetBits q' 0x388 3 = mlxGetBits q 0x388 3" if "rd = 0"
    unfolding q' using that len by (intro getBits_setFields_other) (auto simp: bufBits_def)
  have depth: "push_bit (unat (mlxGetBits q' 0x388 3)) 1 = rd" if "rd \<noteq> 0"
  proof -
    have lg: "mlxLog2PowerOfTwo rd \<le> 2 ^ 3 - 1" using log2_pow2(2) [OF a(5) that a(4)] by simp
    have "mlxGetBits q' 0x388 3 = ucast (mlxLog2PowerOfTwo rd)"
      using g [of "0x388" 3 "ucast (mlxLog2PowerOfTwo rd)"] that field_value [OF lg] by simp
    then show ?thesis using log2_pow2(1) [OF a(5) that a(4)] by simp
  qed
  show ?thesis
    using g [of 8 8 0] g [of "0x3c8" 24 "ucast psn"] g [of "0x4a3" 5 "ucast rnr"] vals m' keep depth
      assms(2) q' by simp
qed

theorem rtr2rts_programs_context_witness:
  "\<exists>q' m'. mlxEncodeRtr2RtsQpc (Some (replicate 232 0)) 232 0x321 12 8 (Some 0) =
      (True, Some q', Some m') \<and> m' = 64 \<and> push_bit (unat (mlxGetBits q' 0x388 3)) 1 = (8 :: u32)"
proof -
  obtain q' m' where r: "mlxEncodeRtr2RtsQpc (Some (replicate 232 0)) 232 0x321 12 8 (Some 0) =
      (True, Some q', Some m')"
    by (simp add: mlxEncodeRtr2RtsQpc_def MLX_QPC_BYTES_def Let_def)
  from rtr2rts_programs_context [OF r] r show ?thesis by auto
qed

section \<open>What the MTT expansion returns\<close>

text \<open>
  The reference: the base addresses of all 4 KiB pages that the byte range
  \<open>[a, a + len)\<close> touches, in ascending order.
\<close>

definition mttPages :: "nat \<Rightarrow> nat \<Rightarrow> u64 list" where
  "mttPages a len = map (\<lambda>i. of_nat (4096 * i)) [a div 4096 ..< (a + len - 1) div 4096 + 1]"

lemma page_of: "a AND NOT (MLX_MTT_PAGE_SIZE - 1) = of_nat (4096 * (unat a div 4096))"
proof -
  have "a AND NOT 4095 = push_bit 12 (drop_bit 12 a)"
  proof (rule bit_word_eqI)
    fix n assume n: "n < LENGTH(64)"
    have m: "bit (4095 :: u64) n = (n < 12)"
      using n bit_mask_iff [of 12 n, where 'a = u64] by (simp add: mask_eq_exp_minus_1)
    show "bit (a AND NOT 4095) n = bit (push_bit 12 (drop_bit 12 a)) n"
      unfolding bit_and_iff bit_push_bit_iff bit_drop_bit_eq o_def
      using n m by (auto simp only: bit_not_iff not_less possible_bit_word le_add_diff_inverse)
  qed
  also have "\<dots> = of_nat (4096 * (unat a div 4096))"
  proof -
    have "unat (a div 4096) = unat a div 4096" by (simp add: unat_div)
    then have d: "of_nat (unat a div 4096) = a div 4096" by (metis of_nat_unat ucast_id)
    have "push_bit 12 (drop_bit 12 a) = a div 4096 * 4096"
      by (simp only: push_bit_eq_mult drop_bit_eq_div) simp
    then show ?thesis by (simp only: of_nat_mult d of_nat_numeral mult.commute)
  qed
  finally show ?thesis by (simp add: mtt_page_size)
qed

lemma page_number_inj:
  assumes "i < 2 ^ 52" and "j < 2 ^ 52"
  shows "(of_nat (4096 * i) = (of_nat (4096 * j) :: u64)) = (i = j)"
proof
  assume eq: "of_nat (4096 * i) = (of_nat (4096 * j) :: u64)"
  have u: "unat (of_nat (4096 * k) :: u64) = 4096 * k" if "k < 2 ^ 52" for k
    by (rule unat_of_nat_small) (use that in simp)
  have "unat (of_nat (4096 * i) :: u64) = unat (of_nat (4096 * j) :: u64)" by (simp only: eq)
  then have "4096 * i = 4096 * j" by (simp only: u [OF assms(1)] u [OF assms(2)])
  then show "i = j" by simp
qed simp

lemma mttPages_short:
  "0 < len \<Longrightarrow> len \<le> 4096 - a mod 4096 \<Longrightarrow> mttPages a len = [of_nat (4096 * (a div 4096))]"
proof -
  assume l: "0 < len" "len \<le> 4096 - a mod 4096"
  obtain q r where a: "a = 4096 * q + r" "r < 4096" "a div 4096 = q" "a mod 4096 = r"
    by (metis mult_div_mod_eq mod_less_divisor zero_less_numeral)
  have "(a + len - 1) div 4096 = q" using l a by (intro div_nat_eqI) auto
  then show ?thesis by (simp add: mttPages_def a)
qed

lemma mttPages_long:
  assumes "4096 - a mod 4096 < len"
  shows "mttPages a len = of_nat (4096 * (a div 4096)) #
    mttPages (4096 * (a div 4096 + 1)) (len - (4096 - a mod 4096))"
proof -
  obtain q r where a: "a = 4096 * q + r" "r < 4096" "a div 4096 = q" "a mod 4096 = r"
    by (metis mult_div_mod_eq mod_less_divisor zero_less_numeral)
  obtain e where len: "len = (4096 - r) + Suc e" using assms a(4) by (auto dest!: less_imp_Suc_add)
  have e1: "a + len - 1 = 4096 * (q + 1) + e" using a len by simp
  have e2: "4096 * (q + 1) + (len - (4096 - r)) - 1 = 4096 * (q + 1) + e" using len by simp
  have "q < (4096 * (q + 1) + e) div 4096 + 1" by simp
  then have "[q ..< (4096 * (q + 1) + e) div 4096 + 1] = q # [Suc q ..< (4096 * (q + 1) + e) div 4096 + 1]"
    by (rule upt_conv_Cons)
  then show ?thesis unfolding mttPages_def a(3,4) e1 e2 by (simp add: a)
qed

lemma mttPages_Cons:
  "0 < len \<Longrightarrow> mttPages a len = of_nat (4096 * (a div 4096)) # tl (mttPages a len)"
  by (cases "len \<le> 4096 - a mod 4096") (simp_all add: mttPages_short mttPages_long [of a len])

text \<open>
  One round of the loop, over naturals: \<open>step\<close> is the distance to the next page border or
  the rest of the range.
\<close>

lemma appendMttLoop_step:
  assumes "len \<noteq> 0"
  shows "appendMttLoop a len ps cap =
    (let page = of_nat (4096 * (unat a div 4096)) in
     if (ps = [] \<or> last ps \<noteq> page) \<and> cap \<le> length ps then (False, ps)
     else appendMttLoop (a + mttStep a len) (len - mttStep a len)
       (if ps = [] \<or> last ps \<noteq> page then ps @ [page] else ps) cap)"
  using assms
  unfolding page_of [symmetric]
  by (subst appendMttLoop.simps) (simp add: Let_def mttStep_def mtt_page_size)

lemma appendMttLoop_zero: "appendMttLoop a 0 ps cap = (True, ps)"
  by (simp add: appendMttLoop.simps)

definition mttNew :: "u64 list \<Rightarrow> u64 list \<Rightarrow> u64 list" where
  "mttNew ps new = (if ps \<noteq> [] \<and> new \<noteq> [] \<and> last ps = hd new then tl new else new)"

lemma appendMttLoop_spec:
  "unat a + unat len < 2 ^ 64 \<Longrightarrow> len \<noteq> 0 \<Longrightarrow> length ps \<le> cap \<Longrightarrow>
   appendMttLoop a len ps cap =
     (let new = mttNew ps (mttPages (unat a) (unat len)) in
      if length ps + length new \<le> cap then (True, ps @ new)
      else (False, ps @ take (cap - length ps) new))"
proof (induction "unat len" arbitrary: a len ps rule: less_induct)
  case less
  let ?page = "of_nat (4096 * (unat a div 4096)) :: u64"
  let ?ps = "if ps = [] \<or> last ps \<noteq> ?page then ps @ [?page] else ps"
  let ?s = "mttStep a len"
  note s = mttStep_bounds [OF less.prems(2), of a]
  have upos: "0 < unat len" using less.prems(2) by (simp add: unat_gt_0)
  have hd: "mttPages (unat a) (unat len) = ?page # tl (mttPages (unat a) (unat len))"
    by (rule mttPages_Cons [OF upos])
  have new: "mttNew ps (mttPages (unat a) (unat len)) =
      (if ps = [] \<or> last ps \<noteq> ?page then [?page] else []) @ tl (mttPages (unat a) (unat len))"
    by (subst (1) hd, subst (2) hd) (simp add: mttNew_def)
  show ?case
  proof (cases "(ps = [] \<or> last ps \<noteq> ?page) \<and> cap \<le> length ps")
    case True
    then show ?thesis using less.prems new
      by (subst appendMttLoop_step) (simp_all add: Let_def)
  next
    case False
    have rec: "appendMttLoop a len ps cap = appendMttLoop (a + ?s) (len - ?s) ?ps cap"
      using False less.prems(2) by (subst appendMttLoop_step) (auto simp: Let_def)
    have lps: "length ?ps \<le> cap" using False less.prems(3) by auto
    show ?thesis
    proof (cases "unat len \<le> 4096 - unat a mod 4096")
      case True
      then have "?s = len" using s(3) by (simp add: word_unat_eq_iff)
      then have "appendMttLoop a len ps cap = (True, ?ps)"
        using rec by (simp add: appendMttLoop_zero)
      then show ?thesis using True upos lps new by (auto simp: mttPages_short Let_def)
    next
      case False
      then have long: "4096 - unat a mod 4096 < unat len" by simp
      define d where "d = 4096 - unat a mod 4096"
      have us: "unat ?s = d" using s(3) long by (simp add: d_def)
      have ul: "unat (len - ?s) = unat len - d" using s(2) by (simp add: unat_sub us)
      have dpos: "0 < d" using mod_less_divisor [of 4096 "unat a"] by (simp add: d_def)
      have ua: "unat (a + ?s) = unat a + d"
        using less.prems(1) long us by (subst unat_plus_if') (simp add: d_def)
      define k where "k = unat a div 4096"
      have border: "unat a + d = 4096 * (k + 1)"
      proof -
        obtain r where "unat a = 4096 * k + r" "r < 4096" "unat a mod 4096 = r"
          by (metis k_def mult_div_mod_eq mod_less_divisor zero_less_numeral)
        then show ?thesis by (simp add: d_def)
      qed
      have tl: "tl (mttPages (unat a) (unat len)) = mttPages (4096 * (k + 1)) (unat len - d)"
        using mttPages_long [OF long] by (simp add: d_def k_def)
      have rest: "0 < unat len - d" using long by (simp add: d_def)
      have nonempty: "mttPages (4096 * (k + 1)) (unat len - d) =
          of_nat (4096 * (k + 1)) # tl (mttPages (4096 * (k + 1)) (unat len - d))"
        using mttPages_Cons [OF rest, of "4096 * (k + 1)"] by simp
      have "4096 * (k + 1) < 2 ^ 64" using border less.prems(1) long by (simp add: d_def)
      then have "k < 2 ^ 52" "k + 1 < 2 ^ 52" by simp_all
      from page_number_inj [OF this]
      have neq: "of_nat (4096 * k) \<noteq> (of_nat (4096 * (k + 1)) :: u64)" by simp
      have last: "?ps \<noteq> []" "last ?ps = of_nat (4096 * k)" by (auto simp: k_def)
      have hd': "hd (mttPages (4096 * (k + 1)) (unat len - d)) = of_nat (4096 * (k + 1))"
        by (subst nonempty) (simp only: list.sel)
      have new': "mttNew ?ps (mttPages (4096 * (k + 1)) (unat len - d)) =
          mttPages (4096 * (k + 1)) (unat len - d)"
        unfolding mttNew_def last(2) hd' using neq by (simp only: simp_thms if_False)
      have "appendMttLoop (a + ?s) (len - ?s) ?ps cap =
          (let new = mttNew ?ps (mttPages (unat (a + ?s)) (unat (len - ?s))) in
           if length ?ps + length new \<le> cap then (True, ?ps @ new)
           else (False, ?ps @ take (cap - length ?ps) new))"
      proof (rule less.hyps)
        show "unat (len - ?s) < unat len" using ul dpos upos by simp
        show "unat (a + ?s) + unat (len - ?s) < 2 ^ 64"
          using ua ul rest less.prems(1) by simp
        show "len - ?s \<noteq> 0" using ul rest by auto
      qed (rule lps)
      then have "appendMttLoop a len ps cap =
          (let new = tl (mttPages (unat a) (unat len)) in
           if length ?ps + length new \<le> cap then (True, ?ps @ new)
           else (False, ?ps @ take (cap - length ?ps) new))"
        unfolding rec ua ul border new' tl by simp
      then show ?thesis
        using lps less.prems(3) unfolding new by (auto simp: Let_def Suc_diff_Suc not_le)
    qed
  qed
qed

lemma word_room_iff: "(len > - 1 - a) = (2 ^ 64 \<le> unat a + unat len)" for a len :: u64
proof -
  have "unat (- 1 :: u64) = 2 ^ 64 - 1"
    by (simp add: unsigned_minus_1_eq_mask mask_eq_exp_minus_1)
  then have "unat (- 1 - a) = 2 ^ 64 - 1 - unat a" by (simp only: unat_sub [OF word_n1_ge])
  moreover have "unat a < 2 ^ 64" using unsigned_less [of a, where 'a = nat] by simp
  ultimately show ?thesis by (simp only: word_less_nat_alt) linarith
qed

lemma unat_mlxMttPageCount:
  assumes "len \<noteq> 0" and "unat a + unat len < 2 ^ 64"
  shows "unat (mlxMttPageCount a len) = length (mttPages (unat a) (unat len))"
proof -
  define q where "q = unat a div 4096"
  define r where "r = unat a mod 4096"
  have a: "unat a = 4096 * q + r" and r: "r < 4096" by (auto simp: q_def r_def)
  obtain l where l: "unat len = Suc l"
    using assms(1) by (metis not0_implies_Suc unat_eq_zero)
  have off: "unat (a AND (MLX_MTT_PAGE_SIZE - 1)) = r"
    by (simp add: mtt_page_size unat_page_off r_def)
  have noov: "r + unat len < 2 ^ 64" using a assms(2) by linarith
  have ulen: "\<not> len > - 1 - a" "\<not> len > - 1 - (a AND (MLX_MTT_PAGE_SIZE - 1))"
    unfolding word_room_iff off using assms(2) noov by simp_all
  let ?span = "(a AND (MLX_MTT_PAGE_SIZE - 1)) + len"
  have span: "unat ?span = r + Suc l"
    using noov off l by (subst unat_plus_if') simp
  have rem: "(?span AND (MLX_MTT_PAGE_SIZE - 1) \<noteq> 0) = ((r + Suc l) mod 4096 \<noteq> 0)"
    by (simp only: mtt_page_size word_unat_eq_iff) (use span in \<open>simp add: unat_page_off mtt_page_size\<close>)
  have quot: "unat (drop_bit MLX_MTT_PAGE_SHIFT ?span) = (r + Suc l) div 4096"
    by (simp add: MLX_MTT_PAGE_SHIFT_def drop_bit_eq_div unat_div span)
  define e f where "e = (r + l) div 4096" and "f = (r + l) mod 4096"
  have ef: "r + l = 4096 * e + f" "f < 4096" by (auto simp: e_def f_def)
  have len: "length (mttPages (unat a) (unat len)) = e + 1"
  proof -
    have "(unat a + unat len - 1) div 4096 = q + e"
      using ef a l by (intro div_nat_eqI) auto
    then show ?thesis by (simp add: mttPages_def q_def)
  qed
  have small: "e + 1 < 2 ^ 64" using ef noov l by linarith
  have cnt: "mlxMttPageCount a len = drop_bit MLX_MTT_PAGE_SHIFT ?span +
      (if ?span AND (MLX_MTT_PAGE_SIZE - 1) \<noteq> 0 then 1 else 0)"
    unfolding mlxMttPageCount_def Let_def using assms(1) ulen by simp
  show ?thesis
  proof (cases "f = 4095")
    case True
    then have "r + Suc l = 4096 * (e + 1)" using ef by simp
    then show ?thesis using cnt quot rem len by simp
  next
    case False
    then have s: "r + Suc l = 4096 * e + Suc f" "Suc f < 4096" using ef by simp_all
    have "(r + Suc l) div 4096 = e" "(r + Suc l) mod 4096 = Suc f"
      unfolding s(1) using s(2) by simp_all
    then show ?thesis using cnt quot rem len small
      by (simp only: if_True nat.distinct simp_thms) (subst unat_plus_if', simp)
  qed
qed

text \<open>C1: for every address and length the MTT expansion of an empty table refuses an empty or
  wrapping range, otherwise produces exactly the ascending bases of the 4 KiB pages the byte
  range touches, each once, when \<open>mlxMttPageCount\<close> says they fit, and otherwise fails after
  filling the table to its capacity with the first of them.\<close>

theorem mlxAppendMttPages_exact:
  "mlxAppendMttPages a len (Some []) cap =
     (if len = 0 \<or> 2 ^ 64 \<le> unat a + unat len then (False, Some [])
      else if unat (mlxMttPageCount a len) \<le> cap
      then (True, Some (mttPages (unat a) (unat len)))
      else (False, Some (take cap (mttPages (unat a) (unat len)))))"
proof (cases "len = 0 \<or> 2 ^ 64 \<le> unat a + unat len")
  case True
  then show ?thesis by (auto simp: mlxAppendMttPages_def word_room_iff)
next
  case False
  then have ok: "len \<noteq> 0" "unat a + unat len < 2 ^ 64" by auto
  have "mlxAppendMttPages a len (Some []) cap = map_prod id Some (appendMttLoop a len [] cap)"
    using False by (auto simp: mlxAppendMttPages_def word_room_iff)
  then show ?thesis using False
    by (simp add: appendMttLoop_spec [OF ok(2,1)] unat_mlxMttPageCount [OF ok] mttNew_def)
qed

section \<open>What an accepted CREATE\_MKEY input holds\<close>

lemma mkey_size:
  assumes "n \<le> MLX_CREATE_MKEY_MAX_PAGES"
  shows "unat (mlxCreateMkeyInputSize n) = 272 + 16 * ((unat n + 1) div 2)"
    and "unat n \<le> 480"
proof -
  show n: "unat n \<le> 480"
    using assms by (simp add: MLX_CREATE_MKEY_MAX_PAGES_def MLX_CREATE_MKEY_FIXED_BYTES_def word_le_nat_alt)
  have oct: "unat (mlxMttOctwordCount n) = (unat n + 1) div 2"
    using n by (simp add: mlxMttOctwordCount_def unat_div unat_plus_if')
  have "(unat n + 1) div 2 \<le> 240" using n by simp
  then show "unat (mlxCreateMkeyInputSize n) = 272 + 16 * ((unat n + 1) div 2)"
    unfolding mlxCreateMkeyInputSize_def
    by (simp add: MLX_CREATE_MKEY_FIXED_BYTES_def unat_plus_if' unat_mult_lem [THEN iffD1] oct
        unat_word_ariths)
qed

lemma create_mkey_SomeD:
  assumes "mlxEncodeCreateMkey inp cap pgs n start len flags pd kv = Some (out, isz)"
  obtains inb ps where "inp = Some inb" "pgs = Some ps" "n \<le> MLX_CREATE_MKEY_MAX_PAGES" "n \<noteq> 0"
    "len \<noteq> 0" "kv \<noteq> 0" "flags AND NOT MLX_MR_ACCESS_SUPPORTED = 0" "pd \<le> 0xffffff"
    "mlxMttPageCount start len = ucast n" "isz = mlxCreateMkeyInputSize n" "unat isz \<le> cap"
    "list_all (\<lambda>p. p AND (MLX_MTT_PAGE_SIZE - 1) = 0) (take (unat n) ps)"
    "out = setFields (setFields inb (mkcFields flags kv pd start len (mlxMttOctwordCount n)))
        (map (\<lambda>i. (0x880 + i * 64, 64, ps ! i)) [0..<unat n])"
  using assms
  by (auto simp: mlxEncodeCreateMkey_def Let_def not_less list_ex_iff list_all_iff
      split: if_splits option.splits)

definition mkeyInput :: "buffer \<Rightarrow> u64 list \<Rightarrow> nat \<Rightarrow> u64 \<Rightarrow> u64 \<Rightarrow> u32 \<Rightarrow> u32 \<Rightarrow> u8 \<Rightarrow> bool" where
  "mkeyInput b ps n start len flags pd kv =
     (mlxGetBits b 0x90 1 = 1 \<and>
      mlxGetBits b 0x91 1 = accessBit flags MLX_MR_ACCESS_REMOTE_ATOMIC \<and>
      mlxGetBits b 0x92 1 = accessBit flags MLX_MR_ACCESS_REMOTE_WRITE \<and>
      mlxGetBits b 0x93 1 = accessBit flags MLX_MR_ACCESS_REMOTE_READ \<and>
      mlxGetBits b 0x94 1 = accessBit flags MLX_MR_ACCESS_LOCAL_WRITE \<and>
      mlxGetBits b 0xb8 8 = ucast kv \<and> mlxGetBits b 0xe8 24 = ucast pd \<and>
      mlxGetBits b 0x100 64 = start \<and> mlxGetBits b 0x140 64 = len \<and>
      unat (mlxGetBits b 0x220 32) = (n + 1) div 2 \<and>
      mlxGetBits b 0x300 32 = mlxGetBits b 0x220 32 \<and>
      (\<forall>i < n. mlxGetBits b (0x880 + 64 * i) 64 = ps ! i))"

text \<open>C2: an accepted CREATE_MKEY input has at most 480 pages and at most 4112 bytes, all of it
  (the 272 fixed bytes and the whole translation table, rounded up to octwords) within the
  caller's capacity; the page count is the number of 4 KiB pages the virtual range touches;
  every page is page-aligned; and the access bits, key variant, protection domain, range,
  octword counts and every translation entry read back as given.\<close>

theorem mlxEncodeCreateMkey_sound:
  assumes "mlxEncodeCreateMkey (Some inb) cap (Some ps) n start len flags pd kv = Some (out, isz)"
    and "length inb = cap"
  shows "unat n \<le> 480 \<and> unat isz \<le> 4112 \<and> 272 + 8 * unat n \<le> unat isz \<and> unat isz \<le> cap \<and>
    length out = cap \<and> unat n = length (mttPages (unat start) (unat len)) \<and>
    (\<forall>i < unat n. i < length ps \<longrightarrow> 4096 dvd unat (ps ! i)) \<and>
    mkeyInput out ps (unat n) start len flags pd kv"
proof -
  from assms(1) have r: "n \<le> MLX_CREATE_MKEY_MAX_PAGES" "n \<noteq> 0" "len \<noteq> 0" "pd \<le> 0xffffff"
    "mlxMttPageCount start len = ucast n" "isz = mlxCreateMkeyInputSize n" "unat isz \<le> cap"
    "list_all (\<lambda>p. p AND (MLX_MTT_PAGE_SIZE - 1) = 0) (take (unat n) ps)"
    "out = setFields (setFields inb (mkcFields flags kv pd start len (mlxMttOctwordCount n)))
        (map (\<lambda>i. (0x880 + i * 64, 64, ps ! i)) [0..<unat n])"
    by (auto elim: create_mkey_SomeD)
  note sz = mkey_size [OF r(1)]
  have room: "272 + 8 * unat n \<le> unat isz" using sz by (simp add: r(6))
  have npos: "0 < unat n" using r(2) by (simp add: unat_gt_0)
  let ?m = "mkcFields flags kv pd start len (mlxMttOctwordCount n)"
  let ?t = "map (\<lambda>i. (0x880 + i * 64, 64, ps ! i)) [0..<unat n]"
  let ?b = "setFields inb ?m"
  have cap: "2176 + 64 * unat n \<le> 8 * cap" using room r(7) by linarith
  have other: "mlxGetBits out off w = mlxGetBits ?b off w" if "off + w \<le> 2176" for off w
    unfolding r(9) using that cap assms(2)
    by (intro getBits_setFields_other) (auto simp: bufBits_def)
  have get: "mlxGetBits out off w = take_bit w v" if "(off, w, v) \<in> set ?m" "w \<le> 64" for off w v
  proof -
    have "off + w \<le> 2176" using that by (auto simp: mkcFields_def)
    moreover have "mlxGetBits ?b off w = take_bit w v"
      using that cap assms(2) npos
      by (intro getBits_setFields)
        (auto simp: mkcFields_def fieldsDisjoint_def fieldsWithin_def bufBits_def)
    ultimately show ?thesis by (simp add: other)
  qed
  have tab: "mlxGetBits out (0x880 + 64 * i) 64 = ps ! i" if "i < unat n" for i
  proof -
    have "sorted_wrt (\<lambda>i j. i < j) [0..<unat n]" by (simp add: sorted_wrt_upt)
    then have "fieldsDisjoint ?t"
      unfolding fieldsDisjoint_def sorted_wrt_map by (rule sorted_wrt_mono_rel [rotated]) auto
    moreover have "fieldsWithin ?t (bufBits ?b)"
      using cap assms(2) by (auto simp: fieldsWithin_def bufBits_def)
    moreover have "(0x880 + 64 * i, 64, ps ! i) \<in> set ?t" using that by (auto simp: mult.commute)
    ultimately have "mlxGetBits (setFields ?b ?t) (0x880 + 64 * i) 64 = take_bit 64 (ps ! i)"
      by (rule getBits_setFields) simp
    then show ?thesis by (simp add: r(9))
  qed
  have oct: "unat (mlxMttOctwordCount n) = (unat n + 1) div 2"
    using sz(2) by (simp add: mlxMttOctwordCount_def unat_div unat_plus_if')
  have acc: "accessBit flags f mod 2 = accessBit flags f" for f
    by (simp add: accessBit_def)
  have pd: "take_bit 24 (ucast pd :: u64) = ucast pd" using r(4) by (auto intro: field_value)
  have x32: "take_bit 32 (ucast x :: u64) = ucast x" for x :: u32
    using unsigned_less [of x, where 'a = nat] by (intro take_bit_word_small) simp
  have "mkeyInput out ps (unat n) start len flags pd kv"
    unfolding mkeyInput_def
    using get [of "0x90" 1 1] get [of "0x91" 1 "accessBit flags MLX_MR_ACCESS_REMOTE_ATOMIC"]
      get [of "0x92" 1 "accessBit flags MLX_MR_ACCESS_REMOTE_WRITE"]
      get [of "0x93" 1 "accessBit flags MLX_MR_ACCESS_REMOTE_READ"]
      get [of "0x94" 1 "accessBit flags MLX_MR_ACCESS_LOCAL_WRITE"]
      get [of "0xb8" 8 "ucast kv"] get [of "0xe8" 24 "ucast pd"] get [of "0x100" 64 start]
      get [of "0x140" 64 len] get [of "0x220" 32 "ucast (mlxMttOctwordCount n)"]
      get [of "0x300" 32 "ucast (mlxMttOctwordCount n)"] tab oct
    by (simp add: mkcFields_def acc pd x32 field_value_narrow)
  moreover have "4096 dvd unat (ps ! i)" if "i < unat n" "i < length ps" for i
  proof -
    have "ps ! i AND (MLX_MTT_PAGE_SIZE - 1) = 0"
      using r(8) that by (auto simp: list_all_length)
    then have "unat (ps ! i AND 4095) = 0" by (simp add: mtt_page_size)
    then show ?thesis by (simp only: unat_page_off dvd_eq_mod_eq_0)
  qed
  moreover have "unat n = length (mttPages (unat start) (unat len))"
  proof -
    have "mlxMttPageCount start len \<noteq> 0"
      using r(5) npos by (metis unat_ucast_simps(3) unat_0 less_not_refl)
    then have "\<not> len > - 1 - start" by (auto simp: mlxMttPageCount_def)
    then have "unat start + unat len < 2 ^ 64" unfolding word_room_iff by simp
    from unat_mlxMttPageCount [OF r(3) this] r(5) show ?thesis by simp
  qed
  ultimately show ?thesis
    using sz room r(6,7) assms(2) r(9) by simp
qed

theorem mlxEncodeCreateMkey_sound_witness:
  "\<exists>out. mlxEncodeCreateMkey (Some (replicate 304 0)) 304 (Some [0x1000, 0x2000, 0x5000]) 3
      0x10080 0x2000 5 0x77 9 = Some (out, 304) \<and>
    mkeyInput out [0x1000, 0x2000, 0x5000] 3 0x10080 0x2000 5 0x77 9"
proof -
  obtain out where r: "mlxEncodeCreateMkey (Some (replicate 304 0)) 304
      (Some [0x1000, 0x2000, 0x5000]) 3 0x10080 0x2000 5 0x77 9 = Some (out, 304)"
    by (simp add: mlxEncodeCreateMkey_def p0_const_defs MLX_MR_ACCESS_SUPPORTED_def Let_def
        mlxMttPageCount_def mlxCreateMkeyInputSize_def mlxMttOctwordCount_def)
  from mlxEncodeCreateMkey_sound [OF r] r show ?thesis by auto
qed

lemma mlxMkeyIndex_mlxComposeMkey:
  "index < 2 ^ 24 \<Longrightarrow> mlxMkeyIndex (mlxComposeMkey index variant) = index"
  "ucast (mlxComposeMkey index variant) = variant"
proof -
  assume "index < 2 ^ 24"
  then have i: "take_bit 24 index = index" by (simp add: take_bit_word_small word_less_nat_alt)
  show "mlxMkeyIndex (mlxComposeMkey index variant) = index"
  proof (rule bit_word_eqI)
    fix n assume "n < LENGTH(32)"
    have "bit index n \<Longrightarrow> n < 24" using i by (metis bit_take_bit_iff)
    then show "bit (mlxMkeyIndex (mlxComposeMkey index variant)) n = bit index n"
      unfolding mlxMkeyIndex_def mlxComposeMkey_def
      by (auto simp: bit_drop_bit_eq bit_or_iff bit_push_bit_iff bit_ucast_iff
          dest: bit_imp_le_length)
  qed
next
  show "ucast (mlxComposeMkey index variant) = variant"
    by (rule bit_word_eqI)
      (auto simp: mlxComposeMkey_def bit_or_iff bit_push_bit_iff bit_ucast_iff)
qed

end
