(* ===== verification/MlxP1.thy ===== *)
theory MlxP1
  imports MlxIfc
begin

text \<open>
  \<^verbatim>\<open>Sources/hw/MlxP1Encoding.hpp\<close>: the outbox status, capability pages, QUERY/MANAGE_PAGES
  inputs and the 256-bit event mask. A function that takes a NULL-checked input buffer takes
  an option; a parser returns an option (\<open>None\<close> for \<open>false\<close>), an encoder the rewritten buffer
  as an option, because all of its checks precede its first write.
\<close>

unbundle bit_operations_syntax

section \<open>Data\<close>

definition MLX_P1_HCA_CAP_BYTES :: nat where "MLX_P1_HCA_CAP_BYTES = 4096"
definition MLX_P1_QUERY_HCA_CAP_IN_BYTES :: nat where "MLX_P1_QUERY_HCA_CAP_IN_BYTES = 16"
definition MLX_P1_QUERY_HCA_CAP_OUT_BYTES :: nat where "MLX_P1_QUERY_HCA_CAP_OUT_BYTES = 4112"
definition MLX_P1_SET_HCA_CAP_IN_BYTES :: nat where "MLX_P1_SET_HCA_CAP_IN_BYTES = 4112"
definition MLX_P1_INIT_HCA_IN_BYTES :: nat where "MLX_P1_INIT_HCA_IN_BYTES = 32"
definition MLX_P1_CMD_HEADER_BYTES :: nat where "MLX_P1_CMD_HEADER_BYTES = 16"
definition MLX_P1_MAX_MANAGE_PAGES :: u32 where "MLX_P1_MAX_MANAGE_PAGES = 512"

definition MLX_P1_CAP_GENERAL :: u16 where "MLX_P1_CAP_GENERAL = 0"
definition MLX_P1_CAP_ETHERNET_OFFLOADS :: u16 where "MLX_P1_CAP_ETHERNET_OFFLOADS = 1"
definition MLX_P1_CAP_ROCE :: u16 where "MLX_P1_CAP_ROCE = 4"
definition MLX_P1_CAP_FLOW_TABLE :: u16 where "MLX_P1_CAP_FLOW_TABLE = 7"
definition MLX_P1_CAP_MAX :: u16 where "MLX_P1_CAP_MAX = 0"
definition MLX_P1_CAP_CURRENT :: u16 where "MLX_P1_CAP_CURRENT = 1"

definition MLX_P1_PAGES_ALLOCATION_FAIL :: u16 where "MLX_P1_PAGES_ALLOCATION_FAIL = 0"
definition MLX_P1_PAGES_GIVE :: u16 where "MLX_P1_PAGES_GIVE = 1"
definition MLX_P1_PAGES_TAKE :: u16 where "MLX_P1_PAGES_TAKE = 2"

lemmas p1_const_defs = MLX_P1_HCA_CAP_BYTES_def MLX_P1_QUERY_HCA_CAP_IN_BYTES_def
  MLX_P1_QUERY_HCA_CAP_OUT_BYTES_def MLX_P1_SET_HCA_CAP_IN_BYTES_def MLX_P1_INIT_HCA_IN_BYTES_def
  MLX_P1_CMD_HEADER_BYTES_def MLX_P1_MAX_MANAGE_PAGES_def MLX_P1_CAP_GENERAL_def
  MLX_P1_CAP_ETHERNET_OFFLOADS_def MLX_P1_CAP_ROCE_def MLX_P1_CAP_FLOW_TABLE_def
  MLX_P1_CAP_MAX_def MLX_P1_CAP_CURRENT_def MLX_P1_PAGES_ALLOCATION_FAIL_def
  MLX_P1_PAGES_GIVE_def MLX_P1_PAGES_TAKE_def

record MlxP1GeneralCaps =
  logMaxQp :: u8
  logMaxCq :: u8
  logMaxMkey :: u8
  portType :: u8
  numPorts :: u8
  logBfRegSize :: u8
  gidTableEncoding :: u8
  pkeyTableEncoding :: u8
  roce :: bool
  roceRwSupported :: bool
  uar4k :: bool
  bf :: bool
  nicFlowTable :: bool
  ethNetOffloads :: bool

record MlxP1RoceCaps =
  sourceUdpPortWritable :: bool
  versions :: u8
  destinationUdpPort :: u16
  minimumSourceUdpPort :: u16
  addressTableSize :: u16

record MlxP1FlowCaps =
  nicRx :: bool
  nicTx :: bool

record MlxP1EthernetCaps =
  checksum :: bool
  vlan :: bool

record MlxP1OutboxStatus =
  outStatus :: u8
  syndrome :: u32

definition memset0 :: "buffer \<Rightarrow> nat \<Rightarrow> buffer" where
  "memset0 b n = copyInto b 0 (replicate n 0)"

section \<open>Outbox and capability pages\<close>

definition mlxP1ParseOutbox :: "buffer option \<Rightarrow> nat \<Rightarrow> MlxP1OutboxStatus option" where
  "mlxP1ParseOutbox out len =
     (case out of
        None \<Rightarrow> None
      | Some b \<Rightarrow>
          if len < 8 then None
          else Some \<lparr>outStatus = ucast (mlxGetBits b 0x00 8),
                     syndrome = ucast (mlxGetBits b 0x20 32)\<rparr>)"

definition mlxP1HcaCapOpMod :: "u16 \<Rightarrow> u16 \<Rightarrow> u16" where
  "mlxP1HcaCapOpMod type' mode = push_bit 1 type' OR (mode AND 1)"

definition mlxP1EncodeQueryHcaCap :: "buffer option \<Rightarrow> nat \<Rightarrow> u16 \<Rightarrow> u16 \<Rightarrow> buffer option" where
  "mlxP1EncodeQueryHcaCap inb len type' mode =
     (case inb of
        None \<Rightarrow> None
      | Some b \<Rightarrow>
          if len < MLX_P1_QUERY_HCA_CAP_IN_BYTES then None
          else Some (setFields (memset0 b MLX_P1_QUERY_HCA_CAP_IN_BYTES)
                 [(0x00, 16, 0x100), (0x30, 16, ucast (mlxP1HcaCapOpMod type' mode))]))"

definition mlxP1ParseGeneralCaps :: "buffer option \<Rightarrow> nat \<Rightarrow> MlxP1GeneralCaps option" where
  "mlxP1ParseGeneralCaps capb len =
     (case capb of
        None \<Rightarrow> None
      | Some cap \<Rightarrow>
          if len < MLX_P1_HCA_CAP_BYTES then None
          else Some
            \<lparr>logMaxQp = ucast (mlxGetBits cap 0x9b 5),
             logMaxCq = ucast (mlxGetBits cap 0xdb 5),
             logMaxMkey = ucast (mlxGetBits cap 0xea 6),
             portType = ucast (mlxGetBits cap 0x1b6 2),
             numPorts = ucast (mlxGetBits cap 0x1b8 8),
             logBfRegSize = ucast (mlxGetBits cap 0x26b 5),
             gidTableEncoding = ucast (mlxGetBits cap 0x170 16),
             pkeyTableEncoding = ucast (mlxGetBits cap 0x190 16),
             roce = (mlxGetBits cap 0x21c 1 \<noteq> 0),
             roceRwSupported = (mlxGetBits cap 0x3a1 1 \<noteq> 0),
             uar4k = (mlxGetBits cap 0x240 1 \<noteq> 0),
             bf = (mlxGetBits cap 0x260 1 \<noteq> 0),
             nicFlowTable = (mlxGetBits cap 0x1a6 1 \<noteq> 0),
             ethNetOffloads = (mlxGetBits cap 0x21b 1 \<noteq> 0)\<rparr>)"

definition mlxP1ParseRoceCaps :: "buffer option \<Rightarrow> nat \<Rightarrow> MlxP1RoceCaps option" where
  "mlxP1ParseRoceCaps capb len =
     (case capb of
        None \<Rightarrow> None
      | Some cap \<Rightarrow>
          if len < MLX_P1_HCA_CAP_BYTES then None
          else Some
            \<lparr>sourceUdpPortWritable = (mlxGetBits cap 0x04 1 \<noteq> 0),
             versions = ucast (mlxGetBits cap 0x98 8),
             destinationUdpPort = ucast (mlxGetBits cap 0xb0 16),
             minimumSourceUdpPort = ucast (mlxGetBits cap 0xd0 16),
             addressTableSize = ucast (mlxGetBits cap 0xf0 16)\<rparr>)"

definition mlxP1ParseFlowCaps :: "buffer option \<Rightarrow> nat \<Rightarrow> MlxP1FlowCaps option" where
  "mlxP1ParseFlowCaps capb len =
     (case capb of
        None \<Rightarrow> None
      | Some cap \<Rightarrow>
          if len < MLX_P1_HCA_CAP_BYTES then None
          else Some \<lparr>nicRx = (mlxGetBits cap 0x200 1 \<noteq> 0), nicTx = (mlxGetBits cap 0x800 1 \<noteq> 0)\<rparr>)"

definition mlxP1ParseEthernetCaps :: "buffer option \<Rightarrow> nat \<Rightarrow> MlxP1EthernetCaps option" where
  "mlxP1ParseEthernetCaps capb len =
     (case capb of
        None \<Rightarrow> None
      | Some cap \<Rightarrow>
          if len < MLX_P1_HCA_CAP_BYTES then None
          else Some \<lparr>checksum = (mlxGetBits cap 0x00 1 \<noteq> 0), vlan = (mlxGetBits cap 0x01 1 \<noteq> 0)\<rparr>)"

definition mlxP1RoceVersionsForAbi :: "u8 \<Rightarrow> u8" where
  "mlxP1RoceVersionsForAbi firmwareVersions =
     (if firmwareVersions AND 0x1 \<noteq> 0 then 0x1 else 0) OR
     (if firmwareVersions AND 0x4 \<noteq> 0 then 0x2 else 0)"

definition mlxP1GidTableSize :: "u16 \<Rightarrow> u32" where
  "mlxP1GidTableSize encoding = (if encoding \<le> 4 then push_bit (unat encoding) 8 else 0)"

definition mlxP1PkeyTableSize :: "u16 \<Rightarrow> u32" where
  "mlxP1PkeyTableSize encoding = (if encoding \<le> 5 then push_bit (unat encoding) 128 else 0)"

definition mlxP1LogResourceSize :: "u8 \<Rightarrow> u32" where
  "mlxP1LogResourceSize logSize = (if logSize < 32 then push_bit (unat logSize) 1 else 0)"

section \<open>Page commands and the event mask\<close>

definition mlxP1EncodeQueryPages :: "buffer option \<Rightarrow> nat \<Rightarrow> u16 \<Rightarrow> bool \<Rightarrow> buffer option" where
  "mlxP1EncodeQueryPages inb len opMod embedded =
     (case inb of
        None \<Rightarrow> None
      | Some b \<Rightarrow>
          if len < 16 \<or> (opMod \<noteq> 1 \<and> opMod \<noteq> 2) then None
          else Some (setFields (memset0 b 16)
                 [(0x00, 16, 0x107), (0x30, 16, ucast opMod), (0x40, 1, if embedded then 1 else 0)]))"

definition mlxP1ManagePagesSize :: "u32 \<Rightarrow> u32" where
  "mlxP1ManagePagesSize count = (if count \<le> MLX_P1_MAX_MANAGE_PAGES then 16 + count * 8 else 0)"

definition mlxP1EncodeManagePages ::
  "buffer option \<Rightarrow> nat \<Rightarrow> u16 \<Rightarrow> u16 \<Rightarrow> bool \<Rightarrow> u64 list option \<Rightarrow> u32 \<Rightarrow> buffer option" where
  "mlxP1EncodeManagePages inb len opMod functionId embedded pages count =
     (let needed = (if opMod = MLX_P1_PAGES_GIVE then mlxP1ManagePagesSize count else 16)
      in case inb of
           None \<Rightarrow> None
         | Some b \<Rightarrow>
             if needed = 0 \<or> len < unat needed \<or> MLX_P1_MAX_MANAGE_PAGES < count \<or>
                MLX_P1_PAGES_TAKE < opMod \<or>
                (opMod = MLX_P1_PAGES_GIVE \<and> (pages = None \<or> count = 0))
             then None
             else
               (let b = setFields (memset0 b (unat needed))
                      [(0x00, 16, 0x108), (0x30, 16, ucast opMod),
                       (0x40, 1, if embedded then 1 else 0),
                       (0x50, 16, ucast functionId), (0x60, 32, ucast count)]
                in if opMod = MLX_P1_PAGES_GIVE
                   then Some (setFields b
                          (map (\<lambda>i. (0x80 + i * 64, 64, the pages ! i)) [0..<unat count]))
                   else Some b))"

definition mlxP1SetEvent :: "u64 list option \<Rightarrow> u32 \<Rightarrow> u64 list option" where
  "mlxP1SetEvent mask' eventType =
     (case mask' of
        None \<Rightarrow> None
      | Some m \<Rightarrow>
          if 256 \<le> eventType then None
          else Some (m[unat eventType div 64 :=
                 m ! (unat eventType div 64) OR push_bit (unat eventType mod 64) 1]))"

section \<open>Lemmas\<close>

lemma length_memset0 [simp]: "n \<le> length b \<Longrightarrow> length (memset0 b n) = length b"
  by (simp add: memset0_def)

lemma fieldsDisjoint_table:
  "fieldsDisjoint (map (\<lambda>i. (base + i * 64, 64, f i)) [0..<n])"
proof -
  have "sorted_wrt (\<lambda>i j. i < j) [0..<n]" by (simp add: sorted_wrt_upt)
  then show ?thesis
    unfolding fieldsDisjoint_def sorted_wrt_map by (rule sorted_wrt_mono_rel [rotated]) auto
qed

lemma getBits_table:
  assumes "base + 64 * n \<le> bufBits b" and "i < n"
  shows "mlxGetBits (setFields b (map (\<lambda>i. (base + i * 64, 64, f i)) [0..<n])) (base + 64 * i) 64 = f i"
proof -
  have "mlxGetBits (setFields b (map (\<lambda>i. (base + i * 64, 64, f i)) [0..<n])) (base + 64 * i) 64 =
      take_bit 64 (f i)"
    using assms
    by (intro getBits_setFields fieldsDisjoint_table) (auto simp: fieldsWithin_def mult.commute)
  then show ?thesis by simp
qed

lemma take_bit_ucast16 [simp]: "take_bit 16 (ucast x :: u64) = ucast x" for x :: u16
  using unsigned_less [of x, where 'a = nat] by (intro take_bit_word_small) simp

lemma take_bit_ucast32 [simp]: "take_bit 32 (ucast x :: u64) = ucast x" for x :: u32
  using unsigned_less [of x, where 'a = nat] by (intro take_bit_word_small) simp

lemma mlxP1ManagePagesSize_value:
  "count \<le> MLX_P1_MAX_MANAGE_PAGES \<Longrightarrow>
   unat (mlxP1ManagePagesSize count) = 16 + 8 * unat count \<and> unat count \<le> 512"
  by (simp add: mlxP1ManagePagesSize_def MLX_P1_MAX_MANAGE_PAGES_def word_le_nat_alt
      unat_plus_if' unat_word_ariths)

text \<open>C3: an accepted MANAGE_PAGES input fits the caller's buffer, carries at most 512 pages and a
  known operation, and reads back its opcode, operation, embedded-CPU bit, function id, count
  and, for a give, every page address in order; the bytes after the encoded length are not
  touched.\<close>

theorem mlxP1EncodeManagePages_sound:
  assumes "mlxP1EncodeManagePages (Some b) (length b) opMod fid emb pgs count = Some out"
  shows "length out = length b \<and> opMod \<le> MLX_P1_PAGES_TAKE \<and> unat count \<le> 512 \<and>
    mlxGetBits out 0x00 16 = 0x108 \<and> mlxGetBits out 0x30 16 = ucast opMod \<and>
    (mlxGetBits out 0x40 1 = 1) = emb \<and> mlxGetBits out 0x50 16 = ucast fid \<and>
    mlxGetBits out 0x60 32 = ucast count \<and>
    (if opMod = MLX_P1_PAGES_GIVE
     then 0 < unat count \<and> 16 + 8 * unat count \<le> length b \<and>
       (\<exists>ps. pgs = Some ps \<and> (\<forall>i < unat count. mlxGetBits out (0x80 + 64 * i) 64 = ps ! i)) \<and>
       drop (16 + 8 * unat count) out = drop (16 + 8 * unat count) b
     else 16 \<le> length b \<and> drop 16 out = drop 16 b)"
proof -
  let ?needed = "if opMod = MLX_P1_PAGES_GIVE then mlxP1ManagePagesSize count else 16"
  let ?h = "[(0x00, 16, 0x108), (0x30, 16, ucast opMod), (0x40, 1, if emb then 1 else 0),
             (0x50, 16, ucast fid), (0x60, 32, ucast count)] :: field list"
  let ?z = "memset0 b (unat ?needed)"
  let ?b = "setFields ?z ?h"
  let ?t = "map (\<lambda>i. (0x80 + i * 64, 64, the pgs ! i)) [0..<unat count]"
  let ?g = "opMod = MLX_P1_PAGES_GIVE"
  have c: "count \<le> MLX_P1_MAX_MANAGE_PAGES" "opMod \<le> MLX_P1_PAGES_TAKE" "unat ?needed \<le> length b"
    "?g \<longrightarrow> pgs \<noteq> None \<and> count \<noteq> 0" "out = (if ?g then setFields ?b ?t else ?b)"
    using assms by (auto simp: mlxP1EncodeManagePages_def Let_def not_less split: if_splits)
  have cnt: "unat count \<le> 512" using c(1) by (simp add: MLX_P1_MAX_MANAGE_PAGES_def word_le_nat_alt)
  have needed: "unat ?needed = (if ?g then 16 + 8 * unat count else 16)"
    using mlxP1ManagePagesSize_value [OF c(1)] by simp
  have room: "16 \<le> length b" "?g \<Longrightarrow> 16 + 8 * unat count \<le> length b"
    using c(3) needed by (auto split: if_splits)
  have lz: "length ?z = length b" using c(3) by simp
  have out_head: "mlxGetBits out off w = mlxGetBits ?b off w" if "off + w \<le> 128" for off w
    using c(5) that room lz
    by (auto intro!: getBits_setFields_other simp: bufBits_def simp del: setFields_simps)
  have head: "mlxGetBits out off w = take_bit w v" if "(off, w, v) \<in> set ?h" "w \<le> 64" for off w v
  proof -
    have "mlxGetBits ?b off w = take_bit w v"
      using that room(1) lz
      by (intro getBits_setFields) (auto simp: fieldsDisjoint_def fieldsWithin_def bufBits_def)
    then show ?thesis using that out_head by auto
  qed
  have tab: "\<exists>ps. pgs = Some ps \<and> (\<forall>i < unat count. mlxGetBits out (0x80 + 64 * i) 64 = ps ! i)" if ?g
  proof -
    obtain ps where ps: "pgs = Some ps" using c(4) \<open>?g\<close> by auto
    have "mlxGetBits out (0x80 + 64 * i) 64 = ps ! i" if "i < unat count" for i
      using getBits_table [of "0x80" "unat count" ?b i "\<lambda>i. ps ! i"] room(2) lz that \<open>?g\<close> c(5) ps
      by (simp add: bufBits_def)
    with ps show ?thesis by blast
  qed
  have tail: "drop (unat ?needed) out = drop (unat ?needed) b"
  proof (rule nth_equalityI)
    fix i assume "i < length (drop (unat ?needed) out)"
    then have i: "unat ?needed + i < length b" using c(5) lz by (auto split: if_splits)
    have "out ! (unat ?needed + i) = ?z ! (unat ?needed + i)"
    proof (cases ?g)
      case True
      then have "out = setFields ?z (?h @ ?t)" using c(5) by (simp add: setFields_append)
      then show ?thesis
        using i room lz needed True
        by (simp only:) (rule nth_setFields_other, auto simp: bufBits_def)
    next
      case False
      then have "out = setFields ?z ?h" using c(5) by simp
      then show ?thesis
        using i room lz needed False
        by (simp only:) (rule nth_setFields_other, auto simp: bufBits_def)
    qed
    also have "\<dots> = b ! (unat ?needed + i)"
      using i by (simp add: memset0_def nth_copyInto)
    finally show "drop (unat ?needed) out ! i = drop (unat ?needed) b ! i"
      using i c(3,5) lz by (auto simp: nth_drop)
  qed (use c(5) lz in auto)
  show ?thesis
    using head [of 0 16 "0x108"] head [of "0x30" 16 "ucast opMod"]
      head [of "0x40" 1 "if emb then 1 else 0"] head [of "0x50" 16 "ucast fid"]
      head [of "0x60" 32 "ucast count"] tab tail needed c room cnt lz
    by (auto simp: unat_gt_0)
qed
theorem mlxP1EncodeManagePages_sound_witness:
  "\<exists>out. mlxP1EncodeManagePages (Some (replicate 48 0xff)) 48 1 7 True
      (Some [0x1000, 0x2000, 0x3000]) 3 = Some out \<and>
    mlxGetBits out 0x100 64 = 0x3000 \<and> drop 40 out = replicate 8 0xff"
proof -
  obtain out where r: "mlxP1EncodeManagePages (Some (replicate 48 0xff)) (length (replicate 48 (0xff :: u8)))
      1 7 True (Some [0x1000, 0x2000, 0x3000]) 3 = Some out"
    by (simp add: mlxP1EncodeManagePages_def p1_const_defs mlxP1ManagePagesSize_def Let_def)
  have "\<forall>i < 3. mlxGetBits out (0x80 + 64 * i) 64 = [0x1000, 0x2000, 0x3000] ! i"
    and "drop 40 out = drop 40 (replicate 48 0xff)"
    using mlxP1EncodeManagePages_sound [OF r] by (auto simp: MLX_P1_PAGES_GIVE_def)
  with r show ?thesis by (auto simp: drop_replicate dest!: spec [of _ 2])
qed

text \<open>Membership of an event type in the four 64-bit words of the event mask.\<close>

definition eventInMask :: "u64 list \<Rightarrow> nat \<Rightarrow> bool" where
  "eventInMask = bit64s"

lemma mlxP1SetEvent_iff:
  assumes "length m = 4"
  shows "mlxP1SetEvent (Some m) e =
      (if 256 \<le> e then None
       else Some (m[unat e div 64 := m ! (unat e div 64) OR push_bit (unat e mod 64) 1]))"
  by (simp add: mlxP1SetEvent_def)

lemma eventInMask_set:
  assumes "length m = 4" and "e < 256"
  shows "eventInMask (m[e div 64 := m ! (e div 64) OR push_bit (e mod 64) 1]) k =
    (k = e \<or> eventInMask m k)"
  unfolding eventInMask_def by (rule bit64s_set) (use assms in simp)

text \<open>setting an event in the asynchronous event mask succeeds exactly for the 256 event
  types, adds that type and changes the membership of no other.\<close>

theorem mlxP1SetEvent_exact:
  assumes "length m = 4"
  shows "(case mlxP1SetEvent (Some m) e of
      None \<Rightarrow> 256 \<le> unat e
    | Some m' \<Rightarrow> unat e < 256 \<and> length m' = 4 \<and>
        (\<forall>k < 256. eventInMask m' k = (k = unat e \<or> eventInMask m k)))"
  using eventInMask_set [of m "unat e"] assms
  by (auto simp: mlxP1SetEvent_iff word_le_nat_alt word_less_nat_alt not_le)

theorem mlxP1SetEvent_exact_witness:
  "case mlxP1SetEvent (Some [0, 0, 0, 0]) 0x0b of
      None \<Rightarrow> False | Some m' \<Rightarrow> eventInMask m' 11 \<and> \<not> eventInMask m' 12"
  using mlxP1SetEvent_exact [of "[0, 0, 0, 0]" "0x0b"]
  by (simp add: mlxP1SetEvent_iff) (simp add: eventInMask_def bit64s_def)

section \<open>Capability pages round trip\<close>

text \<open>The capability page a firmware with these capabilities answers with.\<close>

definition flag :: "bool \<Rightarrow> u64" where
  "flag b = (if b then 1 else 0)"

definition generalCapsPage :: "MlxP1GeneralCaps \<Rightarrow> field list" where
  "generalCapsPage c =
     [(0x9b, 5, ucast (logMaxQp c)), (0xdb, 5, ucast (logMaxCq c)),
      (0xea, 6, ucast (logMaxMkey c)), (0x170, 16, ucast (gidTableEncoding c)),
      (0x190, 16, ucast (pkeyTableEncoding c)), (0x1a6, 1, flag (nicFlowTable c)),
      (0x1b6, 2, ucast (portType c)), (0x1b8, 8, ucast (numPorts c)),
      (0x21b, 1, flag (ethNetOffloads c)), (0x21c, 1, flag (roce c)), (0x240, 1, flag (uar4k c)),
      (0x260, 1, flag (bf c)), (0x26b, 5, ucast (logBfRegSize c)),
      (0x3a1, 1, flag (roceRwSupported c))]"

definition generalCapsWf :: "MlxP1GeneralCaps \<Rightarrow> bool" where
  "generalCapsWf c = (logMaxQp c < 32 \<and> logMaxCq c < 32 \<and> logMaxMkey c < 64 \<and> portType c < 4 \<and>
     logBfRegSize c < 32)"

lemma take_bit_u8:
  "unat x < 2 ^ n \<Longrightarrow> take_bit n (ucast x :: u64) = ucast x" for x :: u8
  by (intro take_bit_word_small) simp

lemma take_bit_u8_wide: "8 \<le> n \<Longrightarrow> take_bit n (ucast x :: u64) = ucast x" for x :: u8
proof (rule take_bit_u8)
  assume "8 \<le> n"
  then have "(2::nat) ^ 8 \<le> 2 ^ n" by (rule power_increasing) simp
  then show "unat x < 2 ^ n" using unsigned_less [of x, where 'a = nat] by simp
qed

lemma ucast_u8_64_8 [simp]: "ucast (ucast x :: u64) = x" for x :: u8
  by (rule bit_word_eqI) (simp add: bit_ucast_iff)

lemma take_bit_flag: "take_bit 1 (flag b) = flag b"
  by (simp add: flag_def)

lemma flag_neq_0 [simp]: "(flag b \<noteq> 0) = b" "(flag b = 0) = (\<not> b)"
  by (simp_all add: flag_def)

text \<open>parsing the general capability page inverts programming it: whatever else the page
  holds, a page of 4096 bytes with the fields of the interface description set to a
  capability record parses to that record; a shorter page is refused.\<close>

theorem mlxP1ParseGeneralCaps_inverts:
  assumes "generalCapsWf c" and "length page = 4096"
  shows "mlxP1ParseGeneralCaps (Some (setFields page (generalCapsPage c))) n =
    (if n < 4096 then None else Some c)"
proof -
  define q where "q = setFields page (generalCapsPage c)"
  have g: "mlxGetBits q off w = take_bit w v" if "(off, w, v) \<in> set (generalCapsPage c)" "w \<le> 64"
    for off w v
    unfolding q_def using that assms(2)
    by (intro getBits_setFields)
      (auto simp: generalCapsPage_def fieldsDisjoint_def fieldsWithin_def bufBits_def)
  have small: "take_bit 5 (ucast (logMaxQp c) :: u64) = ucast (logMaxQp c)"
    "take_bit 5 (ucast (logMaxCq c) :: u64) = ucast (logMaxCq c)"
    "take_bit 6 (ucast (logMaxMkey c) :: u64) = ucast (logMaxMkey c)"
    "take_bit 2 (ucast (portType c) :: u64) = ucast (portType c)"
    "take_bit 5 (ucast (logBfRegSize c) :: u64) = ucast (logBfRegSize c)"
    using assms(1) by (auto intro!: take_bit_u8 simp: generalCapsWf_def word_less_nat_alt)
  note small = small take_bit_u8_wide take_bit_flag
  have num: "mlxGetBits q 0x9b 5 = ucast (logMaxQp c)" "mlxGetBits q 0xdb 5 = ucast (logMaxCq c)"
    "mlxGetBits q 0xea 6 = ucast (logMaxMkey c)" "mlxGetBits q 0x1b6 2 = ucast (portType c)"
    "mlxGetBits q 0x26b 5 = ucast (logBfRegSize c)" "mlxGetBits q 0x1b8 8 = ucast (numPorts c)"
    "mlxGetBits q 0x170 16 = ucast (gidTableEncoding c)"
    "mlxGetBits q 0x190 16 = ucast (pkeyTableEncoding c)"
    by (subst g [of _ _ "ucast (logMaxQp c)"] g [of _ _ "ucast (logMaxCq c)"]
         g [of _ _ "ucast (logMaxMkey c)"] g [of _ _ "ucast (portType c)"]
         g [of _ _ "ucast (logBfRegSize c)"] g [of _ _ "ucast (numPorts c)"]
         g [of _ _ "ucast (gidTableEncoding c)"] g [of _ _ "ucast (pkeyTableEncoding c)"],
       (simp add: generalCapsPage_def; fail)+, simp add: small)+
  have flags: "mlxGetBits q 0x1a6 1 = flag (nicFlowTable c)" "mlxGetBits q 0x21b 1 = flag (ethNetOffloads c)"
    "mlxGetBits q 0x21c 1 = flag (roce c)" "mlxGetBits q 0x240 1 = flag (uar4k c)"
    "mlxGetBits q 0x260 1 = flag (bf c)" "mlxGetBits q 0x3a1 1 = flag (roceRwSupported c)"
    by (subst g [of _ _ "flag (nicFlowTable c)"] g [of _ _ "flag (ethNetOffloads c)"]
         g [of _ _ "flag (roce c)"] g [of _ _ "flag (uar4k c)"] g [of _ _ "flag (bf c)"]
         g [of _ _ "flag (roceRwSupported c)"],
       (simp add: generalCapsPage_def; fail)+, rule take_bit_flag)+
  show ?thesis
    unfolding q_def [symmetric] mlxP1ParseGeneralCaps_def
    using num flags by (simp add: MLX_P1_HCA_CAP_BYTES_def)
qed
theorem mlxP1ParseGeneralCaps_inverts_witness:
  "(let c = \<lparr>logMaxQp = 18, logMaxCq = 24, logMaxMkey = 22, portType = 1, numPorts = 1,
      logBfRegSize = 9, gidTableEncoding = 2, pkeyTableEncoding = 0, roce = True,
      roceRwSupported = True, uar4k = False, bf = True, nicFlowTable = True,
      ethNetOffloads = False\<rparr>
    in mlxP1ParseGeneralCaps (Some (setFields (replicate 4096 0) (generalCapsPage c))) 4096 = Some c)"
  by (simp add: Let_def mlxP1ParseGeneralCaps_inverts generalCapsWf_def)

text \<open>
  The page holds the GID table encoding in 16 bits and the driver keeps 8 of them, so a
  reserved encoding above 255 is taken for the encoding of its low byte.
\<close>

lemma gid_encoding_truncated:
  assumes "length page = 4096"
  shows "mlxP1ParseGeneralCaps (Some (mlxSetBits page 0x170 16 0x0102)) 4096 \<noteq> None"
    and "mlxP1GidTableSize (ucast (gidTableEncoding (the (mlxP1ParseGeneralCaps
           (Some (mlxSetBits page 0x170 16 0x0102)) 4096)))) = 32"
    and "mlxP1GidTableSize 0x0102 = 0"
proof -
  have "mlxGetBits (mlxSetBits page 0x170 16 0x0102) 0x170 16 = take_bit 16 0x0102"
    using assms by (intro ifc.get_set_same) (simp_all add: bufBits_def)
  then have "mlxGetBits (mlxSetBits page 0x170 16 0x0102) 0x170 16 = 0x0102"
    by (simp add: take_bit_word_small)
  then show "mlxP1GidTableSize (ucast (gidTableEncoding (the (mlxP1ParseGeneralCaps
           (Some (mlxSetBits page 0x170 16 0x0102)) 4096)))) = 32"
    by (simp add: mlxP1ParseGeneralCaps_def MLX_P1_HCA_CAP_BYTES_def mlxP1GidTableSize_def)
qed (simp_all add: mlxP1ParseGeneralCaps_def MLX_P1_HCA_CAP_BYTES_def mlxP1GidTableSize_def)

end
