(* ===== verification/MlxRegs.thy ===== *)
theory MlxRegs
  imports MlxPrelude
begin

text \<open>
  \<^verbatim>\<open>Sources/hw/MlxRegs.hpp\<close> and \<^verbatim>\<open>Sources/hw/MlxWQE.hpp\<close>: init-segment offsets, command
  opcodes, event types and the QP states and transports as the constants the other theories
  share, and the MMIO accesses of \<^verbatim>\<open>MlxKernelCompat.hpp\<close> as an event log. Opcodes are kept
  as numbers because \<open>MlxCmdInOut\<close> carries them as \<open>uint32_t\<close>.
\<close>

section \<open>Init segment\<close>

definition INITSEG_cmdif_rev_fw_sub :: nat where "INITSEG_cmdif_rev_fw_sub = 0x0004"
definition INITSEG_cmdq_addr_h :: nat where "INITSEG_cmdq_addr_h = 0x0010"
definition INITSEG_cmdq_addr_l_sz :: nat where "INITSEG_cmdq_addr_l_sz = 0x0014"
definition INITSEG_cmd_dbell :: nat where "INITSEG_cmd_dbell = 0x0018"
definition INITSEG_initializing :: nat where "INITSEG_initializing = 0x01FC"

definition MLX_CMD_IF_REV :: u16 where "MLX_CMD_IF_REV = 5"
definition MLX_CMD_OWNER_HW :: u8 where "MLX_CMD_OWNER_HW = 1"
definition MLX_COMMAND_DESCRIPTOR_SIZE :: nat where "MLX_COMMAND_DESCRIPTOR_SIZE = 64"
definition MLX_BF_OFFSET :: nat where "MLX_BF_OFFSET = 0x800"
definition MLX_CQ_DOORBELL :: nat where "MLX_CQ_DOORBELL = 0x20"
definition MLX_EQ_DOORBELL :: nat where "MLX_EQ_DOORBELL = 0x40"

text \<open>
  The writes \<^verbatim>\<open>mlxMMIOWrite32BE(map, offset, value)\<close> performs, newest last. The byte swap
  and the I/O barrier of the helper do not change the value the device reads.
\<close>

datatype mmio = MMIOWrite32BE nat u32

section \<open>Command opcodes\<close>

definition MLX_CMD_OP_QUERY_HCA_CAP :: u32 where "MLX_CMD_OP_QUERY_HCA_CAP = 0x100"
definition MLX_CMD_OP_SET_HCA_CAP :: u32 where "MLX_CMD_OP_SET_HCA_CAP = 0x109"
definition MLX_CMD_OP_ENABLE_HCA :: u32 where "MLX_CMD_OP_ENABLE_HCA = 0x104"
definition MLX_CMD_OP_DISABLE_HCA :: u32 where "MLX_CMD_OP_DISABLE_HCA = 0x105"
definition MLX_CMD_OP_QUERY_ISSI :: u32 where "MLX_CMD_OP_QUERY_ISSI = 0x10A"
definition MLX_CMD_OP_SET_ISSI :: u32 where "MLX_CMD_OP_SET_ISSI = 0x10B"
definition MLX_CMD_OP_INIT_HCA :: u32 where "MLX_CMD_OP_INIT_HCA = 0x102"
definition MLX_CMD_OP_TEARDOWN_HCA :: u32 where "MLX_CMD_OP_TEARDOWN_HCA = 0x103"
definition MLX_CMD_OP_MANAGE_PAGES :: u32 where "MLX_CMD_OP_MANAGE_PAGES = 0x108"
definition MLX_CMD_OP_QUERY_PAGES :: u32 where "MLX_CMD_OP_QUERY_PAGES = 0x107"
definition MLX_CMD_OP_ALLOC_UAR :: u32 where "MLX_CMD_OP_ALLOC_UAR = 0x802"
definition MLX_CMD_OP_FREE_UAR :: u32 where "MLX_CMD_OP_FREE_UAR = 0x803"
definition MLX_CMD_OP_CREATE_MKEY :: u32 where "MLX_CMD_OP_CREATE_MKEY = 0x200"
definition MLX_CMD_OP_DESTROY_MKEY :: u32 where "MLX_CMD_OP_DESTROY_MKEY = 0x202"
definition MLX_CMD_OP_QUERY_SPECIAL_CONTEXTS :: u32 where
  "MLX_CMD_OP_QUERY_SPECIAL_CONTEXTS = 0x203"
definition MLX_CMD_OP_CREATE_EQ :: u32 where "MLX_CMD_OP_CREATE_EQ = 0x301"
definition MLX_CMD_OP_DESTROY_EQ :: u32 where "MLX_CMD_OP_DESTROY_EQ = 0x302"
definition MLX_CMD_OP_CREATE_CQ :: u32 where "MLX_CMD_OP_CREATE_CQ = 0x400"
definition MLX_CMD_OP_DESTROY_CQ :: u32 where "MLX_CMD_OP_DESTROY_CQ = 0x401"
definition MLX_CMD_OP_CREATE_QP :: u32 where "MLX_CMD_OP_CREATE_QP = 0x500"
definition MLX_CMD_OP_DESTROY_QP :: u32 where "MLX_CMD_OP_DESTROY_QP = 0x501"
definition MLX_CMD_OP_RST2INIT_QP :: u32 where "MLX_CMD_OP_RST2INIT_QP = 0x502"
definition MLX_CMD_OP_INIT2RTR_QP :: u32 where "MLX_CMD_OP_INIT2RTR_QP = 0x503"
definition MLX_CMD_OP_RTR2RTS_QP :: u32 where "MLX_CMD_OP_RTR2RTS_QP = 0x504"
definition MLX_CMD_OP_2RST_QP :: u32 where "MLX_CMD_OP_2RST_QP = 0x50A"
definition MLX_CMD_OP_2ERR_QP :: u32 where "MLX_CMD_OP_2ERR_QP = 0x507"
definition MLX_CMD_OP_QUERY_QP :: u32 where "MLX_CMD_OP_QUERY_QP = 0x50B"
definition MLX_CMD_OP_SET_ROCE_ADDRESS :: u32 where "MLX_CMD_OP_SET_ROCE_ADDRESS = 0x761"
definition MLX_CMD_OP_QUERY_ROCE_ADDRESS :: u32 where "MLX_CMD_OP_QUERY_ROCE_ADDRESS = 0x760"
definition MLX_CMD_OP_QUERY_VPORT_STATE :: u32 where "MLX_CMD_OP_QUERY_VPORT_STATE = 0x750"
definition MLX_CMD_OP_QUERY_NIC_VPORT_CONTEXT :: u32 where
  "MLX_CMD_OP_QUERY_NIC_VPORT_CONTEXT = 0x754"
definition MLX_CMD_OP_MODIFY_CONG_PARAMS :: u32 where "MLX_CMD_OP_MODIFY_CONG_PARAMS = 0x825"
definition MLX_CMD_OP_QUERY_CONG_STATISTICS :: u32 where
  "MLX_CMD_OP_QUERY_CONG_STATISTICS = 0x826"
definition MLX_CMD_OP_ALLOC_PD :: u32 where "MLX_CMD_OP_ALLOC_PD = 0x800"
definition MLX_CMD_OP_DEALLOC_PD :: u32 where "MLX_CMD_OP_DEALLOC_PD = 0x801"

lemmas opcode_defs = MLX_CMD_OP_QUERY_HCA_CAP_def MLX_CMD_OP_SET_HCA_CAP_def
  MLX_CMD_OP_ENABLE_HCA_def MLX_CMD_OP_DISABLE_HCA_def MLX_CMD_OP_QUERY_ISSI_def
  MLX_CMD_OP_SET_ISSI_def MLX_CMD_OP_INIT_HCA_def MLX_CMD_OP_TEARDOWN_HCA_def
  MLX_CMD_OP_MANAGE_PAGES_def MLX_CMD_OP_QUERY_PAGES_def MLX_CMD_OP_ALLOC_UAR_def
  MLX_CMD_OP_FREE_UAR_def MLX_CMD_OP_CREATE_MKEY_def MLX_CMD_OP_DESTROY_MKEY_def
  MLX_CMD_OP_QUERY_SPECIAL_CONTEXTS_def MLX_CMD_OP_CREATE_EQ_def MLX_CMD_OP_DESTROY_EQ_def
  MLX_CMD_OP_CREATE_CQ_def MLX_CMD_OP_DESTROY_CQ_def MLX_CMD_OP_CREATE_QP_def
  MLX_CMD_OP_DESTROY_QP_def MLX_CMD_OP_RST2INIT_QP_def MLX_CMD_OP_INIT2RTR_QP_def
  MLX_CMD_OP_RTR2RTS_QP_def MLX_CMD_OP_2RST_QP_def MLX_CMD_OP_2ERR_QP_def MLX_CMD_OP_QUERY_QP_def
  MLX_CMD_OP_SET_ROCE_ADDRESS_def MLX_CMD_OP_QUERY_ROCE_ADDRESS_def
  MLX_CMD_OP_QUERY_VPORT_STATE_def MLX_CMD_OP_QUERY_NIC_VPORT_CONTEXT_def
  MLX_CMD_OP_MODIFY_CONG_PARAMS_def MLX_CMD_OP_QUERY_CONG_STATISTICS_def MLX_CMD_OP_ALLOC_PD_def
  MLX_CMD_OP_DEALLOC_PD_def

section \<open>Events, QP states and transports\<close>

definition MLX_EVENT_TYPE_COMPLETION :: u8 where "MLX_EVENT_TYPE_COMPLETION = 0x00"
definition MLX_EVENT_TYPE_CMD :: u8 where "MLX_EVENT_TYPE_CMD = 0x0a"
definition MLX_EVENT_TYPE_PAGE_REQUEST :: u8 where "MLX_EVENT_TYPE_PAGE_REQUEST = 0x0b"
definition MLX_EVENT_TYPE_DEVICE_FATAL :: u8 where "MLX_EVENT_TYPE_DEVICE_FATAL = 0x08"
definition MLX_EVENT_TYPE_PORT_STATE_CHANGE :: u8 where "MLX_EVENT_TYPE_PORT_STATE_CHANGE = 0x09"
definition MLX_EVENT_TYPE_NIC_VPORT_CHANGE :: u8 where "MLX_EVENT_TYPE_NIC_VPORT_CHANGE = 0x0d"

definition MLX_QP_ST_RC :: u32 where "MLX_QP_ST_RC = 0x0"
definition MLX_QP_ST_UD :: u32 where "MLX_QP_ST_UD = 0x1"
definition MLX_QP_ST_UC :: u32 where "MLX_QP_ST_UC = 0x3"
definition MLX_QP_ST_XRC :: u32 where "MLX_QP_ST_XRC = 0x6"

definition MLX_QP_STATE_RST :: u32 where "MLX_QP_STATE_RST = 0"
definition MLX_QP_STATE_INIT :: u32 where "MLX_QP_STATE_INIT = 1"
definition MLX_QP_STATE_RTR :: u32 where "MLX_QP_STATE_RTR = 2"
definition MLX_QP_STATE_RTS :: u32 where "MLX_QP_STATE_RTS = 3"
definition MLX_QP_STATE_SQER :: u32 where "MLX_QP_STATE_SQER = 4"
definition MLX_QP_STATE_SQD :: u32 where "MLX_QP_STATE_SQD = 5"
definition MLX_QP_STATE_ERR :: u32 where "MLX_QP_STATE_ERR = 6"

definition MLX_CQE_REQ_ERR :: u8 where "MLX_CQE_REQ_ERR = 13"
definition MLX_CQE_RESP_ERR :: u8 where "MLX_CQE_RESP_ERR = 14"
definition MLX_CQE_INVALID :: u8 where "MLX_CQE_INVALID = 15"

lemmas qp_state_defs = MLX_QP_STATE_RST_def MLX_QP_STATE_INIT_def MLX_QP_STATE_RTR_def
  MLX_QP_STATE_RTS_def MLX_QP_STATE_SQER_def MLX_QP_STATE_SQD_def MLX_QP_STATE_ERR_def

end
