(* ===== verification/MlxCmd.thy ===== *)
theory MlxCmd
  imports MlxP1 MlxRegs
begin

text \<open>
  \<^verbatim>\<open>Sources/core/MlxCmd.{hpp,cpp}\<close>: the firmware command interface. The command queue page
  is a byte buffer, a descriptor the 64 bytes at \<open>idx << fLogStride\<close> and a mailbox block a
  576-byte buffer; the fields are written at their struct offsets. What the driver does not
  decide is an environment record: which allocations succeed and with which DMA addresses, the
  ownership byte at each poll, and the response the firmware leaves in the descriptor and the
  output blocks. \<open>pollLoop\<close> is a partial function, because with a timeout of 0 the code waits
  as long as the firmware keeps the descriptor.
\<close>

unbundle bit_operations_syntax

section \<open>Data\<close>

definition MLX_MAX_COMMANDS :: nat where "MLX_MAX_COMMANDS = 32"
definition MLX_CMD_DATA_BLOCK_SIZE :: nat where "MLX_CMD_DATA_BLOCK_SIZE = 512"
definition MLX_CMD_MAX_BLOCKS :: nat where "MLX_CMD_MAX_BLOCKS = 8"
definition MLX_CMD_MAX_SIZE :: nat where
  "MLX_CMD_MAX_SIZE = 16 + MLX_CMD_MAX_BLOCKS * MLX_CMD_DATA_BLOCK_SIZE"

lemmas cmd_const_defs = MLX_MAX_COMMANDS_def MLX_CMD_DATA_BLOCK_SIZE_def MLX_CMD_MAX_BLOCKS_def
  MLX_CMD_MAX_SIZE_def

text \<open>Struct offsets of \<open>MlxCmdLayout\<close> and \<open>MlxCmdMailbox\<close>.\<close>

definition LAY_type :: nat where "LAY_type = 0"
definition LAY_inlen :: nat where "LAY_inlen = 4"
definition LAY_in_ptr :: nat where "LAY_in_ptr = 8"
definition LAY_in :: nat where "LAY_in = 16"
definition LAY_out :: nat where "LAY_out = 32"
definition LAY_out_ptr :: nat where "LAY_out_ptr = 48"
definition LAY_outlen :: nat where "LAY_outlen = 56"
definition LAY_token :: nat where "LAY_token = 60"
definition LAY_sig :: nat where "LAY_sig = 61"
definition LAY_status_own :: nat where "LAY_status_own = 63"
definition MlxCmdLayout_size :: nat where "MlxCmdLayout_size = 64"

definition MB_rsvd0 :: nat where "MB_rsvd0 = 512"
definition MB_next :: nat where "MB_next = 560"
definition MB_block_num :: nat where "MB_block_num = 568"
definition MB_token :: nat where "MB_token = 573"
definition MB_ctrl_sig :: nat where "MB_ctrl_sig = 574"
definition MB_sig :: nat where "MB_sig = 575"
definition MlxCmdMailbox_size :: nat where "MlxCmdMailbox_size = 576"

lemmas layout_defs = LAY_type_def LAY_inlen_def LAY_in_ptr_def LAY_in_def LAY_out_def
  LAY_out_ptr_def LAY_outlen_def LAY_token_def LAY_sig_def LAY_status_own_def
  MlxCmdLayout_size_def MB_rsvd0_def MB_next_def MB_block_num_def MB_token_def MB_ctrl_sig_def
  MB_sig_def MlxCmdMailbox_size_def

record MlxCmdInOut =
  cmd_in :: "buffer option"
  cmd_inSize :: nat
  cmd_out :: "buffer option"
  cmd_outSize :: nat
  cmd_opcode :: u32

record MlxCmdEnt =
  ent_idx :: nat
  ent_token :: u8
  ent_pending :: bool
  ent_done :: bool
  ent_status :: ioreturn
  ent_inMailbox :: "buffer list"
  ent_inMailboxDMA :: "u64 list"
  ent_outMailbox :: "buffer list"
  ent_outMailboxDMA :: "u64 list"
  ent_timedOut :: bool

record MlxCmd =
  fUp :: bool
  fQuarantined :: bool
  fModeEvents :: bool
  fCmdifRev :: u16
  fCmdBuf :: buffer
  fCmdDMA :: u64
  fCmdBufDesc :: bool
  fCmdBufMap :: bool
  fLogSz :: u8
  fLogStride :: u8
  fMaxRegCmds :: nat
  fBitmask :: u32
  fToken :: u8
  fAllocLock :: bool
  fTokenLock :: bool
  fPageLock :: bool
  fEntArr :: "MlxCmdEnt option list"
  fMmio :: "mmio list"

text \<open>What a call of \<open>allocMailbox\<close> is told for one block, and what the rest of the world does.\<close>

datatype boxResult = BoxNoMemory | BoxMap ioreturn u64

record CmdEnv =
  envEnt :: bool
  envInBox :: "nat \<Rightarrow> boxResult"
  envOutBox :: "nat \<Rightarrow> boxResult"
  envPoll :: "nat \<Rightarrow> u8"
  envStatus :: u8
  envOutHdr :: buffer
  envOutData :: "nat \<Rightarrow> buffer"

section \<open>Slots and signatures\<close>

definition allocIdx :: "MlxCmd \<Rightarrow> nat option \<times> MlxCmd" where
  "allocIdx st =
     (if fBitmask st \<noteq> 0
      then (let b = ctz (fBitmask st)
            in (Some b, st\<lparr>fBitmask := fBitmask st AND NOT (push_bit b 1)\<rparr>))
      else (None, st))"

definition freeIdx :: "nat \<Rightarrow> MlxCmd \<Rightarrow> MlxCmd" where
  "freeIdx idx st = st\<lparr>fBitmask := fBitmask st OR push_bit idx 1\<rparr>"

definition xor8_buf :: "buffer \<Rightarrow> nat \<Rightarrow> nat \<Rightarrow> u8" where
  "xor8_buf buf off len = foldl (\<lambda>acc i. acc XOR buf ! (off + i)) 0 [0..<len]"

definition setSignature :: "buffer \<Rightarrow> buffer" where
  "setSignature lay =
     (let lay = lay[LAY_sig := 0]
      in lay[LAY_sig := NOT (xor8_buf lay 0 MlxCmdLayout_size)])"

definition setMailboxSignature :: "buffer \<Rightarrow> nat \<Rightarrow> buffer" where
  "setMailboxSignature mb len =
     (let ctrl_xor_len = MlxCmdMailbox_size - MLX_CMD_DATA_BLOCK_SIZE - 2;
          mb = mb[MB_ctrl_sig := NOT (xor8_buf mb MB_rsvd0 ctrl_xor_len)]
      in mb[MB_sig := NOT (xor8_buf mb 0 (len - 1))])"

section \<open>Mailboxes\<close>

definition numBlocks :: "nat \<Rightarrow> nat" where
  "numBlocks sz =
     (if 16 < sz then (sz - 16 + MLX_CMD_DATA_BLOCK_SIZE - 1) div MLX_CMD_DATA_BLOCK_SIZE else 0)"

text \<open>
  One direction of the allocation loop: the DMA addresses of \<open>n\<close> zeroed blocks, or the error of
  the first block that cannot be had (the code then releases every block it got).
\<close>

fun allocBoxes :: "(nat \<Rightarrow> boxResult) \<Rightarrow> nat \<Rightarrow> nat \<Rightarrow> ioreturn + u64 list" where
  "allocBoxes f i 0 = Inr []"
| "allocBoxes f i (Suc n) =
     (case f i of
        BoxNoMemory \<Rightarrow> Inl kIOReturnNoMemory
      | BoxMap kr dma \<Rightarrow>
          if kr \<noteq> kIOReturnSuccess then Inl kr
          else (case allocBoxes f (Suc i) n of Inl e \<Rightarrow> Inl e | Inr ds \<Rightarrow> Inr (dma # ds)))"

definition freeMailbox :: "MlxCmdEnt \<Rightarrow> MlxCmdEnt" where
  "freeMailbox ent = ent\<lparr>ent_inMailbox := [], ent_inMailboxDMA := [],
     ent_outMailbox := [], ent_outMailboxDMA := []\<rparr>"

definition zeroBox :: buffer where
  "zeroBox = replicate MlxCmdMailbox_size 0"

definition allocMailbox :: "CmdEnv \<Rightarrow> MlxCmdEnt \<Rightarrow> nat \<Rightarrow> nat \<Rightarrow> ioreturn \<times> MlxCmdEnt" where
  "allocMailbox env ent inSize outSize =
     (let ni = numBlocks inSize; no = numBlocks outSize
      in if MLX_CMD_MAX_BLOCKS < ni \<or> MLX_CMD_MAX_BLOCKS < no then (kIOReturnNoSpace, ent)
         else
           (case allocBoxes (envInBox env) 0 ni of
              Inl kr \<Rightarrow> (kr, freeMailbox ent)
            | Inr ins \<Rightarrow>
                (case allocBoxes (envOutBox env) 0 no of
                   Inl kr \<Rightarrow> (kr, freeMailbox ent)
                 | Inr outs \<Rightarrow>
                     (kIOReturnSuccess,
                      ent\<lparr>ent_inMailbox := replicate ni zeroBox, ent_inMailboxDMA := ins,
                          ent_outMailbox := replicate no zeroBox, ent_outMailboxDMA := outs\<rparr>))))"

section \<open>Submission\<close>

definition nextDMA :: "u64 list \<Rightarrow> nat \<Rightarrow> u64" where
  "nextDMA dmas i = (if i + 1 < length dmas then dmas ! (i + 1) else 0)"

definition finishBox :: "u8 \<Rightarrow> u64 list \<Rightarrow> nat \<Rightarrow> buffer \<Rightarrow> buffer" where
  "finishBox token dmas i mb =
     (let mb = OSWriteBigInt64 mb MB_next (nextDMA dmas i);
          mb = OSWriteBigInt32 mb MB_block_num (of_nat i);
          mb = mb[MB_token := token]
      in setMailboxSignature mb MlxCmdMailbox_size)"

definition fillInBox :: "buffer \<Rightarrow> nat \<Rightarrow> u8 \<Rightarrow> u64 list \<Rightarrow> nat \<Rightarrow> buffer \<Rightarrow> buffer" where
  "fillInBox inb inSize token dmas i mb =
     (let copied = 16 + i * MLX_CMD_DATA_BLOCK_SIZE;
          dataLen = min (inSize - copied) MLX_CMD_DATA_BLOCK_SIZE
      in finishBox token dmas i (copyInto mb 0 (bytesAt inb copied dataLen)))"

definition buildLayout :: "buffer \<Rightarrow> nat \<Rightarrow> nat \<Rightarrow> MlxCmdEnt option \<Rightarrow> buffer" where
  "buildLayout inb inSize outSize ent =
     (let lay = replicate MlxCmdLayout_size 0;
          lay = copyInto lay LAY_in (take (min inSize 16) inb);
          lay = OSWriteBigInt64 lay LAY_in_ptr
                  (case ent of Some e \<Rightarrow> (case ent_inMailboxDMA e of [] \<Rightarrow> 0 | d # _ \<Rightarrow> d) | None \<Rightarrow> 0);
          lay = OSWriteBigInt32 lay LAY_inlen (of_nat inSize);
          lay = OSWriteBigInt64 lay LAY_out_ptr
                  (case ent of Some e \<Rightarrow> (case ent_outMailboxDMA e of [] \<Rightarrow> 0 | d # _ \<Rightarrow> d) | None \<Rightarrow> 0);
          lay = OSWriteBigInt32 lay LAY_outlen (of_nat outSize);
          lay = lay[LAY_type := 0x7];
          lay = lay[LAY_token := (case ent of Some e \<Rightarrow> ent_token e | None \<Rightarrow> 0)];
          lay = lay[LAY_status_own := MLX_CMD_OWNER_HW]
      in setSignature lay)"

definition layBase :: "MlxCmd \<Rightarrow> nat \<Rightarrow> nat" where
  "layBase st idx = push_bit (unat (fLogStride st)) idx"

definition submit :: "nat \<Rightarrow> buffer \<Rightarrow> nat \<Rightarrow> nat \<Rightarrow> MlxCmd \<Rightarrow> ioreturn \<times> MlxCmd" where
  "submit idx inb inSize outSize st =
     (let ent = fEntArr st ! idx;
          ent' = map_option (\<lambda>e. e\<lparr>
             ent_inMailbox := map (\<lambda>i. fillInBox inb inSize (ent_token e) (ent_inMailboxDMA e) i
                 (ent_inMailbox e ! i)) [0..<length (ent_inMailbox e)],
             ent_outMailbox := map (\<lambda>i. finishBox (ent_token e) (ent_outMailboxDMA e) i
                 (ent_outMailbox e ! i)) [0..<length (ent_outMailbox e)],
             ent_done := False,
             ent_status := kIOReturnSuccess\<rparr>) ent
      in (kIOReturnSuccess,
          st\<lparr>fCmdBuf := copyInto (fCmdBuf st) (layBase st idx) (buildLayout inb inSize outSize ent),
             fEntArr := (fEntArr st)[idx := ent'],
             fMmio := fMmio st @ [MMIOWrite32BE INITSEG_cmd_dbell (push_bit idx 1)]\<rparr>))"

section \<open>Execution\<close>

text \<open>
  The wait loop: \<open>Some True\<close> when the firmware released the descriptor, \<open>Some False\<close> when
  the timeout expired, \<open>None\<close> when the loop does not end. \<open>waited\<close> is \<open>waitedMs\<close>.
\<close>

partial_function (option) pollLoop :: "(nat \<Rightarrow> u8) \<Rightarrow> nat \<Rightarrow> nat \<Rightarrow> nat \<Rightarrow> bool option" where
  "pollLoop poll timeoutMs waited k =
     (if poll k AND MLX_CMD_OWNER_HW = 0 then Some True
      else if timeoutMs \<noteq> 0 \<and> timeoutMs \<le> waited then Some False
      else pollLoop poll timeoutMs (if timeoutMs \<noteq> 0 then waited + 1 else waited) (k + 1))"

definition mapOutboxStatus :: "u8 \<Rightarrow> ioreturn" where
  "mapOutboxStatus s =
     (if s = 0 then kIOReturnSuccess
      else if s = 2 then kIOReturnUnsupported
      else if s \<in> {3, 5, 9, 0x0a, 0x10, 0x30, 0x40} then kIOReturnBadArgument
      else if s = 6 then kIOReturnBusy
      else if s = 8 then kIOReturnNoResources
      else if s = 4 then kIOReturnNotReady
      else if s = 0x0f then kIOReturnNoSpace
      else kIOReturnIOError)"

fun copyOutBoxes :: "CmdEnv \<Rightarrow> nat \<Rightarrow> nat \<Rightarrow> nat \<Rightarrow> buffer \<Rightarrow> buffer" where
  "copyOutBoxes env outSize i 0 out = out"
| "copyOutBoxes env outSize i (Suc n) out =
     (let copied = 16 + i * MLX_CMD_DATA_BLOCK_SIZE;
          mbLen = min (outSize - copied) MLX_CMD_DATA_BLOCK_SIZE
      in copyOutBoxes env outSize (Suc i) n (copyInto out copied (take mbLen (envOutData env i))))"

definition readResponse :: "CmdEnv \<Rightarrow> nat \<Rightarrow> nat \<Rightarrow> buffer \<Rightarrow> ioreturn \<times> buffer" where
  "readResponse env outSize outBlocks out =
     (let out = copyInto out 0 (take (min outSize 16) (envOutHdr env));
          out = copyOutBoxes env outSize 0 outBlocks out;
          status = drop_bit 1 (envStatus env) AND 0x7F
      in if status \<noteq> 0 then (kIOReturnIOError, out)
         else
           (mapOutboxStatus
              (case mlxP1ParseOutbox (Some out) outSize of Some s \<Rightarrow> outStatus s | None \<Rightarrow> 0),
            out))"

text \<open>
  What the handler does once it has a slot: \<open>release\<close> returns the slot on the paths that do
  (the bitmap for a regular command, nothing for the page slot, which the page lock covers).
\<close>

definition newEnt :: "nat \<Rightarrow> u8 \<Rightarrow> MlxCmdEnt" where
  "newEnt idx token =
     \<lparr>ent_idx = idx, ent_token = token, ent_pending = True, ent_done = False,
      ent_status = kIOReturnSuccess, ent_inMailbox = [], ent_inMailboxDMA = [],
      ent_outMailbox = [], ent_outMailboxDMA = [], ent_timedOut = False\<rparr>"

definition clearSlot :: "nat \<Rightarrow> MlxCmd \<Rightarrow> MlxCmd" where
  "clearSlot idx st = st\<lparr>fEntArr := (fEntArr st)[idx := None]\<rparr>"

definition execWait ::
  "CmdEnv \<Rightarrow> nat \<Rightarrow> (MlxCmd \<Rightarrow> MlxCmd) \<Rightarrow> buffer \<Rightarrow> nat \<Rightarrow> nat \<Rightarrow> MlxCmd \<Rightarrow>
   (ioreturn \<times> buffer \<times> MlxCmd) option" where
  "execWait env idx release out outSize timeoutMs st =
     (case pollLoop (envPoll env) timeoutMs 0 0 of
        None \<Rightarrow> None
      | Some False \<Rightarrow>
          Some (kIOReturnTimeout, out,
            st\<lparr>fEntArr := (fEntArr st)[idx :=
                 map_option (\<lambda>e. e\<lparr>ent_timedOut := True\<rparr>) (fEntArr st ! idx)],
               fQuarantined := True\<rparr>)
      | Some True \<Rightarrow>
          (let (result, out) = readResponse env outSize (numBlocks outSize) out
           in Some (result, out, clearSlot idx (release st))))"

definition execSlot ::
  "CmdEnv \<Rightarrow> nat \<Rightarrow> (MlxCmd \<Rightarrow> MlxCmd) \<Rightarrow> buffer \<Rightarrow> nat \<Rightarrow> buffer \<Rightarrow> nat \<Rightarrow> nat \<Rightarrow> MlxCmd \<Rightarrow>
   (ioreturn \<times> buffer \<times> MlxCmd) option" where
  "execSlot env idx release inb inSize out outSize timeoutMs st =
     (if \<not> envEnt env then Some (kIOReturnNoMemory, out, release st)
      else
        (let ent = newEnt idx (fToken st);
             st = st\<lparr>fToken := fToken st + 1, fEntArr := (fEntArr st)[idx := Some ent]\<rparr>
         in case allocMailbox env ent inSize outSize of
              (kr, ent) \<Rightarrow>
                if kr \<noteq> kIOReturnSuccess then Some (kr, out, clearSlot idx (release st))
                else
                  (case submit idx inb inSize outSize
                          (st\<lparr>fEntArr := (fEntArr st)[idx := Some ent]\<rparr>) of
                     (kr, st) \<Rightarrow>
                       if kr \<noteq> kIOReturnSuccess then Some (kr, out, clearSlot idx (release st))
                       else execWait env idx release out outSize timeoutMs st)))"

definition execGuard :: "MlxCmd \<Rightarrow> MlxCmdInOut option \<Rightarrow> ioreturn" where
  "execGuard st cmd =
     (if \<not> fUp st then kIOReturnNotReady
      else if fQuarantined st \<and>
          (case cmd of Some c \<Rightarrow> cmd_opcode c \<noteq> MLX_CMD_OP_TEARDOWN_HCA \<and>
                                  cmd_opcode c \<noteq> MLX_CMD_OP_DISABLE_HCA | None \<Rightarrow> False)
      then kIOReturnNotReady
      else
        (case cmd of
           None \<Rightarrow> kIOReturnBadArgument
         | Some c \<Rightarrow>
             if cmd_in c = None \<or> cmd_inSize c = 0 \<or> MLX_CMD_MAX_SIZE < cmd_inSize c \<or>
                MLX_CMD_MAX_SIZE < cmd_outSize c \<or> cmd_out c = None \<or> cmd_outSize c < 8
             then kIOReturnBadArgument
             else kIOReturnSuccess))"

definition exec ::
  "CmdEnv \<Rightarrow> MlxCmdInOut option \<Rightarrow> nat \<Rightarrow> MlxCmd \<Rightarrow> (ioreturn \<times> buffer option \<times> MlxCmd) option" where
  "exec env cmd timeoutMs st =
     (let outb = (case cmd of Some c \<Rightarrow> cmd_out c | None \<Rightarrow> None)
      in if execGuard st cmd \<noteq> kIOReturnSuccess then Some (execGuard st cmd, outb, st)
         else
           (let c = the cmd; inb = the (cmd_in c); out = the (cmd_out c)
            in if cmd_opcode c = MLX_CMD_OP_MANAGE_PAGES
               then (let idx = fMaxRegCmds st
                     in if fEntArr st ! idx \<noteq> None then Some (kIOReturnBusy, outb, st)
                        else map_option (\<lambda>(r, b, s). (r, Some b, s))
                          (execSlot env idx id inb (cmd_inSize c) out (cmd_outSize c) timeoutMs st))
               else
                 (case allocIdx st of
                    (None, st) \<Rightarrow> Some (kIOReturnNoSpace, outb, st)
                  | (Some idx, st) \<Rightarrow> map_option (\<lambda>(r, b, s). (r, Some b, s))
                      (execSlot env idx (freeIdx idx) inb (cmd_inSize c) out (cmd_outSize c)
                         timeoutMs st))))"

fun handleCompletionBits :: "nat \<Rightarrow> u32 \<Rightarrow> MlxCmd \<Rightarrow> MlxCmd" where
  "handleCompletionBits 0 vector st = st"
| "handleCompletionBits (Suc fuel) vector st =
     (if vector = 0 then st
      else
        (let idx = ctz vector; vector = vector AND (vector - 1)
         in handleCompletionBits fuel vector
              (st\<lparr>fEntArr := (fEntArr st)[idx := map_option
                   (\<lambda>e. e\<lparr>ent_done := True, ent_status := kIOReturnSuccess\<rparr>) (fEntArr st ! idx)]\<rparr>)))"

text \<open>Every round clears a bit of a 32-bit word, so 32 rounds end the loop.\<close>

definition handleCompletion :: "u32 \<Rightarrow> MlxCmd \<Rightarrow> MlxCmd" where
  "handleCompletion vector st = handleCompletionBits 32 vector st"


section \<open>Initialisation and teardown\<close>

record CmdInitEnv =
  initSuper :: bool
  initCmdifRevFw :: u32
  initCmdqAddrLSz :: u32
  initBuf :: bool
  initMap :: "ioreturn \<times> u64"
  initAllocLock :: bool
  initTokenLock :: bool
  initPageLock :: bool

definition cmdZero :: MlxCmd where
  "cmdZero = \<lparr>fUp = False, fQuarantined = False, fModeEvents = False, fCmdifRev = 0,
     fCmdBuf = [], fCmdDMA = 0, fCmdBufDesc = False, fCmdBufMap = False, fLogSz = 0,
     fLogStride = 0, fMaxRegCmds = 0, fBitmask = 0, fToken = 0, fAllocLock = False,
     fTokenLock = False, fPageLock = False, fEntArr = replicate MLX_MAX_COMMANDS None, fMmio = []\<rparr>"

definition init :: "CmdInitEnv \<Rightarrow> nat \<Rightarrow> bool \<times> MlxCmd" where
  "init env cmdqSize =
     (if \<not> initSuper env then (False, cmdZero)
      else
        (let st = cmdZero\<lparr>fCmdifRev := ucast (drop_bit 16 (initCmdifRevFw env))\<rparr>
         in if fCmdifRev st \<noteq> MLX_CMD_IF_REV then (False, st)
            else
              (let cmdqParams = (ucast (initCmdqAddrLSz env AND 0xFF) :: u8);
                   st = st\<lparr>fLogSz := drop_bit 4 cmdqParams AND 0xF, fLogStride := cmdqParams AND 0xF\<rparr>;
                   logSz = unat (fLogSz st); logStride = unat (fLogStride st)
               in if 31 \<le> logSz \<or> logStride < 6 \<or> 12 < logSz + logStride then (False, st)
                  else
                    (let queueSize = (push_bit logSz 1 :: nat)
                     in if queueSize < 2 \<or> MLX_MAX_COMMANDS < queueSize \<or> 5 < logSz \<or>
                           cmdqSize < push_bit (logSz + logStride) 1
                        then (False, st)
                        else if \<not> initBuf env then (False, st)
                        else if fst (initMap env) \<noteq> kIOReturnSuccess then (False, st)
                        else
                          (let dma = snd (initMap env);
                               st = st\<lparr>fCmdBufDesc := True, fCmdBufMap := True, fCmdDMA := dma,
                                 fCmdBuf := replicate cmdqSize 0,
                                 fMmio := [MMIOWrite32BE INITSEG_cmdq_addr_h (ucast (drop_bit 32 dma)),
                                           MMIOWrite32BE INITSEG_cmdq_addr_l_sz
                                             (ucast (dma AND 0xFFFFFFFF))],
                                 fMaxRegCmds := queueSize - 1,
                                 fBitmask := (if queueSize - 1 \<noteq> 0
                                   then push_bit (queueSize - 1) 1 - 1 else 0),
                                 fAllocLock := initAllocLock env, fTokenLock := initTokenLock env,
                                 fPageLock := initPageLock env\<rparr>
                           in if \<not> fAllocLock st \<or> \<not> fTokenLock st \<or> \<not> fPageLock st
                              then (False, st\<lparr>fCmdBufMap := False, fCmdBufDesc := False\<rparr>)
                              else (True, st\<lparr>fUp := True\<rparr>))))))"

text \<open>The destructor: every entity still held is freed with its mailboxes, then the queue and locks.\<close>

definition free :: "MlxCmd \<Rightarrow> MlxCmd" where
  "free st = st\<lparr>fUp := False, fEntArr := map (\<lambda>_. None) (fEntArr st), fCmdBufMap := False,
     fCmdBufDesc := False, fAllocLock := False, fTokenLock := False, fPageLock := False\<rparr>"

section \<open>The wait loop ends\<close>

declare pollLoop.simps [code]

abbreviation released :: "(nat \<Rightarrow> u8) \<Rightarrow> nat \<Rightarrow> bool" where
  "released poll k \<equiv> poll k AND MLX_CMD_OWNER_HW = 0"

lemma pollLoop_timeout:
  "t \<noteq> 0 \<Longrightarrow> w \<le> t \<Longrightarrow>
   pollLoop poll t w k = Some (\<exists>j \<le> t - w. released poll (k + j))"
proof (induction "t - w" arbitrary: w k)
  case 0
  then show ?case by (subst pollLoop.simps) auto
next
  case (Suc n)
  then have w: "w < t" "n = t - Suc w" "t - w = Suc (t - Suc w)" by simp_all
  have rec: "pollLoop poll t (Suc w) (Suc k) = Some (\<exists>j \<le> t - Suc w. released poll (Suc k + j))"
    using Suc.hyps(1) [OF w(2) Suc.prems(1)] w(1) by simp
  have split: "(\<exists>j \<le> Suc m. P (k + j)) = (P k \<or> (\<exists>j \<le> m. P (Suc k + j)))" for m P
    by (metis (no_types, opaque_lifting) Suc_le_mono add.right_neutral add_Suc_shift le0 not0_implies_Suc)
  show ?case
    using Suc.prems(1) w(1) rec unfolding w(3) split [of "t - Suc w" "released poll"]
    by (subst pollLoop.simps) auto
qed

lemma pollLoop_0_Some: "released poll (k + j) \<Longrightarrow> \<exists>r. pollLoop poll 0 w k = Some True"
proof (induction j arbitrary: k)
  case 0
  then show ?case by (subst pollLoop.simps) simp
next
  case (Suc j)
  then show ?case by (subst pollLoop.simps) simp
qed

lemma pollLoop_0_D:
  assumes "pollLoop poll t w k = Some r"
  shows "t = 0 \<longrightarrow> r \<and> (\<exists>j \<ge> k. released poll j)"
proof (rule pollLoop.raw_induct
    [where P = "\<lambda>poll t w k r. t = 0 \<longrightarrow> r \<and> (\<exists>j \<ge> k. released poll j)", OF _ assms], goal_cases)
  case (1 loop poll t w k r)
  show ?case
  proof (cases "released poll k")
    case True
    with 1(2) show ?thesis by auto
  next
    case False
    show ?thesis
    proof
      assume "t = 0"
      with False 1(2) have "loop poll 0 w (Suc k) = Some r" by simp
      from 1(1) [OF this] show "r \<and> (\<exists>j \<ge> k. released poll j)" by (auto dest: Suc_leD)
    qed
  qed
qed

lemma pollLoop_no_timeout:
  "pollLoop poll 0 w 0 = (if \<exists>j. released poll j then Some True else None)"
  using pollLoop_0_Some [of poll 0] pollLoop_0_D [of poll 0 w 0]
  by (cases "pollLoop poll 0 w 0") auto

section \<open>XOR signatures\<close>

lemma foldl_xor_start: "foldl (\<lambda>acc i. acc XOR f i) a xs = a XOR foldl (\<lambda>acc i. acc XOR f i) 0 xs"
  for a :: u8
proof (induction xs arbitrary: a)
  case (Cons x xs)
  show ?case
    by (simp only: foldl_Cons xor.left_neutral Cons.IH [of "a XOR f x"] Cons.IH [of "f x"] xor.assoc)
qed simp

lemma foldl_xor_cong:
  "(\<And>i. i \<in> set xs \<Longrightarrow> f i = g i) \<Longrightarrow>
   foldl (\<lambda>acc i. acc XOR f i) a xs = foldl (\<lambda>acc i. acc XOR g i) a xs" for a :: u8
  by (induction xs arbitrary: a) auto

lemma xor8_buf_append:
  "xor8_buf b off (m + n) = xor8_buf b off m XOR xor8_buf b (off + m) n"
proof -
  let ?f = "\<lambda>acc i. acc XOR b ! (off + i)"
  have "[0..<m + n] = [0..<m] @ map ((+) m) [0..<n]"
    using upt_add_eq_append [of 0 m n] map_add_upt [of m n]
    by (simp add: add.commute [of _ m] cong: map_cong)
  then have "xor8_buf b off (m + n) = foldl ?f (xor8_buf b off m) (map ((+) m) [0..<n])"
    by (simp only: xor8_buf_def foldl_append)
  also have "\<dots> = xor8_buf b off m XOR foldl ?f 0 (map ((+) m) [0..<n])"
    by (rule foldl_xor_start)
  also have "foldl ?f 0 (map ((+) m) [0..<n]) = xor8_buf b (off + m) n"
    by (simp only: xor8_buf_def foldl_map add.assoc)
  finally show ?thesis .
qed

lemma xor8_buf_one [simp]: "xor8_buf b off (Suc 0) = b ! off" "xor8_buf b off 0 = 0"
  by (simp_all add: xor8_buf_def)

lemma xor8_buf_update_other:
  "j < off \<or> off + n \<le> j \<Longrightarrow> xor8_buf (b[j := v]) off n = xor8_buf b off n"
  unfolding xor8_buf_def by (rule foldl_xor_cong) auto

lemma xor8_buf_split:
  "off \<le> j \<Longrightarrow> j < off + n \<Longrightarrow>
   xor8_buf b off n = xor8_buf b off (j - off) XOR b ! j XOR xor8_buf b (Suc j) (off + n - Suc j)"
  using xor8_buf_append [of b off "j - off" "Suc (off + n - Suc j)"]
    xor8_buf_append [of b j "Suc 0" "off + n - Suc j"]
  by (simp add: xor.assoc)

lemma xor8_buf_complement:
  assumes "off \<le> j" and "j < off + n" and "j < length b" and "b ! j = 0"
  shows "xor8_buf (b[j := NOT (xor8_buf b off n)]) off n = - 1"
proof -
  let ?x = "xor8_buf b off n"
  have "xor8_buf (b[j := NOT ?x]) off n =
      xor8_buf b off (j - off) XOR NOT ?x XOR xor8_buf b (Suc j) (off + n - Suc j)"
    using assms by (subst xor8_buf_split [of off j n]) (auto simp: xor8_buf_update_other)
  moreover have "?x = xor8_buf b off (j - off) XOR xor8_buf b (Suc j) (off + n - Suc j)"
    using assms by (subst xor8_buf_split [of off j n]) auto
  ultimately have "xor8_buf (b[j := NOT ?x]) off n = ?x XOR NOT ?x"
    by (metis xor.assoc xor.commute)
  also have "\<dots> = - 1" by (rule bit_word_eqI) (simp only: bit_xor_iff bit_not_iff, simp)
  finally show ?thesis .
qed

end
