(* ===== verification/MlxCmdProps.thy ===== *)
theory MlxCmdProps
  imports MlxCmd
begin

text \<open>
  The properties of the command interface: the wait ends, slots are conserved, a quarantined
  interface submits nothing but teardown, and the firmware sees exactly the caller's bytes.
\<close>

unbundle bit_operations_syntax

section \<open>Slots\<close>

definition cmdInv :: "MlxCmd \<Rightarrow> bool" where
  "cmdInv st \<longleftrightarrow>
     length (fEntArr st) = MLX_MAX_COMMANDS \<and> 0 < fMaxRegCmds st \<and> fMaxRegCmds st < MLX_MAX_COMMANDS \<and>
     (\<forall>i < fMaxRegCmds st. bit (fBitmask st) i = (fEntArr st ! i = None)) \<and>
     (\<forall>i \<ge> fMaxRegCmds st. \<not> bit (fBitmask st) i) \<and>
     6 \<le> unat (fLogStride st) \<and>
     (fMaxRegCmds st + 1) * 2 ^ unat (fLogStride st) \<le> length (fCmdBuf st) \<and>
     (\<forall>i e. i < MLX_MAX_COMMANDS \<longrightarrow> fEntArr st ! i = Some e \<longrightarrow>
        ent_idx e = i \<and> ent_timedOut e \<and> fQuarantined st)"

text \<open>What a call may change: everything but the geometry of the queue.\<close>

definition sameGeometry :: "MlxCmd \<Rightarrow> MlxCmd \<Rightarrow> bool" where
  "sameGeometry st st' \<longleftrightarrow>
     fUp st' = fUp st \<and> fMaxRegCmds st' = fMaxRegCmds st \<and> fLogStride st' = fLogStride st \<and>
     length (fCmdBuf st') = length (fCmdBuf st)"

definition releaseOk :: "nat \<Rightarrow> (MlxCmd \<Rightarrow> MlxCmd) \<Rightarrow> bool" where
  "releaseOk idx release \<longleftrightarrow> release = id \<or> release = freeIdx idx"

lemma release_frame:
  assumes "releaseOk idx release"
  shows "fEntArr (release st) = fEntArr st" "fQuarantined (release st) = fQuarantined st"
    "fUp (release st) = fUp st" "fMaxRegCmds (release st) = fMaxRegCmds st"
    "fLogStride (release st) = fLogStride st" "fCmdBuf (release st) = fCmdBuf st"
    "fBitmask st = fBitmask st' \<Longrightarrow> fBitmask (release st) = fBitmask (release st')"
    "fMmio (release st) = fMmio st"
  using assms by (auto simp: releaseOk_def freeIdx_def)

lemma allocBoxes_error: "allocBoxes f i n = Inl kr \<Longrightarrow> kr \<noteq> kIOReturnSuccess"
  by (induction f i n rule: allocBoxes.induct) (auto split: boxResult.splits sum.splits if_splits)

lemma allocBoxes_length: "allocBoxes f i n = Inr ds \<Longrightarrow> length ds = n"
  by (induction f i n arbitrary: ds rule: allocBoxes.induct)
    (auto split: boxResult.splits sum.splits if_splits)

lemma numBlocks_le: "n \<le> MLX_CMD_MAX_SIZE \<Longrightarrow> numBlocks n \<le> MLX_CMD_MAX_BLOCKS"
  using div_le_mono [of "495 + n" 4607 512] by (auto simp: numBlocks_def cmd_const_defs)

lemma allocMailbox_ok:
  assumes "allocMailbox env ent n m = (kIOReturnSuccess, ent')"
  shows "\<exists>ins outs. ent' = ent\<lparr>ent_inMailbox := replicate (numBlocks n) zeroBox, ent_inMailboxDMA := ins,
      ent_outMailbox := replicate (numBlocks m) zeroBox, ent_outMailboxDMA := outs\<rparr> \<and>
    length ins = numBlocks n \<and> length outs = numBlocks m"
  using assms
  by (auto simp: allocMailbox_def Let_def dest: allocBoxes_error allocBoxes_length
      split: if_splits sum.splits)

lemma submit_status: "fst (submit idx inb n m st) = kIOReturnSuccess"
  by (simp add: submit_def Let_def)

lemma length_buildLayout [simp]: "length inb = n \<Longrightarrow> length (buildLayout inb n m ent) = 64"
  by (simp add: buildLayout_def setSignature_def Let_def layout_defs)

lemma layBase_room:
  assumes "6 \<le> unat (fLogStride st)" and "(k + 1) * 2 ^ unat (fLogStride st) \<le> L" and "idx \<le> k"
  shows "layBase st idx + 64 \<le> L"
proof -
  have "(64::nat) \<le> 2 ^ unat (fLogStride st)"
    using power_increasing [OF assms(1), of "2::nat"] by simp
  moreover have "(idx + 1) * 2 ^ unat (fLogStride st) \<le> (k + 1) * 2 ^ unat (fLogStride st)"
    using assms(3) by (intro mult_le_mono1) simp
  then have "(idx + 1) * 2 ^ unat (fLogStride st) \<le> L" using assms(2) by (rule order_trans)
  ultimately show ?thesis unfolding layBase_def push_bit_eq_mult add_mult_distrib by linarith
qed

lemma execSlot_cases:
  assumes ex: "execSlot env idx release inb n out m t st = Some (r, out', st')"
    and rel: "releaseOk idx release" and free: "fEntArr st ! idx = None"
    and idx: "idx < length (fEntArr st)"
    and room: "layBase st idx + 64 \<le> length (fCmdBuf st)" and inb: "length inb = n"
  shows "sameGeometry st st' \<and>
    (r = kIOReturnTimeout \<and> fQuarantined st' \<and> fBitmask st' = fBitmask st \<and>
       (\<exists>e. fEntArr st' = (fEntArr st)[idx := Some e] \<and> ent_idx e = idx \<and> ent_timedOut e) \<or>
     fQuarantined st' = fQuarantined st \<and> fBitmask st' = fBitmask (release st) \<and>
       fEntArr st' = fEntArr st)"
proof -
  have upd: "(fEntArr st)[idx := None] = fEntArr st" using free by (simp add: list_update_same_conv idx)
  note rf = release_frame [OF rel]
  obtain kr ent where a: "allocMailbox env (newEnt idx (fToken st)) n m = (kr, ent)" by fastforce
  let ?s = "st\<lparr>fToken := fToken st + 1, fEntArr := (fEntArr st)[idx := Some (newEnt idx (fToken st))]\<rparr>"
  show ?thesis
  proof (cases "envEnt env \<and> kr = kIOReturnSuccess")
    case False
    have mask: "fBitmask (release ?s) = fBitmask (release st)" by (rule rf(7)) simp
    from False ex a have "st' = release st \<or> st' = clearSlot idx (release ?s)"
    proof (cases "envEnt env")
      case True
      with False have kr: "kr \<noteq> kIOReturnSuccess" by simp
      have "execSlot env idx release inb n out m t st = Some (kr, out, clearSlot idx (release ?s))"
        using True kr a by (simp only: execSlot_def Let_def prod.case simp_thms if_True if_False)
      with ex show ?thesis by simp
    next
      case no: False
      have "execSlot env idx release inb n out m t st = Some (kIOReturnNoMemory, out, release st)"
        using no by (simp only: execSlot_def simp_thms if_True)
      with ex show ?thesis by simp
    qed
    then show ?thesis
      using mask upd by (elim disjE) (simp_all add: sameGeometry_def rf(1-6) clearSlot_def)
  next
    case True
    then have ee: "envEnt env" and kr: "kr = kIOReturnSuccess" by auto
    from a kr have ent: "ent_idx ent = idx" by (auto dest!: allocMailbox_ok simp: newEnt_def)
    let ?s1 = "snd (submit idx inb n m (?s\<lparr>fEntArr := (fEntArr ?s)[idx := Some ent]\<rparr>))"
    have sub: "submit idx inb n m (?s\<lparr>fEntArr := (fEntArr ?s)[idx := Some ent]\<rparr>) = (kIOReturnSuccess, ?s1)"
      by (metis submit_status prod.collapse)
    have s1: "fBitmask ?s1 = fBitmask st" "fQuarantined ?s1 = fQuarantined st" "fUp ?s1 = fUp st"
      "fMaxRegCmds ?s1 = fMaxRegCmds st" "fLogStride ?s1 = fLogStride st"
      "length (fCmdBuf ?s1) = length (fCmdBuf st)"
      "\<exists>e. fEntArr ?s1 = (fEntArr st)[idx := Some e] \<and> ent_idx e = idx"
      using room inb idx ent by (auto simp: submit_def Let_def layBase_def)
    define s1 where "s1 = ?s1"
    note s1 = s1 [folded s1_def] and sub = sub [folded s1_def]
    obtain e where e: "fEntArr s1 = (fEntArr st)[idx := Some e]" "ent_idx e = idx" using s1(7) by blast
    have ex': "execWait env idx release out m t s1 = Some (r, out', st')"
      using ex ee a kr sub by (simp only: execSlot_def Let_def prod.case simp_thms if_True if_False)
    show ?thesis
    proof (cases "pollLoop (envPoll env) t 0 0")
      case None
      then show ?thesis using ex' by (simp add: execWait_def)
    next
      case (Some b)
      show ?thesis
      proof (cases b)
        case True
        have mask: "fBitmask (release s1) = fBitmask (release st)" by (rule rf(7)) (rule s1(1))
        from Some True ex' have "st' = clearSlot idx (release s1)"
          by (auto simp: execWait_def Let_def split: prod.splits)
        then show ?thesis using s1 e mask upd by (simp add: rf(1-6) sameGeometry_def clearSlot_def)
      next
        case False
        with Some ex' have "r = kIOReturnTimeout" "st' = s1\<lparr>fEntArr := (fEntArr s1)[idx :=
                  map_option (\<lambda>e. e\<lparr>ent_timedOut := True\<rparr>) (fEntArr s1 ! idx)],
                fQuarantined := True\<rparr>" by (auto simp: execWait_def)
        then show ?thesis using s1(1-6) e idx
          by (intro conjI disjI1 exI [of _ "e\<lparr>ent_timedOut := True\<rparr>"]) (simp_all add: sameGeometry_def)
      qed
    qed
  qed
qed

text \<open>Taking a slot and giving it back.\<close>

lemma allocIdx_cases:
  assumes "cmdInv st"
  shows "(case allocIdx st of
      (None, st') \<Rightarrow> st' = st \<and> fBitmask st = 0
    | (Some idx, st') \<Rightarrow> idx < fMaxRegCmds st \<and> fEntArr st ! idx = None \<and> bit (fBitmask st) idx \<and>
        st' = st\<lparr>fBitmask := fBitmask st AND NOT (push_bit idx 1)\<rparr>)"
proof (cases "fBitmask st = 0")
  case True
  then show ?thesis by (simp add: allocIdx_def)
next
  case False
  from ctz_bit [OF False] have b: "bit (fBitmask st) (ctz (fBitmask st))" ..
  with assms have lt: "ctz (fBitmask st) < fMaxRegCmds st" unfolding cmdInv_def by (meson not_less)
  with assms b have "fEntArr st ! ctz (fBitmask st) = None" unfolding cmdInv_def by blast
  with False b lt show ?thesis by (simp add: allocIdx_def Let_def)
qed

text \<open>The branches of \<open>exec\<close>.\<close>

definition withOut :: "(ioreturn \<times> buffer \<times> MlxCmd) option \<Rightarrow> (ioreturn \<times> buffer option \<times> MlxCmd) option" where
  "withOut = map_option (\<lambda>(r, b, s). (r, Some b, s))"

lemma withOut_Some: "withOut x = Some (r, b, s) \<Longrightarrow> \<exists>b'. x = Some (r, b', s) \<and> b = Some b'"
  by (auto simp: withOut_def)

lemma exec_refused:
  "execGuard st cmd \<noteq> kIOReturnSuccess \<Longrightarrow>
   exec env cmd t st = Some (execGuard st cmd, (case cmd of Some c \<Rightarrow> cmd_out c | None \<Rightarrow> None), st)"
  by (simp add: exec_def Let_def)

lemma exec_accepted:
  assumes "execGuard st (Some c) = kIOReturnSuccess" and "cmd_in c = Some b" and "cmd_out c = Some ob"
  shows "cmd_opcode c = MLX_CMD_OP_MANAGE_PAGES \<Longrightarrow>
      exec env (Some c) t st =
        (if fEntArr st ! fMaxRegCmds st \<noteq> None then Some (kIOReturnBusy, Some ob, st)
         else withOut (execSlot env (fMaxRegCmds st) id b (cmd_inSize c) ob (cmd_outSize c) t st))"
    and "cmd_opcode c \<noteq> MLX_CMD_OP_MANAGE_PAGES \<Longrightarrow> allocIdx st = (None, sa) \<Longrightarrow>
      exec env (Some c) t st = Some (kIOReturnNoSpace, Some ob, sa)"
    and "cmd_opcode c \<noteq> MLX_CMD_OP_MANAGE_PAGES \<Longrightarrow> allocIdx st = (Some idx, sa) \<Longrightarrow>
      exec env (Some c) t st =
        withOut (execSlot env idx (freeIdx idx) b (cmd_inSize c) ob (cmd_outSize c) t sa)"
  using assms by (simp_all add: exec_def Let_def withOut_def)

lemma exec_Some_cases:
  assumes ex: "exec env cmd t st = Some (r, out', st')" and inv: "cmdInv st"
    and wf: "\<forall>c b. cmd = Some c \<longrightarrow> cmd_in c = Some b \<longrightarrow> length b = cmd_inSize c"
  shows "sameGeometry st st' \<and>
    (fEntArr st' = fEntArr st \<and> fBitmask st' = fBitmask st \<and> fQuarantined st' = fQuarantined st \<or>
     r = kIOReturnTimeout \<and> fQuarantined st' \<and>
       (\<exists>idx e. idx \<le> fMaxRegCmds st \<and> fEntArr st ! idx = None \<and>
          fEntArr st' = (fEntArr st)[idx := Some e] \<and> ent_idx e = idx \<and> ent_timedOut e \<and>
          fBitmask st' = (if idx < fMaxRegCmds st then fBitmask st AND NOT (push_bit idx 1)
            else fBitmask st)))"
proof (cases "execGuard st cmd = kIOReturnSuccess")
  case False
  from ex [unfolded exec_refused [OF False]] show ?thesis by (simp add: sameGeometry_def)
next
  case True
  then obtain c b ob where c: "cmd = Some c" "cmd_in c = Some b" "cmd_out c = Some ob"
    by (auto simp: execGuard_def split: if_splits option.splits)
  have lb: "length b = cmd_inSize c" using wf c by blast
  note acc = exec_accepted [OF True [unfolded c(1)] c(2,3)]
  have len: "length (fEntArr st) = 32" "fMaxRegCmds st < 32"
    using inv by (auto simp: cmdInv_def cmd_const_defs)
  have room: "layBase st idx + 64 \<le> length (fCmdBuf st)" if "idx \<le> fMaxRegCmds st" for idx
    using inv that by (intro layBase_room [of st "fMaxRegCmds st"]) (auto simp: cmdInv_def)
  show ?thesis
  proof (cases "cmd_opcode c = MLX_CMD_OP_MANAGE_PAGES")
    case page: True
    show ?thesis
    proof (cases "fEntArr st ! fMaxRegCmds st = None")
      case False
      then show ?thesis using ex acc(1) [OF page] c(1) by (simp add: sameGeometry_def)
    next
      case free: True
      from ex acc(1) [OF page] c(1) free obtain ob' where
        "execSlot env (fMaxRegCmds st) id b (cmd_inSize c) ob (cmd_outSize c) t st = Some (r, ob', st')"
        by (auto dest: withOut_Some)
      from execSlot_cases [OF this _ free _ room lb] len
      have "sameGeometry st st' \<and>
          (r = kIOReturnTimeout \<and> fQuarantined st' \<and> fBitmask st' = fBitmask st \<and>
             (\<exists>e. fEntArr st' = (fEntArr st)[fMaxRegCmds st := Some e] \<and>
                ent_idx e = fMaxRegCmds st \<and> ent_timedOut e) \<or>
           fQuarantined st' = fQuarantined st \<and> fBitmask st' = fBitmask st \<and> fEntArr st' = fEntArr st)"
        by (simp add: releaseOk_def)
      with free show ?thesis by (metis (no_types, lifting) le_refl less_irrefl)
    qed
  next
    case reg: False
    show ?thesis
    proof (cases "allocIdx st")
      case (Pair io sa)
      show ?thesis
      proof (cases io)
        case None
        then show ?thesis using ex acc(2) [OF reg] c(1) Pair allocIdx_cases [OF inv]
          by (simp add: sameGeometry_def)
      next
        case (Some idx)
        from allocIdx_cases [OF inv] Pair Some have idx: "idx < fMaxRegCmds st" "fEntArr st ! idx = None"
          "bit (fBitmask st) idx" "sa = st\<lparr>fBitmask := fBitmask st AND NOT (push_bit idx 1)\<rparr>" by auto
        from ex acc(3) [OF reg Pair [unfolded Some]] c(1) obtain ob' where
          es: "execSlot env idx (freeIdx idx) b (cmd_inSize c) ob (cmd_outSize c) t sa = Some (r, ob', st')"
          by (auto dest: withOut_Some)
        have "fEntArr sa ! idx = None" "idx < length (fEntArr sa)" "layBase sa idx + 64 \<le> length (fCmdBuf sa)"
          using idx len room [of idx] by (auto simp: layBase_def)
        from execSlot_cases [OF es _ this lb]
        have "sameGeometry sa st' \<and>
          (r = kIOReturnTimeout \<and> fQuarantined st' \<and> fBitmask st' = fBitmask sa \<and>
             (\<exists>e. fEntArr st' = (fEntArr sa)[idx := Some e] \<and> ent_idx e = idx \<and> ent_timedOut e) \<or>
           fQuarantined st' = fQuarantined sa \<and> fBitmask st' = fBitmask (freeIdx idx sa) \<and>
             fEntArr st' = fEntArr sa)" by (auto simp: releaseOk_def)
        moreover have "fBitmask (freeIdx idx sa) = fBitmask st"
          using mask_give_back [OF idx(3)] idx(4) by (simp add: freeIdx_def)
        ultimately show ?thesis
          using idx by (simp add: sameGeometry_def) (metis less_imp_le)
      qed
    qed
  qed
qed

section \<open>Properties of execution\<close>

lemma cmdInv_take:
  assumes inv: "cmdInv st" and geo: "sameGeometry st st'" and q: "fQuarantined st'"
    and idx: "idx \<le> fMaxRegCmds st" and ents: "fEntArr st' = (fEntArr st)[idx := Some e]"
    and e: "ent_idx e = idx" "ent_timedOut e"
    and mask: "fBitmask st' = (if idx < fMaxRegCmds st then fBitmask st AND NOT (push_bit idx 1)
            else fBitmask st)"
  shows "cmdInv st'"
proof -
  have n: "length (fEntArr st) = 32" "fMaxRegCmds st < 32"
    using inv by (auto simp: cmdInv_def cmd_const_defs)
  have bits: "bit (fBitmask st') i = (bit (fBitmask st) i \<and> i \<noteq> idx)" if "i < 32" for i
  proof (cases "idx < fMaxRegCmds st")
    case True
    then show ?thesis unfolding mask using bit_mask_taken [OF that] by simp
  next
    case False
    with idx inv have "\<not> bit (fBitmask st) idx" by (auto simp: cmdInv_def)
    with False show ?thesis unfolding mask by auto
  qed
  have "bit (fBitmask st') i = (fEntArr st' ! i = None)" if "i < fMaxRegCmds st" for i
    using that inv n bits [of i] ents by (cases "i = idx") (auto simp: cmdInv_def)
  moreover have "\<not> bit (fBitmask st') i" if "fMaxRegCmds st \<le> i" for i
    using that inv bits [of i] bit_imp_le_length [of "fBitmask st'" i] by (auto simp: cmdInv_def)
  moreover have "ent_idx f = i \<and> ent_timedOut f" if "i < 32" "fEntArr st' ! i = Some f" for i f
    using that inv ents e n
    by (cases "i = idx") (auto simp: cmdInv_def cmd_const_defs)
  ultimately show ?thesis
    using inv geo q ents by (auto simp: cmdInv_def sameGeometry_def cmd_const_defs)
qed

lemma exec_inv:
  assumes "exec env cmd t st = Some (r, out, st')" and "cmdInv st"
    and "\<forall>c b. cmd = Some c \<longrightarrow> cmd_in c = Some b \<longrightarrow> length b = cmd_inSize c"
  shows "cmdInv st'"
proof -
  note cases = exec_Some_cases [OF assms]
  then have geo: "sameGeometry st st'" by blast
  from cases consider
      (same) "fEntArr st' = fEntArr st" "fBitmask st' = fBitmask st" "fQuarantined st' = fQuarantined st"
    | (held) idx e where "r = kIOReturnTimeout" "fQuarantined st'" "idx \<le> fMaxRegCmds st"
        "fEntArr st ! idx = None" "fEntArr st' = (fEntArr st)[idx := Some e]" "ent_idx e = idx"
        "ent_timedOut e" "fBitmask st' = (if idx < fMaxRegCmds st
           then fBitmask st AND NOT (push_bit idx 1) else fBitmask st)"
    by blast
  then show ?thesis
  proof cases
    case same
    with assms(2) geo show ?thesis by (simp add: cmdInv_def sameGeometry_def)
  next
    case held
    from cmdInv_take [OF assms(2) geo held(2,3,5,6,7,8)] show ?thesis .
  qed
qed

text \<open>C4: executing any command, whatever the allocator and the firmware do, keeps the slot
  invariant (the idle bitmap mirrors the empty regular entries, a held entry is a timed-out
  command of its own slot and implies quarantine, descriptors stay inside the queue page); a
  call that does not time out leaves the bitmap and the entries exactly as they were, and a
  call that does keeps exactly one more slot for the firmware and quarantines the interface.\<close>

theorem exec_preserves_inv:
  assumes "exec env cmd t st = Some (r, out, st')" and "cmdInv st"
    and "\<forall>c b. cmd = Some c \<longrightarrow> cmd_in c = Some b \<longrightarrow> length b = cmd_inSize c"
  shows "cmdInv st' \<and>
    (fEntArr st' = fEntArr st \<and> fBitmask st' = fBitmask st \<and> fQuarantined st' = fQuarantined st \<or>
     r = kIOReturnTimeout \<and> fQuarantined st' \<and>
       (\<exists>idx e. fEntArr st ! idx = None \<and> fEntArr st' = (fEntArr st)[idx := Some e] \<and> ent_timedOut e))"
  using exec_inv [OF assms] exec_Some_cases [OF assms] by blast

lemma execSlot_None:
  assumes "execSlot env idx release inb n out m t st = None"
  shows "pollLoop (envPoll env) t 0 0 = None"
proof (rule ccontr)
  assume "pollLoop (envPoll env) t 0 0 \<noteq> None"
  then have nw: "execWait env idx release out m t s \<noteq> None" for s
    by (auto simp: execWait_def split: option.splits bool.splits prod.splits)
  from assms show False
    by (auto simp del: not_None_eq simp: execSlot_def Let_def nw split: if_splits prod.splits)
qed

lemma exec_None:
  assumes "exec env cmd t st = None"
  shows "pollLoop (envPoll env) t 0 0 = None"
proof (cases "execGuard st cmd = kIOReturnSuccess")
  case False
  from assms [unfolded exec_refused [OF False]] show ?thesis by simp
next
  case True
  then obtain c b ob where c: "cmd = Some c" "cmd_in c = Some b" "cmd_out c = Some ob"
    by (auto simp: execGuard_def split: if_splits option.splits)
  note acc = exec_accepted [OF True [unfolded c(1)] c(2,3)]
  show ?thesis
  proof (cases "cmd_opcode c = MLX_CMD_OP_MANAGE_PAGES")
    case page: True
    with assms acc(1) [OF page] c(1) show ?thesis
      by (auto simp: withOut_def split: if_splits dest: execSlot_None)
  next
    case reg: False
    obtain io sa where al: "allocIdx st = (io, sa)" by fastforce
    show ?thesis
    proof (cases io)
      case None
      with assms acc(2) [OF reg] c(1) al show ?thesis by simp
    next
      case (Some idx)
      with assms acc(3) [OF reg] c(1) al show ?thesis
        by (auto simp: withOut_def dest: execSlot_None)
    qed
  qed
qed

text \<open>A command is either answered before the doorbell, or submitted and then waited for.\<close>

lemma execSlot_split:
  assumes "\<And>s. fMmio (release s) = fMmio s"
  shows "(\<exists>x. (\<forall>t. execSlot env idx release b n ob m t st = Some x) \<and> fMmio (snd (snd x)) = fMmio st) \<or>
    (\<exists>s. (\<forall>t. execSlot env idx release b n ob m t st = execWait env idx release ob m t s) \<and> fMmio s \<noteq> fMmio st)"
proof -
  obtain kr ent where a: "allocMailbox env (newEnt idx (fToken st)) n m = (kr, ent)" by fastforce
  show ?thesis
  proof (cases "envEnt env \<and> kr = kIOReturnSuccess")
    case False
    then show ?thesis
      by (intro disjI1, cases "envEnt env") (simp_all add: execSlot_def Let_def a clearSlot_def assms)
  next
    case True
    define s where "s = snd (submit idx b n m (st\<lparr>fToken := fToken st + 1, fEntArr := (fEntArr st)[idx := Some ent]\<rparr>))"
    have "\<forall>t. execSlot env idx release b n ob m t st = execWait env idx release ob m t s"
      using True by (simp add: execSlot_def Let_def a s_def case_prod_beta submit_status)
    moreover have "fMmio s \<noteq> fMmio st" by (simp add: s_def submit_def Let_def)
    ultimately show ?thesis by blast
  qed
qed

lemma withOut_execWait:
  assumes "\<And>s. fMmio (release s) = fMmio s"
  shows "withOut (execWait env idx release ob m t s) = None \<longleftrightarrow> pollLoop (envPoll env) t 0 0 = None"
    and "withOut (execWait env idx release ob m t s) = Some (r, out, st') \<Longrightarrow> fMmio st' = fMmio s"
  by (auto simp: withOut_def execWait_def Let_def clearSlot_def assms split: option.splits bool.splits prod.splits)

lemma exec_split:
  "(\<exists>x. (\<forall>t. exec env cmd t st = Some x) \<and> fMmio (snd (snd x)) = fMmio st) \<or>
   (\<exists>idx release ob m s. (\<forall>t. exec env cmd t st = withOut (execWait env idx release ob m t s)) \<and> fMmio s \<noteq> fMmio st \<and>
      (\<forall>s. fMmio (release s) = fMmio s))"
proof (cases "execGuard st cmd = kIOReturnSuccess")
  case False
  then show ?thesis by (intro disjI1) (simp add: exec_refused [OF False])
next
  case True
  then obtain c b ob where c: "cmd = Some c" "cmd_in c = Some b" "cmd_out c = Some ob"
    by (auto simp: execGuard_def split: if_splits option.splits)
  note acc = exec_accepted [OF True [unfolded c(1)] c(2,3)]
  have early: ?thesis if "\<And>t. exec env cmd t st = Some x" "fMmio (snd (snd x)) = fMmio st" for x
    using that by blast
  have late: ?thesis if "\<And>t. exec env cmd t st = withOut (execWait env idx release ob m t s)" "fMmio s \<noteq> fMmio st"
    "\<And>s. fMmio (release s) = fMmio s" for idx release m s
    using that by blast
  have lift: ?thesis if e: "\<And>t. exec env cmd t st = withOut (execSlot env idx release b (cmd_inSize c) ob (cmd_outSize c) t s0)"
    and r: "\<And>s. fMmio (release s) = fMmio s" and s0: "fMmio s0 = fMmio st" for idx release s0
    using execSlot_split [OF r, of env idx b "cmd_inSize c" ob "cmd_outSize c" s0] r
  proof (elim disjE exE conjE)
    fix x assume "\<forall>t. execSlot env idx release b (cmd_inSize c) ob (cmd_outSize c) t s0 = Some x" "fMmio (snd (snd x)) = fMmio s0"
    then show ?thesis by (intro early [of "(fst x, Some (fst (snd x)), snd (snd x))"]) (simp_all add: e s0 withOut_def split: prod.split)
  next
    fix s assume "\<forall>t. execSlot env idx release b (cmd_inSize c) ob (cmd_outSize c) t s0 =
        execWait env idx release ob (cmd_outSize c) t s" "fMmio s \<noteq> fMmio s0"
    then show ?thesis by (intro late [of idx release "cmd_outSize c" s]) (simp_all add: e s0 r)
  qed
  show ?thesis
  proof (cases "cmd_opcode c = MLX_CMD_OP_MANAGE_PAGES")
    case page: True
    show ?thesis
    proof (cases "fEntArr st ! fMaxRegCmds st = None")
      case True
      then show ?thesis using acc(1) [OF page] c(1) by (intro lift [of "fMaxRegCmds st" id st]) simp_all
    next
      case False
      then show ?thesis using acc(1) [OF page] c(1) by simp
    qed
  next
    case reg: False
    obtain io sa where al: "allocIdx st = (io, sa)" by fastforce
    then have m: "fMmio sa = fMmio st" by (auto simp: allocIdx_def Let_def split: if_splits)
    show ?thesis
    proof (cases io)
      case None
      then show ?thesis using acc(2) [OF reg] c(1) al m by simp
    next
      case (Some idx)
      have "fMmio (freeIdx idx s) = fMmio s" for s by (simp add: freeIdx_def)
      then show ?thesis using acc(3) [OF reg] c(1) al Some m by (intro lift [of idx "freeIdx idx" sa]) simp_all
    qed
  qed
qed

text \<open>Whether a command gets as far as ringing the doorbell, which no timeout changes.\<close>

definition ringsDoorbell :: "CmdEnv \<Rightarrow> MlxCmdInOut option \<Rightarrow> MlxCmd \<Rightarrow> bool" where
  "ringsDoorbell env cmd st =
     (case exec env cmd 1 st of Some (r, out, st') \<Rightarrow> fMmio st' \<noteq> fMmio st | None \<Rightarrow> False)"

text \<open>C5: a command fails to return exactly when its timeout is 0, it got as far as ringing the
  doorbell, and the firmware never releases the descriptor. So every command with a non-zero
  timeout returns, whatever the firmware does. The wait looks at the ownership byte at most
  \<open>timeoutMs + 1\<close> times with a non-zero timeout, giving up exactly when none of these looks
  finds it released, and with a timeout of 0 it ends exactly when some look does.\<close>

theorem exec_terminates:
  "(exec env cmd t st = None \<longleftrightarrow> t = 0 \<and> ringsDoorbell env cmd st \<and> (\<forall>k. envPoll env k AND MLX_CMD_OWNER_HW \<noteq> 0)) \<and>
   pollLoop (envPoll env) t 0 0 =
     (if t \<noteq> 0 then Some (\<exists>k. k \<le> t \<and> envPoll env k AND MLX_CMD_OWNER_HW = 0)
      else if \<exists>k. envPoll env k AND MLX_CMD_OWNER_HW = 0 then Some True else None)"
proof
  have p: "pollLoop (envPoll env) t 0 0 = None \<longleftrightarrow> t = 0 \<and> (\<forall>k. envPoll env k AND MLX_CMD_OWNER_HW \<noteq> 0)"
    for t using pollLoop_timeout [of t 0 "envPoll env" 0] pollLoop_no_timeout [of "envPoll env" 0] by (cases "t = 0") auto
  show "exec env cmd t st = None \<longleftrightarrow> t = 0 \<and> ringsDoorbell env cmd st \<and> (\<forall>k. envPoll env k AND MLX_CMD_OWNER_HW \<noteq> 0)"
    using exec_split [of env cmd st]
  proof (elim disjE exE conjE)
    fix x assume "\<forall>t. exec env cmd t st = Some x" "fMmio (snd (snd x)) = fMmio st"
    then show ?thesis by (auto simp: ringsDoorbell_def split: prod.split)
  next
    fix idx release ob m s
    assume e: "\<forall>t. exec env cmd t st = withOut (execWait env idx release ob m t s)" "fMmio s \<noteq> fMmio st"
      and r: "\<forall>s. fMmio (release s) = fMmio s"
    note w = withOut_execWait [of release env idx ob m, OF r [rule_format]]
    obtain a b st' where "withOut (execWait env idx release ob m 1 s) = Some (a, b, st')"
      using w(1) [of 1 s] p [of 1] by (cases "withOut (execWait env idx release ob m 1 s)") auto
    then have "ringsDoorbell env cmd st" using w(2) e by (simp add: ringsDoorbell_def)
    then show ?thesis using e(1) w(1) [of t s] p [of t] by simp
  qed
  show "pollLoop (envPoll env) t 0 0 =
     (if t \<noteq> 0 then Some (\<exists>k. k \<le> t \<and> envPoll env k AND MLX_CMD_OWNER_HW = 0)
      else if \<exists>k. envPoll env k AND MLX_CMD_OWNER_HW = 0 then Some True else None)"
    using pollLoop_timeout [of t 0 "envPoll env" 0] pollLoop_no_timeout [of "envPoll env" 0] by (cases "t = 0") auto
qed

text \<open>C6: once quarantined, the interface refuses every command but TEARDOWN_HCA and DISABLE_HCA
  without touching its state or the device, and no command lifts the quarantine.\<close>

theorem exec_quarantined:
  assumes "fQuarantined st"
  shows "(cmd = Some c \<longrightarrow> cmd_opcode c \<noteq> MLX_CMD_OP_TEARDOWN_HCA \<longrightarrow>
      cmd_opcode c \<noteq> MLX_CMD_OP_DISABLE_HCA \<longrightarrow>
      exec env cmd t st = Some (kIOReturnNotReady, cmd_out c, st)) \<and>
    (cmdInv st \<longrightarrow> (\<forall>c b. cmd = Some c \<longrightarrow> cmd_in c = Some b \<longrightarrow> length b = cmd_inSize c) \<longrightarrow>
      exec env cmd t st = Some (r, out, st') \<longrightarrow> fQuarantined st')"
proof (intro conjI impI)
  assume c: "cmd = Some c" "cmd_opcode c \<noteq> MLX_CMD_OP_TEARDOWN_HCA" "cmd_opcode c \<noteq> MLX_CMD_OP_DISABLE_HCA"
  with assms have "execGuard st cmd = kIOReturnNotReady" by (simp add: execGuard_def)
  with exec_refused [of st cmd env t] c(1) show "exec env cmd t st = Some (kIOReturnNotReady, cmd_out c, st)"
    by simp
next
  assume "cmdInv st" "\<forall>c b. cmd = Some c \<longrightarrow> cmd_in c = Some b \<longrightarrow> length b = cmd_inSize c"
    "exec env cmd t st = Some (r, out, st')"
  from exec_Some_cases [OF this(3,1,2)] assms show "fQuarantined st'" by auto
qed

section \<open>Initialisation\<close>

lemma bit_low_mask: "k \<le> 31 \<Longrightarrow> bit (push_bit k 1 - 1 :: u32) i = (i < k)"
proof -
  assume k: "k \<le> 31"
  have "push_bit k 1 - 1 = (mask k :: u32)" by (simp add: mask_eq_exp_minus_1)
  then show ?thesis using k by (simp only: bit_mask_iff) auto
qed

lemma stride_bounds: "unat (x AND 0xF :: u8) < 16"
proof -
  have "x AND 0xF = take_bit 4 x" by (simp add: take_bit_eq_mask mask_eq_exp_minus_1)
  then show ?thesis using take_bit_nat_less_exp [of 4 "unat x"] by (simp add: unsigned_take_bit_eq)
qed

lemma init_True:
  assumes "init env sz = (True, st)"
  shows "cmdInv st \<and> fUp st \<and> \<not> fQuarantined st \<and> fCmdifRev st = MLX_CMD_IF_REV \<and>
    fMaxRegCmds st + 1 = 2 ^ unat (fLogSz st) \<and> unat (fLogSz st) + unat (fLogStride st) \<le> 12 \<and>
    length (fCmdBuf st) = sz \<and>
    fMmio st = [MMIOWrite32BE INITSEG_cmdq_addr_h (ucast (drop_bit 32 (fCmdDMA st))),
                MMIOWrite32BE INITSEG_cmdq_addr_l_sz (ucast (fCmdDMA st AND 0xFFFFFFFF))]"
proof -
  let ?p = "ucast (initCmdqAddrLSz env AND 0xFF) :: u8"
  define ls where "ls = unat (drop_bit 4 ?p AND 0xF)"
  define sd where "sd = unat (?p AND 0xF)"
  from assms have g: "6 \<le> sd" "ls + sd \<le> 12" "\<not> (push_bit ls 1 :: nat) < 2" "ls \<le> 5"
    "push_bit (ls + sd) 1 \<le> sz"
    and st: "fLogSz st = drop_bit 4 ?p AND 0xF" "fLogStride st = ?p AND 0xF"
      "fCmdBuf st = replicate sz 0" "fMaxRegCmds st = push_bit ls 1 - 1"
      "fBitmask st = (if (push_bit ls 1 :: nat) - 1 \<noteq> 0 then push_bit (push_bit ls 1 - 1) 1 - 1 else 0)"
      "fEntArr st = replicate MLX_MAX_COMMANDS None" "fUp st" "\<not> fQuarantined st"
      "fCmdifRev st = MLX_CMD_IF_REV"
      "fMmio st = [MMIOWrite32BE INITSEG_cmdq_addr_h (ucast (drop_bit 32 (fCmdDMA st))),
                MMIOWrite32BE INITSEG_cmdq_addr_l_sz (ucast (fCmdDMA st AND 0xFFFFFFFF))]"
    by (auto simp: init_def Let_def cmdZero_def ls_def sd_def not_less not_le split: if_splits)
  have max: "fMaxRegCmds st + 1 = 2 ^ ls" using st(4) by simp
  have "(2::nat) ^ ls \<le> 2 ^ 5" by (rule power_increasing [OF g(4)]) simp
  then have p: "(2::nat) ^ ls \<le> 32" by simp
  have "1 \<le> ls" using g(3) by (cases ls) auto
  then have "(2::nat) ^ 1 \<le> 2 ^ ls" by (intro power_increasing) auto
  then have m: "0 < fMaxRegCmds st" "fMaxRegCmds st \<le> 31" using max p by simp_all
  have mask: "bit (fBitmask st) i = (i < fMaxRegCmds st)" for i
    using bit_low_mask [OF m(2), of i] m(1) st(4,5) by simp
  have "cmdInv st"
    unfolding cmdInv_def
    using st(3,6) mask m g max by (auto simp: cmd_const_defs st(2) sd_def [symmetric] power_add)
  with st max g show ?thesis by (simp add: ls_def sd_def)
qed

text \<open>initialisation either fails with the interface down and the queue memory and its DMA
  mapping given back, or succeeds with interface revision 5, a queue of 2 to 32 descriptors
  of at least 64 bytes that fits the page, all regular slots idle, the last descriptor kept
  for page commands, and the two halves of the queue address written to the device, high
  half first.\<close>

theorem init_outcome:
  "(case init env sz of
      (False, st) \<Rightarrow> \<not> fUp st \<and> \<not> fCmdBufMap st \<and> \<not> fCmdBufDesc st
    | (True, st) \<Rightarrow> cmdInv st \<and> fUp st \<and> \<not> fQuarantined st \<and> fCmdifRev st = MLX_CMD_IF_REV \<and>
        fMaxRegCmds st + 1 = 2 ^ unat (fLogSz st) \<and>
        unat (fLogSz st) + unat (fLogStride st) \<le> 12 \<and> length (fCmdBuf st) = sz \<and>
        fMmio st = [MMIOWrite32BE INITSEG_cmdq_addr_h (ucast (drop_bit 32 (fCmdDMA st))),
                    MMIOWrite32BE INITSEG_cmdq_addr_l_sz (ucast (fCmdDMA st AND 0xFFFFFFFF))])"
proof (cases "init env sz")
  case (Pair ok st)
  show ?thesis
  proof (cases ok)
    case True
    with Pair init_True [of env sz st] show ?thesis by simp
  next
    case False
    with Pair show ?thesis by (auto simp: init_def Let_def cmdZero_def split: if_splits)
  qed
qed

text \<open>A command interface as it is after initialisation, for the concrete instances.\<close>

definition sampleInit :: CmdInitEnv where
  "sampleInit = \<lparr>initSuper = True, initCmdifRevFw = 0x00050000, initCmdqAddrLSz = 0x26,
     initBuf = True, initMap = (kIOReturnSuccess, 0x123456000), initAllocLock = True,
     initTokenLock = True, initPageLock = True\<rparr>"

definition sampleCmd :: MlxCmd where
  "sampleCmd = snd (init sampleInit 4096)"

lemma sampleCmd_init: "init sampleInit 4096 = (True, sampleCmd)"
proof -
  have "fst (init sampleInit 4096)"
    by (simp add: init_def sampleInit_def cmdZero_def MLX_CMD_IF_REV_def cmd_const_defs Let_def)
  then show ?thesis by (simp add: sampleCmd_def prod_eq_iff)
qed

lemma sampleCmd_inv: "cmdInv sampleCmd"
  using init_True [OF sampleCmd_init] by simp

definition sampleEnv :: CmdEnv where
  "sampleEnv = \<lparr>envEnt = True, envInBox = (\<lambda>i. BoxMap kIOReturnSuccess (0x1000 + of_nat i)),
     envOutBox = (\<lambda>i. BoxMap kIOReturnSuccess (0x9000 + of_nat i)),
     envPoll = (\<lambda>k. if k < 3 then 1 else 0), envStatus = 0, envOutHdr = replicate 16 0,
     envOutData = (\<lambda>i. replicate 512 (of_nat i + 1))\<rparr>"

definition sampleIo :: "u32 \<Rightarrow> MlxCmdInOut" where
  "sampleIo opcode = \<lparr>cmd_in = Some (replicate 16 1), cmd_inSize = 16, cmd_out = Some (replicate 16 7),
     cmd_outSize = 16, cmd_opcode = opcode\<rparr>"

theorem exec_terminates_witness:
  "exec sampleEnv (Some (sampleIo 0x100)) 5000 sampleCmd \<noteq> None \<and>
   exec sampleEnv (Some (sampleIo 0x100)) 0 sampleCmd \<noteq> None \<and>
   pollLoop (envPoll sampleEnv) 2 0 0 = Some False"
proof -
  have "\<not> (\<exists>k. k \<le> 2 \<and> envPoll sampleEnv k AND MLX_CMD_OWNER_HW = 0)"
    by (auto simp: sampleEnv_def MLX_CMD_OWNER_HW_def)
  then have "pollLoop (envPoll sampleEnv) 2 0 0 = Some False"
    using exec_terminates [of sampleEnv None 2] by simp
  moreover have "envPoll sampleEnv 3 AND MLX_CMD_OWNER_HW = 0" by (simp add: sampleEnv_def)
  ultimately show ?thesis
    using exec_terminates [of sampleEnv _ 5000] exec_terminates [of sampleEnv _ 0] by auto
qed

theorem exec_preserves_inv_witness:
  "\<exists>r out st'. exec sampleEnv (Some (sampleIo 0x100)) 2 sampleCmd = Some (r, out, st') \<and> cmdInv st'"
proof -
  obtain r out st' where ex: "exec sampleEnv (Some (sampleIo 0x100)) 2 sampleCmd = Some (r, out, st')"
    using exec_None [of sampleEnv "Some (sampleIo 0x100)" 2 sampleCmd]
      pollLoop_timeout [of 2 0 "envPoll sampleEnv" 0]
    by (cases "exec sampleEnv (Some (sampleIo 0x100)) 2 sampleCmd") auto
  from exec_preserves_inv [OF ex sampleCmd_inv] ex show ?thesis by (auto simp: sampleIo_def)
qed

theorem exec_quarantined_witness:
  "exec sampleEnv (Some (sampleIo 0x100)) 2 (sampleCmd\<lparr>fQuarantined := True\<rparr>) =
     Some (kIOReturnNotReady, cmd_out (sampleIo 0x100), sampleCmd\<lparr>fQuarantined := True\<rparr>)"
  using exec_quarantined [of "sampleCmd\<lparr>fQuarantined := True\<rparr>" "Some (sampleIo 0x100)" "sampleIo 0x100"]
  by (simp add: sampleIo_def MLX_CMD_OP_TEARDOWN_HCA_def MLX_CMD_OP_DISABLE_HCA_def)

section \<open>What the firmware is given\<close>

text \<open>
  The firmware's reading of a descriptor: the announced length of the 16 inline bytes followed
  by the 512-byte payloads of the chained blocks.
\<close>

definition fwInput :: "buffer \<Rightarrow> buffer list \<Rightarrow> buffer" where
  "fwInput lay boxes =
     take (unat (mlxGetBits lay (8 * LAY_inlen) 32))
       (bytesAt lay LAY_in 16 @ concat (map (take MLX_CMD_DATA_BLOCK_SIZE) boxes))"

lemma setSignature_xor:
  "length lay = 64 \<Longrightarrow> xor8_buf (setSignature lay) 0 64 = - 1"
  using xor8_buf_complement [of 0 61 64 "lay[61 := 0]"]
  by (simp add: setSignature_def Let_def layout_defs)

lemma setMailboxSignature_xor:
  assumes "length mb = 576" and "mb ! 574 = 0" and "mb ! 575 = 0"
  shows "xor8_buf (setMailboxSignature mb 576) 512 63 = - 1"
    and "xor8_buf (setMailboxSignature mb 576) 0 576 = - 1"
proof -
  let ?m = "mb[574 := NOT (xor8_buf mb 512 62)]"
  have s: "setMailboxSignature mb 576 = ?m[575 := NOT (xor8_buf ?m 0 575)]"
    by (simp add: setMailboxSignature_def Let_def layout_defs MLX_CMD_DATA_BLOCK_SIZE_def)
  have ext: "xor8_buf b off n = xor8_buf b off (Suc n)" if "b ! (off + n) = 0" for b off n
    using xor8_buf_append [of b off n "Suc 0"] that by simp
  have a: "xor8_buf mb 512 62 = xor8_buf mb 512 63" using ext [of mb 512 62] assms(2) by simp
  have "xor8_buf ?m 512 63 = - 1"
    unfolding a using assms by (intro xor8_buf_complement) auto
  then show "xor8_buf (setMailboxSignature mb 576) 512 63 = - 1"
    unfolding s by (simp add: xor8_buf_update_other)
  have "?m ! 575 = 0" using assms by simp
  then have "xor8_buf ?m 0 575 = xor8_buf ?m 0 576" using ext [of ?m 0 575] by simp
  then show "xor8_buf (setMailboxSignature mb 576) 0 576 = - 1"
    unfolding s using assms by (simp only:) (intro xor8_buf_complement, auto)
qed

lemma length_setMailboxSignature [simp]: "length (setMailboxSignature mb n) = length mb"
  by (simp add: setMailboxSignature_def Let_def)

lemma length_finishBox [simp]: "length (finishBox tok dmas i mb) = length mb"
  by (simp add: finishBox_def Let_def)

lemma bytesAt_finishBox:
  "length mb = 576 \<Longrightarrow> bytesAt (finishBox tok dmas i mb) 0 512 = bytesAt mb 0 512"
  by (simp add: finishBox_def setMailboxSignature_def Let_def layout_defs bytesAt_list_update_other
      bytesAt_OSWriteBig_other)

lemma nth_OSWrite_outside:
  "off + 8 \<le> length b \<Longrightarrow> i < length b \<Longrightarrow> i < off \<or> off + 8 \<le> i \<Longrightarrow> OSWriteBigInt64 b off v ! i = b ! i"
  "off + 4 \<le> length b \<Longrightarrow> i < length b \<Longrightarrow> i < off \<or> off + 4 \<le> i \<Longrightarrow> OSWriteBigInt32 b off v ! i = b ! i"
  by (auto simp: OSWriteBigInt64_def OSWriteBigInt32_def nth_osWriteBig)

lemma finishBox_facts:
  assumes "length mb = 576" and "mb ! 574 = 0" and "mb ! 575 = 0"
  shows "xor8_buf (finishBox tok dmas i mb) 512 63 = - 1"
    and "xor8_buf (finishBox tok dmas i mb) 0 576 = - 1"
    and "finishBox tok dmas i mb ! MB_token = tok"
    and "mlxGetBits (finishBox tok dmas i mb) (8 * MB_next) 64 = nextDMA dmas i"
    and "mlxGetBits (finishBox tok dmas i mb) (8 * MB_block_num) 32 = take_bit 32 (of_nat i)"
proof -
  let ?b = "(OSWriteBigInt32 (OSWriteBigInt64 mb 560 (nextDMA dmas i)) 568 (of_nat i))[573 := tok]"
  have f: "finishBox tok dmas i mb = setMailboxSignature ?b 576"
    by (simp add: finishBox_def Let_def layout_defs)
  have z: "length ?b = 576" "?b ! 574 = 0" "?b ! 575 = 0"
    using assms by (auto simp: nth_OSWrite_outside)
  from setMailboxSignature_xor [OF z]
  show "xor8_buf (finishBox tok dmas i mb) 512 63 = - 1"
    and "xor8_buf (finishBox tok dmas i mb) 0 576 = - 1" by (simp_all add: f)
  show "finishBox tok dmas i mb ! MB_token = tok"
    using z(1) assms(1) by (simp add: f setMailboxSignature_def Let_def layout_defs)
  have g: "mlxGetBits (finishBox tok dmas i mb) off w = mlxGetBits
      (OSWriteBigInt32 (OSWriteBigInt64 mb 560 (nextDMA dmas i)) 568 (of_nat i)) off w"
    if "off + w \<le> 8 * 573" for off w
    using that by (simp add: f setMailboxSignature_def Let_def layout_defs getBits_list_update_other)
  show "mlxGetBits (finishBox tok dmas i mb) (8 * MB_next) 64 = nextDMA dmas i"
    using assms(1) by (subst g)
      (simp_all add: layout_defs OSWriteBig_mlxSetBits ifc.get_set_other ifc.get_set_same bufBits_def)
  show "mlxGetBits (finishBox tok dmas i mb) (8 * MB_block_num) 32 = take_bit 32 (of_nat i)"
    using assms(1) by (subst g)
      (simp_all add: layout_defs OSWriteBig_mlxSetBits ifc.get_set_same bufBits_def)
qed

lemma bytesAt_prefix: "length src \<le> length b \<Longrightarrow> bytesAt (copyInto b 0 src) 0 n =
    take n src @ take (n - length src) (drop (length src) b)"
  by (simp add: bytesAt_def copyInto_def)

lemma chunk_concat:
  assumes "\<And>i. i < n \<Longrightarrow> length (ch i) = B"
    and "\<And>i. i < n \<Longrightarrow> take (length D - B * i) (ch i) = take B (drop (B * i) D)"
  shows "take (length D) (concat (map ch [0..<n])) = take (B * n) D"
  using assms
proof (induction n)
  case 0
  then show ?case by simp
next
  case (Suc n)
  let ?c = "concat (map ch [0..<n])"
  have ih: "take (length D) ?c = take (B * n) D" by (rule Suc.IH) (use Suc.prems in auto)
  have "map (\<lambda>i. length (ch i)) [0..<n] = map (\<lambda>i. B) [0..<n]"
    using Suc.prems(1) by (intro map_cong) auto
  then have s: "sum_list (map (\<lambda>i. length (ch i)) [0..<n]) = sum_list (map (\<lambda>i. B) [0..<n])"
    by (rule arg_cong)
  have len: "length ?c = B * n"
    by (simp only: length_concat map_map comp_def s) (simp add: sum_list_triv)
  have "take (length D) (concat (map ch [0..<Suc n])) =
      take (length D) ?c @ take (length D - B * n) (ch n)" using len by simp
  also have "\<dots> = take (B * n) D @ take B (drop (B * n) D)" using ih Suc.prems(2) [of n] by simp
  also have "\<dots> = take (B * Suc n) D" by (simp add: take_add [symmetric] add.commute)
  finally show ?case .
qed

lemma take_fillInBox:
  assumes "length mb = 576" and "length inb = n"
  shows "take 512 (fillInBox inb n tok dmas i mb) =
      take 512 (drop (16 + 512 * i) inb) @ drop (length (take 512 (drop (16 + 512 * i) inb))) (take 512 mb)"
proof -
  let ?d = "bytesAt inb (16 + i * 512) (min (n - (16 + i * 512)) 512)"
  have d: "?d = take 512 (drop (16 + 512 * i) inb)"
    using assms(2) by (simp add: bytesAt_def mult.commute min_def)
  have "take 512 (fillInBox inb n tok dmas i mb) = bytesAt (finishBox tok dmas i (copyInto mb 0 ?d)) 0 512"
    by (simp add: fillInBox_def Let_def MLX_CMD_DATA_BLOCK_SIZE_def bytesAt_def)
  also have "\<dots> = bytesAt (copyInto mb 0 ?d) 0 512"
    using assms by (intro bytesAt_finishBox) (simp add: d)
  also have "\<dots> = take 512 ?d @ take (512 - length ?d) (drop (length ?d) mb)"
    using assms by (intro bytesAt_prefix) (simp add: d)
  finally show ?thesis unfolding d by (simp add: drop_take)
qed

lemma concat_boxes:
  assumes "length inb = n"
  shows "take (n - 16) (concat (map (take 512)
      (map (\<lambda>i. fillInBox inb n tok dmas i zeroBox) [0..<numBlocks n]))) = drop 16 inb"
proof -
  let ?ch = "\<lambda>i. take 512 (fillInBox inb n tok dmas i zeroBox)"
  have z: "length zeroBox = 576" by (simp add: zeroBox_def layout_defs)
  have "take (length (drop 16 inb)) (concat (map ?ch [0..<numBlocks n])) =
      take (512 * numBlocks n) (drop 16 inb)"
  proof (rule chunk_concat)
    fix i
    show "length (?ch i) = 512" using take_fillInBox [OF z assms] by (simp add: z)
    show "take (length (drop 16 inb) - 512 * i) (?ch i) = take 512 (drop (512 * i) (drop 16 inb))"
      unfolding take_fillInBox [OF z assms] by (simp add: z add.commute min_def)
  qed
  moreover have "length (drop 16 inb) \<le> 512 * numBlocks n"
  proof (cases "16 < n")
    case True
    have "n - 16 + 511 < 512 * ((n - 16 + 511) div 512) + 512"
      using div_mult_mod_eq [of "n - 16 + 511" 512] mod_less_divisor [of 512 "n - 16 + 511"] by linarith
    with True assms show ?thesis by (simp add: numBlocks_def MLX_CMD_DATA_BLOCK_SIZE_def)
  qed (use assms in auto)
  ultimately show ?thesis using assms by (simp add: comp_def)
qed

lemma buildLayout_facts:
  assumes "length inb = n" and "n \<le> MLX_CMD_MAX_SIZE"
  shows "length (buildLayout inb n m ent) = 64"
    and "xor8_buf (buildLayout inb n m ent) 0 64 = - 1"
    and "buildLayout inb n m ent ! LAY_status_own = MLX_CMD_OWNER_HW"
    and "buildLayout inb n m (Some e) ! LAY_token = ent_token e"
    and "take (min n 16) (bytesAt (buildLayout inb n m ent) LAY_in 16) = take 16 inb"
    and "unat (mlxGetBits (buildLayout inb n m ent) (8 * LAY_inlen) 32) = n"
    and "mlxGetBits (buildLayout inb n m (Some e)) (8 * LAY_in_ptr) 64 =
      (case ent_inMailboxDMA e of [] \<Rightarrow> 0 | d # _ \<Rightarrow> d)"
    and "mlxGetBits (buildLayout inb n m (Some e)) (8 * LAY_out_ptr) 64 =
      (case ent_outMailboxDMA e of [] \<Rightarrow> 0 | d # _ \<Rightarrow> d)"
proof -
  define ip where "ip = (case ent of Some e \<Rightarrow> (case ent_inMailboxDMA e of [] \<Rightarrow> 0 | d # _ \<Rightarrow> d) | None \<Rightarrow> 0)"
  define op where "op = (case ent of Some e \<Rightarrow> (case ent_outMailboxDMA e of [] \<Rightarrow> 0 | d # _ \<Rightarrow> d) | None \<Rightarrow> 0)"
  let ?z = "copyInto (replicate 64 0) 16 (take (min n 16) inb)"
  have lz: "length ?z = 64" using assms(1) by simp
  have core: "bytesAt (setSignature ((OSWriteBigInt32 (OSWriteBigInt64 (OSWriteBigInt32
        (OSWriteBigInt64 ?z 8 ip') 4 (of_nat n)) 48 op') 56 (of_nat m))[0 := 7, 60 := tk, 63 := 1])) 16 16
      = bytesAt ?z 16 16" for ip' op' tk
    by (simp add: setSignature_def Let_def layout_defs bytesAt_list_update_other
        bytesAt_OSWriteBig_other lz)
  have "take (min n 16) (bytesAt ?z 16 16) = take 16 inb"
    using assms(1) by (simp add: bytesAt_def copyInto_def min_def)
  then show "take (min n 16) (bytesAt (buildLayout inb n m ent) LAY_in 16) = take 16 inb"
    by (simp only: buildLayout_def Let_def layout_defs core MLX_CMD_OWNER_HW_def)
  show len: "length (buildLayout inb n m ent) = 64" by (rule length_buildLayout [OF assms(1)])
  show "xor8_buf (buildLayout inb n m ent) 0 64 = - 1"
    unfolding buildLayout_def Let_def using lz
    by (intro setSignature_xor) (simp add: layout_defs)
  show "buildLayout inb n m ent ! LAY_status_own = MLX_CMD_OWNER_HW"
    using lz by (simp add: buildLayout_def setSignature_def Let_def layout_defs)
  show "buildLayout inb n m (Some e) ! LAY_token = ent_token e"
    using lz by (simp add: buildLayout_def setSignature_def Let_def layout_defs)
  have n32: "unat (take_bit 32 (of_nat n :: u64)) = n"
  proof -
    have "n < 2 ^ 32" using assms(2) by (simp add: cmd_const_defs)
    then have "unat (of_nat n :: u64) = n" by (intro unat_of_nat_small) simp
    with \<open>n < 2 ^ 32\<close> show ?thesis by (simp add: take_bit_word_small)
  qed
  show "unat (mlxGetBits (buildLayout inb n m ent) (8 * LAY_inlen) 32) = n"
    using lz n32
    by (simp add: buildLayout_def setSignature_def Let_def layout_defs getBits_list_update_other
        OSWriteBig_mlxSetBits ifc.get_set_other ifc.get_set_same bufBits_def)
  show "mlxGetBits (buildLayout inb n m (Some e)) (8 * LAY_in_ptr) 64 =
      (case ent_inMailboxDMA e of [] \<Rightarrow> 0 | d # _ \<Rightarrow> d)"
    using lz
    by (simp add: buildLayout_def setSignature_def Let_def layout_defs getBits_list_update_other
        OSWriteBig_mlxSetBits ifc.get_set_other ifc.get_set_same bufBits_def)
  show "mlxGetBits (buildLayout inb n m (Some e)) (8 * LAY_out_ptr) 64 =
      (case ent_outMailboxDMA e of [] \<Rightarrow> 0 | d # _ \<Rightarrow> d)"
    using lz
    by (simp add: buildLayout_def setSignature_def Let_def layout_defs getBits_list_update_other
        OSWriteBig_mlxSetBits ifc.get_set_other ifc.get_set_same bufBits_def)
qed

text \<open>The geometry part of the invariant, which also holds while a command is in flight.\<close>

definition cmdGeo :: "MlxCmd \<Rightarrow> bool" where
  "cmdGeo st \<longleftrightarrow>
     length (fEntArr st) = MLX_MAX_COMMANDS \<and> fMaxRegCmds st < MLX_MAX_COMMANDS \<and>
     6 \<le> unat (fLogStride st) \<and>
     (fMaxRegCmds st + 1) * 2 ^ unat (fLogStride st) \<le> length (fCmdBuf st)"

lemma cmdInv_geo: "cmdInv st \<Longrightarrow> cmdGeo st"
  by (simp add: cmdInv_def cmdGeo_def)

text \<open>C7: what the firmware finds after a submission: a descriptor owned by hardware whose 64
  bytes, and whose chained blocks, carry valid XOR signatures and the command's token, linked
  in allocation order through the DMA addresses, from which the firmware's reading (16 inline
  bytes, then the blocks, cut at the announced length) is exactly the caller's input; the
  doorbell of the slot is rung last, and every other byte of the queue page is unchanged.\<close>

theorem submit_delivers_input:
  assumes "cmdGeo st" and "idx \<le> fMaxRegCmds st" and "length inb = n" and "n \<le> MLX_CMD_MAX_SIZE"
    and "allocMailbox env (newEnt idx tok) n m = (kIOReturnSuccess, ent)"
    and "fEntArr st ! idx = Some ent"
  shows "\<exists>st' e lay. submit idx inb n m st = (kIOReturnSuccess, st') \<and> fEntArr st' ! idx = Some e \<and>
    lay = bytesAt (fCmdBuf st') (layBase st idx) 64 \<and>
    fwInput lay (ent_inMailbox e) = inb \<and>
    xor8_buf lay 0 64 = - 1 \<and> lay ! LAY_status_own = MLX_CMD_OWNER_HW \<and> lay ! LAY_token = tok \<and>
    mlxGetBits lay (8 * LAY_in_ptr) 64 = nextDMA (0 # ent_inMailboxDMA ent) 0 \<and>
    mlxGetBits lay (8 * LAY_out_ptr) 64 = nextDMA (0 # ent_outMailboxDMA ent) 0 \<and>
    (\<forall>i < numBlocks n. let mb = ent_inMailbox e ! i in
       xor8_buf mb 0 576 = - 1 \<and> xor8_buf mb 512 63 = - 1 \<and> mb ! MB_token = tok \<and>
       mlxGetBits mb (8 * MB_next) 64 = nextDMA (ent_inMailboxDMA ent) i) \<and>
    (\<forall>k < length (fCmdBuf st). k < layBase st idx \<or> layBase st idx + 64 \<le> k \<longrightarrow>
       fCmdBuf st' ! k = fCmdBuf st ! k) \<and>
    fMmio st' = fMmio st @ [MMIOWrite32BE INITSEG_cmd_dbell (push_bit idx 1)]"
proof -
  from allocMailbox_ok [OF assms(5)] obtain ins outs where ent:
    "ent_inMailbox ent = replicate (numBlocks n) zeroBox" "ent_inMailboxDMA ent = ins"
    "ent_outMailboxDMA ent = outs" "ent_token ent = tok" "length ins = numBlocks n"
    by (auto simp: newEnt_def)
  have room: "layBase st idx + 64 \<le> length (fCmdBuf st)"
    using assms(1,2) by (intro layBase_room [of st "fMaxRegCmds st"]) (auto simp: cmdGeo_def)
  have idx: "idx < length (fEntArr st)" using assms(1,2) by (auto simp: cmdGeo_def)
  let ?lay = "buildLayout inb n m (Some ent)"
  let ?boxes = "map (\<lambda>i. fillInBox inb n tok ins i zeroBox) [0..<numBlocks n]"
  let ?st' = "snd (submit idx inb n m st)"
  note bl = buildLayout_facts [OF assms(3,4)]
  obtain e where e: "fEntArr ?st' ! idx = Some e" "ent_inMailbox e = ?boxes"
    using assms(6) ent idx by (simp add: submit_def Let_def)
  have buf: "fCmdBuf ?st' = copyInto (fCmdBuf st) (layBase st idx) ?lay"
    using assms(6) by (simp add: submit_def Let_def)
  have lay: "bytesAt (fCmdBuf ?st') (layBase st idx) 64 = ?lay"
    unfolding buf using room bl(1) by (simp add: bytesAt_copyInto_same)
  have inl: "length (bytesAt ?lay LAY_in 16) = 16" using bl(1) by (simp add: layout_defs)
  have "fwInput ?lay ?boxes = inb"
  proof (cases "16 \<le> n")
    case True
    have "fwInput ?lay ?boxes = take 16 (bytesAt ?lay LAY_in 16) @
        take (n - 16) (concat (map (take 512) ?boxes))"
      using True inl by (simp add: fwInput_def bl(6) MLX_CMD_DATA_BLOCK_SIZE_def)
    also have "\<dots> = take 16 inb @ drop 16 inb"
      using bl(5) [of m "Some ent"] concat_boxes [OF assms(3), of tok ins]
      by (simp add: min_absorb2 [OF True])
    finally show ?thesis by simp
  next
    case False
    then have "fwInput ?lay ?boxes = take (min n 16) (bytesAt ?lay LAY_in 16)"
      using inl by (simp add: fwInput_def bl(6))
    with False assms(3) show ?thesis using bl(5) [of m "Some ent"] by simp
  qed
  moreover have "let mb = ?boxes ! i in
       xor8_buf mb 0 576 = - 1 \<and> xor8_buf mb 512 63 = - 1 \<and> mb ! MB_token = tok \<and>
       mlxGetBits mb (8 * MB_next) 64 = nextDMA ins i" if "i < numBlocks n" for i
  proof -
    let ?d = "bytesAt inb (16 + i * 512) (min (n - (16 + i * 512)) 512)"
    have "length ?d \<le> 512" by (simp add: bytesAt_def)
    then have "length (copyInto zeroBox 0 ?d) = 576" "copyInto zeroBox 0 ?d ! 574 = 0"
      "copyInto zeroBox 0 ?d ! 575 = 0"
      by (simp_all add: zeroBox_def layout_defs nth_copyInto)
    from finishBox_facts [OF this, of tok ins i] that show ?thesis
      by (simp add: fillInBox_def Let_def MLX_CMD_DATA_BLOCK_SIZE_def)
  qed
  moreover have "fCmdBuf ?st' ! k = fCmdBuf st ! k"
    if "k < length (fCmdBuf st)" "k < layBase st idx \<or> layBase st idx + 64 \<le> k" for k
    unfolding buf using that room bl(1) by (auto simp: nth_copyInto)
  moreover have "mlxGetBits ?lay (8 * LAY_in_ptr) 64 = nextDMA (0 # ins) 0"
    "mlxGetBits ?lay (8 * LAY_out_ptr) 64 = nextDMA (0 # outs) 0"
    using bl(7) [of m ent] bl(8) [of m ent] ent by (auto simp: nextDMA_def split: list.splits)
  moreover have "submit idx inb n m st = (kIOReturnSuccess, ?st')"
    by (metis submit_status prod.collapse)
  moreover have "fMmio ?st' = fMmio st @ [MMIOWrite32BE INITSEG_cmd_dbell (push_bit idx 1)]"
    by (simp add: submit_def Let_def)
  ultimately show ?thesis
    using e lay bl(2) [of m "Some ent"] bl(3) [of m "Some ent"] bl(4) [of m ent] ent
    by (intro exI [of _ ?st'] exI [of _ e] exI [of _ ?lay]) (simp add: Let_def)
qed

lemma sampleCmd_geo:
  "fMaxRegCmds sampleCmd = 3" "fLogStride sampleCmd = 6" "fEntArr sampleCmd = replicate 32 None"
  "length (fCmdBuf sampleCmd) = 4096"
  by (simp_all add: sampleCmd_def sampleInit_def init_def cmdZero_def MLX_CMD_IF_REV_def
      cmd_const_defs Let_def)

theorem submit_delivers_input_witness:
  "\<exists>ent st' e. submit 1 (replicate 600 0xab) 600 600
       (sampleCmd\<lparr>fEntArr := (fEntArr sampleCmd)[1 := Some ent]\<rparr>) = (kIOReturnSuccess, st') \<and>
    fEntArr st' ! 1 = Some e \<and>
    fwInput (bytesAt (fCmdBuf st') 64 64) (ent_inMailbox e) = replicate 600 0xab"
proof -
  obtain ent where a: "allocMailbox sampleEnv (newEnt 1 5) 600 600 = (kIOReturnSuccess, ent)"
  proof -
    have nb: "numBlocks 600 = 2" by (simp add: numBlocks_def cmd_const_defs)
    have "fst (allocMailbox sampleEnv (newEnt 1 5) 600 600) = kIOReturnSuccess"
      unfolding allocMailbox_def nb Let_def
      by (simp add: sampleEnv_def cmd_const_defs numeral_2_eq_2)
    then show ?thesis using that by (metis prod.collapse)
  qed
  let ?st = "sampleCmd\<lparr>fEntArr := (fEntArr sampleCmd)[1 := Some ent]\<rparr>"
  have "cmdGeo ?st" "1 \<le> fMaxRegCmds ?st" "fEntArr ?st ! 1 = Some ent" "layBase ?st 1 = 64"
    by (simp_all add: cmdGeo_def sampleCmd_geo cmd_const_defs layBase_def)
  note facts = this
  have n: "length (replicate 600 (0xab :: u8)) = 600" "(600::nat) \<le> MLX_CMD_MAX_SIZE"
    by (simp_all only: length_replicate) (simp add: cmd_const_defs)
  from submit_delivers_input [OF facts(1,2) n a facts(3)] obtain st' e where
    "submit 1 (replicate 600 0xab) 600 600 ?st = (kIOReturnSuccess, st')" "fEntArr st' ! 1 = Some e"
    "fwInput (bytesAt (fCmdBuf st') (layBase ?st 1) 64) (ent_inMailbox e) = replicate 600 0xab"
    by (elim exE conjE) (simp only:)
  then show ?thesis unfolding facts(4) by (intro exI conjI)
qed

section \<open>The response\<close>

lemma mlxGetBits_byte: "i < length b \<Longrightarrow> mlxGetBits b (8 * i) 8 = ucast (b ! i)"
proof (rule bit_word_eqI)
  fix n assume "n < LENGTH(64)"
  have "bufBit b (8 * i + 8 - 1 - n) = bit (b ! i) n" if "n < 8"
  proof -
    have e: "8 * i + 8 - 1 - n = 8 * i + (7 - n)" using that by simp
    have "(8 * i + r) div 8 = i \<and> (8 * i + r) mod 8 = r" if "r < 8" for r using that by simp
    from this [of "7 - n"] have d: "(8 * i + (7 - n)) div 8 = i" "(8 * i + (7 - n)) mod 8 = 7 - n" by simp_all
    have "7 - (7 - n) = n" using that by simp
    then show ?thesis unfolding bufBit_def e d by (simp only:)
  qed
  moreover have "\<not> bit (b ! i) n" if "\<not> n < 8" using that bit_imp_le_length [of "b ! i" n] by auto
  ultimately show "bit (mlxGetBits b (8 * i) 8) n = bit (ucast (b ! i) :: u64) n"
    using \<open>n < LENGTH(64)\<close> by (cases "n < 8") (auto simp: bit_mlxGetBits bit_ucast_iff)
qed

lemma copyOutBoxes_spec:
  assumes data: "\<And>i. length (envOutData env i) = 512"
  shows "length out = m \<Longrightarrow> 16 + 512 * i \<le> m \<or> n = 0 \<Longrightarrow> m \<le> 16 + 512 * (i + n) \<Longrightarrow>
    n = 0 \<or> 16 + 512 * (i + n - 1) < m \<Longrightarrow>
    copyOutBoxes env m i n out =
      take (16 + 512 * i) out @ take (m - (16 + 512 * i)) (concat (map (envOutData env) [i..<i + n]))"
proof (induction n arbitrary: i out)
  case 0
  then show ?case by simp
next
  case (Suc n)
  let ?c = "16 + 512 * i"
  let ?l = "min (m - ?c) 512"
  let ?d = "take ?l (envOutData env i)"
  let ?o = "copyInto out ?c ?d"
  have c: "?c \<le> m" using Suc.prems(2) by simp
  have ld: "length ?d = ?l" by (simp add: data)
  have fit: "?c + length ?d \<le> length out" using c Suc.prems(1) unfolding ld by simp
  have step: "copyOutBoxes env m i (Suc n) out = copyOutBoxes env m (Suc i) n ?o"
    by (simp add: Let_def MLX_CMD_DATA_BLOCK_SIZE_def mult.commute)
  have upt: "[i..<i + Suc n] = i # [Suc i..<Suc i + n]" by (simp add: upt_rec)
  show ?case
  proof (cases "n = 0")
    case True
    then have "m - ?c \<le> 512" using Suc.prems(3) by simp
    then have "?l = m - ?c" by simp
    then show ?thesis
      unfolding step upt using True c Suc.prems(1) data by (simp add: copyInto_def)
  next
    case False
    then have more: "?c + 512 < m" using Suc.prems(4) by simp
    then have l: "?l = 512" by simp
    have o: "take (16 + 512 * Suc i) ?o = take ?c out @ envOutData env i"
      using more Suc.prems(1) data unfolding l by (simp add: copyInto_def)
    have "copyOutBoxes env m (Suc i) n ?o =
        take (16 + 512 * Suc i) ?o @ take (m - (16 + 512 * Suc i)) (concat (map (envOutData env) [Suc i..<Suc i + n]))"
      using Suc.prems more fit False by (intro Suc.IH) auto
    then show ?thesis
      unfolding step upt o using more data by (simp add: add.commute)
  qed
qed

text \<open>a completed command hands the caller exactly the firmware's response (the 16 response
  bytes of the descriptor, then the output blocks, cut at the caller's length), and its
  result is an I/O error for a delivery failure, otherwise the mapped status byte of the
  outbox, which is success only for status 0.\<close>

theorem readResponse_exact:
  assumes "length out = m" and "8 \<le> m" and "m \<le> MLX_CMD_MAX_SIZE"
    and "length (envOutHdr env) = 16" and "\<forall>i. length (envOutData env i) = 512"
  shows "\<exists>resp. resp = take m (envOutHdr env @ concat (map (envOutData env) [0..<numBlocks m])) \<and>
    readResponse env m (numBlocks m) out =
      (if drop_bit 1 (envStatus env) AND 0x7F \<noteq> 0 then kIOReturnIOError
       else mapOutboxStatus (resp ! 0), resp) \<and>
    (mapOutboxStatus (resp ! 0) = kIOReturnSuccess) = (resp ! 0 = 0)"
proof -
  let ?resp = "take m (envOutHdr env @ concat (map (envOutData env) [0..<numBlocks m]))"
  let ?o = "copyInto out 0 (take (min m 16) (envOutHdr env))"
  have lo: "length ?o = m" using assms(1,4) by simp
  have o16: "take 16 ?o = take m (envOutHdr env)"
    using assms(1,4) by (simp add: copyInto_def min_def)
  have nb: "numBlocks m = (if 16 < m then (m - 16 + 511) div 512 else 0)"
    by (simp add: numBlocks_def MLX_CMD_DATA_BLOCK_SIZE_def)
  have "copyOutBoxes env m 0 (numBlocks m) ?o = ?resp"
  proof (cases "16 < m")
    case True
    obtain q r where qr: "m - 16 + 511 = 512 * q + r" "r < 512" "(m - 16 + 511) div 512 = q"
      by (metis mult_div_mod_eq mod_less_divisor zero_less_numeral)
    have q: "numBlocks m = q" using True nb qr(3) by simp
    have "copyOutBoxes env m 0 q ?o =
        take (16 + 512 * 0) ?o @ take (m - (16 + 512 * 0)) (concat (map (envOutData env) [0..<0 + q]))"
      using True qr(1,2) lo assms(5) by (intro copyOutBoxes_spec) auto
    then show ?thesis using True o16 assms(4) by (simp add: q)
  next
    case False
    then show ?thesis using nb assms(1,4) by (simp add: copyInto_def)
  qed
  moreover have "mlxGetBits ?resp 0 8 = ucast (?resp ! 0)"
    using mlxGetBits_byte [of 0 ?resp] assms(2,4) by simp
  moreover have "ucast (ucast x :: u64) = x" for x :: u8 by (simp add: ucast_u8_64_8)
  moreover have "(mapOutboxStatus s = kIOReturnSuccess) = (s = 0)" for s
    by (simp add: mapOutboxStatus_def)
  ultimately show ?thesis
    using assms(2)
    by (intro exI [of _ ?resp]) (simp add: readResponse_def Let_def mlxP1ParseOutbox_def)
qed

theorem readResponse_exact_witness:
  "readResponse sampleEnv 600 (numBlocks 600) (replicate 600 9) =
     (kIOReturnSuccess, replicate 16 0 @ replicate 512 1 @ replicate 72 2)"
proof -
  have nb: "numBlocks 600 = 2" by (simp add: numBlocks_def cmd_const_defs)
  from readResponse_exact [of "replicate 600 9" 600 sampleEnv]
  obtain resp where "resp = take 600 (envOutHdr sampleEnv @ concat (map (envOutData sampleEnv) [0..<numBlocks 600]))"
    "readResponse sampleEnv 600 (numBlocks 600) (replicate 600 9) =
      (if drop_bit 1 (envStatus sampleEnv) AND 0x7F \<noteq> 0 then kIOReturnIOError
       else mapOutboxStatus (resp ! 0), resp)"
    by (auto simp: cmd_const_defs sampleEnv_def)
  then show ?thesis
    by (simp add: nb sampleEnv_def upt_rec mapOutboxStatus_def nth_append)
qed

end
