(* ===== verification/MlxCmdIfc.thy ===== *)
theory MlxCmdIfc
  imports MlxIfc MlxRegs
begin

text \<open>
  The command interface as its callers see it. Every component above \<^verbatim>\<open>MlxCmd\<close> builds an
  input buffer and calls \<open>exec\<close> with a zeroed output buffer and a non-zero timeout; its
  operations take that call as an argument. The locale \<open>command_interface\<close> is the contract:
  the answer has the requested length, the interface stays well formed, a quarantined
  interface answers \<open>kIOReturnNotReady\<close> to everything but teardown without touching the
  device, and stays quarantined. Theory \<open>MlxExec\<close> interprets it on the model of
  \<^verbatim>\<open>MlxCmd::exec\<close>.
\<close>

type_synonym 'w execFn = "'w \<Rightarrow> u32 \<Rightarrow> buffer \<Rightarrow> nat \<Rightarrow> nat \<Rightarrow> ioreturn \<times> buffer \<times> 'w"

locale command_interface =
  fixes exec :: "'w execFn"
    and wf :: "'w \<Rightarrow> bool"
    and quarantined :: "'w \<Rightarrow> bool"
    and device :: "'w \<Rightarrow> mmio list"
  assumes exec_length: "wf w \<Longrightarrow> t \<noteq> 0 \<Longrightarrow> exec w opcode inb m t = (r, out, w') \<Longrightarrow> length out = m"
    and exec_wf: "wf w \<Longrightarrow> t \<noteq> 0 \<Longrightarrow> exec w opcode inb m t = (r, out, w') \<Longrightarrow> wf w'"
    and exec_quarantined: "quarantined w \<Longrightarrow> opcode \<noteq> MLX_CMD_OP_TEARDOWN_HCA \<Longrightarrow>
      opcode \<noteq> MLX_CMD_OP_DISABLE_HCA \<Longrightarrow> t \<noteq> 0 \<Longrightarrow>
      exec w opcode inb m t = (r, out, w') \<Longrightarrow> r = kIOReturnNotReady \<and> device w' = device w"
    and exec_keeps_quarantine: "wf w \<Longrightarrow> quarantined w \<Longrightarrow> t \<noteq> 0 \<Longrightarrow>
      exec w opcode inb m t = (r, out, w') \<Longrightarrow> quarantined w'"
begin

lemma quarantine_blocks:
  "quarantined w \<Longrightarrow> opcode \<noteq> MLX_CMD_OP_TEARDOWN_HCA \<Longrightarrow> opcode \<noteq> MLX_CMD_OP_DISABLE_HCA \<Longrightarrow>
   t \<noteq> 0 \<Longrightarrow> fst (exec w opcode inb m t) = kIOReturnNotReady \<and>
   device (snd (snd (exec w opcode inb m t))) = device w"
  using exec_quarantined [of w opcode t inb m] by (cases "exec w opcode inb m t") auto

end

end
