(* ===== verification/MlxExec.thy ===== *)
theory MlxExec
  imports MlxCmdProps MlxCmdIfc
begin

text \<open>
  The command interface of \<open>MlxCmdIfc\<close> is provided by \<open>cmdExec\<close>, the model of
  \<^verbatim>\<open>MlxCmd::exec\<close> with one environment per call.
\<close>

section \<open>The model's own command interface\<close>

record cmdWorld =
  cwCmd :: MlxCmd
  cwEnv :: "nat \<Rightarrow> CmdEnv"
  cwCalls :: nat

definition cmdExec :: "cmdWorld execFn" where
  "cmdExec w opcode inb m t =
     (case exec (cwEnv w (cwCalls w))
             (Some \<lparr>cmd_in = Some inb, cmd_inSize = length inb, cmd_out = Some (replicate m 0),
                    cmd_outSize = m, cmd_opcode = opcode\<rparr>) t (cwCmd w) of
        Some (r, Some out, st) \<Rightarrow> (r, out, w\<lparr>cwCmd := st, cwCalls := Suc (cwCalls w)\<rparr>)
      | Some (r, None, st) \<Rightarrow> (r, replicate m 0, w\<lparr>cwCmd := st, cwCalls := Suc (cwCalls w)\<rparr>)
      | None \<Rightarrow> (kIOReturnTimeout, replicate m 0, w))"

definition cmdWf :: "cmdWorld \<Rightarrow> bool" where
  "cmdWf w \<longleftrightarrow> cmdInv (cwCmd w) \<and>
     (\<forall>n. length (envOutHdr (cwEnv w n)) = 16 \<and> (\<forall>i. length (envOutData (cwEnv w n) i) = 512))"

lemma readResponse_length:
  "length out = m \<Longrightarrow> 8 \<le> m \<Longrightarrow> m \<le> MLX_CMD_MAX_SIZE \<Longrightarrow> length (envOutHdr env) = 16 \<Longrightarrow>
   \<forall>i. length (envOutData env i) = 512 \<Longrightarrow> readResponse env m (numBlocks m) out = (r, out') \<Longrightarrow>
   length out' = m"
proof -
  assume a: "length out = m" "8 \<le> m" "m \<le> MLX_CMD_MAX_SIZE" "length (envOutHdr env) = 16"
    "\<forall>i. length (envOutData env i) = 512" "readResponse env m (numBlocks m) out = (r, out')"
  have len: "length (copyOutBoxes env m i k b) = m"
    if "length b = m" "16 + 512 * (i + k) < m + 512 \<or> k = 0" for i k b
    using that
  proof (induction k arbitrary: i b)
    case (Suc k)
    have "16 + i * 512 + min (m - (16 + i * 512)) 512 \<le> m" using Suc.prems by simp
    then have "length (copyInto b (16 + i * 512) (take (min (m - (16 + i * 512)) 512) (envOutData env i))) = m"
      using Suc.prems(1) a(5) by (subst length_copyInto) auto
    then show ?case
      using Suc.prems by (simp add: Let_def MLX_CMD_DATA_BLOCK_SIZE_def) (rule Suc.IH, auto)
  qed simp
  have nb: "16 + 512 * (0 + numBlocks m) < m + 512 \<or> numBlocks m = 0"
  proof (cases "16 < m")
    case True
    have "512 * ((m - 16 + 511) div 512) \<le> m - 16 + 511" by (rule times_div_less_eq_dividend)
    moreover have "numBlocks m = (m - 16 + 511) div 512"
      using True by (simp add: numBlocks_def MLX_CMD_DATA_BLOCK_SIZE_def)
    ultimately have "512 * numBlocks m \<le> m - 16 + 511" by (simp only:)
    with True show ?thesis by (intro disjI1) simp
  qed (simp add: numBlocks_def)
  from a(6) have "out' = copyOutBoxes env m 0 (numBlocks m)
      (copyInto out 0 (take (min m 16) (envOutHdr env)))"
    by (simp add: readResponse_def Let_def split: if_splits)
  with len [OF _ nb] a(1,4) show ?thesis by simp
qed

lemma execSlot_length:
  assumes "execSlot env idx release inb n out m t st = Some (r, out', st')"
    and "length out = m" "8 \<le> m" "m \<le> MLX_CMD_MAX_SIZE" "length (envOutHdr env) = 16"
    and "\<forall>i. length (envOutData env i) = 512"
  shows "length out' = m"
proof -
  have w: "length o2 = m" if "execWait env idx release out m t s = Some (r, o2, s2)" for s o2 s2
    using that assms(2) readResponse_length [OF assms(2-6)]
    by (auto simp: execWait_def Let_def split: option.splits bool.splits prod.splits)
  from assms(1,2) w show ?thesis
    by (auto simp: execSlot_def Let_def split: if_splits prod.splits)
qed

lemma exec_length:
  assumes "exec env (Some c) t st = Some (r, Some out', st')"
    and "cmd_out c = Some out" "length out = cmd_outSize c" "length (envOutHdr env) = 16"
    and "\<forall>i. length (envOutData env i) = 512"
  shows "length out' = cmd_outSize c"
proof (cases "execGuard st (Some c) = kIOReturnSuccess")
  case False
  with assms show ?thesis by (simp add: exec_refused)
next
  case True
  then obtain b where b: "cmd_in c = Some b" and m: "8 \<le> cmd_outSize c" "cmd_outSize c \<le> MLX_CMD_MAX_SIZE"
    by (auto simp: execGuard_def not_less split: if_splits option.splits)
  note acc = exec_accepted [OF True b assms(2)]
  note len = execSlot_length [OF _ assms(3) m assms(4,5)]
  show ?thesis
  proof (cases "cmd_opcode c = MLX_CMD_OP_MANAGE_PAGES")
    case page: True
    from assms(1,3) acc(1) [OF page] show ?thesis
      by (auto split: if_splits dest!: withOut_Some len)
  next
    case reg: False
    obtain io sa where al: "allocIdx st = (io, sa)" by fastforce
    show ?thesis
    proof (cases io)
      case None
      with assms(1,3) acc(2) [OF reg] al show ?thesis by simp
    next
      case (Some idx)
      with assms(1) acc(3) [OF reg] al show ?thesis by (auto dest!: withOut_Some len)
    qed
  qed
qed

lemma exec_out_Some:
  "cmd_out c = Some out \<Longrightarrow> exec env (Some c) t st = Some (r, o', st') \<Longrightarrow> o' \<noteq> None"
  by (auto simp: exec_def Let_def dest: sym [of "Some _"] split: if_splits option.splits prod.splits)

interpretation ci: command_interface cmdExec cmdWf "\<lambda>w. fQuarantined (cwCmd w)" "\<lambda>w. fMmio (cwCmd w)"
proof
  let ?io = "\<lambda>inb m opcode. \<lparr>cmd_in = Some inb, cmd_inSize = length inb,
      cmd_out = Some (replicate m (0::u8)), cmd_outSize = m, cmd_opcode = opcode\<rparr>"
  have run: "\<exists>out' st'. exec (cwEnv w (cwCalls w)) (Some (?io inb m opcode)) t (cwCmd w) =
      Some (r, Some out', st') \<and> out = out' \<and> w' = w\<lparr>cwCmd := st', cwCalls := Suc (cwCalls w)\<rparr>"
    if "t \<noteq> 0" "cmdExec w opcode inb m t = (r, out, w')" for w t opcode inb m r out w'
  proof -
    let ?e = "exec (cwEnv w (cwCalls w)) (Some (?io inb m opcode)) t (cwCmd w)"
    have "?e \<noteq> None"
      using that(1) exec_None [of "cwEnv w (cwCalls w)" _ t "cwCmd w"]
        pollLoop_timeout [of t 0 "envPoll (cwEnv w (cwCalls w))" 0] by fastforce
    then obtain r' o' s' where e: "?e = Some (r', o', s')" by (cases ?e) auto
    have "cmd_out (?io inb m opcode) = Some (replicate m 0)" by simp
    from exec_out_Some [OF this e] obtain b where "o' = Some b" by auto
    with e that(2) show ?thesis by (simp add: cmdExec_def)
  qed
  fix w :: cmdWorld and t m :: nat and opcode inb r out w'
  assume t: "t \<noteq> 0" and ex: "cmdExec w opcode inb m t = (r, out, w')"
  from run [OF t ex] obtain st' where
    e: "exec (cwEnv w (cwCalls w)) (Some (?io inb m opcode)) t (cwCmd w) = Some (r, Some out, st')"
    and w': "w' = w\<lparr>cwCmd := st', cwCalls := Suc (cwCalls w)\<rparr>" by blast
  show "length out = m" if "cmdWf w"
    using exec_length [OF e] that by (simp add: cmdWf_def)
  have wfc: "\<forall>c b. Some (?io inb m opcode) = Some c \<longrightarrow> cmd_in c = Some b \<longrightarrow> length b = cmd_inSize c"
    by auto
  have cases: "cmdInv st' \<and> (fQuarantined (cwCmd w) \<longrightarrow> fQuarantined st')" if "cmdInv (cwCmd w)"
    using exec_Some_cases [OF e that wfc] exec_inv [OF e that wfc] by blast
  show "cmdWf w'" if "cmdWf w"
    using cases that by (simp add: cmdWf_def w')
  show "fQuarantined (cwCmd w')" if "cmdWf w" "fQuarantined (cwCmd w)"
    using cases that by (simp add: cmdWf_def w')
  show "r = kIOReturnNotReady \<and> fMmio (cwCmd w') = fMmio (cwCmd w)"
    if "fQuarantined (cwCmd w)" "opcode \<noteq> MLX_CMD_OP_TEARDOWN_HCA" "opcode \<noteq> MLX_CMD_OP_DISABLE_HCA"
  proof -
    have "execGuard (cwCmd w) (Some (?io inb m opcode)) = kIOReturnNotReady"
      using that by (simp add: execGuard_def)
    with e exec_refused [of "cwCmd w" "Some (?io inb m opcode)" "cwEnv w (cwCalls w)" t] w'
    show ?thesis by simp
  qed
qed

end
