(* ===== verification/MlxCmdRace.thy ===== *)
theory MlxCmdRace
  imports MlxCmdProps
begin

text \<open>
  \<^verbatim>\<open>MlxCmd::exec\<close> with several calling threads, as an interleaving step relation: which slot a
  call uses, and in which order it stores its entity, reads it back, returns the slot and
  clears the entry, on every path of the source (no slot, busy page slot, no memory for the
  entity, no mailbox, answered, timed out). Only \<open>allocIdx\<close> and \<open>freeIdx\<close> run under
  \<open>fAllocLock\<close> and the page slot's check under \<open>fPageLock\<close>; the stores to \<open>fEntArr\<close> do not.
  Commands are numbered by their thread; the interface stays up and a call with bad arguments,
  which touches nothing shared, is no step. What a command carries is in \<open>MlxCmd\<close>.
\<close>

unbundle bit_operations_syntax

text \<open>Where a thread is; the flag says whether it runs a page command.\<close>

datatype pc =
    Idle
  | Entered bool                     \<comment> \<open>past the \<open>fUp\<close> and quarantine guards\<close>
  | PageLocked                       \<comment> \<open>holds \<open>fPageLock\<close>, entry not looked at yet\<close>
  | HasSlot bool nat                 \<comment> \<open>idx chosen\<close>
  | Stored bool nat                  \<comment> \<open>fEntArr[idx] = ent\<close>
  | Submitted bool nat "nat option"  \<comment> \<open>submit ran with this entry\<close>
  | Released bool nat                \<comment> \<open>freeIdx or the unlock ran\<close>
  | TimedOut bool nat                \<comment> \<open>quarantined, the page lock still held\<close>

text \<open>\<open>sLost\<close> records the slots whose command timed out, which the firmware still owns.\<close>

record slots =
  sMask :: u32
  sPageLock :: bool
  sQuar :: bool
  sLost :: "nat set"
  sEnt :: "nat \<Rightarrow> nat option"
  sPc :: "nat \<Rightarrow> pc"

definition takeSlot :: "u32 \<Rightarrow> (nat \<times> u32) option" where
  "takeSlot m = (if m \<noteq> 0 then Some (ctz m, m AND NOT (push_bit (ctz m) 1)) else None)"

definition goto :: "nat \<Rightarrow> pc \<Rightarrow> slots \<Rightarrow> slots" where
  "goto t p s = s\<lparr>sPc := (sPc s)(t := p)\<rparr>"

text \<open>The three release points of the source: unlock for a page command, \<open>freeIdx\<close> otherwise.\<close>

definition giveBack :: "bool \<Rightarrow> nat \<Rightarrow> slots \<Rightarrow> slots" where
  "giveBack page i s =
     (if page then s\<lparr>sPageLock := False\<rparr> else s\<lparr>sMask := sMask s OR push_bit i 1\<rparr>)"

text \<open>\<open>n\<close> is \<open>fMaxRegCmds\<close>, the index of the page slot; \<open>td\<close> says TEARDOWN_HCA or DISABLE_HCA.\<close>

inductive slotStep :: "nat \<Rightarrow> slots \<Rightarrow> slots \<Rightarrow> bool" for n where
  enter: "sPc s t = Idle \<Longrightarrow> (sQuar s \<longrightarrow> td) \<Longrightarrow> (td \<longrightarrow> \<not> page) \<Longrightarrow>
    slotStep n s (goto t (Entered page) s)"
| alloc: "sPc s t = Entered False \<Longrightarrow> takeSlot (sMask s) = Some (i, m) \<Longrightarrow>
    slotStep n s (goto t (HasSlot False i) (s\<lparr>sMask := m\<rparr>))"
| noSlot: "sPc s t = Entered False \<Longrightarrow> takeSlot (sMask s) = None \<Longrightarrow> slotStep n s (goto t Idle s)"
| lockPage: "sPc s t = Entered True \<Longrightarrow> \<not> sPageLock s \<Longrightarrow>
    slotStep n s (goto t PageLocked (s\<lparr>sPageLock := True\<rparr>))"
| pageBusy: "sPc s t = PageLocked \<Longrightarrow> sEnt s n \<noteq> None \<Longrightarrow>
    slotStep n s (goto t Idle (s\<lparr>sPageLock := False\<rparr>))"
| pageTake: "sPc s t = PageLocked \<Longrightarrow> sEnt s n = None \<Longrightarrow>
    slotStep n s (goto t (HasSlot True n) s)"
| noEnt: "sPc s t = HasSlot page i \<Longrightarrow> slotStep n s (goto t Idle (giveBack page i s))"
| store: "sPc s t = HasSlot page i \<Longrightarrow>
    slotStep n s (goto t (Stored page i) (s\<lparr>sEnt := (sEnt s)(i := Some t)\<rparr>))"
| noMailbox: "sPc s t = Stored page i \<Longrightarrow>
    slotStep n s (goto t (Released page i) (giveBack page i s))"
| submit: "sPc s t = Stored page i \<Longrightarrow> slotStep n s (goto t (Submitted page i (sEnt s i)) s)"
| answered: "sPc s t = Submitted page i e \<Longrightarrow>
    slotStep n s (goto t (Released page i) (giveBack page i s))"
| clear: "sPc s t = Released page i \<Longrightarrow>
    slotStep n s (goto t Idle (s\<lparr>sEnt := (sEnt s)(i := None)\<rparr>))"
| timeout: "sPc s t = Submitted page i e \<Longrightarrow>
    slotStep n s (goto t (TimedOut page i) (s\<lparr>sQuar := True, sLost := insert i (sLost s)\<rparr>))"
| giveUp: "sPc s t = TimedOut page i \<Longrightarrow>
    slotStep n s (goto t Idle (if page then s\<lparr>sPageLock := False\<rparr> else s))"

definition slotsInit :: "nat \<Rightarrow> slots" where
  "slotsInit n = \<lparr>sMask = push_bit n 1 - 1, sPageLock = False, sQuar = False, sLost = {},
     sEnt = (\<lambda>_. None), sPc = (\<lambda>_. Idle)\<rparr>"

inductive slotReach :: "nat \<Rightarrow> slots \<Rightarrow> bool" for n where
  start: "slotReach n (slotsInit n)"
| step: "slotReach n s \<Longrightarrow> slotStep n s s' \<Longrightarrow> slotReach n s'"

text \<open>The slot whose descriptor and entry a thread may use.\<close>

fun ownedSlot :: "pc \<Rightarrow> nat option" where
  "ownedSlot (HasSlot page i) = Some i"
| "ownedSlot (Stored page i) = Some i"
| "ownedSlot (Submitted page i e) = Some i"
| "ownedSlot _ = None"

text \<open>The steps use the model's own slot operations.\<close>

lemma takeSlot_allocIdx:
  "allocIdx st = (case takeSlot (fBitmask st) of
     None \<Rightarrow> (None, st) | Some (i, m) \<Rightarrow> (Some i, st\<lparr>fBitmask := m\<rparr>))"
  by (simp add: allocIdx_def takeSlot_def Let_def)

lemma release_freeIdx: "fBitmask (freeIdx i st) = fBitmask st OR push_bit i 1"
  by (simp add: freeIdx_def)

lemma bit_mask_taken_all: "bit (x AND NOT (push_bit k 1)) i = (bit x i \<and> i \<noteq> k)" for x :: u32
proof (cases "i < 32")
  case True
  then show ?thesis by (rule bit_mask_taken)
next
  case False
  then show ?thesis
    using bit_imp_le_length [of x i] bit_imp_le_length [of "x AND NOT (push_bit k 1)" i] by auto
qed

lemma bit_mask_released: "bit (x OR push_bit k 1) i = (bit x i \<or> (i = k \<and> k < 32))" for x :: u32
  by (auto simp: bit_or_iff bit_word_exp_iff)

lemma takeSlot_facts:
  assumes "takeSlot m = Some (i, m')"
  shows "bit m i" and "i < 32" and "\<And>k. bit m' k = (bit m k \<and> k \<noteq> i)"
  using assms ctz_bit [of m] by (auto simp only: takeSlot_def bit_mask_taken_all split: if_splits)

inductive_cases slotStepE: "slotStep n s s'"

fun wfPc :: "nat \<Rightarrow> pc \<Rightarrow> bool" where
  "wfPc n (HasSlot page i) = (if page then i = n else i < n)"
| "wfPc n (Stored page i) = (if page then i = n else i < n)"
| "wfPc n (Submitted page i e) = (if page then i = n else i < n)"
| "wfPc n (Released page i) = (if page then i = n else i < n)"
| "wfPc n (TimedOut page i) = (if page then i = n else i < n)"
| "wfPc n _ = True"

fun holdsLock :: "pc \<Rightarrow> bool" where
  "holdsLock PageLocked = True"
| "holdsLock (HasSlot page i) = page"
| "holdsLock (Stored page i) = page"
| "holdsLock (Submitted page i e) = page"
| "holdsLock (TimedOut page i) = page"
| "holdsLock _ = False"

fun pageEntry :: "pc \<Rightarrow> bool" where
  "pageEntry (Stored page i) = page"
| "pageEntry (Submitted page i e) = page"
| "pageEntry (Released page i) = page"
| "pageEntry _ = False"

text \<open>Bitmap: owners are exclusive, and every regular slot is idle, owned or lost.\<close>

definition slotOk :: "nat \<Rightarrow> u32 \<Rightarrow> nat set \<Rightarrow> (nat \<Rightarrow> nat option) \<Rightarrow> bool" where
  "slotOk n m lost own \<longleftrightarrow>
     (\<forall>t u i. i < n \<longrightarrow> own t = Some i \<longrightarrow> own u = Some i \<longrightarrow> t = u) \<and>
     (\<forall>t i. i < n \<longrightarrow> own t = Some i \<longrightarrow> \<not> bit m i \<and> i \<notin> lost) \<and>
     (\<forall>i. bit m i \<longrightarrow> i < n \<and> i \<notin> lost) \<and>
     (\<forall>i<n. bit m i \<or> i \<in> lost \<or> (\<exists>t. own t = Some i))"

definition maskInv :: "nat \<Rightarrow> slots \<Rightarrow> bool" where
  "maskInv n s \<longleftrightarrow> (\<forall>t. wfPc n (sPc s t)) \<and> (sLost s \<noteq> {} \<longrightarrow> sQuar s) \<and>
     slotOk n (sMask s) (sLost s) (\<lambda>t. ownedSlot (sPc s t))"

text \<open>Page slot: one lock holder, and an entry exactly while a command is under way or lost.\<close>

definition pageInv :: "nat \<Rightarrow> slots \<Rightarrow> bool" where
  "pageInv n s \<longleftrightarrow> (\<forall>t. holdsLock (sPc s t) \<longrightarrow> sPageLock s) \<and>
     (\<forall>t u. holdsLock (sPc s t) \<longrightarrow> holdsLock (sPc s u) \<longrightarrow> t = u) \<and>
     (\<forall>t. pageEntry (sPc s t) \<longrightarrow> sEnt s n = Some t) \<and>
     (\<forall>t i. sPc s t = HasSlot True i \<longrightarrow> sEnt s n = None) \<and>
     (n \<in> sLost s \<longrightarrow> sEnt s n \<noteq> None \<and> (\<forall>t. \<not> pageEntry (sPc s t)))"

lemmas slot_defs = goto_def giveBack_def

lemma slotOk_take:
  assumes "slotOk n m lost own" and "own t = None" and "takeSlot m = Some (i, m')"
  shows "slotOk n m' lost (own(t := Some i)) \<and> i < n"
proof -
  note tk = takeSlot_facts [OF assms(3)]
  have i: "i < n" "i \<notin> lost" "\<And>u. own u \<noteq> Some i" using assms(1) tk(1) by (auto simp: slotOk_def)
  have e: "(own(t := Some i)) u = Some k \<longleftrightarrow> u = t \<and> k = i \<or> own u = Some k" for u k
    using assms(2) by auto
  show ?thesis using assms(1) i by (auto simp: slotOk_def e tk(3) simp del: fun_upd_apply)
qed

lemma slotOk_return:
  assumes "slotOk n m lost own" and "own t = Some i" and "i < n" and "n < 32"
  shows "slotOk n (m OR push_bit i 1) lost (own(t := None))"
proof -
  have e: "(own(t := None)) u = Some k \<longleftrightarrow> k \<noteq> i \<and> own u = Some k" for u k
    using assms(1,2,3) by (auto simp: slotOk_def)
  have d: "k < n \<Longrightarrow> bit m k \<or> k \<in> lost \<or> (\<exists>u. own u = Some k)" for k
    using assms(1) by (simp add: slotOk_def)
  show ?thesis
    using assms d by (simp add: slotOk_def e bit_mask_released del: fun_upd_apply push_bit_of_1) blast
qed

lemma slotOk_lose:
  assumes "slotOk n m lost own" and "own t = Some i" and "i \<le> n"
  shows "slotOk n m (insert i lost) (own(t := None))"
proof -
  have e: "(own(t := None)) u = Some k \<longleftrightarrow> k \<noteq> i \<and> own u = Some k" if "k < n" for u k
    using assms(1,2) that by (auto simp: slotOk_def)
  have "\<not> bit m i" using assms by (auto simp: slotOk_def)
  then show ?thesis using assms(1) by (simp add: slotOk_def e del: fun_upd_apply) blast
qed

text \<open>The page slot, numbered \<open>n\<close>, is no slot of the bitmap.\<close>

lemma slotOk_page:
  assumes "slotOk n m lost own" and "own t = None \<or> own t = Some n" and "x = None \<or> x = Some n"
  shows "slotOk n m lost (own(t := x))"
proof -
  have e: "(own(t := x)) u = Some k \<longleftrightarrow> own u = Some k" if "k < n" for u k using assms(2,3) that by auto
  show ?thesis using assms(1) by (simp add: slotOk_def e del: fun_upd_apply)
qed

lemma own_goto: "(\<lambda>u. ownedSlot (if u = t then p else sPc s u)) = (\<lambda>u. ownedSlot (sPc s u))(t := ownedSlot p)"
  by auto

lemma own_same: "own t = x \<Longrightarrow> own(t := x) = own"
  by auto

lemma maskInv_return:
  assumes "maskInv n s" and "ownedSlot (sPc s t) = Some i" and "wfPc n p" and "ownedSlot p = None"
    and "if page then i = n else i < n" and "n < 32"
  shows "maskInv n (goto t p (giveBack page i s))"
proof -
  note ok = assms(1) [unfolded maskInv_def, THEN conjunct2, THEN conjunct2]
  show ?thesis
    using assms slotOk_return [OF ok, of t i] slotOk_page [OF ok, of t None]
    by (cases page) (simp_all add: maskInv_def goto_def giveBack_def own_goto del: push_bit_of_1)
qed

lemma maskInv_goto:
  assumes "maskInv n s" and "wfPc n p" and "ownedSlot p = ownedSlot (sPc s t)"
    and "sMask s' = sMask s" and "sLost s' = sLost s" and "sPc s' = sPc s" and "sQuar s' = sQuar s"
  shows "maskInv n (goto t p s')"
  using assms by (simp add: maskInv_def goto_def own_goto own_same)

lemma maskInv_wf: "maskInv n s \<Longrightarrow> sPc s t = p \<Longrightarrow> wfPc n p"
  by (auto simp: maskInv_def)

lemma maskInv_step: "slotStep n s s' \<Longrightarrow> n < 32 \<Longrightarrow> maskInv n s \<Longrightarrow> maskInv n s'"
proof (induction rule: slotStep.induct)
  case (timeout s t page i e)
  note wf = maskInv_wf [OF timeout(3,1)]
  with timeout show ?case
    using slotOk_lose [of n "sMask s" "sLost s" "\<lambda>t. ownedSlot (sPc s t)" t i]
    by (simp add: maskInv_def goto_def own_goto split: if_splits)
next
  case (alloc s t i m)
  then show ?case
    using slotOk_take [of n "sMask s" "sLost s" "\<lambda>t. ownedSlot (sPc s t)" t i m]
    by (simp add: maskInv_def goto_def own_goto)
next
  case (pageTake s t)
  then show ?case
    using slotOk_page [of n "sMask s" "sLost s" "\<lambda>t. ownedSlot (sPc s t)" t "Some n"]
    by (simp add: maskInv_def goto_def own_goto)
next
  case (noEnt s t page i)
  with maskInv_wf [OF noEnt(3,1)] show ?case by (intro maskInv_return) simp_all
next
  case (noMailbox s t page i)
  with maskInv_wf [OF noMailbox(3,1)] show ?case by (intro maskInv_return) simp_all
next
  case (answered s t page i e)
  with maskInv_wf [OF answered(3,1)] show ?case by (intro maskInv_return) simp_all
next
  case (store s t page i)
  with maskInv_wf [OF store(3,1)] show ?case by (intro maskInv_goto [OF store(3)]) simp_all
next
  case (submit s t page i)
  with maskInv_wf [OF submit(3,1)] show ?case by (intro maskInv_goto [OF submit(3)]) simp_all
qed (simp_all add: maskInv_goto)

text \<open>The page slot: what the steps of the holder, of a finished page command and of the others do.\<close>

lemma pageInv_holder:
  assumes "pageInv n s" and "holdsLock (sPc s t)"
  shows "holdsLock (sPc s u) \<longleftrightarrow> u = t" and "sPageLock s"
  using assms by (auto simp: pageInv_def)

lemma pageInv_entry:
  assumes "pageInv n s" and "pageEntry (sPc s t)"
  shows "pageEntry (sPc s u) \<longleftrightarrow> u = t" and "sEnt s n = Some t" and "n \<notin> sLost s"
proof -
  have e: "pageEntry (sPc s v) \<Longrightarrow> sEnt s n = Some v" for v using assms(1) by (simp add: pageInv_def)
  show "pageEntry (sPc s u) \<longleftrightarrow> u = t" using e [of u] e [OF assms(2)] assms(2) by auto
  show "sEnt s n = Some t" by (rule e [OF assms(2)])
  show "n \<notin> sLost s" using assms by (auto simp: pageInv_def)
qed

lemma pageInv_other:
  assumes "pageInv n s" and "holdsLock p = holdsLock (sPc s t)" and "pageEntry p = pageEntry (sPc s t)"
    and "\<And>i. p \<noteq> HasSlot True i" and "sPageLock s' = sPageLock s" and "sEnt s' n = sEnt s n"
    and "n \<in> sLost s' \<longleftrightarrow> n \<in> sLost s" and "sPc s' = sPc s"
  shows "pageInv n (goto t p s')"
proof -
  let ?s = "goto t p s'"
  have hl: "holdsLock (sPc ?s u) = holdsLock (sPc s u)" for u using assms(2,8) by (simp add: goto_def)
  have pe: "pageEntry (sPc ?s u) = pageEntry (sPc s u)" for u using assms(3,8) by (simp add: goto_def)
  have hs: "sPc ?s u = HasSlot True i \<Longrightarrow> sPc s u = HasSlot True i" for u i
    using assms(4) [of i] assms(8) by (cases "u = t") (simp_all add: goto_def)
  have f: "sPageLock ?s = sPageLock s" "sEnt ?s n = sEnt s n" "n \<in> sLost ?s \<longleftrightarrow> n \<in> sLost s"
    using assms(5-7) by (simp_all add: goto_def)
  have n: "sPc s u = HasSlot True i \<Longrightarrow> sEnt s n = None" for u i using assms(1) unfolding pageInv_def by blast
  have "\<forall>u i. sPc ?s u = HasSlot True i \<longrightarrow> sEnt s n = None" using hs n by blast
  with assms(1) show ?thesis by (simp only: pageInv_def hl pe f) blast
qed

lemma pageInv_unlock:
  assumes "pageInv n s" and "holdsLock (sPc s t)" and "\<not> holdsLock p" and "pageEntry p = pageEntry (sPc s t)"
  shows "pageInv n (goto t p (s\<lparr>sPageLock := False\<rparr>))"
proof -
  note h = pageInv_holder [OF assms(1,2)]
  have "pageEntry (sPc (goto t p (s\<lparr>sPageLock := False\<rparr>)) u) = pageEntry (sPc s u)" for u
    using assms(4) by (simp add: goto_def)
  moreover have "\<not> holdsLock (sPc (goto t p (s\<lparr>sPageLock := False\<rparr>)) u)" for u
    using assms(3) h(1) by (simp add: goto_def)
  moreover from this have "sPc (goto t p (s\<lparr>sPageLock := False\<rparr>)) u \<noteq> HasSlot True i" for u i
    by (metis holdsLock.simps(2))
  ultimately show ?thesis using assms(1) by (simp add: pageInv_def) (simp add: goto_def)
qed

lemma pageInv_lock:
  assumes "pageInv n s" and "sPc s t = Entered True" and "\<not> sPageLock s"
  shows "pageInv n (goto t PageLocked (s\<lparr>sPageLock := True\<rparr>))"
proof -
  have "\<not> holdsLock (sPc s u)" for u using assms(1,3) by (auto simp: pageInv_def)
  moreover have "sPc s u \<noteq> HasSlot True i" for u i using calculation [of u] by auto
  moreover have "\<not> pageEntry (sPc s t)" using assms(2) by simp
  ultimately show ?thesis using assms(1) by (auto simp: pageInv_def goto_def)
qed

lemma pageInv_take:
  assumes "pageInv n s" and "sPc s t = PageLocked" and "sEnt s n = None"
  shows "pageInv n (goto t (HasSlot True n) s)"
proof -
  have h: "holdsLock (sPc s t)" using assms(2) by simp
  show ?thesis using assms pageInv_holder [OF assms(1) h] by (auto simp: pageInv_def goto_def)
qed

lemma pageInv_store:
  assumes "pageInv n s" and "sPc s t = HasSlot True n"
  shows "pageInv n (goto t (Stored True n) (s\<lparr>sEnt := (sEnt s)(n := Some t)\<rparr>))"
proof -
  have h: "holdsLock (sPc s t)" using assms(2) by simp
  have e: "sEnt s n = None" using assms by (auto simp: pageInv_def)
  have "\<not> pageEntry (sPc s u)" for u using assms(1) e by (auto simp: pageInv_def)
  moreover have "sPc s u = HasSlot True i \<Longrightarrow> u = t" for u i
    using pageInv_holder(1) [OF assms(1) h, of u] by simp
  ultimately show ?thesis using assms(1) pageInv_holder [OF assms(1) h] e by (auto simp: pageInv_def goto_def)
qed

lemma pageInv_clear:
  assumes "pageInv n s" and "sPc s t = Released True n"
  shows "pageInv n (goto t Idle (s\<lparr>sEnt := (sEnt s)(n := None)\<rparr>))"
proof -
  have h: "pageEntry (sPc s t)" using assms(2) by simp
  show ?thesis using assms pageInv_entry [OF assms(1) h] by (auto simp: pageInv_def goto_def)
qed

lemma pageInv_timeout:
  assumes "pageInv n s" and "sPc s t = Submitted True n e"
  shows "pageInv n (goto t (TimedOut True n) (s\<lparr>sQuar := True, sLost := insert n (sLost s)\<rparr>))"
proof -
  have h: "holdsLock (sPc s t)" "pageEntry (sPc s t)" using assms(2) by simp_all
  note hl = pageInv_holder [OF assms(1) h(1)] and en = pageInv_entry [OF assms(1) h(2)]
  show ?thesis using assms(1) hl en by (simp add: pageInv_def goto_def)
qed

lemma pageInv_step: "slotStep n s s' \<Longrightarrow> maskInv n s \<Longrightarrow> pageInv n s \<Longrightarrow> pageInv n s'"
proof (induction rule: slotStep.induct)
  case (timeout s t page i e)
  with maskInv_wf [OF timeout(2,1)] show ?case
    by (cases page) (simp_all add: pageInv_timeout pageInv_other)
next
  case (noEnt s t page i)
  then show ?case by (cases page) (simp_all add: giveBack_def pageInv_unlock pageInv_other)
next
  case (store s t page i)
  with maskInv_wf [OF store(2,1)] show ?case by (cases page) (simp_all add: pageInv_store pageInv_other)
next
  case (noMailbox s t page i)
  then show ?case by (cases page) (simp_all add: giveBack_def pageInv_unlock pageInv_other)
next
  case (answered s t page i e)
  then show ?case by (cases page) (simp_all add: giveBack_def pageInv_unlock pageInv_other)
next
  case (clear s t page i)
  with maskInv_wf [OF clear(2,1)] show ?case by (cases page) (simp_all add: pageInv_clear pageInv_other)
next
  case (giveUp s t page i)
  then show ?case by (cases page) (simp_all add: pageInv_unlock pageInv_other)
qed (simp_all add: pageInv_other pageInv_lock pageInv_take pageInv_unlock)
lemma slots_inv: "slotReach n s \<Longrightarrow> n < 32 \<Longrightarrow> maskInv n s \<and> pageInv n s"
proof (induction rule: slotReach.induct)
  case start
  have "bit (push_bit n 1 - 1 :: u32) i \<longleftrightarrow> i < n" for i
    using start by (auto simp: bit_simps simp flip: mask_eq_exp_minus_1 push_bit_eq_mult)
  then show ?case by (simp add: maskInv_def pageInv_def slotOk_def slotsInit_def del: push_bit_of_1)
next
  case (step s s')
  then show ?case using maskInv_step pageInv_step by blast
qed

lemma lost_stays: "slotStep n s s' \<Longrightarrow> i \<in> sLost s \<Longrightarrow> i \<in> sLost s'"
  by (induction rule: slotStep.induct) (simp_all add: slot_defs)

lemma owned_exclusive:
  assumes "maskInv n s" and "pageInv n s" and "ownedSlot (sPc s t) = Some i"
  shows "ownedSlot (sPc s u) = Some i \<Longrightarrow> t = u" and "\<not> bit (sMask s) i" and "i \<notin> sLost s"
proof -
  have b: "bit (sMask s) k \<Longrightarrow> k < n" for k using assms(1) by (auto simp: maskInv_def slotOk_def)
  have pg: "holdsLock (sPc s v) \<and> n \<notin> sLost s" if "ownedSlot (sPc s v) = Some n" for v
  proof -
    have "wfPc n (sPc s v)" using assms(1) by (simp add: maskInv_def)
    with that show ?thesis using assms(2) pageInv_entry(3) [OF assms(2), of v]
      by (cases "sPc s v") (auto simp: pageInv_def split: if_splits)
  qed
  have le: "i \<le> n" using assms(1,3) by (cases "sPc s t") (auto dest!: maskInv_wf split: if_splits)
  show "t = u" if "ownedSlot (sPc s u) = Some i"
  proof (cases "i = n")
    case True
    then show ?thesis using that assms(2,3) pg [of t] pg [of u] pageInv_holder(1) [of n s t u] by simp
  next
    case False
    with le have "i < n" by simp
    then show ?thesis using that assms(1,3) unfolding maskInv_def slotOk_def by blast
  qed
  show "\<not> bit (sMask s) i" using assms(1,3) le b by (cases "i = n") (auto simp: maskInv_def slotOk_def)
  show "i \<notin> sLost s" using assms(1,3) le pg by (cases "i = n") (auto simp: maskInv_def slotOk_def)
qed

text \<open>C8: whatever the interleaving of concurrent callers, page commands included, and whichever
  of their calls fail for want of memory, are answered or time out: no two of them ever hold
  the same command slot, a held slot is neither in the idle bitmap nor one whose command timed
  out, every regular slot is idle, held or timed out, so that none is lost or returned twice,
  and a timed-out slot stays out of use, the interface quarantined.\<close>

theorem slot_exclusive:
  assumes "slotReach n s" and "n < 32"
  shows "(ownedSlot (sPc s t) = Some i \<and> ownedSlot (sPc s u) = Some i \<longrightarrow> t = u) \<and>
    (ownedSlot (sPc s t) = Some i \<longrightarrow> \<not> bit (sMask s) i \<and> i \<notin> sLost s) \<and>
    (bit (sMask s) i \<longrightarrow> i < n \<and> i \<notin> sLost s) \<and>
    (i < n \<longrightarrow> bit (sMask s) i \<or> i \<in> sLost s \<or> (\<exists>v. ownedSlot (sPc s v) = Some i)) \<and>
    (i \<in> sLost s \<longrightarrow> sQuar s \<and> (\<forall>s'. slotStep n s s' \<longrightarrow> i \<in> sLost s'))"
proof -
  have inv: "maskInv n s" "pageInv n s" using slots_inv [OF assms] by simp_all
  have ok: "slotOk n (sMask s) (sLost s) (\<lambda>t. ownedSlot (sPc s t))" "sLost s \<noteq> {} \<longrightarrow> sQuar s"
    using inv(1) by (simp_all add: maskInv_def)
  show ?thesis
    using owned_exclusive [OF inv] ok lost_stays by (intro conjI impI allI) (auto simp: slotOk_def)
qed

section \<open>The entry race\<close>

text \<open>
  Thread 0 finishes: it returns slot 0 and is preempted before it clears the entry. Thread 1
  takes the slot and stores its entity; thread 0 clears it; thread 1 submits without entity.
\<close>

definition raceEnd :: slots where
  "raceEnd = \<lparr>sMask = 0, sPageLock = False, sQuar = False, sLost = {},
     sEnt = (\<lambda>_. None)(0 := Some 0, 0 := Some 1, 0 := None),
     sPc = (\<lambda>_. Idle)(0 := Idle, 1 := Submitted False 0 None)\<rparr>"

lemma take_first: "takeSlot 1 = Some (0, 0)"
  by (simp add: takeSlot_def ctz_def upt_rec)

abbreviation raceState :: "u32 \<Rightarrow> (nat \<Rightarrow> nat option) \<Rightarrow> (nat \<Rightarrow> pc) \<Rightarrow> slots" where
  "raceState m e p \<equiv> \<lparr>sMask = m, sPageLock = False, sQuar = False, sLost = {}, sEnt = e, sPc = p\<rparr>"

lemma raceEnd_reachable: "slotReach 1 raceEnd"
proof -
  let ?i = "\<lambda>_::nat. Idle" and ?n = "\<lambda>_::nat. None :: nat option"
  note go = goto_def giveBack_def
  have 0: "slotReach 1 (raceState 1 ?n ?i)"
    using slotReach.start [of 1] by (simp add: slotsInit_def)
  have 1: "slotReach 1 (raceState 1 ?n (?i(0 := Entered False)))"
    using slotReach.step [OF 0 slotStep.enter [of _ 0 False False]] by (simp add: go)
  have 2: "slotReach 1 (raceState 0 ?n (?i(0 := HasSlot False 0)))"
    using slotReach.step [OF 1 slotStep.alloc [of _ 0 0 0]] take_first by (simp add: go)
  have 3: "slotReach 1 (raceState 0 (?n(0 := Some 0)) (?i(0 := Stored False 0)))"
    using slotReach.step [OF 2 slotStep.store [of _ 0 False 0]] by (simp add: go)
  have 4: "slotReach 1 (raceState 0 (?n(0 := Some 0)) (?i(0 := Submitted False 0 (Some 0))))"
    using slotReach.step [OF 3 slotStep.submit [of _ 0 False 0]] by (simp add: go)
  have 5: "slotReach 1 (raceState 1 (?n(0 := Some 0)) (?i(0 := Released False 0)))"
    using slotReach.step [OF 4 slotStep.answered [of _ 0 False 0 "Some 0"]] by (simp add: go)
  have 6: "slotReach 1 (raceState 1 (?n(0 := Some 0)) (?i(0 := Released False 0, 1 := Entered False)))"
    using slotReach.step [OF 5 slotStep.enter [of _ 1 False False]] by (simp add: go)
  have 7: "slotReach 1 (raceState 0 (?n(0 := Some 0)) (?i(0 := Released False 0, 1 := HasSlot False 0)))"
    using slotReach.step [OF 6 slotStep.alloc [of _ 1 0 0]] take_first by (simp add: go)
  have 8: "slotReach 1 (raceState 0 (?n(0 := Some 1)) (?i(0 := Released False 0, 1 := Stored False 0)))"
    using slotReach.step [OF 7 slotStep.store [of _ 1 False 0]] by (simp add: go)
  have 9: "slotReach 1 (raceState 0 (?n(0 := None)) (?i(0 := Idle, 1 := Stored False 0)))"
    using slotReach.step [OF 8 slotStep.clear [of _ 0 False 0]] by (simp add: go fun_upd_twist)
  show ?thesis
    using slotReach.step [OF 9 slotStep.submit [of _ 1 False 0]] by (simp add: go raceEnd_def)
qed

text \<open>because a finishing call returns its slot before it clears the entry, a reachable
  interleaving of two callers makes the second one submit its command with the entry cleared
  by the first: the descriptor then goes out with a null mailbox pointer and token 0 although
  the caller's entity has mailboxes. The page slot is spared: its caller looks at the entry
  under the lock and is refused until the entry is cleared.\<close>

theorem submit_without_entity_reachable:
  "\<exists>s. slotReach 1 s \<and> sPc s 1 = Submitted False 0 None"
  using raceEnd_reachable by (intro exI [of _ raceEnd]) (simp add: raceEnd_def)

theorem page_submit_has_entity:
  assumes "slotReach n s" and "n < 32" and "sPc s t = Stored True i"
  shows "sEnt s i = Some t"
proof -
  note inv = slots_inv [OF assms(1,2), THEN conjunct1] slots_inv [OF assms(1,2), THEN conjunct2]
  have "i = n" using maskInv_wf [OF inv(1) assms(3)] by simp
  with pageInv_entry(2) [OF inv(2), of t] assms(3) show ?thesis by simp
qed

theorem slot_exclusive_witness:
  "ownedSlot (sPc raceEnd 1) = Some 0 \<and> \<not> bit (sMask raceEnd) 0"
proof -
  have "ownedSlot (sPc raceEnd 1) = Some 0" by (simp add: raceEnd_def)
  with slot_exclusive [OF raceEnd_reachable, of 1 0 1] show ?thesis by simp
qed

end
