(* ===== verification/MlxUAR.thy ===== *)
theory MlxUAR
  imports MlxCmdIfc
begin

text \<open>
  \<^verbatim>\<open>Sources/core/MlxUAR.{hpp,cpp}\<close>: UAR pages, the 128 doorbell-record slots of the DB page
  and the four BF registers of a UAR. \<open>uar4k\<close>, \<open>logUarPageSize\<close> and \<open>logBfRegSize\<close> are the
  capabilities the code reads, \<open>pageSize\<close> the kernel's \<open>PAGE_SIZE\<close>; IOKit results are
  arguments.
\<close>

unbundle bit_operations_syntax

section \<open>Data\<close>

record MlxUarAlloc =
  uar_index :: u32
  uar_map :: u64
  uar_phys :: u64
  uar_wc :: bool

record MlxBfreg =
  bf_map :: u64
  bf_offset :: u32

text \<open>The DB page is 4096 bytes; \<open>fDbMemDesc\<close> says whether its memory is still allocated.\<close>

record MlxUAR =
  fUarPool :: "MlxUarAlloc list"
  fUarMap :: "u64 option"
  fUarMemDesc :: bool
  fUarBitmap :: u32
  fBootIndex :: u32
  fUarOffset :: u32
  fBootUar :: MlxUarAlloc
  fBootUarValid :: bool
  fDbRecord :: "buffer option"
  fDbRecordDMA :: u64
  fDbMemDesc :: bool
  fDbDmaMap :: bool
  fDbBitmap :: "u64 list"
  fDbLock :: bool

record UarCaps =
  ucUar4k :: bool
  ucLogUarPageSize :: nat
  ucLogBfRegSize :: nat
  ucPageSize :: u64
  ucBarAddr :: u64

definition uarInit :: "bool \<Rightarrow> MlxUAR" where
  "uarInit lock = \<lparr>fUarPool = [], fUarMap = None, fUarMemDesc = False, fUarBitmap = 0,
     fBootIndex = 0, fUarOffset = 0,
     fBootUar = \<lparr>uar_index = 0, uar_map = 0, uar_phys = 0, uar_wc = False\<rparr>,
     fBootUarValid = False, fDbRecord = None, fDbRecordDMA = 0, fDbMemDesc = False,
     fDbDmaMap = False, fDbBitmap = [0, 0], fDbLock = lock\<rparr>"

section \<open>Doorbell-record slots\<close>

definition dbRunFree :: "u64 list \<Rightarrow> nat \<Rightarrow> nat \<Rightarrow> bool" where
  "dbRunFree bm slot count = list_all (\<lambda>i. \<not> bit64s bm (slot + i)) [0..<count]"

definition dbSet :: "nat \<Rightarrow> u64 list \<Rightarrow> nat \<Rightarrow> u64 list" where
  "dbSet slot bm i =
     bm[(slot + i) div 64 := bm ! ((slot + i) div 64) OR push_bit ((slot + i) mod 64) 1]"

definition dbClear :: "nat \<Rightarrow> u64 list \<Rightarrow> nat \<Rightarrow> u64 list" where
  "dbClear slot bm i =
     bm[(slot + i) div 64 := bm ! ((slot + i) div 64) AND NOT (push_bit ((slot + i) mod 64) 1)]"

definition allocDbSlots :: "u32 \<Rightarrow> MlxUAR \<Rightarrow> ioreturn \<times> u32 option \<times> MlxUAR" where
  "allocDbSlots count st =
     (case fDbRecord st of
        None \<Rightarrow> (kIOReturnBadArgument, None, st)
      | Some page \<Rightarrow>
          if \<not> fDbLock st \<or> count = 0 \<or> 2 < count then (kIOReturnBadArgument, None, st)
          else
            (let n = unat count
             in case find (\<lambda>slot. dbRunFree (fDbBitmap st) slot n) [0..<129 - n] of
                  None \<Rightarrow> (kIOReturnNoResources, None, st)
                | Some slot \<Rightarrow>
                    (kIOReturnSuccess, Some (of_nat (slot * 4)),
                     st\<lparr>fDbBitmap := foldl (dbSet slot) (fDbBitmap st) [0..<n],
                        fDbRecord := Some (copyInto page (slot * 4) (replicate (n * 4) 0))\<rparr>)))"

text \<open>\<open>slot + count\<close> is a 32-bit sum, as in the source.\<close>

definition freeDbSlots :: "u32 \<Rightarrow> u32 \<Rightarrow> MlxUAR \<Rightarrow> MlxUAR" where
  "freeDbSlots offset count st =
     (if \<not> fDbLock st \<or> count = 0 \<or> offset mod 4 \<noteq> 0 then st
      else
        (let slot = offset div 4
         in if 128 < slot + count then st
            else st\<lparr>fDbBitmap := foldl (dbClear (unat slot)) (fDbBitmap st) [0..<unat count]\<rparr>))"

definition allocDbRecord :: "bool \<Rightarrow> ioreturn \<times> u64 \<Rightarrow> MlxUAR \<Rightarrow> ioreturn \<times> MlxUAR" where
  "allocDbRecord mem mapping st =
     (if \<not> mem then (kIOReturnNoMemory, st\<lparr>fDbMemDesc := False\<rparr>)
      else
        (let st = st\<lparr>fDbMemDesc := True, fDbRecord := Some (replicate 4096 0)\<rparr>
         in if fst mapping \<noteq> kIOReturnSuccess
            then (kIOReturnNoMemory, st\<lparr>fDbMemDesc := False\<rparr>)
            else (kIOReturnSuccess, st\<lparr>fDbDmaMap := True, fDbRecordDMA := snd mapping\<rparr>)))"

definition freeDbRecord :: "MlxUAR \<Rightarrow> MlxUAR" where
  "freeDbRecord st =
     (if fDbMemDesc st then st\<lparr>fDbDmaMap := False, fDbMemDesc := False, fDbRecord := None\<rparr> else st)"

section \<open>UAR pages\<close>

definition cmdAllocUar :: "'w execFn \<Rightarrow> 'w \<Rightarrow> ioreturn \<times> u32 option \<times> 'w" where
  "cmdAllocUar xc w =
     (let inb = OSWriteBigInt16 (replicate 16 0) 0 (ucast MLX_CMD_OP_ALLOC_UAR);
          (kr, out, w) = xc w MLX_CMD_OP_ALLOC_UAR inb 16 5000
      in if kr \<noteq> kIOReturnSuccess then (kr, None, w)
         else (kIOReturnSuccess, Some (ucast (mlxGetBits out 0x48 24)), w))"

definition cmdFreeUar :: "'w execFn \<Rightarrow> u32 \<Rightarrow> 'w \<Rightarrow> ioreturn \<times> 'w" where
  "cmdFreeUar xc index w =
     (let inb = OSWriteBigInt16 (replicate 16 0) 0 (ucast MLX_CMD_OP_FREE_UAR);
          inb = mlxSetBits inb 0x48 24 (ucast index);
          (kr, out, w) = xc w MLX_CMD_OP_FREE_UAR inb 16 5000
      in (kr, w))"

definition uarPhys :: "UarCaps \<Rightarrow> u32 \<Rightarrow> u64" where
  "uarPhys caps index =
     (let systemPage = (if ucUar4k caps then drop_bit (ucLogUarPageSize caps) index else index)
      in ucBarAddr caps + ucast systemPage * ucPageSize caps)"

text \<open>
  \<open>desc\<close>: whether \<^verbatim>\<open>withPhysicalAddress\<close> returned a descriptor; \<open>mapping\<close>: the virtual
  address of the mapping, if it was made; \<open>record\<close>: whether the pool record was allocated.
\<close>

definition allocUar ::
  "'w execFn \<Rightarrow> UarCaps \<Rightarrow> bool \<Rightarrow> u64 option \<Rightarrow> bool \<Rightarrow> MlxUAR \<Rightarrow> 'w \<Rightarrow>
   ioreturn \<times> MlxUarAlloc option \<times> MlxUAR \<times> 'w" where
  "allocUar xc caps desc mapping record st w =
     (case cmdAllocUar xc w of
        (kr, None, w) \<Rightarrow> (kr, None, st, w)
      | (kr, Some index, w) \<Rightarrow>
          (let uar = \<lparr>uar_index = index, uar_map = 0, uar_phys = uarPhys caps index, uar_wc = False\<rparr>;
               st = st\<lparr>fUarOffset := (if ucUar4k caps
                 then (index AND (ucast (ucPageSize caps div 4096) - 1)) * 4096 else 0)\<rparr>
           in if \<not> desc then (kIOReturnNoMemory, Some uar, st, snd (cmdFreeUar xc index w))
              else
                (case mapping of
                   None \<Rightarrow> (kIOReturnError, Some uar, st, snd (cmdFreeUar xc index w))
                 | Some va \<Rightarrow>
                     (let uar = uar\<lparr>uar_map := va\<rparr>;
                          st = st\<lparr>fUarMap := Some va, fUarMemDesc := True\<rparr>;
                          st = (if fBootIndex st = 0 \<and> fUarPool st = [] then st\<lparr>fBootIndex := index\<rparr> else st);
                          st = (if \<not> fBootUarValid st then st\<lparr>fBootUar := uar, fBootUarValid := True\<rparr> else st);
                          st = (if record then st\<lparr>fUarPool := fUarPool st @ [uar]\<rparr> else st)
                      in (kIOReturnSuccess, Some uar, st, w)))))"

definition freeUar :: "'w execFn \<Rightarrow> MlxUarAlloc option \<Rightarrow> MlxUAR \<Rightarrow> 'w \<Rightarrow> MlxUAR \<times> 'w" where
  "freeUar xc uar st w =
     (case uar of
        None \<Rightarrow> (st, w)
      | Some u \<Rightarrow>
          (let w = snd (cmdFreeUar xc (uar_index u) w);
               st = st\<lparr>fUarMap := None, fUarMemDesc := False\<rparr>;
               st = (if fBootUarValid st \<and> uar_index (fBootUar st) = uar_index u
                     then st\<lparr>fBootUarValid := False\<rparr> else st)
           in (st, w)))"

definition uarFree :: "'w execFn \<Rightarrow> MlxUAR \<Rightarrow> 'w \<Rightarrow> MlxUAR \<times> 'w" where
  "uarFree xc st w =
     (let st = freeDbRecord st;
          (st, w) = (if fBootUarValid st
            then (let (st, w) = freeUar xc (Some (fBootUar st)) st w in (st\<lparr>fBootUarValid := False\<rparr>, w))
            else (st, w))
      in (st\<lparr>fUarPool := [], fDbLock := False\<rparr>, w))"

section \<open>BF registers\<close>

definition allocBfreg :: "UarCaps \<Rightarrow> MlxBfreg \<Rightarrow> MlxUAR \<Rightarrow> ioreturn \<times> MlxBfreg \<times> MlxUAR" where
  "allocBfreg caps bfreg st =
     (let free = NOT (fUarBitmap st) AND 0xF
      in if free = 0 then (kIOReturnNoSpace, bfreg, st)
         else
           (let dbi = ctz free;
                st = st\<lparr>fUarBitmap := fUarBitmap st OR push_bit dbi 1\<rparr>;
                stride = (push_bit (ucLogBfRegSize caps) 1 :: u32);
                bfreg = bfreg\<lparr>bf_offset := of_nat MLX_BF_OFFSET + of_nat dbi * stride\<rparr>
            in case fUarMap st of
                 None \<Rightarrow> (kIOReturnNotReady, bfreg,
                          st\<lparr>fUarBitmap := fUarBitmap st AND NOT (push_bit dbi 1)\<rparr>)
               | Some va \<Rightarrow>
                   if 4096 < unat (bf_offset bfreg) + 8
                   then (kIOReturnNotReady, bfreg,
                         st\<lparr>fUarBitmap := fUarBitmap st AND NOT (push_bit dbi 1)\<rparr>)
                   else (kIOReturnSuccess,
                         bfreg\<lparr>bf_map := va + ucast (fUarOffset st) + ucast (bf_offset bfreg)\<rparr>, st)))"

definition freeBfreg :: "UarCaps \<Rightarrow> MlxBfreg option \<Rightarrow> MlxUAR \<Rightarrow> MlxUAR" where
  "freeBfreg caps bfreg st =
     (case bfreg of
        None \<Rightarrow> st
      | Some b \<Rightarrow>
          if unat (bf_offset b) < MLX_BF_OFFSET then st
          else
            (let stride = (push_bit (ucLogBfRegSize caps) 1 :: u32);
                 rel = bf_offset b - of_nat MLX_BF_OFFSET
             in if stride = 0 \<or> rel mod stride \<noteq> 0 then st
                else
                  (let dbi = rel div stride
                   in if 4 \<le> dbi then st
                      else st\<lparr>fUarBitmap := fUarBitmap st AND NOT (push_bit (unat dbi) 1)\<rparr>)))"

section \<open>Slots are exclusive and come back\<close>

lemma dbSet_length [simp]: "length (foldl (dbSet slot) bm xs) = length bm"
  "length (foldl (dbClear slot) bm xs) = length bm"
  by (induction xs arbitrary: bm) (simp_all add: dbSet_def dbClear_def)

lemma bit64s_dbSet1:
  "slot + i < 64 * length bm \<Longrightarrow> bit64s (dbSet slot bm i) k = (k = slot + i \<or> bit64s bm k)"
  unfolding dbSet_def by (rule bit64s_set)

lemma bit64s_dbClear1:
  "slot + i < 64 * length bm \<Longrightarrow> bit64s (dbClear slot bm i) k = (k \<noteq> slot + i \<and> bit64s bm k)"
  unfolding dbClear_def by (rule bit64s_clear)

lemma bit64s_dbSet:
  "slot + n \<le> 64 * length bm \<Longrightarrow>
   bit64s (foldl (dbSet slot) bm [0..<n]) k = (slot \<le> k \<and> k < slot + n \<or> bit64s bm k)"
  by (induction n) (auto simp: bit64s_dbSet1)

lemma bit64s_dbClear:
  "slot + n \<le> 64 * length bm \<Longrightarrow>
   bit64s (foldl (dbClear slot) bm [0..<n]) k = (\<not> (slot \<le> k \<and> k < slot + n) \<and> bit64s bm k)"
  by (induction n) (auto simp: bit64s_dbClear1)

lemma bit64s_eqI:
  assumes "length a = length b" and "\<And>k. k < 64 * length a \<Longrightarrow> bit64s a k = bit64s b k"
  shows "a = b"
proof (rule nth_equalityI [OF assms(1)])
  fix i assume i: "i < length a"
  show "a ! i = b ! i"
  proof (rule bit_word_eqI)
    fix n assume n: "n < LENGTH(64)"
    have "(64 * i + r) div 64 = i \<and> (64 * i + r) mod 64 = r" if "r < 64" for r using that by simp
    with n have "(64 * i + n) div 64 = i" "(64 * i + n) mod 64 = n" by auto
    moreover have "64 * i + n < 64 * length a" using i n by simp
    ultimately show "bit (a ! i) n = bit (b ! i) n" using assms(2) [of "64 * i + n"] by (simp add: bit64s_def)
  qed
qed

definition dbWf :: "MlxUAR \<Rightarrow> bool" where
  "dbWf st \<longleftrightarrow> length (fDbBitmap st) = 2 \<and> (\<forall>p. fDbRecord st = Some p \<longrightarrow> length p = 4096)"

lemma allocDbSlots_cases:
  assumes "fDbRecord st = Some page" and "fDbLock st" and "count = 1 \<or> count = 2"
  shows "(\<exists>slot. slot + unat count \<le> 128 \<and> (\<forall>k. slot \<le> k \<and> k < slot + unat count \<longrightarrow> \<not> bit64s (fDbBitmap st) k) \<and>
      allocDbSlots count st = (kIOReturnSuccess, Some (of_nat (slot * 4)),
        st\<lparr>fDbBitmap := foldl (dbSet slot) (fDbBitmap st) [0..<unat count],
           fDbRecord := Some (copyInto page (slot * 4) (replicate (unat count * 4) 0))\<rparr>)) \<or>
    allocDbSlots count st = (kIOReturnNoResources, None, st) \<and>
      (\<forall>slot. slot + unat count \<le> 128 \<longrightarrow> (\<exists>k. slot \<le> k \<and> k < slot + unat count \<and> bit64s (fDbBitmap st) k))"
proof -
  let ?n = "unat count"
  have c: "count \<noteq> 0" "\<not> 2 < count" "?n = 1 \<or> ?n = 2" using assms(3) by auto
  have run: "dbRunFree (fDbBitmap st) slot ?n = (\<forall>k. slot \<le> k \<and> k < slot + ?n \<longrightarrow> \<not> bit64s (fDbBitmap st) k)"
    for slot
    by (auto simp: dbRunFree_def list_all_iff dest!: le_Suc_ex)
  show ?thesis
  proof (cases "find (\<lambda>slot. dbRunFree (fDbBitmap st) slot ?n) [0..<129 - ?n]")
    case None
    then have "\<not> dbRunFree (fDbBitmap st) slot ?n" if "slot + ?n \<le> 128" for slot
      using that c(3) by (auto simp: find_None_iff)
    with None assms(1,2) c show ?thesis by (auto simp: allocDbSlots_def Let_def run)
  next
    case (Some slot)
    then have "slot < 129 - ?n" "dbRunFree (fDbBitmap st) slot ?n" by (auto simp: find_Some_iff)
    with Some assms(1,2) c show ?thesis
      by (intro disjI1 exI [of _ slot]) (auto simp: allocDbSlots_def Let_def run)
  qed
qed

lemma allocDbSlots_spec:
  assumes "dbWf st" and "fDbRecord st = Some page" and "fDbLock st" and "count = 1 \<or> count = 2"
  shows "(case allocDbSlots count st of
      (kr, None, st') \<Rightarrow> kr = kIOReturnNoResources \<and> st' = st \<and>
        (\<forall>slot. slot + unat count \<le> 128 \<longrightarrow>
           (\<exists>k. slot \<le> k \<and> k < slot + unat count \<and> bit64s (fDbBitmap st) k))
    | (kr, Some off, st') \<Rightarrow> kr = kIOReturnSuccess \<and>
        (\<exists>slot page'. unat off = 4 * slot \<and> slot + unat count \<le> 128 \<and>
           (\<forall>k. bit64s (fDbBitmap st') k = (slot \<le> k \<and> k < slot + unat count \<or> bit64s (fDbBitmap st) k)) \<and>
           (\<forall>k. slot \<le> k \<and> k < slot + unat count \<longrightarrow> \<not> bit64s (fDbBitmap st) k) \<and>
           fDbRecord st' = Some page' \<and> length page' = 4096 \<and>
           (\<forall>i < 4096. page' ! i =
              (if 4 * slot \<le> i \<and> i < 4 * (slot + unat count) then 0 else page ! i)) \<and>
           fDbBitmap (freeDbSlots off count st') = fDbBitmap st))"
  using allocDbSlots_cases [OF assms(2-4)]
proof (elim disjE exE conjE)
  fix slot
  assume s: "slot + unat count \<le> 128" "\<forall>k. slot \<le> k \<and> k < slot + unat count \<longrightarrow> \<not> bit64s (fDbBitmap st) k"
    and al: "allocDbSlots count st = (kIOReturnSuccess, Some (of_nat (slot * 4)),
        st\<lparr>fDbBitmap := foldl (dbSet slot) (fDbBitmap st) [0..<unat count],
           fDbRecord := Some (copyInto page (slot * 4) (replicate (unat count * 4) 0))\<rparr>)"
  let ?off = "of_nat (slot * 4) :: u32"
  let ?bm = "foldl (dbSet slot) (fDbBitmap st) [0..<unat count]"
  let ?page = "copyInto page (slot * 4) (replicate (unat count * 4) 0)"
  have lb: "length (fDbBitmap st) = 2" and lp: "length page = 4096"
    using assms(1,2) by (auto simp: dbWf_def)
  have off: "unat ?off = 4 * slot"
  proof -
    have "unat ?off = slot * 4" by (rule unat_of_nat_small) (use s(1) in simp)
    then show ?thesis by simp
  qed
  have bits: "bit64s ?bm k = (slot \<le> k \<and> k < slot + unat count \<or> bit64s (fDbBitmap st) k)" for k
    using s(1) lb by (intro bit64s_dbSet) simp
  have slot32: "unat (?off div 4) = slot" "?off mod 4 = 0"
    using off by (simp_all add: unat_div unat_mod word_unat_eq_iff)
  have sum: "\<not> 128 < ?off div 4 + count"
    using s(1) slot32(1) by (simp add: word_less_nat_alt unat_plus_if')
  have fr: "fDbBitmap (freeDbSlots ?off count (st\<lparr>fDbBitmap := ?bm, fDbRecord := Some ?page\<rparr>)) =
      foldl (dbClear slot) ?bm [0..<unat count]"
    unfolding freeDbSlots_def Let_def using assms(3,4) slot32 sum by auto
  have undone: "foldl (dbClear slot) ?bm [0..<unat count] = fDbBitmap st"
    using s lb by (intro bit64s_eqI) (auto simp: bit64s_dbClear bits)
  have room: "slot * 4 + unat count * 4 \<le> 4096" using s(1) by simp
  have "?page ! i = (if 4 * slot \<le> i \<and> i < 4 * (slot + unat count) then 0 else page ! i)" if "i < 4096" for i
    using that room lp by (auto simp: nth_copyInto)
  then show ?thesis
    unfolding al using off s bits fr undone room lp
    by simp
qed (simp add: assms)

text \<open>The search starts at slot 0, so every earlier run holds a taken slot.\<close>

lemma allocDbSlots_lowest:
  assumes "dbWf st" and "fDbRecord st = Some page" and "fDbLock st" and "count = 1 \<or> count = 2"
    and "allocDbSlots count st = (kr, Some off, st')" and "4 * slot < unat off"
  shows "\<exists>k. slot \<le> k \<and> k < slot + unat count \<and> bit64s (fDbBitmap st) k"
proof -
  let ?n = "unat count" and ?run = "\<lambda>slot. dbRunFree (fDbBitmap st) slot (unat count)"
  have c: "count \<noteq> 0" "\<not> 2 < count" "?n = 1 \<or> ?n = 2" using assms(4) by auto
  obtain s where s: "find ?run [0..<129 - ?n] = Some s" and off: "off = of_nat (s * 4)"
    using assms(2,3,5) c by (auto simp: allocDbSlots_def Let_def split: option.splits)
  have b: "s < 129 - ?n" and first: "\<And>j. j < s \<Longrightarrow> \<not> ?run j" using s by (auto simp: find_Some_iff)
  have "s * 4 < 2 ^ 32" using b by simp
  then have "unat off = s * 4" unfolding off by (intro unat_of_nat_small) simp
  then have "\<not> ?run slot" using assms(6) first by simp
  then obtain i where "i < ?n" "bit64s (fDbBitmap st) (slot + i)" by (auto simp: dbRunFree_def list_all_iff)
  then show ?thesis by (intro exI [of _ "slot + i"]) simp
qed

text \<open>C9: allocating one or two doorbell-record slots, on any bitmap: on success the slots lie
  inside the 128 of the page, all were free, no earlier run of that many slots was, exactly
  these become taken, their bytes of the page are zeroed and no other byte changes, and
  freeing the returned offset gives back the old bitmap; a failure changes nothing and, with
  a page and a valid count, means that no run of that many adjacent free slots exists.\<close>

theorem allocDbSlots_sound:
  assumes "dbWf st" and "fDbRecord st = Some page" and "fDbLock st" and "count = 1 \<or> count = 2"
  shows "(case allocDbSlots count st of
      (kr, None, st') \<Rightarrow> kr = kIOReturnNoResources \<and> st' = st \<and>
        (\<forall>slot. slot + unat count \<le> 128 \<longrightarrow>
           (\<exists>k. slot \<le> k \<and> k < slot + unat count \<and> bit64s (fDbBitmap st) k))
    | (kr, Some off, st') \<Rightarrow> kr = kIOReturnSuccess \<and>
        (\<exists>slot page'. unat off = 4 * slot \<and> slot + unat count \<le> 128 \<and>
           (\<forall>k. bit64s (fDbBitmap st') k = (slot \<le> k \<and> k < slot + unat count \<or> bit64s (fDbBitmap st) k)) \<and>
           (\<forall>k. slot \<le> k \<and> k < slot + unat count \<longrightarrow> \<not> bit64s (fDbBitmap st) k) \<and>
           (\<forall>slot' < slot. \<exists>k. slot' \<le> k \<and> k < slot' + unat count \<and> bit64s (fDbBitmap st) k) \<and>
           fDbRecord st' = Some page' \<and> length page' = 4096 \<and>
           (\<forall>i < 4096. page' ! i =
              (if 4 * slot \<le> i \<and> i < 4 * (slot + unat count) then 0 else page ! i)) \<and>
           fDbBitmap (freeDbSlots off count st') = fDbBitmap st))"
proof -
  obtain kr x st' where al: "allocDbSlots count st = (kr, x, st')" by (metis prod_cases3)
  show ?thesis
  proof (cases x)
    case None
    then show ?thesis using allocDbSlots_spec [OF assms] al by simp
  next
    case (Some off)
    note low = allocDbSlots_lowest [OF assms al [unfolded Some]]
    have "\<exists>k. slot' \<le> k \<and> k < slot' + unat count \<and> bit64s (fDbBitmap st) k"
      if "unat off = 4 * slot" "slot' < slot" for slot slot'
      using low [of slot'] that by simp
    then have first: "unat off = 4 * slot \<Longrightarrow> (\<forall>slot' < slot. \<exists>k. slot' \<le> k \<and> k < slot' + unat count \<and>
        bit64s (fDbBitmap st) k)" for slot by blast
    show ?thesis using allocDbSlots_spec [OF assms]
      unfolding al Some option.case prod.case
      by (elim conjE exE, intro conjI exI) (assumption | erule first)+
  qed
qed

definition sampleUar :: MlxUAR where
  "sampleUar = (uarInit True)\<lparr>fDbRecord := Some (replicate 4096 0xff), fDbBitmap := [1, 0]\<rparr>"

theorem allocDbSlots_sound_witness:
  "\<exists>st'. allocDbSlots 2 sampleUar = (kIOReturnSuccess, Some 4, st') \<and>
    fDbBitmap (freeDbSlots 4 2 st') = fDbBitmap sampleUar"
proof -
  have wf: "dbWf sampleUar" "fDbRecord sampleUar = Some (replicate 4096 0xff)" "fDbLock sampleUar"
    by (simp_all add: dbWf_def sampleUar_def uarInit_def)
  have "find (\<lambda>slot. dbRunFree [1, 0] slot 2) [0..<129 - 2] = Some 1"
    by (simp add: find_Some_iff dbRunFree_def upt_rec [of _ 2] bit64s_def)
      (intro exI [of _ 1], simp add: bit64s_def)
  then obtain st' where al: "allocDbSlots 2 sampleUar = (kIOReturnSuccess, Some 4, st')"
    by (simp add: allocDbSlots_def sampleUar_def uarInit_def Let_def)
  from allocDbSlots_sound [OF wf, of 2] al show ?thesis by auto
qed

section \<open>BF registers\<close>

lemma ctz_nibble: "NOT x AND 0xF \<noteq> 0 \<Longrightarrow> ctz (NOT x AND 0xF) < 4 \<and> \<not> bit x (ctz (NOT x AND 0xF))"
  for x :: u32
proof -
  assume "NOT x AND 0xF \<noteq> 0"
  from ctz_bit [OF this] have b: "bit (NOT x AND 0xF) (ctz (NOT x AND 0xF))" ..
  have "(0xF :: u32) = mask 4" by (simp add: mask_eq_exp_minus_1)
  with b have "bit (NOT x AND mask 4) (ctz (NOT x AND 0xF))" by (simp only:)
  then show ?thesis by (simp add: bit_and_iff bit_not_iff bit_mask_iff)
qed

text \<open>with BF registers of at most 1 GiB, a successful BF allocation takes a free one of the
  four registers, within the 4 KiB UAR, and freeing it restores the bitmap; a failed one
  leaves the state as it was.\<close>

lemma allocBfreg_spec:
  assumes "ucLogBfRegSize caps \<le> 30"
  shows "(case allocBfreg caps b0 st of (kr, b, st') \<Rightarrow>
     if kr = kIOReturnSuccess
     then \<exists>dbi < 4. \<not> bit (fUarBitmap st) dbi \<and>
       unat (bf_offset b) = 0x800 + dbi * 2 ^ ucLogBfRegSize caps \<and> unat (bf_offset b) + 8 \<le> 4096 \<and>
       freeBfreg caps (Some b) st' = st
     else st' = st)"
proof (cases "NOT (fUarBitmap st) AND 0xF = 0")
  case True
  then show ?thesis by (simp add: allocBfreg_def Let_def)
next
  case False
  define dbi where "dbi = ctz (NOT (fUarBitmap st) AND 0xF)"
  define lg where "lg = ucLogBfRegSize caps"
  from ctz_nibble [OF False] have dbi: "dbi < 4" "\<not> bit (fUarBitmap st) dbi" by (simp_all add: dbi_def)
  let ?off = "of_nat MLX_BF_OFFSET + of_nat dbi * (push_bit lg 1 :: u32)"
  let ?st = "st\<lparr>fUarBitmap := fUarBitmap st OR push_bit dbi 1\<rparr>"
  have lg: "lg \<le> 30" using assms by (simp add: lg_def)
  have pw: "(2::nat) ^ lg \<le> 2 ^ 30" using power_increasing [OF lg, of "2::nat"] by simp
  have stride: "unat (push_bit lg 1 :: u32) = 2 ^ lg" using lg unat_word_exp [of lg, where 'a = 32] by simp
  have ud: "unat (of_nat dbi :: u32) = dbi" using dbi(1) by (intro unat_of_nat_small) simp
  have "dbi * 2 ^ lg \<le> 3 * 2 ^ 30" using dbi(1) pw by (intro mult_le_mono) simp_all
  then have small: "dbi * 2 ^ lg + 0x800 < 2 ^ 32" by simp
  have "unat (of_nat dbi * (push_bit lg 1 :: u32)) = dbi * 2 ^ lg"
    using small stride ud by (simp add: unat_word_ariths)
  then have off: "unat ?off = 0x800 + dbi * 2 ^ lg"
    using small by (subst unat_plus_if') (simp add: MLX_BF_OFFSET_def)
  have undo: "(fUarBitmap st OR push_bit dbi 1) AND NOT (push_bit dbi 1) = fUarBitmap st"
    using dbi(2) by (intro bit_word_eqI) (auto simp: bit_or_iff bit_and_iff bit_not_iff bit_word_exp_iff)
  show ?thesis
  proof (cases "fUarMap st")
    case None
    then show ?thesis
      using False undo by (simp add: allocBfreg_def Let_def dbi_def [symmetric])
  next
    case (Some va)
    show ?thesis
    proof (cases "4096 < unat ?off + 8")
      case True
      then show ?thesis
        using False Some undo unfolding allocBfreg_def Let_def dbi_def [symmetric] lg_def [symmetric]
        by simp
    next
      case fits: False
      let ?b = "b0\<lparr>bf_offset := ?off, bf_map := va + ucast (fUarOffset st) + ucast ?off\<rparr>"
      have res: "allocBfreg caps b0 st = (kIOReturnSuccess, ?b, ?st)"
        using False Some fits
        unfolding allocBfreg_def Let_def dbi_def [symmetric] lg_def [symmetric] by simp
      have rel: "unat (?off - of_nat MLX_BF_OFFSET) = dbi * 2 ^ lg"
        using \<open>unat (of_nat dbi * (push_bit lg 1 :: u32)) = dbi * 2 ^ lg\<close> by simp
      have undone: "freeBfreg caps (Some ?b) ?st = st"
      proof -
        have "(push_bit lg 1 :: u32) \<noteq> 0" using stride lg by auto
        moreover have "(?off - of_nat MLX_BF_OFFSET) mod push_bit lg 1 = 0"
          using rel stride by (simp add: word_unat_eq_iff unat_mod)
        moreover have "unat ((?off - of_nat MLX_BF_OFFSET) div push_bit lg 1) = dbi"
          using rel stride by (simp add: unat_div)
        moreover then have "\<not> 4 \<le> (?off - of_nat MLX_BF_OFFSET) div push_bit lg 1"
          using dbi(1) by (simp add: word_le_nat_alt)
        moreover have "\<not> unat ?off < MLX_BF_OFFSET" using off by (simp add: MLX_BF_OFFSET_def)
        ultimately show ?thesis
          using undo unfolding freeBfreg_def Let_def lg_def [symmetric] by simp
      qed
      from fits off have "0x800 + dbi * 2 ^ lg + 8 \<le> 4096" by simp
      with res undone off dbi show ?thesis
        by (simp add: lg_def [symmetric])
    qed
  qed
qed

text \<open>Registers of at least 8 bytes do not overlap.\<close>

theorem allocBfreg_sound:
  assumes "3 \<le> ucLogBfRegSize caps" and "ucLogBfRegSize caps \<le> 30"
    and "allocBfreg caps b0 st = (kIOReturnSuccess, b, st')"
  shows "\<exists>dbi < 4. unat (bf_offset b) = 0x800 + dbi * 2 ^ ucLogBfRegSize caps \<and>
    (\<forall>d. d \<noteq> dbi \<longrightarrow> 0x800 + d * 2 ^ ucLogBfRegSize caps + 8 \<le> unat (bf_offset b) \<or>
       unat (bf_offset b) + 8 \<le> 0x800 + d * 2 ^ ucLogBfRegSize caps)"
proof -
  define lg where "lg = ucLogBfRegSize caps"
  obtain dbi where dbi: "dbi < 4" "unat (bf_offset b) = 0x800 + dbi * 2 ^ lg"
    using allocBfreg_spec [OF assms(2), of st b0] assms(3) by (auto simp: lg_def)
  have pw: "(8::nat) \<le> 2 ^ lg" using power_increasing [OF assms(1), of "2::nat"] by (simp add: lg_def)
  have "0x800 + d * 2 ^ lg + 8 \<le> 0x800 + dbi * 2 ^ lg \<or> 0x800 + dbi * 2 ^ lg + 8 \<le> 0x800 + d * 2 ^ lg"
    if "d \<noteq> dbi" for d
  proof (cases "d < dbi")
    case True
    then have "Suc d * 2 ^ lg \<le> dbi * 2 ^ lg" by (intro mult_le_mono1) simp
    with pw show ?thesis by simp
  next
    case False
    with that have "Suc dbi * 2 ^ lg \<le> d * 2 ^ lg" by (intro mult_le_mono1) simp
    with pw show ?thesis by simp
  qed
  with dbi show ?thesis by (auto simp: lg_def)
qed

text \<open>when the DMA mapping of the doorbell page fails, \<open>allocDbRecord\<close> releases the page but
  leaves the record pointer set, so that a later slot allocation still succeeds and clears
  bytes of the released page.\<close>

theorem allocDbRecord_dangling:
  "(case allocDbRecord True (kIOReturnNoSpace, 0) (uarInit True) of (kr, st) \<Rightarrow>
     kr = kIOReturnNoMemory \<and> \<not> fDbMemDesc st \<and> fDbRecord st \<noteq> None \<and>
     fst (allocDbSlots 1 st) = kIOReturnSuccess)"
proof -
  let ?st = "snd (allocDbRecord True (kIOReturnNoSpace, 0) (uarInit True))"
  have st: "fDbRecord ?st = Some (replicate 4096 0)" "fDbLock ?st" "fDbBitmap ?st = [0, 0]"
    by (simp_all add: allocDbRecord_def uarInit_def Let_def)
  have "\<exists>slot. slot + unat (1 :: u32) \<le> 128 \<and> (\<forall>k. slot \<le> k \<and> k < slot + unat (1 :: u32) \<longrightarrow> \<not> bit64s (fDbBitmap ?st) k)"
    by (intro exI [of _ 0]) (simp add: st bit64s_def)
  with allocDbSlots_cases [OF st(1,2), of 1] have "fst (allocDbSlots 1 ?st) = kIOReturnSuccess"
    by (elim disjE exE conjE) auto
  then show ?thesis
    by (simp add: allocDbRecord_def uarInit_def Let_def)
qed

end
