(* ===== verification/MlxHealth.thy ===== *)
theory MlxHealth
  imports MlxPrelude
begin

text \<open>
  \<^verbatim>\<open>Sources/core/MlxHealth.{hpp,cpp}\<close>: the firmware watchdog. A poll reads the health
  counter and the health buffer from BAR0 (\<open>sample\<close>); three polls in a row with an unchanged
  counter, or a non-zero syndrome with the reset-required bit, put the driver in DMA
  quarantine. The calls of \<open>enterDmaQuarantine\<close> are logged with their argument.
\<close>

unbundle bit_operations_syntax

datatype MlxHealthState = kMlxHealthOk | kMlxHealthWatchdog | kMlxHealthRecovered

record MlxHealth =
  hState :: MlxHealthState
  hIntervalUs :: u64
  hLastCounter :: u32
  hMissCount :: u32
  hSyndrome :: u8
  hExtendedSyndrome :: u16
  hStarted :: bool
  hWorkLoop :: bool
  hTimer :: bool
  hArmed :: "u32 option"
  hQuarantines :: "u8 list"

record healthSample =
  smpCounter :: u32
  smpSynd :: u8
  smpExt :: u16
  smpSeverity :: u8

definition healthInit :: MlxHealth where
  "healthInit = \<lparr>hState = kMlxHealthOk, hIntervalUs = 0, hLastCounter = 0, hMissCount = 0,
     hSyndrome = 0, hExtendedSyndrome = 0, hStarted = False, hWorkLoop = False, hTimer = False,
     hArmed = None, hQuarantines = []\<rparr>"

definition enterDmaQuarantine :: "u8 \<Rightarrow> MlxHealth \<Rightarrow> MlxHealth" where
  "enterDmaQuarantine synd st = st\<lparr>hQuarantines := hQuarantines st @ [synd]\<rparr>"

definition check :: "healthSample \<Rightarrow> MlxHealth \<Rightarrow> MlxHealthState \<times> MlxHealth" where
  "check smp st =
     (let counter = smpCounter smp;
          st = (if hStarted st \<and> counter = hLastCounter st
            then (let st = st\<lparr>hMissCount := hMissCount st + 1\<rparr>
                  in if 3 \<le> hMissCount st
                     then enterDmaQuarantine (hSyndrome st) (st\<lparr>hState := kMlxHealthWatchdog\<rparr>)
                     else st)
            else st\<lparr>hMissCount := 0, hState := kMlxHealthOk\<rparr>);
          st = st\<lparr>hSyndrome := smpSynd smp, hExtendedSyndrome := smpExt smp\<rparr>;
          st = (if hSyndrome st \<noteq> 0 \<and> smpSeverity smp AND 0x80 \<noteq> 0
            then enterDmaQuarantine (hSyndrome st) (st\<lparr>hState := kMlxHealthWatchdog\<rparr>)
            else st);
          st = st\<lparr>hLastCounter := counter\<rparr>
      in (hState st, st))"

text \<open>
  \<open>wl\<close>, \<open>ts\<close>, \<open>ev\<close>: whether the work loop, the timer source and its registration were
  obtained; \<open>counter\<close>: the counter read when polling starts.
\<close>

definition start :: "bool \<Rightarrow> bool \<Rightarrow> bool \<Rightarrow> u32 \<Rightarrow> u64 \<Rightarrow> MlxHealth \<Rightarrow> bool \<times> MlxHealth" where
  "start wl ts ev counter intervalUs st =
     (let st = st\<lparr>hIntervalUs := intervalUs\<rparr>;
          st = (if \<not> hWorkLoop st then st\<lparr>hWorkLoop := wl\<rparr> else st)
      in if hWorkLoop st \<and> \<not> hTimer st \<and> \<not> (ts \<and> ev) then (False, st\<lparr>hTimer := False\<rparr>)
         else
           (let st = (if hWorkLoop st \<and> \<not> hTimer st then st\<lparr>hTimer := True\<rparr> else st)
            in if \<not> hTimer st then (False, st)
               else (True, st\<lparr>hStarted := True, hLastCounter := counter, hMissCount := 0,
                              hArmed := Some (ucast intervalUs)\<rparr>)))"

definition stop :: "MlxHealth \<Rightarrow> MlxHealth" where
  "stop st = (let st = st\<lparr>hStarted := False\<rparr> in if hTimer st then st\<lparr>hArmed := None\<rparr> else st)"

definition healthFree :: "MlxHealth \<Rightarrow> MlxHealth" where
  "healthFree st = (stop st)\<lparr>hTimer := False, hWorkLoop := False\<rparr>"

definition isHealthy :: "MlxHealth \<Rightarrow> bool" where
  "isHealthy st = (hState st = kMlxHealthOk)"

definition pollTimer :: "healthSample \<Rightarrow> MlxHealth \<Rightarrow> MlxHealth" where
  "pollTimer smp st =
     (if \<not> hStarted st then st
      else
        (let st = snd (check smp (st\<lparr>hArmed := None\<rparr>))
         in if hStarted st then st\<lparr>hArmed := Some (ucast (hIntervalUs st))\<rparr> else st))"

section \<open>The watchdog\<close>

text \<open>The number of trailing polls that saw the counter of the poll before them.\<close>

fun stalls :: "u32 \<Rightarrow> healthSample list \<Rightarrow> nat \<Rightarrow> nat" where
  "stalls lst [] n = n"
| "stalls lst (s # ss) n =
     stalls (smpCounter s) ss (if smpCounter s = lst then Suc n else 0)"

definition benign :: "healthSample \<Rightarrow> bool" where
  "benign s = (smpSynd s = 0 \<or> smpSeverity s AND 0x80 = 0)"

lemma pollTimer_benign:
  assumes "hStarted st" and "benign s"
  shows "hStarted (pollTimer s st)" and "hLastCounter (pollTimer s st) = smpCounter s"
    and "hMissCount (pollTimer s st) = (if smpCounter s = hLastCounter st then hMissCount st + 1 else 0)"
    and "hState (pollTimer s st) = (if smpCounter s \<noteq> hLastCounter st then kMlxHealthOk
      else if 3 \<le> hMissCount st + 1 then kMlxHealthWatchdog else hState st)"
  using assms
  by (auto simp: pollTimer_def check_def enterDmaQuarantine_def benign_def Let_def)

lemma watchdog_run:
  "hStarted st \<Longrightarrow> \<forall>s\<in>set ss. benign s \<Longrightarrow> unat (hMissCount st) + length ss < 2 ^ 32 \<Longrightarrow>
   (hState st = kMlxHealthWatchdog) = (3 \<le> unat (hMissCount st)) \<Longrightarrow>
   unat (hMissCount (foldl (\<lambda>st s. pollTimer s st) st ss)) = stalls (hLastCounter st) ss (unat (hMissCount st)) \<and>
   (hState (foldl (\<lambda>st s. pollTimer s st) st ss) = kMlxHealthWatchdog) =
     (3 \<le> stalls (hLastCounter st) ss (unat (hMissCount st)))"
proof (induction ss arbitrary: st)
  case Nil
  then show ?case by simp
next
  case (Cons s ss)
  let ?st = "pollTimer s st"
  note p = pollTimer_benign [of st s]
  have b: "hStarted st" "benign s" using Cons.prems by auto
  have m: "unat (hMissCount ?st) = (if smpCounter s = hLastCounter st then Suc (unat (hMissCount st)) else 0)"
    using p(3) [OF b] Cons.prems(3) by (simp add: unat_plus_if')
  have le3: "(3 \<le> hMissCount st + 1) = (3 \<le> Suc (unat (hMissCount st)))"
    using Cons.prems(3) by (simp add: word_le_nat_alt unat_plus_if')
  have w: "(hState ?st = kMlxHealthWatchdog) = (3 \<le> unat (hMissCount ?st))"
    using p(4) [OF b] Cons.prems(4) m le3 by auto
  have "unat (hMissCount (foldl (\<lambda>st s. pollTimer s st) ?st ss)) = stalls (hLastCounter ?st) ss (unat (hMissCount ?st)) \<and>
      (hState (foldl (\<lambda>st s. pollTimer s st) ?st ss) = kMlxHealthWatchdog) =
        (3 \<le> stalls (hLastCounter ?st) ss (unat (hMissCount ?st)))"
    using Cons.prems m w p(1) [OF b] by (intro Cons.IH) (auto split: if_splits)
  then show ?case using m p(2) [OF b] by simp
qed

text \<open>after polling starts, over any sequence of timer polls without a fatal syndrome, the
  driver is in the watchdog state exactly when the last three polls or more all read the
  counter of the poll before them: two stalled polls never trip it, three always do, and a
  moving counter clears it.\<close>

theorem watchdog_exact:
  assumes "start wl ts ev counter us healthInit = (True, st)" and "\<forall>s\<in>set ss. benign s"
    and "length ss < 2 ^ 32"
  shows "(hState (foldl (\<lambda>st s. pollTimer s st) st ss) = kMlxHealthWatchdog) =
    (3 \<le> stalls counter ss 0)"
proof -
  have st: "hStarted st" "hMissCount st = 0" "hState st = kMlxHealthOk" "hLastCounter st = counter"
    using assms(1) by (auto simp: start_def healthInit_def Let_def split: if_splits)
  show ?thesis using watchdog_run [OF st(1) assms(2)] st assms(3) by simp
qed

theorem watchdog_exact_witness:
  "(let s = \<lparr>smpCounter = 7, smpSynd = 0, smpExt = 0, smpSeverity = 0\<rparr>;
        st = snd (start True True True 7 1000 healthInit)
    in hState (foldl (\<lambda>st s. pollTimer s st) st [s, s]) \<noteq> kMlxHealthWatchdog \<and>
       hState (foldl (\<lambda>st s. pollTimer s st) st [s, s, s]) = kMlxHealthWatchdog)"
proof -
  let ?s = "\<lparr>smpCounter = 7, smpSynd = 0, smpExt = 0, smpSeverity = 0\<rparr>"
  obtain st where st: "start True True True 7 1000 healthInit = (True, st)"
    by (simp add: start_def healthInit_def Let_def)
  show ?thesis
    using watchdog_exact [OF st, of "[?s, ?s]"] watchdog_exact [OF st, of "[?s, ?s, ?s]"] st
    by (simp add: Let_def benign_def)
qed

end
