(* ===== verification/MlxTables.thy ===== *)
theory MlxTables
  imports MlxPrelude
begin

text \<open>
  The handle tables of the driver: an \<^verbatim>\<open>OSArray\<close> of records, searched from the front for
  the first one with a given handle. The locale \<open>handle_table\<close> is what their users rely on,
  stated over the partial map a table stands for; each table of the verbs objects interprets
  it in its own theory.
\<close>

section \<open>OSArray operations\<close>

fun removeFirst :: "('a \<Rightarrow> bool) \<Rightarrow> 'a list \<Rightarrow> 'a list" where
  "removeFirst P [] = []"
| "removeFirst P (x # xs) = (if P x then xs else x # removeFirst P xs)"

definition tblLookup :: "('c \<Rightarrow> 'k) \<Rightarrow> 'k \<Rightarrow> 'c list \<Rightarrow> 'c option" where
  "tblLookup key h t = find (\<lambda>c. key c = h) t"

definition tblInsert :: "'c \<Rightarrow> 'c list \<Rightarrow> 'c list" where
  "tblInsert c t = t @ [c]"

definition tblRemove :: "('c \<Rightarrow> 'k) \<Rightarrow> 'k \<Rightarrow> 'c list \<Rightarrow> 'c list" where
  "tblRemove key h t = removeFirst (\<lambda>c. key c = h) t"

fun tblUpdate :: "('c \<Rightarrow> 'k) \<Rightarrow> 'k \<Rightarrow> ('c \<Rightarrow> 'c) \<Rightarrow> 'c list \<Rightarrow> 'c list" where
  "tblUpdate key h f [] = []"
| "tblUpdate key h f (c # cs) = (if key c = h then f c # cs else c # tblUpdate key h f cs)"

section \<open>Lemmas\<close>

lemma set_removeFirst_key:
  "distinct (map f xs) \<Longrightarrow> x \<in> set xs \<Longrightarrow>
   f ` set (removeFirst (\<lambda>a. f a = f x) xs) = f ` set xs - {f x} \<and>
   set (removeFirst (\<lambda>a. f a = f x) xs) = set xs - {x}"
proof (induction xs)
  case Nil
  then show ?case by simp
next
  case (Cons a xs)
  show ?case
  proof (cases "f a = f x")
    case True
    with Cons.prems have "x = a" by auto
    then show ?thesis using Cons.prems by auto
  next
    case False
    with Cons show ?thesis by auto
  qed
qed

lemma distinct_map_removeFirst:
  "distinct (map g xs) \<Longrightarrow> distinct (map g (removeFirst P xs))"
proof (induction xs)
  case (Cons a xs)
  have "set (removeFirst P xs) \<subseteq> set xs" by (induction xs) auto
  with Cons show ?case by auto
qed simp

lemma set_removeFirst: "set (removeFirst P xs) \<subseteq> set xs"
  by (induction xs) auto

lemma length_removeFirst: "find P xs \<noteq> None \<Longrightarrow> length xs = Suc (length (removeFirst P xs))"
  by (induction xs) (auto split: if_splits)

lemma tblLookup_Some: "tblLookup key h t = Some c \<Longrightarrow> key c = h \<and> c \<in> set t"
  by (auto simp: tblLookup_def find_Some_iff)

lemma tblLookup_None: "tblLookup key h t = None \<longleftrightarrow> h \<notin> key ` set t"
  by (auto simp: tblLookup_def find_None_iff)

lemma tblLookup_append:
  "tblLookup key h (t @ u) = (case tblLookup key h t of None \<Rightarrow> tblLookup key h u | Some c \<Rightarrow> Some c)"
  by (induction t) (simp_all add: tblLookup_def)

lemma tblLookup_insert:
  "tblLookup key (key c) t = None \<Longrightarrow>
   tblLookup key h (tblInsert c t) = (if h = key c then Some c else tblLookup key h t)"
  by (auto simp: tblInsert_def tblLookup_append) (auto simp: tblLookup_def split: option.splits)

lemma tblLookup_remove:
  "distinct (map key t) \<Longrightarrow>
   tblLookup key k (tblRemove key h t) = (if k = h then None else tblLookup key k t)"
proof (induction t)
  case (Cons c t)
  then have "key c = h \<Longrightarrow> tblLookup key h t = None" by (auto simp: tblLookup_None)
  with Cons show ?case by (auto simp: tblLookup_def tblRemove_def)
qed (simp add: tblLookup_def tblRemove_def)

lemma tblLookup_update:
  "(\<And>c. key (f c) = key c) \<Longrightarrow>
   tblLookup key k (tblUpdate key h f t) = (if k = h then map_option f (tblLookup key k t) else tblLookup key k t)"
  by (induction t) (auto simp: tblLookup_def)

lemma keys_tblUpdate: "(\<And>c. key (f c) = key c) \<Longrightarrow> map key (tblUpdate key h f t) = map key t"
  by (induction t) auto

lemma tblLookup_store:
  "key c = h \<Longrightarrow> tblLookup key k (tblUpdate key h (\<lambda>_. c) t) =
     (if k = h \<and> tblLookup key h t \<noteq> None then Some c else tblLookup key k t)"
  by (induction t) (auto simp: tblLookup_def)

lemma keys_store: "key c = h \<Longrightarrow> map key (tblUpdate key h (\<lambda>_. c) t) = map key t"
  by (induction t) auto

lemma tblRemove_fresh: "tblLookup key (key c) t = None \<Longrightarrow> tblRemove key (key c) (t @ [c]) = t"
  by (induction t) (auto simp: tblLookup_def tblRemove_def)

section \<open>The contract\<close>

locale handle_table =
  fixes lookup :: "'k \<Rightarrow> 't \<Rightarrow> 'c option"
    and insert :: "'c \<Rightarrow> 't \<Rightarrow> 't"
    and remove :: "'k \<Rightarrow> 't \<Rightarrow> 't"
    and key :: "'c \<Rightarrow> 'k"
    and unique :: "'t \<Rightarrow> bool"
  assumes lookup_key: "lookup h t = Some c \<Longrightarrow> key c = h"
    and unique_insert: "unique t \<Longrightarrow> lookup (key c) t = None \<Longrightarrow> unique (insert c t)"
    and lookup_insert: "lookup (key c) t = None \<Longrightarrow>
      lookup h (insert c t) = (if h = key c then Some c else lookup h t)"
    and unique_remove: "unique t \<Longrightarrow> unique (remove h t)"
    and lookup_remove: "unique t \<Longrightarrow> lookup k (remove h t) = (if k = h then None else lookup k t)"
begin

lemma lookup_inserted: "lookup (key c) t = None \<Longrightarrow> lookup (key c) (insert c t) = Some c"
  by (simp add: lookup_insert)

lemma remove_inserted:
  "unique t \<Longrightarrow> lookup (key c) t = None \<Longrightarrow> lookup h (remove (key c) (insert c t)) = lookup h t"
  by (simp add: unique_insert lookup_insert lookup_remove)

lemma remove_others: "unique t \<Longrightarrow> k \<noteq> h \<Longrightarrow> lookup k (remove h t) = lookup k t"
  by (simp add: lookup_remove)

end

abbreviation uniqueKeys :: "('c \<Rightarrow> 'k) \<Rightarrow> 'c list \<Rightarrow> bool" where
  "uniqueKeys key t \<equiv> distinct (map key t)"

lemma table_laws:
  "handle_table (tblLookup key) tblInsert (tblRemove key) key (uniqueKeys key)"
proof
  show "tblLookup key h t = Some c \<Longrightarrow> key c = h" for h t c by (auto dest: tblLookup_Some)
  show "uniqueKeys key t \<Longrightarrow> tblLookup key (key c) t = None \<Longrightarrow> uniqueKeys key (tblInsert c t)" for t c
    by (auto simp: tblLookup_None tblInsert_def)
  show "uniqueKeys key t \<Longrightarrow> uniqueKeys key (tblRemove key h t)" for t h
    by (simp add: tblRemove_def distinct_map_removeFirst)
qed (simp_all add: tblLookup_insert tblLookup_remove)

end
