(* ===== verification/MlxDMA.thy ===== *)
theory MlxDMA
  imports MlxTables
begin

text \<open>
  \<^verbatim>\<open>Sources/core/MlxDMA.{hpp,cpp}\<close>: pinning user memory and looking up device addresses. The
  segments \<^verbatim>\<open>gen64IOVMSegments\<close> hands out are an oracle from the requested offset to a result
  and at most eight segments. Memory descriptors and DMA commands are numbered objects, and
  the state keeps the ones that are alive, so that a leak is visible.
\<close>

section \<open>Data\<close>

definition MLX_DMA_MAX_SEGS :: nat where "MLX_DMA_MAX_SEGS = 64"

record MlxDMAReq =
  ownerTask :: nat
  virtAddr :: u64
  reqLength :: u64
  segList :: "(u64 \<times> u64) list"     \<comment> \<open>\<open>paList\<close> zipped with \<open>paLenList\<close>\<close>
  memDesc :: "nat option"
  dmaCommand :: "nat option"

record MlxDMA =
  fPendingReqs :: "MlxDMAReq list"
  dmaNext :: nat
  liveMem :: "nat list"
  liveCmd :: "nat list"

type_synonym segOracle = "u64 \<Rightarrow> ioreturn \<times> (u64 \<times> u64) list"

record pinEnv =
  peTask :: nat
  peMem :: bool
  peCmd :: bool
  peSet :: ioreturn
  peGen :: segOracle
  peRecord :: bool
  peAdded :: bool

section \<open>Pinning\<close>

text \<open>
  The segment loop. A round with a result adds at least one segment, and the loop stops at 64,
  so it ends even when the segments are empty.
\<close>

function pinLoop :: "segOracle \<Rightarrow> u64 \<Rightarrow> u64 \<Rightarrow> (u64 \<times> u64) list \<Rightarrow> u64 \<times> (u64 \<times> u64) list" where
  "pinLoop gen len offset acc =
     (if offset < len \<and> length acc < MLX_DMA_MAX_SEGS
      then (case gen offset of
              (kr, segs) \<Rightarrow>
                let new = take (MLX_DMA_MAX_SEGS - length acc) (take 8 segs)
                in if kr \<noteq> kIOReturnSuccess \<or> segs = [] then (offset, acc)
                   else pinLoop gen len (offset + sum_list (map snd new)) (acc @ new))
      else (offset, acc))"
  by pat_completeness auto
termination
  by (relation "measure (\<lambda>(gen, len, offset, acc). MLX_DMA_MAX_SEGS - length acc)")
    (auto simp: neq_Nil_conv)

declare pinLoop.simps [simp del]

definition pinUserMemory ::
  "pinEnv \<Rightarrow> u64 \<Rightarrow> u64 \<Rightarrow> MlxDMA \<Rightarrow> ioreturn \<times> MlxDMAReq option \<times> MlxDMA" where
  "pinUserMemory env va len st =
     (if len = 0 then (kIOReturnBadArgument, None, st)
      else
        (let req = \<lparr>ownerTask = peTask env, virtAddr = va, reqLength = len, segList = [],
                    memDesc = None, dmaCommand = None\<rparr>
         in if \<not> peMem env then (kIOReturnNoMemory, Some req, st)
            else
              (let mem = dmaNext st;
                   st = st\<lparr>dmaNext := dmaNext st + 1, liveMem := mem # liveMem st\<rparr>;
                   relMem = (\<lambda>st. st\<lparr>liveMem := removeAll mem (liveMem st)\<rparr>)
               in if \<not> peCmd env then (kIOReturnNoMemory, Some req, relMem st)
                  else
                    (let cmd = dmaNext st;
                         st = st\<lparr>dmaNext := dmaNext st + 1, liveCmd := cmd # liveCmd st\<rparr>;
                         relBoth = (\<lambda>st. relMem (st\<lparr>liveCmd := removeAll cmd (liveCmd st)\<rparr>))
                     in if peSet env \<noteq> kIOReturnSuccess then (peSet env, Some req, relBoth st)
                        else
                          (let (offset, segs) = pinLoop (peGen env) len 0 []
                           in if segs = [] \<or> offset \<noteq> len
                              then ((if length segs = MLX_DMA_MAX_SEGS then kIOReturnNoSpace
                                     else kIOReturnIOError), Some req, relBoth st)
                              else
                                (let req' = req\<lparr>segList := segs, memDesc := Some mem,
                                                dmaCommand := Some cmd\<rparr>;
                                     req0 = req\<lparr>segList := segs\<rparr>
                                 in if \<not> peRecord env then (kIOReturnNoMemory, Some req0, relBoth st)
                                    else if \<not> peAdded env
                                    then (kIOReturnNoMemory, Some req0, relBoth st)
                                    else (kIOReturnSuccess, Some req',
                                          st\<lparr>fPendingReqs := fPendingReqs st @ [req']\<rparr>)))))))"

definition unpinMemory :: "MlxDMAReq option \<Rightarrow> MlxDMA \<Rightarrow> MlxDMA" where
  "unpinMemory req st =
     (case req of
        None \<Rightarrow> st
      | Some r \<Rightarrow>
          (let st = st\<lparr>fPendingReqs := removeFirst (\<lambda>a. memDesc a = memDesc r) (fPendingReqs st)\<rparr>;
               st = (case dmaCommand r of None \<Rightarrow> st
                     | Some c \<Rightarrow> st\<lparr>liveCmd := removeAll c (liveCmd st)\<rparr>)
           in case memDesc r of None \<Rightarrow> st
              | Some m \<Rightarrow> st\<lparr>liveMem := removeAll m (liveMem st)\<rparr>))"

section \<open>Lookup\<close>

fun segLookup :: "(u64 \<times> u64) list \<Rightarrow> u64 \<Rightarrow> u64 \<Rightarrow> u64" where
  "segLookup [] acc offset = 0"
| "segLookup ((pa, segLen) # segs) acc offset =
     (if offset < acc + segLen then pa + (offset - acc) else segLookup segs (acc + segLen) offset)"

fun lookupReqs :: "MlxDMAReq list \<Rightarrow> nat \<Rightarrow> u64 \<Rightarrow> u64" where
  "lookupReqs [] task va = 0"
| "lookupReqs (req # reqs) task va =
     (if ownerTask req \<noteq> task \<or> va < virtAddr req then lookupReqs reqs task va
      else
        (let offset = va - virtAddr req
         in if reqLength req \<le> offset then lookupReqs reqs task va
            else segLookup (segList req) 0 offset))"

definition lookupPhys :: "nat \<Rightarrow> u64 \<Rightarrow> MlxDMA \<Rightarrow> u64" where
  "lookupPhys task va st = lookupReqs (fPendingReqs st) task va"

text \<open>The destructor releases every record's command and descriptor.\<close>

fun dmaFree :: "MlxDMA \<Rightarrow> MlxDMA" where
  "dmaFree st =
     st\<lparr>fPendingReqs := [],
        liveCmd := filter (\<lambda>c. \<forall>r\<in>set (fPendingReqs st). dmaCommand r \<noteq> Some c) (liveCmd st),
        liveMem := filter (\<lambda>m. \<forall>r\<in>set (fPendingReqs st). memDesc r \<noteq> Some m) (liveMem st)\<rparr>"

section \<open>What pinning guarantees\<close>

text \<open>The device address of byte \<open>o\<close> of a segment list.\<close>

fun segByte :: "(u64 \<times> u64) list \<Rightarrow> nat \<Rightarrow> u64" where
  "segByte [] off = 0"
| "segByte ((pa, l) # ss) off = (if off < unat l then pa + of_nat off else segByte ss (off - unat l))"

definition segTotal :: "(u64 \<times> u64) list \<Rightarrow> nat" where
  "segTotal ss = sum_list (map (unat \<circ> snd) ss)"

lemma segLookup_segByte:
  "unat acc + segTotal ss < 2 ^ 64 \<Longrightarrow> unat acc \<le> off \<Longrightarrow> off < unat acc + segTotal ss \<Longrightarrow>
   segLookup ss acc (of_nat off) = segByte ss (off - unat acc)"
proof (induction ss arbitrary: acc)
  case Nil
  then show ?case by (simp add: segTotal_def)
next
  case (Cons s ss)
  obtain pa l where s: "s = (pa, l)" by fastforce
  have tot: "segTotal (s # ss) = unat l + segTotal ss" by (simp add: segTotal_def s)
  have uo: "unat (of_nat off :: u64) = off" using Cons.prems by (intro unat_of_nat_small) simp
  have ua: "unat (acc + l) = unat acc + unat l" using Cons.prems tot by (subst unat_plus_if') simp
  have lt: "(of_nat off < acc + l) = (off < unat acc + unat l)" by (simp add: word_less_nat_alt uo ua)
  show ?case
  proof (cases "off < unat acc + unat l")
    case True
    have "(of_nat off :: u64) - acc = of_nat (off - unat acc)"
      using Cons.prems(2) by (simp add: of_nat_diff)
    with True lt Cons.prems(2) show ?thesis by (simp add: s) linarith
  next
    case False
    have "segLookup ss (acc + l) (of_nat off) = segByte ss (off - unat (acc + l))"
      using False Cons.prems tot ua by (intro Cons.IH) simp_all
    moreover have "\<not> off - unat acc < unat l" "off - unat acc - unat l = off - (unat acc + unat l)"
      using False Cons.prems(2) by simp_all
    ultimately show ?thesis using False lt ua by (simp add: s)
  qed
qed

lemma pinLoop_sum:
  "pinLoop gen len offset acc = (o', segs) \<Longrightarrow> length acc \<le> MLX_DMA_MAX_SEGS \<Longrightarrow>
   offset = sum_list (map snd acc) \<Longrightarrow>
   o' = sum_list (map snd segs) \<and> length segs \<le> MLX_DMA_MAX_SEGS"
proof (induction gen len offset acc arbitrary: o' segs rule: pinLoop.induct)
  case (1 gen len offset acc)
  show ?case
  proof (cases "offset < len \<and> length acc < MLX_DMA_MAX_SEGS \<and> fst (gen offset) = kIOReturnSuccess \<and> snd (gen offset) \<noteq> []")
    case True
    let ?new = "take (MLX_DMA_MAX_SEGS - length acc) (take 8 (snd (gen offset)))"
    have "pinLoop gen len (offset + sum_list (map snd ?new)) (acc @ ?new) = (o', segs)"
      using "1.prems"(1) True by (subst (asm) pinLoop.simps) (auto simp: Let_def split: prod.splits)
    from "1.IH" [OF _ _ refl _ this] True "1.prems"(2,3) show ?thesis
      by (auto simp: prod_eq_iff)
  next
    case False
    then have "(o', segs) = (offset, acc)"
      using "1.prems"(1) by (subst (asm) pinLoop.simps) (auto simp: Let_def split: if_splits prod.splits)
    then show ?thesis using "1.prems" by simp
  qed
qed

lemma unat_sum_list: "segTotal ss < 2 ^ 64 \<Longrightarrow> unat (sum_list (map snd ss)) = segTotal ss"
proof (induction ss)
  case Nil
  then show ?case by (simp add: segTotal_def)
next
  case (Cons s ss)
  then have "unat (sum_list (map snd ss)) = segTotal ss" "segTotal (s # ss) = unat (snd s) + segTotal ss"
    by (auto simp: segTotal_def)
  with Cons.prems show ?case by (simp add: unat_plus_if')
qed

definition covers :: "nat \<Rightarrow> u64 \<Rightarrow> MlxDMAReq \<Rightarrow> bool" where
  "covers task va r \<longleftrightarrow> ownerTask r = task \<and> virtAddr r \<le> va \<and> va - virtAddr r < reqLength r"

lemma lookupReqs_find:
  "lookupReqs rs task va =
     (case find (covers task va) rs of
        None \<Rightarrow> 0 | Some r \<Rightarrow> segLookup (segList r) 0 (va - virtAddr r))"
  by (induction rs) (auto simp: covers_def Let_def not_le not_less)

lemma find_append_None: "find P xs = None \<Longrightarrow> find P (xs @ [x]) = (if P x then Some x else None)"
  by (induction xs) (auto split: if_splits)

lemma pin_success:
  assumes "pinUserMemory env va len st = (kIOReturnSuccess, Some req, st')"
  shows "pinLoop (peGen env) len 0 [] = (len, segList req) \<and> segList req \<noteq> [] \<and>
    ownerTask req = peTask env \<and> virtAddr req = va \<and> reqLength req = len \<and>
    memDesc req = Some (dmaNext st) \<and> dmaCommand req = Some (dmaNext st + 1) \<and>
    st' = st\<lparr>fPendingReqs := fPendingReqs st @ [req], dmaNext := dmaNext st + 2,
       liveMem := dmaNext st # liveMem st, liveCmd := (dmaNext st + 1) # liveCmd st\<rparr>"
  using assms
  by (auto simp: pinUserMemory_def Let_def split: if_splits prod.splits)

text \<open>after a successful pin of a non-wrapping range, whose segments' lengths do not overflow
  64 bits together, the record holds 1 to 64 segments of exactly the requested total length,
  and looking up any byte of the range, unless an older record of the same task covers it,
  yields the device address of that byte within the segments.\<close>

theorem pin_lookup_translates:
  assumes "pinUserMemory env va len st = (kIOReturnSuccess, Some req, st')"
    and "segTotal (segList req) < 2 ^ 64" and "unat va + unat len \<le> 2 ^ 64"
    and "\<forall>r\<in>set (fPendingReqs st). \<not> covers (peTask env) (va + of_nat off) r"
    and "off < unat len"
  shows "segTotal (segList req) = unat len \<and> 0 < length (segList req) \<and>
    length (segList req) \<le> MLX_DMA_MAX_SEGS \<and>
    lookupPhys (peTask env) (va + of_nat off) st' = segByte (segList req) off"
proof -
  note p = pin_success [OF assms(1)]
  from pinLoop_sum [of "peGen env" len 0 "[]" len "segList req"] p
  have sum: "len = sum_list (map snd (segList req))" "length (segList req) \<le> MLX_DMA_MAX_SEGS"
    by auto
  have tot: "segTotal (segList req) = unat len" using unat_sum_list [OF assms(2)] sum(1) by simp
  have uo: "unat (of_nat off :: u64) = off"
    using assms(5) unsigned_less [of len, where 'a = nat] by (intro unat_of_nat_small) simp
  have uva: "unat (va + of_nat off) = unat va + off"
    using assms(3,5) uo by (subst unat_plus_if') simp
  have cov: "covers (peTask env) (va + of_nat off) req"
    using p assms(5) uo uva by (simp add: covers_def word_le_nat_alt word_less_nat_alt)
  have "find (covers (peTask env) (va + of_nat off)) (fPendingReqs st) = None"
    using assms(4) by (simp add: find_None_iff)
  from find_append_None [OF this, of req] cov p
  have "lookupPhys (peTask env) (va + of_nat off) st' = segLookup (segList req) 0 (of_nat off)"
    by (simp add: lookupPhys_def lookupReqs_find)
  also have "\<dots> = segByte (segList req) (off - unat (0 :: u64))"
    using assms(2,5) tot by (intro segLookup_segByte) simp_all
  finally show ?thesis using tot sum(2) p by simp
qed

definition samplePin :: pinEnv where
  "samplePin = \<lparr>peTask = 7, peMem = True, peCmd = True, peSet = kIOReturnSuccess,
     peGen = (\<lambda>off. if off = 0 then (kIOReturnSuccess, [(0x10000, 0x1000), (0x30000, 0x1000)])
       else (kIOReturnSuccess, [(0x50000, 0x800)])), peRecord = True, peAdded = True\<rparr>"

definition dmaEmpty :: MlxDMA where
  "dmaEmpty = \<lparr>fPendingReqs = [], dmaNext = 0, liveMem = [], liveCmd = []\<rparr>"

theorem pin_lookup_translates_witness:
  "\<exists>req st'. pinUserMemory samplePin 0x7000 0x2800 dmaEmpty = (kIOReturnSuccess, Some req, st') \<and>
    lookupPhys 7 0x8010 st' = 0x30010 \<and> lookupPhys 7 0x9010 st' = 0x50010"
proof -
  have seg: "pinLoop (peGen samplePin) 0x2800 0 [] =
      (0x2800, [(0x10000, 0x1000), (0x30000, 0x1000), (0x50000, 0x800)])"
    by (subst pinLoop.simps, subst pinLoop.simps, subst pinLoop.simps)
      (simp add: samplePin_def MLX_DMA_MAX_SEGS_def)
  have "fst (pinUserMemory samplePin 0x7000 0x2800 dmaEmpty) = kIOReturnSuccess \<and>
      fst (snd (pinUserMemory samplePin 0x7000 0x2800 dmaEmpty)) \<noteq> None"
    using seg by (simp add: pinUserMemory_def Let_def) (simp add: samplePin_def)
  then obtain req st' where pin: "pinUserMemory samplePin 0x7000 0x2800 dmaEmpty = (kIOReturnSuccess, Some req, st')"
    by (metis option.exhaust prod.collapse)
  from pin_success [OF pin] seg have sl: "segList req = [(0x10000, 0x1000), (0x30000, 0x1000), (0x50000, 0x800)]"
    by simp
  from pin_lookup_translates [OF pin, of "0x1010"] pin_lookup_translates [OF pin, of "0x2010"] pin
  show ?thesis by (simp add: sl segTotal_def dmaEmpty_def samplePin_def)
qed

section \<open>Object lifetimes\<close>

definition dmaInv :: "MlxDMA \<Rightarrow> bool" where
  "dmaInv st \<longleftrightarrow>
     (\<forall>r\<in>set (fPendingReqs st). \<exists>m c. memDesc r = Some m \<and> dmaCommand r = Some c \<and>
        m < dmaNext st \<and> c < dmaNext st) \<and>
     distinct (map memDesc (fPendingReqs st)) \<and> distinct (map dmaCommand (fPendingReqs st)) \<and>
     Some ` set (liveMem st) = memDesc ` set (fPendingReqs st) \<and>
     Some ` set (liveCmd st) = dmaCommand ` set (fPendingReqs st)"

lemma removeAll_fresh: "x \<notin> set xs \<Longrightarrow> removeAll x (x # xs) = xs"
  by (simp add: removeAll_id)

lemma dmaInv_fresh:
  assumes "dmaInv st"
  shows "m \<in> set (liveMem st) \<Longrightarrow> m < dmaNext st" and "c \<in> set (liveCmd st) \<Longrightarrow> c < dmaNext st"
proof -
  assume "m \<in> set (liveMem st)"
  then have "Some m \<in> memDesc ` set (fPendingReqs st)" using assms by (auto simp: dmaInv_def)
  then show "m < dmaNext st" using assms by (fastforce simp: dmaInv_def)
next
  assume "c \<in> set (liveCmd st)"
  then have "Some c \<in> dmaCommand ` set (fPendingReqs st)" using assms by (auto simp: dmaInv_def)
  then show "c < dmaNext st" using assms by (fastforce simp: dmaInv_def)
qed

lemma pin_failure:
  assumes "pinUserMemory env va len st = (kr, r, st')" and "kr \<noteq> kIOReturnSuccess" and "dmaInv st"
  shows "fPendingReqs st' = fPendingReqs st \<and> liveMem st' = liveMem st \<and> liveCmd st' = liveCmd st \<and>
    dmaNext st \<le> dmaNext st'"
proof -
  have "dmaNext st \<notin> set (liveMem st)" "Suc (dmaNext st) \<notin> set (liveCmd st)"
    using dmaInv_fresh [OF assms(3)] by fastforce+
  with assms(1,2) show ?thesis
    by (auto simp: pinUserMemory_def Let_def removeAll_id split: if_splits prod.splits)
qed

lemma dma_tracked:
  assumes "dmaInv st"
  shows "(case pinUserMemory env va len st of (kr, r, st') \<Rightarrow> dmaInv st' \<and>
      (if kr = kIOReturnSuccess then \<exists>req. r = Some req \<and> fPendingReqs st' = fPendingReqs st @ [req]
       else fPendingReqs st' = fPendingReqs st \<and> liveMem st' = liveMem st \<and> liveCmd st' = liveCmd st)) \<and>
    (req \<in> set (fPendingReqs st) \<longrightarrow>
      dmaInv (unpinMemory (Some req) st) \<and>
      set (fPendingReqs (unpinMemory (Some req) st)) = set (fPendingReqs st) - {req})"
proof
  obtain kr r st' where pin: "pinUserMemory env va len st = (kr, r, st')" by (metis prod_cases3)
  show "case pinUserMemory env va len st of (kr, r, st') \<Rightarrow> dmaInv st' \<and>
      (if kr = kIOReturnSuccess then \<exists>req. r = Some req \<and> fPendingReqs st' = fPendingReqs st @ [req]
       else fPendingReqs st' = fPendingReqs st \<and> liveMem st' = liveMem st \<and> liveCmd st' = liveCmd st)"
  proof (cases "kr = kIOReturnSuccess")
    case True
    then have "r \<noteq> None" using pin by (auto simp: pinUserMemory_def Let_def split: if_splits prod.splits)
    then obtain rq where rq: "r = Some rq" by blast
    note p = pin_success [OF pin [unfolded True rq]]
    then have st': "fPendingReqs st' = fPendingReqs st @ [rq]" "dmaNext st' = dmaNext st + 2"
      "liveMem st' = dmaNext st # liveMem st" "liveCmd st' = (dmaNext st + 1) # liveCmd st"
      "memDesc rq = Some (dmaNext st)" "dmaCommand rq = Some (dmaNext st + 1)" by auto
    have "memDesc r \<noteq> Some (dmaNext st) \<and> dmaCommand r \<noteq> Some (dmaNext st + 1)"
      if "r \<in> set (fPendingReqs st)" for r
      using assms that by (fastforce simp: dmaInv_def)
    then have "Some (dmaNext st) \<notin> memDesc ` set (fPendingReqs st)"
      "Some (dmaNext st + 1) \<notin> dmaCommand ` set (fPendingReqs st)" by (auto, metis+)
    with assms st' have "dmaInv st'"
      by (auto simp: dmaInv_def less_SucI)
    with pin True rq st' show ?thesis by simp
  next
    case False
    from pin_failure [OF pin False assms] assms have "dmaInv st'"
      by (fastforce simp: dmaInv_def)
    with pin_failure [OF pin False assms] pin False show ?thesis by simp
  qed
next
  show "req \<in> set (fPendingReqs st) \<longrightarrow>
      dmaInv (unpinMemory (Some req) st) \<and>
      set (fPendingReqs (unpinMemory (Some req) st)) = set (fPendingReqs st) - {req}"
  proof
    assume r: "req \<in> set (fPendingReqs st)"
    with assms obtain m c where mc: "memDesc req = Some m" "dmaCommand req = Some c"
      by (auto simp: dmaInv_def)
    let ?l = "removeFirst (\<lambda>a. memDesc a = memDesc req) (fPendingReqs st)"
    have un: "unpinMemory (Some req) st = st\<lparr>fPendingReqs := ?l,
        liveCmd := removeAll c (liveCmd st), liveMem := removeAll m (liveMem st)\<rparr>"
      by (simp add: unpinMemory_def Let_def mc)
    have dm: "distinct (map memDesc (fPendingReqs st))" "distinct (map dmaCommand (fPendingReqs st))"
      using assms by (auto simp: dmaInv_def)
    note sr = set_removeFirst_key [OF dm(1) r]
    have "dmaCommand ` (set (fPendingReqs st) - {req}) = dmaCommand ` set (fPendingReqs st) - {Some c}"
      using dm(2) r mc by (auto simp: distinct_map inj_on_def)
    moreover have "memDesc ` (set (fPendingReqs st) - {req}) = memDesc ` set (fPendingReqs st) - {Some m}"
      using dm(1) r mc by (auto simp: distinct_map inj_on_def)
    moreover have "Some ` (set xs - {x}) = Some ` set xs - {Some x}" for xs and x :: nat by auto
    ultimately have "dmaInv (unpinMemory (Some req) st)"
      using assms sr mc distinct_map_removeFirst [OF dm(1)] distinct_map_removeFirst [OF dm(2)]
      unfolding un dmaInv_def by simp
    then show "dmaInv (unpinMemory (Some req) st) \<and>
      set (fPendingReqs (unpinMemory (Some req) st)) = set (fPendingReqs st) - {req}"
      using sr un by simp
  qed
qed

text \<open>C10: every memory descriptor and DMA mapping that is alive belongs to exactly one active
  record, and this is kept by pinning and unpinning: a failed pin, at whatever step, releases
  all it had acquired, a successful one adds one record, and unpinning an active record
  removes it and releases its two objects and nothing else.\<close>

theorem dma_objects_tracked:
  assumes "dmaInv st"
  shows "(case pinUserMemory env va len st of (kr, r, st') \<Rightarrow> dmaInv st' \<and>
      (if kr = kIOReturnSuccess then \<exists>req. r = Some req \<and> fPendingReqs st' = fPendingReqs st @ [req]
       else fPendingReqs st' = fPendingReqs st \<and> liveMem st' = liveMem st \<and> liveCmd st' = liveCmd st)) \<and>
    (req \<in> set (fPendingReqs st) \<longrightarrow>
      dmaInv (unpinMemory (Some req) st) \<and>
      set (fPendingReqs (unpinMemory (Some req) st)) = set (fPendingReqs st) - {req})"
  by (rule dma_tracked [OF assms])

theorem dma_objects_tracked_witness:
  "dmaInv (snd (snd (pinUserMemory (samplePin\<lparr>peRecord := False\<rparr>) 0x7000 0x2800 dmaEmpty)))"
proof -
  have "dmaInv dmaEmpty" by (simp add: dmaInv_def dmaEmpty_def)
  from dma_objects_tracked [OF this, of "samplePin\<lparr>peRecord := False\<rparr>" "0x7000" "0x2800"]
  show ?thesis by (simp add: case_prod_beta)
qed

end
