(* ===== verification/MlxEQ.thy ===== *)
theory MlxEQ
  imports MlxCmdIfc MlxP1
begin

text \<open>
  \<^verbatim>\<open>Sources/core/MlxEQ.{hpp,cpp}\<close>: event queues. An entry (\<open>MlxEqEntry\<close>) is the driver's
  view of one ring; what the handlers read from ring memory is an argument (\<open>ring i slot\<close>: the
  element in \<open>slot\<close> at iteration \<open>i\<close>), because the device writes it. Deliveries to notifiers,
  doorbell writes and quarantine requests are an effect log. Notifiers are numbered; \<open>alive\<close>
  says for which \<^verbatim>\<open>notifierObject()\<close> is non-NULL.
\<close>

unbundle bit_operations_syntax

section \<open>Data\<close>

definition MLX_NUM_ASYNC_EQS :: nat where "MLX_NUM_ASYNC_EQS = 3"
definition MLX_MAX_EVENT_NOTIFIERS :: nat where "MLX_MAX_EVENT_NOTIFIERS = 4"
definition MLX_MAX_EQ_PAGES :: nat where "MLX_MAX_EQ_PAGES = 32"
definition MLX_EVENT_TYPE_MAX :: nat where "MLX_EVENT_TYPE_MAX = 256"

record MlxEqe =
  eqe_type :: u8
  eqe_subType :: u8
  eqe_data :: "u32 list"
  eqe_owner :: u8

record MlxEqEntry =
  eq_ringBuf :: "u8 list option"     \<comment> \<open>the owner byte of every element, when allocated\<close>
  eq_ringDMA :: u64
  eq_logSize :: nat
  eq_consIndex :: u32
  eq_eqNumber :: u32
  eq_valid :: bool
  eq_doorbellOffset :: nat
  eq_irqVector :: u32
  eq_fDesc :: bool
  eq_fDmaMap :: bool
  eq_pageDMA :: "u64 list"           \<comment> \<open>the first \<open>numPages\<close> entries\<close>

record MlxEQ =
  eqAsync :: "MlxEqEntry list"
  eqComp :: "MlxEqEntry list"
  eqNotifiers :: "nat \<Rightarrow> nat option list"
  eqNotifierCounts :: "nat \<Rightarrow> nat"
  eqNotifierLock :: bool
  eqActiveCallbacks :: nat
  eqShuttingDown :: bool
  eqWorkLoop :: bool
  eqAsyncIS :: bool
  eqCompIS :: "bool list option"
  eqInterruptsSetup :: bool

datatype eqEffect =
    Deliver nat u8 MlxEqe       \<comment> \<open>\<open>nb->handleEvent(type, eqe)\<close>\<close>
  | RingDoorbell nat u32        \<comment> \<open>UAR offset and value\<close>
  | EnterQuarantine u8

section \<open>Ring memory\<close>

definition zeroEntry :: MlxEqEntry where
  "zeroEntry = \<lparr>eq_ringBuf = None, eq_ringDMA = 0, eq_logSize = 0, eq_consIndex = 0,
     eq_eqNumber = 0, eq_valid = False, eq_doorbellOffset = 0, eq_irqVector = 0, eq_fDesc = False,
     eq_fDmaMap = False, eq_pageDMA = []\<rparr>"

definition free_eq_entry :: "MlxEqEntry \<Rightarrow> MlxEqEntry" where
  "free_eq_entry eq = eq\<lparr>eq_fDmaMap := False, eq_fDesc := False, eq_ringBuf := None\<rparr>"

text \<open>The owner bytes after \<^verbatim>\<open>memset\<close> to 0 and \<open>init_eq_buf\<close>.\<close>

definition init_eq_buf :: "MlxEqEntry \<Rightarrow> MlxEqEntry" where
  "init_eq_buf eq = eq\<lparr>eq_ringBuf := Some (replicate (2 ^ eq_logSize eq) 1)\<rparr>"

record eqBufEnv =
  ebDesc :: bool
  ebMap :: bool
  ebSegments :: "nat \<Rightarrow> ioreturn \<times> (u64 \<times> u64) list \<times> u64"  \<comment> \<open>round: result, segments, new offset\<close>

text \<open>The first segments of a round that are aligned pages, as far as there is room.\<close>

fun segPages :: "nat \<Rightarrow> (u64 \<times> u64) list \<Rightarrow> u64 list" where
  "segPages 0 segs = []"
| "segPages (Suc n) [] = []"
| "segPages (Suc n) ((a, l) # segs) =
     (if a AND 0xFFF \<noteq> 0 \<or> 4096 < l then [] else a # segPages n segs)"

text \<open>
  The segment loop. A round that adds no page and does not move the offset would repeat for
  ever in the source; \<open>None\<close> stands for that.
\<close>

partial_function (option) eqSegLoop ::
  "(nat \<Rightarrow> ioreturn \<times> (u64 \<times> u64) list \<times> u64) \<Rightarrow> u64 \<Rightarrow> nat \<Rightarrow> u64 \<Rightarrow> u64 list \<Rightarrow>
   (u64 \<times> u64 list) option" where
  "eqSegLoop gen sizeBytes round offset pages =
     (if offset < sizeBytes \<and> length pages < MLX_MAX_EQ_PAGES
      then (case gen round of
              (kr, segs, offset') \<Rightarrow>
                if kr \<noteq> kIOReturnSuccess \<or> segs = [] then Some (offset', pages)
                else eqSegLoop gen sizeBytes (round + 1) offset'
                       (pages @ segPages (MLX_MAX_EQ_PAGES - length pages) (take 8 segs)))
      else Some (offset, pages))"

declare eqSegLoop.simps [code]

definition eqSizeBytes :: "MlxEqEntry \<Rightarrow> u64" where
  "eqSizeBytes eq = ((2 ^ eq_logSize eq) * 64 + 4095) AND NOT 4095"

definition allocEqBuf :: "eqBufEnv \<Rightarrow> MlxEqEntry \<Rightarrow> (ioreturn \<times> MlxEqEntry) option" where
  "allocEqBuf env eq =
     (if \<not> ebDesc env then Some (kIOReturnNoMemory, eq\<lparr>eq_fDesc := False\<rparr>)
      else
        (let eq = eq\<lparr>eq_fDesc := True, eq_ringBuf := Some (replicate (2 ^ eq_logSize eq) 0)\<rparr>
         in if \<not> ebMap env
            then Some (kIOReturnNoMemory, eq\<lparr>eq_fDmaMap := False, eq_fDesc := False\<rparr>)
            else
              (let eq = eq\<lparr>eq_fDmaMap := True\<rparr>
               in case eqSegLoop (ebSegments env) (eqSizeBytes eq) 0 0 [] of
                    None \<Rightarrow> None
                  | Some (offset, pages) \<Rightarrow>
                      if offset \<noteq> eqSizeBytes eq \<or> pages = []
                      then Some (kIOReturnNoSpace,
                             eq\<lparr>eq_pageDMA := pages, eq_fDmaMap := False, eq_fDesc := False\<rparr>)
                      else Some (kIOReturnSuccess,
                             init_eq_buf (eq\<lparr>eq_pageDMA := pages, eq_ringDMA := pages ! 0\<rparr>)))))"

section \<open>Creation and destruction\<close>

definition eqInput :: "MlxEqEntry \<Rightarrow> u32 \<Rightarrow> u32 \<Rightarrow> u64 list \<Rightarrow> buffer" where
  "eqInput eq vecidx uarPage mask' =
     (let inb = OSWriteBigInt16 (replicate 4096 0) 0 (ucast MLX_CMD_OP_CREATE_EQ);
          inb = setFields inb
            [(0x80 + 0x63, 5, of_nat (eq_logSize eq)), (0x80 + 0x68, 24, ucast uarPage),
             (0x80 + 0xb4, 12, ucast vecidx), (0x80 + 0xc3, 5, 0)];
          inb = foldl (\<lambda>b i. OSWriteBigInt64 b (0x2c0 div 8 + i * 8) (mask' ! i)) inb [0..<4]
      in foldl (\<lambda>b i. OSWriteBigInt64 b (0x880 div 8 + i * 8) (eq_pageDMA eq ! i)) inb
           [0..<length (eq_pageDMA eq)])"

definition createEq ::
  "'w execFn \<Rightarrow> eqBufEnv \<Rightarrow> u32 \<Rightarrow> MlxEqEntry \<Rightarrow> u32 \<Rightarrow> u64 list \<Rightarrow> 'w \<Rightarrow>
   (ioreturn \<times> MlxEqEntry \<times> 'w) option" where
  "createEq xc env uarPage eq vecidx mask' w =
     (case allocEqBuf env eq of
        None \<Rightarrow> None
      | Some (kr, eq) \<Rightarrow>
          if kr \<noteq> kIOReturnSuccess then Some (kr, eq, w)
          else
            (let inSize = 0x880 div 8 + length (eq_pageDMA eq) * 8;
                 (kr, out, w) = xc w MLX_CMD_OP_CREATE_EQ (take inSize (eqInput eq vecidx uarPage mask')) 64 5000
             in if kr \<noteq> kIOReturnSuccess
                then Some (kr, (if kr \<noteq> kIOReturnTimeout then free_eq_entry eq else eq), w)
                else Some (kIOReturnSuccess,
                  eq\<lparr>eq_eqNumber := ucast (mlxGetBits out 0x58 8), eq_valid := True,
                     eq_irqVector := vecidx, eq_doorbellOffset := MLX_EQ_DOORBELL,
                     eq_consIndex := 0\<rparr>, w)))"

definition destroyEq :: "'w execFn \<Rightarrow> u32 \<Rightarrow> 'w \<Rightarrow> ioreturn \<times> 'w" where
  "destroyEq xc eqNumber w =
     (let inb = mlxSetBits (OSWriteBigInt16 (replicate 16 0) 0 (ucast MLX_CMD_OP_DESTROY_EQ))
                  0x58 8 (ucast eqNumber);
          (kr, out, w) = xc w MLX_CMD_OP_DESTROY_EQ inb 16 5000
      in (kr, w))"

definition eventMaskOf :: "u8 list \<Rightarrow> u64 list" where
  "eventMaskOf types =
     foldl (\<lambda>m t. case mlxP1SetEvent (Some m) (ucast t) of Some m' \<Rightarrow> m' | None \<Rightarrow> m) [0, 0, 0, 0] types"

definition MLX_EVENT_TYPE_PATH_MIG :: u8 where "MLX_EVENT_TYPE_PATH_MIG = 0x01"
definition MLX_EVENT_TYPE_COMM_EST :: u8 where "MLX_EVENT_TYPE_COMM_EST = 0x02"
definition MLX_EVENT_TYPE_WQ_CATAS_ERROR :: u8 where "MLX_EVENT_TYPE_WQ_CATAS_ERROR = 0x05"

definition asyncEventTypes :: "u8 list" where
  "asyncEventTypes = [MLX_EVENT_TYPE_WQ_CATAS_ERROR, MLX_EVENT_TYPE_PATH_MIG,
     MLX_EVENT_TYPE_COMM_EST, MLX_EVENT_TYPE_DEVICE_FATAL, MLX_EVENT_TYPE_PORT_STATE_CHANGE,
     MLX_EVENT_TYPE_NIC_VPORT_CHANGE]"

text \<open>Create the entries of a plan (index, log size, vector, mask) in order, up to the first error.\<close>

fun createEqs ::
  "'w execFn \<Rightarrow> (nat \<Rightarrow> eqBufEnv) \<Rightarrow> u32 \<Rightarrow> (nat \<times> nat \<times> u32 \<times> u64 list) list \<Rightarrow>
   MlxEqEntry list \<Rightarrow> 'w \<Rightarrow> (ioreturn \<times> MlxEqEntry list \<times> 'w) option" where
  "createEqs xc envs uarPage [] eqs w = Some (kIOReturnSuccess, eqs, w)"
| "createEqs xc envs uarPage ((i, lg, vec, mask') # plan) eqs w =
     (case createEq xc (envs i) uarPage ((eqs ! i)\<lparr>eq_logSize := lg\<rparr>) vec mask' w of
        None \<Rightarrow> None
      | Some (kr, eq, w) \<Rightarrow>
          if kr \<noteq> kIOReturnSuccess then Some (kr, eqs[i := eq], w)
          else createEqs xc envs uarPage plan (eqs[i := eq]) w)"

definition asyncPlan :: "(nat \<times> nat \<times> u32 \<times> u64 list) list" where
  "asyncPlan = [(0, 8, 0, eventMaskOf [MLX_EVENT_TYPE_CMD]), (1, 8, 0, eventMaskOf asyncEventTypes),
     (2, 7, 0, eventMaskOf [MLX_EVENT_TYPE_PAGE_REQUEST])]"

definition createAsyncEqs ::
  "'w execFn \<Rightarrow> (nat \<Rightarrow> eqBufEnv) \<Rightarrow> u32 \<Rightarrow> MlxEQ \<Rightarrow> 'w \<Rightarrow> (ioreturn \<times> MlxEQ \<times> 'w) option" where
  "createAsyncEqs xc envs uarPage st w =
     map_option (\<lambda>(kr, eqs, w). (kr, st\<lparr>eqAsync := eqs\<rparr>, w))
       (createEqs xc envs uarPage asyncPlan (eqAsync st) w)"

definition compPlan :: "nat \<Rightarrow> (nat \<times> nat \<times> u32 \<times> u64 list) list" where
  "compPlan n = map (\<lambda>i. (i, 10, of_nat i + 1, [0, 0, 0, 0])) [0..<n]"

definition createCompEqs ::
  "'w execFn \<Rightarrow> (nat \<Rightarrow> eqBufEnv) \<Rightarrow> u32 \<Rightarrow> MlxEQ \<Rightarrow> 'w \<Rightarrow> (ioreturn \<times> MlxEQ \<times> 'w) option" where
  "createCompEqs xc envs uarPage st w =
     map_option (\<lambda>(kr, eqs, w). (kr, st\<lparr>eqComp := eqs\<rparr>, w))
       (createEqs xc envs uarPage (compPlan (length (eqComp st))) (eqComp st) w)"

definition eqInit :: "bool \<Rightarrow> bool \<Rightarrow> bool \<Rightarrow> nat \<Rightarrow> bool \<times> MlxEQ" where
  "eqInit alloc lock wl numCompVectors =
     (let st = \<lparr>eqAsync = replicate MLX_NUM_ASYNC_EQS zeroEntry,
                eqComp = replicate numCompVectors zeroEntry,
                eqNotifiers = (\<lambda>_. replicate MLX_MAX_EVENT_NOTIFIERS None),
                eqNotifierCounts = (\<lambda>_. 0), eqNotifierLock = lock, eqActiveCallbacks = 0,
                eqShuttingDown = False, eqWorkLoop = False, eqAsyncIS = False, eqCompIS = None,
                eqInterruptsSetup = False\<rparr>
      in if \<not> alloc then (False, st\<lparr>eqAsync := [], eqComp := []\<rparr>)
         else if \<not> lock then (False, st)
         else (wl, st\<lparr>eqWorkLoop := wl\<rparr>))"

section \<open>Notifiers\<close>

definition registerNotifier :: "nat \<Rightarrow> nat \<Rightarrow> MlxEQ \<Rightarrow> MlxEQ" where
  "registerNotifier eventType n st =
     (if MLX_EVENT_TYPE_MAX \<le> eventType then st
      else if eqShuttingDown st then st
      else
        (let count = eqNotifierCounts st eventType; row = eqNotifiers st eventType
         in if list_ex (\<lambda>i. row ! i = Some n) [0..<count] then st
            else if count < MLX_MAX_EVENT_NOTIFIERS
            then st\<lparr>eqNotifiers := (eqNotifiers st)(eventType := row[count := Some n]),
                    eqNotifierCounts := (eqNotifierCounts st)(eventType := count + 1)\<rparr>
            else st))"

text \<open>The inner loop moves the entries behind position \<open>i\<close> one place down.\<close>

definition shiftDown :: "nat option list \<Rightarrow> nat \<Rightarrow> nat \<Rightarrow> nat option list" where
  "shiftDown row i count =
     (foldl (\<lambda>r j. r[j - 1 := r ! j]) row [i + 1..<count])[count - 1 := None]"

definition unregisterNotifier :: "nat \<Rightarrow> nat \<Rightarrow> MlxEQ \<Rightarrow> MlxEQ" where
  "unregisterNotifier eventType n st =
     (if MLX_EVENT_TYPE_MAX \<le> eventType then st
      else
        (let count = eqNotifierCounts st eventType; row = eqNotifiers st eventType
         in case find (\<lambda>i. row ! i = Some n) [0..<count] of
              None \<Rightarrow> st
            | Some i \<Rightarrow>
                st\<lparr>eqNotifiers := (eqNotifiers st)(eventType := shiftDown row i count),
                   eqNotifierCounts := (eqNotifierCounts st)(eventType := count - 1)\<rparr>))"

section \<open>Interrupt handling\<close>

definition isNewEqe :: "MlxEqEntry \<Rightarrow> MlxEqe \<Rightarrow> bool" where
  "isNewEqe eq eqe =
     ((ucast (eqe_owner eqe AND 1) XOR (drop_bit (eq_logSize eq) (eq_consIndex eq) AND 1)) = (0 :: u32))"

definition updateCi :: "bool \<Rightarrow> MlxEqEntry \<Rightarrow> bool \<Rightarrow> eqEffect list" where
  "updateCi uarMapped eq arm =
     (let ci = (eq_consIndex eq AND 0xFFFFFF) OR push_bit 24 (eq_eqNumber eq)
      in if \<not> uarMapped then []
         else [RingDoorbell (eq_doorbellOffset eq + (if arm then 0 else 8)) ci])"

definition dispatch :: "(nat \<Rightarrow> bool) \<Rightarrow> MlxEQ \<Rightarrow> u8 \<Rightarrow> MlxEqe \<Rightarrow> eqEffect list" where
  "dispatch alive st type' eqe =
     (let count = (if unat type' < MLX_EVENT_TYPE_MAX then eqNotifierCounts st (unat type') else 0);
          targets = take count (eqNotifiers st (unat type'))
      in if eqShuttingDown st then []
         else map (\<lambda>n. Deliver n type' eqe)
                (filter alive (List.map_filter id targets)))"

definition asyncEffects :: "(nat \<Rightarrow> bool) \<Rightarrow> MlxEQ \<Rightarrow> MlxEqe \<Rightarrow> eqEffect list" where
  "asyncEffects alive st eqe =
     (if eqe_type eqe = MLX_EVENT_TYPE_DEVICE_FATAL then [EnterQuarantine (eqe_type eqe)] else []) @
     dispatch alive st (eqe_type eqe) eqe"

definition compEffects :: "(nat \<Rightarrow> bool) \<Rightarrow> MlxEQ \<Rightarrow> MlxEqe \<Rightarrow> eqEffect list" where
  "compEffects alive st eqe = dispatch alive st MLX_EVENT_TYPE_COMPLETION eqe"

text \<open>The common loop of the two handlers: at most one ring of elements.\<close>

fun eqLoop ::
  "(MlxEqe \<Rightarrow> eqEffect list) \<Rightarrow> bool \<Rightarrow> (nat \<Rightarrow> nat \<Rightarrow> MlxEqe) \<Rightarrow> nat \<Rightarrow> nat \<Rightarrow> MlxEqEntry \<Rightarrow>
   eqEffect list \<Rightarrow> MlxEqEntry \<times> eqEffect list" where
  "eqLoop eff uarMapped ring i 0 eq log = (eq, log)"
| "eqLoop eff uarMapped ring i (Suc n) eq log =
     (let slot = unat (eq_consIndex eq AND (2 ^ eq_logSize eq - 1));
          eqe = ring i slot
      in if \<not> isNewEqe eq eqe then (eq, log)
         else
           (let log = log @ eff eqe;
                eq = eq\<lparr>eq_consIndex := eq_consIndex eq + 1\<rparr>;
                log = (if eq_consIndex eq AND 63 = 0 then log @ updateCi uarMapped eq False else log)
            in eqLoop eff uarMapped ring (Suc i) n eq log))"

definition handleEqe ::
  "(MlxEqe \<Rightarrow> eqEffect list) \<Rightarrow> bool \<Rightarrow> (nat \<Rightarrow> nat \<Rightarrow> MlxEqe) \<Rightarrow> MlxEqEntry \<Rightarrow> MlxEqEntry \<times> eqEffect list" where
  "handleEqe eff uarMapped ring eq =
     (let (eq, log) = eqLoop eff uarMapped ring 0 (2 ^ eq_logSize eq) eq []
      in (eq, log @ updateCi uarMapped eq True))"

definition handleAsyncEqe ::
  "(nat \<Rightarrow> bool) \<Rightarrow> bool \<Rightarrow> (nat \<Rightarrow> nat \<Rightarrow> MlxEqe) \<Rightarrow> nat \<Rightarrow> MlxEQ \<Rightarrow> MlxEQ \<times> eqEffect list" where
  "handleAsyncEqe alive uarMapped ring eqIdx st =
     (let (eq, log) = handleEqe (asyncEffects alive st) uarMapped ring (eqAsync st ! eqIdx)
      in (st\<lparr>eqAsync := (eqAsync st)[eqIdx := eq]\<rparr>, log))"

definition handleCompEqe ::
  "(nat \<Rightarrow> bool) \<Rightarrow> bool \<Rightarrow> (nat \<Rightarrow> nat \<Rightarrow> MlxEqe) \<Rightarrow> nat \<Rightarrow> MlxEQ \<Rightarrow> MlxEQ \<times> eqEffect list" where
  "handleCompEqe alive uarMapped ring eqIdx st =
     (let (eq, log) = handleEqe (compEffects alive st) uarMapped ring (eqComp st ! eqIdx)
      in (st\<lparr>eqComp := (eqComp st)[eqIdx := eq]\<rparr>, log))"

fun asyncIntrLoop ::
  "(nat \<Rightarrow> bool) \<Rightarrow> bool \<Rightarrow> (nat \<Rightarrow> nat \<Rightarrow> nat \<Rightarrow> MlxEqe) \<Rightarrow> nat list \<Rightarrow> MlxEQ \<Rightarrow> MlxEQ \<times> eqEffect list" where
  "asyncIntrLoop alive uarMapped rings [] st = (st, [])"
| "asyncIntrLoop alive uarMapped rings (i # is) st =
     (let (st, l1) = handleAsyncEqe alive uarMapped (rings i) i st;
          (st, l2) = asyncIntrLoop alive uarMapped rings is st
      in (st, l1 @ l2))"

definition asyncIntrHandler ::
  "(nat \<Rightarrow> bool) \<Rightarrow> bool \<Rightarrow> (nat \<Rightarrow> nat \<Rightarrow> nat \<Rightarrow> MlxEqe) \<Rightarrow> MlxEQ \<Rightarrow> MlxEQ \<times> eqEffect list" where
  "asyncIntrHandler alive uarMapped rings st =
     asyncIntrLoop alive uarMapped rings [0..<length (eqAsync st)] st"

definition compIntrHandler ::
  "(nat \<Rightarrow> bool) \<Rightarrow> bool \<Rightarrow> (nat \<Rightarrow> nat \<Rightarrow> MlxEqe) \<Rightarrow> int \<Rightarrow> MlxEQ \<Rightarrow> MlxEQ \<times> eqEffect list" where
  "compIntrHandler alive uarMapped ring vector st =
     (if 0 < vector \<and> nat vector \<le> length (eqComp st)
      then handleCompEqe alive uarMapped ring (nat vector - 1) st else (st, []))"

section \<open>Interrupt sources and shutdown\<close>

record intrEnv =
  ieAsync :: bool
  ieAsyncAdd :: bool
  ieCompArr :: bool
  ieComp :: "nat \<Rightarrow> bool"
  ieCompAdd :: "nat \<Rightarrow> bool"

fun setupComp :: "intrEnv \<Rightarrow> nat \<Rightarrow> nat \<Rightarrow> bool list \<Rightarrow> ioreturn \<times> bool list" where
  "setupComp env i 0 is = (kIOReturnSuccess, is)"
| "setupComp env i (Suc n) is =
     (if \<not> ieComp env i then (kIOReturnNoResources, is)
      else if \<not> ieCompAdd env i then (kIOReturnError, is[i := True])
      else setupComp env (Suc i) n (is[i := True]))"

definition setupInterrupts :: "intrEnv \<Rightarrow> bool \<Rightarrow> MlxEQ \<Rightarrow> ioreturn \<times> MlxEQ \<times> eqEffect list" where
  "setupInterrupts env uarMapped st =
     (if \<not> eqWorkLoop st then (kIOReturnNoResources, st, [])
      else
        (let st = st\<lparr>eqAsyncIS := ieAsync env\<rparr>
         in if \<not> (ieAsync env \<and> ieAsyncAdd env) then (kIOReturnError, st, [])
            else if \<not> ieCompArr env then (kIOReturnNoMemory, st\<lparr>eqCompIS := None\<rparr>, [])
            else
              (let n = length (eqComp st);
                   (kr, is) = setupComp env 0 n (replicate n False);
                   st = st\<lparr>eqCompIS := Some is\<rparr>
               in if kr \<noteq> kIOReturnSuccess then (kr, st, [])
                  else (kIOReturnSuccess, st\<lparr>eqInterruptsSetup := True\<rparr>,
                    concat (map (\<lambda>eq. updateCi uarMapped eq True) (eqAsync st)) @
                    concat (map (\<lambda>eq. updateCi uarMapped eq True) (eqComp st))))))"

definition disableInterrupts :: "MlxEQ \<Rightarrow> MlxEQ" where
  "disableInterrupts st = st\<lparr>eqAsyncIS := False, eqCompIS := None, eqInterruptsSetup := False\<rparr>"

definition markHardwareStopped :: "MlxEQ \<Rightarrow> MlxEQ" where
  "markHardwareStopped st =
     st\<lparr>eqComp := map (\<lambda>e. e\<lparr>eq_valid := False\<rparr>) (eqComp st),
        eqAsync := map (\<lambda>e. e\<lparr>eq_valid := False\<rparr>) (eqAsync st)\<rparr>"

fun destroyAll :: "'w execFn \<Rightarrow> MlxEqEntry list \<Rightarrow> 'w \<Rightarrow> bool \<times> MlxEqEntry list \<times> 'w" where
  "destroyAll xc [] w = (True, [], w)"
| "destroyAll xc (e # es) w =
     (if eq_valid e
      then (let (kr, w) = destroyEq xc (eq_eqNumber e) w;
                (ok, es, w) = destroyAll xc es w
            in if kr = kIOReturnSuccess then (ok, e\<lparr>eq_valid := False\<rparr> # es, w)
               else (False, e # es, w))
      else (let (ok, es, w) = destroyAll xc es w in (ok, e # es, w)))"

text \<open>
  \<open>synchronizeCallbacks\<close> waits for the callbacks in flight; it changes nothing of the state
  here, because the handlers' increments and decrements cancel before it returns.
\<close>

definition shutdown :: "'w execFn \<Rightarrow> bool \<Rightarrow> MlxEQ \<Rightarrow> 'w \<Rightarrow> bool \<times> MlxEQ \<times> 'w" where
  "shutdown xc cmdUp st w =
     (let st = disableInterrupts (st\<lparr>eqShuttingDown := True\<rparr>)
      in if cmdUp
         then (let (ok1, comp, w) = destroyAll xc (eqComp st) w;
                   (ok2, async, w) = destroyAll xc (eqAsync st) w
               in (ok1 \<and> ok2, st\<lparr>eqComp := comp, eqAsync := async\<rparr>, w))
         else (list_all (\<lambda>e. \<not> eq_valid e) (eqComp st) \<and>
               list_all (\<lambda>e. \<not> eq_valid e) (eqAsync st), st, w))"

text \<open>The ring memory that is still allocated after the destructor (leaked on purpose).\<close>

definition eqFree :: "'w execFn \<Rightarrow> bool \<Rightarrow> MlxEQ \<Rightarrow> 'w \<Rightarrow> MlxEQ \<times> MlxEqEntry list \<times> 'w" where
  "eqFree xc cmdUp st w =
     (let (ok, st, w) = shutdown xc cmdUp st w;
          fr = (\<lambda>e. if eq_valid e then e else free_eq_entry e);
          kept = map fr (eqComp st) @ map fr (eqAsync st)
      in (st\<lparr>eqComp := [], eqAsync := [], eqWorkLoop := False, eqNotifierLock := False\<rparr>,
          filter eq_fDesc kept, w))"

section \<open>Exactly-once delivery in order\<close>

text \<open>
  The device's side of the ring protocol: element \<open>k\<close> (counted from 0) goes to slot
  \<open>k mod 2^lg\<close> with the parity of its lap as owner bit; a slot not written yet holds owner 1.
\<close>

definition published :: "MlxEqe list \<Rightarrow> nat \<Rightarrow> nat \<Rightarrow> MlxEqe" where
  "published evs lg k = (evs ! k)\<lparr>eqe_owner := (if bit k lg then 1 else 0)\<rparr>"

definition ringSlot :: "MlxEqe list \<Rightarrow> nat \<Rightarrow> nat \<Rightarrow> MlxEqe" where
  "ringSlot evs lg slot =
     (case find (\<lambda>k. k mod 2 ^ lg = slot) (rev [0..<length evs]) of
        Some k \<Rightarrow> published evs lg k
      | None \<Rightarrow> \<lparr>eqe_type = 0, eqe_subType = 0, eqe_data = [], eqe_owner = 1\<rparr>)"

lemma find_rev_upt:
  "k < n \<Longrightarrow> P k \<Longrightarrow> (\<And>j. k < j \<Longrightarrow> j < n \<Longrightarrow> \<not> P j) \<Longrightarrow> find P (rev [0..<n]) = Some k"
proof (induction n)
  case (Suc n)
  then show ?case by (cases "k = n") auto
qed simp

lemma find_rev_upt_None: "(\<And>j. j < n \<Longrightarrow> \<not> P j) \<Longrightarrow> find P (rev [0..<n]) = None"
  by (simp add: find_None_iff)

lemma mod_eq_far:
  assumes "k < j" and "j mod m = k mod m"
  shows "k + m \<le> (j :: nat)"
proof -
  have "j mod m = k mod m" "k \<le> j" using assms by auto
  then have "m dvd j - k" by (metis mod_eq_dvd_iff_nat)
  then have "m \<le> j - k" using assms(1) by (simp add: dvd_imp_le)
  then show ?thesis using assms(1) by simp
qed

lemma ringSlot_new:
  assumes "c < length evs" and "length evs \<le> c + 2 ^ lg"
  shows "ringSlot evs lg (c mod 2 ^ lg) = published evs lg c"
proof -
  have "find (\<lambda>k. k mod 2 ^ lg = c mod 2 ^ lg) (rev [0..<length evs]) = Some c"
    using assms mod_eq_far [of c _ "2 ^ lg"] by (intro find_rev_upt) fastforce+
  then show ?thesis by (simp add: ringSlot_def)
qed

lemma bit_add_exp: "bit (k + 2 ^ lg) lg = (\<not> bit k lg)" for k :: nat
  using div_add_self2 [of "2 ^ lg" k] by (simp only: bit_iff_odd) simp

lemma ringSlot_old: "eqe_owner (ringSlot evs lg (length evs mod 2 ^ lg)) = (if bit (length evs) lg then 0 else 1)"
proof (cases "2 ^ lg \<le> length evs")
  case True
  define k where "k = length evs - 2 ^ lg"
  have k: "length evs = k + 2 ^ lg" using True by (simp add: k_def)
  have "find (\<lambda>j. j mod 2 ^ lg = length evs mod 2 ^ lg) (rev [0..<length evs]) = Some k"
  proof (rule find_rev_upt)
    show "k < length evs" using k by simp
    show "k mod 2 ^ lg = length evs mod 2 ^ lg" by (simp add: k)
    fix j assume "k < j" "j < length evs"
    show "j mod 2 ^ lg \<noteq> length evs mod 2 ^ lg"
    proof
      assume "j mod 2 ^ lg = length evs mod 2 ^ lg"
      then have "j mod 2 ^ lg = k mod 2 ^ lg" by (simp add: k)
      from mod_eq_far [OF \<open>k < j\<close> this] \<open>j < length evs\<close> k show False by simp
    qed
  qed
  then show ?thesis using bit_add_exp [of k lg] k by (simp add: ringSlot_def published_def)
next
  case False
  then have lt: "length evs < 2 ^ lg" by simp
  then have "find (\<lambda>j. j mod 2 ^ lg = length evs mod 2 ^ lg) (rev [0..<length evs]) = None"
    by (intro find_rev_upt_None) simp
  moreover have "\<not> bit (length evs) lg" using lt by (simp add: bit_iff_odd)
  ultimately show ?thesis by (simp add: ringSlot_def)
qed

lemma consumer_slot:
  assumes "lg < 32"
  shows "unat (of_nat c AND (2 ^ lg - 1) :: u32) = c mod 2 ^ lg"
proof -
  have "(of_nat c AND (2 ^ lg - 1) :: u32) = take_bit lg (of_nat c)"
    by (simp add: take_bit_eq_mask mask_eq_exp_minus_1)
  then have "unat (of_nat c AND (2 ^ lg - 1) :: u32) = take_bit lg (take_bit 32 c)"
    by (simp add: unsigned_take_bit_eq unsigned_of_nat)
  also have "\<dots> = take_bit lg c" using assms by (simp add: min_def)
  finally show ?thesis by (simp add: take_bit_eq_mod)
qed

lemma isNewEqe_iff:
  assumes "lg < 32" and "eq_logSize eq = lg" and "eq_consIndex eq = of_nat c"
  shows "isNewEqe eq eqe = (bit (eqe_owner eqe) 0 = bit c lg)"
proof -
  have "(drop_bit lg (of_nat c) AND 1 :: u32) = (if bit c lg then 1 else 0)"
    using assms(1)
    by (intro bit_word_eqI) (auto simp: bit_and_iff bit_drop_bit_eq bit_of_nat_iff bit_1_iff intro: gr0I)
  moreover have "(ucast (eqe_owner eqe AND 1) :: u32) = (if bit (eqe_owner eqe) 0 then 1 else 0)"
    by (intro bit_word_eqI) (auto simp: bit_and_iff bit_ucast_iff bit_1_iff intro: gr0I)
  ultimately show ?thesis
    unfolding isNewEqe_def assms(2,3) by (auto split: if_splits)
qed

definition isDoorbell :: "eqEffect \<Rightarrow> bool" where
  "isDoorbell e = (case e of RingDoorbell _ _ \<Rightarrow> True | _ \<Rightarrow> False)"

lemma filter_updateCi [simp]: "filter (\<lambda>e. \<not> isDoorbell e) (updateCi m eq arm) = []"
  by (simp add: updateCi_def Let_def isDoorbell_def)

lemma eqLoop_consumes:
  assumes "lg < 32"
  shows "eq_logSize eq = lg \<Longrightarrow> eq_consIndex eq = of_nat c \<Longrightarrow> c \<le> length evs \<Longrightarrow>
    length evs \<le> c + n \<Longrightarrow> n \<le> 2 ^ lg \<Longrightarrow>
    \<exists>log'. eqLoop eff m (\<lambda>_. ringSlot evs lg) i n eq log =
        (eq\<lparr>eq_consIndex := of_nat (length evs)\<rparr>, log @ log') \<and>
      filter (\<lambda>e. \<not> isDoorbell e) log' =
        concat (map (\<lambda>k. filter (\<lambda>e. \<not> isDoorbell e) (eff (published evs lg k))) [c..<length evs])"
proof (induction n arbitrary: c eq i log)
  case 0
  then have "c = length evs" by simp
  with 0 show ?case by (intro exI [of _ "[]"]) simp
next
  case (Suc n)
  let ?slot = "unat (eq_consIndex eq AND (2 ^ eq_logSize eq - 1))"
  have slot: "?slot = c mod 2 ^ lg" using Suc.prems(1,2) consumer_slot [OF assms] by simp
  note new = isNewEqe_iff [OF assms Suc.prems(1,2)]
  show ?case
  proof (cases "c = length evs")
    case True
    then have "\<not> isNewEqe eq (ringSlot evs lg ?slot)"
      unfolding new slot using ringSlot_old [of evs lg] by simp
    with True Suc.prems(2) show ?thesis by (intro exI [of _ "[]"]) (simp add: Let_def)
  next
    case False
    then have c: "c < length evs" using Suc.prems(3) by simp
    have rs: "ringSlot evs lg ?slot = published evs lg c"
      unfolding slot using c Suc.prems(4,5) by (intro ringSlot_new) simp_all
    have yes: "isNewEqe eq (published evs lg c)" unfolding new by (simp add: published_def)
    let ?eq = "eq\<lparr>eq_consIndex := eq_consIndex eq + 1\<rparr>"
    let ?db = "if eq_consIndex ?eq AND 63 = 0 then updateCi m ?eq False else []"
    have step: "eqLoop eff m (\<lambda>_. ringSlot evs lg) i (Suc n) eq log =
        eqLoop eff m (\<lambda>_. ringSlot evs lg) (Suc i) n ?eq (log @ eff (published evs lg c) @ ?db)"
      using rs yes by (simp add: Let_def)
    have "eq_logSize ?eq = lg" "eq_consIndex ?eq = of_nat (Suc c)" "Suc c \<le> length evs"
      "length evs \<le> Suc c + n" "n \<le> 2 ^ lg"
      using Suc.prems c by simp_all
    from Suc.IH [OF this, of "Suc i" "log @ eff (published evs lg c) @ ?db"] obtain log' where
      r: "eqLoop eff m (\<lambda>_. ringSlot evs lg) (Suc i) n ?eq (log @ eff (published evs lg c) @ ?db) =
        (?eq\<lparr>eq_consIndex := of_nat (length evs)\<rparr>, (log @ eff (published evs lg c) @ ?db) @ log')"
      and f: "filter (\<lambda>e. \<not> isDoorbell e) log' =
        concat (map (\<lambda>k. filter (\<lambda>e. \<not> isDoorbell e) (eff (published evs lg k))) [Suc c..<length evs])"
      by blast
    show ?thesis
      unfolding step using r f c
      by (intro exI [of _ "eff (published evs lg c) @ ?db @ log'"]) (simp add: upt_rec [of c])
  qed
qed

lemma asyncEffects_no_doorbell:
  "filter (\<lambda>e. \<not> isDoorbell e) (asyncEffects alive st eqe) = asyncEffects alive st eqe"
  by (auto simp: asyncEffects_def dispatch_def isDoorbell_def Let_def filter_id_conv)

text \<open>C11: the asynchronous handler consumes a ring written by the device's protocol exactly once
  and in order: with \<open>c\<close> events consumed before and at most one lap pending (across the wrap
  of the ring and of the 32-bit consumer index), it delivers exactly the pending events, in
  order, to the notifiers of their type, leaves the consumer index at the producer's, and
  finally arms the queue with that index and its number.\<close>

theorem eq_exactly_once_in_order:
  assumes "lg < 32" and "eq_logSize eq = lg" and "eq_consIndex eq = of_nat c"
    and "c \<le> length evs" and "length evs \<le> c + 2 ^ lg"
  shows "\<exists>log. handleEqe (asyncEffects alive st) m (\<lambda>_. ringSlot evs lg) eq =
      (eq\<lparr>eq_consIndex := of_nat (length evs)\<rparr>, log) \<and>
    filter (\<lambda>e. \<not> isDoorbell e) log =
      concat (map (\<lambda>k. asyncEffects alive st (published evs lg k)) [c..<length evs]) \<and>
    (m \<longrightarrow> last log = RingDoorbell (eq_doorbellOffset eq)
       ((of_nat (length evs) AND 0xFFFFFF) OR push_bit 24 (eq_eqNumber eq)))"
proof -
  from eqLoop_consumes [OF assms(1-4), of "2 ^ lg" "asyncEffects alive st" m 0 "[]"] assms(5)
  obtain log' where r: "eqLoop (asyncEffects alive st) m (\<lambda>_. ringSlot evs lg) 0 (2 ^ lg) eq [] =
        (eq\<lparr>eq_consIndex := of_nat (length evs)\<rparr>, log')"
    and f: "filter (\<lambda>e. \<not> isDoorbell e) log' =
        concat (map (\<lambda>k. asyncEffects alive st (published evs lg k)) [c..<length evs])"
    by (auto simp: asyncEffects_no_doorbell)
  show ?thesis
    using r f assms(2)
    by (intro exI [of _ "log' @ updateCi m (eq\<lparr>eq_consIndex := of_nat (length evs)\<rparr>) True"])
      (simp add: handleEqe_def Let_def, simp add: updateCi_def Let_def)
qed

definition eqeOf :: "u8 \<Rightarrow> MlxEqe" where
  "eqeOf t = \<lparr>eqe_type = t, eqe_subType = 0, eqe_data = [], eqe_owner = 0\<rparr>"

definition sampleEq :: MlxEQ where
  "sampleEq = registerNotifier 5 77 (snd (eqInit True True True 1))"

theorem eq_exactly_once_in_order_witness:
  "\<exists>log. handleEqe (asyncEffects (\<lambda>_. True) sampleEq) True (\<lambda>_. ringSlot (map eqeOf [5, 6, 5, 5, 5]) 2)
      (zeroEntry\<lparr>eq_logSize := 2, eq_consIndex := 2, eq_eqNumber := 9, eq_doorbellOffset := 64\<rparr>) =
      (zeroEntry\<lparr>eq_logSize := 2, eq_consIndex := 5, eq_eqNumber := 9, eq_doorbellOffset := 64\<rparr>, log) \<and>
    length (filter (\<lambda>e. \<not> isDoorbell e) log) = 3 \<and> last log = RingDoorbell 64 0x9000005"
proof -
  let ?e = "zeroEntry\<lparr>eq_logSize := 2, eq_consIndex := 2, eq_eqNumber := 9, eq_doorbellOffset := 64\<rparr>"
  let ?evs = "map eqeOf [5, 6, 5, 5, 5]"
  from eq_exactly_once_in_order [of 2 ?e 2 ?evs "\<lambda>_. True" sampleEq True] obtain log where
    L: "handleEqe (asyncEffects (\<lambda>_. True) sampleEq) True (\<lambda>_. ringSlot ?evs 2) ?e =
      (?e\<lparr>eq_consIndex := of_nat (length ?evs)\<rparr>, log)"
    "filter (\<lambda>e. \<not> isDoorbell e) log =
      concat (map (\<lambda>k. asyncEffects (\<lambda>_. True) sampleEq (published ?evs 2 k)) [2..<length ?evs])"
    "last log = RingDoorbell (eq_doorbellOffset ?e)
       ((of_nat (length ?evs) AND 0xFFFFFF) OR push_bit 24 (eq_eqNumber ?e))"
    by auto
  have row: "eqNotifierCounts sampleEq 5 = Suc 0" "\<not> eqShuttingDown sampleEq"
    "eqNotifiers sampleEq 5 = Some 77 # replicate 3 None"
    by (simp_all add: sampleEq_def registerNotifier_def eqInit_def MLX_EVENT_TYPE_MAX_def
        MLX_MAX_EVENT_NOTIFIERS_def Let_def numeral_eq_Suc)
  have eff: "asyncEffects (\<lambda>_. True) sampleEq e = [Deliver 77 5 e]" if "eqe_type e = 5" for e
    using that row
    by (simp add: asyncEffects_def dispatch_def MLX_EVENT_TYPE_DEVICE_FATAL_def
        MLX_EVENT_TYPE_MAX_def List.map_filter_def Let_def)
  have d: "asyncEffects (\<lambda>_. True) sampleEq (published ?evs 2 k) = [Deliver 77 5 (published ?evs 2 k)]"
    if "k \<in> {2, 3, 4}" for k
    using that by (intro eff) (auto simp: published_def eqeOf_def)
  have "map (\<lambda>k. asyncEffects (\<lambda>_. True) sampleEq (published ?evs 2 k)) [2..<length ?evs] =
      [[Deliver 77 5 (published ?evs 2 2)], [Deliver 77 5 (published ?evs 2 3)],
       [Deliver 77 5 (published ?evs 2 4)]]"
  proof -
    have u: "[2..<length ?evs] = [2, 3, 4]" by (simp add: upt_rec)
    have "asyncEffects (\<lambda>_. True) sampleEq (published ?evs 2 2) = [Deliver 77 5 (published ?evs 2 2)]"
      "asyncEffects (\<lambda>_. True) sampleEq (published ?evs 2 3) = [Deliver 77 5 (published ?evs 2 3)]"
      "asyncEffects (\<lambda>_. True) sampleEq (published ?evs 2 4) = [Deliver 77 5 (published ?evs 2 4)]"
      by (rule d, blast)+
    then show ?thesis unfolding u by (simp only: list.map)
  qed
  then have len: "length (concat (map (\<lambda>k. asyncEffects (\<lambda>_. True) sampleEq (published ?evs 2 k)) [2..<length ?evs])) = 3"
    by (simp only:) simp
  have "length (filter (\<lambda>e. \<not> isDoorbell e) log) = 3"
    using L(2) len by (simp only:)
  with L(1,3) show ?thesis by (intro exI [of _ log]) simp
qed

section \<open>The notifier table refines a list\<close>

definition notifList :: "MlxEQ \<Rightarrow> nat \<Rightarrow> nat list" where
  "notifList st t = map the (take (eqNotifierCounts st t) (eqNotifiers st t))"

definition notifWf :: "MlxEQ \<Rightarrow> bool" where
  "notifWf st \<longleftrightarrow> (\<forall>t. length (eqNotifiers st t) = MLX_MAX_EVENT_NOTIFIERS \<and>
     eqNotifierCounts st t \<le> MLX_MAX_EVENT_NOTIFIERS \<and>
     take (eqNotifierCounts st t) (eqNotifiers st t) = map Some (notifList st t) \<and>
     distinct (notifList st t))"

lemma shiftDown_take:
  assumes "length row = 4" and "count \<le> 4" and "i < count"
  shows "take (count - 1) (shiftDown row i count) = take i row @ drop (Suc i) (take count row)"
    and "length (shiftDown row i count) = 4"
proof -
  obtain a b c d where row: "row = [a, b, c, d]"
    using assms(1) by (auto simp: numeral_eq_Suc length_Suc_conv)
  have "count \<in> {Suc 0, Suc (Suc 0), Suc (Suc (Suc 0)), Suc (Suc (Suc (Suc 0)))}"
    "i \<in> {0, Suc 0, Suc (Suc 0), Suc (Suc (Suc 0))}" using assms(2,3) by auto
  then show "take (count - 1) (shiftDown row i count) = take i row @ drop (Suc i) (take count row)"
    and "length (shiftDown row i count) = 4"
    using assms(3) by (auto simp: row shiftDown_def)
qed

lemma notif_nth:
  assumes "notifWf st" and "i < eqNotifierCounts st t"
  shows "eqNotifiers st t ! i = Some (notifList st t ! i)" and "length (notifList st t) = eqNotifierCounts st t"
proof -
  have l: "length (notifList st t) = eqNotifierCounts st t"
    using assms(1) by (simp add: notifWf_def notifList_def)
  then show "length (notifList st t) = eqNotifierCounts st t" .
  have "take (eqNotifierCounts st t) (eqNotifiers st t) ! i = map Some (notifList st t) ! i"
    using assms(1) by (simp add: notifWf_def)
  then show "eqNotifiers st t ! i = Some (notifList st t ! i)" using assms(2) l by simp
qed

lemma notifList_length: "notifWf st \<Longrightarrow> length (notifList st t) = eqNotifierCounts st t"
  by (simp add: notifWf_def notifList_def)

lemma notif_registered:
  "notifWf st \<Longrightarrow> list_ex (\<lambda>i. eqNotifiers st t ! i = Some n) [0..<eqNotifierCounts st t] =
     (n \<in> set (notifList st t))"
  using notif_nth [of st _ t] notifList_length [of st t] by (auto simp: list_ex_iff in_set_conv_nth)

lemma remove1_nth:
  "distinct xs \<Longrightarrow> i < length xs \<Longrightarrow> remove1 (xs ! i) xs = take i xs @ drop (Suc i) xs"
proof (induction xs arbitrary: i)
  case (Cons x xs)
  then show ?case by (cases i) auto
qed simp

lemma notifier_table_spec:
  assumes "notifWf st" and "t < MLX_EVENT_TYPE_MAX"
  shows "notifWf (registerNotifier t n st) \<and> notifWf (unregisterNotifier t n st) \<and>
    notifList (registerNotifier t n st) =
      (notifList st)(t := if eqShuttingDown st \<or> n \<in> set (notifList st t) \<or>
          length (notifList st t) = MLX_MAX_EVENT_NOTIFIERS
        then notifList st t else notifList st t @ [n]) \<and>
    notifList (unregisterNotifier t n st) = (notifList st)(t := remove1 n (notifList st t)) \<and>
    (\<not> eqShuttingDown st \<longrightarrow> unat ty = t \<longrightarrow>
      dispatch alive st ty e = map (\<lambda>n. Deliver n ty e) (filter alive (notifList st t)))"
proof -
  let ?ns = "notifList st t" and ?c = "eqNotifierCounts st t" and ?row = "eqNotifiers st t"
  have c4: "?c \<le> 4" "length ?row = 4" "take ?c ?row = map Some ?ns" "distinct ?ns"
    using assms(1) by (auto simp: notifWf_def MLX_MAX_EVENT_NOTIFIERS_def)
  have len: "length ?ns = ?c" by (rule notifList_length [OF assms(1)])
  have reg: "registerNotifier t n st = (if eqShuttingDown st \<or> n \<in> set ?ns \<or> ?c = 4 then st
      else st\<lparr>eqNotifiers := (eqNotifiers st)(t := ?row[?c := Some n]),
              eqNotifierCounts := (eqNotifierCounts st)(t := ?c + 1)\<rparr>)"
    using assms(2) c4(1) notif_registered [OF assms(1), of t n]
    by (auto simp: registerNotifier_def Let_def MLX_MAX_EVENT_NOTIFIERS_def)
  have reg_ok: "notifWf (registerNotifier t n st) \<and>
      notifList (registerNotifier t n st) = (notifList st)(t := if eqShuttingDown st \<or> n \<in> set ?ns \<or> ?c = 4
        then ?ns else ?ns @ [n])"
  proof (cases "eqShuttingDown st \<or> n \<in> set ?ns \<or> ?c = 4")
    case True
    then show ?thesis using reg assms(1) by simp
  next
    case False
    then have lt: "?c < 4" using c4(1) by simp
    have tk: "take (Suc ?c) (?row[?c := Some n]) = map Some (?ns @ [n])"
      using lt c4 by (simp add: take_Suc_conv_app_nth)
    have nl: "notifList (registerNotifier t n st) = (notifList st)(t := ?ns @ [n])"
      using False tk by (auto simp: reg notifList_def fun_eq_iff)
    have "notifWf (registerNotifier t n st)"
      using assms(1) False lt tk nl c4
      by (auto simp: notifWf_def reg MLX_MAX_EVENT_NOTIFIERS_def)
    with nl False show ?thesis by simp
  qed
  have unreg: "notifWf (unregisterNotifier t n st) \<and>
      notifList (unregisterNotifier t n st) = (notifList st)(t := remove1 n ?ns)"
  proof (cases "find (\<lambda>i. ?row ! i = Some n) [0..<?c]")
    case None
    then have "n \<notin> set ?ns"
      using notif_registered [OF assms(1), of t n] by (auto simp: find_None_iff list_ex_iff)
    moreover have "unregisterNotifier t n st = st"
      using None by (simp add: unregisterNotifier_def Let_def)
    ultimately show ?thesis using assms(1) by (simp add: remove1_idem)
  next
    case (Some i)
    then have i: "i < ?c" "?row ! i = Some n" by (auto simp: find_Some_iff)
    then have ni: "?ns ! i = n" using notif_nth(1) [OF assms(1) i(1)] by simp
    have un: "unregisterNotifier t n st =
        st\<lparr>eqNotifiers := (eqNotifiers st)(t := shiftDown ?row i ?c),
           eqNotifierCounts := (eqNotifierCounts st)(t := ?c - 1)\<rparr>"
      using Some assms(2) by (simp add: unregisterNotifier_def Let_def)
    note sd = shiftDown_take [OF c4(2,1) i(1)]
    have "take i ?row = map Some (take i ?ns)"
      using c4(3) i(1) by (metis less_imp_le min.absorb1 take_map take_take)
    then have tk: "take (?c - 1) (shiftDown ?row i ?c) = map Some (remove1 n ?ns)"
      using sd(1) c4(3,4) i(1) ni len remove1_nth [of ?ns i] by (simp add: drop_map)
    have nl: "notifList (unregisterNotifier t n st) = (notifList st)(t := remove1 n ?ns)"
      using tk by (auto simp: un notifList_def fun_eq_iff)
    have "notifWf (unregisterNotifier t n st)"
      using assms(1) tk nl sd(2) c4
      by (auto simp: notifWf_def un MLX_MAX_EVENT_NOTIFIERS_def intro: le_trans [OF diff_le_self])
    with nl show ?thesis by simp
  qed
  have "dispatch alive st ty e = map (\<lambda>n. Deliver n ty e) (filter alive ?ns)"
    if "\<not> eqShuttingDown st" "unat ty = t"
    using that assms(2) c4(3) by (simp add: dispatch_def Let_def List.map_filter_def comp_def)
  with reg_ok unreg len show ?thesis by (simp add: MLX_MAX_EVENT_NOTIFIERS_def)
qed

lemma notifWf_init: "notifWf (snd (eqInit True True True n))"
  by (simp add: notifWf_def notifList_def eqInit_def Let_def)

text \<open>C12: the notifier table implements, per event type, an ordered set of at most four
  notifiers: registering appends a new one if there is room and nothing is shutting down and
  is otherwise a no-op, unregistering removes exactly that one and keeps the order of the
  rest, no other type is affected, and an event is delivered to exactly the live members of
  its type in registration order.\<close>

theorem notifier_table_refines:
  assumes "notifWf st" and "t < MLX_EVENT_TYPE_MAX"
  shows "notifWf (registerNotifier t n st) \<and> notifWf (unregisterNotifier t n st) \<and>
    notifList (registerNotifier t n st) =
      (notifList st)(t := if eqShuttingDown st \<or> n \<in> set (notifList st t) \<or>
          length (notifList st t) = MLX_MAX_EVENT_NOTIFIERS
        then notifList st t else notifList st t @ [n]) \<and>
    notifList (unregisterNotifier t n st) = (notifList st)(t := remove1 n (notifList st t)) \<and>
    (\<not> eqShuttingDown st \<longrightarrow> unat ty = t \<longrightarrow>
      dispatch alive st ty e = map (\<lambda>n. Deliver n ty e) (filter alive (notifList st t)))"
  using assms by (rule notifier_table_spec)

theorem notifier_table_refines_witness:
  "notifList (registerNotifier 0 3 (registerNotifier 0 9 (snd (eqInit True True True 1)))) 0 = [9, 3]"
proof -
  let ?s = "snd (eqInit True True True 1)"
  have t: "0 < MLX_EVENT_TYPE_MAX" by (simp add: MLX_EVENT_TYPE_MAX_def)
  note a = notifier_table_refines [OF notifWf_init t, of 9 1]
  then have wf: "notifWf (registerNotifier 0 9 ?s)" by blast
  note b = notifier_table_refines [OF wf t, of 3]
  have i: "notifList ?s 0 = []" "\<not> eqShuttingDown ?s" by (simp_all add: notifList_def eqInit_def Let_def)
  with a have l: "notifList (registerNotifier 0 9 ?s) 0 = [9]" by (simp add: MLX_MAX_EVENT_NOTIFIERS_def)
  have "\<not> eqShuttingDown (registerNotifier 0 9 ?s)"
    by (simp add: registerNotifier_def eqInit_def Let_def)
  with b l show ?thesis by (simp add: MLX_MAX_EVENT_NOTIFIERS_def)
qed

end
