(* ===== verification/MlxFwPages.thy ===== *)
theory MlxFwPages
  imports MlxCmdIfc MlxP1 MlxEQ
begin

text \<open>
  \<^verbatim>\<open>Sources/core/MlxFwPages.{hpp,cpp}\<close>: the 4 KiB pages the host lends to the firmware.
  A tracked page is a list node of the source, named by the number of the allocation that made
  it; the page list is the source's singly linked list, newest first. Allocations ask the
  oracles of \<open>FwEnv\<close>, indexed by \<open>fpTick\<close>, so that no two allocations are forced to agree.
  Commands go through the parameter \<open>xc\<close> of \<open>MlxCmdIfc\<close>. The operation lock serialises the
  page operations and the request lock the queue, so each is a function of the state; the
  interleaving of the worker with its stop is in \<open>MlxFwDrain\<close>.
\<close>

unbundle bit_operations_syntax

section \<open>Data\<close>

definition MLX_FW_PAGE_SIZE :: u64 where "MLX_FW_PAGE_SIZE = 4096"
definition MLX_FW_REQUEST_QUEUE_SIZE :: nat where "MLX_FW_REQUEST_QUEUE_SIZE = 64"
definition MLX_FW_MAX_TRACKED_PAGES :: u32 where "MLX_FW_MAX_TRACKED_PAGES = 65536"

datatype MlxFwPagePhase = kMlxFwPageBoot | kMlxFwPageInit | kMlxFwPageRuntime

datatype MlxFwPageOwnership =
    kMlxFwPageHostPrepared
  | kMlxFwPageGivePending
  | kMlxFwPageFirmwareOwned
  | kMlxFwPageReturned
  | kMlxFwPageAmbiguous

datatype MlxFwPageFault =
    kMlxFwPageFaultNone
  | kMlxFwPageFaultRequestOverflow
  | kMlxFwPageFaultMalformedEvent
  | kMlxFwPageFaultGiveTimeout
  | kMlxFwPageFaultTakeTimeout
  | kMlxFwPageFaultProtocol
  | kMlxFwPageFaultReclaimTimeout

record MlxFwPage =
  pg_id :: nat
  pg_dma :: u64
  pg_func :: u16
  pg_embedded :: bool
  pg_phase :: MlxFwPagePhase
  pg_own :: MlxFwPageOwnership

record MlxFwPageRequest =
  rq_func :: u16
  rq_embedded :: bool
  rq_releaseAll :: bool
  rq_numPages :: "32 word"     \<comment> \<open>read as signed\<close>

record MlxFwPages =
  fpPages :: "MlxFwPage list"
  fpTracked :: u32
  fpFatal :: bool
  fpFault :: MlxFwPageFault
  fpEmbedded :: bool
  fpRequests :: "MlxFwPageRequest list"
  fpHead :: nat
  fpTail :: nat
  fpCount :: nat
  fpRuntimeStarted :: bool
  fpAccept :: bool
  fpScheduled :: bool
  fpActive :: bool
  fpReschedule :: bool
  fpStopping :: bool
  fpEQ :: bool
  fpTick :: nat

text \<open>One page allocation: no memory, or the result, count, address and length of its segment.\<close>

datatype pageAlloc = PageNoMemory | PageSeg ioreturn u32 u64 u64

record FwEnv =
  fwPage :: "nat \<Rightarrow> pageAlloc"
  fwMem :: "nat \<Rightarrow> bool"

definition phaseCode :: "MlxFwPagePhase \<Rightarrow> u16" where
  "phaseCode p = (case p of kMlxFwPageBoot \<Rightarrow> 1 | kMlxFwPageInit \<Rightarrow> 2 | kMlxFwPageRuntime \<Rightarrow> 3)"

definition noRequest :: MlxFwPageRequest where
  "noRequest = \<lparr>rq_func = 0, rq_embedded = False, rq_releaseAll = False, rq_numPages = 0\<rparr>"

definition fwPagesInit :: "bool \<Rightarrow> bool \<Rightarrow> bool \<Rightarrow> bool \<Rightarrow> bool \<times> MlxFwPages" where
  "fwPagesInit opLock rqLock worker embedded =
     (opLock \<and> rqLock \<and> worker,
      \<lparr>fpPages = [], fpTracked = 0, fpFatal = False, fpFault = kMlxFwPageFaultNone,
       fpEmbedded = embedded, fpRequests = replicate MLX_FW_REQUEST_QUEUE_SIZE noRequest,
       fpHead = 0, fpTail = 0, fpCount = 0, fpRuntimeStarted = False, fpAccept = False,
       fpScheduled = False, fpActive = False, fpReschedule = False, fpStopping = False,
       fpEQ = False, fpTick = 0\<rparr>)"

section \<open>The page list\<close>

definition setFatal :: "MlxFwPageFault \<Rightarrow> MlxFwPages \<Rightarrow> MlxFwPages" where
  "setFatal fault st = st\<lparr>fpFatal := True, fpFault := fault\<rparr>"

definition tick :: "MlxFwPages \<Rightarrow> MlxFwPages" where
  "tick st = st\<lparr>fpTick := fpTick st + 1\<rparr>"

definition insertPage :: "MlxFwPage \<Rightarrow> MlxFwPages \<Rightarrow> MlxFwPages" where
  "insertPage p st = st\<lparr>fpPages := p # fpPages st\<rparr>"

fun removeNode :: "nat \<Rightarrow> MlxFwPage list \<Rightarrow> MlxFwPage list" where
  "removeNode i [] = []"
| "removeNode i (p # ps) = (if pg_id p = i then ps else p # removeNode i ps)"

definition removePage :: "nat \<Rightarrow> MlxFwPages \<Rightarrow> MlxFwPages" where
  "removePage i st = st\<lparr>fpPages := removeNode i (fpPages st)\<rparr>"

definition releasePage :: "nat \<Rightarrow> MlxFwPages \<Rightarrow> MlxFwPages" where
  "releasePage i st =
     (let st = removePage i st
      in if fpTracked st \<noteq> 0 then st\<lparr>fpTracked := fpTracked st - 1\<rparr> else st)"

definition setOwnership :: "nat list \<Rightarrow> MlxFwPageOwnership \<Rightarrow> MlxFwPages \<Rightarrow> MlxFwPages" where
  "setOwnership ids own st =
     st\<lparr>fpPages := map (\<lambda>p. if pg_id p \<in> set ids then p\<lparr>pg_own := own\<rparr> else p) (fpPages st)\<rparr>"

definition findPage :: "u64 \<Rightarrow> u16 \<Rightarrow> bool \<Rightarrow> MlxFwPages \<Rightarrow> MlxFwPage option" where
  "findPage addr func emb st =
     find (\<lambda>p. pg_dma p = addr \<and> pg_func p = func \<and> pg_embedded p = emb) (fpPages st)"

definition ofFunction :: "u16 \<Rightarrow> bool \<Rightarrow> MlxFwPage \<Rightarrow> bool" where
  "ofFunction func emb p = (pg_func p = func \<and> pg_embedded p = emb)"

definition markFunctionAmbiguous :: "u16 \<Rightarrow> bool \<Rightarrow> MlxFwPages \<Rightarrow> MlxFwPages" where
  "markFunctionAmbiguous func emb st =
     st\<lparr>fpPages := map (\<lambda>p. if ofFunction func emb p \<and> pg_own p = kMlxFwPageFirmwareOwned
          then p\<lparr>pg_own := kMlxFwPageAmbiguous\<rparr> else p) (fpPages st)\<rparr>"

definition hasOutstandingPages :: "MlxFwPages \<Rightarrow> bool" where
  "hasOutstandingPages st = list_ex (\<lambda>p. pg_own p = kMlxFwPageFirmwareOwned \<or>
     pg_own p = kMlxFwPageAmbiguous \<or> pg_own p = kMlxFwPageGivePending) (fpPages st)"

definition hasAmbiguousPages :: "MlxFwPages \<Rightarrow> bool" where
  "hasAmbiguousPages st = list_ex (\<lambda>p. pg_own p = kMlxFwPageAmbiguous \<or>
     pg_own p = kMlxFwPageGivePending) (fpPages st)"

fun releasePages :: "nat list \<Rightarrow> MlxFwPages \<Rightarrow> MlxFwPages" where
  "releasePages [] st = st"
| "releasePages (i # is) st = releasePages is (releasePage i st)"

text \<open>The release loops walk the list by its \<open>next\<close> pointers, read before each release.\<close>

definition releaseAfterDmaBoundary :: "MlxFwPages \<Rightarrow> MlxFwPages" where
  "releaseAfterDmaBoundary st = releasePages (map pg_id (fpPages st)) st"

definition releaseAllForFunction :: "u16 \<Rightarrow> bool \<Rightarrow> MlxFwPages \<Rightarrow> MlxFwPages" where
  "releaseAllForFunction func emb st =
     (let ids = map pg_id (filter (\<lambda>p. ofFunction func emb p \<and>
                  pg_own p = kMlxFwPageFirmwareOwned) (fpPages st))
      in foldl (\<lambda>s i. releasePage i (setOwnership [i] kMlxFwPageReturned s)) st ids)"

section \<open>Giving pages\<close>

definition allocatePage ::
  "FwEnv \<Rightarrow> u16 \<Rightarrow> bool \<Rightarrow> MlxFwPagePhase \<Rightarrow> MlxFwPages \<Rightarrow> ioreturn \<times> nat option \<times> MlxFwPages" where
  "allocatePage env func emb ph st =
     (let k = fpTick st; st = tick st
      in case fwPage env k of
           PageNoMemory \<Rightarrow> (kIOReturnNoMemory, None, st)
         | PageSeg kr count addr len \<Rightarrow>
             if kr \<noteq> kIOReturnSuccess \<or> count \<noteq> 1 \<or> len < MLX_FW_PAGE_SIZE \<or> addr = 0 \<or>
                addr AND (MLX_FW_PAGE_SIZE - 1) \<noteq> 0
             then (kIOReturnNoSpace, None, st)
             else
               (let st = insertPage \<lparr>pg_id = k, pg_dma = addr, pg_func = func, pg_embedded = emb,
                           pg_phase = ph, pg_own = kMlxFwPageHostPrepared\<rparr> st
                in (kIOReturnSuccess, Some k, st\<lparr>fpTracked := fpTracked st + 1\<rparr>)))"

definition pageDma :: "MlxFwPages \<Rightarrow> nat \<Rightarrow> u64" where
  "pageDma st i = (case find (\<lambda>p. pg_id p = i) (fpPages st) of Some p \<Rightarrow> pg_dma p | None \<Rightarrow> 0)"

definition giveBatch ::
  "'w execFn \<Rightarrow> FwEnv \<Rightarrow> nat list \<Rightarrow> u16 \<Rightarrow> bool \<Rightarrow> MlxFwPages \<Rightarrow> 'w \<Rightarrow> ioreturn \<times> MlxFwPages \<times> 'w" where
  "giveBatch xc env ids func emb st w =
     (let count = (of_nat (length ids) :: u32); inputSize = mlxP1ManagePagesSize count
      in if count = 0 \<or> inputSize = 0 then (kIOReturnBadArgument, st, w)
         else if \<not> fwMem env (fpTick st) then (kIOReturnNoMemory, tick st, w)
         else
           (let st = tick st;
                zero = replicate (unat inputSize) 0;
                addresses = map (pageDma st) ids;
                st = setOwnership ids kMlxFwPageGivePending st;
                inb = (case mlxP1EncodeManagePages (Some zero) (unat inputSize) MLX_P1_PAGES_GIVE
                         func emb (Some addresses) count of Some b \<Rightarrow> b | None \<Rightarrow> zero);
                (kr, out, w) = xc w MLX_CMD_OP_MANAGE_PAGES inb 16 5000;
                st = setOwnership ids
                       (if kr = kIOReturnSuccess then kMlxFwPageFirmwareOwned
                        else if kr = kIOReturnTimeout then kMlxFwPageAmbiguous
                        else kMlxFwPageHostPrepared) st;
                st = (if kr = kIOReturnTimeout then setFatal kMlxFwPageFaultGiveTimeout st else st)
            in (kr, st, w)))"

definition notifyAllocationFailure ::
  "'w execFn \<Rightarrow> u16 \<Rightarrow> bool \<Rightarrow> 'w \<Rightarrow> ioreturn \<times> 'w" where
  "notifyAllocationFailure xc func emb w =
     (let zero = replicate 16 0;
          inb = (case mlxP1EncodeManagePages (Some zero) 16 MLX_P1_PAGES_ALLOCATION_FAIL func emb
                   None 0 of Some b \<Rightarrow> b | None \<Rightarrow> zero);
          (kr, out, w) = xc w MLX_CMD_OP_MANAGE_PAGES inb 16 5000
      in (kr, w))"

definition notifyIf :: "bool \<Rightarrow> 'w execFn \<Rightarrow> u16 \<Rightarrow> bool \<Rightarrow> 'w \<Rightarrow> 'w" where
  "notifyIf b xc func emb w = (if b then snd (notifyAllocationFailure xc func emb w) else w)"

fun allocatePages ::
  "FwEnv \<Rightarrow> u16 \<Rightarrow> bool \<Rightarrow> MlxFwPagePhase \<Rightarrow> nat \<Rightarrow> nat list \<Rightarrow> MlxFwPages \<Rightarrow>
   ioreturn \<times> nat list \<times> MlxFwPages" where
  "allocatePages env func emb ph 0 ids st = (kIOReturnSuccess, ids, st)"
| "allocatePages env func emb ph (Suc n) ids st =
     (case allocatePage env func emb ph st of
        (kr, i, st) \<Rightarrow>
          if kr \<noteq> kIOReturnSuccess then (kr, ids, st)
          else allocatePages env func emb ph n (ids @ [the i]) st)"

definition hostPrepared :: "MlxFwPages \<Rightarrow> nat \<Rightarrow> bool" where
  "hostPrepared st i = list_ex (\<lambda>p. pg_id p = i \<and> pg_own p = kMlxFwPageHostPrepared) (fpPages st)"

text \<open>The batch loop over \<open>pages[start ..]\<close>; \<open>started\<close> says whether \<open>start\<close> is non-zero.\<close>

function giveBatches ::
  "'w execFn \<Rightarrow> FwEnv \<Rightarrow> bool \<Rightarrow> nat list \<Rightarrow> u16 \<Rightarrow> bool \<Rightarrow> MlxFwPages \<Rightarrow> 'w \<Rightarrow>
   ioreturn \<times> MlxFwPages \<times> 'w" where
  "giveBatches xc env started ids func emb st w =
     (if ids = [] then (kIOReturnSuccess, st, w)
      else
        (case giveBatch xc env (take (unat MLX_P1_MAX_MANAGE_PAGES) ids) func emb st w of
           (kr, st, w) \<Rightarrow>
             if kr \<noteq> kIOReturnSuccess
             then
               (let st = foldl (\<lambda>s i. if hostPrepared s i then releasePage i s else s) st ids
                in (kr, if started then setFatal kMlxFwPageFaultProtocol st else st, w))
             else giveBatches xc env True (drop (unat MLX_P1_MAX_MANAGE_PAGES) ids) func emb st w))"
  by pat_completeness auto
termination
  by (relation "measure (\<lambda>(xc, env, started, ids, func, emb, st, w). length ids)")
    (auto simp: MLX_P1_MAX_MANAGE_PAGES_def)

definition givePages ::
  "'w execFn \<Rightarrow> FwEnv \<Rightarrow> u16 \<Rightarrow> bool \<Rightarrow> u32 \<Rightarrow> MlxFwPagePhase \<Rightarrow> bool \<Rightarrow> MlxFwPages \<Rightarrow> 'w \<Rightarrow>
   ioreturn \<times> MlxFwPages \<times> 'w" where
  "givePages xc env func emb pageCount ph notify st w =
     (if pageCount = 0 then (kIOReturnSuccess, st, w)
      else if MLX_FW_MAX_TRACKED_PAGES < pageCount \<or>
              MLX_FW_MAX_TRACKED_PAGES - pageCount < fpTracked st
      then (kIOReturnNoResources, st, notifyIf notify xc func emb w)
      else if \<not> fwMem env (fpTick st)
      then (kIOReturnNoMemory, tick st, notifyIf notify xc func emb w)
      else
        (case allocatePages env func emb ph (unat pageCount) [] (tick st) of
           (kr, ids, st) \<Rightarrow>
             if kr \<noteq> kIOReturnSuccess
             then (kr, releasePages ids st, notifyIf notify xc func emb w)
             else giveBatches xc env False ids func emb st w))"

definition queryPages ::
  "'w execFn \<Rightarrow> MlxFwPagePhase \<Rightarrow> MlxFwPages \<Rightarrow> 'w \<Rightarrow> ioreturn \<times> (u16 \<times> bool \<times> u32) \<times> 'w" where
  "queryPages xc ph st w =
     (if ph \<noteq> kMlxFwPageBoot \<and> ph \<noteq> kMlxFwPageInit then (kIOReturnBadArgument, (0, False, 0), w)
      else
        (case mlxP1EncodeQueryPages (Some (replicate 16 0)) 16 (phaseCode ph) (fpEmbedded st) of
           None \<Rightarrow> (kIOReturnBadArgument, (0, False, 0), w)
         | Some inb \<Rightarrow>
             (case xc w MLX_CMD_OP_QUERY_PAGES inb 16 5000 of
                (kr, out, w) \<Rightarrow>
                  if kr \<noteq> kIOReturnSuccess then (kr, (0, False, 0), w)
                  else
                    (let pages = (ucast (mlxGetBits out 0x60 32) :: u32)
                     in if sint pages < 0 then (kIOReturnIOError, (0, False, 0), w)
                        else (kIOReturnSuccess,
                          (ucast (mlxGetBits out 0x50 16), mlxGetBits out 0x40 1 \<noteq> 0, pages), w)))))"

definition satisfyStartupPages ::
  "'w execFn \<Rightarrow> FwEnv \<Rightarrow> MlxFwPagePhase \<Rightarrow> MlxFwPages \<Rightarrow> 'w \<Rightarrow> ioreturn \<times> MlxFwPages \<times> 'w" where
  "satisfyStartupPages xc env ph st w =
     (case queryPages xc ph st w of
        (kr, (func, emb, pageCount), w) \<Rightarrow>
          if kr = kIOReturnSuccess \<and> pageCount \<noteq> 0
          then givePages xc env func emb pageCount ph False st w
          else (kr, st, w))"

section \<open>Taking pages back\<close>

text \<open>
  The validation loop over the reply: the nodes named by the first \<open>n\<close> addresses, or \<open>None\<close>
  where the source jumps to \<open>protocol\<close>.
\<close>

fun validatePages ::
  "buffer \<Rightarrow> u16 \<Rightarrow> bool \<Rightarrow> MlxFwPages \<Rightarrow> nat \<Rightarrow> nat \<Rightarrow> nat list \<Rightarrow> nat list option" where
  "validatePages out func emb st i 0 acc = Some acc"
| "validatePages out func emb st i (Suc n) acc =
     (let address = mlxGetBits out (0x80 + i * 64) 64
      in case findPage address func emb st of
           None \<Rightarrow> None
         | Some p \<Rightarrow>
             if address = 0 \<or> address AND (MLX_FW_PAGE_SIZE - 1) \<noteq> 0 \<or>
                pg_own p \<noteq> kMlxFwPageFirmwareOwned \<or> pg_id p \<in> set acc
             then None
             else validatePages out func emb st (Suc i) n (acc @ [pg_id p]))"

definition takePages ::
  "'w execFn \<Rightarrow> FwEnv \<Rightarrow> u16 \<Rightarrow> bool \<Rightarrow> u32 \<Rightarrow> MlxFwPages \<Rightarrow> 'w \<Rightarrow> ioreturn \<times> u32 \<times> MlxFwPages \<times> 'w" where
  "takePages xc env func emb requested st w =
     (if requested = 0 \<or> MLX_P1_MAX_MANAGE_PAGES < requested then (kIOReturnBadArgument, 0, st, w)
      else if \<not> fwMem env (fpTick st) then (kIOReturnNoMemory, 0, tick st, w)
      else
        (let st = tick st;
             zero = replicate 16 0;
             inb = (case mlxP1EncodeManagePages (Some zero) 16 MLX_P1_PAGES_TAKE func emb None requested
                      of Some b \<Rightarrow> b | None \<Rightarrow> zero)
         in case xc w MLX_CMD_OP_MANAGE_PAGES inb (unat (mlxP1ManagePagesSize requested)) 5000 of
              (kr, out, w) \<Rightarrow>
                if kr = kIOReturnTimeout
                then (kr, 0, setFatal kMlxFwPageFaultTakeTimeout (markFunctionAmbiguous func emb st), w)
                else if kr \<noteq> kIOReturnSuccess then (kr, 0, st, w)
                else
                  (let count = (ucast (mlxGetBits out 0x40 32) :: u32)
                   in case (if requested < count then None
                            else validatePages out func emb st 0 (unat count) []) of
                        None \<Rightarrow> (kIOReturnIOError, 0,
                          setFatal kMlxFwPageFaultProtocol (markFunctionAmbiguous func emb st), w)
                      | Some ids \<Rightarrow> (kIOReturnSuccess, count,
                          foldl (\<lambda>s i. releasePage i (setOwnership [i] kMlxFwPageReturned s)) st ids, w))))"

text \<open>
  The loop of \<open>reclaimAll\<close>; \<open>None\<close> when it does not end. \<open>waited\<close> is a 32-bit counter that
  can wrap.
\<close>

definition firmwareOwned :: "MlxFwPage \<Rightarrow> bool" where
  "firmwareOwned p = (pg_own p = kMlxFwPageFirmwareOwned)"

partial_function (option) reclaimLoop ::
  "'w execFn \<Rightarrow> FwEnv \<Rightarrow> u32 \<Rightarrow> u32 \<Rightarrow> MlxFwPages \<Rightarrow> 'w \<Rightarrow> (ioreturn \<times> MlxFwPages \<times> 'w) option" where
  "reclaimLoop xc env timeoutMs waited st w =
     (case find firmwareOwned (fpPages st) of
        None \<Rightarrow> Some (kIOReturnSuccess, st, w)
      | Some first \<Rightarrow>
          (let func = pg_func first; emb = pg_embedded first;
               n = (of_nat (length (filter (\<lambda>p. firmwareOwned p \<and> ofFunction func emb p)
                      (fpPages st))) :: u32);
               (kr, returned, st, w) = takePages xc env func emb
                  (if MLX_P1_MAX_MANAGE_PAGES < n then MLX_P1_MAX_MANAGE_PAGES else n) st w
           in if kr \<noteq> kIOReturnSuccess then Some (kr, st, w)
              else if returned \<noteq> 0 then reclaimLoop xc env timeoutMs 0 st w
              else if timeoutMs \<le> waited
              then Some (kIOReturnTimeout,
                     setFatal kMlxFwPageFaultReclaimTimeout (markFunctionAmbiguous func emb st), w)
              else reclaimLoop xc env timeoutMs (waited + 50) st w))"

definition reclaimAll ::
  "'w execFn \<Rightarrow> FwEnv \<Rightarrow> u32 \<Rightarrow> MlxFwPages \<Rightarrow> 'w \<Rightarrow> (ioreturn \<times> MlxFwPages \<times> 'w) option" where
  "reclaimAll xc env timeoutMs st w =
     map_option (\<lambda>(kr, st, w).
         (if hasAmbiguousPages st \<and> kr = kIOReturnSuccess then kIOReturnNotReady else kr, st, w))
       (reclaimLoop xc env timeoutMs 0 st w)"

section \<open>The request queue and the worker\<close>

definition enqueueRequest :: "MlxFwPageRequest \<Rightarrow> MlxFwPages \<Rightarrow> bool \<times> MlxFwPages" where
  "enqueueRequest rq st =
     (if fpAccept st \<and> \<not> fpStopping st \<and> fpCount st < MLX_FW_REQUEST_QUEUE_SIZE
      then (True, st\<lparr>fpRequests := (fpRequests st)[fpTail st := rq],
              fpTail := (fpTail st + 1) mod MLX_FW_REQUEST_QUEUE_SIZE,
              fpCount := fpCount st + 1\<rparr>)
      else (False, st))"

definition dequeueRequest :: "MlxFwPages \<Rightarrow> MlxFwPageRequest option \<times> MlxFwPages" where
  "dequeueRequest st =
     (if fpCount st \<noteq> 0
      then (Some (fpRequests st ! fpHead st),
            st\<lparr>fpHead := (fpHead st + 1) mod MLX_FW_REQUEST_QUEUE_SIZE, fpCount := fpCount st - 1\<rparr>)
      else (None, st))"

text \<open>Whether \<open>thread_call_enter\<close> is called, and the state.\<close>

definition scheduleWorker :: "MlxFwPages \<Rightarrow> bool \<times> MlxFwPages" where
  "scheduleWorker st =
     (if fpActive st then (False, st\<lparr>fpReschedule := True\<rparr>)
      else if \<not> fpScheduled st then (True, st\<lparr>fpScheduled := True\<rparr>)
      else (False, st))"

text \<open>The take loop of \<open>processRequest\<close>: every round takes at least one page off \<open>remaining\<close>.\<close>

fun takeLoop ::
  "'w execFn \<Rightarrow> FwEnv \<Rightarrow> u16 \<Rightarrow> bool \<Rightarrow> nat \<Rightarrow> u32 \<Rightarrow> MlxFwPages \<Rightarrow> 'w \<Rightarrow> ioreturn \<times> MlxFwPages \<times> 'w" where
  "takeLoop xc env func emb 0 remaining st w = (kIOReturnSuccess, st, w)"
| "takeLoop xc env func emb (Suc fuel) remaining st w =
     (if remaining = 0 then (kIOReturnSuccess, st, w)
      else
        (case takePages xc env func emb
                (if MLX_P1_MAX_MANAGE_PAGES < remaining then MLX_P1_MAX_MANAGE_PAGES else remaining) st w of
           (kr, returned, st, w) \<Rightarrow>
             if kr \<noteq> kIOReturnSuccess then (kr, st, w)
             else if returned = 0
             then (kIOReturnIOError,
                   setFatal kMlxFwPageFaultProtocol (markFunctionAmbiguous func emb st), w)
             else takeLoop xc env func emb fuel (remaining - returned) st w))"

definition INT32_MIN :: u32 where "INT32_MIN = 0x80000000"

definition processRequest ::
  "'w execFn \<Rightarrow> FwEnv \<Rightarrow> MlxFwPageRequest \<Rightarrow> MlxFwPages \<Rightarrow> 'w \<Rightarrow> ioreturn \<times> MlxFwPages \<times> 'w" where
  "processRequest xc env rq st w =
     (if rq_releaseAll rq
      then (kIOReturnSuccess, releaseAllForFunction (rq_func rq) (rq_embedded rq) st, w)
      else if 0 < sint (rq_numPages rq)
      then givePages xc env (rq_func rq) (rq_embedded rq) (rq_numPages rq) kMlxFwPageRuntime True st w
      else if sint (rq_numPages rq) < 0 \<and> rq_numPages rq \<noteq> INT32_MIN
      then takeLoop xc env (rq_func rq) (rq_embedded rq) (unat (- rq_numPages rq))
             (- rq_numPages rq) st w
      else (kIOReturnBadArgument, setFatal kMlxFwPageFaultMalformedEvent st, w))"

text \<open>The loop of \<open>workerMain\<close>, \<open>n\<close> bounding the requests it can find; an error drops the rest.\<close>

fun workerLoop :: "'w execFn \<Rightarrow> FwEnv \<Rightarrow> nat \<Rightarrow> MlxFwPages \<Rightarrow> 'w \<Rightarrow> MlxFwPages \<times> 'w" where
  "workerLoop xc env 0 st w = (st, w)"
| "workerLoop xc env (Suc n) st w =
     (case dequeueRequest st of
        (None, st) \<Rightarrow> (st, w)
      | (Some rq, st) \<Rightarrow>
          (case processRequest xc env rq st w of
             (kr, st, w) \<Rightarrow>
               if kr \<noteq> kIOReturnSuccess then (st\<lparr>fpHead := fpTail st, fpCount := 0\<rparr>, w)
               else workerLoop xc env n st w))"

text \<open>Whether the worker re-enters its thread call, and the fault it quarantines for.\<close>

definition workerMain ::
  "'w execFn \<Rightarrow> FwEnv \<Rightarrow> MlxFwPages \<Rightarrow> 'w \<Rightarrow> bool \<times> MlxFwPageFault option \<times> MlxFwPages \<times> 'w" where
  "workerMain xc env st w =
     (let st = st\<lparr>fpScheduled := False, fpActive := True\<rparr>;
          (st, w) = workerLoop xc env (fpCount st) st w;
          again = (fpReschedule st \<or> fpCount st \<noteq> 0) \<and> \<not> fpStopping st;
          st = st\<lparr>fpActive := False, fpReschedule := False,
                  fpScheduled := again \<or> fpScheduled st\<rparr>
      in (again, if fpFatal st then Some (fpFault st) else None, st, w))"

definition startRuntime :: "bool \<Rightarrow> MlxFwPages \<Rightarrow> ioreturn \<times> MlxFwPages" where
  "startRuntime eq st =
     (if \<not> eq \<or> fpRuntimeStarted st then (kIOReturnBadArgument, st)
      else (kIOReturnSuccess, st\<lparr>fpEQ := True, fpStopping := False, fpAccept := True,
              fpRuntimeStarted := True\<rparr>))"

text \<open>
  With the worker idle (no interleaving), the stop runs it once more and then looks; \<open>None\<close>
  is the wait that never sees the queue drained.
\<close>

definition stopRuntimeAndDrain ::
  "'w execFn \<Rightarrow> FwEnv \<Rightarrow> MlxFwPages \<Rightarrow> 'w \<Rightarrow> (MlxFwPages \<times> 'w) option" where
  "stopRuntimeAndDrain xc env st w =
     (if \<not> fpRuntimeStarted st then Some (st, w)
      else
        (let (call, st) = scheduleWorker (st\<lparr>fpAccept := False, fpStopping := True\<rparr>);
             (again, fault, st, w) =
               (if fpScheduled st then workerMain xc env st w else (False, None, st, w))
         in if \<not> fpActive st \<and> \<not> fpScheduled st \<and> \<not> fpReschedule st \<and> fpCount st = 0
            then Some (st\<lparr>fpRuntimeStarted := False, fpEQ := False\<rparr>, w)
            else None))"

definition fwPagesFree :: "'w execFn \<Rightarrow> FwEnv \<Rightarrow> MlxFwPages \<Rightarrow> 'w \<Rightarrow> (MlxFwPages \<times> 'w) option" where
  "fwPagesFree xc env st w =
     map_option (\<lambda>(st, w).
         (releasePages (map pg_id (filter (\<lambda>p. pg_own p = kMlxFwPageHostPrepared \<or>
              pg_own p = kMlxFwPageReturned) (fpPages st))) st, w))
       (stopRuntimeAndDrain xc env st w)"

text \<open>The data words of a page-request event: \<open>ec_function\<close> and \<open>function_id\<close> share the first.\<close>

definition handleEvent :: "u8 \<Rightarrow> u32 list \<Rightarrow> MlxFwPages \<Rightarrow> bool \<times> MlxFwPages" where
  "handleEvent ty data st =
     (if ty \<noteq> MLX_EVENT_TYPE_PAGE_REQUEST then (False, st)
      else
        (let flags = (ucast (drop_bit 16 (data ! 0)) :: u16);
             rq = \<lparr>rq_func = ucast (data ! 0), rq_embedded = flags AND 0x8000 \<noteq> 0,
                   rq_releaseAll = flags AND 0x4000 \<noteq> 0, rq_numPages = data ! 1\<rparr>
         in if (\<not> rq_releaseAll rq \<and> rq_numPages rq = 0) \<or> rq_numPages rq = INT32_MIN
            then scheduleWorker (setFatal kMlxFwPageFaultMalformedEvent st)
            else (case enqueueRequest rq st of
                    (queued, st) \<Rightarrow>
                      scheduleWorker (if queued then st else setFatal kMlxFwPageFaultRequestOverflow st))))"

end
