(* ===== verification/MlxRing.thy ===== *)
theory MlxRing
  imports MlxPrelude
begin

text \<open>
  The bounded queues of the driver: fixed arrays with a head index and a count or a tail
  index. \<open>ringList\<close> is the content; the locale \<open>bounded_fifo\<close> is what the users of a queue
  rely on, and its one consequence is that nothing accepted is lost, duplicated or reordered
  over any sequence of operations.
\<close>

definition ringList :: "nat \<Rightarrow> 'a list \<Rightarrow> nat \<Rightarrow> nat \<Rightarrow> 'a list" where
  "ringList n buf head count = map (\<lambda>k. buf ! ((head + k) mod n)) [0..<count]"

lemma length_ringList [simp]: "length (ringList n buf head count) = count"
  by (simp add: ringList_def)

lemma ring_index_inj:
  fixes h j k n :: nat
  assumes "j < k" and "k < n"
  shows "(h + j) mod n \<noteq> (h + k) mod n"
proof
  assume "(h + j) mod n = (h + k) mod n"
  moreover have "h + j \<le> h + k" using assms(1) by simp
  ultimately have "n dvd (h + k) - (h + j)" by (metis mod_eq_dvd_iff_nat)
  with assms show False by (auto dest: dvd_imp_le)
qed

lemma ringList_put:
  assumes "count < n" and "length buf = n"
  shows "ringList n (buf[(head + count) mod n := x]) head (Suc count) = ringList n buf head count @ [x]"
proof -
  have "buf[(head + count) mod n := x] ! ((head + k) mod n) = buf ! ((head + k) mod n)" if "k < count" for k
    using ring_index_inj [OF that assms(1), of head] by simp
  moreover have "buf[(head + count) mod n := x] ! ((head + count) mod n) = x" using assms by simp
  ultimately show ?thesis by (simp add: ringList_def)
qed

lemma ringList_0 [simp]: "ringList n buf head 0 = []"
  by (simp add: ringList_def)

lemma ringList_get:
  assumes "head < n"
  shows "ringList n buf head (Suc count) = buf ! head # ringList n buf ((head + 1) mod n) count"
proof -
  have "(head + Suc k) mod n = ((head + 1) mod n + k) mod n" for k by (simp add: mod_add_left_eq)
  then show ?thesis using assms by (simp only: ringList_def map_upt_Suc) simp
qed

text \<open>A sequence of operations: what was taken out, what was accepted, and the final state.\<close>

datatype 'a fifoOp = Put 'a | Get

fun fifoRun :: "('a \<Rightarrow> 's \<Rightarrow> 's) \<Rightarrow> ('s \<Rightarrow> bool) \<Rightarrow> ('s \<Rightarrow> 'a option \<times> 's) \<Rightarrow> 'a fifoOp list \<Rightarrow> 's \<Rightarrow>
    'a list \<times> 'a list \<times> 's" where
  "fifoRun put accepts get [] s = ([], [], s)"
| "fifoRun put accepts get (Put x # ops) s =
     (case fifoRun put accepts get ops (put x s) of
        (del, acc, s') \<Rightarrow> (del, (if accepts s then x # acc else acc), s'))"
| "fifoRun put accepts get (Get # ops) s =
     (case get s of
        (r, s) \<Rightarrow>
          (case fifoRun put accepts get ops s of
             (del, acc, s') \<Rightarrow> ((case r of None \<Rightarrow> del | Some x \<Rightarrow> x # del), acc, s')))"

locale bounded_fifo =
  fixes content :: "'s \<Rightarrow> 'a list"
    and inv :: "'s \<Rightarrow> bool"
    and accepts :: "'s \<Rightarrow> bool"
    and put :: "'a \<Rightarrow> 's \<Rightarrow> 's"
    and get :: "'s \<Rightarrow> 'a option \<times> 's"
  assumes put_inv: "inv s \<Longrightarrow> inv (put x s)"
    and put_content: "inv s \<Longrightarrow> content (put x s) = (if accepts s then content s @ [x] else content s)"
    and get_inv: "inv s \<Longrightarrow> inv (snd (get s))"
    and get_empty: "inv s \<Longrightarrow> content s = [] \<Longrightarrow> get s = (None, s)"
    and get_first: "inv s \<Longrightarrow> content s = x # xs \<Longrightarrow> fst (get s) = Some x \<and> content (snd (get s)) = xs"
begin

lemma run_fifo:
  "inv s \<Longrightarrow> fifoRun put accepts get ops s = (del, acc, s') \<Longrightarrow>
   inv s' \<and> content s @ acc = del @ content s'"
proof (induction ops arbitrary: s del acc)
  case Nil
  then show ?case by simp
next
  case (Cons op ops)
  show ?case
  proof (cases op)
    case (Put x)
    obtain del1 acc1 where r: "fifoRun put accepts get ops (put x s) = (del1, acc1, s')"
      using Cons.prems(2) Put by (auto split: prod.splits)
    from Cons.IH [OF put_inv [OF Cons.prems(1)] r] Cons.prems(2) Put r put_content [OF Cons.prems(1), of x]
    show ?thesis by (auto split: if_splits)
  next
    case Get
    obtain q s1 where g: "get s = (q, s1)" by fastforce
    obtain del1 acc1 where r: "fifoRun put accepts get ops s1 = (del1, acc1, s')"
      using Cons.prems(2) Get g by (auto split: prod.splits)
    have "inv s1" using get_inv [OF Cons.prems(1)] g by simp
    note ih = Cons.IH [OF this r]
    show ?thesis
    proof (cases "content s")
      case Nil
      with get_empty [OF Cons.prems(1)] g have "q = None" "s1 = s" by simp_all
      then show ?thesis using ih Cons.prems(2) Get g r Nil by auto
    next
      case (Cons x xs)
      with get_first [OF \<open>inv s\<close>] g have "q = Some x" "content s1 = xs" by auto
      then show ?thesis using ih \<open>fifoRun put accepts get (op # ops) s = _\<close> Get g r Cons by auto
    qed
  qed
qed

end

end
