(* ===== verification/MlxFwPagesProps.thy ===== *)
theory MlxFwPagesProps
  imports MlxFwPages MlxRing
begin

text \<open>
  What the page accounting of \<open>MlxFwPages\<close> guarantees: the list and its counter agree, a
  page's identity is never reused, pages whose owner is in doubt stay with the driver until
  the DMA boundary, and the exact effect of giving, taking and reclaiming.
\<close>

unbundle bit_operations_syntax

section \<open>The invariant and the pages as a map\<close>

definition pageOf :: "MlxFwPages \<Rightarrow> nat \<Rightarrow> MlxFwPage option" where
  "pageOf st i = find (\<lambda>p. pg_id p = i) (fpPages st)"

definition fpInv :: "MlxFwPages \<Rightarrow> bool" where
  "fpInv st \<longleftrightarrow> distinct (map pg_id (fpPages st)) \<and> (\<forall>p \<in> set (fpPages st). pg_id p < fpTick st) \<and>
     unat (fpTracked st) = length (fpPages st) \<and> length (fpPages st) \<le> 65536"

lemma find_distinct:
  "distinct (map f ps) \<Longrightarrow> find (\<lambda>p. f p = i) ps = Some p \<longleftrightarrow> p \<in> set ps \<and> f p = i"
  by (induction ps) (auto simp: image_iff)

lemma pageOf_Some: "fpInv st \<Longrightarrow> pageOf st i = Some p \<longleftrightarrow> p \<in> set (fpPages st) \<and> pg_id p = i"
  by (simp add: pageOf_def fpInv_def find_distinct)

lemma pageOf_None: "pageOf st i = None \<longleftrightarrow> i \<notin> pg_id ` set (fpPages st)"
  by (auto simp: pageOf_def find_None_iff)

lemma pageOf_id: "pageOf st i = Some p \<Longrightarrow> pg_id p = i"
  by (auto simp: pageOf_def find_Some_iff)

lemma pageOf_cong [simp]:
  "pageOf (st\<lparr>fpFatal := a\<rparr>) = pageOf st" "pageOf (st\<lparr>fpFault := f\<rparr>) = pageOf st"
  "pageOf (st\<lparr>fpTick := t\<rparr>) = pageOf st" "pageOf (st\<lparr>fpTracked := n\<rparr>) = pageOf st"
  by (simp_all add: pageOf_def fun_eq_iff)

lemma pageOf_fresh: "fpInv st \<Longrightarrow> fpTick st \<le> i \<Longrightarrow> pageOf st i = None"
  by (auto simp: pageOf_None fpInv_def)

lemma fpInv_tick [simp]: "fpInv st \<Longrightarrow> fpInv (tick st)" "pageOf (tick st) = pageOf st"
  "fpTick (tick st) = Suc (fpTick st)" "fpTracked (tick st) = fpTracked st"
  "fpPages (tick st) = fpPages st" "fpFatal (tick st) = fpFatal st"
  by (auto simp: tick_def fpInv_def less_Suc_eq)

lemma fpInv_setFatal [simp]: "fpInv (setFatal f st) = fpInv st" "pageOf (setFatal f st) = pageOf st"
  "fpTick (setFatal f st) = fpTick st" "fpFatal (setFatal f st)"
  "fpPages (setFatal f st) = fpPages st"
  by (simp_all add: setFatal_def fpInv_def)

lemma removeNode_filter:
  "distinct (map pg_id ps) \<Longrightarrow> removeNode i ps = filter (\<lambda>p. pg_id p \<noteq> i) ps"
  by (induction ps) (auto simp: image_iff filter_id_conv intro!: filter_True [symmetric])

lemma length_removeNode:
  "i \<in> pg_id ` set ps \<Longrightarrow> length ps = Suc (length (removeNode i ps))"
  by (induction ps) auto

lemma releasePage_fields [simp]:
  "fpTick (releasePage i st) = fpTick st" "fpFatal (releasePage i st) = fpFatal st"
  "fpPages (releasePage i st) = removeNode i (fpPages st)"
  by (simp_all add: releasePage_def removePage_def Let_def)

lemma releasePage_spec:
  assumes "fpInv st" and "pageOf st i \<noteq> None"
  shows "fpInv (releasePage i st)" and "pageOf (releasePage i st) = (pageOf st)(i := None)"
proof -
  have m: "i \<in> pg_id ` set (fpPages st)" using assms(2) by (simp add: pageOf_None)
  have d: "distinct (map pg_id (fpPages st))" using assms(1) by (simp add: fpInv_def)
  have n: "fpTracked st \<noteq> 0"
    using assms(1) m by (auto simp: fpInv_def)
  have "unat (fpTracked st - 1) = unat (fpTracked st) - 1"
    using n by (simp add: unat_minus_one)
  then show "fpInv (releasePage i st)"
    using assms(1) n length_removeNode [OF m] removeNode_filter [OF d, of i]
    by (auto simp: fpInv_def releasePage_def removePage_def Let_def distinct_map_filter)
  show "pageOf (releasePage i st) = (pageOf st)(i := None)"
  proof
    fix j
    have f: "find (\<lambda>p. pg_id p = j) (filter (\<lambda>p. pg_id p \<noteq> i) ps) =
        (if j = i then None else find (\<lambda>p. pg_id p = j) ps)" for ps
      by (induction ps) auto
    show "pageOf (releasePage i st) j = ((pageOf st)(i := None)) j"
      by (simp add: pageOf_def removeNode_filter [OF d] f)
  qed
qed

definition withOwner :: "MlxFwPageOwnership \<Rightarrow> MlxFwPage \<Rightarrow> MlxFwPage" where
  "withOwner own p = p\<lparr>pg_own := own\<rparr>"

lemma withOwner_fields [simp]: "pg_id (withOwner own p) = pg_id p" "pg_own (withOwner own p) = own"
  "pg_func (withOwner own p) = pg_func p" "pg_embedded (withOwner own p) = pg_embedded p"
  "pg_dma (withOwner own p) = pg_dma p" "pg_phase (withOwner own p) = pg_phase p"
  "withOwner a (withOwner own p) = withOwner a p"
  by (simp_all add: withOwner_def)

lemma map_upd_spec:
  assumes "\<And>p. pg_id (g p) = pg_id p"
  shows "fpInv (st\<lparr>fpPages := map g (fpPages st)\<rparr>) = fpInv st"
    and "pageOf (st\<lparr>fpPages := map g (fpPages st)\<rparr>) i = map_option g (pageOf st i)"
proof -
  have "map pg_id (map g ps) = map pg_id ps" for ps using assms by simp
  then show "fpInv (st\<lparr>fpPages := map g (fpPages st)\<rparr>) = fpInv st"
    using assms by (simp add: fpInv_def comp_def)
  have "find (\<lambda>p. pg_id p = i) (map g ps) = map_option g (find (\<lambda>p. pg_id p = i) ps)" for ps
    using assms by (induction ps) auto
  then show "pageOf (st\<lparr>fpPages := map g (fpPages st)\<rparr>) i = map_option g (pageOf st i)"
    by (simp add: pageOf_def)
qed

lemma setOwnership_spec [simp]:
  "fpInv (setOwnership ids own st) = fpInv st"
  "pageOf (setOwnership ids own st) i =
     (if i \<in> set ids then map_option (withOwner own) (pageOf st i) else pageOf st i)"
  "fpTick (setOwnership ids own st) = fpTick st" "fpTracked (setOwnership ids own st) = fpTracked st"
  "fpFatal (setOwnership ids own st) = fpFatal st"
proof -
  let ?g = "\<lambda>p. if pg_id p \<in> set ids then p\<lparr>pg_own := own\<rparr> else p"
  have g: "pg_id (?g p) = pg_id p" for p by simp
  show "fpInv (setOwnership ids own st) = fpInv st"
    unfolding setOwnership_def by (rule map_upd_spec(1) [OF g])
  have "map_option ?g (pageOf st i) =
      (if i \<in> set ids then map_option (withOwner own) (pageOf st i) else pageOf st i)"
    by (cases "pageOf st i") (auto simp: withOwner_def dest: pageOf_id)
  then show "pageOf (setOwnership ids own st) i =
     (if i \<in> set ids then map_option (withOwner own) (pageOf st i) else pageOf st i)"
    unfolding setOwnership_def map_upd_spec(2) [of ?g, OF g] .
qed (simp_all add: setOwnership_def)

lemma markFunctionAmbiguous_spec [simp]:
  "fpInv (markFunctionAmbiguous func emb st) = fpInv st"
  "pageOf (markFunctionAmbiguous func emb st) i =
     map_option (\<lambda>p. if ofFunction func emb p \<and> pg_own p = kMlxFwPageFirmwareOwned
        then withOwner kMlxFwPageAmbiguous p else p) (pageOf st i)"
  "fpTick (markFunctionAmbiguous func emb st) = fpTick st"
proof -
  let ?g = "\<lambda>p. if ofFunction func emb p \<and> pg_own p = kMlxFwPageFirmwareOwned
      then p\<lparr>pg_own := kMlxFwPageAmbiguous\<rparr> else p"
  have g: "pg_id (?g p) = pg_id p" for p by simp
  show "fpInv (markFunctionAmbiguous func emb st) = fpInv st"
    unfolding markFunctionAmbiguous_def by (rule map_upd_spec(1) [OF g])
  show "pageOf (markFunctionAmbiguous func emb st) i =
     map_option (\<lambda>p. if ofFunction func emb p \<and> pg_own p = kMlxFwPageFirmwareOwned
        then withOwner kMlxFwPageAmbiguous p else p) (pageOf st i)"
    unfolding markFunctionAmbiguous_def map_upd_spec(2) [of ?g, OF g] withOwner_def ..
qed (simp add: markFunctionAmbiguous_def)

section \<open>Releases\<close>

lemma foldl_release_spec:
  assumes "fpInv st" and "distinct ids" and "\<forall>i \<in> set ids. pageOf st i \<noteq> None"
  shows "fpInv (foldl (\<lambda>s i. releasePage i (setOwnership [i] own s)) st ids) \<and>
    pageOf (foldl (\<lambda>s i. releasePage i (setOwnership [i] own s)) st ids) =
      (\<lambda>j. if j \<in> set ids then None else pageOf st j) \<and>
    fpTick (foldl (\<lambda>s i. releasePage i (setOwnership [i] own s)) st ids) = fpTick st"
  using assms
proof (induction ids arbitrary: st)
  case (Cons i ids)
  let ?s = "releasePage i (setOwnership [i] own st)"
  have s: "fpInv ?s" "pageOf ?s = (pageOf st)(i := None)"
    using Cons.prems releasePage_spec [of "setOwnership [i] own st" i] by (auto simp: fun_eq_iff)
  have "fpInv (foldl (\<lambda>s i. releasePage i (setOwnership [i] own s)) ?s ids) \<and>
    pageOf (foldl (\<lambda>s i. releasePage i (setOwnership [i] own s)) ?s ids) =
      (\<lambda>j. if j \<in> set ids then None else pageOf ?s j) \<and>
    fpTick (foldl (\<lambda>s i. releasePage i (setOwnership [i] own s)) ?s ids) = fpTick ?s"
    using Cons.prems s by (intro Cons.IH) auto
  with s show ?case by (auto simp: fun_eq_iff)
qed simp

lemma releasePages_spec:
  assumes "fpInv st" and "distinct ids" and "\<forall>i \<in> set ids. pageOf st i \<noteq> None"
  shows "fpInv (releasePages ids st) \<and>
    pageOf (releasePages ids st) = (\<lambda>j. if j \<in> set ids then None else pageOf st j) \<and>
    fpTick (releasePages ids st) = fpTick st \<and> fpFatal (releasePages ids st) = fpFatal st"
  using assms
proof (induction ids arbitrary: st)
  case (Cons i ids)
  have s: "fpInv (releasePage i st)" "pageOf (releasePage i st) = (pageOf st)(i := None)"
    using Cons.prems releasePage_spec [of st i] by auto
  then have "fpInv (releasePages ids (releasePage i st)) \<and>
    pageOf (releasePages ids (releasePage i st)) =
      (\<lambda>j. if j \<in> set ids then None else pageOf (releasePage i st) j) \<and>
    fpTick (releasePages ids (releasePage i st)) = fpTick (releasePage i st) \<and>
    fpFatal (releasePages ids (releasePage i st)) = fpFatal (releasePage i st)"
    using Cons.prems by (intro Cons.IH) auto
  with s show ?case by (auto simp: fun_eq_iff)
qed simp

definition releaseUnsent :: "nat list \<Rightarrow> MlxFwPages \<Rightarrow> MlxFwPages" where
  "releaseUnsent ids st = foldl (\<lambda>s i. if hostPrepared s i then releasePage i s else s) st ids"

lemma hostPrepared_pageOf:
  "fpInv st \<Longrightarrow> hostPrepared st i \<longleftrightarrow> (\<exists>p. pageOf st i = Some p \<and> pg_own p = kMlxFwPageHostPrepared)"
  by (auto simp: hostPrepared_def pageOf_Some list_ex_iff)

lemma releaseUnsent_spec:
  assumes "fpInv st"
  shows "fpInv (releaseUnsent ids st) \<and>
    pageOf (releaseUnsent ids st) = (\<lambda>j. if j \<in> set ids \<and> hostPrepared st j then None else pageOf st j) \<and>
    fpTick (releaseUnsent ids st) = fpTick st \<and> fpFatal (releaseUnsent ids st) = fpFatal st"
  using assms
proof (induction ids arbitrary: st)
  case Nil
  then show ?case by (simp add: releaseUnsent_def)
next
  case (Cons i ids)
  let ?s = "if hostPrepared st i then releasePage i st else st"
  have e: "releaseUnsent (i # ids) st = releaseUnsent ids ?s" by (simp add: releaseUnsent_def)
  have s: "fpInv ?s" "pageOf ?s = (if hostPrepared st i then (pageOf st)(i := None) else pageOf st)"
    using Cons.prems releasePage_spec [of st i] by (auto simp: hostPrepared_pageOf)
  have h: "hostPrepared ?s j = (hostPrepared st j \<and> j \<noteq> i)" for j
    using s Cons.prems by (auto simp: hostPrepared_pageOf)
  have "fpTick ?s = fpTick st" "fpFatal ?s = fpFatal st" by simp_all
  with Cons.IH [OF s(1)] show ?case
    unfolding e h s(2) by (cases "hostPrepared st i") (auto simp: fun_eq_iff)
qed

section \<open>Giving\<close>

definition prepared :: "u16 \<Rightarrow> bool \<Rightarrow> MlxFwPagePhase \<Rightarrow> MlxFwPage \<Rightarrow> bool" where
  "prepared func emb ph p \<longleftrightarrow> ofFunction func emb p \<and> pg_phase p = ph \<and>
     pg_own p = kMlxFwPageHostPrepared \<and> pg_dma p \<noteq> 0 \<and> pg_dma p AND (MLX_FW_PAGE_SIZE - 1) = 0"

lemma allocatePage_spec:
  assumes "fpInv st" and "length (fpPages st) < 65536"
    and "allocatePage env func emb ph st = (kr, i, st')"
  shows "(kr \<noteq> kIOReturnSuccess \<and> st' = tick st) \<or>
    (kr = kIOReturnSuccess \<and> i = Some (fpTick st) \<and> fpInv st' \<and> fpTick st' = Suc (fpTick st) \<and>
     fpFatal st' = fpFatal st \<and> length (fpPages st') = Suc (length (fpPages st)) \<and>
     (\<exists>p. prepared func emb ph p \<and> pageOf st' = (pageOf st)(fpTick st \<mapsto> p)))"
proof (cases "fwPage env (fpTick st)")
  case PageNoMemory
  then show ?thesis using assms(3) by (auto simp: allocatePage_def Let_def)
next
  case (PageSeg r c addr len)
  show ?thesis
  proof (cases "r \<noteq> kIOReturnSuccess \<or> c \<noteq> 1 \<or> len < MLX_FW_PAGE_SIZE \<or> addr = 0 \<or>
      addr AND (MLX_FW_PAGE_SIZE - 1) \<noteq> 0")
    case True
    then show ?thesis using assms(3) PageSeg by (auto simp: allocatePage_def Let_def)
  next
    case False
    let ?p = "\<lparr>pg_id = fpTick st, pg_dma = addr, pg_func = func, pg_embedded = emb,
        pg_phase = ph, pg_own = kMlxFwPageHostPrepared\<rparr>"
    have k: "kr = kIOReturnSuccess" "i = Some (fpTick st)"
      "st' = (insertPage ?p (tick st))\<lparr>fpTracked := fpTracked st + 1\<rparr>"
      using assms(3) PageSeg False by (auto simp: allocatePage_def Let_def insertPage_def)
    have tr: "unat (fpTracked st) < 65536" using assms(1,2) by (simp add: fpInv_def)
    have "unat (fpTracked st + 1) = Suc (unat (fpTracked st))"
      using tr by (simp add: unat_plus_if')
    then have "fpInv st'"
      using assms(1,2) by (auto simp: k fpInv_def insertPage_def tick_def less_Suc_eq)
    moreover have "pageOf st' = (pageOf st)(fpTick st \<mapsto> ?p)"
      by (auto simp: k pageOf_def insertPage_def tick_def)
    moreover have "prepared func emb ph ?p"
      using False by (simp add: prepared_def ofFunction_def)
    ultimately show ?thesis
      by (auto simp: k insertPage_def tick_def)
  qed
qed

definition allocated :: "u16 \<Rightarrow> bool \<Rightarrow> MlxFwPagePhase \<Rightarrow> nat list \<Rightarrow> MlxFwPages \<Rightarrow> MlxFwPages \<Rightarrow> bool" where
  "allocated func emb ph new st st' \<longleftrightarrow> fpInv st' \<and> distinct new \<and> fpTick st \<le> fpTick st' \<and>
     (\<forall>i \<in> set new. fpTick st \<le> i \<and> i < fpTick st' \<and>
        (\<exists>p. pageOf st' i = Some p \<and> prepared func emb ph p)) \<and>
     (\<forall>j. j \<notin> set new \<longrightarrow> pageOf st' j = pageOf st j) \<and> fpFatal st' = fpFatal st"

lemma allocatePages_spec:
  assumes "fpInv st" and "length (fpPages st) + n \<le> 65536"
    and "allocatePages env func emb ph n ids st = (kr, ids', st')"
  shows "\<exists>new. ids' = ids @ new \<and> allocated func emb ph new st st' \<and>
    (kr = kIOReturnSuccess \<longrightarrow> length new = n)"
  using assms
proof (induction n arbitrary: ids st)
  case 0
  then show ?case by (auto simp: allocated_def)
next
  case (Suc n)
  obtain r i s where a: "allocatePage env func emb ph st = (r, i, s)" by (metis prod_cases3)
  have sp: "(r \<noteq> kIOReturnSuccess \<and> s = tick st) \<or>
    (r = kIOReturnSuccess \<and> i = Some (fpTick st) \<and> fpInv s \<and> fpTick s = Suc (fpTick st) \<and>
     fpFatal s = fpFatal st \<and> length (fpPages s) = Suc (length (fpPages st)) \<and>
     (\<exists>p. prepared func emb ph p \<and> pageOf s = (pageOf st)(fpTick st \<mapsto> p)))"
    using Suc.prems by (intro allocatePage_spec [OF _ _ a]) auto
  show ?case
  proof (cases "r = kIOReturnSuccess")
    case False
    then show ?thesis
      using sp Suc.prems a by (intro exI [of _ "[]"]) (auto simp: allocated_def)
  next
    case True
    with sp obtain p where s: "i = Some (fpTick st)" "fpInv s" "fpTick s = Suc (fpTick st)"
      "fpFatal s = fpFatal st" "length (fpPages s) = Suc (length (fpPages st))"
      "prepared func emb ph p" "pageOf s = (pageOf st)(fpTick st \<mapsto> p)" by blast
    have "allocatePages env func emb ph n (ids @ [fpTick st]) s = (kr, ids', st')"
      using Suc.prems(3) a True s(1) by simp
    with Suc.IH [OF s(2)] Suc.prems(2) s(5) obtain new where
      n: "ids' = (ids @ [fpTick st]) @ new" "allocated func emb ph new s st'"
        "kr = kIOReturnSuccess \<longrightarrow> length new = n" by (metis add_Suc_shift)
    have "fpTick st \<notin> set new" using n(2) s(3) by (auto simp: allocated_def)
    then have "allocated func emb ph (fpTick st # new) st st'"
      using n(2) s by (auto simp: allocated_def)
    with n show ?thesis by (intro exI [of _ "fpTick st # new"]) auto
  qed
qed

text \<open>The owner a batch of pages has after a give answered with \<open>kr\<close>.\<close>

definition ownerAfterGive :: "ioreturn \<Rightarrow> MlxFwPageOwnership" where
  "ownerAfterGive kr = (if kr = kIOReturnSuccess then kMlxFwPageFirmwareOwned
     else if kr = kIOReturnTimeout then kMlxFwPageAmbiguous else kMlxFwPageHostPrepared)"

lemma giveBatch_spec:
  assumes "fpInv st" and "giveBatch xc env ids func emb st w = (kr, st', w')"
    and "ids \<noteq> []" and "length ids \<le> 512" and "\<forall>i \<in> set ids. hostPrepared st i"
  shows "fpInv st' \<and> fpTick st \<le> fpTick st' \<and> (\<forall>j. j \<notin> set ids \<longrightarrow> pageOf st' j = pageOf st j) \<and>
    (\<forall>i \<in> set ids. pageOf st' i = map_option (withOwner (ownerAfterGive kr)) (pageOf st i)) \<and>
    fpFatal st' = (fpFatal st \<or> kr = kIOReturnTimeout)"
proof -
  have c: "(of_nat (length ids) :: u32) \<noteq> 0" "mlxP1ManagePagesSize (of_nat (length ids)) \<noteq> 0"
  proof -
    have u: "unat (of_nat (length ids) :: u32) = length ids"
      using assms(4) by (intro unat_of_nat_small) simp
    show "(of_nat (length ids) :: u32) \<noteq> 0"
      using u assms(3) by (metis length_0_conv unat_0)
    have le: "(of_nat (length ids) :: u32) \<le> MLX_P1_MAX_MANAGE_PAGES"
      using u assms(4) by (simp add: MLX_P1_MAX_MANAGE_PAGES_def word_le_nat_alt)
    show "mlxP1ManagePagesSize (of_nat (length ids)) \<noteq> 0"
      using mlxP1ManagePagesSize_value [OF le] by auto
  qed
  have same: "map_option (withOwner kMlxFwPageHostPrepared) (pageOf st i) = pageOf st i" if "i \<in> set ids" for i
    using that assms(1,5) by (auto simp: hostPrepared_pageOf withOwner_def)
  show ?thesis
  proof (cases "fwMem env (fpTick st)")
    case False
    then have "kr = kIOReturnNoMemory" "st' = tick st"
      using assms(2) c by (auto simp: giveBatch_def Let_def)
    then show ?thesis using assms(1) same by (simp add: ownerAfterGive_def)
  next
    case True
    let ?s = "setOwnership ids kMlxFwPageGivePending (tick st)"
    let ?s' = "setOwnership ids (ownerAfterGive kr) ?s"
    have st': "st' = (if kr = kIOReturnTimeout then setFatal kMlxFwPageFaultGiveTimeout ?s' else ?s')"
      using assms(2) c True
      by (auto simp: giveBatch_def Let_def ownerAfterGive_def case_prod_beta split: if_splits)
    show ?thesis using assms(1) unfolding st' by (auto simp: option.map_comp comp_def)
  qed
qed

definition given :: "u16 \<Rightarrow> bool \<Rightarrow> MlxFwPage \<Rightarrow> bool" where
  "given func emb p \<longleftrightarrow> ofFunction func emb p \<and> pg_own p = kMlxFwPageFirmwareOwned"

text \<open>What is left of the pages \<open>ids\<close> after the batches: nothing is host prepared.\<close>

lemma giveBatches_spec:
  assumes "giveBatches xc env started ids func emb st w = (kr, st', w')"
    and "fpInv st" and "distinct ids"
    and "\<forall>i \<in> set ids. \<exists>p. pageOf st i = Some p \<and> ofFunction func emb p \<and> pg_own p = kMlxFwPageHostPrepared"
  shows "fpInv st' \<and> fpTick st \<le> fpTick st' \<and> (\<forall>j. j \<notin> set ids \<longrightarrow> pageOf st' j = pageOf st j) \<and>
    (\<forall>i \<in> set ids. (if kr = kIOReturnSuccess then \<exists>p. pageOf st' i = Some p \<and> given func emb p
       else pageOf st' i = None \<or> (\<exists>p. pageOf st' i = Some p \<and> (given func emb p \<or>
          (kr = kIOReturnTimeout \<and> ofFunction func emb p \<and> pg_own p = kMlxFwPageAmbiguous))))) \<and>
    (if kr = kIOReturnSuccess then fpFatal st' = fpFatal st
     else (fpFatal st \<longrightarrow> fpFatal st') \<and> (started \<or> kr = kIOReturnTimeout \<or>
            (\<exists>i \<in> set ids. pageOf st' i \<noteq> None) \<longrightarrow> fpFatal st'))"
  using assms
proof (induction xc env started ids func emb st w rule: giveBatches.induct)
  case (1 xc env started ids func emb st w)
  show ?case
  proof (cases "ids = []")
    case True
    then show ?thesis using 1(2-) by auto
  next
    case False
    let ?b = "take 512 ids" and ?r = "drop 512 ids"
    have m: "unat MLX_P1_MAX_MANAGE_PAGES = 512" by (simp add: MLX_P1_MAX_MANAGE_PAGES_def)
    obtain k s v where g: "giveBatch xc env ?b func emb st w = (k, s, v)" by (metis prod_cases3)
    have disj: "set ?b \<inter> set ?r = {}" "set ids = set ?b \<union> set ?r"
      using 1(4) set_take_disj_set_drop_if_distinct [of ids 512 512]
      by (auto simp: set_append [symmetric] simp del: set_append)
    have hp: "\<forall>i \<in> set ids. hostPrepared st i" using 1(3,5) by (auto simp: hostPrepared_pageOf)
    have bs: "fpInv s \<and> fpTick st \<le> fpTick s \<and> (\<forall>j. j \<notin> set ?b \<longrightarrow> pageOf s j = pageOf st j) \<and>
      (\<forall>i \<in> set ?b. pageOf s i = map_option (withOwner (ownerAfterGive k)) (pageOf st i)) \<and>
      fpFatal s = (fpFatal st \<or> k = kIOReturnTimeout)"
      using False hp by (intro giveBatch_spec [OF 1(3) g]) (auto dest: in_set_takeD)
    show ?thesis
    proof (cases "k = kIOReturnSuccess")
      case True
      have rec: "giveBatches xc env True ?r func emb s v = (kr, st', w')"
        using 1(2) False g True m by (subst (asm) giveBatches.simps) simp
      have pre: "\<forall>i \<in> set ?r. \<exists>p. pageOf s i = Some p \<and> ofFunction func emb p \<and>
          pg_own p = kMlxFwPageHostPrepared"
        using bs 1(5) disj by auto
      note ih = 1(1) [OF False, unfolded m, OF g [symmetric] refl] 
      have ih: "fpInv st' \<and> fpTick s \<le> fpTick st' \<and> (\<forall>j. j \<notin> set ?r \<longrightarrow> pageOf st' j = pageOf s j) \<and>
        (\<forall>i \<in> set ?r. (if kr = kIOReturnSuccess then \<exists>p. pageOf st' i = Some p \<and> given func emb p
           else pageOf st' i = None \<or> (\<exists>p. pageOf st' i = Some p \<and> (given func emb p \<or>
              (kr = kIOReturnTimeout \<and> ofFunction func emb p \<and> pg_own p = kMlxFwPageAmbiguous))))) \<and>
        (if kr = kIOReturnSuccess then fpFatal st' = fpFatal s
         else (fpFatal s \<longrightarrow> fpFatal st') \<and> (True \<or> kr = kIOReturnTimeout \<or>
            (\<exists>i \<in> set ?r. pageOf st' i \<noteq> None) \<longrightarrow> fpFatal st'))"
        using True rec bs 1(4) pre by (intro ih) auto
      have b: "\<exists>p. pageOf st' i = Some p \<and> given func emb p" if "i \<in> set ?b" for i
      proof -
        have "pageOf st' i = pageOf s i" using ih disj that by auto
        also have "\<dots> = map_option (withOwner kMlxFwPageFirmwareOwned) (pageOf st i)"
          using bs that True by (simp add: ownerAfterGive_def)
        finally show ?thesis using 1(5) that disj(2) by (fastforce simp: given_def ofFunction_def)
      qed
      show ?thesis
      proof (cases "kr = kIOReturnSuccess")
        case True
        with ih bs b disj \<open>k = kIOReturnSuccess\<close> show ?thesis by (auto simp del: set_take_disj_set_drop_if_distinct)
      next
        case False
        have "pageOf st' i = None \<or> (\<exists>p. pageOf st' i = Some p \<and> (given func emb p \<or>
            (kr = kIOReturnTimeout \<and> ofFunction func emb p \<and> pg_own p = kMlxFwPageAmbiguous)))"
          if i: "i \<in> set ids" for i
        proof (cases "i \<in> set ?b")
          case True
          then show ?thesis using b by blast
        next
          case no: False
          then show ?thesis using ih False i disj(2) by auto
        qed
        with ih bs disj \<open>k = kIOReturnSuccess\<close> False show ?thesis by auto
      qed
    next
      case no: False
      have r: "kr = k" "st' = (if started then setFatal kMlxFwPageFaultProtocol (releaseUnsent ids s)
          else releaseUnsent ids s)"
        using 1(2) False g no m by (auto simp: giveBatches.simps [of _ _ _ ids] releaseUnsent_def Let_def)
      have ru: "fpInv (releaseUnsent ids s) \<and> pageOf (releaseUnsent ids s) =
          (\<lambda>j. if j \<in> set ids \<and> hostPrepared s j then None else pageOf s j) \<and>
        fpTick (releaseUnsent ids s) = fpTick s \<and> fpFatal (releaseUnsent ids s) = fpFatal s"
        using bs by (intro releaseUnsent_spec) auto
      then have po: "pageOf st' = (\<lambda>j. if j \<in> set ids \<and> hostPrepared s j then None else pageOf s j)"
        "fpTick st' = fpTick s" "fpInv st'" "fpFatal st' = (started \<or> fpFatal s)"
        by (simp_all add: r)
      have left: "pageOf st' i = None \<or> (\<exists>p. pageOf st' i = Some p \<and> kr = kIOReturnTimeout \<and>
          ofFunction func emb p \<and> pg_own p = kMlxFwPageAmbiguous)" if i: "i \<in> set ids" for i
      proof (cases "i \<in> set ?b \<and> k = kIOReturnTimeout")
        case True
        then have "pageOf s i = map_option (withOwner kMlxFwPageAmbiguous) (pageOf st i)"
          using bs by (simp add: ownerAfterGive_def)
        then show ?thesis
          using 1(5) i True bs by (auto simp: po hostPrepared_pageOf r(1) ofFunction_def dest!: bspec)
      next
        case False
        then have "hostPrepared s i"
          using bs no 1(5) i hp 1(3) by (cases "i \<in> set ?b") (auto simp: hostPrepared_pageOf ownerAfterGive_def)
        then show ?thesis using i by (simp add: po)
      qed
      have out: "\<forall>j. j \<notin> set ids \<longrightarrow> pageOf st' j = pageOf st j" using bs disj by (auto simp: po)
      have fat: "kr = kIOReturnTimeout" if "\<exists>i \<in> set ids. pageOf st' i \<noteq> None"
        using that left by fastforce
      have "\<forall>i \<in> set ids. pageOf st' i = None \<or> (\<exists>p. pageOf st' i = Some p \<and> (given func emb p \<or>
          (kr = kIOReturnTimeout \<and> ofFunction func emb p \<and> pg_own p = kMlxFwPageAmbiguous)))"
        using left by blast
      with out fat show ?thesis
        using bs no po(2-4) r(1) by (simp; blast)
    qed
  qed
qed
lemma pageOf_allocated:
  "allocated func emb ph new st st' \<Longrightarrow> i < fpTick st \<Longrightarrow> pageOf st' i = pageOf st i"
  by (auto simp: allocated_def dest!: spec [of _ i])

definition newPages :: "MlxFwPages \<Rightarrow> MlxFwPages \<Rightarrow> nat set" where
  "newPages st st' = {i. fpTick st \<le> i \<and> pageOf st' i \<noteq> None}"

lemma givePages_spec:
  assumes "fpInv st" and "givePages xc env func emb n ph notify st w = (kr, st', w')"
  shows "fpInv st' \<and> fpTick st \<le> fpTick st' \<and> (\<forall>i < fpTick st. pageOf st' i = pageOf st i) \<and>
    (\<forall>i \<in> newPages st st'. \<exists>p. pageOf st' i = Some p \<and> (given func emb p \<or>
       (kr = kIOReturnTimeout \<and> ofFunction func emb p \<and> pg_own p = kMlxFwPageAmbiguous))) \<and>
    (if kr = kIOReturnSuccess
     then card (newPages st st') = unat n \<and> fpFatal st' = fpFatal st \<and>
       (\<forall>i \<in> newPages st st'. given func emb (the (pageOf st' i)))
     else (newPages st st' \<noteq> {} \<longrightarrow> fpFatal st') \<and> (fpFatal st \<longrightarrow> fpFatal st'))"
proof -
  have none: ?thesis if "st' = st \<or> st' = tick st" "kr = kIOReturnSuccess \<longrightarrow> n = 0"
  proof -
    have "newPages st st' = {}"
      using that(1) pageOf_fresh [OF assms(1)] by (auto simp: newPages_def)
    with that assms(1) show ?thesis by auto
  qed
  consider "n = 0" | "n \<noteq> 0" "MLX_FW_MAX_TRACKED_PAGES < n \<or> MLX_FW_MAX_TRACKED_PAGES - n < fpTracked st"
    | "n \<noteq> 0" "\<not> fwMem env (fpTick st)"
    | "n \<noteq> 0" "\<not> (MLX_FW_MAX_TRACKED_PAGES < n \<or> MLX_FW_MAX_TRACKED_PAGES - n < fpTracked st)"
      "fwMem env (fpTick st)" by blast
  then show ?thesis
  proof cases
    case 4
    have "unat n \<le> 65536" "unat (fpTracked st) \<le> unat (MLX_FW_MAX_TRACKED_PAGES - n)"
      using 4(2) by (simp_all add: MLX_FW_MAX_TRACKED_PAGES_def word_le_nat_alt not_less)
    then have room: "length (fpPages (tick st)) + unat n \<le> 65536"
      using assms(1) 4(2)
      by (simp add: fpInv_def MLX_FW_MAX_TRACKED_PAGES_def unat_sub word_le_nat_alt not_less)
    obtain r ids s where a: "allocatePages env func emb ph (unat n) [] (tick st) = (r, ids, s)"
      by (metis prod_cases3)
    have al: "allocated func emb ph ids (tick st) s" "r = kIOReturnSuccess \<longrightarrow> length ids = unat n"
      using allocatePages_spec [OF _ room a] assms(1) by auto
    have inv: "fpInv s" "distinct ids" "\<forall>i \<in> set ids. pageOf s i \<noteq> None"
      "\<forall>i \<in> set ids. \<exists>p. pageOf s i = Some p \<and> ofFunction func emb p \<and> pg_own p = kMlxFwPageHostPrepared"
      using al(1) by (fastforce simp: allocated_def prepared_def)+
    have old: "pageOf s i = pageOf st i" "i \<notin> set ids" if "i < fpTick st" for i
      using al(1) that pageOf_allocated [OF al(1)] by (auto simp: allocated_def)
    have fresh: "i \<in> set ids" if "fpTick st \<le> i" "pageOf s i \<noteq> None" for i
      using al(1) that pageOf_fresh [OF assms(1)] by (auto simp: allocated_def)
    have ge: "fpTick st \<le> i" if "i \<in> set ids" for i using al(1) that by (auto simp: allocated_def)
    have ff: "fpFatal s = fpFatal st" "fpTick st \<le> fpTick s" using al(1) by (simp_all add: allocated_def)
    show ?thesis
    proof (cases "r = kIOReturnSuccess")
      case False
      then have e: "kr = r" "st' = releasePages ids s"
        using assms(2) 4 a by (auto simp: givePages_def)
      have "pageOf st' i = None" if "fpTick st \<le> i" for i
        using releasePages_spec [OF inv(1,2,3)] fresh [OF that] by (cases "pageOf s i") (simp_all add: e)
      then have "newPages st st' = {}" by (simp add: newPages_def)
      then show ?thesis
        using releasePages_spec [OF inv(1,2,3)] False old ff by (auto simp: e)
    next
      case True
      then have g: "giveBatches xc env False ids func emb s w = (kr, st', w')"
        using assms(2) 4 a by (simp add: givePages_def)
      note sp = giveBatches_spec [OF g inv(1,2,4)]
      have sub: "newPages st st' \<subseteq> set ids" using sp fresh by (auto simp: newPages_def)
      show ?thesis
      proof (cases "kr = kIOReturnSuccess")
        case True
        have "newPages st st' = set ids" using sub sp True ge by (auto simp: newPages_def)
        then have "card (newPages st st') = unat n"
          using al(2) \<open>r = kIOReturnSuccess\<close> inv(2) by (simp add: distinct_card)
        then show ?thesis
          using sp old sub True ff by fastforce
      next
        case False
        have "\<exists>p. pageOf st' i = Some p \<and> (given func emb p \<or>
           (kr = kIOReturnTimeout \<and> ofFunction func emb p \<and> pg_own p = kMlxFwPageAmbiguous))"
          if "i \<in> newPages st st'" for i
          using that sp False sub by (fastforce simp: newPages_def)
        moreover have "newPages st st' \<noteq> {} \<longrightarrow> fpFatal st'"
          using sp False sub by (auto simp: newPages_def)
        ultimately show ?thesis using sp old False ff by simp
      qed
    qed
  next
    case 1
    then show ?thesis using assms(2) by (intro none) (auto simp: givePages_def)
  next
    case 2
    then show ?thesis using assms(2) by (intro none) (auto simp: givePages_def)
  next
    case 3
    then show ?thesis using assms(2) by (intro none) (auto simp: givePages_def split: if_splits)
  qed
qed

section \<open>Taking\<close>

lemma validatePages_spec:
  assumes "validatePages out func emb st i n acc = Some ids" and "distinct acc" and "fpInv st"
  shows "\<exists>new. ids = acc @ new \<and> length new = n \<and> distinct ids \<and>
    (\<forall>k < n. \<exists>p. pageOf st (new ! k) = Some p \<and> given func emb p \<and>
       pg_dma p = mlxGetBits out (0x80 + (i + k) * 64) 64)"
  using assms
proof (induction n arbitrary: i acc)
  case 0
  then show ?case by auto
next
  case (Suc n)
  obtain p where p: "findPage (mlxGetBits out (0x80 + i * 64) 64) func emb st = Some p"
    "pg_own p = kMlxFwPageFirmwareOwned" "pg_id p \<notin> set acc"
    "validatePages out func emb st (Suc i) n (acc @ [pg_id p]) = Some ids"
    using Suc.prems(1) by (auto simp: Let_def split: option.splits if_splits)
  have pp: "p \<in> set (fpPages st)" "pg_dma p = mlxGetBits out (0x80 + i * 64) 64" "ofFunction func emb p"
    using p(1) by (auto simp: findPage_def find_Some_iff ofFunction_def)
  have pid: "pageOf st (pg_id p) = Some p" using pageOf_Some [OF Suc.prems(3)] pp(1) by simp
  from Suc.IH [OF p(4)] Suc.prems(2,3) p(3) obtain new where
    n: "ids = (acc @ [pg_id p]) @ new" "length new = n" "distinct ids"
      "\<forall>k < n. \<exists>q. pageOf st (new ! k) = Some q \<and> given func emb q \<and>
         pg_dma q = mlxGetBits out (0x80 + (Suc i + k) * 64) 64" by auto
  have "\<exists>q. pageOf st ((pg_id p # new) ! k) = Some q \<and> given func emb q \<and>
      pg_dma q = mlxGetBits out (0x80 + (i + k) * 64) 64" if "k < Suc n" for k
  proof (cases k)
    case 0
    then show ?thesis using pid pp p(2) by (auto simp: given_def)
  next
    case (Suc j)
    then show ?thesis using n(4) that by auto
  qed
  with n show ?case by (intro exI [of _ "pg_id p # new"]) auto
qed

definition markedAmbiguous :: "u16 \<Rightarrow> bool \<Rightarrow> MlxFwPage \<Rightarrow> MlxFwPage" where
  "markedAmbiguous func emb p = (if given func emb p then withOwner kMlxFwPageAmbiguous p else p)"

declare markFunctionAmbiguous_spec(2) [simp del]

lemma mark_pageOf:
  "pageOf (markFunctionAmbiguous func emb st) i = map_option (markedAmbiguous func emb) (pageOf st i)"
  by (cases "pageOf st i") (auto simp: markFunctionAmbiguous_spec(2) markedAmbiguous_def given_def)

text \<open>The three outcomes of a take: pages returned, nothing changed, or the function in doubt.\<close>

lemma takePages_spec:
  assumes "fpInv st" and "takePages xc env func emb requested st w = (kr, returned, st', w')"
  shows "fpInv st' \<and> fpTick st \<le> fpTick st' \<and>
    ((kr = kIOReturnSuccess \<and> returned \<le> requested \<and> requested \<noteq> 0 \<and> fpFatal st' = fpFatal st \<and>
       (\<exists>ids inb out. xc w MLX_CMD_OP_MANAGE_PAGES inb (unat (mlxP1ManagePagesSize requested)) 5000 =
            (kr, out, w') \<and>
          distinct ids \<and> length ids = unat returned \<and>
          (\<forall>k < unat returned. \<exists>p. pageOf st (ids ! k) = Some p \<and> given func emb p \<and>
             pg_dma p = mlxGetBits out (0x80 + k * 64) 64) \<and>
          pageOf st' = (\<lambda>j. if j \<in> set ids then None else pageOf st j))) \<or>
     (kr \<noteq> kIOReturnSuccess \<and> kr \<noteq> kIOReturnTimeout \<and> returned = 0 \<and> pageOf st' = pageOf st \<and>
      fpFatal st' = fpFatal st) \<or>
     (kr \<in> {kIOReturnTimeout, kIOReturnIOError} \<and> returned = 0 \<and> fpFatal st' \<and>
      pageOf st' = (\<lambda>i. map_option (markedAmbiguous func emb) (pageOf st i))))"
proof -
  let ?s = "tick st"
  define inb where "inb = (case mlxP1EncodeManagePages (Some (replicate 16 0)) 16 MLX_P1_PAGES_TAKE
      func emb None requested of Some b \<Rightarrow> b | None \<Rightarrow> replicate 16 0)"
  obtain r out v where x: "xc w MLX_CMD_OP_MANAGE_PAGES inb (unat (mlxP1ManagePagesSize requested)) 5000 =
      (r, out, v)" by (metis prod_cases3)
  let ?count = "ucast (mlxGetBits out 0x40 32) :: u32"
  let ?v = "if requested < ?count then None else validatePages out func emb ?s 0 (unat ?count) []"
  consider "requested = 0 \<or> MLX_P1_MAX_MANAGE_PAGES < requested"
    | "\<not> (requested = 0 \<or> MLX_P1_MAX_MANAGE_PAGES < requested)" "\<not> fwMem env (fpTick st)"
    | "\<not> (requested = 0 \<or> MLX_P1_MAX_MANAGE_PAGES < requested)" "fwMem env (fpTick st)" by blast
  then show ?thesis
  proof cases
    case 3
    have t: "takePages xc env func emb requested st w =
        (if r = kIOReturnTimeout
         then (r, 0, setFatal kMlxFwPageFaultTakeTimeout (markFunctionAmbiguous func emb ?s), v)
         else if r \<noteq> kIOReturnSuccess then (r, 0, ?s, v)
         else case ?v of
            None \<Rightarrow> (kIOReturnIOError, 0,
              setFatal kMlxFwPageFaultProtocol (markFunctionAmbiguous func emb ?s), v)
          | Some ids \<Rightarrow> (kIOReturnSuccess, ?count,
              foldl (\<lambda>s i. releasePage i (setOwnership [i] kMlxFwPageReturned s)) ?s ids, v))"
      unfolding takePages_def Let_def inb_def [symmetric] using 3 x by simp
    show ?thesis
    proof (cases "r = kIOReturnSuccess")
      case False
      then show ?thesis using assms t by (auto simp: mark_pageOf fun_eq_iff split: if_splits)
    next
      case True
      show ?thesis
      proof (cases ?v)
        case None
        then show ?thesis using assms t True by (auto simp: mark_pageOf fun_eq_iff)
      next
        case (Some ids)
        then have le: "?count \<le> requested" and va: "validatePages out func emb ?s 0 (unat ?count) [] = Some ids"
          by (auto simp: not_less split: if_splits)
        from validatePages_spec [OF va] assms(1) have
          vs: "length ids = unat ?count" "distinct ids"
            "\<forall>k < unat ?count. \<exists>p. pageOf st (ids ! k) = Some p \<and> given func emb p \<and>
               pg_dma p = mlxGetBits out (0x80 + k * 64) 64" by auto
        have "\<forall>i \<in> set ids. pageOf ?s i \<noteq> None"
          using vs by (fastforce simp: in_set_conv_nth)
        note fr = foldl_release_spec [OF _ vs(2) this, of kMlxFwPageReturned]
        have ft: "fpFatal (foldl (\<lambda>s i. releasePage i (setOwnership [i] kMlxFwPageReturned s)) s ids) = fpFatal s" for s
          by (induction ids arbitrary: s) auto
        have eq: "kr = kIOReturnSuccess" "returned = ?count" "w' = v"
          "st' = foldl (\<lambda>s i. releasePage i (setOwnership [i] kMlxFwPageReturned s)) ?s ids"
          using assms(2) t True Some by auto
        have po: "pageOf st' = (\<lambda>j. if j \<in> set ids then None else pageOf st j)"
          using fr assms(1) by (simp add: eq fun_eq_iff)
        have "xc w MLX_CMD_OP_MANAGE_PAGES inb (unat (mlxP1ManagePagesSize requested)) 5000 = (kr, out, w')"
          using x True eq by simp
        then have ex: "\<exists>ids inb out. xc w MLX_CMD_OP_MANAGE_PAGES inb (unat (mlxP1ManagePagesSize requested)) 5000 =
            (kr, out, w') \<and>
          distinct ids \<and> length ids = unat returned \<and>
          (\<forall>k < unat returned. \<exists>p. pageOf st (ids ! k) = Some p \<and> given func emb p \<and>
             pg_dma p = mlxGetBits out (0x80 + k * 64) 64) \<and>
          pageOf st' = (\<lambda>j. if j \<in> set ids then None else pageOf st j)"
          using vs po eq(2) by blast
        have "requested \<noteq> 0" "returned \<le> requested" "fpInv st'" "fpTick st \<le> fpTick st'" "fpFatal st' = fpFatal st"
          using 3 le fr assms(1) by (simp_all add: eq ft)
        with ex eq(1) show ?thesis by blast
      qed
    qed
  qed (use assms in \<open>auto simp: takePages_def fun_eq_iff\<close>)
qed

section \<open>Pages in doubt stay\<close>

text \<open>
  What every operation of the worker guarantees: the invariant, and that a page the firmware
  does not own for certain (being given, in doubt, prepared) is neither released nor changed.
\<close>

definition keeps :: "MlxFwPages \<Rightarrow> MlxFwPages \<Rightarrow> bool" where
  "keeps st st' \<longleftrightarrow> fpInv st' \<and> fpTick st \<le> fpTick st' \<and>
     (\<forall>i p. pageOf st i = Some p \<and> \<not> firmwareOwned p \<longrightarrow> pageOf st' i = Some p)"

lemma keeps_refl: "fpInv st \<Longrightarrow> keeps st st"
  by (simp add: keeps_def)

lemma keeps_trans: "keeps a b \<Longrightarrow> keeps b c \<Longrightarrow> keeps a c"
  by (simp add: keeps_def)

lemma keeps_fatal: "keeps a b \<Longrightarrow> keeps a (setFatal f b)"
  by (simp add: keeps_def)

lemma keeps_mark: "keeps a b \<Longrightarrow> keeps a (markFunctionAmbiguous func emb b)"
  by (auto simp: keeps_def mark_pageOf markedAmbiguous_def given_def firmwareOwned_def)

lemma given_firmwareOwned: "given func emb p \<Longrightarrow> firmwareOwned p"
  by (simp add: given_def firmwareOwned_def)

lemma takePages_keeps:
  assumes "fpInv st" and "takePages xc env func emb requested st w = (kr, returned, st', w')"
  shows "keeps st st'"
  using takePages_spec [OF assms]
  by (fastforce simp: keeps_def markedAmbiguous_def in_set_conv_nth dest: given_firmwareOwned)

lemma givePages_keeps:
  assumes "fpInv st" and "givePages xc env func emb n ph notify st w = (kr, st', w')"
  shows "keeps st st'"
proof -
  have "i < fpTick st" if "pageOf st i = Some p" for i p
    using that pageOf_fresh [OF assms(1), of i] by (cases "fpTick st \<le> i") auto
  moreover have "fpTick st \<le> fpTick st'" 
    using givePages_spec [OF assms] by simp
  ultimately show ?thesis using givePages_spec [OF assms] by (auto simp: keeps_def)
qed

lemma releaseAll_keeps:
  assumes "fpInv st"
  shows "keeps st (releaseAllForFunction func emb st)"
proof -
  let ?ids = "map pg_id (filter (\<lambda>p. ofFunction func emb p \<and> pg_own p = kMlxFwPageFirmwareOwned) (fpPages st))"
  have d: "distinct ?ids" using assms by (simp add: fpInv_def distinct_map_filter)
  have "\<forall>i \<in> set ?ids. pageOf st i \<noteq> None" using assms by (auto simp: pageOf_None)
  note fr = foldl_release_spec [OF assms d this, of kMlxFwPageReturned]
  have "firmwareOwned p" if "i \<in> set ?ids" "pageOf st i = Some p" for i p
    using that assms by (auto simp: pageOf_Some firmwareOwned_def fpInv_def distinct_map inj_on_def)
  with fr show ?thesis unfolding releaseAllForFunction_def Let_def keeps_def by auto
qed

lemma takeLoop_keeps:
  "fpInv st \<Longrightarrow> takeLoop xc env func emb fuel remaining st w = (kr, st', w') \<Longrightarrow> keeps st st'"
proof (induction fuel arbitrary: remaining st w)
  case 0
  then show ?case by (simp add: keeps_refl)
next
  case (Suc fuel)
  let ?req = "if MLX_P1_MAX_MANAGE_PAGES < remaining then MLX_P1_MAX_MANAGE_PAGES else remaining"
  obtain k r s v where t: "takePages xc env func emb ?req st w = (k, r, s, v)" by (metis prod_cases4)
  have k: "keeps st s" by (rule takePages_keeps [OF Suc.prems(1) t])
  then have i: "fpInv s" by (simp add: keeps_def)
  consider "remaining = 0" | "remaining \<noteq> 0" "k \<noteq> kIOReturnSuccess" | "remaining \<noteq> 0" "k = kIOReturnSuccess" "r = 0"
    | "remaining \<noteq> 0" "k = kIOReturnSuccess" "r \<noteq> 0" by blast
  then show ?case
  proof cases
    case 1
    then show ?thesis using Suc.prems by (simp add: keeps_refl)
  next
    case 2
    then show ?thesis using Suc.prems(2) t k by simp
  next
    case 3
    then show ?thesis using Suc.prems(2) t keeps_fatal [OF keeps_mark [OF k]] by auto
  next
    case 4
    then have "takeLoop xc env func emb fuel (remaining - r) s v = (kr, st', w')"
      using Suc.prems(2) t by simp
    from Suc.IH [OF i this] k show ?thesis by (rule keeps_trans [rotated])
  qed
qed

lemma processRequest_keeps:
  assumes "fpInv st" and "processRequest xc env rq st w = (kr, st', w')"
  shows "keeps st st'"
  using assms(2) releaseAll_keeps [OF assms(1)] givePages_keeps [OF assms(1)] takeLoop_keeps [OF assms(1)]
    keeps_fatal [OF keeps_refl [OF assms(1)]]
  by (auto simp: processRequest_def split: if_splits)

lemma queue_fields [simp]:
  "fpInv (st\<lparr>fpHead := h\<rparr>) = fpInv st" "fpInv (st\<lparr>fpCount := c\<rparr>) = fpInv st"
  "fpInv (st\<lparr>fpScheduled := b\<rparr>) = fpInv st" "fpInv (st\<lparr>fpActive := b\<rparr>) = fpInv st"
  "fpInv (st\<lparr>fpReschedule := b\<rparr>) = fpInv st"
  "pageOf (st\<lparr>fpHead := h\<rparr>) = pageOf st" "pageOf (st\<lparr>fpCount := c\<rparr>) = pageOf st"
  "pageOf (st\<lparr>fpScheduled := b\<rparr>) = pageOf st" "pageOf (st\<lparr>fpActive := b\<rparr>) = pageOf st"
  "pageOf (st\<lparr>fpReschedule := b\<rparr>) = pageOf st"
  by (simp_all add: fpInv_def pageOf_def fun_eq_iff)

lemma workerLoop_keeps:
  "fpInv st \<Longrightarrow> workerLoop xc env n st w = (st', w') \<Longrightarrow> keeps st st'"
proof (induction n arbitrary: st w)
  case 0
  then show ?case by (simp add: keeps_refl)
next
  case (Suc n)
  show ?case
  proof (cases "fpCount st = 0")
    case True
    then show ?thesis using Suc.prems by (auto simp: dequeueRequest_def keeps_refl)
  next
    case False
    let ?s = "st\<lparr>fpHead := (fpHead st + 1) mod MLX_FW_REQUEST_QUEUE_SIZE, fpCount := fpCount st - 1\<rparr>"
    obtain k s v where p: "processRequest xc env (fpRequests st ! fpHead st) ?s w = (k, s, v)"
      by (metis prod_cases3)
    have s: "keeps st ?s" "fpInv ?s" using Suc.prems(1) by (simp_all add: keeps_def)
    have k: "keeps st s" by (rule keeps_trans [OF s(1) processRequest_keeps [OF s(2) p]])
    then have i: "fpInv s" by (simp add: keeps_def)
    show ?thesis
    proof (cases "k = kIOReturnSuccess")
      case True
      then have "workerLoop xc env n s v = (st', w')"
        using Suc.prems(2) False p by (simp add: dequeueRequest_def)
      from keeps_trans [OF k Suc.IH [OF i this]] show ?thesis .
    next
      case no: False
      then have "st' = s\<lparr>fpHead := fpTail s, fpCount := 0\<rparr>"
        using Suc.prems(2) False p by (simp add: dequeueRequest_def)
      with k show ?thesis by (simp add: keeps_def)
    qed
  qed
qed

section \<open>Properties\<close>

text \<open>C13: giving pages to the firmware accounts for every page. Pages that existed before are
  untouched. On success exactly the requested number of new pages belongs to the firmware and
  to the function that asked. On failure every new page that is still tracked was given to the
  firmware or, after a timeout only, is in doubt; the others have been released, and if any is
  left the fault is latched so that the device will be quarantined.\<close>

theorem givePages_accounts:
  assumes "fpInv st" and "givePages xc env func emb n ph notify st w = (kr, st', w')"
  shows "fpInv st' \<and> (\<forall>i < fpTick st. pageOf st' i = pageOf st i) \<and>
    (\<forall>i \<in> newPages st st'. \<exists>p. pageOf st' i = Some p \<and> (given func emb p \<or>
       (kr = kIOReturnTimeout \<and> ofFunction func emb p \<and> pg_own p = kMlxFwPageAmbiguous))) \<and>
    (if kr = kIOReturnSuccess
     then card (newPages st st') = unat n \<and> fpFatal st' = fpFatal st \<and>
       (\<forall>i \<in> newPages st st'. given func emb (the (pageOf st' i)))
     else (newPages st st' \<noteq> {} \<longrightarrow> fpFatal st') \<and> (fpFatal st \<longrightarrow> fpFatal st'))"
  using givePages_spec [OF assms] by simp

text \<open>C15: whatever requests a run of the page worker finds, it keeps the page accounting
  consistent and neither releases nor changes a page that the firmware does not own for
  certain, in particular none whose give or take timed out; and it asks for the device to be
  quarantined exactly if a fault has been latched.\<close>

theorem worker_keeps_doubtful_pages:
  assumes "fpInv st" and "workerMain xc env st w = (again, fault, st', w')"
  shows "fpInv st' \<and> \<not> fpActive st' \<and>
    (\<forall>i p. pageOf st i = Some p \<and> pg_own p \<noteq> kMlxFwPageFirmwareOwned \<longrightarrow> pageOf st' i = Some p) \<and>
    fault = (if fpFatal st' then Some (fpFault st') else None)"
proof -
  let ?s = "st\<lparr>fpScheduled := False, fpActive := True\<rparr>"
  obtain s v where l: "workerLoop xc env (fpCount st) ?s w = (s, v)" by (meson surj_pair)
  have "keeps ?s s" using assms(1) by (intro workerLoop_keeps [OF _ l]) simp
  then show ?thesis
    using assms(2) l by (auto simp: workerMain_def Let_def keeps_def firmwareOwned_def)
qed

definition okExec :: "unit execFn" where
  "okExec w opcode inb n t = (kIOReturnSuccess, replicate n 0, w)"

definition sampleFw :: FwEnv where
  "sampleFw = \<lparr>fwPage = (\<lambda>k. PageSeg kIOReturnSuccess 1 (0x1000 * of_nat (Suc k)) 4096), fwMem = (\<lambda>_. True)\<rparr>"

definition sampleFp :: MlxFwPages where
  "sampleFp = snd (fwPagesInit True True True False)"

lemma sampleFp_inv: "fpInv sampleFp"
  by (simp add: sampleFp_def fwPagesInit_def fpInv_def)

theorem givePages_accounts_witness:
  "\<exists>st' w'. givePages okExec sampleFw 7 True 2 kMlxFwPageRuntime True sampleFp () =
      (kIOReturnSuccess, st', w') \<and> card (newPages sampleFp st') = 2 \<and> map pg_own (fpPages st') =
      [kMlxFwPageFirmwareOwned, kMlxFwPageFirmwareOwned]"
proof -
  obtain kr st' w' where g: "givePages okExec sampleFw 7 True 2 kMlxFwPageRuntime True sampleFp () = (kr, st', w')"
    by (metis prod_cases3)
  have two: "allocatePages e f m p 2 ids s = allocatePages e f m p (Suc (Suc 0)) ids s" for e f m p ids s
    by (simp only: numeral_2_eq_2)
  have e: "kr = kIOReturnSuccess \<and> map pg_own (fpPages st') = [kMlxFwPageFirmwareOwned, kMlxFwPageFirmwareOwned]"
    using g
    by (simp add: givePages_def sampleFp_def fwPagesInit_def sampleFw_def MLX_FW_MAX_TRACKED_PAGES_def
        two allocatePage_def tick_def MLX_FW_PAGE_SIZE_def insertPage_def Let_def
        giveBatches.simps [of _ _ _ "_ # _"] giveBatch_def okExec_def MLX_P1_MAX_MANAGE_PAGES_def
        setOwnership_def mlxP1ManagePagesSize_def split: option.splits)
       auto
  with givePages_accounts [OF sampleFp_inv g] g show ?thesis by auto
qed

theorem worker_keeps_doubtful_pages_witness:
  "let st = sampleFp\<lparr>fpPages := [\<lparr>pg_id = 0, pg_dma = 0x5000, pg_func = 3, pg_embedded = False,
        pg_phase = kMlxFwPageRuntime, pg_own = kMlxFwPageAmbiguous\<rparr>], fpTracked := 1, fpTick := 1\<rparr>
   in fpInv st \<and> pageOf (fst (snd (snd (workerMain okExec sampleFw st ())))) 0 = pageOf st 0"
proof -
  define st where "st = sampleFp\<lparr>fpPages := [\<lparr>pg_id = 0, pg_dma = 0x5000, pg_func = 3, pg_embedded = False,
        pg_phase = kMlxFwPageRuntime, pg_own = kMlxFwPageAmbiguous\<rparr>], fpTracked := 1, fpTick := 1\<rparr>"
  have i: "fpInv st" by (simp add: st_def fpInv_def sampleFp_def fwPagesInit_def)
  obtain a f st' w' where w: "workerMain okExec sampleFw st () = (a, f, st', w')" by (metis prod_cases4)
  have "pageOf st 0 = Some \<lparr>pg_id = 0, pg_dma = 0x5000, pg_func = 3, pg_embedded = False,
        pg_phase = kMlxFwPageRuntime, pg_own = kMlxFwPageAmbiguous\<rparr>" by (simp add: st_def pageOf_def)
  with worker_keeps_doubtful_pages [OF i w] have "pageOf st' 0 = pageOf st 0" by simp
  with i w show ?thesis unfolding Let_def st_def [symmetric] by simp
qed

section \<open>Reclaiming\<close>

definition ownedSet :: "MlxFwPages \<Rightarrow> nat set" where
  "ownedSet st = {i. \<exists>p. pageOf st i = Some p \<and> firmwareOwned p}"

lemma finite_ownedSet: "finite (ownedSet st)"
proof -
  have "ownedSet st \<subseteq> pg_id ` set (fpPages st)"
    by (auto simp: ownedSet_def pageOf_def find_Some_iff)
  then show ?thesis by (rule finite_subset) simp
qed

lemma takePages_owned:
  assumes "fpInv st" and "takePages xc env func emb requested st w = (kIOReturnSuccess, returned, st', w')"
  shows "ownedSet st' \<subseteq> ownedSet st" and "returned \<noteq> 0 \<Longrightarrow> card (ownedSet st') < card (ownedSet st)"
    and "\<forall>i. pageOf st' i = None \<or> pageOf st' i = pageOf st i"
proof -
  from takePages_spec [OF assms] obtain ids where ids: "length ids = unat returned"
    "\<forall>k < unat returned. \<exists>p. pageOf st (ids ! k) = Some p \<and> given func emb p"
    "pageOf st' = (\<lambda>j. if j \<in> set ids then None else pageOf st j)" by blast
  have own: "set ids \<subseteq> ownedSet st"
    using ids(1,2) by (fastforce simp: ownedSet_def in_set_conv_nth dest: given_firmwareOwned)
  have e: "ownedSet st' = ownedSet st - set ids" by (auto simp: ownedSet_def ids(3))
  then show "ownedSet st' \<subseteq> ownedSet st" by blast
  show "card (ownedSet st') < card (ownedSet st)" if "returned \<noteq> 0"
  proof -
    have "ids \<noteq> []" using ids(1) that by (auto simp: unat_eq_0)
    then have "hd ids \<in> set ids" by simp
    with own e have "ownedSet st' \<subset> ownedSet st" by auto
    then show ?thesis using finite_ownedSet by (rule psubset_card_mono [rotated])
  qed
  show "\<forall>i. pageOf st' i = None \<or> pageOf st' i = pageOf st i" by (simp add: ids(3))
qed

definition reclaimed :: "MlxFwPages \<Rightarrow> ioreturn \<Rightarrow> MlxFwPages \<Rightarrow> bool" where
  "reclaimed st kr st' \<longleftrightarrow> keeps st st' \<and> (kr = kIOReturnSuccess \<longrightarrow> ownedSet st' = {}) \<and>
     (\<forall>i p. pageOf st' i = Some p \<longrightarrow> (\<exists>q. pageOf st i = Some q \<and>
        (p = q \<or> (firmwareOwned q \<and> p = withOwner kMlxFwPageAmbiguous q))))"

lemma reclaimed_trans:
  assumes "keeps st s" and "\<forall>i. pageOf s i = None \<or> pageOf s i = pageOf st i" and "reclaimed s kr st'"
  shows "reclaimed st kr st'"
  using assms unfolding reclaimed_def by (metis keeps_trans option.distinct(1))

lemma reclaimed_mark:
  assumes "keeps st s" and "\<forall>i. pageOf s i = None \<or> pageOf s i = pageOf st i" and "kr \<noteq> kIOReturnSuccess"
  shows "reclaimed st kr (setFatal f (markFunctionAmbiguous func emb s))"
proof -
  have "\<exists>q. pageOf st i = Some q \<and> (p = q \<or> (firmwareOwned q \<and> p = withOwner kMlxFwPageAmbiguous q))"
    if "map_option (markedAmbiguous func emb) (pageOf s i) = Some p" for i p
  proof -
    from that obtain q where q: "pageOf s i = Some q" "p = markedAmbiguous func emb q" by auto
    with assms(2) have "pageOf st i = Some q" by (metis option.distinct(1))
    with q(2) show ?thesis by (auto simp: markedAmbiguous_def dest: given_firmwareOwned)
  qed
  with assms(3) keeps_fatal [OF keeps_mark [OF assms(1)]] show ?thesis
    by (auto simp: reclaimed_def mark_pageOf)
qed

lemma reclaimLoop_ends:
  assumes "unat timeoutMs + 50 < 2 ^ 32" and "fpInv st"
  shows "\<exists>kr st' w'. reclaimLoop xc env timeoutMs waited st w = Some (kr, st', w') \<and> reclaimed st kr st'"
  using assms(2)
proof (induction "(card (ownedSet st), unat timeoutMs + 50 - unat waited)" arbitrary: waited st w
    rule: wf_induct [OF wf_lex_prod [OF wf_less_than wf_less_than]])
  case (1 waited st w)
  note IH = 1(1)
  show ?case
  proof (cases "find firmwareOwned (fpPages st)")
    case None
    then have "ownedSet st = {}"
      using 1(2) by (auto simp: find_None_iff ownedSet_def pageOf_Some)
    with None 1(2) show ?thesis
      by (subst reclaimLoop.simps) (auto simp: reclaimed_def keeps_refl)
  next
    case (Some first)
    define n where "n = (of_nat (length (filter (\<lambda>p. firmwareOwned p \<and>
        ofFunction (pg_func first) (pg_embedded first) p) (fpPages st))) :: u32)"
    define req where "req = (if MLX_P1_MAX_MANAGE_PAGES < n then MLX_P1_MAX_MANAGE_PAGES else n)"
    let ?f = "pg_func first" and ?e = "pg_embedded first"
    obtain kr ret s v where t: "takePages xc env ?f ?e req st w = (kr, ret, s, v)" by (metis prod_cases4)
    have unf: "reclaimLoop xc env timeoutMs waited st w =
       (if kr \<noteq> kIOReturnSuccess then Some (kr, s, v)
        else if ret \<noteq> 0 then reclaimLoop xc env timeoutMs 0 s v
        else if timeoutMs \<le> waited
        then Some (kIOReturnTimeout, setFatal kMlxFwPageFaultReclaimTimeout (markFunctionAmbiguous ?f ?e s), v)
        else reclaimLoop xc env timeoutMs (waited + 50) s v)"
      by (subst reclaimLoop.simps)
        (simp only: Some option.case Let_def t [unfolded req_def n_def] prod.case)
    have k: "keeps st s" by (rule takePages_keeps [OF 1(2) t])
    then have i: "fpInv s" by (simp add: keeps_def)
    show ?thesis
    proof (cases "kr = kIOReturnSuccess")
      case False
      have "reclaimed st kr s"
        using takePages_spec [OF 1(2) t] k False
        by (auto simp: reclaimed_def markedAmbiguous_def given_firmwareOwned)
      with unf False show ?thesis by simp
    next
      case True
      note o = takePages_owned [OF 1(2) t [unfolded True]]
      consider "ret \<noteq> 0" | "ret = 0" "timeoutMs \<le> waited" | "ret = 0" "waited < timeoutMs" by (meson not_le)
      then show ?thesis
      proof cases
        case 1
        have "((card (ownedSet s), unat timeoutMs + 50 - unat (0 :: u32)),
            (card (ownedSet st), unat timeoutMs + 50 - unat waited)) \<in> less_than <*lex*> less_than"
          using o(2) 1 by simp
        from IH [rule_format, OF this refl i] obtain r s' w' where
          "reclaimLoop xc env timeoutMs 0 s v = Some (r, s', w')" "reclaimed s r s'" by blast
        with unf True 1 reclaimed_trans [OF k o(3)] show ?thesis by auto
      next
        case 2
        with unf True reclaimed_mark [OF k o(3), of kIOReturnTimeout] show ?thesis by auto
      next
        case 3
        have "unat (waited + 50) = unat waited + 50"
          using 3(2) assms(1) by (simp add: word_less_nat_alt unat_plus_if')
        then have "unat timeoutMs + 50 - unat (waited + 50) < unat timeoutMs + 50 - unat waited"
          using 3(2) by (simp add: word_less_nat_alt)
        moreover have "card (ownedSet s) \<le> card (ownedSet st)"
          using o(1) finite_ownedSet by (rule card_mono [rotated])
        ultimately have "((card (ownedSet s), unat timeoutMs + 50 - unat (waited + 50)),
            (card (ownedSet st), unat timeoutMs + 50 - unat waited)) \<in> less_than <*lex*> less_than"
          by auto
        from IH [rule_format, OF this refl i] obtain r s' w' where
          "reclaimLoop xc env timeoutMs (waited + 50) s v = Some (r, s', w')" "reclaimed s r s'" by blast
        with unf True 3 reclaimed_trans [OF k o(3)] show ?thesis by (auto simp: not_le)
      qed
    qed
  qed
qed

text \<open>C14: reclaiming the firmware's pages always returns, whatever the device answers, as long
  as the timeout leaves room in the 32-bit wait counter. It returns success only when no page
  is outstanding any more; every page it leaves is the page it was, or was firmware owned and
  is now marked in doubt; and it never releases a page the firmware did not own.\<close>

theorem reclaimAll_returns:
  assumes "fpInv st" and "unat timeoutMs + 50 < 2 ^ 32"
  shows "\<exists>kr st' w'. reclaimAll xc env timeoutMs st w = Some (kr, st', w') \<and> fpInv st' \<and>
    (kr = kIOReturnSuccess \<longrightarrow> \<not> hasOutstandingPages st') \<and>
    (\<forall>i p. pageOf st i = Some p \<and> pg_own p \<noteq> kMlxFwPageFirmwareOwned \<longrightarrow> pageOf st' i = Some p) \<and>
    (\<forall>i p. pageOf st' i = Some p \<longrightarrow> (\<exists>q. pageOf st i = Some q \<and>
       (p = q \<or> (pg_own q = kMlxFwPageFirmwareOwned \<and> p = withOwner kMlxFwPageAmbiguous q))))"
proof -
  from reclaimLoop_ends [OF assms(2,1), of xc env 0 w] obtain r st' w' where
    l: "reclaimLoop xc env timeoutMs 0 st w = Some (r, st', w')" "reclaimed st r st'" by blast
  define kr where "kr = (if hasAmbiguousPages st' \<and> r = kIOReturnSuccess then kIOReturnNotReady else r)"
  have e: "reclaimAll xc env timeoutMs st w = Some (kr, st', w')"
    by (simp add: reclaimAll_def l(1) kr_def)
  have "\<not> hasOutstandingPages st'" if "kr = kIOReturnSuccess"
  proof -
    from that have "\<not> hasAmbiguousPages st'" "ownedSet st' = {}" "fpInv st'"
      using l(2) by (auto simp: kr_def reclaimed_def keeps_def split: if_splits)
    then show ?thesis
      by (force simp: hasOutstandingPages_def hasAmbiguousPages_def ownedSet_def pageOf_Some
          firmwareOwned_def list_ex_iff)
  qed
  with e l(2) show ?thesis by (auto simp: reclaimed_def keeps_def firmwareOwned_def)
qed

theorem reclaimAll_returns_witness:
  "\<exists>kr st' w'. reclaimAll okExec sampleFw 2000 sampleFp () = Some (kr, st', w') \<and> fpInv st'"
  using reclaimAll_returns [OF sampleFp_inv, of 2000 okExec sampleFw "()"] by auto

section \<open>The request queue\<close>

definition queueOf :: "MlxFwPages \<Rightarrow> MlxFwPageRequest list" where
  "queueOf st = ringList MLX_FW_REQUEST_QUEUE_SIZE (fpRequests st) (fpHead st) (fpCount st)"

definition queueInv :: "MlxFwPages \<Rightarrow> bool" where
  "queueInv st \<longleftrightarrow> length (fpRequests st) = MLX_FW_REQUEST_QUEUE_SIZE \<and>
     fpHead st < MLX_FW_REQUEST_QUEUE_SIZE \<and> fpCount st \<le> MLX_FW_REQUEST_QUEUE_SIZE \<and>
     fpTail st = (fpHead st + fpCount st) mod MLX_FW_REQUEST_QUEUE_SIZE"

lemma length_queueOf [simp]: "length (queueOf st) = fpCount st"
  by (simp add: queueOf_def)

lemma queueInv_init: "queueInv (snd (fwPagesInit a b c d))"
  by (simp add: queueInv_def fwPagesInit_def MLX_FW_REQUEST_QUEUE_SIZE_def)

lemma request_queue_spec:
  assumes "queueInv st"
  shows "(if fpAccept st \<and> \<not> fpStopping st \<and> length (queueOf st) < 64
      then fst (enqueueRequest rq st) \<and> queueOf (snd (enqueueRequest rq st)) = queueOf st @ [rq]
      else enqueueRequest rq st = (False, st)) \<and>
    queueInv (snd (enqueueRequest rq st)) \<and>
    (case queueOf st of
       [] \<Rightarrow> dequeueRequest st = (None, st)
     | r # rs \<Rightarrow> fst (dequeueRequest st) = Some r \<and> queueOf (snd (dequeueRequest st)) = rs) \<and>
    queueInv (snd (dequeueRequest st))"
proof -
  let ?n = MLX_FW_REQUEST_QUEUE_SIZE
  have n: "?n = 64" by (simp add: MLX_FW_REQUEST_QUEUE_SIZE_def)
  have enq: "if fpAccept st \<and> \<not> fpStopping st \<and> length (queueOf st) < 64
      then fst (enqueueRequest rq st) \<and> queueOf (snd (enqueueRequest rq st)) = queueOf st @ [rq]
      else enqueueRequest rq st = (False, st)"
    using ringList_put [of "fpCount st" ?n "fpRequests st" "fpHead st" rq] assms
    by (auto simp: enqueueRequest_def queueOf_def queueInv_def n)
  have inv1: "queueInv (snd (enqueueRequest rq st))"
    using assms by (auto simp: queueInv_def enqueueRequest_def n mod_Suc_eq)
  have deq: "(case queueOf st of
       [] \<Rightarrow> dequeueRequest st = (None, st)
     | r # rs \<Rightarrow> fst (dequeueRequest st) = Some r \<and> queueOf (snd (dequeueRequest st)) = rs) \<and>
    queueInv (snd (dequeueRequest st))"
  proof (cases "fpCount st")
    case 0
    then show ?thesis using assms by (simp add: queueOf_def ringList_def dequeueRequest_def)
  next
    case (Suc m)
    then show ?thesis
      using assms ringList_get [of "fpHead st" ?n "fpRequests st" m]
      by (auto simp: dequeueRequest_def queueOf_def queueInv_def n mod_add_left_eq mod_Suc_eq)
  qed
  from enq inv1 deq show ?thesis by blast
qed

definition queueAccepts :: "MlxFwPages \<Rightarrow> bool" where
  "queueAccepts st \<longleftrightarrow> fpAccept st \<and> \<not> fpStopping st \<and> length (queueOf st) < 64"

interpretation fwq: bounded_fifo queueOf queueInv queueAccepts "\<lambda>rq st. snd (enqueueRequest rq st)" dequeueRequest
proof
  fix st :: MlxFwPages and rq
  assume "queueInv st"
  note sp = request_queue_spec [OF this, of rq]
  show "queueInv (snd (enqueueRequest rq st))" "queueInv (snd (dequeueRequest st))" using sp by simp_all
  show "queueOf (snd (enqueueRequest rq st)) = (if queueAccepts st then queueOf st @ [rq] else queueOf st)"
    using sp by (auto simp: queueAccepts_def split: if_splits)
  show "queueOf st = [] \<Longrightarrow> dequeueRequest st = (None, st)" using sp by simp
  show "queueOf st = x # xs \<Longrightarrow> fst (dequeueRequest st) = Some x \<and> queueOf (snd (dequeueRequest st)) = xs" for x xs
    using sp by simp
qed

text \<open>the request ring is a first-in first-out queue of at most 64 page requests: a request
  is accepted exactly while the worker accepts requests, is not stopping and has room, and
  then becomes the last one; the worker is handed the oldest one and the rest stay in order.
  Over any interleaving of enqueue and dequeue operations the requests handed out, followed by
  those still queued, are the ones queued before, followed by the accepted ones in order.\<close>

theorem request_queue_fifo:
  assumes "queueInv st"
  shows "((if fpAccept st \<and> \<not> fpStopping st \<and> length (queueOf st) < 64
      then fst (enqueueRequest rq st) \<and> queueOf (snd (enqueueRequest rq st)) = queueOf st @ [rq]
      else enqueueRequest rq st = (False, st)) \<and>
    queueInv (snd (enqueueRequest rq st)) \<and>
    (case queueOf st of
       [] \<Rightarrow> dequeueRequest st = (None, st)
     | r # rs \<Rightarrow> fst (dequeueRequest st) = Some r \<and> queueOf (snd (dequeueRequest st)) = rs) \<and>
    queueInv (snd (dequeueRequest st))) \<and>
    (case fifoRun (\<lambda>rq st. snd (enqueueRequest rq st)) queueAccepts dequeueRequest ops st of
       (handed, accepted, st') \<Rightarrow> queueInv st' \<and> queueOf st @ accepted = handed @ queueOf st')"
  using request_queue_spec [OF assms] fwq.run_fifo [OF assms]
  by (intro conjI [OF request_queue_spec [OF assms]]) (auto split: prod.split)

theorem request_queue_fifo_witness:
  "let st = snd (startRuntime True sampleFp) in
   fst (enqueueRequest noRequest st) \<and> queueOf (snd (enqueueRequest noRequest st)) = [noRequest]"
proof -
  let ?st = "snd (startRuntime True sampleFp)"
  have q: "queueInv ?st" "queueOf ?st = []" "fpAccept ?st" "\<not> fpStopping ?st"
    using queueInv_init [of True True True False]
    by (simp_all add: startRuntime_def sampleFp_def queueInv_def queueOf_def fwPagesInit_def)
  show ?thesis using request_queue_fifo [OF q(1), of noRequest, THEN conjunct1] q(2-4) by (simp add: Let_def)
qed

end
