(* ===== verification/MlxFwDrain.thy ===== *)
theory MlxFwDrain
  imports MlxFwPages
begin

text \<open>
  \<^verbatim>\<open>MlxFwPages::stopRuntimeAndDrain\<close> against the page worker and the event callback. Each
  critical section of the request lock is one step; the steps of the three threads interleave
  freely. The state keeps the flags and the request count of \<open>MlxFwPages\<close>, whether a thread
  call is pending, and where each thread is.
\<close>

datatype workerPc =
    WIdle
  | WLoop       \<comment> \<open>in the request loop\<close>
  | WFail       \<comment> \<open>processRequest failed, queue not cleared yet\<close>
  | WEnd        \<comment> \<open>left the loop, flags not updated yet\<close>
  | WEnter      \<comment> \<open>about to call thread_call_enter again\<close>

datatype eventPc = EvIdle | EvQueued

datatype stopPc = SIdle | SFlags | SUnreg | SSync | SWait | SDone

record drain =
  drFw :: MlxFwPages
  drCall :: bool
  drRegistered :: bool
  drWorker :: workerPc
  drEvent :: eventPc
  drStop :: stopPc

abbreviation updFw :: "(MlxFwPages \<Rightarrow> MlxFwPages) \<Rightarrow> drain \<Rightarrow> drain" where
  "updFw f s \<equiv> s\<lparr>drFw := f (drFw s)\<rparr>"

definition schedule :: "drain \<Rightarrow> drain" where
  "schedule s = (let (enter, fw) = scheduleWorker (drFw s)
     in s\<lparr>drFw := fw, drCall := drCall s \<or> enter\<rparr>)"

definition workerEnd :: "drain \<Rightarrow> drain" where
  "workerEnd s =
     (let fw = drFw s; again = (fpReschedule fw \<or> fpCount fw \<noteq> 0) \<and> \<not> fpStopping fw
      in s\<lparr>drFw := fw\<lparr>fpActive := False, fpReschedule := False, fpScheduled := again \<or> fpScheduled fw\<rparr>,
           drWorker := (if again then WEnter else WIdle)\<rparr>)"

definition drained :: "MlxFwPages \<Rightarrow> bool" where
  "drained fw \<longleftrightarrow> \<not> fpActive fw \<and> \<not> fpScheduled fw \<and> \<not> fpReschedule fw \<and> fpCount fw = 0"

text \<open>What \<open>handleEvent\<close> does with the request it decoded before it schedules the worker:
  the fault of a malformed event or of a full queue is noted without the request lock.\<close>

definition takeEvent :: "bool \<Rightarrow> MlxFwPageRequest \<Rightarrow> MlxFwPages \<Rightarrow> MlxFwPages" where
  "takeEvent malformed rq fw =
     (if malformed then setFatal kMlxFwPageFaultMalformedEvent fw
      else (case enqueueRequest rq fw of
              (queued, fw) \<Rightarrow> if queued then fw else setFatal kMlxFwPageFaultRequestOverflow fw))"

inductive drainStep :: "drain \<Rightarrow> drain \<Rightarrow> bool" where
  event: "drRegistered s \<Longrightarrow> drEvent s = EvIdle \<Longrightarrow>
    drainStep s (s\<lparr>drFw := takeEvent malformed rq (drFw s), drEvent := EvQueued\<rparr>)"
| event_schedule: "drEvent s = EvQueued \<Longrightarrow> drainStep s ((schedule s)\<lparr>drEvent := EvIdle\<rparr>)"
| worker_start: "drCall s \<Longrightarrow> drWorker s = WIdle \<Longrightarrow>
    drainStep s (s\<lparr>drCall := False, drFw := (drFw s)\<lparr>fpScheduled := False, fpActive := True\<rparr>,
      drWorker := WLoop\<rparr>)"
| worker_request: "drWorker s = WLoop \<Longrightarrow> dequeueRequest (drFw s) = (Some rq, fw) \<Longrightarrow>
    drainStep s (s\<lparr>drFw := fw, drWorker := pc\<rparr>)" if "pc = WLoop \<or> pc = WFail" for pc
| worker_clear: "drWorker s = WFail \<Longrightarrow>
    drainStep s (s\<lparr>drFw := (drFw s)\<lparr>fpHead := fpTail (drFw s), fpCount := 0\<rparr>, drWorker := WEnd\<rparr>)"
| worker_empty: "drWorker s = WLoop \<Longrightarrow> dequeueRequest (drFw s) = (None, fw) \<Longrightarrow>
    drainStep s (s\<lparr>drFw := fw, drWorker := WEnd\<rparr>)"
| worker_end: "drWorker s = WEnd \<Longrightarrow> drainStep s (workerEnd s)"
| worker_enter: "drWorker s = WEnter \<Longrightarrow> drainStep s (s\<lparr>drCall := True, drWorker := WIdle\<rparr>)"
| stop_flags: "drStop s = SIdle \<Longrightarrow>
    drainStep s (s\<lparr>drFw := (drFw s)\<lparr>fpAccept := False, fpStopping := True\<rparr>, drStop := SFlags\<rparr>)"
| stop_unregister: "drStop s = SFlags \<Longrightarrow> drainStep s (s\<lparr>drRegistered := False, drStop := SUnreg\<rparr>)"
| stop_synchronize: "drStop s = SUnreg \<Longrightarrow> drEvent s = EvIdle \<Longrightarrow> drainStep s (s\<lparr>drStop := SSync\<rparr>)"
| stop_schedule: "drStop s = SSync \<Longrightarrow> drainStep s ((schedule s)\<lparr>drStop := SWait\<rparr>)"
| stop_drained: "drStop s = SWait \<Longrightarrow> drained (drFw s) \<Longrightarrow> drainStep s (s\<lparr>drStop := SDone\<rparr>)"

definition drainInit :: "MlxFwPages \<Rightarrow> drain" where
  "drainInit fw = \<lparr>drFw = snd (startRuntime True fw), drCall = False, drRegistered = True,
     drWorker = WIdle, drEvent = EvIdle, drStop = SIdle\<rparr>"

inductive drainReach :: "MlxFwPages \<Rightarrow> drain \<Rightarrow> bool" for fw where
  start: "drainReach fw (drainInit fw)"
| step: "drainReach fw s \<Longrightarrow> drainStep s s' \<Longrightarrow> drainReach fw s'"

inductive_cases drainStepE: "drainStep s s'"

section \<open>When the stop returns\<close>

definition drInv :: "drain \<Rightarrow> bool" where
  "drInv s \<longleftrightarrow> (fpActive (drFw s) \<longleftrightarrow> drWorker s \<in> {WLoop, WFail, WEnd}) \<and>
     (drCall s \<or> drWorker s = WEnter \<longrightarrow> fpScheduled (drFw s)) \<and>
     (drStop s \<noteq> SIdle \<longrightarrow> fpStopping (drFw s) \<and> \<not> fpAccept (drFw s)) \<and>
     (drStop s \<in> {SUnreg, SSync, SWait, SDone} \<longrightarrow> \<not> drRegistered s) \<and>
     (drStop s \<in> {SSync, SWait, SDone} \<longrightarrow> drEvent s = EvIdle) \<and>
     (drStop s = SDone \<longrightarrow> drained (drFw s))"

lemmas drain_defs = takeEvent_def setFatal_def schedule_def scheduleWorker_def workerEnd_def enqueueRequest_def dequeueRequest_def
  drained_def Let_def

lemma drInv_init: "drInv (drainInit (snd (fwPagesInit a b c emb)))"
  by (simp add: drInv_def drainInit_def startRuntime_def fwPagesInit_def)

lemma drInv_step:
  assumes "drainStep s s'" and "drInv s"
  shows "drInv s'"
  using assms by (cases rule: drainStep.cases) (auto simp: drInv_def drain_defs split: if_splits)

lemma drInv_reach: "drainReach fw s \<Longrightarrow> fw = snd (fwPagesInit a b c emb) \<Longrightarrow> drInv s"
  by (induction rule: drainReach.induct) (auto intro: drInv_step drInv_init)

text \<open>C16: whenever stopRuntimeAndDrain returns, whatever the worker, the event callback and the
  stop did in between, the worker is idle with no thread call pending, no request is left, no
  callback is in flight or registered any more, and no further step of the page manager can
  happen.\<close>

theorem drain_return_quiesced:
  assumes "drainReach (snd (fwPagesInit a b c emb)) s" and "drStop s = SDone"
  shows "drWorker s = WIdle \<and> \<not> drCall s \<and> fpCount (drFw s) = 0 \<and> drEvent s = EvIdle \<and>
    \<not> drRegistered s \<and> (\<forall>s'. \<not> drainStep s s')"
proof -
  have i: "drInv s" by (rule drInv_reach [OF assms(1) refl])
  then have q: "drWorker s = WIdle" "\<not> drCall s" "fpCount (drFw s) = 0" "drEvent s = EvIdle"
    "\<not> drRegistered s"
    using assms(2) by (auto simp: drInv_def drained_def intro: workerPc.exhaust [of "drWorker s"])
  then have "\<not> drainStep s s'" for s'
    using assms(2) by (auto elim!: drainStepE)
  with q show ?thesis by blast
qed

section \<open>When it does not\<close>

lemma drainReach_trans: "drainReach fw s \<Longrightarrow> drainStep s s' \<Longrightarrow> s' = t \<Longrightarrow> drainReach fw t"
  using drainReach.step by blast

definition freshFw :: MlxFwPages where
  "freshFw = snd (fwPagesInit True True True False)"

definition runningFw :: MlxFwPages where
  "runningFw = snd (startRuntime True freshFw)"

text \<open>The states of the schedule, each one step after the one before.\<close>

definition fwAt :: "bool \<Rightarrow> bool \<Rightarrow> bool \<Rightarrow> bool \<Rightarrow> nat \<Rightarrow> nat \<Rightarrow> MlxFwPages" where
  "fwAt sched act resched stopping head count = runningFw\<lparr>fpScheduled := sched, fpActive := act,
     fpReschedule := resched, fpStopping := stopping, fpAccept := \<not> stopping, fpHead := head,
     fpTail := head + count, fpCount := count\<rparr>"

lemma runningFw_fields:
  "runningFw = fwAt False False False False 0 0"
  "length (fpRequests runningFw) = 64" "fpRequests runningFw = replicate 64 noRequest"
  by (simp_all add: fwAt_def runningFw_def freshFw_def startRuntime_def fwPagesInit_def
      MLX_FW_REQUEST_QUEUE_SIZE_def)

lemma fwAt_requests: "(fpRequests runningFw)[i := noRequest] = fpRequests runningFw"
  unfolding runningFw_fields(3) by (cases "i < 64") (simp_all add: list_eq_iff_nth_eq nth_list_update)

lemma enqueue_fwAt:
  "head + count < 63 \<Longrightarrow> count < 64 \<Longrightarrow> takeEvent False noRequest (fwAt a b c False head count) =
     fwAt a b c False head (Suc count)"
  by (simp add: takeEvent_def enqueueRequest_def fwAt_def fwAt_requests MLX_FW_REQUEST_QUEUE_SIZE_def)

text \<open>stopRuntimeAndDrain can wait for ever. If a page request arrives after the worker has
  seen the queue empty but before it updates its flags, and the stop gets to its schedule call
  in that window, the worker is still active, so the schedule call only asks for another run;
  the worker then drops that wish because the manager is stopping. One request stays queued,
  nobody is left to take it, and no step of any thread is enabled.\<close>

theorem drain_can_hang:
  "\<exists>s. drainReach freshFw s \<and> drStop s = SWait \<and> fpCount (drFw s) = 1 \<and> (\<forall>s'. \<not> drainStep s s')"
proof -
  let ?d = "\<lambda>fw call reg w e st. \<lparr>drFw = fw, drCall = call, drRegistered = reg, drWorker = w,
      drEvent = e, drStop = st\<rparr>"
  note sm = drain_defs fwAt_def
  have "drainReach freshFw (?d (fwAt False False False False 0 0) False True WIdle EvIdle SIdle)"
    using drainReach.start [of freshFw]
    by (simp add: drainInit_def runningFw_def [symmetric] runningFw_fields(1) [symmetric])
  then have "drainReach freshFw (?d (fwAt False False False False 0 1) False True WIdle EvQueued SIdle)"
    by (rule drainReach_trans) (rule drainStep.event [where rq = noRequest and malformed = False], simp_all add: enqueue_fwAt)
  then have "drainReach freshFw (?d (fwAt True False False False 0 1) True True WIdle EvIdle SIdle)"
    by (rule drainReach_trans) (rule drainStep.event_schedule, simp_all add: sm)
  then have "drainReach freshFw (?d (fwAt False True False False 0 1) False True WLoop EvIdle SIdle)"
    by (rule drainReach_trans) (rule drainStep.worker_start, simp_all add: sm)
  then have "drainReach freshFw (?d (fwAt False True False False 1 0) False True WLoop EvIdle SIdle)"
    by (rule drainReach_trans)
      (rule drainStep.worker_request [where pc = WLoop and rq = noRequest],
        simp_all add: sm runningFw_fields(3) MLX_FW_REQUEST_QUEUE_SIZE_def)
  then have "drainReach freshFw (?d (fwAt False True False False 1 0) False True WEnd EvIdle SIdle)"
    by (rule drainReach_trans) (rule drainStep.worker_empty, simp_all add: sm)
  then have "drainReach freshFw (?d (fwAt False True False False 1 1) False True WEnd EvQueued SIdle)"
    by (rule drainReach_trans) (rule drainStep.event [where rq = noRequest and malformed = False], simp_all add: enqueue_fwAt)
  then have "drainReach freshFw (?d (fwAt False True True False 1 1) False True WEnd EvIdle SIdle)"
    by (rule drainReach_trans) (rule drainStep.event_schedule, simp_all add: sm)
  then have "drainReach freshFw (?d (fwAt False True True True 1 1) False True WEnd EvIdle SFlags)"
    by (rule drainReach_trans) (rule drainStep.stop_flags, simp_all add: sm)
  then have "drainReach freshFw (?d (fwAt False True True True 1 1) False False WEnd EvIdle SUnreg)"
    by (rule drainReach_trans) (rule drainStep.stop_unregister, simp_all)
  then have "drainReach freshFw (?d (fwAt False True True True 1 1) False False WEnd EvIdle SSync)"
    by (rule drainReach_trans) (rule drainStep.stop_synchronize, simp_all)
  then have "drainReach freshFw (?d (fwAt False True True True 1 1) False False WEnd EvIdle SWait)"
    by (rule drainReach_trans) (rule drainStep.stop_schedule, simp_all add: sm)
  then have r: "drainReach freshFw (?d (fwAt False False False True 1 1) False False WIdle EvIdle SWait)"
    by (rule drainReach_trans) (rule drainStep.worker_end, simp_all add: sm)
  have "\<not> drainStep (?d (fwAt False False False True 1 1) False False WIdle EvIdle SWait) s'" for s'
    by (auto elim!: drainStepE simp: drained_def fwAt_def)
  with r show ?thesis by (intro exI conjI allI) (assumption, simp_all add: fwAt_def)
qed

theorem drain_return_quiesced_witness:
  "\<exists>s. drainReach freshFw s \<and> drStop s = SDone \<and> (\<forall>s'. \<not> drainStep s s')"
proof -
  let ?d = "\<lambda>fw call reg w e st. \<lparr>drFw = fw, drCall = call, drRegistered = reg, drWorker = w,
      drEvent = e, drStop = st\<rparr>"
  note sm = drain_defs fwAt_def
  have "drainReach freshFw (?d (fwAt False False False False 0 0) False True WIdle EvIdle SIdle)"
    using drainReach.start [of freshFw]
    by (simp add: drainInit_def runningFw_def [symmetric] runningFw_fields(1) [symmetric])
  then have "drainReach freshFw (?d (fwAt False False False True 0 0) False True WIdle EvIdle SFlags)"
    by (rule drainReach_trans) (rule drainStep.stop_flags, simp_all add: sm)
  then have "drainReach freshFw (?d (fwAt False False False True 0 0) False False WIdle EvIdle SUnreg)"
    by (rule drainReach_trans) (rule drainStep.stop_unregister, simp_all)
  then have "drainReach freshFw (?d (fwAt False False False True 0 0) False False WIdle EvIdle SSync)"
    by (rule drainReach_trans) (rule drainStep.stop_synchronize, simp_all)
  then have "drainReach freshFw (?d (fwAt True False False True 0 0) True False WIdle EvIdle SWait)"
    by (rule drainReach_trans) (rule drainStep.stop_schedule, simp_all add: sm)
  then have "drainReach freshFw (?d (fwAt False True False True 0 0) False False WLoop EvIdle SWait)"
    by (rule drainReach_trans) (rule drainStep.worker_start, simp_all add: sm)
  then have "drainReach freshFw (?d (fwAt False True False True 0 0) False False WEnd EvIdle SWait)"
    by (rule drainReach_trans) (rule drainStep.worker_empty, simp_all add: sm)
  then have "drainReach freshFw (?d (fwAt False False False True 0 0) False False WIdle EvIdle SWait)"
    by (rule drainReach_trans) (rule drainStep.worker_end, simp_all add: sm)
  then have r: "drainReach freshFw (?d (fwAt False False False True 0 0) False False WIdle EvIdle SDone)"
    by (rule drainReach_trans) (rule drainStep.stop_drained, simp_all add: sm)
  from drain_return_quiesced [OF this [unfolded freshFw_def]] have
    "\<forall>s'. \<not> drainStep (?d (fwAt False False False True 0 0) False False WIdle EvIdle SDone) s'" by simp
  with r show ?thesis by (intro exI conjI) (assumption, simp_all)
qed

end
