(* ===== verification/MlxCore.thy ===== *)
theory MlxCore
  imports MlxUAR MlxDMA
begin

text \<open>
  What the verbs objects share of the core driver: the doorbell-record page of the UAR manager,
  the pinned-memory table, and the world \<open>'w\<close> of the command interface, reached through
  \<^verbatim>\<open>MlxPCIDriver::exec\<close> (the parameter \<open>xc\<close> of the operations). The two helpers are the
  release sequences their error paths repeat.
\<close>

record 'w mlxCore =
  coUar :: MlxUAR
  coDma :: MlxDMA
  coCmd :: 'w

definition coExec :: "'w execFn \<Rightarrow> u32 \<Rightarrow> buffer \<Rightarrow> nat \<Rightarrow> 'w mlxCore \<Rightarrow> ioreturn \<times> buffer \<times> 'w mlxCore" where
  "coExec xc opcode inb outSize co =
     (let (kr, out, w) = xc (coCmd co) opcode inb outSize 5000 in (kr, out, co\<lparr>coCmd := w\<rparr>))"

definition coFreeDb :: "u32 \<Rightarrow> 'w mlxCore \<Rightarrow> 'w mlxCore" where
  "coFreeDb offset co = co\<lparr>coUar := freeDbSlots offset 2 (coUar co)\<rparr>"

text \<open>\<^verbatim>\<open>if (req.memDesc) unpinMemory(&req)\<close>\<close>

definition coUnpin :: "MlxDMAReq \<Rightarrow> 'w mlxCore \<Rightarrow> 'w mlxCore" where
  "coUnpin r co = (if memDesc r \<noteq> None then co\<lparr>coDma := unpinMemory (Some r) (coDma co)\<rparr> else co)"

definition coPin ::
  "pinEnv \<Rightarrow> u64 \<Rightarrow> u64 \<Rightarrow> 'w mlxCore \<Rightarrow> ioreturn \<times> MlxDMAReq option \<times> 'w mlxCore" where
  "coPin env va len co =
     (let (kr, r, d) = pinUserMemory env va len (coDma co) in (kr, r, co\<lparr>coDma := d\<rparr>))"

section \<open>What an operation holds\<close>

text \<open>
  The doorbell slots taken, the pinned requests in order, and the live memory descriptors and
  DMA commands: what an operation may leak.
\<close>

definition dmaHeld :: "MlxDMA \<Rightarrow> MlxDMAReq list \<times> nat set \<times> nat set" where
  "dmaHeld d = (fPendingReqs d, set (liveMem d), set (liveCmd d))"

definition coHeld :: "'w mlxCore \<Rightarrow> u64 list \<times> MlxDMAReq list \<times> nat set \<times> nat set" where
  "coHeld co = (fDbBitmap (coUar co), dmaHeld (coDma co))"

definition coWf :: "'w mlxCore \<Rightarrow> bool" where
  "coWf co \<longleftrightarrow> dbWf (coUar co) \<and> dmaInv (coDma co) \<and> fDbRecord (coUar co) \<noteq> None \<and> fDbLock (coUar co)"

lemma removeFirst_split:
  "(\<And>x. x \<in> set P \<Longrightarrow> \<not> Q x) \<Longrightarrow> Q r \<Longrightarrow> removeFirst Q (P @ r # R) = P @ R"
  by (induction P) auto

lemma unpin_held:
  assumes "dmaInv d" and "fPendingReqs d = P @ r # Q"
  shows "dmaInv (unpinMemory (Some r) d) \<and>
    dmaHeld (unpinMemory (Some r) d) =
      (P @ Q, set (liveMem d) - {the (memDesc r)}, set (liveCmd d) - {the (dmaCommand r)})"
proof
  have r: "r \<in> set (fPendingReqs d)" using assms(2) by simp
  show "dmaInv (unpinMemory (Some r) d)" using dma_tracked [OF assms(1), of _ _ _ r] r by blast
  obtain m c where mc: "memDesc r = Some m" "dmaCommand r = Some c"
    using assms(1) r by (auto simp: dmaInv_def)
  have "distinct (map memDesc (P @ r # Q))" using assms by (simp add: dmaInv_def)
  then have "memDesc r \<notin> memDesc ` set P" by auto
  then have "memDesc x \<noteq> memDesc r" if "x \<in> set P" for x
    using that by (metis imageI)
  then have "removeFirst (\<lambda>a. memDesc a = memDesc r) (fPendingReqs d) = P @ Q"
    unfolding assms(2) by (intro removeFirst_split) auto
  then show "dmaHeld (unpinMemory (Some r) d) =
      (P @ Q, set (liveMem d) - {the (memDesc r)}, set (liveCmd d) - {the (dmaCommand r)})"
    by (auto simp: unpinMemory_def dmaHeld_def mc Let_def)
qed

text \<open>\<open>r\<close> is what one pin (or none) left behind between two states.\<close>

definition pinned :: "MlxDMAReq \<Rightarrow> 'w mlxCore \<Rightarrow> 'w mlxCore \<Rightarrow> bool" where
  "pinned r co co' \<longleftrightarrow> coUar co' = coUar co \<and> coCmd co' = coCmd co \<and> dmaInv (coDma co') \<and>
     (if memDesc r = None then dmaHeld (coDma co') = dmaHeld (coDma co)
      else \<exists>m c. memDesc r = Some m \<and> dmaCommand r = Some c \<and> m \<notin> set (liveMem (coDma co)) \<and>
        c \<notin> set (liveCmd (coDma co)) \<and>
        dmaHeld (coDma co') = (fPendingReqs (coDma co) @ [r], insert m (set (liveMem (coDma co))),
          insert c (set (liveCmd (coDma co)))))"

lemma coPin_spec:
  assumes "dmaInv (coDma co)" and "coPin env va len co = (kr, r, co')"
  shows "coUar co' = coUar co \<and> coCmd co' = coCmd co \<and> dmaInv (coDma co') \<and>
    (if kr = kIOReturnSuccess then \<exists>q. r = Some q \<and> memDesc q \<noteq> None \<and> segList q \<noteq> [] \<and> pinned q co co'
     else dmaHeld (coDma co') = dmaHeld (coDma co))"
proof -
  obtain d where p: "pinUserMemory env va len (coDma co) = (kr, r, d)" and co': "co' = co\<lparr>coDma := d\<rparr>"
    using assms(2) by (auto simp: coPin_def split: prod.splits)
  have t: "dmaInv d" "if kr = kIOReturnSuccess then \<exists>req. r = Some req \<and> fPendingReqs d = fPendingReqs (coDma co) @ [req]
       else fPendingReqs d = fPendingReqs (coDma co) \<and> liveMem d = liveMem (coDma co) \<and> liveCmd d = liveCmd (coDma co)"
    using dma_tracked [OF assms(1), of env va len] p by auto
  show ?thesis
  proof (cases "kr = kIOReturnSuccess")
    case True
    then obtain q where q: "r = Some q" using t(2) by auto
    note ps = pin_success [OF p [unfolded True q]]
    have "dmaNext (coDma co) \<notin> set (liveMem (coDma co))" "Suc (dmaNext (coDma co)) \<notin> set (liveCmd (coDma co))"
      using dmaInv_fresh [OF assms(1)] by fastforce+
    then have "pinned q co co'"
      using ps t(1) by (auto simp: pinned_def co' dmaHeld_def)
    then show ?thesis using True q ps t(1) by (auto simp: co')
  next
    case False
    then show ?thesis using t by (simp add: co' dmaHeld_def)
  qed
qed

lemma undo1:
  assumes "dmaInv (coDma co)" and "pinned r co co'"
  shows "dmaInv (coDma (coUnpin r co')) \<and> dmaHeld (coDma (coUnpin r co')) = dmaHeld (coDma co)"
proof (cases "memDesc r")
  case None
  then show ?thesis using assms(2) by (simp add: pinned_def coUnpin_def)
next
  case (Some m)
  with assms(2) obtain c where h: "dmaCommand r = Some c" "m \<notin> set (liveMem (coDma co))"
    "c \<notin> set (liveCmd (coDma co))" "dmaInv (coDma co')"
    "dmaHeld (coDma co') = (fPendingReqs (coDma co) @ [r], insert m (set (liveMem (coDma co))),
       insert c (set (liveCmd (coDma co))))" by (auto simp: pinned_def)
  from unpin_held [OF h(4), of "fPendingReqs (coDma co)" r "[]"] h(1,2,3,5) Some
  show ?thesis by (auto simp: coUnpin_def dmaHeld_def)
qed

lemma undo2:
  assumes "dmaInv (coDma co)" and "pinned q co co1" and "pinned r co1 co2"
  shows "dmaInv (coDma (coUnpin r (coUnpin q co2))) \<and>
    dmaHeld (coDma (coUnpin r (coUnpin q co2))) = dmaHeld (coDma co)"
proof (cases "memDesc q")
  case None
  then have "dmaHeld (coDma co1) = dmaHeld (coDma co)" "coUnpin q co2 = co2" "dmaInv (coDma co1)"
    using assms(2) by (simp_all add: pinned_def coUnpin_def)
  with undo1 [OF _ assms(3)] show ?thesis by simp
next
  case (Some m)
  with assms(2) obtain c where h: "dmaCommand q = Some c" "m \<notin> set (liveMem (coDma co))"
    "c \<notin> set (liveCmd (coDma co))" "dmaInv (coDma co1)"
    "fPendingReqs (coDma co1) = fPendingReqs (coDma co) @ [q]"
    "set (liveMem (coDma co1)) = insert m (set (liveMem (coDma co)))"
    "set (liveCmd (coDma co1)) = insert c (set (liveCmd (coDma co)))"
    by (auto simp: pinned_def dmaHeld_def)
  show ?thesis
  proof (cases "memDesc r")
    case None
    then have "dmaHeld (coDma co2) = dmaHeld (coDma co1)" "dmaInv (coDma co2)"
      using assms(3) by (simp_all add: pinned_def)
    with unpin_held [of "coDma co2" "fPendingReqs (coDma co)" q "[]"] h Some None
    show ?thesis by (auto simp: coUnpin_def dmaHeld_def)
  next
    case (Some n)
    with assms(3) obtain e where g: "dmaCommand r = Some e" "n \<notin> set (liveMem (coDma co1))"
      "e \<notin> set (liveCmd (coDma co1))" "dmaInv (coDma co2)"
      "fPendingReqs (coDma co2) = fPendingReqs (coDma co1) @ [r]"
      "set (liveMem (coDma co2)) = insert n (set (liveMem (coDma co1)))"
      "set (liveCmd (coDma co2)) = insert e (set (liveCmd (coDma co1)))"
      by (auto simp: pinned_def dmaHeld_def)
    let ?d = "unpinMemory (Some q) (coDma co2)"
    have u: "dmaInv ?d" "dmaHeld ?d = (fPendingReqs (coDma co) @ [r], set (liveMem (coDma co2)) - {m},
        set (liveCmd (coDma co2)) - {c})"
      using unpin_held [OF g(4), of "fPendingReqs (coDma co)" q "[r]"] g(5) h(1,5) \<open>memDesc q = Some m\<close> by auto
    then have "fPendingReqs ?d = fPendingReqs (coDma co) @ r # []" by (simp add: dmaHeld_def)
    from unpin_held [OF u(1) this] u(2) g h Some \<open>memDesc q = Some m\<close>
    show ?thesis by (auto simp: coUnpin_def dmaHeld_def)
  qed
qed

lemma allocDb_spec:
  assumes "coWf co" and "allocDbSlots 2 (coUar co) = (kr, off, u)"
  shows "(kr = kIOReturnSuccess \<and> (\<exists>x. off = Some x \<and> fDbBitmap (freeDbSlots x 2 u) = fDbBitmap (coUar co)) \<and>
      dbWf u \<and> fDbRecord u \<noteq> None \<and> fDbLock u \<and> fDbRecordDMA u = fDbRecordDMA (coUar co)) \<or>
    (kr \<noteq> kIOReturnSuccess \<and> u = coUar co)"
proof -
  obtain page where pg: "fDbRecord (coUar co) = Some page" using assms(1) by (auto simp: coWf_def)
  have wf: "dbWf (coUar co)" "fDbLock (coUar co)" using assms(1) by (simp_all add: coWf_def)
  note sp = allocDbSlots_spec [OF wf(1) pg wf(2), of 2]
  show ?thesis
  proof (cases off)
    case None
    then show ?thesis using sp assms(2) by simp
  next
    case (Some x)
    have "dbWf u \<and> fDbLock u \<and> fDbRecordDMA u = fDbRecordDMA (coUar co)"
      using allocDbSlots_cases [OF pg wf(2), of 2] assms(2) wf Some pg
      by (auto simp: dbWf_def)
    then show ?thesis using sp assms(2) Some by auto
  qed
qed

lemma freeDb_fields [simp]: "fDbLock (freeDbSlots x n u) = fDbLock u"
  "fDbRecord (freeDbSlots x n u) = fDbRecord u"
  by (simp_all add: freeDbSlots_def Let_def)

lemma coFreeDb_fields [simp]: "coDma (coFreeDb x co) = coDma co"
  "coUar (coFreeDb x co) = freeDbSlots x 2 (coUar co)" "coCmd (coFreeDb x co) = coCmd co"
  by (simp_all add: coFreeDb_def)

lemma coUnpin_fields [simp]: "coUar (coUnpin r co) = coUar co" "coCmd (coUnpin r co) = coCmd co"
  by (simp_all add: coUnpin_def)

lemma coExec_fields: "coExec xc opc inb n co = (kr, out, co') \<Longrightarrow> coUar co' = coUar co \<and> coDma co' = coDma co"
  by (auto simp: coExec_def split: prod.splits)

lemma coUnpin_cong: "coDma a = coDma b \<Longrightarrow> coDma (coUnpin r a) = coDma (coUnpin r b)"
  by (simp add: coUnpin_def)

lemma freeDb_wf [simp]: "dbWf u \<Longrightarrow> dbWf (freeDbSlots x n u)"
proof -
  have len: "length (foldl (dbClear k) m is) = length m" for k m "is"
    by (induction "is" arbitrary: m) (auto simp: dbClear_def)
  show "dbWf u \<Longrightarrow> dbWf (freeDbSlots x n u)" by (simp add: dbWf_def freeDbSlots_def Let_def len)
qed

text \<open>
  The release sequence of an object with two pinned rings and two doorbell slots gives back
  exactly what was taken: the caller's state before the allocations is \<open>co\<close>.
\<close>

lemma release_all:
  assumes wf: "coWf co" and db: "allocDbSlots 2 (coUar co) = (kIOReturnSuccess, Some off, u)"
    and p1: "pinned q (co\<lparr>coUar := u\<rparr>) co1" and p2: "pinned r co1 co2"
    and same: "coUar co3 = coUar co2" "coDma co3 = coDma co2"
  shows "coWf (coFreeDb off (coUnpin r (coUnpin q co3))) \<and>
    coHeld (coFreeDb off (coUnpin r (coUnpin q co3))) = coHeld co"
proof -
  have u: "fDbBitmap (freeDbSlots off 2 u) = fDbBitmap (coUar co)" "dbWf u" "fDbRecord u \<noteq> None" "fDbLock u"
    using allocDb_spec [OF wf db] by auto
  have "coUar co2 = u" using p1 p2 by (simp add: pinned_def)
  moreover have "dmaInv (coDma (co\<lparr>coUar := u\<rparr>))" using wf by (simp add: coWf_def)
  from undo2 [OF this p1 p2]
  have "dmaInv (coDma (coUnpin r (coUnpin q co2)))"
    "dmaHeld (coDma (coUnpin r (coUnpin q co2))) = dmaHeld (coDma co)" by simp_all
  moreover have "coDma (coUnpin r (coUnpin q co3)) = coDma (coUnpin r (coUnpin q co2))"
    by (intro coUnpin_cong same(2))
  ultimately show ?thesis using u same(1) by (simp add: coWf_def coHeld_def)
qed

lemma release_one:
  assumes wf: "coWf co" and db: "allocDbSlots 2 (coUar co) = (kIOReturnSuccess, Some off, u)"
    and p1: "pinned q (co\<lparr>coUar := u\<rparr>) co1"
    and same: "coUar co3 = coUar co1" "coDma co3 = coDma co1"
  shows "coWf (coFreeDb off (coUnpin q co3)) \<and> coHeld (coFreeDb off (coUnpin q co3)) = coHeld co"
proof -
  have u: "fDbBitmap (freeDbSlots off 2 u) = fDbBitmap (coUar co)" "dbWf u" "fDbRecord u \<noteq> None" "fDbLock u"
    using allocDb_spec [OF wf db] by auto
  have "coUar co1 = u" using p1 by (simp add: pinned_def)
  moreover have "dmaInv (coDma (co\<lparr>coUar := u\<rparr>))" using wf by (simp add: coWf_def)
  from undo1 [OF this p1]
  have "dmaInv (coDma (coUnpin q co1))" "dmaHeld (coDma (coUnpin q co1)) = dmaHeld (coDma co)" by simp_all
  moreover have "coDma (coUnpin q co3) = coDma (coUnpin q co1)" by (intro coUnpin_cong same(2))
  ultimately show ?thesis using u same(1) by (simp add: coWf_def coHeld_def)
qed

section \<open>A concrete instance\<close>

definition sampleCo :: "unit mlxCore" where
  "sampleCo = \<lparr>coUar = (uarInit True)\<lparr>fDbRecord := Some (replicate 4096 0)\<rparr>, coDma = dmaEmpty, coCmd = ()\<rparr>"

definition samplePage :: pinEnv where
  "samplePage = samplePin\<lparr>peGen := (\<lambda>off. (kIOReturnSuccess, [(0x10000, 0x1000)]))\<rparr>"

definition sampleXc :: "unit execFn" where
  "sampleXc w opcode inb n t = (kIOReturnSuccess, replicate n 0, w)"

lemma sampleCo_wf: "coWf sampleCo"
  by (simp add: coWf_def sampleCo_def dbWf_def uarInit_def dmaInv_def dmaEmpty_def)

lemma sampleCo_alloc: "\<exists>off u. allocDbSlots 2 (coUar sampleCo) = (kIOReturnSuccess, Some off, u)"
proof -
  obtain kr off u where al: "allocDbSlots 2 (coUar sampleCo) = (kr, off, u)" by (metis prod_cases3)
  have wf: "dbWf (coUar sampleCo)" "fDbRecord (coUar sampleCo) = Some (replicate 4096 0)" "fDbLock (coUar sampleCo)"
    by (simp_all add: sampleCo_def dbWf_def uarInit_def)
  have "off \<noteq> None"
  proof
    assume "off = None"
    with allocDbSlots_spec [OF wf, of 2] al
    have "\<exists>k. 0 \<le> k \<and> k < 0 + unat (2::u32) \<and> bit64s (fDbBitmap (coUar sampleCo)) k" by auto
    then obtain k where k: "k < Suc (Suc 0)" "bit64s (fDbBitmap (coUar sampleCo)) k" by auto
    then have "k div 64 = 0" by simp
    with k show False by (simp add: sampleCo_def uarInit_def bit64s_def)
  qed
  moreover have "kr = kIOReturnSuccess"
    using allocDb_spec [OF sampleCo_wf al] \<open>off \<noteq> None\<close> allocDbSlots_spec [OF wf, of 2] al by (auto split: option.splits)
  ultimately show ?thesis using al by auto
qed

lemma coPin_sample:
  "\<exists>q co'. coPin samplePage va 0x1000 co = (kIOReturnSuccess, Some q, co') \<and>
    segList q = [(0x10000, 0x1000)] \<and> memDesc q \<noteq> None \<and> coUar co' = coUar co \<and> coCmd co' = coCmd co"
proof -
  have "pinLoop (peGen samplePage) 0x1000 0 [] = (0x1000, [(0x10000, 0x1000)])"
    by (subst pinLoop.simps, subst pinLoop.simps) (simp add: samplePage_def MLX_DMA_MAX_SEGS_def)
  then show ?thesis
    by (simp add: coPin_def pinUserMemory_def Let_def) (simp add: samplePage_def samplePin_def)
qed

lemma coExec_sample [simp]: "coExec sampleXc opc inb n co = (kIOReturnSuccess, replicate n 0, co)"
  by (simp add: coExec_def sampleXc_def)

text \<open>A device that never answers: every command times out.\<close>

definition timedXc :: "unit execFn" where
  "timedXc w opcode inb n t = (kIOReturnTimeout, replicate n 0, w)"

lemma coExec_timed [simp]: "coExec timedXc opc inb n co = (kIOReturnTimeout, replicate n 0, co)"
  by (simp add: coExec_def timedXc_def)

end
