(* ===== verification/MlxQP.thy ===== *)
theory MlxQP
  imports MlxCore MlxP0
begin

text \<open>
  \<^verbatim>\<open>Sources/ib/MlxQP.{hpp,cpp}\<close>: queue pairs. The QP table is the source's OSArray of
  contexts; \<open>sqDma\<close> and \<open>rqDma\<close> are present exactly when the source's \<open>sqPinned\<close> and
  \<open>rqPinned\<close> are true. IOKit allocations are answered by \<open>QpEnv\<close>. The lock of the table
  serialises the operations.
\<close>

unbundle bit_operations_syntax

section \<open>Data\<close>

record mlx_create_qp_req =
  cq_pd :: u32
  cq_sendCq :: u32
  cq_recvCq :: u32
  cq_qpType :: u32
  cq_sqSize :: u32
  cq_rqSize :: u32
  cq_sqBufAddr :: u64
  cq_rqBufAddr :: u64

record mlx_create_qp_resp =
  cr_qpn :: u32
  cr_sqStrideSize :: u32
  cr_dbRecordOffset :: u32
  cr_bfOffset :: u32

record mlx_modify_qp_req =
  mq_qpn :: u32
  mq_curState :: u32
  mq_newState :: u32
  mq_destQpn :: u32
  mq_pathMtu :: u32
  mq_rqPsn :: u32
  mq_sqPsn :: u32
  mq_pkeyIndex :: u32
  mq_portNum :: u32
  mq_ahDmac :: buffer
  mq_ahDgid :: buffer
  mq_ahSgidIndex :: u32
  mq_ahHopLimit :: u8
  mq_ahTrafficClass :: u8
  mq_ahUdpSport :: u16
  mq_minRnrTimer :: u32
  mq_maxDestRdAtomic :: u32
  mq_maxRdAtomic :: u32

record MlxQPContext =
  qp_qpNum :: u32
  qp_state :: u32
  qp_st :: u32
  qp_pd :: u32
  qp_sqBufAddr :: u64
  qp_rqBufAddr :: u64
  qp_sqSize :: u32
  qp_rqSize :: u32
  qp_dbRecordOffset :: u32
  qp_bfOffset :: u32
  qp_sqPhys :: u64
  qp_rqPhys :: u64
  qp_sqDma :: "MlxDMAReq option"
  qp_rqDma :: "MlxDMAReq option"
  qp_ahDmac :: buffer
  qp_ahDgid :: buffer
  qp_ahSgidIndex :: u32
  qp_ahHopLimit :: u8
  qp_ahTrafficClass :: u8
  qp_ahUdpSport :: u16
  qp_pkeyIndex :: u16
  qp_portNum :: u8
  qp_destQpn :: u32

record QpEnv =
  qeSqPin :: pinEnv
  qeRqPin :: pinEnv
  qeCtx :: bool
  qeRecord :: bool
  qeAdded :: bool

type_synonym qpTable = "MlxQPContext list"

section \<open>Table access\<close>

definition qpLookup :: "u32 \<Rightarrow> qpTable \<Rightarrow> MlxQPContext option" where
  "qpLookup qpn t = tblLookup qp_qpNum qpn t"

definition qpRemove :: "u32 \<Rightarrow> qpTable \<Rightarrow> qpTable" where
  "qpRemove qpn t = tblRemove qp_qpNum qpn t"

definition qpUnique :: "qpTable \<Rightarrow> bool" where
  "qpUnique t = uniqueKeys qp_qpNum t"

interpretation qpt: handle_table qpLookup tblInsert qpRemove qp_qpNum qpUnique
  unfolding qpLookup_def qpRemove_def qpUnique_def by (rule table_laws)

section \<open>Destroying\<close>

definition coUnpinOpt :: "MlxDMAReq option \<Rightarrow> 'w mlxCore \<Rightarrow> 'w mlxCore" where
  "coUnpinOpt r co = (case r of None \<Rightarrow> co | Some q \<Rightarrow> co\<lparr>coDma := unpinMemory (Some q) (coDma co)\<rparr>)"

definition destroyQP ::
  "'w execFn \<Rightarrow> u32 \<Rightarrow> qpTable \<Rightarrow> 'w mlxCore \<Rightarrow> ioreturn \<times> qpTable \<times> 'w mlxCore" where
  "destroyQP xc qpn t co =
     (let inb = mlxSetBits (OSWriteBigInt16 (replicate 16 0) 0 (ucast MLX_CMD_OP_DESTROY_QP)) 0x48 24 (ucast qpn)
      in case coExec xc MLX_CMD_OP_DESTROY_QP inb 16 co of
           (kr, out, co) \<Rightarrow>
             if kr = kIOReturnSuccess
             then (case qpLookup qpn t of
                     None \<Rightarrow> (kr, t, co)
                   | Some ctx \<Rightarrow>
                       (kr, qpRemove qpn t,
                        coFreeDb (qp_dbRecordOffset ctx)
                          (coUnpinOpt (qp_rqDma ctx) (coUnpinOpt (qp_sqDma ctx) co))))
             else (kr, t, co))"

section \<open>Creating\<close>

text \<open>\<^verbatim>\<open>31u - __builtin_clz(x)\<close> of a non-zero value.\<close>

definition topBit :: "u32 \<Rightarrow> nat" where
  "topBit x = (case find (\<lambda>i. bit x i) (rev [0..<32]) of Some i \<Rightarrow> i | None \<Rightarrow> 0)"

definition createQpArgsOk :: "mlx_create_qp_req \<Rightarrow> bool" where
  "createQpArgsOk req =
     (\<not> (cq_sqSize req = 0 \<or> cq_rqSize req = 0 \<or> cq_sqSize req < 64 \<or> cq_rqSize req < 64 \<or>
         cq_sqBufAddr req AND 0xfff \<noteq> 0 \<or> cq_rqBufAddr req AND 0xfff \<noteq> 0 \<or>
         (ucast (cq_sqSize req) * 64 :: u64) mod 4096 \<noteq> 0 \<or>
         (ucast (cq_rqSize req) * 64 :: u64) mod 4096 \<noteq> 0 \<or>
         cq_sqSize req AND (cq_sqSize req - 1) \<noteq> 0 \<or> cq_rqSize req AND (cq_rqSize req - 1) \<noteq> 0) \<and>
      topBit (cq_sqSize req) \<le> 15 \<and> topBit (cq_rqSize req) \<le> 15)"

definition qpType :: "mlx_create_qp_req \<Rightarrow> u32" where
  "qpType req = (if cq_qpType req = 0 then MLX_QP_ST_RC else MLX_QP_ST_UD)"

definition createQpInput :: "mlx_create_qp_req \<Rightarrow> u64 \<Rightarrow> u64 list \<Rightarrow> buffer" where
  "createQpInput req dbDma pas =
     (let b = OSWriteBigInt16 (replicate 4112 0) 0 (ucast MLX_CMD_OP_CREATE_QP);
          b = setFields b
            [(0x48, 24, 0), (0x80, 32, 0),
             (0xc0 + 0x08, 8, ucast (qpType req)),
             (0xc0 + 0x28, 24, ucast (cq_pd req)),
             (0xc0 + 0x49, 4, of_nat (topBit (cq_rqSize req))),
             (0xc0 + 0x4d, 3, 6),
             (0xc0 + 0x51, 4, of_nat (topBit (cq_sqSize req))),
             (0xc0 + 0x3e8, 24, ucast (cq_sendCq req)),
             (0xc0 + 0x4e8, 24, ucast (cq_recvCq req)),
             (0xc0 + 0x500, 64, dbDma),
             (0x860, 1, 1)];
          b = foldl (\<lambda>b i. OSWriteBigInt64 b (0x880 div 8 + 8 * i) (pas ! i)) b [0..<length pas]
      in take (0x880 div 8 + 8 * length pas) b)"

definition newQpContext ::
  "u32 \<Rightarrow> mlx_create_qp_req \<Rightarrow> u32 \<Rightarrow> MlxDMAReq \<Rightarrow> MlxDMAReq \<Rightarrow> MlxQPContext" where
  "newQpContext qpn req off sq rq =
     \<lparr>qp_qpNum = qpn, qp_state = MLX_QP_STATE_RST, qp_st = qpType req, qp_pd = cq_pd req,
      qp_sqBufAddr = cq_sqBufAddr req, qp_rqBufAddr = cq_rqBufAddr req,
      qp_sqSize = cq_sqSize req, qp_rqSize = cq_rqSize req, qp_dbRecordOffset = off,
      qp_bfOffset = of_nat MLX_BF_OFFSET,
      qp_sqPhys = fst (hd (segList sq)), qp_rqPhys = fst (hd (segList rq)),
      qp_sqDma = (if memDesc sq \<noteq> None then Some sq else None),
      qp_rqDma = (if memDesc rq \<noteq> None then Some rq else None),
      qp_ahDmac = replicate 6 0, qp_ahDgid = replicate 16 0, qp_ahSgidIndex = 0,
      qp_ahHopLimit = 0, qp_ahTrafficClass = 0, qp_ahUdpSport = 0, qp_pkeyIndex = 0,
      qp_portNum = 0, qp_destQpn = 0\<rparr>"

text \<open>A zeroed \<open>MlxDMAReq\<close>, for the case that a buffer address is null and nothing is pinned.\<close>

definition noDmaReq :: MlxDMAReq where
  "noDmaReq = \<lparr>ownerTask = 0, virtAddr = 0, reqLength = 0, segList = [], memDesc = None, dmaCommand = None\<rparr>"

definition pinRing ::
  "pinEnv \<Rightarrow> u64 \<Rightarrow> u32 \<Rightarrow> 'w mlxCore \<Rightarrow> ioreturn \<times> MlxDMAReq \<times> 'w mlxCore" where
  "pinRing env addr count co =
     (if addr \<noteq> 0 \<and> count \<noteq> 0
      then (case coPin env addr (ucast count * 64) co of
              (kr, r, co) \<Rightarrow> (kr, (case r of Some q \<Rightarrow> q | None \<Rightarrow> noDmaReq), co))
      else (kIOReturnSuccess, noDmaReq, co))"

definition createQP ::
  "'w execFn \<Rightarrow> QpEnv \<Rightarrow> mlx_create_qp_req \<Rightarrow> qpTable \<Rightarrow> 'w mlxCore \<Rightarrow>
   ioreturn \<times> mlx_create_qp_resp option \<times> qpTable \<times> 'w mlxCore" where
  "createQP xc env req t co =
     (if \<not> createQpArgsOk req then (kIOReturnBadArgument, None, t, co)
      else
        (case allocDbSlots 2 (coUar co) of
           (kr, off, uar) \<Rightarrow>
             (let co = co\<lparr>coUar := uar\<rparr>; off = (case off of Some x \<Rightarrow> x | None \<Rightarrow> 0);
                  dbDma = fDbRecordDMA (coUar co) + ucast off
              in if kr \<noteq> kIOReturnSuccess then (kIOReturnNoResources, None, t, co)
                 else
                   (case pinRing (qeSqPin env) (cq_sqBufAddr req) (cq_sqSize req) co of
                      (kr, sq, co) \<Rightarrow>
                        if kr \<noteq> kIOReturnSuccess then (kIOReturnNoSpace, None, t, coFreeDb off co)
                        else
                          (case pinRing (qeRqPin env) (cq_rqBufAddr req) (cq_rqSize req) co of
                             (kr, rq, co) \<Rightarrow>
                               if kr \<noteq> kIOReturnSuccess
                               then (kIOReturnNoSpace, None, t, coFreeDb off (coUnpin sq co))
                               else
                                 (let undo = (\<lambda>co. coFreeDb off (coUnpin rq (coUnpin sq co)))
                                  in if segList sq = [] \<or> segList rq = [] \<or>
                                        MLX_DMA_MAX_SEGS < length (segList sq) + length (segList rq)
                                     then (kIOReturnNoSpace, None, t, undo co)
                                     else
                                       (case coExec xc MLX_CMD_OP_CREATE_QP
                                               (createQpInput req dbDma (map fst (segList sq @ segList rq)))
                                               16 co of
                                          (kr, out, co) \<Rightarrow>
                                            if kr \<noteq> kIOReturnSuccess then (kr, None, t, undo co)
                                            else
                                              (let qpn = ucast (mlxGetBits out 0x48 24);
                                                   resp = \<lparr>cr_qpn = qpn, cr_sqStrideSize = 64,
                                                     cr_dbRecordOffset = off, cr_bfOffset = of_nat MLX_BF_OFFSET\<rparr>
                                               in if \<not> (qeCtx env \<and> qeRecord env \<and> qeAdded env)
                                                  then (case destroyQP xc qpn t co of
                                                          (dk, t, co) \<Rightarrow>
                                                            (kIOReturnNoMemory, Some resp, t,
                                                             if dk = kIOReturnSuccess then undo co else co))
                                                  else (kIOReturnSuccess, Some resp,
                                                        tblInsert (newQpContext qpn req off sq rq) t, co)))))))))"

section \<open>Modifying\<close>

text \<open>The state switch: the command of a transition, or the error of the branch.\<close>

definition modifyOpcode :: "u32 \<Rightarrow> u32 \<Rightarrow> ioreturn + u32" where
  "modifyOpcode state newState =
     (if state = MLX_QP_STATE_RST
      then (if newState \<noteq> MLX_QP_STATE_INIT then Inl kIOReturnNotPermitted else Inr MLX_CMD_OP_RST2INIT_QP)
      else if state = MLX_QP_STATE_INIT
      then (if newState \<noteq> MLX_QP_STATE_RTR then Inl kIOReturnNotPermitted else Inr MLX_CMD_OP_INIT2RTR_QP)
      else if state = MLX_QP_STATE_RTR
      then (if newState \<noteq> MLX_QP_STATE_RTS then Inl kIOReturnNotPermitted else Inr MLX_CMD_OP_RTR2RTS_QP)
      else Inl kIOReturnUnsupported)"

definition setAh :: "mlx_modify_qp_req \<Rightarrow> MlxQPContext \<Rightarrow> MlxQPContext" where
  "setAh req ctx = ctx\<lparr>qp_ahDmac := mq_ahDmac req, qp_ahDgid := mq_ahDgid req,
     qp_ahSgidIndex := mq_ahSgidIndex req, qp_ahHopLimit := mq_ahHopLimit req,
     qp_ahTrafficClass := mq_ahTrafficClass req, qp_ahUdpSport := mq_ahUdpSport req,
     qp_destQpn := mq_destQpn req\<rparr>"

definition pathOf :: "MlxQPContext \<Rightarrow> MlxRocePathFields" where
  "pathOf ctx = \<lparr>path_dmac = qp_ahDmac ctx, path_dgid = qp_ahDgid ctx,
     path_sgidIndex = qp_ahSgidIndex ctx, path_hopLimit = qp_ahHopLimit ctx,
     path_trafficClass = qp_ahTrafficClass ctx, path_udpSport = qp_ahUdpSport ctx,
     path_pkeyIndex = qp_pkeyIndex ctx, path_portNum = qp_portNum ctx\<rparr>"

text \<open>The QP context of the command, its optional-parameter mask, and the updated QP.\<close>

definition encodeModify ::
  "u32 \<Rightarrow> mlx_modify_qp_req \<Rightarrow> MlxQPContext \<Rightarrow> (buffer \<times> u32) option \<times> MlxQPContext" where
  "encodeModify opcode req ctx =
     (let zero = Some (replicate MLX_QPC_BYTES 0);
          result = (\<lambda>(ok, q, m). if ok then Some (the q, the m) else None)
      in if opcode = MLX_CMD_OP_RST2INIT_QP
         then (case mlxEncodeRst2InitQpc zero MLX_QPC_BYTES (mq_pkeyIndex req) (mq_portNum req) (Some 0) of
                 (ok, q, m) \<Rightarrow>
                   if \<not> ok then (None, ctx)
                   else (Some (the q, the m), ctx\<lparr>qp_pkeyIndex := ucast (mq_pkeyIndex req),
                           qp_portNum := ucast (mq_portNum req)\<rparr>))
         else if opcode = MLX_CMD_OP_INIT2RTR_QP
         then (let ctx = setAh req ctx
               in (result (mlxEncodeInit2RtrQpc zero MLX_QPC_BYTES (Some (pathOf ctx)) (mq_destQpn req)
                     (mq_pathMtu req) (mq_rqPsn req) (mq_maxDestRdAtomic req) (Some 0)), ctx))
         else if opcode = MLX_CMD_OP_RTR2RTS_QP
         then (result (mlxEncodeRtr2RtsQpc zero MLX_QPC_BYTES (mq_sqPsn req) (mq_minRnrTimer req)
                 (mq_maxRdAtomic req) (Some 0)), ctx)
         else (Some (the zero, 0), ctx))"

definition modifyQpInput :: "u32 \<Rightarrow> u32 \<Rightarrow> u32 \<Rightarrow> buffer \<Rightarrow> buffer" where
  "modifyQpInput opcode qpn mask' qpc =
     setFields (OSWriteBigInt16 (replicate (MLX_QPC_BIT_OFFSET div 8) 0 @ qpc) 0 (ucast opcode))
       [(0x48, 24, ucast qpn), (0x80, 32, ucast mask')]"

definition modifyQP ::
  "'w execFn \<Rightarrow> mlx_modify_qp_req option \<Rightarrow> qpTable \<Rightarrow> 'w mlxCore \<Rightarrow> ioreturn \<times> qpTable \<times> 'w mlxCore" where
  "modifyQP xc req t co =
     (case req of
        None \<Rightarrow> (kIOReturnBadArgument, t, co)
      | Some req \<Rightarrow>
          (case qpLookup (mq_qpn req) t of
             None \<Rightarrow> (kIOReturnNotFound, t, co)
           | Some ctx \<Rightarrow>
               if qp_state ctx \<noteq> mq_curState req then (kIOReturnNotPermitted, t, co)
               else
                 (case modifyOpcode (qp_state ctx) (mq_newState req) of
                    Inl err \<Rightarrow> (err, t, co)
                  | Inr opcode \<Rightarrow>
                      (case encodeModify opcode req ctx of
                         (None, ctx) \<Rightarrow> (kIOReturnBadArgument, tblUpdate qp_qpNum (mq_qpn req) (\<lambda>_. ctx) t, co)
                       | (Some (qpc, mask'), ctx) \<Rightarrow>
                           (case coExec xc opcode (modifyQpInput opcode (mq_qpn req) mask' qpc) 16 co of
                              (kr, out, co) \<Rightarrow>
                                let ctx = (if kr = kIOReturnSuccess then ctx\<lparr>qp_state := mq_newState req\<rparr> else ctx)
                                in (kr, tblUpdate qp_qpNum (mq_qpn req) (\<lambda>_. ctx) t, co))))))"

definition queryQP :: "u32 \<Rightarrow> ioreturn" where
  "queryQP qpn = kIOReturnUnsupported"

section \<open>Teardown\<close>

text \<open>
  The destructor's loop takes the first record: it destroys the QP when the command interface is
  up, and otherwise, or when that fails, drops the record and leaves its memory pinned.
\<close>

fun qpFreeLoop :: "'w execFn \<Rightarrow> bool \<Rightarrow> nat \<Rightarrow> qpTable \<Rightarrow> 'w mlxCore \<Rightarrow> 'w mlxCore" where
  "qpFreeLoop xc up 0 t co = co"
| "qpFreeLoop xc up (Suc n) t co =
     (case t of
        [] \<Rightarrow> co
      | ctx # rest \<Rightarrow>
          (if up
           then (case destroyQP xc (qp_qpNum ctx) t co of
                   (kr, t, co) \<Rightarrow>
                     if kr = kIOReturnSuccess then qpFreeLoop xc up n t co else qpFreeLoop xc up n (tl t) co)
           else qpFreeLoop xc up n rest co))"

definition qpFree :: "'w execFn \<Rightarrow> bool \<Rightarrow> qpTable \<Rightarrow> 'w mlxCore \<Rightarrow> 'w mlxCore" where
  "qpFree xc up t co = qpFreeLoop xc up (length t) t co"

end
