(* ===== verification/MlxQPProps.thy ===== *)
theory MlxQPProps
  imports MlxQP
begin

text \<open>
  Properties of the queue pairs: the state machine of \<^verbatim>\<open>MlxQP::modifyQP\<close>, and the resources
  that \<^verbatim>\<open>MlxQP::createQP\<close> takes and gives back.
\<close>

section \<open>The state machine\<close>

definition qpLegal :: "(u32 \<times> u32) set" where
  "qpLegal = {(MLX_QP_STATE_RST, MLX_QP_STATE_INIT), (MLX_QP_STATE_INIT, MLX_QP_STATE_RTR),
     (MLX_QP_STATE_RTR, MLX_QP_STATE_RTS)}"

lemma modifyOpcode_legal: "modifyOpcode s n = Inr opc \<Longrightarrow> (s, n) \<in> qpLegal"
  by (auto simp: modifyOpcode_def qpLegal_def split: if_splits)

lemma modifyOpcode_error: "modifyOpcode s n = Inl err \<Longrightarrow> err \<noteq> kIOReturnSuccess \<and> (s, n) \<notin> qpLegal"
  by (auto simp: modifyOpcode_def qpLegal_def qp_state_defs split: if_splits)

text \<open>What a modification may not touch: everything but the state and the addressing fields.\<close>

definition qpResources where
  "qpResources ctx = (qp_qpNum ctx, qp_st ctx, qp_pd ctx, qp_sqBufAddr ctx, qp_rqBufAddr ctx,
     qp_sqSize ctx, qp_rqSize ctx, qp_dbRecordOffset ctx, qp_bfOffset ctx, qp_sqPhys ctx,
     qp_rqPhys ctx, qp_sqDma ctx, qp_rqDma ctx)"

lemma encodeModify_frame:
  "encodeModify opc req ctx = (x, ctx') \<Longrightarrow>
   qpResources ctx' = qpResources ctx \<and> qp_state ctx' = qp_state ctx"
  by (auto simp: encodeModify_def setAh_def qpResources_def Let_def split: if_splits prod.splits)

lemma modifyQP_spec:
  assumes "modifyQP xc (Some req) t co = (kr, t', co')"
  shows "map qp_qpNum t' = map qp_qpNum t \<and> coUar co' = coUar co \<and> coDma co' = coDma co \<and>
    (\<forall>q. q \<noteq> mq_qpn req \<longrightarrow> qpLookup q t' = qpLookup q t) \<and>
    (case qpLookup (mq_qpn req) t of
       None \<Rightarrow> kr = kIOReturnNotFound \<and> t' = t \<and> co' = co
     | Some ctx \<Rightarrow> \<exists>ctx'. qpLookup (mq_qpn req) t' = Some ctx' \<and> qpResources ctx' = qpResources ctx \<and>
         (if kr = kIOReturnSuccess
          then qp_state ctx = mq_curState req \<and> qp_state ctx' = mq_newState req \<and>
               (qp_state ctx, qp_state ctx') \<in> qpLegal
          else qp_state ctx' = qp_state ctx) \<and>
         (qp_state ctx \<noteq> mq_curState req \<or> (qp_state ctx, mq_newState req) \<notin> qpLegal \<longrightarrow>
            kr \<noteq> kIOReturnSuccess \<and> t' = t \<and> co' = co))"
proof (cases "qpLookup (mq_qpn req) t")
  case None
  then show ?thesis using assms by (simp add: modifyQP_def)
next
  case (Some ctx)
  have key: "qp_qpNum ctx = mq_qpn req" using Some by (rule qpt.lookup_key)
  show ?thesis
  proof (cases "qp_state ctx \<noteq> mq_curState req \<or> (\<exists>err. modifyOpcode (qp_state ctx) (mq_newState req) = Inl err)")
    case True
    then have "kr \<noteq> kIOReturnSuccess \<and> t' = t \<and> co' = co"
    proof (cases "qp_state ctx = mq_curState req")
      case True
      with \<open>qp_state ctx \<noteq> mq_curState req \<or> _\<close> obtain err
        where "modifyOpcode (qp_state ctx) (mq_newState req) = Inl err" by blast
      then show ?thesis using assms Some True modifyOpcode_error by (auto simp: modifyQP_def)
    next
      case False
      then show ?thesis using assms Some by (auto simp: modifyQP_def)
    qed
    then show ?thesis using Some by simp
  next
    case False
    then obtain opc where opc: "modifyOpcode (qp_state ctx) (mq_newState req) = Inr opc"
      and cur: "qp_state ctx = mq_curState req" by (cases "modifyOpcode (qp_state ctx) (mq_newState req)") auto
    note legal = modifyOpcode_legal [OF opc]
    obtain x c1 where enc: "encodeModify opc req ctx = (x, c1)" by fastforce
    note fr = encodeModify_frame [OF enc]
    obtain c2 where c2: "t' = tblUpdate qp_qpNum (mq_qpn req) (\<lambda>_. c2) t"
      "qpResources c2 = qpResources ctx" "coUar co' = coUar co" "coDma co' = coDma co"
      "qp_state c2 = (if kr = kIOReturnSuccess then mq_newState req else qp_state ctx)"
    proof (cases x)
      case None
      then show ?thesis using assms Some cur opc enc fr by (intro that [of c1]) (auto simp: modifyQP_def)
    next
      case (Some y)
      obtain qpc m where y: "y = (qpc, m)" by (cases y)
      obtain k out co1 where ex: "coExec xc opc (modifyQpInput opc (mq_qpn req) m qpc) 16 co = (k, out, co1)"
        by (metis prod_cases3)
      note cf = coExec_fields [OF ex]
      show ?thesis
        using assms \<open>qpLookup (mq_qpn req) t = Some ctx\<close> cur opc enc fr Some y ex cf
        by (intro that [of "if k = kIOReturnSuccess then c1\<lparr>qp_state := mq_newState req\<rparr> else c1"])
          (auto simp: modifyQP_def Let_def qpResources_def)
    qed
    have "qp_qpNum c2 = mq_qpn req" using c2(2) key by (simp add: qpResources_def)
    note st = tblLookup_store [of qp_qpNum, OF this] keys_store [of qp_qpNum, OF this]
    show ?thesis using Some c2 st cur legal by (simp add: qpLookup_def)
  qed
qed

text \<open>C17: The QP state machine. \<open>modifyQP\<close> moves a queue pair only along
  RST, INIT, RTR, RTS, only from the state the caller names, and only when the firmware accepted
  the command; it leaves every other QP, the QP numbers, the pinned memory and the doorbell slots
  alone, and the queue pair's own resources; an illegal transition reaches neither the table nor
  the hardware.\<close>

theorem modifyQP_state_machine:
  assumes "modifyQP xc (Some req) t co = (kr, t', co')"
  shows "map qp_qpNum t' = map qp_qpNum t \<and> coUar co' = coUar co \<and> coDma co' = coDma co \<and>
    (\<forall>q. q \<noteq> mq_qpn req \<longrightarrow> qpLookup q t' = qpLookup q t) \<and>
    (case qpLookup (mq_qpn req) t of
       None \<Rightarrow> kr = kIOReturnNotFound \<and> t' = t \<and> co' = co
     | Some ctx \<Rightarrow> \<exists>ctx'. qpLookup (mq_qpn req) t' = Some ctx' \<and> qpResources ctx' = qpResources ctx \<and>
         (if kr = kIOReturnSuccess
          then qp_state ctx = mq_curState req \<and> qp_state ctx' = mq_newState req \<and>
               (qp_state ctx, qp_state ctx') \<in> qpLegal
          else qp_state ctx' = qp_state ctx) \<and>
         (qp_state ctx \<noteq> mq_curState req \<or> (qp_state ctx, mq_newState req) \<notin> qpLegal \<longrightarrow>
            kr \<noteq> kIOReturnSuccess \<and> t' = t \<and> co' = co))"
  using assms by (rule modifyQP_spec)

section \<open>Creation\<close>

lemma pinRing_spec:
  assumes "dmaInv (coDma co)" and "pinRing env addr n co = (kr, r, co')"
  shows "coUar co' = coUar co \<and> coCmd co' = coCmd co \<and> dmaInv (coDma co') \<and>
    (if kr = kIOReturnSuccess then pinned r co co' \<and> (segList r \<noteq> [] \<longrightarrow> memDesc r \<noteq> None)
     else dmaHeld (coDma co') = dmaHeld (coDma co))"
proof (cases "addr \<noteq> 0 \<and> n \<noteq> 0")
  case True
  then obtain r0 where "coPin env addr (ucast n * 64) co = (kr, r0, co')"
    and "r = (case r0 of Some q \<Rightarrow> q | None \<Rightarrow> noDmaReq)"
    using assms(2) by (auto simp: pinRing_def split: prod.splits)
  with coPin_spec [OF assms(1) this(1)] show ?thesis by auto
next
  case False
  then have "kr = kIOReturnSuccess" "r = noDmaReq" "co' = co" using assms(2) by (auto simp: pinRing_def)
  then show ?thesis using assms(1) by (simp add: pinned_def noDmaReq_def)
qed

lemma destroyQP_fails:
  "destroyQP xc qpn t co = (kr, t', co') \<Longrightarrow> kr \<noteq> kIOReturnSuccess \<Longrightarrow>
   t' = t \<and> coUar co' = coUar co \<and> coDma co' = coDma co"
  by (auto simp: destroyQP_def Let_def dest: coExec_fields split: prod.splits if_splits option.splits)

lemma destroyQP_unknown:
  "destroyQP xc qpn t co = (kr, t', co') \<Longrightarrow> qpLookup qpn t = None \<Longrightarrow>
   t' = t \<and> coUar co' = coUar co \<and> coDma co' = coDma co"
  by (auto simp: destroyQP_def Let_def dest: coExec_fields split: prod.splits if_splits)

lemma destroyQP_appended:
  assumes "destroyQP xc (qp_qpNum ctx) (t @ [ctx]) co = (kIOReturnSuccess, t', co')"
    and "qpLookup (qp_qpNum ctx) t = None"
  shows "t' = t \<and> (\<exists>co1. coUar co1 = coUar co \<and> coDma co1 = coDma co \<and>
    co' = coFreeDb (qp_dbRecordOffset ctx) (coUnpinOpt (qp_rqDma ctx) (coUnpinOpt (qp_sqDma ctx) co1)))"
proof -
  have "qpLookup (qp_qpNum ctx) (t @ [ctx]) = Some ctx"
    using qpt.lookup_inserted [OF assms(2)] by (simp add: tblInsert_def)
  moreover have "qpRemove (qp_qpNum ctx) (t @ [ctx]) = t"
    using assms(2) by (simp add: qpRemove_def qpLookup_def tblRemove_fresh)
  ultimately show ?thesis
    using assms(1) by (auto simp: destroyQP_def Let_def dest: coExec_fields split: prod.splits if_splits)
qed

text \<open>The outcomes of \<open>createQP\<close>: what each of its branches leaves behind.\<close>

lemma createQP_cases:
  assumes wf: "coWf co" and run: "createQP xc env req t co = (kr, resp, t', co')"
    and fresh: "\<forall>r. resp = Some r \<longrightarrow> qpLookup (cr_qpn r) t = None"
  obtains (refused) "kr \<noteq> kIOReturnSuccess" "t' = t" "coWf co'" "coHeld co' = coHeld co"
  | (kept) r co1 where "kr = kIOReturnNoMemory" "resp = Some r" "t' = t"
      "\<exists>dk co2. destroyQP xc (cr_qpn r) t co1 = (dk, t, co2) \<and> dk \<noteq> kIOReturnSuccess \<and> co' = co2"
  | (created) r off u q rq co1 co2 where "kr = kIOReturnSuccess" "resp = Some r"
      "allocDbSlots 2 (coUar co) = (kIOReturnSuccess, Some off, u)"
      "pinned q (co\<lparr>coUar := u\<rparr>) co1" "pinned rq co1 co2" "coUar co' = coUar co2" "coDma co' = coDma co2"
      "memDesc q \<noteq> None" "memDesc rq \<noteq> None" "t' = tblInsert (newQpContext (cr_qpn r) req off q rq) t"
      "cr_dbRecordOffset r = off"
proof -
  obtain k0 offo u where db: "allocDbSlots 2 (coUar co) = (k0, offo, u)" by (metis prod_cases3)
  note dbs = allocDb_spec [OF wf db]
  show thesis
  proof (cases "\<not> createQpArgsOk req \<or> k0 \<noteq> kIOReturnSuccess")
    case True
    then have "kr \<noteq> kIOReturnSuccess \<and> t' = t \<and> co' = co"
      using run db dbs by (auto simp: createQP_def split: if_splits)
    then show thesis using wf by (intro refused) auto
  next
    case False
    then obtain off where off: "offo = Some off" and args: "createQpArgsOk req" and k0: "k0 = kIOReturnSuccess"
      using dbs by auto
    let ?co0 = "co\<lparr>coUar := u\<rparr>"
    have inv0: "dmaInv (coDma ?co0)" using wf by (simp add: coWf_def)
    obtain k1 q co1 where p1: "pinRing (qeSqPin env) (cq_sqBufAddr req) (cq_sqSize req) ?co0 = (k1, q, co1)"
      by (metis prod_cases3)
    note s1 = pinRing_spec [OF inv0 p1]
    obtain k2 rq co2 where p2: "pinRing (qeRqPin env) (cq_rqBufAddr req) (cq_rqSize req) co1 = (k2, rq, co2)"
      by (metis prod_cases3)
    have inv1: "dmaInv (coDma co1)" using s1 by simp
    note s2 = pinRing_spec [OF inv1 p2]
    note run1 = run [unfolded createQP_def db, simplified args off k0 Let_def, simplified args, simplified, unfolded p1 prod.case]
    show thesis
    proof (cases "k1 = kIOReturnSuccess")
      case False
      then have r: "kr \<noteq> kIOReturnSuccess" "t' = t" "co' = coFreeDb off co1" using run1 by simp_all
      have "pinned noDmaReq ?co0 co1" using s1 False by (simp add: pinned_def noDmaReq_def)
      from release_one [OF wf db [unfolded off k0] this refl refl]
      have "coWf co'" "coHeld co' = coHeld co" by (simp_all add: r noDmaReq_def coUnpin_def)
      with r show thesis by (intro refused)
    next
      case True
      then have pq: "pinned q ?co0 co1" using s1 by simp
      note run2 = run1 [simplified True, simplified, unfolded p2 prod.case]
      show thesis
      proof (cases "k2 = kIOReturnSuccess")
        case False
        then have r: "kr \<noteq> kIOReturnSuccess" "t' = t" "co' = coFreeDb off (coUnpin q co2)"
          using run2 by simp_all
        have "pinned noDmaReq co1 co2" using s2 False by (simp add: pinned_def noDmaReq_def)
        from release_all [OF wf db [unfolded off k0] pq this refl refl]
        have "coWf co'" "coHeld co' = coHeld co" by (simp_all add: r noDmaReq_def coUnpin_def)
        with r show thesis by (intro refused)
      next
        case k2: True
        then have prq: "pinned rq co1 co2" using s2 by simp
        note rel = release_all [OF wf db [unfolded off k0] pq prq]
        note run3 = run2 [simplified k2, simplified]
        show thesis
        proof (cases "segList q = [] \<or> segList rq = [] \<or> MLX_DMA_MAX_SEGS < length (segList q) + length (segList rq)")
          case True
          then have r: "kr \<noteq> kIOReturnSuccess" "t' = t" "co' = coFreeDb off (coUnpin rq (coUnpin q co2))"
            using run3 by (simp_all split: if_splits)
          then show thesis using rel [OF refl refl] by (intro refused) simp_all
        next
          case segs: False
          then have md: "memDesc q \<noteq> None" "memDesc rq \<noteq> None" using s1 s2 True k2 by simp_all
          obtain k3 out co3 where ex: "coExec xc MLX_CMD_OP_CREATE_QP
              (createQpInput req (fDbRecordDMA u + ucast off) (map fst (segList q) @ map fst (segList rq))) 16 co2 = (k3, out, co3)"
            by (metis prod_cases3)
          note cf = coExec_fields [OF ex]
          note run4 = run3 [simplified segs, simplified, unfolded ex prod.case]
          show thesis
          proof (cases "k3 = kIOReturnSuccess")
            case False
            then have r: "kr \<noteq> kIOReturnSuccess" "t' = t" "co' = coFreeDb off (coUnpin rq (coUnpin q co3))"
              using run4 by simp_all
            then show thesis using rel [of co3] cf by (intro refused) simp_all
          next
            case k3: True
            note run5 = run4 [simplified k3, simplified]
            show thesis
            proof (cases "qeCtx env \<and> qeRecord env \<and> qeAdded env")
              case True
              then show thesis using run5 pq prq md cf db off k0
                by (intro created [of _ off u q co1 rq co2]) auto
            next
              case False
              obtain dk t1 co4 where d: "destroyQP xc (ucast (mlxGetBits out 72 24)) t co3 = (dk, t1, co4)"
                by (metis prod_cases3)
              obtain r where r: "resp = Some r" "cr_qpn r = ucast (mlxGetBits out 72 24)" "kr = kIOReturnNoMemory"
                "t' = t1" "co' = (if dk = kIOReturnSuccess then coFreeDb off (coUnpin rq (coUnpin q co4)) else co4)"
                using run5 d False by (auto split: if_splits)
              note du = destroyQP_unknown [OF d] fresh [rule_format, OF r(1), unfolded r(2)]
              show thesis
              proof (cases "dk = kIOReturnSuccess")
                case True
                then show thesis using r rel [of co4] du cf by (intro refused) auto
              next
                case False
                then show thesis using r du d by (intro kept [of r co3]) auto
              qed
            qed
          qed
        qed
      qed
    qed
  qed
qed

lemma createQP_resources_spec:
  assumes "coWf co" and "createQP xc env req t co = (kr, resp, t', co')"
    and "\<forall>r. resp = Some r \<longrightarrow> qpLookup (cr_qpn r) t = None"
  shows "(if kr = kIOReturnSuccess
      then \<exists>r ctx. resp = Some r \<and> t' = t @ [ctx] \<and> qp_qpNum ctx = cr_qpn r \<and>
        qp_state ctx = MLX_QP_STATE_RST \<and> qp_dbRecordOffset ctx = cr_dbRecordOffset r \<and>
        qpLookup (cr_qpn r) t' = Some ctx \<and>
        (\<forall>xd t2 co2. destroyQP xd (cr_qpn r) t' co' = (kIOReturnSuccess, t2, co2) \<longrightarrow>
           t2 = t \<and> coWf co2 \<and> coHeld co2 = coHeld co)
      else t' = t \<and> (coWf co' \<and> coHeld co' = coHeld co \<or> kr = kIOReturnNoMemory \<and>
        (\<exists>dk co1. destroyQP xc (cr_qpn (the resp)) t co1 = (dk, t, co') \<and> dk \<noteq> kIOReturnSuccess)))"
  using assms
proof (cases rule: createQP_cases)
  case refused
  then show ?thesis by simp
next
  case (kept r co1)
  then show ?thesis by auto
next
  case (created r off u q rq co1 co2)
  let ?ctx = "newQpContext (cr_qpn r) req off q rq"
  have n: "qp_qpNum ?ctx = cr_qpn r" by (simp add: newQpContext_def)
  have fr: "qpLookup (qp_qpNum ?ctx) t = None" using assms(3) created(2) n by simp
  have back': "t2 = t \<and> coWf co4 \<and> coHeld co4 = coHeld co"
    if d: "destroyQP xd (cr_qpn r) t' co' = (kIOReturnSuccess, t2, co4)" for xd t2 and co4
  proof -
    have "destroyQP xd (qp_qpNum ?ctx) (t @ [?ctx]) co' = (kIOReturnSuccess, t2, co4)"
      using d created(10) n by (simp add: tblInsert_def)
    from destroyQP_appended [OF this fr]
    obtain co3 where "t2 = t" "coUar co3 = coUar co'" "coDma co3 = coDma co'"
      "co4 = coFreeDb (qp_dbRecordOffset ?ctx) (coUnpinOpt (qp_rqDma ?ctx) (coUnpinOpt (qp_sqDma ?ctx) co3))"
      by blast
    moreover have "coUnpinOpt (qp_rqDma ?ctx) (coUnpinOpt (qp_sqDma ?ctx) co3) = coUnpin rq (coUnpin q co3)"
      using created(8,9) by (simp add: newQpContext_def coUnpinOpt_def coUnpin_def)
    ultimately show ?thesis
      using release_all [OF assms(1) created(3-5), of co3] created(6,7) by (simp add: newQpContext_def)
  qed
  have "qpLookup (cr_qpn r) t' = Some ?ctx"
    using qpt.lookup_inserted [OF fr] created(10) n by simp
  then show ?thesis
    using created(1,2,10,11) n back' by (auto simp: tblInsert_def) (auto simp: newQpContext_def)
qed

text \<open>C18: Creating a queue pair is all or nothing, for every outcome the driver knows. When \<open>createQP\<close>
  fails and its CREATE_QP did not time out, the QP table, the doorbell slots, the pinned requests
  and the live descriptors are what they were, except when the QP exists in the firmware, cannot
  be recorded and cannot be destroyed either, where its memory stays pinned; when it succeeds it
  appends one context, in state RST, under the number the firmware gave, and destroying that
  number gives everything back. What a timed-out CREATE_QP leaves to the firmware is no part of
  this: see \<open>createQP_timeout_releases\<close>.\<close>

theorem createQP_all_or_nothing:
  assumes "coWf co" and "createQP xc env req t co = (kr, resp, t', co')"
    and "\<forall>r. resp = Some r \<longrightarrow> qpLookup (cr_qpn r) t = None"
  shows "(if kr = kIOReturnSuccess
      then \<exists>r ctx. resp = Some r \<and> t' = t @ [ctx] \<and> qp_qpNum ctx = cr_qpn r \<and>
        qp_state ctx = MLX_QP_STATE_RST \<and> qp_dbRecordOffset ctx = cr_dbRecordOffset r \<and>
        qpLookup (cr_qpn r) t' = Some ctx \<and>
        (\<forall>xd t2 co2. destroyQP xd (cr_qpn r) t' co' = (kIOReturnSuccess, t2, co2) \<longrightarrow>
           t2 = t \<and> coWf co2 \<and> coHeld co2 = coHeld co)
      else t' = t \<and> (kr \<noteq> kIOReturnTimeout \<longrightarrow>
        coWf co' \<and> coHeld co' = coHeld co \<or> kr = kIOReturnNoMemory \<and>
        (\<exists>dk co1. destroyQP xc (cr_qpn (the resp)) t co1 = (dk, t, co') \<and> dk \<noteq> kIOReturnSuccess)))"
  using createQP_resources_spec [OF assms] by (simp split: if_splits)

text \<open>
  The deviation from the rule that DMA memory is kept until the firmware object is known to be
  gone (\<^verbatim>\<open>REMEDIATION_PLAN.md\<close>, sections 3 and 14): a CREATE_QP that times out, which the
  firmware may still execute, gives the rings and the doorbell slots back like any other failure.
\<close>

lemma createQP_timeout_releases:
  assumes "coWf co" and "createQP xc env req t co = (kIOReturnTimeout, resp, t', co')"
    and "\<forall>r. resp = Some r \<longrightarrow> qpLookup (cr_qpn r) t = None"
  shows "t' = t \<and> coHeld co' = coHeld co"
  using createQP_resources_spec [OF assms] by simp

definition sampleQpReq :: mlx_create_qp_req where
  "sampleQpReq = \<lparr>cq_pd = 1, cq_sendCq = 2, cq_recvCq = 2, cq_qpType = 0, cq_sqSize = 64,
     cq_rqSize = 64, cq_sqBufAddr = 0x7000, cq_rqBufAddr = 0x9000\<rparr>"

definition sampleQpEnv :: QpEnv where
  "sampleQpEnv = \<lparr>qeSqPin = samplePage, qeRqPin = samplePage, qeCtx = True, qeRecord = True, qeAdded = True\<rparr>"

lemma createQP_sample:
  "\<exists>r t co. createQP sampleXc sampleQpEnv sampleQpReq [] sampleCo = (kIOReturnSuccess, Some r, t, co)"
  "\<exists>co. createQP timedXc sampleQpEnv sampleQpReq [] sampleCo = (kIOReturnTimeout, None, [], co)"
proof -
  obtain off u where al: "allocDbSlots 2 (coUar sampleCo) = (kIOReturnSuccess, Some off, u)"
    using sampleCo_alloc by blast
  let ?co = "sampleCo\<lparr>coUar := u\<rparr>"
  obtain q co1 where p: "coPin samplePage 0x7000 0x1000 ?co = (kIOReturnSuccess, Some q, co1)"
    "segList q = [(0x10000, 0x1000)]" "coUar co1 = u" using coPin_sample [of "0x7000" ?co] by auto
  obtain r co2 where p2: "coPin samplePage 0x9000 0x1000 co1 = (kIOReturnSuccess, Some r, co2)"
    "segList r = [(0x10000, 0x1000)]" "coUar co2 = u" using coPin_sample [of "0x9000" co1] p(3) by auto
  have "(64 :: u32) = 2 ^ 6" by simp
  then have b: "bit (64 :: u32) n = (n = 6)" for n by (simp only: bit_exp_iff) auto
  have "topBit 64 = 6"
    by (simp add: topBit_def upt_rec b)
  then have ok: "createQpArgsOk sampleQpReq" by (simp add: createQpArgsOk_def sampleQpReq_def)
  have req: "cq_sqSize sampleQpReq = 64" "cq_rqSize sampleQpReq = 64" "cq_sqBufAddr sampleQpReq = 0x7000"
    "cq_rqBufAddr sampleQpReq = 0x9000" by (simp_all add: sampleQpReq_def)
  have "pinRing (qeSqPin sampleQpEnv) 0x7000 64 ?co = (kIOReturnSuccess, q, co1)"
    "pinRing (qeRqPin sampleQpEnv) 0x9000 64 co1 = (kIOReturnSuccess, r, co2)"
    using p(1) p2(1) by (simp_all add: pinRing_def sampleQpEnv_def)
  note rings = this al ok p p2
  show "\<exists>r t co. createQP sampleXc sampleQpEnv sampleQpReq [] sampleCo = (kIOReturnSuccess, Some r, t, co)"
    using rings by (simp add: createQP_def Let_def req MLX_DMA_MAX_SEGS_def) (simp add: sampleQpEnv_def)
  show "\<exists>co. createQP timedXc sampleQpEnv sampleQpReq [] sampleCo = (kIOReturnTimeout, None, [], co)"
    using rings by (simp add: createQP_def Let_def req MLX_DMA_MAX_SEGS_def)
qed

theorem createQP_all_or_nothing_witness:
  "\<exists>r ctx t co. createQP sampleXc sampleQpEnv sampleQpReq [] sampleCo = (kIOReturnSuccess, Some r, t, co) \<and>
     t = [ctx] \<and> qp_state ctx = MLX_QP_STATE_RST \<and> coHeld (snd (snd (destroyQP sampleXc (cr_qpn r) t co))) = coHeld sampleCo"
proof -
  obtain r t co where run: "createQP sampleXc sampleQpEnv sampleQpReq [] sampleCo = (kIOReturnSuccess, Some r, t, co)"
    using createQP_sample(1) by blast
  from createQP_all_or_nothing [OF sampleCo_wf run] obtain ctx where c: "t = [ctx]"
    "qp_state ctx = MLX_QP_STATE_RST" "qpLookup (cr_qpn r) t = Some ctx"
    "\<And>t2 co2. destroyQP sampleXc (cr_qpn r) t co = (kIOReturnSuccess, t2, co2) \<Longrightarrow> coHeld co2 = coHeld sampleCo"
    by (auto simp: qpLookup_def tblLookup_def)
  have "\<exists>t2 co2. destroyQP sampleXc (cr_qpn r) t co = (kIOReturnSuccess, t2, co2)"
    using c(3) by (simp add: destroyQP_def Let_def)
  then show ?thesis using run c by (metis snd_conv)
qed

theorem modifyQP_state_machine_witness:
  "let ctx = newQpContext 5 sampleQpReq 0 noDmaReq noDmaReq in
   case modifyQP sampleXc (Some \<lparr>mq_qpn = 5, mq_curState = MLX_QP_STATE_RST, mq_newState = MLX_QP_STATE_RTR,
     mq_destQpn = 0, mq_pathMtu = 0, mq_rqPsn = 0, mq_sqPsn = 0, mq_pkeyIndex = 0, mq_portNum = 1,
     mq_ahDmac = [], mq_ahDgid = [], mq_ahSgidIndex = 0, mq_ahHopLimit = 0, mq_ahTrafficClass = 0,
     mq_ahUdpSport = 0, mq_minRnrTimer = 0, mq_maxDestRdAtomic = 0, mq_maxRdAtomic = 0\<rparr>) [ctx] sampleCo of
   (kr, t, co) \<Rightarrow> kr \<noteq> kIOReturnSuccess \<and> t = [ctx] \<and> co = sampleCo"
proof -
  let ?ctx = "newQpContext 5 sampleQpReq 0 noDmaReq noDmaReq"
  let ?req = "\<lparr>mq_qpn = 5, mq_curState = MLX_QP_STATE_RST, mq_newState = MLX_QP_STATE_RTR,
     mq_destQpn = 0, mq_pathMtu = 0, mq_rqPsn = 0, mq_sqPsn = 0, mq_pkeyIndex = 0, mq_portNum = 1,
     mq_ahDmac = [], mq_ahDgid = [], mq_ahSgidIndex = 0, mq_ahHopLimit = 0, mq_ahTrafficClass = 0,
     mq_ahUdpSport = 0, mq_minRnrTimer = 0, mq_maxDestRdAtomic = 0, mq_maxRdAtomic = 0\<rparr>"
  obtain kr t co where run: "modifyQP sampleXc (Some ?req) [?ctx] sampleCo = (kr, t, co)" by (metis prod_cases3)
  have lk: "qpLookup 5 [?ctx] = Some ?ctx" "qp_state ?ctx = MLX_QP_STATE_RST"
    by (simp_all add: qpLookup_def tblLookup_def newQpContext_def)
  have il: "(MLX_QP_STATE_RST, MLX_QP_STATE_RTR) \<notin> qpLegal" by (simp add: qpLegal_def qp_state_defs)
  from modifyQP_state_machine [OF run] lk il run show ?thesis by (auto simp: Let_def)
qed

end
