(* ===== verification/MlxCQ.thy ===== *)
theory MlxCQ
  imports MlxCore
begin

text \<open>
  \<^verbatim>\<open>Sources/ib/MlxCQ.{hpp,cpp}\<close>: completion queues. The table is the source's OSArray of
  contexts. CQE buffers and their IOMMU mappings are numbered objects; \<open>cqBufs\<close> and
  \<open>cqMaps\<close> are the live ones. IOKit's answers are \<open>CqEnv\<close>: \<open>ceGen round offset\<close> is what
  \<^verbatim>\<open>gen64IOVMSegments\<close> returns at the loop's \<open>round\<close>, with the offset it leaves.
  The lock of the table serialises the operations.
\<close>

unbundle bit_operations_syntax

section \<open>Data\<close>

record MlxCQContext =
  cq_cqNumber :: u32
  cq_logSize :: u32
  cq_cqeSize :: u32
  cq_opOwn :: buffer            \<comment> \<open>\<open>op_own\<close> of every CQE of the buffer as created\<close>
  cq_cqeBufAddr :: u64
  cq_cqeDMA :: u64
  cq_cqeBufDesc :: "nat option"
  cq_cqeDmaMap :: "nat option"
  cq_pageDMA :: "u64 list"
  cq_dbRecordOffset :: u32
  cq_eqNumber :: u32
  cq_compVector :: u32
  cq_armSn :: u32
  cq_completionHandler :: "nat option"
  cq_completionContext :: nat
  cq_completions :: u64

record mlx_create_cq_resp =
  cqr_cqHandle :: u32
  cqr_logSize :: u32
  cqr_cqeSize :: u32
  cqr_dbRecordOffset :: u32

record MlxCQ =
  fCqTable :: "MlxCQContext list"
  cqNext :: nat
  cqBufs :: "nat list"
  cqMaps :: "nat list"

type_synonym cqGen = "nat \<Rightarrow> u64 \<Rightarrow> ioreturn \<times> (u64 \<times> u64) list \<times> u64"

record CqEnv =
  ceAlloc :: bool
  ceBuf :: bool
  ceBufAddr :: u64
  ceMap :: bool
  ceSet :: ioreturn
  ceGen :: cqGen
  ceRecord :: bool
  ceAdded :: bool

definition cqInit :: MlxCQ where
  "cqInit = \<lparr>fCqTable = [], cqNext = 0, cqBufs = [], cqMaps = []\<rparr>"

section \<open>Table access\<close>

definition cqLookup :: "u32 \<Rightarrow> MlxCQContext list \<Rightarrow> MlxCQContext option" where
  "cqLookup h t = tblLookup cq_cqNumber h t"

definition cqRemove :: "u32 \<Rightarrow> MlxCQContext list \<Rightarrow> MlxCQContext list" where
  "cqRemove h t = tblRemove cq_cqNumber h t"

definition cqUnique :: "MlxCQContext list \<Rightarrow> bool" where
  "cqUnique t = uniqueKeys cq_cqNumber t"

interpretation cqt: handle_table cqLookup tblInsert cqRemove cq_cqNumber cqUnique
  unfolding cqLookup_def cqRemove_def cqUnique_def by (rule table_laws)

definition getCqMemDesc :: "u32 \<Rightarrow> MlxCQ \<Rightarrow> nat option" where
  "getCqMemDesc h st = (case cqLookup h (fCqTable st) of None \<Rightarrow> None | Some ctx \<Rightarrow> cq_cqeBufDesc ctx)"

definition getCompletions :: "u32 \<Rightarrow> MlxCQ \<Rightarrow> u64" where
  "getCompletions h st = (case cqLookup h (fCqTable st) of None \<Rightarrow> 0 | Some ctx \<Rightarrow> cq_completions ctx)"

text \<open>The completion event: the callbacks made, as (handler, cqn, context), and the new table.\<close>

definition cqHandleCompletion :: "u32 \<Rightarrow> MlxCQ \<Rightarrow> (nat \<times> u32 \<times> nat) list \<times> MlxCQ" where
  "cqHandleCompletion cqn st =
     (case cqLookup cqn (fCqTable st) of
        None \<Rightarrow> ([], st)
      | Some ctx \<Rightarrow>
          ((case cq_completionHandler ctx of None \<Rightarrow> [] | Some h \<Rightarrow> [(h, cqn, cq_completionContext ctx)]),
           st\<lparr>fCqTable := tblUpdate cq_cqNumber cqn
                (\<lambda>c. c\<lparr>cq_armSn := cq_armSn c + 1, cq_completions := cq_completions c + 1\<rparr>) (fCqTable st)\<rparr>))"

text \<open>
  The consumer index goes, big-endian, into the first doorbell slot of the CQ.
\<close>

definition updateCqConsumer :: "u32 \<Rightarrow> u32 \<Rightarrow> MlxCQ \<Rightarrow> 'w mlxCore \<Rightarrow> ioreturn \<times> 'w mlxCore" where
  "updateCqConsumer h consumerIndex st co =
     (case fDbRecord (coUar co) of
        None \<Rightarrow> (kIOReturnNotReady, co)
      | Some db \<Rightarrow>
          (case cqLookup h (fCqTable st) of
             None \<Rightarrow> (kIOReturnNotFound, co)
           | Some ctx \<Rightarrow>
               (let depth = push_bit (unat (cq_logSize ctx)) (1 :: u32)
                in if depth * 2 < consumerIndex then (kIOReturnBadArgument, co)
                   else
                     (let slot = cq_dbRecordOffset ctx div 4
                      in (kIOReturnSuccess,
                          co\<lparr>coUar := (coUar co)\<lparr>fDbRecord :=
                            Some (OSWriteBigInt32 db (unat slot * 4) (ucast consumerIndex))\<rparr>\<rparr>)))))"

section \<open>Commands\<close>

definition createCqInput :: "MlxCQContext \<Rightarrow> u32 \<Rightarrow> u64 \<Rightarrow> u32 \<Rightarrow> buffer" where
  "createCqInput cq bootIndex dbDma eqNumber =
     (let b = OSWriteBigInt16 (replicate 4096 0) 0 (ucast MLX_CMD_OP_CREATE_CQ);
          b = setFields b
            [(0x80 + 0x08, 3, 0), (0x80 + 0x63, 5, ucast (cq_logSize cq)),
             (0x80 + 0x68, 24, ucast bootIndex), (0x80 + 0xa0, 32, ucast eqNumber),
             (0x80 + 0xc3, 5, 0), (0x80 + 0x1c0, 64, dbDma + ucast (cq_dbRecordOffset cq))];
          b = foldl (\<lambda>b i. OSWriteBigInt64 b (0x880 div 8 + 8 * i) (cq_pageDMA cq ! i)) b
                [0..<length (cq_pageDMA cq)]
      in take (0x880 div 8 + 8 * length (cq_pageDMA cq)) b)"

definition cmdCreateCQ ::
  "'w execFn \<Rightarrow> MlxCQContext \<Rightarrow> u32 \<Rightarrow> 'w mlxCore \<Rightarrow> ioreturn \<times> MlxCQContext \<times> 'w mlxCore" where
  "cmdCreateCQ xc cq eqNumber co =
     (case coExec xc MLX_CMD_OP_CREATE_CQ
             (createCqInput cq (fBootIndex (coUar co)) (fDbRecordDMA (coUar co)) eqNumber) 64 co of
        (kr, out, co) \<Rightarrow>
          if kr \<noteq> kIOReturnSuccess then (kr, cq, co)
          else (kIOReturnSuccess, cq\<lparr>cq_cqNumber := ucast (mlxGetBits out 0x48 24)\<rparr>, co))"

definition cmdDestroyCQ :: "'w execFn \<Rightarrow> u32 \<Rightarrow> 'w mlxCore \<Rightarrow> ioreturn \<times> 'w mlxCore" where
  "cmdDestroyCQ xc cqNumber co =
     (case coExec xc MLX_CMD_OP_DESTROY_CQ
             (mlxSetBits (OSWriteBigInt16 (replicate 16 0) 0 (ucast MLX_CMD_OP_DESTROY_CQ)) 0x48 24 (ucast cqNumber))
             16 co of
        (kr, out, co) \<Rightarrow> (kr, co))"

section \<open>Creating\<close>

text \<open>\<^verbatim>\<open>while ((1u << cq->logSize) < entries) cq->logSize++\<close>\<close>

function cqLogLoop :: "nat \<Rightarrow> nat \<Rightarrow> nat" where
  "cqLogLoop l entries = (if 2 ^ l < entries then cqLogLoop (l + 1) entries else l)"
  by pat_completeness auto
termination
  by (relation "measure (\<lambda>(l, entries). entries - 2 ^ l)") (auto intro: diff_less_mono2)

declare cqLogLoop.simps [simp del]

text \<open>One round's segments: the pages taken, and whether a bad segment ended the round.\<close>

fun cqSegs :: "nat \<Rightarrow> (u64 \<times> u64) list \<Rightarrow> u64 list \<times> bool" where
  "cqSegs 0 segs = ([], False)"
| "cqSegs (Suc n) [] = ([], False)"
| "cqSegs (Suc n) ((a, l) # segs) =
     (if a AND 0xFFF \<noteq> 0 \<or> l = 0 \<or> 4096 < l then ([], True)
      else (case cqSegs n segs of (ps, bad) \<Rightarrow> (a # ps, bad)))"

text \<open>
  The mapping loop. A bad segment resets the offset to 0 and leaves only the inner loop, so
  the outer one starts over with the pages taken so far; \<open>None\<close> is a loop that does not end.
\<close>

partial_function (option) cqPageLoop ::
  "cqGen \<Rightarrow> u64 \<Rightarrow> nat \<Rightarrow> u64 \<Rightarrow> u64 list \<Rightarrow> (u64 \<times> u64 list) option" where
  "cqPageLoop gen cqBytes round mapOffset pages =
     (if mapOffset < cqBytes \<and> length pages < 32
      then (case gen round mapOffset of
              (kr, segs, off') \<Rightarrow>
                if kr \<noteq> kIOReturnSuccess \<or> segs = [] then Some (off', pages)
                else
                  (case cqSegs (32 - length pages) (take 8 segs) of
                     (new, bad) \<Rightarrow>
                       cqPageLoop gen cqBytes (round + 1) (if bad then 0 else off') (pages @ new)))
      else Some (mapOffset, pages))"

declare cqPageLoop.simps [code]

definition cqUndo :: "u32 \<Rightarrow> nat \<Rightarrow> nat \<Rightarrow> MlxCQ \<times> 'w mlxCore \<Rightarrow> MlxCQ \<times> 'w mlxCore" where
  "cqUndo off buf map' s =
     (case s of (st, co) \<Rightarrow>
        (st\<lparr>cqMaps := removeAll map' (cqMaps st), cqBufs := removeAll buf (cqBufs st)\<rparr>, coFreeDb off co))"

text \<open>The context at the point where the firmware is asked.\<close>

definition cqContext :: "CqEnv \<Rightarrow> nat \<Rightarrow> u32 \<Rightarrow> nat \<Rightarrow> nat \<Rightarrow> u64 list \<Rightarrow> MlxCQContext" where
  "cqContext env logSize off buf map' pages =
     \<lparr>cq_cqNumber = 0, cq_logSize = of_nat logSize, cq_cqeSize = 64,
      cq_opOwn = replicate (2 ^ logSize) (push_bit 4 0x0f OR 1),
      cq_cqeBufAddr = ceBufAddr env, cq_cqeDMA = pages ! 0, cq_cqeBufDesc = Some buf,
      cq_cqeDmaMap = Some map', cq_pageDMA = pages, cq_dbRecordOffset = off, cq_eqNumber = 0,
      cq_compVector = 0, cq_armSn = 0, cq_completionHandler = None, cq_completionContext = 0,
      cq_completions = 0\<rparr>"

text \<open>At least one 4 KiB page of 64 CQEs; the ring's bytes are a 32-bit product.\<close>

definition cqEntries :: "u32 \<Rightarrow> u32" where
  "cqEntries entries = (if entries < 64 then 64 else entries)"

definition cqRingBytes :: "nat \<Rightarrow> u64" where
  "cqRingBytes logSize = ucast (push_bit logSize (1 :: u32) * 64)"

definition createCQ ::
  "'w execFn \<Rightarrow> CqEnv \<Rightarrow> bool \<Rightarrow> u32 \<Rightarrow> u32 \<Rightarrow> MlxCQ \<Rightarrow> 'w mlxCore \<Rightarrow>
   (ioreturn \<times> mlx_create_cq_resp option \<times> MlxCQ \<times> 'w mlxCore) option" where
  "createCQ xc env resp entries eqNumber st co =
     (if \<not> resp \<or> entries = 0 \<or> 2048 < entries then Some (kIOReturnBadArgument, None, st, co)
      else
        (let entries = cqEntries entries
         in if \<not> ceAlloc env then Some (kIOReturnNoMemory, None, st, co)
            else
              (let logSize = cqLogLoop 0 (unat entries)
               in case allocDbSlots 2 (coUar co) of
                    (kr, offo, uar) \<Rightarrow>
                      (let co = co\<lparr>coUar := uar\<rparr>; off = (case offo of Some x \<Rightarrow> x | None \<Rightarrow> 0)
                       in if kr \<noteq> kIOReturnSuccess then Some (kIOReturnNoResources, None, st, co)
                          else if \<not> ceBuf env then Some (kIOReturnNoMemory, None, st, coFreeDb off co)
                          else
                            (let buf = cqNext st; st = st\<lparr>cqNext := cqNext st + 1, cqBufs := buf # cqBufs st\<rparr>;
                                 map' = cqNext st;
                                 st' = st\<lparr>cqNext := cqNext st + 1, cqMaps := map' # cqMaps st\<rparr>
                             in if \<not> ceMap env
                                then Some (kIOReturnNoMemory, None, st\<lparr>cqBufs := removeAll buf (cqBufs st)\<rparr>,
                                       coFreeDb off co)
                                else if ceSet env \<noteq> kIOReturnSuccess
                                then (case cqUndo off buf map' (st', co) of
                                        (st, co) \<Rightarrow> Some (kIOReturnNoMemory, None, st, co))
                                else
                                  (case cqPageLoop (ceGen env) (cqRingBytes logSize) 0 0 [] of
                                     None \<Rightarrow> None
                                   | Some (mapOffset, pages) \<Rightarrow>
                                       if mapOffset \<noteq> cqRingBytes logSize \<or> pages = []
                                       then (case cqUndo off buf map' (st', co) of
                                               (st, co) \<Rightarrow> Some (kIOReturnNoSpace, None, st, co))
                                       else
                                         (case cmdCreateCQ xc (cqContext env logSize off buf map' pages) eqNumber co of
                                            (kr, cq, co) \<Rightarrow>
                                              if kr \<noteq> kIOReturnSuccess
                                              then (case cqUndo off buf map' (st', co) of
                                                      (st, co) \<Rightarrow> Some (kr, None, st, co))
                                              else if \<not> (ceRecord env \<and> ceAdded env)
                                              then (case cmdDestroyCQ xc (cq_cqNumber cq) co of
                                                      (dk, co) \<Rightarrow>
                                                        case cqUndo off buf map' (st', co) of
                                                          (st, co) \<Rightarrow> Some (kIOReturnNoMemory, None, st, co))
                                              else Some (kIOReturnSuccess,
                                                     Some \<lparr>cqr_cqHandle = cq_cqNumber cq, cqr_logSize = cq_logSize cq,
                                                       cqr_cqeSize = cq_cqeSize cq,
                                                       cqr_dbRecordOffset = cq_dbRecordOffset cq\<rparr>,
                                                     st'\<lparr>fCqTable := tblInsert cq (fCqTable st')\<rparr>, co))))))))"

section \<open>Destroying\<close>

definition cqReleaseBuf :: "MlxCQContext \<Rightarrow> MlxCQ \<Rightarrow> MlxCQ" where
  "cqReleaseBuf ctx st =
     (case cq_cqeBufDesc ctx of
        None \<Rightarrow> st
      | Some b \<Rightarrow>
          (let st = (case cq_cqeDmaMap ctx of None \<Rightarrow> st | Some m \<Rightarrow> st\<lparr>cqMaps := removeAll m (cqMaps st)\<rparr>)
           in st\<lparr>cqBufs := removeAll b (cqBufs st)\<rparr>))"

definition destroyCQ :: "'w execFn \<Rightarrow> u32 \<Rightarrow> MlxCQ \<Rightarrow> 'w mlxCore \<Rightarrow> ioreturn \<times> MlxCQ \<times> 'w mlxCore" where
  "destroyCQ xc h st co =
     (case cmdDestroyCQ xc h co of
        (kr, co) \<Rightarrow>
          if kr = kIOReturnSuccess
          then (case cqLookup h (fCqTable st) of
                  None \<Rightarrow> (kr, st, co)
                | Some ctx \<Rightarrow>
                    (kr, (cqReleaseBuf ctx st)\<lparr>fCqTable := cqRemove h (fCqTable st)\<rparr>,
                     coFreeDb (cq_dbRecordOffset ctx) co))
          else (kr, st, co))"

text \<open>The destructor: a CQ that cannot be destroyed still gives its memory back.\<close>

definition cqDropFirst :: "MlxCQContext \<Rightarrow> MlxCQ \<times> 'w mlxCore \<Rightarrow> MlxCQ \<times> 'w mlxCore" where
  "cqDropFirst ctx s =
     (case s of (st, co) \<Rightarrow>
        (let st = (case cq_cqeDmaMap ctx of None \<Rightarrow> st | Some m \<Rightarrow> st\<lparr>cqMaps := removeAll m (cqMaps st)\<rparr>);
             st = (case cq_cqeBufDesc ctx of None \<Rightarrow> st | Some b \<Rightarrow> st\<lparr>cqBufs := removeAll b (cqBufs st)\<rparr>)
         in (st\<lparr>fCqTable := tl (fCqTable st)\<rparr>, coFreeDb (cq_dbRecordOffset ctx) co)))"

fun cqFreeLoop :: "'w execFn \<Rightarrow> bool \<Rightarrow> nat \<Rightarrow> MlxCQ \<Rightarrow> 'w mlxCore \<Rightarrow> MlxCQ \<times> 'w mlxCore" where
  "cqFreeLoop xc up 0 st co = (st, co)"
| "cqFreeLoop xc up (Suc n) st co =
     (case fCqTable st of
        [] \<Rightarrow> (st, co)
      | ctx # rest \<Rightarrow>
          (case (if up then destroyCQ xc (cq_cqNumber ctx) st co else (kIOReturnNotReady, st, co)) of
             (kr, st, co) \<Rightarrow>
               if kr = kIOReturnSuccess then cqFreeLoop xc up n st co
               else (case cqDropFirst ctx (st, co) of (st, co) \<Rightarrow> cqFreeLoop xc up n st co)))"

definition cqFree :: "'w execFn \<Rightarrow> bool \<Rightarrow> MlxCQ \<Rightarrow> 'w mlxCore \<Rightarrow> MlxCQ \<times> 'w mlxCore" where
  "cqFree xc up st co = cqFreeLoop xc up (length (fCqTable st)) st co"

end
