(* ===== verification/MlxCQProps.thy ===== *)
theory MlxCQProps
  imports MlxCQ
begin

text \<open>
  Properties of the completion queues: the ring sizes and page lists \<^verbatim>\<open>createCQ\<close> hands to the
  firmware, its release of everything on failure, the mapping loop that may not end, and the
  consumer-index write.
\<close>

unbundle bit_operations_syntax

section \<open>Sizes\<close>

lemma cqLogLoop_spec:
  assumes "l = 0 \<or> 2 ^ l < 2 * n"
  shows "n \<le> 2 ^ cqLogLoop l n \<and> (cqLogLoop l n = 0 \<or> 2 ^ cqLogLoop l n < 2 * n)"
  using assms
proof (induction l n rule: cqLogLoop.induct)
  case (1 l n)
  show ?case
  proof (cases "2 ^ l < n")
    case True
    then have "n \<le> 2 ^ cqLogLoop (l + 1) n \<and> (cqLogLoop (l + 1) n = 0 \<or> 2 ^ cqLogLoop (l + 1) n < 2 * n)"
      by (intro "1.IH") auto
    then show ?thesis using True by (simp add: cqLogLoop.simps [of l])
  next
    case False
    then show ?thesis using 1(2) by (simp add: cqLogLoop.simps [of l])
  qed
qed

lemma cqLog_bounds:
  assumes "64 \<le> n" and "n \<le> 2048"
  shows "n \<le> 2 ^ cqLogLoop 0 n \<and> 2 ^ cqLogLoop 0 n < 2 * n \<and> 6 \<le> cqLogLoop 0 n \<and> cqLogLoop 0 n \<le> 11"
proof -
  have a: "n \<le> 2 ^ cqLogLoop 0 n" "cqLogLoop 0 n = 0 \<or> 2 ^ cqLogLoop 0 n < 2 * n"
    using cqLogLoop_spec [of 0 n] by auto
  with assms have b: "2 ^ cqLogLoop 0 n < 2 * n" by auto
  have "(2::nat) ^ cqLogLoop 0 n < 2 ^ 12" using b assms by simp
  then have "cqLogLoop 0 n < 12" by (simp only: power_strict_increasing_iff one_less_numeral_iff semiring_norm)
  moreover have "(2::nat) ^ 5 < 2 ^ cqLogLoop 0 n" using a assms by simp
  then have "5 < cqLogLoop 0 n" by (simp only: power_strict_increasing_iff one_less_numeral_iff semiring_norm)
  ultimately show ?thesis using a b by simp
qed

section \<open>The mapping loop\<close>

text \<open>
  The documented behaviour of \<^verbatim>\<open>gen64IOVMSegments\<close>: at most the eight segments asked for,
  the offset advanced by their lengths, and not at all on failure.
\<close>

definition cqGenOk :: "cqGen \<Rightarrow> bool" where
  "cqGenOk gen \<longleftrightarrow> (\<forall>k off. case gen k off of (kr, segs, off') \<Rightarrow> length segs \<le> 8 \<and>
     off' = (if kr = kIOReturnSuccess then off + sum_list (map snd segs) else off))"

lemma cqSegs_spec:
  "cqSegs n segs = (ps, bad) \<Longrightarrow> length ps \<le> n \<and> (\<forall>p\<in>set ps. p AND 0xFFF = 0) \<and>
   (\<not> bad \<and> length ps < n \<longrightarrow> length ps = length segs \<and> (\<forall>s\<in>set segs. snd s \<le> 4096))"
proof (induction n segs arbitrary: ps bad rule: cqSegs.induct)
  case (3 n a l segs)
  then show ?case by (auto simp: not_less split: if_splits prod.splits)
qed auto

lemma unat_plus_le: "unat (a + b) \<le> unat a + unat b" for a b :: "'a::len word"
  by (simp add: unat_word_ariths(1))

lemma sum_segs_le: "\<forall>s\<in>set segs. snd s \<le> 4096 \<Longrightarrow> unat (sum_list (map snd segs)) \<le> 4096 * length segs"
  for segs :: "(u64 \<times> u64) list"
proof (induction segs)
  case (Cons a segs)
  have "unat (snd a) \<le> 4096" using Cons.prems by (simp add: word_le_nat_alt)
  moreover have "unat (snd a + sum_list (map snd segs)) \<le> unat (snd a) + unat (sum_list (map snd segs))"
    by (rule unat_plus_le)
  ultimately show ?case using Cons by simp
qed simp

definition cqCovers :: "cqGen \<Rightarrow> u64 \<Rightarrow> u64 list \<Rightarrow> bool" where
  "cqCovers gen off pages \<longleftrightarrow> length pages \<le> 32 \<and> (\<forall>p\<in>set pages. p AND 0xFFF = 0) \<and>
     (cqGenOk gen \<longrightarrow> unat off \<le> 4096 * length pages \<or> length pages = 32)"

lemma cqPageLoop_covers:
  assumes "cqPageLoop gen cqBytes k off pages = Some r" and "cqCovers gen off pages"
  shows "cqCovers gen (fst r) (snd r)"
proof -
  have "cqCovers gen off pages \<longrightarrow> cqCovers gen (fst r) (snd r)"
  proof (rule cqPageLoop.raw_induct
      [where P = "\<lambda>gen cqBytes k off pages r. cqCovers gen off pages \<longrightarrow> cqCovers gen (fst r) (snd r)",
        OF _ assms(1)], goal_cases)
    case (1 loop gen cqBytes k off pages r)
    show ?case
    proof (cases "off < cqBytes \<and> length pages < 32")
      case False
      then show ?thesis using 1(2) by auto
    next
      case True
      obtain kr segs off1 where g: "gen k off = (kr, segs, off1)" by (metis prod_cases3)
      have ok: "cqGenOk gen \<Longrightarrow> length segs \<le> 8 \<and>
          off1 = (if kr = kIOReturnSuccess then off + sum_list (map snd segs) else off)"
        unfolding cqGenOk_def by (drule spec [of _ k], drule spec [of _ off]) (simp add: g)
      show ?thesis
      proof (cases "kr \<noteq> kIOReturnSuccess \<or> segs = []")
        case fin: True
        then have "r = (off1, pages)" using 1(2) True g by auto
        then show ?thesis using fin ok by (auto simp: cqCovers_def split: if_splits)
      next
        case go: False
        obtain new bad where n: "cqSegs (32 - length pages) (take 8 segs) = (new, bad)" by fastforce
        note sg = cqSegs_spec [OF n]
        have rec: "loop gen cqBytes (k + 1) (if bad then 0 else off1) (pages @ new) = Some r"
          using 1(2) True g go n by auto
        have "cqCovers gen (if bad then 0 else off1) (pages @ new)" if c: "cqCovers gen off pages"
        proof -
          have "unat (if bad then 0 else off1) \<le> 4096 * length (pages @ new)"
            if "cqGenOk gen" "length (pages @ new) \<noteq> 32"
          proof (cases bad)
            case False
            have lt: "length new < 32 - length pages" using sg True that(2) by auto
            have "take 8 segs = segs" using ok [OF that(1)] by simp
            with sg False lt have l: "length new = length segs" "\<forall>s\<in>set segs. snd s \<le> 4096" by auto
            have "unat off1 \<le> unat off + unat (sum_list (map snd segs))"
              using ok [OF that(1)] go unat_plus_le by auto
            with sum_segs_le [OF l(2)] c True that(1) l(1) False show ?thesis by (auto simp: cqCovers_def)
          qed simp
          then show ?thesis using c sg True by (auto simp: cqCovers_def)
        qed
        then show ?thesis using 1(1) [OF rec] by blast
      qed
    qed
  qed
  then show ?thesis using assms(2) by blast
qed

text \<open>
  A segment that is not an aligned page makes the loop start over at offset 0, so a mapping
  whose first segment is bad at every attempt keeps \<^verbatim>\<open>createCQ\<close> busy for ever.
\<close>

lemma cq_mapping_can_hang:
  assumes "0 < cqBytes" and "\<forall>k. gen k 0 = (kIOReturnSuccess, [(0x800, 4096)], 4096)"
  shows "cqPageLoop gen cqBytes k 0 [] = None"
proof (rule ccontr)
  assume "cqPageLoop gen cqBytes k 0 [] \<noteq> None"
  then obtain r where r: "cqPageLoop gen cqBytes k 0 [] = Some r" by blast
  have "gen = gen0 \<longrightarrow> cqBytes = b0 \<longrightarrow> off = 0 \<longrightarrow> pages = [] \<longrightarrow> False"
    if "cqPageLoop gen cqBytes k off pages = Some r" "0 < b0"
      "\<forall>k. gen0 k 0 = (kIOReturnSuccess, [(0x800, 4096)], 4096)"
    for gen0 b0 gen cqBytes k off pages r
  proof (rule cqPageLoop.raw_induct
      [where P = "\<lambda>gen cqBytes k off pages r. gen = gen0 \<longrightarrow> cqBytes = b0 \<longrightarrow> off = 0 \<longrightarrow> pages = [] \<longrightarrow> False",
        OF _ that(1)], goal_cases)
    case (1 loop gen cqBytes k off pages r)
    show ?case
    proof (intro impI)
      assume a: "gen = gen0" "cqBytes = b0" "off = 0" "pages = []"
      have "(0x800 :: u64) AND 0xFFF \<noteq> 0" by simp
      moreover have "cqSegs 32 [(0x800, 4096)] = cqSegs (Suc 31) [(0x800, 4096)]" by simp
      ultimately have "cqSegs 32 [(0x800, 4096)] = ([], True)" by (simp only: cqSegs.simps) simp
      then have "loop gen cqBytes (k + 1) 0 [] = Some r" using 1(2) that(2,3) a by simp
      from 1(1) [OF this] a show False by simp
    qed
  qed
  from this [of gen cqBytes k 0 "[]" r cqBytes gen] r assms show False by simp
qed

lemma createCQ_can_hang:
  assumes "ceAlloc env" "ceBuf env" "ceMap env" "ceSet env = kIOReturnSuccess"
    and "\<forall>k. ceGen env k 0 = (kIOReturnSuccess, [(0x800, 4096)], 4096)" and "coWf co"
    and "fst (allocDbSlots 2 (coUar co)) = kIOReturnSuccess"
  shows "createCQ xc env True 64 eqn st co = None"
proof -
  have "cqLogLoop 0 64 = 6"
    using cqLog_bounds [of 64] by (simp add: cqLogLoop.simps)
  then have "0 < cqRingBytes (cqLogLoop 0 (unat (cqEntries 64)))"
    by (simp add: cqEntries_def cqRingBytes_def)
  moreover obtain offo u where "allocDbSlots 2 (coUar co) = (kIOReturnSuccess, offo, u)"
    using assms(7) by (metis prod.collapse)
  ultimately show ?thesis
    using assms cq_mapping_can_hang [of _ "ceGen env"] by (simp add: createCQ_def Let_def)
qed

section \<open>Creation\<close>

definition cqHeld :: "MlxCQ \<Rightarrow> nat set \<times> nat set" where
  "cqHeld st = (set (cqBufs st), set (cqMaps st))"

definition cqFresh :: "MlxCQ \<Rightarrow> bool" where
  "cqFresh st \<longleftrightarrow> (\<forall>x\<in>set (cqBufs st) \<union> set (cqMaps st). x < cqNext st)"

lemma cqFresh_new:
  assumes "cqFresh st"
  shows "cqNext st \<notin> set (cqBufs st) \<and> Suc (cqNext st) \<notin> set (cqMaps st)"
proof -
  have "cqNext st < cqNext st" if "cqNext st \<in> set (cqBufs st)"
    using assms that unfolding cqFresh_def by blast
  moreover have "Suc (cqNext st) < cqNext st" if "Suc (cqNext st) \<in> set (cqMaps st)"
    using assms that unfolding cqFresh_def by blast
  ultimately show ?thesis by auto
qed

lemma cqRelease_held:
  assumes "coWf co" and "allocDbSlots 2 (coUar co) = (kIOReturnSuccess, Some off, u)"
    and "coUar co1 = u" and "coDma co1 = coDma co"
  shows "coWf (coFreeDb off co1) \<and> coHeld (coFreeDb off co1) = coHeld co"
proof -
  have "fDbBitmap (freeDbSlots off 2 u) = fDbBitmap (coUar co)" "dbWf u" "fDbRecord u \<noteq> None" "fDbLock u"
    using allocDb_spec [OF assms(1,2)] by auto
  then show ?thesis using assms by (simp add: coWf_def coHeld_def)
qed

lemma cmdCreateCQ_fields:
  "cmdCreateCQ xc cq e co = (kr, cq', co') \<Longrightarrow> coUar co' = coUar co \<and> coDma co' = coDma co \<and>
   (\<exists>n. cq' = cq\<lparr>cq_cqNumber := n\<rparr>)"
  by (fastforce simp: cmdCreateCQ_def dest: coExec_fields split: prod.splits if_splits
      intro: exI [of _ "cq_cqNumber cq"])

lemma cmdDestroyCQ_fields:
  "cmdDestroyCQ xc h co = (kr, co') \<Longrightarrow> coUar co' = coUar co \<and> coDma co' = coDma co"
  by (auto simp: cmdDestroyCQ_def dest: coExec_fields split: prod.splits)

lemma createCQ_cases:
  assumes wf: "coWf co" and fr: "cqFresh st"
    and run: "createCQ xc env rs entries eqn st co = Some (kr, resp, st', co')"
  obtains (failed) "kr \<noteq> kIOReturnSuccess" "resp = None" "fCqTable st' = fCqTable st" "cqHeld st' = cqHeld st"
      "cqFresh st'" "coWf co'" "coHeld co' = coHeld co"
  | (created) n off u pages r where "kr = kIOReturnSuccess" "resp = Some r" "entries \<noteq> 0" "entries \<le> 2048"
      "n = cqLogLoop 0 (unat (cqEntries entries))"
      "allocDbSlots 2 (coUar co) = (kIOReturnSuccess, Some off, u)" "coUar co' = u" "coDma co' = coDma co"
      "cqPageLoop (ceGen env) (cqRingBytes n) 0 0 [] = Some (cqRingBytes n, pages)"
      "pages \<noteq> []"
      "st' = st\<lparr>fCqTable := fCqTable st @ [(cqContext env n off (cqNext st) (Suc (cqNext st)) pages)\<lparr>cq_cqNumber := cqr_cqHandle r\<rparr>],
         cqNext := Suc (Suc (cqNext st)), cqBufs := cqNext st # cqBufs st, cqMaps := Suc (cqNext st) # cqMaps st\<rparr>"
      "cqr_logSize r = of_nat n" "cqr_dbRecordOffset r = off"
proof (cases "\<not> rs \<or> entries = 0 \<or> 2048 < entries \<or> \<not> ceAlloc env")
  case True
  then have "kr \<noteq> kIOReturnSuccess \<and> resp = None \<and> st' = st \<and> co' = co"
    using run by (auto simp: createCQ_def Let_def split: if_splits)
  with wf fr show thesis by (intro failed) auto
next
  case args: False
  let ?n = "cqLogLoop 0 (unat (cqEntries entries))"
  obtain k0 offo u where db: "allocDbSlots 2 (coUar co) = (k0, offo, u)" by (metis prod_cases3)
  note dbs = allocDb_spec [OF wf db]
  show thesis
  proof (cases "k0 = kIOReturnSuccess")
    case False
    then have "kr \<noteq> kIOReturnSuccess \<and> resp = None \<and> st' = st \<and> co' = co"
      using run args db dbs by (auto simp: createCQ_def Let_def split: if_splits)
    with wf fr show thesis by (intro failed) auto
  next
    case k0: True
    then obtain off where off: "offo = Some off" using dbs by auto
    note db' = db [unfolded k0 off]
    note rel = cqRelease_held [OF wf db']
    have rm: "removeAll (cqNext st) (cqBufs st) = cqBufs st"
      "removeAll (Suc (cqNext st)) (cqMaps st) = cqMaps st"
      using cqFresh_new [OF fr] by simp_all
    have fr2: "\<And>x. x \<in> set (cqBufs st) \<union> set (cqMaps st) \<Longrightarrow> x < Suc (Suc (cqNext st)) \<and> x < Suc (cqNext st)"
      using fr unfolding cqFresh_def by (meson less_SucI)
    have fail: thesis if "kr \<noteq> kIOReturnSuccess" "resp = None" "co' = coFreeDb off c" "coUar c = u"
      "coDma c = coDma co" "fCqTable st' = fCqTable st" "cqBufs st' = cqBufs st" "cqMaps st' = cqMaps st"
      "cqNext st' = Suc (cqNext st) \<or> cqNext st' = Suc (Suc (cqNext st)) \<or> cqNext st' = cqNext st" for c
      using that rel [of c] fr2 fr by (intro failed) (auto simp: cqHeld_def cqFresh_def)
    let ?bytes = "cqRingBytes ?n"
    have args': "rs" "entries \<noteq> 0" "\<not> 2048 < entries" "ceAlloc env" using args by auto
    have run1: "createCQ xc env True entries eqn st co = Some (kr, resp, st', co')" using run args' by simp
    note run2 = run1 [unfolded createCQ_def Let_def db' prod.case option.case, simplified args', simplified]
    show thesis
    proof (cases "ceBuf env \<and> ceMap env \<and> ceSet env = kIOReturnSuccess")
      case False
      then show thesis using run2 by (intro fail [of "co\<lparr>coUar := u\<rparr>"]) (auto simp: rm cqUndo_def split: if_splits)
    next
      case maps: True
      note run3 = run2 [simplified maps, simplified]
      obtain mo pages where pl: "cqPageLoop (ceGen env) ?bytes 0 0 [] = Some (mo, pages)"
        using run3 by (auto split: option.splits)
      note run4 = run3 [unfolded pl option.case prod.case]
      show thesis
      proof (cases "mo \<noteq> ?bytes \<or> pages = []")
        case True
        then show thesis using run4
          by (intro fail [of "co\<lparr>coUar := u\<rparr>"]) (auto simp: rm cqUndo_def split: if_splits)
      next
        case pok: False
        obtain k1 cq co1 where cm: "cmdCreateCQ xc (cqContext env ?n off (cqNext st) (Suc (cqNext st)) pages) eqn
            (co\<lparr>coUar := u\<rparr>) = (k1, cq, co1)" by (metis prod_cases3)
        note cf = cmdCreateCQ_fields [OF cm]
        note run5 = run4 [simplified pok, simplified, unfolded cm prod.case]
        show thesis
        proof (cases "k1 = kIOReturnSuccess")
          case False
          then show thesis using run5 cf by (intro fail [of co1]) (auto simp: rm cqUndo_def)
        next
          case k1: True
          show thesis
          proof (cases "ceRecord env \<and> ceAdded env")
            case False
            obtain dk co2 where d: "cmdDestroyCQ xc (cq_cqNumber cq) co1 = (dk, co2)" by fastforce
            then show thesis using run5 cf cmdDestroyCQ_fields [OF d] False k1
              by (intro fail [of co2]) (auto simp: rm cqUndo_def split: if_splits)
          next
            case True
            obtain m where cq: "cq = (cqContext env ?n off (cqNext st) (Suc (cqNext st)) pages)\<lparr>cq_cqNumber := m\<rparr>"
              using cf by blast
            then show thesis using run5 cf True k1 args' db' pl pok
              by (intro created [of "the resp" ?n off u pages]) (auto simp: tblInsert_def cqContext_def)
          qed
        qed
      qed
    qed
  qed
qed

lemma destroyCQ_appended:
  assumes "destroyCQ xd h st co = (kIOReturnSuccess, st', co')"
    and "fCqTable st = t @ [ctx]" and "cqLookup h t = None" and h: "cq_cqNumber ctx = h"
  shows "st' = (cqReleaseBuf ctx st)\<lparr>fCqTable := t\<rparr> \<and> (\<exists>co1. coUar co1 = coUar co \<and> coDma co1 = coDma co \<and>
    co' = coFreeDb (cq_dbRecordOffset ctx) co1)"
proof -
  have "cqLookup h (t @ [ctx]) = Some ctx"
    using cqt.lookup_inserted [of ctx t] assms(3) h by (simp add: tblInsert_def)
  moreover have "cqRemove h (t @ [ctx]) = t"
    using assms(3) tblRemove_fresh [of cq_cqNumber ctx t] h by (simp add: cqRemove_def cqLookup_def)
  ultimately show ?thesis
    using assms(1,2) by (auto simp: destroyCQ_def dest: cmdDestroyCQ_fields split: prod.splits if_splits)
qed

lemma cqReleaseBuf_held:
  "cqFresh st \<Longrightarrow> cqBufs st2 = cqNext st # cqBufs st \<Longrightarrow> cqMaps st2 = Suc (cqNext st) # cqMaps st \<Longrightarrow>
   cq_cqeBufDesc ctx = Some (cqNext st) \<Longrightarrow> cq_cqeDmaMap ctx = Some (Suc (cqNext st)) \<Longrightarrow>
   cqHeld ((cqReleaseBuf ctx st2)\<lparr>fCqTable := t\<rparr>) = cqHeld st"
  using cqFresh_new [of st] by (simp add: cqReleaseBuf_def cqHeld_def)

lemma createCQ_spec:
  assumes "coWf co" and "cqFresh st" and "createCQ xc env rs entries eqn st co = Some (kr, resp, st', co')"
    and "\<forall>r. resp = Some r \<longrightarrow> cqLookup (cqr_cqHandle r) (fCqTable st) = None"
  shows "if kr = kIOReturnSuccess
     then \<exists>r ctx n. resp = Some r \<and> fCqTable st' = fCqTable st @ [ctx] \<and> cq_cqNumber ctx = cqr_cqHandle r \<and>
       cqr_logSize r = of_nat n \<and> cq_logSize ctx = of_nat n \<and> 6 \<le> n \<and> n \<le> 11 \<and>
       max 64 (unat entries) \<le> 2 ^ n \<and> 2 ^ n < 2 * max 64 (unat entries) \<and>
       cq_opOwn ctx = replicate (2 ^ n) 0xF1 \<and>
       cq_pageDMA ctx \<noteq> [] \<and> length (cq_pageDMA ctx) \<le> 32 \<and> (\<forall>p\<in>set (cq_pageDMA ctx). p AND 0xFFF = 0) \<and>
       (cqGenOk (ceGen env) \<longrightarrow> 64 * 2 ^ n \<le> 4096 * length (cq_pageDMA ctx)) \<and>
       (\<forall>xd st2 co2. destroyCQ xd (cqr_cqHandle r) st' co' = (kIOReturnSuccess, st2, co2) \<longrightarrow>
          fCqTable st2 = fCqTable st \<and> cqHeld st2 = cqHeld st \<and> coWf co2 \<and> coHeld co2 = coHeld co)
     else resp = None \<and> fCqTable st' = fCqTable st \<and> cqHeld st' = cqHeld st \<and> cqFresh st' \<and>
       coWf co' \<and> coHeld co' = coHeld co"
  using assms(1-3)
proof (cases rule: createCQ_cases)
  case failed
  then show ?thesis by simp
next
  case (created n off u pages r)
  define e where "e = unat (cqEntries entries)"
  have ee: "e = max 64 (unat entries)" by (auto simp: e_def cqEntries_def word_less_nat_alt)
  have "64 \<le> e" "e \<le> 2048" using created(4) by (auto simp: ee word_le_nat_alt)
  from cqLog_bounds [OF this] have n: "e \<le> 2 ^ n" "2 ^ n < 2 * e" "6 \<le> n" "n \<le> 11"
    by (simp_all add: created(5) e_def)
  let ?ctx = "(cqContext env n off (cqNext st) (Suc (cqNext st)) pages)\<lparr>cq_cqNumber := cqr_cqHandle r\<rparr>"
  have num: "cq_cqNumber ?ctx = cqr_cqHandle r" by simp
  have "cqCovers (ceGen env) 0 []" by (simp add: cqCovers_def)
  from cqPageLoop_covers [OF created(9) this]
  have cov: "cqCovers (ceGen env) (cqRingBytes n) pages" by simp
  have "unat (cqRingBytes n) = 64 * 2 ^ n"
  proof -
    have "n = 6 \<or> n = 7 \<or> n = 8 \<or> n = 9 \<or> n = 10 \<or> n = 11" using n(3,4) by linarith
    then show ?thesis by (elim disjE) (simp_all add: cqRingBytes_def)
  qed
  moreover have "(2::nat) ^ n \<le> 2 ^ 11" using n(4) by (intro power_increasing) simp_all
  ultimately have pg: "cqGenOk (ceGen env) \<longrightarrow> 64 * 2 ^ n \<le> 4096 * length pages"
    "length pages \<le> 32" "\<forall>p\<in>set pages. p AND 0xFFF = 0" using cov by (auto simp: cqCovers_def)
  have back': "fCqTable st2 = fCqTable st \<and> cqHeld st2 = cqHeld st \<and> coWf co2 \<and> coHeld co2 = coHeld co"
    if d: "destroyCQ xd (cqr_cqHandle r) st' co' = (kIOReturnSuccess, st2, co2)" for xd st2 co2
  proof -
    have "fCqTable st' = fCqTable st @ [?ctx]" by (simp add: created(11))
    have "cqLookup (cqr_cqHandle r) (fCqTable st) = None" using assms(4) created(2) by simp
    from destroyCQ_appended [OF d \<open>fCqTable st' = _\<close> this num]
    obtain co1 where c: "st2 = (cqReleaseBuf ?ctx st')\<lparr>fCqTable := fCqTable st\<rparr>"
      "coUar co1 = coUar co'" "coDma co1 = coDma co'" "co2 = coFreeDb (cq_dbRecordOffset ?ctx) co1" by blast
    have "cqHeld st2 = cqHeld st" unfolding c(1)
      using assms(2) by (intro cqReleaseBuf_held) (simp_all add: created(11) cqContext_def)
    moreover have "cq_dbRecordOffset ?ctx = off" by (simp add: cqContext_def)
    ultimately show ?thesis
      using cqRelease_held [OF assms(1) created(6), of co1] c created(7,8) by simp
  qed
  show ?thesis
    using created(1,2,10,12) n pg back'
    by (auto simp: ee created(11) cqContext_def intro!: exI [of _ n])
qed

text \<open>C19: Creating a completion queue is all or nothing, for every outcome the driver knows. On success the ring has the smallest
  power of two of at least 64 entries, between 64 and 2048, that holds the request, every CQE
  starts in hardware ownership with an invalid opcode, the page list is non-empty, page
  aligned, at most 32 long and, when the mapping service reports lengths as documented, covers
  the ring; the new context is found under the firmware's number, and destroying it gives back
  buffer, mapping and doorbell slots. On failure the table is unchanged, and nothing is held
  provided CREATE_CQ did not time out and, where the CQ was created but could not be recorded,
  its destruction succeeds. The other failures are \<open>createCQ_timeout_releases\<close> and
  \<open>createCQ_unrecorded_releases\<close>.\<close>

theorem createCQ_all_or_nothing:
  assumes "coWf co" and "cqFresh st" and "createCQ xc env rs entries eqn st co = Some (kr, resp, st', co')"
    and "\<forall>r. resp = Some r \<longrightarrow> cqLookup (cqr_cqHandle r) (fCqTable st) = None"
  shows "if kr = kIOReturnSuccess
     then \<exists>r ctx n. resp = Some r \<and> fCqTable st' = fCqTable st @ [ctx] \<and> cq_cqNumber ctx = cqr_cqHandle r \<and>
       cqr_logSize r = of_nat n \<and> cq_logSize ctx = of_nat n \<and> 6 \<le> n \<and> n \<le> 11 \<and>
       max 64 (unat entries) \<le> 2 ^ n \<and> 2 ^ n < 2 * max 64 (unat entries) \<and>
       cq_opOwn ctx = replicate (2 ^ n) 0xF1 \<and>
       cq_pageDMA ctx \<noteq> [] \<and> length (cq_pageDMA ctx) \<le> 32 \<and> (\<forall>p\<in>set (cq_pageDMA ctx). p AND 0xFFF = 0) \<and>
       (cqGenOk (ceGen env) \<longrightarrow> 64 * 2 ^ n \<le> 4096 * length (cq_pageDMA ctx)) \<and>
       (\<forall>xd st2 co2. destroyCQ xd (cqr_cqHandle r) st' co' = (kIOReturnSuccess, st2, co2) \<longrightarrow>
          fCqTable st2 = fCqTable st \<and> cqHeld st2 = cqHeld st \<and> coWf co2 \<and> coHeld co2 = coHeld co)
     else resp = None \<and> fCqTable st' = fCqTable st \<and>
       (kr \<noteq> kIOReturnTimeout \<and>
         (ceRecord env \<and> ceAdded env \<or> (\<forall>cqn co1. fst (cmdDestroyCQ xc cqn co1) = kIOReturnSuccess)) \<longrightarrow>
        cqHeld st' = cqHeld st \<and> cqFresh st' \<and> coWf co' \<and> coHeld co' = coHeld co)"
  using createCQ_spec [OF assms] by (simp split: if_splits)

text \<open>
  The deviations from the rule that DMA memory is kept until the firmware object is known to be
  gone (\<^verbatim>\<open>REMEDIATION_PLAN.md\<close>, sections 3, 5.1 and 14): a CREATE_CQ that times out gives
  buffer, mapping and doorbell slots back, and so does a CQ that could not be recorded, whether
  or not it could be destroyed.
\<close>

lemma createCQ_timeout_releases:
  assumes "coWf co" and "cqFresh st"
    and "createCQ xc env rs entries eqn st co = Some (kIOReturnTimeout, resp, st', co')"
    and "\<forall>r. resp = Some r \<longrightarrow> cqLookup (cqr_cqHandle r) (fCqTable st) = None"
  shows "cqHeld st' = cqHeld st \<and> coHeld co' = coHeld co"
  using createCQ_spec [OF assms] by simp

lemma createCQ_unrecorded_releases:
  assumes "coWf co" and "cqFresh st" and "createCQ xc env rs entries eqn st co = Some (kr, resp, st', co')"
    and "\<forall>r. resp = Some r \<longrightarrow> cqLookup (cqr_cqHandle r) (fCqTable st) = None"
    and "\<not> (ceRecord env \<and> ceAdded env)"
  shows "kr \<noteq> kIOReturnSuccess \<and> cqHeld st' = cqHeld st \<and> coHeld co' = coHeld co"
proof -
  have "kr \<noteq> kIOReturnSuccess"
    using assms(3,5) by (auto simp: createCQ_def Let_def split: if_splits prod.splits option.splits)
  then show ?thesis using createCQ_spec [OF assms(1-4)] by simp
qed


definition sampleCqEnv :: CqEnv where
  "sampleCqEnv = \<lparr>ceAlloc = True, ceBuf = True, ceBufAddr = 0x4000, ceMap = True, ceSet = kIOReturnSuccess,
     ceGen = (\<lambda>k off. (kIOReturnSuccess, [(0x20000 + off, 4096)], off + 4096)), ceRecord = True, ceAdded = True\<rparr>"

lemma sampleCq_loop: "cqPageLoop (ceGen sampleCqEnv) 8192 0 0 [] = Some (8192, [0x20000, 0x21000])"
proof -
  have nil: "cqSegs n [] = ([], False)" for n by (cases n) simp_all
  have "cqSegs (Suc 31) [(0x20000, 4096)] = ([0x20000], False)" "cqSegs (Suc 30) [(0x21000, 4096)] = ([0x21000], False)"
    by (simp_all only: cqSegs.simps nil) simp_all
  then have "cqSegs 32 [(0x20000, 4096)] = ([0x20000], False)" "cqSegs 31 [(0x21000, 4096)] = ([0x21000], False)"
    by simp_all
  then show ?thesis
    by (subst cqPageLoop.simps, subst cqPageLoop.simps, subst cqPageLoop.simps) (simp add: sampleCqEnv_def)
qed

theorem createCQ_all_or_nothing_witness:
  "\<exists>r ctx st co. createCQ sampleXc sampleCqEnv True 100 7 cqInit sampleCo = Some (kIOReturnSuccess, Some r, st, co) \<and>
    fCqTable st = [ctx] \<and> cq_pageDMA ctx = [0x20000, 0x21000] \<and> cqr_logSize r = 7 \<and>
    cqHeld (fst (snd (destroyCQ sampleXc (cqr_cqHandle r) st co))) = ({}, {})"
proof -
  obtain off u where al: "allocDbSlots 2 (coUar sampleCo) = (kIOReturnSuccess, Some off, u)"
    using sampleCo_alloc by blast
  have e: "cqEntries 100 = 100" by (simp add: cqEntries_def)
  have l: "cqLogLoop 0 100 = 7" by (simp add: cqLogLoop.simps)
  have "cqRingBytes 7 = 8192" by (simp add: cqRingBytes_def)
  moreover obtain k where cm: "\<And>cq (co :: unit mlxCore). cmdCreateCQ sampleXc cq 7 co = (kIOReturnSuccess, cq\<lparr>cq_cqNumber := k\<rparr>, co)"
    by (simp add: cmdCreateCQ_def)
  moreover have env: "ceAlloc sampleCqEnv" "ceBuf sampleCqEnv" "ceMap sampleCqEnv" "ceSet sampleCqEnv = kIOReturnSuccess"
    "ceRecord sampleCqEnv" "ceAdded sampleCqEnv" by (simp_all add: sampleCqEnv_def)
  ultimately have "\<exists>r st co. createCQ sampleXc sampleCqEnv True 100 7 cqInit sampleCo = Some (kIOReturnSuccess, Some r, st, co) \<and>
     fCqTable st = [(cqContext sampleCqEnv 7 off 0 1 [0x20000, 0x21000])\<lparr>cq_cqNumber := k\<rparr>] \<and> cqr_logSize r = 7"
    using al
    by (simp add: createCQ_def Let_def e l cqInit_def env, simp add: sampleCq_loop \<open>cqRingBytes 7 = 8192\<close>,
        simp add: cm env tblInsert_def, simp add: l cqContext_def)
  then obtain r st co where run: "createCQ sampleXc sampleCqEnv True 100 7 cqInit sampleCo = Some (kIOReturnSuccess, Some r, st, co)"
    and tbl: "fCqTable st = [(cqContext sampleCqEnv 7 off 0 1 [0x20000, 0x21000])\<lparr>cq_cqNumber := k\<rparr>]"
    and rl: "cqr_logSize r = 7" by blast
  have "cqFresh cqInit" by (simp add: cqFresh_def cqInit_def)
  from createCQ_all_or_nothing [OF sampleCo_wf this run]
  have d: "\<And>st2 co2. destroyCQ sampleXc (cqr_cqHandle r) st co = (kIOReturnSuccess, st2, co2) \<Longrightarrow> cqHeld st2 = cqHeld cqInit"
    by (auto simp: cqInit_def cqLookup_def tblLookup_def)
  have "fst (destroyCQ sampleXc (cqr_cqHandle r) st co) = kIOReturnSuccess"
    by (simp add: destroyCQ_def cmdDestroyCQ_def split: option.split)
  then obtain st2 co2 where dd: "destroyCQ sampleXc (cqr_cqHandle r) st co = (kIOReturnSuccess, st2, co2)"
    by (cases "destroyCQ sampleXc (cqr_cqHandle r) st co") auto
  from d [OF this] have "cqHeld st2 = ({}, {})" by (simp add: cqHeld_def cqInit_def)
  with dd have "cqHeld (fst (snd (destroyCQ sampleXc (cqr_cqHandle r) st co))) = ({}, {})" by simp
  then show ?thesis using run tbl rl by (auto simp: cqContext_def)
qed

section \<open>The consumer index\<close>

text \<open>
  A consumer index up to twice the depth is stored big-endian in the four bytes of the
  queue's first doorbell slot and nothing else of the page changes; a larger one is refused.
\<close>

lemma updateCqConsumer_spec:
  assumes "fDbRecord (coUar co) = Some db" and "length db = 4096" and "cqLookup h (fCqTable st) = Some ctx"
    and "unat (cq_dbRecordOffset ctx) + 4 \<le> 4096" and "cq_dbRecordOffset ctx mod 4 = 0"
    and "updateCqConsumer h ci st co = (kr, co')"
  shows "(kr = kIOReturnSuccess \<longleftrightarrow> ci \<le> push_bit (unat (cq_logSize ctx)) 1 * 2) \<and>
    (if kr = kIOReturnSuccess
     then \<exists>db'. fDbRecord (coUar co') = Some db' \<and> length db' = 4096 \<and>
       (\<forall>i < 4096. db' ! i = (if unat (cq_dbRecordOffset ctx) \<le> i \<and> i < unat (cq_dbRecordOffset ctx) + 4
          then ucast (drop_bit (8 * (3 + unat (cq_dbRecordOffset ctx) - i)) ci) else db ! i))
     else kr = kIOReturnBadArgument \<and> co' = co)"
proof -
  have "unat (cq_dbRecordOffset ctx) mod 4 = 0"
    using arg_cong [OF assms(5), of unat] by (simp add: unat_mod_distrib)
  then have off: "unat (cq_dbRecordOffset ctx div 4) * 4 = unat (cq_dbRecordOffset ctx)"
    by (simp add: unat_div_distrib) (metis add_0_right mult.commute div_mult_mod_eq mult_div_mod_eq)
  have "ucast (drop_bit n (ucast ci :: u64)) = (ucast (drop_bit n ci) :: u8)" for n
    by (rule bit_word_eqI) (auto simp: bit_ucast_iff bit_drop_bit_eq dest: bit_imp_le_length)
  then show ?thesis
    using assms(1-4,6)
    by (auto simp: updateCqConsumer_def Let_def OSWriteBigInt32_def nth_osWriteBig off not_less split: if_splits)
qed

end
