(* ===== verification/MlxMR.thy ===== *)
theory MlxMR
  imports MlxCore MlxCmd MlxP0
begin

text \<open>
  \<^verbatim>\<open>Sources/ib/MlxMR.{hpp,cpp}\<close>: memory regions. Memory descriptors and DMA commands are
  numbered objects, \<open>mrMems\<close> and \<open>mrCmds\<close> the live ones; IOKit's answers are \<open>MrEnv\<close>, whose
  \<open>meGen round offset\<close> is what \<^verbatim>\<open>gen64IOVMSegments\<close> returns in the loop's \<open>round\<close>.
\<close>

unbundle bit_operations_syntax

section \<open>Data\<close>

definition MLX_MAX_MR_SEGMENTS :: nat where "MLX_MAX_MR_SEGMENTS = 480"

record mlx_reg_mr_req =
  rm_startAddr :: u64
  rm_length :: u64
  rm_pd :: u32
  rm_accessFlags :: u32

record mlx_reg_mr_resp =
  rmr_mrHandle :: u32
  rmr_lkey :: u32
  rmr_rkey :: u32

record MlxMRContext =
  mr_mrHandle :: u32
  mr_pd :: u32
  mr_lkey :: u32
  mr_rkey :: u32
  mr_startAddr :: u64
  mr_length :: u64
  mr_accessFlags :: u32
  mr_fMemDesc :: "nat option"
  mr_fDmaCommand :: "nat option"

record MlxMR =
  fMrTable :: "MlxMRContext list"
  fMkeyVariant :: u8
  mrNext :: nat
  mrMems :: "nat list"
  mrCmds :: "nat list"

type_synonym mrGen = "nat \<Rightarrow> u64 \<Rightarrow> ioreturn \<times> (u64 \<times> u64) list \<times> u64"

record MrEnv =
  meMem :: bool
  meMemLen :: u64
  mePaList :: bool
  meCmd :: bool
  meSet :: ioreturn
  meGen :: mrGen
  meIn :: bool
  meCtx :: bool
  meRecord :: bool
  meAdded :: bool

definition mrInit :: MlxMR where
  "mrInit = \<lparr>fMrTable = [], fMkeyVariant = 0, mrNext = 0, mrMems = [], mrCmds = []\<rparr>"

section \<open>Table access\<close>

definition mrLookup :: "u32 \<Rightarrow> MlxMRContext list \<Rightarrow> MlxMRContext option" where
  "mrLookup h t = tblLookup mr_mrHandle h t"

definition mrRemove :: "u32 \<Rightarrow> MlxMRContext list \<Rightarrow> MlxMRContext list" where
  "mrRemove h t = tblRemove mr_mrHandle h t"

definition mrUnique :: "MlxMRContext list \<Rightarrow> bool" where
  "mrUnique t = uniqueKeys mr_mrHandle t"

interpretation mrt: handle_table mrLookup tblInsert mrRemove mr_mrHandle mrUnique
  unfolding mrLookup_def mrRemove_def mrUnique_def by (rule table_laws)

section \<open>The translation table\<close>

text \<open>One batch of segments: each must sit at the virtual address's offset in its page.\<close>

fun pblSegs :: "u64 \<Rightarrow> u64 \<Rightarrow> (u64 \<times> u64) list \<Rightarrow> u64 list \<Rightarrow> ioreturn \<times> u64 list" where
  "pblSegs startAddr batchOffset [] pa = (kIOReturnSuccess, pa)"
| "pblSegs startAddr batchOffset ((a, l) # segs) pa =
     (if MLX_MAX_MR_SEGMENTS \<le> length pa then (kIOReturnSuccess, pa)
      else if a AND (MLX_MTT_PAGE_SIZE - 1) \<noteq> (startAddr + batchOffset) AND (MLX_MTT_PAGE_SIZE - 1)
      then (kIOReturnUnsupported, pa)
      else
        (case mlxAppendMttPages a l (Some pa) MLX_MAX_MR_SEGMENTS of
           (ok, pa') \<Rightarrow>
             if \<not> ok then (kIOReturnNoSpace, the pa')
             else pblSegs startAddr (batchOffset + l) segs (the pa')))"

text \<open>The loop over the batches; \<open>None\<close> stands for a loop that does not end.\<close>

partial_function (option) pblLoop ::
  "mrGen \<Rightarrow> u64 \<Rightarrow> u64 \<Rightarrow> nat \<Rightarrow> u64 \<Rightarrow> u64 list \<Rightarrow> (ioreturn \<times> u64 \<times> u64 list) option" where
  "pblLoop gen memLen startAddr round offset pa =
     (if offset < memLen \<and> length pa < MLX_MAX_MR_SEGMENTS
      then (case gen round offset of
              (kr, segs, off') \<Rightarrow>
                if kr \<noteq> kIOReturnSuccess \<or> segs = [] then Some (kr, off', pa)
                else
                  (case pblSegs startAddr offset (take 8 segs) pa of
                     (kr, pa) \<Rightarrow>
                       if kr \<noteq> kIOReturnSuccess then Some (kr, off', pa)
                       else pblLoop gen memLen startAddr (round + 1) off' pa))
      else Some (kIOReturnSuccess, offset, pa))"

declare pblLoop.simps [code]

text \<open>On success the DMA command that maps the memory, and the page addresses.\<close>

definition buildPBL ::
  "MrEnv \<Rightarrow> u64 \<Rightarrow> u64 \<Rightarrow> MlxMR \<Rightarrow> (ioreturn \<times> u64 list \<times> nat option \<times> MlxMR) option" where
  "buildPBL env startAddr len st =
     (if len = 0 \<or> len \<noteq> meMemLen env then Some (kIOReturnBadArgument, [], None, st)
      else if \<not> meCmd env then Some (kIOReturnNoMemory, [], None, st)
      else
        (let cmd = mrNext st; st = st\<lparr>mrNext := mrNext st + 1, mrCmds := cmd # mrCmds st\<rparr>;
             rel = st\<lparr>mrCmds := removeAll cmd (mrCmds st)\<rparr>
         in if meSet env \<noteq> kIOReturnSuccess then Some (meSet env, [], None, rel)
            else
              (case pblLoop (meGen env) (meMemLen env) startAddr 0 0 [] of
                 None \<Rightarrow> None
               | Some (kr, offset, pa) \<Rightarrow>
                   (let expectedPages = mlxMttPageCount startAddr len
                    in if kr \<noteq> kIOReturnSuccess \<or> offset \<noteq> meMemLen env \<or> of_nat (length pa) \<noteq> expectedPages
                       then Some ((if MLX_MAX_MR_SEGMENTS \<le> length pa \<or> 480 < expectedPages
                                   then kIOReturnNoSpace else kIOReturnIOError), pa, None, rel)
                       else if pa = [] then Some (kIOReturnIOError, pa, None, rel)
                       else Some (kIOReturnSuccess, pa, Some cmd, st)))))"

section \<open>Memory keys\<close>

text \<open>The pre-increment of the 8-bit variant skips 0.\<close>

definition nextVariant :: "u8 \<Rightarrow> u8" where
  "nextVariant v = (if v + 1 = 0 then v + 1 + 1 else v + 1)"

definition cmdCreateMKey ::
  "'w execFn \<Rightarrow> bool \<Rightarrow> u64 list \<Rightarrow> mlx_reg_mr_req \<Rightarrow> MlxMR \<Rightarrow> 'w mlxCore \<Rightarrow>
   ioreturn \<times> u32 \<times> MlxMR \<times> 'w mlxCore" where
  "cmdCreateMKey xc mem paList req st co =
     (if \<not> mem then (kIOReturnNoMemory, 0, st, co)
      else
        (let inb = OSWriteBigInt16 (replicate MLX_CMD_MAX_SIZE 0) 0 (ucast MLX_CMD_OP_CREATE_MKEY);
             variant = nextVariant (fMkeyVariant st); st = st\<lparr>fMkeyVariant := variant\<rparr>
         in case mlxEncodeCreateMkey (Some inb) MLX_CMD_MAX_SIZE (Some paList) (of_nat (length paList))
                   (rm_startAddr req) (rm_length req) (rm_accessFlags req) (rm_pd req) variant of
              None \<Rightarrow> (kIOReturnBadArgument, 0, st, co)
            | Some (inb, inSize) \<Rightarrow>
                (case coExec xc MLX_CMD_OP_CREATE_MKEY (take (unat inSize) inb) 64 co of
                   (kr, out, co) \<Rightarrow>
                     if kr \<noteq> kIOReturnSuccess then (kr, 0, st, co)
                     else (kIOReturnSuccess, mlxComposeMkey (ucast (mlxGetBits out 0x48 24)) variant, st, co))))"

definition cmdDestroyMKey :: "'w execFn \<Rightarrow> u32 \<Rightarrow> 'w mlxCore \<Rightarrow> ioreturn \<times> 'w mlxCore" where
  "cmdDestroyMKey xc mkey co =
     (case coExec xc MLX_CMD_OP_DESTROY_MKEY
             (mlxSetBits (OSWriteBigInt16 (replicate 16 0) 0 (ucast MLX_CMD_OP_DESTROY_MKEY)) 0x48 24
                (ucast (mlxMkeyIndex mkey))) 16 co of
        (kr, out, co) \<Rightarrow> (kr, co))"

section \<open>Registering\<close>

definition regMrArgsOk :: "mlx_reg_mr_req \<Rightarrow> bool" where
  "regMrArgsOk req \<longleftrightarrow>
     \<not> (rm_length req = 0 \<or> rm_accessFlags req AND NOT MLX_MR_ACCESS_SUPPORTED \<noteq> 0 \<or>
        0xffffff < rm_pd req \<or> rm_startAddr req + rm_length req < rm_startAddr req)"

definition mrRelease :: "nat \<Rightarrow> nat option \<Rightarrow> MlxMR \<Rightarrow> MlxMR" where
  "mrRelease mem cmd st =
     (let st = (case cmd of None \<Rightarrow> st | Some c \<Rightarrow> st\<lparr>mrCmds := removeAll c (mrCmds st)\<rparr>)
      in st\<lparr>mrMems := removeAll mem (mrMems st)\<rparr>)"

definition mrContext :: "mlx_reg_mr_req \<Rightarrow> u32 \<Rightarrow> nat \<Rightarrow> nat option \<Rightarrow> MlxMRContext" where
  "mrContext req mkey mem cmd =
     \<lparr>mr_mrHandle = mkey, mr_pd = rm_pd req, mr_lkey = mkey, mr_rkey = mkey,
      mr_startAddr = rm_startAddr req, mr_length = rm_length req,
      mr_accessFlags = rm_accessFlags req, mr_fMemDesc = Some mem, mr_fDmaCommand = cmd\<rparr>"

definition regMR ::
  "'w execFn \<Rightarrow> MrEnv \<Rightarrow> mlx_reg_mr_req option \<Rightarrow> MlxMR \<Rightarrow> 'w mlxCore \<Rightarrow>
   (ioreturn \<times> mlx_reg_mr_resp option \<times> MlxMR \<times> 'w mlxCore) option" where
  "regMR xc env req st co =
     (case req of
        None \<Rightarrow> Some (kIOReturnBadArgument, None, st, co)
      | Some req \<Rightarrow>
          if \<not> regMrArgsOk req then Some (kIOReturnBadArgument, None, st, co)
          else if \<not> meMem env then Some (kIOReturnNoMemory, None, st, co)
          else
            (let mem = mrNext st; st = st\<lparr>mrNext := mrNext st + 1, mrMems := mem # mrMems st\<rparr>
             in if \<not> mePaList env then Some (kIOReturnNoMemory, None, mrRelease mem None st, co)
                else
                  (case buildPBL env (rm_startAddr req) (rm_length req) st of
                     None \<Rightarrow> None
                   | Some (kr, pa, cmd, st) \<Rightarrow>
                       if kr \<noteq> kIOReturnSuccess then Some (kr, None, mrRelease mem None st, co)
                       else
                         (case cmdCreateMKey xc (meIn env) pa req st co of
                            (kr, mkey, st, co) \<Rightarrow>
                              if kr \<noteq> kIOReturnSuccess then Some (kr, None, mrRelease mem cmd st, co)
                              else if \<not> (meCtx env \<and> meRecord env \<and> meAdded env)
                              then (case cmdDestroyMKey xc mkey co of
                                      (dk, co) \<Rightarrow>
                                        Some (kIOReturnNoMemory, None,
                                          (if dk = kIOReturnSuccess then mrRelease mem cmd st else st), co))
                              else Some (kIOReturnSuccess,
                                     Some \<lparr>rmr_mrHandle = mkey, rmr_lkey = mkey, rmr_rkey = mkey\<rparr>,
                                     st\<lparr>fMrTable := tblInsert (mrContext req mkey mem cmd) (fMrTable st)\<rparr>, co)))))"

definition deregMR :: "'w execFn \<Rightarrow> u32 \<Rightarrow> MlxMR \<Rightarrow> 'w mlxCore \<Rightarrow> ioreturn \<times> MlxMR \<times> 'w mlxCore" where
  "deregMR xc h st co =
     (case cmdDestroyMKey xc h co of
        (kr, co) \<Rightarrow>
          if kr = kIOReturnSuccess
          then (case mrLookup h (fMrTable st) of
                  None \<Rightarrow> (kr, st, co)
                | Some ctx \<Rightarrow>
                    (let st = (case mr_fMemDesc ctx of None \<Rightarrow> st | Some mem \<Rightarrow> mrRelease mem (mr_fDmaCommand ctx) st)
                     in (kr, st\<lparr>fMrTable := mrRemove h (fMrTable st)\<rparr>, co)))
          else (kr, st, co))"

text \<open>The destructor: an MR that cannot be destroyed keeps its memory and mapping.\<close>

fun mrFreeLoop :: "'w execFn \<Rightarrow> bool \<Rightarrow> nat \<Rightarrow> MlxMR \<Rightarrow> 'w mlxCore \<Rightarrow> MlxMR \<times> 'w mlxCore" where
  "mrFreeLoop xc up 0 st co = (st, co)"
| "mrFreeLoop xc up (Suc n) st co =
     (case fMrTable st of
        [] \<Rightarrow> (st, co)
      | ctx # rest \<Rightarrow>
          (case (if up then deregMR xc (mr_mrHandle ctx) st co else (kIOReturnNotReady, st, co)) of
             (kr, st, co) \<Rightarrow>
               if kr = kIOReturnSuccess then mrFreeLoop xc up n st co
               else mrFreeLoop xc up n (st\<lparr>fMrTable := tl (fMrTable st)\<rparr>) co))"

definition mrFree :: "'w execFn \<Rightarrow> bool \<Rightarrow> MlxMR \<Rightarrow> 'w mlxCore \<Rightarrow> MlxMR \<times> 'w mlxCore" where
  "mrFree xc up st co = mrFreeLoop xc up (length (fMrTable st)) st co"

end
