(* ===== verification/MlxMRProps.thy ===== *)
theory MlxMRProps
  imports MlxMR
begin

text \<open>
  Properties of memory registration: the translation table of a registered region sends every
  byte to the device address the IOMMU gave it, and registration is all or nothing.
\<close>

unbundle bit_operations_syntax

section \<open>Virtual pages\<close>

text \<open>
  \<open>vIdx\<close> is the page, counted from the first one of the region, that byte \<open>off\<close> lies in;
  \<open>vCount\<close> how many pages its first \<open>off\<close> bytes touch.
\<close>

definition vIdx :: "u64 \<Rightarrow> nat \<Rightarrow> nat" where
  "vIdx sa off = (unat sa mod 4096 + off) div 4096"

definition vCount :: "u64 \<Rightarrow> nat \<Rightarrow> nat" where
  "vCount sa off = (if off = 0 then 0 else vIdx sa (off - 1) + 1)"

text \<open>
  The bytes of the mapping: \<open>dev o\<close> is the device address of byte \<open>o\<close>, \<open>vp k\<close> the device page
  of virtual page \<open>k\<close>. A batch of segments describes the bytes it covers.
\<close>

fun segsAt :: "(nat \<Rightarrow> u64) \<Rightarrow> nat \<Rightarrow> (u64 \<times> u64) list \<Rightarrow> bool" where
  "segsAt dev off [] = True"
| "segsAt dev off ((a, l) # segs) =
     ((\<forall>j < unat l. dev (off + j) = a + of_nat j) \<and> segsAt dev (off + unat l) segs)"

definition segsLen :: "(u64 \<times> u64) list \<Rightarrow> nat" where
  "segsLen segs = sum_list (map (unat \<circ> snd) segs)"

definition pblInv :: "u64 \<Rightarrow> (nat \<Rightarrow> u64) \<Rightarrow> (nat \<Rightarrow> u64) \<Rightarrow> nat \<Rightarrow> u64 list \<Rightarrow> bool" where
  "pblInv sa dev vp off pa \<longleftrightarrow> pa = remdups_adj (map vp [0..<vCount sa off]) \<and>
     (\<forall>o' < off. dev o' AND 4095 = (sa + of_nat o') AND 4095)"

lemma low_bits: "(a AND 4095 = b AND 4095) = (unat a mod 4096 = unat b mod 4096)" for a b :: u64
proof -
  have "(a AND 4095 = b AND 4095) = (unat (a AND 4095) = unat (b AND 4095))" by (simp add: word_unat_eq_iff)
  then show ?thesis by (simp only: unat_page_off)
qed

lemma unat_add_mod_page: "unat (a + of_nat j :: u64) mod 4096 = (unat a + j) mod 4096"
proof -
  have "unat (a + of_nat j :: u64) = (unat a + j) mod 2 ^ 64"
    by (simp add: unat_word_ariths(1) unsigned_of_nat take_bit_eq_mod mod_simps)
  moreover have "(4096::nat) dvd 2 ^ 64" by simp
  ultimately show ?thesis using mod_mod_cancel [of 4096 "2 ^ 64" "unat a + j"] by (simp only:)
qed

lemma page_split: "a = (a AND NOT m) + (a AND m)" for a m :: u64
  by (subst disjunctive_add) (auto simp: bit_and_iff bit_not_iff bit_or_iff intro!: bit_word_eqI)

lemma remdups_adj_extend:
  assumes "distinct ys" and "ys \<noteq> []"
  shows "remdups_adj (xs @ ys) = remdups_adj xs @ mttNew (remdups_adj xs) ys"
proof (cases "xs = []")
  case True
  then show ?thesis using assms by (simp add: mttNew_def remdups_adj_distinct)
next
  case False
  obtain y zs where ys: "ys = y # zs" using assms(2) by (cases ys) auto
  have z: "remdups_adj ys = ys" "remdups_adj zs = zs" using assms(1) by (simp_all add: ys remdups_adj_distinct)
  have "dropWhile (\<lambda>u. u = last xs) ys = (if y = last xs then zs else ys)"
    using assms(1) by (cases zs) (auto simp: ys)
  then show ?thesis
    using remdups_adj_append'' [OF False, of ys] False z
    by (auto simp: mttNew_def ys)
qed

lemma remdups_adj_full: "length (remdups_adj xs) = length xs \<Longrightarrow> remdups_adj xs = xs"
proof (induction xs rule: remdups_adj.induct)
  case (3 x y xs)
  then show ?case using remdups_adj_length [of "x # xs"] by (auto split: if_splits)
qed simp_all

lemma remdups_adj_repeat: "remdups_adj (xs @ y # y # zs) = remdups_adj (xs @ y # zs)"
  by (simp add: remdups_adj_append [of xs y "y # zs"] remdups_adj_append [of xs y zs])

text \<open>The 4 KiB pages of one segment are the virtual pages its bytes lie in.\<close>

lemma segment_pages:
  assumes al: "unat a mod 4096 = (unat sa mod 4096 + off) mod 4096"
    and len: "0 < L" "unat a + L < 2 ^ 64"
    and dev: "\<forall>j < L. dev (off + j) = a + of_nat j"
    and gran: "\<forall>o' < off + L. dev o' AND NOT 4095 = vp (vIdx sa o')"
  shows "mttPages (unat a) L = map vp [vIdx sa off ..< vCount sa (off + L)]"
proof -
  define p r where "p = unat a div 4096" and "r = unat a mod 4096"
  define q where "q = vIdx sa off"
  have a: "unat a = 4096 * p + r" "r < 4096" by (simp_all add: p_def r_def)
  have s: "unat sa mod 4096 + off = 4096 * q + r"
    using al by (simp add: q_def r_def vIdx_def)
  define M where "M = (r + (L - 1)) div 4096 + 1"
  have "unat a + L - 1 = r + (L - 1) + 4096 * p" using a len by simp
  then have "(unat a + L - 1) div 4096 = p + (r + (L - 1)) div 4096"
    by (simp only: div_mult_self2; simp)
  then have m: "mttPages (unat a) L = map (\<lambda>i. of_nat (4096 * i)) [p ..< p + M]"
    by (simp add: mttPages_def M_def p_def)
  have "unat sa mod 4096 + (off + L - 1) = r + (L - 1) + 4096 * q" using s len by simp
  then have "vIdx sa (off + L - 1) = q + (r + (L - 1)) div 4096"
    unfolding vIdx_def by (simp only: div_mult_self2; simp)
  then have v: "vCount sa (off + L) = q + M" using len by (simp add: vCount_def M_def)
  have "of_nat (4096 * (p + k)) = vp (q + k)" if k: "k < M" for k
  proof -
    define j where "j = (if k = 0 then 0 else 4096 * k - r)"
    have "k \<le> (r + (L - 1)) div 4096" using k by (simp add: M_def)
    then have "4096 * k \<le> r + (L - 1)" by (simp add: less_eq_div_iff_mult_less_eq mult.commute)
    then have j: "j < L" "r + j = (if k = 0 then r else 4096 * k)" using len a(2) by (auto simp: j_def)
    have "unat sa mod 4096 + (off + j) = r + j + 4096 * q" using s by simp
    then have "vIdx sa (off + j) = q + (r + j) div 4096"
      unfolding vIdx_def by (simp only: div_mult_self2; simp)
    then have vi: "vIdx sa (off + j) = q + k" using j(2) a(2) by (auto split: if_splits)
    have "unat a + j = r + j + 4096 * p" using a by simp
    then have "(unat a + j) div 4096 = p + (r + j) div 4096" by (simp only: div_mult_self2; simp)
    then have pj: "(unat a + j) div 4096 = p + k" using j(2) a(2) by (auto split: if_splits)
    have uj: "unat (a + of_nat j) = unat a + j"
      using j(1) len(2) by (simp add: unat_word_ariths(1) unsigned_of_nat take_bit_nat_eq_self)
    have "vp (q + k) = dev (off + j) AND NOT 4095" using gran j(1) vi by simp
    also have "\<dots> = (a + of_nat j) AND NOT 4095" using dev j(1) by simp
    also have "\<dots> = of_nat (4096 * (p + k))"
      using page_of [of "a + of_nat j"] by (simp only: uj pj mtt_page_size) simp
    finally show ?thesis by simp
  qed
  then show ?thesis unfolding m v q_def [symmetric]
    by (intro nth_equalityI) (simp_all add: add.commute)
qed

lemma mttPages_distinct: "0 < L \<Longrightarrow> A + L < 2 ^ 64 \<Longrightarrow> distinct (mttPages A L)"
proof -
  assume a: "0 < L" "A + L < 2 ^ 64"
  have lt: "4096 * i < 2 ^ 64" if "i < (A + L - 1) div 4096 + 1" for i
  proof -
    have "4096 * i \<le> A + L - 1" using that by (simp add: less_Suc_eq_le less_eq_div_iff_mult_less_eq mult.commute)
    with a show ?thesis by linarith
  qed
  have "inj_on (\<lambda>i. of_nat (4096 * i) :: u64) (set [A div 4096 ..< (A + L - 1) div 4096 + 1])"
  proof (rule inj_onI)
    fix i j assume i: "i \<in> set [A div 4096 ..< (A + L - 1) div 4096 + 1]" and j: "j \<in> set [A div 4096 ..< (A + L - 1) div 4096 + 1]"
      and eq: "(of_nat (4096 * i) :: u64) = of_nat (4096 * j)"
    have "i < (A + L - 1) div 4096 + 1" "j < (A + L - 1) div 4096 + 1" using i j by auto
    note b = this [THEN lt]
    have u: "unat (of_nat (4096 * i) :: u64) = 4096 * i" "unat (of_nat (4096 * j) :: u64) = 4096 * j"
      by (rule unat_of_nat_small, simp only: len_of_numeral_defs, use b in simp)+
    from eq have "unat (of_nat (4096 * i) :: u64) = unat (of_nat (4096 * j) :: u64)" by (simp only:)
    then show "i = j" unfolding u by simp
  qed
  then show ?thesis by (simp only: mttPages_def distinct_map distinct_upt simp_thms)
qed

lemma join_pages:
  assumes "0 < L"
  shows "remdups_adj (map vp [0..<vCount sa off] @ map vp [vIdx sa off ..< vCount sa (off + L)]) =
    remdups_adj (map vp [0..<vCount sa (off + L)])"
proof -
  let ?q = "vIdx sa off" and ?n = "vCount sa (off + L)"
  have qn: "?q < ?n" using assms by (simp add: vCount_def vIdx_def div_le_mono less_Suc_eq_le)
  consider (first) "vCount sa off = ?q" | (inside) "vCount sa off = Suc ?q"
  proof (cases "off = 0")
    case True
    then show ?thesis using that(1) by (simp add: vCount_def vIdx_def)
  next
    case False
    then have "unat sa mod 4096 + off = Suc (unat sa mod 4096 + (off - 1))" by simp
    then have "?q = (if Suc (unat sa mod 4096 + (off - 1)) mod 4096 = 0 then Suc (vIdx sa (off - 1)) else vIdx sa (off - 1))"
      unfolding vIdx_def by (simp only: div_Suc)
    then show ?thesis using False that by (auto simp: vCount_def split: if_splits)
  qed
  then show ?thesis
  proof cases
    case first
    then show ?thesis using qn upt_add_eq_append [of 0 ?q "?n - ?q"] by (simp flip: map_append)
  next
    case inside
    have "[0..<?n] = [0..<?q] @ ?q # [Suc ?q..<?n]" using qn upt_add_eq_append [of 0 ?q "?n - ?q"] by (simp add: upt_conv_Cons)
    then show ?thesis using qn remdups_adj_repeat [of "map vp [0..<?q]" "vp ?q" "map vp [Suc ?q..<?n]"]
      by (simp add: inside upt_conv_Cons)
  qed
qed

lemma pblInv_step:
  assumes inv: "pblInv sa dev vp off pa"
    and al: "a AND 4095 = (sa + of_nat off) AND 4095"
    and dev: "\<forall>j < unat l. dev (off + j) = a + of_nat j"
    and gran: "\<forall>o' < off + unat l. dev o' AND NOT 4095 = vp (vIdx sa o')"
    and app: "mlxAppendMttPages a l (Some pa) cap = (True, pa')" and cap: "length pa \<le> cap"
  shows "pa' \<noteq> None \<and> pblInv sa dev vp (off + unat l) (the pa') \<and> length (the pa') \<le> cap \<and> 0 < unat l"
proof -
  have "l \<noteq> 0" "\<not> l > - 1 - a" using app by (auto simp: mlxAppendMttPages_def split: if_splits)
  then have L: "0 < unat l" "unat a + unat l < 2 ^ 64" by (auto simp: unat_gt_0 word_room_iff)
  have am: "unat a mod 4096 = (unat sa mod 4096 + off) mod 4096"
    using al [unfolded low_bits unat_add_mod_page] by (simp add: mod_add_left_eq)
  note pg = segment_pages [OF am L dev gran]
  let ?Y = "map vp [vIdx sa off ..< vCount sa (off + unat l)]"
  have new: "pa' = Some (pa @ mttNew pa ?Y)" "length (pa @ mttNew pa ?Y) \<le> cap"
    using app appendMttLoop_spec [OF L(2) \<open>l \<noteq> 0\<close> cap] \<open>l \<noteq> 0\<close> \<open>\<not> l > - 1 - a\<close> pg
    by (auto simp: mlxAppendMttPages_def Let_def split: if_splits)
  have dis: "distinct ?Y" unfolding pg [symmetric] by (rule mttPages_distinct [OF L])
  have ne: "?Y \<noteq> []" using L(1) by (auto simp: vCount_def vIdx_def div_le_mono)
  let ?X = "map vp [0..<vCount sa off]"
  have P: "pa = remdups_adj ?X" using inv by (simp add: pblInv_def)
  have "pa @ mttNew pa ?Y = remdups_adj (?X @ ?Y)"
    using remdups_adj_extend [OF dis ne, of ?X] P by simp
  also have "\<dots> = remdups_adj (map vp [0..<vCount sa (off + unat l)])"
    using L(1) by (rule join_pages)
  finally have R: "pa @ mttNew pa ?Y = remdups_adj (map vp [0..<vCount sa (off + unat l)])" .
  have "dev o' AND 4095 = (sa + of_nat o') AND 4095" if "o' < off + unat l" for o'
  proof (cases "o' < off")
    case True
    then show ?thesis using inv by (simp add: pblInv_def)
  next
    case False
    then obtain j where j: "o' = off + j" using le_Suc_ex [of off o'] by auto
    then have "j < unat l" using that by simp
    have "(unat a + j) mod 4096 = (unat a mod 4096 + j) mod 4096" by (simp only: mod_add_left_eq)
    also have "\<dots> = (unat sa + (off + j)) mod 4096" unfolding am by (simp only: mod_add_left_eq add.assoc)
    finally show ?thesis using dev \<open>j < unat l\<close> by (simp only: j low_bits unat_add_mod_page)
  qed
  then show ?thesis using new R L by (auto simp: pblInv_def)
qed

lemma pblSegs_inv:
  assumes "pblSegs sa (of_nat off) segs pa = (kIOReturnSuccess, pa')" and "segsAt dev off segs"
    and "pblInv sa dev vp off pa" and "length pa \<le> MLX_MAX_MR_SEGMENTS"
    and "\<forall>o' < off + segsLen segs. dev o' AND NOT 4095 = vp (vIdx sa o')"
  shows "\<exists>e \<le> off + segsLen segs. pblInv sa dev vp e pa' \<and> length pa' \<le> MLX_MAX_MR_SEGMENTS \<and>
    (length pa' < MLX_MAX_MR_SEGMENTS \<longrightarrow> e = off + segsLen segs)"
  using assms
proof (induction segs arbitrary: off pa)
  case Nil
  then show ?case by (auto simp: segsLen_def)
next
  case (Cons s segs)
  obtain a l where s: "s = (a, l)" by fastforce
  have sl: "segsLen (s # segs) = unat l + segsLen segs" by (simp add: segsLen_def s)
  show ?case
  proof (cases "MLX_MAX_MR_SEGMENTS \<le> length pa")
    case True
    then show ?thesis using Cons.prems s by (intro exI [of _ off]) auto
  next
    case False
    obtain ok pa1 where app: "mlxAppendMttPages a l (Some pa) MLX_MAX_MR_SEGMENTS = (ok, pa1)" by fastforce
    have r: "a AND 4095 = (sa + of_nat off) AND 4095" "ok"
      "pblSegs sa (of_nat off + l) segs (the pa1) = (kIOReturnSuccess, pa')"
      using Cons.prems(1) s False app by (auto simp: mtt_page_size split: if_splits)
    have "\<forall>j < unat l. dev (off + j) = a + of_nat j" "segsAt dev (off + unat l) segs"
      using Cons.prems(2) s by simp_all
    note st = pblInv_step [OF Cons.prems(3) r(1) this(1) _ app [unfolded eqTrueI [OF r(2)]] Cons.prems(4)]
    have st': "pblInv sa dev vp (off + unat l) (the pa1)" "length (the pa1) \<le> MLX_MAX_MR_SEGMENTS"
      using st Cons.prems(5) sl by simp_all
    have "of_nat off + l = of_nat (off + unat l)" by simp
    then show ?thesis
      using Cons.IH [of "off + unat l" "the pa1"] r(3) \<open>segsAt dev (off + unat l) segs\<close> st' Cons.prems(5) sl
      by (simp add: add.assoc)
  qed
qed

text \<open>
  What \<^verbatim>\<open>gen64IOVMSegments\<close> documents about a mapping of \<open>len\<close> bytes: a successful call
  from offset \<open>off\<close> describes at most eight consecutive segments and advances the offset
  past them, never past the end; the IOMMU maps whole pages, so all bytes of a virtual page
  lie in one device page.
\<close>

definition mapsTo :: "mrGen \<Rightarrow> u64 \<Rightarrow> u64 \<Rightarrow> (nat \<Rightarrow> u64) \<Rightarrow> (nat \<Rightarrow> u64) \<Rightarrow> bool" where
  "mapsTo gen sa len dev vp \<longleftrightarrow>
     (\<forall>k off. off < unat len \<longrightarrow>
        (case gen k (of_nat off) of (kr, segs, off') \<Rightarrow>
           kr = kIOReturnSuccess \<longrightarrow> length segs \<le> 8 \<and> segsAt dev off segs \<and>
             off + segsLen segs \<le> unat len \<and> off' = of_nat (off + segsLen segs))) \<and>
     (\<forall>o' < unat len. dev o' AND NOT 4095 = vp (vIdx sa o'))"

lemma mapsToD:
  "mapsTo gen sa len dev vp \<Longrightarrow> off < unat len \<Longrightarrow> gen k (of_nat off) = (kr, segs, off') \<Longrightarrow>
   kr = kIOReturnSuccess \<longrightarrow> length segs \<le> 8 \<and> segsAt dev off segs \<and>
     off + segsLen segs \<le> unat len \<and> off' = of_nat (off + segsLen segs)"
  unfolding mapsTo_def by (drule conjunct1, drule spec [of _ k], drule spec [of _ off]) simp

lemma pblLoop_inv:
  assumes "pblLoop gen memLen sa k off pa = Some (kr, off', pa')" and "mapsTo gen sa memLen dev vp"
    and "unat off \<le> unat memLen" and "pblInv sa dev vp (unat off) pa \<or> length pa = MLX_MAX_MR_SEGMENTS \<and>
      (\<exists>e \<le> unat off. pblInv sa dev vp e pa)" and "length pa \<le> MLX_MAX_MR_SEGMENTS" and "kr = kIOReturnSuccess"
  shows "unat off' \<le> unat memLen \<and> length pa' \<le> MLX_MAX_MR_SEGMENTS \<and> (\<exists>e \<le> unat off'. pblInv sa dev vp e pa' \<and>
    (length pa' < MLX_MAX_MR_SEGMENTS \<longrightarrow> e = unat off'))"
proof -
  let ?P = "\<lambda>g m s off pa. g = gen \<and> m = memLen \<and> s = sa \<and> unat off \<le> unat memLen \<and>
     length pa \<le> MLX_MAX_MR_SEGMENTS \<and>
     (\<exists>e \<le> unat off. pblInv sa dev vp e pa \<and> (length pa < MLX_MAX_MR_SEGMENTS \<longrightarrow> e = unat off))"
  let ?Q = "\<lambda>off' pa'. unat off' \<le> unat memLen \<and> length pa' \<le> MLX_MAX_MR_SEGMENTS \<and> (\<exists>e \<le> unat off'. pblInv sa dev vp e pa' \<and>
    (length pa' < MLX_MAX_MR_SEGMENTS \<longrightarrow> e = unat off'))"
  have "?P gen memLen sa off pa \<longrightarrow> fst (kr, off', pa') = kIOReturnSuccess \<longrightarrow> ?Q (fst (snd (kr, off', pa'))) (snd (snd (kr, off', pa')))"
  proof (rule pblLoop.raw_induct
      [where P = "\<lambda>g m s k off pa r. ?P g m s off pa \<longrightarrow> fst r = kIOReturnSuccess \<longrightarrow> ?Q (fst (snd r)) (snd (snd r))",
        OF _ assms(1)], goal_cases)
    case (1 loop g m s k off pa r)
    show ?case
    proof (intro impI)
      assume P: "?P g m s off pa" and ok: "fst r = kIOReturnSuccess"
      show "?Q (fst (snd r)) (snd (snd r))"
      proof (cases "off < m \<and> length pa < MLX_MAX_MR_SEGMENTS")
        case False
        then have "r = (kIOReturnSuccess, off, pa)" using 1(2) by auto
        then show ?thesis using P by auto
      next
        case True
        obtain k1 segs off1 where g: "g k off = (k1, segs, off1)" by (metis prod_cases3)
        have lt: "unat off < unat memLen" using True P by (simp add: word_less_nat_alt)
        have gen: "k1 = kIOReturnSuccess \<longrightarrow> length segs \<le> 8 \<and> segsAt dev (unat off) segs \<and>
             unat off + segsLen segs \<le> unat memLen \<and> off1 = of_nat (unat off + segsLen segs)"
          using mapsToD [OF assms(2) lt, of k k1 segs off1] g P by simp
        show ?thesis
        proof (cases "k1 \<noteq> kIOReturnSuccess \<or> segs = []")
          case fin: True
          then have r: "r = (k1, off1, pa)" using 1(2) True g by auto
          with ok fin have "segs = []" "k1 = kIOReturnSuccess" by auto
          then have "off1 = off" using gen by (simp add: segsLen_def)
          then show ?thesis using r P by auto
        next
          case go: False
          have gg: "take 8 segs = segs" "segsAt dev (unat off) segs" "unat off + segsLen segs \<le> unat memLen"
            "off1 = of_nat (unat off + segsLen segs)" using gen go by simp_all
          obtain k2 pa2 where ps: "pblSegs s off segs pa = (k2, pa2)" by fastforce
          have k2: "k2 = kIOReturnSuccess" and rec: "loop g m s (k + 1) off1 pa2 = Some r"
            using 1(2) True g go gg ps ok by (auto split: if_splits)
          have uo: "unat off1 = unat off + segsLen segs"
            unfolding gg(4) by (intro unat_of_nat_small le_less_trans [OF gg(3)] unsigned_less)
          have inv: "pblInv sa dev vp (unat off) pa" using P True by auto
          have "\<forall>o' < unat off + segsLen segs. dev o' AND NOT 4095 = vp (vIdx sa o')"
            using assms(2) gg(3) by (simp add: mapsTo_def)
          from pblSegs_inv [OF _ gg(2) inv _ this] ps k2 P
          have "\<exists>e \<le> unat off1. pblInv sa dev vp e pa2 \<and> length pa2 \<le> MLX_MAX_MR_SEGMENTS \<and>
              (length pa2 < MLX_MAX_MR_SEGMENTS \<longrightarrow> e = unat off1)"
            by (simp add: uo)
          then have "?P g m s off1 pa2" using P gg(3) uo by auto
          then show ?thesis using 1(1) [OF rec] ok by blast
        qed
      qed
    qed
  qed
  moreover have "?P gen memLen sa off pa" using assms by auto
  ultimately show ?thesis using assms(6) by simp
qed

lemma vCount_mono: "a \<le> b \<Longrightarrow> vCount sa a \<le> vCount sa b"
  by (auto simp: vCount_def vIdx_def div_le_mono)

lemma vCount_total:
  assumes "len \<noteq> 0" and "unat sa + unat len < 2 ^ 64"
  shows "unat (mlxMttPageCount sa len) = vCount sa (unat len)"
proof -
  have pos: "0 < unat len" using assms(1) by (simp add: unat_gt_0)
  have "\<not> len > - 1 - sa" using assms(2) by (simp add: word_room_iff)
  then have "unat (mlxMttPageCount sa len) = length (mttPages (unat sa) (unat len))"
    using assms by (intro unat_mlxMttPageCount) simp_all
  also have "\<dots> = vCount sa (unat len)"
  proof -
    define q r where "q = unat sa div 4096" and "r = unat sa mod 4096"
    have s: "unat sa = 4096 * q + r" by (simp add: q_def r_def)
    have "unat sa + unat len - 1 = r + (unat len - 1) + 4096 * q" using pos s by simp
    then have "(unat sa + unat len - 1) div 4096 = q + (r + (unat len - 1)) div 4096"
      by (simp only: div_mult_self2; simp)
    then show ?thesis using pos by (simp add: mttPages_def vCount_def vIdx_def q_def r_def)
  qed
  finally show ?thesis .
qed

text \<open>The table that \<open>buildPBL\<close> accepts.\<close>

lemma buildPBL_table:
  assumes "buildPBL env sa len st = Some (kIOReturnSuccess, pa, cmd, st')"
    and "unat sa + unat len < 2 ^ 64" and "mapsTo (meGen env) sa len dev vp"
  shows "length pa = vCount sa (unat len) \<and> length pa \<le> 480 \<and>
    (\<forall>o' < unat len. vIdx sa o' < length pa \<and> dev o' AND NOT 4095 = pa ! vIdx sa o' \<and>
       (length pa < 480 \<longrightarrow> dev o' = pa ! vIdx sa o' + ((sa + of_nat o') AND 4095)))"
proof -
  from assms(1) obtain pa' where l: "len \<noteq> 0" "len = meMemLen env"
    "pblLoop (meGen env) (meMemLen env) sa 0 0 [] = Some (kIOReturnSuccess, len, pa)"
    "of_nat (length pa) = mlxMttPageCount sa len"
    by (auto simp: buildPBL_def Let_def split: if_splits option.splits)
  have "pblInv sa dev vp (unat 0) []" by (simp add: pblInv_def vCount_def)
  then obtain e where e: "e \<le> unat len" "pblInv sa dev vp e pa"
    "length pa < MLX_MAX_MR_SEGMENTS \<longrightarrow> e = unat len" "length pa \<le> 480"
    using pblLoop_inv [OF l(3), of dev vp] assms(3) l(2) by (auto simp: MLX_MAX_MR_SEGMENTS_def)
  have P: "pa = remdups_adj (map vp [0..<vCount sa e])" using e(2) by (simp add: pblInv_def)
  have "unat (of_nat (length pa) :: u64) = length pa" using e(4) by (intro unat_of_nat_small) simp
  with l(4) vCount_total [OF l(1) assms(2)] have n: "length pa = vCount sa (unat len)" by simp
  have lp: "length pa \<le> vCount sa e"
    unfolding P using remdups_adj_length [of "map vp [0..<vCount sa e]"] by simp
  with n vCount_mono [OF e(1), of sa] have ve: "vCount sa e = length pa" by simp
  then have "length (remdups_adj (map vp [0..<vCount sa e])) = length (map vp [0..<vCount sa e])" using P by simp
  then have pa: "pa = map vp [0..<length pa]" using P ve remdups_adj_full by metis
  have idx: "vIdx sa o' < length pa" if "o' < unat len" for o'
    using that unfolding n vCount_def vIdx_def by (auto simp: less_Suc_eq_le div_le_mono)
  have page: "dev o' AND NOT 4095 = pa ! vIdx sa o'" if "o' < unat len" for o'
  proof -
    have "pa ! vIdx sa o' = vp (vIdx sa o')" using idx [OF that] by (subst pa) simp
    then show ?thesis using assms(3) that by (simp add: mapsTo_def)
  qed
  have "dev o' = pa ! vIdx sa o' + ((sa + of_nat o') AND 4095)" if "length pa < 480" "o' < unat len" for o'
  proof -
    have "dev o' AND 4095 = (sa + of_nat o') AND 4095"
      using e that by (simp add: MLX_MAX_MR_SEGMENTS_def pblInv_def)
    then show ?thesis using page [OF that(2)] page_split [of "dev o'" 4095] by simp
  qed
  then show ?thesis using n e(4) idx page by blast
qed

text \<open>C20: Registered memory is addressed exactly. When \<open>buildPBL\<close> accepts a region that does
  not wrap, under the documented behaviour of the mapping service, its table has one entry per
  4 KiB page the region touches, at most 480, and every byte of the region lies in the device
  page its table entry names; below the 480-page limit the offset in the page is checked too,
  so table entry plus page offset is the device address of every byte.\<close>

theorem buildPBL_translates:
  assumes "buildPBL env sa len st = Some (kIOReturnSuccess, pa, cmd, st')"
    and "unat sa + unat len < 2 ^ 64" and "mapsTo (meGen env) sa len dev vp"
  shows "length pa = vCount sa (unat len) \<and> length pa \<le> 480 \<and>
    (\<forall>o' < unat len. vIdx sa o' < length pa \<and> dev o' AND NOT 4095 = pa ! vIdx sa o' \<and>
       (length pa < 480 \<longrightarrow> dev o' = pa ! vIdx sa o' + ((sa + of_nat o') AND 4095)))"
  using assms by (rule buildPBL_table)

section \<open>Registration\<close>

definition mrHeld :: "MlxMR \<Rightarrow> nat set \<times> nat set" where
  "mrHeld st = (set (mrMems st), set (mrCmds st))"

definition mrFresh :: "MlxMR \<Rightarrow> bool" where
  "mrFresh st \<longleftrightarrow> (\<forall>x\<in>set (mrMems st) \<union> set (mrCmds st). x < mrNext st)"

lemma mrFresh_new:
  assumes "mrFresh st"
  shows "mrNext st \<notin> set (mrMems st) \<and> mrNext st \<notin> set (mrCmds st) \<and> Suc (mrNext st) \<notin> set (mrCmds st)"
proof -
  have "x < mrNext st" if "x \<in> set (mrMems st) \<union> set (mrCmds st)" for x
    using assms that unfolding mrFresh_def by blast
  from this [of "mrNext st"] this [of "Suc (mrNext st)"] show ?thesis by auto
qed

lemma buildPBL_objects:
  assumes "buildPBL env sa len st = Some (kr, pa, cmd, st1)" and "mrNext st \<notin> set (mrCmds st)"
  shows "if kr = kIOReturnSuccess
    then cmd = Some (mrNext st) \<and> st1 = st\<lparr>mrNext := Suc (mrNext st), mrCmds := mrNext st # mrCmds st\<rparr>
    else cmd = None \<and> fMrTable st1 = fMrTable st \<and> mrMems st1 = mrMems st \<and> mrCmds st1 = mrCmds st \<and>
      fMkeyVariant st1 = fMkeyVariant st"
  using assms by (auto simp: buildPBL_def Let_def split: if_splits option.splits)

lemma nextVariant_nonzero: "nextVariant v \<noteq> 0"
  by (auto simp: nextVariant_def add.assoc)

lemma cmdCreateMKey_spec:
  assumes "cmdCreateMKey xc m pa req st co = (kr, mkey, st', co')"
  shows "(\<exists>v. st' = st\<lparr>fMkeyVariant := v\<rparr>) \<and>
    (kr = kIOReturnSuccess \<longrightarrow> fMkeyVariant st' \<noteq> 0 \<and> ucast mkey = fMkeyVariant st')"
proof -
  have "\<exists>v. st = st\<lparr>fMkeyVariant := v\<rparr>" by (rule exI [of _ "fMkeyVariant st"]) simp
  then show ?thesis
    using assms nextVariant_nonzero mlxMkeyIndex_mlxComposeMkey(2)
    by (auto simp: cmdCreateMKey_def Let_def split: if_splits option.splits prod.splits)
qed

lemma mrRelease_fields [simp]: "fMrTable (mrRelease m c st) = fMrTable st"
  by (simp add: mrRelease_def split: option.split)

lemma deregMR_appended:
  assumes "deregMR xd h st co = (kIOReturnSuccess, st', co')"
    and "fMrTable st = t @ [ctx]" and "mrLookup h t = None" and h: "mr_mrHandle ctx = h"
    and "mr_fMemDesc ctx = Some mem"
  shows "st' = (mrRelease mem (mr_fDmaCommand ctx) st)\<lparr>fMrTable := t\<rparr>"
proof -
  have "mrLookup h (t @ [ctx]) = Some ctx"
    using mrt.lookup_inserted [of ctx t] assms(3) h by (simp add: tblInsert_def)
  moreover have "mrRemove h (t @ [ctx]) = t"
    using assms(3) tblRemove_fresh [of mr_mrHandle ctx t] h by (simp add: mrRemove_def mrLookup_def)
  ultimately show ?thesis
    using assms(1,2,5) by (auto simp: deregMR_def Let_def split: prod.splits if_splits)
qed

lemma regMR_spec:
  assumes fr: "mrFresh st" and run: "regMR xc env (Some q) st co = Some (kr, resp, st', co')"
    and fresh: "\<forall>r. resp = Some r \<longrightarrow> mrLookup (rmr_mrHandle r) (fMrTable st) = None"
  shows "if kr = kIOReturnSuccess
    then \<exists>r ctx. resp = Some r \<and> rmr_lkey r = rmr_mrHandle r \<and> rmr_rkey r = rmr_mrHandle r \<and>
      ucast (rmr_mrHandle r) \<noteq> (0 :: u8) \<and> fMrTable st' = fMrTable st @ [ctx] \<and>
      mr_mrHandle ctx = rmr_mrHandle r \<and> mr_startAddr ctx = rm_startAddr q \<and> mr_length ctx = rm_length q \<and>
      mr_pd ctx = rm_pd q \<and> mr_accessFlags ctx = rm_accessFlags q \<and>
      (\<forall>xd st2 co2. deregMR xd (rmr_mrHandle r) st' co' = (kIOReturnSuccess, st2, co2) \<longrightarrow>
         fMrTable st2 = fMrTable st \<and> mrHeld st2 = mrHeld st)
    else resp = None \<and> fMrTable st' = fMrTable st \<and>
      (mrHeld st' = mrHeld st \<or> kr = kIOReturnNoMemory \<and>
         (\<exists>mkey dk co1. cmdDestroyMKey xc mkey co1 = (dk, co') \<and> dk \<noteq> kIOReturnSuccess))"
proof (cases "regMrArgsOk q \<and> meMem env \<and> mePaList env")
  case False
  then have "kr \<noteq> kIOReturnSuccess \<and> resp = None \<and> fMrTable st' = fMrTable st \<and> mrHeld st' = mrHeld st"
    using run mrFresh_new [OF fr] by (auto simp: regMR_def Let_def mrRelease_def mrHeld_def split: if_splits)
  then show ?thesis by simp
next
  case True
  let ?m = "mrNext st"
  let ?st = "st\<lparr>mrNext := mrNext st + 1, mrMems := mrNext st # mrMems st\<rparr>"
  note new = mrFresh_new [OF fr]
  note run1 = run [unfolded regMR_def option.case Let_def, simplified True not_True_eq_False if_False]
  obtain k1 pa cmd st1 where b: "buildPBL env (rm_startAddr q) (rm_length q) ?st = Some (k1, pa, cmd, st1)"
    using run1 by (auto split: option.splits)
  note ob = buildPBL_objects [OF b]
  note run2 = run1 [unfolded b option.case prod.case]
  show ?thesis
  proof (cases "k1 = kIOReturnSuccess")
    case False
    then show ?thesis using run2 ob new by (auto simp: mrRelease_def mrHeld_def)
  next
    case k1: True
    then have st1: "cmd = Some (Suc ?m)"
      "st1 = ?st\<lparr>mrNext := Suc (Suc ?m), mrCmds := Suc ?m # mrCmds st\<rparr>" using ob new by auto
    obtain k2 mkey st2 co2 where c: "cmdCreateMKey xc (meIn env) pa q st1 co = (k2, mkey, st2, co2)"
      by (metis prod_cases4)
    note cs = cmdCreateMKey_spec [OF c]
    note run3 = run2 [simplified k1, simplified, unfolded c prod.case]
    obtain v where v: "st2 = st1\<lparr>fMkeyVariant := v\<rparr>" using cs by blast
    have rel: "mrHeld (mrRelease ?m cmd st2) = mrHeld st" "fMrTable (mrRelease ?m cmd st2) = fMrTable st"
      using new by (simp_all add: st1 v mrRelease_def mrHeld_def)
    show ?thesis
    proof (cases "k2 = kIOReturnSuccess")
      case False
      then show ?thesis using run3 rel by auto
    next
      case k2: True
      note run4 = run3 [simplified k2, simplified]
      show ?thesis
      proof (cases "meCtx env \<and> meRecord env \<and> meAdded env")
        case False
        obtain dk co3 where d: "cmdDestroyMKey xc mkey co2 = (dk, co3)" by fastforce
        have r: "kr = kIOReturnNoMemory" "resp = None" "co' = co3"
          "st' = (if dk = kIOReturnSuccess then mrRelease ?m cmd st2 else st2)"
          using run4 False d by (auto split: if_splits)
        show ?thesis using r rel d by (auto simp: v st1)
      next
        case True
        let ?ctx = "mrContext q mkey ?m cmd"
        have r: "kr = kIOReturnSuccess" "resp = Some \<lparr>rmr_mrHandle = mkey, rmr_lkey = mkey, rmr_rkey = mkey\<rparr>"
          "st' = st2\<lparr>fMrTable := fMrTable st @ [?ctx]\<rparr>"
          using run4 True by (auto simp: tblInsert_def v st1)
        have "fMrTable s2 = fMrTable st \<and> mrHeld s2 = mrHeld st"
          if "deregMR xd mkey st' co' = (kIOReturnSuccess, s2, c2)" for xd s2 c2
        proof -
          have "s2 = (mrRelease ?m cmd st')\<lparr>fMrTable := fMrTable st\<rparr>"
            using deregMR_appended [OF that, of "fMrTable st" ?ctx ?m] fresh r by (simp add: mrContext_def)
          moreover have "mrHeld ((mrRelease ?m cmd st')\<lparr>fMrTable := fMrTable st\<rparr>) = mrHeld (mrRelease ?m cmd st2)"
            by (simp add: r mrHeld_def mrRelease_def st1)
          ultimately show ?thesis using rel by simp
        qed
        then show ?thesis using r cs k2 by (auto simp: mrContext_def)
      qed
    qed
  qed
qed

text \<open>C21: Registering memory is all or nothing, for every outcome the driver knows. On success the handle, the local and the remote
  key are one value whose key byte is never 0, the table gains one record that carries the
  caller's range, protection domain and access, and deregistering the handle gives memory and
  mapping back; on failure nothing is recorded and, when CREATE_MKEY did not time out, nothing
  stays pinned, unless the key exists and cannot be destroyed, where the memory stays pinned.
  The timed-out CREATE_MKEY is \<open>regMR_timeout_releases\<close>.\<close>

theorem regMR_all_or_nothing:
  assumes "mrFresh st" and "regMR xc env (Some q) st co = Some (kr, resp, st', co')"
    and "\<forall>r. resp = Some r \<longrightarrow> mrLookup (rmr_mrHandle r) (fMrTable st) = None"
  shows "if kr = kIOReturnSuccess
    then \<exists>r ctx. resp = Some r \<and> rmr_lkey r = rmr_mrHandle r \<and> rmr_rkey r = rmr_mrHandle r \<and>
      ucast (rmr_mrHandle r) \<noteq> (0 :: u8) \<and> fMrTable st' = fMrTable st @ [ctx] \<and>
      mr_mrHandle ctx = rmr_mrHandle r \<and> mr_startAddr ctx = rm_startAddr q \<and> mr_length ctx = rm_length q \<and>
      mr_pd ctx = rm_pd q \<and> mr_accessFlags ctx = rm_accessFlags q \<and>
      (\<forall>xd st2 co2. deregMR xd (rmr_mrHandle r) st' co' = (kIOReturnSuccess, st2, co2) \<longrightarrow>
         fMrTable st2 = fMrTable st \<and> mrHeld st2 = mrHeld st)
    else resp = None \<and> fMrTable st' = fMrTable st \<and>
      (kr \<noteq> kIOReturnTimeout \<longrightarrow> mrHeld st' = mrHeld st \<or> kr = kIOReturnNoMemory \<and>
         (\<exists>mkey dk co1. cmdDestroyMKey xc mkey co1 = (dk, co') \<and> dk \<noteq> kIOReturnSuccess))"
  using regMR_spec [OF assms] by (simp split: if_splits)

text \<open>
  The deviation from the rule that DMA memory is kept until the firmware object is known to be
  gone (\<^verbatim>\<open>REMEDIATION_PLAN.md\<close>, sections 3 and 14): a CREATE_MKEY that times out unpins the
  memory the firmware may yet give a key to.
\<close>

lemma regMR_timeout_releases:
  assumes "mrFresh st" and "regMR xc env (Some q) st co = Some (kIOReturnTimeout, resp, st', co')"
    and "\<forall>r. resp = Some r \<longrightarrow> mrLookup (rmr_mrHandle r) (fMrTable st) = None"
  shows "mrHeld st' = mrHeld st"
  using regMR_spec [OF assms] by simp


definition sampleMrEnv :: MrEnv where
  "sampleMrEnv = \<lparr>meMem = True, meMemLen = 0x1800, mePaList = True, meCmd = True, meSet = kIOReturnSuccess,
     meGen = (\<lambda>k off. if off = 0 then (kIOReturnSuccess, [(0x40800, 0x800), (0x90000, 0x1000)], 0x1800)
        else (kIOReturnSuccess, [], off)),
     meIn = True, meCtx = True, meRecord = True, meAdded = True\<rparr>"

definition sampleMrReq :: mlx_reg_mr_req where
  "sampleMrReq = \<lparr>rm_startAddr = 0x7800, rm_length = 0x1800, rm_pd = 3, rm_accessFlags = 1\<rparr>"

lemma sampleMr_build:
  "buildPBL sampleMrEnv 0x7800 0x1800 st =
     Some (kIOReturnSuccess, [0x40000, 0x90000], Some (mrNext st), st\<lparr>mrNext := Suc (mrNext st), mrCmds := mrNext st # mrCmds st\<rparr>)"
proof -
  have a1: "mlxAppendMttPages 0x40800 0x800 (Some []) MLX_MAX_MR_SEGMENTS = (True, Some [0x40000])"
    by (simp add: mlxAppendMttPages_def MLX_MAX_MR_SEGMENTS_def appendMttLoop.simps mtt_page_size Let_def)
  have a2: "mlxAppendMttPages 0x90000 0x1000 (Some [0x40000]) MLX_MAX_MR_SEGMENTS = (True, Some [0x40000, 0x90000])"
    by (simp add: mlxAppendMttPages_def MLX_MAX_MR_SEGMENTS_def appendMttLoop.simps mtt_page_size Let_def)
  have "pblSegs 0x7800 0 [(0x40800, 0x800), (0x90000, 0x1000)] [] = (kIOReturnSuccess, [0x40000, 0x90000])"
    using a1 a2 by (simp add: mtt_page_size MLX_MAX_MR_SEGMENTS_def)
  then have "pblLoop (meGen sampleMrEnv) 0x1800 0x7800 0 0 [] = Some (kIOReturnSuccess, 0x1800, [0x40000, 0x90000])"
    by (subst pblLoop.simps, subst pblLoop.simps) (simp add: sampleMrEnv_def MLX_MAX_MR_SEGMENTS_def)
  moreover have "mlxMttPageCount 0x7800 0x1800 = 2"
    by (simp add: mlxMttPageCount_def MLX_MTT_PAGE_SIZE_def MLX_MTT_PAGE_SHIFT_def Let_def)
  moreover have "meCmd sampleMrEnv" "meMemLen sampleMrEnv = 0x1800" "meSet sampleMrEnv = kIOReturnSuccess"
    by (simp_all add: sampleMrEnv_def)
  ultimately show ?thesis by (simp add: buildPBL_def Let_def)
qed

definition sampleDev :: "nat \<Rightarrow> u64" where
  "sampleDev o' = (if o' < 0x800 then 0x40800 + of_nat o' else 0x90000 + of_nat (o' - 0x800))"

lemma sampleDev_page:
  assumes "o' < 0x1800"
  shows "sampleDev o' AND NOT 4095 = [0x40000, 0x90000] ! vIdx 0x7800 o'"
proof -
  have p: "a AND NOT 4095 = of_nat (4096 * (unat a div 4096))" for a :: u64
    using page_of [of a] by (simp add: mtt_page_size)
  show ?thesis
  proof (cases "o' < 0x800")
    case True
    have "unat (0x40800 + of_nat o' :: u64) = 0x40800 + o'"
      using True by (simp add: unat_word_ariths(1) unsigned_of_nat take_bit_nat_eq_self)
    moreover have "(0x40800 + o') div 4096 = 64" "vIdx 0x7800 o' = 0" using True by (simp_all add: vIdx_def)
    ultimately show ?thesis using True by (simp only: p sampleDev_def if_True) simp
  next
    case False
    have "unat (0x90000 + of_nat (o' - 0x800) :: u64) = 0x90000 + (o' - 0x800)"
      using assms by (simp add: unat_word_ariths(1) unsigned_of_nat take_bit_nat_eq_self)
    moreover have "(0x90000 + (o' - 0x800)) div 4096 = 144" "vIdx 0x7800 o' = 1"
      using False assms by (simp_all add: vIdx_def)
    ultimately show ?thesis using False by (simp only: p sampleDev_def if_False) simp
  qed
qed

lemma sampleMr_maps: "mapsTo (meGen sampleMrEnv) 0x7800 0x1800 sampleDev (\<lambda>k. [0x40000, 0x90000] ! k)"
proof -
  have "(of_nat off = (0 :: u64)) = (off = 0)" if "off < 0x1800" for off
    using that by (simp add: word_unat_eq_iff unsigned_of_nat take_bit_nat_eq_self)
  then show ?thesis
    using sampleDev_page by (auto simp: mapsTo_def sampleMrEnv_def segsLen_def sampleDev_def)
qed

theorem buildPBL_translates_witness:
  "(\<exists>st. buildPBL sampleMrEnv 0x7800 0x1800 mrInit = Some (kIOReturnSuccess, [0x40000, 0x90000], Some 0, st)) \<and>
    sampleDev 0x900 = [0x40000, 0x90000] ! vIdx 0x7800 0x900 + ((0x7800 + of_nat 0x900) AND 4095)"
proof -
  have b: "buildPBL sampleMrEnv 0x7800 0x1800 mrInit = Some (kIOReturnSuccess, [0x40000, 0x90000], Some 0,
      mrInit\<lparr>mrNext := Suc 0, mrCmds := [0]\<rparr>)"
    using sampleMr_build [of mrInit] by (simp add: mrInit_def)
  from buildPBL_translates [OF b _ sampleMr_maps]
  have "\<forall>o' < unat (0x1800 :: u64). sampleDev o' = [0x40000, 0x90000] ! vIdx 0x7800 o' + ((0x7800 + of_nat o') AND 4095)"
    by simp
  moreover have "(0x900 :: nat) < unat (0x1800 :: u64)" by simp
  ultimately have "sampleDev 0x900 = [0x40000, 0x90000] ! vIdx 0x7800 0x900 + ((0x7800 + of_nat 0x900) AND 4095)"
    by blast
  with b show ?thesis by blast
qed

lemma sampleMr_run:
  "\<exists>r st co. regMR sampleXc sampleMrEnv (Some sampleMrReq) mrInit sampleCo = Some (kIOReturnSuccess, Some r, st, co)"
proof -
  have args: "regMrArgsOk sampleMrReq"
    by (simp add: regMrArgsOk_def sampleMrReq_def MLX_MR_ACCESS_SUPPORTED_def)
  have "\<exists>b n. mlxEncodeCreateMkey (Some inb) MLX_CMD_MAX_SIZE (Some [0x40000, 0x90000]) 2 0x7800 0x1800 1 3 1 = Some (b, n)" for inb
    by (simp add: mlxEncodeCreateMkey_def p0_const_defs MLX_MR_ACCESS_SUPPORTED_def Let_def
        mlxMttPageCount_def mlxCreateMkeyInputSize_def mlxMttOctwordCount_def MLX_CMD_MAX_SIZE_def
        MLX_CMD_MAX_BLOCKS_def MLX_CMD_DATA_BLOCK_SIZE_def)
  then have "\<exists>k s. cmdCreateMKey sampleXc True [0x40000, 0x90000] sampleMrReq st sampleCo = (kIOReturnSuccess, k, s, sampleCo)"
    if "fMkeyVariant st = 0" for st
    using that by (simp add: cmdCreateMKey_def Let_def sampleMrReq_def nextVariant_def split: option.split)
  from this [of "mrInit\<lparr>mrNext := 2, mrMems := [0], mrCmds := [1]\<rparr>"] obtain k s where
    c: "cmdCreateMKey sampleXc True [0x40000, 0x90000] sampleMrReq (mrInit\<lparr>mrNext := 2, mrMems := [0], mrCmds := [1]\<rparr>) sampleCo =
      (kIOReturnSuccess, k, s, sampleCo)" by (auto simp: mrInit_def)
  have e: "meMem sampleMrEnv" "mePaList sampleMrEnv" "meIn sampleMrEnv" "meCtx sampleMrEnv" "meRecord sampleMrEnv"
    "meAdded sampleMrEnv" "rm_startAddr sampleMrReq = 0x7800" "rm_length sampleMrReq = 0x1800"
    by (simp_all add: sampleMrEnv_def sampleMrReq_def)
  show ?thesis using c sampleMr_build args by (simp add: regMR_def Let_def e mrInit_def numeral_2_eq_2)
qed

theorem regMR_all_or_nothing_witness:
  "\<exists>r ctx st co. regMR sampleXc sampleMrEnv (Some sampleMrReq) mrInit sampleCo = Some (kIOReturnSuccess, Some r, st, co) \<and>
    fMrTable st = [ctx] \<and> mr_startAddr ctx = 0x7800 \<and> ucast (rmr_mrHandle r) \<noteq> (0 :: u8)"
proof -
  obtain r st co where run: "regMR sampleXc sampleMrEnv (Some sampleMrReq) mrInit sampleCo = Some (kIOReturnSuccess, Some r, st, co)"
    using sampleMr_run by blast
  have "mrFresh mrInit" by (simp add: mrFresh_def mrInit_def)
  from regMR_all_or_nothing [OF this run] run show ?thesis
    by (auto simp: mrInit_def mrLookup_def tblLookup_def sampleMrReq_def)
qed

end
