(* ===== verification/MlxHCA.thy ===== *)
theory MlxHCA
  imports MlxCore
begin

text \<open>
  \<^verbatim>\<open>Sources/hw/MlxHCA.hpp\<close> and the four model files: the capability summary, the adapter
  object, and the factory that picks the model of a PCI device id. \<^verbatim>\<open>new\<close> does not fail.
\<close>

unbundle bit_operations_syntax

section \<open>Data\<close>

definition MLX_PORT_TYPE_IB :: u8 where "MLX_PORT_TYPE_IB = 0"
definition MLX_PORT_TYPE_ETH :: u8 where "MLX_PORT_TYPE_ETH = 1"
definition MLX_LINK_LAYER_UNSPECIFIED :: u8 where "MLX_LINK_LAYER_UNSPECIFIED = 0"
definition MLX_LINK_LAYER_INFINIBAND :: u8 where "MLX_LINK_LAYER_INFINIBAND = 1"
definition MLX_LINK_LAYER_ETHERNET :: u8 where "MLX_LINK_LAYER_ETHERNET = 2"

record MlxHcaCaps =
  hc_fwRev :: u32
  hc_cmdifRev :: u16
  hc_portType :: u8
  hc_numPorts :: u32
  hc_maxQp :: u32
  hc_maxCq :: u32
  hc_maxMr :: u32
  hc_roce :: bool
  hc_roceRwSupported :: bool
  hc_roceVersions :: u8
  hc_roceMaxGid :: u16
  hc_roceDstUdpPort :: u16
  hc_roceMinSrcUdpPort :: u16
  hc_roceCcCaps :: bool
  hc_dcqcnEnabled :: bool
  hc_uar4k :: bool
  hc_logUarPageSize :: u16
  hc_logBfRegSize :: u8
  hc_swRoceSrcUdpPort :: bool
  hc_nicFlowTable :: bool
  hc_ethNetOffloads :: bool
  hc_ibMaxLids :: u16
  hc_ibMaxPkeys :: u16
  hc_ibSupported :: bool

definition isEthernet :: "MlxHcaCaps \<Rightarrow> bool" where "isEthernet c = (hc_portType c = MLX_PORT_TYPE_ETH)"
definition isIB :: "MlxHcaCaps \<Rightarrow> bool" where "isIB c = (hc_portType c = MLX_PORT_TYPE_IB)"

definition linkLayer :: "MlxHcaCaps \<Rightarrow> u8" where
  "linkLayer c = (if isEthernet c then MLX_LINK_LAYER_ETHERNET
     else if isIB c then MLX_LINK_LAYER_INFINIBAND else MLX_LINK_LAYER_UNSPECIFIED)"

record MlxVendorInfo =
  vi_vendorId :: u16
  vi_deviceId :: u16
  vi_revision :: u32

datatype hcaModel = ConnectX4 | ConnectX5 | ConnectX6 | ConnectX7

text \<open>The adapter object: its class, whether a core is attached, and the two tables.\<close>

record MlxHCA =
  hcaClass :: hcaModel
  hcaCore :: bool
  hcaCaps :: MlxHcaCaps
  hcaVendor :: MlxVendorInfo

definition zeroCaps :: MlxHcaCaps where
  "zeroCaps = \<lparr>hc_fwRev = 0, hc_cmdifRev = 0, hc_portType = 0, hc_numPorts = 0, hc_maxQp = 0,
     hc_maxCq = 0, hc_maxMr = 0, hc_roce = False, hc_roceRwSupported = False, hc_roceVersions = 0,
     hc_roceMaxGid = 0, hc_roceDstUdpPort = 0, hc_roceMinSrcUdpPort = 0, hc_roceCcCaps = False,
     hc_dcqcnEnabled = False, hc_uar4k = False, hc_logUarPageSize = 0, hc_logBfRegSize = 0,
     hc_swRoceSrcUdpPort = False, hc_nicFlowTable = False, hc_ethNetOffloads = False,
     hc_ibMaxLids = 0, hc_ibMaxPkeys = 0, hc_ibSupported = False\<rparr>"

definition newHCA :: "hcaModel \<Rightarrow> MlxHCA" where
  "newHCA m = \<lparr>hcaClass = m, hcaCore = False, hcaCaps = zeroCaps,
     hcaVendor = \<lparr>vi_vendorId = 0, vi_deviceId = 0, vi_revision = 0\<rparr>\<rparr>"

section \<open>The factory\<close>

definition createCx4 :: "u16 \<Rightarrow> MlxHCA option" where
  "createCx4 deviceId = (if deviceId \<in> {0x1013, 0x1014, 0x1015, 0x1016} then Some (newHCA ConnectX4) else None)"

definition createCx5 :: "u16 \<Rightarrow> MlxHCA option" where
  "createCx5 deviceId = (if deviceId \<in> {0x1017, 0x1018, 0x1019, 0x101A} then Some (newHCA ConnectX5) else None)"

definition createCx6 :: "u16 \<Rightarrow> MlxHCA option" where
  "createCx6 deviceId =
     (if deviceId \<in> {0x101B, 0x101C, 0x101D, 0x101E, 0x101F} then Some (newHCA ConnectX6) else None)"

definition createCx7 :: "u16 \<Rightarrow> MlxHCA option" where
  "createCx7 deviceId =
     (if deviceId \<in> {0x1021, 0x1022, 0x1023, 0xa2dc, 0xa2df} then Some (newHCA ConnectX7) else None)"

definition hcaCreate :: "u16 \<Rightarrow> MlxHCA option" where
  "hcaCreate deviceId =
     (case createCx4 deviceId of
        Some hca \<Rightarrow> Some hca
      | None \<Rightarrow>
          (case createCx5 deviceId of
             Some hca \<Rightarrow> Some hca
           | None \<Rightarrow>
               (case createCx6 deviceId of
                  Some hca \<Rightarrow> Some hca
                | None \<Rightarrow> (case createCx7 deviceId of Some hca \<Rightarrow> Some hca | None \<Rightarrow> None))))"

definition attachCore :: "MlxHCA \<Rightarrow> MlxHCA" where
  "attachCore h = h\<lparr>hcaCore := True\<rparr>"

definition hcaExec :: "'w execFn \<Rightarrow> u32 \<Rightarrow> buffer \<Rightarrow> nat \<Rightarrow> nat \<Rightarrow> 'w mlxCore \<Rightarrow> ioreturn \<times> buffer \<times> 'w mlxCore" where
  "hcaExec xc opcode inb outSize timeoutMs co =
     (case xc (coCmd co) opcode inb outSize timeoutMs of (kr, out, w) \<Rightarrow> (kr, out, co\<lparr>coCmd := w\<rparr>))"

section \<open>Register access\<close>

text \<open>Big-endian 32-bit accesses to the mapped BAR, whose bytes are \<open>bar\<close>.\<close>

definition readReg :: "buffer \<Rightarrow> nat \<Rightarrow> u32" where
  "readReg bar off =
     (push_bit 24 (ucast (bar ! off)) OR push_bit 16 (ucast (bar ! (off + 1)))) OR
     (push_bit 8 (ucast (bar ! (off + 2))) OR ucast (bar ! (off + 3)))"

definition writeReg :: "buffer \<Rightarrow> nat \<Rightarrow> u32 \<Rightarrow> buffer" where
  "writeReg bar off v = OSWriteBigInt32 bar off (ucast v)"

section \<open>Lemmas\<close>

text \<open>
  The model tables are disjoint, so the order in which the factory asks them is irrelevant: a
  model is returned exactly when its own table holds the device id.
\<close>

lemma hca_disjoint:
  fixes d :: u16
  shows "d \<in> {0x1013, 0x1014, 0x1015, 0x1016} \<Longrightarrow>
      d \<notin> {0x1017, 0x1018, 0x1019, 0x101A} \<and> d \<notin> {0x101B, 0x101C, 0x101D, 0x101E, 0x101F} \<and>
      d \<notin> {0x1021, 0x1022, 0x1023, 0xa2dc, 0xa2df}"
    and "d \<in> {0x1017, 0x1018, 0x1019, 0x101A} \<Longrightarrow>
      d \<notin> {0x101B, 0x101C, 0x101D, 0x101E, 0x101F} \<and> d \<notin> {0x1021, 0x1022, 0x1023, 0xa2dc, 0xa2df}"
    and "d \<in> {0x101B, 0x101C, 0x101D, 0x101E, 0x101F} \<Longrightarrow> d \<notin> {0x1021, 0x1022, 0x1023, 0xa2dc, 0xa2df}"
  by (elim insertE emptyE; simp)+

lemma hcaCreate_model:
  "(hcaCreate d = Some h) = (createCx4 d = Some h \<or> createCx5 d = Some h \<or> createCx6 d = Some h \<or> createCx7 d = Some h)"
proof -
  have n: "createCx4 d = None" if "d \<notin> {0x1013, 0x1014, 0x1015, 0x1016}"
    using that by (simp only: createCx4_def if_False)
  have n5: "createCx5 d = None" if "d \<notin> {0x1017, 0x1018, 0x1019, 0x101A}"
    using that by (simp only: createCx5_def if_False)
  have n6: "createCx6 d = None" if "d \<notin> {0x101B, 0x101C, 0x101D, 0x101E, 0x101F}"
    using that by (simp only: createCx6_def if_False)
  have n7: "createCx7 d = None" if "d \<notin> {0x1021, 0x1022, 0x1023, 0xa2dc, 0xa2df}"
    using that by (simp only: createCx7_def if_False)
  show ?thesis
  proof (cases "d \<in> {0x1013, 0x1014, 0x1015, 0x1016}")
    case True
    note o' = hca_disjoint(1) [OF this]
    show ?thesis using n5 n6 n7 o' by (simp only: hcaCreate_def) (cases "createCx4 d"; simp)
  next
    case d4: False
    show ?thesis
    proof (cases "d \<in> {0x1017, 0x1018, 0x1019, 0x101A}")
      case True
      note o' = hca_disjoint(2) [OF this]
      show ?thesis using n [OF d4] n6 n7 o' by (simp only: hcaCreate_def) (cases "createCx5 d"; simp)
    next
      case d5: False
      show ?thesis
      proof (cases "d \<in> {0x101B, 0x101C, 0x101D, 0x101E, 0x101F}")
        case True
        note o' = hca_disjoint(3) [OF this]
        show ?thesis using n [OF d4] n5 [OF d5] n7 o' by (simp only: hcaCreate_def) (cases "createCx6 d"; simp)
      next
        case False
        show ?thesis using n [OF d4] n5 [OF d5] n6 [OF False] by (simp only: hcaCreate_def) (cases "createCx7 d"; simp)
      qed
    qed
  qed
qed

lemma readReg_writeReg:
  assumes "off + 4 \<le> length bar"
  shows "readReg (writeReg bar off v) off = v"
proof -
  have b: "writeReg bar off v ! (off + k) = ucast (drop_bit (8 * (3 - k)) (ucast v :: u64))" if "k < 4" for k
    using assms that by (simp add: writeReg_def OSWriteBigInt32_def nth_osWriteBig)
  have u: "(ucast (ucast (drop_bit n (ucast v :: u64)) :: u8) :: u32) = take_bit 8 (drop_bit n v)" for n
    by (rule bit_word_eqI) (auto simp: bit_ucast_iff bit_take_bit_iff bit_drop_bit_eq dest: bit_imp_le_length)
  have r: "readReg (writeReg bar off v) off =
      (push_bit 24 (take_bit 8 (drop_bit 24 v)) OR push_bit 16 (take_bit 8 (drop_bit 16 v))) OR
      (push_bit 8 (take_bit 8 (drop_bit 8 v)) OR take_bit 8 (drop_bit 0 v))"
    unfolding readReg_def u [symmetric] using b [of 0] b [of 1] b [of 2] b [of 3] by (simp only: add_0_right) simp
  show ?thesis unfolding r
  proof (rule bit_word_eqI)
    fix n
    assume "n < LENGTH(32)"
    then consider "n < 8" | "8 \<le> n \<and> n < 16" | "16 \<le> n \<and> n < 24" | "24 \<le> n \<and> n < 32" by fastforce
    then show "bit ((push_bit 24 (take_bit 8 (drop_bit 24 v)) OR push_bit 16 (take_bit 8 (drop_bit 16 v))) OR
        (push_bit 8 (take_bit 8 (drop_bit 8 v)) OR take_bit 8 (drop_bit 0 v))) n = bit v n"
      by cases (simp_all add: bit_or_iff bit_push_bit_iff bit_take_bit_iff bit_drop_bit_eq less_diff_conv2)
  qed
qed

end
