(* ===== verification/MlxAH.thy ===== *)
theory MlxAH
  imports MlxTables
begin

text \<open>
  \<^verbatim>\<open>Sources/ib/MlxAH.{hpp,cpp}\<close>: address handles, with the hardware address vector
  (\<^verbatim>\<open>MlxWQE.hpp\<close>) as a record whose multi-byte fields hold host-order values; the source
  stores them big-endian.
\<close>

unbundle bit_operations_syntax

section \<open>Data\<close>

definition MLX_AV_GRH_PRESENT :: u32 where "MLX_AV_GRH_PRESENT = push_bit 30 1"
definition MLX_AV_SGID_INDEX_SHIFT :: nat where "MLX_AV_SGID_INDEX_SHIFT = 20"
definition MLX_AV_ECN_ENABLED :: u8 where "MLX_AV_ECN_ENABLED = push_bit 1 1"
definition MLX_ROCE_V2_UDP_DPORT :: u16 where "MLX_ROCE_V2_UDP_DPORT = 4791"

record MlxAV =
  av_key :: u64
  av_dqp_dct :: u32
  av_stat_rate_sl :: u8
  av_fl_mlid :: u8
  av_rlid_udp_sport :: u16      \<comment> \<open>the union of \<open>rlid\<close> and \<open>udp_sport\<close>\<close>
  av_rmac :: buffer
  av_tclass :: u8
  av_hop_limit :: u8
  av_grh_gid_fl :: u32
  av_rgid :: buffer

record mlx_create_ah_req =
  ca_dmac :: buffer
  ca_dgid :: buffer
  ca_sgidIndex :: u32
  ca_hopLimit :: u8
  ca_trafficClass :: u8
  ca_udpSport :: u16
  ca_portNum :: u32
  ca_ahType :: u32
  ca_dlid :: u16
  ca_pathBits :: u8
  ca_sl :: u8

record MlxAHContext =
  ah_ahHandle :: u32
  ah_portNum :: u32
  ah_av :: MlxAV
  ah_isRoCE :: bool

record MlxAH =
  fAhTable :: "MlxAHContext list"
  fNextHandle :: u32

definition ahInit :: MlxAH where
  "ahInit = \<lparr>fAhTable = [], fNextHandle = 1\<rparr>"

definition zeroAV :: MlxAV where
  "zeroAV = \<lparr>av_key = 0, av_dqp_dct = 0, av_stat_rate_sl = 0, av_fl_mlid = 0, av_rlid_udp_sport = 0,
     av_rmac = replicate 6 0, av_tclass = 0, av_hop_limit = 0, av_grh_gid_fl = 0,
     av_rgid = replicate 16 0\<rparr>"

section \<open>The address vector\<close>

definition avGrh :: "mlx_create_ah_req \<Rightarrow> MlxAV \<Rightarrow> MlxAV" where
  "avGrh req av =
     (if ca_ahType req = 0 \<or> ca_dgid req ! 0 \<noteq> 0 \<or> ca_dgid req ! 1 \<noteq> 0
      then av\<lparr>av_rgid := ca_dgid req,
              av_grh_gid_fl := MLX_AV_GRH_PRESENT OR push_bit MLX_AV_SGID_INDEX_SHIFT (ca_sgidIndex req),
              av_hop_limit := (if ca_hopLimit req \<noteq> 0 then ca_hopLimit req else 64),
              av_tclass := ca_trafficClass req\<rparr>
      else av)"

definition encodeAV :: "mlx_create_ah_req \<Rightarrow> MlxAV" where
  "encodeAV req =
     (let av = (avGrh req zeroAV)\<lparr>av_stat_rate_sl := 0\<rparr>
      in if ca_ahType req = 1
         then av\<lparr>av_rlid_udp_sport := ca_dlid req, av_fl_mlid := ca_pathBits req AND 0x7f,
                 av_stat_rate_sl := av_stat_rate_sl av OR (ca_sl req AND 0xf)\<rparr>
         else av\<lparr>av_hop_limit := (if ca_hopLimit req \<noteq> 0 then ca_hopLimit req else 64),
                 av_tclass := ca_trafficClass req OR MLX_AV_ECN_ENABLED,
                 av_rmac := ca_dmac req,
                 av_rlid_udp_sport := (if ca_udpSport req \<noteq> 0 then ca_udpSport req else MLX_ROCE_V2_UDP_DPORT),
                 av_stat_rate_sl := av_stat_rate_sl av OR push_bit 1 (0 AND 0x7)\<rparr>)"

section \<open>The table\<close>

definition ahLookup :: "u32 \<Rightarrow> MlxAHContext list \<Rightarrow> MlxAHContext option" where
  "ahLookup h t = tblLookup ah_ahHandle h t"

definition ahRemove :: "u32 \<Rightarrow> MlxAHContext list \<Rightarrow> MlxAHContext list" where
  "ahRemove h t = tblRemove ah_ahHandle h t"

definition ahUnique :: "MlxAHContext list \<Rightarrow> bool" where
  "ahUnique t = uniqueKeys ah_ahHandle t"

interpretation aht: handle_table ahLookup tblInsert ahRemove ah_ahHandle ahUnique
  unfolding ahLookup_def ahRemove_def ahUnique_def by (rule table_laws)

text \<open>\<open>alloc\<close> answers \<^verbatim>\<open>IOMallocZero\<close>, \<open>added\<close> the record and its insertion.\<close>

definition createAH ::
  "bool \<Rightarrow> bool \<Rightarrow> mlx_create_ah_req option \<Rightarrow> MlxAH \<Rightarrow> ioreturn \<times> u32 option \<times> MlxAH" where
  "createAH alloc added req st =
     (case req of
        None \<Rightarrow> (kIOReturnBadArgument, None, st)
      | Some req \<Rightarrow>
          if \<not> alloc then (kIOReturnNoMemory, None, st)
          else
            (let h = fNextHandle st; st = st\<lparr>fNextHandle := h + 1\<rparr>;
                 ctx = \<lparr>ah_ahHandle = h, ah_portNum = (if ca_portNum req \<noteq> 0 then ca_portNum req else 1),
                        ah_av = encodeAV req, ah_isRoCE = True\<rparr>
             in if \<not> added then (kIOReturnNoMemory, None, st)
                else (kIOReturnSuccess, Some h, st\<lparr>fAhTable := tblInsert ctx (fAhTable st)\<rparr>)))"

definition destroyAH :: "u32 \<Rightarrow> MlxAH \<Rightarrow> ioreturn \<times> MlxAH" where
  "destroyAH h st =
     (case ahLookup h (fAhTable st) of
        None \<Rightarrow> (kIOReturnNotFound, st)
      | Some ctx \<Rightarrow> (kIOReturnSuccess, st\<lparr>fAhTable := ahRemove h (fAhTable st)\<rparr>))"

definition ahFree :: "MlxAH \<Rightarrow> MlxAH" where
  "ahFree st = st\<lparr>fAhTable := []\<rparr>"

section \<open>Lemmas\<close>

text \<open>
  A RoCE address vector (any type but 1) carries the destination MAC, a non-zero hop limit and
  source port, the traffic class with the ECN bit, and for type 0 the destination GID and the
  GRH flag; the source index reaches its ten-bit field intact below 1024.
\<close>

lemma encodeAV_roce:
  assumes "ca_ahType req = 0"
  shows "av_rmac (encodeAV req) = ca_dmac req \<and> av_rgid (encodeAV req) = ca_dgid req \<and>
    av_hop_limit (encodeAV req) \<noteq> 0 \<and> av_rlid_udp_sport (encodeAV req) \<noteq> 0 \<and>
    bit (av_tclass (encodeAV req)) 1 \<and> bit (av_grh_gid_fl (encodeAV req)) 30"
  using assms
  by (auto simp: encodeAV_def avGrh_def Let_def MLX_AV_ECN_ENABLED_def MLX_AV_GRH_PRESENT_def
      MLX_ROCE_V2_UDP_DPORT_def bit_or_iff bit_push_bit_iff)

lemma encodeAV_sgid:
  assumes "ca_ahType req = 0" and "unat (ca_sgidIndex req) < 1024"
  shows "take_bit 10 (drop_bit 20 (av_grh_gid_fl (encodeAV req))) = ca_sgidIndex req"
proof (rule bit_word_eqI)
  fix n
  assume n: "n < LENGTH(32)"
  have "ca_sgidIndex req = take_bit 10 (ca_sgidIndex req)"
    using take_bit_word_small [of "ca_sgidIndex req" 10] assms(2) by simp
  then have "bit (ca_sgidIndex req) n = (n < 10 \<and> bit (ca_sgidIndex req) n)" by (metis bit_take_bit_iff)
  then show "bit (take_bit 10 (drop_bit 20 (av_grh_gid_fl (encodeAV req)))) n = bit (ca_sgidIndex req) n"
    using assms(1) n
    by (auto simp: encodeAV_def avGrh_def Let_def MLX_AV_GRH_PRESENT_def MLX_AV_SGID_INDEX_SHIFT_def
        bit_take_bit_iff bit_drop_bit_eq bit_or_iff bit_push_bit_iff bit_1_iff)
qed

text \<open>Handles are positive and below the next one until the 32-bit counter wraps.\<close>

definition ahInv :: "MlxAH \<Rightarrow> bool" where
  "ahInv st \<longleftrightarrow> ahUnique (fAhTable st) \<and>
     (\<forall>c\<in>set (fAhTable st). 0 < ah_ahHandle c \<and> ah_ahHandle c < fNextHandle st) \<and> 0 < fNextHandle st"

lemma ahInv_ops:
  assumes "ahInv st"
  shows "fNextHandle st \<noteq> - 1 \<Longrightarrow> ahInv (snd (snd (createAH alloc added req st)))"
    and "ahInv (snd (destroyAH h st))"
proof -
  assume "fNextHandle st \<noteq> - 1"
  then have "1 + fNextHandle st \<noteq> 0" by (metis add.commute add_eq_0_iff)
  then have "unat (1 + fNextHandle st) = Suc (unat (fNextHandle st))" by (rule unatSuc)
  then have "fNextHandle st < fNextHandle st + 1" by (simp add: word_less_nat_alt add.commute)
  moreover have "fNextHandle st \<notin> ah_ahHandle ` set (fAhTable st)" using assms by (auto simp: ahInv_def)
  moreover have "ah_ahHandle c < fNextHandle st + 1" if "c \<in> set (fAhTable st)" for c
    using assms that calculation(1) by (auto simp: ahInv_def)
  moreover have "0 < fNextHandle st + 1" using calculation(1) by (metis word_gt_0 not_less word_zero_le order.strict_trans1)
  ultimately show "ahInv (snd (snd (createAH alloc added req st)))"
    using assms
    by (auto simp: ahInv_def createAH_def Let_def tblInsert_def ahUnique_def split: option.split)
next
  have "set (ahRemove h (fAhTable st)) \<subseteq> set (fAhTable st)"
    by (simp add: ahRemove_def tblRemove_def set_removeFirst)
  then show "ahInv (snd (destroyAH h st))"
    using assms aht.unique_remove [of "fAhTable st" h]
    by (auto simp: ahInv_def destroyAH_def split: option.split)
qed

end
