(* ===== verification/MlxGID.thy ===== *)
theory MlxGID
  imports MlxCore
begin

text \<open>
  \<^verbatim>\<open>Sources/ib/MlxGID.{hpp,cpp}\<close>: the GID table. \<open>fUsed\<close> is the source's allocation array,
  separate from the \<open>used\<close> flag of the entries; both are \<open>fTableSize\<close> long.
\<close>

unbundle bit_operations_syntax

section \<open>Data\<close>

definition MLX_ROCE_VERSION_1 :: u8 where "MLX_ROCE_VERSION_1 = 0"
definition MLX_ROCE_VERSION_2 :: u8 where "MLX_ROCE_VERSION_2 = 2"

record MlxGIDEntry =
  ge_used :: bool
  ge_index :: u32
  ge_gid :: buffer
  ge_mac :: buffer
  ge_roceVersion :: u8
  ge_l3Type :: u8
  ge_vlanId :: u16
  ge_vlanEn :: bool

record MlxGID =
  fTable :: "MlxGIDEntry list"
  fTableSize :: nat
  fUsed :: "bool list"
  fMonitoring :: bool

definition zeroGidEntry :: MlxGIDEntry where
  "zeroGidEntry = \<lparr>ge_used = False, ge_index = 0, ge_gid = replicate 16 0, ge_mac = replicate 6 0,
     ge_roceVersion = 0, ge_l3Type = 0, ge_vlanId = 0, ge_vlanEn = False\<rparr>"

definition gidInit :: "nat \<Rightarrow> MlxGID" where
  "gidInit tableSize = \<lparr>fTable = replicate tableSize zeroGidEntry, fTableSize = tableSize,
     fUsed = replicate tableSize False, fMonitoring = False\<rparr>"

section \<open>Indices\<close>

definition allocGIDIndex :: "MlxGID \<Rightarrow> u32 \<times> MlxGID" where
  "allocGIDIndex st =
     (case find (\<lambda>i. \<not> fUsed st ! i) [0..<fTableSize st] of
        None \<Rightarrow> (0xFFFFFFFF, st)
      | Some i \<Rightarrow> (of_nat i, st\<lparr>fUsed := (fUsed st)[i := True]\<rparr>))"

definition freeGIDIndex :: "u32 \<Rightarrow> MlxGID \<Rightarrow> MlxGID" where
  "freeGIDIndex index st =
     (if unat index < fTableSize st
      then st\<lparr>fUsed := (fUsed st)[unat index := False],
              fTable := (fTable st)[unat index := (fTable st ! unat index)\<lparr>ge_used := False\<rparr>]\<rparr>
      else st)"

section \<open>The command\<close>

text \<open>
  The 400 bytes of SET_ROCE_ADDRESS. The source passes bit offsets of the interface format as
  byte offsets; this is what it writes.
\<close>

definition roceAddrInput :: "u32 \<Rightarrow> buffer option \<Rightarrow> buffer \<Rightarrow> u8 \<Rightarrow> u8 \<Rightarrow> bool \<Rightarrow> u16 \<Rightarrow> buffer" where
  "roceAddrInput index gid mac version l3Type vlanEn vlanId =
     (let addrOff = 0x60; l3TypeOff = addrOff + 0xC0 + 0x14; verOff = l3TypeOff + 4;
          b = OSWriteBigInt16 (replicate 400 0) 0 (ucast MLX_CMD_OP_SET_ROCE_ADDRESS);
          b = OSWriteBigInt32 b 0x40 (ucast index);
          b = b[0x54 := 1];
          b = (case gid of
                 None \<Rightarrow> b
               | Some g \<Rightarrow>
                   (let b = copyInto b addrOff g;
                        macHi = push_bit 16 (ucast (mac ! 0)) OR push_bit 8 (ucast (mac ! 1)) OR ucast (mac ! 2);
                        macLo = push_bit 24 (ucast (mac ! 3)) OR push_bit 16 (ucast (mac ! 4)) OR
                                push_bit 8 (ucast (mac ! 5)) :: u32;
                        b = OSWriteBigInt32 b (addrOff + 0x90) (ucast (macHi :: u32));
                        b = OSWriteBigInt32 b (addrOff + 0x94) (ucast macLo)
                    in if vlanEn
                       then b[addrOff + 0x80 := b ! (addrOff + 0x80) OR 0x08,
                              addrOff + 0x81 := ucast (drop_bit 4 vlanId AND 0xFF),
                              addrOff + 0x82 := ucast (push_bit 4 (vlanId AND 0xF))]
                       else b))
      in b[l3TypeOff := l3Type AND 0xF, verOff := version])"

definition cmdSetRoceAddr ::
  "'w execFn \<Rightarrow> u32 \<Rightarrow> buffer option \<Rightarrow> buffer \<Rightarrow> u8 \<Rightarrow> u8 \<Rightarrow> bool \<Rightarrow> u16 \<Rightarrow> 'w mlxCore \<Rightarrow>
   ioreturn \<times> 'w mlxCore" where
  "cmdSetRoceAddr xc index gid mac version l3Type vlanEn vlanId co =
     (case coExec xc MLX_CMD_OP_SET_ROCE_ADDRESS (roceAddrInput index gid mac version l3Type vlanEn vlanId) 16 co of
        (kr, out, co) \<Rightarrow> (kr, co))"

definition setGID ::
  "'w execFn \<Rightarrow> u32 \<Rightarrow> buffer \<Rightarrow> buffer \<Rightarrow> u8 \<Rightarrow> u8 \<Rightarrow> bool \<Rightarrow> u16 \<Rightarrow> MlxGID \<Rightarrow> 'w mlxCore \<Rightarrow>
   ioreturn \<times> MlxGID \<times> 'w mlxCore" where
  "setGID xc index gid mac roceVersion l3Type vlanEn vlanId st co =
     (case cmdSetRoceAddr xc index (Some gid) mac roceVersion l3Type vlanEn vlanId co of
        (kr, co) \<Rightarrow>
          if kr \<noteq> kIOReturnSuccess then (kr, st, co)
          else (kIOReturnSuccess,
            (if unat index < fTableSize st
             then st\<lparr>fTable := (fTable st)[unat index :=
                    \<lparr>ge_used = True, ge_index = index, ge_gid = gid, ge_mac = mac,
                     ge_roceVersion = roceVersion, ge_l3Type = l3Type, ge_vlanId = vlanId, ge_vlanEn = vlanEn\<rparr>]\<rparr>
             else st), co))"

definition delGID :: "'w execFn \<Rightarrow> u32 \<Rightarrow> MlxGID \<Rightarrow> 'w mlxCore \<Rightarrow> ioreturn \<times> MlxGID \<times> 'w mlxCore" where
  "delGID xc index st co =
     (case cmdSetRoceAddr xc index (Some (replicate 16 0)) (replicate 6 0) 0 0 False 0 co of
        (kr, co) \<Rightarrow> (kr, freeGIDIndex index st, co))"

definition startAddressMonitor :: "MlxGID \<Rightarrow> MlxGID" where
  "startAddressMonitor st = st\<lparr>fMonitoring := False\<rparr>"

definition stopAddressMonitor :: "MlxGID \<Rightarrow> MlxGID" where
  "stopAddressMonitor st = st\<lparr>fMonitoring := False\<rparr>"

text \<open>The default link-local GID and the MAC it is made of.\<close>

definition getLocalAddr :: "buffer \<times> buffer" where
  "getLocalAddr =
     (let m = [0x00, 0x02, 0xC9, 0x00, 0x00, 0x01]; m = m[0 := m ! 0 OR 0x02];
          g = replicate 16 0;
          g = g[0 := 0xFE, 1 := 0x80, 8 := m ! 0, 9 := m ! 1, 10 := m ! 2, 11 := 0xFF, 12 := 0xFE,
                13 := m ! 3, 14 := m ! 4, 15 := m ! 5]
      in (g, m))"

section \<open>The allocation invariant\<close>

definition gidWf :: "MlxGID \<Rightarrow> bool" where
  "gidWf st \<longleftrightarrow> length (fTable st) = fTableSize st \<and> length (fUsed st) = fTableSize st \<and> fTableSize st < 2 ^ 32 - 1"

definition usedSet :: "MlxGID \<Rightarrow> nat set" where
  "usedSet st = {i. i < fTableSize st \<and> fUsed st ! i}"

lemma allocGIDIndex_cases:
  assumes "gidWf st" and "allocGIDIndex st = (index, st')"
  obtains (full) "index = 0xFFFFFFFF" "st' = st" "usedSet st = {..<fTableSize st}"
  | (got) i where "index = of_nat i" "unat index = i" "i < fTableSize st" "i \<notin> usedSet st"
      "\<forall>j < i. j \<in> usedSet st" "st' = st\<lparr>fUsed := (fUsed st)[i := True]\<rparr>"
proof (cases "find (\<lambda>i. \<not> fUsed st ! i) [0..<fTableSize st]")
  case None
  then have "\<forall>i < fTableSize st. fUsed st ! i" by (auto simp: find_None_iff)
  then show thesis using assms(2) None by (intro full) (auto simp: allocGIDIndex_def usedSet_def)
next
  case (Some i)
  then have i: "i < fTableSize st" "\<not> fUsed st ! i" "\<forall>j < i. fUsed st ! j"
    by (auto simp: find_Some_iff)
  have "unat (of_nat i :: u32) = i" using i(1) assms(1) by (intro unat_of_nat_small) (simp add: gidWf_def)
  then show thesis using Some i assms by (intro got [of i]) (auto simp: allocGIDIndex_def usedSet_def)
qed

lemma usedSet_alloc:
  "gidWf st \<Longrightarrow> i < fTableSize st \<Longrightarrow> usedSet (st\<lparr>fUsed := (fUsed st)[i := True]\<rparr>) = insert i (usedSet st)"
  by (auto simp: usedSet_def gidWf_def nth_list_update split: if_splits)

lemma usedSet_free: "gidWf st \<Longrightarrow> usedSet (freeGIDIndex index st) = usedSet st - {unat index}"
  by (auto simp: usedSet_def freeGIDIndex_def gidWf_def nth_list_update split: if_splits)

lemma freeGIDIndex_frame:
  assumes "gidWf st"
  shows "gidWf (freeGIDIndex index st) \<and>
    (\<forall>j < fTableSize st. j \<noteq> unat index \<longrightarrow> fTable (freeGIDIndex index st) ! j = fTable st ! j)"
  using assms by (simp add: freeGIDIndex_def gidWf_def)

text \<open>GID indices. A successful allocation returns the lowest free index and takes only that;
  the failure value means that every index is taken; freeing or deleting an index, whatever the
  firmware answers, makes exactly that index available; writing a GID takes no index, so the
  default GID that the driver writes at index 0 does not keep index 0 from being handed out.\<close>

theorem gid_indices:
  assumes "gidWf st"
  shows "(case allocGIDIndex st of (index, st') \<Rightarrow> gidWf st' \<and>
      (if index = 0xFFFFFFFF then usedSet st = {..<fTableSize st} \<and> st' = st
       else unat index < fTableSize st \<and> unat index \<notin> usedSet st \<and> (\<forall>j < unat index. j \<in> usedSet st) \<and>
         usedSet st' = insert (unat index) (usedSet st) \<and> fTable st' = fTable st \<and>
         usedSet (freeGIDIndex index st') = usedSet st)) \<and>
    (case delGID xc i st co of (kr, st', co') \<Rightarrow> gidWf st' \<and> usedSet st' = usedSet st - {unat i} \<and>
      (\<forall>j < fTableSize st. j \<noteq> unat i \<longrightarrow> fTable st' ! j = fTable st ! j)) \<and>
    (case setGID xc i g m v l3 ve vl st co of (kr, st', co') \<Rightarrow> gidWf st' \<and> usedSet st' = usedSet st \<and>
      (kr \<noteq> kIOReturnSuccess \<longrightarrow> st' = st)) \<and>
    (\<forall>st' co'. usedSet st = {} \<longrightarrow> 0 < fTableSize st \<longrightarrow>
      setGID xc 0 g m v l3 ve vl st co = (kIOReturnSuccess, st', co') \<longrightarrow>
      ge_used (fTable st' ! 0) \<and> fst (allocGIDIndex st') = 0)"
proof (intro conjI)
  obtain index st' where al: "allocGIDIndex st = (index, st')" by fastforce
  show "case allocGIDIndex st of (index, st') \<Rightarrow> gidWf st' \<and>
      (if index = 0xFFFFFFFF then usedSet st = {..<fTableSize st} \<and> st' = st
       else unat index < fTableSize st \<and> unat index \<notin> usedSet st \<and> (\<forall>j < unat index. j \<in> usedSet st) \<and>
         usedSet st' = insert (unat index) (usedSet st) \<and> fTable st' = fTable st \<and>
         usedSet (freeGIDIndex index st') = usedSet st)"
    using assms al
  proof (cases rule: allocGIDIndex_cases)
    case full
    then show ?thesis using al assms by simp
  next
    case (got i)
    have "unat (0xFFFFFFFF :: u32) = 2 ^ 32 - 1" by simp
    then have "index \<noteq> 0xFFFFFFFF" using got(2,3) assms by (auto simp: gidWf_def)
    moreover have wf: "gidWf st'" using assms by (simp add: got(6) gidWf_def)
    moreover have u: "usedSet st' = insert i (usedSet st)"
      using usedSet_alloc [OF assms got(3)] by (simp add: got(6))
    ultimately show ?thesis
      using got usedSet_free [OF wf, of index] by (simp add: al u)
  qed
  show "case delGID xc i st co of (kr, st', co') \<Rightarrow> gidWf st' \<and> usedSet st' = usedSet st - {unat i} \<and>
      (\<forall>j < fTableSize st. j \<noteq> unat i \<longrightarrow> fTable st' ! j = fTable st ! j)"
    using usedSet_free [OF assms, of i] freeGIDIndex_frame [OF assms, of i]
    by (simp add: delGID_def split: prod.split)
  show "case setGID xc i g m v l3 ve vl st co of (kr, st', co') \<Rightarrow> gidWf st' \<and> usedSet st' = usedSet st \<and>
      (kr \<noteq> kIOReturnSuccess \<longrightarrow> st' = st)"
    using assms by (auto simp: setGID_def gidWf_def usedSet_def split: prod.splits)
  show "\<forall>st' co'. usedSet st = {} \<longrightarrow> 0 < fTableSize st \<longrightarrow>
      setGID xc 0 g m v l3 ve vl st co = (kIOReturnSuccess, st', co') \<longrightarrow>
      ge_used (fTable st' ! 0) \<and> fst (allocGIDIndex st') = 0"
  proof (intro allI impI)
    fix st' co'
    assume e: "usedSet st = {}" "0 < fTableSize st" "setGID xc 0 g m v l3 ve vl st co = (kIOReturnSuccess, st', co')"
    then have "fTableSize st' = fTableSize st" "fUsed st' = fUsed st" "ge_used (fTable st' ! 0)"
      using assms by (auto simp: setGID_def gidWf_def split: prod.splits if_splits)
    moreover have "find (\<lambda>i. \<not> fUsed st ! i) [0..<fTableSize st] = Some 0"
      using e by (simp add: upt_conv_Cons usedSet_def)
    ultimately show "ge_used (fTable st' ! 0) \<and> fst (allocGIDIndex st') = 0" by (simp add: allocGIDIndex_def)
  qed
qed

theorem gid_indices_witness:
  "fst (allocGIDIndex (gidInit 4)) = 0 \<and> usedSet (snd (allocGIDIndex (gidInit 4))) = {0}"
proof -
  have wf: "gidWf (gidInit 4)" by (simp add: gidWf_def gidInit_def)
  have e: "usedSet (gidInit 4) = {}" by (auto simp: usedSet_def gidInit_def)
  have "fst (allocGIDIndex (gidInit 4)) = 0" by (simp add: allocGIDIndex_def gidInit_def upt_conv_Cons)
  with gid_indices [OF wf, where xc = sampleXc and co = sampleCo, THEN conjunct1] e show ?thesis
    by (auto split: prod.splits)
qed

end
