(* ===== verification/MlxCC.thy ===== *)
theory MlxCC
  imports MlxCore
begin

text \<open>
  \<^verbatim>\<open>Sources/ib/MlxCC.{hpp,cpp}\<close>: the congestion-control parameters, which the driver only
  hands to the firmware and remembers.
\<close>

record mlx_cc_params =
  rpgMinDecFac :: u32
  rpgAiRate :: u32
  rpgTimeReset :: u32
  rpgThreshold :: u32
  rpgHai :: u32
  rpgGd :: u32
  rpgTimeInc :: u32

record MlxCC =
  fParams :: mlx_cc_params
  ccEnabled :: bool

definition ccInit :: MlxCC where
  "ccInit = \<lparr>fParams = \<lparr>rpgMinDecFac = 256, rpgAiRate = 5, rpgTimeReset = 55, rpgThreshold = 150,
     rpgHai = 0, rpgGd = 0, rpgTimeInc = 0\<rparr>, ccEnabled = False\<rparr>"

definition cmdQuery :: "u32 \<Rightarrow> ioreturn" where "cmdQuery regId = kIOReturnUnsupported"
definition cmdModify :: "u32 \<Rightarrow> ioreturn" where "cmdModify regId = kIOReturnUnsupported"

definition queryParams :: "bool \<Rightarrow> MlxCC \<Rightarrow> ioreturn \<times> mlx_cc_params option" where
  "queryParams out st = (if \<not> out then (kIOReturnBadArgument, None) else (kIOReturnSuccess, Some (fParams st)))"

definition ccInput :: "mlx_cc_params \<Rightarrow> buffer" where
  "ccInput p =
     OSWriteBigInt32 (OSWriteBigInt32 (OSWriteBigInt32 (OSWriteBigInt32
       (OSWriteBigInt16 (replicate 512 0) 0 (ucast MLX_CMD_OP_MODIFY_CONG_PARAMS))
       0x40 (ucast (rpgMinDecFac p))) 0x48 (ucast (rpgAiRate p))) 0x50 (ucast (rpgTimeReset p)))
       0x58 (ucast (rpgThreshold p))"

definition modifyParams ::
  "'w execFn \<Rightarrow> mlx_cc_params option \<Rightarrow> MlxCC \<Rightarrow> 'w mlxCore \<Rightarrow> ioreturn \<times> MlxCC \<times> 'w mlxCore" where
  "modifyParams xc inp st co =
     (case inp of
        None \<Rightarrow> (kIOReturnBadArgument, st, co)
      | Some p \<Rightarrow>
          (case coExec xc MLX_CMD_OP_MODIFY_CONG_PARAMS (ccInput p) 16 co of
             (kr, out, co) \<Rightarrow>
               if kr = kIOReturnSuccess then (kr, st\<lparr>fParams := p, ccEnabled := True\<rparr>, co)
               else (kr, st, co)))"

text \<open>The cached parameters are always the last ones the firmware accepted, or the defaults.\<close>

lemma modify_then_query:
  "modifyParams xc (Some p) st co = (kr, st', co') \<Longrightarrow>
   queryParams True st' = (kIOReturnSuccess, Some (if kr = kIOReturnSuccess then p else fParams st))"
  by (auto simp: modifyParams_def queryParams_def split: prod.splits if_splits)

end
