(* ===== verification/MlxRoCE.thy ===== *)
theory MlxRoCE
  imports MlxHCA MlxQP MlxCQ MlxMR MlxAH MlxGID MlxCC MlxEQ
begin

text \<open>
  \<^verbatim>\<open>Sources/ib/MlxRoCE.{hpp,cpp}\<close>: the verbs device. \<open>roObjs\<close> lists the non-NULL object
  pointers; the tables of the sub-objects are meaningful while their object is listed. The
  notifier number of the device in the event queues is \<open>me\<close>.
\<close>

section \<open>Data\<close>

definition MLX_EVENT_TYPE_WQ_CATAS_ERROR :: u8 where "MLX_EVENT_TYPE_WQ_CATAS_ERROR = 0x05"
definition MLX_EVENT_TYPE_PATH_MIG :: u8 where "MLX_EVENT_TYPE_PATH_MIG = 0x01"
definition MLX_EVENT_TYPE_COMM_EST :: u8 where "MLX_EVENT_TYPE_COMM_EST = 0x02"

definition MLX_ASYNC_ELEMENT_DEVICE :: u32 where "MLX_ASYNC_ELEMENT_DEVICE = 0"
definition MLX_ASYNC_ELEMENT_QP :: u32 where "MLX_ASYNC_ELEMENT_QP = 2"
definition MLX_ASYNC_ELEMENT_PORT :: u32 where "MLX_ASYNC_ELEMENT_PORT = 3"

definition MLX_EVENT_QP_FATAL :: u32 where "MLX_EVENT_QP_FATAL = 1"
definition MLX_EVENT_COMM_EST :: u32 where "MLX_EVENT_COMM_EST = 4"
definition MLX_EVENT_PATH_MIG :: u32 where "MLX_EVENT_PATH_MIG = 6"
definition MLX_EVENT_DEVICE_FATAL :: u32 where "MLX_EVENT_DEVICE_FATAL = 8"
definition MLX_EVENT_PORT_ACTIVE :: u32 where "MLX_EVENT_PORT_ACTIVE = 9"
definition MLX_EVENT_PORT_ERR :: u32 where "MLX_EVENT_PORT_ERR = 10"
definition MLX_EVENT_GID_CHANGE :: u32 where "MLX_EVENT_GID_CHANGE = 18"

record mlx_async_event =
  ae_eventType :: u32
  ae_elementType :: u32
  ae_elementHandle :: u32

datatype roceObj =
    RoCore | RoResourceLock | RoWorkLoop | RoQpTable | RoCqTable | RoMrTable | RoEventLock
  | RoGID | RoQP | RoCQ | RoMR | RoAH | RoCC

record 'w MlxRoCE =
  roObjs :: "roceObj list"
  roQP :: qpTable
  roCQ :: MlxCQ
  roMR :: MlxMR
  roAH :: MlxAH
  roGID :: MlxGID
  roCC :: MlxCC
  fEventRing :: "mlx_async_event list"
  fEventHead :: nat
  fEventTail :: nat
  roCo :: "'w mlxCore"

definition zeroEvent :: mlx_async_event where
  "zeroEvent = \<lparr>ae_eventType = 0, ae_elementType = 0, ae_elementHandle = 0\<rparr>"

definition roceInit :: "'w mlxCore \<Rightarrow> 'w MlxRoCE" where
  "roceInit co = \<lparr>roObjs = [], roQP = [], roCQ = cqInit, roMR = mrInit, roAH = ahInit, roGID = gidInit 0,
     roCC = ccInit, fEventRing = replicate 16 zeroEvent, fEventHead = 0, fEventTail = 0, roCo = co\<rparr>"

section \<open>Asynchronous events\<close>

definition queueAsyncEvent :: "u32 \<Rightarrow> u32 \<Rightarrow> u32 \<Rightarrow> 'w MlxRoCE \<Rightarrow> 'w MlxRoCE" where
  "queueAsyncEvent eventType elementType elementHandle ro =
     (let next' = (fEventHead ro + 1) mod 16
      in if next' \<noteq> fEventTail ro
         then ro\<lparr>fEventRing := (fEventRing ro)[fEventHead ro :=
                   \<lparr>ae_eventType = eventType, ae_elementType = elementType, ae_elementHandle = elementHandle\<rparr>],
                 fEventHead := next'\<rparr>
         else ro)"

definition getAsyncEvent :: "bool \<Rightarrow> 'w MlxRoCE \<Rightarrow> ioreturn \<times> mlx_async_event option \<times> 'w MlxRoCE" where
  "getAsyncEvent event ro =
     (if \<not> event then (kIOReturnBadArgument, None, ro)
      else if fEventTail ro = fEventHead ro then (kIOReturnNotFound, None, ro)
      else (kIOReturnSuccess, Some (fEventRing ro ! fEventTail ro),
            ro\<lparr>fEventTail := (fEventTail ro + 1) mod 16\<rparr>))"

text \<open>
  The callback of the event queues, with the completion callbacks it makes. The seven data
  words of an event are \<open>eqe_data\<close>, in host order; the completion queue number is the last.
\<close>

definition roceHandleEvent ::
  "u32 \<Rightarrow> MlxEqe option \<Rightarrow> 'w MlxRoCE \<Rightarrow> (nat \<times> u32 \<times> nat) list \<times> 'w MlxRoCE" where
  "roceHandleEvent type eqe ro =
     (if type = ucast MLX_EVENT_TYPE_WQ_CATAS_ERROR
      then ([], queueAsyncEvent MLX_EVENT_QP_FATAL MLX_ASYNC_ELEMENT_QP 0 ro)
      else if type = ucast MLX_EVENT_TYPE_PATH_MIG
      then ([], queueAsyncEvent MLX_EVENT_PATH_MIG MLX_ASYNC_ELEMENT_QP 0 ro)
      else if type = ucast MLX_EVENT_TYPE_COMM_EST
      then ([], queueAsyncEvent MLX_EVENT_COMM_EST MLX_ASYNC_ELEMENT_QP 0 ro)
      else if type = ucast MLX_EVENT_TYPE_DEVICE_FATAL
      then ([], queueAsyncEvent MLX_EVENT_DEVICE_FATAL MLX_ASYNC_ELEMENT_DEVICE 0 ro)
      else if type = ucast MLX_EVENT_TYPE_PORT_STATE_CHANGE
      then (let sub = (case eqe of None \<Rightarrow> 0 | Some e \<Rightarrow> eqe_subType e)
            in ([], if sub = 4 \<or> sub = 1
                    then queueAsyncEvent (if sub = 4 then MLX_EVENT_PORT_ACTIVE else MLX_EVENT_PORT_ERR)
                           MLX_ASYNC_ELEMENT_PORT 1 ro
                    else if sub = 8 then queueAsyncEvent MLX_EVENT_GID_CHANGE MLX_ASYNC_ELEMENT_PORT 1 ro
                    else if sub = 9 then queueAsyncEvent MLX_EVENT_DEVICE_FATAL MLX_ASYNC_ELEMENT_PORT 1 ro
                    else ro))
      else if type = ucast MLX_EVENT_TYPE_COMPLETION
      then (let cqn = (case eqe of None \<Rightarrow> 0 | Some e \<Rightarrow> (eqe_data e ! 6) AND 0xFFFFFF)
            in if RoCQ \<in> set (roObjs ro)
               then (case cqHandleCompletion cqn (roCQ ro) of (cb, cq) \<Rightarrow> (cb, ro\<lparr>roCQ := cq\<rparr>))
               else ([], ro))
      else ([], ro))"

section \<open>Staged start\<close>

text \<open>\<open>roAlloc\<close> answers the allocations (with the sub-objects' \<open>init\<close>): \<open>roNew\<close> says whether
  the pointer is non-NULL, \<open>roOk\<close> whether \<open>init\<close> of a non-NULL sub-object succeeded.\<close>

record roceEnv =
  roNew :: "roceObj \<Rightarrow> bool"
  roOk :: "roceObj \<Rightarrow> bool"

definition roceAdd :: "roceEnv \<Rightarrow> roceObj \<Rightarrow> 'w MlxRoCE \<Rightarrow> 'w MlxRoCE" where
  "roceAdd env x ro = (if roNew env x then ro\<lparr>roObjs := roObjs ro @ [x]\<rparr> else ro)"

definition stageInit :: "roceEnv \<Rightarrow> 'w MlxRoCE \<Rightarrow> bool \<times> 'w MlxRoCE" where
  "stageInit env ro =
     (let os = [RoResourceLock, RoWorkLoop, RoQpTable, RoCqTable, RoMrTable, RoEventLock]
      in (list_all (roNew env) os,
          (foldl (\<lambda>ro x. roceAdd env x ro) ro os)\<lparr>fEventHead := 0, fEventTail := 0\<rparr>))"

definition stageCaps :: "MlxHcaCaps \<Rightarrow> bool" where
  "stageCaps caps = hc_roce caps"

definition gidTableSize :: "MlxHcaCaps \<Rightarrow> nat" where
  "gidTableSize caps = (if hc_roceMaxGid caps \<noteq> 0 then unat (hc_roceMaxGid caps) else 128)"

definition stageGID :: "'w execFn \<Rightarrow> roceEnv \<Rightarrow> MlxHcaCaps \<Rightarrow> 'w MlxRoCE \<Rightarrow> bool \<times> 'w MlxRoCE" where
  "stageGID xc env caps ro =
     (let ro = roceAdd env RoGID ro
      in if \<not> roNew env RoGID \<or> \<not> roOk env RoGID then (False, ro)
         else
           (let ro = ro\<lparr>roGID := gidInit (gidTableSize caps)\<rparr>
            in if isIB caps then (True, ro)
               else
                 (let (gid, mac) = getLocalAddr
                  in case setGID xc 0 gid mac MLX_ROCE_VERSION_1 0 False 0 (roGID ro) (roCo ro) of
                       (kr, g, co) \<Rightarrow>
                         if kr \<noteq> kIOReturnSuccess then (False, ro\<lparr>roGID := g, roCo := co\<rparr>)
                         else (True, ro\<lparr>roGID := startAddressMonitor g, roCo := co\<rparr>))))"

definition roceEventTypes :: "nat list" where
  "roceEventTypes = map unat [MLX_EVENT_TYPE_WQ_CATAS_ERROR, MLX_EVENT_TYPE_PATH_MIG, MLX_EVENT_TYPE_COMM_EST,
     MLX_EVENT_TYPE_COMPLETION, MLX_EVENT_TYPE_DEVICE_FATAL, MLX_EVENT_TYPE_PORT_STATE_CHANGE]"

text \<open>The sub-objects are created one after the other, up to the first that fails.\<close>

fun roceCreate :: "roceEnv \<Rightarrow> roceObj list \<Rightarrow> 'w MlxRoCE \<Rightarrow> bool \<times> 'w MlxRoCE" where
  "roceCreate env [] ro = (True, ro)"
| "roceCreate env (x # xs) ro =
     (if roNew env x \<and> roOk env x then roceCreate env xs (roceAdd env x ro) else (False, roceAdd env x ro))"

definition stageDevRes :: "nat \<Rightarrow> roceEnv \<Rightarrow> MlxEQ option \<Rightarrow> 'w MlxRoCE \<Rightarrow> bool \<times> MlxEQ option \<times> 'w MlxRoCE" where
  "stageDevRes me env eq ro =
     (case roceCreate env [RoQP, RoCQ, RoMR, RoAH, RoCC] ro of
        (ok, ro) \<Rightarrow>
          if \<not> ok then (False, eq, ro)
          else
            (let ro = ro\<lparr>roQP := [], roCQ := cqInit, roMR := mrInit, roAH := ahInit, roCC := ccInit\<rparr>
             in case eq of
                  None \<Rightarrow> (False, eq, ro)
                | Some e \<Rightarrow> (True, Some (foldl (\<lambda>e t. registerNotifier t me e) e roceEventTypes), ro)))"

section \<open>Cleaning up\<close>

text \<open>\<open>up\<close>: the command interface is up, so the destructors of the tables issue commands. Every
  object that exists is released and its pointer cleared, one after the other in the source's order.\<close>

definition roceRelease :: "'w execFn \<Rightarrow> bool \<Rightarrow> roceObj \<Rightarrow> 'w MlxRoCE \<Rightarrow> 'w MlxRoCE" where
  "roceRelease xc up x ro =
     (if x \<notin> set (roObjs ro) then ro
      else
        (let ro = (case x of
               RoQP \<Rightarrow> ro\<lparr>roCo := qpFree xc up (roQP ro) (roCo ro), roQP := []\<rparr>
             | RoCQ \<Rightarrow> (case cqFree xc up (roCQ ro) (roCo ro) of (cq, co) \<Rightarrow> ro\<lparr>roCQ := cq, roCo := co\<rparr>)
             | RoMR \<Rightarrow> (case mrFree xc up (roMR ro) (roCo ro) of (mr, co) \<Rightarrow> ro\<lparr>roMR := mr, roCo := co\<rparr>)
             | RoAH \<Rightarrow> ro\<lparr>roAH := ahFree (roAH ro)\<rparr>
             | RoGID \<Rightarrow> ro\<lparr>roGID := stopAddressMonitor (roGID ro)\<rparr>
             | _ \<Rightarrow> ro)
         in ro\<lparr>roObjs := removeAll x (roObjs ro)\<rparr>))"

definition cleanupResources ::
  "nat \<Rightarrow> 'w execFn \<Rightarrow> bool \<Rightarrow> MlxEQ option \<Rightarrow> 'w MlxRoCE \<Rightarrow> MlxEQ option \<times> 'w MlxRoCE" where
  "cleanupResources me xc up eq ro =
     ((case eq of
         None \<Rightarrow> None
       | Some e \<Rightarrow> Some (if RoCore \<in> set (roObjs ro)
           then foldl (\<lambda>e t. unregisterNotifier t me e) e
             (map unat [MLX_EVENT_TYPE_WQ_CATAS_ERROR, MLX_EVENT_TYPE_PATH_MIG, MLX_EVENT_TYPE_COMM_EST,
                MLX_EVENT_TYPE_COMPLETION, MLX_EVENT_TYPE_DEVICE_FATAL, MLX_EVENT_TYPE_PORT_STATE_CHANGE])
           else e)),
      foldl (\<lambda>ro x. roceRelease xc up x ro) ro
        [RoQP, RoCQ, RoMR, RoAH, RoCC, RoGID, RoResourceLock, RoEventLock, RoQpTable, RoCqTable, RoMrTable,
         RoWorkLoop, RoCore])"

definition roceStart ::
  "nat \<Rightarrow> 'w execFn \<Rightarrow> bool \<Rightarrow> roceEnv \<Rightarrow> bool \<Rightarrow> MlxHcaCaps \<Rightarrow> MlxEQ option \<Rightarrow> 'w MlxRoCE \<Rightarrow>
   bool \<times> MlxEQ option \<times> 'w MlxRoCE" where
  "roceStart me xc up env publish caps eq ro =
     (if \<not> publish then (False, eq, ro)
      else
        (let ro = ro\<lparr>roObjs := roObjs ro @ [RoCore]\<rparr>
         in case stageInit env ro of
              (ok1, ro) \<Rightarrow>
                if \<not> ok1 \<or> \<not> stageCaps caps
                then (case cleanupResources me xc up eq ro of (eq, ro) \<Rightarrow> (False, eq, ro))
                else
                  (case stageGID xc env caps ro of
                     (ok2, ro) \<Rightarrow>
                       if \<not> ok2 then (case cleanupResources me xc up eq ro of (eq, ro) \<Rightarrow> (False, eq, ro))
                       else
                         (case stageDevRes me env eq ro of
                            (ok3, eq, ro) \<Rightarrow>
                              if \<not> ok3 then (case cleanupResources me xc up eq ro of (eq, ro) \<Rightarrow> (False, eq, ro))
                              else (True, eq, ro)))))"

definition roceStop ::
  "nat \<Rightarrow> 'w execFn \<Rightarrow> bool \<Rightarrow> MlxEQ option \<Rightarrow> 'w MlxRoCE \<Rightarrow> MlxEQ option \<times> 'w MlxRoCE" where
  "roceStop me xc up eq ro = cleanupResources me xc up eq ro"

section \<open>Verbs\<close>

definition roceCreateQP ::
  "'w execFn \<Rightarrow> QpEnv \<Rightarrow> mlx_create_qp_req \<Rightarrow> 'w MlxRoCE \<Rightarrow> ioreturn \<times> mlx_create_qp_resp option \<times> 'w MlxRoCE" where
  "roceCreateQP xc env req ro =
     (case createQP xc env req (roQP ro) (roCo ro) of
        (kr, resp, t, co) \<Rightarrow> (kr, resp, ro\<lparr>roQP := t, roCo := co\<rparr>))"

definition roceModifyQP :: "'w execFn \<Rightarrow> mlx_modify_qp_req option \<Rightarrow> 'w MlxRoCE \<Rightarrow> ioreturn \<times> 'w MlxRoCE" where
  "roceModifyQP xc req ro =
     (case modifyQP xc req (roQP ro) (roCo ro) of (kr, t, co) \<Rightarrow> (kr, ro\<lparr>roQP := t, roCo := co\<rparr>))"

definition roceDestroyQP :: "'w execFn \<Rightarrow> u32 \<Rightarrow> 'w MlxRoCE \<Rightarrow> ioreturn \<times> 'w MlxRoCE" where
  "roceDestroyQP xc h ro =
     (case destroyQP xc h (roQP ro) (roCo ro) of (kr, t, co) \<Rightarrow> (kr, ro\<lparr>roQP := t, roCo := co\<rparr>))"

text \<open>\<open>None\<close> is the call that does not return.\<close>

definition roceCreateCQ ::
  "'w execFn \<Rightarrow> CqEnv \<Rightarrow> bool \<Rightarrow> u32 \<Rightarrow> u32 \<Rightarrow> 'w MlxRoCE \<Rightarrow>
   (ioreturn \<times> mlx_create_cq_resp option \<times> 'w MlxRoCE) option" where
  "roceCreateCQ xc env resp entries eqn ro =
     (case createCQ xc env resp entries eqn (roCQ ro) (roCo ro) of
        None \<Rightarrow> None
      | Some (kr, r, cq, co) \<Rightarrow> Some (kr, r, ro\<lparr>roCQ := cq, roCo := co\<rparr>))"

definition roceDestroyCQ :: "'w execFn \<Rightarrow> u32 \<Rightarrow> 'w MlxRoCE \<Rightarrow> ioreturn \<times> 'w MlxRoCE" where
  "roceDestroyCQ xc h ro =
     (case destroyCQ xc h (roCQ ro) (roCo ro) of (kr, cq, co) \<Rightarrow> (kr, ro\<lparr>roCQ := cq, roCo := co\<rparr>))"

definition roceRegMR ::
  "'w execFn \<Rightarrow> MrEnv \<Rightarrow> mlx_reg_mr_req option \<Rightarrow> 'w MlxRoCE \<Rightarrow>
   (ioreturn \<times> mlx_reg_mr_resp option \<times> 'w MlxRoCE) option" where
  "roceRegMR xc env req ro =
     (case regMR xc env req (roMR ro) (roCo ro) of
        None \<Rightarrow> None
      | Some (kr, r, mr, co) \<Rightarrow> Some (kr, r, ro\<lparr>roMR := mr, roCo := co\<rparr>))"

definition roceDeregMR :: "'w execFn \<Rightarrow> u32 \<Rightarrow> 'w MlxRoCE \<Rightarrow> ioreturn \<times> 'w MlxRoCE" where
  "roceDeregMR xc h ro =
     (case deregMR xc h (roMR ro) (roCo ro) of (kr, mr, co) \<Rightarrow> (kr, ro\<lparr>roMR := mr, roCo := co\<rparr>))"

definition roceCreateAH ::
  "bool \<Rightarrow> bool \<Rightarrow> mlx_create_ah_req option \<Rightarrow> 'w MlxRoCE \<Rightarrow> ioreturn \<times> u32 option \<times> 'w MlxRoCE" where
  "roceCreateAH alloc added req ro =
     (case createAH alloc added req (roAH ro) of (kr, h, ah) \<Rightarrow> (kr, h, ro\<lparr>roAH := ah\<rparr>))"

definition roceDestroyAH :: "u32 \<Rightarrow> 'w MlxRoCE \<Rightarrow> ioreturn \<times> 'w MlxRoCE" where
  "roceDestroyAH h ro = (case destroyAH h (roAH ro) of (kr, ah) \<Rightarrow> (kr, ro\<lparr>roAH := ah\<rparr>))"

section \<open>Queries\<close>

record mlx_query_device_resp =
  qd_fwVersion :: u64
  qd_deviceId :: u32
  qd_numPorts :: u32
  qd_maxQp :: u32
  qd_maxCq :: u32
  qd_maxMr :: u32
  qd_roceVersions :: u16
  qd_maxGid :: u16
  qd_maxMsgSize :: u32

record mlx_query_port_resp =
  qpr_portNum :: u32
  qpr_linkLayer :: u8
  qpr_portState :: u8
  qpr_gidType :: u8
  qpr_activeSpeed :: u32
  qpr_maxMtu :: u32
  qpr_lid :: u16
  qpr_smLid :: u16
  qpr_pkeyTblLen :: u16
  qpr_gidTblLen :: u16

definition roceQueryDevice :: "MlxHCA \<Rightarrow> mlx_query_device_resp" where
  "roceQueryDevice hca =
     (let c = hcaCaps hca
      in \<lparr>qd_fwVersion = ucast (hc_fwRev c), qd_deviceId = ucast (vi_deviceId (hcaVendor hca)),
          qd_numPorts = hc_numPorts c, qd_maxQp = hc_maxQp c, qd_maxCq = hc_maxCq c, qd_maxMr = hc_maxMr c,
          qd_roceVersions = ucast (hc_roceVersions c), qd_maxGid = hc_roceMaxGid c,
          qd_maxMsgSize = push_bit 20 1\<rparr>)"

text \<open>For an Ethernet port the LIDs of the caller's buffer are left as they are.\<close>

definition roceQueryPort :: "MlxHcaCaps \<Rightarrow> mlx_query_port_resp \<Rightarrow> mlx_query_port_resp" where
  "roceQueryPort caps resp =
     (let gids = (if hc_roceMaxGid caps \<noteq> 0 then hc_roceMaxGid caps else 128);
          resp = resp\<lparr>qpr_portNum := 1, qpr_portState := 1, qpr_activeSpeed := 10000, qpr_maxMtu := 9000\<rparr>
      in if isIB caps
         then resp\<lparr>qpr_linkLayer := MLX_LINK_LAYER_INFINIBAND, qpr_gidType := 0, qpr_lid := 0, qpr_smLid := 0,
                   qpr_pkeyTblLen := (if hc_ibMaxPkeys caps \<noteq> 0 then hc_ibMaxPkeys caps else 16),
                   qpr_gidTblLen := gids\<rparr>
         else resp\<lparr>qpr_linkLayer := MLX_LINK_LAYER_ETHERNET, qpr_gidType := 2, qpr_pkeyTblLen := 16,
                   qpr_gidTblLen := gids\<rparr>)"

end
