(* ===== verification/MlxRoCEProps.thy ===== *)
theory MlxRoCEProps
  imports MlxRoCE MlxRing
begin

text \<open>
  Properties of the verbs device: its event ring is a bounded queue, and starting or stopping
  it leaves no callback registered and no object behind.
\<close>

section \<open>The event ring\<close>

definition eventCount :: "'w MlxRoCE \<Rightarrow> nat" where
  "eventCount ro = (fEventHead ro + 16 - fEventTail ro) mod 16"

definition pendingEvents :: "'w MlxRoCE \<Rightarrow> mlx_async_event list" where
  "pendingEvents ro = ringList 16 (fEventRing ro) (fEventTail ro) (eventCount ro)"

definition eventInv :: "'w MlxRoCE \<Rightarrow> bool" where
  "eventInv ro \<longleftrightarrow> length (fEventRing ro) = 16 \<and> fEventHead ro < 16 \<and> fEventTail ro < 16"

definition eventRoom :: "'w MlxRoCE \<Rightarrow> bool" where
  "eventRoom ro \<longleftrightarrow> length (pendingEvents ro) < 15"

definition putEvent :: "mlx_async_event \<Rightarrow> 'w MlxRoCE \<Rightarrow> 'w MlxRoCE" where
  "putEvent e ro = queueAsyncEvent (ae_eventType e) (ae_elementType e) (ae_elementHandle e) ro"

definition takeEvent :: "'w MlxRoCE \<Rightarrow> mlx_async_event option \<times> 'w MlxRoCE" where
  "takeEvent ro = (case getAsyncEvent True ro of (kr, e, ro) \<Rightarrow> (e, ro))"

lemma ring16:
  fixes h t :: nat
  assumes "h < 16" and "t < 16"
  shows "((h + 1) mod 16 = t) = ((h + 16 - t) mod 16 = 15)"
    and "(h + 1) mod 16 \<noteq> t \<Longrightarrow> ((h + 1) mod 16 + 16 - t) mod 16 = Suc ((h + 16 - t) mod 16)"
    and "(t + (h + 16 - t) mod 16) mod 16 = h"
    and "(t = h) = ((h + 16 - t) mod 16 = 0)"
    and "t \<noteq> h \<Longrightarrow> (h + 16 - t) mod 16 = Suc ((h + 16 - (t + 1) mod 16) mod 16)"
proof -
  show "((h + 1) mod 16 = t) = ((h + 16 - t) mod 16 = 15)"
    using assms by (cases "h = 15"; cases "t \<le> h"; cases "t = 0") (auto simp: mod_if)
  show "(h + 1) mod 16 \<noteq> t \<Longrightarrow> ((h + 1) mod 16 + 16 - t) mod 16 = Suc ((h + 16 - t) mod 16)"
    using assms by (cases "h = 15"; cases "t \<le> h"; cases "t = 0") (auto simp: mod_if)
  show "(t + (h + 16 - t) mod 16) mod 16 = h" using assms by (auto simp: mod_if)
  show "(t = h) = ((h + 16 - t) mod 16 = 0)" using assms by (auto simp: mod_if)
  show "t \<noteq> h \<Longrightarrow> (h + 16 - t) mod 16 = Suc ((h + 16 - (t + 1) mod 16) mod 16)"
    using assms by (cases "t = 15"; cases "t \<le> h"; cases "h = 0") (auto simp: mod_if)
qed

interpretation evq: bounded_fifo pendingEvents eventInv eventRoom putEvent takeEvent
proof
  fix ro :: "'w MlxRoCE" and e
  assume inv: "eventInv ro"
  then have l: "length (fEventRing ro) = 16" "fEventHead ro < 16" "fEventTail ro < 16" by (simp_all add: eventInv_def)
  note r = ring16 [OF l(2,3)]
  show "eventInv (putEvent e ro)"
    using l by (simp add: eventInv_def putEvent_def queueAsyncEvent_def Let_def)
  show "eventInv (snd (takeEvent ro))"
    using l by (simp add: eventInv_def takeEvent_def getAsyncEvent_def)
  show "pendingEvents (putEvent e ro) = (if eventRoom ro then pendingEvents ro @ [e] else pendingEvents ro)"
  proof (cases "(fEventHead ro + 1) mod 16 = fEventTail ro")
    case True
    then show ?thesis using r(1) by (simp add: eventRoom_def pendingEvents_def eventCount_def putEvent_def queueAsyncEvent_def)
  next
    case False
    have lt: "eventCount ro < 16" by (simp add: eventCount_def)
    moreover have "eventCount ro \<noteq> 15" using False r(1) by (simp add: eventCount_def)
    ultimately have room: "eventRoom ro" by (simp add: eventRoom_def pendingEvents_def)
    have h: "(fEventTail ro + eventCount ro) mod 16 = fEventHead ro" using r(3) by (simp add: eventCount_def)
    have "\<lparr>ae_eventType = ae_eventType e, ae_elementType = ae_elementType e, ae_elementHandle = ae_elementHandle e\<rparr> = e"
      by simp
    then have p: "putEvent e ro =
        ro\<lparr>fEventRing := (fEventRing ro)[fEventHead ro := e], fEventHead := (fEventHead ro + 1) mod 16\<rparr>"
      using False by (simp only: putEvent_def queueAsyncEvent_def Let_def) simp
    then have "eventCount (putEvent e ro) = Suc (eventCount ro)" using r(2) False by (simp add: eventCount_def)
    then have "pendingEvents (putEvent e ro) =
        ringList 16 ((fEventRing ro)[fEventHead ro := e]) (fEventTail ro) (Suc (eventCount ro))"
      by (simp add: pendingEvents_def p)
    also have "\<dots> = pendingEvents ro @ [e]"
      using ringList_put [OF lt l(1), of "fEventTail ro" e, unfolded h] by (simp add: pendingEvents_def)
    finally show ?thesis using room by simp
  qed
  show "pendingEvents ro = [] \<Longrightarrow> takeEvent ro = (None, ro)"
    using r(4) by (simp add: pendingEvents_def eventCount_def ringList_def takeEvent_def getAsyncEvent_def)
  show "pendingEvents ro = x # xs \<Longrightarrow> fst (takeEvent ro) = Some x \<and> pendingEvents (snd (takeEvent ro)) = xs" for x xs
  proof -
    assume p: "pendingEvents ro = x # xs"
    then have ne: "fEventTail ro \<noteq> fEventHead ro"
      using r(4) by (auto simp: pendingEvents_def eventCount_def)
    have "eventCount ro = Suc ((fEventHead ro + 16 - (fEventTail ro + 1) mod 16) mod 16)"
      using r(5) [OF ne] by (simp add: eventCount_def)
    then show ?thesis
      using p ne ringList_get [OF l(3), of "fEventRing ro"]
      by (simp add: pendingEvents_def takeEvent_def getAsyncEvent_def eventCount_def)
  qed
qed

text \<open>C22: The asynchronous event ring is a first-in first-out queue that holds at most 15
  events: queueing appends an event while fewer are pending and otherwise drops the new one;
  reading takes the oldest, and reports that there is none exactly when none is pending; over
  any interleaving of both, the events read followed by those pending are the ones pending
  before followed by the accepted ones, in order.\<close>

theorem async_events_fifo:
  assumes "eventInv ro"
  shows "length (pendingEvents ro) \<le> 15 \<and>
    pendingEvents (putEvent e ro) =
      (if length (pendingEvents ro) < 15 then pendingEvents ro @ [e] else pendingEvents ro) \<and>
    (fst (getAsyncEvent True ro) = kIOReturnNotFound \<longleftrightarrow> pendingEvents ro = []) \<and>
    (case fifoRun putEvent eventRoom takeEvent ops ro of
       (seen, accepted, ro') \<Rightarrow> eventInv ro' \<and> pendingEvents ro @ accepted = seen @ pendingEvents ro')"
proof (intro conjI)
  have l: "fEventHead ro < 16" "fEventTail ro < 16" using assms by (simp_all add: eventInv_def)
  have "(fEventHead ro + 16 - fEventTail ro) mod 16 < 16" by simp
  then show "length (pendingEvents ro) \<le> 15" by (simp add: pendingEvents_def eventCount_def)
  show "pendingEvents (putEvent e ro) =
      (if length (pendingEvents ro) < 15 then pendingEvents ro @ [e] else pendingEvents ro)"
    using evq.put_content [OF assms] by (simp add: eventRoom_def)
  show "fst (getAsyncEvent True ro) = kIOReturnNotFound \<longleftrightarrow> pendingEvents ro = []"
    using ring16(4) [OF l] by (simp add: getAsyncEvent_def pendingEvents_def eventCount_def ringList_def)
  show "case fifoRun putEvent eventRoom takeEvent ops ro of
       (seen, accepted, ro') \<Rightarrow> eventInv ro' \<and> pendingEvents ro @ accepted = seen @ pendingEvents ro'"
    using evq.run_fifo [OF assms] by (auto split: prod.split)
qed

theorem async_events_fifo_witness:
  "\<exists>ro'. fifoRun putEvent eventRoom takeEvent [Put zeroEvent, Get, Get] (roceInit sampleCo) = ([zeroEvent], [zeroEvent], ro')"
proof -
  let ?ro = "roceInit sampleCo" and ?ops = "[Put zeroEvent, Get, Get]"
  have inv: "eventInv ?ro" by (simp add: eventInv_def roceInit_def)
  have e: "pendingEvents ?ro = []" by (simp add: pendingEvents_def eventCount_def roceInit_def)
  obtain del acc ro' where run: "fifoRun putEvent eventRoom takeEvent ?ops ?ro = (del, acc, ro')"
    by (metis prod_cases3)
  then have acc: "acc = [zeroEvent]"
    using e by (auto simp: eventRoom_def split: prod.splits)
  from async_events_fifo [OF inv, of zeroEvent ?ops] run acc e
  have "[zeroEvent] = del @ pendingEvents ro'" by simp
  moreover have "del \<noteq> []"
    using run evq.put_content [OF inv, of zeroEvent] evq.put_inv [OF inv, of zeroEvent] e
      evq.get_first [of "putEvent zeroEvent ?ro" zeroEvent "[]"]
    by (auto simp: eventRoom_def split: prod.splits option.splits)
  ultimately have "del = [zeroEvent]" by (cases del) auto
  with run acc show ?thesis by blast
qed

section \<open>Starting and stopping\<close>

lemma remove1_distinct: "distinct xs \<Longrightarrow> remove1 x xs = filter (\<lambda>y. y \<noteq> x) xs"
proof -
  have "(\<lambda>y. x \<noteq> y) = (\<lambda>y. y \<noteq> x)" by auto
  then show "distinct xs \<Longrightarrow> remove1 x xs = filter (\<lambda>y. y \<noteq> x) xs"
    by (simp add: distinct_remove1_removeAll removeAll_filter_not_eq)
qed

lemma unregister_all:
  assumes "notifWf e" and "\<forall>t\<in>set ts. t < MLX_EVENT_TYPE_MAX"
  shows "notifWf (foldl (\<lambda>e t. unregisterNotifier t me e) e ts) \<and>
    notifList (foldl (\<lambda>e t. unregisterNotifier t me e) e ts) =
      (\<lambda>t. if t \<in> set ts then filter (\<lambda>n. n \<noteq> me) (notifList e t) else notifList e t)"
  using assms
proof (induction ts arbitrary: e)
  case Nil
  then show ?case by simp
next
  case (Cons t ts)
  have wf: "notifWf (unregisterNotifier t me e)"
    and nl: "notifList (unregisterNotifier t me e) = (notifList e)(t := remove1 me (notifList e t))"
    using notifier_table_spec [OF Cons.prems(1), of t me] Cons.prems(2) by auto
  have d: "distinct (notifList e t)" using Cons.prems(1) by (simp add: notifWf_def)
  from Cons.IH [OF wf] Cons.prems(2) show ?case
    by (auto simp: nl remove1_distinct [OF d] fun_eq_iff)
qed

lemma register_shutting: "eqShuttingDown (registerNotifier t n e) = eqShuttingDown e"
  by (simp add: registerNotifier_def Let_def)

lemma register_all_shutting:
  "eqShuttingDown (foldl (\<lambda>e t. registerNotifier t n e) e ts) = eqShuttingDown e"
  by (induction ts arbitrary: e) (simp_all add: register_shutting)

lemma register_all:
  assumes "notifWf e" and "\<forall>t\<in>set ts. t < MLX_EVENT_TYPE_MAX" and "distinct ts" and "\<forall>t. me \<notin> set (notifList e t)"
  shows "notifWf (foldl (\<lambda>e t. registerNotifier t me e) e ts) \<and>
    notifList (foldl (\<lambda>e t. registerNotifier t me e) e ts) =
      (\<lambda>t. if t \<in> set ts \<and> \<not> eqShuttingDown e \<and> length (notifList e t) \<noteq> MLX_MAX_EVENT_NOTIFIERS
           then notifList e t @ [me] else notifList e t)"
  using assms
proof (induction ts rule: rev_induct)
  case Nil
  then show ?case by simp
next
  case (snoc t ts)
  let ?e = "foldl (\<lambda>e t. registerNotifier t me e) e ts"
  have ih: "notifWf ?e" "notifList ?e = (\<lambda>t. if t \<in> set ts \<and> \<not> eqShuttingDown e \<and>
      length (notifList e t) \<noteq> MLX_MAX_EVENT_NOTIFIERS then notifList e t @ [me] else notifList e t)"
    using snoc by auto
  have sd: "eqShuttingDown ?e = eqShuttingDown e"
    by (rule register_all_shutting)
  have "t < MLX_EVENT_TYPE_MAX" "t \<notin> set ts" using snoc.prems by auto
  then show ?case
    using notifier_table_spec [OF ih(1), of t me] snoc.prems(4) sd by (auto simp: ih(2) fun_eq_iff)
qed

lemma roceEventTypes_ok:
  "distinct roceEventTypes" "\<forall>t\<in>set roceEventTypes. t < MLX_EVENT_TYPE_MAX"
  by (simp_all add: roceEventTypes_def MLX_EVENT_TYPE_MAX_def MLX_EVENT_TYPE_WQ_CATAS_ERROR_def
      MLX_EVENT_TYPE_PATH_MIG_def MLX_EVENT_TYPE_COMM_EST_def MLX_EVENT_TYPE_COMPLETION_def
      MLX_EVENT_TYPE_DEVICE_FATAL_def MLX_EVENT_TYPE_PORT_STATE_CHANGE_def)

text \<open>The destructors empty their tables.\<close>

lemma destroyCQ_first:
  "fCqTable st = ctx # rest \<Longrightarrow> destroyCQ xc (cq_cqNumber ctx) st co = (kIOReturnSuccess, st', co') \<Longrightarrow>
   fCqTable st' = rest"
  by (auto simp: destroyCQ_def cqLookup_def cqRemove_def tblLookup_def tblRemove_def split: prod.splits if_splits)

lemma destroyCQ_failed:
  "destroyCQ xc h st co = (kr, st', co') \<Longrightarrow> kr \<noteq> kIOReturnSuccess \<Longrightarrow> st' = st"
  by (auto simp: destroyCQ_def split: prod.splits if_splits option.splits)

lemma cqFreeLoop_empties: "length (fCqTable st) = n \<Longrightarrow> fCqTable (fst (cqFreeLoop xc up n st co)) = []"
proof (induction n arbitrary: st co)
  case (Suc n)
  then obtain ctx rest where t: "fCqTable st = ctx # rest" "length rest = n" by (cases "fCqTable st") auto
  obtain kr st1 co1 where d: "(if up then destroyCQ xc (cq_cqNumber ctx) st co else (kIOReturnNotReady, st, co)) = (kr, st1, co1)"
    by (metis prod_cases3)
  show ?case
  proof (cases "kr = kIOReturnSuccess")
    case True
    then have "fCqTable st1 = rest" using d destroyCQ_first [OF t(1)] by (auto split: if_splits)
    then show ?thesis using Suc.IH [of st1] t d True by simp
  next
    case False
    then have "st1 = st" using d destroyCQ_failed by (auto split: if_splits)
    moreover obtain st2 co2 where dr: "cqDropFirst ctx (st1, co1) = (st2, co2)" by fastforce
    ultimately have "fCqTable st2 = rest"
      using t by (auto simp: cqDropFirst_def Let_def split: option.splits)
    then show ?thesis using Suc.IH [of st2] t d False dr by simp
  qed
qed simp

lemma deregMR_first:
  "fMrTable st = ctx # rest \<Longrightarrow> deregMR xc (mr_mrHandle ctx) st co = (kIOReturnSuccess, st', co') \<Longrightarrow>
   fMrTable st' = rest"
  by (auto simp: deregMR_def Let_def mrLookup_def mrRemove_def tblLookup_def tblRemove_def mrRelease_def
      split: prod.splits if_splits option.splits)

lemma deregMR_failed:
  "deregMR xc h st co = (kr, st', co') \<Longrightarrow> kr \<noteq> kIOReturnSuccess \<Longrightarrow> st' = st"
  by (auto simp: deregMR_def Let_def split: prod.splits if_splits option.splits)

lemma mrFreeLoop_empties: "length (fMrTable st) = n \<Longrightarrow> fMrTable (fst (mrFreeLoop xc up n st co)) = []"
proof (induction n arbitrary: st co)
  case (Suc n)
  then obtain ctx rest where t: "fMrTable st = ctx # rest" "length rest = n" by (cases "fMrTable st") auto
  obtain kr st1 co1 where d: "(if up then deregMR xc (mr_mrHandle ctx) st co else (kIOReturnNotReady, st, co)) = (kr, st1, co1)"
    by (metis prod_cases3)
  show ?case
  proof (cases "kr = kIOReturnSuccess")
    case True
    then have "fMrTable st1 = rest" using d deregMR_first [OF t(1)] by (auto split: if_splits)
    then show ?thesis using Suc.IH [of st1] t d True by simp
  next
    case False
    then have "st1 = st" using d deregMR_failed by (auto split: if_splits)
    then show ?thesis using Suc.IH [of "st1\<lparr>fMrTable := tl (fMrTable st1)\<rparr>"] t d False by simp
  qed
qed simp

lemma cqFree_empty: "cqFree xc up st co = (cq, co') \<Longrightarrow> fCqTable cq = []"
  using cqFreeLoop_empties [OF refl, of xc up st co] by (simp add: cqFree_def)

lemma mrFree_empty: "mrFree xc up st co = (mr, co') \<Longrightarrow> fMrTable mr = []"
  using mrFreeLoop_empties [OF refl, of xc up st co] by (simp add: mrFree_def split: prod.splits)

definition tablesEmpty :: "'w MlxRoCE \<Rightarrow> bool" where
  "tablesEmpty ro \<longleftrightarrow> roQP ro = [] \<and> fCqTable (roCQ ro) = [] \<and> fMrTable (roMR ro) = [] \<and> fAhTable (roAH ro) = []"

definition tableGone :: "roceObj \<Rightarrow> 'w MlxRoCE \<Rightarrow> bool" where
  "tableGone x ro = (case x of RoQP \<Rightarrow> roQP ro = [] | RoCQ \<Rightarrow> fCqTable (roCQ ro) = []
     | RoMR \<Rightarrow> fMrTable (roMR ro) = [] | RoAH \<Rightarrow> fAhTable (roAH ro) = [] | _ \<Rightarrow> True)"

abbreviation roceReleaseAll :: "'w execFn \<Rightarrow> bool \<Rightarrow> roceObj list \<Rightarrow> 'w MlxRoCE \<Rightarrow> 'w MlxRoCE" where
  "roceReleaseAll xc up os ro \<equiv> foldl (\<lambda>ro x. roceRelease xc up x ro) ro os"

lemma roceRelease_objs: "roObjs (roceRelease xc up x ro) = removeAll x (roObjs ro)"
  by (cases x) (auto simp: roceRelease_def split: prod.splits)

lemma roceRelease_gone:
  "tableGone x ro \<or> x = y \<and> x \<in> set (roObjs ro) \<Longrightarrow> tableGone x (roceRelease xc up y ro)"
  by (cases y; cases x)
    (auto simp: roceRelease_def tableGone_def ahFree_def cqFree_empty mrFree_empty split: prod.splits)

lemma roceReleaseAll_objs: "roObjs (roceReleaseAll xc up os ro) = filter (\<lambda>x. x \<notin> set os) (roObjs ro)"
  by (induction os arbitrary: ro) (auto simp: roceRelease_objs removeAll_filter_not_eq intro: filter_cong)

lemma roceReleaseAll_gone:
  "tableGone x ro \<or> x \<in> set os \<and> x \<in> set (roObjs ro) \<Longrightarrow> tableGone x (roceReleaseAll xc up os ro)"
proof (induction os arbitrary: ro)
  case (Cons y os)
  have "tableGone x (roceRelease xc up y ro) \<or> x \<in> set os \<and> x \<in> set (roObjs (roceRelease xc up y ro))"
    using Cons.prems roceRelease_gone [of x ro y xc up] by (auto simp: roceRelease_objs)
  then show ?case using Cons.IH by simp
qed simp

lemma tablesEmpty_gone:
  "tableGone RoQP ro \<Longrightarrow> tableGone RoCQ ro \<Longrightarrow> tableGone RoMR ro \<Longrightarrow> tableGone RoAH ro \<Longrightarrow> tablesEmpty ro"
  by (simp add: tableGone_def tablesEmpty_def)

lemma roceObj_UNIV:
  "set [RoQP, RoCQ, RoMR, RoAH, RoCC, RoGID, RoResourceLock, RoEventLock, RoQpTable, RoCqTable, RoMrTable,
     RoWorkLoop, RoCore] = UNIV"
  (is "set ?os = UNIV")
proof -
  have "x \<in> set ?os" for x by (cases x) simp_all
  then show ?thesis by blast
qed

lemma cleanup_objs: "roObjs (snd (cleanupResources me xc up eq ro)) = []"
  unfolding cleanupResources_def snd_conv roceReleaseAll_objs roceObj_UNIV by simp

lemma cleanup_spec:
  assumes "notifWf e" and "cleanupResources me xc up (Some e) ro = (eq', ro')" and "RoCore \<in> set (roObjs ro)"
  shows "\<exists>e'. eq' = Some e' \<and> notifWf e' \<and> roObjs ro' = [] \<and>
    notifList e' = (\<lambda>t. if t \<in> set roceEventTypes then filter (\<lambda>n. n \<noteq> me) (notifList e t) else notifList e t)"
proof -
  have "eq' = Some (foldl (\<lambda>e t. unregisterNotifier t me e) e roceEventTypes)"
    using assms(2,3) by (simp only: cleanupResources_def roceEventTypes_def prod.inject option.case simp_thms if_True)
  moreover have "roObjs ro' = []" using cleanup_objs [of me xc up "Some e" ro] assms(2) by simp
  ultimately show ?thesis using unregister_all [OF assms(1) roceEventTypes_ok(2), of me] by blast
qed

lemma roceAdd_objs: "roObjs (roceAdd env x ro) = (if roNew env x then roObjs ro @ [x] else roObjs ro)"
  by (simp add: roceAdd_def)

lemma roceAdd_all:
  "set (roObjs ro) \<subseteq> set (roObjs (foldl (\<lambda>ro x. roceAdd env x ro) ro os)) \<and>
   (list_all (roNew env) os \<longrightarrow> roObjs (foldl (\<lambda>ro x. roceAdd env x ro) ro os) = roObjs ro @ os)"
proof (induction os arbitrary: ro)
  case (Cons x os)
  show ?case using Cons.IH [of "roceAdd env x ro"] by (auto simp: roceAdd_objs split: if_splits)
qed simp

lemma stageInit_objs:
  assumes "stageInit env ro = (ok, ro')"
  shows "set (roObjs ro) \<subseteq> set (roObjs ro') \<and>
    (ok \<longrightarrow> roObjs ro' = roObjs ro @ [RoResourceLock, RoWorkLoop, RoQpTable, RoCqTable, RoMrTable, RoEventLock])"
proof -
  let ?os = "[RoResourceLock, RoWorkLoop, RoQpTable, RoCqTable, RoMrTable, RoEventLock]"
  have "ok = list_all (roNew env) ?os" and "roObjs ro' = roObjs (foldl (\<lambda>ro x. roceAdd env x ro) ro ?os)"
    using assms by (simp_all only: stageInit_def Let_def prod.inject) (auto simp del: foldl_Cons)
  then show ?thesis using roceAdd_all [of ro env ?os] by presburger
qed

lemma stageGID_objs:
  assumes "stageGID xc env caps ro = (ok, ro')"
  shows "set (roObjs ro) \<subseteq> set (roObjs ro') \<and> (ok \<longrightarrow> roObjs ro' = roObjs ro @ [RoGID])"
proof -
  have "roNew env RoGID \<Longrightarrow> roObjs ro' = roObjs ro @ [RoGID]" and "\<not> roNew env RoGID \<Longrightarrow> ro' = ro \<and> \<not> ok"
    using assms by (auto simp: stageGID_def Let_def roceAdd_objs roceAdd_def split: prod.splits if_splits)
  then show ?thesis by (cases "roNew env RoGID") auto
qed

lemma roceCreate_objs:
  "roceCreate env os ro = (ok, ro') \<Longrightarrow>
   set (roObjs ro) \<subseteq> set (roObjs ro') \<and> (ok \<longrightarrow> roObjs ro' = roObjs ro @ os)"
  by (induction os arbitrary: ro) (fastforce simp: roceAdd_objs split: if_splits)+

lemma stageDevRes_objs:
  assumes "stageDevRes me env (Some e) ro = (ok, eq', ro')"
  shows "set (roObjs ro) \<subseteq> set (roObjs ro') \<and>
    (ok \<longrightarrow> roObjs ro' = roObjs ro @ [RoQP, RoCQ, RoMR, RoAH, RoCC]) \<and>
    eq' = Some (if ok then foldl (\<lambda>e t. registerNotifier t me e) e roceEventTypes else e)"
proof -
  obtain ok1 ro1 where c: "roceCreate env [RoQP, RoCQ, RoMR, RoAH, RoCC] ro = (ok1, ro1)" by fastforce
  show ?thesis using roceCreate_objs [OF c] assms c by (auto simp: stageDevRes_def Let_def split: if_splits)
qed

text \<open>Stopping takes back every registration, whatever the verbs did in between.\<close>

definition stopsClean :: "nat \<Rightarrow> 'w execFn \<Rightarrow> bool \<Rightarrow> (nat \<Rightarrow> nat list) \<Rightarrow> MlxEQ option \<Rightarrow> 'w MlxRoCE \<Rightarrow> bool" where
  "stopsClean me xc up nl eq ro =
     (case roceStop me xc up eq ro of
        (eq', ro') \<Rightarrow> roObjs ro' = [] \<and> tablesEmpty ro' \<and> map_option notifList eq' = Some nl)"

lemma cleanup_tables:
  "set (roObjs ro) = UNIV \<Longrightarrow> tablesEmpty (snd (cleanupResources me xc up eq ro))"
  unfolding cleanupResources_def snd_conv by (intro tablesEmpty_gone roceReleaseAll_gone disjI2) simp_all

lemma cleanup_restores:
  assumes "notifWf e" and "notifList e = (\<lambda>t. if t \<in> set roceEventTypes \<and> c t then f t @ [me] else f t)"
    and "\<forall>t. me \<notin> set (f t)" and "RoCore \<in> set (roObjs ro)"
    and run: "cleanupResources me xc up (Some e) ro = (eq', ro')"
  shows "\<exists>e'. eq' = Some e' \<and> notifWf e' \<and> roObjs ro' = [] \<and> notifList e' = f"
proof -
  from cleanup_spec [OF assms(1) run assms(4)] obtain e' where e': "eq' = Some e'" "notifWf e'" "roObjs ro' = []"
    "notifList e' = (\<lambda>t. if t \<in> set roceEventTypes then filter (\<lambda>n. n \<noteq> me) (notifList e t) else notifList e t)"
    by blast
  have "filter (\<lambda>n. n \<noteq> me) (f t) = f t" for t using assms(3) by (auto simp: filter_id_conv)
  then have "notifList e' = f" by (auto simp: e'(4) assms(2) fun_eq_iff)
  then show ?thesis using e' by blast
qed

text \<open>C23: Starting the verbs device is all or nothing and stopping undoes it. When the start
  fails, at whatever stage, no object is left and the notifier table of the event queues is as
  before. When it succeeds the device supports RoCE, every object exists, and the device is
  registered for exactly its event types, in each case unless that type's list was full or the
  event queues were shutting down; then stopping it from any later state, whatever was
  created in the meantime, leaves no object, empty QP, CQ, MR and AH tables, and the notifier
  table it started from.\<close>

theorem roce_lifecycle:
  assumes "notifWf e" and "\<forall>t. me \<notin> set (notifList e t)" and "roObjs ro = []"
    and run: "roceStart me xc up env publish caps (Some e) ro = (ok, eq', ro')"
  shows "if ok
    then hc_roce caps \<and> set (roObjs ro') = UNIV \<and>
      map_option notifList eq' = Some (\<lambda>t. if t \<in> set roceEventTypes \<and> \<not> eqShuttingDown e \<and>
          length (notifList e t) \<noteq> MLX_MAX_EVENT_NOTIFIERS then notifList e t @ [me] else notifList e t) \<and>
      (\<forall>ro2 xc2 up2. roObjs ro2 = roObjs ro' \<longrightarrow> stopsClean me xc2 up2 (notifList e) eq' ro2)
    else roObjs ro' = [] \<and> map_option notifList eq' = Some (notifList e)"
proof (cases publish)
  case False
  then show ?thesis using run assms(3) by (auto simp: roceStart_def)
next
  case True
  let ?ro0 = "ro\<lparr>roObjs := roObjs ro @ [RoCore]\<rparr>"
  have fail: "roObjs r' = [] \<and> map_option notifList q = Some (notifList e)"
    if "cleanupResources me xc up (Some e) r = (q, r')" "RoCore \<in> set (roObjs r)" for r q r'
    using cleanup_restores [where c = "\<lambda>t. False" and f = "notifList e", OF assms(1) _ assms(2) that(2,1)] by auto
  obtain ok1 ro1 where s1: "stageInit env ?ro0 = (ok1, ro1)" by fastforce
  obtain ok2 ro2 where s2: "stageGID xc env caps ro1 = (ok2, ro2)" by fastforce
  obtain ok3 eq3 ro3 where s3: "stageDevRes me env (Some e) ro2 = (ok3, eq3, ro3)" by (metis prod_cases3)
  note o = stageInit_objs [OF s1] stageGID_objs [OF s2] stageDevRes_objs [OF s3]
  have core: "RoCore \<in> set (roObjs ro1)" "RoCore \<in> set (roObjs ro2)" "RoCore \<in> set (roObjs ro3)" using o by auto
  note run1 = run [unfolded roceStart_def Let_def s1 prod.case]
  show ?thesis
  proof (cases "ok1 \<and> stageCaps caps \<and> ok2 \<and> ok3")
    case False
    have "\<exists>r. RoCore \<in> set (roObjs r) \<and> cleanupResources me xc up (Some e) r = (eq', ro')" and "\<not> ok"
      using run1 True False core o(3) s2 s3 by (auto split: if_splits prod.splits)
    then show ?thesis using fail by auto
  next
    case oks: True
    then have r: "ok" "eq' = eq3" "ro' = ro3" using run1 True s2 s3 by simp_all
    let ?e3 = "foldl (\<lambda>e t. registerNotifier t me e) e roceEventTypes"
    have e3: "eq' = Some ?e3" using o(3) oks r by simp
    note reg = register_all [OF assms(1) roceEventTypes_ok(2,1) assms(2)]
    have "x \<in> set (roObjs ro')" for x using o oks r assms(3) by (cases x) simp_all
    then have objs: "set (roObjs ro') = UNIV" by blast
    have "stopsClean me xc2 up2 (notifList e) eq' r" if rr: "roObjs r = roObjs ro'" for r xc2 up2
    proof -
      obtain q r' where c: "cleanupResources me xc2 up2 (Some ?e3) r = (q, r')" by fastforce
      have "RoCore \<in> set (roObjs r)" using rr objs by simp
      from cleanup_restores [where c = "\<lambda>t. \<not> eqShuttingDown e \<and> length (notifList e t) \<noteq> MLX_MAX_EVENT_NOTIFIERS"
          and f = "notifList e", OF conjunct1 [OF reg] conjunct2 [OF reg] assms(2) this c]
      show ?thesis using cleanup_tables [of r me xc2 up2 "Some ?e3"] rr objs c e3 by (auto simp: stopsClean_def roceStop_def)
    qed
    then have "\<forall>ro2 xc2 up2. roObjs ro2 = roObjs ro' \<longrightarrow> stopsClean me xc2 up2 (notifList e) eq' ro2" by blast
    moreover have "hc_roce caps" using oks by (simp add: stageCaps_def)
    ultimately show ?thesis using r(1) objs e3 reg by simp
  qed
qed

definition allNew :: roceEnv where
  "allNew = \<lparr>roNew = (\<lambda>_. True), roOk = (\<lambda>_. True)\<rparr>"

definition ibCaps :: MlxHcaCaps where
  "ibCaps = zeroCaps\<lparr>hc_roce := True, hc_portType := MLX_PORT_TYPE_IB\<rparr>"

lemma roceStart_sample:
  "\<exists>eq' ro'. roceStart me xc True allNew True ibCaps (Some e) (roceInit co) = (True, eq', ro')"
  by (simp add: roceStart_def Let_def stageInit_def allNew_def stageCaps_def ibCaps_def stageGID_def
      roceAdd_def roceInit_def isIB_def stageDevRes_def)

theorem roce_lifecycle_witness:
  "\<exists>eq' ro'. roceStart 7 sampleXc True allNew True ibCaps (Some (snd (eqInit True True True 1))) (roceInit sampleCo) = (True, eq', ro') \<and>
    map_option (\<lambda>e. notifList e 9) eq' = Some [7] \<and> stopsClean 7 sampleXc True (\<lambda>_. []) eq' ro'"
proof -
  let ?e = "snd (eqInit True True True 1)"
  have nl: "notifList ?e = (\<lambda>_. [])" by (simp add: notifList_def eqInit_def Let_def fun_eq_iff)
  then have me: "\<forall>t. 7 \<notin> set (notifList ?e t)" by simp
  have sd: "\<not> eqShuttingDown ?e" by (simp add: eqInit_def Let_def)
  obtain eq' ro' where run: "roceStart 7 sampleXc True allNew True ibCaps (Some ?e) (roceInit sampleCo) = (True, eq', ro')"
    using roceStart_sample by blast
  have "9 \<in> set roceEventTypes" by (simp add: roceEventTypes_def MLX_EVENT_TYPE_PORT_STATE_CHANGE_def)
  with roce_lifecycle [OF notifWf_init me _ run, simplified nl] sd run show ?thesis
    by (auto simp: roceInit_def MLX_MAX_EVENT_NOTIFIERS_def)
qed

end
