(* ===== verification/MlxUserClient.thy ===== *)
theory MlxUserClient
  imports MlxRoCE MlxHealth
begin

text \<open>
  \<^verbatim>\<open>Sources/userclient/MlxUserClient.{hpp,cpp}\<close>: one object per user process. It keeps the
  handles the process owns and lets each call through to the verbs device \<open>MlxRoCE\<close> only for
  those. An \<^verbatim>\<open>OSArray\<close> of 4-byte \<^verbatim>\<open>OSData\<close> is a list of handles, \<open>None\<close> the NULL array.
  A call returns the result code, what it wrote to the output buffer, and the two states.
\<close>

unbundle bit_operations_syntax

section \<open>State\<close>

record MlxUserClient =
  ucRoce :: bool
  ucTask :: nat
  fOwnedQp :: "u32 list option"
  fOwnedCq :: "u32 list option"
  fOwnedMr :: "u32 list option"
  fOwnedAh :: "u32 list option"
  fOwnedLock :: bool
  fActiveCq :: u32

definition ucInitWithTask :: "bool \<Rightarrow> bool \<Rightarrow> nat \<Rightarrow> MlxUserClient option" where
  "ucInitWithTask admin superInit owningTask =
     (if \<not> admin then None
      else if \<not> superInit then None
      else Some \<lparr>ucRoce = False, ucTask = owningTask, fOwnedQp = None, fOwnedCq = None, fOwnedMr = None,
             fOwnedAh = None, fOwnedLock = False, fActiveCq = 0\<rparr>)"

section \<open>The ownership tables\<close>

definition addOwned :: "bool \<Rightarrow> bool \<Rightarrow> u32 \<Rightarrow> u32 list option \<Rightarrow> bool \<times> u32 list option" where
  "addOwned lock ok handle table =
     (case table of
        None \<Rightarrow> (False, None)
      | Some xs \<Rightarrow> if lock \<and> ok then (True, Some (xs @ [handle])) else (False, table))"

definition removeOwned :: "bool \<Rightarrow> u32 \<Rightarrow> u32 list option \<Rightarrow> bool \<times> u32 list option" where
  "removeOwned lock handle table =
     (case table of
        None \<Rightarrow> (False, None)
      | Some xs \<Rightarrow> if lock \<and> handle \<in> set xs then (True, Some (remove1 handle xs)) else (False, table))"

definition owns :: "bool \<Rightarrow> u32 \<Rightarrow> u32 list option \<Rightarrow> bool" where
  "owns lock handle table = (case table of None \<Rightarrow> False | Some xs \<Rightarrow> lock \<and> handle \<in> set xs)"

definition takeOwned :: "bool \<Rightarrow> u32 list option \<Rightarrow> u32 option \<times> u32 list option" where
  "takeOwned lock table =
     (case table of
        None \<Rightarrow> (None, None)
      | Some xs \<Rightarrow>
          if \<not> lock then (None, table)
          else (case xs of [] \<Rightarrow> (None, table) | h # hs \<Rightarrow> (Some h, Some hs)))"

text \<open>\<^verbatim>\<open>while (takeOwned(table, &handle)) f(handle)\<close>\<close>

function releaseWhile ::
  "bool \<Rightarrow> (u32 \<Rightarrow> 'w MlxRoCE \<Rightarrow> 'w MlxRoCE) \<Rightarrow> u32 list option \<Rightarrow> 'w MlxRoCE \<Rightarrow> u32 list option \<times> 'w MlxRoCE" where
  "releaseWhile lock f table ro =
     (case takeOwned lock table of
        (None, table') \<Rightarrow> (table', ro)
      | (Some h, table') \<Rightarrow> releaseWhile lock f table' (f h ro))"
  by pat_completeness auto
termination
  by (relation "measure (\<lambda>(lock, f, table, ro). case table of None \<Rightarrow> 0 | Some xs \<Rightarrow> length xs)")
    (auto simp: takeOwned_def split: option.splits list.splits if_splits)

definition releaseOwnedResources ::
  "'w execFn \<Rightarrow> MlxUserClient \<Rightarrow> 'w MlxRoCE \<Rightarrow> MlxUserClient \<times> 'w MlxRoCE" where
  "releaseOwnedResources xc uc ro =
     (if \<not> ucRoce uc then (uc, ro)
      else
        (let lock = fOwnedLock uc;
             (qp, ro) = releaseWhile lock (\<lambda>h ro. snd (roceDestroyQP xc h ro)) (fOwnedQp uc) ro;
             (mr, ro) = releaseWhile lock (\<lambda>h ro. snd (roceDeregMR xc h ro)) (fOwnedMr uc) ro;
             (ah, ro) = releaseWhile lock (\<lambda>h ro. snd (roceDestroyAH h ro)) (fOwnedAh uc) ro;
             (cq, ro) = releaseWhile lock (\<lambda>h ro. snd (roceDestroyCQ xc h ro)) (fOwnedCq uc) ro
         in (uc\<lparr>fOwnedQp := qp, fOwnedMr := mr, fOwnedAh := ah, fOwnedCq := cq, fActiveCq := 0\<rparr>, ro)))"

definition ucCleanup :: "'w execFn \<Rightarrow> MlxUserClient \<Rightarrow> 'w MlxRoCE \<Rightarrow> MlxUserClient \<times> 'w MlxRoCE" where
  "ucCleanup xc uc ro =
     (case releaseOwnedResources xc uc ro of
        (uc, ro) \<Rightarrow>
          (uc\<lparr>fOwnedQp := None, fOwnedCq := None, fOwnedMr := None, fOwnedAh := None, fOwnedLock := False,
              ucRoce := False\<rparr>, ro))"

text \<open>\<open>al\<close> answers the five allocations; \<open>isRoce\<close> the dynamic cast of the provider.\<close>

definition ucStart ::
  "'w execFn \<Rightarrow> bool \<Rightarrow> bool \<Rightarrow> (nat \<Rightarrow> bool) \<Rightarrow> MlxUserClient \<Rightarrow> 'w MlxRoCE \<Rightarrow> bool \<times> MlxUserClient \<times> 'w MlxRoCE" where
  "ucStart xc superStart isRoce al uc ro =
     (if \<not> superStart then (False, uc, ro)
      else if \<not> isRoce then (False, uc\<lparr>ucRoce := False\<rparr>, ro)
      else
        (let table = (\<lambda>i. if al i then Some [] else None);
             uc = uc\<lparr>ucRoce := True, fOwnedQp := table 0, fOwnedCq := table 1, fOwnedMr := table 2,
                     fOwnedAh := table 3, fOwnedLock := al 4\<rparr>
         in if \<not> al 0 \<or> \<not> al 1 \<or> \<not> al 2 \<or> \<not> al 3 \<or> \<not> al 4
            then (case ucCleanup xc uc ro of (uc, ro) \<Rightarrow> (False, uc, ro))
            else (True, uc, ro)))"

definition ucStop :: "'w execFn \<Rightarrow> MlxUserClient \<Rightarrow> 'w MlxRoCE \<Rightarrow> MlxUserClient \<times> 'w MlxRoCE" where
  "ucStop xc uc ro = ucCleanup xc uc ro"

definition clientClose :: "'w execFn \<Rightarrow> MlxUserClient \<Rightarrow> 'w MlxRoCE \<Rightarrow> MlxUserClient \<times> 'w MlxRoCE" where
  "clientClose xc uc ro = ucCleanup xc uc ro"

text \<open>The memory types a process may map: only the ring of its one CQ.\<close>

definition kMlxUCMemIndexUar :: u32 where "kMlxUCMemIndexUar = 0"
definition kMlxUCMemIndexDbRecord :: u32 where "kMlxUCMemIndexDbRecord = 1"
definition kMlxUCMemIndexCqe :: u32 where "kMlxUCMemIndexCqe = 2"

definition clientMemoryForType :: "u32 \<Rightarrow> bool \<Rightarrow> MlxUserClient \<Rightarrow> 'w MlxRoCE \<Rightarrow> ioreturn \<times> nat option" where
  "clientMemoryForType type ptrs uc ro =
     (if \<not> ptrs then (kIOReturnBadArgument, None)
      else if type = kMlxUCMemIndexUar then (kIOReturnUnsupported, None)
      else if type = kMlxUCMemIndexCqe
      then (if RoCQ \<in> set (roObjs ro) \<and> fActiveCq uc \<noteq> 0
            then (case getCqMemDesc (fActiveCq uc) (roCQ ro) of
                    Some desc \<Rightarrow> (kIOReturnSuccess, Some desc)
                  | None \<Rightarrow> (kIOReturnUnsupported, None))
            else (kIOReturnUnsupported, None))
      else if type = kMlxUCMemIndexDbRecord then (kIOReturnUnsupported, None)
      else (kIOReturnUnsupported, None))"

section \<open>The calls\<close>

text \<open>
  What a call reads from outside the model: \<open>ueAdd\<close> whether \<^verbatim>\<open>addOwned\<close> finds memory, the
  answers the verbs objects need, and the fields of the core driver the queries read.
\<close>

record ucEnv =
  ueAdd :: bool
  ueQp :: QpEnv
  ueCq :: CqEnv
  ueCqEqn :: u32
  ueMr :: MrEnv
  ueAhAlloc :: bool
  ueAhAdded :: bool
  ueHca :: "MlxHCA option"
  ueFwRev :: u32
  ueCmdifRev :: u32
  ueHealth :: "MlxHealth option"
  ueRoceHca :: MlxHCA

text \<open>The argument buffers, as each method casts them: \<open>None\<close> for a NULL pointer, \<open>aOut\<close>
  whether there is an output buffer, \<open>aPort\<close> what \<open>queryPort\<close>'s held before.\<close>

record ucArgs =
  aOut :: bool
  aHandle :: u32
  aVirt :: "u64 option"
  aCreateQp :: "mlx_create_qp_req option"
  aModifyQp :: "mlx_modify_qp_req option"
  aEntries :: u32
  aRegMr :: "mlx_reg_mr_req option"
  aCreateAh :: "mlx_create_ah_req option"
  aCc :: "mlx_cc_params option"
  aCqHandle :: "u32 option"
  aConsumer :: "(u32 \<times> u32) option"
  aPort :: mlx_query_port_resp

record mlx_fw_ver_resp =
  fv_fwRev :: u32
  fv_cmdifRev :: u32
  fv_deviceId :: u16
  fv_portType :: u8
  fv_numPorts :: u32

record mlx_port_stats_resp =
  ps_counters :: "u64 list"
  ps_linkSpeed :: u32
  ps_linkState :: u8
  ps_portNum :: u8

datatype ucOut =
    NoOut
  | OutDevice mlx_query_device_resp
  | OutPort mlx_query_port_resp
  | OutQp mlx_create_qp_resp
  | OutCq mlx_create_cq_resp
  | OutMr mlx_reg_mr_resp
  | OutAh u32
  | OutU32 u32
  | OutU64 u64
  | OutCc mlx_cc_params
  | OutStats mlx_port_stats_resp
  | OutFwVer mlx_fw_ver_resp
  | OutEvent mlx_async_event

definition outOf :: "('a \<Rightarrow> ucOut) \<Rightarrow> 'a option \<Rightarrow> ucOut" where
  "outOf c x = (case x of None \<Rightarrow> NoOut | Some a \<Rightarrow> c a)"

type_synonym 'w ucResult = "ioreturn \<times> ucOut \<times> MlxUserClient \<times> 'w MlxRoCE"

definition ucQueryDevice :: "bool \<Rightarrow> ucEnv \<Rightarrow> MlxUserClient \<Rightarrow> 'w MlxRoCE \<Rightarrow> 'w ucResult" where
  "ucQueryDevice resp env uc ro =
     (if \<not> resp then (kIOReturnBadArgument, NoOut, uc, ro)
      else (kIOReturnSuccess, OutDevice (roceQueryDevice (ueRoceHca env)), uc, ro))"

definition ucQueryPort :: "bool \<Rightarrow> mlx_query_port_resp \<Rightarrow> ucEnv \<Rightarrow> MlxUserClient \<Rightarrow> 'w MlxRoCE \<Rightarrow> 'w ucResult" where
  "ucQueryPort resp old env uc ro =
     (if \<not> ucRoce uc \<or> \<not> resp then (kIOReturnBadArgument, NoOut, uc, ro)
      else (kIOReturnSuccess, OutPort (roceQueryPort (hcaCaps (ueRoceHca env)) old), uc, ro))"

definition ucCreateQP ::
  "'w execFn \<Rightarrow> ucEnv \<Rightarrow> mlx_create_qp_req option \<Rightarrow> bool \<Rightarrow> MlxUserClient \<Rightarrow> 'w MlxRoCE \<Rightarrow> 'w ucResult" where
  "ucCreateQP xc env req resp uc ro =
     (case req of
        None \<Rightarrow> (kIOReturnBadArgument, NoOut, uc, ro)
      | Some req \<Rightarrow>
          if \<not> resp then (kIOReturnBadArgument, NoOut, uc, ro)
          else if cq_pd req \<noteq> 1 \<or> \<not> owns (fOwnedLock uc) (cq_sendCq req) (fOwnedCq uc) \<or>
            \<not> owns (fOwnedLock uc) (cq_recvCq req) (fOwnedCq uc)
          then (kIOReturnNotPermitted, NoOut, uc, ro)
          else
            (case roceCreateQP xc (ueQp env) req ro of
               (kr, r, ro) \<Rightarrow>
                 if kr = kIOReturnSuccess
                 then (let qpn = (case r of None \<Rightarrow> 0 | Some r \<Rightarrow> cr_qpn r);
                           (added, table) = addOwned (fOwnedLock uc) (ueAdd env) qpn (fOwnedQp uc)
                       in if \<not> added
                          then (kIOReturnNoMemory, outOf OutQp r, uc, snd (roceDestroyQP xc qpn ro))
                          else (kr, outOf OutQp r, uc\<lparr>fOwnedQp := table\<rparr>, ro))
                 else (kr, outOf OutQp r, uc, ro)))"

definition ucModifyQP ::
  "'w execFn \<Rightarrow> ucEnv \<Rightarrow> mlx_modify_qp_req option \<Rightarrow> MlxUserClient \<Rightarrow> 'w MlxRoCE \<Rightarrow> 'w ucResult" where
  "ucModifyQP xc env req uc ro =
     (case req of
        None \<Rightarrow> (kIOReturnBadArgument, NoOut, uc, ro)
      | Some q \<Rightarrow>
          (let (found, table) = removeOwned (fOwnedLock uc) (mq_qpn q) (fOwnedQp uc)
           in if \<not> found then (kIOReturnNotPermitted, NoOut, uc, ro)
              else
                (case roceModifyQP xc req ro of
                   (kr, ro) \<Rightarrow>
                     (kr, NoOut, uc\<lparr>fOwnedQp := snd (addOwned (fOwnedLock uc) (ueAdd env) (mq_qpn q) table)\<rparr>, ro))))"

definition ucDestroyQP :: "'w execFn \<Rightarrow> ucEnv \<Rightarrow> u32 \<Rightarrow> MlxUserClient \<Rightarrow> 'w MlxRoCE \<Rightarrow> 'w ucResult" where
  "ucDestroyQP xc env qpn uc ro =
     (let (found, table) = removeOwned (fOwnedLock uc) qpn (fOwnedQp uc)
      in if \<not> found then (kIOReturnNotPermitted, NoOut, uc, ro)
         else
           (case roceDestroyQP xc qpn ro of
              (kr, ro) \<Rightarrow>
                (kr, NoOut,
                 uc\<lparr>fOwnedQp := (if kr \<noteq> kIOReturnSuccess
                     then snd (addOwned (fOwnedLock uc) (ueAdd env) qpn table) else table)\<rparr>, ro)))"

text \<open>\<open>None\<close> is the call that does not return.\<close>

definition ucCreateCQ ::
  "'w execFn \<Rightarrow> ucEnv \<Rightarrow> u32 \<Rightarrow> bool \<Rightarrow> MlxUserClient \<Rightarrow> 'w MlxRoCE \<Rightarrow> 'w ucResult option" where
  "ucCreateCQ xc env entries resp uc ro =
     (if \<not> ucRoce uc \<or> \<not> resp \<or> fActiveCq uc \<noteq> 0 then Some (kIOReturnBadArgument, NoOut, uc, ro)
      else
        (case roceCreateCQ xc (ueCq env) True entries (ueCqEqn env) ro of
           None \<Rightarrow> None
         | Some (kr, r, ro) \<Rightarrow>
             if kr = kIOReturnSuccess
             then (let h = (case r of None \<Rightarrow> 0 | Some r \<Rightarrow> cqr_cqHandle r);
                       (added, table) = addOwned (fOwnedLock uc) (ueAdd env) h (fOwnedCq uc)
                   in if \<not> added
                      then Some (kIOReturnNoMemory, outOf OutCq r, uc, snd (roceDestroyCQ xc h ro))
                      else Some (kr, outOf OutCq r, uc\<lparr>fOwnedCq := table, fActiveCq := h\<rparr>, ro))
             else Some (kr, outOf OutCq r, uc, ro)))"

definition ucDestroyCQ :: "'w execFn \<Rightarrow> ucEnv \<Rightarrow> u32 \<Rightarrow> MlxUserClient \<Rightarrow> 'w MlxRoCE \<Rightarrow> 'w ucResult" where
  "ucDestroyCQ xc env cqHandle uc ro =
     (let (found, table) = removeOwned (fOwnedLock uc) cqHandle (fOwnedCq uc);
          back = snd (addOwned (fOwnedLock uc) (ueAdd env) cqHandle table)
      in if \<not> found then (kIOReturnNotPermitted, NoOut, uc, ro)
         else if fOwnedQp uc \<noteq> None \<and> fOwnedQp uc \<noteq> Some []
         then (kIOReturnBusy, NoOut, uc\<lparr>fOwnedCq := back\<rparr>, ro)
         else
           (case roceDestroyCQ xc cqHandle ro of
              (kr, ro) \<Rightarrow>
                if kr \<noteq> kIOReturnSuccess then (kr, NoOut, uc\<lparr>fOwnedCq := back\<rparr>, ro)
                else (kr, NoOut,
                      uc\<lparr>fOwnedCq := table,
                         fActiveCq := (if fActiveCq uc = cqHandle then 0 else fActiveCq uc)\<rparr>, ro)))"

definition ucUpdateCqConsumer :: "u32 \<Rightarrow> u32 \<Rightarrow> MlxUserClient \<Rightarrow> 'w MlxRoCE \<Rightarrow> 'w ucResult" where
  "ucUpdateCqConsumer cqHandle consumerIndex uc ro =
     (if \<not> ucRoce uc then (kIOReturnNotReady, NoOut, uc, ro)
      else if \<not> owns (fOwnedLock uc) cqHandle (fOwnedCq uc) then (kIOReturnNotPermitted, NoOut, uc, ro)
      else
        (case updateCqConsumer cqHandle consumerIndex (roCQ ro) (roCo ro) of
           (kr, co) \<Rightarrow> (kr, NoOut, uc, ro\<lparr>roCo := co\<rparr>)))"

definition ucRegMR ::
  "'w execFn \<Rightarrow> ucEnv \<Rightarrow> mlx_reg_mr_req option \<Rightarrow> bool \<Rightarrow> MlxUserClient \<Rightarrow> 'w MlxRoCE \<Rightarrow> 'w ucResult option" where
  "ucRegMR xc env req resp uc ro =
     (if req = None \<or> \<not> resp then Some (kIOReturnBadArgument, NoOut, uc, ro)
      else
        (case roceRegMR xc (ueMr env) req ro of
           None \<Rightarrow> None
         | Some (kr, r, ro) \<Rightarrow>
             if kr = kIOReturnSuccess
             then (let h = (case r of None \<Rightarrow> 0 | Some r \<Rightarrow> rmr_mrHandle r);
                       (added, table) = addOwned (fOwnedLock uc) (ueAdd env) h (fOwnedMr uc)
                   in if \<not> added
                      then Some (kIOReturnNoMemory, outOf OutMr r, uc, snd (roceDeregMR xc h ro))
                      else Some (kr, outOf OutMr r, uc\<lparr>fOwnedMr := table\<rparr>, ro))
             else Some (kr, outOf OutMr r, uc, ro)))"

definition ucDeregMR :: "'w execFn \<Rightarrow> ucEnv \<Rightarrow> u32 \<Rightarrow> MlxUserClient \<Rightarrow> 'w MlxRoCE \<Rightarrow> 'w ucResult" where
  "ucDeregMR xc env mrHandle uc ro =
     (let (found, table) = removeOwned (fOwnedLock uc) mrHandle (fOwnedMr uc)
      in if \<not> found then (kIOReturnNotPermitted, NoOut, uc, ro)
         else
           (case roceDeregMR xc mrHandle ro of
              (kr, ro) \<Rightarrow>
                (kr, NoOut,
                 uc\<lparr>fOwnedMr := (if kr \<noteq> kIOReturnSuccess
                     then snd (addOwned (fOwnedLock uc) (ueAdd env) mrHandle table) else table)\<rparr>, ro)))"

definition ucCreateAH ::
  "ucEnv \<Rightarrow> mlx_create_ah_req option \<Rightarrow> bool \<Rightarrow> MlxUserClient \<Rightarrow> 'w MlxRoCE \<Rightarrow> 'w ucResult" where
  "ucCreateAH env req resp uc ro =
     (if req = None \<or> \<not> resp then (kIOReturnBadArgument, NoOut, uc, ro)
      else
        (case roceCreateAH (ueAhAlloc env) (ueAhAdded env) req ro of
           (kr, r, ro) \<Rightarrow>
             if kr = kIOReturnSuccess
             then (let h = (case r of None \<Rightarrow> 0 | Some h \<Rightarrow> h);
                       (added, table) = addOwned (fOwnedLock uc) (ueAdd env) h (fOwnedAh uc)
                   in if \<not> added
                      then (kIOReturnNoMemory, outOf OutAh r, uc, snd (roceDestroyAH h ro))
                      else (kr, outOf OutAh r, uc\<lparr>fOwnedAh := table\<rparr>, ro))
             else (kr, outOf OutAh r, uc, ro)))"

definition ucDestroyAH :: "ucEnv \<Rightarrow> u32 \<Rightarrow> MlxUserClient \<Rightarrow> 'w MlxRoCE \<Rightarrow> 'w ucResult" where
  "ucDestroyAH env ahHandle uc ro =
     (let (found, table) = removeOwned (fOwnedLock uc) ahHandle (fOwnedAh uc)
      in if \<not> found then (kIOReturnNotPermitted, NoOut, uc, ro)
         else
           (case roceDestroyAH ahHandle ro of
              (kr, ro) \<Rightarrow>
                (kr, NoOut,
                 uc\<lparr>fOwnedAh := (if kr \<noteq> kIOReturnSuccess
                     then snd (addOwned (fOwnedLock uc) (ueAdd env) ahHandle table) else table)\<rparr>, ro)))"

section \<open>The other methods\<close>

definition sGetGidIndex :: "bool \<Rightarrow> MlxUserClient \<Rightarrow> 'w MlxRoCE \<Rightarrow> 'w ucResult" where
  "sGetGidIndex out uc ro =
     (if \<not> out \<or> RoGID \<notin> set (roObjs ro) then (kIOReturnNoResources, NoOut, uc, ro)
      else
        (case allocGIDIndex (roGID ro) of
           (index, g) \<Rightarrow>
             if index = 0xFFFFFFFF then (kIOReturnNoResources, NoOut, uc, ro\<lparr>roGID := g\<rparr>)
             else (kIOReturnSuccess, OutU32 index, uc, ro\<lparr>roGID := g\<rparr>)))"

definition sCCQuery :: "bool \<Rightarrow> MlxUserClient \<Rightarrow> 'w MlxRoCE \<Rightarrow> 'w ucResult" where
  "sCCQuery out uc ro =
     (if RoCC \<in> set (roObjs ro)
      then (case queryParams out (roCC ro) of (kr, p) \<Rightarrow> (kr, outOf OutCc p, uc, ro))
      else (kIOReturnNoResources, NoOut, uc, ro))"

definition sCCModify :: "'w execFn \<Rightarrow> mlx_cc_params option \<Rightarrow> MlxUserClient \<Rightarrow> 'w MlxRoCE \<Rightarrow> 'w ucResult" where
  "sCCModify xc p uc ro =
     (if RoCC \<in> set (roObjs ro)
      then (case modifyParams xc p (roCC ro) (roCo ro) of
              (kr, cc, co) \<Rightarrow> (kr, NoOut, uc, ro\<lparr>roCC := cc, roCo := co\<rparr>))
      else (kIOReturnNoResources, NoOut, uc, ro))"

definition sAccessReg :: "MlxUserClient \<Rightarrow> 'w MlxRoCE \<Rightarrow> 'w ucResult" where
  "sAccessReg uc ro = (kIOReturnUnsupported, NoOut, uc, ro)"

definition sFwCmd :: "MlxUserClient \<Rightarrow> 'w MlxRoCE \<Rightarrow> 'w ucResult" where
  "sFwCmd uc ro = (kIOReturnUnsupported, NoOut, uc, ro)"

definition sFwReset :: "MlxUserClient \<Rightarrow> 'w MlxRoCE \<Rightarrow> 'w ucResult" where
  "sFwReset uc ro = (kIOReturnUnsupported, NoOut, uc, ro)"

definition sQueryPages :: "'w execFn \<Rightarrow> bool \<Rightarrow> MlxUserClient \<Rightarrow> 'w MlxRoCE \<Rightarrow> 'w ucResult" where
  "sQueryPages xc out uc ro =
     (let inb = OSWriteBigInt16 (OSWriteBigInt16 (replicate 16 0) 0 (ucast MLX_CMD_OP_QUERY_PAGES)) 2 1
      in case coExec xc MLX_CMD_OP_QUERY_PAGES inb 32 (roCo ro) of
           (kr, o', co) \<Rightarrow>
             if kr \<noteq> kIOReturnSuccess then (kr, NoOut, uc, ro\<lparr>roCo := co\<rparr>)
             else (kIOReturnSuccess,
                   if out then OutU64 (ucast (ucast (mlxGetBits o' 0x60 32) :: u32)) else NoOut,
                   uc, ro\<lparr>roCo := co\<rparr>))"

definition sPortStats :: "bool \<Rightarrow> MlxUserClient \<Rightarrow> 'w MlxRoCE \<Rightarrow> 'w ucResult" where
  "sPortStats out uc ro =
     (if \<not> out then (kIOReturnBadArgument, NoOut, uc, ro)
      else (kIOReturnSuccess,
            OutStats \<lparr>ps_counters = replicate 8 0, ps_linkSpeed = 10000, ps_linkState = 1, ps_portNum = 1\<rparr>,
            uc, ro))"

definition sQueryFwVer :: "ucEnv \<Rightarrow> bool \<Rightarrow> MlxUserClient \<Rightarrow> 'w MlxRoCE \<Rightarrow> 'w ucResult" where
  "sQueryFwVer env out uc ro =
     (if \<not> out then (kIOReturnBadArgument, NoOut, uc, ro)
      else (kIOReturnSuccess,
            OutFwVer (case ueHca env of
                Some h \<Rightarrow> \<lparr>fv_fwRev = ueFwRev env, fv_cmdifRev = ueCmdifRev env,
                  fv_deviceId = vi_deviceId (hcaVendor h), fv_portType = hc_portType (hcaCaps h),
                  fv_numPorts = hc_numPorts (hcaCaps h)\<rparr>
              | None \<Rightarrow> \<lparr>fv_fwRev = ueFwRev env, fv_cmdifRev = ueCmdifRev env,
                  fv_deviceId = 0x1017, fv_portType = 1, fv_numPorts = 1\<rparr>),
            uc, ro))"

definition sQueryHealth :: "ucEnv \<Rightarrow> bool \<Rightarrow> MlxUserClient \<Rightarrow> 'w MlxRoCE \<Rightarrow> 'w ucResult" where
  "sQueryHealth env out uc ro =
     (if \<not> out then (kIOReturnBadArgument, NoOut, uc, ro)
      else (kIOReturnSuccess,
            OutU32 (case ueHealth env of Some h \<Rightarrow> of_bool (isHealthy h) | None \<Rightarrow> 1), uc, ro))"

definition sVirtToPhys :: "u64 option \<Rightarrow> bool \<Rightarrow> MlxUserClient \<Rightarrow> 'w MlxRoCE \<Rightarrow> 'w ucResult" where
  "sVirtToPhys virt out uc ro =
     (case virt of
        None \<Rightarrow> (kIOReturnBadArgument, NoOut, uc, ro)
      | Some virt \<Rightarrow>
          if \<not> out then (kIOReturnBadArgument, NoOut, uc, ro)
          else
            (let phys = lookupPhys (ucTask uc) virt (coDma (roCo ro))
             in if phys = 0 then (kIOReturnNotFound, NoOut, uc, ro)
                else (kIOReturnSuccess, OutU64 phys, uc, ro)))"

definition sQueryCqCompletions :: "u32 option \<Rightarrow> bool \<Rightarrow> MlxUserClient \<Rightarrow> 'w MlxRoCE \<Rightarrow> 'w ucResult" where
  "sQueryCqCompletions h out uc ro =
     (case h of
        None \<Rightarrow> (kIOReturnBadArgument, NoOut, uc, ro)
      | Some cqHandle \<Rightarrow>
          if \<not> out then (kIOReturnBadArgument, NoOut, uc, ro)
          else if \<not> owns (fOwnedLock uc) cqHandle (fOwnedCq uc) then (kIOReturnNotPermitted, NoOut, uc, ro)
          else (kIOReturnSuccess, OutU64 (getCompletions cqHandle (roCQ ro)), uc, ro))"

definition sGetAsyncEvent :: "bool \<Rightarrow> MlxUserClient \<Rightarrow> 'w MlxRoCE \<Rightarrow> 'w ucResult" where
  "sGetAsyncEvent out uc ro =
     (if \<not> out then (kIOReturnBadArgument, NoOut, uc, ro)
      else (case getAsyncEvent True ro of (kr, e, ro) \<Rightarrow> (kr, outOf OutEvent e, uc, ro)))"

definition sUpdateCqConsumer :: "(u32 \<times> u32) option \<Rightarrow> MlxUserClient \<Rightarrow> 'w MlxRoCE \<Rightarrow> 'w ucResult" where
  "sUpdateCqConsumer req uc ro =
     (case req of
        None \<Rightarrow> (kIOReturnBadArgument, NoOut, uc, ro)
      | Some (cqHandle, consumerIndex) \<Rightarrow> ucUpdateCqConsumer cqHandle consumerIndex uc ro)"

section \<open>Dispatch\<close>

datatype ucMethod =
    QueryDevice | QueryPort | CreateQP | ModifyQP | DestroyQP | CreateCQ | DestroyCQ | RegMR | DeregMR
  | CreateAH | DestroyAH | GetGidIndex | CCQuery | CCModify | AccessReg | FwCmd | QueryPages | PortStats
  | FwReset | QueryFwVer | QueryHealth | VirtToPhys | QueryCqCompletions | GetAsyncEvent | UpdateCqConsumer

text \<open>The table: the method, the input and the output size it declares (the structs of
  \<^verbatim>\<open>MlxUCIO.h\<close>).\<close>

definition sMethods :: "(ucMethod \<times> nat \<times> nat) list" where
  "sMethods =
     [(QueryDevice, 0, 40), (QueryPort, 0, 24), (CreateQP, 56, 32), (ModifyQP, 88, 0), (DestroyQP, 4, 0),
      (CreateCQ, 4, 16), (DestroyCQ, 4, 0), (RegMR, 24, 16), (DeregMR, 4, 0), (CreateAH, 44, 8),
      (DestroyAH, 4, 0), (GetGidIndex, 0, 4), (CCQuery, 0, 32), (CCModify, 32, 0), (AccessReg, 272, 260),
      (FwCmd, 520, 516), (QueryPages, 0, 8), (PortStats, 0, 72), (FwReset, 0, 0), (QueryFwVer, 0, 16),
      (QueryHealth, 0, 4), (VirtToPhys, 8, 8), (QueryCqCompletions, 4, 8), (GetAsyncEvent, 0, 16),
      (UpdateCqConsumer, 8, 0)]"

definition selectorMap :: "(u32 \<times> nat) list" where
  "selectorMap =
     [(0x1002, 0), (0x1003, 1), (0x1020, 2), (0x1021, 3), (0x1022, 4), (0x1030, 5), (0x1031, 6),
      (0x1040, 7), (0x1041, 8), (0x1050, 9), (0x1051, 10), (0x1060, 11), (0x1070, 12), (0x1071, 13),
      (0x1080, 14), (0x1081, 15), (0x1082, 16), (0x1083, 17), (0x1084, 18), (0x1085, 19), (0x1086, 20),
      (0x1090, 21), (0x1092, 22), (0x1093, 23), (0x1094, 24)]"

definition ucRun ::
  "'w execFn \<Rightarrow> ucEnv \<Rightarrow> ucMethod \<Rightarrow> ucArgs \<Rightarrow> MlxUserClient \<Rightarrow> 'w MlxRoCE \<Rightarrow> 'w ucResult option" where
  "ucRun xc env m a uc ro =
     (case m of
        QueryDevice \<Rightarrow> Some (ucQueryDevice (aOut a) env uc ro)
      | QueryPort \<Rightarrow> Some (ucQueryPort (aOut a) (aPort a) env uc ro)
      | CreateQP \<Rightarrow> Some (ucCreateQP xc env (aCreateQp a) (aOut a) uc ro)
      | ModifyQP \<Rightarrow> Some (ucModifyQP xc env (aModifyQp a) uc ro)
      | DestroyQP \<Rightarrow> Some (ucDestroyQP xc env (aHandle a) uc ro)
      | CreateCQ \<Rightarrow> ucCreateCQ xc env (aEntries a) (aOut a) uc ro
      | DestroyCQ \<Rightarrow> Some (ucDestroyCQ xc env (aHandle a) uc ro)
      | RegMR \<Rightarrow> ucRegMR xc env (aRegMr a) (aOut a) uc ro
      | DeregMR \<Rightarrow> Some (ucDeregMR xc env (aHandle a) uc ro)
      | CreateAH \<Rightarrow> Some (ucCreateAH env (aCreateAh a) (aOut a) uc ro)
      | DestroyAH \<Rightarrow> Some (ucDestroyAH env (aHandle a) uc ro)
      | GetGidIndex \<Rightarrow> Some (sGetGidIndex (aOut a) uc ro)
      | CCQuery \<Rightarrow> Some (sCCQuery (aOut a) uc ro)
      | CCModify \<Rightarrow> Some (sCCModify xc (aCc a) uc ro)
      | AccessReg \<Rightarrow> Some (sAccessReg uc ro)
      | FwCmd \<Rightarrow> Some (sFwCmd uc ro)
      | QueryPages \<Rightarrow> Some (sQueryPages xc (aOut a) uc ro)
      | PortStats \<Rightarrow> Some (sPortStats (aOut a) uc ro)
      | FwReset \<Rightarrow> Some (sFwReset uc ro)
      | QueryFwVer \<Rightarrow> Some (sQueryFwVer env (aOut a) uc ro)
      | QueryHealth \<Rightarrow> Some (sQueryHealth env (aOut a) uc ro)
      | VirtToPhys \<Rightarrow> Some (sVirtToPhys (aVirt a) (aOut a) uc ro)
      | QueryCqCompletions \<Rightarrow> Some (sQueryCqCompletions (aCqHandle a) (aOut a) uc ro)
      | GetAsyncEvent \<Rightarrow> Some (sGetAsyncEvent (aOut a) uc ro)
      | UpdateCqConsumer \<Rightarrow> Some (sUpdateCqConsumer (aConsumer a) uc ro))"

text \<open>\<open>super\<close> is IOKit's check of the argument sizes against those the table declares, which
  refuses the call or lets it through.\<close>

definition externalMethod ::
  "'w execFn \<Rightarrow> (nat \<Rightarrow> nat \<Rightarrow> ioreturn option) \<Rightarrow> ucEnv \<Rightarrow> u32 \<Rightarrow> ucArgs \<Rightarrow> MlxUserClient \<Rightarrow> 'w MlxRoCE \<Rightarrow>
   'w ucResult option" where
  "externalMethod xc super env selector a uc ro =
     (case map_of selectorMap selector of
        None \<Rightarrow> Some (kIOReturnUnsupported, NoOut, uc, ro)
      | Some i \<Rightarrow>
          (case sMethods ! i of
             (m, inSize, outSize) \<Rightarrow>
               (case super inSize outSize of
                  Some err \<Rightarrow> Some (err, NoOut, uc, ro)
                | None \<Rightarrow> ucRun xc env m a uc ro)))"

end
