(* ===== verification/MlxUserClientProps.thy ===== *)
theory MlxUserClientProps
  imports MlxUserClient MlxRoCEProps MlxQPProps
begin

text \<open>
  What the user client guarantees to the other processes: a call touches no queue pair, completion queue,
  region or address handle of somebody else, a completion queue outlives the queue pairs created on it, and
  closing the client takes back exactly what it owned.
\<close>

section \<open>Effect of the verbs on the tables\<close>

text \<open>\<open>spares lookup H t t'\<close>: the entries of \<open>t\<close> outside \<open>H\<close> are the same in \<open>t'\<close>.\<close>

definition spares :: "('k \<Rightarrow> 't \<Rightarrow> 'c option) \<Rightarrow> 'k set \<Rightarrow> 't \<Rightarrow> 't \<Rightarrow> bool" where
  "spares lookup H t t' \<longleftrightarrow> (\<forall>h. h \<notin> H \<longrightarrow> lookup h t \<noteq> None \<longrightarrow> lookup h t' = lookup h t)"

lemma spares_refl [simp]: "spares lookup H t t"
  by (simp add: spares_def)

lemma spares_if [simp]: "spares lookup H t (if b then t' else t) \<longleftrightarrow> (b \<longrightarrow> spares lookup H t t')"
  by (simp add: spares_def)

lemma sparesI: "(\<And>h. h \<notin> H \<Longrightarrow> lookup h t \<noteq> None \<Longrightarrow> lookup h t' = lookup h t) \<Longrightarrow> spares lookup H t t'"
  by (simp add: spares_def)

lemma tblLookup_remove_other: "k \<noteq> h \<Longrightarrow> tblLookup key k (tblRemove key h t) = tblLookup key k t"
  by (induction t) (auto simp: tblLookup_def tblRemove_def)

lemma tblLookup_appended: "tblLookup key h t \<noteq> None \<Longrightarrow> tblLookup key h (t @ u) = tblLookup key h t"
  by (auto simp: tblLookup_append split: option.split)

lemma table_fns:
  "qpLookup = tblLookup qp_qpNum" "qpRemove = tblRemove qp_qpNum"
  "cqLookup = tblLookup cq_cqNumber" "cqRemove = tblRemove cq_cqNumber"
  "mrLookup = tblLookup mr_mrHandle" "mrRemove = tblRemove mr_mrHandle"
  "ahLookup = tblLookup ah_ahHandle" "ahRemove = tblRemove ah_ahHandle"
  by (simp_all add: fun_eq_iff qpLookup_def qpRemove_def cqLookup_def cqRemove_def
      mrLookup_def mrRemove_def ahLookup_def ahRemove_def)

lemma spares_tbl:
  "h \<in> H \<Longrightarrow> spares (tblLookup key) H t (tblRemove key h t)"
  "spares (tblLookup key) H t (t @ u)"
  by (rule sparesI, rule tblLookup_remove_other, blast) (rule sparesI, rule tblLookup_appended)

lemma spares_remove:
  "h \<in> H \<Longrightarrow> spares qpLookup H t (qpRemove h t)"
  "h \<in> H \<Longrightarrow> spares cqLookup H u (cqRemove h u)"
  "h \<in> H \<Longrightarrow> spares mrLookup H v (mrRemove h v)"
  "h \<in> H \<Longrightarrow> spares ahLookup H w (ahRemove h w)"
  by (simp_all add: table_fns spares_tbl)

lemma spares_append:
  "spares qpLookup H t (t @ t')" "spares cqLookup H u (u @ u')"
  "spares mrLookup H v (v @ v')" "spares ahLookup H w (w @ w')"
  by (simp_all add: table_fns spares_tbl)

text \<open>Undoing an insertion leaves the old table, or the new one.\<close>

lemma removed_appended:
  "qpLookup (qp_qpNum c) t = None \<Longrightarrow> qpRemove (qp_qpNum c) (t @ [c]) = t"
  "cqLookup (cq_cqNumber d) u = None \<Longrightarrow> cqRemove (cq_cqNumber d) (u @ [d]) = u"
  "mrLookup (mr_mrHandle e) v = None \<Longrightarrow> mrRemove (mr_mrHandle e) (v @ [e]) = v"
  "ahLookup (ah_ahHandle f) w = None \<Longrightarrow> ahRemove (ah_ahHandle f) (w @ [f]) = w"
  by (auto simp: qpLookup_def qpRemove_def cqLookup_def cqRemove_def mrLookup_def mrRemove_def
      ahLookup_def ahRemove_def tblRemove_fresh)

lemma destroyQP_table:
  "destroyQP xc h t co = (kr, t', co') \<Longrightarrow>
   t' = (if kr = kIOReturnSuccess \<and> qpLookup h t \<noteq> None then qpRemove h t else t)"
  by (auto simp: destroyQP_def Let_def split: prod.splits if_splits option.splits)

lemma destroyCQ_table:
  "destroyCQ xc h st co = (kr, st', co') \<Longrightarrow>
   fCqTable st' = (if kr = kIOReturnSuccess \<and> cqLookup h (fCqTable st) \<noteq> None then cqRemove h (fCqTable st) else fCqTable st)"
  by (auto simp: destroyCQ_def split: prod.splits if_splits option.splits)

lemma mrRelease_table [simp]: "fMrTable (mrRelease m c st) = fMrTable st"
  by (simp add: mrRelease_def Let_def split: option.split)

lemma deregMR_table:
  "deregMR xc h st co = (kr, st', co') \<Longrightarrow>
   fMrTable st' = (if kr = kIOReturnSuccess \<and> mrLookup h (fMrTable st) \<noteq> None then mrRemove h (fMrTable st) else fMrTable st)"
  by (auto simp: deregMR_def Let_def split: prod.splits if_splits option.splits)

lemma destroyAH_table:
  "destroyAH h st = (kr, st') \<Longrightarrow>
   fAhTable st' = (if ahLookup h (fAhTable st) \<noteq> None then ahRemove h (fAhTable st) else fAhTable st) \<and>
   (kr = kIOReturnSuccess \<longleftrightarrow> ahLookup h (fAhTable st) \<noteq> None)"
  by (auto simp: destroyAH_def split: option.splits)

text \<open>The handles the firmware gives to new objects are not in use.\<close>

definition freshFw :: "'w execFn \<Rightarrow> 'w MlxRoCE \<Rightarrow> bool" where
  "freshFw xc ro \<longleftrightarrow> (\<forall>w inb n tmo out w'.
     (xc w MLX_CMD_OP_CREATE_QP inb n tmo = (kIOReturnSuccess, out, w') \<longrightarrow>
        qpLookup (ucast (mlxGetBits out 0x48 24)) (roQP ro) = None) \<and>
     (xc w MLX_CMD_OP_CREATE_CQ inb n tmo = (kIOReturnSuccess, out, w') \<longrightarrow>
        cqLookup (ucast (mlxGetBits out 0x48 24)) (fCqTable (roCQ ro)) = None) \<and>
     (xc w MLX_CMD_OP_CREATE_MKEY inb n tmo = (kIOReturnSuccess, out, w') \<longrightarrow>
        (\<forall>v. mrLookup (mlxComposeMkey (ucast (mlxGetBits out 0x48 24)) v) (fMrTable (roMR ro)) = None)))"

lemma createQP_table:
  assumes "createQP xc env req t co = (kr, resp, t', co')"
    and fresh: "\<And>w inb n tmo out w'. xc w MLX_CMD_OP_CREATE_QP inb n tmo = (kIOReturnSuccess, out, w') \<Longrightarrow>
      qpLookup (ucast (mlxGetBits out 0x48 24)) t = None"
  shows "if kr = kIOReturnSuccess
    then \<exists>r ctx. resp = Some r \<and> t' = t @ [ctx] \<and> qp_qpNum ctx = cr_qpn r \<and> qpLookup (cr_qpn r) t = None
    else t' = t"
proof -
  have ex: "qpLookup (ucast (mlxGetBits out 0x48 24)) t = None"
    if "coExec xc MLX_CMD_OP_CREATE_QP inb n c = (kIOReturnSuccess, out, c')" for inb n c out c'
    using that fresh by (auto simp: coExec_def split: prod.splits)
  have d: "t1 = t" if "destroyQP xc h t c = (dk, t1, c1)" "qpLookup h t = None" for h c dk t1 c1
    using destroyQP_table [OF that(1)] that(2) by simp
  show ?thesis
    using assms(1)
    by (auto simp: createQP_def Let_def tblInsert_def newQpContext_def ex split: prod.splits if_splits
        dest: ex d)
qed

lemma createCQ_table:
  assumes "createCQ xc env out entries eqn st co = Some (kr, resp, st', co')"
    and fresh: "\<And>w inb n tmo out w'. xc w MLX_CMD_OP_CREATE_CQ inb n tmo = (kIOReturnSuccess, out, w') \<Longrightarrow>
      cqLookup (ucast (mlxGetBits out 0x48 24)) (fCqTable st) = None"
  shows "if kr = kIOReturnSuccess
    then \<exists>r ctx. resp = Some r \<and> fCqTable st' = fCqTable st @ [ctx] \<and> cq_cqNumber ctx = cqr_cqHandle r \<and>
      cqLookup (cqr_cqHandle r) (fCqTable st) = None
    else fCqTable st' = fCqTable st"
proof -
  have ex: "cqLookup (cq_cqNumber cq') (fCqTable st) = None"
    if "cmdCreateCQ xc cq e c = (kIOReturnSuccess, cq', c')" for cq e c cq' c'
    using that fresh by (auto simp: cmdCreateCQ_def coExec_def split: prod.splits if_splits)
  have u: "fCqTable s1 = fCqTable s" if "cqUndo off b m (s, c) = (s1, c1)" for off b m s c s1 c1
    using that by (auto simp: cqUndo_def)
  show ?thesis
    using assms(1)
    by (auto simp: createCQ_def Let_def tblInsert_def split: prod.splits if_splits option.splits
        dest: ex u)
qed

lemma buildPBL_mrTable:
  "buildPBL env va len st = Some (kr, pa, cmd, st') \<Longrightarrow> fMrTable st' = fMrTable st"
  by (auto simp: buildPBL_def Let_def split: option.splits prod.splits if_splits)

lemma regMR_table:
  assumes "regMR xc env req st co = Some (kr, resp, st', co')"
    and fresh: "\<And>w inb n tmo out w' v. xc w MLX_CMD_OP_CREATE_MKEY inb n tmo = (kIOReturnSuccess, out, w') \<Longrightarrow>
      mrLookup (mlxComposeMkey (ucast (mlxGetBits out 0x48 24)) v) (fMrTable st) = None"
  shows "if kr = kIOReturnSuccess
    then \<exists>r ctx. resp = Some r \<and> fMrTable st' = fMrTable st @ [ctx] \<and> mr_mrHandle ctx = rmr_mrHandle r \<and>
      mrLookup (rmr_mrHandle r) (fMrTable st) = None
    else fMrTable st' = fMrTable st"
proof -
  have ex: "fMrTable s1 = fMrTable s \<and> (kr = kIOReturnSuccess \<longrightarrow> mrLookup h (fMrTable st) = None)"
    if "cmdCreateMKey xc mem pa rq s c = (kr, h, s1, c')" for mem pa rq s c kr h s1 c'
    using that fresh by (auto simp: cmdCreateMKey_def Let_def coExec_def split: prod.splits if_splits option.splits)
  show ?thesis
    using assms(1)
    by (auto simp: regMR_def Let_def tblInsert_def mrContext_def split: prod.splits if_splits option.splits
        dest!: ex buildPBL_mrTable)
qed

lemma createAH_table:
  assumes "createAH alloc added req st = (kr, h, st')" and "ahLookup (fNextHandle st) (fAhTable st) = None"
  shows "if kr = kIOReturnSuccess
    then \<exists>n ctx. h = Some n \<and> fAhTable st' = fAhTable st @ [ctx] \<and> ah_ahHandle ctx = n \<and> ahLookup n (fAhTable st) = None
    else fAhTable st' = fAhTable st"
  using assms by (auto simp: createAH_def Let_def tblInsert_def split: option.splits if_splits)

lemma modifyQP_spares:
  "modifyQP xc (Some req) t co = (kr, t', co') \<Longrightarrow> mq_qpn req \<in> H \<Longrightarrow> spares qpLookup H t t'"
  by (rule sparesI) (metis modifyQP_spec)

section \<open>Isolation\<close>

definition own :: "u32 list option \<Rightarrow> u32 set" where
  "own table = (case table of None \<Rightarrow> {} | Some xs \<Rightarrow> set xs)"

lemma owns_own: "owns lock h table \<longleftrightarrow> lock \<and> h \<in> own table"
  by (simp add: owns_def own_def split: option.split)

lemma removeOwned_own:
  "removeOwned lock h table = (found, table') \<Longrightarrow> found \<longleftrightarrow> lock \<and> h \<in> own table"
  by (auto simp: removeOwned_def own_def split: option.splits if_splits)

definition isolates :: "MlxUserClient \<Rightarrow> 'w MlxRoCE \<Rightarrow> 'w MlxRoCE \<Rightarrow> bool" where
  "isolates uc ro ro' \<longleftrightarrow>
     spares qpLookup (own (fOwnedQp uc)) (roQP ro) (roQP ro') \<and>
     spares cqLookup (own (fOwnedCq uc)) (fCqTable (roCQ ro)) (fCqTable (roCQ ro')) \<and>
     spares mrLookup (own (fOwnedMr uc)) (fMrTable (roMR ro)) (fMrTable (roMR ro')) \<and>
     spares ahLookup (own (fOwnedAh uc)) (fAhTable (roAH ro)) (fAhTable (roAH ro'))"

lemma isolates_refl [simp]: "isolates uc ro ro"
  by (simp add: isolates_def)

lemma isolates_frame:
  "isolates uc ro (ro\<lparr>roCo := co\<rparr>)" "isolates uc ro (ro\<lparr>roGID := g\<rparr>)"
  "isolates uc ro (ro\<lparr>roCC := c, roCo := co\<rparr>)" "isolates uc ro (ro\<lparr>fEventTail := n\<rparr>)"
  by (simp_all add: isolates_def)

lemma isolates_createQP:
  assumes "roceCreateQP xc env req ro = (kr, r, ro1)" and "freshFw xc ro"
  shows "isolates uc ro ro1 \<and> (kr = kIOReturnSuccess \<longrightarrow> isolates uc ro (snd (roceDestroyQP xc (case r of None \<Rightarrow> 0 | Some r \<Rightarrow> cr_qpn r) ro1)))"
proof -
  obtain t co where c: "createQP xc env req (roQP ro) (roCo ro) = (kr, r, t, co)" and ro1: "ro1 = ro\<lparr>roQP := t, roCo := co\<rparr>"
    using assms(1) by (auto simp: roceCreateQP_def split: prod.splits)
  have t: "if kr = kIOReturnSuccess then \<exists>r' ctx. r = Some r' \<and> t = roQP ro @ [ctx] \<and> qp_qpNum ctx = cr_qpn r' \<and>
      qpLookup (cr_qpn r') (roQP ro) = None else t = roQP ro"
    using assms(2) by (intro createQP_table [OF c]) (simp add: freshFw_def)
  then have k: "spares qpLookup (own (fOwnedQp uc)) (roQP ro) t" by (auto simp: spares_append split: if_splits)
  have "isolates uc ro (snd (roceDestroyQP xc h ro1))"
    if kr: "kr = kIOReturnSuccess" and h: "h = (case r of None \<Rightarrow> 0 | Some r \<Rightarrow> cr_qpn r)" for h
  proof -
    obtain dk t2 co2 where d: "destroyQP xc h t co = (dk, t2, co2)" by (metis prod_cases3)
    obtain ctx where "t = roQP ro @ [ctx]" "h = qp_qpNum ctx" "qpLookup (qp_qpNum ctx) (roQP ro) = None"
      using t kr h by auto
    then have "t2 = roQP ro \<or> t2 = t" using destroyQP_table [OF d] removed_appended(1) by auto
    then show ?thesis using k d by (auto simp: roceDestroyQP_def ro1 isolates_def)
  qed
  then show ?thesis using k by (simp add: ro1 isolates_def)
qed

lemma isolates_createCQ:
  assumes "roceCreateCQ xc env out entries eqn ro = Some (kr, r, ro1)" and "freshFw xc ro"
  shows "isolates uc ro ro1 \<and> (kr = kIOReturnSuccess \<longrightarrow> isolates uc ro (snd (roceDestroyCQ xc (case r of None \<Rightarrow> 0 | Some r \<Rightarrow> cqr_cqHandle r) ro1)))"
proof -
  obtain t co where c: "createCQ xc env out entries eqn (roCQ ro) (roCo ro) = Some (kr, r, t, co)" and ro1: "ro1 = ro\<lparr>roCQ := t, roCo := co\<rparr>"
    using assms(1) by (auto simp: roceCreateCQ_def split: prod.splits option.splits)
  have t: "if kr = kIOReturnSuccess then \<exists>r' ctx. r = Some r' \<and> fCqTable t = fCqTable (roCQ ro) @ [ctx] \<and> cq_cqNumber ctx = cqr_cqHandle r' \<and>
      cqLookup (cqr_cqHandle r') (fCqTable (roCQ ro)) = None else fCqTable t = fCqTable (roCQ ro)"
    using assms(2) by (intro createCQ_table [OF c]) (simp add: freshFw_def)
  then have k: "spares cqLookup (own (fOwnedCq uc)) (fCqTable (roCQ ro)) (fCqTable t)" by (auto simp: spares_append split: if_splits)
  have "isolates uc ro (snd (roceDestroyCQ xc h ro1))"
    if kr: "kr = kIOReturnSuccess" and h: "h = (case r of None \<Rightarrow> 0 | Some r \<Rightarrow> cqr_cqHandle r)" for h
  proof -
    obtain dk t2 co2 where d: "destroyCQ xc h t co = (dk, t2, co2)" by (metis prod_cases3)
    obtain ctx where "fCqTable t = fCqTable (roCQ ro) @ [ctx]" "h = cq_cqNumber ctx" "cqLookup (cq_cqNumber ctx) (fCqTable (roCQ ro)) = None"
      using t kr h by auto
    then have "fCqTable t2 = fCqTable (roCQ ro) \<or> fCqTable t2 = fCqTable t" using destroyCQ_table [OF d] removed_appended(2) by auto
    then show ?thesis using k d by (auto simp: roceDestroyCQ_def ro1 isolates_def)
  qed
  then show ?thesis using k by (simp add: ro1 isolates_def)
qed

lemma isolates_regMR:
  assumes "roceRegMR xc env req ro = Some (kr, r, ro1)" and "freshFw xc ro"
  shows "isolates uc ro ro1 \<and> (kr = kIOReturnSuccess \<longrightarrow> isolates uc ro (snd (roceDeregMR xc (case r of None \<Rightarrow> 0 | Some r \<Rightarrow> rmr_mrHandle r) ro1)))"
proof -
  obtain t co where c: "regMR xc env req (roMR ro) (roCo ro) = Some (kr, r, t, co)" and ro1: "ro1 = ro\<lparr>roMR := t, roCo := co\<rparr>"
    using assms(1) by (auto simp: roceRegMR_def split: prod.splits option.splits)
  have t: "if kr = kIOReturnSuccess then \<exists>r' ctx. r = Some r' \<and> fMrTable t = fMrTable (roMR ro) @ [ctx] \<and> mr_mrHandle ctx = rmr_mrHandle r' \<and>
      mrLookup (rmr_mrHandle r') (fMrTable (roMR ro)) = None else fMrTable t = fMrTable (roMR ro)"
    using assms(2) by (intro regMR_table [OF c]) (simp add: freshFw_def)
  then have k: "spares mrLookup (own (fOwnedMr uc)) (fMrTable (roMR ro)) (fMrTable t)" by (auto simp: spares_append split: if_splits)
  have "isolates uc ro (snd (roceDeregMR xc h ro1))"
    if kr: "kr = kIOReturnSuccess" and h: "h = (case r of None \<Rightarrow> 0 | Some r \<Rightarrow> rmr_mrHandle r)" for h
  proof -
    obtain dk t2 co2 where d: "deregMR xc h t co = (dk, t2, co2)" by (metis prod_cases3)
    obtain ctx where "fMrTable t = fMrTable (roMR ro) @ [ctx]" "h = mr_mrHandle ctx" "mrLookup (mr_mrHandle ctx) (fMrTable (roMR ro)) = None"
      using t kr h by auto
    then have "fMrTable t2 = fMrTable (roMR ro) \<or> fMrTable t2 = fMrTable t" using deregMR_table [OF d] removed_appended(3) by auto
    then show ?thesis using k d by (auto simp: roceDeregMR_def ro1 isolates_def)
  qed
  then show ?thesis using k by (simp add: ro1 isolates_def)
qed

lemma isolates_createAH:
  assumes "roceCreateAH al ad req ro = (kr, r, ro1)" and "ahLookup (fNextHandle (roAH ro)) (fAhTable (roAH ro)) = None"
  shows "isolates uc ro ro1 \<and> (kr = kIOReturnSuccess \<longrightarrow> isolates uc ro (snd (roceDestroyAH (case r of None \<Rightarrow> 0 | Some r \<Rightarrow> r) ro1)))"
proof -
  obtain t where c: "createAH al ad req (roAH ro) = (kr, r, t)" and ro1: "ro1 = ro\<lparr>roAH := t\<rparr>"
    using assms(1) by (auto simp: roceCreateAH_def split: prod.splits)
  note t = createAH_table [OF c assms(2)]
  then have k: "spares ahLookup (own (fOwnedAh uc)) (fAhTable (roAH ro)) (fAhTable t)" by (auto simp: spares_append split: if_splits)
  have "isolates uc ro (snd (roceDestroyAH h ro1))"
    if kr: "kr = kIOReturnSuccess" and h: "h = (case r of None \<Rightarrow> 0 | Some r \<Rightarrow> r)" for h
  proof -
    obtain dk t2 where d: "destroyAH h t = (dk, t2)" by fastforce
    obtain ctx where "fAhTable t = fAhTable (roAH ro) @ [ctx]" "h = ah_ahHandle ctx" "ahLookup (ah_ahHandle ctx) (fAhTable (roAH ro)) = None"
      using t kr h by auto
    then have "fAhTable t2 = fAhTable (roAH ro) \<or> fAhTable t2 = fAhTable t" using destroyAH_table [OF d] removed_appended(4) by auto
    then show ?thesis using k d by (auto simp: roceDestroyAH_def ro1 isolates_def)
  qed
  then show ?thesis using k by (simp add: ro1 isolates_def)
qed

lemma isolates_destroy:
  "h \<in> own (fOwnedQp uc) \<Longrightarrow> isolates uc ro (snd (roceDestroyQP xc h ro))"
  "h \<in> own (fOwnedCq uc) \<Longrightarrow> isolates uc ro (snd (roceDestroyCQ xc h ro))"
  "h \<in> own (fOwnedMr uc) \<Longrightarrow> isolates uc ro (snd (roceDeregMR xc h ro))"
  "h \<in> own (fOwnedAh uc) \<Longrightarrow> isolates uc ro (snd (roceDestroyAH h ro))"
  by (auto simp: roceDestroyQP_def roceDestroyCQ_def roceDeregMR_def roceDestroyAH_def isolates_def
      spares_remove split: prod.split dest!: destroyQP_table destroyCQ_table deregMR_table destroyAH_table)

lemma isolates_modifyQP:
  "mq_qpn req \<in> own (fOwnedQp uc) \<Longrightarrow> isolates uc ro (snd (roceModifyQP xc (Some req) ro))"
  by (auto simp: roceModifyQP_def isolates_def split: prod.split intro: modifyQP_spares)

section \<open>Every call\<close>

text \<open>The calls that name an object the client does not own.\<close>

definition namesForeign :: "ucMethod \<Rightarrow> ucArgs \<Rightarrow> MlxUserClient \<Rightarrow> bool" where
  "namesForeign m a uc =
     (case m of
        CreateQP \<Rightarrow> (case aCreateQp a of
            None \<Rightarrow> False
          | Some q \<Rightarrow> aOut a \<and> \<not> {cq_sendCq q, cq_recvCq q} \<subseteq> own (fOwnedCq uc))
      | ModifyQP \<Rightarrow> (case aModifyQp a of None \<Rightarrow> False | Some q \<Rightarrow> mq_qpn q \<notin> own (fOwnedQp uc))
      | DestroyQP \<Rightarrow> aHandle a \<notin> own (fOwnedQp uc)
      | DestroyCQ \<Rightarrow> aHandle a \<notin> own (fOwnedCq uc)
      | DeregMR \<Rightarrow> aHandle a \<notin> own (fOwnedMr uc)
      | DestroyAH \<Rightarrow> aHandle a \<notin> own (fOwnedAh uc)
      | QueryCqCompletions \<Rightarrow> (case aCqHandle a of None \<Rightarrow> False | Some h \<Rightarrow> aOut a \<and> h \<notin> own (fOwnedCq uc))
      | UpdateCqConsumer \<Rightarrow> (case aConsumer a of None \<Rightarrow> False | Some (h, c) \<Rightarrow> h \<notin> own (fOwnedCq uc))
      | _ \<Rightarrow> False)"

lemma removeOwned_None: "h \<notin> own table \<Longrightarrow> removeOwned lock h table = (False, table)"
  by (auto simp: removeOwned_def own_def split: option.split)

lemma owns_None: "h \<notin> own table \<Longrightarrow> \<not> owns lock h table"
  by (simp add: owns_own)

lemma foreign_refused:
  assumes "namesForeign m a uc" and "ucRoce uc"
  shows "ucRun xc env m a uc ro = Some (kIOReturnNotPermitted, NoOut, uc, ro)"
  using assms
  by (cases m) (auto simp: namesForeign_def ucRun_def ucCreateQP_def ucModifyQP_def ucDestroyQP_def ucDestroyCQ_def
      ucDeregMR_def ucDestroyAH_def sQueryCqCompletions_def sUpdateCqConsumer_def ucUpdateCqConsumer_def
      removeOwned_None owns_None split: option.splits)

lemma ucRun_isolates:
  assumes run: "ucRun xc env m a uc ro = Some (kr, out, uc', ro')" and fw: "freshFw xc ro"
    and ah: "ahLookup (fNextHandle (roAH ro)) (fAhTable (roAH ro)) = None"
  shows "isolates uc ro ro'"
proof (cases m)
  case CreateQP
  then show ?thesis
    using run by (auto simp: ucRun_def ucCreateQP_def Let_def split: option.splits if_splits prod.splits
        dest!: isolates_createQP [OF _ fw, where uc = uc])
next
  case ModifyQP
  then show ?thesis
    using run isolates_modifyQP [of _ uc ro xc]
    by (auto simp: ucRun_def ucModifyQP_def Let_def split: option.splits if_splits prod.splits dest!: removeOwned_own)
      (metis snd_conv)
next
  case DestroyQP
  then show ?thesis
    using run isolates_destroy(1) [of _ uc ro xc]
    by (auto simp: ucRun_def ucDestroyQP_def Let_def split: if_splits prod.splits dest!: removeOwned_own) (metis snd_conv)+
next
  case CreateCQ
  then show ?thesis
    using run by (auto simp: ucRun_def ucCreateCQ_def Let_def split: option.splits if_splits prod.splits
        dest!: isolates_createCQ [OF _ fw, where uc = uc])
next
  case DestroyCQ
  then show ?thesis
    using run isolates_destroy(2) [of _ uc ro xc]
    by (auto simp: ucRun_def ucDestroyCQ_def Let_def split: if_splits prod.splits dest!: removeOwned_own) (metis snd_conv)+
next
  case RegMR
  then show ?thesis
    using run by (auto simp: ucRun_def ucRegMR_def Let_def split: option.splits if_splits prod.splits
        dest!: isolates_regMR [OF _ fw, where uc = uc])
next
  case DeregMR
  then show ?thesis
    using run isolates_destroy(3) [of _ uc ro xc]
    by (auto simp: ucRun_def ucDeregMR_def Let_def split: if_splits prod.splits dest!: removeOwned_own) (metis snd_conv)+
next
  case CreateAH
  then show ?thesis
    using run by (auto simp: ucRun_def ucCreateAH_def Let_def split: option.splits if_splits prod.splits
        dest!: isolates_createAH [OF _ ah, where uc = uc])
next
  case DestroyAH
  then show ?thesis
    using run isolates_destroy(4) [of _ uc ro]
    by (auto simp: ucRun_def ucDestroyAH_def Let_def split: if_splits prod.splits dest!: removeOwned_own) (metis snd_conv)+
qed (use run in \<open>auto simp: ucRun_def Let_def isolates_frame ucQueryDevice_def ucQueryPort_def sGetGidIndex_def
    sCCQuery_def sCCModify_def sAccessReg_def sFwCmd_def sFwReset_def sQueryPages_def sPortStats_def sQueryFwVer_def
    sQueryHealth_def sVirtToPhys_def sQueryCqCompletions_def sGetAsyncEvent_def getAsyncEvent_def sUpdateCqConsumer_def
    ucUpdateCqConsumer_def split: option.splits if_splits prod.splits\<close>)

text \<open>C24: Isolation of the processes. Provided the firmware and the handle counter give out
  handles that are not in use, no call through any selector, with any arguments and any outcome,
  changes or removes a queue pair, completion queue, memory region or address handle its
  process does not own; a call that names one of those as its subject (or a CQ for a new QP) is answered
  \<open>kIOReturnNotPermitted\<close> and changes nothing at all; a selector outside the table is refused.\<close>

theorem client_isolation:
  assumes "freshFw xc ro" and "ahLookup (fNextHandle (roAH ro)) (fAhTable (roAH ro)) = None"
    and run: "externalMethod xc super env sel a uc ro = Some (kr, out, uc', ro')"
  shows "isolates uc ro ro' \<and>
    (case map_of selectorMap sel of
       None \<Rightarrow> kr = kIOReturnUnsupported \<and> uc' = uc \<and> ro' = ro
     | Some i \<Rightarrow> i < length sMethods \<and>
         (ucRoce uc \<and> super (fst (snd (sMethods ! i))) (snd (snd (sMethods ! i))) = None \<and>
            namesForeign (fst (sMethods ! i)) a uc \<longrightarrow>
          kr = kIOReturnNotPermitted \<and> uc' = uc \<and> ro' = ro))"
proof (cases "map_of selectorMap sel")
  case None
  then show ?thesis using run by (simp add: externalMethod_def)
next
  case (Some i)
  obtain m x y where m: "sMethods ! i = (m, x, y)" by (metis prod_cases3)
  have "i \<in> snd ` set selectorMap" using map_of_SomeD [OF Some] by force
  then have i: "i < length sMethods" by (auto simp: selectorMap_def sMethods_def)
  show ?thesis
  proof (cases "super x y")
    case err: (Some e)
    then show ?thesis using run Some i m by (simp add: externalMethod_def)
  next
    case None
    then have r: "ucRun xc env m a uc ro = Some (kr, out, uc', ro')" using run Some m by (simp add: externalMethod_def)
    show ?thesis
      using ucRun_isolates [OF r assms(1,2)] foreign_refused [of m a uc xc env ro] r Some i m by auto
  qed
qed

section \<open>A completion queue outlives its queue pairs\<close>

text \<open>
  A history: the completed calls in order. \<open>deps\<close> remembers, for every queue pair the client
  was given, the completion queues it named.
\<close>

type_synonym ucDeps = "u32 \<Rightarrow> u32 set"

definition ucDepsAfter :: "ucMethod \<Rightarrow> ucArgs \<Rightarrow> ioreturn \<Rightarrow> ucOut \<Rightarrow> ucDeps \<Rightarrow> ucDeps" where
  "ucDepsAfter m a kr out deps =
     (case (m, aCreateQp a, out) of
        (CreateQP, Some q, OutQp r) \<Rightarrow>
          if kr = kIOReturnSuccess then deps(cr_qpn r := {cq_sendCq q, cq_recvCq q}) else deps
      | _ \<Rightarrow> deps)"

fun ucHistory ::
  "'w execFn \<Rightarrow> (ucEnv \<times> ucMethod \<times> ucArgs) list \<Rightarrow> ucDeps \<times> MlxUserClient \<times> 'w MlxRoCE \<Rightarrow>
   (ucDeps \<times> MlxUserClient \<times> 'w MlxRoCE) option" where
  "ucHistory xc [] s = Some s"
| "ucHistory xc ((env, m, a) # calls) (deps, uc, ro) =
     (case ucRun xc env m a uc ro of
        None \<Rightarrow> None
      | Some (kr, out, uc, ro) \<Rightarrow> ucHistory xc calls (ucDepsAfter m a kr out deps, uc, ro))"

definition cqsHeld :: "ucDeps \<Rightarrow> MlxUserClient \<Rightarrow> bool" where
  "cqsHeld deps uc \<longleftrightarrow> fOwnedLock uc \<and> (\<forall>q \<in> own (fOwnedQp uc). deps q \<subseteq> own (fOwnedCq uc))"

lemma own_addOwned:
  "addOwned lock ok h table = (b, table') \<Longrightarrow>
   own table' = (if b then insert h (own table) else own table) \<and> (b \<longleftrightarrow> table \<noteq> None \<and> lock \<and> ok)"
  by (auto simp: addOwned_def own_def split: option.splits if_splits)

lemma removeOwned_found:
  "removeOwned lock h table = (True, table') \<Longrightarrow>
   lock \<and> h \<in> own table \<and> table' \<noteq> None \<and> own table' \<subseteq> own table \<and> own table - {h} \<subseteq> own table'"
  by (auto simp: removeOwned_def own_def split: option.splits if_splits dest: in_set_remove1 notin_set_remove1)
    (metis in_set_remove1)

lemma readd_same:
  assumes "removeOwned lock h table = (True, table')"
  shows "own (snd (addOwned lock True h table')) = own table"
  using removeOwned_found [OF assms] own_addOwned [of lock True h table'] by (cases "addOwned lock True h table'") auto

lemma readd_sub:
  assumes "removeOwned lock h table = (True, table')"
  shows "own (snd (addOwned lock ok h table')) \<subseteq> own table"
  using removeOwned_found [OF assms] own_addOwned [of lock ok h table'] by (cases "addOwned lock ok h table'") auto

lemma ucRun_others:
  assumes run: "ucRun xc env m a uc ro = Some (kr, out, uc', ro')"
    and m: "m \<notin> {CreateQP, ModifyQP, DestroyQP, CreateCQ, DestroyCQ}"
  shows "fOwnedQp uc' = fOwnedQp uc \<and> fOwnedCq uc' = fOwnedCq uc \<and> fOwnedLock uc' = fOwnedLock uc"
proof (cases m)
  case RegMR
  then show ?thesis
    using run by (auto simp: ucRun_def ucRegMR_def Let_def split: option.splits if_splits prod.splits)
next
  case DeregMR
  then show ?thesis
    using run by (auto simp: ucRun_def ucDeregMR_def Let_def split: if_splits prod.splits)
next
  case CreateAH
  then show ?thesis
    using run by (auto simp: ucRun_def ucCreateAH_def Let_def split: option.splits if_splits prod.splits)
next
  case DestroyAH
  then show ?thesis
    using run by (auto simp: ucRun_def ucDestroyAH_def Let_def split: if_splits prod.splits)
qed (use run m in \<open>auto simp: ucRun_def Let_def ucQueryDevice_def ucQueryPort_def sGetGidIndex_def
    sCCQuery_def sCCModify_def sAccessReg_def sFwCmd_def sFwReset_def sQueryPages_def sPortStats_def sQueryFwVer_def
    sQueryHealth_def sVirtToPhys_def sQueryCqCompletions_def sGetAsyncEvent_def sUpdateCqConsumer_def
    ucUpdateCqConsumer_def split: option.splits if_splits prod.splits\<close>)

lemma createQP_held:
  assumes run: "ucCreateQP xc env req resp uc ro = (kr, out, uc', ro')" and held: "cqsHeld deps uc"
    and ok: "kr = kIOReturnSuccess"
  shows "\<exists>q r. req = Some q \<and> out = OutQp r \<and> cqsHeld (deps(cr_qpn r := {cq_sendCq q, cq_recvCq q})) uc'"
proof -
  obtain q where q: "req = Some q" using run ok by (cases req) (auto simp: ucCreateQP_def)
  obtain kr1 r ro1 where c: "roceCreateQP xc (ueQp env) q ro = (kr1, r, ro1)" by (metis prod_cases3)
  obtain b table where ad: "addOwned (fOwnedLock uc) (ueAdd env) (case r of None \<Rightarrow> 0 | Some r \<Rightarrow> cr_qpn r) (fOwnedQp uc) = (b, table)"
    by fastforce
  have own: "cq_sendCq q \<in> own (fOwnedCq uc)" "cq_recvCq q \<in> own (fOwnedCq uc)" and kr1: "kr1 = kIOReturnSuccess" and b
    and uc': "uc' = uc\<lparr>fOwnedQp := table\<rparr>" and out: "out = outOf OutQp r"
    using run ok c ad by (auto simp: ucCreateQP_def q owns_own Let_def split: if_splits)
  have "r \<noteq> None"
    using c kr1 by (auto simp: roceCreateQP_def createQP_def Let_def split: prod.splits if_splits)
  then obtain r' where r: "r = Some r'" by blast
  have "own table = insert (cr_qpn r') (own (fOwnedQp uc))" using own_addOwned [OF ad] r \<open>b\<close> by simp
  then have "cqsHeld (deps(cr_qpn r' := {cq_sendCq q, cq_recvCq q})) uc'"
    using held own by (simp add: cqsHeld_def uc')
  then show ?thesis using q out r by (auto simp: outOf_def)
qed

lemma ucRun_cqsHeld:
  assumes run: "ucRun xc env m a uc ro = Some (kr, out, uc', ro')" and held: "cqsHeld deps uc"
    and add: "m = DestroyCQ \<Longrightarrow> ueAdd env"
  shows "cqsHeld (ucDepsAfter m a kr out deps) uc'"
proof -
  have same: "ucDepsAfter m a kr out deps = deps" if "m \<noteq> CreateQP"
    using that by (cases m) (simp_all add: ucDepsAfter_def)
  consider (c) "m = CreateQP" | (m) "m = ModifyQP" | (d) "m = DestroyQP" | (cc) "m = CreateCQ" | (dc) "m = DestroyCQ"
    | (o) "m \<notin> {CreateQP, ModifyQP, DestroyQP, CreateCQ, DestroyCQ}" by blast
  then show ?thesis
  proof cases
    case c
    then have r: "ucCreateQP xc env (aCreateQp a) (aOut a) uc ro = (kr, out, uc', ro')" using run by (simp add: ucRun_def)
    show ?thesis
    proof (cases "kr = kIOReturnSuccess")
      case False
      then have "uc' = uc" using r by (auto simp: ucCreateQP_def Let_def split: option.splits if_splits prod.splits)
      moreover have "ucDepsAfter m a kr out deps = deps"
        using False by (simp add: ucDepsAfter_def split: ucMethod.split option.split ucOut.split)
      ultimately show ?thesis using held by simp
    next
      case True
      then show ?thesis using createQP_held [OF r held] c by (auto simp: ucDepsAfter_def)
    qed
  next
    case m
    obtain table where "uc' = uc \<or> uc' = uc\<lparr>fOwnedQp := table\<rparr> \<and> own table \<subseteq> own (fOwnedQp uc)"
      using run m by (auto simp: ucRun_def ucModifyQP_def Let_def split: option.splits if_splits prod.splits
          dest!: readd_sub [where ok = "ueAdd env"])
    then show ?thesis using held same m by (auto simp: cqsHeld_def) blast
  next
    case d
    obtain table where "uc' = uc \<or> uc' = uc\<lparr>fOwnedQp := table\<rparr> \<and> own table \<subseteq> own (fOwnedQp uc)"
      using run d by (auto simp: ucRun_def ucDestroyQP_def Let_def split: if_splits prod.splits
          dest: readd_sub [where ok = "ueAdd env"] removeOwned_found)
    then show ?thesis using held same d by (auto simp: cqsHeld_def) blast
  next
    case cc
    then show ?thesis
      using run held same own_addOwned [of "fOwnedLock uc" "ueAdd env" _ "fOwnedCq uc"]
      by (auto simp: ucRun_def ucCreateCQ_def Let_def cqsHeld_def split: option.splits if_splits prod.splits) blast+
  next
    case dc
    obtain found table where rm: "removeOwned (fOwnedLock uc) (aHandle a) (fOwnedCq uc) = (found, table)" by fastforce
    have re: "found \<Longrightarrow> own (snd (addOwned (fOwnedLock uc) True (aHandle a) table)) = own (fOwnedCq uc)"
      using readd_same rm by simp
    have "fOwnedQp uc' = fOwnedQp uc \<and> fOwnedLock uc' = fOwnedLock uc \<and>
        (own (fOwnedCq uc') = own (fOwnedCq uc) \<or> fOwnedQp uc \<in> {None, Some []})"
    proof (cases found)
      case False
      then have "uc' = uc" using run dc by (simp add: ucRun_def ucDestroyCQ_def Let_def rm)
      then show ?thesis by simp
    next
      case f: True
      obtain k r1 where d: "roceDestroyCQ xc (aHandle a) ro = (k, r1)" by fastforce
      show ?thesis
      proof (cases "fOwnedQp uc = None \<or> fOwnedQp uc = Some []")
        case True
        then show ?thesis using run dc f by (auto simp: ucRun_def ucDestroyCQ_def Let_def rm d split: if_splits)
      next
        case False
        then have "uc' = uc\<lparr>fOwnedCq := snd (addOwned (fOwnedLock uc) True (aHandle a) table)\<rparr>"
          using run dc f add [OF dc] by (simp add: ucRun_def ucDestroyCQ_def Let_def rm)
        then show ?thesis using re [OF f] by simp
      qed
    qed
    then show ?thesis using held same dc by (auto simp: cqsHeld_def own_def)
  next
    case o
    then show ?thesis using ucRun_others [OF run o] same held by (simp add: cqsHeld_def)
  qed
qed

text \<open>C25: A completion queue outlives the queue pairs a client owns on it. After any sequence of
  calls in which every DestroyCQ that has to note its handle again finds the memory to do so,
  every queue pair the client owns still has both of its completion queues among the client's;
  and destroying a completion queue while any queue pair is owned is refused as busy without
  reaching the device. A queue pair that a ModifyQP could not note again is owned no more and
  not covered: \<open>modifyQP_orphans\<close>.\<close>

theorem cq_outlives_qps:
  assumes "cqsHeld deps uc" and "\<forall>(env, m, a) \<in> set calls. m = DestroyCQ \<longrightarrow> ueAdd env"
    and "ucHistory xc calls (deps, uc, ro) = Some (deps', uc', ro')"
  shows "(\<forall>q \<in> own (fOwnedQp uc'). deps' q \<subseteq> own (fOwnedCq uc')) \<and>
    (own (fOwnedQp uc') \<noteq> {} \<and> h \<in> own (fOwnedCq uc') \<longrightarrow>
       (\<exists>uc2. ucDestroyCQ xc env2 h uc' ro' = (kIOReturnBusy, NoOut, uc2, ro')))"
proof -
  have held: "cqsHeld deps' uc'"
    using assms
  proof (induction calls arbitrary: deps uc ro)
    case Nil
    then show ?case by simp
  next
    case (Cons c calls)
    obtain env m a where c: "c = (env, m, a)" by (metis prod_cases3)
    obtain kr out uc1 ro1 where r: "ucRun xc env m a uc ro = Some (kr, out, uc1, ro1)"
      using Cons.prems(3) by (auto simp: c split: option.splits)
    from ucRun_cqsHeld [OF r Cons.prems(1)] Cons.prems(2) have "cqsHeld (ucDepsAfter m a kr out deps) uc1"
      by (simp add: c)
    from Cons.IH [OF this] Cons.prems(2,3) show ?case by (auto simp: c r)
  qed
  moreover have "\<exists>uc2. ucDestroyCQ xc env2 h uc' ro' = (kIOReturnBusy, NoOut, uc2, ro')"
    if "own (fOwnedQp uc') \<noteq> {}" "h \<in> own (fOwnedCq uc')"
    using that held
    by (auto simp: ucDestroyCQ_def Let_def removeOwned_def own_def cqsHeld_def split: option.splits)
  ultimately show ?thesis by (auto simp: cqsHeld_def)
qed

text \<open>
  Without that memory the guard is lost: a \<open>modifyQP\<close> that cannot re-add the handle leaves the
  queue pair alive in the device but owned by nobody, and its completion queue can be destroyed
  under it.
\<close>

definition orphanReq :: mlx_modify_qp_req where
  "orphanReq = \<lparr>mq_qpn = 5, mq_curState = MLX_QP_STATE_RST, mq_newState = MLX_QP_STATE_RTR,
     mq_destQpn = 0, mq_pathMtu = 0, mq_rqPsn = 0, mq_sqPsn = 0, mq_pkeyIndex = 0, mq_portNum = 1,
     mq_ahDmac = [], mq_ahDgid = [], mq_ahSgidIndex = 0, mq_ahHopLimit = 0, mq_ahTrafficClass = 0,
     mq_ahUdpSport = 0, mq_minRnrTimer = 0, mq_maxDestRdAtomic = 0, mq_maxRdAtomic = 0\<rparr>"

lemma modifyQP_orphans:
  assumes "fOwnedLock uc" "fOwnedQp uc = Some [5]" "fOwnedCq uc = Some [2]" "\<not> ueAdd env"
    and "qpLookup 5 (roQP ro) = Some ctx"
  shows "\<exists>kr uc1 ro1. ucModifyQP xc env (Some orphanReq) uc ro = (kr, NoOut, uc1, ro1) \<and>
    qpLookup 5 (roQP ro1) \<noteq> None \<and> own (fOwnedQp uc1) = {} \<and>
    fst (ucDestroyCQ xc env 2 uc1 ro1) = fst (roceDestroyCQ xc 2 ro1)"
proof -
  obtain kr t co where m: "modifyQP xc (Some orphanReq) (roQP ro) (roCo ro) = (kr, t, co)" by (metis prod_cases3)
  have "qpLookup (mq_qpn orphanReq) (roQP ro) = Some ctx" using assms(5) by (simp add: orphanReq_def)
  then have "qpLookup 5 t \<noteq> None" using modifyQP_spec [OF m] by (auto simp: orphanReq_def)
  then show ?thesis
    using assms m
    by (auto simp: ucModifyQP_def Let_def removeOwned_def addOwned_def orphanReq_def roceModifyQP_def own_def
        ucDestroyCQ_def split: prod.splits)
qed

section \<open>Closing\<close>

definition destroysSucceed :: "'w execFn \<Rightarrow> bool" where
  "destroysSucceed xc \<longleftrightarrow> (\<forall>w inb n tmo.
     fst (xc w MLX_CMD_OP_DESTROY_QP inb n tmo) = kIOReturnSuccess \<and>
     fst (xc w MLX_CMD_OP_DESTROY_CQ inb n tmo) = kIOReturnSuccess \<and>
     fst (xc w MLX_CMD_OP_DESTROY_MKEY inb n tmo) = kIOReturnSuccess)"

lemma tblRemove_filter: "distinct (map key t) \<Longrightarrow> tblRemove key h t = filter (\<lambda>c. key c \<noteq> h) t"
proof (induction t)
  case (Cons c t)
  have "key c \<notin> key ` set t" using Cons.prems by simp
  then have "key x \<noteq> key c" if "x \<in> set t" for x using that by (metis imageI)
  then have "key c = h \<Longrightarrow> filter (\<lambda>c. key c \<noteq> h) t = t" by (auto simp: filter_id_conv)
  with Cons show ?case by (auto simp: tblRemove_def)
qed (simp add: tblRemove_def)

text \<open>
  One table after the destroys of the list: the objects of others are all there, in order, and
  one of the list only if its destroy failed. The other tables are left alone.
\<close>

declare releaseWhile.simps [simp del]

definition takenBack :: "('c \<Rightarrow> u32) \<Rightarrow> u32 set \<Rightarrow> (u32 \<Rightarrow> bool) \<Rightarrow> 'c list \<Rightarrow> 'c list \<Rightarrow> bool" where
  "takenBack key H fails t t' \<longleftrightarrow> set t' \<subseteq> set t \<and> filter (\<lambda>c. key c \<notin> H) t' = filter (\<lambda>c. key c \<notin> H) t \<and>
     (\<forall>c \<in> set t'. key c \<in> H \<longrightarrow> fails (key c))"

lemma takenBack_all: "takenBack key H fails t t' \<Longrightarrow> \<forall>h. \<not> fails h \<Longrightarrow> t' = filter (\<lambda>c. key c \<notin> H) t"
  by (metis (mono_tags, lifting) filter_True takenBack_def)

lemma takenBack_Cons:
  assumes "takenBack key (set hs) fails (if ok then filter (\<lambda>c. key c \<noteq> h) t else t) t'" and "\<not> ok \<longrightarrow> fails h"
  shows "takenBack key (set (h # hs)) fails t t'"
proof -
  have e: "filter (\<lambda>c. key c \<notin> set (h # hs)) u = filter (\<lambda>c. key c \<noteq> h) (filter (\<lambda>c. key c \<notin> set hs) u)" for u
    by (simp add: conj_commute)
  show ?thesis
    using assms unfolding takenBack_def e
    by (cases ok) (auto simp: conj_commute simp del: filter_filter, simp add: conj_commute)
qed

lemma releaseWhile_table:
  assumes step: "\<And>h ro. distinct (map key (tbl ro)) \<Longrightarrow>
      tbl (f h ro) = (if ok h ro then filter (\<lambda>c. key c \<noteq> h) (tbl ro) else tbl ro)"
    and "distinct (map key (tbl ro))"
  shows "takenBack key (set hs) (\<lambda>h. \<exists>ro1. \<not> ok h ro1) (tbl ro) (tbl (snd (releaseWhile True f (Some hs) ro)))"
  using assms(2)
proof (induction hs arbitrary: ro)
  case Nil
  then show ?case by (subst releaseWhile.simps) (simp add: takeOwned_def takenBack_def)
next
  case (Cons h hs)
  have d: "distinct (map key (tbl (f h ro)))" by (simp add: step [OF Cons.prems] distinct_map_filter Cons.prems)
  have r: "releaseWhile True f (Some (h # hs)) ro = releaseWhile True f (Some hs) (f h ro)"
    by (subst releaseWhile.simps) (simp add: takeOwned_def)
  show ?case unfolding r using Cons.IH [OF d] unfolding step [OF Cons.prems] by (rule takenBack_Cons) blast
qed

lemma releaseWhile_frame:
  assumes "\<And>h ro. g (f h ro) = g ro"
  shows "g (snd (releaseWhile lock f table ro)) = g ro"
  using assms
  by (induction lock f table ro rule: releaseWhile.induct)
    (subst releaseWhile.simps, auto split: prod.splits option.splits)

lemma destroyed_tables:
  "distinct (map qp_qpNum (roQP ro)) \<Longrightarrow> roQP (snd (roceDestroyQP xc h ro)) =
      (if fst (roceDestroyQP xc h ro) = kIOReturnSuccess then filter (\<lambda>c. qp_qpNum c \<noteq> h) (roQP ro) else roQP ro)"
  "distinct (map cq_cqNumber (fCqTable (roCQ ro))) \<Longrightarrow> fCqTable (roCQ (snd (roceDestroyCQ xc h ro))) =
      (if fst (roceDestroyCQ xc h ro) = kIOReturnSuccess
       then filter (\<lambda>c. cq_cqNumber c \<noteq> h) (fCqTable (roCQ ro)) else fCqTable (roCQ ro))"
  "distinct (map mr_mrHandle (fMrTable (roMR ro))) \<Longrightarrow> fMrTable (roMR (snd (roceDeregMR xc h ro))) =
      (if fst (roceDeregMR xc h ro) = kIOReturnSuccess
       then filter (\<lambda>c. mr_mrHandle c \<noteq> h) (fMrTable (roMR ro)) else fMrTable (roMR ro))"
  "distinct (map ah_ahHandle (fAhTable (roAH ro))) \<Longrightarrow>
      fAhTable (roAH (snd (roceDestroyAH h ro))) = filter (\<lambda>c. ah_ahHandle c \<noteq> h) (fAhTable (roAH ro))"
proof -
  have none: "tblLookup key h t = None \<Longrightarrow> filter (\<lambda>c. key c \<noteq> h) t = t" for key :: "'x \<Rightarrow> u32" and h t
    unfolding tblLookup_None by (auto simp: filter_id_conv)
  obtain k1 t1 c1 where q: "destroyQP xc h (roQP ro) (roCo ro) = (k1, t1, c1)" by (metis prod_cases3)
  then show "distinct (map qp_qpNum (roQP ro)) \<Longrightarrow> roQP (snd (roceDestroyQP xc h ro)) =
      (if fst (roceDestroyQP xc h ro) = kIOReturnSuccess then filter (\<lambda>c. qp_qpNum c \<noteq> h) (roQP ro) else roQP ro)"
    using destroyQP_table [OF q] by (auto simp: roceDestroyQP_def table_fns tblRemove_filter none)
  obtain k2 t2 c2 where c: "destroyCQ xc h (roCQ ro) (roCo ro) = (k2, t2, c2)" by (metis prod_cases3)
  then show "distinct (map cq_cqNumber (fCqTable (roCQ ro))) \<Longrightarrow> fCqTable (roCQ (snd (roceDestroyCQ xc h ro))) =
      (if fst (roceDestroyCQ xc h ro) = kIOReturnSuccess
       then filter (\<lambda>c. cq_cqNumber c \<noteq> h) (fCqTable (roCQ ro)) else fCqTable (roCQ ro))"
    using destroyCQ_table [OF c] by (auto simp: roceDestroyCQ_def table_fns tblRemove_filter none)
  obtain k3 t3 c3 where m: "deregMR xc h (roMR ro) (roCo ro) = (k3, t3, c3)" by (metis prod_cases3)
  then show "distinct (map mr_mrHandle (fMrTable (roMR ro))) \<Longrightarrow> fMrTable (roMR (snd (roceDeregMR xc h ro))) =
      (if fst (roceDeregMR xc h ro) = kIOReturnSuccess
       then filter (\<lambda>c. mr_mrHandle c \<noteq> h) (fMrTable (roMR ro)) else fMrTable (roMR ro))"
    using deregMR_table [OF m] by (auto simp: roceDeregMR_def table_fns tblRemove_filter none)
  obtain k4 t4 where a: "destroyAH h (roAH ro) = (k4, t4)" by fastforce
  then show "distinct (map ah_ahHandle (fAhTable (roAH ro))) \<Longrightarrow>
      fAhTable (roAH (snd (roceDestroyAH h ro))) = filter (\<lambda>c. ah_ahHandle c \<noteq> h) (fAhTable (roAH ro))"
    using destroyAH_table [OF a] by (auto simp: roceDestroyAH_def table_fns tblRemove_filter none)
qed

lemma destroysSucceedD:
  assumes "destroysSucceed xc"
  shows "fst (roceDestroyQP xc h ro) = kIOReturnSuccess" and "fst (roceDestroyCQ xc h ro) = kIOReturnSuccess"
    and "fst (roceDeregMR xc h ro) = kIOReturnSuccess"
  using assms
  by (auto simp: roceDestroyQP_def destroyQP_def roceDestroyCQ_def destroyCQ_def cmdDestroyCQ_def roceDeregMR_def
      deregMR_def cmdDestroyMKey_def Let_def coExec_def destroysSucceed_def split: prod.splits option.splits if_splits)
    (metis fst_conv)+

lemma destroy_frame [simp]:
  "roCQ (snd (roceDestroyQP xc h ro)) = roCQ ro" "roMR (snd (roceDestroyQP xc h ro)) = roMR ro"
  "roAH (snd (roceDestroyQP xc h ro)) = roAH ro"
  "roQP (snd (roceDestroyCQ xc h ro)) = roQP ro" "roMR (snd (roceDestroyCQ xc h ro)) = roMR ro"
  "roAH (snd (roceDestroyCQ xc h ro)) = roAH ro"
  "roQP (snd (roceDeregMR xc h ro)) = roQP ro" "roCQ (snd (roceDeregMR xc h ro)) = roCQ ro"
  "roAH (snd (roceDeregMR xc h ro)) = roAH ro"
  "roQP (snd (roceDestroyAH h ro)) = roQP ro" "roCQ (snd (roceDestroyAH h ro)) = roCQ ro"
  "roMR (snd (roceDestroyAH h ro)) = roMR ro"
  by (simp_all add: roceDestroyQP_def roceDestroyCQ_def roceDeregMR_def roceDestroyAH_def split: prod.split)

definition tablesUnique :: "'w MlxRoCE \<Rightarrow> bool" where
  "tablesUnique ro \<longleftrightarrow> distinct (map qp_qpNum (roQP ro)) \<and> distinct (map cq_cqNumber (fCqTable (roCQ ro))) \<and>
     distinct (map mr_mrHandle (fMrTable (roMR ro))) \<and> distinct (map ah_ahHandle (fAhTable (roAH ro)))"

definition closedOver :: "MlxUserClient \<Rightarrow> 'w MlxRoCE \<Rightarrow> 'w MlxRoCE \<Rightarrow> bool" where
  "closedOver uc ro ro' \<longleftrightarrow>
     roQP ro' = filter (\<lambda>c. qp_qpNum c \<notin> own (fOwnedQp uc)) (roQP ro) \<and>
     fCqTable (roCQ ro') = filter (\<lambda>c. cq_cqNumber c \<notin> own (fOwnedCq uc)) (fCqTable (roCQ ro)) \<and>
     fMrTable (roMR ro') = filter (\<lambda>c. mr_mrHandle c \<notin> own (fOwnedMr uc)) (fMrTable (roMR ro)) \<and>
     fAhTable (roAH ro') = filter (\<lambda>c. ah_ahHandle c \<notin> own (fOwnedAh uc)) (fAhTable (roAH ro))"

text \<open>What closing does to the tables whatever the device answers.\<close>

definition closedOnly :: "'w execFn \<Rightarrow> MlxUserClient \<Rightarrow> 'w MlxRoCE \<Rightarrow> 'w MlxRoCE \<Rightarrow> bool" where
  "closedOnly xc uc ro ro' \<longleftrightarrow>
     takenBack qp_qpNum (own (fOwnedQp uc)) (\<lambda>h. \<exists>r. fst (roceDestroyQP xc h r) \<noteq> kIOReturnSuccess)
       (roQP ro) (roQP ro') \<and>
     takenBack cq_cqNumber (own (fOwnedCq uc)) (\<lambda>h. \<exists>r. fst (roceDestroyCQ xc h r) \<noteq> kIOReturnSuccess)
       (fCqTable (roCQ ro)) (fCqTable (roCQ ro')) \<and>
     takenBack mr_mrHandle (own (fOwnedMr uc)) (\<lambda>h. \<exists>r. fst (roceDeregMR xc h r) \<noteq> kIOReturnSuccess)
       (fMrTable (roMR ro)) (fMrTable (roMR ro')) \<and>
     takenBack ah_ahHandle (own (fOwnedAh uc)) (\<lambda>h. False) (fAhTable (roAH ro)) (fAhTable (roAH ro'))"

lemma closedOver_closedOnly: "closedOnly xc uc ro ro' \<Longrightarrow> destroysSucceed xc \<Longrightarrow> closedOver uc ro ro'"
  unfolding closedOnly_def closedOver_def by (auto simp: destroysSucceedD dest!: takenBack_all)

text \<open>C26: Closing a client takes back what it owned and nothing else. Whatever the firmware
  answers, the objects of other clients are all left, in the same order, an object of the
  client is left only if its destroy command failed (an address handle never), and the client
  has no tables and no device any more, so that every later cleanup (\<open>stop\<close> and \<open>free\<close> run it
  again) does nothing. When the destroy commands succeed, the queue pairs, completion queues,
  regions and address handles of the device are exactly those it had before less the client's.\<close>

theorem client_cleanup:
  assumes "ucRoce uc" and "fOwnedLock uc" and "fOwnedQp uc = Some qs" and "fOwnedCq uc = Some cs"
    and "fOwnedMr uc = Some ms" and "fOwnedAh uc = Some hs" and "tablesUnique ro"
    and run: "ucCleanup xc uc ro = (uc', ro')"
  shows "closedOnly xc uc ro ro' \<and> (destroysSucceed xc \<longrightarrow> closedOver uc ro ro') \<and>
    ucCleanup xc uc' ro' = (uc', ro') \<and> \<not> ucRoce uc' \<and> fActiveCq uc' = 0"
proof -
  define r1 where "r1 = snd (releaseWhile True (\<lambda>h ro. snd (roceDestroyQP xc h ro)) (Some qs) ro)"
  define r2 where "r2 = snd (releaseWhile True (\<lambda>h ro. snd (roceDeregMR xc h ro)) (Some ms) r1)"
  define r3 where "r3 = snd (releaseWhile True (\<lambda>h ro. snd (roceDestroyAH h ro)) (Some hs) r2)"
  define r4 where "r4 = snd (releaseWhile True (\<lambda>h ro. snd (roceDestroyCQ xc h ro)) (Some cs) r3)"
  have f1: "roCQ r1 = roCQ ro" "roMR r1 = roMR ro" "roAH r1 = roAH ro"
    unfolding r1_def by (rule releaseWhile_frame, simp)+
  have f2: "roQP r2 = roQP r1" "roCQ r2 = roCQ r1" "roAH r2 = roAH r1"
    unfolding r2_def by (rule releaseWhile_frame, simp)+
  have f3: "roQP r3 = roQP r2" "roCQ r3 = roCQ r2" "roMR r3 = roMR r2"
    unfolding r3_def by (rule releaseWhile_frame, simp)+
  have f4: "roQP r4 = roQP r3" "roMR r4 = roMR r3" "roAH r4 = roAH r3"
    unfolding r4_def by (rule releaseWhile_frame, simp)+
  note u = assms(7) [unfolded tablesUnique_def] and del = destroyed_tables
  note t1 = releaseWhile_table [where tbl = roQP and key = qp_qpNum and ro = ro and hs = qs, OF del(1) [where xc = xc], folded r1_def]
  note t2 = releaseWhile_table [where tbl = "\<lambda>r. fMrTable (roMR r)" and key = mr_mrHandle and ro = r1 and hs = ms,
      OF del(3) [where xc = xc], folded r2_def]
  note t3 = releaseWhile_table [where tbl = "\<lambda>r. fAhTable (roAH r)" and key = ah_ahHandle and ro = r2 and hs = hs
      and ok = "\<lambda>_ _. True" and f = "\<lambda>h ro. snd (roceDestroyAH h ro)", simplified if_True, OF del(4), folded r3_def]
  note t4 = releaseWhile_table [where tbl = "\<lambda>r. fCqTable (roCQ r)" and key = cq_cqNumber and ro = r3 and hs = cs,
      OF del(2) [where xc = xc], folded r4_def]
  have "closedOnly xc uc ro r4"
    unfolding closedOnly_def using t1 t2 t3 t4 u assms(3-6) by (simp add: own_def f1 f2 f3 f4)
  moreover have "ro' = r4 \<and> \<not> ucRoce uc' \<and> fOwnedQp uc' = None \<and> fOwnedCq uc' = None \<and> fOwnedMr uc' = None \<and>
      fOwnedAh uc' = None \<and> \<not> fOwnedLock uc' \<and> fActiveCq uc' = 0"
    using run assms(1-6)
    by (simp add: ucCleanup_def releaseOwnedResources_def case_prod_beta r1_def r2_def r3_def r4_def Let_def) auto
  ultimately show ?thesis using closedOver_closedOnly by (auto simp: ucCleanup_def releaseOwnedResources_def)
qed

section \<open>Witnesses\<close>

definition sampleUc :: "u32 list \<Rightarrow> u32 list \<Rightarrow> MlxUserClient" where
  "sampleUc qs cs = \<lparr>ucRoce = True, ucTask = 7, fOwnedQp = Some qs, fOwnedCq = Some cs, fOwnedMr = Some [],
     fOwnedAh = Some [], fOwnedLock = True, fActiveCq = 0\<rparr>"

definition handleArgs :: "u32 \<Rightarrow> ucArgs" where
  "handleArgs h = \<lparr>aOut = True, aHandle = h, aVirt = None, aCreateQp = None, aModifyQp = None, aEntries = 0,
     aRegMr = None, aCreateAh = None, aCc = None, aCqHandle = None, aConsumer = None,
     aPort = \<lparr>qpr_portNum = 0, qpr_linkLayer = 0, qpr_portState = 0, qpr_gidType = 0, qpr_activeSpeed = 0,
       qpr_maxMtu = 0, qpr_lid = 0, qpr_smLid = 0, qpr_pkeyTblLen = 0, qpr_gidTblLen = 0\<rparr>\<rparr>"

definition sampleRo :: "unit MlxRoCE" where
  "sampleRo = (roceInit sampleCo)\<lparr>roQP := map (\<lambda>n. newQpContext n sampleQpReq 0 noDmaReq noDmaReq) [5, 6]\<rparr>"

lemma sampleXc_destroys: "destroysSucceed sampleXc"
  by (simp add: destroysSucceed_def sampleXc_def)

theorem client_cleanup_witness:
  "map qp_qpNum (roQP (snd (ucCleanup sampleXc (sampleUc [5] []) sampleRo))) = [6]"
proof -
  obtain uc' ro' where run: "ucCleanup sampleXc (sampleUc [5] []) sampleRo = (uc', ro')" by fastforce
  have u: "tablesUnique sampleRo"
    by (simp add: tablesUnique_def sampleRo_def roceInit_def cqInit_def mrInit_def ahInit_def newQpContext_def)
  from client_cleanup [OF _ _ _ _ _ _ u run, of "[5]" "[]" "[]" "[]"] sampleXc_destroys
  have "closedOver (sampleUc [5] []) sampleRo ro'" by (simp add: sampleUc_def)
  then have "roQP ro' = filter (\<lambda>c. qp_qpNum c \<noteq> 5) (roQP sampleRo)" by (simp add: closedOver_def sampleUc_def own_def)
  then have "map qp_qpNum (roQP ro') = [6]" by (simp add: sampleRo_def newQpContext_def)
  then show ?thesis by (simp add: run)
qed

theorem cq_outlives_qps_witness:
  "\<forall>env. \<exists>uc ro uc2. ucHistory sampleXc [(env\<lparr>ueAdd := True\<rparr>, DestroyCQ, handleArgs 2)]
     (\<lambda>q. if q = 5 then {2} else {}, sampleUc [5] [2], sampleRo) = Some (\<lambda>q. if q = 5 then {2} else {}, uc, ro) \<and>
     ucDestroyCQ sampleXc env 2 uc ro = (kIOReturnBusy, NoOut, uc2, ro)"
proof
  fix env
  let ?deps = "\<lambda>q :: u32. if q = 5 then {2} else ({} :: u32 set)"
  have held: "cqsHeld ?deps (sampleUc [5] [2])" by (simp add: cqsHeld_def sampleUc_def own_def)
  let ?uc = "(sampleUc [5] [2])\<lparr>fOwnedCq := Some [2]\<rparr>"
  have run: "ucHistory sampleXc [(env\<lparr>ueAdd := True\<rparr>, DestroyCQ, handleArgs 2)] (?deps, sampleUc [5] [2], sampleRo) =
      Some (?deps, ?uc, sampleRo)"
    by (simp add: ucRun_def ucDestroyCQ_def Let_def removeOwned_def addOwned_def sampleUc_def handleArgs_def
        ucDepsAfter_def)
  have "own (fOwnedQp ?uc) \<noteq> {}" "2 \<in> own (fOwnedCq ?uc)" by (simp_all add: sampleUc_def own_def)
  with cq_outlives_qps [OF held _ run, of 2 env] run
  show "\<exists>uc ro uc2. ucHistory sampleXc [(env\<lparr>ueAdd := True\<rparr>, DestroyCQ, handleArgs 2)] (?deps, sampleUc [5] [2], sampleRo) =
      Some (?deps, uc, ro) \<and> ucDestroyCQ sampleXc env 2 uc ro = (kIOReturnBusy, NoOut, uc2, ro)"
    by auto
qed

theorem client_isolation_witness:
  "\<forall>env. externalMethod sampleXc (\<lambda>_ _. None) env 0x1022 (handleArgs 6) (sampleUc [5] []) (roceInit sampleCo) =
     Some (kIOReturnNotPermitted, NoOut, sampleUc [5] [], roceInit sampleCo)"
proof
  fix env
  let ?ro = "roceInit sampleCo"
  have fr: "freshFw sampleXc ?ro" "ahLookup (fNextHandle (roAH ?ro)) (fAhTable (roAH ?ro)) = None"
    by (simp_all add: freshFw_def roceInit_def table_fns tblLookup_def cqInit_def mrInit_def ahInit_def)
  have i: "map_of selectorMap 0x1022 = Some 4" "sMethods ! 4 = (DestroyQP, 4, 0)"
    by (simp_all add: selectorMap_def sMethods_def)
  obtain kr out uc' ro' where d: "ucDestroyQP sampleXc env 6 (sampleUc [5] []) ?ro = (kr, out, uc', ro')"
    by (metis prod_cases4)
  then have run: "externalMethod sampleXc (\<lambda>_ _. None) env 0x1022 (handleArgs 6) (sampleUc [5] []) ?ro =
      Some (kr, out, uc', ro')"
    using i by (simp add: externalMethod_def ucRun_def handleArgs_def)
  then have "out = NoOut"
    using i by (simp add: externalMethod_def ucRun_def ucDestroyQP_def Let_def split: if_splits prod.splits)
  moreover have "namesForeign DestroyQP (handleArgs 6) (sampleUc [5] [])" "ucRoce (sampleUc [5] [])"
    by (simp_all add: namesForeign_def handleArgs_def sampleUc_def own_def)
  ultimately show "externalMethod sampleXc (\<lambda>_ _. None) env 0x1022 (handleArgs 6) (sampleUc [5] []) ?ro =
      Some (kIOReturnNotPermitted, NoOut, sampleUc [5] [], ?ro)"
    using client_isolation [OF fr run] i run by simp
qed

end
