(* ===== verification/MlxPCI.thy ===== *)
theory MlxPCI
  imports MlxExec MlxUAR MlxHealth MlxDMA MlxFwPages MlxHCA
begin

text \<open>
  \<^verbatim>\<open>Sources/core/MlxPCIDriver.{hpp,cpp}\<close>: the PCI driver, which owns every other object of the
  core layer, brings the device up in a fixed order and takes it down again. A pointer member is
  an \<open>option\<close>; the objects are the states of the other theories. \<open>pcCmd\<close> holds the state of
  the command interface, whose operations are the record \<open>cmdIfc\<close>; \<open>mlxCmdIfc\<close> is that record
  for the model of \<^verbatim>\<open>MlxCmd\<close>. What IOKit answers is the record \<open>pciEnv\<close>. Objects are released
  into the list \<open>pcFreed\<close>, with the state their destructor leaves, so that the order of
  releases and what they leak can be stated.
\<close>

unbundle bit_operations_syntax

section \<open>Data\<close>

record 'w cmdIfc =
  ciExec :: "'w execFn"
  ciUp :: "'w \<Rightarrow> bool"            \<comment> \<open>\<open>isUp\<close>\<close>
  ciQuar :: "'w \<Rightarrow> bool"          \<comment> \<open>\<open>isQuarantined\<close>\<close>
  ciRev :: "'w \<Rightarrow> u16"            \<comment> \<open>\<open>cmdifRev\<close>\<close>

definition mlxCmdIfc :: "cmdWorld cmdIfc" where
  "mlxCmdIfc = \<lparr>ciExec = cmdExec, ciUp = (\<lambda>w. fUp (cwCmd w)), ciQuar = (\<lambda>w. fQuarantined (cwCmd w)),
     ciRev = (\<lambda>w. fCmdifRev (cwCmd w))\<rparr>"

text \<open>The object after \<^verbatim>\<open>OSTypeAlloc(MlxCmd)\<close> and \<^verbatim>\<open>init(this, fBar0Map, 4096)\<close>.\<close>

definition newCmd :: "CmdInitEnv \<Rightarrow> (nat \<Rightarrow> CmdEnv) \<Rightarrow> bool \<times> cmdWorld" where
  "newCmd ienv env =
     (case init ienv 4096 of (ok, c) \<Rightarrow> (ok, \<lparr>cwCmd = c, cwEnv = env, cwCalls = 0\<rparr>))"

datatype pciObject =
    FreedHealth MlxHealth
  | FreedFwPages MlxFwPages
  | FreedDMA MlxDMA
  | FreedEQ MlxEQ "MlxEqEntry list"     \<comment> \<open>with the rings it leaks\<close>
  | FreedUAR MlxUAR
  | FreedCmd
  | FreedHCA
  | FreedBar0
  | FreedPci

record 'w MlxPCIDriver =
  pcPci :: bool
  pcBar0 :: bool
  pcCmd :: "'w option"
  pcEQ :: "MlxEQ option"
  pcUAR :: "MlxUAR option"
  pcHCA :: "MlxHCA option"
  pcHealth :: "MlxHealth option"
  pcDMA :: "MlxDMA option"
  pcFwPages :: "MlxFwPages option"
  pcDeviceId :: u16
  pcIssi :: u32
  pcDevIdx :: u32
  pcHcaEnabled :: bool
  pcHcaInit :: bool
  pcRuntime :: bool
  pcStopping :: bool
  pcQuarantine :: bool
  pcBusMaster :: bool          \<comment> \<open>last \<open>setBusMasterEnable\<close>\<close>
  pcMemEnable :: bool
  pcRdma :: bool               \<comment> \<open>property \<open>mlx_rdma\<close>\<close>
  pcEth :: bool                \<comment> \<open>property \<open>mlx_eth\<close>\<close>
  pcDevName :: "u32 option"    \<comment> \<open>property \<open>deviceName\<close>: the number in \<open>mlx5_%u\<close>\<close>
  pcRegistered :: bool
  pcFreed :: "pciObject list"

text \<open>Allocations that fail are \<open>None\<close> or \<open>False\<close>; reads of the device are numbered.\<close>

record 'w pciEnv =
  peSuper :: bool
  pePci :: bool
  peDevIdx :: u32                      \<comment> \<open>the static counter\<close>
  peVendorId :: u16
  peDeviceId :: u16
  peRevision :: u16
  peBar :: bool
  peBarAddr :: u64
  pePageShift :: nat                   \<comment> \<open>\<open>PAGE_SHIFT\<close>\<close>
  peCmd :: "(bool \<times> 'w) option"
  peFw :: "(bool \<times> bool \<times> bool) option"  \<comment> \<open>the two locks and the thread call\<close>
  peInitializing :: "nat \<Rightarrow> u32"       \<comment> \<open>polls of \<open>initializing\<close>\<close>
  peFwRev :: u32
  peSetCaps :: bool                    \<comment> \<open>the buffers of \<open>setHcaCaps\<close>\<close>
  peCapBufs :: bool                    \<comment> \<open>the buffers of \<open>queryHcaCaps\<close>\<close>
  peQueryOut :: "nat \<Rightarrow> bool"          \<comment> \<open>the buffer of each \<open>queryHcaCap\<close>\<close>
  peFwEnv :: FwEnv
  peUar :: "bool option"               \<comment> \<open>the lock\<close>
  peUarDesc :: bool
  peUarMap :: "u64 option"
  peUarRecord :: bool
  peDbMem :: bool
  peDbMap :: "ioreturn \<times> u64"
  peIrqConf :: ioreturn
  peIrqType :: "nat \<Rightarrow> ioreturn \<times> u32"
  peEq :: "(bool \<times> bool \<times> bool) option"  \<comment> \<open>entries, lock, work loop\<close>
  peEqAsync :: "nat \<Rightarrow> eqBufEnv"
  peEqComp :: "nat \<Rightarrow> eqBufEnv"
  peIntr :: intrEnv
  peHealth :: "bool option"
  peHealthWl :: bool
  peHealthTimer :: bool
  peHealthEvent :: bool
  peHealthCounter :: u32
  peDma :: "bool option"
  peCommand :: u16                     \<comment> \<open>the command register after bus mastering was cleared\<close>

definition kIOInterruptTypePCIMessagedX :: u32 where "kIOInterruptTypePCIMessagedX = 0x20000"

text \<open>The number of the page manager among the event notifiers.\<close>

definition fwPagesNotifier :: nat where "fwPagesNotifier = 0"

definition pciInit :: "'w MlxPCIDriver" where
  "pciInit = \<lparr>pcPci = False, pcBar0 = False, pcCmd = None, pcEQ = None, pcUAR = None, pcHCA = None,
     pcHealth = None, pcDMA = None, pcFwPages = None, pcDeviceId = 0, pcIssi = 0, pcDevIdx = 0,
     pcHcaEnabled = False, pcHcaInit = False, pcRuntime = False, pcStopping = False,
     pcQuarantine = False, pcBusMaster = False, pcMemEnable = False, pcRdma = False, pcEth = False,
     pcDevName = None, pcRegistered = False, pcFreed = []\<rparr>"

section \<open>Firmware commands\<close>

text \<open>
  The call \<^verbatim>\<open>fCmd->exec\<close> on the member, which may be NULL; \<^verbatim>\<open>MlxPCIDriver::exec\<close> answers
  \<open>kIOReturnNotReady\<close> then. The sub-objects reach the interface through the same member.
\<close>

definition pcX :: "'w cmdIfc \<Rightarrow> 'w option execFn" where
  "pcX ci cmd opcode inb m t =
     (case cmd of
        None \<Rightarrow> (kIOReturnNotReady, replicate m 0, None)
      | Some w \<Rightarrow> (case ciExec ci w opcode inb m t of (kr, out, w) \<Rightarrow> (kr, out, Some w)))"

definition pciExec ::
  "'w cmdIfc \<Rightarrow> u32 \<Rightarrow> buffer \<Rightarrow> nat \<Rightarrow> nat \<Rightarrow> 'w MlxPCIDriver \<Rightarrow> ioreturn \<times> buffer \<times> 'w MlxPCIDriver" where
  "pciExec ci opcode inb outSize timeoutMs st =
     (case pcX ci (pcCmd st) opcode inb outSize timeoutMs of (kr, out, w) \<Rightarrow> (kr, out, st\<lparr>pcCmd := w\<rparr>))"

definition opBuffer :: "nat \<Rightarrow> u32 \<Rightarrow> buffer" where
  "opBuffer n op = OSWriteBigInt16 (replicate n 0) 0 (ucast op)"

definition enableHca :: "'w cmdIfc \<Rightarrow> 'w MlxPCIDriver \<Rightarrow> bool \<times> 'w MlxPCIDriver" where
  "enableHca ci st =
     (case pciExec ci MLX_CMD_OP_ENABLE_HCA (opBuffer 16 MLX_CMD_OP_ENABLE_HCA) 16 5000 st of
        (kr, out, st) \<Rightarrow> (kr = kIOReturnSuccess, st))"

definition setIssi :: "'w cmdIfc \<Rightarrow> 'w MlxPCIDriver \<Rightarrow> bool \<times> 'w MlxPCIDriver" where
  "setIssi ci st =
     (case pciExec ci MLX_CMD_OP_QUERY_ISSI (opBuffer 16 MLX_CMD_OP_QUERY_ISSI) 112 5000 st of
        (kr, out, st) \<Rightarrow>
          if kr \<noteq> kIOReturnSuccess then (True, st\<lparr>pcIssi := 0\<rparr>)
          else
            (let supIssi = (ucast (mlxGetBits out 0x360 32) :: u32)
             in if supIssi AND push_bit 1 1 \<noteq> 0
                then (case pciExec ci MLX_CMD_OP_SET_ISSI
                             (mlxSetBits (opBuffer 16 MLX_CMD_OP_SET_ISSI) 0x50 16 1) 16 5000 st of
                        (kr, out, st) \<Rightarrow>
                          (True, st\<lparr>pcIssi := (if kr \<noteq> kIOReturnSuccess then 0 else 1)\<rparr>))
                else (True, st\<lparr>pcIssi := 0\<rparr>)))"

definition initHca :: "'w cmdIfc \<Rightarrow> 'w MlxPCIDriver \<Rightarrow> bool \<times> 'w MlxPCIDriver" where
  "initHca ci st =
     (case pciExec ci MLX_CMD_OP_INIT_HCA (opBuffer MLX_P1_INIT_HCA_IN_BYTES MLX_CMD_OP_INIT_HCA) 16 5000 st of
        (kr, out, st) \<Rightarrow> (kr = kIOReturnSuccess, st))"

definition teardownHca :: "'w cmdIfc \<Rightarrow> 'w MlxPCIDriver \<Rightarrow> bool \<times> 'w MlxPCIDriver" where
  "teardownHca ci st =
     (case pciExec ci MLX_CMD_OP_TEARDOWN_HCA (opBuffer 16 MLX_CMD_OP_TEARDOWN_HCA) 16 5000 st of
        (kr, out, st) \<Rightarrow> (kr = kIOReturnSuccess, st))"

definition disableHca :: "'w cmdIfc \<Rightarrow> 'w MlxPCIDriver \<Rightarrow> bool \<times> 'w MlxPCIDriver" where
  "disableHca ci st =
     (case pciExec ci MLX_CMD_OP_DISABLE_HCA (opBuffer 16 MLX_CMD_OP_DISABLE_HCA) 16 5000 st of
        (kr, out, st) \<Rightarrow> (kr = kIOReturnSuccess, st))"

section \<open>Capabilities\<close>

text \<open>\<open>mem\<close>: whether the reply buffer was allocated.\<close>

definition queryHcaCap ::
  "'w cmdIfc \<Rightarrow> bool \<Rightarrow> u16 \<Rightarrow> u16 \<Rightarrow> 'w MlxPCIDriver \<Rightarrow> buffer option \<times> 'w MlxPCIDriver" where
  "queryHcaCap ci mem type' mode st =
     (if \<not> mem then (None, st)
      else
        (let zero = replicate MLX_P1_QUERY_HCA_CAP_IN_BYTES 0;
             inb = (case mlxP1EncodeQueryHcaCap (Some zero) MLX_P1_QUERY_HCA_CAP_IN_BYTES type' mode of
                      Some b \<Rightarrow> b | None \<Rightarrow> zero)
         in case pciExec ci MLX_CMD_OP_QUERY_HCA_CAP inb MLX_P1_QUERY_HCA_CAP_OUT_BYTES 5000 st of
              (kr, out, st) \<Rightarrow>
                (if kr = kIOReturnSuccess
                 then Some (take MLX_P1_HCA_CAP_BYTES (drop MLX_P1_CMD_HEADER_BYTES out)) else None, st)))"

text \<open>The input of \<open>SET_HCA_CAP\<close>; the capability page starts after the 16 header bytes.\<close>

definition setHcaCapsInput :: "nat \<Rightarrow> buffer \<Rightarrow> buffer \<Rightarrow> buffer" where
  "setHcaCapsInput pageShift maxCap curCap =
     (let inb = copyInto (replicate MLX_P1_SET_HCA_CAP_IN_BYTES 0) MLX_P1_CMD_HEADER_BYTES (take 256 curCap);
          logUarPageSize = (of_nat (if 12 < pageShift then pageShift - 12 else 0) :: u16)
      in setFields inb
           [(0x00, 16, ucast MLX_CMD_OP_SET_HCA_CAP), (0x30, 16, ucast (push_bit 1 MLX_P1_CAP_GENERAL)),
            (0x80 + 0x210, 2, 0), (0x80 + 0x20f, 1, 1),
            (0x80 + 0x145, 1, mlxGetBits maxCap 0x145 1),
            (0x80 + 0x240, 1, if 12 < pageShift \<and> mlxGetBits maxCap 0x240 1 \<noteq> 0 then 1 else 0),
            (0x80 + 0x490, 16, ucast logUarPageSize)])"

definition setHcaCaps :: "'w cmdIfc \<Rightarrow> 'w pciEnv \<Rightarrow> 'w MlxPCIDriver \<Rightarrow> bool \<times> 'w MlxPCIDriver" where
  "setHcaCaps ci env st =
     (if \<not> peSetCaps env then (False, st)
      else
        (case queryHcaCap ci (peQueryOut env 0) MLX_P1_CAP_GENERAL MLX_P1_CAP_MAX st of
           (None, st) \<Rightarrow> (False, st)
         | (Some maxCap, st) \<Rightarrow>
             (case queryHcaCap ci (peQueryOut env 1) MLX_P1_CAP_GENERAL MLX_P1_CAP_CURRENT st of
                (None, st) \<Rightarrow> (False, st)
              | (Some curCap, st) \<Rightarrow>
                  (case pciExec ci MLX_CMD_OP_SET_HCA_CAP
                          (setHcaCapsInput (pePageShift env) maxCap curCap) 16 5000 st of
                     (kr, out, st) \<Rightarrow> (kr = kIOReturnSuccess, st)))))"

text \<open>One of the optional capability pages: asked for only if \<open>wanted\<close>.\<close>

definition optionalCap ::
  "'w cmdIfc \<Rightarrow> bool \<Rightarrow> bool \<Rightarrow> u16 \<Rightarrow> (buffer option \<Rightarrow> nat \<Rightarrow> 'c option) \<Rightarrow> 'w MlxPCIDriver \<Rightarrow>
   'c option \<times> 'w MlxPCIDriver" where
  "optionalCap ci wanted mem type' parse st =
     (if \<not> wanted then (None, st)
      else
        (case queryHcaCap ci mem type' MLX_P1_CAP_CURRENT st of
           (None, st) \<Rightarrow> (None, st)
         | (Some b, st) \<Rightarrow> (parse (Some b) MLX_P1_HCA_CAP_BYTES, st)))"

definition capsOf ::
  "u32 \<Rightarrow> u16 \<Rightarrow> buffer \<Rightarrow> MlxP1GeneralCaps \<Rightarrow> MlxP1RoceCaps option \<Rightarrow> MlxP1FlowCaps option \<Rightarrow>
   MlxP1EthernetCaps option \<Rightarrow> MlxHcaCaps" where
  "capsOf fwRev cmdifRev general c ro fl et =
     zeroCaps\<lparr>hc_fwRev := fwRev, hc_cmdifRev := cmdifRev,
       hc_maxQp := mlxP1LogResourceSize (logMaxQp c), hc_maxCq := mlxP1LogResourceSize (logMaxCq c),
       hc_maxMr := mlxP1LogResourceSize (logMaxMkey c), hc_portType := portType c,
       hc_numPorts := ucast (numPorts c), hc_roce := ro \<noteq> None, hc_uar4k := uar4k c,
       hc_logUarPageSize := ucast (mlxGetBits general 0x490 16),
       hc_logBfRegSize := (if bf c then logBfRegSize c else 0), hc_roceRwSupported := roceRwSupported c,
       hc_roceMaxGid := (case ro of Some r \<Rightarrow> addressTableSize r | None \<Rightarrow> 0),
       hc_roceVersions := (case ro of Some r \<Rightarrow> mlxP1RoceVersionsForAbi (versions r) | None \<Rightarrow> 0),
       hc_roceDstUdpPort := (case ro of Some r \<Rightarrow> destinationUdpPort r | None \<Rightarrow> 0),
       hc_roceMinSrcUdpPort := (case ro of Some r \<Rightarrow> minimumSourceUdpPort r | None \<Rightarrow> 0),
       hc_swRoceSrcUdpPort := (case ro of Some r \<Rightarrow> sourceUdpPortWritable r | None \<Rightarrow> False),
       hc_nicFlowTable := (case fl of Some f \<Rightarrow> nicRx f \<and> nicTx f | None \<Rightarrow> False),
       hc_ethNetOffloads := (case et of Some e \<Rightarrow> checksum e \<and> vlan e | None \<Rightarrow> False),
       hc_ibSupported := (portType c = MLX_PORT_TYPE_IB),
       hc_ibMaxPkeys := ucast (mlxP1PkeyTableSize (ucast (pkeyTableEncoding c)))\<rparr>"

definition queryHcaCaps :: "'w cmdIfc \<Rightarrow> 'w pciEnv \<Rightarrow> 'w MlxPCIDriver \<Rightarrow> bool \<times> 'w MlxPCIDriver" where
  "queryHcaCaps ci env st =
     (if \<not> peCapBufs env then (False, st)
      else
        (case queryHcaCap ci (peQueryOut env 2) MLX_P1_CAP_GENERAL MLX_P1_CAP_CURRENT st of
           (None, st) \<Rightarrow> (False, st)
         | (Some general, st) \<Rightarrow>
             (case mlxP1ParseGeneralCaps (Some general) MLX_P1_HCA_CAP_BYTES of
                None \<Rightarrow> (False, st)
              | Some c \<Rightarrow>
                  (let (ro, st) = optionalCap ci (roce c) (peQueryOut env 3) MLX_P1_CAP_ROCE
                         mlxP1ParseRoceCaps st;
                       (fl, st) = optionalCap ci (nicFlowTable c) (peQueryOut env 4) MLX_P1_CAP_FLOW_TABLE
                         mlxP1ParseFlowCaps st;
                       (et, st) = optionalCap ci (ethNetOffloads c) (peQueryOut env 5)
                         MLX_P1_CAP_ETHERNET_OFFLOADS mlxP1ParseEthernetCaps st;
                       caps = capsOf (peFwRev env)
                         (case pcCmd st of Some w \<Rightarrow> ciRev ci w | None \<Rightarrow> 0) general c ro fl et
                   in (hc_numPorts caps \<noteq> 0 \<and> hc_maxQp caps \<noteq> 0 \<and> hc_maxCq caps \<noteq> 0 \<and> hc_maxMr caps \<noteq> 0,
                       st\<lparr>pcHCA := map_option (\<lambda>h. h\<lparr>hcaCaps := caps\<rparr>) (pcHCA st)\<rparr>)))))"

definition pcCaps :: "'w MlxPCIDriver \<Rightarrow> MlxHcaCaps" where
  "pcCaps st = (case pcHCA st of Some h \<Rightarrow> hcaCaps h | None \<Rightarrow> zeroCaps)"

section \<open>Bring-up\<close>

text \<open>Each step answers whether it succeeded; \<open>None\<close> is a wait of a sub-object that never ends.\<close>

definition pcStartupPages ::
  "'w cmdIfc \<Rightarrow> 'w pciEnv \<Rightarrow> MlxFwPagePhase \<Rightarrow> 'w MlxPCIDriver \<Rightarrow> bool \<times> 'w MlxPCIDriver" where
  "pcStartupPages ci env ph st =
     (case pcFwPages st of
        None \<Rightarrow> (False, st)
      | Some fp \<Rightarrow>
          (case satisfyStartupPages (pcX ci) (peFwEnv env) ph fp (pcCmd st) of
             (kr, fp, w) \<Rightarrow> (kr = kIOReturnSuccess, st\<lparr>pcFwPages := Some fp, pcCmd := w\<rparr>)))"

text \<open>Up to 100 polls of the pre-initialising bit, 10 ms apart.\<close>

definition firmwareReady :: "(nat \<Rightarrow> u32) \<Rightarrow> bool" where
  "firmwareReady polls = list_ex (\<lambda>i. polls i AND push_bit 31 1 = 0) [0..<100]"

definition fwInit :: "'w cmdIfc \<Rightarrow> 'w pciEnv \<Rightarrow> 'w MlxPCIDriver \<Rightarrow> bool \<times> 'w MlxPCIDriver" where
  "fwInit ci env st =
     (if \<not> firmwareReady (peInitializing env) then (False, st)
      else
        (case enableHca ci st of (ok, st) \<Rightarrow> if \<not> ok then (False, st) else
        (case setIssi ci (st\<lparr>pcHcaEnabled := True\<rparr>) of (ok, st) \<Rightarrow> if \<not> ok then (False, st) else
        (case pcStartupPages ci env kMlxFwPageBoot st of (ok, st) \<Rightarrow> if \<not> ok then (False, st) else
        (case setHcaCaps ci env st of (ok, st) \<Rightarrow> if \<not> ok then (False, st) else
        (case pcStartupPages ci env kMlxFwPageInit st of (ok, st) \<Rightarrow> if \<not> ok then (False, st) else
        (case initHca ci st of (ok, st) \<Rightarrow> if \<not> ok then (False, st) else
         queryHcaCaps ci env (st\<lparr>pcHcaInit := True\<rparr>))))))))"

definition bringHca :: "'w pciEnv \<Rightarrow> 'w MlxPCIDriver \<Rightarrow> bool \<times> 'w MlxPCIDriver" where
  "bringHca env st =
     (let st = st\<lparr>pcBusMaster := True, pcMemEnable := True\<rparr>
      in if \<not> peBar env then (False, st)
         else
           (let st = st\<lparr>pcBar0 := True\<rparr>
            in case hcaCreate (pcDeviceId st) of
                 None \<Rightarrow> (False, st)
               | Some h \<Rightarrow>
                   (True, st\<lparr>pcHCA := Some ((attachCore h)\<lparr>hcaVendor :=
                      \<lparr>vi_vendorId = peVendorId env, vi_deviceId = pcDeviceId st,
                       vi_revision = ucast (peRevision env)\<rparr>\<rparr>)\<rparr>)))"

definition bringCmd :: "'w pciEnv \<Rightarrow> 'w MlxPCIDriver \<Rightarrow> bool \<times> 'w MlxPCIDriver" where
  "bringCmd env st =
     (case peCmd env of None \<Rightarrow> (False, st) | Some (ok, w) \<Rightarrow> (ok, st\<lparr>pcCmd := Some w\<rparr>))"

text \<open>A page manager that fails to initialise is released at once.\<close>

definition bringFwPages :: "'w cmdIfc \<Rightarrow> 'w pciEnv \<Rightarrow> 'w MlxPCIDriver \<Rightarrow> bool \<times> 'w MlxPCIDriver" where
  "bringFwPages ci env st =
     (case peFw env of
        None \<Rightarrow> (False, st)
      | Some (opLock, rqLock, worker) \<Rightarrow>
          (case fwPagesInit opLock rqLock worker False of
             (ok, fp) \<Rightarrow>
               if ok then (True, st\<lparr>pcFwPages := Some fp\<rparr>)
               else (False, st\<lparr>pcFreed := pcFreed st @ [FreedFwPages fp]\<rparr>)))"

definition pcUarCaps :: "'w pciEnv \<Rightarrow> 'w MlxPCIDriver \<Rightarrow> UarCaps" where
  "pcUarCaps env st = \<lparr>ucUar4k = hc_uar4k (pcCaps st), ucLogUarPageSize = unat (hc_logUarPageSize (pcCaps st)),
     ucLogBfRegSize = unat (hc_logBfRegSize (pcCaps st)), ucPageSize = push_bit (pePageShift env) 1,
     ucBarAddr = peBarAddr env\<rparr>"

definition bringUar :: "'w cmdIfc \<Rightarrow> 'w pciEnv \<Rightarrow> 'w MlxPCIDriver \<Rightarrow> bool \<times> 'w MlxPCIDriver" where
  "bringUar ci env st =
     (case peUar env of
        None \<Rightarrow> (False, st)
      | Some lock \<Rightarrow>
          (let u = uarInit lock; st = st\<lparr>pcUAR := Some u\<rparr>
           in if \<not> lock then (False, st)
              else
                (case allocUar (pcX ci) (pcUarCaps env st) (peUarDesc env) (peUarMap env)
                        (peUarRecord env) u (pcCmd st) of
                   (kr, bootUar, u, w) \<Rightarrow>
                     (let st = st\<lparr>pcUAR := Some u, pcCmd := w\<rparr>
                      in if kr \<noteq> kIOReturnSuccess then (False, st)
                         else
                           (case allocDbRecord (peDbMem env) (peDbMap env) u of
                              (kr, u) \<Rightarrow> (kr = kIOReturnSuccess, st\<lparr>pcUAR := Some u\<rparr>))))))"

definition interruptsOk :: "'w pciEnv \<Rightarrow> bool" where
  "interruptsOk env =
     (peIrqConf env = kIOReturnSuccess \<and>
      fst (peIrqType env 0) = kIOReturnSuccess \<and> snd (peIrqType env 0) AND kIOInterruptTypePCIMessagedX \<noteq> 0 \<and>
      fst (peIrqType env 1) = kIOReturnSuccess \<and> snd (peIrqType env 1) AND kIOInterruptTypePCIMessagedX \<noteq> 0)"

definition bootUarIndex :: "'w MlxPCIDriver \<Rightarrow> u32" where
  "bootUarIndex st = (case pcUAR st of Some u \<Rightarrow> fBootIndex u | None \<Rightarrow> 0)"

definition uarMapped :: "'w MlxPCIDriver \<Rightarrow> bool" where
  "uarMapped st = (case pcUAR st of Some u \<Rightarrow> fUarMap u \<noteq> None | None \<Rightarrow> False)"

text \<open>\<open>startRuntime\<close> registers the page manager with the event queues.\<close>

definition pcStartRuntime :: "MlxEQ \<Rightarrow> 'w MlxPCIDriver \<Rightarrow> bool \<times> 'w MlxPCIDriver" where
  "pcStartRuntime eq st =
     (case pcFwPages st of
        None \<Rightarrow> (False, st)
      | Some fp \<Rightarrow>
          (case startRuntime True fp of
             (kr, fp) \<Rightarrow>
               if kr \<noteq> kIOReturnSuccess then (False, st)
               else (True, st\<lparr>pcFwPages := Some fp, pcEQ :=
                      Some (registerNotifier (unat MLX_EVENT_TYPE_PAGE_REQUEST) fwPagesNotifier eq)\<rparr>)))"

definition bringInterrupts :: "'w pciEnv \<Rightarrow> 'w MlxPCIDriver \<Rightarrow> bool \<times> 'w MlxPCIDriver" where
  "bringInterrupts env st =
     (case pcEQ st of
        None \<Rightarrow> (False, st)
      | Some eq \<Rightarrow>
          (case setupInterrupts (peIntr env) (uarMapped st) eq of
             (kr, eq, doorbells) \<Rightarrow> (kr = kIOReturnSuccess, st\<lparr>pcEQ := Some eq\<rparr>)))"

definition bringEq :: "'w cmdIfc \<Rightarrow> 'w pciEnv \<Rightarrow> 'w MlxPCIDriver \<Rightarrow> (bool \<times> 'w MlxPCIDriver) option" where
  "bringEq ci env st =
     (if \<not> interruptsOk env then Some (False, st)
      else
        (case peEq env of
           None \<Rightarrow> Some (False, st)
         | Some (alloc, lock, wl) \<Rightarrow>
             (case eqInit alloc lock wl 1 of
                (ok, eq) \<Rightarrow>
                  if \<not> ok then Some (False, st\<lparr>pcEQ := Some eq\<rparr>)
                  else
                    (case createAsyncEqs (pcX ci) (peEqAsync env) (bootUarIndex st) eq (pcCmd st) of
                       None \<Rightarrow> None
                     | Some (kr, eq, w) \<Rightarrow>
                         if kr \<noteq> kIOReturnSuccess then Some (False, st\<lparr>pcEQ := Some eq, pcCmd := w\<rparr>)
                         else
                           (case createCompEqs (pcX ci) (peEqComp env) (bootUarIndex st) eq w of
                              None \<Rightarrow> None
                            | Some (kr, eq, w) \<Rightarrow>
                                (let st = st\<lparr>pcEQ := Some eq, pcCmd := w\<rparr>
                                 in if kr \<noteq> kIOReturnSuccess then Some (False, st)
                                    else
                                      (case pcStartRuntime eq st of
                                         (ok, st) \<Rightarrow>
                                           if \<not> ok then Some (False, st)
                                           else Some (bringInterrupts env (st\<lparr>pcRuntime := True\<rparr>)))))))))"

definition bringHealth :: "'w pciEnv \<Rightarrow> 'w MlxPCIDriver \<Rightarrow> bool \<times> 'w MlxPCIDriver" where
  "bringHealth env st =
     (case peHealth env of
        None \<Rightarrow> (False, st)
      | Some ok \<Rightarrow>
          if \<not> ok then (False, st\<lparr>pcHealth := Some healthInit\<rparr>)
          else
            (case start (peHealthWl env) (peHealthTimer env) (peHealthEvent env) (peHealthCounter env)
                    1000000 healthInit of
               (ok, h) \<Rightarrow> (ok, st\<lparr>pcHealth := Some h\<rparr>)))"

definition bringDma :: "'w pciEnv \<Rightarrow> 'w MlxPCIDriver \<Rightarrow> bool \<times> 'w MlxPCIDriver" where
  "bringDma env st =
     (case peDma env of None \<Rightarrow> (False, st) | Some ok \<Rightarrow> (ok, st\<lparr>pcDMA := Some dmaEmpty\<rparr>))"

text \<open>\<open>unsafe\<close> is the build flag \<^verbatim>\<open>APPLEMCX_ENABLE_UNSAFE_ROCE\<close>, off by default.\<close>

definition rocePublicationAllowed :: "bool \<Rightarrow> 'w MlxPCIDriver \<Rightarrow> bool" where
  "rocePublicationAllowed unsafe st =
     (unsafe \<and> pcHCA st \<noteq> None \<and> hc_roce (pcCaps st) \<and> pcEQ st \<noteq> None \<and> pcDMA st \<noteq> None \<and> pcUAR st \<noteq> None)"

definition publishNubs :: "bool \<Rightarrow> 'w MlxPCIDriver \<Rightarrow> bool \<times> 'w MlxPCIDriver" where
  "publishNubs unsafe st =
     (True, st\<lparr>pcRdma := rocePublicationAllowed unsafe st,
        pcEth := (isEthernet (pcCaps st) \<and> hc_ethNetOffloads (pcCaps st) \<and> hc_nicFlowTable (pcCaps st) \<and>
                  (case pcEQ st of Some eq \<Rightarrow> 0 < length (eqComp eq) | None \<Rightarrow> False)),
        pcDevName := Some (pcDevIdx st)\<rparr>)"

text \<open>The steps of \<open>start\<close> between taking the device and registering the service, in order.\<close>

definition bringUp ::
  "bool \<Rightarrow> 'w cmdIfc \<Rightarrow> 'w pciEnv \<Rightarrow> 'w MlxPCIDriver \<Rightarrow> (bool \<times> 'w MlxPCIDriver) option" where
  "bringUp unsafe ci env st =
     (case bringHca env st of (ok, st) \<Rightarrow> if \<not> ok then Some (False, st) else
     (case bringCmd env st of (ok, st) \<Rightarrow> if \<not> ok then Some (False, st) else
     (case bringFwPages ci env st of (ok, st) \<Rightarrow> if \<not> ok then Some (False, st) else
     (case fwInit ci env st of (ok, st) \<Rightarrow> if \<not> ok then Some (False, st) else
     (case bringUar ci env st of (ok, st) \<Rightarrow> if \<not> ok then Some (False, st) else
     (case bringEq ci env st of None \<Rightarrow> None | Some (ok, st) \<Rightarrow> if \<not> ok then Some (False, st) else
     (case bringHealth env st of (ok, st) \<Rightarrow> if \<not> ok then Some (False, st) else
     (case bringDma env st of (ok, st) \<Rightarrow> if \<not> ok then Some (False, st) else
      Some (publishNubs unsafe st)))))))))"

section \<open>Quarantine and teardown\<close>

definition pciEnterDmaQuarantine :: "'w MlxPCIDriver \<Rightarrow> 'w MlxPCIDriver" where
  "pciEnterDmaQuarantine st =
     st\<lparr>pcQuarantine := True, pcEth := False, pcRdma := False,
        pcBusMaster := (if pcPci st then False else pcBusMaster st)\<rparr>"

definition disableBusMasterAndVerify :: "'w pciEnv \<Rightarrow> 'w MlxPCIDriver \<Rightarrow> bool \<times> 'w MlxPCIDriver" where
  "disableBusMasterAndVerify env st =
     (if \<not> pcPci st then (True, st)
      else (peCommand env AND 0x0004 = 0, st\<lparr>pcBusMaster := False\<rparr>))"

definition pcCmdUp :: "'w cmdIfc \<Rightarrow> 'w MlxPCIDriver \<Rightarrow> bool" where
  "pcCmdUp ci st = (case pcCmd st of Some w \<Rightarrow> ciUp ci w | None \<Rightarrow> False)"

definition pcCmdQuar :: "'w cmdIfc \<Rightarrow> 'w MlxPCIDriver \<Rightarrow> bool" where
  "pcCmdQuar ci st = (case pcCmd st of Some w \<Rightarrow> ciQuar ci w | None \<Rightarrow> False)"

definition pcOutstanding :: "'w MlxPCIDriver \<Rightarrow> bool" where
  "pcOutstanding st = (case pcFwPages st of Some fp \<Rightarrow> hasOutstandingPages fp | None \<Rightarrow> False)"

definition stopHealth :: "'w MlxPCIDriver \<Rightarrow> 'w MlxPCIDriver" where
  "stopHealth st =
     (case pcHealth st of
        None \<Rightarrow> st
      | Some h \<Rightarrow> st\<lparr>pcHealth := None, pcFreed := pcFreed st @ [FreedHealth (healthFree (stop h))]\<rparr>)"

text \<open>
  Stopping the page runtime: the notifier goes, the worker runs once more, and puts the driver
  in quarantine if a fault is pending.
\<close>

definition stopPages :: "'w cmdIfc \<Rightarrow> 'w pciEnv \<Rightarrow> 'w MlxPCIDriver \<Rightarrow> 'w MlxPCIDriver option" where
  "stopPages ci env st =
     (case pcFwPages st of
        None \<Rightarrow> Some st
      | Some fp \<Rightarrow>
          if \<not> pcRuntime st then Some st
          else
            (case stopRuntimeAndDrain (pcX ci) (peFwEnv env) fp (pcCmd st) of
               None \<Rightarrow> None
             | Some (fp', w) \<Rightarrow>
                 (let st = st\<lparr>pcFwPages := Some fp', pcCmd := w, pcRuntime := False,
                        pcEQ := (if fpRuntimeStarted fp
                          then map_option (unregisterNotifier (unat MLX_EVENT_TYPE_PAGE_REQUEST) fwPagesNotifier)
                                 (pcEQ st)
                          else pcEQ st)\<rparr>
                  in Some (if fpRuntimeStarted fp \<and> fpFatal fp' then pciEnterDmaQuarantine st else st))))"

definition destroyEqs :: "'w cmdIfc \<Rightarrow> 'w MlxPCIDriver \<Rightarrow> bool \<times> 'w MlxPCIDriver" where
  "destroyEqs ci st =
     (case pcEQ st of
        None \<Rightarrow> (True, st)
      | Some eq \<Rightarrow>
          (case shutdown (pcX ci) (pcCmdUp ci st) eq (pcCmd st) of
             (ok, eq, w) \<Rightarrow> (ok, st\<lparr>pcEQ := Some eq, pcCmd := w\<rparr>)))"

definition teardownStep :: "'w cmdIfc \<Rightarrow> 'w MlxPCIDriver \<Rightarrow> bool \<times> 'w MlxPCIDriver" where
  "teardownStep ci st =
     (if \<not> (pcHcaInit st \<and> pcCmdUp ci st) then (True, st)
      else
        (case teardownHca ci st of
           (ok, st) \<Rightarrow> if ok then (True, st\<lparr>pcHcaInit := False\<rparr>) else (False, st\<lparr>pcQuarantine := True\<rparr>)))"

definition reclaimStep ::
  "'w cmdIfc \<Rightarrow> 'w pciEnv \<Rightarrow> bool \<Rightarrow> 'w MlxPCIDriver \<Rightarrow> 'w MlxPCIDriver option" where
  "reclaimStep ci env teardownOk st =
     (case pcFwPages st of
        None \<Rightarrow> Some st
      | Some fp \<Rightarrow>
          if \<not> (pcHcaEnabled st \<and> pcCmdUp ci st \<and> \<not> pcCmdQuar ci st \<and> teardownOk \<and> hasOutstandingPages fp)
          then Some st
          else
            (case reclaimAll (pcX ci) (peFwEnv env) 5000 fp (pcCmd st) of
               None \<Rightarrow> None
             | Some (kr, fp, w) \<Rightarrow>
                 Some (st\<lparr>pcFwPages := Some fp, pcCmd := w,
                          pcQuarantine := (pcQuarantine st \<or> kr \<noteq> kIOReturnSuccess)\<rparr>)))"

definition disableStep :: "'w cmdIfc \<Rightarrow> 'w MlxPCIDriver \<Rightarrow> 'w MlxPCIDriver" where
  "disableStep ci st =
     (if \<not> (pcHcaEnabled st \<and> pcCmdUp ci st) then st
      else
        (case disableHca ci st of
           (ok, st) \<Rightarrow> if ok then st\<lparr>pcHcaEnabled := False\<rparr> else st\<lparr>pcQuarantine := True\<rparr>))"

text \<open>The first half of \<open>cleanup\<close>: everything that talks to the firmware, and the two flags.\<close>

definition quiesce ::
  "'w cmdIfc \<Rightarrow> 'w pciEnv \<Rightarrow> 'w MlxPCIDriver \<Rightarrow> (bool \<times> bool \<times> 'w MlxPCIDriver) option" where
  "quiesce ci env st =
     (let st = stopHealth (st\<lparr>pcStopping := True\<rparr>);
          st = st\<lparr>pcEQ := map_option disableInterrupts (pcEQ st)\<rparr>
      in case stopPages ci env st of
           None \<Rightarrow> None
         | Some st \<Rightarrow>
             (let (eqDestroyed, st) = destroyEqs ci st;
                  (teardownOk, st) = teardownStep ci st
              in case reclaimStep ci env teardownOk st of
                   None \<Rightarrow> None
                 | Some st \<Rightarrow>
                     (let st = disableStep ci st
                      in Some (eqDestroyed, teardownOk,
                           if pcQuarantine st \<and> pcPci st then st\<lparr>pcBusMaster := False\<rparr> else st))))"

definition gracefulBoundary :: "'w cmdIfc \<Rightarrow> bool \<Rightarrow> bool \<Rightarrow> 'w MlxPCIDriver \<Rightarrow> bool" where
  "gracefulBoundary ci eqDestroyed teardownOk st =
     (eqDestroyed \<and> teardownOk \<and> \<not> pcQuarantine st \<and> \<not> pcCmdQuar ci st \<and> \<not> pcOutstanding st)"

text \<open>
  The second half, in the order of the source. The destructors of the page manager, the event
  queues and the UAR can still issue commands.
\<close>

definition releaseFwPages :: "'w cmdIfc \<Rightarrow> 'w pciEnv \<Rightarrow> 'w MlxPCIDriver \<Rightarrow> 'w MlxPCIDriver option" where
  "releaseFwPages ci env st =
     (case pcFwPages st of
        None \<Rightarrow> Some st
      | Some fp \<Rightarrow>
          (case fwPagesFree (pcX ci) (peFwEnv env) (releaseAfterDmaBoundary fp) (pcCmd st) of
             None \<Rightarrow> None
           | Some (fp, w) \<Rightarrow>
               Some (st\<lparr>pcFwPages := None, pcCmd := w, pcFreed := pcFreed st @ [FreedFwPages fp]\<rparr>)))"

definition releaseDma :: "'w MlxPCIDriver \<Rightarrow> 'w MlxPCIDriver" where
  "releaseDma st =
     (case pcDMA st of
        None \<Rightarrow> st
      | Some d \<Rightarrow> st\<lparr>pcDMA := None, pcFreed := pcFreed st @ [FreedDMA (dmaFree d)]\<rparr>)"

definition releaseEq :: "'w cmdIfc \<Rightarrow> 'w MlxPCIDriver \<Rightarrow> 'w MlxPCIDriver" where
  "releaseEq ci st =
     (case pcEQ st of
        None \<Rightarrow> st
      | Some eq \<Rightarrow>
          (case eqFree (pcX ci) (pcCmdUp ci st) eq (pcCmd st) of
             (eq, leaked, w) \<Rightarrow>
               st\<lparr>pcEQ := None, pcCmd := w, pcFreed := pcFreed st @ [FreedEQ eq leaked]\<rparr>))"

definition releaseUar :: "'w cmdIfc \<Rightarrow> 'w MlxPCIDriver \<Rightarrow> 'w MlxPCIDriver" where
  "releaseUar ci st =
     (case pcUAR st of
        None \<Rightarrow> st
      | Some u \<Rightarrow>
          (case uarFree (pcX ci) u (pcCmd st) of
             (u, w) \<Rightarrow> st\<lparr>pcUAR := None, pcCmd := w, pcFreed := pcFreed st @ [FreedUAR u]\<rparr>))"

definition releaseRest :: "'w MlxPCIDriver \<Rightarrow> 'w MlxPCIDriver" where
  "releaseRest st =
     st\<lparr>pcCmd := None, pcHCA := None, pcBar0 := False, pcPci := False,
        pcMemEnable := (if pcPci st then False else pcMemEnable st),
        pcFreed := pcFreed st @ (if pcCmd st \<noteq> None then [FreedCmd] else []) @
          (if pcHCA st \<noteq> None then [FreedHCA] else []) @ (if pcBar0 st then [FreedBar0] else []) @
          (if pcPci st then [FreedPci] else [])\<rparr>"

definition cleanup :: "'w cmdIfc \<Rightarrow> 'w pciEnv \<Rightarrow> 'w MlxPCIDriver \<Rightarrow> 'w MlxPCIDriver option" where
  "cleanup ci env st =
     (if pcStopping st then Some st
      else
        (case quiesce ci env st of
           None \<Rightarrow> None
         | Some (eqDestroyed, teardownOk, st) \<Rightarrow>
             (let graceful = gracefulBoundary ci eqDestroyed teardownOk st;
                  (busMasterDisabled, st) = disableBusMasterAndVerify env st
              in if \<not> busMasterDisabled then Some st
                 else if \<not> graceful then Some st
                 else
                   (case releaseFwPages ci env st of
                      None \<Rightarrow> None
                    | Some st \<Rightarrow>
                        (let st = (if \<not> eqDestroyed then st\<lparr>pcEQ := map_option markHardwareStopped (pcEQ st)\<rparr>
                                   else st)
                         in Some (releaseRest (releaseUar ci (releaseEq ci (releaseDma st)))))))))"

text \<open>The entry points. A start that fails after it took the device cleans up.\<close>

definition pciStart ::
  "bool \<Rightarrow> 'w cmdIfc \<Rightarrow> 'w pciEnv \<Rightarrow> 'w MlxPCIDriver \<Rightarrow> (bool \<times> 'w MlxPCIDriver) option" where
  "pciStart unsafe ci env st =
     (if \<not> peSuper env \<or> \<not> pePci env then Some (False, st)
      else
        (case bringUp unsafe ci env
                (st\<lparr>pcPci := True, pcDeviceId := peDeviceId env, pcDevIdx := peDevIdx env\<rparr>) of
           None \<Rightarrow> None
         | Some (True, st) \<Rightarrow> Some (True, st\<lparr>pcRegistered := True\<rparr>)
         | Some (False, st) \<Rightarrow> map_option (Pair False) (cleanup ci env st)))"

definition pciStop :: "'w cmdIfc \<Rightarrow> 'w pciEnv \<Rightarrow> 'w MlxPCIDriver \<Rightarrow> 'w MlxPCIDriver option" where
  "pciStop ci env st = cleanup ci env st"

definition pciFree :: "'w cmdIfc \<Rightarrow> 'w pciEnv \<Rightarrow> 'w MlxPCIDriver \<Rightarrow> 'w MlxPCIDriver option" where
  "pciFree ci env st = cleanup ci env st"

end
