(* ===== verification/MlxPCIDown.thy ===== *)
theory MlxPCIDown
  imports MlxPCI MlxFwPagesProps
begin

text \<open>
  Teardown of the device. The locale \<open>device_commands\<close> holds what every operation that only
  talks to the device through the command interface keeps of it; it is interpreted on the
  interface of the PCI driver. \<open>quiesce_spec\<close> and \<open>pci_cleanup_spec\<close> say what the two halves
  of \<open>cleanup\<close> keep and release.
\<close>

unbundle bit_operations_syntax

section \<open>What the sub-objects keep of the command interface\<close>

locale device_commands =
  fixes xc :: "'w execFn" and Q :: "'w \<Rightarrow> bool"
  assumes keeps: "xc w opcode inb m t = (kr, out, w') \<Longrightarrow> Q w \<Longrightarrow> Q w'"
begin

lemma giveBatch_keeps: "giveBatch xc env ids func emb st w = (kr, st', w') \<Longrightarrow> Q w \<Longrightarrow> Q w'"
  by (auto simp: giveBatch_def Let_def split: if_splits prod.splits dest: keeps)

lemma notifyIf_keeps: "Q w \<Longrightarrow> Q (notifyIf b xc func emb w)"
  by (auto simp: notifyIf_def notifyAllocationFailure_def Let_def split: prod.splits dest: keeps)

lemma giveBatches_keeps:
  "giveBatches xc env started ids func emb st w = (kr, st', w') \<Longrightarrow> Q w \<Longrightarrow> Q w'"
proof (induction "length ids" arbitrary: started ids st w rule: less_induct)
  case less
  show ?case
  proof (cases "ids = []")
    case False
    obtain k s v where b: "giveBatch xc env (take (unat MLX_P1_MAX_MANAGE_PAGES) ids) func emb st w = (k, s, v)"
      by (metis prod_cases3)
    have v: "Q v" by (rule giveBatch_keeps [OF b less.prems(2)])
    show ?thesis
    proof (cases "k = kIOReturnSuccess")
      case True
      have sh: "length (drop (unat MLX_P1_MAX_MANAGE_PAGES) ids) < length ids"
        using False by (simp add: MLX_P1_MAX_MANAGE_PAGES_def)
      from less.prems(1) have
        "giveBatches xc env True (drop (unat MLX_P1_MAX_MANAGE_PAGES) ids) func emb s v = (kr, st', w')"
        by (subst (asm) giveBatches.simps) (simp add: False b True)
      from less.hyps [OF sh this v] show ?thesis .
    next
      case f: False
      with less.prems(1) v show ?thesis by (subst (asm) giveBatches.simps) (auto simp: False b f Let_def split: if_splits)
    qed
  next
    case True
    with less.prems show ?thesis by (subst (asm) giveBatches.simps) simp
  qed
qed

lemma givePages_keepsQ:
  assumes "givePages xc env func emb n ph notify st w = (kr, st', w')" and "Q w"
  shows "Q w'"
  using assms notifyIf_keeps [OF assms(2)]
  by (auto simp: givePages_def simp del: giveBatches.simps split: if_splits prod.splits dest: giveBatches_keeps)

lemma queryPages_keeps: "queryPages xc ph st w = (kr, r, w') \<Longrightarrow> Q w \<Longrightarrow> Q w'"
  by (auto simp: queryPages_def Let_def split: if_splits prod.splits option.splits dest: keeps)

lemma satisfyStartupPages_keeps:
  "satisfyStartupPages xc env ph st w = (kr, st', w') \<Longrightarrow> Q w \<Longrightarrow> Q w'"
  by (auto simp: satisfyStartupPages_def split: if_splits prod.splits
      dest: queryPages_keeps givePages_keepsQ)

lemma takePages_keepsQ: "takePages xc env func emb n st w = (kr, c, st', w') \<Longrightarrow> Q w \<Longrightarrow> Q w'"
  by (auto simp: takePages_def Let_def split: if_splits prod.splits option.splits dest: keeps)

lemma takeLoop_keepsQ: "takeLoop xc env func emb fuel n st w = (kr, st', w') \<Longrightarrow> Q w \<Longrightarrow> Q w'"
  by (induction fuel arbitrary: n st w)
    (auto split: if_splits prod.splits dest: takePages_keepsQ)

lemma processRequest_keepsQ: "processRequest xc env rq st w = (kr, st', w') \<Longrightarrow> Q w \<Longrightarrow> Q w'"
  by (auto simp: processRequest_def split: if_splits dest: givePages_keepsQ takeLoop_keepsQ)

lemma workerLoop_keepsQ: "workerLoop xc env n st w = (st', w') \<Longrightarrow> Q w \<Longrightarrow> Q w'"
  by (induction n arbitrary: st w)
    (auto split: if_splits prod.splits option.splits dest: processRequest_keepsQ)

lemma stopRuntimeAndDrain_keeps:
  assumes "stopRuntimeAndDrain xc env st w = Some (st', w')" and "Q w"
  shows "Q w'"
  using assms
  by (auto simp: stopRuntimeAndDrain_def workerMain_def Let_def split: if_splits prod.splits
      dest: workerLoop_keepsQ)

lemma reclaimLoop_keeps:
  assumes run: "reclaimLoop xc env limit waited st w = Some r"
  shows "Q w \<Longrightarrow> Q (snd (snd r))"
proof -
  have "xc = xc \<longrightarrow> Q w \<longrightarrow> Q (snd (snd r))"
    by (rule reclaimLoop.raw_induct
        [where P = "\<lambda>xc0 env limit waited st w r. xc0 = xc \<longrightarrow> Q w \<longrightarrow> Q (snd (snd r))", OF _ run])
      (auto simp: Let_def split: option.splits prod.splits if_splits dest: takePages_keepsQ)
  then show "Q w \<Longrightarrow> Q (snd (snd r))" by simp
qed

lemma reclaimAll_keeps:
  "reclaimAll xc env limit st w = Some (kr, st', w') \<Longrightarrow> Q w \<Longrightarrow> Q w'"
  by (auto simp: reclaimAll_def dest: reclaimLoop_keeps)

lemma destroyAll_keeps: "destroyAll xc es w = (ok, es', w') \<Longrightarrow> Q w \<Longrightarrow> Q w'"
  by (induction es arbitrary: w ok es')
    (auto simp: destroyEq_def Let_def split: if_splits prod.splits dest: keeps)

lemma shutdown_keeps: "shutdown xc up eq w = (ok, eq', w') \<Longrightarrow> Q w \<Longrightarrow> Q w'"
  by (auto simp: shutdown_def Let_def split: if_splits prod.splits dest: destroyAll_keeps)

lemma createEq_keeps: "createEq xc env page eq vec m w = Some (kr, eq', w') \<Longrightarrow> Q w \<Longrightarrow> Q w'"
  by (auto simp: createEq_def Let_def split: if_splits prod.splits option.splits dest: keeps)

lemma createEqs_keeps: "createEqs xc envs page plan eqs w = Some (kr, eqs', w') \<Longrightarrow> Q w \<Longrightarrow> Q w'"
proof (induction plan arbitrary: eqs w)
  case (Cons e plan)
  obtain i lg vec m where e: "e = (i, lg, vec, m)" by (metis prod_cases4)
  from Cons.prems(1) obtain k q v where
    c: "createEq xc (envs i) page ((eqs ! i)\<lparr>eq_logSize := lg\<rparr>) vec m w = Some (k, q, v)"
    by (auto simp: e split: option.splits)
  note v = createEq_keeps [OF c Cons.prems(2)]
  show ?case
  proof (cases "k = kIOReturnSuccess")
    case True
    with Cons.prems(1) c have "createEqs xc envs page plan (eqs[i := q]) v = Some (kr, eqs', w')" by (simp add: e)
    from Cons.IH [OF this v] show ?thesis .
  next
    case False
    with Cons.prems(1) c v show ?thesis by (simp add: e)
  qed
qed simp

lemma createAsyncEqs_keeps: "createAsyncEqs xc envs page eq w = Some (kr, eq', w') \<Longrightarrow> Q w \<Longrightarrow> Q w'"
  by (auto simp: createAsyncEqs_def dest: createEqs_keeps)

lemma createCompEqs_keeps: "createCompEqs xc envs page eq w = Some (kr, eq', w') \<Longrightarrow> Q w \<Longrightarrow> Q w'"
  by (auto simp: createCompEqs_def dest: createEqs_keeps)

lemma allocUar_keeps: "allocUar xc caps d m r st w = (kr, u, st', w') \<Longrightarrow> Q w \<Longrightarrow> Q w'"
  by (auto simp: allocUar_def cmdAllocUar_def cmdFreeUar_def Let_def
      split: if_splits prod.splits option.splits dest: keeps)

lemmas world_keeps = satisfyStartupPages_keeps stopRuntimeAndDrain_keeps reclaimAll_keeps
  shutdown_keeps createAsyncEqs_keeps createCompEqs_keeps allocUar_keeps

end

text \<open>
  \<open>keepsAlive ci alive\<close>: an interface in a state \<open>alive\<close> is up, and a command leaves it
  \<open>alive\<close>.
\<close>

definition keepsAlive :: "'w cmdIfc \<Rightarrow> ('w \<Rightarrow> bool) \<Rightarrow> bool" where
  "keepsAlive ci alive \<longleftrightarrow> (\<forall>w. alive w \<longrightarrow> ciUp ci w) \<and>
     (\<forall>w opcode inb m t. alive w \<longrightarrow> alive (snd (snd (ciExec ci w opcode inb m t))))"

definition aliveO :: "('w \<Rightarrow> bool) \<Rightarrow> 'w option \<Rightarrow> bool" where
  "aliveO alive cmd = (case cmd of Some w \<Rightarrow> alive w | None \<Rightarrow> False)"

lemma pcX_device: "keepsAlive ci alive \<Longrightarrow> device_commands (pcX ci) (aliveO alive)"
  by unfold_locales (auto simp: keepsAlive_def aliveO_def pcX_def split: option.splits prod.splits,
    metis sndI)

lemma pcX_present: "device_commands (pcX ci) (\<lambda>w. w \<noteq> None)"
  by unfold_locales (auto simp: pcX_def split: option.splits prod.splits)

text \<open>The model of \<^verbatim>\<open>MlxCmd\<close>: an interface that is up stays up.\<close>

definition mlxAlive :: "cmdWorld \<Rightarrow> bool" where
  "mlxAlive w \<longleftrightarrow> cmdInv (cwCmd w) \<and> fUp (cwCmd w)"

lemma mlx_keepsAlive: "keepsAlive mlxCmdIfc mlxAlive"
proof -
  have "mlxAlive (snd (snd (cmdExec w opcode inb m t)))" if "mlxAlive w" for w opcode inb m t
  proof -
    let ?io = "\<lparr>cmd_in = Some inb, cmd_inSize = length inb, cmd_out = Some (replicate m (0::u8)),
        cmd_outSize = m, cmd_opcode = opcode\<rparr>"
    have wf: "\<forall>c b. Some ?io = Some c \<longrightarrow> cmd_in c = Some b \<longrightarrow> length b = cmd_inSize c" by auto
    have "cmdInv st \<and> fUp st" if e: "exec (cwEnv w (cwCalls w)) (Some ?io) t (cwCmd w) = Some (r, o', st)" for r o' st
      using exec_Some_cases [OF e _ wf] exec_inv [OF e _ wf] \<open>mlxAlive w\<close>
      by (auto simp: mlxAlive_def sameGeometry_def)
    with that show ?thesis
      by (auto simp: cmdExec_def mlxAlive_def split: option.splits prod.splits)
  qed
  then show ?thesis by (simp add: keepsAlive_def mlxCmdIfc_def mlxAlive_def)
qed

interpretation mlxdev: device_commands "pcX mlxCmdIfc" "aliveO mlxAlive"
  by (rule pcX_device [OF mlx_keepsAlive])

lemma newCmd_alive: "newCmd ienv env = (True, w) \<Longrightarrow> mlxAlive w"
  by (auto simp: newCmd_def mlxAlive_def split: prod.splits dest!: init_True)

section \<open>The runtime flag of the page manager\<close>

lemma runtime_simps [simp]:
  "fpRuntimeStarted (tick st) = fpRuntimeStarted st"
  "fpRuntimeStarted (setFatal f st) = fpRuntimeStarted st"
  "fpRuntimeStarted (releasePage i st) = fpRuntimeStarted st"
  "fpRuntimeStarted (setOwnership ids own st) = fpRuntimeStarted st"
  "fpRuntimeStarted (markFunctionAmbiguous fn e st) = fpRuntimeStarted st"
  "fpRuntimeStarted (insertPage pg st) = fpRuntimeStarted st"
  by (simp_all add: tick_def setFatal_def releasePage_def removePage_def Let_def setOwnership_def
      markFunctionAmbiguous_def insertPage_def)

lemma runtime_releasePages [simp]: "fpRuntimeStarted (releasePages ids st) = fpRuntimeStarted st"
  by (induction ids arbitrary: st) simp_all

lemma runtime_folds [simp]:
  "fpRuntimeStarted (foldl (\<lambda>s i. releasePage i (setOwnership [i] own s)) st ids) = fpRuntimeStarted st"
  "fpRuntimeStarted (foldl (\<lambda>s i. if hostPrepared s i then releasePage i s else s) st ids) = fpRuntimeStarted st"
  by (induction ids arbitrary: st) simp_all

lemma runtime_allocatePages:
  "allocatePages env func emb ph n ids st = (kr, ids', st') \<Longrightarrow> fpRuntimeStarted st' = fpRuntimeStarted st"
proof (induction n arbitrary: ids st)
  case (Suc n)
  obtain k i s where a: "allocatePage env func emb ph st = (k, i, s)" by (metis prod_cases3)
  then have "fpRuntimeStarted s = fpRuntimeStarted st"
    by (auto simp: allocatePage_def Let_def split: pageAlloc.splits if_splits)
  with Suc a show ?case by (auto split: if_splits)
qed simp

lemma runtime_giveBatches:
  "giveBatches xc env started ids func emb st w = (kr, st', w') \<Longrightarrow> fpRuntimeStarted st' = fpRuntimeStarted st"
proof (induction "length ids" arbitrary: started ids st w rule: less_induct)
  case less
  show ?case
  proof (cases "ids = []")
    case False
    obtain k s v where b: "giveBatch xc env (take (unat MLX_P1_MAX_MANAGE_PAGES) ids) func emb st w = (k, s, v)"
      by (metis prod_cases3)
    then have s: "fpRuntimeStarted s = fpRuntimeStarted st"
      by (auto simp: giveBatch_def Let_def split: if_splits prod.splits)
    have sh: "length (drop (unat MLX_P1_MAX_MANAGE_PAGES) ids) < length ids"
      using False by (simp add: MLX_P1_MAX_MANAGE_PAGES_def)
    show ?thesis
    proof (cases "k = kIOReturnSuccess")
      case True
      from less.prems have
        "giveBatches xc env True (drop (unat MLX_P1_MAX_MANAGE_PAGES) ids) func emb s v = (kr, st', w')"
        by (subst (asm) giveBatches.simps) (simp add: False b True)
      from less.hyps [OF sh this] s show ?thesis by simp
    next
      case f: False
      with less.prems s show ?thesis by (subst (asm) giveBatches.simps) (auto simp: False b f Let_def split: if_splits)
    qed
  next
    case True
    with less.prems show ?thesis by (subst (asm) giveBatches.simps) simp
  qed
qed

lemma runtime_givePages:
  assumes "givePages xc env func emb n ph notify st w = (kr, st', w')"
  shows "fpRuntimeStarted st' = fpRuntimeStarted st"
proof -
  obtain k ids s where a: "allocatePages env func emb ph (unat n) [] (tick st) = (k, ids, s)"
    by (metis prod_cases3)
  from runtime_allocatePages [OF a] assms show ?thesis
    by (auto simp: givePages_def a simp del: giveBatches.simps allocatePages.simps split: if_splits
        dest!: runtime_giveBatches)
qed

lemma runtime_startup:
  assumes "satisfyStartupPages xc env ph st w = (kr, st', w')"
  shows "fpRuntimeStarted st' = fpRuntimeStarted st"
  using assms
  by (auto simp: satisfyStartupPages_def split: if_splits prod.splits dest: runtime_givePages)

lemma runtime_takePages:
  "takePages xc env func emb n st w = (kr, c, st', w') \<Longrightarrow> fpRuntimeStarted st' = fpRuntimeStarted st"
  by (auto simp: takePages_def Let_def split: if_splits prod.splits option.splits)

lemma runtime_reclaimLoop:
  assumes run: "reclaimLoop xc env limit waited st w = Some r"
  shows "fpRuntimeStarted (fst (snd r)) = fpRuntimeStarted st"
  by (rule reclaimLoop.raw_induct
      [where P = "\<lambda>xc env limit waited st w r. fpRuntimeStarted (fst (snd r)) = fpRuntimeStarted st", OF _ run])
    (auto simp: Let_def split: option.splits prod.splits if_splits dest: runtime_takePages)

lemma runtime_reclaimAll:
  "reclaimAll xc env limit st w = Some (kr, st', w') \<Longrightarrow> fpRuntimeStarted st' = fpRuntimeStarted st"
  by (auto simp: reclaimAll_def dest!: runtime_reclaimLoop)

lemma stopRuntime_stopped:
  "stopRuntimeAndDrain xc env st w = Some (st', w') \<Longrightarrow> \<not> fpRuntimeStarted st'"
  by (auto simp: stopRuntimeAndDrain_def Let_def split: if_splits prod.splits)

section \<open>Teardown\<close>

text \<open>The memory the device can reach, and the objects that hold it.\<close>

definition ringMem :: "MlxEqEntry \<Rightarrow> u8 list option \<times> bool \<times> bool \<times> u64 list" where
  "ringMem e = (eq_ringBuf e, eq_fDesc e, eq_fDmaMap e, eq_pageDMA e)"

definition eqMem :: "MlxEQ \<Rightarrow> (u8 list option \<times> bool \<times> bool \<times> u64 list) list" where
  "eqMem eq = map ringMem (eqComp eq) @ map ringMem (eqAsync eq)"

definition pcMem :: "'w MlxPCIDriver \<Rightarrow>
    (bool \<times> bool \<times> MlxHCA option) \<times> MlxUAR option \<times> MlxDMA option \<times>
    (u8 list option \<times> bool \<times> bool \<times> u64 list) list option \<times> bool \<times> bool" where
  "pcMem st = ((pcPci st, pcBar0 st, pcHCA st), pcUAR st, pcDMA st, map_option eqMem (pcEQ st),
     pcFwPages st \<noteq> None, pcCmd st \<noteq> None)"

text \<open>Commands are only owed to an interface that is up, and the page worker only runs when the driver says so.\<close>

definition pciWf :: "('w \<Rightarrow> bool) \<Rightarrow> 'w MlxPCIDriver \<Rightarrow> bool" where
  "pciWf alive st \<longleftrightarrow> (pcHcaInit st \<or> pcHcaEnabled st \<longrightarrow> aliveO alive (pcCmd st)) \<and>
     (\<forall>fp. pcFwPages st = Some fp \<longrightarrow> fpRuntimeStarted fp \<longrightarrow> pcRuntime st)"

definition pagesIdle :: "'w MlxPCIDriver \<Rightarrow> bool" where
  "pagesIdle st \<longleftrightarrow> (\<forall>fp. pcFwPages st = Some fp \<longrightarrow> \<not> fpRuntimeStarted fp)"

definition eqsInvalid :: "'w MlxPCIDriver \<Rightarrow> bool" where
  "eqsInvalid st \<longleftrightarrow> (\<forall>eq. pcEQ st = Some eq \<longrightarrow> (\<forall>e \<in> set (eqComp eq) \<union> set (eqAsync eq). \<not> eq_valid e))"

text \<open>What every step of the first half of \<open>cleanup\<close> keeps.\<close>

definition quiet :: "('w \<Rightarrow> bool) \<Rightarrow> 'w MlxPCIDriver \<Rightarrow> 'w MlxPCIDriver \<Rightarrow> bool" where
  "quiet alive st st' \<longleftrightarrow> pcMem st' = pcMem st \<and> pcStopping st' = pcStopping st \<and> pcHealth st' = pcHealth st \<and>
     pcFreed st' = pcFreed st \<and> (pcQuarantine st \<longrightarrow> pcQuarantine st') \<and>
     (pciWf alive st \<longrightarrow> pciWf alive st') \<and> (pagesIdle st \<longrightarrow> pagesIdle st') \<and>
     (pcRdma st' \<longrightarrow> pcRdma st) \<and> (pcEth st' \<longrightarrow> pcEth st) \<and>
     pcDevName st' = pcDevName st \<and> pcRegistered st' = pcRegistered st"

lemma quiet_refl [simp]: "quiet alive st st"
  by (simp add: quiet_def)

lemma quiet_trans [trans]: "quiet alive st st' \<Longrightarrow> quiet alive st' st'' \<Longrightarrow> quiet alive st st''"
  by (auto simp: quiet_def)

lemma eqMem_unregister [simp]: "eqMem (unregisterNotifier ty n eq) = eqMem eq"
  by (simp add: unregisterNotifier_def eqMem_def Let_def split: option.splits)

lemma eqMem_register [simp]: "eqMem (registerNotifier ty n eq) = eqMem eq"
  by (simp add: registerNotifier_def eqMem_def Let_def)

lemma eqMem_disable [simp]: "eqMem (disableInterrupts eq) = eqMem eq"
  by (simp add: disableInterrupts_def eqMem_def)

lemma destroyAll_ringMem:
  "destroyAll xc es w = (ok, es', w') \<Longrightarrow> map ringMem es' = map ringMem es \<and> (ok \<longrightarrow> (\<forall>e \<in> set es'. \<not> eq_valid e))"
proof (induction es arbitrary: w ok es' w')
  case (Cons e es)
  show ?case
  proof (cases "eq_valid e")
    case True
    obtain kr v where d: "destroyEq xc (eq_eqNumber e) w = (kr, v)" by fastforce
    obtain ok1 es1 v1 where r: "destroyAll xc es v = (ok1, es1, v1)" by (metis prod_cases3)
    from Cons.IH [OF r] Cons.prems d r True show ?thesis by (auto simp: Let_def ringMem_def split: if_splits)
  next
    case False
    obtain ok1 es1 v1 where r: "destroyAll xc es w = (ok1, es1, v1)" by (metis prod_cases3)
    from Cons.IH [OF r] Cons.prems r False show ?thesis by (auto simp: Let_def)
  qed
qed simp

lemma shutdown_ringMem:
  assumes "shutdown xc up eq w = (ok, eq', w')"
  shows "eqMem eq' = eqMem eq \<and> (ok \<longrightarrow> (\<forall>e \<in> set (eqComp eq') \<union> set (eqAsync eq'). \<not> eq_valid e))"
proof -
  let ?st = "disableInterrupts (eq\<lparr>eqShuttingDown := True\<rparr>)"
  have st: "eqComp ?st = eqComp eq" "eqAsync ?st = eqAsync eq" by (simp_all add: disableInterrupts_def)
  show ?thesis
  proof (cases up)
    case True
    obtain ok1 c v where 1: "destroyAll xc (eqComp eq) w = (ok1, c, v)" by (metis prod_cases3)
    obtain ok2 a v' where 2: "destroyAll xc (eqAsync eq) v = (ok2, a, v')" by (metis prod_cases3)
    have "ok = (ok1 \<and> ok2)" "eqComp eq' = c" "eqAsync eq' = a"
      using assms by (auto simp: shutdown_def Let_def st 1 2 True)
    with destroyAll_ringMem [OF 1] destroyAll_ringMem [OF 2] show ?thesis by (auto simp: eqMem_def)
  next
    case False
    with assms show ?thesis by (auto simp: shutdown_def Let_def st eqMem_def list_all_iff)
  qed
qed

lemma stopPages_quiet:
  assumes ka: "keepsAlive ci alive" and run: "stopPages ci env st = Some st'"
  shows "quiet alive st st' \<and> (pciWf alive st \<longrightarrow> pagesIdle st')"
proof (cases "pcFwPages st")
  case None
  with run show ?thesis by (simp add: stopPages_def pagesIdle_def)
next
  case (Some fp)
  show ?thesis
  proof (cases "pcRuntime st")
    case False
    with run Some show ?thesis by (auto simp: stopPages_def pagesIdle_def pciWf_def)
  next
    case True
    with run Some obtain fp' w where
      d: "stopRuntimeAndDrain (pcX ci) (peFwEnv env) fp (pcCmd st) = Some (fp', w)"
      by (auto simp: stopPages_def split: option.splits)
    note alive = device_commands.stopRuntimeAndDrain_keeps [OF pcX_device [OF ka] d]
    have cmd: "(w = None) = (pcCmd st = None)"
    proof (cases "pcCmd st")
      case n: None
      have "device_commands (pcX ci) (\<lambda>w. w = None)" by unfold_locales (auto simp: pcX_def)
      from device_commands.stopRuntimeAndDrain_keeps [OF this d] n show ?thesis by simp
    next
      case (Some x)
      with device_commands.stopRuntimeAndDrain_keeps [OF pcX_present d] show ?thesis by simp
    qed
    define s where "s = st\<lparr>pcFwPages := Some fp', pcCmd := w, pcRuntime := False,
        pcEQ := (if fpRuntimeStarted fp
          then map_option (unregisterNotifier (unat MLX_EVENT_TYPE_PAGE_REQUEST) fwPagesNotifier) (pcEQ st)
          else pcEQ st)\<rparr>"
    have st': "st' = (if fpRuntimeStarted fp \<and> fpFatal fp' then pciEnterDmaQuarantine s else s)"
      using run Some True d by (cases "fpRuntimeStarted fp"; cases "fpFatal fp'") (auto simp: stopPages_def s_def Let_def)
    have m: "map_option eqMem (pcEQ s) = map_option eqMem (pcEQ st)"
      by (simp add: s_def option.map_comp comp_def)
    have "quiet alive st s \<and> pagesIdle s"
      using alive cmd Some m stopRuntime_stopped [OF d]
      by (auto simp: quiet_def s_def pcMem_def pciWf_def pagesIdle_def)
    moreover have "quiet alive s st' \<and> (pagesIdle s \<longrightarrow> pagesIdle st')"
      by (auto simp: st' pciEnterDmaQuarantine_def quiet_def pcMem_def pciWf_def pagesIdle_def)
    ultimately show ?thesis using quiet_trans by blast
  qed
qed

lemma pcX_absent: "device_commands (pcX ci) (\<lambda>w. w = None)"
  by unfold_locales (auto simp: pcX_def)

lemma destroyEqs_quiet:
  assumes ka: "keepsAlive ci alive" and run: "destroyEqs ci st = (ok, st')"
  shows "quiet alive st st' \<and> (ok \<longrightarrow> eqsInvalid st')"
proof (cases "pcEQ st")
  case None
  with run show ?thesis by (simp add: destroyEqs_def eqsInvalid_def)
next
  case (Some eq)
  obtain o1 eq' w where s: "shutdown (pcX ci) (pcCmdUp ci st) eq (pcCmd st) = (o1, eq', w)" by (metis prod_cases3)
  note k = device_commands.shutdown_keeps [OF _ s]
  have "(w = None) = (pcCmd st = None)" "aliveO alive (pcCmd st) \<longrightarrow> aliveO alive w"
    using k [OF pcX_absent] k [OF pcX_present] k [OF pcX_device [OF ka]] by blast+
  with run Some s shutdown_ringMem [OF s] show ?thesis
    by (auto simp: destroyEqs_def quiet_def pcMem_def pciWf_def pagesIdle_def eqsInvalid_def)
qed

lemma pciExec_quiet:
  assumes ka: "keepsAlive ci alive" and run: "pciExec ci opc inb m t st = (kr, out, st')"
  shows "(\<exists>w. st' = st\<lparr>pcCmd := w\<rparr> \<and> (w = None \<longleftrightarrow> pcCmd st = None) \<and>
    (aliveO alive (pcCmd st) \<longrightarrow> aliveO alive w)) \<and> (pcCmd st = None \<longrightarrow> kr = kIOReturnNotReady)"
proof -
  obtain k o' w where x: "pcX ci (pcCmd st) opc inb m t = (k, o', w)" by (metis prod_cases3)
  note k = device_commands.keeps [where xc = "pcX ci", OF _ x]
  have "(w = None) = (pcCmd st = None)" "aliveO alive (pcCmd st) \<longrightarrow> aliveO alive w"
    using k [OF pcX_absent] k [OF pcX_present] k [OF pcX_device [OF ka]] by blast+
  with run x show ?thesis by (auto simp: pciExec_def pcX_def)
qed

lemma teardownStep_quiet:
  assumes ka: "keepsAlive ci alive" and run: "teardownStep ci st = (ok, st')"
  shows "quiet alive st st' \<and> pcEQ st' = pcEQ st \<and> pcHcaEnabled st' = pcHcaEnabled st \<and>
    (pciWf alive st \<and> ok \<longrightarrow> \<not> pcHcaInit st') \<and> (\<not> ok \<longrightarrow> pcQuarantine st')"
proof (cases "pcHcaInit st \<and> pcCmdUp ci st")
  case False
  moreover have "aliveO alive (pcCmd st) \<Longrightarrow> pcCmdUp ci st"
    using ka by (auto simp: keepsAlive_def aliveO_def pcCmdUp_def split: option.splits)
  ultimately show ?thesis using run by (auto simp: teardownStep_def pciWf_def)
next
  case True
  obtain kr out s where e: "pciExec ci MLX_CMD_OP_TEARDOWN_HCA (opBuffer 16 MLX_CMD_OP_TEARDOWN_HCA) 16 5000 st =
      (kr, out, s)" by (metis prod_cases3)
  from pciExec_quiet [OF ka e] obtain w where
    w: "s = st\<lparr>pcCmd := w\<rparr>" "(w = None) = (pcCmd st = None)" "aliveO alive (pcCmd st) \<longrightarrow> aliveO alive w"
    by (elim conjE exE) (rule that)
  show ?thesis
    using run True e w
    by (cases "kr = kIOReturnSuccess")
      (auto simp: teardownStep_def teardownHca_def quiet_def pcMem_def pciWf_def pagesIdle_def)
qed

lemma disableStep_quiet:
  assumes ka: "keepsAlive ci alive"
  shows "quiet alive st (disableStep ci st) \<and> pcEQ (disableStep ci st) = pcEQ st \<and>
    (pcHcaInit (disableStep ci st) \<longrightarrow> pcHcaInit st) \<and> pcFwPages (disableStep ci st) = pcFwPages st \<and>
    (pciWf alive st \<and> \<not> pcQuarantine (disableStep ci st) \<longrightarrow> \<not> pcHcaEnabled (disableStep ci st))"
proof (cases "pcHcaEnabled st \<and> pcCmdUp ci st")
  case False
  moreover have "aliveO alive (pcCmd st) \<Longrightarrow> pcCmdUp ci st"
    using ka by (auto simp: keepsAlive_def aliveO_def pcCmdUp_def split: option.splits)
  ultimately show ?thesis by (auto simp: disableStep_def pciWf_def)
next
  case True
  obtain kr out s where e: "pciExec ci MLX_CMD_OP_DISABLE_HCA (opBuffer 16 MLX_CMD_OP_DISABLE_HCA) 16 5000 st =
      (kr, out, s)" by (metis prod_cases3)
  from pciExec_quiet [OF ka e] obtain w where
    w: "s = st\<lparr>pcCmd := w\<rparr>" "(w = None) = (pcCmd st = None)" "aliveO alive (pcCmd st) \<longrightarrow> aliveO alive w"
    by (elim conjE exE) (rule that)
  show ?thesis
    using True e w by (auto simp: disableStep_def disableHca_def quiet_def pcMem_def pciWf_def pagesIdle_def)
qed

lemma reclaimStep_quiet:
  assumes ka: "keepsAlive ci alive" and run: "reclaimStep ci env tok st = Some st'"
  shows "quiet alive st st' \<and> pcEQ st' = pcEQ st \<and> pcHcaInit st' = pcHcaInit st \<and> pcHcaEnabled st' = pcHcaEnabled st"
proof (cases "pcFwPages st")
  case None
  with run show ?thesis by (simp add: reclaimStep_def)
next
  case (Some fp)
  show ?thesis
  proof (cases "pcHcaEnabled st \<and> pcCmdUp ci st \<and> \<not> pcCmdQuar ci st \<and> tok \<and> hasOutstandingPages fp")
    case False
    with run Some show ?thesis by (auto simp: reclaimStep_def split: if_splits)
  next
    case True
    with run Some obtain kr fp' w where
      r: "reclaimAll (pcX ci) (peFwEnv env) 5000 fp (pcCmd st) = Some (kr, fp', w)"
      and st': "st' = st\<lparr>pcFwPages := Some fp', pcCmd := w,
          pcQuarantine := (pcQuarantine st \<or> kr \<noteq> kIOReturnSuccess)\<rparr>"
      by (auto simp: reclaimStep_def split: option.splits)
    note k = device_commands.reclaimAll_keeps [OF _ r]
    have "(w = None) = (pcCmd st = None)" "aliveO alive (pcCmd st) \<longrightarrow> aliveO alive w"
      using k [OF pcX_absent] k [OF pcX_present] k [OF pcX_device [OF ka]] by blast+
    with Some runtime_reclaimAll [OF r] show ?thesis
      by (auto simp: st' quiet_def pcMem_def pciWf_def pagesIdle_def)
  qed
qed

lemma quiesce_spec:
  assumes ka: "keepsAlive ci alive" and wf: "pciWf alive st"
    and run: "quiesce ci env st = Some (ed, tok, mid)"
  shows "pcMem mid = pcMem st \<and> pcStopping mid \<and> pcHealth mid = None \<and> (pcQuarantine st \<longrightarrow> pcQuarantine mid) \<and>
    pciWf alive mid \<and> pagesIdle mid \<and> (ed \<longrightarrow> eqsInvalid mid) \<and>
    (tok \<and> \<not> pcQuarantine mid \<longrightarrow> \<not> pcHcaInit mid \<and> \<not> pcHcaEnabled mid) \<and>
    pcFreed mid = pcFreed (stopHealth st) \<and> (pcQuarantine mid \<and> pcPci mid \<longrightarrow> \<not> pcBusMaster mid) \<and>
    (pcRdma mid \<longrightarrow> pcRdma st) \<and> (pcEth mid \<longrightarrow> pcEth st) \<and>
    pcDevName mid = pcDevName st \<and> pcRegistered mid = pcRegistered st"
proof -
  define s0 where "s0 = (let s = stopHealth (st\<lparr>pcStopping := True\<rparr>)
      in s\<lparr>pcEQ := map_option disableInterrupts (pcEQ s)\<rparr>)"
  have s0: "pcMem s0 = pcMem st" "pcStopping s0" "pcHealth s0 = None" "pcQuarantine s0 = pcQuarantine st"
    "pciWf alive s0" "pcFreed s0 = pcFreed (stopHealth st)" "pcRdma s0 = pcRdma st" "pcEth s0 = pcEth st"
    "pcDevName s0 = pcDevName st" "pcRegistered s0 = pcRegistered st"
    using wf by (auto simp: s0_def Let_def stopHealth_def pcMem_def pciWf_def option.map_comp comp_def
        split: option.splits)
  from run obtain s1 where 1: "stopPages ci env s0 = Some s1"
    by (auto simp: quiesce_def Let_def s0_def split: option.splits)
  obtain e2 s2 where 2: "destroyEqs ci s1 = (e2, s2)" by fastforce
  obtain t3 s3 where 3: "teardownStep ci s2 = (t3, s3)" by fastforce
  from run 1 2 3 obtain s4 where 4: "reclaimStep ci env t3 s3 = Some s4"
    by (auto simp: quiesce_def Let_def s0_def split: option.splits)
  define s5 where "s5 = disableStep ci s4"
  have mid: "ed = e2" "tok = t3" "mid = (if pcQuarantine s5 \<and> pcPci s5 then s5\<lparr>pcBusMaster := False\<rparr> else s5)"
    using run 1 2 3 4 by (auto simp: quiesce_def Let_def s0_def s5_def)
  note q1 = stopPages_quiet [OF ka 1] and q2 = destroyEqs_quiet [OF ka 2]
    and q3 = teardownStep_quiet [OF ka 3] and q4 = reclaimStep_quiet [OF ka 4]
    and q5 = disableStep_quiet [OF ka, of s4, folded s5_def]
  have wf1: "pciWf alive s1" "pagesIdle s1" using q1 s0(5) by (auto simp: quiet_def)
  have wf2: "pciWf alive s2" using q2 wf1 by (auto simp: quiet_def)
  have wf4: "pciWf alive s4" using q3 q4 wf2 by (auto simp: quiet_def)
  have q: "quiet alive s0 s5"
    using quiet_trans [OF conjunct1 [OF q1] quiet_trans [OF conjunct1 [OF q2]
      quiet_trans [OF conjunct1 [OF q3] quiet_trans [OF conjunct1 [OF q4] conjunct1 [OF q5]]]]] .
  have i: "pagesIdle s5" using wf1(2) q2 q3 q4 q5 by (auto simp: quiet_def)
  have e: "e2 \<longrightarrow> eqsInvalid s5" using q2 q3 q4 q5 by (auto simp: eqsInvalid_def)
  have h: "t3 \<and> \<not> pcQuarantine s5 \<longrightarrow> \<not> pcHcaInit s5 \<and> \<not> pcHcaEnabled s5"
    using q3 q4 q5 wf2 wf4 by auto
  have m: "pcMem mid = pcMem s5 \<and> pcStopping mid = pcStopping s5 \<and> pcHealth mid = pcHealth s5 \<and>
      pcQuarantine mid = pcQuarantine s5 \<and> pciWf alive mid = pciWf alive s5 \<and> pagesIdle mid = pagesIdle s5 \<and>
      eqsInvalid mid = eqsInvalid s5 \<and> pcHcaInit mid = pcHcaInit s5 \<and> pcHcaEnabled mid = pcHcaEnabled s5 \<and>
      pcFreed mid = pcFreed s5 \<and> pcRdma mid = pcRdma s5 \<and> pcEth mid = pcEth s5 \<and>
      pcDevName mid = pcDevName s5 \<and> pcRegistered mid = pcRegistered s5 \<and>
      (pcQuarantine mid \<and> pcPci mid \<longrightarrow> \<not> pcBusMaster mid)"
    by (auto simp: mid(3) pcMem_def pciWf_def pagesIdle_def eqsInvalid_def)
  from q s0 have f: "pcMem s5 = pcMem st" "pcStopping s5" "pcHealth s5 = None"
    "pcQuarantine st \<longrightarrow> pcQuarantine s5" "pciWf alive s5" "pcFreed s5 = pcFreed (stopHealth st)"
    "pcRdma s5 \<longrightarrow> pcRdma st" "pcEth s5 \<longrightarrow> pcEth st" "pcDevName s5 = pcDevName st"
    "pcRegistered s5 = pcRegistered st"
    by (auto simp: quiet_def)
  from m f i e h mid(1,2) show ?thesis by simp
qed

section \<open>Release\<close>

fun freedClean :: "pciObject \<Rightarrow> bool" where
  "freedClean (FreedFwPages fp) = (fpPages fp = [])"
| "freedClean (FreedDMA d) = (fPendingReqs d = [])"
| "freedClean (FreedEQ eq leaked) = (leaked = [])"
| "freedClean (FreedUAR u) = (\<not> fDbMemDesc u \<and> \<not> fBootUarValid u)"
| "freedClean _ = True"

definition pciReleased :: "'w MlxPCIDriver \<Rightarrow> bool" where
  "pciReleased st \<longleftrightarrow> pcFwPages st = None \<and> pcDMA st = None \<and> pcEQ st = None \<and> pcUAR st = None \<and>
     pcCmd st = None \<and> pcHCA st = None \<and> \<not> pcBar0 st \<and> \<not> pcPci st"

lemma releaseAll_empty: "fpPages (releasePages (map pg_id (fpPages st)) st) = []"
proof (induction "fpPages st" arbitrary: st)
  case (Cons p ps)
  have "fpPages (releasePage (pg_id p) st) = ps"
    using Cons.hyps(2) by (simp add: releasePage_def removePage_def Let_def flip: Cons.hyps(2))
  with Cons.hyps(1) [of "releasePage (pg_id p) st"] show ?case by (simp flip: Cons.hyps(2))
qed simp

lemma destroyAll_invalid: "\<forall>e \<in> set es. \<not> eq_valid e \<Longrightarrow> destroyAll xc es w = (True, es, w)"
  by (induction es) (simp_all add: Let_def)

lemma eqFree_invalid:
  assumes "\<forall>e \<in> set (eqComp eq) \<union> set (eqAsync eq). \<not> eq_valid e"
    and "eqFree xc up eq w = (eq', leaked, w')"
  shows "leaked = [] \<and> w' = w"
proof -
  let ?st = "disableInterrupts (eq\<lparr>eqShuttingDown := True\<rparr>)"
  have st: "eqComp ?st = eqComp eq" "eqAsync ?st = eqAsync eq" by (simp_all add: disableInterrupts_def)
  have d: "destroyAll xc (eqComp eq) w = (True, eqComp eq, w)" "destroyAll xc (eqAsync eq) w = (True, eqAsync eq, w)"
    using assms(1) by (simp_all add: destroyAll_invalid)
  have "shutdown xc up eq w = (True, ?st\<lparr>eqComp := eqComp eq, eqAsync := eqAsync eq\<rparr>, w) \<or>
      (\<exists>b. shutdown xc up eq w = (b, ?st, w))"
    by (simp add: shutdown_def Let_def st d)
  then obtain b s where s: "shutdown xc up eq w = (b, s, w)" "eqComp s = eqComp eq" "eqAsync s = eqAsync eq"
    using st by auto
  from assms s show ?thesis
    by (auto simp: eqFree_def Let_def free_eq_entry_def filter_empty_conv)
qed

lemma releaseFwPages_idle:
  assumes "pagesIdle st"
  shows "\<exists>st' fr. releaseFwPages ci env st = Some st' \<and> pcFwPages st' = None \<and>
    st' = st\<lparr>pcFwPages := None, pcFreed := pcFreed st @ fr\<rparr> \<and> (\<forall>x \<in> set fr. freedClean x)"
proof (cases "pcFwPages st")
  case None
  then show ?thesis by (intro exI [of _ st] exI [of _ "[]"]) (simp add: releaseFwPages_def)
next
  case (Some fp)
  let ?fp = "releaseAfterDmaBoundary fp"
  have r: "\<not> fpRuntimeStarted ?fp" "fpPages ?fp = []"
    using assms Some by (simp_all add: pagesIdle_def releaseAfterDmaBoundary_def releaseAll_empty)
  then have "fwPagesFree (pcX ci) (peFwEnv env) ?fp (pcCmd st) = Some (?fp, pcCmd st)"
    by (simp add: fwPagesFree_def stopRuntimeAndDrain_def)
  with Some r show ?thesis
    by (intro exI [of _ "st\<lparr>pcFwPages := None, pcFreed := pcFreed st @ [FreedFwPages ?fp]\<rparr>"]
        exI [of _ "[FreedFwPages ?fp]"]) (simp add: releaseFwPages_def)
qed

lemma releaseDma_frame:
  "\<exists>fr. releaseDma st = st\<lparr>pcDMA := None, pcFreed := pcFreed st @ fr\<rparr> \<and> (\<forall>x \<in> set fr. freedClean x)"
  by (cases "pcDMA st") (auto simp: releaseDma_def intro: exI [of _ "[]"])

lemma releaseEq_frame:
  assumes "eqsInvalid st"
  shows "\<exists>fr. releaseEq ci st = st\<lparr>pcEQ := None, pcFreed := pcFreed st @ fr\<rparr> \<and> (\<forall>x \<in> set fr. freedClean x)"
proof (cases "pcEQ st")
  case None
  then show ?thesis by (intro exI [of _ "[]"]) (simp add: releaseEq_def)
next
  case (Some eq)
  obtain eq' l w where f: "eqFree (pcX ci) (pcCmdUp ci st) eq (pcCmd st) = (eq', l, w)" by (metis prod_cases3)
  have "l = [] \<and> w = pcCmd st" using assms Some by (intro eqFree_invalid [OF _ f]) (simp add: eqsInvalid_def)
  with Some f show ?thesis by (intro exI [of _ "[FreedEQ eq' l]"]) (simp add: releaseEq_def)
qed

lemma releaseUar_frame:
  "\<exists>w fr. releaseUar ci st = st\<lparr>pcUAR := None, pcCmd := w, pcFreed := pcFreed st @ fr\<rparr> \<and> (\<forall>x \<in> set fr. freedClean x)"
proof (cases "pcUAR st")
  case None
  then show ?thesis by (intro exI [of _ "pcCmd st"] exI [of _ "[]"]) (simp add: releaseUar_def)
next
  case (Some u)
  obtain u' w where f: "uarFree (pcX ci) u (pcCmd st) = (u', w)" by fastforce
  then have "\<not> fDbMemDesc u' \<and> \<not> fBootUarValid u'"
    by (auto simp: uarFree_def freeDbRecord_def freeUar_def Let_def split: if_splits prod.splits)
  with Some f show ?thesis by (intro exI [of _ w] exI [of _ "[FreedUAR u']"]) (simp add: releaseUar_def)
qed

definition pcFlags :: "'w MlxPCIDriver \<Rightarrow>
    (bool \<times> MlxHealth option \<times> bool) \<times> bool \<times> bool \<times> bool \<times> bool \<times> bool \<times> u32 option \<times> bool" where
  "pcFlags st = ((pcStopping st, pcHealth st, pcHcaInit st), pcHcaEnabled st, pcQuarantine st, pcBusMaster st,
     pcRdma st, pcEth st, pcDevName st, pcRegistered st)"

lemma releaseAll_spec:
  assumes "pagesIdle st" and "eqsInvalid st"
  shows "\<exists>st1 fr. releaseFwPages ci env st = Some st1 \<and>
    pciReleased (releaseRest (releaseUar ci (releaseEq ci (releaseDma st1)))) \<and>
    pcFreed (releaseRest (releaseUar ci (releaseEq ci (releaseDma st1)))) = pcFreed st @ fr \<and>
    (\<forall>x \<in> set fr. freedClean x) \<and>
    pcFlags (releaseRest (releaseUar ci (releaseEq ci (releaseDma st1)))) = pcFlags st"
proof -
  from releaseFwPages_idle [OF assms(1), of ci env] obtain s1 f1 where
    1: "releaseFwPages ci env st = Some s1" "s1 = st\<lparr>pcFwPages := None, pcFreed := pcFreed st @ f1\<rparr>"
      "\<forall>x \<in> set f1. freedClean x" by (elim exE conjE) (rule that)
  define s2 where "s2 = releaseDma s1"
  from releaseDma_frame [of s1, folded s2_def] obtain f2 where
    2: "s2 = s1\<lparr>pcDMA := None, pcFreed := pcFreed s1 @ f2\<rparr>" "\<forall>x \<in> set f2. freedClean x"
    by (elim exE conjE) (rule that)
  have i: "eqsInvalid s2" using assms(2) 1(2) 2(1) by (simp add: eqsInvalid_def)
  define s3 where "s3 = releaseEq ci s2"
  from releaseEq_frame [OF i, of ci, folded s3_def] obtain f3 where
    3: "s3 = s2\<lparr>pcEQ := None, pcFreed := pcFreed s2 @ f3\<rparr>" "\<forall>x \<in> set f3. freedClean x"
    by (elim exE conjE) (rule that)
  define s4 where "s4 = releaseUar ci s3"
  from releaseUar_frame [of ci s3, folded s4_def] obtain w f4 where
    4: "s4 = s3\<lparr>pcUAR := None, pcCmd := w, pcFreed := pcFreed s3 @ f4\<rparr>" "\<forall>x \<in> set f4. freedClean x"
    by (elim exE conjE) (rule that)
  have fin: "releaseUar ci (releaseEq ci (releaseDma s1)) = s4" by (simp only: s2_def s3_def s4_def)
  define f5 where "f5 = (if pcCmd s4 \<noteq> None then [FreedCmd] else []) @ (if pcHCA s4 \<noteq> None then [FreedHCA] else []) @
    (if pcBar0 s4 then [FreedBar0] else []) @ (if pcPci s4 then [FreedPci] else [])"
  have f5: "\<forall>x \<in> set f5. freedClean x" by (auto simp: f5_def)
  have "pcFreed (releaseRest s4) = pcFreed s4 @ f5" by (simp add: releaseRest_def f5_def)
  moreover have "pcFreed s4 = pcFreed st @ f1 @ f2 @ f3 @ f4" by (simp add: 1(2) 2(1) 3(1) 4(1))
  moreover have "pciReleased (releaseRest s4)" by (simp add: 1(2) 2(1) 3(1) 4(1) releaseRest_def pciReleased_def)
  moreover have "pcFlags (releaseRest s4) = pcFlags st"
    by (simp add: 1(2) 2(1) 3(1) 4(1) releaseRest_def pcFlags_def)
  ultimately show ?thesis
    using 1(1,3) 2(2) 3(2) 4(2) f5
    by (intro exI [of _ s1] exI [of _ "f1 @ f2 @ f3 @ f4 @ f5"]) (simp add: fin ball_Un)
qed

definition boundaryTrusted :: "'w cmdIfc \<Rightarrow> 'w pciEnv \<Rightarrow> bool \<Rightarrow> bool \<Rightarrow> 'w MlxPCIDriver \<Rightarrow> bool" where
  "boundaryTrusted ci env ed tok mid \<longleftrightarrow>
     gracefulBoundary ci ed tok mid \<and> (pcPci mid \<longrightarrow> peCommand env AND 4 = 0)"

lemma pci_cleanup_spec:
  assumes ka: "keepsAlive ci alive" and wf: "pciWf alive st" and "\<not> pcStopping st"
    and q: "quiesce ci env st = Some (ed, tok, mid)"
  shows "\<exists>st' fr. cleanup ci env st = Some st' \<and> pcStopping st' \<and> pcHealth st' = None \<and>
    (pcPci st \<longrightarrow> \<not> pcBusMaster st') \<and> pcFreed st' = pcFreed (stopHealth st) @ fr \<and>
    (if boundaryTrusted ci env ed tok mid
     then pciReleased st' \<and> \<not> pcHcaInit st' \<and> \<not> pcHcaEnabled st' \<and> eqsInvalid mid \<and>
       \<not> pcOutstanding mid \<and> (\<forall>x \<in> set fr. freedClean x)
     else pcMem st' = pcMem st \<and> fr = [] \<and> pcFwPages st' = pcFwPages mid) \<and>
    (pcRdma st' \<longrightarrow> pcRdma st) \<and> (pcEth st' \<longrightarrow> pcEth st) \<and> pcDevName st' = pcDevName st \<and>
    pcRegistered st' = pcRegistered st \<and> (pciWf alive st')"
proof -
  note m = quiesce_spec [OF ka wf q]
  have pm: "pcPci mid = pcPci st" using m by (simp add: pcMem_def)
  obtain b s where b: "disableBusMasterAndVerify env mid = (b, s)" by fastforce
  have s: "b \<longleftrightarrow> (pcPci mid \<longrightarrow> peCommand env AND 4 = 0)" "s = (if pcPci mid then mid\<lparr>pcBusMaster := False\<rparr> else mid)"
    using b by (auto simp: disableBusMasterAndVerify_def split: if_splits)
  have sm: "pcMem s = pcMem mid" "pagesIdle s = pagesIdle mid" "eqsInvalid s = eqsInvalid mid"
    "pcFreed s = pcFreed mid" "pciWf alive s = pciWf alive mid" "pcFwPages s = pcFwPages mid"
    "pcStopping s = pcStopping mid" "pcHealth s = pcHealth mid" "pcHcaInit s = pcHcaInit mid"
    "pcHcaEnabled s = pcHcaEnabled mid" "pcQuarantine s = pcQuarantine mid" "pcPci st \<longrightarrow> \<not> pcBusMaster s"
    "pcRdma s = pcRdma mid" "pcEth s = pcEth mid" "pcDevName s = pcDevName mid" "pcRegistered s = pcRegistered mid"
    using pm by (auto simp: s(2) pcMem_def pagesIdle_def eqsInvalid_def pciWf_def)
  show ?thesis
  proof (cases "boundaryTrusted ci env ed tok mid")
    case True
    then have g: "gracefulBoundary ci ed tok mid" "b" "ed" "tok" "\<not> pcQuarantine mid" "\<not> pcOutstanding mid"
      using s(1) by (auto simp: boundaryTrusted_def gracefulBoundary_def)
    have "pagesIdle s" "eqsInvalid s" using sm m g by simp_all
    from releaseAll_spec [OF this, of ci env] obtain s1 fr where
      r: "releaseFwPages ci env s = Some s1"
        "pciReleased (releaseRest (releaseUar ci (releaseEq ci (releaseDma s1))))"
        "pcFreed (releaseRest (releaseUar ci (releaseEq ci (releaseDma s1)))) = pcFreed s @ fr"
        "\<forall>x \<in> set fr. freedClean x"
        "pcFlags (releaseRest (releaseUar ci (releaseEq ci (releaseDma s1)))) = pcFlags s"
      by (elim exE conjE) (rule that)
    have c: "cleanup ci env st = Some (releaseRest (releaseUar ci (releaseEq ci (releaseDma s1))))"
      using assms(3) q b g r(1) by (simp add: cleanup_def Let_def)
    show ?thesis
      by (intro exI [of _ "releaseRest (releaseUar ci (releaseEq ci (releaseDma s1)))"] exI [of _ fr])
        (use c r True sm m g in \<open>auto simp: pcFlags_def pciWf_def pciReleased_def\<close>)
  next
    case False
    then have "\<not> (b \<and> gracefulBoundary ci ed tok mid)" using s(1) by (auto simp: boundaryTrusted_def)
    then have "cleanup ci env st = Some s" using assms(3) q b by (auto simp: cleanup_def Let_def)
    with False sm m show ?thesis by (intro exI [of _ s] exI [of _ "[]"]) auto
  qed
qed

end
