(* ===== verification/MlxPCIProps.thy ===== *)
theory MlxPCIProps
  imports MlxPCIDown
begin

text \<open>
  Bring-up of the device, and the two properties of the PCI driver: the all-or-nothing outcome
  of \<open>start\<close> and the DMA boundary of \<open>cleanup\<close>.
\<close>

unbundle bit_operations_syntax

section \<open>Bring-up\<close>

text \<open>What the steps of the firmware handshake can change, and keep.\<close>

definition pcFixed :: "'w MlxPCIDriver \<Rightarrow>
    (bool \<times> bool \<times> MlxEQ option \<times> MlxUAR option \<times> MlxHealth option \<times> MlxDMA option) \<times>
    (u16 \<times> u32 \<times> bool \<times> bool \<times> bool) \<times> (bool \<times> bool \<times> bool \<times> bool \<times> u32 option \<times> bool) \<times> pciObject list" where
  "pcFixed st = ((pcPci st, pcBar0 st, pcEQ st, pcUAR st, pcHealth st, pcDMA st),
     (pcDeviceId st, pcDevIdx st, pcRuntime st, pcStopping st, pcQuarantine st),
     (pcBusMaster st, pcMemEnable st, pcRdma st, pcEth st, pcDevName st, pcRegistered st), pcFreed st)"

definition handshake :: "('w \<Rightarrow> bool) \<Rightarrow> 'w MlxPCIDriver \<Rightarrow> 'w MlxPCIDriver \<Rightarrow> bool" where
  "handshake alive st st' \<longleftrightarrow> pcFixed st' = pcFixed st \<and>
     (aliveO alive (pcCmd st) \<longrightarrow> aliveO alive (pcCmd st')) \<and>
     (pcFwPages st' = None \<longleftrightarrow> pcFwPages st = None) \<and> (pagesIdle st \<longrightarrow> pagesIdle st') \<and>
     (pcHCA st' = None \<longleftrightarrow> pcHCA st = None) \<and> (pcHcaEnabled st \<longrightarrow> pcHcaEnabled st') \<and>
     (pcHcaInit st \<longrightarrow> pcHcaInit st')"

lemma pcFixed_set [simp]:
  "pcFixed (st\<lparr>pcHcaEnabled := b\<rparr>) = pcFixed st" "pcFixed (st\<lparr>pcHcaInit := b\<rparr>) = pcFixed st"
  "pcFixed (st\<lparr>pcIssi := i\<rparr>) = pcFixed st" "pcFixed (st\<lparr>pcCmd := w\<rparr>) = pcFixed st"
  "pcFixed (st\<lparr>pcFwPages := fp\<rparr>) = pcFixed st" "pcFixed (st\<lparr>pcHCA := h\<rparr>) = pcFixed st"
  by (simp_all add: pcFixed_def)

lemma pagesIdle_set [simp]:
  "pagesIdle (st\<lparr>pcHcaEnabled := b\<rparr>) = pagesIdle st" "pagesIdle (st\<lparr>pcHcaInit := b\<rparr>) = pagesIdle st"
  "pagesIdle (st\<lparr>pcIssi := i\<rparr>) = pagesIdle st" "pagesIdle (st\<lparr>pcCmd := w\<rparr>) = pagesIdle st"
  "pagesIdle (st\<lparr>pcHCA := h\<rparr>) = pagesIdle st"
  by (simp_all add: pagesIdle_def)

lemma handshake_refl [simp]: "handshake alive st st"
  by (simp add: handshake_def)

lemma handshake_trans: "handshake alive st st' \<Longrightarrow> handshake alive st' st'' \<Longrightarrow> handshake alive st st''"
  by (simp add: handshake_def)

lemma handshake_set [simp]:
  "handshake alive st (st'\<lparr>pcHcaEnabled := True\<rparr>)" "handshake alive st (st'\<lparr>pcHcaInit := True\<rparr>)"
  "handshake alive st (st'\<lparr>pcIssi := i\<rparr>)"
  if "handshake alive st st'"
  using that by (auto simp: handshake_def)

lemma pciExec_handshake:
  assumes ka: "keepsAlive ci alive" and run: "pciExec ci opc inb m t st = (kr, out, st')"
  shows "handshake alive st st'"
proof -
  from pciExec_quiet [OF ka run] obtain w where
    w: "st' = st\<lparr>pcCmd := w\<rparr>" "aliveO alive (pcCmd st) \<longrightarrow> aliveO alive w" by (elim conjE exE) (rule that)
  then show ?thesis by (simp add: handshake_def pagesIdle_def)
qed

lemma handshake_steps:
  assumes ka: "keepsAlive ci alive"
  shows "enableHca ci st = (ok, st') \<Longrightarrow> handshake alive st st'"
    and "initHca ci st = (ok, st') \<Longrightarrow> handshake alive st st'"
    and "queryHcaCap ci mem ty mode st = (b, st') \<Longrightarrow> handshake alive st st'"
  using pciExec_handshake [OF ka]
  by (auto simp: enableHca_def initHca_def queryHcaCap_def Let_def split: prod.splits if_splits)

lemma setIssi_handshake:
  assumes ka: "keepsAlive ci alive" and run: "setIssi ci st = (ok, st')"
  shows "handshake alive st st'"
proof -
  obtain kr out s1 where 1: "pciExec ci MLX_CMD_OP_QUERY_ISSI (opBuffer 16 MLX_CMD_OP_QUERY_ISSI) 112 5000 st =
      (kr, out, s1)" by (metis prod_cases3)
  obtain k2 o2 s2 where 2: "pciExec ci MLX_CMD_OP_SET_ISSI
      (mlxSetBits (opBuffer 16 MLX_CMD_OP_SET_ISSI) 0x50 16 1) 16 5000 s1 = (k2, o2, s2)" by (metis prod_cases3)
  have "st' = s1\<lparr>pcIssi := 0\<rparr> \<or> (\<exists>i. st' = s2\<lparr>pcIssi := i\<rparr>)"
    using run by (auto simp: setIssi_def 1 2 Let_def split: if_splits)
  with pciExec_handshake [OF ka 1] handshake_trans [OF pciExec_handshake [OF ka 1] pciExec_handshake [OF ka 2]]
  show ?thesis by auto
qed

lemma setHcaCaps_handshake:
  assumes ka: "keepsAlive ci alive" and run: "setHcaCaps ci env st = (ok, st')"
  shows "handshake alive st st'"
proof (cases "peSetCaps env")
  case True
  obtain b1 s1 where 1: "queryHcaCap ci (peQueryOut env 0) MLX_P1_CAP_GENERAL MLX_P1_CAP_MAX st = (b1, s1)" by fastforce
  obtain b2 s2 where 2: "queryHcaCap ci (peQueryOut env 1) MLX_P1_CAP_GENERAL MLX_P1_CAP_CURRENT s1 = (b2, s2)" by fastforce
  note h1 = handshake_steps(3) [OF ka 1] and h2 = handshake_steps(3) [OF ka 2]
  note h12 = handshake_trans [OF h1 h2]
  show ?thesis
  proof (cases "b1 = None \<or> b2 = None")
    case True
    with run 1 2 h1 h12 \<open>peSetCaps env\<close> show ?thesis by (auto simp: setHcaCaps_def split: option.splits)
  next
    case False
    then obtain x1 x2 where x: "b1 = Some x1" "b2 = Some x2" by auto
    obtain kr out s3 where 3: "pciExec ci MLX_CMD_OP_SET_HCA_CAP (setHcaCapsInput (pePageShift env) x1 x2) 16 5000 s2 =
        (kr, out, s3)" by (metis prod_cases3)
    from run 1 2 3 x True have "st' = s3" by (simp add: setHcaCaps_def)
    with handshake_trans [OF h12 pciExec_handshake [OF ka 3]] show ?thesis by simp
  qed
qed (use run in \<open>simp add: setHcaCaps_def\<close>)

lemma optionalCap_handshake:
  assumes ka: "keepsAlive ci alive" and run: "optionalCap ci wanted mem ty parse st = (c, st')"
  shows "handshake alive st st'"
  using run handshake_steps(3) [OF ka]
  by (auto simp: optionalCap_def split: prod.splits option.splits if_splits)

definition capsUsable :: "MlxHcaCaps \<Rightarrow> bool" where
  "capsUsable c \<longleftrightarrow> hc_numPorts c \<noteq> 0 \<and> hc_maxQp c \<noteq> 0 \<and> hc_maxCq c \<noteq> 0 \<and> hc_maxMr c \<noteq> 0"

lemma queryHcaCaps_handshake:
  assumes ka: "keepsAlive ci alive" and run: "queryHcaCaps ci env st = (ok, st')" and h: "pcHCA st \<noteq> None"
  shows "handshake alive st st' \<and> (ok \<longrightarrow> capsUsable (pcCaps st'))"
proof (cases "peCapBufs env")
  case True
  obtain g s1 where 1: "queryHcaCap ci (peQueryOut env 2) MLX_P1_CAP_GENERAL MLX_P1_CAP_CURRENT st = (g, s1)" by fastforce
  note h1 = handshake_steps(3) [OF ka 1]
  show ?thesis
  proof (cases "g = None \<or> mlxP1ParseGeneralCaps g MLX_P1_HCA_CAP_BYTES = None")
    case f: True
    with run 1 h1 True show ?thesis by (auto simp: queryHcaCaps_def split: option.splits)
  next
    case False
    then obtain b c where g: "g = Some b" "mlxP1ParseGeneralCaps (Some b) MLX_P1_HCA_CAP_BYTES = Some c" by auto
    obtain ro s2 where 2: "optionalCap ci (roce c) (peQueryOut env 3) MLX_P1_CAP_ROCE mlxP1ParseRoceCaps s1 = (ro, s2)"
      by fastforce
    obtain fl s3 where 3: "optionalCap ci (nicFlowTable c) (peQueryOut env 4) MLX_P1_CAP_FLOW_TABLE
        mlxP1ParseFlowCaps s2 = (fl, s3)" by fastforce
    obtain et s4 where 4: "optionalCap ci (ethNetOffloads c) (peQueryOut env 5) MLX_P1_CAP_ETHERNET_OFFLOADS
        mlxP1ParseEthernetCaps s3 = (et, s4)" by fastforce
    have h4: "handshake alive st s4"
      using handshake_trans [OF h1 handshake_trans [OF optionalCap_handshake [OF ka 2]
        handshake_trans [OF optionalCap_handshake [OF ka 3] optionalCap_handshake [OF ka 4]]]] .
    define caps where "caps = capsOf (peFwRev env) (case pcCmd s4 of Some w \<Rightarrow> ciRev ci w | None \<Rightarrow> 0) b c ro fl et"
    have r: "ok = capsUsable caps" "st' = s4\<lparr>pcHCA := map_option (\<lambda>h. h\<lparr>hcaCaps := caps\<rparr>) (pcHCA s4)\<rparr>"
      using run True 1 g 2 3 4 by (auto simp: queryHcaCaps_def caps_def capsUsable_def Let_def)
    have "handshake alive s4 st'" by (simp add: r(2) handshake_def pagesIdle_def)
    moreover have "pcHCA s4 \<noteq> None" using h4 h by (simp add: handshake_def)
    ultimately show ?thesis
      using handshake_trans [OF h4] r by (auto simp: pcCaps_def)
  qed
qed (use run in \<open>simp add: queryHcaCaps_def\<close>)

lemma pcStartupPages_handshake:
  assumes ka: "keepsAlive ci alive" and run: "pcStartupPages ci env ph st = (ok, st')"
  shows "handshake alive st st'"
proof (cases "pcFwPages st")
  case (Some fp)
  obtain kr fp' w where s: "satisfyStartupPages (pcX ci) (peFwEnv env) ph fp (pcCmd st) = (kr, fp', w)"
    by (metis prod_cases3)
  from device_commands.satisfyStartupPages_keeps [OF pcX_device [OF ka] s] runtime_startup [OF s] run Some s
  show ?thesis by (auto simp: pcStartupPages_def handshake_def pagesIdle_def)
qed (use run in \<open>simp add: pcStartupPages_def\<close>)

lemma fwInit_spec:
  assumes ka: "keepsAlive ci alive" and run: "fwInit ci env st = (ok, st')" and h: "pcHCA st \<noteq> None"
  shows "handshake alive st st' \<and> (ok \<longrightarrow> pcHcaEnabled st' \<and> pcHcaInit st' \<and> capsUsable (pcCaps st'))"
proof (cases "firmwareReady (peInitializing env)")
  case ready: True
  obtain o1 s1 where 1: "enableHca ci st = (o1, s1)" by fastforce
  obtain o2 s2 where 2: "setIssi ci (s1\<lparr>pcHcaEnabled := True\<rparr>) = (o2, s2)" by fastforce
  obtain o3 s3 where 3: "pcStartupPages ci env kMlxFwPageBoot s2 = (o3, s3)" by fastforce
  obtain o4 s4 where 4: "setHcaCaps ci env s3 = (o4, s4)" by fastforce
  obtain o5 s5 where 5: "pcStartupPages ci env kMlxFwPageInit s4 = (o5, s5)" by fastforce
  obtain o6 s6 where 6: "initHca ci s5 = (o6, s6)" by fastforce
  obtain o7 s7 where 7: "queryHcaCaps ci env (s6\<lparr>pcHcaInit := True\<rparr>) = (o7, s7)" by fastforce
  have r: "(ok, st') = (if \<not> o1 then (False, s1) else if \<not> o2 then (False, s2) else if \<not> o3 then (False, s3)
      else if \<not> o4 then (False, s4) else if \<not> o5 then (False, s5) else if \<not> o6 then (False, s6) else (o7, s7))"
    using run [symmetric]
    by (simp only: fwInit_def ready 1 2 3 4 5 6 7 prod.case not_True_eq_False if_False simp_thms)
  note h1 = handshake_steps(1) [OF ka 1]
  note h2 = handshake_trans [OF handshake_set(1) [OF h1] setIssi_handshake [OF ka 2]]
  note h3 = handshake_trans [OF h2 pcStartupPages_handshake [OF ka 3]]
  note h4 = handshake_trans [OF h3 setHcaCaps_handshake [OF ka 4]]
  note h5 = handshake_trans [OF h4 pcStartupPages_handshake [OF ka 5]]
  note h6 = handshake_trans [OF h5 handshake_steps(2) [OF ka 6]]
  have "pcHCA (s6\<lparr>pcHcaInit := True\<rparr>) \<noteq> None" using h6 h by (simp add: handshake_def)
  note q7 = queryHcaCaps_handshake [OF ka 7 this]
  have h7: "handshake alive st s7" using handshake_trans [OF handshake_set(2) [OF h6]] q7 by blast
  have i7: "pcHcaInit s7" using q7 by (simp add: handshake_def)
  have "handshake alive (s1\<lparr>pcHcaEnabled := True\<rparr>) s7"
    using handshake_trans [OF setIssi_handshake [OF ka 2] handshake_trans [OF pcStartupPages_handshake [OF ka 3]
      handshake_trans [OF setHcaCaps_handshake [OF ka 4] handshake_trans [OF pcStartupPages_handshake [OF ka 5]
      handshake_trans [OF handshake_set(2) [OF handshake_steps(2) [OF ka 6]] conjunct1 [OF q7]]]]]] .
  then have e7: "pcHcaEnabled s7" by (simp add: handshake_def)
  show ?thesis using r h1 h2 h3 h4 h5 h6 h7 i7 e7 q7 by (auto split: if_splits)
qed (use run in \<open>simp add: fwInit_def\<close>)

text \<open>The state while \<open>start\<close> runs.\<close>

definition starting :: "('w \<Rightarrow> bool) \<Rightarrow> 'w MlxPCIDriver \<Rightarrow> bool" where
  "starting alive st \<longleftrightarrow> pciWf alive st \<and> pcPci st \<and> \<not> pcStopping st \<and> \<not> pcRegistered st \<and>
     \<not> pcRdma st \<and> \<not> pcEth st \<and> pcDevName st = None"

lemma starting_handshake:
  assumes "starting alive st" and "handshake alive st st'" and "aliveO alive (pcCmd st)" and "pagesIdle st"
  shows "starting alive st' \<and> aliveO alive (pcCmd st') \<and> pagesIdle st'"
proof -
  have a: "aliveO alive (pcCmd st')" "pagesIdle st'" "pcFixed st' = pcFixed st"
    using assms by (auto simp: handshake_def)
  then have "pciWf alive st'" by (auto simp: pciWf_def pagesIdle_def)
  moreover have "pcPci st' = pcPci st \<and> pcStopping st' = pcStopping st \<and> pcRegistered st' = pcRegistered st \<and>
      pcRdma st' = pcRdma st \<and> pcEth st' = pcEth st \<and> pcDevName st' = pcDevName st"
    using a(3) unfolding pcFixed_def prod.inject by blast
  ultimately show ?thesis using assms(1) a(1,2) by (simp add: starting_def)
qed

lemma createEqs_valid:
  "createEqs xc envs page plan eqs w = Some (kr, eqs', w') \<Longrightarrow> kr = kIOReturnSuccess \<Longrightarrow>
   length eqs' = length eqs \<and>
   (\<forall>i < length eqs. i \<in> fst ` set plan \<or> eq_valid (eqs ! i) \<longrightarrow> eq_valid (eqs' ! i))"
proof (induction plan arbitrary: eqs w)
  case (Cons e plan)
  obtain i lg vec m where e: "e = (i, lg, vec, m)" by (metis prod_cases4)
  from Cons.prems(1) obtain k q v where
    c: "createEq xc (envs i) page ((eqs ! i)\<lparr>eq_logSize := lg\<rparr>) vec m w = Some (k, q, v)"
    by (auto simp: e split: option.splits)
  have k: "k = kIOReturnSuccess" using Cons.prems c by (auto simp: e split: if_splits)
  then have v: "eq_valid q"
    using c by (auto simp: createEq_def Let_def split: option.splits prod.splits if_splits)
  from Cons.prems c k have "createEqs xc envs page plan (eqs[i := q]) v = Some (kr, eqs', w')" by (simp add: e)
  note ih = Cons.IH [OF this Cons.prems(2)]
  have "eq_valid (eqs' ! j)" if "j < length eqs" "j \<in> fst ` set (e # plan) \<or> eq_valid (eqs ! j)" for j
    using ih v that by (cases "j = i") (auto simp: e)
  with ih show ?case by simp
qed simp

text \<open>A driver that is up: every object is there, the firmware has answered, the queues are live.\<close>

definition eqsLive :: "MlxEQ \<Rightarrow> bool" where
  "eqsLive eq \<longleftrightarrow> length (eqAsync eq) = 3 \<and> length (eqComp eq) = 1 \<and>
     (\<forall>e \<in> set (eqAsync eq) \<union> set (eqComp eq). eq_valid e) \<and> eqInterruptsSetup eq"

definition driverUp :: "bool \<Rightarrow> ('w \<Rightarrow> bool) \<Rightarrow> 'w MlxPCIDriver \<Rightarrow> bool" where
  "driverUp unsafe alive st \<longleftrightarrow> pcPci st \<and> pcHcaEnabled st \<and> pcHcaInit st \<and> pcRuntime st \<and> aliveO alive (pcCmd st) \<and>
     (\<exists>h. pcHCA st = Some h \<and> capsUsable (hcaCaps h)) \<and> pcFwPages st \<noteq> None \<and> pcUAR st \<noteq> None \<and>
     (\<exists>eq. pcEQ st = Some eq \<and> eqsLive eq) \<and> pcHealth st \<noteq> None \<and> pcDMA st \<noteq> None \<and>
     (pcRdma st \<longrightarrow> unsafe \<and> hc_roce (pcCaps st)) \<and>
     (pcEth st \<longrightarrow> isEthernet (pcCaps st) \<and> hc_ethNetOffloads (pcCaps st) \<and> hc_nicFlowTable (pcCaps st)) \<and>
     pcDevName st = Some (pcDevIdx st)"

lemma bringUar_spec:
  assumes ka: "keepsAlive ci alive" and run: "bringUar ci env st = (ok, st')"
  shows "\<exists>u w. st' = st\<lparr>pcUAR := u, pcCmd := w\<rparr> \<and> (aliveO alive (pcCmd st) \<longrightarrow> aliveO alive w) \<and> (ok \<longrightarrow> u \<noteq> None)"
proof (cases "peUar env")
  case None
  with run show ?thesis by (intro exI [of _ "pcUAR st"] exI [of _ "pcCmd st"]) (simp add: bringUar_def)
next
  case (Some lock)
  let ?st = "st\<lparr>pcUAR := Some (uarInit lock)\<rparr>"
  show ?thesis
  proof (cases lock)
    case False
    with run Some show ?thesis
      by (intro exI [of _ "Some (uarInit lock)"] exI [of _ "pcCmd st"]) (auto simp: bringUar_def Let_def)
  next
    case True
    obtain kr b u w where a: "allocUar (pcX ci) (pcUarCaps env ?st) (peUarDesc env) (peUarMap env)
        (peUarRecord env) (uarInit lock) (pcCmd ?st) = (kr, b, u, w)" by (metis prod_cases4)
    note w = device_commands.allocUar_keeps [OF pcX_device [OF ka] a]
    obtain k2 u2 where d: "allocDbRecord (peDbMem env) (peDbMap env) u = (k2, u2)" by fastforce
    have "st' = st\<lparr>pcUAR := Some u, pcCmd := w\<rparr> \<and> \<not> ok \<or> st' = st\<lparr>pcUAR := Some u2, pcCmd := w\<rparr>"
      using run Some True a d by (auto simp: bringUar_def Let_def split: if_splits)
    then show ?thesis
    proof (elim disjE conjE)
      assume "st' = st\<lparr>pcUAR := Some u, pcCmd := w\<rparr>"
      with w show ?thesis by (intro exI [of _ "Some u"] exI [of _ w]) simp
    next
      assume "st' = st\<lparr>pcUAR := Some u2, pcCmd := w\<rparr>"
      with w show ?thesis by (intro exI [of _ "Some u2"] exI [of _ w]) simp
    qed
  qed
qed

lemma setupInterrupts_lists:
  "setupInterrupts ienv m eq = (kr, eq', db) \<Longrightarrow> eqAsync eq' = eqAsync eq \<and> eqComp eq' = eqComp eq \<and>
   (kr = kIOReturnSuccess \<longrightarrow> eqInterruptsSetup eq')"
  by (auto simp: setupInterrupts_def Let_def split: if_splits prod.splits)

lemma registerNotifier_lists [simp]:
  "eqAsync (registerNotifier ty n eq) = eqAsync eq" "eqComp (registerNotifier ty n eq) = eqComp eq"
  by (simp_all add: registerNotifier_def Let_def)

lemma createAsyncEqs_valid:
  assumes "createAsyncEqs xc envs page eq w = Some (kIOReturnSuccess, eq', w')" and "length (eqAsync eq) = 3"
  shows "length (eqAsync eq') = 3 \<and> (\<forall>e \<in> set (eqAsync eq'). eq_valid e) \<and> eqComp eq' = eqComp eq"
proof -
  from assms(1) obtain es where
    c: "createEqs xc envs page asyncPlan (eqAsync eq) w = Some (kIOReturnSuccess, es, w')" "eq' = eq\<lparr>eqAsync := es\<rparr>"
    by (auto simp: createAsyncEqs_def)
  have "fst ` set asyncPlan = {0, 1, 2}" by (auto simp: asyncPlan_def)
  moreover have "i \<in> {0, 1, 2}" if "i < 3" for i :: nat using that by auto
  ultimately show ?thesis
    using createEqs_valid [OF c(1) refl] assms(2) by (auto simp: c(2) in_set_conv_nth)
qed

lemma createCompEqs_valid:
  assumes "createCompEqs xc envs page eq w = Some (kIOReturnSuccess, eq', w')"
  shows "length (eqComp eq') = length (eqComp eq) \<and> (\<forall>e \<in> set (eqComp eq'). eq_valid e) \<and> eqAsync eq' = eqAsync eq"
proof -
  from assms(1) obtain es where
    c: "createEqs xc envs page (compPlan (length (eqComp eq))) (eqComp eq) w = Some (kIOReturnSuccess, es, w')"
      "eq' = eq\<lparr>eqComp := es\<rparr>"
    by (auto simp: createCompEqs_def)
  have "fst ` set (compPlan n) = {0..<n}" for n by (force simp: compPlan_def)
  then show ?thesis using createEqs_valid [OF c(1) refl] by (auto simp: c(2) in_set_conv_nth)
qed

definition eqStage :: "('w \<Rightarrow> bool) \<Rightarrow> 'w MlxPCIDriver \<Rightarrow> bool \<Rightarrow> 'w MlxPCIDriver \<Rightarrow> bool" where
  "eqStage alive st ok st' \<longleftrightarrow> (\<exists>e w f r. st' = st\<lparr>pcEQ := e, pcCmd := w, pcFwPages := Some f, pcRuntime := r\<rparr> \<and>
     (aliveO alive (pcCmd st) \<longrightarrow> aliveO alive w) \<and> (fpRuntimeStarted f \<longrightarrow> r) \<and>
     (ok \<longrightarrow> r \<and> (\<exists>eq. e = Some eq \<and> eqsLive eq)))"

lemma eqStageI:
  "st' = st\<lparr>pcEQ := e, pcCmd := w, pcFwPages := Some f, pcRuntime := r\<rparr> \<Longrightarrow>
   (aliveO alive (pcCmd st) \<longrightarrow> aliveO alive w) \<Longrightarrow> (fpRuntimeStarted f \<longrightarrow> r) \<Longrightarrow>
   (ok \<longrightarrow> r \<and> (\<exists>eq. e = Some eq \<and> eqsLive eq)) \<Longrightarrow> eqStage alive st ok st'"
  unfolding eqStage_def by blast

lemma bringEq_spec:
  assumes ka: "keepsAlive ci alive" and run: "bringEq ci env st = Some (ok, st')"
    and fp: "pcFwPages st = Some fp" "\<not> fpRuntimeStarted fp"
  shows "eqStage alive st ok st'"
proof (cases "interruptsOk env \<and> peEq env \<noteq> None")
  case False
  with run have "st' = st \<and> \<not> ok" by (cases "interruptsOk env"; cases "peEq env") (auto simp: bringEq_def)
  moreover have "st = st\<lparr>pcFwPages := Some fp\<rparr>" using fp(1) by simp
  ultimately show ?thesis using fp
    by (intro eqStageI [where e = "pcEQ st" and w = "pcCmd st" and f = fp and r = "pcRuntime st"]) auto
next
  case True
  then obtain alloc lock wl where e: "peEq env = Some (alloc, lock, wl)" by (cases "peEq env") auto
  obtain ok0 eq0 where 0: "eqInit alloc lock wl 1 = (ok0, eq0)" by fastforce
  show ?thesis
  proof (cases ok0)
    case False
    with run fp True e 0 show ?thesis
      by (intro eqStageI [where e = "Some eq0" and w = "pcCmd st" and f = fp and r = "pcRuntime st"]) (auto simp: bringEq_def)
  next
    case ok0: True
    have len: "length (eqAsync eq0) = 3" "length (eqComp eq0) = 1"
      using 0 ok0 by (auto simp: eqInit_def Let_def MLX_NUM_ASYNC_EQS_def split: if_splits)
    from run True e 0 ok0 obtain k1 eq1 w1 where
      1: "createAsyncEqs (pcX ci) (peEqAsync env) (bootUarIndex st) eq0 (pcCmd st) = Some (k1, eq1, w1)"
      by (auto simp: bringEq_def split: option.splits)
    note w1 = device_commands.createAsyncEqs_keeps [OF pcX_device [OF ka] 1]
    show ?thesis
    proof (cases "k1 = kIOReturnSuccess")
      case False
      with run fp True e 0 ok0 1 w1 show ?thesis
        by (intro eqStageI [where e = "Some eq1" and w = w1 and f = fp and r = "pcRuntime st"]) (auto simp: bringEq_def)
    next
      case k1: True
      note v1 = createAsyncEqs_valid [OF 1 [unfolded k1] len(1)]
      from run True e 0 ok0 1 k1 obtain k2 eq2 w2 where
        2: "createCompEqs (pcX ci) (peEqComp env) (bootUarIndex st) eq1 w1 = Some (k2, eq2, w2)"
        by (auto simp: bringEq_def split: option.splits)
      note w2 = device_commands.createCompEqs_keeps [OF pcX_device [OF ka] 2]
      show ?thesis
      proof (cases "k2 = kIOReturnSuccess")
        case False
        with run fp True e 0 ok0 1 k1 2 w1 w2 show ?thesis
          by (intro eqStageI [where e = "Some eq2" and w = w2 and f = fp and r = "pcRuntime st"]) (auto simp: bringEq_def)
      next
        case k2: True
        note v2 = createCompEqs_valid [OF 2 [unfolded k2]]
        let ?eq = "registerNotifier (unat MLX_EVENT_TYPE_PAGE_REQUEST) fwPagesNotifier eq2"
        obtain k3 f3 where 3: "startRuntime True fp = (k3, f3)" by fastforce
        have k3: "k3 = kIOReturnSuccess" "fpRuntimeStarted f3" using 3 fp(2) by (auto simp: startRuntime_def)
        obtain k4 eq4 db where 4: "setupInterrupts (peIntr env) (uarMapped st) ?eq =
            (k4, eq4, db)" by (metis prod_cases3)
        note l4 = setupInterrupts_lists [OF 4]
        have "st' = st\<lparr>pcEQ := Some eq4, pcCmd := w2, pcFwPages := Some f3, pcRuntime := True\<rparr> \<and>
            ok = (k4 = kIOReturnSuccess)"
          using run fp True e 0 ok0 1 k1 2 k2 3 k3 4 [unfolded uarMapped_def]
          by (auto simp: uarMapped_def bringEq_def pcStartRuntime_def bringInterrupts_def Let_def)
        with w1 w2 l4 v1 v2 len show ?thesis
          by (intro eqStageI [where e = "Some eq4" and w = w2 and f = f3 and r = True]) (auto simp: eqsLive_def)
      qed
    qed
  qed
qed

text \<open>The state \<open>start\<close> hands to its first step.\<close>

definition taken :: "'w pciEnv \<Rightarrow> 'w MlxPCIDriver" where
  "taken env = pciInit\<lparr>pcPci := True, pcDeviceId := peDeviceId env, pcDevIdx := peDevIdx env\<rparr>"

lemma bring_early:
  assumes "bringHca env (taken env) = (o1, s1)" and "bringCmd env s1 = (o2, s2)"
    and "bringFwPages ci env s2 = (o3, s3)" and al: "\<forall>w. peCmd env = Some (True, w) \<longrightarrow> alive w"
  shows "starting alive s1 \<and> (o1 \<longrightarrow> starting alive s2) \<and> (o1 \<and> o2 \<longrightarrow> starting alive s3) \<and>
    (o1 \<and> o2 \<and> o3 \<longrightarrow> aliveO alive (pcCmd s3) \<and> pagesIdle s3 \<and> pcHCA s3 \<noteq> None \<and> pcFwPages s3 \<noteq> None \<and>
      \<not> pcHcaInit s3 \<and> \<not> pcHcaEnabled s3)"
proof -
  have 1: "starting alive s1" "o1 \<Longrightarrow> pcHCA s1 \<noteq> None" "\<not> pcHcaInit s1" "\<not> pcHcaEnabled s1" "pcFwPages s1 = None"
    using assms(1) by (auto simp: bringHca_def Let_def taken_def pciInit_def starting_def pciWf_def
      split: if_splits option.splits)
  have 2: "starting alive s2" "pcHCA s2 = pcHCA s1" "\<not> pcHcaInit s2" "\<not> pcHcaEnabled s2" "pcFwPages s2 = None"
    "o2 \<Longrightarrow> aliveO alive (pcCmd s2)"
    using 1 assms(2) al by (auto simp: bringCmd_def starting_def pciWf_def aliveO_def split: option.splits)
  have 3: "starting alive s3" "pcHCA s3 = pcHCA s2" "\<not> pcHcaInit s3" "\<not> pcHcaEnabled s3" "pagesIdle s3"
    "o3 \<Longrightarrow> pcFwPages s3 \<noteq> None" "pcCmd s3 = pcCmd s2"
    using 2 assms(3) by (auto simp: bringFwPages_def starting_def pciWf_def pagesIdle_def fwPagesInit_def
      split: option.splits if_splits prod.splits)
  show ?thesis using 1 2 3 by auto
qed

lemma bringHealth_frame:
  "bringHealth env st = (ok, st') \<Longrightarrow> st' = st\<lparr>pcHealth := pcHealth st'\<rparr> \<and> (ok \<longrightarrow> pcHealth st' \<noteq> None)"
  by (auto simp: bringHealth_def split: option.splits if_splits prod.splits)

lemma bringDma_frame:
  "bringDma env st = (ok, st') \<Longrightarrow> st' = st\<lparr>pcDMA := pcDMA st'\<rparr> \<and> (ok \<longrightarrow> pcDMA st' \<noteq> None)"
  by (auto simp: bringDma_def split: option.splits)

lemma bringUp_spec:
  assumes ka: "keepsAlive ci alive" and al: "\<forall>w. peCmd env = Some (True, w) \<longrightarrow> alive w"
    and run: "bringUp unsafe ci env (taken env) = Some (ok, st')"
  shows "if ok then driverUp unsafe alive st' \<and> pciWf alive st' \<and> \<not> pcStopping st' \<and> \<not> pcRegistered st'
    else starting alive st'"
proof -
  obtain o1 s1 where 1: "bringHca env (taken env) = (o1, s1)" by fastforce
  obtain o2 s2 where 2: "bringCmd env s1 = (o2, s2)" by fastforce
  obtain o3 s3 where 3: "bringFwPages ci env s2 = (o3, s3)" by fastforce
  obtain o4 s4 where 4: "fwInit ci env s3 = (o4, s4)" by fastforce
  obtain o5 s5 where 5: "bringUar ci env s4 = (o5, s5)" by fastforce
  obtain o7 s7 where 7: "bringHealth env s6 = (o7 s6, s7 s6)" for s6 by (meson surj_pair)
  obtain o8 s8 where 8: "bringDma env s6 = (o8 s6, s8 s6)" for s6 by (meson surj_pair)
  note early = bring_early [OF 1 2 3 al]
  have r: "Some (ok, st') = (if \<not> o1 then Some (False, s1) else if \<not> o2 then Some (False, s2)
      else if \<not> o3 then Some (False, s3) else if \<not> o4 then Some (False, s4) else if \<not> o5 then Some (False, s5)
      else (case bringEq ci env s5 of None \<Rightarrow> None | Some (o6, s6) \<Rightarrow> if \<not> o6 then Some (False, s6)
        else if \<not> o7 s6 then Some (False, s7 s6) else if \<not> o8 (s7 s6) then Some (False, s8 (s7 s6))
        else Some (publishNubs unsafe (s8 (s7 s6)))))"
    using run [symmetric]
    by (simp only: bringUp_def 1 2 3 4 5 7 8 prod.case)
  show ?thesis
  proof (cases "o1 \<and> o2 \<and> o3")
    case False
    with r early show ?thesis by (auto split: if_splits)
  next
    case True
    with early have s3: "starting alive s3" "aliveO alive (pcCmd s3)" "pagesIdle s3" "pcHCA s3 \<noteq> None"
      "pcFwPages s3 \<noteq> None" by blast+
    note f4 = fwInit_spec [OF ka 4 s3(4)]
    note s4 = starting_handshake [OF s3(1) conjunct1 [OF f4] s3(2,3)]
    show ?thesis
    proof (cases o4)
      case False
      with r True s4 show ?thesis by auto
    next
      case o4: True
      have p4: "pcFwPages s4 \<noteq> None" "pcHCA s4 \<noteq> None" using f4 s3 by (auto simp: handshake_def)
      obtain u w where u: "s5 = s4\<lparr>pcUAR := u, pcCmd := w\<rparr>" "aliveO alive w" "o5 \<longrightarrow> u \<noteq> None"
        using bringUar_spec [OF ka 5] s4 by (elim exE conjE) (rule that, blast+)
      have s5: "starting alive s5" using s4 u by (auto simp: starting_def pciWf_def)
      show ?thesis
      proof (cases o5)
        case False
        with r True o4 s5 show ?thesis by auto
      next
        case o5: True
        obtain fp where fp: "pcFwPages s5 = Some fp" "\<not> fpRuntimeStarted fp"
          using p4 s4 u(1) by (auto simp: pagesIdle_def)
        from r True o4 o5 obtain o6 s6 where 6: "bringEq ci env s5 = Some (o6, s6)"
          by (cases "bringEq ci env s5") auto
        from bringEq_spec [OF ka 6 fp] obtain e w6 f b where
          s6: "s6 = s5\<lparr>pcEQ := e, pcCmd := w6, pcFwPages := Some f, pcRuntime := b\<rparr>"
            "aliveO alive (pcCmd s5) \<longrightarrow> aliveO alive w6" "fpRuntimeStarted f \<longrightarrow> b"
            "o6 \<longrightarrow> b \<and> (\<exists>eq. e = Some eq \<and> eqsLive eq)"
          unfolding eqStage_def by (elim exE conjE) (rule that)
        have w6: "aliveO alive w6" using s6(2) u(1,2) by simp
        have st6: "starting alive s6" using s5 s6 w6 by (auto simp: starting_def pciWf_def)
        show ?thesis
        proof (cases o6)
          case False
          with r True o4 o5 6 st6 show ?thesis by auto
        next
          case o6: True
          obtain h where h: "s7 s6 = s6\<lparr>pcHealth := h\<rparr>" "o7 s6 \<longrightarrow> h \<noteq> None"
            using bringHealth_frame [OF 7 [of s6]] that by blast
          have st7: "starting alive (s7 s6)" using st6 by (auto simp: h(1) starting_def pciWf_def)
          obtain d where d: "s8 (s7 s6) = (s7 s6)\<lparr>pcDMA := d\<rparr>" "o8 (s7 s6) \<longrightarrow> d \<noteq> None"
            using bringDma_frame [OF 8 [of "s7 s6"]] that by blast
          have st8: "starting alive (s8 (s7 s6))" using st7 by (auto simp: d(1) starting_def pciWf_def)
          show ?thesis
          proof (cases "o7 s6 \<and> o8 (s7 s6)")
            case False
            with r True o4 o5 6 o6 st7 st8 show ?thesis by (auto split: if_splits)
          next
            case o8: True
            let ?s8 = "s8 (s7 s6)"
            from r True o4 o5 6 o6 o8 have st': "ok" "st' = snd (publishNubs unsafe ?s8)"
              by (auto simp: publishNubs_def)
            have k: "pcHcaEnabled ?s8" "pcHcaInit ?s8" "pcRuntime ?s8" "aliveO alive (pcCmd ?s8)"
              "\<exists>h. pcHCA ?s8 = Some h \<and> capsUsable (hcaCaps h)" "pcFwPages ?s8 \<noteq> None" "pcUAR ?s8 \<noteq> None"
              "\<exists>eq. pcEQ ?s8 = Some eq \<and> eqsLive eq" "pcHealth ?s8 \<noteq> None" "pcDMA ?s8 \<noteq> None"
              using f4 o4 p4 u o5 s6 o6 w6 h d o8 by (auto simp: pcCaps_def)
            show ?thesis
              using st8 k st' by (auto simp: publishNubs_def driverUp_def starting_def pciWf_def pcCaps_def
                rocePublicationAllowed_def)
          qed
        qed
      qed
    qed
  qed
qed

section \<open>The two properties\<close>

text \<open>C27: The outcome of \<open>start\<close>, for every answer of IOKit and the firmware. On success
  every object exists, the HCA was enabled and initialised, the capabilities are usable, all
  four event queues are live with their interrupts set up, the service is registered, RoCE is
  published only in a build with the unsafe flag on a device that has it, and Ethernet only on
  an Ethernet port with offloads and flow tables. On failure nothing is published or registered
  and, if the device had been taken, \<open>cleanup\<close> ran and bus mastering is off.\<close>

theorem pci_start_all_or_nothing:
  assumes "keepsAlive ci alive" and "\<forall>w. peCmd env = Some (True, w) \<longrightarrow> alive w"
    and "pciStart unsafe ci env pciInit = Some (ok, st')"
  shows "pciWf alive st' \<and>
    (if ok then driverUp unsafe alive st' \<and> pcRegistered st' \<and> \<not> pcStopping st'
     else \<not> pcRegistered st' \<and> \<not> pcRdma st' \<and> \<not> pcEth st' \<and> pcDevName st' = None \<and>
       (if peSuper env \<and> pePci env then pcStopping st' \<and> \<not> pcBusMaster st' else st' = pciInit))"
proof (cases "peSuper env \<and> pePci env")
  case False
  with assms(3) have "st' = pciInit" "\<not> ok" by (auto simp: pciStart_def)
  with False show ?thesis by (auto simp: pciWf_def pciInit_def)
next
  case True
  with assms(3) obtain b s where b: "bringUp unsafe ci env (taken env) = Some (b, s)"
    by (cases "bringUp unsafe ci env (taken env)") (auto simp: pciStart_def taken_def)
  note spec = bringUp_spec [OF assms(1,2) b]
  show ?thesis
  proof (cases b)
    case True
    with assms(3) b \<open>peSuper env \<and> pePci env\<close> have "ok" "st' = s\<lparr>pcRegistered := True\<rparr>"
      by (auto simp: pciStart_def taken_def)
    with spec True show ?thesis by (simp add: driverUp_def pciWf_def pcCaps_def)
  next
    case False
    with spec have s: "starting alive s" by simp
    from assms(3) b False True have c: "\<not> ok" "cleanup ci env s = Some st'"
      by (auto simp: pciStart_def taken_def)
    from s c(2) obtain ed tok mid where q: "quiesce ci env s = Some (ed, tok, mid)"
      by (cases "quiesce ci env s") (auto simp: starting_def cleanup_def)
    from pci_cleanup_spec [OF assms(1) _ _ q] s c True show ?thesis by (auto simp: starting_def)
  qed
qed

text \<open>C28: The DMA boundary of \<open>cleanup\<close>. Whatever the firmware answers, \<open>cleanup\<close> stops the
  health timer and turns bus mastering off. It releases the memory the device can reach only
  behind a boundary it can trust: the command register shows bus mastering off, every event
  queue was destroyed, the teardown and disable commands succeeded, neither the driver nor the
  command interface is quarantined and no page is still with the firmware; then everything is
  released, the HCA is off, and no ring, page, doorbell record or DMA request is left behind.
  Otherwise every such object stays as it was. A second call does nothing.\<close>

theorem cleanup_trusted_boundary:
  assumes "keepsAlive ci alive" and "pciWf alive st" and "\<not> pcStopping st"
    and "quiesce ci env st = Some (ed, tok, mid)"
  shows "\<exists>st' fr. cleanup ci env st = Some st' \<and> cleanup ci env' st' = Some st' \<and> pcHealth st' = None \<and>
    (pcPci st \<longrightarrow> \<not> pcBusMaster st') \<and> pcFreed st' = pcFreed (stopHealth st) @ fr \<and>
    (if ed \<and> tok \<and> \<not> pcQuarantine mid \<and> \<not> pcCmdQuar ci mid \<and> \<not> pcOutstanding mid \<and>
        (pcPci mid \<longrightarrow> peCommand env AND 4 = 0)
     then pciReleased st' \<and> \<not> pcHcaInit st' \<and> \<not> pcHcaEnabled st' \<and> eqsInvalid mid \<and>
       (\<forall>x \<in> set fr. freedClean x)
     else pcMem st' = pcMem st \<and> fr = [] \<and> pcFwPages st' = pcFwPages mid)"
proof -
  from pci_cleanup_spec [OF assms] obtain st' fr where
    c: "cleanup ci env st = Some st'" "pcStopping st'" "pcHealth st' = None"
      "pcPci st \<longrightarrow> \<not> pcBusMaster st'" "pcFreed st' = pcFreed (stopHealth st) @ fr"
      "if boundaryTrusted ci env ed tok mid
       then pciReleased st' \<and> \<not> pcHcaInit st' \<and> \<not> pcHcaEnabled st' \<and> eqsInvalid mid \<and>
         \<not> pcOutstanding mid \<and> (\<forall>x \<in> set fr. freedClean x)
       else pcMem st' = pcMem st \<and> fr = [] \<and> pcFwPages st' = pcFwPages mid"
    by (elim exE conjE) (rule that)
  have "boundaryTrusted ci env ed tok mid \<longleftrightarrow> ed \<and> tok \<and> \<not> pcQuarantine mid \<and> \<not> pcCmdQuar ci mid \<and>
      \<not> pcOutstanding mid \<and> (pcPci mid \<longrightarrow> peCommand env AND 4 = 0)"
    by (auto simp: boundaryTrusted_def gracefulBoundary_def)
  moreover have "cleanup ci env' st' = Some st'" using c(2) by (simp add: cleanup_def)
  ultimately show ?thesis using c by (intro exI [of _ st'] exI [of _ fr]) (auto split: if_splits)
qed

section \<open>A run\<close>

text \<open>A device that answers every command, and everything IOKit is asked for.\<close>

definition replyByte :: "u32 \<Rightarrow> u8" where
  "replyByte opcode = (if opcode = MLX_CMD_OP_QUERY_HCA_CAP then 0x11 else 0)"

definition pciSampleIfc :: "u32 list cmdIfc" where
  "pciSampleIfc = \<lparr>ciExec = (\<lambda>w opcode inb m t. (kIOReturnSuccess, replicate m (replyByte opcode), w @ [opcode])),
     ciUp = (\<lambda>_. True), ciQuar = (\<lambda>_. False), ciRev = (\<lambda>_. 5)\<rparr>"

definition sampleEqBuf :: eqBufEnv where
  "sampleEqBuf = \<lparr>ebDesc = True, ebMap = True,
     ebSegments = (\<lambda>round. (kIOReturnSuccess, [(0x10000, 0x1000)], (of_nat round + 1) * 0x1000))\<rparr>"

definition pciSampleEnv :: "u16 \<Rightarrow> u16 \<Rightarrow> u32 list pciEnv" where
  "pciSampleEnv deviceId command = \<lparr>peSuper = True, pePci = True, peDevIdx = 0, peVendorId = 0x15b3,
     peDeviceId = deviceId, peRevision = 0, peBar = True, peBarAddr = 0, pePageShift = 14,
     peCmd = Some (True, []), peFw = Some (True, True, True), peInitializing = (\<lambda>i. if i < 3 then 0x80000000 else 0),
     peFwRev = 0, peSetCaps = True, peCapBufs = True, peQueryOut = (\<lambda>_. True),
     peFwEnv = \<lparr>fwPage = (\<lambda>_. PageNoMemory), fwMem = (\<lambda>_. True)\<rparr>, peUar = Some True, peUarDesc = True,
     peUarMap = Some 0x100000, peUarRecord = True, peDbMem = True, peDbMap = (kIOReturnSuccess, 0x200000),
     peIrqConf = kIOReturnSuccess, peIrqType = (\<lambda>_. (kIOReturnSuccess, 0x20000)), peEq = Some (True, True, True),
     peEqAsync = (\<lambda>_. sampleEqBuf), peEqComp = (\<lambda>_. sampleEqBuf),
     peIntr = \<lparr>ieAsync = True, ieAsyncAdd = True, ieCompArr = True, ieComp = (\<lambda>_. True), ieCompAdd = (\<lambda>_. True)\<rparr>,
     peHealth = Some True, peHealthWl = True, peHealthTimer = True, peHealthEvent = True, peHealthCounter = 0,
     peDma = Some True, peCommand = command\<rparr>"

lemma sample_alive: "keepsAlive pciSampleIfc (\<lambda>_. True)"
  by (simp add: keepsAlive_def pciSampleIfc_def)

lemma pcX_sample: "pcX pciSampleIfc (Some w) opcode inb m t =
    (kIOReturnSuccess, replicate m (replyByte opcode), Some (w @ [opcode]))"
  by (simp add: pcX_def pciSampleIfc_def)

abbreviation idlePages :: MlxFwPages where
  "idlePages \<equiv> snd (fwPagesInit True True True False)"

lemma pciSample_exec: "pcCmd st = Some w \<Longrightarrow> pciExec pciSampleIfc opc inb m t st =
    (kIOReturnSuccess, replicate m (replyByte opc), st\<lparr>pcCmd := Some (w @ [opc])\<rparr>)"
  by (simp add: pciExec_def pcX_sample)

lemma pciSample_reply: "replyByte MLX_CMD_OP_QUERY_ISSI = 0" "replyByte MLX_CMD_OP_QUERY_PAGES = 0" "replyByte MLX_CMD_OP_QUERY_HCA_CAP = 0x11"
  "replyByte MLX_CMD_OP_ALLOC_UAR = 0" "replyByte MLX_CMD_OP_CREATE_EQ = 0" "replyByte MLX_CMD_OP_DESTROY_EQ = 0"
  by (simp_all add: replyByte_def MLX_CMD_OP_QUERY_ISSI_def MLX_CMD_OP_QUERY_PAGES_def MLX_CMD_OP_QUERY_HCA_CAP_def
   MLX_CMD_OP_ALLOC_UAR_def MLX_CMD_OP_CREATE_EQ_def MLX_CMD_OP_DESTROY_EQ_def)

lemma pciSample_query: "pcCmd st = Some w \<Longrightarrow> queryHcaCap pciSampleIfc True ty mo st =
   (Some (replicate 4096 0x11), st\<lparr>pcCmd := Some (w @ [MLX_CMD_OP_QUERY_HCA_CAP])\<rparr>)"
  by (simp add: queryHcaCap_def pciSample_exec pciSample_reply p1_const_defs Let_def)


lemma pciSample_parse: "\<exists>c. mlxP1ParseGeneralCaps (Some (replicate 4096 0x11)) 4096 = Some c \<and>
   logMaxQp c = 17 \<and> logMaxCq c = 17 \<and> logMaxMkey c = 17 \<and> numPorts c = 17 \<and> \<not> roce c \<and> \<not> nicFlowTable c"
  by (simp add: mlxP1ParseGeneralCaps_def p1_const_defs mlxGetBits_def getBitsStep_def upt_rec nth_replicate)

lemma pciSample_pages: "satisfyStartupPages (pcX pciSampleIfc) fe kMlxFwPageBoot fp (Some w) = (kIOReturnSuccess, fp, Some (w @ [MLX_CMD_OP_QUERY_PAGES]))"
  "satisfyStartupPages (pcX pciSampleIfc) fe kMlxFwPageInit fp (Some w) = (kIOReturnSuccess, fp, Some (w @ [MLX_CMD_OP_QUERY_PAGES]))"
  by (simp_all add: satisfyStartupPages_def queryPages_def mlxP1EncodeQueryPages_def phaseCode_def pcX_sample pciSample_reply)

lemma pciSample_optional: "pcCmd st = Some w \<Longrightarrow> \<exists>c w'. optionalCap pciSampleIfc wanted True ty parse st = (c, st\<lparr>pcCmd := Some w'\<rparr>)"
  by (cases wanted) (auto simp: optionalCap_def pciSample_query intro: exI [of _ w])

lemma pciSample_caps:
  assumes "pcCmd st = Some w"
  shows "\<exists>h w'. queryHcaCaps pciSampleIfc (pciSampleEnv d c) st = (True, st\<lparr>pcCmd := Some w', pcHCA := h\<rparr>)"
proof -
  obtain p where p: "mlxP1ParseGeneralCaps (Some (replicate 4096 0x11)) 4096 = Some p" "logMaxQp p = 17"
    "logMaxCq p = 17" "logMaxMkey p = 17" "numPorts p = 17" using pciSample_parse by blast
  let ?s1 = "st\<lparr>pcCmd := Some (w @ [MLX_CMD_OP_QUERY_HCA_CAP])\<rparr>"
  obtain ro w2 where 2: "optionalCap pciSampleIfc (roce p) True MLX_P1_CAP_ROCE mlxP1ParseRoceCaps ?s1 =
      (ro, ?s1\<lparr>pcCmd := Some w2\<rparr>)" using pciSample_optional [of ?s1] by fastforce
  obtain fl w3 where 3: "optionalCap pciSampleIfc (nicFlowTable p) True MLX_P1_CAP_FLOW_TABLE mlxP1ParseFlowCaps
      (?s1\<lparr>pcCmd := Some w2\<rparr>) = (fl, ?s1\<lparr>pcCmd := Some w3\<rparr>)" using pciSample_optional [of "?s1\<lparr>pcCmd := Some w2\<rparr>"] by fastforce
  obtain et w4 where 4: "optionalCap pciSampleIfc (ethNetOffloads p) True MLX_P1_CAP_ETHERNET_OFFLOADS
      mlxP1ParseEthernetCaps (?s1\<lparr>pcCmd := Some w3\<rparr>) = (et, ?s1\<lparr>pcCmd := Some w4\<rparr>)"
    using pciSample_optional [of "?s1\<lparr>pcCmd := Some w3\<rparr>"] by fastforce
  show ?thesis
    using assms 2 3 4 p
    by (auto simp: queryHcaCaps_def pciSampleEnv_def pciSample_query Let_def capsOf_def mlxP1LogResourceSize_def p1_const_defs(1)
      intro!: exI)
qed

lemma pciSample_fwInit:
  assumes "pcCmd st = Some w" "pcFwPages st = Some fp"
  shows "\<exists>w' h i. fwInit pciSampleIfc (pciSampleEnv d c) st = (True, st\<lparr>pcCmd := Some w', pcIssi := i, pcHcaEnabled := True,
     pcHcaInit := True, pcHCA := h\<rparr>)"
proof -
  have r: "firmwareReady (peInitializing (pciSampleEnv d c))"
    by (simp add: firmwareReady_def pciSampleEnv_def list_ex_iff) (rule bexI [of _ 3], simp_all)
  let ?env = "pciSampleEnv d c"
  have e: "peFwEnv ?env = peFwEnv ?env" "peSetCaps ?env" "peQueryOut ?env = (\<lambda>_. True)" by (simp_all add: pciSampleEnv_def)
  have 1: "enableHca pciSampleIfc st = (True, st\<lparr>pcCmd := Some (w @ [MLX_CMD_OP_ENABLE_HCA])\<rparr>)"
    using assms(1) by (simp add: enableHca_def pciSample_exec)
  have 2: "\<exists>w'. setIssi pciSampleIfc s = (True, s\<lparr>pcCmd := Some w', pcIssi := 0\<rparr>)" if "pcCmd s = Some v" for s v
    using that by (auto simp: setIssi_def pciSample_exec pciSample_reply)
  have 3: "\<exists>w'. pcStartupPages pciSampleIfc ?env ph s = (True, s\<lparr>pcCmd := Some w'\<rparr>)"
    if "pcCmd s = Some v" "pcFwPages s = Some f" "ph = kMlxFwPageBoot \<or> ph = kMlxFwPageInit" for s v f ph
  proof -
    have eq: "s\<lparr>pcFwPages := Some f\<rparr> = s" using that(2) by (cases s) simp
    have "pcStartupPages pciSampleIfc ?env ph s =
        (True, (s\<lparr>pcFwPages := Some f\<rparr>)\<lparr>pcCmd := Some (v @ [MLX_CMD_OP_QUERY_PAGES])\<rparr>)"
      using that by (auto simp: pcStartupPages_def pciSample_pages)
    then show ?thesis unfolding eq by blast
  qed
  have 4: "\<exists>w'. setHcaCaps pciSampleIfc ?env s = (True, s\<lparr>pcCmd := Some w'\<rparr>)" if "pcCmd s = Some v" for s v
    using that by (auto simp: setHcaCaps_def e pciSample_query pciSample_exec)
  have 5: "\<exists>w'. initHca pciSampleIfc s = (True, s\<lparr>pcCmd := Some w'\<rparr>)" if "pcCmd s = Some v" for s v
    using that by (auto simp: initHca_def pciSample_exec)
  let ?a = "st\<lparr>pcCmd := Some (w @ [MLX_CMD_OP_ENABLE_HCA]), pcHcaEnabled := True\<rparr>"
  obtain w2 where s2: "setIssi pciSampleIfc ?a = (True, ?a\<lparr>pcCmd := Some w2, pcIssi := 0\<rparr>)" using 2 [of ?a] by auto
  let ?b = "?a\<lparr>pcIssi := 0\<rparr>"
  obtain w3 where s3: "pcStartupPages pciSampleIfc ?env kMlxFwPageBoot (?a\<lparr>pcCmd := Some w2, pcIssi := 0\<rparr>) =
      (True, ?b\<lparr>pcCmd := Some w3\<rparr>)" using 3 [of "?a\<lparr>pcCmd := Some w2, pcIssi := 0\<rparr>" w2 fp kMlxFwPageBoot] assms by auto
  obtain w4 where s4: "setHcaCaps pciSampleIfc ?env (?b\<lparr>pcCmd := Some w3\<rparr>) = (True, ?b\<lparr>pcCmd := Some w4\<rparr>)"
    using 4 [of "?b\<lparr>pcCmd := Some w3\<rparr>"] by auto
  obtain w5 where s5: "pcStartupPages pciSampleIfc ?env kMlxFwPageInit (?b\<lparr>pcCmd := Some w4\<rparr>) =
      (True, ?b\<lparr>pcCmd := Some w5\<rparr>)" using 3 [of "?b\<lparr>pcCmd := Some w4\<rparr>" w4 fp kMlxFwPageInit] assms by auto
  obtain w6 where s6: "initHca pciSampleIfc (?b\<lparr>pcCmd := Some w5\<rparr>) = (True, ?b\<lparr>pcCmd := Some w6\<rparr>)"
    using 5 [of "?b\<lparr>pcCmd := Some w5\<rparr>"] by auto
  obtain w7 h where s7: "queryHcaCaps pciSampleIfc ?env (?b\<lparr>pcCmd := Some w6, pcHcaInit := True\<rparr>) =
      (True, ?b\<lparr>pcHcaInit := True, pcCmd := Some w7, pcHCA := h\<rparr>)"
    using pciSample_caps [of "?b\<lparr>pcCmd := Some w6, pcHcaInit := True\<rparr>" w6 d c] by auto
  have "fwInit pciSampleIfc ?env st = (True, ?b\<lparr>pcHcaInit := True, pcCmd := Some w7, pcHCA := h\<rparr>)"
    using s2 s3 s4 s5 s6 s7 by (simp add: fwInit_def r 1)
  then show ?thesis by (intro exI [of _ w7] exI [of _ h] exI [of _ 0]) simp
qed


lemma pciSample_segPages: "0 < n \<Longrightarrow> segPages n [(0x10000, 0x1000)] = [0x10000]"
  by (cases n; cases "n - 1") simp_all

lemma pciSample_segs:
  "\<exists>p. eqSegLoop (ebSegments sampleEqBuf) 0x4000 0 0 [] = Some (0x4000, p) \<and> p \<noteq> []"
  "\<exists>p. eqSegLoop (ebSegments sampleEqBuf) 0x2000 0 0 [] = Some (0x2000, p) \<and> p \<noteq> []"
  "\<exists>p. eqSegLoop (ebSegments sampleEqBuf) 0x10000 0 0 [] = Some (0x10000, p) \<and> p \<noteq> []"
  by ((subst eqSegLoop.simps, simp add: sampleEqBuf_def MLX_MAX_EQ_PAGES_def pciSample_segPages cong: if_weak_cong)+)

lemma pciSample_buf: "lg \<in> {7, 8, 10} \<Longrightarrow> eq_logSize eq = lg \<Longrightarrow> \<exists>eq'. allocEqBuf sampleEqBuf eq = Some (kIOReturnSuccess, eq')"
  using pciSample_segs by (elim insertE emptyE) (auto simp: allocEqBuf_def eqSizeBytes_def sampleEqBuf_def Let_def)

lemma pciSample_createEq: "lg \<in> {7, 8, 10} \<Longrightarrow> \<exists>q w'. createEq (pcX pciSampleIfc) sampleEqBuf page (e\<lparr>eq_logSize := lg\<rparr>) vec m (Some w) =
    Some (kIOReturnSuccess, q, Some w')"
  using pciSample_buf [of lg "e\<lparr>eq_logSize := lg\<rparr>"] by (auto simp: createEq_def pcX_sample)

lemma pciSample_createEqs: "\<forall>p \<in> set plan. fst (snd p) \<in> {7, 8, 10} \<Longrightarrow>
    \<exists>es w'. createEqs (pcX pciSampleIfc) (\<lambda>_. sampleEqBuf) page plan eqs (Some w) = Some (kIOReturnSuccess, es, Some w')"
proof (induction plan arbitrary: eqs w)
  case (Cons p plan)
  obtain i lg vec m where p: "p = (i, lg, vec, m)" by (metis prod_cases4)
  with Cons.prems pciSample_createEq [of lg page "eqs ! i" vec m w] obtain q v where
    c: "createEq (pcX pciSampleIfc) sampleEqBuf page ((eqs ! i)\<lparr>eq_logSize := lg\<rparr>) vec m (Some w) =
      Some (kIOReturnSuccess, q, Some v)" by auto
  from Cons.IH [of "eqs[i := q]" v] Cons.prems show ?case by (simp add: p c)
qed simp

lemma pciSample_bringEq:
  assumes "pcCmd st = Some w" "pcFwPages st = Some idlePages" shows "\<exists>s. bringEq pciSampleIfc (pciSampleEnv d c) st = Some (True, s)"
proof -
  let ?env = "pciSampleEnv d c"
  obtain eq0 where 0: "eqInit True True True 1 = (True, eq0)" "eqWorkLoop eq0" by (simp add: eqInit_def Let_def)
  have a: "\<forall>p \<in> set asyncPlan. fst (snd p) \<in> {7, 8, 10}" "\<forall>p \<in> set (compPlan n). fst (snd p) \<in> {7, 8, 10}" for n
    by (auto simp: asyncPlan_def compPlan_def)
  obtain es w1 where 1: "createAsyncEqs (pcX pciSampleIfc) (\<lambda>_. sampleEqBuf) (bootUarIndex st) eq0 (Some w) =
      Some (kIOReturnSuccess, eq0\<lparr>eqAsync := es\<rparr>, Some w1)"
    using pciSample_createEqs [OF a(1), of "bootUarIndex st" "eqAsync eq0" w] by (auto simp: createAsyncEqs_def)
  obtain cs w2 where 2: "createCompEqs (pcX pciSampleIfc) (\<lambda>_. sampleEqBuf) (bootUarIndex st) (eq0\<lparr>eqAsync := es\<rparr>) (Some w1) =
      Some (kIOReturnSuccess, eq0\<lparr>eqAsync := es, eqComp := cs\<rparr>, Some w2)"
    using pciSample_createEqs [OF a(2) [of "length (eqComp eq0)"], of "bootUarIndex st" "eqComp eq0" w1] by (auto simp: createCompEqs_def)
  have s: "setupComp (peIntr ?env) i n is = (kIOReturnSuccess, snd (setupComp (peIntr ?env) i n is))" for i n "is"
    by (induction n arbitrary: i "is") (simp_all add: pciSampleEnv_def)
  have 3: "\<exists>e' db. setupInterrupts (peIntr ?env) m e = (kIOReturnSuccess, e', db)" if "eqWorkLoop e" for e m
    using s that by (auto simp: setupInterrupts_def Let_def split: prod.splits) (simp_all add: pciSampleEnv_def, metis prod.inject)
  have e: "peEq ?env = Some (True, True, True)" "peEqAsync ?env = (\<lambda>_. sampleEqBuf)" "peEqComp ?env = (\<lambda>_. sampleEqBuf)"
    by (simp_all add: pciSampleEnv_def)
  have i: "interruptsOk ?env" by (simp add: interruptsOk_def pciSampleEnv_def kIOInterruptTypePCIMessagedX_def)
  have r: "startRuntime True idlePages = (kIOReturnSuccess, snd (startRuntime True idlePages))"
    by (simp add: startRuntime_def fwPagesInit_def)
  have w: "eqWorkLoop (registerNotifier ty k (eq0\<lparr>eqAsync := es, eqComp := cs\<rparr>))" for ty k
    using 0(2) by (simp add: registerNotifier_def Let_def)
  show ?thesis
    using assms 0 1 2 i r w 3 [of "registerNotifier (unat MLX_EVENT_TYPE_PAGE_REQUEST) fwPagesNotifier (eq0\<lparr>eqAsync := es, eqComp := cs\<rparr>)"]
    by (auto simp: bringEq_def e pcStartRuntime_def bringInterrupts_def Let_def split: prod.splits) (metis prod.inject)
qed

lemma pciSample_up: "\<exists>st. bringUp unsafe pciSampleIfc (pciSampleEnv 0x1017 c) (taken (pciSampleEnv 0x1017 c)) = Some (True, st)"
proof -
  let ?env = "pciSampleEnv 0x1017 c"
  obtain s1 where 1: "bringHca ?env (taken ?env) = (True, s1)"
    by (simp add: bringHca_def pciSampleEnv_def taken_def pciInit_def hcaCreate_def createCx4_def createCx5_def)
  have 2: "bringCmd ?env s1 = (True, s1\<lparr>pcCmd := Some []\<rparr>)" by (simp add: bringCmd_def pciSampleEnv_def)
  have 3: "bringFwPages pciSampleIfc ?env (s1\<lparr>pcCmd := Some []\<rparr>) = (True, s1\<lparr>pcCmd := Some [], pcFwPages := Some idlePages\<rparr>)"
    by (simp add: bringFwPages_def pciSampleEnv_def fwPagesInit_def)
  let ?s3 = "s1\<lparr>pcCmd := Some [], pcFwPages := Some idlePages\<rparr>"
  obtain w4 h4 i4 where 4: "fwInit pciSampleIfc ?env ?s3 = (True, ?s3\<lparr>pcCmd := Some w4, pcIssi := i4, pcHcaEnabled := True,
     pcHcaInit := True, pcHCA := h4\<rparr>)" using pciSample_fwInit [of ?s3 "[]" idlePages] by fastforce
  define s4 where "s4 = ?s3\<lparr>pcCmd := Some w4, pcIssi := i4, pcHcaEnabled := True, pcHcaInit := True, pcHCA := h4\<rparr>"
  have s4: "pcCmd s4 = Some w4" "pcFwPages s4 = Some idlePages" by (simp_all add: s4_def)
  have "\<exists>s. bringUar pciSampleIfc ?env s4 = (True, s)"
    by (simp add: bringUar_def pciSampleEnv_def s4 uarInit_def allocUar_def cmdAllocUar_def pcX_sample pciSample_reply allocDbRecord_def
       Let_def)
  then obtain s5 where 5: "bringUar pciSampleIfc ?env s4 = (True, s5)" by blast
  from bringUar_spec [OF sample_alive 5] obtain u w where
    u: "s5 = s4\<lparr>pcUAR := u, pcCmd := w\<rparr>" "aliveO (\<lambda>_. True) w" using s4 by (auto simp: aliveO_def)
  then obtain w5 where w5: "w = Some w5" by (auto simp: aliveO_def split: option.splits)
  have s5: "pcCmd s5 = Some w5" "pcFwPages s5 = Some idlePages" by (simp_all add: u w5 s4)
  have 6: "\<exists>s. bringEq pciSampleIfc ?env s5 = Some (True, s)"
    using pciSample_bringEq [OF s5] .
  then obtain s6 where 6: "bringEq pciSampleIfc ?env s5 = Some (True, s6)" by blast
  have 7: "\<exists>s. bringHealth ?env s6 = (True, s)" by (simp add: bringHealth_def pciSampleEnv_def start_def healthInit_def Let_def)
  then obtain s7 where 7: "bringHealth ?env s6 = (True, s7)" by blast
  have 8: "\<exists>s. bringDma ?env s7 = (True, s)" by (simp add: bringDma_def pciSampleEnv_def)
  then obtain s8 where 8: "bringDma ?env s7 = (True, s8)" by blast
  show ?thesis
    by (simp only: bringUp_def 1 2 3 4 [folded s4_def] 5 6 7 8 prod.case option.case not_True_eq_False if_False)
      (simp add: publishNubs_def)
qed

theorem pci_start_all_or_nothing_witness:
  "(\<exists>st'. pciStart False pciSampleIfc (pciSampleEnv 0x1017 2) pciInit = Some (True, st') \<and>
     driverUp False (\<lambda>_. True) st' \<and> \<not> pcRdma st') \<and>
   (\<exists>st'. pciStart False pciSampleIfc (pciSampleEnv 0x1234 2) pciInit = Some (False, st') \<and> \<not> pcBusMaster st')"
proof (intro conjI)
  have al: "\<forall>w. peCmd (pciSampleEnv d c) = Some (True, w) \<longrightarrow> (\<lambda>_. True) w" for d c by simp
  obtain st where "bringUp False pciSampleIfc (pciSampleEnv 0x1017 2) (taken (pciSampleEnv 0x1017 2)) = Some (True, st)"
    using pciSample_up by blast
  then have s: "pciStart False pciSampleIfc (pciSampleEnv 0x1017 2) pciInit = Some (True, st\<lparr>pcRegistered := True\<rparr>)"
    by (simp add: pciStart_def taken_def) (simp add: pciSampleEnv_def)
  from pci_start_all_or_nothing [OF sample_alive al s]
  show "\<exists>st'. pciStart False pciSampleIfc (pciSampleEnv 0x1017 2) pciInit = Some (True, st') \<and>
      driverUp False (\<lambda>_. True) st' \<and> \<not> pcRdma st'"
    using s by (intro exI [of _ "st\<lparr>pcRegistered := True\<rparr>"]) (auto simp: driverUp_def)
  have "\<exists>st'. pciStart False pciSampleIfc (pciSampleEnv 0x1234 2) pciInit = Some (False, st')"
    by (simp add: pciStart_def bringUp_def bringHca_def pciSampleEnv_def hcaCreate_def createCx4_def createCx5_def
      createCx6_def createCx7_def cleanup_def quiesce_def stopHealth_def stopPages_def destroyEqs_def teardownStep_def
      reclaimStep_def disableStep_def disableBusMasterAndVerify_def releaseFwPages_def pciInit_def Let_def)
  then obtain st' where f: "pciStart False pciSampleIfc (pciSampleEnv 0x1234 2) pciInit = Some (False, st')" by blast
  from pci_start_all_or_nothing [OF sample_alive al f]
  have "\<not> pcBusMaster st'" by (simp add: pciSampleEnv_def)
  with f show "\<exists>st'. pciStart False pciSampleIfc (pciSampleEnv 0x1234 2) pciInit = Some (False, st') \<and> \<not> pcBusMaster st'"
    by blast
qed

definition pciSampleDriver :: "u32 list MlxPCIDriver" where
  "pciSampleDriver = pciInit\<lparr>pcPci := True, pcBar0 := True, pcCmd := Some [], pcBusMaster := True,
     pcEQ := Some ((snd (eqInit True True True 1))\<lparr>eqComp := [zeroEntry\<lparr>eq_valid := True, eq_fDesc := True,
       eq_eqNumber := 7\<rparr>]\<rparr>), pcUAR := Some ((uarInit True)\<lparr>fBootUarValid := True\<rparr>), pcHealth := Some healthInit,
     pcDMA := Some dmaEmpty, pcFwPages := Some idlePages, pcHcaEnabled := True, pcHcaInit := True\<rparr>"

theorem cleanup_trusted_boundary_witness:
  "(\<exists>st'. cleanup pciSampleIfc (pciSampleEnv 0x1017 2) pciSampleDriver = Some st' \<and> pciReleased st' \<and>
     \<not> pcHcaEnabled st') \<and>
   (\<exists>st'. cleanup pciSampleIfc (pciSampleEnv 0x1017 6) pciSampleDriver = Some st' \<and>
     pcMem st' = pcMem pciSampleDriver \<and> \<not> pcBusMaster st')"
proof -
  have wf: "pciWf (\<lambda>_. True) pciSampleDriver"
    by (simp add: pciWf_def pciSampleDriver_def pciInit_def aliveO_def fwPagesInit_def)
  have st: "\<not> pcStopping pciSampleDriver" "pcPci pciSampleDriver" by (simp_all add: pciSampleDriver_def pciInit_def)
  have "\<exists>ed tok mid. quiesce pciSampleIfc (pciSampleEnv 0x1017 c) pciSampleDriver = Some (ed, tok, mid) \<and> ed \<and> tok \<and>
      \<not> pcQuarantine mid \<and> \<not> pcCmdQuar pciSampleIfc mid \<and> \<not> pcOutstanding mid \<and> pcPci mid" for c
    by (simp add: quiesce_def Let_def stopHealth_def stopPages_def pciSampleDriver_def pciInit_def destroyEqs_def
      shutdown_def disableInterrupts_def eqInit_def destroyEq_def zeroEntry_def pcX_sample pcCmdUp_def pcCmdQuar_def
      pciSampleIfc_def [THEN arg_cong [of _ _ ciUp]] pciSampleIfc_def [THEN arg_cong [of _ _ ciQuar]]
      teardownStep_def teardownHca_def pciExec_def reclaimStep_def hasOutstandingPages_def fwPagesInit_def
      disableStep_def disableHca_def pcOutstanding_def destroyAll_invalid) auto
  then have run: "\<exists>ed tok mid st' fr. cleanup pciSampleIfc (pciSampleEnv 0x1017 c) pciSampleDriver = Some st' \<and>
      \<not> pcBusMaster st' \<and>
      (if c AND 4 = 0 then pciReleased st' \<and> \<not> pcHcaEnabled st' else pcMem st' = pcMem pciSampleDriver)" for c
    using cleanup_trusted_boundary [OF sample_alive wf st(1), of "pciSampleEnv 0x1017 c"] st(2) by (fastforce simp: pciSampleEnv_def)
  show ?thesis using run [of 2] run [of 6] by auto
qed

end
