(* ===== verification/MlxEth.thy ===== *)
theory MlxEth
  imports MlxHCA MlxEQ
begin

text \<open>
  \<^verbatim>\<open>Sources/netif/MlxEthernet.{hpp,cpp}\<close>: the network interface, its two rings and the firmware
  objects behind them. The members of the class are grouped by what creates and destroys them
  together: \<open>eTx\<close> (\<^verbatim>\<open>fTisn\<close>, \<^verbatim>\<open>fSqn\<close>, \<^verbatim>\<open>fTx...\<close>), \<open>eRx\<close> (\<^verbatim>\<open>fTirn\<close>, \<^verbatim>\<open>fRqn\<close>, \<^verbatim>\<open>fRx...\<close>), the
  global ids and the flow-steering ids. Memory descriptors and DMA commands are numbered; \<open>eLive\<close>
  lists the ones not yet released. What IOKit answers is the record \<open>ethEnv\<close>; firmware commands
  go through \<open>coExec\<close>. Calls of the network stack and register writes are the log \<open>eLog\<close>.
  This theory holds the data and the control path; \<open>MlxEthData\<close> the data path.
\<close>

unbundle bit_operations_syntax

section \<open>Constants\<close>

definition MLX_CMD_OP_ALLOC_TRANSPORT_DOMAIN :: u32 where "MLX_CMD_OP_ALLOC_TRANSPORT_DOMAIN = 0x816"
definition MLX_CMD_OP_DEALLOC_TRANSPORT_DOMAIN :: u32 where "MLX_CMD_OP_DEALLOC_TRANSPORT_DOMAIN = 0x817"
definition MLX_CMD_OP_CREATE_TIR :: u32 where "MLX_CMD_OP_CREATE_TIR = 0x900"
definition MLX_CMD_OP_DESTROY_TIR :: u32 where "MLX_CMD_OP_DESTROY_TIR = 0x902"
definition MLX_CMD_OP_CREATE_SQ :: u32 where "MLX_CMD_OP_CREATE_SQ = 0x904"
definition MLX_CMD_OP_MODIFY_SQ :: u32 where "MLX_CMD_OP_MODIFY_SQ = 0x905"
definition MLX_CMD_OP_DESTROY_SQ :: u32 where "MLX_CMD_OP_DESTROY_SQ = 0x906"
definition MLX_CMD_OP_CREATE_RQ :: u32 where "MLX_CMD_OP_CREATE_RQ = 0x908"
definition MLX_CMD_OP_MODIFY_RQ :: u32 where "MLX_CMD_OP_MODIFY_RQ = 0x909"
definition MLX_CMD_OP_DESTROY_RQ :: u32 where "MLX_CMD_OP_DESTROY_RQ = 0x90a"
definition MLX_CMD_OP_CREATE_TIS :: u32 where "MLX_CMD_OP_CREATE_TIS = 0x912"
definition MLX_CMD_OP_DESTROY_TIS :: u32 where "MLX_CMD_OP_DESTROY_TIS = 0x914"
definition MLX_CMD_OP_SET_FLOW_TABLE_ROOT :: u32 where "MLX_CMD_OP_SET_FLOW_TABLE_ROOT = 0x92f"
definition MLX_CMD_OP_CREATE_FLOW_TABLE :: u32 where "MLX_CMD_OP_CREATE_FLOW_TABLE = 0x930"
definition MLX_CMD_OP_DESTROY_FLOW_TABLE :: u32 where "MLX_CMD_OP_DESTROY_FLOW_TABLE = 0x931"
definition MLX_CMD_OP_CREATE_FLOW_GROUP :: u32 where "MLX_CMD_OP_CREATE_FLOW_GROUP = 0x933"
definition MLX_CMD_OP_DESTROY_FLOW_GROUP :: u32 where "MLX_CMD_OP_DESTROY_FLOW_GROUP = 0x934"
definition MLX_CMD_OP_SET_FLOW_TABLE_ENTRY :: u32 where "MLX_CMD_OP_SET_FLOW_TABLE_ENTRY = 0x936"
definition MLX_CMD_OP_DELETE_FLOW_TABLE_ENTRY :: u32 where "MLX_CMD_OP_DELETE_FLOW_TABLE_ENTRY = 0x938"

definition MLX5E_DEFAULT_LOG_SQ_SIZE :: nat where "MLX5E_DEFAULT_LOG_SQ_SIZE = 8"
definition MLX5E_DEFAULT_LOG_RQ_SIZE :: nat where "MLX5E_DEFAULT_LOG_RQ_SIZE = 8"
definition MLX5E_RX_BUF_SIZE :: nat where "MLX5E_RX_BUF_SIZE = 2048"
definition MLX5E_TX_BUF_SIZE :: nat where "MLX5E_TX_BUF_SIZE = 2048"
definition MLX5E_MAX_RX_BUFS :: nat where "MLX5E_MAX_RX_BUFS = 256"
definition MLX5E_INVALID_RESOURCE :: u32 where "MLX5E_INVALID_RESOURCE = 0xffffffff"

definition MLX_SND_DBR :: nat where "MLX_SND_DBR = 1"
definition MLX_CQ_DBR :: nat where "MLX_CQ_DBR = 0"
definition MLX_RCV_DBR :: nat where "MLX_RCV_DBR = 0"

text \<open>The two inline helpers of \<^verbatim>\<open>MlxDoorbell.hpp\<close>.\<close>

definition MlxWrite64 :: "u32 \<Rightarrow> u32 \<Rightarrow> u64" where
  "MlxWrite64 val0 val1 = push_bit 32 (ucast val1) OR ucast val0"

definition MlxSendDbValue :: "u32 \<Rightarrow> u32" where
  "MlxSendDbValue dbRecord = dbRecord"

section \<open>Data\<close>

text \<open>A descriptor, its DMA mapping and the device address: \<^verbatim>\<open>fXDesc\<close>, \<^verbatim>\<open>fXMap\<close>, \<^verbatim>\<open>fXDMA\<close>.\<close>

record ethMem =
  em_desc :: "nat option"
  em_map :: "nat option"
  em_dma :: u64

text \<open>
  \<^verbatim>\<open>MlxEthRing\<close>. \<open>ring_db\<close> is the doorbell record as a byte index into the doorbell page;
  \<open>ring_mbuf\<close> are the packets waiting for their completion, by slot.
\<close>

record MlxEthRing =
  ring_size :: u16
  ring_wqebb :: u16
  ring_head :: u16
  ring_tail :: u16
  ring_wqBuf :: "buffer option"
  ring_mem :: ethMem
  ring_db :: "nat option"
  ring_dbDMA :: u64
  ring_mbuf :: "nat option list"

record ethTxQ =
  tx_tisn :: u32
  tx_sqn :: u32
  tx_cqn :: u32
  tx_dbOffset :: u32
  tx_cqDbOffset :: u32
  tx_bf :: MlxBfreg
  tx_bfValid :: bool
  tx_cq :: ethMem            \<comment> \<open>\<^verbatim>\<open>fTxCqDesc\<close>, \<^verbatim>\<open>fTxCqMap\<close>, \<^verbatim>\<open>fTxCqDMA\<close>\<close>
  tx_cqBuf :: bool           \<comment> \<open>\<^verbatim>\<open>fTxCqBuf\<close> is not NULL\<close>
  tx_buf :: ethMem           \<comment> \<open>the bounce pool\<close>
  tx_pool :: buffer          \<comment> \<open>its bytes\<close>
  tx_pc :: u16
  tx_cc :: u16
  tx_cqCc :: u32
  tx_armSn :: u32

record ethRxQ =
  rx_tirn :: u32
  rx_rqn :: u32
  rx_cqn :: u32
  rx_dbOffset :: u32
  rx_cqDbOffset :: u32
  rx_cq :: ethMem
  rx_cqBuf :: bool
  rx_buf :: ethMem           \<comment> \<open>the receive pool; the device writes its bytes\<close>
  rx_pc :: u16
  rx_cc :: u16
  rx_cqCc :: u32
  rx_armSn :: u32

datatype ethEffect =
    FreeMbuf nat                  \<comment> \<open>\<^verbatim>\<open>mbuf_freem\<close> of a packet of the stack\<close>
  | DropRx buffer                 \<comment> \<open>\<^verbatim>\<open>mbuf_freem\<close> of a received packet\<close>
  | InputPacket buffer u32        \<comment> \<open>\<^verbatim>\<open>fNic->inputPacket\<close>\<close>
  | LinkStatus bool u64           \<comment> \<open>\<^verbatim>\<open>setLinkStatus\<close>\<close>
  | WriteBf u64 buffer            \<comment> \<open>the 8 bytes written to a BF register\<close>
  | WriteCqDoorbell u64 buffer
  | ServiceQueue

record 'w MlxEthernet =
  eCore :: bool
  eCo :: "'w mlxCore"
  eEq :: "MlxEQ option"
  eNic :: bool
  eTxRing :: "MlxEthRing option"
  eRxRing :: "MlxEthRing option"
  eEnabled :: bool
  eLinkUp :: bool
  eLinkSpeed :: u32
  eMacAddr :: buffer
  eTxMinInlineMode :: u8
  ePd :: u32
  eTd :: u32
  eMkeyIndex :: u32
  eLkey :: u32
  eTx :: ethTxQ
  eRx :: ethRxQ
  eFlowTableId :: u32
  eFlowGroupId :: u32
  eFlowRootActive :: bool
  eFlowEntryValid :: bool
  eEnabling :: bool
  eDisabling :: bool
  eNotifierRegistered :: bool
  eNext :: nat
  eLive :: "nat list"
  eLog :: "ethEffect list"

text \<open>
  IOKit's answers: for every descriptor whether it was allocated, and what
  \<^verbatim>\<open>mlxMapDMAContiguous\<close> returned for it.
\<close>

record ethEnv =
  enCore :: bool
  enTxRing :: bool
  enRxRing :: bool
  enTxWq :: "bool \<times> ioreturn \<times> u64"
  enRxWq :: "bool \<times> ioreturn \<times> u64"
  enAttach :: bool
  enTxPool :: "bool \<times> ioreturn \<times> u64"
  enTxCq :: "bool \<times> ioreturn \<times> u64"
  enRxPool :: "bool \<times> ioreturn \<times> u64"
  enRxCq :: "bool \<times> ioreturn \<times> u64"

definition noMem :: ethMem where "noMem = \<lparr>em_desc = None, em_map = None, em_dma = 0\<rparr>"

definition txInit :: ethTxQ where
  "txInit = \<lparr>tx_tisn = MLX5E_INVALID_RESOURCE, tx_sqn = MLX5E_INVALID_RESOURCE,
     tx_cqn = MLX5E_INVALID_RESOURCE, tx_dbOffset = MLX5E_INVALID_RESOURCE,
     tx_cqDbOffset = MLX5E_INVALID_RESOURCE, tx_bf = \<lparr>bf_map = 0, bf_offset = 0\<rparr>, tx_bfValid = False,
     tx_cq = noMem, tx_cqBuf = False, tx_buf = noMem, tx_pool = [], tx_pc = 0, tx_cc = 0, tx_cqCc = 0,
     tx_armSn = 0\<rparr>"

definition rxInit :: ethRxQ where
  "rxInit = \<lparr>rx_tirn = MLX5E_INVALID_RESOURCE, rx_rqn = MLX5E_INVALID_RESOURCE,
     rx_cqn = MLX5E_INVALID_RESOURCE, rx_dbOffset = MLX5E_INVALID_RESOURCE,
     rx_cqDbOffset = MLX5E_INVALID_RESOURCE, rx_cq = noMem, rx_cqBuf = False, rx_buf = noMem,
     rx_pc = 0, rx_cc = 0, rx_cqCc = 0, rx_armSn = 0\<rparr>"

text \<open>\<^verbatim>\<open>MlxEthernet::init\<close>; the object is told which core services it will use.\<close>

definition ethInit :: "'w mlxCore \<Rightarrow> MlxEQ option \<Rightarrow> 'w MlxEthernet" where
  "ethInit co q = \<lparr>eCore = False, eCo = co, eEq = q, eNic = False, eTxRing = None, eRxRing = None,
     eEnabled = False, eLinkUp = False, eLinkSpeed = 0, eMacAddr = replicate 6 0, eTxMinInlineMode = 0,
     ePd = MLX5E_INVALID_RESOURCE, eTd = MLX5E_INVALID_RESOURCE, eMkeyIndex = MLX5E_INVALID_RESOURCE,
     eLkey = 0, eTx = txInit, eRx = rxInit, eFlowTableId = MLX5E_INVALID_RESOURCE,
     eFlowGroupId = MLX5E_INVALID_RESOURCE, eFlowRootActive = False, eFlowEntryValid = False,
     eEnabling = False, eDisabling = False, eNotifierRegistered = False, eNext = 0, eLive = [], eLog = []\<rparr>"

definition updTx :: "(ethTxQ \<Rightarrow> ethTxQ) \<Rightarrow> 'w MlxEthernet \<Rightarrow> 'w MlxEthernet" where
  "updTx f e = e\<lparr>eTx := f (eTx e)\<rparr>"

definition updRx :: "(ethRxQ \<Rightarrow> ethRxQ) \<Rightarrow> 'w MlxEthernet \<Rightarrow> 'w MlxEthernet" where
  "updRx f e = e\<lparr>eRx := f (eRx e)\<rparr>"

definition setUar :: "MlxUAR \<Rightarrow> 'w MlxEthernet \<Rightarrow> 'w MlxEthernet" where
  "setUar u e = e\<lparr>eCo := (eCo e)\<lparr>coUar := u\<rparr>\<rparr>"

definition ethLog :: "ethEffect \<Rightarrow> 'w MlxEthernet \<Rightarrow> 'w MlxEthernet" where
  "ethLog x e = e\<lparr>eLog := eLog e @ [x]\<rparr>"

section \<open>Sequencing\<close>

text \<open>
  \<^verbatim>\<open>kr = step(); if (kr != kIOReturnSuccess) return kr;\<close> for every step of a list.
\<close>

type_synonym 'w ethStep = "'w MlxEthernet \<Rightarrow> ioreturn \<times> 'w MlxEthernet"

fun ethRun :: "'w ethStep list \<Rightarrow> 'w ethStep" where
  "ethRun [] e = (kIOReturnSuccess, e)"
| "ethRun (f # fs) e =
     (case f e of (kr, e) \<Rightarrow> if kr \<noteq> kIOReturnSuccess then (kr, e) else ethRun fs e)"

definition ethDo :: "('w MlxEthernet \<Rightarrow> 'w MlxEthernet) \<Rightarrow> 'w ethStep" where
  "ethDo f e = (kIOReturnSuccess, f e)"

definition ethExec :: "'w execFn \<Rightarrow> u32 \<Rightarrow> buffer \<Rightarrow> nat \<Rightarrow> 'w MlxEthernet \<Rightarrow>
    ioreturn \<times> buffer \<times> 'w MlxEthernet" where
  "ethExec xc opcode inb outSize e =
     (case coExec xc opcode inb outSize (eCo e) of (kr, out, co) \<Rightarrow> (kr, out, e\<lparr>eCo := co\<rparr>))"

section \<open>Memory\<close>

definition ethRelease :: "nat option \<Rightarrow> 'w MlxEthernet \<Rightarrow> 'w MlxEthernet" where
  "ethRelease x e = (case x of None \<Rightarrow> e | Some n \<Rightarrow> e\<lparr>eLive := remove1 n (eLive e)\<rparr>)"

text \<open>\<^verbatim>\<open>if (fXDesc) { mlxUnmapDMA(fXMap); fXDesc->release(); ... }\<close>\<close>

definition ethFreeMem :: "ethMem \<Rightarrow> 'w MlxEthernet \<Rightarrow> 'w MlxEthernet" where
  "ethFreeMem m e = (if em_desc m = None then e else ethRelease (em_desc m) (ethRelease (em_map m) e))"

text \<open>
  Allocating a descriptor, then mapping it. The result has the descriptor also when the mapping
  failed.
\<close>

definition ethAllocMem :: "bool \<times> ioreturn \<times> u64 \<Rightarrow> 'w MlxEthernet \<Rightarrow> ioreturn \<times> ethMem \<times> 'w MlxEthernet" where
  "ethAllocMem en e =
     (case en of (ok, kr, dma) \<Rightarrow>
        if \<not> ok then (kIOReturnNoMemory, noMem, e)
        else
          (let d = eNext e
           in if kr \<noteq> kIOReturnSuccess
              then (kr, \<lparr>em_desc = Some d, em_map = None, em_dma = 0\<rparr>,
                    e\<lparr>eNext := d + 1, eLive := d # eLive e\<rparr>)
              else (kIOReturnSuccess, \<lparr>em_desc = Some d, em_map = Some (d + 1), em_dma = dma\<rparr>,
                    e\<lparr>eNext := d + 2, eLive := (d + 1) # d # eLive e\<rparr>)))"

section \<open>Rings\<close>

definition ringInit :: "u16 \<Rightarrow> u16 \<Rightarrow> MlxEthRing" where
  "ringInit sz wqebbSize = \<lparr>ring_size = sz, ring_wqebb = wqebbSize, ring_head = 0, ring_tail = 0,
     ring_wqBuf = None, ring_mem = noMem, ring_db = None, ring_dbDMA = 0, ring_mbuf = replicate 256 None\<rparr>"

text \<open>
  When the mapping fails the descriptor is released, but \<^verbatim>\<open>fWqBuf\<close> still points to its bytes.
\<close>

definition ringAllocBuffers ::
  "bool \<times> ioreturn \<times> u64 \<Rightarrow> MlxEthRing \<Rightarrow> 'w MlxEthernet \<Rightarrow> ioreturn \<times> MlxEthRing \<times> 'w MlxEthernet" where
  "ringAllocBuffers en r e =
     (case ethAllocMem en e of
        (kr, mem, e) \<Rightarrow>
          if em_desc mem = None then (kIOReturnNoMemory, r\<lparr>ring_mem := noMem\<rparr>, e)
          else
            (let r = r\<lparr>ring_wqBuf := Some (replicate (unat (ring_size r) * unat (ring_wqebb r)) 0)\<rparr>
             in if kr \<noteq> kIOReturnSuccess
                then (kIOReturnNoMemory, r\<lparr>ring_mem := noMem\<rparr>, ethFreeMem mem e)
                else (kIOReturnSuccess, r\<lparr>ring_mem := mem\<rparr>, e)))"

definition ringFreeBuffers :: "MlxEthRing \<Rightarrow> 'w MlxEthernet \<Rightarrow> MlxEthRing \<times> 'w MlxEthernet" where
  "ringFreeBuffers r e =
     ((if em_desc (ring_mem r) = None then r else r\<lparr>ring_mem := noMem, ring_wqBuf := None\<rparr>)
        \<lparr>ring_db := None, ring_dbDMA := 0\<rparr>,
      ethFreeMem (ring_mem r) e)"

definition setWqeMbuf :: "nat \<Rightarrow> nat option \<Rightarrow> MlxEthRing \<Rightarrow> MlxEthRing" where
  "setWqeMbuf i m r = (if i < 256 then r\<lparr>ring_mbuf := (ring_mbuf r)[i := m]\<rparr> else r)"

definition getWqeMbuf :: "nat \<Rightarrow> MlxEthRing \<Rightarrow> nat option" where
  "getWqeMbuf i r = (if i < 256 then ring_mbuf r ! i else None)"

definition clearWqeMbuf :: "nat \<Rightarrow> MlxEthRing \<Rightarrow> MlxEthRing" where
  "clearWqeMbuf i r = setWqeMbuf i None r"

text \<open>Storing a big-endian word at a byte index of the doorbell page.\<close>

definition writeDb :: "nat \<Rightarrow> u32 \<Rightarrow> 'w MlxEthernet \<Rightarrow> 'w MlxEthernet" where
  "writeDb i v e =
     (case fDbRecord (coUar (eCo e)) of
        None \<Rightarrow> e
      | Some page \<Rightarrow> setUar ((coUar (eCo e))\<lparr>fDbRecord := Some (OSWriteBigInt32 page i (ucast v))\<rparr>) e)"

definition ringWriteDb :: "MlxEthRing \<Rightarrow> u32 \<Rightarrow> 'w MlxEthernet \<Rightarrow> 'w MlxEthernet" where
  "ringWriteDb r v e = (case ring_db r of None \<Rightarrow> e | Some i \<Rightarrow> writeDb i v e)"

text \<open>\<^verbatim>\<open>MlxEthRing::updateDb\<close>\<close>

definition ringUpdateDb :: "u16 \<Rightarrow> MlxEthRing \<Rightarrow> 'w MlxEthernet \<Rightarrow> MlxEthRing \<times> 'w MlxEthernet" where
  "ringUpdateDb head r e = (r\<lparr>ring_head := head\<rparr>, ringWriteDb r (ucast head) e)"

section \<open>Commands\<close>

definition mlx5e_out_obj :: "buffer \<Rightarrow> u32" where
  "mlx5e_out_obj out = ucast (mlxGetBits out 0x48 24)"

definition ethInput :: "nat \<Rightarrow> u32 \<Rightarrow> field list \<Rightarrow> buffer" where
  "ethInput n opcode fs = setFields (OSWriteBigInt16 (replicate n 0) 0 (ucast opcode)) fs"

text \<open>
  A command of \<open>n\<close> input bytes whose object id goes to a member on success
  (\<^verbatim>\<open>if (kr == kIOReturnSuccess) *id = mlx5e_out_obj(out)\<close>).
\<close>

definition ethCreate ::
  "'w execFn \<Rightarrow> u32 \<Rightarrow> ('w MlxEthernet \<Rightarrow> buffer) \<Rightarrow> (u32 \<Rightarrow> 'w MlxEthernet \<Rightarrow> 'w MlxEthernet) \<Rightarrow> 'w ethStep" where
  "ethCreate xc opcode inb store e =
     (case ethExec xc opcode (inb e) 16 e of
        (kr, out, e) \<Rightarrow> if kr \<noteq> kIOReturnSuccess then (kr, e) else (kr, store (mlx5e_out_obj out) e))"

definition cmdAllocTd :: "'w execFn \<Rightarrow> 'w ethStep" where
  "cmdAllocTd xc = ethCreate xc MLX_CMD_OP_ALLOC_TRANSPORT_DOMAIN
     (\<lambda>e. ethInput 16 MLX_CMD_OP_ALLOC_TRANSPORT_DOMAIN []) (\<lambda>x e. e\<lparr>eTd := x\<rparr>)"

definition cmdAllocPd :: "'w execFn \<Rightarrow> 'w ethStep" where
  "cmdAllocPd xc = ethCreate xc MLX_CMD_OP_ALLOC_PD
     (\<lambda>e. ethInput 16 MLX_CMD_OP_ALLOC_PD []) (\<lambda>x e. e\<lparr>ePd := x\<rparr>)"

definition ethMkeyInput :: "u32 \<Rightarrow> buffer" where
  "ethMkeyInput pd = ethInput 0x110 MLX_CMD_OP_CREATE_MKEY
     [(0x80 + 0x14, 1, 1), (0x80 + 0x15, 1, 1), (0x80 + 0x16, 2, 0), (0x80 + 0x20, 24, 0xffffff),
      (0x80 + 0x38, 8, 0x42), (0x80 + 0x60, 1, 1), (0x80 + 0x68, 24, ucast pd)]"

definition ethCreateMkey :: "'w execFn \<Rightarrow> 'w ethStep" where
  "ethCreateMkey xc = ethCreate xc MLX_CMD_OP_CREATE_MKEY (\<lambda>e. ethMkeyInput (ePd e))
     (\<lambda>x e. e\<lparr>eMkeyIndex := x, eLkey := push_bit 8 x OR 0x42\<rparr>)"

definition cmdDestroyObject :: "'w execFn \<Rightarrow> u32 \<Rightarrow> u32 \<Rightarrow> 'w ethStep" where
  "cmdDestroyObject xc opcode objectId e =
     (case ethExec xc opcode (ethInput 16 opcode [(0x48, 24, ucast objectId)]) 16 e of (kr, out, e) \<Rightarrow> (kr, e))"

definition ethTisInput :: "u32 \<Rightarrow> u32 \<Rightarrow> buffer" where
  "ethTisInput td pd = ethInput 0xc0 MLX_CMD_OP_CREATE_TIS
     [(0x100 + 0x128, 24, ucast td), (0x100 + 0x168, 24, ucast pd)]"

definition cmdCreateTis :: "'w execFn \<Rightarrow> 'w ethStep" where
  "cmdCreateTis xc = ethCreate xc MLX_CMD_OP_CREATE_TIS (\<lambda>e. ethTisInput (eTd e) (ePd e))
     (\<lambda>x. updTx (\<lambda>t. t\<lparr>tx_tisn := x\<rparr>))"

definition ethTirInput :: "u32 \<Rightarrow> u32 \<Rightarrow> buffer" where
  "ethTirInput rqn td = ethInput 0x100 MLX_CMD_OP_CREATE_TIR
     [(0x100 + 0x20, 4, 0), (0x100 + 0xe8, 24, ucast rqn), (0x100 + 0x128, 24, ucast td)]"

definition cmdCreateTir :: "'w execFn \<Rightarrow> 'w ethStep" where
  "cmdCreateTir xc = ethCreate xc MLX_CMD_OP_CREATE_TIR (\<lambda>e. ethTirInput (rx_rqn (eRx e)) (eTd e))
     (\<lambda>x. updRx (\<lambda>t. t\<lparr>rx_tirn := x\<rparr>))"

definition ethModifyInput :: "u32 \<Rightarrow> u32 \<Rightarrow> buffer" where
  "ethModifyInput opcode n = ethInput 0x110 opcode [(0x40, 4, 0), (0x48, 24, ucast n), (0x108, 4, 1)]"

definition cmdModifySqReady :: "'w execFn \<Rightarrow> 'w ethStep" where
  "cmdModifySqReady xc e =
     (case ethExec xc MLX_CMD_OP_MODIFY_SQ (ethModifyInput MLX_CMD_OP_MODIFY_SQ (tx_sqn (eTx e))) 16 e of
        (kr, out, e) \<Rightarrow> (kr, e))"

definition cmdModifyRqReady :: "'w execFn \<Rightarrow> 'w ethStep" where
  "cmdModifyRqReady xc e =
     (case ethExec xc MLX_CMD_OP_MODIFY_RQ (ethModifyInput MLX_CMD_OP_MODIFY_RQ (rx_rqn (eRx e))) 16 e of
        (kr, out, e) \<Rightarrow> (kr, e))"

section \<open>Completion queues\<close>

definition writePas :: "nat \<Rightarrow> u64 \<Rightarrow> nat \<Rightarrow> buffer \<Rightarrow> buffer" where
  "writePas off dma n b = foldl (\<lambda>b i. OSWriteBigInt64 b (off + i * 8) (dma + of_nat i * 4096)) b [0..<n]"

definition ethCqPages :: "nat \<Rightarrow> nat" where
  "ethCqPages logSize = (2 ^ logSize * 64 + 4095) div 4096"

definition ethCqInput :: "nat \<Rightarrow> u32 \<Rightarrow> u32 \<Rightarrow> u64 \<Rightarrow> u64 \<Rightarrow> buffer" where
  "ethCqInput logSize uarIndex eqn dbr dma =
     take (0x880 div 8 + ethCqPages logSize * 8)
       (writePas (0x880 div 8) dma (ethCqPages logSize)
         (ethInput 0x1000 MLX_CMD_OP_CREATE_CQ
           [(0x80 + 0x08, 3, 0), (0x80 + 0x63, 5, of_nat logSize), (0x80 + 0x68, 24, ucast uarIndex),
            (0x80 + 0xb8, 8, ucast eqn), (0x80 + 0xc3, 5, 0), (0x80 + 0x1c0, 64, dbr)]))"

text \<open>
  \<^verbatim>\<open>getCompEqNumber(0)\<close>. The code dereferences \<^verbatim>\<open>getEQ()\<close> here before \<^verbatim>\<open>enable\<close> checks it; the
  properties assume that the core has its event queues.
\<close>

definition compEqn0 :: "'w MlxEthernet \<Rightarrow> u32" where
  "compEqn0 e = (case eEq e of None \<Rightarrow> 0 | Some q \<Rightarrow> (case eqComp q of [] \<Rightarrow> 0 | x # xs \<Rightarrow> eq_eqNumber x))"

text \<open>\<open>store\<close> puts the five results into the caller's members.\<close>

definition cmdCreateCq ::
  "'w execFn \<Rightarrow> bool \<times> ioreturn \<times> u64 \<Rightarrow> nat \<Rightarrow>
   (u32 \<Rightarrow> ethMem \<Rightarrow> u32 \<Rightarrow> 'w MlxEthernet \<Rightarrow> 'w MlxEthernet) \<Rightarrow> 'w ethStep" where
  "cmdCreateCq xc en logSize store e =
     (case ethAllocMem en e of
        (kr, mem, e) \<Rightarrow>
          if em_desc mem = None then (kIOReturnNoMemory, e)
          else if kr \<noteq> kIOReturnSuccess then (kIOReturnNoMemory, ethFreeMem mem e)
          else
            (case allocDbSlots 2 (coUar (eCo e)) of
               (kr, offo, uar) \<Rightarrow>
                 (let off = (case offo of Some x \<Rightarrow> x | None \<Rightarrow> 0); e = setUar uar e
                  in if kr \<noteq> kIOReturnSuccess then (kIOReturnNoResources, ethFreeMem mem e)
                     else
                       (case ethExec xc MLX_CMD_OP_CREATE_CQ
                               (ethCqInput logSize (fBootIndex uar) (compEqn0 e)
                                  (fDbRecordDMA uar + ucast off) (em_dma mem)) 16 e of
                          (kr, out, e) \<Rightarrow>
                            if kr \<noteq> kIOReturnSuccess
                            then (kr, ethFreeMem mem (setUar (freeDbSlots off 2 (coUar (eCo e))) e))
                            else (kIOReturnSuccess, store (mlx5e_out_obj out) mem off e)))))"

section \<open>Work queues\<close>

text \<open>The context of CREATE_SQ and CREATE_RQ starts at byte 0x20, its work queue at 0x50.\<close>

definition wqFields :: "u32 \<Rightarrow> u32 \<Rightarrow> u64 \<Rightarrow> nat \<Rightarrow> field list" where
  "wqFields pd uarIndex dbr logSize =
     [(0x280 + 0x00, 4, 1), (0x280 + 0x48, 24, ucast pd), (0x280 + 0x68, 24, ucast uarIndex),
      (0x280 + 0x80, 64, dbr), (0x280 + 0x10c, 4, 6), (0x280 + 0x113, 5, 0), (0x280 + 0x11b, 5, of_nat logSize)]"

definition ethSqInput :: "u8 \<Rightarrow> u32 \<Rightarrow> u32 \<Rightarrow> u32 \<Rightarrow> u32 \<Rightarrow> u64 \<Rightarrow> u64 \<Rightarrow> buffer" where
  "ethSqInput inlineMode cqn tisn pd uarIndex dbr wqDma =
     take (0x110 + 4 * 8) (writePas 0x110 wqDma 4
       (ethInput 0x1000 MLX_CMD_OP_CREATE_SQ
         ([(0x100 + 0x08, 4, 0), (0x100 + 0x05, 3, ucast inlineMode), (0x100 + 0x48, 24, ucast cqn),
           (0x100 + 0x100, 16, 1), (0x100 + 0x168, 24, ucast tisn)] @
          wqFields pd uarIndex dbr MLX5E_DEFAULT_LOG_SQ_SIZE)))"

definition ethRqInput :: "u32 \<Rightarrow> u32 \<Rightarrow> u32 \<Rightarrow> u64 \<Rightarrow> u64 \<Rightarrow> buffer" where
  "ethRqInput cqn pd uarIndex dbr wqDma =
     take (0x110 + 4 * 8) (writePas 0x110 wqDma 4
       (ethInput 0x1000 MLX_CMD_OP_CREATE_RQ
         ([(0x100 + 0x04, 4, 0), (0x100 + 0x08, 4, 0), (0x100 + 0x48, 24, ucast cqn)] @
          wqFields pd uarIndex dbr MLX5E_DEFAULT_LOG_RQ_SIZE)))"

definition cmdCreateSq :: "'w execFn \<Rightarrow> 'w ethStep" where
  "cmdCreateSq xc e =
     (case eTxRing e of
        None \<Rightarrow> (kIOReturnNotReady, e)
      | Some r \<Rightarrow>
          if ring_wqBuf r = None \<or> em_dma (ring_mem r) = 0 then (kIOReturnNotReady, e)
          else
            (case allocDbSlots 2 (coUar (eCo e)) of
               (kr, offo, uar) \<Rightarrow>
                 (let off = (case offo of Some x \<Rightarrow> x | None \<Rightarrow> 0); e = setUar uar e
                  in if kr \<noteq> kIOReturnSuccess then (kIOReturnNoResources, e)
                     else
                       (case ethExec xc MLX_CMD_OP_CREATE_SQ
                               (ethSqInput (eTxMinInlineMode e) (tx_cqn (eTx e)) (tx_tisn (eTx e)) (ePd e)
                                  (fBootIndex uar) (fDbRecordDMA uar + ucast off) (em_dma (ring_mem r))) 16 e of
                          (kr, out, e) \<Rightarrow>
                            if kr \<noteq> kIOReturnSuccess
                            then (kr, setUar (freeDbSlots off 2 (coUar (eCo e))) e)
                            else (kIOReturnSuccess,
                                  (updTx (\<lambda>t. t\<lparr>tx_sqn := mlx5e_out_obj out, tx_dbOffset := off\<rparr>) e)
                                    \<lparr>eTxRing := Some (r\<lparr>ring_db := Some (unat (off div 4) * 4 + MLX_SND_DBR * 4),
                                       ring_dbDMA := fDbRecordDMA uar + ucast off\<rparr>)\<rparr>)))))"

definition cmdCreateRq :: "'w execFn \<Rightarrow> 'w ethStep" where
  "cmdCreateRq xc e =
     (case eRxRing e of
        None \<Rightarrow> (kIOReturnNotReady, e)
      | Some r \<Rightarrow>
          if ring_wqBuf r = None \<or> em_dma (ring_mem r) = 0 then (kIOReturnNotReady, e)
          else
            (case allocDbSlots 2 (coUar (eCo e)) of
               (kr, offo, uar) \<Rightarrow>
                 (let off = (case offo of Some x \<Rightarrow> x | None \<Rightarrow> 0); e = setUar uar e
                  in if kr \<noteq> kIOReturnSuccess then (kIOReturnNoResources, e)
                     else
                       (case ethExec xc MLX_CMD_OP_CREATE_RQ
                               (ethRqInput (rx_cqn (eRx e)) (ePd e) (fBootIndex uar)
                                  (fDbRecordDMA uar + ucast off) (em_dma (ring_mem r))) 16 e of
                          (kr, out, e) \<Rightarrow>
                            if kr \<noteq> kIOReturnSuccess
                            then (kr, setUar (freeDbSlots off 2 (coUar (eCo e))) e)
                            else (kIOReturnSuccess,
                                  (updRx (\<lambda>t. t\<lparr>rx_rqn := mlx5e_out_obj out, rx_dbOffset := off\<rparr>) e)
                                    \<lparr>eRxRing := Some (r\<lparr>ring_db := Some (unat (off div 4) * 4),
                                       ring_dbDMA := fDbRecordDMA uar + ucast off\<rparr>)\<rparr>)))))"

end
