(* ===== verification/MlxEthLife.thy ===== *)
theory MlxEthLife
  imports MlxEth
begin

text \<open>
  \<^verbatim>\<open>Sources/netif/MlxEthernet.cpp\<close>, the life of the interface: bringing the firmware objects up
  in order and taking them down, receive flow steering, \<open>enable\<close>, \<open>disable\<close>, \<open>start\<close>,
  \<open>stop\<close> and the binding driver. Every function is a list of steps run by \<open>ethRun\<close>, which
  stops at the first that fails.
\<close>

unbundle bit_operations_syntax

section \<open>Receive work queue entries\<close>

definition rxWqe :: "u32 \<Rightarrow> u64 \<Rightarrow> buffer" where
  "rxWqe lkey addr =
     OSWriteBigInt64 (OSWriteBigInt32 (OSWriteBigInt32 (replicate 64 0) 0 (of_nat MLX5E_RX_BUF_SIZE))
       4 (ucast lkey)) 8 addr"

definition postRxWqe :: "nat \<Rightarrow> 'w ethStep" where
  "postRxWqe index e =
     (case eRxRing e of
        None \<Rightarrow> (kIOReturnNotReady, e)
      | Some r \<Rightarrow>
          (case ring_wqBuf r of
             None \<Rightarrow> (kIOReturnNotReady, e)
           | Some buf \<Rightarrow>
               if MLX5E_MAX_RX_BUFS \<le> index then (kIOReturnBadArgument, e)
               else (kIOReturnSuccess, e\<lparr>eRxRing := Some (r\<lparr>ring_wqBuf := Some (copyInto buf (index * 64)
                      (rxWqe (eLkey e) (em_dma (rx_buf (eRx e)) + of_nat (index * MLX5E_RX_BUF_SIZE))))\<rparr>)\<rparr>)))"

text \<open>\<^verbatim>\<open>postRxWqe(i); fRxPc++\<close> for every slot; then the doorbell record.\<close>

definition postOne :: "nat \<Rightarrow> 'w ethStep" where
  "postOne i e =
     (case postRxWqe i e of
        (kr, e) \<Rightarrow> if kr \<noteq> kIOReturnSuccess then (kr, e) else (kr, updRx (\<lambda>t. t\<lparr>rx_pc := rx_pc t + 1\<rparr>) e))"

text \<open>
  The receive doorbell record. The source writes through \<^verbatim>\<open>fRxRing->getDbRecord()\<close> without a test; the \<open>None\<close> cases
  stand for that NULL access. They do not arise: both callers get here after a \<open>postRxWqe\<close> that succeeded, so the ring is
  there, and a receive queue that exists has set its record (\<^verbatim>\<open>cmdCreateRq\<close>).
\<close>

definition rxDoorbell :: "'w MlxEthernet \<Rightarrow> 'w MlxEthernet" where
  "rxDoorbell e = (case eRxRing e of None \<Rightarrow> e | Some r \<Rightarrow> ringWriteDb r (ucast (rx_pc (eRx e))) e)"

definition postAllRx :: "'w ethStep" where
  "postAllRx e = ethRun (map postOne [0..<2 ^ MLX5E_DEFAULT_LOG_RQ_SIZE] @ [ethDo rxDoorbell]) e"

section \<open>Destroying an object of the firmware\<close>

text \<open>
  \<^verbatim>\<open>if (id != INVALID) { kr = destroy(id); if (kr != success) return kr; id = INVALID; }\<close>
\<close>

definition ethDestroy ::
  "'w execFn \<Rightarrow> u32 \<Rightarrow> ('w MlxEthernet \<Rightarrow> u32) \<Rightarrow> ('w MlxEthernet \<Rightarrow> 'w MlxEthernet) \<Rightarrow> 'w ethStep" where
  "ethDestroy xc opcode ident clear e =
     (if ident e = MLX5E_INVALID_RESOURCE then (kIOReturnSuccess, e)
      else (case cmdDestroyObject xc opcode (ident e) e of
              (kr, e) \<Rightarrow> if kr \<noteq> kIOReturnSuccess then (kr, e) else (kr, clear e)))"

section \<open>Send side\<close>

definition txFreeSlot :: "nat \<Rightarrow> 'w MlxEthernet \<Rightarrow> 'w MlxEthernet" where
  "txFreeSlot i e =
     (case eTxRing e of
        None \<Rightarrow> e
      | Some r \<Rightarrow> (case getWqeMbuf i r of None \<Rightarrow> e | Some m \<Rightarrow> (ethLog (FreeMbuf m) e)\<lparr>eTxRing := Some (clearWqeMbuf i r)\<rparr>))"

definition txFreeMbufs :: "'w MlxEthernet \<Rightarrow> 'w MlxEthernet" where
  "txFreeMbufs e = foldl (\<lambda>e i. txFreeSlot i e) e [0..<2 ^ MLX5E_DEFAULT_LOG_SQ_SIZE]"

definition txFreePool :: "'w MlxEthernet \<Rightarrow> 'w MlxEthernet" where
  "txFreePool e = (if em_desc (tx_buf (eTx e)) = None then e
     else updTx (\<lambda>t. t\<lparr>tx_buf := noMem\<rparr>) (ethFreeMem (tx_buf (eTx e)) e))"

definition txFreeDb :: "'w MlxEthernet \<Rightarrow> 'w MlxEthernet" where
  "txFreeDb e = (if tx_dbOffset (eTx e) = MLX5E_INVALID_RESOURCE then e
     else (updTx (\<lambda>t. t\<lparr>tx_dbOffset := MLX5E_INVALID_RESOURCE\<rparr>)
             (setUar (freeDbSlots (tx_dbOffset (eTx e)) 2 (coUar (eCo e))) e))
            \<lparr>eTxRing := map_option (\<lambda>r. r\<lparr>ring_db := None, ring_dbDMA := 0\<rparr>) (eTxRing e)\<rparr>)"

definition txFreeBf :: "UarCaps \<Rightarrow> 'w MlxEthernet \<Rightarrow> 'w MlxEthernet" where
  "txFreeBf caps e = (if \<not> tx_bfValid (eTx e) then e
     else updTx (\<lambda>t. t\<lparr>tx_bf := \<lparr>bf_map = 0, bf_offset = 0\<rparr>, tx_bfValid := False\<rparr>)
            (setUar (freeBfreg caps (Some (tx_bf (eTx e))) (coUar (eCo e))) e))"

definition txFreeCq :: "'w MlxEthernet \<Rightarrow> 'w MlxEthernet" where
  "txFreeCq e = (if em_desc (tx_cq (eTx e)) = None then e
     else updTx (\<lambda>t. t\<lparr>tx_cq := noMem, tx_cqBuf := False\<rparr>) (ethFreeMem (tx_cq (eTx e)) e))"

definition txFreeCqDb :: "'w MlxEthernet \<Rightarrow> 'w MlxEthernet" where
  "txFreeCqDb e = (if tx_cqDbOffset (eTx e) = MLX5E_INVALID_RESOURCE then e
     else updTx (\<lambda>t. t\<lparr>tx_cqDbOffset := MLX5E_INVALID_RESOURCE\<rparr>)
            (setUar (freeDbSlots (tx_cqDbOffset (eTx e)) 2 (coUar (eCo e))) e))"

definition txResetCounters :: "'w MlxEthernet \<Rightarrow> 'w MlxEthernet" where
  "txResetCounters = updTx (\<lambda>t. t\<lparr>tx_pc := 0, tx_cc := 0, tx_cqCc := 0, tx_armSn := 0\<rparr>)"

definition destroyTxResources :: "'w execFn \<Rightarrow> UarCaps \<Rightarrow> 'w ethStep" where
  "destroyTxResources xc caps = ethRun
     [ethDestroy xc MLX_CMD_OP_DESTROY_SQ (\<lambda>e. tx_sqn (eTx e))
        (updTx (\<lambda>t. t\<lparr>tx_sqn := MLX5E_INVALID_RESOURCE\<rparr>)),
      ethDo txFreeMbufs, ethDo txFreePool, ethDo txFreeDb, ethDo (txFreeBf caps),
      ethDestroy xc MLX_CMD_OP_DESTROY_CQ (\<lambda>e. tx_cqn (eTx e))
        (updTx (\<lambda>t. t\<lparr>tx_cqn := MLX5E_INVALID_RESOURCE\<rparr>)),
      ethDo txFreeCq, ethDo txFreeCqDb,
      ethDestroy xc MLX_CMD_OP_DESTROY_TIS (\<lambda>e. tx_tisn (eTx e))
        (updTx (\<lambda>t. t\<lparr>tx_tisn := MLX5E_INVALID_RESOURCE\<rparr>)),
      ethDo txResetCounters]"

definition txClearRing :: "'w MlxEthernet \<Rightarrow> 'w MlxEthernet" where
  "txClearRing e = e\<lparr>eTxRing := map_option (\<lambda>r. foldl (\<lambda>r i. clearWqeMbuf i r) r [0..<2 ^ MLX5E_DEFAULT_LOG_SQ_SIZE]) (eTxRing e)\<rparr>"

definition txAllocBf :: "UarCaps \<Rightarrow> 'w ethStep" where
  "txAllocBf caps e =
     (case allocBfreg caps (tx_bf (eTx e)) (coUar (eCo e)) of
        (kr, breg, uar) \<Rightarrow>
          (let e = updTx (\<lambda>t. t\<lparr>tx_bf := breg\<rparr>) (setUar uar e)
           in if kr \<noteq> kIOReturnSuccess then (kr, e) else (kr, updTx (\<lambda>t. t\<lparr>tx_bfValid := True\<rparr>) e)))"

definition txCreateCq :: "'w execFn \<Rightarrow> ethEnv \<Rightarrow> 'w ethStep" where
  "txCreateCq xc env = cmdCreateCq xc (enTxCq env) MLX5E_DEFAULT_LOG_SQ_SIZE
     (\<lambda>cqn mem off. updTx (\<lambda>t. t\<lparr>tx_cqn := cqn, tx_cqBuf := True, tx_cq := mem, tx_cqDbOffset := off\<rparr>))"

text \<open>
  Without memory for the pool the function returns at once; any later failure destroys what
  was made.
\<close>

definition createTxResources :: "'w execFn \<Rightarrow> UarCaps \<Rightarrow> ethEnv \<Rightarrow> 'w ethStep" where
  "createTxResources xc caps env e =
     (case ethAllocMem (enTxPool env) (txClearRing (txResetCounters e)) of
        (kr, mem, e) \<Rightarrow>
          (let e = updTx (\<lambda>t. t\<lparr>tx_buf := mem,
                     tx_pool := replicate (2 ^ MLX5E_DEFAULT_LOG_SQ_SIZE * MLX5E_TX_BUF_SIZE) 0\<rparr>) e
           in if em_desc mem = None then (kIOReturnNoMemory, e)
              else
                (case (if kr \<noteq> kIOReturnSuccess then (kr, e)
                       else ethRun [cmdCreateTis xc, txCreateCq xc env, cmdCreateSq xc, txAllocBf caps,
                                    cmdModifySqReady xc] e) of
                   (kr, e) \<Rightarrow>
                     if kr \<noteq> kIOReturnSuccess then (kr, snd (destroyTxResources xc caps e)) else (kr, e))))"

section \<open>Receive side\<close>

definition rxFreePool :: "'w MlxEthernet \<Rightarrow> 'w MlxEthernet" where
  "rxFreePool e = (if em_desc (rx_buf (eRx e)) = None then e
     else updRx (\<lambda>t. t\<lparr>rx_buf := noMem\<rparr>) (ethFreeMem (rx_buf (eRx e)) e))"

definition rxFreeDb :: "'w MlxEthernet \<Rightarrow> 'w MlxEthernet" where
  "rxFreeDb e = (if rx_dbOffset (eRx e) = MLX5E_INVALID_RESOURCE then e
     else (updRx (\<lambda>t. t\<lparr>rx_dbOffset := MLX5E_INVALID_RESOURCE\<rparr>)
             (setUar (freeDbSlots (rx_dbOffset (eRx e)) 2 (coUar (eCo e))) e))
            \<lparr>eRxRing := map_option (\<lambda>r. r\<lparr>ring_db := None, ring_dbDMA := 0\<rparr>) (eRxRing e)\<rparr>)"

definition rxFreeCq :: "'w MlxEthernet \<Rightarrow> 'w MlxEthernet" where
  "rxFreeCq e = (if em_desc (rx_cq (eRx e)) = None then e
     else updRx (\<lambda>t. t\<lparr>rx_cq := noMem, rx_cqBuf := False\<rparr>) (ethFreeMem (rx_cq (eRx e)) e))"

definition rxFreeCqDb :: "'w MlxEthernet \<Rightarrow> 'w MlxEthernet" where
  "rxFreeCqDb e = (if rx_cqDbOffset (eRx e) = MLX5E_INVALID_RESOURCE then e
     else updRx (\<lambda>t. t\<lparr>rx_cqDbOffset := MLX5E_INVALID_RESOURCE\<rparr>)
            (setUar (freeDbSlots (rx_cqDbOffset (eRx e)) 2 (coUar (eCo e))) e))"

definition rxResetCounters :: "'w MlxEthernet \<Rightarrow> 'w MlxEthernet" where
  "rxResetCounters = updRx (\<lambda>t. t\<lparr>rx_pc := 0, rx_cc := 0, rx_cqCc := 0, rx_armSn := 0\<rparr>)"

definition destroyRxResources :: "'w execFn \<Rightarrow> 'w ethStep" where
  "destroyRxResources xc = ethRun
     [ethDestroy xc MLX_CMD_OP_DESTROY_TIR (\<lambda>e. rx_tirn (eRx e))
        (updRx (\<lambda>t. t\<lparr>rx_tirn := MLX5E_INVALID_RESOURCE\<rparr>)),
      ethDestroy xc MLX_CMD_OP_DESTROY_RQ (\<lambda>e. rx_rqn (eRx e))
        (updRx (\<lambda>t. t\<lparr>rx_rqn := MLX5E_INVALID_RESOURCE\<rparr>)),
      ethDo rxFreePool, ethDo rxFreeDb,
      ethDestroy xc MLX_CMD_OP_DESTROY_CQ (\<lambda>e. rx_cqn (eRx e))
        (updRx (\<lambda>t. t\<lparr>rx_cqn := MLX5E_INVALID_RESOURCE\<rparr>)),
      ethDo rxFreeCq, ethDo rxFreeCqDb, ethDo rxResetCounters]"

definition rxCreateCq :: "'w execFn \<Rightarrow> ethEnv \<Rightarrow> 'w ethStep" where
  "rxCreateCq xc env = cmdCreateCq xc (enRxCq env) MLX5E_DEFAULT_LOG_RQ_SIZE
     (\<lambda>cqn mem off. updRx (\<lambda>t. t\<lparr>rx_cqn := cqn, rx_cqBuf := True, rx_cq := mem, rx_cqDbOffset := off\<rparr>))"

definition createRxResources :: "'w execFn \<Rightarrow> ethEnv \<Rightarrow> 'w ethStep" where
  "createRxResources xc env e =
     (case ethAllocMem (enRxPool env) (rxResetCounters e) of
        (kr, mem, e) \<Rightarrow>
          (let e = updRx (\<lambda>t. t\<lparr>rx_buf := mem\<rparr>) e
           in if em_desc mem = None then (kIOReturnNoMemory, e)
              else
                (case (if kr \<noteq> kIOReturnSuccess then (kr, e)
                       else ethRun [rxCreateCq xc env, cmdCreateRq xc, cmdCreateTir xc, postAllRx,
                                    cmdModifyRqReady xc] e) of
                   (kr, e) \<Rightarrow>
                     if kr \<noteq> kIOReturnSuccess then (kr, snd (destroyRxResources xc e)) else (kr, e))))"

section \<open>Global objects\<close>

text \<open>
  A failed \<^verbatim>\<open>DEALLOC_TRANSPORT_DOMAIN\<close> is the first error: the protection domain is then kept.
\<close>

definition deallocGlobalResources :: "'w execFn \<Rightarrow> 'w ethStep" where
  "deallocGlobalResources xc = ethRun
     [ethDestroy xc MLX_CMD_OP_DESTROY_MKEY eMkeyIndex (\<lambda>e. e\<lparr>eMkeyIndex := MLX5E_INVALID_RESOURCE, eLkey := 0\<rparr>),
      ethDestroy xc MLX_CMD_OP_DEALLOC_TRANSPORT_DOMAIN eTd (\<lambda>e. e\<lparr>eTd := MLX5E_INVALID_RESOURCE\<rparr>),
      ethDestroy xc MLX_CMD_OP_DEALLOC_PD ePd (\<lambda>e. e\<lparr>ePd := MLX5E_INVALID_RESOURCE\<rparr>)]"

definition allocGlobalResources :: "'w execFn \<Rightarrow> 'w ethStep" where
  "allocGlobalResources xc e =
     (case cmdAllocPd xc e of
        (kr, e) \<Rightarrow>
          if kr \<noteq> kIOReturnSuccess then (kr, e)
          else (case ethRun [cmdAllocTd xc, ethCreateMkey xc] e of
                  (kr, e) \<Rightarrow>
                    if kr \<noteq> kIOReturnSuccess then (kr, snd (deallocGlobalResources xc e)) else (kr, e)))"

section \<open>Receive flow steering\<close>

definition flowTableInput :: buffer where
  "flowTableInput = ethInput 0x38 MLX_CMD_OP_CREATE_FLOW_TABLE [(0x80, 8, 0), (0xc8, 8, 0), (0xd8, 8, 0)]"

definition flowGroupInput :: "u32 \<Rightarrow> buffer" where
  "flowGroupInput tab = ethInput 0x400 MLX_CMD_OP_CREATE_FLOW_GROUP
     [(0x80, 8, 0), (0xa8, 24, ucast tab), (0xe0, 32, 0), (0x120, 32, 0), (0x1f8, 8, 0)]"

definition flowEntryInput :: "u32 \<Rightarrow> u32 \<Rightarrow> u32 \<Rightarrow> buffer" where
  "flowEntryInput tab grp tirn = ethInput 0x348 MLX_CMD_OP_SET_FLOW_TABLE_ENTRY
     [(0x80, 8, 0), (0xa8, 24, ucast tab), (0x100, 32, 0), (0x220, 32, ucast grp), (0x270, 16, 0x4),
      (0x288, 24, 1), (0x1a00, 8, 2), (0x1a08, 24, ucast tirn)]"

definition flowRootInput :: "u32 \<Rightarrow> buffer" where
  "flowRootInput tab = ethInput 0x40 MLX_CMD_OP_SET_FLOW_TABLE_ROOT [(0x80, 8, 0), (0xa8, 24, ucast tab)]"

text \<open>A command whose success sets or clears a flag.\<close>

definition ethFlag ::
  "'w execFn \<Rightarrow> u32 \<Rightarrow> ('w MlxEthernet \<Rightarrow> buffer) \<Rightarrow> ('w MlxEthernet \<Rightarrow> 'w MlxEthernet) \<Rightarrow> 'w ethStep" where
  "ethFlag xc opcode inb store e =
     (case ethExec xc opcode (inb e) 16 e of (kr, out, e) \<Rightarrow> if kr \<noteq> kIOReturnSuccess then (kr, e) else (kr, store e))"

definition flowUnroot :: "'w execFn \<Rightarrow> 'w ethStep" where
  "flowUnroot xc e =
     (if \<not> eFlowRootActive e then (kIOReturnSuccess, e)
      else ethFlag xc MLX_CMD_OP_SET_FLOW_TABLE_ROOT
             (\<lambda>e. ethInput 0x40 MLX_CMD_OP_SET_FLOW_TABLE_ROOT [(0x30, 16, 1), (0x80, 8, 0)])
             (\<lambda>e. e\<lparr>eFlowRootActive := False\<rparr>) e)"

definition flowDelEntry :: "'w execFn \<Rightarrow> 'w ethStep" where
  "flowDelEntry xc e =
     (if \<not> eFlowEntryValid e then (kIOReturnSuccess, e)
      else ethFlag xc MLX_CMD_OP_DELETE_FLOW_TABLE_ENTRY
             (\<lambda>e. ethInput 0x40 MLX_CMD_OP_DELETE_FLOW_TABLE_ENTRY
                    [(0x80, 8, 0), (0xa8, 24, ucast (eFlowTableId e)), (0x100, 32, 0)])
             (\<lambda>e. e\<lparr>eFlowEntryValid := False\<rparr>) e)"

definition flowDelGroup :: "'w execFn \<Rightarrow> 'w ethStep" where
  "flowDelGroup xc e =
     (if eFlowGroupId e = MLX5E_INVALID_RESOURCE then (kIOReturnSuccess, e)
      else ethFlag xc MLX_CMD_OP_DESTROY_FLOW_GROUP
             (\<lambda>e. ethInput 0x40 MLX_CMD_OP_DESTROY_FLOW_GROUP
                    [(0x80, 8, 0), (0xa8, 24, ucast (eFlowTableId e)), (0xc0, 32, ucast (eFlowGroupId e))])
             (\<lambda>e. e\<lparr>eFlowGroupId := MLX5E_INVALID_RESOURCE\<rparr>) e)"

definition flowDelTable :: "'w execFn \<Rightarrow> 'w ethStep" where
  "flowDelTable xc e =
     (if eFlowTableId e = MLX5E_INVALID_RESOURCE then (kIOReturnSuccess, e)
      else ethFlag xc MLX_CMD_OP_DESTROY_FLOW_TABLE
             (\<lambda>e. ethInput 0x40 MLX_CMD_OP_DESTROY_FLOW_TABLE [(0x80, 8, 0), (0xa8, 24, ucast (eFlowTableId e))])
             (\<lambda>e. e\<lparr>eFlowTableId := MLX5E_INVALID_RESOURCE\<rparr>) e)"

definition destroyRxFlowSteering :: "'w execFn \<Rightarrow> 'w ethStep" where
  "destroyRxFlowSteering xc = ethRun [flowUnroot xc, flowDelEntry xc, flowDelGroup xc, flowDelTable xc]"

definition createRxFlowSteering :: "'w execFn \<Rightarrow> 'w ethStep" where
  "createRxFlowSteering xc e =
     (case ethCreate xc MLX_CMD_OP_CREATE_FLOW_TABLE (\<lambda>e. flowTableInput) (\<lambda>x e. e\<lparr>eFlowTableId := x\<rparr>) e of
        (kr, e) \<Rightarrow>
          if kr \<noteq> kIOReturnSuccess then (kr, e)
          else
            (case ethRun
               [ethCreate xc MLX_CMD_OP_CREATE_FLOW_GROUP (\<lambda>e. flowGroupInput (eFlowTableId e))
                  (\<lambda>x e. e\<lparr>eFlowGroupId := x\<rparr>),
                ethFlag xc MLX_CMD_OP_SET_FLOW_TABLE_ENTRY
                  (\<lambda>e. flowEntryInput (eFlowTableId e) (eFlowGroupId e) (rx_tirn (eRx e)))
                  (\<lambda>e. e\<lparr>eFlowEntryValid := True\<rparr>),
                ethFlag xc MLX_CMD_OP_SET_FLOW_TABLE_ROOT (\<lambda>e. flowRootInput (eFlowTableId e))
                  (\<lambda>e. e\<lparr>eFlowRootActive := True\<rparr>)] e of
               (kr, e) \<Rightarrow>
                 if kr \<noteq> kIOReturnSuccess then (kr, snd (destroyRxFlowSteering xc e)) else (kr, e)))"

section \<open>Doorbells of the completion queues\<close>

definition getUarVirtualAddress :: "MlxUAR \<Rightarrow> u64" where
  "getUarVirtualAddress u = (case fUarMap u of None \<Rightarrow> 0 | Some va \<Rightarrow> va + ucast (fUarOffset u))"

definition ethUpdateCq :: "u32 \<Rightarrow> u32 \<Rightarrow> 'w MlxEthernet \<Rightarrow> 'w MlxEthernet" where
  "ethUpdateCq dbOffset consumer e =
     (if dbOffset = MLX5E_INVALID_RESOURCE \<or> \<not> eCore e then e
      else writeDb (unat (dbOffset div 4) * 4) (consumer AND 0x00ffffff) e)"

definition armWord :: "u32 \<Rightarrow> u32 \<Rightarrow> u32" where
  "armWord armSn consumer = push_bit 28 (armSn AND 3) OR (consumer AND 0x00ffffff)"

definition armCq :: "u32 \<Rightarrow> u32 \<Rightarrow> u32 \<Rightarrow> u32 \<Rightarrow> 'w MlxEthernet \<Rightarrow> 'w MlxEthernet" where
  "armCq cqn dbOffset armSn consumer e =
     (if cqn = MLX5E_INVALID_RESOURCE \<or> dbOffset = MLX5E_INVALID_RESOURCE \<or> \<not> eCore e then e
      else
        (let uarAddress = getUarVirtualAddress (coUar (eCo e))
         in if fDbRecord (coUar (eCo e)) = None \<or> uarAddress = 0 then e
            else ethLog (WriteCqDoorbell (uarAddress + of_nat MLX_CQ_DOORBELL)
                     (OSWriteBigInt32 (OSWriteBigInt32 (replicate 8 0) 0 (ucast (armWord armSn consumer)))
                        4 (ucast (cqn AND 0x00ffffff))))
                   (writeDb ((unat (dbOffset div 4) + 1) * 4) (armWord armSn consumer) e)))"

definition armTxCq :: "'w MlxEthernet \<Rightarrow> 'w MlxEthernet" where
  "armTxCq e = armCq (tx_cqn (eTx e)) (tx_cqDbOffset (eTx e)) (tx_armSn (eTx e)) (tx_cqCc (eTx e)) e"

definition armRxCq :: "'w MlxEthernet \<Rightarrow> 'w MlxEthernet" where
  "armRxCq e = armCq (rx_cqn (eRx e)) (rx_cqDbOffset (eRx e)) (rx_armSn (eRx e)) (rx_cqCc (eRx e)) e"

section \<open>Link state and permanent address\<close>

definition setLinkState :: "bool \<Rightarrow> u32 \<Rightarrow> 'w MlxEthernet \<Rightarrow> 'w MlxEthernet" where
  "setLinkState up speedMbps e =
     ethLog (LinkStatus up (ucast speedMbps * 1000000)) (e\<lparr>eLinkUp := up, eLinkSpeed := speedMbps\<rparr>)"

definition queryLinkState :: "'w execFn \<Rightarrow> 'w MlxEthernet \<Rightarrow> bool \<times> 'w MlxEthernet" where
  "queryLinkState xc e =
     (case ethExec xc MLX_CMD_OP_QUERY_VPORT_STATE
             (ethInput 16 MLX_CMD_OP_QUERY_VPORT_STATE [(0x30, 16, 0)]) 16 e of
        (kr, out, e) \<Rightarrow> (kr = kIOReturnSuccess \<and> mlxGetBits out 0x7c 4 = 1, e))"

definition refreshLink :: "'w execFn \<Rightarrow> 'w MlxEthernet \<Rightarrow> 'w MlxEthernet" where
  "refreshLink xc e = (case queryLinkState xc e of (up, e) \<Rightarrow> setLinkState up 0 e)"

definition queryMacAddress :: "'w execFn \<Rightarrow> 'w ethStep" where
  "queryMacAddress xc e =
     (case ethExec xc MLX_CMD_OP_QUERY_NIC_VPORT_CONTEXT (ethInput 16 MLX_CMD_OP_QUERY_NIC_VPORT_CONTEXT []) 0x110 e of
        (kr, out, e) \<Rightarrow>
          if kr \<noteq> kIOReturnSuccess then (kr, e)
          else
            (let e = e\<lparr>eTxMinInlineMode := ucast (mlxGetBits out 0x85 3)\<rparr>
             in if 1 < eTxMinInlineMode e then (kIOReturnUnsupported, e)
                else
                  (let mac = bytesAt out 0x106 6
                   in (if list_all (\<lambda>b. b = 0) mac then kIOReturnNotFound else kIOReturnSuccess,
                       e\<lparr>eMacAddr := mac\<rparr>))))"

section \<open>Enabling and disabling\<close>

text \<open>\<open>me\<close> is the number of the interface as an event notifier.\<close>

definition notifierOn :: "nat \<Rightarrow> 'w ethStep" where
  "notifierOn me e =
     (case eEq e of
        None \<Rightarrow> (kIOReturnNotReady, e)
      | Some q \<Rightarrow>
          (kIOReturnSuccess,
           armRxCq (armTxCq (e\<lparr>eEq := Some (registerNotifier (unat MLX_EVENT_TYPE_PORT_STATE_CHANGE) me
               (registerNotifier (unat MLX_EVENT_TYPE_COMPLETION) me q)),
             eNotifierRegistered := True\<rparr>))))"

definition notifierOff :: "nat \<Rightarrow> 'w MlxEthernet \<Rightarrow> 'w MlxEthernet" where
  "notifierOff me e =
     (case eEq e of
        None \<Rightarrow> e
      | Some q \<Rightarrow>
          if \<not> eNotifierRegistered e \<or> \<not> eCore e then e
          else e\<lparr>eEq := Some (unregisterNotifier (unat MLX_EVENT_TYPE_PORT_STATE_CHANGE) me
                   (unregisterNotifier (unat MLX_EVENT_TYPE_COMPLETION) me q)),
                 eNotifierRegistered := False\<rparr>)"

text \<open>
  The common end of a failed \<open>enable\<close> and of \<open>disable\<close>: the receive objects are destroyed only
  when no flow rule points to them, the global ones only when everything else is gone. The
  result is the first failure.
\<close>

definition destroyAllResources :: "'w execFn \<Rightarrow> UarCaps \<Rightarrow> 'w ethStep" where
  "destroyAllResources xc caps e =
     (case destroyRxFlowSteering xc e of
        (flowKr, e) \<Rightarrow>
          (case (if flowKr = kIOReturnSuccess then destroyRxResources xc e else (flowKr, e)) of
             (rxKr, e) \<Rightarrow>
               (case destroyTxResources xc caps e of
                  (txKr, e) \<Rightarrow>
                    if flowKr \<noteq> kIOReturnSuccess then (flowKr, e)
                    else if rxKr \<noteq> kIOReturnSuccess then (rxKr, e)
                    else if txKr \<noteq> kIOReturnSuccess then (txKr, e)
                    else deallocGlobalResources xc e)))"

definition ethEnableFail :: "ioreturn \<Rightarrow> 'w MlxEthernet \<Rightarrow> ioreturn \<times> 'w MlxEthernet" where
  "ethEnableFail kr e = (kr, setLinkState False 0 (e\<lparr>eEnabled := False, eEnabling := False\<rparr>))"

definition ethEnable :: "'w execFn \<Rightarrow> UarCaps \<Rightarrow> ethEnv \<Rightarrow> nat \<Rightarrow> 'w ethStep" where
  "ethEnable xc caps env me e =
     (if eEnabled e then (kIOReturnSuccess, e)
      else if eEnabling e \<or> eDisabling e then (kIOReturnBusy, e)
      else if ePd e \<noteq> MLX5E_INVALID_RESOURCE \<or> eTd e \<noteq> MLX5E_INVALID_RESOURCE \<or>
              tx_tisn (eTx e) \<noteq> MLX5E_INVALID_RESOURCE \<or> tx_sqn (eTx e) \<noteq> MLX5E_INVALID_RESOURCE \<or>
              rx_rqn (eRx e) \<noteq> MLX5E_INVALID_RESOURCE \<or> rx_tirn (eRx e) \<noteq> MLX5E_INVALID_RESOURCE \<or>
              eFlowTableId e \<noteq> MLX5E_INVALID_RESOURCE
      then (kIOReturnNotReady, e)
      else
        (case allocGlobalResources xc (e\<lparr>eEnabling := True\<rparr>) of
           (kr, e) \<Rightarrow>
             if kr \<noteq> kIOReturnSuccess then ethEnableFail kr e
             else
               (case ethRun [createTxResources xc caps env, createRxResources xc env, notifierOn me,
                             createRxFlowSteering xc] e of
                  (kr, e) \<Rightarrow>
                    if kr = kIOReturnSuccess
                    then (kr, refreshLink xc (e\<lparr>eEnabled := True, eEnabling := False\<rparr>))
                    else ethEnableFail kr (snd (destroyAllResources xc caps (notifierOff me e))))))"

definition ethDisable :: "'w execFn \<Rightarrow> UarCaps \<Rightarrow> nat \<Rightarrow> 'w ethStep" where
  "ethDisable xc caps me e =
     (if eEnabling e \<or> eDisabling e then (kIOReturnBusy, e)
      else
        (case destroyAllResources xc caps
                (notifierOff me (setLinkState False 0 (e\<lparr>eDisabling := True, eEnabled := False\<rparr>))) of
           (kr, e) \<Rightarrow> (kr, e\<lparr>eDisabling := False\<rparr>)))"

section \<open>Starting and stopping\<close>

definition ethFreeRing :: "MlxEthRing option \<Rightarrow> 'w MlxEthernet \<Rightarrow> 'w MlxEthernet" where
  "ethFreeRing ro e = (case ro of None \<Rightarrow> e | Some r \<Rightarrow> snd (ringFreeBuffers r e))"

definition quarantinedIds :: "'w MlxEthernet \<Rightarrow> bool" where
  "quarantinedIds e \<longleftrightarrow> tx_sqn (eTx e) \<noteq> MLX5E_INVALID_RESOURCE \<or> rx_rqn (eRx e) \<noteq> MLX5E_INVALID_RESOURCE \<or>
     tx_cqn (eTx e) \<noteq> MLX5E_INVALID_RESOURCE \<or> rx_cqn (eRx e) \<noteq> MLX5E_INVALID_RESOURCE \<or>
     rx_tirn (eRx e) \<noteq> MLX5E_INVALID_RESOURCE \<or> eFlowRootActive e"

definition releaseResources :: "nat \<Rightarrow> 'w MlxEthernet \<Rightarrow> 'w MlxEthernet" where
  "releaseResources me e =
     (let e = (notifierOff me e)\<lparr>eNic := False\<rparr>
      in if quarantinedIds e then e
         else (ethFreeRing (eRxRing e) (ethFreeRing (eTxRing e) e))\<lparr>eTxRing := None, eRxRing := None, eCore := False\<rparr>)"

definition startRings :: "ethEnv \<Rightarrow> 'w ethStep" where
  "startRings env e =
     (if \<not> enTxRing env then (kIOReturnError, e)
      else
        (let tx = ringInit 256 64; rx = ringInit 256 64; e = e\<lparr>eTxRing := Some tx\<rparr>
         in if \<not> enRxRing env then (kIOReturnError, e)
            else
              (case ringAllocBuffers (enTxWq env) tx (e\<lparr>eRxRing := Some rx\<rparr>) of
                 (kr, tx, e) \<Rightarrow>
                   (let e = e\<lparr>eTxRing := Some tx\<rparr>
                    in if kr \<noteq> kIOReturnSuccess then (kr, e)
                       else
                         (case ringAllocBuffers (enRxWq env) rx e of
                            (kr, rx, e) \<Rightarrow> (kr, e\<lparr>eRxRing := Some rx\<rparr>))))))"

definition startAttach :: "ethEnv \<Rightarrow> 'w ethStep" where
  "startAttach env e = (if enAttach env then (kIOReturnSuccess, e\<lparr>eNic := True\<rparr>) else (kIOReturnError, e))"

definition ethStart :: "'w execFn \<Rightarrow> ethEnv \<Rightarrow> nat \<Rightarrow> 'w MlxEthernet \<Rightarrow> bool \<times> 'w MlxEthernet" where
  "ethStart xc env me e =
     (if \<not> enCore env then (False, e)
      else
        (case ethRun [startRings env, queryMacAddress xc, startAttach env] (e\<lparr>eCore := True\<rparr>) of
           (kr, e) \<Rightarrow> if kr = kIOReturnSuccess then (True, e) else (False, releaseResources me e)))"

definition ethStop :: "'w execFn \<Rightarrow> UarCaps \<Rightarrow> nat \<Rightarrow> 'w MlxEthernet \<Rightarrow> 'w MlxEthernet" where
  "ethStop xc caps me e = releaseResources me (snd (ethDisable xc caps me e))"

text \<open>
  The destructor. \<open>True\<close> is the retained object: firmware objects still refer to its memory.
\<close>

definition ethFree :: "nat \<Rightarrow> 'w MlxEthernet \<Rightarrow> bool \<times> 'w MlxEthernet" where
  "ethFree me e =
     (let e = releaseResources me e in (eCore e \<or> eTxRing e \<noteq> None \<or> eRxRing e \<noteq> None, e))"

section \<open>The binding driver\<close>

record 'w MlxEthernetDriver =
  drCore :: bool
  drEth :: "'w MlxEthernet option"

text \<open>
  \<open>ib\<close>: the port is an InfiniBand port; \<open>alloc\<close>: the controller object was allocated and
  initialised. The second component is the controller that was given up, after its destructor.
\<close>

definition drvStart ::
  "'w execFn \<Rightarrow> ethEnv \<Rightarrow> nat \<Rightarrow> bool \<Rightarrow> bool \<Rightarrow> 'w mlxCore \<Rightarrow> MlxEQ option \<Rightarrow> 'w MlxEthernetDriver \<Rightarrow>
   bool \<times> 'w MlxEthernet option \<times> 'w MlxEthernetDriver" where
  "drvStart xc env me ib alloc co q d =
     (if \<not> enCore env then (False, None, d)
      else if ib then (True, None, d\<lparr>drCore := True\<rparr>)
      else if \<not> alloc then (False, None, d\<lparr>drCore := False, drEth := None\<rparr>)
      else
        (case ethStart xc env me (ethInit co q) of
           (ok, e) \<Rightarrow>
             if ok then (True, None, d\<lparr>drCore := True, drEth := Some e\<rparr>)
             else (False, Some (snd (ethFree me e)), d\<lparr>drCore := False, drEth := None\<rparr>)))"

definition drvStop ::
  "'w execFn \<Rightarrow> UarCaps \<Rightarrow> nat \<Rightarrow> 'w MlxEthernetDriver \<Rightarrow> (bool \<times> 'w MlxEthernet) option \<times> 'w MlxEthernetDriver" where
  "drvStop xc caps me d =
     (map_option (\<lambda>e. ethFree me (ethStop xc caps me e)) (drEth d), d\<lparr>drCore := False, drEth := None\<rparr>)"

definition drvFree :: "nat \<Rightarrow> 'w MlxEthernetDriver \<Rightarrow> (bool \<times> 'w MlxEthernet) option \<times> 'w MlxEthernetDriver" where
  "drvFree me d = (map_option (ethFree me) (drEth d), d\<lparr>drCore := False, drEth := None\<rparr>)"

end
