(* ===== verification/MlxEthInv.thy ===== *)
theory MlxEthInv
  imports MlxEthLife "HOL-Library.Multiset"
begin

text \<open>
  What the interface holds, and the order in which it may let go of it. \<open>ethAcct\<close> accounts for
  every doorbell slot, memory object and BF register; \<open>ethSafe\<close> says that a firmware object
  still has everything it refers to. Both survive every step whatever the firmware answers; the
  steps are composed with the triples of \<open>ethTri\<close>.
\<close>

unbundle bit_operations_syntax

section \<open>Doorbell slots as a multiset\<close>

definition uarOk :: "MlxUAR \<Rightarrow> bool" where
  "uarOk u \<longleftrightarrow> dbWf u \<and> fDbRecord u \<noteq> None \<and> fDbLock u"

definition dbTaken :: "MlxUAR \<Rightarrow> nat multiset" where
  "dbTaken u = mset_set {k. k < 128 \<and> bit64s (fDbBitmap u) k}"

definition offM :: "u32 \<Rightarrow> nat multiset" where
  "offM x = (if x = MLX5E_INVALID_RESOURCE then {#} else {#unat x div 4, Suc (unat x div 4)#})"

definition offOk :: "u32 \<Rightarrow> bool" where
  "offOk x \<longleftrightarrow> x = MLX5E_INVALID_RESOURCE \<or> x mod 4 = 0 \<and> unat x \<le> 504"

lemma offM_INV [simp]: "offM MLX5E_INVALID_RESOURCE = {#}" "offOk MLX5E_INVALID_RESOURCE"
  by (simp_all add: offM_def offOk_def)

text \<open>What the allocation and the release of doorbell slots leave alone.\<close>

definition uarRest :: "MlxUAR \<Rightarrow> _" where
  "uarRest u = (fUarMap u, fUarBitmap u, fUarOffset u, fBootIndex u, fDbRecordDMA u, fDbLock u)"

lemma alloc2_taken:
  assumes ok: "uarOk u" and al: "allocDbSlots 2 u = (kr, off, u')"
  shows "if kr = kIOReturnSuccess
    then uarOk u' \<and> uarRest u' = uarRest u \<and>
      (\<exists>x. off = Some x \<and> x \<noteq> MLX5E_INVALID_RESOURCE \<and> offOk x \<and> dbTaken u' = dbTaken u + offM x)
    else u' = u"
proof -
  obtain page where pg: "fDbRecord u = Some page" using ok by (auto simp: uarOk_def)
  have wf: "dbWf u" "fDbLock u" using ok by (simp_all add: uarOk_def)
  have "(2 :: u32) = 1 \<or> (2 :: u32) = 2" by simp
  from allocDbSlots_cases [OF pg wf(2) this] show ?thesis
  proof (elim disjE exE conjE)
    fix slot
    assume s: "slot + unat (2 :: u32) \<le> 128"
      and free: "\<forall>k. slot \<le> k \<and> k < slot + unat (2 :: u32) \<longrightarrow> \<not> bit64s (fDbBitmap u) k"
      and res: "allocDbSlots 2 u = (kIOReturnSuccess, Some (of_nat (slot * 4)),
        u\<lparr>fDbBitmap := foldl (dbSet slot) (fDbBitmap u) [0..<unat (2 :: u32)],
          fDbRecord := Some (copyInto page (slot * 4) (replicate (unat (2 :: u32) * 4) 0))\<rparr>)"
    have len: "length (fDbBitmap u) = 2" "length page = 4096" using wf(1) pg by (auto simp: dbWf_def)
    have sl: "slot \<le> 126" using s by simp
    have un: "unat (of_nat (slot * 4) :: u32) = slot * 4" using sl by (intro unat_of_nat_small) simp
    have u': "u' = u\<lparr>fDbBitmap := foldl (dbSet slot) (fDbBitmap u) [0..<2],
          fDbRecord := Some (copyInto page (slot * 4) (replicate 8 0))\<rparr>" and kr: "kr = kIOReturnSuccess"
      and off: "off = Some (of_nat (slot * 4))"
      using res al by simp_all
    have "{k. k < 128 \<and> bit64s (fDbBitmap u') k} = insert slot (insert (Suc slot) {k. k < 128 \<and> bit64s (fDbBitmap u) k})"
      using sl by (auto simp: u' bit64s_dbSet [of slot 2 "fDbBitmap u", simplified] len simp del: upt_Suc)
    moreover have "slot \<notin> {k. k < 128 \<and> bit64s (fDbBitmap u) k}" "Suc slot \<notin> {k. k < 128 \<and> bit64s (fDbBitmap u) k}"
      using free by auto
    ultimately have tk: "dbTaken u' = dbTaken u + {#slot, Suc slot#}"
      unfolding dbTaken_def by (simp add: add_ac)
    have x: "(of_nat (slot * 4) :: u32) mod 4 = 0"
      using un by (simp add: word_unat_eq_iff unat_mod)
    have ni: "(of_nat (slot * 4) :: u32) \<noteq> MLX5E_INVALID_RESOURCE"
    proof
      assume "(of_nat (slot * 4) :: u32) = MLX5E_INVALID_RESOURCE"
      then have "slot * 4 = unat MLX5E_INVALID_RESOURCE" using un by metis
      with sl show False by (simp add: MLX5E_INVALID_RESOURCE_def)
    qed
    have "uarOk u'" using wf len sl by (auto simp: uarOk_def dbWf_def u')
    then show ?thesis
      using tk x ni un sl by (simp add: kr off offM_def offOk_def) (simp add: u' uarRest_def)
  next
    assume "allocDbSlots 2 u = (kIOReturnNoResources, None, u)"
    then show ?thesis using al by simp
  qed
qed

lemma free2_taken:
  assumes "uarOk u" and "offOk x" and "x \<noteq> MLX5E_INVALID_RESOURCE"
  shows "uarOk (freeDbSlots x 2 u) \<and> uarRest (freeDbSlots x 2 u) = uarRest u \<and>
    dbTaken (freeDbSlots x 2 u) = dbTaken u - offM x"
proof -
  have x: "x mod 4 = 0" "unat x \<le> 504" and len: "length (fDbBitmap u) = 2" and lock: "fDbLock u"
    using assms by (auto simp: offOk_def uarOk_def dbWf_def)
  have d: "unat (x div 4) = unat x div 4" by (simp add: unat_div)
  have "unat (x div 4 + 2) = unat x div 4 + 2"
    using x(2) d by (subst unat_plus_if') simp
  then have b: "\<not> 128 < x div 4 + 2" using x(2) by (simp add: word_less_nat_alt)
  have fr: "freeDbSlots x 2 u = u\<lparr>fDbBitmap := foldl (dbClear (unat x div 4)) (fDbBitmap u) [0..<2]\<rparr>"
    using x(1) lock b d by (simp add: freeDbSlots_def Let_def)
  have "{k. k < 128 \<and> bit64s (fDbBitmap (freeDbSlots x 2 u)) k} =
      {k. k < 128 \<and> bit64s (fDbBitmap u) k} - {unat x div 4, Suc (unat x div 4)}"
    using x(2) len
    by (auto simp: fr bit64s_dbClear [of "unat x div 4" 2 "fDbBitmap u", simplified] simp del: upt_Suc)
  moreover have "mset_set (A - {a, b}) = mset_set A - {#a, b#}" if "finite A" "a \<noteq> b" for A and a b :: nat
    using that by (simp add: mset_set_Diff multiset_eq_iff count_mset_set')
  ultimately show ?thesis
    using assms len by (auto simp: dbTaken_def offM_def uarOk_def fr uarRest_def dbWf_def)
qed

section \<open>Accounting\<close>

definition optM :: "nat option \<Rightarrow> nat multiset" where
  "optM x = (case x of None \<Rightarrow> {#} | Some n \<Rightarrow> {#n#})"

definition memM :: "ethMem \<Rightarrow> nat multiset" where
  "memM m = optM (em_desc m) + optM (em_map m)"

definition memOk :: "ethMem \<Rightarrow> bool" where
  "memOk m \<longleftrightarrow> em_desc m = None \<longrightarrow> m = noMem"

definition memHeld :: "ethMem \<Rightarrow> bool" where
  "memHeld m \<longleftrightarrow> em_desc m \<noteq> None \<and> em_map m \<noteq> None"

definition ethRingMem :: "MlxEthRing option \<Rightarrow> ethMem" where
  "ethRingMem ro = (case ro of None \<Rightarrow> noMem | Some r \<Rightarrow> ring_mem r)"

definition ringHeld :: "MlxEthRing option \<Rightarrow> bool" where
  "ringHeld ro \<longleftrightarrow> memHeld (ethRingMem ro) \<and> (\<exists>r. ro = Some r \<and> ring_wqBuf r \<noteq> None)"

definition bfBits :: "UarCaps \<Rightarrow> MlxBfreg \<Rightarrow> u32 \<Rightarrow> u32" where
  "bfBits caps b m = fUarBitmap (freeBfreg caps (Some b) ((uarInit True)\<lparr>fUarBitmap := m\<rparr>))"

lemma freeBfreg_bits: "freeBfreg caps (Some b) u = u\<lparr>fUarBitmap := bfBits caps b (fUarBitmap u)\<rparr>"
  by (simp add: freeBfreg_def bfBits_def Let_def)

lemma memM_simps [simp]: "memM noMem = {#}" "memOk noMem" "\<not> memHeld noMem"
  by (simp_all add: memM_def noMem_def optM_def memOk_def memHeld_def)

definition freeL :: "ethMem \<Rightarrow> nat list \<Rightarrow> nat list" where
  "freeL m l = eLive (ethFreeMem m ((ethInit undefined None)\<lparr>eLive := l\<rparr> :: unit MlxEthernet))"

lemma ethFreeMem_eq: "ethFreeMem m e = e\<lparr>eLive := freeL m (eLive e)\<rparr>"
  by (simp add: ethFreeMem_def ethRelease_def freeL_def ethInit_def split: option.split)

lemma mset_freeL [simp]: "memOk m \<Longrightarrow> mset (freeL m l) = mset l - memM m"
  by (auto simp: freeL_def ethFreeMem_def ethRelease_def ethInit_def memM_def optM_def memOk_def noMem_def
      add_mset_commute split: option.splits)

abbreviation ethUar :: "'w MlxEthernet \<Rightarrow> MlxUAR" where "ethUar e \<equiv> coUar (eCo e)"

definition ethAcct :: "UarCaps \<Rightarrow> nat multiset \<Rightarrow> u32 \<Rightarrow> 'w MlxEthernet \<Rightarrow> bool" where
  "ethAcct caps O' B e \<longleftrightarrow> uarOk (ethUar e) \<and>
     offOk (tx_dbOffset (eTx e)) \<and> offOk (tx_cqDbOffset (eTx e)) \<and>
     offOk (rx_dbOffset (eRx e)) \<and> offOk (rx_cqDbOffset (eRx e)) \<and>
     dbTaken (ethUar e) = O' + offM (tx_dbOffset (eTx e)) + offM (tx_cqDbOffset (eTx e)) +
       offM (rx_dbOffset (eRx e)) + offM (rx_cqDbOffset (eRx e)) \<and>
     memOk (tx_buf (eTx e)) \<and> memOk (tx_cq (eTx e)) \<and> memOk (rx_buf (eRx e)) \<and> memOk (rx_cq (eRx e)) \<and>
     memOk (ethRingMem (eTxRing e)) \<and> memOk (ethRingMem (eRxRing e)) \<and>
     mset (eLive e) = memM (tx_buf (eTx e)) + memM (tx_cq (eTx e)) + memM (rx_buf (eRx e)) +
       memM (rx_cq (eRx e)) + memM (ethRingMem (eTxRing e)) + memM (ethRingMem (eRxRing e)) \<and>
     (tx_bfValid (eTx e) \<longrightarrow> bfBits caps (tx_bf (eTx e)) (fUarBitmap (ethUar e)) = B) \<and>
     (\<not> tx_bfValid (eTx e) \<longrightarrow> fUarBitmap (ethUar e) = B)"

section \<open>Safety of the firmware objects\<close>

abbreviation alive :: "u32 \<Rightarrow> bool" where "alive x \<equiv> x \<noteq> MLX5E_INVALID_RESOURCE"

definition txSafe :: "'w MlxEthernet \<Rightarrow> bool" where
  "txSafe e \<longleftrightarrow>
     (alive (tx_sqn (eTx e)) \<longrightarrow> ringHeld (eTxRing e) \<and> memHeld (tx_buf (eTx e)) \<and> alive (tx_dbOffset (eTx e)) \<and>
        alive (tx_cqn (eTx e)) \<and> alive (tx_tisn (eTx e)) \<and> alive (eMkeyIndex e)) \<and>
     (alive (tx_cqn (eTx e)) \<longrightarrow> memHeld (tx_cq (eTx e)) \<and> tx_cqBuf (eTx e) \<and> alive (tx_cqDbOffset (eTx e)) \<and> alive (ePd e)) \<and>
     (alive (tx_tisn (eTx e)) \<longrightarrow> alive (eTd e) \<and> alive (ePd e)) \<and>
     (tx_bfValid (eTx e) \<longrightarrow> alive (ePd e))"

definition rxSafe :: "'w MlxEthernet \<Rightarrow> bool" where
  "rxSafe e \<longleftrightarrow>
     (alive (rx_tirn (eRx e)) \<longrightarrow> alive (rx_rqn (eRx e)) \<and> alive (eTd e)) \<and>
     (alive (rx_rqn (eRx e)) \<longrightarrow> ringHeld (eRxRing e) \<and> memHeld (rx_buf (eRx e)) \<and> alive (rx_dbOffset (eRx e)) \<and>
        alive (rx_cqn (eRx e)) \<and> alive (eMkeyIndex e) \<and> alive (ePd e)) \<and>
     (alive (rx_cqn (eRx e)) \<longrightarrow> memHeld (rx_cq (eRx e)) \<and> rx_cqBuf (eRx e) \<and> alive (rx_cqDbOffset (eRx e)) \<and> alive (ePd e))"

definition flowSafe :: "'w MlxEthernet \<Rightarrow> bool" where
  "flowSafe e \<longleftrightarrow>
     (eFlowRootActive e \<longrightarrow> eFlowEntryValid e) \<and>
     (eFlowEntryValid e \<longrightarrow> alive (eFlowGroupId e) \<and> alive (rx_tirn (eRx e))) \<and>
     (alive (eFlowGroupId e) \<longrightarrow> alive (eFlowTableId e)) \<and>
     (alive (eFlowTableId e) \<longrightarrow> alive (ePd e))"

definition globSafe :: "'w MlxEthernet \<Rightarrow> bool" where
  "globSafe e \<longleftrightarrow> (alive (eMkeyIndex e) \<longrightarrow> alive (eTd e)) \<and> (alive (eTd e) \<longrightarrow> alive (ePd e))"

definition ethSafe :: "'w MlxEthernet \<Rightarrow> bool" where
  "ethSafe e \<longleftrightarrow> txSafe e \<and> rxSafe e \<and> flowSafe e \<and> globSafe e"

lemmas ethSafe_defs = ethSafe_def txSafe_def rxSafe_def flowSafe_def globSafe_def

section \<open>Triples\<close>

definition ethTri :: "('w MlxEthernet \<Rightarrow> bool) \<Rightarrow> 'w ethStep \<Rightarrow> ('w MlxEthernet \<Rightarrow> bool) \<Rightarrow> ('w MlxEthernet \<Rightarrow> bool) \<Rightarrow> bool" where
  "ethTri P f Q R \<longleftrightarrow> (\<forall>e kr e'. P e \<longrightarrow> f e = (kr, e') \<longrightarrow> (if kr = kIOReturnSuccess then Q e' else R e'))"

lemma triI: "(\<And>e kr e'. P e \<Longrightarrow> f e = (kr, e') \<Longrightarrow> if kr = kIOReturnSuccess then Q e' else R e') \<Longrightarrow> ethTri P f Q R"
  by (simp add: ethTri_def)

lemma triD: "ethTri P f Q R \<Longrightarrow> P e \<Longrightarrow> f e = (kr, e') \<Longrightarrow> if kr = kIOReturnSuccess then Q e' else R e'"
  by (auto simp: ethTri_def)

lemma tri_nil: "(\<And>e. P e \<Longrightarrow> Q e) \<Longrightarrow> ethTri P (ethRun []) Q R"
  by (simp add: ethTri_def)

lemma tri_cons: "ethTri P f M R \<Longrightarrow> ethTri M (ethRun fs) Q R \<Longrightarrow> ethTri P (ethRun (f # fs)) Q R"
  unfolding ethTri_def by (auto split: prod.splits if_splits)

lemma tri_last: "ethTri P f Q R \<Longrightarrow> ethTri P (ethRun [f]) Q R"
  by (erule tri_cons) (rule tri_nil)

lemma tri_do: "(\<And>e. P e \<Longrightarrow> Q (f e)) \<Longrightarrow> ethTri P (ethDo f) Q R"
  by (auto simp: ethTri_def ethDo_def)

lemma tri_conseq: "ethTri P f Q R \<Longrightarrow> (\<And>e. P' e \<Longrightarrow> P e) \<Longrightarrow> (\<And>e. Q e \<Longrightarrow> Q' e) \<Longrightarrow> (\<And>e. R e \<Longrightarrow> R' e) \<Longrightarrow> ethTri P' f Q' R'"
  by (rule triI) (drule triD, blast, assumption, auto split: if_splits)

text \<open>A predicate that a firmware command cannot change.\<close>

definition cmdInv :: "('w MlxEthernet \<Rightarrow> bool) \<Rightarrow> bool" where
  "cmdInv P \<longleftrightarrow> (\<forall>e co. coUar co = ethUar e \<longrightarrow> P (e\<lparr>eCo := co\<rparr>) = P e)"

lemma cmdInvD: "cmdInv P \<Longrightarrow> P e \<Longrightarrow> coUar co = ethUar e \<Longrightarrow> P (e\<lparr>eCo := co\<rparr>)"
  by (simp add: cmdInv_def)

lemma ethExec_cmd: "ethExec xc opc inb n e = (kr, out, e') \<Longrightarrow> \<exists>co. e' = e\<lparr>eCo := co\<rparr> \<and> coUar co = ethUar e"
  by (auto simp: ethExec_def dest: coExec_fields split: prod.splits)

lemma tri_exec:
  assumes "cmdInv P" and "\<And>e. P e \<Longrightarrow> Q (store e)" and "\<And>e. P e \<Longrightarrow> R e"
  shows "ethTri P (ethFlag xc opc inb store) Q R"
proof (rule triI)
  fix e kr e'
  assume P: "P e" and f: "ethFlag xc opc inb store e = (kr, e')"
  obtain kr1 out e1 where x: "ethExec xc opc (inb e) 16 e = (kr1, out, e1)" by (metis prod_cases3)
  with ethExec_cmd [OF x] have "P e1" using cmdInvD [OF assms(1) P] by auto
  then show "if kr = kIOReturnSuccess then Q e' else R e'"
    using f x assms(2,3) by (auto simp: ethFlag_def split: if_splits)
qed

lemma out_obj_alive: "alive (mlx5e_out_obj out)"
proof -
  have "unat (mlxGetBits out 0x48 24) < 2 ^ 24" by (rule mlxGetBits_less) simp
  then have "unat (mlx5e_out_obj out) < 2 ^ 24"
    by (simp add: mlx5e_out_obj_def unsigned_ucast_eq take_bit_nat_eq_self)
  then show ?thesis by (auto simp: MLX5E_INVALID_RESOURCE_def)
qed

lemma tri_create:
  assumes "cmdInv P" and "\<And>e x. P e \<Longrightarrow> alive x \<Longrightarrow> Q (store x e)" and "\<And>e. P e \<Longrightarrow> R e"
  shows "ethTri P (ethCreate xc opc inb store) Q R"
proof (rule triI)
  fix e kr e'
  assume P: "P e" and f: "ethCreate xc opc inb store e = (kr, e')"
  obtain kr1 out e1 where x: "ethExec xc opc (inb e) 16 e = (kr1, out, e1)" by (metis prod_cases3)
  with ethExec_cmd [OF x] have "P e1" using cmdInvD [OF assms(1) P] by auto
  then show "if kr = kIOReturnSuccess then Q e' else R e'"
    using f x assms(2,3) out_obj_alive by (auto simp: ethCreate_def split: if_splits)
qed

lemma tri_destroy:
  assumes "cmdInv P" and "\<And>e co. ident (e\<lparr>eCo := co\<rparr>) = ident e"
    and "\<And>e. P e \<Longrightarrow> \<not> alive (ident e) \<Longrightarrow> Q e" and "\<And>e. P e \<Longrightarrow> alive (ident e) \<Longrightarrow> Q (clear e)"
    and "\<And>e. P e \<Longrightarrow> alive (ident e) \<Longrightarrow> R e"
  shows "ethTri P (ethDestroy xc opc ident clear) Q R"
proof (rule triI)
  fix e kr e'
  assume P: "P e" and f: "ethDestroy xc opc ident clear e = (kr, e')"
  show "if kr = kIOReturnSuccess then Q e' else R e'"
  proof (cases "alive (ident e)")
    case True
    obtain kr1 out e1 where x: "ethExec xc opc (ethInput 16 opc [(0x48, 24, ucast (ident e))]) 16 e = (kr1, out, e1)"
      by (metis prod_cases3)
    with ethExec_cmd [OF x] have "P e1" "ident e1 = ident e" using cmdInvD [OF assms(1) P] assms(2) by auto
    then show ?thesis
      using f x True assms(4,5) by (auto simp: ethDestroy_def cmdDestroyObject_def split: if_splits)
  next
    case False
    then show ?thesis using f P assms(3) by (auto simp: ethDestroy_def)
  qed
qed

section \<open>The send side\<close>

text \<open>What the operations of the send side do not touch.\<close>

definition ringRest :: "MlxEthRing option \<Rightarrow> (u16 \<times> u16 \<times> ethMem \<times> bool \<times> nat) option" where
  "ringRest ro = map_option (\<lambda>r. (ring_size r, ring_wqebb r, ring_mem r, ring_wqBuf r \<noteq> None, length (ring_mbuf r))) ro"

lemma ringRest_cong:
  assumes "ringRest a = ringRest b"
  shows "ethRingMem a = ethRingMem b" "ringHeld a = ringHeld b"
  using assms by (auto simp: ringRest_def ethRingMem_def ringHeld_def split: option.splits)

definition txRest :: "'w MlxEthernet \<Rightarrow> _" where
  "txRest e = (eRx e, ringRest (eTxRing e), eRxRing e, (ePd e, eTd e, eMkeyIndex e, eLkey e),
     (eFlowTableId e, eFlowGroupId e, eFlowRootActive e, eFlowEntryValid e),
     (eCore e, eEq e, eNic e, eEnabled e, eEnabling e, eDisabling e, eNotifierRegistered e))"

definition ethBase :: "UarCaps \<Rightarrow> nat multiset \<Rightarrow> u32 \<Rightarrow> 'w MlxEthernet \<Rightarrow> bool" where
  "ethBase caps O' B e \<longleftrightarrow> ethAcct caps O' B e \<and> ethSafe e"

definition txTight :: "ethTxQ \<Rightarrow> bool" where
  "txTight t \<longleftrightarrow> (\<not> alive (tx_sqn t) \<longrightarrow> tx_buf t = noMem \<and> \<not> alive (tx_dbOffset t) \<and> \<not> tx_bfValid t) \<and>
     (\<not> alive (tx_cqn t) \<longrightarrow> tx_cq t = noMem \<and> \<not> alive (tx_cqDbOffset t))"

definition txIdle :: "ethTxQ \<Rightarrow> bool" where
  "txIdle t \<longleftrightarrow> \<not> alive (tx_sqn t) \<and> \<not> alive (tx_cqn t) \<and> \<not> alive (tx_tisn t) \<and> \<not> alive (tx_dbOffset t) \<and>
     \<not> alive (tx_cqDbOffset t) \<and> \<not> tx_bfValid t \<and> tx_buf t = noMem \<and> tx_cq t = noMem"

definition txPred where
  "txPred caps O' B c S e \<longleftrightarrow> ethBase caps O' B e \<and> txRest e = c \<and> S (eTx e)"

lemmas txPred_defs = txPred_def ethBase_def ethAcct_def ethSafe_defs txRest_def

lemma txPred_cmd: "cmdInv (txPred caps O' B c S)"
  by (simp add: cmdInv_def txPred_defs)

lemma ringRest_db: "ringRest (map_option (\<lambda>r. r\<lparr>ring_db := None, ring_dbDMA := 0\<rparr>) ro) = ringRest ro"
  by (cases ro) (simp_all add: ringRest_def)

lemma txRest_safe: "txRest e' = txRest e \<Longrightarrow> rxSafe e' = rxSafe e \<and> flowSafe e' = flowSafe e \<and> globSafe e' = globSafe e"
  by (simp add: txRest_def rxSafe_def flowSafe_def globSafe_def)

lemma tx_step:
  assumes "txPred caps O' B c S e" and "txRest e' = txRest e"
    and "ethAcct caps O' B e \<Longrightarrow> S (eTx e) \<Longrightarrow> ethAcct caps O' B e'"
    and "txSafe e \<Longrightarrow> S (eTx e) \<Longrightarrow> txSafe e'" and "S (eTx e) \<Longrightarrow> S' (eTx e')"
  shows "txPred caps O' B c S' e'"
  using assms txRest_safe [OF assms(2)] by (simp add: txPred_def ethBase_def ethSafe_def)

lemma txFreePool_step:
  assumes "txPred caps O' B c (\<lambda>t. \<not> alive (tx_sqn t)) e"
  shows "txPred caps O' B c (\<lambda>t. \<not> alive (tx_sqn t) \<and> tx_buf t = noMem) (txFreePool e)"
proof (cases "em_desc (tx_buf (eTx e))")
  case None
  then have "txFreePool e = e" by (simp add: txFreePool_def)
  moreover have "tx_buf (eTx e) = noMem" using assms None by (simp add: txPred_def ethBase_def ethAcct_def memOk_def)
  ultimately show ?thesis using assms by (simp add: txPred_def)
next
  case (Some d)
  then have "txFreePool e = e\<lparr>eLive := freeL (tx_buf (eTx e)) (eLive e), eTx := (eTx e)\<lparr>tx_buf := noMem\<rparr>\<rparr>"
    by (simp add: txFreePool_def ethFreeMem_eq updTx_def)
  then show ?thesis
    by (intro tx_step [OF assms]) (simp_all add: txRest_def ethAcct_def txSafe_def)
qed

lemma txFreeSlot_frame:
  "\<exists>l ro. txFreeSlot i e = e\<lparr>eLog := l, eTxRing := ro\<rparr> \<and> ringRest ro = ringRest (eTxRing e)"
proof (cases "eTxRing e")
  case None
  then show ?thesis by (intro exI [of _ "eLog e"] exI [of _ None]) (simp add: txFreeSlot_def)
next
  case (Some r)
  show ?thesis
  proof (cases "getWqeMbuf i r")
    case None
    with Some show ?thesis by (intro exI [of _ "eLog e"] exI [of _ "Some r"]) (simp add: txFreeSlot_def)
  next
    case (Some m)
    with \<open>eTxRing e = Some r\<close> show ?thesis
      by (intro exI [of _ "eLog e @ [FreeMbuf m]"] exI [of _ "Some (clearWqeMbuf i r)"])
        (simp add: txFreeSlot_def ethLog_def ringRest_def clearWqeMbuf_def setWqeMbuf_def)
  qed
qed

lemma txFreeSlots_frame:
  "\<exists>l ro. foldl (\<lambda>e i. txFreeSlot i e) e xs = e\<lparr>eLog := l, eTxRing := ro\<rparr> \<and> ringRest ro = ringRest (eTxRing e)"
proof (induction xs arbitrary: e)
  case Nil
  show ?case by (intro exI [of _ "eLog e"] exI [of _ "eTxRing e"]) simp
next
  case (Cons i xs)
  obtain l ro where a: "txFreeSlot i e = e\<lparr>eLog := l, eTxRing := ro\<rparr>" "ringRest ro = ringRest (eTxRing e)"
    using txFreeSlot_frame by blast
  obtain l' ro' where b: "foldl (\<lambda>e i. txFreeSlot i e) (txFreeSlot i e) xs = (txFreeSlot i e)\<lparr>eLog := l', eTxRing := ro'\<rparr>"
    "ringRest ro' = ringRest (eTxRing (txFreeSlot i e))" using Cons by blast
  show ?case by (intro exI [of _ l'] exI [of _ ro']) (use a b in simp)
qed

lemma tx_ring_step:
  assumes "txPred caps O' B c S e" and "ringRest ro = ringRest (eTxRing e)"
  shows "txPred caps O' B c S (e\<lparr>eLog := l, eTxRing := ro\<rparr>)"
  using ringRest_cong [OF assms(2)] assms(2)
  by (intro tx_step [OF assms(1)]) (simp_all add: txRest_def ethAcct_def txSafe_def)

lemma txFreeMbufs_step: "txPred caps O' B c S e \<Longrightarrow> txPred caps O' B c S (txFreeMbufs e)"
  using txFreeSlots_frame [of e "[0..<2 ^ MLX5E_DEFAULT_LOG_SQ_SIZE]"] tx_ring_step
  by (metis txFreeMbufs_def)

lemma txFreeDb_step:
  assumes "txPred caps O' B c (\<lambda>t. \<not> alive (tx_sqn t) \<and> tx_buf t = noMem) e"
  shows "txPred caps O' B c (\<lambda>t. \<not> alive (tx_sqn t) \<and> tx_buf t = noMem \<and> \<not> alive (tx_dbOffset t)) (txFreeDb e)"
proof (cases "alive (tx_dbOffset (eTx e))")
  case True
  let ?u = "freeDbSlots (tx_dbOffset (eTx e)) 2 (ethUar e)"
  let ?ro = "map_option (\<lambda>r. r\<lparr>ring_db := None, ring_dbDMA := 0\<rparr>) (eTxRing e)"
  have eq: "txFreeDb e = e\<lparr>eCo := (eCo e)\<lparr>coUar := ?u\<rparr>, eTx := (eTx e)\<lparr>tx_dbOffset := MLX5E_INVALID_RESOURCE\<rparr>,
      eTxRing := ?ro\<rparr>"
    using True by (simp add: txFreeDb_def setUar_def updTx_def)
  have "uarOk (ethUar e)" "offOk (tx_dbOffset (eTx e))"
    using assms by (simp_all add: txPred_def ethBase_def ethAcct_def)
  note u = free2_taken [OF this True]
  note ring = ringRest_cong [OF ringRest_db [of "eTxRing e"]] ringRest_db [of "eTxRing e"]
  show ?thesis unfolding eq
    by (intro tx_step [OF assms]) (use u ring in \<open>simp_all add: txRest_def ethAcct_def txSafe_def uarRest_def\<close>)
qed (use assms in \<open>simp_all add: txFreeDb_def txPred_def\<close>)

lemma txFreeBf_step:
  assumes "txPred caps O' B c (\<lambda>t. \<not> alive (tx_sqn t) \<and> tx_buf t = noMem \<and> \<not> alive (tx_dbOffset t)) e"
  shows "txPred caps O' B c (\<lambda>t. \<not> alive (tx_sqn t) \<and> tx_buf t = noMem \<and> \<not> alive (tx_dbOffset t) \<and> \<not> tx_bfValid t)
    (txFreeBf caps e)"
proof (cases "tx_bfValid (eTx e)")
  case True
  have eq: "txFreeBf caps e = e\<lparr>eCo := (eCo e)\<lparr>coUar := (ethUar e)\<lparr>fUarBitmap := bfBits caps (tx_bf (eTx e)) (fUarBitmap (ethUar e))\<rparr>\<rparr>,
      eTx := (eTx e)\<lparr>tx_bf := \<lparr>bf_map = 0, bf_offset = 0\<rparr>, tx_bfValid := False\<rparr>\<rparr>"
    using True by (simp add: txFreeBf_def setUar_def updTx_def freeBfreg_bits)
  show ?thesis unfolding eq
    by (intro tx_step [OF assms])
      (use True in \<open>simp_all add: txRest_def ethAcct_def txSafe_def uarOk_def dbWf_def dbTaken_def\<close>)
qed (use assms in \<open>simp_all add: txFreeBf_def txPred_def\<close>)

definition txGone :: "ethTxQ \<Rightarrow> bool" where
  "txGone t \<longleftrightarrow> \<not> alive (tx_sqn t) \<and> tx_buf t = noMem \<and> \<not> alive (tx_dbOffset t) \<and> \<not> tx_bfValid t \<and> \<not> alive (tx_cqn t)"

lemma txFreeCq_step:
  assumes "txPred caps O' B c txGone e"
  shows "txPred caps O' B c (\<lambda>t. txGone t \<and> tx_cq t = noMem) (txFreeCq e)"
proof (cases "em_desc (tx_cq (eTx e))")
  case None
  then have "txFreeCq e = e" by (simp add: txFreeCq_def)
  moreover have "tx_cq (eTx e) = noMem" using assms None by (simp add: txPred_def ethBase_def ethAcct_def memOk_def)
  ultimately show ?thesis using assms by (simp add: txPred_def)
next
  case (Some d)
  then have "txFreeCq e = e\<lparr>eLive := freeL (tx_cq (eTx e)) (eLive e), eTx := (eTx e)\<lparr>tx_cq := noMem, tx_cqBuf := False\<rparr>\<rparr>"
    by (simp add: txFreeCq_def ethFreeMem_eq updTx_def)
  then show ?thesis
    by (intro tx_step [OF assms]) (simp_all add: txRest_def ethAcct_def txSafe_def txGone_def)
qed

lemma txFreeCqDb_step:
  assumes "txPred caps O' B c (\<lambda>t. txGone t \<and> tx_cq t = noMem) e"
  shows "txPred caps O' B c (\<lambda>t. txGone t \<and> tx_cq t = noMem \<and> \<not> alive (tx_cqDbOffset t)) (txFreeCqDb e)"
proof (cases "alive (tx_cqDbOffset (eTx e))")
  case True
  let ?u = "freeDbSlots (tx_cqDbOffset (eTx e)) 2 (ethUar e)"
  have eq: "txFreeCqDb e = e\<lparr>eCo := (eCo e)\<lparr>coUar := ?u\<rparr>, eTx := (eTx e)\<lparr>tx_cqDbOffset := MLX5E_INVALID_RESOURCE\<rparr>\<rparr>"
    using True by (simp add: txFreeCqDb_def setUar_def updTx_def)
  have "uarOk (ethUar e)" "offOk (tx_cqDbOffset (eTx e))"
    using assms by (simp_all add: txPred_def ethBase_def ethAcct_def)
  note u = free2_taken [OF this True]
  show ?thesis unfolding eq
    by (intro tx_step [OF assms]) (use u in \<open>simp_all add: txRest_def ethAcct_def txSafe_def uarRest_def txGone_def\<close>)
qed (use assms in \<open>simp_all add: txFreeCqDb_def txPred_def\<close>)

lemma txPred_weaken: "txPred caps O' B c S e \<Longrightarrow> (ethSafe e \<Longrightarrow> S (eTx e) \<Longrightarrow> S' (eTx e)) \<Longrightarrow> txPred caps O' B c S' e"
  by (simp add: txPred_def ethBase_def)

lemma destroyTx_tri:
  "ethTri (txPred caps O' B c (\<lambda>t. True)) (destroyTxResources xc caps) (txPred caps O' B c txIdle)
     (txPred caps O' B c txTight)"
proof -
  let ?P = "txPred caps O' B c"
  have sq: "ethTri (?P (\<lambda>t. True)) (ethDestroy xc MLX_CMD_OP_DESTROY_SQ (\<lambda>e. tx_sqn (eTx e))
      (updTx (\<lambda>t. t\<lparr>tx_sqn := MLX5E_INVALID_RESOURCE\<rparr>))) (?P (\<lambda>t. \<not> alive (tx_sqn t))) (?P txTight)"
  proof (rule tri_destroy [OF txPred_cmd])
    fix e assume p: "?P (\<lambda>t. True) e" and "alive (tx_sqn (eTx e))"
    then show "?P (\<lambda>t. \<not> alive (tx_sqn t)) (updTx (\<lambda>t. t\<lparr>tx_sqn := MLX5E_INVALID_RESOURCE\<rparr>) e)"
      by (intro tx_step [OF p]) (simp_all add: updTx_def txRest_def ethAcct_def txSafe_def)
    show "?P txTight e"
      by (rule txPred_weaken [OF p])
        (use \<open>alive (tx_sqn (eTx e))\<close> in \<open>simp add: ethSafe_def txSafe_def txTight_def\<close>)
  qed (auto elim: txPred_weaken)
  have cq: "ethTri (?P (\<lambda>t. \<not> alive (tx_sqn t) \<and> tx_buf t = noMem \<and> \<not> alive (tx_dbOffset t) \<and> \<not> tx_bfValid t))
     (ethDestroy xc MLX_CMD_OP_DESTROY_CQ (\<lambda>e. tx_cqn (eTx e))
      (updTx (\<lambda>t. t\<lparr>tx_cqn := MLX5E_INVALID_RESOURCE\<rparr>))) (?P txGone) (?P txTight)"
  proof (rule tri_destroy [OF txPred_cmd])
    fix e assume p: "?P (\<lambda>t. \<not> alive (tx_sqn t) \<and> tx_buf t = noMem \<and> \<not> alive (tx_dbOffset t) \<and> \<not> tx_bfValid t) e"
      and a: "alive (tx_cqn (eTx e))"
    then show "?P txGone (updTx (\<lambda>t. t\<lparr>tx_cqn := MLX5E_INVALID_RESOURCE\<rparr>) e)"
      by (intro tx_step [OF p]) (simp_all add: updTx_def txRest_def ethAcct_def txSafe_def txGone_def)
    show "?P txTight e"
      by (rule txPred_weaken [OF p]) (use a in \<open>simp add: txTight_def\<close>)
  qed (auto elim: txPred_weaken simp: txGone_def)
  have tis: "ethTri (?P (\<lambda>t. txGone t \<and> tx_cq t = noMem \<and> \<not> alive (tx_cqDbOffset t)))
     (ethDestroy xc MLX_CMD_OP_DESTROY_TIS (\<lambda>e. tx_tisn (eTx e))
      (updTx (\<lambda>t. t\<lparr>tx_tisn := MLX5E_INVALID_RESOURCE\<rparr>)))
     (?P (\<lambda>t. txGone t \<and> tx_cq t = noMem \<and> \<not> alive (tx_cqDbOffset t) \<and> \<not> alive (tx_tisn t))) (?P txTight)"
  proof (rule tri_destroy [OF txPred_cmd])
    fix e assume p: "?P (\<lambda>t. txGone t \<and> tx_cq t = noMem \<and> \<not> alive (tx_cqDbOffset t)) e"
    then show "?P (\<lambda>t. txGone t \<and> tx_cq t = noMem \<and> \<not> alive (tx_cqDbOffset t) \<and> \<not> alive (tx_tisn t))
        (updTx (\<lambda>t. t\<lparr>tx_tisn := MLX5E_INVALID_RESOURCE\<rparr>) e)"
      by (intro tx_step [OF p]) (simp_all add: updTx_def txRest_def ethAcct_def txSafe_def txGone_def)
    show "?P txTight e" by (rule txPred_weaken [OF p]) (simp add: txTight_def txGone_def)
  qed (auto elim: txPred_weaken)
  have reset: "?P txIdle (txResetCounters e)"
    if p: "?P (\<lambda>t. txGone t \<and> tx_cq t = noMem \<and> \<not> alive (tx_cqDbOffset t) \<and> \<not> alive (tx_tisn t)) e" for e
    by (intro tx_step [OF p])
      (simp_all add: txResetCounters_def updTx_def txRest_def ethAcct_def txSafe_def txGone_def txIdle_def)
  show ?thesis
    unfolding destroyTxResources_def
    by (rule tri_cons [OF sq], rule tri_cons [OF tri_do], erule txFreeMbufs_step,
      rule tri_cons [OF tri_do], erule txFreePool_step, rule tri_cons [OF tri_do], erule txFreeDb_step,
      rule tri_cons [OF tri_do], erule txFreeBf_step, rule tri_cons [OF cq],
      rule tri_cons [OF tri_do], erule txFreeCq_step, rule tri_cons [OF tri_do], erule txFreeCqDb_step,
      rule tri_cons [OF tis], rule tri_last [OF tri_do], erule reset)
qed

section \<open>The receive side\<close>

definition rxRest :: "'w MlxEthernet \<Rightarrow> _" where
  "rxRest e = (eTx e, eTxRing e, ringRest (eRxRing e), (ePd e, eTd e, eMkeyIndex e, eLkey e),
     (eFlowTableId e, eFlowGroupId e, eFlowRootActive e, eFlowEntryValid e),
     (eCore e, eEq e, eNic e, eEnabled e, eEnabling e, eDisabling e, eNotifierRegistered e))"

definition rxTight :: "ethRxQ \<Rightarrow> bool" where
  "rxTight t \<longleftrightarrow> (\<not> alive (rx_rqn t) \<longrightarrow> rx_buf t = noMem \<and> \<not> alive (rx_dbOffset t)) \<and>
     (\<not> alive (rx_cqn t) \<longrightarrow> rx_cq t = noMem \<and> \<not> alive (rx_cqDbOffset t))"

definition rxIdle :: "ethRxQ \<Rightarrow> bool" where
  "rxIdle t \<longleftrightarrow> \<not> alive (rx_tirn t) \<and> \<not> alive (rx_rqn t) \<and> \<not> alive (rx_cqn t) \<and> \<not> alive (rx_dbOffset t) \<and>
     \<not> alive (rx_cqDbOffset t) \<and> rx_buf t = noMem \<and> rx_cq t = noMem"

text \<open>No flow rule points to the receive objects.\<close>

definition rxPred where
  "rxPred caps O' B c S e \<longleftrightarrow> ethBase caps O' B e \<and> rxRest e = c \<and> \<not> eFlowEntryValid e \<and> S (eRx e)"

lemma rxPred_cmd: "cmdInv (rxPred caps O' B c S)"
  by (simp add: cmdInv_def rxPred_def ethBase_def ethAcct_def ethSafe_defs rxRest_def)

lemma rx_step:
  assumes "rxPred caps O' B c S e" and "rxRest e' = rxRest e"
    and "ethAcct caps O' B e \<Longrightarrow> S (eRx e) \<Longrightarrow> ethAcct caps O' B e'"
    and "rxSafe e \<Longrightarrow> S (eRx e) \<Longrightarrow> rxSafe e'" and "S (eRx e) \<Longrightarrow> S' (eRx e')"
  shows "rxPred caps O' B c S' e'"
proof -
  from assms(2) have "txSafe e' = txSafe e" "globSafe e' = globSafe e" "eFlowEntryValid e' = eFlowEntryValid e"
    by (simp_all add: rxRest_def txSafe_def globSafe_def)
  moreover have "flowSafe e' = flowSafe e" if "\<not> eFlowEntryValid e"
    using assms(2) that by (auto simp: rxRest_def flowSafe_def)
  ultimately show ?thesis using assms by (simp add: rxPred_def ethBase_def ethSafe_def)
qed

lemma rxPred_weaken: "rxPred caps O' B c S e \<Longrightarrow> (ethSafe e \<Longrightarrow> S (eRx e) \<Longrightarrow> S' (eRx e)) \<Longrightarrow> rxPred caps O' B c S' e"
  by (simp add: rxPred_def ethBase_def)

definition rxGone1 :: "ethRxQ \<Rightarrow> bool" where
  "rxGone1 t \<longleftrightarrow> \<not> alive (rx_tirn t) \<and> \<not> alive (rx_rqn t)"

definition rxGone2 :: "ethRxQ \<Rightarrow> bool" where
  "rxGone2 t \<longleftrightarrow> rxGone1 t \<and> rx_buf t = noMem \<and> \<not> alive (rx_dbOffset t)"

definition rxGone3 :: "ethRxQ \<Rightarrow> bool" where
  "rxGone3 t \<longleftrightarrow> rxGone2 t \<and> \<not> alive (rx_cqn t)"

lemmas rxGone_defs = rxGone1_def rxGone2_def rxGone3_def

lemma rxFreePool_step:
  assumes "rxPred caps O' B c rxGone1 e"
  shows "rxPred caps O' B c (\<lambda>t. rxGone1 t \<and> rx_buf t = noMem) (rxFreePool e)"
proof (cases "em_desc (rx_buf (eRx e))")
  case None
  then have "rxFreePool e = e" by (simp add: rxFreePool_def)
  moreover have "rx_buf (eRx e) = noMem" using assms None by (simp add: rxPred_def ethBase_def ethAcct_def memOk_def)
  ultimately show ?thesis using assms by (simp add: rxPred_def)
next
  case (Some d)
  then have "rxFreePool e = e\<lparr>eLive := freeL (rx_buf (eRx e)) (eLive e), eRx := (eRx e)\<lparr>rx_buf := noMem\<rparr>\<rparr>"
    by (simp add: rxFreePool_def ethFreeMem_eq updRx_def)
  then show ?thesis
    by (intro rx_step [OF assms]) (simp_all add: rxRest_def ethAcct_def rxSafe_def rxGone_defs)
qed

lemma rxFreeDb_step:
  assumes "rxPred caps O' B c (\<lambda>t. rxGone1 t \<and> rx_buf t = noMem) e"
  shows "rxPred caps O' B c rxGone2 (rxFreeDb e)"
proof (cases "alive (rx_dbOffset (eRx e))")
  case True
  let ?u = "freeDbSlots (rx_dbOffset (eRx e)) 2 (ethUar e)"
  let ?ro = "map_option (\<lambda>r. r\<lparr>ring_db := None, ring_dbDMA := 0\<rparr>) (eRxRing e)"
  have eq: "rxFreeDb e = e\<lparr>eCo := (eCo e)\<lparr>coUar := ?u\<rparr>, eRx := (eRx e)\<lparr>rx_dbOffset := MLX5E_INVALID_RESOURCE\<rparr>,
      eRxRing := ?ro\<rparr>"
    using True by (simp add: rxFreeDb_def setUar_def updRx_def)
  have "uarOk (ethUar e)" "offOk (rx_dbOffset (eRx e))"
    using assms by (simp_all add: rxPred_def ethBase_def ethAcct_def)
  note u = free2_taken [OF this True]
  note ring = ringRest_cong [OF ringRest_db [of "eRxRing e"]] ringRest_db [of "eRxRing e"]
  show ?thesis unfolding eq
    by (intro rx_step [OF assms])
      (use u ring in \<open>simp_all add: rxRest_def ethAcct_def rxSafe_def uarRest_def rxGone_defs\<close>)
qed (use assms in \<open>simp_all add: rxFreeDb_def rxPred_def rxGone_defs\<close>)

lemma rxFreeCq_step:
  assumes "rxPred caps O' B c rxGone3 e"
  shows "rxPred caps O' B c (\<lambda>t. rxGone3 t \<and> rx_cq t = noMem) (rxFreeCq e)"
proof (cases "em_desc (rx_cq (eRx e))")
  case None
  then have "rxFreeCq e = e" by (simp add: rxFreeCq_def)
  moreover have "rx_cq (eRx e) = noMem" using assms None by (simp add: rxPred_def ethBase_def ethAcct_def memOk_def)
  ultimately show ?thesis using assms by (simp add: rxPred_def)
next
  case (Some d)
  then have "rxFreeCq e = e\<lparr>eLive := freeL (rx_cq (eRx e)) (eLive e), eRx := (eRx e)\<lparr>rx_cq := noMem, rx_cqBuf := False\<rparr>\<rparr>"
    by (simp add: rxFreeCq_def ethFreeMem_eq updRx_def)
  then show ?thesis
    by (intro rx_step [OF assms]) (simp_all add: rxRest_def ethAcct_def rxSafe_def rxGone_defs)
qed

lemma rxFreeCqDb_step:
  assumes "rxPred caps O' B c (\<lambda>t. rxGone3 t \<and> rx_cq t = noMem) e"
  shows "rxPred caps O' B c (\<lambda>t. rxGone3 t \<and> rx_cq t = noMem \<and> \<not> alive (rx_cqDbOffset t)) (rxFreeCqDb e)"
proof (cases "alive (rx_cqDbOffset (eRx e))")
  case True
  let ?u = "freeDbSlots (rx_cqDbOffset (eRx e)) 2 (ethUar e)"
  have eq: "rxFreeCqDb e = e\<lparr>eCo := (eCo e)\<lparr>coUar := ?u\<rparr>, eRx := (eRx e)\<lparr>rx_cqDbOffset := MLX5E_INVALID_RESOURCE\<rparr>\<rparr>"
    using True by (simp add: rxFreeCqDb_def setUar_def updRx_def)
  have "uarOk (ethUar e)" "offOk (rx_cqDbOffset (eRx e))"
    using assms by (simp_all add: rxPred_def ethBase_def ethAcct_def)
  note u = free2_taken [OF this True]
  show ?thesis unfolding eq
    by (intro rx_step [OF assms]) (use u in \<open>simp_all add: rxRest_def ethAcct_def rxSafe_def uarRest_def rxGone_defs\<close>)
qed (use assms in \<open>simp_all add: rxFreeCqDb_def rxPred_def\<close>)

lemma rx_destroy:
  assumes "\<And>e :: 'w MlxEthernet. rxPred caps O' B c S e \<Longrightarrow> \<not> alive (ident (eRx e)) \<Longrightarrow> S' (eRx e)"
    and "\<And>e :: 'w MlxEthernet. rxPred caps O' B c S e \<Longrightarrow> rxSafe e \<Longrightarrow> S (eRx e) \<Longrightarrow> rxSafe (e\<lparr>eRx := f (eRx e)\<rparr>) \<and> S' (f (eRx e))"
    and "\<And>e :: 'w MlxEthernet. rxPred caps O' B c S e \<Longrightarrow> rxSafe e \<Longrightarrow> alive (ident (eRx e)) \<Longrightarrow> rxTight (eRx e)"
    and "\<And>t. rx_dbOffset (f t) = rx_dbOffset t \<and> rx_cqDbOffset (f t) = rx_cqDbOffset t \<and> rx_buf (f t) = rx_buf t \<and>
      rx_cq (f t) = rx_cq t"
  shows "ethTri (rxPred caps O' B c S :: 'w MlxEthernet \<Rightarrow> bool) (ethDestroy xc opc (\<lambda>e. ident (eRx e)) (updRx f))
     (rxPred caps O' B c S') (rxPred caps O' B c rxTight)"
proof (rule tri_destroy [OF rxPred_cmd])
  fix e :: "'w MlxEthernet" assume p: "rxPred caps O' B c S e" and a: "alive (ident (eRx e))"
  have s: "rxSafe e" using p by (simp add: rxPred_def ethBase_def ethSafe_def)
  show "rxPred caps O' B c S' (updRx f e)"
    by (intro rx_step [OF p]) (use assms(2) [OF p s] assms(4) in \<open>simp_all add: updRx_def rxRest_def ethAcct_def\<close>)
  show "rxPred caps O' B c rxTight e"
    using p a assms(3) [OF p] by (simp add: rxPred_def ethBase_def ethSafe_def)
qed (use assms(1) in \<open>auto simp: rxPred_def\<close>)

lemma destroyRx_tri:
  "ethTri (rxPred caps O' B c (\<lambda>t. True)) (destroyRxResources xc) (rxPred caps O' B c rxIdle)
     (rxPred caps O' B c rxTight)"
proof -
  let ?P = "rxPred caps O' B c"
  have reset: "?P rxIdle (rxResetCounters e)"
    if p: "?P (\<lambda>t. rxGone3 t \<and> rx_cq t = noMem \<and> \<not> alive (rx_cqDbOffset t)) e" for e
    by (intro rx_step [OF p])
      (simp_all add: rxResetCounters_def updRx_def rxRest_def ethAcct_def rxSafe_def rxGone_defs rxIdle_def)
  show ?thesis
    unfolding destroyRxResources_def
    apply (rule tri_cons [OF rx_destroy [where S' = "\<lambda>t. \<not> alive (rx_tirn t)"]])
        apply (simp_all add: rxSafe_def rxTight_def)[4]
    apply (rule tri_cons [OF rx_destroy [where S' = rxGone1]])
        apply (auto simp add: rxSafe_def rxTight_def rxGone_defs rxPred_def)[4]
    apply (rule tri_cons [OF tri_do], erule rxFreePool_step, rule tri_cons [OF tri_do], erule rxFreeDb_step)
    apply (rule tri_cons [OF rx_destroy [where S' = rxGone3]])
        apply (auto simp add: rxSafe_def rxTight_def rxGone_defs rxPred_def)[4]
    by (rule tri_cons [OF tri_do], erule rxFreeCq_step, rule tri_cons [OF tri_do], erule rxFreeCqDb_step,
      rule tri_last [OF tri_do], erule reset)
qed

end
