(* ===== verification/MlxEthCtl.thy ===== *)
theory MlxEthCtl
  imports MlxEthInv
begin

text \<open>
  The triples of the functions that create objects, and of \<open>enable\<close>, \<open>disable\<close> and \<open>stop\<close>:
  from a state where everything is accounted for, each of them ends in one.
\<close>

unbundle bit_operations_syntax

section \<open>Allocation steps\<close>

lemma ethAllocMem_cases:
  assumes "ethAllocMem en e = (kr, mem, e')"
  obtains "kr = kIOReturnNoMemory" "mem = noMem" "e' = e"
  | l n where "kr \<noteq> kIOReturnSuccess" "em_desc mem \<noteq> None" "memOk mem"
      "e' = e\<lparr>eNext := n, eLive := l\<rparr>" "mset l = mset (eLive e) + memM mem"
  | l n where "kr = kIOReturnSuccess" "memHeld mem" "memOk mem"
      "e' = e\<lparr>eNext := n, eLive := l\<rparr>" "mset l = mset (eLive e) + memM mem"
proof -
  obtain ok k dma where en: "en = (ok, k, dma)" by (metis prod_cases3)
  show thesis
  proof (cases ok)
    case False
    then show thesis using assms that(1) by (simp add: ethAllocMem_def en)
  next
    case ok: True
    show thesis
    proof (cases "k = kIOReturnSuccess")
      case True
      with assms ok have "kr = kIOReturnSuccess" "mem = \<lparr>em_desc = Some (eNext e), em_map = Some (eNext e + 1), em_dma = dma\<rparr>"
        "e' = e\<lparr>eNext := eNext e + 2, eLive := (eNext e + 1) # eNext e # eLive e\<rparr>"
        by (auto simp: ethAllocMem_def en Let_def)
      then show thesis by (intro that(3) [where l = "(eNext e + 1) # eNext e # eLive e"])
          (simp_all add: memHeld_def memOk_def memM_def optM_def add_mset_commute)
    next
      case False
      with assms ok have "kr = k" "mem = \<lparr>em_desc = Some (eNext e), em_map = None, em_dma = 0\<rparr>"
        "e' = e\<lparr>eNext := eNext e + 1, eLive := eNext e # eLive e\<rparr>"
        by (auto simp: ethAllocMem_def en Let_def)
      then show thesis using False by (intro that(2) [where l = "eNext e # eLive e"]) (simp_all add: memOk_def memM_def optM_def)
    qed
  qed
qed

text \<open>A state that holds the same as another, up to the command interface and the numbering.\<close>

definition sameHeld :: "'w MlxEthernet \<Rightarrow> 'w MlxEthernet \<Rightarrow> bool" where
  "sameHeld e e' \<longleftrightarrow> (\<exists>co n l. e' = e\<lparr>eNext := n, eLive := l, eCo := co\<rparr> \<and> mset l = mset (eLive e) \<and>
     uarOk (coUar co) \<and> uarRest (coUar co) = uarRest (ethUar e) \<and> dbTaken (coUar co) = dbTaken (ethUar e))"

lemma sameHeldI:
  "e' = e\<lparr>eNext := n, eLive := l, eCo := co\<rparr> \<Longrightarrow> mset l = mset (eLive e) \<Longrightarrow> uarOk (coUar co) \<Longrightarrow>
   uarRest (coUar co) = uarRest (ethUar e) \<Longrightarrow> dbTaken (coUar co) = dbTaken (ethUar e) \<Longrightarrow> sameHeld e e'"
  unfolding sameHeld_def by blast

lemma cmdCreateCq_cases:
  assumes ok: "uarOk (ethUar e)" and f: "cmdCreateCq xc en lg store e = (kr, e')"
  obtains "kr \<noteq> kIOReturnSuccess" "sameHeld e e'"
  | x mem off co n l where "kr = kIOReturnSuccess" "alive x" "memHeld mem" "memOk mem" "alive off" "offOk off"
      "e' = store x mem off (e\<lparr>eNext := n, eLive := l, eCo := co\<rparr>)" "mset l = mset (eLive e) + memM mem"
      "uarOk (coUar co)" "uarRest (coUar co) = uarRest (ethUar e)"
      "dbTaken (coUar co) = dbTaken (ethUar e) + offM off"
proof -
  obtain k1 mem e1 where al: "ethAllocMem en e = (k1, mem, e1)" by (metis prod_cases3)
  have same: "sameHeld e e"
    by (rule sameHeldI [where n = "eNext e" and l = "eLive e" and co = "eCo e"]) (simp_all add: ok)
  from al show thesis
  proof (cases rule: ethAllocMem_cases)
    case 1
    then show thesis using f al same that(1) by (simp add: cmdCreateCq_def noMem_def)
  next
    case (2 l n)
    then have "e' = e\<lparr>eNext := n, eLive := freeL mem l, eCo := eCo e\<rparr>" "kr = kIOReturnNoMemory"
      using f al by (auto simp: cmdCreateCq_def ethFreeMem_eq)
    then show thesis using 2 ok by (intro that(1)) (simp, erule sameHeldI, simp_all)
  next
    case (3 l n)
    obtain k2 offo uar where db: "allocDbSlots 2 (ethUar e) = (k2, offo, uar)" by (metis prod_cases3)
    note db' = alloc2_taken [OF ok db]
    have d: "em_desc mem \<noteq> None" using 3 by (simp add: memHeld_def)
    have u1: "ethUar e1 = ethUar e" using 3 by simp
    show thesis
    proof (cases "k2 = kIOReturnSuccess")
      case False
      then have "e' = e\<lparr>eNext := n, eLive := freeL mem l, eCo := (eCo e)\<lparr>coUar := ethUar e\<rparr>\<rparr>" "kr = kIOReturnNoResources"
        using f al 3 d db db' by (auto simp: cmdCreateCq_def ethFreeMem_eq setUar_def Let_def)
      then show thesis using 3 ok by (intro that(1)) (simp, erule sameHeldI, simp_all)
    next
      case True
      then obtain off where off: "offo = Some off" "alive off" "offOk off" "dbTaken uar = dbTaken (ethUar e) + offM off"
        and u: "uarOk uar" "uarRest uar = uarRest (ethUar e)" using db' by auto
      let ?in = "ethCqInput lg (fBootIndex uar) (compEqn0 (setUar uar e1)) (fDbRecordDMA uar + ucast off) (em_dma mem)"
      obtain k3 out e3 where x: "ethExec xc MLX_CMD_OP_CREATE_CQ ?in 16 (setUar uar e1) = (k3, out, e3)"
        by (metis prod_cases3)
      then obtain co where co: "e3 = (setUar uar e1)\<lparr>eCo := co\<rparr>" "coUar co = uar"
        using ethExec_cmd [OF x] by (auto simp: setUar_def)
      show thesis
      proof (cases "k3 = kIOReturnSuccess")
        case False
        then have "kr = k3"
          "e' = e\<lparr>eNext := n, eLive := freeL mem l, eCo := co\<lparr>coUar := freeDbSlots off 2 uar\<rparr>\<rparr>"
          using f al 3 d db True off(1) x co u1 by (auto simp: cmdCreateCq_def ethFreeMem_eq setUar_def Let_def)
        moreover note free2_taken [OF u(1) off(3,2)]
        ultimately show thesis using 3 off(4) u(2) False by (intro that(1)) (simp, erule sameHeldI, simp_all)
      next
        case True
        then have "kr = kIOReturnSuccess" "e' = store (mlx5e_out_obj out) mem off (e\<lparr>eNext := n, eLive := l, eCo := co\<rparr>)"
          using f al 3 d db \<open>k2 = kIOReturnSuccess\<close> off(1) x co u1 by (auto simp: cmdCreateCq_def setUar_def Let_def)
        then show thesis using 3 off u co(2) out_obj_alive
            by (intro that(2) [where x = "mlx5e_out_obj out" and mem = mem and off = off and co = co and n = n and l = l]) simp_all
      qed
    qed
  qed
qed

text \<open>The two work queues: a failure leaves everything as it was.\<close>

lemma cmdCreateSq_cases:
  assumes ok: "uarOk (ethUar e)" and f: "cmdCreateSq xc e = (kr, e')"
  obtains "kr \<noteq> kIOReturnSuccess" "sameHeld e e'"
  | x off co r where "kr = kIOReturnSuccess" "alive x" "alive off" "offOk off" "eTxRing e = Some r"
      "ring_wqBuf r \<noteq> None" "em_dma (ring_mem r) \<noteq> 0"
      "e' = (updTx (\<lambda>t. t\<lparr>tx_sqn := x, tx_dbOffset := off\<rparr>) (e\<lparr>eCo := co\<rparr>))
        \<lparr>eTxRing := Some (r\<lparr>ring_db := Some (unat (off div 4) * 4 + 4), ring_dbDMA := fDbRecordDMA (coUar co) + ucast off\<rparr>)\<rparr>"
      "uarOk (coUar co)" "uarRest (coUar co) = uarRest (ethUar e)"
      "dbTaken (coUar co) = dbTaken (ethUar e) + offM off"
proof -
  have same: "sameHeld e e"
    by (rule sameHeldI [where n = "eNext e" and l = "eLive e" and co = "eCo e"]) (simp_all add: ok)
  show thesis
  proof (cases "\<exists>r. eTxRing e = Some r \<and> ring_wqBuf r \<noteq> None \<and> em_dma (ring_mem r) \<noteq> 0")
    case False
    then have "kr = kIOReturnNotReady \<and> e' = e" using f by (auto simp: cmdCreateSq_def split: option.splits if_splits)
    then show thesis using same that(1) by simp
  next
    case True
    then obtain r where r: "eTxRing e = Some r" "ring_wqBuf r \<noteq> None" "em_dma (ring_mem r) \<noteq> 0" by blast
    obtain k2 offo uar where db: "allocDbSlots 2 (ethUar e) = (k2, offo, uar)" by (metis prod_cases3)
    note db' = alloc2_taken [OF ok db]
    show thesis
    proof (cases "k2 = kIOReturnSuccess")
      case False
      then have "e' = e\<lparr>eNext := eNext e, eLive := eLive e, eCo := eCo e\<rparr>" "kr = kIOReturnNoResources"
        using f r db db' by (auto simp: cmdCreateSq_def setUar_def Let_def)
      then show thesis using same that(1) by simp
    next
      case k2: True
      then obtain off where off: "offo = Some off" "alive off" "offOk off" "dbTaken uar = dbTaken (ethUar e) + offM off"
        and u: "uarOk uar" "uarRest uar = uarRest (ethUar e)" using db' by auto
      let ?in = "ethSqInput (eTxMinInlineMode e) (tx_cqn (eTx e)) (tx_tisn (eTx e)) (ePd e)
        (fBootIndex uar) (fDbRecordDMA uar + ucast off) (em_dma (ring_mem r))"
      obtain k3 out e3 where x: "ethExec xc MLX_CMD_OP_CREATE_SQ ?in 16 (setUar uar e) = (k3, out, e3)"
        by (metis prod_cases3)
      then obtain co where co: "e3 = (setUar uar e)\<lparr>eCo := co\<rparr>" "coUar co = uar"
        using ethExec_cmd [OF x] by (auto simp: setUar_def)
      show thesis
      proof (cases "k3 = kIOReturnSuccess")
        case False
        then have "kr = k3"
          "e' = e\<lparr>eNext := eNext e, eLive := eLive e, eCo := co\<lparr>coUar := freeDbSlots off 2 uar\<rparr>\<rparr>"
          using f db r k2 off(1) x co by (auto simp: cmdCreateSq_def setUar_def Let_def)
        moreover note free2_taken [OF u(1) off(3,2)]
        ultimately show thesis using off(4) u(2) False by (intro that(1)) (simp, erule sameHeldI, simp_all)
      next
        case True
        then have "kr = kIOReturnSuccess"
          "e' = (updTx (\<lambda>t. t\<lparr>tx_sqn := mlx5e_out_obj out, tx_dbOffset := off\<rparr>) (e\<lparr>eCo := co\<rparr>))
            \<lparr>eTxRing := Some (r\<lparr>ring_db := Some (unat (off div 4) * 4 + 4), ring_dbDMA := fDbRecordDMA (coUar co) + ucast off\<rparr>)\<rparr>"
          using f db r k2 off(1) x co
          by (auto simp: cmdCreateSq_def setUar_def Let_def updTx_def MLX_SND_DBR_def)
        then show thesis using r off u co(2) out_obj_alive
          by (intro that(2) [where x = "mlx5e_out_obj out" and off = off and co = co and r = r]) simp_all
      qed
    qed
  qed
qed

lemma cmdCreateRq_cases:
  assumes ok: "uarOk (ethUar e)" and f: "cmdCreateRq xc e = (kr, e')"
  obtains "kr \<noteq> kIOReturnSuccess" "sameHeld e e'"
  | x off co r where "kr = kIOReturnSuccess" "alive x" "alive off" "offOk off" "eRxRing e = Some r"
      "ring_wqBuf r \<noteq> None" "em_dma (ring_mem r) \<noteq> 0"
      "e' = (updRx (\<lambda>t. t\<lparr>rx_rqn := x, rx_dbOffset := off\<rparr>) (e\<lparr>eCo := co\<rparr>))
        \<lparr>eRxRing := Some (r\<lparr>ring_db := Some (unat (off div 4) * 4), ring_dbDMA := fDbRecordDMA (coUar co) + ucast off\<rparr>)\<rparr>"
      "uarOk (coUar co)" "uarRest (coUar co) = uarRest (ethUar e)"
      "dbTaken (coUar co) = dbTaken (ethUar e) + offM off"
proof -
  have same: "sameHeld e e"
    by (rule sameHeldI [where n = "eNext e" and l = "eLive e" and co = "eCo e"]) (simp_all add: ok)
  show thesis
  proof (cases "\<exists>r. eRxRing e = Some r \<and> ring_wqBuf r \<noteq> None \<and> em_dma (ring_mem r) \<noteq> 0")
    case False
    then have "kr = kIOReturnNotReady \<and> e' = e" using f by (auto simp: cmdCreateRq_def split: option.splits if_splits)
    then show thesis using same that(1) by simp
  next
    case True
    then obtain r where r: "eRxRing e = Some r" "ring_wqBuf r \<noteq> None" "em_dma (ring_mem r) \<noteq> 0" by blast
    obtain k2 offo uar where db: "allocDbSlots 2 (ethUar e) = (k2, offo, uar)" by (metis prod_cases3)
    note db' = alloc2_taken [OF ok db]
    show thesis
    proof (cases "k2 = kIOReturnSuccess")
      case False
      then have "e' = e\<lparr>eNext := eNext e, eLive := eLive e, eCo := eCo e\<rparr>" "kr = kIOReturnNoResources"
        using f r db db' by (auto simp: cmdCreateRq_def setUar_def Let_def)
      then show thesis using same that(1) by simp
    next
      case k2: True
      then obtain off where off: "offo = Some off" "alive off" "offOk off" "dbTaken uar = dbTaken (ethUar e) + offM off"
        and u: "uarOk uar" "uarRest uar = uarRest (ethUar e)" using db' by auto
      let ?in = "ethRqInput (rx_cqn (eRx e)) (ePd e) (fBootIndex uar) (fDbRecordDMA uar + ucast off) (em_dma (ring_mem r))"
      obtain k3 out e3 where x: "ethExec xc MLX_CMD_OP_CREATE_RQ ?in 16 (setUar uar e) = (k3, out, e3)"
        by (metis prod_cases3)
      then obtain co where co: "e3 = (setUar uar e)\<lparr>eCo := co\<rparr>" "coUar co = uar"
        using ethExec_cmd [OF x] by (auto simp: setUar_def)
      show thesis
      proof (cases "k3 = kIOReturnSuccess")
        case False
        then have "kr = k3"
          "e' = e\<lparr>eNext := eNext e, eLive := eLive e, eCo := co\<lparr>coUar := freeDbSlots off 2 uar\<rparr>\<rparr>"
          using f db r k2 off(1) x co by (auto simp: cmdCreateRq_def setUar_def Let_def)
        moreover note free2_taken [OF u(1) off(3,2)]
        ultimately show thesis using off(4) u(2) False by (intro that(1)) (simp, erule sameHeldI, simp_all)
      next
        case True
        then have "kr = kIOReturnSuccess"
          "e' = (updRx (\<lambda>t. t\<lparr>rx_rqn := mlx5e_out_obj out, rx_dbOffset := off\<rparr>) (e\<lparr>eCo := co\<rparr>))
            \<lparr>eRxRing := Some (r\<lparr>ring_db := Some (unat (off div 4) * 4), ring_dbDMA := fDbRecordDMA (coUar co) + ucast off\<rparr>)\<rparr>"
          using f db r k2 off(1) x co by (auto simp: cmdCreateRq_def setUar_def Let_def updRx_def)
        then show thesis using r off u co(2) out_obj_alive
          by (intro that(2) [where x = "mlx5e_out_obj out" and off = off and co = co and r = r]) simp_all
      qed
    qed
  qed
qed

section \<open>Creating the send side\<close>

lemma tx_same: "txPred caps O' B c S e \<Longrightarrow> sameHeld e e' \<Longrightarrow> txPred caps O' B c S e'"
  unfolding sameHeld_def
  by (elim exE conjE, rule tx_step, assumption) (simp_all add: txRest_def ethAcct_def txSafe_def uarRest_def)

definition txEnv :: "'w MlxEthernet \<Rightarrow> bool" where
  "txEnv e \<longleftrightarrow> ringHeld (eTxRing e) \<and> alive (ePd e) \<and> alive (eTd e) \<and> alive (eMkeyIndex e)"

definition txUp :: "ethTxQ \<Rightarrow> bool" where
  "txUp t \<longleftrightarrow> alive (tx_tisn t) \<and> alive (tx_cqn t) \<and> alive (tx_sqn t) \<and> alive (tx_dbOffset t) \<and> alive (tx_cqDbOffset t) \<and>
     memHeld (tx_buf t) \<and> memHeld (tx_cq t) \<and> tx_cqBuf t \<and> tx_bfValid t \<and>
     tx_pc t = 0 \<and> tx_cc t = 0 \<and> tx_cqCc t = 0 \<and> tx_armSn t = 0"

definition txZero :: "ethTxQ \<Rightarrow> bool" where
  "txZero t \<longleftrightarrow> tx_pc t = 0 \<and> tx_cc t = 0 \<and> tx_cqCc t = 0 \<and> tx_armSn t = 0"

definition txSt1 where
  "txSt1 t \<longleftrightarrow> txZero t \<and> memHeld (tx_buf t) \<and> \<not> alive (tx_sqn t) \<and> \<not> alive (tx_cqn t) \<and> \<not> alive (tx_dbOffset t) \<and>
     \<not> alive (tx_cqDbOffset t) \<and> \<not> tx_bfValid t \<and> tx_cq t = noMem"

definition txSt2 where
  "txSt2 t \<longleftrightarrow> txZero t \<and> memHeld (tx_buf t) \<and> alive (tx_tisn t) \<and> \<not> alive (tx_sqn t) \<and> alive (tx_cqn t) \<and>
     \<not> alive (tx_dbOffset t) \<and> alive (tx_cqDbOffset t) \<and> \<not> tx_bfValid t \<and> memHeld (tx_cq t) \<and> tx_cqBuf t"

definition txSt3 where
  "txSt3 t \<longleftrightarrow> txZero t \<and> memHeld (tx_buf t) \<and> alive (tx_tisn t) \<and> alive (tx_sqn t) \<and> alive (tx_cqn t) \<and>
     alive (tx_dbOffset t) \<and> alive (tx_cqDbOffset t) \<and> \<not> tx_bfValid t \<and> memHeld (tx_cq t) \<and> tx_cqBuf t"

lemmas txSt_defs = txSt1_def txSt2_def txSt3_def txZero_def

lemma txClearRing_frame: "\<exists>ro. txClearRing e = e\<lparr>eLog := eLog e, eTxRing := ro\<rparr> \<and> ringRest ro = ringRest (eTxRing e)"
proof -
  have "ringRest (Some (foldl (\<lambda>r i. clearWqeMbuf i r) r xs)) = ringRest (Some r)" for r xs
    by (induction xs arbitrary: r) (simp_all add: ringRest_def clearWqeMbuf_def setWqeMbuf_def)
  then show ?thesis by (cases "eTxRing e") (auto simp: txClearRing_def intro!: exI)
qed

definition txPredK where
  "txPredK caps O' B c S e \<longleftrightarrow> txPred caps O' B c S e \<and> txEnv e"

lemma txEnv_rest: "txRest e' = txRest e \<Longrightarrow> txEnv e' = txEnv e"
  using ringRest_cong [of "eTxRing e'" "eTxRing e"] by (simp add: txEnv_def txRest_def)

lemma txPredK_cmd: "cmdInv (txPredK caps O' B c S :: 'w MlxEthernet \<Rightarrow> bool)"
proof -
  have "cmdInv (txPred caps O' B c S :: 'w MlxEthernet \<Rightarrow> bool)" by (rule txPred_cmd)
  then show ?thesis by (auto simp: cmdInv_def txPredK_def txEnv_def)
qed

lemma txK_step:
  assumes "txPredK caps O' B c S e" and "txRest e' = txRest e"
    and "ethAcct caps O' B e \<Longrightarrow> S (eTx e) \<Longrightarrow> ethAcct caps O' B e'"
    and "txSafe e \<Longrightarrow> txEnv e \<Longrightarrow> S (eTx e) \<Longrightarrow> txSafe e'" and "S (eTx e) \<Longrightarrow> S' (eTx e')"
  shows "txPredK caps O' B c S' e'"
  using assms txRest_safe [OF assms(2)] txEnv_rest [OF assms(2)]
  by (simp add: txPredK_def txPred_def ethBase_def ethSafe_def)

lemma txK_same: "txPredK caps O' B c S e \<Longrightarrow> sameHeld e e' \<Longrightarrow> txPredK caps O' B c S e'"
  using tx_same [of caps O' B c S e e'] txEnv_rest [of e' e] by (simp add: txPredK_def txPred_def)

lemma txK_any: "txPredK caps O' B c S e \<Longrightarrow> txPredK caps O' B c (\<lambda>t. True) e"
  by (simp add: txPredK_def txPred_def)

lemma txUp_body:
  assumes bf: "ucLogBfRegSize caps \<le> 30"
  shows "ethTri (txPredK caps O' B c txSt1)
    (ethRun [cmdCreateTis xc, txCreateCq xc env, cmdCreateSq xc, txAllocBf caps, cmdModifySqReady xc])
    (txPredK caps O' B c txUp) (txPredK caps O' B c (\<lambda>t. True))"
proof -
  let ?P = "txPredK caps O' B c"
  have tis: "ethTri (?P txSt1) (cmdCreateTis xc) (?P (\<lambda>t. txSt1 t \<and> alive (tx_tisn t))) (?P (\<lambda>t. True))"
    unfolding cmdCreateTis_def
  proof (rule tri_create [OF txPredK_cmd])
    fix e :: "'a MlxEthernet" and x assume p: "?P txSt1 e" and x: "alive x"
    show "?P (\<lambda>t. txSt1 t \<and> alive (tx_tisn t)) (updTx (\<lambda>t. t\<lparr>tx_tisn := x\<rparr>) e)"
      by (rule txK_step [OF p])
        (use x in \<open>simp_all add: updTx_def txRest_def ethAcct_def txSafe_def txSt_defs txEnv_def\<close>)
  qed (rule txK_any)
  have cq: "ethTri (?P (\<lambda>t. txSt1 t \<and> alive (tx_tisn t))) (txCreateCq xc env) (?P txSt2) (?P (\<lambda>t. True))"
  proof (rule triI)
    fix e :: "'a MlxEthernet" and kr e'
    assume p: "?P (\<lambda>t. txSt1 t \<and> alive (tx_tisn t)) e" and f: "txCreateCq xc env e = (kr, e')"
    have ok: "uarOk (ethUar e)" using p by (simp add: txPredK_def txPred_def ethBase_def ethAcct_def)
    from ok f [unfolded txCreateCq_def] show "if kr = kIOReturnSuccess then ?P txSt2 e' else ?P (\<lambda>t. True) e'"
    proof (cases rule: cmdCreateCq_cases)
      case 1
      then show ?thesis using txK_any [OF txK_same [OF p]] by simp
    next
      case (2 x mem off co n l)
      then have "?P txSt2 e'"
        by (intro txK_step [OF p])
          (simp_all add: updTx_def txRest_def ethAcct_def txSafe_def txSt_defs txEnv_def uarRest_def)
      then show ?thesis using 2(1) by simp
    qed
  qed
  have sq: "ethTri (?P txSt2) (cmdCreateSq xc) (?P txSt3) (?P (\<lambda>t. True))"
  proof (rule triI)
    fix e :: "'a MlxEthernet" and kr e'
    assume p: "?P txSt2 e" and f: "cmdCreateSq xc e = (kr, e')"
    have ok: "uarOk (ethUar e)" using p by (simp add: txPredK_def txPred_def ethBase_def ethAcct_def)
    from ok f show "if kr = kIOReturnSuccess then ?P txSt3 e' else ?P (\<lambda>t. True) e'"
    proof (cases rule: cmdCreateSq_cases)
      case 1
      then show ?thesis using txK_any [OF txK_same [OF p]] by simp
    next
      case (2 x off co r)
      then have "ringRest (eTxRing e') = ringRest (eTxRing e)" by (simp add: ringRest_def)
      note ring = this ringRest_cong [OF this]
      have "?P txSt3 e'"
        by (intro txK_step [OF p])
          (use 2 ring in \<open>simp_all add: updTx_def txRest_def ethAcct_def txSafe_def txSt_defs txEnv_def uarRest_def\<close>)
      then show ?thesis using 2(1) by simp
    qed
  qed
  have bfreg: "ethTri (?P txSt3) (txAllocBf caps :: 'a ethStep) (?P txUp) (?P (\<lambda>t. True))"
  proof (rule triI)
    fix e :: "'a MlxEthernet" and kr e'
    assume p: "?P txSt3 e" and f: "txAllocBf caps e = (kr, e')"
    obtain k b u where al: "allocBfreg caps (tx_bf (eTx e)) (ethUar e) = (k, b, u)" by (metis prod_cases3)
    note a = allocBfreg_spec [OF bf, where ?b0.0 = "tx_bf (eTx e)" and st = "ethUar e", unfolded al prod.case]
    show "if kr = kIOReturnSuccess then ?P txUp e' else ?P (\<lambda>t. True) e'"
    proof (cases "k = kIOReturnSuccess")
      case True
      then have "freeBfreg caps (Some b) u = ethUar e" using a by auto
      then have u: "ethUar e = u\<lparr>fUarBitmap := bfBits caps b (fUarBitmap u)\<rparr>" by (simp add: freeBfreg_bits)
      have e': "e' = e\<lparr>eCo := (eCo e)\<lparr>coUar := u\<rparr>, eTx := (eTx e)\<lparr>tx_bf := b, tx_bfValid := True\<rparr>\<rparr>" "kr = kIOReturnSuccess"
        using f al True by (auto simp: txAllocBf_def setUar_def updTx_def Let_def)
      have ub: "uarOk u = uarOk (ethUar e)" "dbTaken u = dbTaken (ethUar e)" "bfBits caps b (fUarBitmap u) = fUarBitmap (ethUar e)"
        unfolding u by (simp_all add: uarOk_def dbWf_def dbTaken_def)
      have "?P txUp e'"
        by (intro txK_step [OF p])
          (use e'(1) ub in \<open>simp_all add: txRest_def ethAcct_def txSafe_def txSt_defs txUp_def txEnv_def\<close>)
      then show ?thesis using e'(2) by simp
    next
      case False
      then have e': "e' = e\<lparr>eCo := (eCo e)\<lparr>coUar := ethUar e\<rparr>, eTx := (eTx e)\<lparr>tx_bf := b\<rparr>\<rparr>" "kr \<noteq> kIOReturnSuccess"
        using f al a by (auto simp: txAllocBf_def setUar_def updTx_def Let_def)
      have "?P (\<lambda>t. True) e'"
        by (intro txK_step [OF p])
          (use e'(1) in \<open>simp_all add: txRest_def ethAcct_def txSafe_def txSt_defs txEnv_def\<close>)
      then show ?thesis using e'(2) by simp
    qed
  qed
  have rdy: "ethTri (?P txUp) (cmdModifySqReady xc) (?P txUp) (?P (\<lambda>t. True))"
    by (rule triI)
      (auto simp: cmdModifySqReady_def split: prod.splits dest!: ethExec_cmd intro: txK_any cmdInvD [OF txPredK_cmd])
  show ?thesis
    by (rule tri_cons [OF tis], rule tri_cons [OF cq], rule tri_cons [OF sq], rule tri_cons [OF bfreg],
      rule tri_last [OF rdy])
qed

lemma createTx_tri:
  assumes bf: "ucLogBfRegSize caps \<le> 30"
  shows "ethTri (txPredK caps O' B c txIdle) (createTxResources xc caps env)
    (txPredK caps O' B c txUp) (txPredK caps O' B c txTight)"
proof (rule triI)
  let ?P = "txPredK caps O' B c"
  fix e :: "'a MlxEthernet" and kr e'
  assume p: "?P txIdle e" and f: "createTxResources xc caps env e = (kr, e')"
  have p1: "?P (\<lambda>t. txIdle t \<and> txZero t) (txResetCounters e)"
    by (rule txK_step [OF p]) (simp_all add: txZero_def txResetCounters_def updTx_def txRest_def ethAcct_def txSafe_def txIdle_def)
  obtain ro where ro: "txClearRing (txResetCounters e) = (txResetCounters e)\<lparr>eLog := eLog (txResetCounters e), eTxRing := ro\<rparr>"
    "ringRest ro = ringRest (eTxRing (txResetCounters e))" using txClearRing_frame by blast
  let ?e1 = "txClearRing (txResetCounters e)"
  have p2: "?P (\<lambda>t. txIdle t \<and> txZero t) ?e1"
    using ringRest_cong [OF ro(2)] ro(2) unfolding ro(1)
    by (intro txK_step [OF p1]) (simp_all add: txRest_def ethAcct_def txSafe_def)
  obtain k mem e2 where al: "ethAllocMem (enTxPool env) ?e1 = (k, mem, e2)" by (metis prod_cases3)
  let ?pool = "replicate (2 ^ MLX5E_DEFAULT_LOG_SQ_SIZE * MLX5E_TX_BUF_SIZE) (0 :: u8)"
  let ?e3 = "updTx (\<lambda>t. t\<lparr>tx_buf := mem, tx_pool := ?pool\<rparr>) e2"
  have down: "?P txTight (snd (destroyTxResources xc caps d))" if "?P (\<lambda>t. True) d" for d :: "'a MlxEthernet"
  proof -
    obtain k d' where x: "destroyTxResources xc caps d = (k, d')" by fastforce
    have pd: "txPred caps O' B c (\<lambda>t. True) d" "txEnv d" using that by (simp_all add: txPredK_def)
    from triD [OF destroyTx_tri pd(1) x] have "txPred caps O' B c txTight d'"
      by (auto simp: txTight_def txIdle_def txPred_def split: if_splits)
    moreover from this pd(1) have "txRest d' = txRest d" by (simp add: txPred_def)
    ultimately show ?thesis using x pd(2) txEnv_rest by (auto simp: txPredK_def)
  qed
  from al show "if kr = kIOReturnSuccess then ?P txUp e' else ?P txTight e'"
  proof (cases rule: ethAllocMem_cases)
    case 1
    then have "kr = kIOReturnNoMemory" "e' = ?e3"
      using f al by (simp_all add: createTxResources_def Let_def noMem_def)
    moreover have "?P txTight ?e3"
      by (intro txK_step [OF p2]) (simp_all add: 1 updTx_def txRest_def ethAcct_def txSafe_def txIdle_def txTight_def)
    ultimately show ?thesis by simp
  next
    case (2 l n)
    then have "kr = k" "e' = snd (destroyTxResources xc caps ?e3)"
      using f al by (auto simp add: createTxResources_def Let_def)
    moreover have "?P (\<lambda>t. True) ?e3"
      by (intro txK_step [OF p2]) (simp_all add: 2 updTx_def txRest_def ethAcct_def txSafe_def txIdle_def)
    ultimately show ?thesis using 2(1) down by simp
  next
    case (3 l n)
    have d: "em_desc mem \<noteq> None" using 3 by (simp add: memHeld_def)
    obtain k4 e4 where x: "ethRun [cmdCreateTis xc, txCreateCq xc env, cmdCreateSq xc, txAllocBf caps, cmdModifySqReady xc] ?e3
        = (k4, e4)" by fastforce
    have "?P txSt1 ?e3"
      by (intro txK_step [OF p2]) (simp_all add: 3 updTx_def txRest_def ethAcct_def txSafe_def txIdle_def txSt_defs)
    note t = triD [OF txUp_body [OF bf] this x]
    have "kr = k4" "e' = (if k4 = kIOReturnSuccess then e4 else snd (destroyTxResources xc caps e4))"
      using f al x 3(1) d by (auto simp add: createTxResources_def Let_def split: if_splits)
    then show ?thesis using t down by (simp split: if_splits)
  qed
qed

section \<open>Creating the receive side\<close>

lemma rx_same: "rxPred caps O' B c S e \<Longrightarrow> sameHeld e e' \<Longrightarrow> rxPred caps O' B c S e'"
  unfolding sameHeld_def
  by (elim exE conjE, rule rx_step, assumption) (simp_all add: rxRest_def ethAcct_def rxSafe_def uarRest_def)

definition rxEnv :: "'w MlxEthernet \<Rightarrow> bool" where
  "rxEnv e \<longleftrightarrow> ringHeld (eRxRing e) \<and> alive (ePd e) \<and> alive (eTd e) \<and> alive (eMkeyIndex e)"

definition rxUp :: "ethRxQ \<Rightarrow> bool" where
  "rxUp t \<longleftrightarrow> alive (rx_tirn t) \<and> alive (rx_cqn t) \<and> alive (rx_rqn t) \<and> alive (rx_dbOffset t) \<and> alive (rx_cqDbOffset t) \<and>
     memHeld (rx_buf t) \<and> memHeld (rx_cq t) \<and> rx_cqBuf t \<and>
     rx_pc t = 256 \<and> rx_cc t = 0 \<and> rx_cqCc t = 0 \<and> rx_armSn t = 0"

definition rxZero :: "u16 \<Rightarrow> ethRxQ \<Rightarrow> bool" where
  "rxZero n t \<longleftrightarrow> rx_pc t = n \<and> rx_cc t = 0 \<and> rx_cqCc t = 0 \<and> rx_armSn t = 0"

definition rxSt1 where
  "rxSt1 t \<longleftrightarrow> rxZero 0 t \<and> memHeld (rx_buf t) \<and> \<not> alive (rx_rqn t) \<and> \<not> alive (rx_tirn t) \<and> \<not> alive (rx_cqn t) \<and>
     \<not> alive (rx_dbOffset t) \<and> \<not> alive (rx_cqDbOffset t) \<and> rx_cq t = noMem"

definition rxSt2 where
  "rxSt2 t \<longleftrightarrow> rxZero 0 t \<and> memHeld (rx_buf t) \<and> \<not> alive (rx_rqn t) \<and> \<not> alive (rx_tirn t) \<and> alive (rx_cqn t) \<and>
     \<not> alive (rx_dbOffset t) \<and> alive (rx_cqDbOffset t) \<and> memHeld (rx_cq t) \<and> rx_cqBuf t"

definition rxSt3 where
  "rxSt3 t \<longleftrightarrow> rxZero 0 t \<and> memHeld (rx_buf t) \<and> alive (rx_rqn t) \<and> \<not> alive (rx_tirn t) \<and> alive (rx_cqn t) \<and>
     alive (rx_dbOffset t) \<and> alive (rx_cqDbOffset t) \<and> memHeld (rx_cq t) \<and> rx_cqBuf t"

definition rxSt4 where
  "rxSt4 n t \<longleftrightarrow> rxZero n t \<and> memHeld (rx_buf t) \<and> alive (rx_rqn t) \<and> alive (rx_tirn t) \<and> alive (rx_cqn t) \<and>
     alive (rx_dbOffset t) \<and> alive (rx_cqDbOffset t) \<and> memHeld (rx_cq t) \<and> rx_cqBuf t"

lemmas rxSt_defs = rxSt1_def rxSt2_def rxSt3_def rxSt4_def rxZero_def

definition rxPredK where
  "rxPredK caps O' B c S e \<longleftrightarrow> rxPred caps O' B c S e \<and> rxEnv e"

lemma rxEnv_rest: "rxRest e' = rxRest e \<Longrightarrow> rxEnv e' = rxEnv e"
  using ringRest_cong [of "eRxRing e'" "eRxRing e"] by (simp add: rxEnv_def rxRest_def)

lemma rxPredK_cmd: "cmdInv (rxPredK caps O' B c S :: 'w MlxEthernet \<Rightarrow> bool)"
proof -
  have "cmdInv (rxPred caps O' B c S :: 'w MlxEthernet \<Rightarrow> bool)" by (rule rxPred_cmd)
  then show ?thesis by (auto simp: cmdInv_def rxPredK_def rxEnv_def)
qed

lemma rxK_step:
  assumes "rxPredK caps O' B c S e" and "rxRest e' = rxRest e"
    and "ethAcct caps O' B e \<Longrightarrow> S (eRx e) \<Longrightarrow> ethAcct caps O' B e'"
    and "rxSafe e \<Longrightarrow> rxEnv e \<Longrightarrow> S (eRx e) \<Longrightarrow> rxSafe e'" and "S (eRx e) \<Longrightarrow> S' (eRx e')"
  shows "rxPredK caps O' B c S' e'"
proof -
  have p: "rxPred caps O' B c S e" "rxEnv e" using assms(1) by (simp_all add: rxPredK_def)
  have "rxPred caps O' B c S' e'" by (rule rx_step [OF p(1) assms(2)]) (use assms p(2) in auto)
  then show ?thesis using p(2) rxEnv_rest [OF assms(2)] by (simp add: rxPredK_def)
qed

lemma rxK_same: "rxPredK caps O' B c S e \<Longrightarrow> sameHeld e e' \<Longrightarrow> rxPredK caps O' B c S e'"
  using rx_same [of caps O' B c S e e'] rxEnv_rest [of e' e] by (simp add: rxPredK_def rxPred_def)

lemma rxK_any: "rxPredK caps O' B c S e \<Longrightarrow> rxPredK caps O' B c (\<lambda>t. True) e"
  by (simp add: rxPredK_def rxPred_def)

lemma writeDb_same: "uarOk (ethUar e) \<Longrightarrow> sameHeld e (writeDb i v e)"
proof -
  assume ok: "uarOk (ethUar e)"
  then obtain p where p: "fDbRecord (ethUar e) = Some p" by (auto simp: uarOk_def)
  then have "writeDb i v e = e\<lparr>eNext := eNext e, eLive := eLive e,
      eCo := (eCo e)\<lparr>coUar := (ethUar e)\<lparr>fDbRecord := Some (OSWriteBigInt32 p i (ucast v))\<rparr>\<rparr>\<rparr>"
    by (simp add: writeDb_def setUar_def)
  then show ?thesis
    by (rule sameHeldI) (use ok p in \<open>simp_all add: uarOk_def dbWf_def uarRest_def dbTaken_def\<close>)
qed

lemma rxDoorbell_same: "uarOk (ethUar e) \<Longrightarrow> sameHeld e (rxDoorbell e)"
proof -
  assume ok: "uarOk (ethUar e)"
  have "sameHeld e e"
    by (rule sameHeldI [where n = "eNext e" and l = "eLive e" and co = "eCo e"]) (simp_all add: ok)
  then show ?thesis
    using writeDb_same [OF ok] by (simp add: rxDoorbell_def ringWriteDb_def split: option.split)
qed

lemma rxPredK_uar: "rxPredK caps O' B c S e \<Longrightarrow> uarOk (ethUar e)"
  by (simp add: rxPredK_def rxPred_def ethBase_def ethAcct_def)

lemma postOne_tri:
  "ethTri (rxPredK caps O' B c (rxSt4 n)) (postOne i) (rxPredK caps O' B c (rxSt4 (n + 1))) (rxPredK caps O' B c (\<lambda>t. True))"
proof (rule triI)
  let ?P = "rxPredK caps O' B c"
  fix e :: "'a MlxEthernet" and kr e' assume p: "?P (rxSt4 n) e" and f: "postOne i e = (kr, e')"
  show "if kr = kIOReturnSuccess then ?P (rxSt4 (n + 1)) e' else ?P (\<lambda>t. True) e'"
  proof (cases "kr = kIOReturnSuccess")
    case True
    then obtain r b w where r: "eRxRing e = Some r" "ring_wqBuf r = Some b"
      "e' = e\<lparr>eRxRing := Some (r\<lparr>ring_wqBuf := Some w\<rparr>), eRx := (eRx e)\<lparr>rx_pc := rx_pc (eRx e) + 1\<rparr>\<rparr>"
      using f by (auto simp: postOne_def postRxWqe_def updRx_def split: option.splits if_splits prod.splits)
    then have "ringRest (eRxRing e') = ringRest (eRxRing e)" by (simp add: ringRest_def)
    note ring = this ringRest_cong [OF this]
    have "?P (rxSt4 (n + 1)) e'"
      by (intro rxK_step [OF p]) (use r(3) ring in \<open>simp_all add: rxRest_def ethAcct_def rxSafe_def rxSt_defs\<close>)
    then show ?thesis using True by simp
  next
    case False
    then have "e' = e" using f by (auto simp: postOne_def postRxWqe_def split: option.splits if_splits prod.splits)
    then show ?thesis using False rxK_any [OF p] by simp
  qed
qed

lemma postAllRx_tri:
  "ethTri (rxPredK caps O' B c (rxSt4 0)) postAllRx (rxPredK caps O' B c rxUp) (rxPredK caps O' B c (\<lambda>t. True))"
proof -
  let ?P = "rxPredK caps O' B c"
  have db: "ethTri (?P (rxSt4 n)) (ethDo rxDoorbell) (?P (rxSt4 n)) (?P (\<lambda>t. True))" for n
    by (rule tri_do, rule rxK_same, assumption, rule rxDoorbell_same, erule rxPredK_uar)
  have "ethTri (?P (rxSt4 n)) (ethRun (map postOne xs @ [ethDo rxDoorbell]))
      (?P (rxSt4 (n + of_nat (length xs)))) (?P (\<lambda>t. True))" for n xs
  proof (induction xs arbitrary: n)
    case Nil
    show ?case using tri_last [OF db] by (simp del: ethRun.simps)
  next
    case (Cons x xs)
    show ?case using tri_cons [OF postOne_tri Cons [of "n + 1"]] by (simp del: ethRun.simps add: add.assoc)
  qed
  from this [of 0 "[0..<256]"] have "ethTri (?P (rxSt4 0)) postAllRx (?P (rxSt4 256)) (?P (\<lambda>t. True))"
    by (simp add: postAllRx_def [abs_def] MLX5E_DEFAULT_LOG_RQ_SIZE_def)
  then show ?thesis
    by (rule tri_conseq) (simp_all add: rxPredK_def rxPred_def rxSt_defs rxUp_def)
qed

lemma rxUp_body:
  "ethTri (rxPredK caps O' B c rxSt1)
    (ethRun [rxCreateCq xc env, cmdCreateRq xc, cmdCreateTir xc, postAllRx, cmdModifyRqReady xc])
    (rxPredK caps O' B c rxUp) (rxPredK caps O' B c (\<lambda>t. True))"
proof -
  let ?P = "rxPredK caps O' B c"
  have cq: "ethTri (?P rxSt1) (rxCreateCq xc env) (?P rxSt2) (?P (\<lambda>t. True))"
  proof (rule triI)
    fix e :: "'a MlxEthernet" and kr e'
    assume p: "?P rxSt1 e" and f: "rxCreateCq xc env e = (kr, e')"
    from rxPredK_uar [OF p] f [unfolded rxCreateCq_def]
    show "if kr = kIOReturnSuccess then ?P rxSt2 e' else ?P (\<lambda>t. True) e'"
    proof (cases rule: cmdCreateCq_cases)
      case 1
      then show ?thesis using rxK_any [OF rxK_same [OF p]] by simp
    next
      case (2 x mem off co n l)
      then have "?P rxSt2 e'"
        by (intro rxK_step [OF p])
          (simp_all add: updRx_def rxRest_def ethAcct_def rxSafe_def rxSt_defs rxEnv_def uarRest_def)
      then show ?thesis using 2(1) by simp
    qed
  qed
  have rq: "ethTri (?P rxSt2) (cmdCreateRq xc) (?P rxSt3) (?P (\<lambda>t. True))"
  proof (rule triI)
    fix e :: "'a MlxEthernet" and kr e'
    assume p: "?P rxSt2 e" and f: "cmdCreateRq xc e = (kr, e')"
    from rxPredK_uar [OF p] f show "if kr = kIOReturnSuccess then ?P rxSt3 e' else ?P (\<lambda>t. True) e'"
    proof (cases rule: cmdCreateRq_cases)
      case 1
      then show ?thesis using rxK_any [OF rxK_same [OF p]] by simp
    next
      case (2 x off co r)
      then have "ringRest (eRxRing e') = ringRest (eRxRing e)" by (simp add: ringRest_def)
      note ring = this ringRest_cong [OF this]
      have "?P rxSt3 e'"
        by (intro rxK_step [OF p])
          (use 2 ring in \<open>simp_all add: updRx_def rxRest_def ethAcct_def rxSafe_def rxSt_defs rxEnv_def uarRest_def\<close>)
      then show ?thesis using 2(1) by simp
    qed
  qed
  have tir: "ethTri (?P rxSt3) (cmdCreateTir xc) (?P (rxSt4 0)) (?P (\<lambda>t. True))"
    unfolding cmdCreateTir_def
  proof (rule tri_create [OF rxPredK_cmd])
    fix e :: "'a MlxEthernet" and x assume p: "?P rxSt3 e" and x: "alive x"
    show "?P (rxSt4 0) (updRx (\<lambda>t. t\<lparr>rx_tirn := x\<rparr>) e)"
      by (rule rxK_step [OF p])
        (use x in \<open>simp_all add: updRx_def rxRest_def ethAcct_def rxSafe_def rxSt_defs rxEnv_def\<close>)
  qed (rule rxK_any)
  have rdy: "ethTri (?P rxUp) (cmdModifyRqReady xc) (?P rxUp) (?P (\<lambda>t. True))"
    by (rule triI)
      (auto simp: cmdModifyRqReady_def split: prod.splits dest!: ethExec_cmd intro: rxK_any cmdInvD [OF rxPredK_cmd])
  show ?thesis
    by (rule tri_cons [OF cq], rule tri_cons [OF rq], rule tri_cons [OF tir], rule tri_cons [OF postAllRx_tri],
      rule tri_last [OF rdy])
qed

lemma createRx_tri:
  "ethTri (rxPredK caps O' B c rxIdle) (createRxResources xc env)
    (rxPredK caps O' B c rxUp) (rxPredK caps O' B c rxTight)"
proof (rule triI)
  let ?P = "rxPredK caps O' B c"
  fix e :: "'a MlxEthernet" and kr e'
  assume p: "?P rxIdle e" and f: "createRxResources xc env e = (kr, e')"
  have p2: "?P (\<lambda>t. rxIdle t \<and> rxZero 0 t) (rxResetCounters e)"
    by (rule rxK_step [OF p]) (simp_all add: rxZero_def rxResetCounters_def updRx_def rxRest_def ethAcct_def rxSafe_def rxIdle_def)
  obtain k mem e2 where al: "ethAllocMem (enRxPool env) (rxResetCounters e) = (k, mem, e2)" by (metis prod_cases3)
  let ?e3 = "updRx (\<lambda>t. t\<lparr>rx_buf := mem\<rparr>) e2"
  have down: "?P rxTight (snd (destroyRxResources xc d))" if "?P (\<lambda>t. True) d" for d :: "'a MlxEthernet"
  proof -
    obtain k d' where x: "destroyRxResources xc d = (k, d')" by fastforce
    have pd: "rxPred caps O' B c (\<lambda>t. True) d" "rxEnv d" using that by (simp_all add: rxPredK_def)
    from triD [OF destroyRx_tri pd(1) x] have "rxPred caps O' B c rxTight d'"
      by (auto simp: rxTight_def rxIdle_def rxPred_def split: if_splits)
    moreover from this pd(1) have "rxRest d' = rxRest d" by (simp add: rxPred_def)
    ultimately show ?thesis using x pd(2) rxEnv_rest by (auto simp: rxPredK_def)
  qed
  from al show "if kr = kIOReturnSuccess then ?P rxUp e' else ?P rxTight e'"
  proof (cases rule: ethAllocMem_cases)
    case 1
    then have "kr = kIOReturnNoMemory" "e' = ?e3"
      using f al by (simp_all add: createRxResources_def Let_def noMem_def)
    moreover have "?P rxTight ?e3"
      by (intro rxK_step [OF p2]) (simp_all add: 1 updRx_def rxRest_def ethAcct_def rxSafe_def rxIdle_def rxTight_def)
    ultimately show ?thesis by simp
  next
    case (2 l n)
    then have "kr = k" "e' = snd (destroyRxResources xc ?e3)"
      using f al by (auto simp add: createRxResources_def Let_def)
    moreover have "?P (\<lambda>t. True) ?e3"
      by (intro rxK_step [OF p2]) (simp_all add: 2 updRx_def rxRest_def ethAcct_def rxSafe_def rxIdle_def)
    ultimately show ?thesis using 2(1) down by simp
  next
    case (3 l n)
    have d: "em_desc mem \<noteq> None" using 3 by (simp add: memHeld_def)
    obtain k4 e4 where x: "ethRun [rxCreateCq xc env, cmdCreateRq xc, cmdCreateTir xc, postAllRx, cmdModifyRqReady xc] ?e3
        = (k4, e4)" by fastforce
    have "?P rxSt1 ?e3"
      by (intro rxK_step [OF p2]) (simp_all add: 3 updRx_def rxRest_def ethAcct_def rxSafe_def rxIdle_def rxSt_defs)
    note t = triD [OF rxUp_body this x]
    have "kr = k4" "e' = (if k4 = kIOReturnSuccess then e4 else snd (destroyRxResources xc e4))"
      using f al x 3(1) d by (auto simp add: createRxResources_def Let_def split: if_splits)
    then show ?thesis using t down by (simp split: if_splits)
  qed
qed

end
