(* ===== verification/MlxEthOps.thy ===== *)
theory MlxEthOps
  imports MlxEthCtl
begin

text \<open>
  The global objects, flow steering, and the operations of the interface: every run of
  \<open>enable\<close> and \<open>disable\<close> keeps \<open>ethInv\<close>, whatever IOKit and the firmware answer.
\<close>

unbundle bit_operations_syntax

section \<open>Global objects\<close>

definition globRest :: "'w MlxEthernet \<Rightarrow> _" where
  "globRest e = (eTx e, eRx e, eTxRing e, eRxRing e,
     (eFlowTableId e, eFlowGroupId e, eFlowRootActive e, eFlowEntryValid e),
     (eCore e, eEq e, eNic e, eEnabled e, eEnabling e, eDisabling e, eNotifierRegistered e))"

definition flowIdle :: "'w MlxEthernet \<Rightarrow> bool" where
  "flowIdle e \<longleftrightarrow> \<not> alive (eFlowTableId e) \<and> \<not> alive (eFlowGroupId e) \<and> \<not> eFlowRootActive e \<and> \<not> eFlowEntryValid e"

definition partsIdle :: "'w MlxEthernet \<Rightarrow> bool" where
  "partsIdle e \<longleftrightarrow> txIdle (eTx e) \<and> rxIdle (eRx e) \<and> flowIdle e"

definition globIdle :: "'w MlxEthernet \<Rightarrow> bool" where
  "globIdle e \<longleftrightarrow> \<not> alive (ePd e) \<and> \<not> alive (eTd e) \<and> \<not> alive (eMkeyIndex e)"

definition globPred where
  "globPred caps O' B c S e \<longleftrightarrow> ethBase caps O' B e \<and> globRest e = c \<and> partsIdle e \<and> S (ePd e) (eTd e) (eMkeyIndex e)"

lemma globPred_cmd: "cmdInv (globPred caps O' B c S :: 'w MlxEthernet \<Rightarrow> bool)"
  by (simp add: cmdInv_def globPred_def ethBase_def ethAcct_def ethSafe_defs globRest_def partsIdle_def flowIdle_def)

lemma glob_step:
  assumes "globPred caps O' B c S e" and "globRest e' = globRest e" and "ethUar e' = ethUar e" "eLive e' = eLive e"
    and "globSafe e \<Longrightarrow> S (ePd e) (eTd e) (eMkeyIndex e) \<Longrightarrow>
      (alive (eMkeyIndex e') \<longrightarrow> alive (eTd e')) \<and> (alive (eTd e') \<longrightarrow> alive (ePd e')) \<and> S' (ePd e') (eTd e') (eMkeyIndex e')"
  shows "globPred caps O' B c S' e'"
proof -
  have "ethAcct caps O' B e' = ethAcct caps O' B e" using assms(2-4) by (simp add: ethAcct_def globRest_def)
  moreover have "partsIdle e' = partsIdle e" using assms(2) by (simp add: partsIdle_def flowIdle_def globRest_def)
  moreover have "txSafe e' \<and> rxSafe e' \<and> flowSafe e'" if "partsIdle e'"
    using that by (simp add: partsIdle_def txIdle_def rxIdle_def flowIdle_def txSafe_def rxSafe_def flowSafe_def)
  ultimately show ?thesis using assms(1,2,5) by (simp add: globPred_def ethBase_def ethSafe_def globSafe_def)
qed

lemma globPred_any: "globPred caps O' B c S e \<Longrightarrow> globPred caps O' B c (\<lambda>p t m. True) e"
  by (simp add: globPred_def)

lemma deallocGlobal_tri:
  "ethTri (globPred caps O' B c (\<lambda>p t m. True)) (deallocGlobalResources xc)
     (globPred caps O' B c (\<lambda>p t m. \<not> alive p \<and> \<not> alive t \<and> \<not> alive m)) (globPred caps O' B c (\<lambda>p t m. True))"
proof -
  let ?P = "globPred caps O' B c"
  have mk: "ethTri (?P (\<lambda>p t m. True)) (ethDestroy xc MLX_CMD_OP_DESTROY_MKEY eMkeyIndex
      (\<lambda>e. e\<lparr>eMkeyIndex := MLX5E_INVALID_RESOURCE, eLkey := 0\<rparr>)) (?P (\<lambda>p t m. \<not> alive m)) (?P (\<lambda>p t m. True))"
    by (rule tri_destroy [OF globPred_cmd])
      (simp, simp add: globPred_def, erule glob_step, simp_all add: globRest_def globSafe_def)
  have td: "ethTri (?P (\<lambda>p t m. \<not> alive m)) (ethDestroy xc MLX_CMD_OP_DEALLOC_TRANSPORT_DOMAIN eTd
      (\<lambda>e. e\<lparr>eTd := MLX5E_INVALID_RESOURCE\<rparr>)) (?P (\<lambda>p t m. \<not> alive m \<and> \<not> alive t)) (?P (\<lambda>p t m. True))"
    by (rule tri_destroy [OF globPred_cmd])
      (simp, simp add: globPred_def, erule glob_step, simp_all add: globRest_def globSafe_def globPred_any)
  have pd: "ethTri (?P (\<lambda>p t m. \<not> alive m \<and> \<not> alive t)) (ethDestroy xc MLX_CMD_OP_DEALLOC_PD ePd
      (\<lambda>e. e\<lparr>ePd := MLX5E_INVALID_RESOURCE\<rparr>)) (?P (\<lambda>p t m. \<not> alive p \<and> \<not> alive t \<and> \<not> alive m)) (?P (\<lambda>p t m. True))"
    by (rule tri_destroy [OF globPred_cmd])
      (simp, simp add: globPred_def, erule glob_step, simp_all add: globRest_def globSafe_def globPred_any)
  show ?thesis
    unfolding deallocGlobalResources_def by (rule tri_cons [OF mk], rule tri_cons [OF td], rule tri_last [OF pd])
qed

lemma allocGlobal_tri:
  "ethTri (globPred caps O' B c (\<lambda>p t m. \<not> alive p \<and> \<not> alive t \<and> \<not> alive m)) (allocGlobalResources xc)
     (globPred caps O' B c (\<lambda>p t m. alive p \<and> alive t \<and> alive m)) (globPred caps O' B c (\<lambda>p t m. True))"
proof (rule triI)
  let ?P = "globPred caps O' B c"
  fix e :: "'a MlxEthernet" and kr e'
  assume p: "?P (\<lambda>p t m. \<not> alive p \<and> \<not> alive t \<and> \<not> alive m) e" and f: "allocGlobalResources xc e = (kr, e')"
  have pd: "ethTri (?P (\<lambda>p t m. \<not> alive p \<and> \<not> alive t \<and> \<not> alive m)) (cmdAllocPd xc)
      (?P (\<lambda>p t m. alive p \<and> \<not> alive t \<and> \<not> alive m)) (?P (\<lambda>p t m. True))"
    unfolding cmdAllocPd_def
    by (rule tri_create [OF globPred_cmd]) (erule glob_step, simp_all add: globRest_def globSafe_def globPred_any)
  have td: "ethTri (?P (\<lambda>p t m. alive p \<and> \<not> alive t \<and> \<not> alive m)) (cmdAllocTd xc)
      (?P (\<lambda>p t m. alive p \<and> alive t \<and> \<not> alive m)) (?P (\<lambda>p t m. True))"
    unfolding cmdAllocTd_def
    by (rule tri_create [OF globPred_cmd]) (erule glob_step, simp_all add: globRest_def globSafe_def globPred_any)
  have mk: "ethTri (?P (\<lambda>p t m. alive p \<and> alive t \<and> \<not> alive m)) (ethCreateMkey xc)
      (?P (\<lambda>p t m. alive p \<and> alive t \<and> alive m)) (?P (\<lambda>p t m. True))"
    unfolding ethCreateMkey_def
    by (rule tri_create [OF globPred_cmd]) (erule glob_step, simp_all add: globRest_def globSafe_def globPred_any)
  obtain k1 e1 where x1: "cmdAllocPd xc e = (k1, e1)" by fastforce
  note t1 = triD [OF pd p x1]
  show "if kr = kIOReturnSuccess then ?P (\<lambda>p t m. alive p \<and> alive t \<and> alive m) e' else ?P (\<lambda>p t m. True) e'"
  proof (cases "k1 = kIOReturnSuccess")
    case False
    then show ?thesis using f x1 t1 by (auto simp: allocGlobalResources_def)
  next
    case True
    then have p1: "?P (\<lambda>p t m. alive p \<and> \<not> alive t \<and> \<not> alive m) e1" using t1 by simp
    obtain k2 e2 where x2: "ethRun [cmdAllocTd xc, ethCreateMkey xc] e1 = (k2, e2)" by fastforce
    note t2 = triD [OF tri_cons [OF td tri_last [OF mk]] p1 x2]
    obtain k3 e3 where x3: "deallocGlobalResources xc e2 = (k3, e3)" by fastforce
    have "?P (\<lambda>p t m. True) e2" using t2 by (auto split: if_splits intro: globPred_any)
    from triD [OF deallocGlobal_tri this x3] have "?P (\<lambda>p t m. True) e3" by (auto split: if_splits intro: globPred_any)
    then show ?thesis using f x1 x2 x3 t2 True
      by (auto simp: allocGlobalResources_def simp del: ethRun.simps split: if_splits)
  qed
qed

section \<open>Flow steering\<close>

definition flowRest :: "'w MlxEthernet \<Rightarrow> _" where
  "flowRest e = (eTx e, eRx e, eTxRing e, eRxRing e, (ePd e, eTd e, eMkeyIndex e, eLkey e),
     (eCore e, eEq e, eNic e, eEnabled e, eEnabling e, eDisabling e, eNotifierRegistered e))"

definition flowPred where
  "flowPred caps O' B c S e \<longleftrightarrow> ethBase caps O' B e \<and> flowRest e = c \<and>
     S (eFlowTableId e) (eFlowGroupId e) (eFlowEntryValid e) (eFlowRootActive e)"

lemma flowPred_cmd: "cmdInv (flowPred caps O' B c S :: 'w MlxEthernet \<Rightarrow> bool)"
  by (simp add: cmdInv_def flowPred_def ethBase_def ethAcct_def ethSafe_defs flowRest_def)

lemma flow_step:
  assumes "flowPred caps O' B c S e" and "flowRest e' = flowRest e" and "ethUar e' = ethUar e" "eLive e' = eLive e"
    and "flowSafe e \<Longrightarrow> S (eFlowTableId e) (eFlowGroupId e) (eFlowEntryValid e) (eFlowRootActive e) \<Longrightarrow>
      flowSafe e' \<and> S' (eFlowTableId e') (eFlowGroupId e') (eFlowEntryValid e') (eFlowRootActive e')"
  shows "flowPred caps O' B c S' e'"
proof -
  have "ethAcct caps O' B e' = ethAcct caps O' B e" using assms(2-4) by (simp add: ethAcct_def flowRest_def)
  moreover have "txSafe e' = txSafe e" "rxSafe e' = rxSafe e" "globSafe e' = globSafe e"
    using assms(2) by (simp_all add: txSafe_def rxSafe_def globSafe_def flowRest_def)
  ultimately show ?thesis using assms(1,2,5) by (simp add: flowPred_def ethBase_def ethSafe_def)
qed

lemma flowPred_any: "flowPred caps O' B c S e \<Longrightarrow> flowPred caps O' B c (\<lambda>t g v r. True) e"
  by (simp add: flowPred_def)

lemma tri_flag:
  assumes P: "cmdInv P" and g: "\<And>e. g e = (if skip e then (kIOReturnSuccess, e) else ethFlag xc opc inb store e)"
    and skip: "\<And>e co. skip (e\<lparr>eCo := co\<rparr>) = skip e"
    and "\<And>e. P e \<Longrightarrow> skip e \<Longrightarrow> Q e" and "\<And>e. P e \<Longrightarrow> \<not> skip e \<Longrightarrow> Q (store e)" and "\<And>e. P e \<Longrightarrow> R e"
  shows "ethTri P g Q R"
proof (rule triI)
  fix e kr e' assume p: "P e" and f: "g e = (kr, e')"
  have "cmdInv (\<lambda>e. P e \<and> \<not> skip e)" using P skip by (simp add: cmdInv_def)
  then have "ethTri (\<lambda>e. P e \<and> \<not> skip e) (ethFlag xc opc inb store) Q R"
    by (rule tri_exec) (use assms(5,6) in auto)
  then show "if kr = kIOReturnSuccess then Q e' else R e'"
    using f g p assms(4) by (cases "skip e") (auto dest: triD)
qed

lemma destroyFlow_tri:
  "ethTri (flowPred caps O' B c (\<lambda>t g v r. True)) (destroyRxFlowSteering xc)
     (flowPred caps O' B c (\<lambda>t g v r. \<not> alive t \<and> \<not> alive g \<and> \<not> v \<and> \<not> r)) (flowPred caps O' B c (\<lambda>t g v r. True))"
proof -
  let ?P = "flowPred caps O' B c"
  have root: "ethTri (?P (\<lambda>t g v r. True)) (flowUnroot xc) (?P (\<lambda>t g v r. \<not> r)) (?P (\<lambda>t g v r. True))"
    by (rule tri_flag [OF flowPred_cmd flowUnroot_def], simp, simp add: flowPred_def, erule flow_step)
      (simp_all add: flowRest_def flowSafe_def flowPred_any)
  have entry: "ethTri (?P (\<lambda>t g v r. \<not> r)) (flowDelEntry xc) (?P (\<lambda>t g v r. \<not> v \<and> \<not> r)) (?P (\<lambda>t g v r. True))"
    by (rule tri_flag [OF flowPred_cmd flowDelEntry_def], simp, simp add: flowPred_def, erule flow_step)
      (simp_all add: flowRest_def flowSafe_def flowPred_any)
  have grp: "ethTri (?P (\<lambda>t g v r. \<not> v \<and> \<not> r)) (flowDelGroup xc) (?P (\<lambda>t g v r. \<not> alive g \<and> \<not> v \<and> \<not> r)) (?P (\<lambda>t g v r. True))"
    by (rule tri_flag [OF flowPred_cmd flowDelGroup_def], simp, simp add: flowPred_def, erule flow_step)
      (simp_all add: flowRest_def flowSafe_def flowPred_any)
  have tab: "ethTri (?P (\<lambda>t g v r. \<not> alive g \<and> \<not> v \<and> \<not> r)) (flowDelTable xc)
      (?P (\<lambda>t g v r. \<not> alive t \<and> \<not> alive g \<and> \<not> v \<and> \<not> r)) (?P (\<lambda>t g v r. True))"
    by (rule tri_flag [OF flowPred_cmd flowDelTable_def], simp, simp add: flowPred_def, erule flow_step)
      (simp_all add: flowRest_def flowSafe_def flowPred_any)
  show ?thesis
    unfolding destroyRxFlowSteering_def
    by (rule tri_cons [OF root], rule tri_cons [OF entry], rule tri_cons [OF grp], rule tri_last [OF tab])
qed

text \<open>The flow objects are created for a live receive object and a protection domain.\<close>

definition flowPredK where
  "flowPredK caps O' B c S e \<longleftrightarrow> flowPred caps O' B c S e \<and> alive (rx_tirn (eRx e)) \<and> alive (ePd e)"

lemma flowPredK_cmd: "cmdInv (flowPredK caps O' B c S :: 'w MlxEthernet \<Rightarrow> bool)"
  by (simp add: cmdInv_def flowPredK_def flowPred_def ethBase_def ethAcct_def ethSafe_defs flowRest_def)

lemma flowK_step:
  assumes "flowPredK caps O' B c S e" and "flowRest e' = flowRest e" and "ethUar e' = ethUar e" "eLive e' = eLive e"
    and "flowSafe e \<Longrightarrow> alive (rx_tirn (eRx e)) \<Longrightarrow> alive (ePd e) \<Longrightarrow>
      S (eFlowTableId e) (eFlowGroupId e) (eFlowEntryValid e) (eFlowRootActive e) \<Longrightarrow>
      flowSafe e' \<and> S' (eFlowTableId e') (eFlowGroupId e') (eFlowEntryValid e') (eFlowRootActive e')"
  shows "flowPredK caps O' B c S' e'"
proof -
  have p: "flowPred caps O' B c S e" "alive (rx_tirn (eRx e))" "alive (ePd e)" using assms(1) by (simp_all add: flowPredK_def)
  have "flowPred caps O' B c S' e'" by (rule flow_step [OF p(1) assms(2-4)]) (use assms(5) p(2,3) in blast)
  then show ?thesis using p assms(2) by (simp add: flowPredK_def flowRest_def)
qed

lemma flowPredK_any: "flowPredK caps O' B c S e \<Longrightarrow> flowPredK caps O' B c (\<lambda>t g v r. True) e"
  by (simp add: flowPredK_def flowPred_def)

lemma createFlow_tri:
  "ethTri (flowPredK caps O' B c (\<lambda>t g v r. \<not> alive t \<and> \<not> alive g \<and> \<not> v \<and> \<not> r)) (createRxFlowSteering xc)
     (flowPredK caps O' B c (\<lambda>t g v r. alive t \<and> alive g \<and> v \<and> r)) (flowPredK caps O' B c (\<lambda>t g v r. True))"
proof (rule triI)
  let ?P = "flowPredK caps O' B c"
  fix e :: "'a MlxEthernet" and kr e'
  assume p: "?P (\<lambda>t g v r. \<not> alive t \<and> \<not> alive g \<and> \<not> v \<and> \<not> r) e" and f: "createRxFlowSteering xc e = (kr, e')"
  have tab: "ethTri (?P (\<lambda>t g v r. \<not> alive t \<and> \<not> alive g \<and> \<not> v \<and> \<not> r))
      (ethCreate xc MLX_CMD_OP_CREATE_FLOW_TABLE (\<lambda>e. flowTableInput) (\<lambda>x e. e\<lparr>eFlowTableId := x\<rparr>))
      (?P (\<lambda>t g v r. alive t \<and> \<not> alive g \<and> \<not> v \<and> \<not> r)) (?P (\<lambda>t g v r. True))"
    by (rule tri_create [OF flowPredK_cmd]) (erule flowK_step, simp_all add: flowRest_def flowSafe_def flowPredK_any)
  have grp: "ethTri (?P (\<lambda>t g v r. alive t \<and> \<not> alive g \<and> \<not> v \<and> \<not> r))
      (ethCreate xc MLX_CMD_OP_CREATE_FLOW_GROUP (\<lambda>e. flowGroupInput (eFlowTableId e)) (\<lambda>x e. e\<lparr>eFlowGroupId := x\<rparr>))
      (?P (\<lambda>t g v r. alive t \<and> alive g \<and> \<not> v \<and> \<not> r)) (?P (\<lambda>t g v r. True))"
    by (rule tri_create [OF flowPredK_cmd]) (erule flowK_step, simp_all add: flowRest_def flowSafe_def flowPredK_any)
  have fte: "ethTri (?P (\<lambda>t g v r. alive t \<and> alive g \<and> \<not> v \<and> \<not> r))
      (ethFlag xc MLX_CMD_OP_SET_FLOW_TABLE_ENTRY
        (\<lambda>e. flowEntryInput (eFlowTableId e) (eFlowGroupId e) (rx_tirn (eRx e))) (\<lambda>e. e\<lparr>eFlowEntryValid := True\<rparr>))
      (?P (\<lambda>t g v r. alive t \<and> alive g \<and> v \<and> \<not> r)) (?P (\<lambda>t g v r. True))"
    by (rule tri_exec [OF flowPredK_cmd]) (erule flowK_step, simp_all add: flowRest_def flowSafe_def flowPredK_any)
  have root: "ethTri (?P (\<lambda>t g v r. alive t \<and> alive g \<and> v \<and> \<not> r))
      (ethFlag xc MLX_CMD_OP_SET_FLOW_TABLE_ROOT (\<lambda>e. flowRootInput (eFlowTableId e)) (\<lambda>e. e\<lparr>eFlowRootActive := True\<rparr>))
      (?P (\<lambda>t g v r. alive t \<and> alive g \<and> v \<and> r)) (?P (\<lambda>t g v r. True))"
    by (rule tri_exec [OF flowPredK_cmd]) (erule flowK_step, simp_all add: flowRest_def flowSafe_def flowPredK_any)
  obtain k1 e1 where x1: "ethCreate xc MLX_CMD_OP_CREATE_FLOW_TABLE (\<lambda>e. flowTableInput) (\<lambda>x e. e\<lparr>eFlowTableId := x\<rparr>) e = (k1, e1)"
    by fastforce
  note t1 = triD [OF tab p x1]
  show "if kr = kIOReturnSuccess then ?P (\<lambda>t g v r. alive t \<and> alive g \<and> v \<and> r) e' else ?P (\<lambda>t g v r. True) e'"
  proof (cases "k1 = kIOReturnSuccess")
    case False
    then show ?thesis using f x1 t1 by (auto simp: createRxFlowSteering_def)
  next
    case True
    then have p1: "?P (\<lambda>t g v r. alive t \<and> \<not> alive g \<and> \<not> v \<and> \<not> r) e1" using t1 by simp
    let ?fs = "[ethCreate xc MLX_CMD_OP_CREATE_FLOW_GROUP (\<lambda>e. flowGroupInput (eFlowTableId e)) (\<lambda>x e. e\<lparr>eFlowGroupId := x\<rparr>),
      ethFlag xc MLX_CMD_OP_SET_FLOW_TABLE_ENTRY
        (\<lambda>e. flowEntryInput (eFlowTableId e) (eFlowGroupId e) (rx_tirn (eRx e))) (\<lambda>e. e\<lparr>eFlowEntryValid := True\<rparr>),
      ethFlag xc MLX_CMD_OP_SET_FLOW_TABLE_ROOT (\<lambda>e. flowRootInput (eFlowTableId e)) (\<lambda>e. e\<lparr>eFlowRootActive := True\<rparr>)]"
    obtain k2 e2 where x2: "ethRun ?fs e1 = (k2, e2)" by fastforce
    note t2 = triD [OF tri_cons [OF grp tri_cons [OF fte tri_last [OF root]]] p1 x2]
    obtain k3 e3 where x3: "destroyRxFlowSteering xc e2 = (k3, e3)" by fastforce
    have "?P (\<lambda>t g v r. True) e2" using t2 by (auto split: if_splits intro: flowPredK_any)
    then have p2: "flowPred caps O' B c (\<lambda>t g v r. True) e2" "alive (rx_tirn (eRx e2))" "alive (ePd e2)"
      by (simp_all add: flowPredK_def)
    from triD [OF destroyFlow_tri p2(1) x3] have p3: "flowPred caps O' B c (\<lambda>t g v r. True) e3"
      by (auto split: if_splits intro: flowPred_any)
    then have "flowRest e3 = flowRest e2" using p2(1) by (simp add: flowPred_def)
    then have "?P (\<lambda>t g v r. True) e3" using p2 p3 by (simp add: flowPredK_def flowRest_def)
    moreover have "(kr, e') = (if k2 \<noteq> kIOReturnSuccess then (k2, e3) else (k2, e2))"
      using f x1 x2 x3 True unfolding createRxFlowSteering_def by (auto simp del: ethRun.simps split: if_splits)
    ultimately show ?thesis using t2 by (simp split: if_splits)
  qed
qed

section \<open>Destroying everything\<close>

definition ethCtl :: "'w MlxEthernet \<Rightarrow> _" where
  "ethCtl e = (ringRest (eTxRing e), ringRest (eRxRing e),
     (eCore e, eEq e, eNic e, eEnabled e, eEnabling e, eDisabling e, eNotifierRegistered e))"

definition ethRest2 :: "UarCaps \<Rightarrow> nat multiset \<Rightarrow> u32 \<Rightarrow> 'w MlxEthernet \<Rightarrow> bool" where
  "ethRest2 caps O' B e \<longleftrightarrow> ethBase caps O' B e \<and> txTight (eTx e) \<and> rxTight (eRx e)"

lemma idle_tight: "txIdle t \<Longrightarrow> txTight t" "rxIdle r \<Longrightarrow> rxTight r"
  by (simp_all add: txIdle_def txTight_def rxIdle_def rxTight_def)

lemma destroyFlow_spec:
  assumes "ethBase caps O' B e" and "destroyRxFlowSteering xc e = (kr, e')"
  shows "ethBase caps O' B e' \<and> flowRest e' = flowRest e \<and> (kr = kIOReturnSuccess \<longrightarrow> flowIdle e')"
  using triD [OF destroyFlow_tri [of caps O' B "flowRest e"] _ assms(2)] assms(1)
  by (auto simp: flowPred_def flowIdle_def split: if_splits)

lemma destroyRx_spec:
  assumes "ethBase caps O' B e" and "\<not> eFlowEntryValid e" and "destroyRxResources xc e = (kr, e')"
  shows "ethBase caps O' B e' \<and> rxRest e' = rxRest e \<and> rxTight (eRx e') \<and> (kr = kIOReturnSuccess \<longrightarrow> rxIdle (eRx e'))"
  using triD [OF destroyRx_tri [of caps O' B "rxRest e"] _ assms(3)] assms(1,2)
  by (auto simp: rxPred_def idle_tight split: if_splits)

lemma destroyTx_spec:
  assumes "ethBase caps O' B e" and "destroyTxResources xc caps e = (kr, e')"
  shows "ethBase caps O' B e' \<and> txRest e' = txRest e \<and> txTight (eTx e') \<and> (kr = kIOReturnSuccess \<longrightarrow> txIdle (eTx e'))"
  using triD [OF destroyTx_tri [of caps O' B "txRest e"] _ assms(2)] assms(1)
  by (auto simp: txPred_def idle_tight split: if_splits)

lemma deallocGlobal_spec:
  assumes "ethBase caps O' B e" and "partsIdle e" and "deallocGlobalResources xc e = (kr, e')"
  shows "ethBase caps O' B e' \<and> globRest e' = globRest e \<and> (kr = kIOReturnSuccess \<longrightarrow> globIdle e')"
  using triD [OF deallocGlobal_tri [of caps O' B "globRest e"] _ assms(3)] assms(1,2)
  by (auto simp: globPred_def globIdle_def split: if_splits)

lemma destroyAll_spec:
  assumes i: "ethRest2 caps O' B e" and f: "destroyAllResources xc caps e = (kr, e')"
  shows "ethRest2 caps O' B e' \<and> ethCtl e' = ethCtl e \<and> (kr = kIOReturnSuccess \<longrightarrow> partsIdle e' \<and> globIdle e')"
proof -
  have b: "ethBase caps O' B e" "txTight (eTx e)" "rxTight (eRx e)" using i by (simp_all add: ethRest2_def)
  obtain fk e1 where x1: "destroyRxFlowSteering xc e = (fk, e1)" by fastforce
  note s1 = destroyFlow_spec [OF b(1) x1]
  then have r1: "eTx e1 = eTx e" "eRx e1 = eRx e" "ethCtl e1 = ethCtl e" by (simp_all add: flowRest_def ethCtl_def)
  obtain rk e2 where x2: "(if fk = kIOReturnSuccess then destroyRxResources xc e1 else (fk, e1)) = (rk, e2)" by fastforce
  have s2: "ethBase caps O' B e2 \<and> eTx e2 = eTx e1 \<and> ethCtl e2 = ethCtl e1 \<and> rxTight (eRx e2) \<and>
    (fk = kIOReturnSuccess \<longrightarrow> flowIdle e2 \<and> (rk = kIOReturnSuccess \<longrightarrow> rxIdle (eRx e2)))"
  proof (cases "fk = kIOReturnSuccess")
    case True
    then have fi: "flowIdle e1" and x: "destroyRxResources xc e1 = (rk, e2)" using s1 x2 by simp_all
    then have "\<not> eFlowEntryValid e1" by (simp add: flowIdle_def)
    from destroyRx_spec [OF _ this x] s1 fi show ?thesis by (auto simp: rxRest_def ethCtl_def flowIdle_def)
  next
    case False
    then show ?thesis using x2 s1 r1 b(3) by auto
  qed
  obtain tk e3 where x3: "destroyTxResources xc caps e2 = (tk, e3)" by fastforce
  note s3 = destroyTx_spec [OF conjunct1 [OF s2] x3]
  have r3: "eRx e3 = eRx e2" "ethCtl e3 = ethCtl e2" "flowIdle e3 = flowIdle e2"
    using s3 by (auto simp: txRest_def ethCtl_def flowIdle_def)
  have fin: "(kr, e') = (if fk \<noteq> kIOReturnSuccess then (fk, e3) else if rk \<noteq> kIOReturnSuccess then (rk, e3)
      else if tk \<noteq> kIOReturnSuccess then (tk, e3) else deallocGlobalResources xc e3)"
    using f x1 x2 x3 by (simp add: destroyAllResources_def)
  show ?thesis
  proof (cases "fk = kIOReturnSuccess \<and> rk = kIOReturnSuccess \<and> tk = kIOReturnSuccess")
    case True
    then have "partsIdle e3" using s2 s3 r3 by (simp add: partsIdle_def)
    moreover have "deallocGlobalResources xc e3 = (kr, e')" using fin True by simp
    moreover have "ethBase caps O' B e3" using s3 by simp
    ultimately have s4: "ethBase caps O' B e'" "globRest e' = globRest e3" "kr = kIOReturnSuccess \<longrightarrow> globIdle e'"
      using deallocGlobal_spec by blast+
    then have "eTx e' = eTx e3" "eRx e' = eRx e3" "ethCtl e' = ethCtl e3" "flowIdle e' = flowIdle e3"
      by (simp_all add: globRest_def ethCtl_def flowIdle_def)
    then show ?thesis using s4 s3 r3 s2 r1 \<open>partsIdle e3\<close>
      by (auto simp: ethRest2_def partsIdle_def idle_tight)
  next
    case False
    then have "e' = e3" "kr \<noteq> kIOReturnSuccess" using fin by (auto split: if_splits)
    then show ?thesis using s3 r3 s2 r1 by (simp add: ethRest2_def)
  qed
qed

text \<open>A released protection domain means that nothing is left.\<close>

lemma dead_idle: "ethRest2 caps O' B e \<Longrightarrow> \<not> alive (ePd e) \<Longrightarrow> partsIdle e \<and> globIdle e"
  unfolding ethRest2_def ethBase_def partsIdle_def globIdle_def txIdle_def rxIdle_def flowIdle_def txTight_def
    rxTight_def ethSafe_def txSafe_def rxSafe_def flowSafe_def globSafe_def
  by (intro conjI) metis+

section \<open>The invariant of the interface\<close>

definition ethUp :: "'w MlxEthernet \<Rightarrow> bool" where
  "ethUp e \<longleftrightarrow> alive (tx_sqn (eTx e)) \<and> tx_bfValid (eTx e) \<and> alive (rx_tirn (eRx e)) \<and> eFlowRootActive e"

definition ethInv :: "UarCaps \<Rightarrow> nat multiset \<Rightarrow> u32 \<Rightarrow> 'w MlxEthernet \<Rightarrow> bool" where
  "ethInv caps O' B e \<longleftrightarrow> ethRest2 caps O' B e \<and> ringHeld (eTxRing e) \<and> ringHeld (eRxRing e) \<and>
     \<not> eEnabling e \<and> \<not> eDisabling e \<and> eCore e \<and> eEq e \<noteq> None \<and>
     eNotifierRegistered e = eEnabled e \<and> (eEnabled e \<longrightarrow> ethUp e)"

lemma base_simps [simp]:
  "ethBase caps O' B (e\<lparr>eEnabling := b\<rparr>) = ethBase caps O' B e"
  "ethBase caps O' B (e\<lparr>eEnabled := b\<rparr>) = ethBase caps O' B e"
  "ethBase caps O' B (e\<lparr>eDisabling := b\<rparr>) = ethBase caps O' B e"
  "ethBase caps O' B (e\<lparr>eNotifierRegistered := b\<rparr>) = ethBase caps O' B e"
  "ethBase caps O' B (e\<lparr>eEq := q\<rparr>) = ethBase caps O' B e"
  "ethBase caps O' B (e\<lparr>eNic := b\<rparr>) = ethBase caps O' B e"
  "ethBase caps O' B (e\<lparr>eLog := l\<rparr>) = ethBase caps O' B e"
  "ethBase caps O' B (e\<lparr>eLinkUp := b\<rparr>) = ethBase caps O' B e"
  "ethBase caps O' B (e\<lparr>eLinkSpeed := s\<rparr>) = ethBase caps O' B e"
  by (simp_all add: ethBase_def ethAcct_def ethSafe_defs)

lemma ethBase_uar: "ethBase caps O' B e \<Longrightarrow> uarOk (ethUar e)"
  by (simp add: ethBase_def ethAcct_def)

definition sameCtl :: "'w MlxEthernet \<Rightarrow> 'w MlxEthernet \<Rightarrow> bool" where
  "sameCtl e e' \<longleftrightarrow> eTx e' = eTx e \<and> eRx e' = eRx e \<and> ethCtl e' = ethCtl e \<and>
     (ePd e', eTd e', eMkeyIndex e', eFlowTableId e', eFlowGroupId e', eFlowRootActive e', eFlowEntryValid e') =
     (ePd e, eTd e, eMkeyIndex e, eFlowTableId e, eFlowGroupId e, eFlowRootActive e, eFlowEntryValid e)"

lemma sameHeld_base: "sameHeld e e' \<Longrightarrow> ethBase caps O' B e \<Longrightarrow> ethBase caps O' B e' \<and> sameCtl e e'"
  unfolding sameHeld_def
  by (elim exE conjE) (simp add: ethBase_def ethAcct_def ethSafe_defs sameCtl_def ethCtl_def uarRest_def)

lemma sameCtl_refl [simp]: "sameCtl e e"
  by (simp add: sameCtl_def)

lemma sameCtl_trans: "sameCtl a b \<Longrightarrow> sameCtl b c \<Longrightarrow> sameCtl a c"
  by (simp add: sameCtl_def)

lemma ethLog_base [simp]: "ethBase caps O' B (ethLog x e) = ethBase caps O' B e" "sameCtl e (ethLog x e)"
  by (simp_all add: ethLog_def sameCtl_def ethCtl_def)

lemma writeDb_base: "ethBase caps O' B e \<Longrightarrow> ethBase caps O' B (writeDb i v e) \<and> sameCtl e (writeDb i v e)"
  by (rule sameHeld_base [OF writeDb_same [OF ethBase_uar]])

lemma armCq_base:
  assumes "ethBase caps O' B e"
  shows "ethBase caps O' B (armCq n off sn cc e) \<and> sameCtl e (armCq n off sn cc e)"
proof (cases "armCq n off sn cc e = e")
  case True
  then show ?thesis using assms by simp
next
  case False
  then obtain i x where a: "armCq n off sn cc e = ethLog x (writeDb i (armWord sn cc) e)"
    unfolding armCq_def Let_def by (metis (no_types, lifting))
  show ?thesis unfolding a
    using writeDb_base [OF assms, of i "armWord sn cc"] sameCtl_trans ethLog_base(2) by fastforce
qed

lemma setLinkState_base [simp]: "ethBase caps O' B (setLinkState up s e) = ethBase caps O' B e" "sameCtl e (setLinkState up s e)"
  by (simp_all add: setLinkState_def) (simp add: ethLog_def sameCtl_def ethCtl_def)

lemma exec_base:
  assumes "ethExec xc opc inb n e = (kr, out, e')" and "ethBase caps O' B e"
  shows "ethBase caps O' B e' \<and> sameCtl e e'"
  using ethExec_cmd [OF assms(1)] assms(2)
  by (elim exE conjE) (simp add: ethBase_def ethAcct_def ethSafe_defs sameCtl_def ethCtl_def)

lemma refreshLink_base:
  assumes "ethBase caps O' B e" shows "ethBase caps O' B (refreshLink xc e) \<and> sameCtl e (refreshLink xc e)"
proof -
  let ?in = "ethInput 16 MLX_CMD_OP_QUERY_VPORT_STATE [(0x30, 16, 0)]"
  obtain kr out e1 where x: "ethExec xc MLX_CMD_OP_QUERY_VPORT_STATE ?in 16 e = (kr, out, e1)" by (metis prod_cases3)
  from exec_base [OF x assms] x show ?thesis
    by (auto simp: refreshLink_def queryLinkState_def intro: sameCtl_trans)
qed

lemma notifierOn_spec:
  assumes "ethBase caps O' B e" and "notifierOn me e = (kr, e')" and "eEq e \<noteq> None"
  shows "kr = kIOReturnSuccess \<and> ethBase caps O' B e' \<and> eEq e' \<noteq> None \<and> eNotifierRegistered e' \<and> eCore e' = eCore e \<and>
    eNic e' = eNic e \<and> eEnabled e' = eEnabled e \<and> eEnabling e' = eEnabling e \<and> eDisabling e' = eDisabling e \<and>
    eTx e' = eTx e \<and> eRx e' = eRx e \<and> ringRest (eTxRing e') = ringRest (eTxRing e) \<and>
    ringRest (eRxRing e') = ringRest (eRxRing e) \<and> ePd e' = ePd e \<and> eTd e' = eTd e \<and> eMkeyIndex e' = eMkeyIndex e \<and>
    flowIdle e' = flowIdle e"
proof -
  obtain q where q: "eEq e = Some q" using assms(3) by auto
  let ?e1 = "e\<lparr>eEq := Some (registerNotifier (unat MLX_EVENT_TYPE_PORT_STATE_CHANGE) me
               (registerNotifier (unat MLX_EVENT_TYPE_COMPLETION) me q)), eNotifierRegistered := True\<rparr>"
  have b1: "ethBase caps O' B ?e1" using assms(1) by simp
  have b2: "ethBase caps O' B (armTxCq ?e1) \<and> sameCtl ?e1 (armTxCq ?e1)" unfolding armTxCq_def by (rule armCq_base [OF b1])
  have b3: "ethBase caps O' B (armRxCq (armTxCq ?e1)) \<and> sameCtl (armTxCq ?e1) (armRxCq (armTxCq ?e1))"
    unfolding armRxCq_def [of "armTxCq ?e1"] by (rule armCq_base) (use b2 in simp)
  have "e' = armRxCq (armTxCq ?e1)" "kr = kIOReturnSuccess" using assms(2) q by (auto simp: notifierOn_def)
  then show ?thesis using b2 b3 by (simp add: sameCtl_def ethCtl_def flowIdle_def)
qed

lemma notifierOff_spec:
  assumes "eEq e \<noteq> None" and "eCore e"
  shows "ethBase caps O' B (notifierOff me e) = ethBase caps O' B e \<and> eEq (notifierOff me e) \<noteq> None \<and>
    \<not> eNotifierRegistered (notifierOff me e) \<and> eCore (notifierOff me e) \<and>
    eNic (notifierOff me e) = eNic e \<and> eEnabled (notifierOff me e) = eEnabled e \<and>
    eEnabling (notifierOff me e) = eEnabling e \<and> eDisabling (notifierOff me e) = eDisabling e \<and>
    eTx (notifierOff me e) = eTx e \<and> eRx (notifierOff me e) = eRx e \<and>
    eTxRing (notifierOff me e) = eTxRing e \<and> eRxRing (notifierOff me e) = eRxRing e"
  using assms by (cases "eNotifierRegistered e") (auto simp: notifierOff_def)

section \<open>Disabling\<close>

lemma ringHeld_rest: "ringRest a = ringRest b \<Longrightarrow> ringHeld b \<Longrightarrow> ringHeld a"
  using ringRest_cong(2) [of a b] by simp

lemma ethRest2_frame:
  "ethBase caps O' B e' \<Longrightarrow> eTx e' = eTx e \<Longrightarrow> eRx e' = eRx e \<Longrightarrow> ethRest2 caps O' B e \<Longrightarrow> ethRest2 caps O' B e'"
  by (simp add: ethRest2_def)

lemma disable_spec:
  assumes i: "ethInv caps O' B e" and f: "ethDisable xc caps me e = (kr, e')"
  shows "ethInv caps O' B e' \<and> \<not> eEnabled e' \<and> (kr = kIOReturnSuccess \<longrightarrow> partsIdle e' \<and> globIdle e')"
proof -
  let ?e1 = "setLinkState False 0 (e\<lparr>eDisabling := True, eEnabled := False\<rparr>)"
  have b: "ethBase caps O' B e" and r2: "ethRest2 caps O' B e" and c: "eCore e" "eEq e \<noteq> None"
    and g: "\<not> eEnabling e" "\<not> eDisabling e" using i by (simp_all add: ethInv_def ethRest2_def)
  have l: "sameCtl (e\<lparr>eDisabling := True, eEnabled := False\<rparr>) ?e1" by simp
  then have c1: "eEq ?e1 \<noteq> None" "eCore ?e1" "eTx ?e1 = eTx e" "eRx ?e1 = eRx e"
    "ringRest (eTxRing ?e1) = ringRest (eTxRing e)" "ringRest (eRxRing ?e1) = ringRest (eRxRing e)"
    "\<not> eEnabled ?e1" "\<not> eEnabling ?e1"
    using c g by (simp_all add: sameCtl_def ethCtl_def)
  note n = notifierOff_spec [OF c1(1,2), of caps O' B me]
  let ?e2 = "notifierOff me ?e1"
  have "ethBase caps O' B ?e2" using n b by simp
  then have r2': "ethRest2 caps O' B ?e2" by (rule ethRest2_frame [OF _ _ _ r2]) (use n c1 in simp_all)
  obtain k e3 where x: "destroyAllResources xc caps ?e2 = (k, e3)" by fastforce
  note d = destroyAll_spec [OF r2' x]
  have e': "kr = k" "e' = e3\<lparr>eDisabling := False\<rparr>" using f x g by (auto simp: ethDisable_def)
  have ctl: "ethCtl e3 = ethCtl ?e2" using d by simp
  have "ringRest (eTxRing e3) = ringRest (eTxRing e)" "ringRest (eRxRing e3) = ringRest (eRxRing e)"
    using ctl n c1 by (simp_all add: ethCtl_def)
  then have "ringHeld (eTxRing e3)" "ringHeld (eRxRing e3)"
    using i by (auto simp: ethInv_def intro: ringHeld_rest)
  moreover have "\<not> eEnabled e3" "\<not> eEnabling e3" "eCore e3" "eEq e3 \<noteq> None" "\<not> eNotifierRegistered e3"
    using ctl n c1 by (simp_all add: ethCtl_def)
  ultimately show ?thesis using d e'
    by (simp add: ethInv_def ethRest2_def partsIdle_def flowIdle_def globIdle_def)
qed

section \<open>Enabling\<close>

lemma allocGlobal_spec:
  assumes "ethBase caps O' B e" "partsIdle e" "globIdle e" and "allocGlobalResources xc e = (kr, e')"
  shows "ethBase caps O' B e' \<and> globRest e' = globRest e \<and> partsIdle e' \<and>
    (kr = kIOReturnSuccess \<longrightarrow> alive (ePd e') \<and> alive (eTd e') \<and> alive (eMkeyIndex e'))"
  using triD [OF allocGlobal_tri [of caps O' B "globRest e"] _ assms(4)] assms(1-3)
  by (auto simp: globPred_def globIdle_def split: if_splits)

lemma createTx_spec:
  assumes bf: "ucLogBfRegSize caps \<le> 30"
    and "ethBase caps O' B e" "txIdle (eTx e)" "txEnv e" and "createTxResources xc caps env e = (kr, e')"
  shows "ethBase caps O' B e' \<and> txRest e' = txRest e \<and> txTight (eTx e') \<and> (kr = kIOReturnSuccess \<longrightarrow> txUp (eTx e'))"
  using triD [OF createTx_tri [OF bf, of O' B "txRest e"] _ assms(5)] assms(2-4)
  by (auto simp: txPredK_def txPred_def txUp_def txTight_def split: if_splits)

lemma createRx_spec:
  assumes "ethBase caps O' B e" "rxIdle (eRx e)" "rxEnv e" "\<not> eFlowEntryValid e" and "createRxResources xc env e = (kr, e')"
  shows "ethBase caps O' B e' \<and> rxRest e' = rxRest e \<and> rxTight (eRx e') \<and> (kr = kIOReturnSuccess \<longrightarrow> rxUp (eRx e'))"
  using triD [OF createRx_tri [of caps O' B "rxRest e"] _ assms(5)] assms(1-4)
  by (auto simp: rxPredK_def rxPred_def rxUp_def rxTight_def split: if_splits)

lemma createFlow_spec:
  assumes "ethBase caps O' B e" "flowIdle e" "alive (rx_tirn (eRx e))" "alive (ePd e)" and "createRxFlowSteering xc e = (kr, e')"
  shows "ethBase caps O' B e' \<and> flowRest e' = flowRest e \<and>
    (kr = kIOReturnSuccess \<longrightarrow> eFlowRootActive e' \<and> eFlowEntryValid e' \<and> alive (eFlowGroupId e') \<and> alive (eFlowTableId e'))"
  using triD [OF createFlow_tri [of caps O' B "flowRest e"] _ assms(5)] assms(1-4)
  by (auto simp: flowPredK_def flowPred_def flowIdle_def split: if_splits)

text \<open>
  The four creating steps in order: whatever fails, what is held is accounted for.
\<close>

lemma enable_body:
  assumes bf: "ucLogBfRegSize caps \<le> 30"
    and b: "ethBase caps O' B e" "partsIdle e" "alive (ePd e)" "alive (eTd e)" "alive (eMkeyIndex e)"
    and h: "ringHeld (eTxRing e)" "ringHeld (eRxRing e)" "eEq e \<noteq> None"
    and f: "ethRun [createTxResources xc caps env, createRxResources xc env, notifierOn me, createRxFlowSteering xc] e = (kr, e')"
  shows "ethRest2 caps O' B e' \<and> ringHeld (eTxRing e') \<and> ringHeld (eRxRing e') \<and> eEq e' \<noteq> None \<and> eCore e' = eCore e \<and>
    ringRest (eTxRing e') = ringRest (eTxRing e) \<and> ringRest (eRxRing e') = ringRest (eRxRing e) \<and>
    eEnabled e' = eEnabled e \<and> eEnabling e' = eEnabling e \<and> eDisabling e' = eDisabling e \<and>
    (kr = kIOReturnSuccess \<longrightarrow> txUp (eTx e') \<and> rxUp (eRx e') \<and> ethUp e' \<and> eNotifierRegistered e' \<and>
       alive (ePd e') \<and> alive (eTd e') \<and> alive (eMkeyIndex e'))"
proof -
  have p: "txIdle (eTx e)" "rxIdle (eRx e)" "flowIdle e" using b(2) by (simp_all add: partsIdle_def)
  have "txEnv e" using b h by (simp add: txEnv_def)
  obtain k1 e1 where x1: "createTxResources xc caps env e = (k1, e1)" by fastforce
  note s1 = createTx_spec [OF bf b(1) p(1) \<open>txEnv e\<close> x1]
  then have r1: "eRx e1 = eRx e" "ringRest (eTxRing e1) = ringRest (eTxRing e)" "eRxRing e1 = eRxRing e"
    "ePd e1 = ePd e" "eTd e1 = eTd e" "eMkeyIndex e1 = eMkeyIndex e" "flowIdle e1" "eEq e1 = eEq e" "eCore e1 = eCore e"
    "eEnabled e1 = eEnabled e" "eEnabling e1 = eEnabling e" "eDisabling e1 = eDisabling e"
    using p(3) by (simp_all add: txRest_def flowIdle_def)
  have h1: "ringHeld (eTxRing e1)" using ringRest_cong(2) [OF r1(2)] h(1) by simp
  show ?thesis
  proof (cases "k1 = kIOReturnSuccess")
    case False
    then have "e' = e1" "kr \<noteq> kIOReturnSuccess" using f x1 by auto
    then show ?thesis using s1 r1 h h1 p idle_tight by (simp add: ethRest2_def)
  next
    case k1: True
    obtain k2 e2 where x2: "createRxResources xc env e1 = (k2, e2)" by fastforce
    have "rxEnv e1" "\<not> eFlowEntryValid e1" using b h r1 by (simp_all add: rxEnv_def flowIdle_def)
    note s2 = createRx_spec [OF conjunct1 [OF s1] _ this x2]
    have s2: "ethBase caps O' B e2 \<and> rxRest e2 = rxRest e1 \<and> rxTight (eRx e2) \<and> (k2 = kIOReturnSuccess \<longrightarrow> rxUp (eRx e2))"
      using s2 p(2) r1 by simp
    then have r2: "eTx e2 = eTx e1" "eTxRing e2 = eTxRing e1" "ringRest (eRxRing e2) = ringRest (eRxRing e1)"
      "ePd e2 = ePd e1" "eTd e2 = eTd e1" "eMkeyIndex e2 = eMkeyIndex e1" "flowIdle e2" "eEq e2 = eEq e1" "eCore e2 = eCore e1"
      "eEnabled e2 = eEnabled e1" "eEnabling e2 = eEnabling e1" "eDisabling e2 = eDisabling e1"
      using r1(7) by (simp_all add: rxRest_def flowIdle_def)
    have h2: "ringHeld (eRxRing e2)" using ringRest_cong(2) [OF r2(3)] h(2) r1 by simp
    show ?thesis
    proof (cases "k2 = kIOReturnSuccess")
      case False
      then have "e' = e2" "kr \<noteq> kIOReturnSuccess" using f x1 x2 k1 by auto
      then show ?thesis using s1 s2 r1 r2 h h1 h2 by (simp add: ethRest2_def)
    next
      case k2: True
      obtain k3 e3 where x3: "notifierOn me e2 = (k3, e3)" by fastforce
      have "eEq e2 \<noteq> None" using r1 r2 h by simp
      note s3 = notifierOn_spec [OF conjunct1 [OF s2] x3 this]
      have h3: "ringHeld (eTxRing e3)" "ringHeld (eRxRing e3)"
        by (rule ringHeld_rest [of _ "eTxRing e2"], use s3 h1 r2 in simp_all)
          (rule ringHeld_rest [of _ "eRxRing e2"], use s3 h2 in simp_all)
      obtain k4 e4 where x4: "createRxFlowSteering xc e3 = (k4, e4)" by fastforce
      have e': "kr = k4" "e' = e4" using f x1 x2 x3 x4 k1 k2 s3 by (auto split: if_splits)
      have up: "txUp (eTx e3)" "rxUp (eRx e3)" using s1 s2 s3 k1 k2 r2 by simp_all
      then have "alive (rx_tirn (eRx e3))" "alive (ePd e3)" "flowIdle e3" "ethBase caps O' B e3"
        using b s3 r1 r2 by (simp_all add: rxUp_def)
      note s4 = createFlow_spec [OF this(4,3,1,2) x4]
      then have r4: "eTx e4 = eTx e3" "eRx e4 = eRx e3" "eTxRing e4 = eTxRing e3" "eRxRing e4 = eRxRing e3" "eEq e4 = eEq e3"
        "eCore e4 = eCore e3" "ePd e4 = ePd e3" "eTd e4 = eTd e3" "eMkeyIndex e4 = eMkeyIndex e3"
        "eEnabled e4 = eEnabled e3" "eEnabling e4 = eEnabling e3" "eDisabling e4 = eDisabling e3"
        "eNotifierRegistered e4 = eNotifierRegistered e3"
        by (simp_all add: flowRest_def)
      show ?thesis
        using s4 r4 s3 up h3 b r1 r2 e' by (simp add: ethRest2_def ethUp_def txUp_def rxUp_def txTight_def rxTight_def)
    qed
  qed
qed

lemma enable_spec:
  assumes bf: "ucLogBfRegSize caps \<le> 30"
    and i: "ethInv caps O' B e" and f: "ethEnable xc caps env me e = (kr, e')"
  shows "ethInv caps O' B e' \<and>
    ringRest (eTxRing e') = ringRest (eTxRing e) \<and> ringRest (eRxRing e') = ringRest (eRxRing e) \<and>
    (eEnabled e \<longrightarrow> kr = kIOReturnSuccess \<and> e' = e) \<and>
    (\<not> eEnabled e \<and> alive (ePd e) \<longrightarrow> kr = kIOReturnNotReady \<and> e' = e) \<and>
    (\<not> eEnabled e \<and> \<not> alive (ePd e) \<longrightarrow>
       (if kr = kIOReturnSuccess then eEnabled e' \<and> txUp (eTx e') \<and> rxUp (eRx e') else \<not> eEnabled e'))"
proof -
  have r2: "ethRest2 caps O' B e" and g: "\<not> eEnabling e" "\<not> eDisabling e" "eCore e" "eEq e \<noteq> None"
    and h: "ringHeld (eTxRing e)" "ringHeld (eRxRing e)" and n: "eNotifierRegistered e = eEnabled e"
    using i by (simp_all add: ethInv_def)
  show ?thesis
  proof (cases "eEnabled e \<or> alive (ePd e)")
    case True
    then have "(kr, e') = (if eEnabled e then (kIOReturnSuccess, e) else (kIOReturnNotReady, e))"
      using f g by (auto simp add: ethEnable_def simp del: ethRun.simps)
    then show ?thesis using i True by (auto split: if_splits)
  next
    case dead: False
    then have idle: "partsIdle e" "globIdle e" using dead_idle [OF r2] by simp_all
    let ?e0 = "e\<lparr>eEnabling := True\<rparr>"
    obtain k1 e1 where x1: "allocGlobalResources xc ?e0 = (k1, e1)" by fastforce
    have "ethBase caps O' B ?e0" "partsIdle ?e0" "globIdle ?e0"
      using r2 idle by (simp_all add: ethRest2_def partsIdle_def flowIdle_def globIdle_def)
    note s1 = allocGlobal_spec [OF this x1]
    then have r1: "eTx e1 = eTx e" "eRx e1 = eRx e" "eTxRing e1 = eTxRing e" "eRxRing e1 = eRxRing e" "eEq e1 = eEq e"
      "eCore e1 = eCore e" "\<not> eEnabled e1" "\<not> eDisabling e1" "\<not> eNotifierRegistered e1"
      using g dead n by (simp_all add: globRest_def)
    have tight1: "ethRest2 caps O' B e1" using s1 idle_tight by (simp add: ethRest2_def partsIdle_def)
    have fail: "ethInv caps O' B (snd (ethEnableFail k d)) \<and> \<not> eEnabled (snd (ethEnableFail k d)) \<and> fst (ethEnableFail k d) = k \<and>
        eTxRing (snd (ethEnableFail k d)) = eTxRing d \<and> eRxRing (snd (ethEnableFail k d)) = eRxRing d"
      if "ethRest2 caps O' B d" "ringHeld (eTxRing d)" "ringHeld (eRxRing d)" "\<not> eDisabling d" "eCore d" "eEq d \<noteq> None"
        "\<not> eNotifierRegistered d" for k and d :: "'a MlxEthernet"
      using that
      by (simp add: ethEnableFail_def ethInv_def ethRest2_def) (simp add: setLinkState_def ethLog_def)
    show ?thesis
    proof (cases "k1 = kIOReturnSuccess")
      case False
      then have "(kr, e') = ethEnableFail k1 e1" using f x1 dead g idle
        by (simp add: ethEnable_def globIdle_def partsIdle_def flowIdle_def txIdle_def rxIdle_def)
      then have "kr = fst (ethEnableFail k1 e1)" "e' = snd (ethEnableFail k1 e1)" by (metis fst_conv, metis snd_conv)
      moreover note fail [OF tight1, of k1]
      ultimately show ?thesis using False dead r1 h g by simp
    next
      case True
      let ?fs = "[createTxResources xc caps env, createRxResources xc env, notifierOn me, createRxFlowSteering xc]"
      obtain k2 e2 where x2: "ethRun ?fs e1 = (k2, e2)" by fastforce
      have "ethBase caps O' B e1" "partsIdle e1" "alive (ePd e1)" "alive (eTd e1)" "alive (eMkeyIndex e1)"
        "ringHeld (eTxRing e1)" "ringHeld (eRxRing e1)" "eEq e1 \<noteq> None" using s1 True r1 h g by simp_all
      note s2 = enable_body [OF bf this x2]
      have fin: "(kr, e') = (if k2 = kIOReturnSuccess then (k2, refreshLink xc (e2\<lparr>eEnabled := True, eEnabling := False\<rparr>))
          else ethEnableFail k2 (snd (destroyAllResources xc caps (notifierOff me e2))))"
        using f x1 x2 True dead g idle unfolding ethEnable_def
        by (simp add: globIdle_def partsIdle_def flowIdle_def txIdle_def rxIdle_def del: ethRun.simps)
      show ?thesis
      proof (cases "k2 = kIOReturnSuccess")
        case k2: True
        let ?e3 = "e2\<lparr>eEnabled := True, eEnabling := False\<rparr>"
        have "ethBase caps O' B ?e3" using s2 by (simp add: ethRest2_def)
        note l = refreshLink_base [OF this, of xc]
        have e': "kr = kIOReturnSuccess" "e' = refreshLink xc ?e3" using fin k2 by simp_all
        have c: "eTx e' = eTx e2" "eRx e' = eRx e2" "ringRest (eTxRing e') = ringRest (eTxRing e2)"
          "ringRest (eRxRing e') = ringRest (eRxRing e2)" "eEq e' = eEq e2" "eCore e' = eCore e2" "eEnabled e'" "\<not> eEnabling e'"
          "eDisabling e' = eDisabling e2" "eNotifierRegistered e' = eNotifierRegistered e2" "eFlowRootActive e' = eFlowRootActive e2"
          using l by (simp_all add: e'(2) sameCtl_def ethCtl_def)
        show ?thesis
          using s2 k2 l c ringRest_cong(2) [OF c(3)] ringRest_cong(2) [OF c(4)] e' r1 g dead
          by (simp add: ethInv_def ethRest2_def ethUp_def)
      next
        case k2: False
        have cq: "eEq e2 \<noteq> None" "eCore e2" using s2 r1 g by simp_all
        note n = notifierOff_spec [OF cq, of caps O' B me]
        have "ethRest2 caps O' B (notifierOff me e2)" using n s2 by (simp add: ethRest2_def)
        moreover obtain k3 e3 where x3: "destroyAllResources xc caps (notifierOff me e2) = (k3, e3)" by fastforce
        ultimately have d: "ethRest2 caps O' B e3" "ethCtl e3 = ethCtl (notifierOff me e2)" using destroyAll_spec by blast+
        then have c: "ringRest (eTxRing e3) = ringRest (eTxRing e2)" "ringRest (eRxRing e3) = ringRest (eRxRing e2)"
          "eDisabling e3 = eDisabling e2" "eCore e3" "eEq e3 \<noteq> None" "\<not> eNotifierRegistered e3"
          using n by (simp_all add: ethCtl_def)
        have "ringHeld (eTxRing e3)" "ringHeld (eRxRing e3)"
          by (rule ringHeld_rest [OF c(1)], use s2 in simp) (rule ringHeld_rest [OF c(2)], use s2 in simp)
        note fl = fail [OF d(1) this _ c(4-6), of k2]
        have "(kr, e') = ethEnableFail k2 e3" using fin k2 x3 by simp
        then have "kr = fst (ethEnableFail k2 e3)" "e' = snd (ethEnableFail k2 e3)" by (metis fst_conv, metis snd_conv)
        then show ?thesis using fl c s2 r1 k2 dead by simp
      qed
    qed
  qed
qed

end
