(* ===== verification/MlxEthData.thy ===== *)
theory MlxEthData
  imports MlxEthLife
begin

text \<open>
  \<^verbatim>\<open>Sources/netif/MlxEthernet.cpp\<close>, the data path: transmitting a packet, polling the two
  completion queues and the event callback. The device writes the completion entries and the
  receive pool, so what a poll reads is an argument: \<open>cqes i slot\<close> is the entry in \<open>slot\<close> at
  iteration \<open>i\<close> of the loop. The lock serialises transmission and polling.
\<close>

unbundle bit_operations_syntax

section \<open>Data\<close>

definition MLX_OPCODE_SEND :: u32 where "MLX_OPCODE_SEND = 0x0A"
definition MLX_WQE_CTRL_CQ_UPDATE :: u8 where "MLX_WQE_CTRL_CQ_UPDATE = 0x08"
definition MLX_CQE_RESP :: u8 where "MLX_CQE_RESP = 2"

text \<open>The fields of \<^verbatim>\<open>MlxCqe64\<close> the driver reads, in host order.\<close>

record MlxCqe64 =
  cqe_byteCnt :: u32
  cqe_wqeCounter :: u16
  cqe_opOwn :: u8

definition MLX_CQE_GET_OPCODE :: "MlxCqe64 \<Rightarrow> u8" where
  "MLX_CQE_GET_OPCODE cqe = drop_bit 4 (cqe_opOwn cqe)"

text \<open>
  A packet of the network stack: its identity, \<^verbatim>\<open>mbuf_pkthdr_len\<close>, and the bytes
  \<^verbatim>\<open>mbuf_copydata\<close> delivers for that length, \<open>None\<close> when it fails.
\<close>

record mbuf =
  mb_id :: nat
  mb_len :: u32
  mb_data :: "buffer option"

section \<open>Transmit\<close>

text \<open>
  The 64 bytes of a send entry: control, Ethernet and data segment, with the L2 header in the
  entry when the port asks for it.
\<close>

definition txWqe :: "u16 \<Rightarrow> u32 \<Rightarrow> u32 \<Rightarrow> nat \<Rightarrow> u32 \<Rightarrow> u64 \<Rightarrow> buffer \<Rightarrow> buffer" where
  "txWqe pc sqn lkey inlineLen len addr bytes =
     (let w = OSWriteBigInt32 (replicate 64 0) 0 (ucast (push_bit 8 (ucast pc :: u32) OR MLX_OPCODE_SEND));
          w = (if inlineLen \<noteq> 0
               then copyInto (OSWriteBigInt16 w 28 (of_nat inlineLen)) 30 (take inlineLen bytes) else w);
          dseg = (if inlineLen \<noteq> 0 then 48 else 32);
          dsCount = (if inlineLen \<noteq> 0 then 4 else 3 :: u32);
          w = OSWriteBigInt32 w 4 (ucast (push_bit 8 sqn OR dsCount));
          w = w[20 := 0];
          w = OSWriteBigInt32 w dseg (ucast (len - of_nat inlineLen));
          w = OSWriteBigInt32 w (dseg + 4) (ucast lkey);
          w = OSWriteBigInt64 w (dseg + 8) (addr + of_nat inlineLen)
      in w[11 := MLX_WQE_CTRL_CQ_UPDATE])"

definition txInlineLen :: "'w MlxEthernet \<Rightarrow> nat" where
  "txInlineLen e = (if eTxMinInlineMode e = 1 then 14 else 0)"

definition setTxWqe :: "nat \<Rightarrow> buffer \<Rightarrow> MlxEthRing \<Rightarrow> MlxEthRing" where
  "setTxWqe i w r = r\<lparr>ring_wqBuf := map_option (\<lambda>b. copyInto b (i * unat (ring_wqebb r)) w) (ring_wqBuf r)\<rparr>"

text \<open>The entry as it stands when the packet is dropped: zeroed, with its first word.\<close>

definition txWqeHead :: "u16 \<Rightarrow> buffer" where
  "txWqeHead pc = OSWriteBigInt32 (replicate 64 0) 0 (ucast (push_bit 8 (ucast pc :: u32) OR MLX_OPCODE_SEND))"

definition xmitPacket :: "mbuf \<Rightarrow> 'w ethStep" where
  "xmitPacket m e =
     (case eTxRing e of
        None \<Rightarrow> (kIOReturnInvalid, e)
      | Some r \<Rightarrow>
          (let t = eTx e; len = mb_len m; drop' = ethLog (FreeMbuf (mb_id m))
           in if ring_wqBuf r = None \<or> tx_sqn t = MLX5E_INVALID_RESOURCE \<or> em_desc (tx_buf t) = None \<or>
                 em_dma (tx_buf t) = 0 \<or> eLkey e = 0 \<or> \<not> tx_bfValid t
              then (kIOReturnInvalid, e)
              else if len = 0 \<or> MLX5E_TX_BUF_SIZE < unat len then (kIOReturnSuccess, drop' e)
              else if \<not> eEnabled e then (kIOReturnNotReady, e)
              else if ring_size r \<le> tx_pc t - tx_cc t then (kIOReturnOutputStall, e)
              else
                (let pc = tx_pc t; pi = unat (pc AND (ring_size r - 1)); inl = txInlineLen e
                 in case mb_data m of
                      None \<Rightarrow> (kIOReturnSuccess,
                               drop' (e\<lparr>eTxRing := Some (setTxWqe pi (txWqeHead pc) r)\<rparr>))
                    | Some bytes \<Rightarrow>
                        (let e = updTx (\<lambda>t. t\<lparr>tx_pool := copyInto (tx_pool t) (pi * MLX5E_TX_BUF_SIZE) bytes\<rparr>) e
                         in if inl \<noteq> 0 \<and> unat len < inl
                            then (kIOReturnSuccess,
                                  drop' (e\<lparr>eTxRing := Some (setTxWqe pi (txWqeHead pc) r)\<rparr>))
                            else
                              (let w = txWqe pc (tx_sqn t) (eLkey e) inl len
                                         (em_dma (tx_buf t) + of_nat (pi * MLX5E_TX_BUF_SIZE)) bytes;
                                   r = setWqeMbuf pi (Some (mb_id m)) ((setTxWqe pi w r)\<lparr>ring_head := pc\<rparr>);
                                   e = updTx (\<lambda>t. t\<lparr>tx_pc := pc + 1\<rparr>) (e\<lparr>eTxRing := Some r\<rparr>);
                                   e = ringWriteDb r (ucast (pc + 1)) e
                               in (kIOReturnSuccess, ethLog (WriteBf (bf_map (tx_bf t)) (take 8 w)) e))))))"

definition outputPacket :: "mbuf option \<Rightarrow> 'w ethStep" where
  "outputPacket packet e =
     (case packet of
        None \<Rightarrow> (kIOReturnOutputStall, e)
      | Some m \<Rightarrow>
          if \<not> eEnabled e \<or> eTxRing e = None \<or> tx_sqn (eTx e) = MLX5E_INVALID_RESOURCE
          then (kIOReturnOutputStall, e)
          else (case xmitPacket m e of
                  (kr, e) \<Rightarrow> (if kr \<noteq> kIOReturnSuccess then kIOReturnOutputStall else kIOReturnOutputSuccess, e)))"

section \<open>Send completions\<close>

text \<open>
  One completion: slots are freed up to and including \<open>target\<close>, but not past \<open>fTxPc\<close>.
\<close>

lemma txComplete_measure: "c \<noteq> t \<Longrightarrow> unat (t - (c + 1)) < unat (t - c)" for c t :: u16
proof -
  assume "c \<noteq> t"
  then have "t - c \<noteq> 0" by simp
  then have "unat (t - c - 1) = unat (t - c) - 1" "0 < unat (t - c)"
    by (simp_all add: unat_minus_one unat_gt_0)
  moreover have "t - (c + 1) = t - c - 1" by simp
  ultimately show ?thesis by (metis diff_less zero_less_one)
qed

function txComplete :: "u16 \<Rightarrow> 'w MlxEthernet \<Rightarrow> 'w MlxEthernet" where
  "txComplete target e =
     (let cc = tx_cc (eTx e);
          e' = updTx (\<lambda>t. t\<lparr>tx_cc := cc + 1\<rparr>) (txFreeSlot (unat (cc AND 255)) e)
      in if cc = target \<or> cc + 1 = tx_pc (eTx e) then e' else txComplete target e')"
  by pat_completeness auto
termination
  by (relation "measure (\<lambda>(target, e). unat (target - tx_cc (eTx e)))")
    (auto simp: updTx_def intro: txComplete_measure)

declare txComplete.simps [simp del]

definition cqSlot :: "u32 \<Rightarrow> nat" where
  "cqSlot cc = unat (cc AND 255)"

definition cqOwned :: "u32 \<Rightarrow> MlxCqe64 \<Rightarrow> bool" where
  "cqOwned cc cqe \<longleftrightarrow> MLX_CQE_GET_OPCODE cqe \<noteq> MLX_CQE_INVALID \<and>
     cqe_opOwn cqe AND 1 = ucast (drop_bit 8 cc AND 1)"

partial_function (option) txPollLoop ::
  "(nat \<Rightarrow> nat \<Rightarrow> MlxCqe64) \<Rightarrow> nat \<Rightarrow> 'w MlxEthernet \<Rightarrow> 'w MlxEthernet option" where
  "txPollLoop cqes i e =
     (let cc = tx_cqCc (eTx e); cqe = cqes i (cqSlot cc)
      in if \<not> cqOwned cc cqe then Some e
         else txPollLoop cqes (i + 1)
                (updTx (\<lambda>t. t\<lparr>tx_cqCc := cc + 1\<rparr>) (txComplete (cqe_wqeCounter cqe) e)))"

definition pollTxCq :: "(nat \<Rightarrow> nat \<Rightarrow> MlxCqe64) \<Rightarrow> 'w MlxEthernet \<Rightarrow> 'w MlxEthernet option" where
  "pollTxCq cqes e =
     (if eTxRing e = None \<or> \<not> tx_cqBuf (eTx e) then Some e
      else map_option
             (\<lambda>e. ethLog ServiceQueue (armTxCq (ethUpdateCq (tx_cqDbOffset (eTx e)) (tx_cqCc (eTx e)) e)))
             (txPollLoop cqes 0 e))"

section \<open>Receive completions\<close>

definition receivePacket :: "buffer \<Rightarrow> u32 \<Rightarrow> 'w MlxEthernet \<Rightarrow> 'w MlxEthernet" where
  "receivePacket packet len e =
     (if \<not> eEnabled e then ethLog (DropRx packet) e
      else if eNic e then ethLog (InputPacket packet len) e
      else ethLog (DropRx packet) e)"

text \<open>
  \<open>slot\<close> gives the bytes of a slot of the receive pool; \<open>mb\<close> says whether
  \<^verbatim>\<open>mbuf_allocpacket\<close> succeeded. The slot is posted again whatever the completion was.
\<close>

definition handleRxCqe :: "bool \<Rightarrow> (nat \<Rightarrow> buffer) \<Rightarrow> MlxCqe64 \<Rightarrow> 'w MlxEthernet \<Rightarrow> 'w MlxEthernet" where
  "handleRxCqe mb slot cqe e =
     (if em_desc (rx_buf (eRx e)) = None \<or> em_dma (rx_buf (eRx e)) = 0 then e
      else
        (let wqeIdx = unat (cqe_wqeCounter cqe AND 255); bcnt = cqe_byteCnt cqe;
             m = (if MLX_CQE_GET_OPCODE cqe = MLX_CQE_RESP \<and> 0 < bcnt \<and> unat bcnt \<le> MLX5E_RX_BUF_SIZE \<and> mb
                  then Some (take (unat bcnt) (slot wqeIdx)) else None);
             e = (case postRxWqe (unat (rx_pc (eRx e) AND 255)) e of
                    (kr, e) \<Rightarrow> if kr = kIOReturnSuccess
                               then rxDoorbell (updRx (\<lambda>t. t\<lparr>rx_pc := rx_pc t + 1\<rparr>) e) else e);
             e = updRx (\<lambda>t. t\<lparr>rx_cc := cqe_wqeCounter cqe + 1\<rparr>) e
         in case m of None \<Rightarrow> e | Some p \<Rightarrow> receivePacket p bcnt e))"

partial_function (option) rxPollLoop ::
  "(nat \<Rightarrow> nat \<Rightarrow> MlxCqe64) \<Rightarrow> (nat \<Rightarrow> nat \<Rightarrow> buffer) \<Rightarrow> (nat \<Rightarrow> bool) \<Rightarrow> nat \<Rightarrow> 'w MlxEthernet \<Rightarrow>
   'w MlxEthernet option" where
  "rxPollLoop cqes slots mb i e =
     (let cc = rx_cqCc (eRx e); cqe = cqes i (cqSlot cc)
      in if \<not> cqOwned cc cqe then Some e
         else rxPollLoop cqes slots mb (i + 1)
                (updRx (\<lambda>t. t\<lparr>rx_cqCc := cc + 1\<rparr>) (handleRxCqe (mb i) (slots i) cqe e)))"

definition pollRxCq ::
  "(nat \<Rightarrow> nat \<Rightarrow> MlxCqe64) \<Rightarrow> (nat \<Rightarrow> nat \<Rightarrow> buffer) \<Rightarrow> (nat \<Rightarrow> bool) \<Rightarrow> 'w MlxEthernet \<Rightarrow>
   'w MlxEthernet option" where
  "pollRxCq cqes slots mb e =
     (if eRxRing e = None \<or> \<not> rx_cqBuf (eRx e) then Some e
      else map_option
             (\<lambda>e. armRxCq (ethUpdateCq (rx_cqDbOffset (eRx e)) (rx_cqCc (eRx e)) e))
             (rxPollLoop cqes slots mb 0 e))"

section \<open>Events\<close>

definition ethHandleEvent ::
  "'w execFn \<Rightarrow> (nat \<Rightarrow> nat \<Rightarrow> MlxCqe64) \<Rightarrow> (nat \<Rightarrow> nat \<Rightarrow> buffer) \<Rightarrow> (nat \<Rightarrow> bool) \<Rightarrow> u32 \<Rightarrow> MlxEqe option \<Rightarrow>
   'w MlxEthernet \<Rightarrow> 'w MlxEthernet option" where
  "ethHandleEvent xc cqes slots mb type eqe e =
     (if type = ucast MLX_EVENT_TYPE_PORT_STATE_CHANGE then Some (refreshLink xc e)
      else if type \<noteq> ucast MLX_EVENT_TYPE_COMPLETION then Some e
      else
        (case eqe of
           None \<Rightarrow> Some e
         | Some q \<Rightarrow>
             (let cqn = eqe_data q ! 6 AND 0xFFFFFF
              in if cqn = tx_cqn (eTx e)
                 then pollTxCq cqes (updTx (\<lambda>t. t\<lparr>tx_armSn := tx_armSn t + 1\<rparr>) e)
                 else if cqn = rx_cqn (eRx e)
                 then pollRxCq cqes slots mb (updRx (\<lambda>t. t\<lparr>rx_armSn := rx_armSn t + 1\<rparr>) e)
                 else Some e)))"

section \<open>The answers of the interface to the network stack\<close>

definition getHardwareAddress :: "bool \<Rightarrow> 'w MlxEthernet \<Rightarrow> ioreturn \<times> buffer" where
  "getHardwareAddress addr e = (if \<not> addr then (kIOReturnBadArgument, []) else (kIOReturnSuccess, eMacAddr e))"

definition getMaxPacketSize :: "ioreturn \<times> u32" where "getMaxPacketSize = (kIOReturnSuccess, 1518)"
definition getMinPacketSize :: "ioreturn \<times> u32" where "getMinPacketSize = (kIOReturnSuccess, 60)"
definition setPromiscuousMode :: "bool \<Rightarrow> ioreturn" where "setPromiscuousMode active = kIOReturnUnsupported"
definition setMulticastMode :: "bool \<Rightarrow> ioreturn" where "setMulticastMode active = kIOReturnUnsupported"
definition setProperties :: ioreturn where "setProperties = kIOReturnSuccess"
definition xmitInline :: "mbuf \<Rightarrow> ioreturn" where "xmitInline packet = kIOReturnUnsupported"
definition xmitDma :: "mbuf \<Rightarrow> ioreturn" where "xmitDma packet = kIOReturnUnsupported"

text \<open>The three filter bits are constants of IOKit; \<open>networkGroup\<close> says whether the group asked for is \<^verbatim>\<open>gIONetworkFilterGroup\<close>.\<close>

definition getPacketFilters :: "u32 \<Rightarrow> u32 \<Rightarrow> u32 \<Rightarrow> bool \<Rightarrow> ioreturn \<times> u32 option" where
  "getPacketFilters unicast multicast broadcast networkGroup =
     (if networkGroup then (kIOReturnSuccess, Some (unicast OR multicast OR broadcast)) else (kIOReturnUnsupported, None))"

end
