(* ===== verification/MlxEthProps.thy ===== *)
theory MlxEthProps
  imports MlxEthOps MlxEthData
begin

text \<open>
  The life of the interface as a whole: any sequence of \<open>enable\<close>, \<open>disable\<close>, packets and events
  after a successful start keeps the firmware objects safe and everything accounted for, and
  \<open>stop\<close> either releases all of it or keeps the memory of what the firmware still owns.
\<close>

unbundle bit_operations_syntax

section \<open>The data path keeps the invariant\<close>

definition txKey where
  "txKey t = (tx_tisn t, tx_sqn t, tx_cqn t, tx_dbOffset t, tx_cqDbOffset t, tx_bf t, tx_bfValid t, tx_cq t,
     tx_cqBuf t, tx_buf t)"

definition rxKey where
  "rxKey t = (rx_tirn t, rx_rqn t, rx_cqn t, rx_dbOffset t, rx_cqDbOffset t, rx_cq t, rx_cqBuf t, rx_buf t)"

definition ethKey :: "'w MlxEthernet \<Rightarrow> _" where
  "ethKey e = (txKey (eTx e), rxKey (eRx e), ethCtl e, (ePd e, eTd e, eMkeyIndex e),
     (eFlowTableId e, eFlowGroupId e, eFlowRootActive e, eFlowEntryValid e), eLive e,
     (uarOk (ethUar e), dbTaken (ethUar e), uarRest (ethUar e)))"

lemma key_inv:
  assumes "ethKey e' = ethKey e" shows "ethInv caps O' B e' = ethInv caps O' B e"
proof -
  have r: "ringRest (eTxRing e') = ringRest (eTxRing e)" "ringRest (eRxRing e') = ringRest (eRxRing e)"
    using assms by (simp_all add: ethKey_def ethCtl_def)
  note ring = ringRest_cong [OF r(1)] ringRest_cong [OF r(2)]
  have "ethAcct caps O' B e' = ethAcct caps O' B e"
    using assms ring by (simp add: ethAcct_def ethKey_def txKey_def rxKey_def uarRest_def)
  moreover have "txSafe e' = txSafe e" "rxSafe e' = rxSafe e" "flowSafe e' = flowSafe e" "globSafe e' = globSafe e"
    using assms ring by (simp_all add: txSafe_def rxSafe_def flowSafe_def globSafe_def ethKey_def txKey_def rxKey_def)
  moreover have "txTight (eTx e') = txTight (eTx e)" "rxTight (eRx e') = rxTight (eRx e)" "ethUp e' = ethUp e"
    using assms by (simp_all add: txTight_def rxTight_def ethUp_def ethKey_def txKey_def rxKey_def)
  ultimately show ?thesis
    using assms ring by (simp add: ethInv_def ethRest2_def ethBase_def ethSafe_def ethKey_def ethCtl_def)
qed

lemma key_upd [simp]:
  "ethKey (ethLog x e) = ethKey e"
  "ethKey (e\<lparr>eLinkUp := b, eLinkSpeed := s\<rparr>) = ethKey e"
  "ethKey (updTx (\<lambda>t. t\<lparr>tx_pc := pc\<rparr>) e) = ethKey e"
  "ethKey (updTx (\<lambda>t. t\<lparr>tx_cc := pc\<rparr>) e) = ethKey e"
  "ethKey (updTx (\<lambda>t. t\<lparr>tx_cqCc := cq\<rparr>) e) = ethKey e"
  "ethKey (updTx (\<lambda>t. t\<lparr>tx_armSn := tx_armSn t + 1\<rparr>) e) = ethKey e"
  "ethKey (updTx (\<lambda>t. t\<lparr>tx_pool := f t\<rparr>) e) = ethKey e"
  "ethKey (updRx (\<lambda>t. t\<lparr>rx_pc := rx_pc t + 1\<rparr>) e) = ethKey e"
  "ethKey (updRx (\<lambda>t. t\<lparr>rx_cc := pc\<rparr>) e) = ethKey e"
  "ethKey (updRx (\<lambda>t. t\<lparr>rx_cqCc := cq\<rparr>) e) = ethKey e"
  "ethKey (updRx (\<lambda>t. t\<lparr>rx_armSn := rx_armSn t + 1\<rparr>) e) = ethKey e"
  by (simp_all add: ethKey_def txKey_def rxKey_def updTx_def updRx_def ethLog_def ethCtl_def)

lemma key_ring [simp]:
  "ringRest ro = ringRest (eTxRing e) \<Longrightarrow> ethKey (e\<lparr>eTxRing := ro\<rparr>) = ethKey e"
  "ringRest ro = ringRest (eRxRing e) \<Longrightarrow> ethKey (e\<lparr>eRxRing := ro\<rparr>) = ethKey e"
  by (simp_all add: ethKey_def ethCtl_def)

lemma key_writeDb [simp]: "ethKey (writeDb i v e) = ethKey e"
proof (cases "fDbRecord (ethUar e)")
  case None
  then show ?thesis by (simp add: writeDb_def)
next
  case (Some p)
  then show ?thesis
    by (simp add: writeDb_def setUar_def ethKey_def ethCtl_def uarOk_def dbWf_def uarRest_def dbTaken_def)
qed

lemma key_ringDb [simp]: "ethKey (ringWriteDb r v e) = ethKey e"
  by (simp add: ringWriteDb_def split: option.split)

lemma key_armCq [simp]: "ethKey (armCq n off sn cc e) = ethKey e" "ethKey (ethUpdateCq off cc e) = ethKey e"
  by (simp_all add: armCq_def ethUpdateCq_def Let_def)

lemma key_txFreeSlot [simp]: "ethKey (txFreeSlot i e) = ethKey e"
proof -
  obtain l ro where "txFreeSlot i e = e\<lparr>eLog := l, eTxRing := ro\<rparr>" "ringRest ro = ringRest (eTxRing e)"
    using txFreeSlot_frame by blast
  then show ?thesis by (simp add: ethKey_def ethCtl_def)
qed

lemma key_txComplete [simp]: "ethKey (txComplete target e) = ethKey e"
proof (induction target e rule: txComplete.induct)
  case (1 target e)
  show ?case by (subst txComplete.simps) (use 1 in \<open>auto simp: Let_def\<close>)
qed

lemma key_txPoll:
  assumes "txPollLoop cqes i e = Some e'" shows "ethKey e' = ethKey e"
proof (rule txPollLoop.raw_induct [where P = "\<lambda>cqes i e e'. ethKey e' = ethKey e", OF _ assms], goal_cases)
  case (1 loop cqes i e e')
  from 1(2) show ?case by (auto simp: Let_def split: if_splits dest: 1(1))
qed

lemma key_pollTx: "pollTxCq cqes e = Some e' \<Longrightarrow> ethKey e' = ethKey e"
  by (auto simp: pollTxCq_def armTxCq_def split: if_splits dest: key_txPoll)

lemma key_postRx: "ethKey (snd (postRxWqe i e)) = ethKey e"
  by (auto simp: postRxWqe_def ringRest_def split: option.split)

lemma key_rxDoorbell [simp]: "ethKey (rxDoorbell e) = ethKey e"
  by (simp add: rxDoorbell_def split: option.split)

lemma key_receive [simp]: "ethKey (receivePacket p n e) = ethKey e"
  by (simp add: receivePacket_def)

lemma key_handleRx [simp]: "ethKey (handleRxCqe mb slot cqe e) = ethKey e"
proof -
  obtain kr e1 where p: "postRxWqe (unat (rx_pc (eRx e) AND 255)) e = (kr, e1)" by fastforce
  then have "ethKey e1 = ethKey e" using key_postRx [of "unat (rx_pc (eRx e) AND 255)" e] by simp
  then show ?thesis by (simp add: handleRxCqe_def Let_def p split: option.split)
qed

lemma key_rxPoll:
  assumes "rxPollLoop cqes slots mb i e = Some e'" shows "ethKey e' = ethKey e"
proof (rule rxPollLoop.raw_induct [where P = "\<lambda>cqes slots mb i e e'. ethKey e' = ethKey e", OF _ assms], goal_cases)
  case (1 loop cqes slots mb i e e')
  from 1(2) show ?case by (auto simp: Let_def split: if_splits dest: 1(1))
qed

lemma key_pollRx: "pollRxCq cqes slots mb e = Some e' \<Longrightarrow> ethKey e' = ethKey e"
  by (auto simp: pollRxCq_def armRxCq_def split: if_splits dest: key_rxPoll)

lemma key_exec: "ethExec xc opc inb n e = (kr, out, e') \<Longrightarrow> ethKey e' = ethKey e"
  using ethExec_cmd [of xc opc inb n e kr out e'] by (auto simp: ethKey_def ethCtl_def)

lemma key_refresh [simp]: "ethKey (refreshLink xc e) = ethKey e"
proof -
  let ?in = "ethInput 16 MLX_CMD_OP_QUERY_VPORT_STATE [(0x30, 16, 0)]"
  obtain kr out e1 where x: "ethExec xc MLX_CMD_OP_QUERY_VPORT_STATE ?in 16 e = (kr, out, e1)" by (metis prod_cases3)
  then show ?thesis using key_exec [OF x] by (simp add: refreshLink_def queryLinkState_def setLinkState_def)
qed

lemma key_event: "ethHandleEvent xc cqes slots mb type eqe e = Some e' \<Longrightarrow> ethKey e' = ethKey e"
  by (auto simp: ethHandleEvent_def Let_def split: if_splits option.splits dest!: key_pollTx key_pollRx)

text \<open>The three outcomes of a transmission: refused, dropped, or queued in the next slot.\<close>

definition txSlot :: "MlxEthRing \<Rightarrow> u16 \<Rightarrow> nat" where
  "txSlot r pc = unat (pc AND (ring_size r - 1))"

definition txSent :: "mbuf \<Rightarrow> MlxEthRing \<Rightarrow> buffer \<Rightarrow> 'w MlxEthernet \<Rightarrow> 'w MlxEthernet" where
  "txSent m r bytes e =
     (let t = eTx e; pc = tx_pc t; i = txSlot r pc;
          w = txWqe pc (tx_sqn t) (eLkey e) (txInlineLen e) (mb_len m)
                (em_dma (tx_buf t) + of_nat (i * MLX5E_TX_BUF_SIZE)) bytes;
          r = setWqeMbuf i (Some (mb_id m)) ((setTxWqe i w r)\<lparr>ring_head := pc\<rparr>);
          e = updTx (\<lambda>t. t\<lparr>tx_pool := copyInto (tx_pool t) (i * MLX5E_TX_BUF_SIZE) bytes\<rparr>) e;
          e = updTx (\<lambda>t. t\<lparr>tx_pc := pc + 1\<rparr>) (e\<lparr>eTxRing := Some r\<rparr>)
      in ethLog (WriteBf (bf_map (tx_bf t)) (take 8 w)) (ringWriteDb r (ucast (pc + 1)) e))"

lemma xmit_cases:
  assumes "xmitPacket m e = (kr, e')"
  obtains "kr \<noteq> kIOReturnSuccess" "e' = e"
  | "kr = kIOReturnSuccess" "e' = ethLog (FreeMbuf (mb_id m)) e"
  | r where "kr = kIOReturnSuccess" "eTxRing e = Some r" "mb_data m = None"
      "e' = ethLog (FreeMbuf (mb_id m)) (e\<lparr>eTxRing := Some (setTxWqe (txSlot r (tx_pc (eTx e))) (txWqeHead (tx_pc (eTx e))) r)\<rparr>)"
  | r bytes where "kr = kIOReturnSuccess" "eTxRing e = Some r" "unat (mb_len m) < txInlineLen e"
      "e' = ethLog (FreeMbuf (mb_id m)) ((updTx (\<lambda>t. t\<lparr>tx_pool := copyInto (tx_pool t) (txSlot r (tx_pc (eTx e)) * MLX5E_TX_BUF_SIZE) bytes\<rparr>) e)
        \<lparr>eTxRing := Some (setTxWqe (txSlot r (tx_pc (eTx e))) (txWqeHead (tx_pc (eTx e))) r)\<rparr>)"
  | r bytes where "kr = kIOReturnSuccess" "eTxRing e = Some r" "ring_wqBuf r \<noteq> None" "eEnabled e" "alive (tx_sqn (eTx e))"
      "tx_pc (eTx e) - tx_cc (eTx e) < ring_size r" "mb_data m = Some bytes" "0 < mb_len m"
      "unat (mb_len m) \<le> MLX5E_TX_BUF_SIZE" "txInlineLen e \<le> unat (mb_len m)" "e' = txSent m r bytes e"
proof (cases "kr = kIOReturnSuccess")
  case False
  then have "e' = e" using assms by (auto simp: xmitPacket_def Let_def split: option.splits if_splits)
  then show thesis using that(1) False by simp
next
  case ok: True
  then obtain r where r: "eTxRing e = Some r" using assms by (cases "eTxRing e") (auto simp: xmitPacket_def)
  let ?t = "eTx e"
  have g1: "\<not> (ring_wqBuf r = None \<or> tx_sqn ?t = MLX5E_INVALID_RESOURCE \<or> em_desc (tx_buf ?t) = None \<or>
      em_dma (tx_buf ?t) = 0 \<or> eLkey e = 0 \<or> \<not> tx_bfValid ?t)"
    using assms r ok by (auto simp: xmitPacket_def Let_def split: if_splits)
  show thesis
  proof (cases "mb_len m = 0 \<or> MLX5E_TX_BUF_SIZE < unat (mb_len m)")
    case True
    then have "e' = ethLog (FreeMbuf (mb_id m)) e" using assms r g1 by (auto simp: xmitPacket_def Let_def)
    then show thesis using that(2) ok by simp
  next
    case len: False
    have g2: "eEnabled e" "\<not> ring_size r \<le> tx_pc ?t - tx_cc ?t"
      using assms r ok g1 len by (auto simp: xmitPacket_def Let_def split: if_splits)
    show thesis
    proof (cases "mb_data m")
      case None
      then have "e' = ethLog (FreeMbuf (mb_id m)) (e\<lparr>eTxRing := Some (setTxWqe (txSlot r (tx_pc ?t)) (txWqeHead (tx_pc ?t)) r)\<rparr>)"
        using assms r g1 g2 len by (simp add: xmitPacket_def Let_def txSlot_def)
      then show thesis using that(3) ok r None by simp
    next
      case (Some bytes)
      show thesis
      proof (cases "unat (mb_len m) < txInlineLen e")
        case True
        then have "e' = ethLog (FreeMbuf (mb_id m)) ((updTx (\<lambda>t. t\<lparr>tx_pool := copyInto (tx_pool t) (txSlot r (tx_pc ?t) * MLX5E_TX_BUF_SIZE) bytes\<rparr>) e)
          \<lparr>eTxRing := Some (setTxWqe (txSlot r (tx_pc ?t)) (txWqeHead (tx_pc ?t)) r)\<rparr>)"
          using assms r g1 g2 len Some by (simp add: xmitPacket_def Let_def txSlot_def)
        then show thesis using that(4) ok r True by simp
      next
        case False
        then have "e' = txSent m r bytes e"
          using assms r g1 g2 len Some by (simp add: xmitPacket_def Let_def txSlot_def txSent_def updTx_def)
        then show thesis using that(5) [of r bytes] ok r g1 g2 len Some False by (simp add: not_le word_gt_0)
      qed
    qed
  qed
qed

lemma ringRest_tx [simp]:
  "ringRest (Some (setTxWqe i w r)) = ringRest (Some r)" "ringRest (Some (setWqeMbuf i m r)) = ringRest (Some r)"
  "ringRest (Some (r\<lparr>ring_head := h\<rparr>)) = ringRest (Some r)"
  by (simp_all add: ringRest_def setTxWqe_def setWqeMbuf_def)

lemma updTx_ring [simp]: "eTxRing (updTx f e) = eTxRing e" "eTxRing (ethLog x e) = eTxRing e"
  by (simp_all add: updTx_def ethLog_def)

lemma key_sent: "eTxRing e = Some r \<Longrightarrow> ethKey (txSent m r bytes e) = ethKey e"
  by (simp add: txSent_def Let_def)

lemma key_xmit: "xmitPacket m e = (kr, e') \<Longrightarrow> ethKey e' = ethKey e"
  by (erule xmit_cases) (simp_all add: key_sent)

lemma key_output: "ethKey (snd (outputPacket p e)) = ethKey e"
proof (cases p)
  case None
  then show ?thesis by (simp add: outputPacket_def)
next
  case (Some m)
  obtain kr e' where x: "xmitPacket m e = (kr, e')" by fastforce
  then show ?thesis using key_xmit [OF x] by (simp add: outputPacket_def Some)
qed

end
