(* ===== verification/MlxEthRun.thy ===== *)
theory MlxEthRun
  imports MlxEthProps
begin

text \<open>
  The interface from \<open>start\<close> to \<open>stop\<close>: what \<open>releaseResources\<close> gives back, and every sequence
  of the operations the network stack and the event queue can issue in between.
\<close>

unbundle bit_operations_syntax

section \<open>Releasing\<close>

lemma noMem_free [simp]: "ethFreeMem noMem e = e"
  by (simp add: ethFreeMem_def noMem_def)

lemma freeRing_spec:
  assumes "memOk (ethRingMem ro)"
  shows "\<exists>l. ethFreeRing ro e = e\<lparr>eLive := l\<rparr> \<and> mset l = mset (eLive e) - memM (ethRingMem ro)"
proof (cases ro)
  case None
  then show ?thesis by (intro exI [of _ "eLive e"]) (simp add: ethFreeRing_def ethRingMem_def)
next
  case (Some r)
  then show ?thesis using assms
    by (intro exI [of _ "freeL (ring_mem r) (eLive e)"]) (simp add: ethFreeRing_def ringFreeBuffers_def ethFreeMem_eq ethRingMem_def)
qed

lemma notifierOff_frame:
  assumes "eEq e \<noteq> None" and "eCore e"
  shows "\<exists>q. notifierOff me e = e\<lparr>eEq := Some q, eNotifierRegistered := False\<rparr>"
proof -
  obtain q where q: "eEq e = Some q" using assms(1) by auto
  show ?thesis
  proof (cases "eNotifierRegistered e")
    case True
    then show ?thesis using q assms(2) by (simp add: notifierOff_def) blast
  next
    case False
    then show ?thesis using q by (intro exI [of _ q]) (simp add: notifierOff_def)
  qed
qed

definition ethHeldNothing :: "nat multiset \<Rightarrow> u32 \<Rightarrow> 'w MlxEthernet \<Rightarrow> bool" where
  "ethHeldNothing O' B e \<longleftrightarrow> eLive e = [] \<and> dbTaken (ethUar e) = O' \<and> fUarBitmap (ethUar e) = B \<and>
     eTxRing e = None \<and> eRxRing e = None \<and> \<not> eCore e"

text \<open>Either nothing is kept, or the firmware still owns a queue and nothing was given up.\<close>

lemma release_spec:
  assumes r2: "ethRest2 caps O' B e" and c: "eCore e" "eEq e \<noteq> None"
  shows "\<not> eNic (releaseResources me e) \<and> \<not> eNotifierRegistered (releaseResources me e) \<and>
    quarantinedIds (releaseResources me e) = quarantinedIds e \<and>
    (if quarantinedIds e
     then ethRest2 caps O' B (releaseResources me e) \<and>
       eTxRing (releaseResources me e) = eTxRing e \<and> eRxRing (releaseResources me e) = eRxRing e \<and>
       eLive (releaseResources me e) = eLive e \<and> eCore (releaseResources me e)
     else ethHeldNothing O' B (releaseResources me e))"
proof -
  obtain q where q: "notifierOff me e = e\<lparr>eEq := Some q, eNotifierRegistered := False\<rparr>"
    using notifierOff_frame [OF c(2,1)] by blast
  let ?e1 = "e\<lparr>eEq := Some q, eNotifierRegistered := False, eNic := False\<rparr>"
  have r: "releaseResources me e = (if quarantinedIds e then ?e1
      else (ethFreeRing (eRxRing e) (ethFreeRing (eTxRing e) ?e1))\<lparr>eTxRing := None, eRxRing := None, eCore := False\<rparr>)"
    by (simp add: releaseResources_def q quarantinedIds_def)
  show ?thesis
  proof (cases "quarantinedIds e")
    case True
    then show ?thesis using r2 c by (simp add: r ethRest2_def quarantinedIds_def)
  next
    case False
    have ok: "memOk (ethRingMem (eTxRing e))" "memOk (ethRingMem (eRxRing e))"
      and live: "mset (eLive e) = memM (ethRingMem (eTxRing e)) + memM (ethRingMem (eRxRing e))"
      and db: "dbTaken (ethUar e) = O'" "fUarBitmap (ethUar e) = B"
      using r2 False by (simp_all add: ethRest2_def ethBase_def ethAcct_def txTight_def rxTight_def quarantinedIds_def)
    obtain l1 where l1: "ethFreeRing (eTxRing e) ?e1 = ?e1\<lparr>eLive := l1\<rparr>" "mset l1 = mset (eLive ?e1) - memM (ethRingMem (eTxRing e))"
      using freeRing_spec [OF ok(1), of ?e1] by blast
    obtain l2 where l2: "ethFreeRing (eRxRing e) (?e1\<lparr>eLive := l1\<rparr>) = ?e1\<lparr>eLive := l1\<rparr>\<lparr>eLive := l2\<rparr>"
      "mset l2 = mset l1 - memM (ethRingMem (eRxRing e))"
      using freeRing_spec [OF ok(2), of "?e1\<lparr>eLive := l1\<rparr>"] by auto
    have "l2 = []" using l1 l2 live by simp
    moreover have "\<not> quarantinedIds (releaseResources me e)"
      using False unfolding r by (simp add: l1(1) l2(1)) (simp add: quarantinedIds_def)
    ultimately show ?thesis using False db by (simp add: r l1(1) l2(1) ethHeldNothing_def)
  qed
qed

section \<open>Starting\<close>

lemma ringAlloc_cases:
  assumes "ringAllocBuffers en r e = (kr, r', e')" and "ring_mem r = noMem"
  shows "(if kr = kIOReturnSuccess
    then (\<exists>n l. e' = e\<lparr>eNext := n, eLive := l\<rparr> \<and> mset l = mset (eLive e) + memM (ring_mem r')) \<and>
      memHeld (ring_mem r') \<and> ring_wqBuf r' \<noteq> None
    else (\<exists>n l. e' = e\<lparr>eNext := n, eLive := l\<rparr> \<and> mset l = mset (eLive e)) \<and> ring_mem r' = noMem)"
proof -
  obtain ok k dma where en: "en = (ok, k, dma)" by (cases en) auto
  have same: "\<exists>n l. e = e\<lparr>eNext := n, eLive := l\<rparr> \<and> mset l = mset (eLive e)"
    by (rule exI [of _ "eNext e"], rule exI [of _ "eLive e"]) simp
  consider "\<not> ok" | "ok" "k \<noteq> kIOReturnSuccess" | "ok" "k = kIOReturnSuccess" by blast
  then show ?thesis
  proof cases
    case 1
    then show ?thesis using assms same en
      by (auto simp: ringAllocBuffers_def ethAllocMem_def noMem_def)
  next
    case 2
    then have "kr = kIOReturnNoMemory" "ring_mem r' = noMem"
      "e' = e\<lparr>eNext := eNext e + 1, eLive := eLive e\<rparr>"
      using assms en by (auto simp: ringAllocBuffers_def ethAllocMem_def Let_def ethFreeMem_def ethRelease_def)
    then have "\<exists>n l. e' = e\<lparr>eNext := n, eLive := l\<rparr> \<and> mset l = mset (eLive e)" by blast
    then show ?thesis using \<open>kr = _\<close> \<open>ring_mem r' = _\<close> by simp
  next
    case 3
        then have "kr = kIOReturnSuccess" "ring_mem r' = \<lparr>em_desc = Some (eNext e), em_map = Some (eNext e + 1), em_dma = dma\<rparr>"
      "ring_wqBuf r' \<noteq> None" "e' = e\<lparr>eNext := eNext e + 2, eLive := (eNext e + 1) # eNext e # eLive e\<rparr>"
      using assms en by (auto simp: ringAllocBuffers_def ethAllocMem_def Let_def)
    moreover from this have "\<exists>n l. e' = e\<lparr>eNext := n, eLive := l\<rparr> \<and> mset l = mset (eLive e) + memM (ring_mem r')"
      by (intro exI [of _ "eNext e + 2"] exI [of _ "(eNext e + 1) # eNext e # eLive e"])
        (simp add: memM_def optM_def add_mset_commute)
    ultimately show ?thesis by (auto simp: memHeld_def)
  qed
qed

lemma rings_set:
  assumes r2: "ethRest2 caps O' B e" and none: "eTxRing e = None" "eRxRing e = None"
    and ok: "memOk (ethRingMem a)" "memOk (ethRingMem b)" and l: "mset l = mset (eLive e) + memM (ethRingMem a) + memM (ethRingMem b)"
  shows "ethRest2 caps O' B (e\<lparr>eNext := n, eLive := l, eTxRing := a, eRxRing := b\<rparr>)"
  using r2 none ok l by (simp add: ethRest2_def ethBase_def ethAcct_def ethSafe_defs ethRingMem_def ringHeld_def) blast

lemma startRings_shape:
  assumes f: "startRings env e = (kr, e')" and none: "eTxRing e = None" "eRxRing e = None"
  shows "\<exists>n l a b. e' = e\<lparr>eNext := n, eLive := l, eTxRing := a, eRxRing := b\<rparr> \<and>
    memOk (ethRingMem a) \<and> memOk (ethRingMem b) \<and> mset l = mset (eLive e) + memM (ethRingMem a) + memM (ethRingMem b) \<and>
    (kr = kIOReturnSuccess \<longrightarrow> ringHeld a \<and> ringHeld b)"
proof -
  let ?i = "ringInit 256 64"
  have i: "ring_mem ?i = noMem" by (simp add: ringInit_def)
  have held: "memHeld m \<Longrightarrow> memOk m" for m by (auto simp: memHeld_def memOk_def)
  have shape: ?thesis
    if "e' = e\<lparr>eNext := n, eLive := l, eTxRing := a, eRxRing := b\<rparr>" "memOk (ethRingMem a)" "memOk (ethRingMem b)"
      "mset l = mset (eLive e) + memM (ethRingMem a) + memM (ethRingMem b)" "kr = kIOReturnSuccess \<longrightarrow> ringHeld a \<and> ringHeld b"
    for n l a b
    using that by blast
  show ?thesis
  proof (cases "enTxRing env \<and> enRxRing env")
    case False
    then have k: "kr \<noteq> kIOReturnSuccess" and e': "e' = e \<or> e' = e\<lparr>eTxRing := Some ?i\<rparr>"
      using f by (auto simp: startRings_def Let_def split: if_splits)
    from e' consider "e' = e\<lparr>eNext := eNext e, eLive := eLive e, eTxRing := None, eRxRing := None\<rparr>"
      | "e' = e\<lparr>eNext := eNext e, eLive := eLive e, eTxRing := Some ?i, eRxRing := None\<rparr>"
      using none by auto
    then show ?thesis
    proof cases
      case 1
      show ?thesis by (rule shape [OF 1]) (use k in \<open>simp_all add: ethRingMem_def\<close>)
    next
      case 2
      show ?thesis by (rule shape [OF 2]) (use k i in \<open>simp_all add: ethRingMem_def\<close>)
    qed
  next
    case True
    obtain k1 a e1 where x1: "ringAllocBuffers (enTxWq env) ?i (e\<lparr>eTxRing := Some ?i, eRxRing := Some ?i\<rparr>) = (k1, a, e1)"
      by (metis prod_cases3)
    note c1 = ringAlloc_cases [OF x1 i]
    show ?thesis
    proof (cases "k1 = kIOReturnSuccess")
      case False
      then have "kr = k1" "e' = e1\<lparr>eTxRing := Some a\<rparr>" using f x1 True by (simp_all add: startRings_def Let_def)
      moreover obtain n l where "e1 = e\<lparr>eTxRing := Some ?i, eRxRing := Some ?i\<rparr>\<lparr>eNext := n, eLive := l\<rparr>"
        "mset l = mset (eLive e)" using c1 False by auto
      ultimately have e': "e' = e\<lparr>eNext := n, eLive := l, eTxRing := Some a, eRxRing := Some ?i\<rparr>"
        and "mset l = mset (eLive e)" "kr = k1" by simp_all
      then show ?thesis by (intro shape [OF e']) (use c1 i False in \<open>simp_all add: ethRingMem_def\<close>)
    next
      case s1: True
      obtain k2 b e2 where x2: "ringAllocBuffers (enRxWq env) ?i (e1\<lparr>eTxRing := Some a\<rparr>) = (k2, b, e2)"
        by (metis prod_cases3)
      note c2 = ringAlloc_cases [OF x2 i]
      have e': "kr = k2" "e' = e2\<lparr>eRxRing := Some b\<rparr>" using f x1 x2 True s1 by (simp_all add: startRings_def Let_def)
      obtain n l where l1: "e1 = e\<lparr>eTxRing := Some ?i, eRxRing := Some ?i\<rparr>\<lparr>eNext := n, eLive := l\<rparr>"
        "mset l = mset (eLive e) + memM (ring_mem a)" "memHeld (ring_mem a)" "ring_wqBuf a \<noteq> None" using c1 s1 by auto
      have "\<exists>n' l'. e2 = e1\<lparr>eTxRing := Some a\<rparr>\<lparr>eNext := n', eLive := l'\<rparr> \<and> mset l' = mset l + memM (ring_mem b) \<and>
          memOk (ring_mem b) \<and> (k2 = kIOReturnSuccess \<longrightarrow> memHeld (ring_mem b) \<and> ring_wqBuf b \<noteq> None)"
        using c2 l1(1) held by (cases "k2 = kIOReturnSuccess") auto
      then obtain n' l' where l2: "e2 = e1\<lparr>eTxRing := Some a\<rparr>\<lparr>eNext := n', eLive := l'\<rparr>" "mset l' = mset l + memM (ring_mem b)"
          "memOk (ring_mem b)" "k2 = kIOReturnSuccess \<longrightarrow> memHeld (ring_mem b) \<and> ring_wqBuf b \<noteq> None" by blast
      have "e' = e\<lparr>eNext := n', eLive := l', eTxRing := Some a, eRxRing := Some b\<rparr>" using e' l1 l2 by simp
      then show ?thesis by (rule shape) (use l1 l2 e'(1) held in \<open>simp_all add: ethRingMem_def ringHeld_def\<close>)
    qed
  qed
qed

definition ethNew :: "nat multiset \<Rightarrow> u32 \<Rightarrow> UarCaps \<Rightarrow> 'w MlxEthernet \<Rightarrow> bool" where
  "ethNew O' B caps e \<longleftrightarrow> ethRest2 caps O' B e \<and> eCore e \<and> eEq e \<noteq> None \<and> \<not> eEnabled e \<and> \<not> eEnabling e \<and>
     \<not> eDisabling e \<and> \<not> eNotifierRegistered e \<and> \<not> quarantinedIds e"

lemma init_new:
  assumes "uarOk (coUar co)" and "q \<noteq> None"
  shows "ethNew (dbTaken (coUar co)) (fUarBitmap (coUar co)) caps ((ethInit co q)\<lparr>eCore := True\<rparr>)"
  using assms by (simp add: ethNew_def ethInit_def ethRest2_def ethBase_def ethAcct_def ethSafe_defs txInit_def rxInit_def
      txTight_def rxTight_def quarantinedIds_def ethRingMem_def)

lemma new_query:
  "coUar co = ethUar e \<Longrightarrow> ethNew O' B caps (e\<lparr>eCo := co, eTxMinInlineMode := m, eMacAddr := a\<rparr>) = ethNew O' B caps e"
  by (simp add: ethNew_def quarantinedIds_def ethRest2_def ethBase_def ethAcct_def ethSafe_defs)

lemma queryMac_shape:
  assumes "queryMacAddress xc e = (kr, e')"
  shows "\<exists>co m a. e' = e\<lparr>eCo := co, eTxMinInlineMode := m, eMacAddr := a\<rparr> \<and> coUar co = ethUar e"
proof -
  obtain k out e1 where x: "ethExec xc MLX_CMD_OP_QUERY_NIC_VPORT_CONTEXT
      (ethInput 16 MLX_CMD_OP_QUERY_NIC_VPORT_CONTEXT []) 0x110 e = (k, out, e1)" by (metis prod_cases3)
  obtain co where co: "e1 = e\<lparr>eCo := co\<rparr>" "coUar co = ethUar e" using ethExec_cmd [OF x] by blast
  have I: ?thesis if "e' = e\<lparr>eCo := co, eTxMinInlineMode := m, eMacAddr := a\<rparr>" for m a
    using that co(2) by blast
  have same: "e\<lparr>eCo := co\<rparr> = e\<lparr>eCo := co, eTxMinInlineMode := eTxMinInlineMode e, eMacAddr := eMacAddr e\<rparr>"
    "e\<lparr>eCo := co, eTxMinInlineMode := m\<rparr> = e\<lparr>eCo := co, eTxMinInlineMode := m, eMacAddr := eMacAddr e\<rparr>" for m
    by simp_all
  from assms x co(1) consider "e' = e\<lparr>eCo := co\<rparr>" | m where "e' = e\<lparr>eCo := co, eTxMinInlineMode := m\<rparr>"
    | m a where "e' = e\<lparr>eCo := co, eTxMinInlineMode := m, eMacAddr := a\<rparr>"
    by (auto simp: queryMacAddress_def Let_def split: if_splits)
  then show ?thesis by cases (metis I same)+
qed

lemma start_steps:
  assumes n: "ethNew O' B caps e" and none: "eTxRing e = None" "eRxRing e = None"
    and f: "ethRun [startRings env, queryMacAddress xc, startAttach env] e = (kr, e')"
  shows "ethNew O' B caps e' \<and> (kr = kIOReturnSuccess \<longrightarrow> ringHeld (eTxRing e') \<and> ringHeld (eRxRing e'))"
proof -
  obtain k1 e1 where x1: "startRings env e = (k1, e1)" by fastforce
  obtain n l a b where s1: "e1 = e\<lparr>eNext := n, eLive := l, eTxRing := a, eRxRing := b\<rparr>"
    and ok: "memOk (ethRingMem a)" "memOk (ethRingMem b)" "mset l = mset (eLive e) + memM (ethRingMem a) + memM (ethRingMem b)"
    and held: "k1 = kIOReturnSuccess \<longrightarrow> ringHeld a \<and> ringHeld b" using startRings_shape [OF x1 none] by blast
  have r1: "ethRest2 caps O' B e1" unfolding s1 by (rule rings_set [OF _ none ok]) (use n in \<open>simp add: ethNew_def\<close>)
  have n1: "ethNew O' B caps e1" using n r1 by (simp add: ethNew_def s1 quarantinedIds_def)
  show ?thesis
  proof (cases "k1 = kIOReturnSuccess")
    case False
    then show ?thesis using f x1 n1 by auto
  next
    case k1: True
    obtain k2 e2 where x2: "queryMacAddress xc e1 = (k2, e2)" by fastforce
    obtain co m ad where s2: "e2 = e1\<lparr>eCo := co, eTxMinInlineMode := m, eMacAddr := ad\<rparr>" "coUar co = ethUar e1"
      using queryMac_shape [OF x2] by blast
    have n2: "ethNew O' B caps e2" unfolding s2(1) new_query [OF s2(2)] by (rule n1)
    have n3: "ethNew O' B caps (e2\<lparr>eNic := True\<rparr>)" using n2
      by (simp add: ethNew_def quarantinedIds_def ethRest2_def)
    have h: "ringHeld (eTxRing e2)" "ringHeld (eRxRing e2)" using held k1 by (simp_all add: s2 s1)
    have "e' = e2 \<or> e' = e2\<lparr>eNic := True\<rparr>" using f x1 x2 k1 by (auto simp: startAttach_def split: if_splits)
    then show ?thesis using n2 n3 h by auto
  qed
qed

lemma start_spec:
  assumes ok: "uarOk (coUar co)" and q: "q \<noteq> None" and f: "ethStart xc env me (ethInit co q) = (r, e')"
  shows "if r then ethInv caps (dbTaken (coUar co)) (fUarBitmap (coUar co)) e' \<and> \<not> eEnabled e'
         else ethHeldNothing (dbTaken (coUar co)) (fUarBitmap (coUar co)) e' \<and> \<not> eNic e' \<and> \<not> eNotifierRegistered e'"
proof (cases "enCore env")
  case False
  then show ?thesis using f by (auto simp: ethStart_def ethHeldNothing_def ethInit_def)
next
  case True
  let ?e0 = "(ethInit co q)\<lparr>eCore := True\<rparr>"
  obtain kr e1 where x: "ethRun [startRings env, queryMacAddress xc, startAttach env] ?e0 = (kr, e1)" by fastforce
  have "eTxRing ?e0 = None" "eRxRing ?e0 = None" by (simp_all add: ethInit_def)
  note s = start_steps [OF init_new [OF ok q, of caps] this x]
  have r: "r = (kr = kIOReturnSuccess)" "e' = (if kr = kIOReturnSuccess then e1 else releaseResources me e1)"
    using f x True by (auto simp: ethStart_def simp del: ethRun.simps split: if_splits)
  show ?thesis
  proof (cases r)
    case True
    then show ?thesis using s r by (simp add: ethInv_def ethNew_def)
  next
    case False
    have "ethRest2 caps (dbTaken (coUar co)) (fUarBitmap (coUar co)) e1" "eCore e1" "eEq e1 \<noteq> None" "\<not> quarantinedIds e1"
      using s by (simp_all add: ethNew_def)
    note rel = release_spec [OF this(1-3), of me]
    then show ?thesis using False r \<open>\<not> quarantinedIds e1\<close> by simp
  qed
qed

section \<open>Every sequence of operations\<close>

text \<open>
  What the network stack and the event queue can call between \<open>start\<close> and \<open>stop\<close>. The arguments
  of an event are what the device has written to the completion queue and the receive pool.
\<close>

datatype ethOp =
    OpEnable ethEnv
  | OpDisable
  | OpOutput "mbuf option"
  | OpEvent "nat \<Rightarrow> nat \<Rightarrow> MlxCqe64" "nat \<Rightarrow> nat \<Rightarrow> buffer" "nat \<Rightarrow> bool" u32 "MlxEqe option"

fun ethOpStep :: "'w execFn \<Rightarrow> UarCaps \<Rightarrow> nat \<Rightarrow> ethOp \<Rightarrow> 'w MlxEthernet \<Rightarrow> 'w MlxEthernet option" where
  "ethOpStep xc caps me (OpEnable env) e = Some (snd (ethEnable xc caps env me e))"
| "ethOpStep xc caps me OpDisable e = Some (snd (ethDisable xc caps me e))"
| "ethOpStep xc caps me (OpOutput p) e = Some (snd (outputPacket p e))"
| "ethOpStep xc caps me (OpEvent cqes slots mb ty eqe) e = ethHandleEvent xc cqes slots mb ty eqe e"

fun ethOps :: "'w execFn \<Rightarrow> UarCaps \<Rightarrow> nat \<Rightarrow> ethOp list \<Rightarrow> 'w MlxEthernet \<Rightarrow> 'w MlxEthernet option" where
  "ethOps xc caps me [] e = Some e"
| "ethOps xc caps me (x # xs) e = Option.bind (ethOpStep xc caps me x e) (ethOps xc caps me xs)"

lemma op_inv:
  assumes bf: "ucLogBfRegSize caps \<le> 30"
    and i: "ethInv caps O' B e" and f: "ethOpStep xc caps me x e = Some e'"
  shows "ethInv caps O' B e'"
proof (cases x)
  case (OpEnable env)
  obtain kr e1 where x: "ethEnable xc caps env me e = (kr, e1)" by fastforce
  show ?thesis using enable_spec [OF bf i x] f x by (simp add: OpEnable)
next
  case OpDisable
  obtain kr e1 where x: "ethDisable xc caps me e = (kr, e1)" by fastforce
  show ?thesis using disable_spec [OF i x] f x by (simp add: OpDisable)
next
  case (OpOutput p)
  then show ?thesis using key_inv [OF key_output [of p e]] i f by simp
next
  case (OpEvent cqes slots mb ty eqe)
  then have "ethHandleEvent xc cqes slots mb ty eqe e = Some e'" using f by simp
  from key_inv [OF key_event [OF this]] i show ?thesis by blast
qed

lemma ops_inv:
  assumes bf: "ucLogBfRegSize caps \<le> 30"
  shows "ethInv caps O' B e \<Longrightarrow> ethOps xc caps me xs e = Some e' \<Longrightarrow> ethInv caps O' B e'"
proof (induction xs arbitrary: e)
  case (Cons x xs)
  then obtain e1 where "ethOpStep xc caps me x e = Some e1" "ethOps xc caps me xs e1 = Some e'"
    by (auto split: bind_splits)
  then show ?case using op_inv [OF bf Cons.prems(1)] Cons.IH by blast
qed simp

end
