(* ===== verification/MlxEthLive.thy ===== *)
theory MlxEthLive
  imports MlxEthRun
begin

text \<open>
  When the firmware accepts the commands and the resources are there, \<open>enable\<close> succeeds. A
  triple whose failure condition is false says that the step cannot fail.
\<close>

unbundle bit_operations_syntax

section \<open>Enough doorbell slots\<close>

lemma alloc2_ok:
  assumes ok: "uarOk u" and few: "size (dbTaken u) < 64"
  shows "fst (allocDbSlots 2 u) = kIOReturnSuccess"
proof (rule ccontr)
  assume fail: "fst (allocDbSlots 2 u) \<noteq> kIOReturnSuccess"
  obtain page where pg: "fDbRecord u = Some page" and lock: "fDbLock u" using ok by (auto simp: uarOk_def)
  have "(2 :: u32) = 1 \<or> (2 :: u32) = 2" by simp
  from allocDbSlots_cases [OF pg lock this] fail
  have full: "\<exists>k. slot \<le> k \<and> k < slot + 2 \<and> bit64s (fDbBitmap u) k" if "slot + 2 \<le> 128" for slot
    using that by auto
  let ?A = "{k. k < 128 \<and> bit64s (fDbBitmap u) k}"
  have "j \<in> (\<lambda>k. k div 2) ` ?A" if j: "j < 64" for j
  proof -
    obtain k where k: "2 * j \<le> k" "k < 2 * j + 2" "bit64s (fDbBitmap u) k" using full [of "2 * j"] j by auto
    then have "k \<in> ?A" "j = k div 2" using j by auto
    then show ?thesis by (rule rev_image_eqI)
  qed
  then have "{..<64} \<subseteq> (\<lambda>k. k div 2) ` ?A" by blast
  then have "card {..<64 :: nat} \<le> card ?A" by (rule surj_card_le [rotated]) simp
  then show False using few by (simp add: dbTaken_def)
qed

section \<open>Enough of everything\<close>

definition bfRoom :: "UarCaps \<Rightarrow> MlxUAR \<Rightarrow> bool" where
  "bfRoom caps u \<longleftrightarrow> fUarMap u \<noteq> None \<and> NOT (fUarBitmap u) AND 0xF \<noteq> 0 \<and> ucLogBfRegSize caps \<le> 9"

definition ethRoom :: "UarCaps \<Rightarrow> nat \<Rightarrow> bool \<Rightarrow> 'w MlxEthernet \<Rightarrow> bool" where
  "ethRoom caps n b e \<longleftrightarrow> uarOk (ethUar e) \<and> size (dbTaken (ethUar e)) + 2 * n \<le> 65 \<and> (b \<longrightarrow> bfRoom caps (ethUar e)) \<and>
     ringHeld (eTxRing e) \<and> ringHeld (eRxRing e) \<and> em_dma (ethRingMem (eTxRing e)) \<noteq> 0 \<and>
     em_dma (ethRingMem (eRxRing e)) \<noteq> 0 \<and> eEq e \<noteq> None"

lemma room_frame:
  assumes "ethRoom caps n b e" and "ringRest (eTxRing e') = ringRest (eTxRing e)" "ringRest (eRxRing e') = ringRest (eRxRing e)"
    and "eEq e' \<noteq> None" and "uarOk (ethUar e')" "uarRest (ethUar e') = uarRest (ethUar e)"
    and "dbTaken (ethUar e') = dbTaken (ethUar e)"
  shows "ethRoom caps n b e'"
  using assms ringRest_cong [OF assms(2)] ringRest_cong [OF assms(3)]
  by (simp add: ethRoom_def bfRoom_def uarRest_def)

lemma room_simps [simp]:
  "ethRoom caps n b (updTx f e) = ethRoom caps n b e" "ethRoom caps n b (updRx g e) = ethRoom caps n b e"
  "ethRoom caps n b (e\<lparr>eNext := m\<rparr>) = ethRoom caps n b e" "ethRoom caps n b (e\<lparr>eLive := l\<rparr>) = ethRoom caps n b e"
  "ethRoom caps n b (e\<lparr>ePd := x\<rparr>) = ethRoom caps n b e" "ethRoom caps n b (e\<lparr>eTd := x\<rparr>) = ethRoom caps n b e"
  "ethRoom caps n b (e\<lparr>eMkeyIndex := x\<rparr>) = ethRoom caps n b e" "ethRoom caps n b (e\<lparr>eLkey := x\<rparr>) = ethRoom caps n b e"
  "ethRoom caps n b (e\<lparr>eFlowTableId := x\<rparr>) = ethRoom caps n b e" "ethRoom caps n b (e\<lparr>eFlowGroupId := x\<rparr>) = ethRoom caps n b e"
  "ethRoom caps n b (e\<lparr>eFlowRootActive := x'\<rparr>) = ethRoom caps n b e" "ethRoom caps n b (e\<lparr>eFlowEntryValid := x'\<rparr>) = ethRoom caps n b e"
  "ethRoom caps n b (e\<lparr>eEnabling := x'\<rparr>) = ethRoom caps n b e"
  by (simp_all add: ethRoom_def updTx_def updRx_def)

lemma room_cmd: "cmdInv (ethRoom caps n b :: 'w MlxEthernet \<Rightarrow> bool)"
  by (simp add: cmdInv_def ethRoom_def)

lemma room_bf: "ethRoom caps n b e \<Longrightarrow> ethRoom caps n False e"
  by (simp add: ethRoom_def)

definition accepts :: "'w execFn \<Rightarrow> bool" where
  "accepts xc \<longleftrightarrow> (\<forall>w opc inb n t. fst (xc w opc inb n t) = kIOReturnSuccess)"

abbreviation never :: "'w MlxEthernet \<Rightarrow> bool" where "never \<equiv> \<lambda>e. False"

lemma accepts_exec:
  assumes "accepts xc" shows "\<exists>out co. ethExec xc opc inb n e = (kIOReturnSuccess, out, e\<lparr>eCo := co\<rparr>) \<and> coUar co = ethUar e"
proof -
  obtain kr out e' where x: "ethExec xc opc inb n e = (kr, out, e')" by (metis prod_cases3)
  moreover have "kr = kIOReturnSuccess"
    using assms x by (auto simp: accepts_def ethExec_def coExec_def split: prod.splits) (metis fst_conv)
  ultimately show ?thesis using ethExec_cmd [OF x] by blast
qed

lemma ok_create:
  assumes "accepts xc" "cmdInv P" "\<And>e x. P e \<Longrightarrow> Q (store x e)"
  shows "ethTri P (ethCreate xc opc inb store) Q never"
proof (rule triI)
  fix e kr e' assume p: "P e" and f: "ethCreate xc opc inb store e = (kr, e')"
  obtain out co where "ethExec xc opc (inb e) 16 e = (kIOReturnSuccess, out, e\<lparr>eCo := co\<rparr>)" "coUar co = ethUar e"
    using accepts_exec [OF assms(1)] by blast
  then show "if kr = kIOReturnSuccess then Q e' else False"
    using f assms(3) [OF cmdInvD [OF assms(2) p]] by (auto simp: ethCreate_def)
qed

lemma ok_flag:
  assumes "accepts xc" "cmdInv P" "\<And>e. P e \<Longrightarrow> Q (store e)"
  shows "ethTri P (ethFlag xc opc inb store) Q never"
proof (rule triI)
  fix e kr e' assume p: "P e" and f: "ethFlag xc opc inb store e = (kr, e')"
  obtain out co where "ethExec xc opc (inb e) 16 e = (kIOReturnSuccess, out, e\<lparr>eCo := co\<rparr>)" "coUar co = ethUar e"
    using accepts_exec [OF assms(1)] by blast
  then show "if kr = kIOReturnSuccess then Q e' else False"
    using f assms(3) [OF cmdInvD [OF assms(2) p]] by (auto simp: ethFlag_def)
qed

section \<open>The steps\<close>

lemma ok_modify:
  assumes "accepts xc"
  shows "ethTri (ethRoom caps n b) (cmdModifySqReady xc) (ethRoom caps n b) never"
    and "ethTri (ethRoom caps n b) (cmdModifyRqReady xc) (ethRoom caps n b) never"
proof -
  have flag: "cmdModifySqReady xc = ethFlag xc MLX_CMD_OP_MODIFY_SQ (\<lambda>e. ethModifyInput MLX_CMD_OP_MODIFY_SQ (tx_sqn (eTx e))) (\<lambda>e. e)"
    "cmdModifyRqReady xc = ethFlag xc MLX_CMD_OP_MODIFY_RQ (\<lambda>e. ethModifyInput MLX_CMD_OP_MODIFY_RQ (rx_rqn (eRx e))) (\<lambda>e. e)"
    by (auto simp: fun_eq_iff cmdModifySqReady_def cmdModifyRqReady_def ethFlag_def split: prod.split)
  show "ethTri (ethRoom caps n b) (cmdModifySqReady xc) (ethRoom caps n b) never"
    unfolding flag by (rule ok_flag [OF assms room_cmd])
  show "ethTri (ethRoom caps n b) (cmdModifyRqReady xc) (ethRoom caps n b) never"
    unfolding flag by (rule ok_flag [OF assms room_cmd])
qed

lemma room_alloc:
  assumes "ethRoom caps (Suc n) b e"
  shows "\<exists>off u. allocDbSlots 2 (ethUar e) = (kIOReturnSuccess, Some off, u) \<and> uarOk u \<and> uarRest u = uarRest (ethUar e) \<and>
    size (dbTaken u) = size (dbTaken (ethUar e)) + 2"
proof -
  have ok: "uarOk (ethUar e)" "size (dbTaken (ethUar e)) < 64" using assms by (simp_all add: ethRoom_def)
  obtain kr off u where al: "allocDbSlots 2 (ethUar e) = (kr, off, u)" by (metis prod_cases3)
  from alloc2_ok [OF ok] al alloc2_taken [OF ok(1) al] show ?thesis by (auto simp: offM_def)
qed

lemma room_used:
  assumes "ethRoom caps (Suc n) b e" and "ringRest (eTxRing e') = ringRest (eTxRing e)" "ringRest (eRxRing e') = ringRest (eRxRing e)"
    and "eEq e' = eEq e" and "uarOk (ethUar e')" "uarRest (ethUar e') = uarRest (ethUar e)"
    and "size (dbTaken (ethUar e')) = size (dbTaken (ethUar e)) + 2"
  shows "ethRoom caps n b e'"
  using assms ringRest_cong [OF assms(2)] ringRest_cong [OF assms(3)]
  by (simp add: ethRoom_def bfRoom_def uarRest_def)

lemma setUar_uar [simp]: "ethUar (setUar u e) = u"
  by (simp add: setUar_def)

lemma ok_createCq:
  assumes "accepts xc" and "en = (True, kIOReturnSuccess, dma)" and "\<And>x m d e. ethRoom caps n b (store x m d e) = ethRoom caps n b e"
  shows "ethTri (ethRoom caps (Suc n) b) (cmdCreateCq xc en lg store) (ethRoom caps n b) never"
proof (rule triI)
  fix e :: "'a MlxEthernet" and kr e' assume p: "ethRoom caps (Suc n) b e" and f: "cmdCreateCq xc en lg store e = (kr, e')"
  obtain off u where al: "allocDbSlots 2 (ethUar e) = (kIOReturnSuccess, Some off, u)" "uarOk u" "uarRest u = uarRest (ethUar e)"
    "size (dbTaken u) = size (dbTaken (ethUar e)) + 2" using room_alloc [OF p] by blast
  let ?m = "\<lparr>em_desc = Some (eNext e), em_map = Some (eNext e + 1), em_dma = dma\<rparr>"
  let ?e1 = "setUar u (e\<lparr>eNext := eNext e + 2, eLive := (eNext e + 1) # eNext e # eLive e\<rparr>)"
  obtain out co where x: "ethExec xc MLX_CMD_OP_CREATE_CQ
      (ethCqInput lg (fBootIndex u) (compEqn0 ?e1) (fDbRecordDMA u + ucast off) dma) 16 ?e1 = (kIOReturnSuccess, out, ?e1\<lparr>eCo := co\<rparr>)"
    "coUar co = u" using accepts_exec [OF assms(1)] setUar_uar by metis
  have "kr = kIOReturnSuccess" "e' = store (mlx5e_out_obj out) ?m off (?e1\<lparr>eCo := co\<rparr>)"
    using f al x assms(2) by (auto simp: cmdCreateCq_def ethAllocMem_def Let_def)
  moreover have "ethRoom caps n b (?e1\<lparr>eCo := co\<rparr>)"
    by (rule room_used [OF p]) (use al x(2) in \<open>simp_all add: setUar_def\<close>)
  ultimately show "if kr = kIOReturnSuccess then ethRoom caps n b e' else False" by (simp add: assms(3))
qed

lemma ok_createSq:
  assumes "accepts xc"
  shows "ethTri (ethRoom caps (Suc n) b) (cmdCreateSq xc) (ethRoom caps n b) never"
proof (rule triI)
  fix e :: "'a MlxEthernet" and kr e' assume p: "ethRoom caps (Suc n) b e" and f: "cmdCreateSq xc e = (kr, e')"
  obtain off u where al: "allocDbSlots 2 (ethUar e) = (kIOReturnSuccess, Some off, u)" "uarOk u" "uarRest u = uarRest (ethUar e)"
    "size (dbTaken u) = size (dbTaken (ethUar e)) + 2" using room_alloc [OF p] by blast
  obtain r where r: "eTxRing e = Some r" "ring_wqBuf r \<noteq> None" "em_dma (ring_mem r) \<noteq> 0"
    using p by (auto simp: ethRoom_def ringHeld_def ethRingMem_def)
  let ?e1 = "setUar u e"
  obtain out co where x: "ethExec xc MLX_CMD_OP_CREATE_SQ
      (ethSqInput (eTxMinInlineMode ?e1) (tx_cqn (eTx ?e1)) (tx_tisn (eTx ?e1)) (ePd ?e1) (fBootIndex u)
         (fDbRecordDMA u + ucast off) (em_dma (ring_mem r))) 16 ?e1 = (kIOReturnSuccess, out, ?e1\<lparr>eCo := co\<rparr>)"
    "coUar co = u" using accepts_exec [OF assms] setUar_uar by metis
  obtain d v where "kr = kIOReturnSuccess" and e': "e' = (updTx (\<lambda>t. t\<lparr>tx_sqn := mlx5e_out_obj out, tx_dbOffset := off\<rparr>) (?e1\<lparr>eCo := co\<rparr>))
      \<lparr>eTxRing := Some (r\<lparr>ring_db := d, ring_dbDMA := v\<rparr>)\<rparr>"
    using f al x r by (auto simp: cmdCreateSq_def Let_def)
  moreover have "ethRoom caps n b e'" unfolding e'
    by (rule room_used [OF p]) (use al x(2) r in \<open>simp_all add: setUar_def updTx_def ringRest_def\<close>)
  ultimately show "if kr = kIOReturnSuccess then ethRoom caps n b e' else False" by simp
qed

lemma ok_createRq:
  assumes "accepts xc"
  shows "ethTri (ethRoom caps (Suc n) b) (cmdCreateRq xc) (ethRoom caps n b) never"
proof (rule triI)
  fix e :: "'a MlxEthernet" and kr e' assume p: "ethRoom caps (Suc n) b e" and f: "cmdCreateRq xc e = (kr, e')"
  obtain off u where al: "allocDbSlots 2 (ethUar e) = (kIOReturnSuccess, Some off, u)" "uarOk u" "uarRest u = uarRest (ethUar e)"
    "size (dbTaken u) = size (dbTaken (ethUar e)) + 2" using room_alloc [OF p] by blast
  obtain r where r: "eRxRing e = Some r" "ring_wqBuf r \<noteq> None" "em_dma (ring_mem r) \<noteq> 0"
    using p by (auto simp: ethRoom_def ringHeld_def ethRingMem_def)
  let ?e1 = "setUar u e"
  obtain out co where x: "ethExec xc MLX_CMD_OP_CREATE_RQ
      (ethRqInput (rx_cqn (eRx ?e1)) (ePd ?e1) (fBootIndex u) (fDbRecordDMA u + ucast off) (em_dma (ring_mem r))) 16 ?e1 =
      (kIOReturnSuccess, out, ?e1\<lparr>eCo := co\<rparr>)"
    "coUar co = u" using accepts_exec [OF assms] setUar_uar by metis
  obtain d v where "kr = kIOReturnSuccess" and e': "e' = (updRx (\<lambda>t. t\<lparr>rx_rqn := mlx5e_out_obj out, rx_dbOffset := off\<rparr>) (?e1\<lparr>eCo := co\<rparr>))
      \<lparr>eRxRing := Some (r\<lparr>ring_db := d, ring_dbDMA := v\<rparr>)\<rparr>"
    using f al x r by (auto simp: cmdCreateRq_def Let_def)
  moreover have "ethRoom caps n b e'" unfolding e'
    by (rule room_used [OF p]) (use al x(2) r in \<open>simp_all add: setUar_def updRx_def ringRest_def\<close>)
  ultimately show "if kr = kIOReturnSuccess then ethRoom caps n b e' else False" by simp
qed

lemma bf_fits:
  assumes "d < 4" and "l \<le> 9"
  shows "unat (of_nat MLX_BF_OFFSET + of_nat d * push_bit l 1 :: u32) + 8 \<le> 4096"
proof -
  have "(2 :: nat) ^ l \<le> 2 ^ 9" using assms(2) by (intro power_increasing) simp_all
  then have "d * 2 ^ l \<le> 3 * 512" using assms(1) by (intro mult_mono) simp_all
  then have le: "MLX_BF_OFFSET + d * 2 ^ l \<le> 3584" by (simp add: MLX_BF_OFFSET_def)
  have "of_nat MLX_BF_OFFSET + of_nat d * push_bit l 1 = (of_nat (MLX_BF_OFFSET + d * 2 ^ l) :: u32)"
    by (simp add: push_bit_eq_mult)
  moreover have "unat (of_nat (MLX_BF_OFFSET + d * 2 ^ l) :: u32) = MLX_BF_OFFSET + d * 2 ^ l"
    using le by (intro unat_of_nat_small) simp
  ultimately show ?thesis using le by simp
qed

lemma ok_allocBf: "ethTri (ethRoom caps n True) (txAllocBf caps) (ethRoom caps n False) never"
proof (rule triI)
  fix e :: "'a MlxEthernet" and kr e' assume p: "ethRoom caps n True e" and f: "txAllocBf caps e = (kr, e')"
  obtain va where room: "NOT (fUarBitmap (ethUar e)) AND 0xF \<noteq> 0" "ucLogBfRegSize caps \<le> 9" "fUarMap (ethUar e) = Some va"
    using p by (auto simp: ethRoom_def bfRoom_def)
  let ?d = "ctz (NOT (fUarBitmap (ethUar e)) AND 0xF)"
  let ?o = "of_nat MLX_BF_OFFSET + of_nat ?d * push_bit (ucLogBfRegSize caps) 1 :: u32"
  have o: "\<not> 4096 < unat ?o + 8" using bf_fits [of ?d "ucLogBfRegSize caps"] ctz_nibble [OF room(1)] room(2) by simp
  obtain br u where al: "allocBfreg caps (tx_bf (eTx e)) (ethUar e) = (kIOReturnSuccess, br, u)"
    "u = (ethUar e)\<lparr>fUarBitmap := fUarBitmap (ethUar e) OR push_bit ?d 1\<rparr>"
    using room o by (auto simp: allocBfreg_def Let_def)
  have "kr = kIOReturnSuccess" "e' = updTx (\<lambda>t. t\<lparr>tx_bfValid := True\<rparr>) (updTx (\<lambda>t. t\<lparr>tx_bf := br\<rparr>) (setUar u e))"
    using f al by (auto simp: txAllocBf_def Let_def)
  moreover have "ethRoom caps n False (setUar u e)"
    using p by (simp add: ethRoom_def setUar_def al(2) uarOk_def dbWf_def dbTaken_def)
  ultimately show "if kr = kIOReturnSuccess then ethRoom caps n False e' else False" by simp
qed

lemma room_mem:
  assumes "en = (True, kIOReturnSuccess, d)" and "ethRoom caps n b e"
  obtains m e0 where "ethAllocMem en e = (kIOReturnSuccess, m, e0)" "em_desc m \<noteq> None" "ethRoom caps n b e0"
  using assms by (simp add: ethAllocMem_def Let_def)

lemma ok_createTx:
  assumes x: "accepts xc" and en: "enTxPool env = (True, kIOReturnSuccess, d1)" "enTxCq env = (True, kIOReturnSuccess, d2)"
  shows "ethTri (ethRoom caps (Suc (Suc n)) True) (createTxResources xc caps env) (ethRoom caps n False) never"
proof (rule triI)
  fix e :: "'a MlxEthernet" and kr e' assume p: "ethRoom caps (Suc (Suc n)) True e" and f: "createTxResources xc caps env e = (kr, e')"
  have clear: "ethRoom caps m b (txClearRing (txResetCounters e)) = ethRoom caps m b e" for m b
  proof -
    obtain ro where ro: "txClearRing (txResetCounters e) = (txResetCounters e)\<lparr>eLog := eLog (txResetCounters e), eTxRing := ro\<rparr>"
      "ringRest ro = ringRest (eTxRing (txResetCounters e))" using txClearRing_frame by blast
    have q: "ringRest ro = ringRest (eTxRing e)" using ro(2) by (simp add: txResetCounters_def updTx_def)
    show ?thesis unfolding ro(1) using ringRest_cong [OF q] by (simp add: ethRoom_def txResetCounters_def updTx_def)
  qed
  have tis: "ethTri (ethRoom caps m b) (cmdCreateTis xc) (ethRoom caps m b) never" for m b
    unfolding cmdCreateTis_def by (rule ok_create [OF x room_cmd]) simp
  have cq: "ethTri (ethRoom caps (Suc (Suc n)) True) (txCreateCq xc env) (ethRoom caps (Suc n) True) never"
    unfolding txCreateCq_def by (rule ok_createCq [OF x en(2)]) simp
  let ?fs = "[cmdCreateTis xc, txCreateCq xc env, cmdCreateSq xc, txAllocBf caps, cmdModifySqReady xc]"
  obtain m e0 where al: "ethAllocMem (enTxPool env) (txClearRing (txResetCounters e)) = (kIOReturnSuccess, m, e0)" "em_desc m \<noteq> None"
    and r0: "ethRoom caps (Suc (Suc n)) True e0" using room_mem [OF en(1)] p clear by blast
  define e1 where "e1 = updTx (\<lambda>t. t\<lparr>tx_buf := m,
    tx_pool := replicate (2 ^ MLX5E_DEFAULT_LOG_SQ_SIZE * MLX5E_TX_BUF_SIZE) 0\<rparr>) e0"
  have e1: "ethRoom caps (Suc (Suc n)) True e1" using r0 by (simp add: e1_def)
  have run: "createTxResources xc caps env e = (case ethRun ?fs e1 of (kr, e) \<Rightarrow>
       if kr \<noteq> kIOReturnSuccess then (kr, snd (destroyTxResources xc caps e)) else (kr, e))"
    using al by (auto simp: createTxResources_def Let_def e1_def simp del: ethRun.simps)
  obtain k e2 where r: "ethRun ?fs e1 = (k, e2)" by fastforce
  from triD [OF tri_cons [OF tis tri_cons [OF cq tri_cons [OF ok_createSq [OF x] tri_cons [OF ok_allocBf tri_last [OF ok_modify(1) [OF x]]]]]] e1 r]
  have "k = kIOReturnSuccess" "ethRoom caps n False e2" by (simp_all split: if_splits)
  then show "if kr = kIOReturnSuccess then ethRoom caps n False e' else False" using f run r by simp
qed

lemma room_same: "sameHeld e e' \<Longrightarrow> ethRoom caps n b e \<Longrightarrow> ethRoom caps n b e'"
  unfolding sameHeld_def by (elim exE conjE) (simp add: ethRoom_def bfRoom_def uarRest_def)

lemma ok_post:
  assumes "i < MLX5E_MAX_RX_BUFS"
  shows "ethTri (ethRoom caps n b) (postOne i) (ethRoom caps n b) never"
proof (rule triI)
  fix e :: "'a MlxEthernet" and kr e' assume p: "ethRoom caps n b e" and f: "postOne i e = (kr, e')"
  obtain r w where r: "eRxRing e = Some r" "ring_wqBuf r = Some w" using p by (auto simp: ethRoom_def ringHeld_def)
  obtain w' where "kr = kIOReturnSuccess" "e' = updRx (\<lambda>t. t\<lparr>rx_pc := rx_pc t + 1\<rparr>) (e\<lparr>eRxRing := Some (r\<lparr>ring_wqBuf := Some w'\<rparr>)\<rparr>)"
    using f r assms by (auto simp: postOne_def postRxWqe_def not_le)
  moreover have "ethRoom caps n b (e\<lparr>eRxRing := Some (r\<lparr>ring_wqBuf := Some w'\<rparr>)\<rparr>)"
    using p r by (simp add: ethRoom_def ringHeld_def ethRingMem_def)
  ultimately show "if kr = kIOReturnSuccess then ethRoom caps n b e' else False" by simp
qed

lemma ok_postAll: "ethTri (ethRoom caps n b) postAllRx (ethRoom caps n b) never"
proof -
  have db: "ethTri (ethRoom caps n b) (ethDo rxDoorbell) (ethRoom caps n b) never"
    by (rule tri_do, rule room_same, rule rxDoorbell_same, simp add: ethRoom_def, assumption)
  have "ethTri (ethRoom caps n b) (ethRun (map postOne xs @ [ethDo rxDoorbell])) (ethRoom caps n b) never"
    if "\<forall>x\<in>set xs. x < MLX5E_MAX_RX_BUFS" for xs
    using that
  proof (induction xs)
    case Nil
    show ?case using tri_last [OF db] by (simp del: ethRun.simps)
  next
    case (Cons x xs)
    then have h: "x < MLX5E_MAX_RX_BUFS" "\<forall>x\<in>set xs. x < MLX5E_MAX_RX_BUFS" by simp_all
    show ?case using tri_cons [OF ok_post [OF h(1)] Cons.IH [OF h(2)]] by (simp del: ethRun.simps)
  qed
  from this [of "[0..<256]"] show ?thesis
    by (simp add: postAllRx_def [abs_def] MLX5E_DEFAULT_LOG_RQ_SIZE_def MLX5E_MAX_RX_BUFS_def)
qed

lemma ok_createRx:
  assumes x: "accepts xc" and en: "enRxPool env = (True, kIOReturnSuccess, d1)" "enRxCq env = (True, kIOReturnSuccess, d2)"
  shows "ethTri (ethRoom caps (Suc (Suc n)) b) (createRxResources xc env) (ethRoom caps n b) never"
proof (rule triI)
  fix e :: "'a MlxEthernet" and kr e' assume p: "ethRoom caps (Suc (Suc n)) b e" and f: "createRxResources xc env e = (kr, e')"
  have tir: "ethTri (ethRoom caps m b) (cmdCreateTir xc) (ethRoom caps m b) never" for m
    unfolding cmdCreateTir_def by (rule ok_create [OF x room_cmd]) simp
  have cq: "ethTri (ethRoom caps (Suc (Suc n)) b) (rxCreateCq xc env) (ethRoom caps (Suc n) b) never"
    unfolding rxCreateCq_def by (rule ok_createCq [OF x en(2)]) simp
  let ?fs = "[rxCreateCq xc env, cmdCreateRq xc, cmdCreateTir xc, postAllRx, cmdModifyRqReady xc]"
  have "ethRoom caps (Suc (Suc n)) b (rxResetCounters e)" using p by (simp add: rxResetCounters_def)
  from room_mem [OF en(1) this] obtain m e0
    where al: "ethAllocMem (enRxPool env) (rxResetCounters e) = (kIOReturnSuccess, m, e0)" "em_desc m \<noteq> None"
    and r0: "ethRoom caps (Suc (Suc n)) b e0" by blast
  define e1 where "e1 = updRx (\<lambda>t. t\<lparr>rx_buf := m\<rparr>) e0"
  have e1: "ethRoom caps (Suc (Suc n)) b e1" using r0 by (simp add: e1_def)
  have run: "createRxResources xc env e = (case ethRun ?fs e1 of (kr, e) \<Rightarrow>
       if kr \<noteq> kIOReturnSuccess then (kr, snd (destroyRxResources xc e)) else (kr, e))"
    using al by (auto simp: createRxResources_def Let_def e1_def simp del: ethRun.simps)
  obtain k e2 where r: "ethRun ?fs e1 = (k, e2)" by fastforce
  from triD [OF tri_cons [OF cq tri_cons [OF ok_createRq [OF x] tri_cons [OF tir tri_cons [OF ok_postAll tri_last [OF ok_modify(2) [OF x]]]]]] e1 r]
  have "k = kIOReturnSuccess" "ethRoom caps n b e2" by (simp_all split: if_splits)
  then show "if kr = kIOReturnSuccess then ethRoom caps n b e' else False" using f run r by simp
qed

lemma ok_notifier: "ethTri (ethRoom caps n b) (notifierOn me) (ethRoom caps n b) never"
proof (rule triI)
  fix e :: "'a MlxEthernet" and kr e' assume p: "ethRoom caps n b e" and f: "notifierOn me e = (kr, e')"
  have arm: "ethRoom caps n b (armCq c d s k e)" if "ethRoom caps n b e" for c d s k and e :: "'a MlxEthernet"
  proof -
    have ok: "uarOk (ethUar e)" using that by (simp add: ethRoom_def)
    have log: "ethRoom caps n b (ethLog l e) = ethRoom caps n b e" for l and e :: "'a MlxEthernet"
      by (simp add: ethRoom_def ethLog_def)
    show ?thesis using that room_same [OF writeDb_same [OF ok] that] by (simp add: armCq_def Let_def log)
  qed
  obtain q where q: "eEq e = Some q" using p by (auto simp: ethRoom_def)
  then have "ethRoom caps n b (e\<lparr>eEq := Some q', eNotifierRegistered := True\<rparr>)" for q' using p by (simp add: ethRoom_def)
  then show "if kr = kIOReturnSuccess then ethRoom caps n b e' else False"
    using f q arm by (auto simp: notifierOn_def armTxCq_def armRxCq_def)
qed

lemma ok_flow:
  assumes x: "accepts xc"
  shows "ethTri (ethRoom caps n b) (createRxFlowSteering xc) (ethRoom caps n b) never"
proof (rule triI)
  fix e :: "'a MlxEthernet" and kr e' assume p: "ethRoom caps n b e" and f: "createRxFlowSteering xc e = (kr, e')"
  let ?R = "ethRoom caps n b :: 'a MlxEthernet \<Rightarrow> bool"
  let ?t = "ethCreate xc MLX_CMD_OP_CREATE_FLOW_TABLE (\<lambda>e. flowTableInput) (\<lambda>x e. e\<lparr>eFlowTableId := x\<rparr>)"
  let ?fs = "[ethCreate xc MLX_CMD_OP_CREATE_FLOW_GROUP (\<lambda>e. flowGroupInput (eFlowTableId e)) (\<lambda>x e. e\<lparr>eFlowGroupId := x\<rparr>),
      ethFlag xc MLX_CMD_OP_SET_FLOW_TABLE_ENTRY
        (\<lambda>e. flowEntryInput (eFlowTableId e) (eFlowGroupId e) (rx_tirn (eRx e))) (\<lambda>e. e\<lparr>eFlowEntryValid := True\<rparr>),
      ethFlag xc MLX_CMD_OP_SET_FLOW_TABLE_ROOT (\<lambda>e. flowRootInput (eFlowTableId e)) (\<lambda>e. e\<lparr>eFlowRootActive := True\<rparr>)]"
  have steps: "ethTri ?R ?t ?R never" "ethTri ?R (ethRun ?fs) ?R never"
    by (rule ok_create [OF x room_cmd], simp)
      (rule tri_cons [OF ok_create [OF x room_cmd] tri_cons [OF ok_flag [OF x room_cmd] tri_last [OF ok_flag [OF x room_cmd]]]], simp_all)
  obtain k1 e1 where x1: "?t e = (k1, e1)" by fastforce
  obtain k2 e2 where x2: "ethRun ?fs e1 = (k2, e2)" by fastforce
  from triD [OF steps(1) p x1] have 1: "k1 = kIOReturnSuccess" "?R e1" by (simp_all split: if_splits)
  from triD [OF steps(2) 1(2) x2] have "k2 = kIOReturnSuccess" "?R e2" by (simp_all split: if_splits)
  then show "if kr = kIOReturnSuccess then ?R e' else False"
    using f x1 x2 1 unfolding createRxFlowSteering_def by (simp del: ethRun.simps)
qed

lemma ok_global:
  assumes x: "accepts xc"
  shows "ethTri (ethRoom caps n b) (allocGlobalResources xc) (ethRoom caps n b) never"
proof (rule triI)
  fix e :: "'a MlxEthernet" and kr e' assume p: "ethRoom caps n b e" and f: "allocGlobalResources xc e = (kr, e')"
  let ?R = "ethRoom caps n b :: 'a MlxEthernet \<Rightarrow> bool"
  have steps: "ethTri ?R (cmdAllocPd xc) ?R never" "ethTri ?R (cmdAllocTd xc) ?R never" "ethTri ?R (ethCreateMkey xc) ?R never"
    unfolding cmdAllocPd_def cmdAllocTd_def ethCreateMkey_def by (rule ok_create [OF x room_cmd], simp)+
  obtain k1 e1 where x1: "cmdAllocPd xc e = (k1, e1)" by fastforce
  obtain k2 e2 where x2: "ethRun [cmdAllocTd xc, ethCreateMkey xc] e1 = (k2, e2)" by fastforce
  from triD [OF steps(1) p x1] have 1: "k1 = kIOReturnSuccess" "?R e1" by (simp_all split: if_splits)
  from triD [OF tri_cons [OF steps(2) tri_last [OF steps(3)]] 1(2) x2] have "k2 = kIOReturnSuccess" "?R e2"
    by (simp_all split: if_splits)
  then show "if kr = kIOReturnSuccess then ?R e' else False"
    using f x1 x2 1 by (simp add: allocGlobalResources_def del: ethRun.simps)
qed

text \<open>Memory for the two pools and the two completion queues.\<close>

definition memOkEnv :: "ethEnv \<Rightarrow> bool" where
  "memOkEnv env \<longleftrightarrow> (\<forall>x \<in> {enTxPool env, enTxCq env, enRxPool env, enRxCq env}. fst x \<and> fst (snd x) = kIOReturnSuccess)"

lemma enable_live:
  assumes x: "accepts xc" and env: "memOkEnv env" and i: "ethInv caps O' B e" and room: "ethRoom caps 4 True e"
    and off: "\<not> eEnabled e" "\<not> alive (ePd e)"
  shows "fst (ethEnable xc caps env me e) = kIOReturnSuccess"
proof -
  have idle: "partsIdle e" "globIdle e" using dead_idle off(2) i by (auto simp: ethInv_def)
  obtain d1 d2 d3 d4 where en: "enTxPool env = (True, kIOReturnSuccess, d1)" "enTxCq env = (True, kIOReturnSuccess, d2)"
    "enRxPool env = (True, kIOReturnSuccess, d3)" "enRxCq env = (True, kIOReturnSuccess, d4)"
    using env by (auto simp: memOkEnv_def prod_eq_iff)
  let ?fs = "[createTxResources xc caps env, createRxResources xc env, notifierOn me, createRxFlowSteering xc]"
  obtain k1 e1 where x1: "allocGlobalResources xc (e\<lparr>eEnabling := True\<rparr>) = (k1, e1)" by fastforce
  obtain k2 e2 where x2: "ethRun ?fs e1 = (k2, e2)" by fastforce
  have "ethRoom caps 4 True (e\<lparr>eEnabling := True\<rparr>)" using room by simp
  from triD [OF ok_global [OF x] this x1] have 1: "k1 = kIOReturnSuccess" "ethRoom caps (Suc (Suc (Suc (Suc 0)))) True e1"
    by (simp_all split: if_splits add: eval_nat_numeral)
  from triD [OF tri_cons [OF ok_createTx [OF x en(1,2)] tri_cons [OF ok_createRx [OF x en(3,4)] tri_cons [OF ok_notifier tri_last [OF ok_flow [OF x]]]]] 1(2) x2]
  have "k2 = kIOReturnSuccess" by (simp split: if_splits)
  then show ?thesis using x1 x2 1 off idle i unfolding ethEnable_def
    by (simp add: ethInv_def globIdle_def partsIdle_def flowIdle_def txIdle_def rxIdle_def del: ethRun.simps)
qed

section \<open>Taking everything down\<close>

abbreviation always :: "'w MlxEthernet \<Rightarrow> bool" where "always \<equiv> \<lambda>e. True"

lemma ok_destroy: "accepts xc \<Longrightarrow> ethTri always (ethDestroy xc opc ident clear) always never"
proof (rule triI)
  fix e :: "'a MlxEthernet" and kr e' assume x: "accepts xc" and f: "ethDestroy xc opc ident clear e = (kr, e')"
  obtain out co where "ethExec xc opc (ethInput 16 opc [(0x48, 24, ucast (ident e))]) 16 e = (kIOReturnSuccess, out, e\<lparr>eCo := co\<rparr>)"
    using accepts_exec [OF x] by blast
  then show "if kr = kIOReturnSuccess then True else False"
    using f by (auto simp: ethDestroy_def cmdDestroyObject_def split: if_splits)
qed

lemma ok_skip: "ethTri always g always never \<Longrightarrow> ethTri always (\<lambda>e. if b e then (kIOReturnSuccess, e) else g e) always never"
  by (rule triI) (auto dest: triD split: if_splits)

lemma ok_do: "ethTri always (ethDo f) always never"
  by (simp add: tri_do)

lemma always_cmd: "cmdInv always"
  by (simp add: cmdInv_def)

lemma ok_destroyAll:
  assumes x: "accepts xc" shows "fst (destroyAllResources xc caps e) = kIOReturnSuccess"
proof -
  note d = ok_destroy [OF x] and f = ok_flag [OF x always_cmd, of always]
  have eqs: "flowUnroot xc = (\<lambda>e. if \<not> eFlowRootActive e then (kIOReturnSuccess, e) else ethFlag xc MLX_CMD_OP_SET_FLOW_TABLE_ROOT
      (\<lambda>e. ethInput 0x40 MLX_CMD_OP_SET_FLOW_TABLE_ROOT [(0x30, 16, 1), (0x80, 8, 0)]) (\<lambda>e. e\<lparr>eFlowRootActive := False\<rparr>) e)"
    by (rule ext) (simp add: flowUnroot_def)
  have flow: "ethTri always (destroyRxFlowSteering xc) always never"
    unfolding destroyRxFlowSteering_def
    by (rule tri_cons, simp only: eqs, rule ok_skip, rule f, simp, rule tri_cons,
        simp only: flowDelEntry_def [abs_def], rule ok_skip, rule f, simp, rule tri_cons,
        simp only: flowDelGroup_def [abs_def], rule ok_skip, rule f, simp, rule tri_last,
        simp only: flowDelTable_def [abs_def], rule ok_skip, rule f, simp)
  have rx: "ethTri always (destroyRxResources xc) always never"
    unfolding destroyRxResources_def
    by (rule tri_cons [OF d tri_cons [OF d tri_cons [OF ok_do tri_cons [OF ok_do tri_cons [OF d tri_cons [OF ok_do
        tri_cons [OF ok_do tri_last [OF ok_do]]]]]]]])
  have tx: "ethTri always (destroyTxResources xc caps) always never"
    unfolding destroyTxResources_def
    by (rule tri_cons [OF d tri_cons [OF ok_do tri_cons [OF ok_do tri_cons [OF ok_do tri_cons [OF ok_do tri_cons [OF d
        tri_cons [OF ok_do tri_cons [OF ok_do tri_cons [OF d tri_last [OF ok_do]]]]]]]]]])
  have glob: "ethTri always (deallocGlobalResources xc) always never"
    unfolding deallocGlobalResources_def by (rule tri_cons [OF d tri_cons [OF d tri_last [OF d]]])
  have kr: "fst (g e) = kIOReturnSuccess" if "ethTri always g always never" for g and e :: "'a MlxEthernet"
    using triD [OF that, of e "fst (g e)" "snd (g e)"] by (simp split: if_splits)
  show ?thesis
    using kr [OF flow] kr [OF rx] kr [OF tx] kr [OF glob] by (simp add: destroyAllResources_def split_beta)
qed

lemma disable_live:
  "accepts xc \<Longrightarrow> \<not> eEnabling e \<Longrightarrow> \<not> eDisabling e \<Longrightarrow> fst (ethDisable xc caps me e) = kIOReturnSuccess"
  using ok_destroyAll by (simp add: ethDisable_def split_beta)

section \<open>A concrete interface\<close>

text \<open>Firmware that accepts every command and answers with ones; memory at fixed addresses.\<close>

definition onesXc :: "unit execFn" where
  "onesXc w opcode inb n t = (kIOReturnSuccess, replicate n 1, w)"

definition sampleEthCo :: "unit mlxCore" where
  "sampleEthCo = sampleCo\<lparr>coUar := (coUar sampleCo)\<lparr>fUarMap := Some 0x1000\<rparr>\<rparr>"

definition sampleEthCaps :: UarCaps where
  "sampleEthCaps = \<lparr>ucUar4k = False, ucLogUarPageSize = 12, ucLogBfRegSize = 9, ucPageSize = 4096, ucBarAddr = 0\<rparr>"

definition sampleEthEnv :: ethEnv where
  "sampleEthEnv = \<lparr>enCore = True, enTxRing = True, enRxRing = True, enTxWq = (True, kIOReturnSuccess, 0x10000),
     enRxWq = (True, kIOReturnSuccess, 0x20000), enAttach = True, enTxPool = (True, kIOReturnSuccess, 0x100000),
     enTxCq = (True, kIOReturnSuccess, 0x30000), enRxPool = (True, kIOReturnSuccess, 0x200000),
     enRxCq = (True, kIOReturnSuccess, 0x40000)\<rparr>"

definition sampleEth :: "unit MlxEthernet" where
  "sampleEth = ethInit sampleEthCo (Some sampleEq)"

lemma ones_answers: "\<forall>w opcode inb n t. fst (onesXc w opcode inb n t) \<noteq> kIOReturnTimeout"
  by (simp add: onesXc_def)

lemma ones_accepts: "accepts onesXc"
  by (simp add: accepts_def onesXc_def)

lemma sample_uar: "uarOk (coUar sampleEthCo)" "dbTaken (coUar sampleEthCo) = {#}" "fUarBitmap (coUar sampleEthCo) = 0"
proof -
  have "\<not> bit64s [0, 0] k" if "k < 128" for k
  proof -
    have "k div 64 = 0 \<or> k div 64 = 1" using that by linarith
    then show ?thesis by (auto simp: bit64s_def)
  qed
  then have z: "{k. k < 128 \<and> bit64s [0, 0] k} = {}" by blast
  have "fDbBitmap (coUar sampleEthCo) = [0, 0]" by (simp add: sampleEthCo_def sampleCo_def uarInit_def)
  then show "dbTaken (coUar sampleEthCo) = {#}" by (simp only: dbTaken_def z mset_set.empty)
qed (simp_all add: sampleEthCo_def sampleCo_def uarInit_def uarOk_def dbWf_def)

lemma sample_start:
  obtains e where "ethStart onesXc sampleEthEnv 3 sampleEth = (True, e)" "ethRoom sampleEthCaps 4 True e" "\<not> alive (ePd e)"
proof -
  let ?e = "sampleEth\<lparr>eCore := True\<rparr>"
  obtain e1 where x1: "startRings sampleEthEnv ?e = (kIOReturnSuccess, e1)" and r1: "ethUar e1 = coUar sampleEthCo" "eEq e1 = Some sampleEq"
    "ringHeld (eTxRing e1)" "ringHeld (eRxRing e1)" "em_dma (ethRingMem (eTxRing e1)) \<noteq> 0" "em_dma (ethRingMem (eRxRing e1)) \<noteq> 0"
    "\<not> alive (ePd e1)"
    by (simp add: startRings_def ringAllocBuffers_def ethAllocMem_def ringInit_def sampleEthEnv_def sampleEth_def ethInit_def
        Let_def ringHeld_def memHeld_def ethRingMem_def)
  have mac: "mlxGetBits (replicate 0x110 1) 0x85 3 = 1" "bytesAt (replicate 0x110 1) 0x106 6 = [1, 1, 1, 1, 1, 1]"
    by code_simp+
  define co m a where d: "co = (eCo e1)\<lparr>coCmd := ()\<rparr>" "m = (1 :: u8)" "a = ([1, 1, 1, 1, 1, 1] :: buffer)"
  have x2: "queryMacAddress onesXc e1 = (kIOReturnSuccess, e1\<lparr>eCo := co, eTxMinInlineMode := m, eMacAddr := a\<rparr>)"
    and "coUar co = ethUar e1"
    using mac by (simp_all add: queryMacAddress_def ethExec_def coExec_def onesXc_def Let_def d del: replicate.simps)
  let ?e3 = "e1\<lparr>eCo := co, eTxMinInlineMode := m, eMacAddr := a, eNic := True\<rparr>"
  have "ethRoom sampleEthCaps 4 True ?e3"
    using r1 \<open>coUar co = _\<close> sample_uar
    by (simp add: ethRoom_def bfRoom_def sampleEthCaps_def) (simp add: sampleEthCo_def)
  moreover have "ethStart onesXc sampleEthEnv 3 sampleEth = (True, ?e3)"
    using x1 x2 by (simp add: ethStart_def startAttach_def sampleEthEnv_def)
  ultimately show thesis using that r1 by simp
qed

section \<open>Commands that time out\<close>

text \<open>
  A command that creates something and times out may still be executed, without the driver ever
  learning the id. The invariants speak about the objects whose ids the driver has recorded;
  that these are all the objects of the firmware is so for a firmware that answers the commands
  that create them.
\<close>

definition ethCreating :: "u32 set" where
  "ethCreating = {MLX_CMD_OP_ALLOC_PD, MLX_CMD_OP_ALLOC_TRANSPORT_DOMAIN, MLX_CMD_OP_CREATE_MKEY,
     MLX_CMD_OP_CREATE_TIS, MLX_CMD_OP_CREATE_CQ, MLX_CMD_OP_CREATE_SQ, MLX_CMD_OP_CREATE_RQ, MLX_CMD_OP_CREATE_TIR,
     MLX_CMD_OP_CREATE_FLOW_TABLE, MLX_CMD_OP_CREATE_FLOW_GROUP, MLX_CMD_OP_SET_FLOW_TABLE_ENTRY,
     MLX_CMD_OP_SET_FLOW_TABLE_ROOT}"

definition createsAnswered :: "'w execFn \<Rightarrow> bool" where
  "createsAnswered xc \<longleftrightarrow> (\<forall>opcode \<in> ethCreating. \<forall>w inb n t. fst (xc w opcode inb n t) \<noteq> kIOReturnTimeout)"

lemma ones_created: "createsAnswered onesXc"
  by (simp add: createsAnswered_def ones_answers)

text \<open>
  The deviation from the rule that DMA memory is kept until the firmware object is known to be
  gone (\<^verbatim>\<open>REMEDIATION_PLAN.md\<close>, sections 3 and 14): a CREATE_CQ, CREATE_SQ or CREATE_RQ that times
  out gives back the completion buffer and the doorbell slots the device was told about.
\<close>

lemma eth_create_timeout_releases:
  assumes "uarOk (ethUar e)"
    and "cmdCreateCq xc en lg store e = (kIOReturnTimeout, e') \<or> cmdCreateSq xc e = (kIOReturnTimeout, e') \<or>
      cmdCreateRq xc e = (kIOReturnTimeout, e')"
  shows "mset (eLive e') = mset (eLive e) \<and> dbTaken (ethUar e') = dbTaken (ethUar e)"
proof -
  have "sameHeld e e'"
    using assms(2)
  proof (elim disjE)
    assume f: "cmdCreateCq xc en lg store e = (kIOReturnTimeout, e')"
    show ?thesis using assms(1) f by (cases rule: cmdCreateCq_cases) simp_all
  next
    assume f: "cmdCreateSq xc e = (kIOReturnTimeout, e')"
    show ?thesis using assms(1) f by (cases rule: cmdCreateSq_cases) simp_all
  next
    assume f: "cmdCreateRq xc e = (kIOReturnTimeout, e')"
    show ?thesis using assms(1) f by (cases rule: cmdCreateRq_cases) simp_all
  qed
  then show ?thesis by (auto simp: sameHeld_def)
qed

section \<open>The properties of the interface\<close>

lemma idle_held:
  assumes "ethInv caps O' B e" and "\<not> alive (ePd e)"
  shows "dbTaken (ethUar e) = O' \<and> fUarBitmap (ethUar e) = B \<and>
    mset (eLive e) = memM (ethRingMem (eTxRing e)) + memM (ethRingMem (eRxRing e))"
proof -
  have "partsIdle e" using dead_idle [OF _ assms(2)] assms(1) by (auto simp: ethInv_def)
  then have "txIdle (eTx e)" "rxIdle (eRx e)" by (simp_all add: partsIdle_def)
  then show ?thesis using assms(1) by (simp add: ethInv_def ethRest2_def ethBase_def ethAcct_def txIdle_def rxIdle_def)
qed

text \<open>C29: whatever IOKit and the network do, and whatever the firmware answers as long as it
  answers the commands that create objects, after a successful \<open>start\<close> and any sequence of
  \<open>enable\<close>, \<open>disable\<close>, packets and events, no firmware object the driver has the id of has lost anything it
  refers to (the send queue its ring, its pool, its doorbell slots and its completion queue, the
  flow rule its receive object, every object its protection domain), every doorbell slot,
  memory object and BF register is accounted for, and an enabled interface is completely up.
  BF registers have at most 1 GiB. A creation that times out is \<open>eth_create_timeout_releases\<close>.\<close>

theorem eth_objects_safe:
  fixes co :: "'w mlxCore"
  assumes "ucLogBfRegSize caps \<le> 30" and "createsAnswered xc" and "uarOk (coUar co)" "q \<noteq> None"
    and "ethStart xc env me (ethInit co q) = (True, e0)" and "ethOps xc caps me ops e0 = Some e"
  shows "ethSafe e \<and> ethAcct caps (dbTaken (coUar co)) (fUarBitmap (coUar co)) e \<and>
    (eEnabled e \<longrightarrow> ethUp e) \<and> eNotifierRegistered e = eEnabled e"
proof -
  have "ethInv caps (dbTaken (coUar co)) (fUarBitmap (coUar co)) e0" using start_spec [OF assms(3-5), of caps] by simp
  from ops_inv [OF assms(1) this assms(6)] show ?thesis by (simp add: ethInv_def ethRest2_def ethBase_def)
qed

theorem eth_objects_safe_witness:
  "\<exists>e0 e. ethStart onesXc sampleEthEnv 3 sampleEth = (True, e0) \<and>
     ethOps onesXc sampleEthCaps 3 [OpEnable sampleEthEnv] e0 = Some e \<and> eEnabled e \<and> ethSafe e \<and> ethUp e"
proof -
  obtain e0 where s: "ethStart onesXc sampleEthEnv 3 sampleEth = (True, e0)" "ethRoom sampleEthCaps 4 True e0" "\<not> alive (ePd e0)"
    by (rule sample_start)
  have i: "ethInv sampleEthCaps {#} 0 e0 \<and> \<not> eEnabled e0"
    using start_spec [of sampleEthCo "Some sampleEq" onesXc sampleEthEnv 3 True e0 sampleEthCaps] s(1) sample_uar
    by (simp add: sampleEth_def)
  obtain kr e where en: "ethEnable onesXc sampleEthCaps sampleEthEnv 3 e0 = (kr, e)" by fastforce
  have bf: "ucLogBfRegSize sampleEthCaps \<le> 30" by (simp add: sampleEthCaps_def)
  have "kr = kIOReturnSuccess"
    using enable_live [OF ones_accepts _ conjunct1 [OF i] s(2) _ s(3), of sampleEthEnv 3] i en
    by (simp add: memOkEnv_def sampleEthEnv_def)
  then have up: "eEnabled e" using enable_spec [OF bf conjunct1 [OF i] en] i s(3) by simp
  have run: "ethOps onesXc sampleEthCaps 3 [OpEnable sampleEthEnv] e0 = Some e" using en by simp
  from eth_objects_safe [OF bf ones_created sample_uar(1) _ s(1) [unfolded sampleEth_def] run] up show ?thesis using s(1) run by blast
qed

text \<open>C30: \<open>enable\<close> brings everything up or reports an error with nothing lost, for a firmware that
  answers the commands that create objects. An enabled interface is left alone; leftovers of an
  earlier failed teardown refuse it without a change; otherwise either everything is up, or the
  interface is down, every recorded object has all it refers to and everything held is accounted
  for. In that case, when the cleanup got as far as the protection domain, all that was allocated
  has been given back and only the two rings are held; a destroy command that failed before
  leaves the rest held and recorded.\<close>

theorem eth_enable_all_or_nothing:
  assumes "ucLogBfRegSize caps \<le> 30" and "createsAnswered xc" and "ethInv caps O' B e"
    and "ethEnable xc caps env me e = (kr, e')"
  shows "if eEnabled e then kr = kIOReturnSuccess \<and> e' = e
    else if alive (ePd e) then kr = kIOReturnNotReady \<and> e' = e
    else if kr = kIOReturnSuccess then eEnabled e' \<and> ethUp e' \<and> ethSafe e'
    else \<not> eEnabled e' \<and> ethSafe e' \<and> ethAcct caps O' B e' \<and>
      (\<not> alive (ePd e') \<longrightarrow> dbTaken (ethUar e') = O' \<and> fUarBitmap (ethUar e') = B \<and>
         mset (eLive e') = memM (ethRingMem (eTxRing e')) + memM (ethRingMem (eRxRing e')))"
proof -
  note s = enable_spec [OF assms(1,3,4)]
  have i: "ethInv caps O' B e'" using s by blast
  note held = idle_held [OF i]
  show ?thesis using held s i by (auto simp: ethInv_def ethRest2_def ethBase_def split: if_splits)
qed

theorem eth_enable_all_or_nothing_witness:
  "\<exists>e0 kr e. ethStart onesXc sampleEthEnv 3 sampleEth = (True, e0) \<and>
     ethEnable onesXc sampleEthCaps sampleEthEnv 3 e0 = (kr, e) \<and> kr = kIOReturnSuccess \<and> eEnabled e \<and> ethUp e"
proof -
  obtain e0 where s: "ethStart onesXc sampleEthEnv 3 sampleEth = (True, e0)" "ethRoom sampleEthCaps 4 True e0" "\<not> alive (ePd e0)"
    by (rule sample_start)
  have i: "ethInv sampleEthCaps {#} 0 e0" "\<not> eEnabled e0"
    using start_spec [of sampleEthCo "Some sampleEq" onesXc sampleEthEnv 3 True e0 sampleEthCaps] s(1) sample_uar
    by (simp_all add: sampleEth_def)
  obtain kr e where en: "ethEnable onesXc sampleEthCaps sampleEthEnv 3 e0 = (kr, e)" by fastforce
  have bf: "ucLogBfRegSize sampleEthCaps \<le> 30" by (simp add: sampleEthCaps_def)
  have "kr = kIOReturnSuccess"
    using enable_live [OF ones_accepts _ i(1) s(2) i(2) s(3), of sampleEthEnv 3] en by (simp add: memOkEnv_def sampleEthEnv_def)
  with eth_enable_all_or_nothing [OF bf ones_created i(1) en] i(2) s(1,3) en show ?thesis by (metis (no_types))
qed

text \<open>C31: a failed \<open>start\<close> gives everything back; and \<open>stop\<close>, after any sequence of operations with
  a firmware that answers the commands that create objects, either gives everything back (every
  memory object, doorbell slot and BF register) or, when an object the driver has the id of is
  left, keeps the rings and all the memory the recorded objects refer to. In both cases the
  network interface is detached and the event notifier is gone. A creation that times out is
  \<open>eth_create_timeout_releases\<close>.\<close>

theorem eth_stop_releases_or_quarantines:
  fixes co :: "'w mlxCore"
  assumes "ucLogBfRegSize caps \<le> 30" and "createsAnswered xc" and "uarOk (coUar co)" "q \<noteq> None"
    and "ethStart xc env me (ethInit co q) = (ok, e0)"
  shows "if \<not> ok then ethHeldNothing (dbTaken (coUar co)) (fUarBitmap (coUar co)) e0
    else (\<forall>ops e e'. ethOps xc caps me ops e0 = Some e \<longrightarrow> ethStop xc caps me e = e' \<longrightarrow>
      \<not> eNic e' \<and> \<not> eNotifierRegistered e' \<and>
      (if quarantinedIds e' then ethSafe e' \<and> ethAcct caps (dbTaken (coUar co)) (fUarBitmap (coUar co)) e' \<and>
         ringHeld (eTxRing e') \<and> ringHeld (eRxRing e')
       else ethHeldNothing (dbTaken (coUar co)) (fUarBitmap (coUar co)) e'))"
proof (cases ok)
  case False
  then show ?thesis using start_spec [OF assms(3-5)] by simp
next
  case True
  let ?I = "ethInv caps (dbTaken (coUar co)) (fUarBitmap (coUar co))"
  have i0: "?I e0" using start_spec [OF assms(3-5), of caps] True by simp
  have "\<not> eNic (ethStop xc caps me e) \<and> \<not> eNotifierRegistered (ethStop xc caps me e) \<and>
      (if quarantinedIds (ethStop xc caps me e)
       then ethSafe (ethStop xc caps me e) \<and> ethAcct caps (dbTaken (coUar co)) (fUarBitmap (coUar co)) (ethStop xc caps me e) \<and>
         ringHeld (eTxRing (ethStop xc caps me e)) \<and> ringHeld (eRxRing (ethStop xc caps me e))
       else ethHeldNothing (dbTaken (coUar co)) (fUarBitmap (coUar co)) (ethStop xc caps me e))"
    if ops: "ethOps xc caps me ops e0 = Some e" for ops e
  proof -
    obtain kr d where d: "ethDisable xc caps me e = (kr, d)" by fastforce
    have i: "?I d" using disable_spec [OF ops_inv [OF assms(1) i0 ops] d] by simp
    then have r: "ethRest2 caps (dbTaken (coUar co)) (fUarBitmap (coUar co)) d" "eCore d" "eEq d \<noteq> None"
      "ringHeld (eTxRing d)" "ringHeld (eRxRing d)" by (simp_all add: ethInv_def)
    have st: "ethStop xc caps me e = releaseResources me d" by (simp add: ethStop_def d)
    note rel = release_spec [OF r(1-3), of me]
    show ?thesis
    proof (cases "quarantinedIds d")
      case True
      then show ?thesis using rel r(4,5) by (simp add: st ethRest2_def ethBase_def)
    next
      case False
      then show ?thesis using rel by (simp add: st)
    qed
  qed
  then show ?thesis using True by simp
qed

theorem eth_stop_releases_or_quarantines_witness:
  "\<exists>e0 e. ethStart onesXc sampleEthEnv 3 sampleEth = (True, e0) \<and>
     ethOps onesXc sampleEthCaps 3 [OpEnable sampleEthEnv, OpOutput None] e0 = Some e \<and>
     \<not> eNic (ethStop onesXc sampleEthCaps 3 e) \<and> eLive (ethStop onesXc sampleEthCaps 3 e) = []"
proof -
  obtain e0 where s: "ethStart onesXc sampleEthEnv 3 sampleEth = (True, e0)" by (rule sample_start)
  have bf: "ucLogBfRegSize sampleEthCaps \<le> 30" by (simp add: sampleEthCaps_def)
  obtain e where run: "ethOps onesXc sampleEthCaps 3 [OpEnable sampleEthEnv, OpOutput None] e0 = Some e" by simp
  have i0: "ethInv sampleEthCaps {#} 0 e0"
    using start_spec [of sampleEthCo "Some sampleEq" onesXc sampleEthEnv 3 True e0 sampleEthCaps] s sample_uar
    by (simp add: sampleEth_def)
  have i: "ethInv sampleEthCaps {#} 0 e" by (rule ops_inv [OF bf i0 run])
  obtain kr d where d: "ethDisable onesXc sampleEthCaps 3 e = (kr, d)" by fastforce
  have "kr = kIOReturnSuccess" using disable_live [OF ones_accepts, of e sampleEthCaps 3] i d by (simp add: ethInv_def)
  then have "partsIdle d" "eCore d" "eEq d \<noteq> None" "ethRest2 sampleEthCaps {#} 0 d"
    using disable_spec [OF i d] by (simp_all add: ethInv_def)
  then have "\<not> quarantinedIds (ethStop onesXc sampleEthCaps 3 e)" using release_spec [of sampleEthCaps "{#}" 0 d 3]
    by (simp add: ethStop_def d) (simp add: quarantinedIds_def partsIdle_def txIdle_def rxIdle_def flowIdle_def)
  moreover have "\<not> eNic e' \<and> (\<not> quarantinedIds e' \<longrightarrow> ethHeldNothing (dbTaken (coUar sampleEthCo)) (fUarBitmap (coUar sampleEthCo)) e')"
    if "ethStop onesXc sampleEthCaps 3 e = e'" for e'
    using eth_stop_releases_or_quarantines [OF bf ones_created sample_uar(1) _ s [unfolded sampleEth_def]] run that
    by (metis option.distinct(1))
  ultimately have "\<not> eNic (ethStop onesXc sampleEthCaps 3 e)" "eLive (ethStop onesXc sampleEthCaps 3 e) = []"
    unfolding ethHeldNothing_def by blast+
  then show ?thesis using run s by blast
qed

text \<open>C32: the interface can be brought up and taken down. When the firmware accepts the commands, there
  is memory, a BF register and 8 free doorbell slots, \<open>enable\<close> succeeds with everything up, a
  following \<open>disable\<close> succeeds, and then everything but the rings has been given back.\<close>

theorem eth_up_and_down:
  assumes "accepts xc" "memOkEnv env" and "ethInv caps O' B e" "ethRoom caps 4 True e"
    and "\<not> eEnabled e" "\<not> alive (ePd e)"
  shows "\<exists>e1 e2. ethEnable xc caps env me e = (kIOReturnSuccess, e1) \<and> eEnabled e1 \<and> ethUp e1 \<and>
    ethDisable xc caps me e1 = (kIOReturnSuccess, e2) \<and> \<not> eEnabled e2 \<and> \<not> alive (ePd e2) \<and>
    dbTaken (ethUar e2) = dbTaken (ethUar e) \<and> mset (eLive e2) = memM (ethRingMem (eTxRing e2)) + memM (ethRingMem (eRxRing e2))"
proof -
  have bf: "ucLogBfRegSize caps \<le> 30" using assms(4) by (simp add: ethRoom_def bfRoom_def)
  obtain k1 e1 where x1: "ethEnable xc caps env me e = (k1, e1)" by fastforce
  have k1: "k1 = kIOReturnSuccess" using enable_live [OF assms, of me] x1 by simp
  note s1 = enable_spec [OF bf assms(3) x1]
  then have i1: "ethInv caps O' B e1" "eEnabled e1" "ethUp e1" using k1 assms(5,6) by (simp_all add: ethInv_def)
  obtain k2 e2 where x2: "ethDisable xc caps me e1 = (k2, e2)" by fastforce
  have k2: "k2 = kIOReturnSuccess" using disable_live [OF assms(1), of e1 caps me] i1 x2 by (simp add: ethInv_def)
  note s2 = disable_spec [OF i1(1) x2]
  have "\<not> alive (ePd e2)" using s2 k2 by (simp add: globIdle_def)
  then show ?thesis using x1 x2 k1 k2 i1 s2 idle_held [OF assms(3,6)] idle_held [of caps O' B e2] by simp
qed

theorem eth_up_and_down_witness:
  "\<exists>e0 e1 e2. ethStart onesXc sampleEthEnv 3 sampleEth = (True, e0) \<and>
     ethEnable onesXc sampleEthCaps sampleEthEnv 3 e0 = (kIOReturnSuccess, e1) \<and> eEnabled e1 \<and>
     ethDisable onesXc sampleEthCaps 3 e1 = (kIOReturnSuccess, e2) \<and> \<not> eEnabled e2"
proof -
  obtain e0 where s: "ethStart onesXc sampleEthEnv 3 sampleEth = (True, e0)" "ethRoom sampleEthCaps 4 True e0" "\<not> alive (ePd e0)"
    by (rule sample_start)
  have i: "ethInv sampleEthCaps {#} 0 e0" "\<not> eEnabled e0"
    using start_spec [of sampleEthCo "Some sampleEq" onesXc sampleEthEnv 3 True e0 sampleEthCaps] s(1) sample_uar
    by (simp_all add: sampleEth_def)
  have "memOkEnv sampleEthEnv" by (simp add: memOkEnv_def sampleEthEnv_def)
  from eth_up_and_down [OF ones_accepts this i(1) s(2) i(2) s(3)] s(1) show ?thesis by blast
qed

end
