(* ===== verification/MlxEthTx.thy ===== *)
theory MlxEthTx
  imports MlxEthLive "HOL-Library.Sublist"
begin

text \<open>
  The send ring as a queue: \<open>txPending e ids\<close> says that the packets \<open>ids\<close> are waiting for their
  completion, in this order, in the slots from \<open>fTxCc\<close> on, and that every other slot is empty.
  Transmission appends to the queue, a completion takes a prefix off it.
\<close>

unbundle bit_operations_syntax

section \<open>Slots\<close>

text \<open>The slot of a counter is its low byte.\<close>

lemma byte_unat: "unat (ucast c :: 8 word) = unat c mod 256" for c :: u16
  by (simp add: unsigned_ucast_eq take_bit_eq_mod)

lemma slot_byte: "unat (c AND 255) = unat (ucast c :: 8 word)" for c :: u16
proof -
  have "(255 :: u16) = mask 8" by (simp add: mask_eq_exp_minus_1)
  then have "c AND 255 = take_bit 8 c" by (simp add: take_bit_eq_mask)
  then show ?thesis by (simp add: byte_unat unsigned_take_bit_eq take_bit_eq_mod unat_mod)
qed

lemma byte_add: "(ucast (c + of_nat n) :: 8 word) = ucast c + of_nat n" for c :: u16
proof -
  have "unat (c + of_nat n) = (unat c + n mod 65536) mod 65536"
    by (simp add: unat_word_ariths unsigned_of_nat take_bit_eq_mod)
  also have "\<dots> = (unat c + n) mod 65536" by (rule mod_add_right_eq)
  finally have "unat (c + of_nat n) mod 256 = (unat c + n) mod 256" by (simp add: mod_mod_cancel)
  moreover have "unat (ucast c + of_nat n :: 8 word) = (unat c mod 256 + n mod 256) mod 256"
    by (simp add: byte_unat unat_word_ariths unsigned_of_nat take_bit_eq_mod)
  moreover have "(unat c mod 256 + n mod 256) mod 256 = (unat c + n) mod 256" by (rule mod_add_eq)
  ultimately have "unat (ucast (c + of_nat n) :: 8 word) = unat (ucast c + of_nat n :: 8 word)" by (simp only: byte_unat)
  then show ?thesis by (simp add: word_unat_eq_iff)
qed

definition pendAt :: "u16 \<Rightarrow> nat list \<Rightarrow> nat \<Rightarrow> nat option" where
  "pendAt cc ids i = (let k = unat (of_nat i - ucast cc :: 8 word) in if k < length ids then Some (ids ! k) else None)"

definition txPending :: "'w MlxEthernet \<Rightarrow> nat list \<Rightarrow> bool" where
  "txPending e ids \<longleftrightarrow> (\<exists>r. eTxRing e = Some r \<and> ring_size r = 256 \<and> length (ring_mbuf r) = 256 \<and> length ids \<le> 256 \<and>
     tx_pc (eTx e) = tx_cc (eTx e) + of_nat (length ids) \<and>
     (\<forall>i < 256. ring_mbuf r ! i = pendAt (tx_cc (eTx e)) ids i))"

lemma byte_of_nat: "i < 256 \<Longrightarrow> unat (of_nat i :: 8 word) = i"
  by (rule unat_of_nat_small) simp

lemma pendAt_snoc:
  assumes "length ids < 256" and "i < 256"
  shows "pendAt cc (ids @ [m]) i =
    (if i = unat (ucast (cc + of_nat (length ids)) :: 8 word) then Some m else pendAt cc ids i)"
proof -
  let ?d = "of_nat i - ucast cc :: 8 word" and ?n = "of_nat (length ids) :: 8 word"
  have n: "unat ?n = length ids" by (rule byte_of_nat [OF assms(1)])
  have u: "(ucast (cc + of_nat (length ids)) :: 8 word) = ucast cc + ?n"
    by (rule byte_add)
  have "i = unat (ucast cc + ?n) \<longleftrightarrow> of_nat i = ucast cc + ?n"
    using byte_of_nat [OF assms(2)] by (metis of_nat_unat ucast_id)
  also have "\<dots> \<longleftrightarrow> ?d = ?n" by (auto simp: algebra_simps)
  also have "\<dots> \<longleftrightarrow> unat ?d = length ids" using n by (metis word_unat_eq_iff)
  finally have "i = unat (ucast cc + ?n) \<longleftrightarrow> unat ?d = length ids" .
  then show ?thesis unfolding u by (auto simp: pendAt_def Let_def nth_append)
qed

lemma pendAt_tl:
  assumes "length ids < 256" and "i < 256"
  shows "pendAt (cc + 1) ids i = (if i = unat (ucast cc :: 8 word) then None else pendAt cc (x # ids) i)"
proof -
  let ?d = "of_nat i - ucast cc :: 8 word"
  have u: "(ucast (cc + 1) :: 8 word) = ucast cc + 1" using byte_add [of cc 1] by simp
  have "i = unat (ucast cc :: 8 word) \<longleftrightarrow> (of_nat i :: 8 word) = ucast cc"
    using byte_of_nat [OF assms(2)] by (metis of_nat_unat ucast_id)
  then have z: "i = unat (ucast cc :: 8 word) \<longleftrightarrow> ?d = 0" by simp
  have s: "of_nat i - (ucast cc + 1) = ?d - 1" by simp
  show ?thesis
  proof (cases "?d = 0")
    case True
    have "unat (0 - 1 :: 8 word) = 255" by code_simp
    then have "unat (?d - 1) = 255" unfolding True .
    then show ?thesis using z True assms(1) unfolding pendAt_def u s by simp
  next
    case False
    then have "unat (?d - 1) = unat ?d - 1" "0 < unat ?d" by (simp_all add: unat_minus_one unat_gt_0)
    then show ?thesis using z False unfolding pendAt_def u s by (auto simp: Let_def nth_Cons')
  qed
qed

lemma pendAt_hd: "pendAt cc (x # ids) (unat (ucast cc :: 8 word)) = Some x"
  by (simp add: pendAt_def)

section \<open>Freed packets\<close>

fun freedMbufs :: "ethEffect list \<Rightarrow> nat list" where
  "freedMbufs [] = []"
| "freedMbufs (x # l) = (case x of FreeMbuf m \<Rightarrow> m # freedMbufs l | _ \<Rightarrow> freedMbufs l)"

lemma freed_append [simp]: "freedMbufs (a @ b) = freedMbufs a @ freedMbufs b"
  by (induction a) (auto split: ethEffect.split)

lemma freed_map [simp]: "freedMbufs (map FreeMbuf ids) = ids"
  by (induction ids) auto

section \<open>Completions\<close>

definition txDone :: "u16 \<Rightarrow> nat list \<Rightarrow> 'w MlxEthernet \<Rightarrow> 'w MlxEthernet \<Rightarrow> bool" where
  "txDone cc ids e e' \<longleftrightarrow> (\<exists>ro. e' = e\<lparr>eLog := eLog e @ map FreeMbuf ids, eTxRing := ro, eTx := (eTx e)\<lparr>tx_cc := cc\<rparr>\<rparr>)"

lemma txDone_trans: "txDone c xs e e1 \<Longrightarrow> txDone d ys e1 e' \<Longrightarrow> txDone d (xs @ ys) e e'"
  by (auto simp: txDone_def)

lemma txPop:
  fixes e :: "'w MlxEthernet"
  assumes p: "txPending e (x # xs)"
  defines "e' \<equiv> updTx (\<lambda>t. t\<lparr>tx_cc := tx_cc (eTx e) + 1\<rparr>) (txFreeSlot (unat (tx_cc (eTx e) AND 255)) e)"
  shows "txPending e' xs \<and> txDone (tx_cc (eTx e) + 1) [x] e e'"
proof -
  let ?cc = "tx_cc (eTx e)"
  let ?i = "unat (ucast ?cc :: 8 word)"
  obtain r where r: "eTxRing e = Some r" "ring_size r = 256" "length (ring_mbuf r) = 256" "length xs < 256"
    "tx_pc (eTx e) = ?cc + of_nat (length (x # xs))" "\<And>i. i < 256 \<Longrightarrow> ring_mbuf r ! i = pendAt ?cc (x # xs) i"
    using p by (auto simp: txPending_def)
  have i: "?i < 256" by (simp add: byte_unat)
  have x: "ring_mbuf r ! ?i = Some x" using r(6) [OF i] pendAt_hd by simp
  let ?r = "r\<lparr>ring_mbuf := (ring_mbuf r)[?i := None]\<rparr>"
  have e': "e' = e\<lparr>eLog := eLog e @ [FreeMbuf x], eTxRing := Some ?r, eTx := (eTx e)\<lparr>tx_cc := ?cc + 1\<rparr>\<rparr>"
    using i x by (simp add: e'_def txFreeSlot_def r(1) slot_byte getWqeMbuf_def clearWqeMbuf_def setWqeMbuf_def updTx_def ethLog_def)
  have "(ring_mbuf r)[?i := None] ! i = pendAt (?cc + 1) xs i" if "i < 256" for i
    using r(3) r(6) [OF that] that pendAt_tl [OF r(4) that, of ?cc x] by (simp add: nth_list_update)
  then have "txPending e' xs" using r(2-5) by (simp add: txPending_def e' algebra_simps)
  then show ?thesis by (auto simp: txDone_def e')
qed

lemma txComplete_done:
  assumes "txPending e ids" and "n < length ids"
  shows "txPending (txComplete (tx_cc (eTx e) + of_nat n) e) (drop (Suc n) ids) \<and>
    txDone (tx_cc (eTx e) + of_nat (Suc n)) (take (Suc n) ids) e (txComplete (tx_cc (eTx e) + of_nat n) e)"
  using assms
proof (induction n arbitrary: e ids)
  case 0
  then obtain x xs where ids: "ids = x # xs" by (cases ids) auto
  show ?case using txPop [of e x xs] 0 by (subst (1 2) txComplete.simps) (simp add: ids Let_def)
next
  case (Suc n)
  then obtain x xs where ids: "ids = x # xs" by (cases ids) auto
  let ?cc = "tx_cc (eTx e)"
  let ?e = "updTx (\<lambda>t. t\<lparr>tx_cc := ?cc + 1\<rparr>) (txFreeSlot (unat (?cc AND 255)) e)"
  have pop: "txPending ?e xs" "txDone (?cc + 1) [x] e ?e" using txPop [of e x xs] Suc.prems(1) by (simp_all add: ids)
  have len: "length ids \<le> 256" "tx_pc (eTx e) = ?cc + of_nat (length ids)" using Suc.prems(1) by (auto simp: txPending_def)
  have cc: "tx_cc (eTx ?e) = ?cc + 1" by (simp add: updTx_def)
  have small: "(of_nat m :: u16) \<noteq> 0" if "0 < m" "m \<le> 256" for m
    using that by (simp add: word_unat_eq_iff unsigned_of_nat take_bit_eq_mod)
  have "?cc \<noteq> ?cc + of_nat (Suc n)" using small [of "Suc n"] Suc.prems(2) len(1) by simp
  moreover have "?cc + 1 \<noteq> tx_pc (eTx e)"
  proof -
    have "(of_nat (length xs) :: u16) \<noteq> 0" by (rule small) (use Suc.prems(2) len(1) in \<open>auto simp: ids\<close>)
    then show ?thesis using len(2) by (simp add: ids add.assoc [symmetric])
  qed
  ultimately have step: "txComplete (?cc + of_nat (Suc n)) e = txComplete (tx_cc (eTx ?e) + of_nat n) ?e"
    by (subst txComplete.simps) (simp add: Let_def cc add.assoc)
  have "n < length xs" using Suc.prems(2) ids by simp
  note rec = Suc.IH [OF pop(1) this]
  show ?case unfolding step using rec txDone_trans [OF pop(2)] by (simp add: ids cc add.assoc)
qed

section \<open>A poll\<close>

text \<open>
  What the device may have written: \<open>ns\<close> are the sizes of the completed groups; each entry names
  the last slot of its group, and the entry after the last is not yet owned by the driver.
\<close>

fun txPublished :: "(nat \<Rightarrow> nat \<Rightarrow> MlxCqe64) \<Rightarrow> nat \<Rightarrow> nat list \<Rightarrow> u32 \<Rightarrow> u16 \<Rightarrow> bool" where
  "txPublished cqes i [] q c = (\<not> cqOwned q (cqes i (cqSlot q)))"
| "txPublished cqes i (n # ns) q c =
     (0 < n \<and> cqOwned q (cqes i (cqSlot q)) \<and> cqe_wqeCounter (cqes i (cqSlot q)) = c + of_nat (n - 1) \<and>
      txPublished cqes (i + 1) ns (q + 1) (c + of_nat n))"

lemma txPollLoop_done:
  assumes "txPending e ids" and "txPublished cqes i ns (tx_cqCc (eTx e)) (tx_cc (eTx e))" and "sum_list ns \<le> length ids"
  shows "\<exists>e'. txPollLoop cqes i e = Some e' \<and> txPending e' (drop (sum_list ns) ids) \<and>
    (\<exists>ro. e' = e\<lparr>eLog := eLog e @ map FreeMbuf (take (sum_list ns) ids), eTxRing := ro,
       eTx := (eTx e)\<lparr>tx_cc := tx_cc (eTx e) + of_nat (sum_list ns), tx_cqCc := tx_cqCc (eTx e) + of_nat (length ns)\<rparr>\<rparr>)"
  using assms
proof (induction ns arbitrary: i e ids)
  case Nil
  then have "txPollLoop cqes i e = Some e" by (subst txPollLoop.simps) (simp add: Let_def)
  then show ?case using Nil by (intro exI [of _ e]) (auto intro!: exI [of _ "eTxRing e"])
next
  case (Cons n ns)
  let ?cqe = "cqes i (cqSlot (tx_cqCc (eTx e)))"
  define e1 where "e1 = txComplete (cqe_wqeCounter ?cqe) e"
  let ?e2 = "updTx (\<lambda>t. t\<lparr>tx_cqCc := tx_cqCc (eTx e) + 1\<rparr>) e1"
  have n: "0 < n" "n - 1 < length ids" "cqe_wqeCounter ?cqe = tx_cc (eTx e) + of_nat (n - 1)" "Suc (n - 1) = n"
    using Cons.prems(2,3) by auto
  note d = txComplete_done [OF Cons.prems(1) n(2), folded n(3), folded e1_def, unfolded n(4)]
  obtain ro where e1: "e1 = e\<lparr>eLog := eLog e @ map FreeMbuf (take n ids), eTxRing := ro,
      eTx := (eTx e)\<lparr>tx_cc := tx_cc (eTx e) + of_nat n\<rparr>\<rparr>" using d unfolding txDone_def by blast
  have p2: "txPending ?e2 (drop n ids)" using d by (simp add: txPending_def updTx_def)
  have "txPublished cqes (i + 1) ns (tx_cqCc (eTx ?e2)) (tx_cc (eTx ?e2))" "sum_list ns \<le> length (drop n ids)"
    using Cons.prems(2,3) by (simp_all add: updTx_def e1)
  from Cons.IH [OF p2 this] obtain e' ro' where rec: "txPollLoop cqes (i + 1) ?e2 = Some e'"
    "txPending e' (drop (sum_list ns) (drop n ids))"
    "e' = ?e2\<lparr>eLog := eLog ?e2 @ map FreeMbuf (take (sum_list ns) (drop n ids)), eTxRing := ro',
       eTx := (eTx ?e2)\<lparr>tx_cc := tx_cc (eTx ?e2) + of_nat (sum_list ns), tx_cqCc := tx_cqCc (eTx ?e2) + of_nat (length ns)\<rparr>\<rparr>"
    by blast
  have "txPollLoop cqes i e = Some e'"
    using rec(1) Cons.prems(2) by (subst txPollLoop.simps) (simp add: Let_def e1_def)
  moreover have "e' = e\<lparr>eLog := eLog e @ map FreeMbuf (take (sum_list (n # ns)) ids), eTxRing := ro',
      eTx := (eTx e)\<lparr>tx_cc := tx_cc (eTx e) + of_nat (sum_list (n # ns)), tx_cqCc := tx_cqCc (eTx e) + of_nat (length (n # ns))\<rparr>\<rparr>"
    unfolding rec(3) by (simp add: updTx_def e1 take_add add.assoc)
  ultimately show ?case using rec(2) by (intro exI [of _ e']) (auto simp: add.commute)
qed

text \<open>What a step does to the queue and to the packets of the stack.\<close>

definition txView :: "'w MlxEthernet \<Rightarrow> _" where
  "txView e = (eTx e, eTxRing e, freedMbufs (eLog e))"

lemma view_pending: "txView e' = txView e \<Longrightarrow> txPending e' ids = txPending e ids"
  by (simp add: txView_def txPending_def)

lemma view_simps [simp]:
  "txView (writeDb i v e) = txView e" "txView (ringWriteDb r v e) = txView e"
  "txView (ethUpdateCq off cc e) = txView e" "txView (armCq n off sn cc e) = txView e"
  "txView (ethLog ServiceQueue e) = txView e" "txView (ethLog (WriteBf x w) e) = txView e"
  "txView (ethLog (LinkStatus up sp) e) = txView e" "txView (ethLog (InputPacket p len) e) = txView e"
  "txView (ethLog (DropRx p) e) = txView e"
proof -
  show db: "txView (writeDb i v e) = txView e" for i v and e :: "'a MlxEthernet"
    by (simp add: writeDb_def txView_def setUar_def split: option.split)
  show "txView (ringWriteDb r v e) = txView e" by (simp add: ringWriteDb_def db split: option.split)
  show "txView (ethUpdateCq off cc e) = txView e" by (simp add: ethUpdateCq_def db)
  have "txView (ethLog (WriteCqDoorbell a b) e) = txView e" for a b and e :: "'a MlxEthernet"
    by (simp add: txView_def ethLog_def)
  then show "txView (armCq n off sn cc e) = txView e" by (simp add: armCq_def Let_def db)
qed (simp_all add: txView_def ethLog_def)

lemma sent_pending:
  assumes p: "txPending e ids" and len: "length ids < 256" and r: "eTxRing e = Some r"
  shows "txPending (txSent m r bytes e) (ids @ [mb_id m]) \<and> freedMbufs (eLog (txSent m r bytes e)) = freedMbufs (eLog e)"
proof -
  let ?pc = "tx_pc (eTx e)" and ?cc = "tx_cc (eTx e)"
  have w: "ring_size r = 256" "length (ring_mbuf r) = 256" "?pc = ?cc + of_nat (length ids)"
    "\<And>i. i < 256 \<Longrightarrow> ring_mbuf r ! i = pendAt ?cc ids i" using p r by (auto simp: txPending_def)
  have i: "txSlot r ?pc = unat (ucast ?pc :: 8 word)" by (simp add: txSlot_def w(1) slot_byte)
  have lt: "unat (ucast ?pc :: 8 word) < 256" by (simp add: byte_unat)
  let ?r = "\<lambda>b. r\<lparr>ring_wqBuf := b, ring_head := ?pc, ring_mbuf := (ring_mbuf r)[unat (ucast ?pc :: 8 word) := Some (mb_id m)]\<rparr>"
  let ?s = "\<lambda>b pool. e\<lparr>eTxRing := Some (?r b), eTx := (eTx e)\<lparr>tx_pool := pool, tx_pc := ?pc + 1\<rparr>\<rparr>"
  obtain b pool v x where sent: "txSent m r bytes e = ethLog (WriteBf x v) (ringWriteDb (?r b) (ucast (?pc + 1)) (?s b pool))"
    using lt by (auto simp: txSent_def Let_def i setWqeMbuf_def setTxWqe_def updTx_def)
  have "(ring_mbuf r)[unat (ucast ?pc :: 8 word) := Some (mb_id m)] ! i = pendAt ?cc (ids @ [mb_id m]) i" if "i < 256" for i
    using w(2) w(4) [OF that] that pendAt_snoc [OF len that, of ?cc "mb_id m"] unfolding w(3) by (auto simp: nth_list_update)
  then have pend: "txPending (?s b pool) (ids @ [mb_id m])"
    using w len by (simp add: txPending_def add.assoc [symmetric])
  have view: "txView (txSent m r bytes e) = txView (?s b pool)"
    unfolding sent by simp
  have "txPending (txSent m r bytes e) (ids @ [mb_id m])" using pend view_pending [OF view] by blast
  moreover have "freedMbufs (eLog (txSent m r bytes e)) = freedMbufs (eLog e)" using view by (simp add: txView_def)
  ultimately show ?thesis ..
qed

lemma sent_pc: "tx_pc (eTx (txSent m r bytes e)) = tx_pc (eTx e) + 1"
  by (simp add: txSent_def Let_def ringWriteDb_def writeDb_def setUar_def ethLog_def updTx_def split: option.split)

lemma pending_room: "txPending e ids \<Longrightarrow> unat (tx_pc (eTx e) - tx_cc (eTx e)) = length ids"
  by (auto simp: txPending_def) (rule unat_of_nat_small, simp)

lemma output_pending:
  assumes p: "txPending e ids" and f: "outputPacket (Some m) e = (kr, e')"
  shows "if kr = kIOReturnOutputSuccess
    then if tx_pc (eTx e') = tx_pc (eTx e)
      then txPending e' ids \<and> freedMbufs (eLog e') = freedMbufs (eLog e) @ [mb_id m]
      else length ids < 256 \<and> txPending e' (ids @ [mb_id m]) \<and> freedMbufs (eLog e') = freedMbufs (eLog e)
    else e' = e"
proof -
  obtain k e1 where x: "xmitPacket m e = (k, e1)" by fastforce
  show ?thesis
  proof (cases "\<not> eEnabled e \<or> eTxRing e = None \<or> tx_sqn (eTx e) = MLX5E_INVALID_RESOURCE")
    case True
    then show ?thesis using f by (auto simp: outputPacket_def)
  next
    case False
    then have k: "kr = (if k \<noteq> kIOReturnSuccess then kIOReturnOutputStall else kIOReturnOutputSuccess)" "e' = e1"
      using f x by (auto simp: outputPacket_def)
    from x show ?thesis
    proof (cases rule: xmit_cases)
      case 1
      then show ?thesis using k by simp
    next
      case 2
      then show ?thesis using k p by (simp add: txPending_def ethLog_def)
    next
      case (3 r)
      then show ?thesis using k p by (simp add: txPending_def ethLog_def setTxWqe_def)
    next
      case (4 r bytes)
      then show ?thesis using k p by (simp add: txPending_def ethLog_def setTxWqe_def updTx_def)
    next
      case (5 r bytes)
      have "ring_size r = 256" using p 5 by (auto simp: txPending_def)
      then have "length ids < 256" using 5 pending_room [OF p] by (simp add: word_less_nat_alt)
      moreover note sent_pending [OF p this 5(2), of m bytes]
      moreover have "tx_pc (eTx e1) \<noteq> tx_pc (eTx e)" unfolding 5 sent_pc by simp
      ultimately show ?thesis using 5 k by simp
    qed
  qed
qed

lemma poll_pending:
  assumes p: "txPending e ids" and pub: "txPublished cqes 0 ns (tx_cqCc (eTx e)) (tx_cc (eTx e))" "sum_list ns \<le> length ids"
    and cq: "tx_cqBuf (eTx e)"
  shows "\<exists>e'. pollTxCq cqes e = Some e' \<and> txPending e' (drop (sum_list ns) ids) \<and>
    freedMbufs (eLog e') = freedMbufs (eLog e) @ take (sum_list ns) ids \<and>
    tx_cc (eTx e') = tx_cc (eTx e) + of_nat (sum_list ns) \<and> tx_cqCc (eTx e') = tx_cqCc (eTx e) + of_nat (length ns)"
proof -
  obtain e1 ro where l: "txPollLoop cqes 0 e = Some e1" "txPending e1 (drop (sum_list ns) ids)"
    "e1 = e\<lparr>eLog := eLog e @ map FreeMbuf (take (sum_list ns) ids), eTxRing := ro,
       eTx := (eTx e)\<lparr>tx_cc := tx_cc (eTx e) + of_nat (sum_list ns), tx_cqCc := tx_cqCc (eTx e) + of_nat (length ns)\<rparr>\<rparr>"
    using txPollLoop_done [OF p pub] by blast
  let ?e = "ethLog ServiceQueue (armTxCq (ethUpdateCq (tx_cqDbOffset (eTx e1)) (tx_cqCc (eTx e1)) e1))"
  have "eTxRing e \<noteq> None" using p by (auto simp: txPending_def)
  then have "pollTxCq cqes e = Some ?e" using l(1) cq by (auto simp: pollTxCq_def)
  moreover have v: "txView ?e = txView e1" by (simp add: armTxCq_def)
  moreover have "freedMbufs (eLog e1) = freedMbufs (eLog e) @ take (sum_list ns) ids" by (simp add: l(3))
  ultimately show ?thesis using l(2) view_pending [OF v] by (intro exI [of _ ?e]) (simp add: txView_def l(3))
qed

section \<open>Steps that leave the queue alone\<close>

definition txQueue :: "'w MlxEthernet \<Rightarrow> _" where
  "txQueue e = (tx_pc (eTx e), tx_cc (eTx e), map_option (\<lambda>r. (ring_size r, ring_mbuf r)) (eTxRing e), freedMbufs (eLog e))"

lemma queue_pending:
  assumes "txQueue e' = txQueue e" shows "txPending e' ids = txPending e ids"
proof -
  have "map_option (\<lambda>r. (ring_size r, ring_mbuf r)) (eTxRing e') = map_option (\<lambda>r. (ring_size r, ring_mbuf r)) (eTxRing e)"
    using assms by (simp add: txQueue_def)
  then show ?thesis using assms
    by (cases "eTxRing e"; cases "eTxRing e'") (simp_all add: txPending_def txQueue_def)
qed

definition ethKeeps :: "('w MlxEthernet \<Rightarrow> 'b) \<Rightarrow> 'w ethStep \<Rightarrow> bool" where
  "ethKeeps K f \<longleftrightarrow> (\<forall>e. K (snd (f e)) = K e)"

lemma keepsD: "ethKeeps K f \<Longrightarrow> f e = (kr, e') \<Longrightarrow> K e' = K e"
  by (metis ethKeeps_def snd_conv)

lemma keeps_run: "\<forall>f \<in> set fs. ethKeeps K f \<Longrightarrow> ethKeeps K (ethRun fs)"
proof (induction fs)
  case (Cons f fs)
  then have k: "ethKeeps K f" "ethKeeps K (ethRun fs)" by simp_all
  have "K (snd (ethRun (f # fs) e)) = K e" for e
  proof -
    obtain kr e1 where x: "f e = (kr, e1)" by fastforce
    show ?thesis using keepsD [OF k(1) x] k(2) by (simp add: x ethKeeps_def)
  qed
  then show ?case by (simp add: ethKeeps_def)
qed (simp add: ethKeeps_def)

lemma keeps_do: "(\<And>e. K (f e) = K e) \<Longrightarrow> ethKeeps K (ethDo f)"
  by (simp add: ethKeeps_def ethDo_def)

definition cmdBlind :: "('w MlxEthernet \<Rightarrow> 'b) \<Rightarrow> bool" where
  "cmdBlind K \<longleftrightarrow> (\<forall>e co. K (e\<lparr>eCo := co\<rparr>) = K e)"

lemma blind_exec: "cmdBlind K \<Longrightarrow> ethExec xc opc inb n e = (kr, out, e') \<Longrightarrow> K e' = K e"
  using ethExec_cmd [of xc opc inb n e kr out e'] by (auto simp: cmdBlind_def)

lemma keeps_cmds:
  assumes "cmdBlind K"
  shows "(\<And>x e. K (store x e) = K e) \<Longrightarrow> ethKeeps K (ethCreate xc opc inb store)"
    and "(\<And>e. K (upd e) = K e) \<Longrightarrow> ethKeeps K (ethFlag xc opc inb upd)"
    and "(\<And>e. K (upd e) = K e) \<Longrightarrow> ethKeeps K (ethDestroy xc opc ident upd)"
    and "ethKeeps K (cmdModifySqReady xc)"
  using blind_exec [OF assms]
  by (auto simp: ethKeeps_def ethCreate_def ethFlag_def ethDestroy_def cmdDestroyObject_def cmdModifySqReady_def split: prod.split)

definition txFreed :: "'w MlxEthernet \<Rightarrow> nat list" where
  "txFreed e = freedMbufs (eLog e)"

lemma blind: "cmdBlind txQueue" "cmdBlind txFreed"
  by (simp_all add: cmdBlind_def txQueue_def txFreed_def)

lemma queue_simps [simp]:
  "txQueue (setUar u e) = txQueue e" "txQueue (ethFreeMem m e) = txQueue e" "txFreed (setUar u e) = txFreed e"
  "txFreed (ethFreeMem m e) = txFreed e" "txFreed (updTx f e) = txFreed e" "txFreed (updRx g e) = txFreed e"
  "txQueue (updRx g e) = txQueue e" "txFreed (e\<lparr>eTxRing := ro\<rparr>) = txFreed e" "txFreed (e\<lparr>eRxRing := ro\<rparr>) = txFreed e"
  "txQueue (e\<lparr>eRxRing := ro\<rparr>) = txQueue e" "txQueue (e\<lparr>eNext := n, eLive := l\<rparr>) = txQueue e"
  by (simp_all add: setUar_def ethFreeMem_eq txQueue_def txFreed_def updTx_def updRx_def)

lemma queue_updTx:
  "(\<And>t. tx_pc (f t) = tx_pc t) \<Longrightarrow> (\<And>t. tx_cc (f t) = tx_cc t) \<Longrightarrow> txQueue (updTx f e) = txQueue e"
  by (simp add: txQueue_def updTx_def)

lemma queue_freed: "txQueue e' = txQueue e \<Longrightarrow> txFreed e' = txFreed e"
  by (simp add: txQueue_def txFreed_def)

lemma keeps_flow: "ethKeeps txQueue (destroyRxFlowSteering xc)"
proof -
  have f: "ethKeeps txQueue (ethFlag xc opc inb upd)" if "\<And>e. txQueue (upd e) = txQueue e" for opc inb upd
    by (rule keeps_cmds(2) [OF blind(1)]) (rule that)
  have "ethKeeps txQueue (flowUnroot xc)" "ethKeeps txQueue (flowDelEntry xc)" "ethKeeps txQueue (flowDelGroup xc)" "ethKeeps txQueue (flowDelTable xc)"
    using f by (simp_all add: ethKeeps_def flowUnroot_def flowDelEntry_def flowDelGroup_def flowDelTable_def txQueue_def)
  then show ?thesis unfolding destroyRxFlowSteering_def by (intro keeps_run) simp
qed

lemma keeps_rx: "ethKeeps txQueue (destroyRxResources xc)"
proof -
  have "ethKeeps txQueue (ethDestroy xc opc ident (updRx g))" for opc ident g by (rule keeps_cmds(3) [OF blind(1)]) simp
  moreover have "ethKeeps txQueue (ethDo rxFreePool)" "ethKeeps txQueue (ethDo rxFreeDb)" "ethKeeps txQueue (ethDo rxFreeCq)"
    "ethKeeps txQueue (ethDo rxFreeCqDb)" "ethKeeps txQueue (ethDo rxResetCounters)"
    by (rule keeps_do, simp add: rxFreePool_def rxFreeDb_def rxFreeCq_def rxFreeCqDb_def rxResetCounters_def)+
  ultimately show ?thesis unfolding destroyRxResources_def by (intro keeps_run) simp
qed

section \<open>After \<open>enable\<close>\<close>

lemma clear_ring:
  assumes "length (ring_mbuf r) = 256" and "n \<le> 256"
  shows "\<exists>l. foldl (\<lambda>r i. clearWqeMbuf i r) r [0..<n] = r\<lparr>ring_mbuf := l\<rparr> \<and> length l = 256 \<and> (\<forall>i < n. l ! i = None)"
  using assms(2)
proof (induction n)
  case 0
  show ?case using assms(1) by (intro exI [of _ "ring_mbuf r"]) simp
next
  case (Suc n)
  then obtain l where l: "foldl (\<lambda>r i. clearWqeMbuf i r) r [0..<n] = r\<lparr>ring_mbuf := l\<rparr>" "length l = 256" "\<forall>i < n. l ! i = None"
    by auto
  then show ?case using Suc.prems
    by (intro exI [of _ "l[n := None]"]) (auto simp: clearWqeMbuf_def setWqeMbuf_def nth_list_update)
qed

definition ringDims :: "MlxEthRing option \<Rightarrow> bool" where
  "ringDims ro \<longleftrightarrow> (\<exists>r. ro = Some r \<and> ring_size r = 256 \<and> ring_wqebb r = 64 \<and> length (ring_mbuf r) = 256)"

lemma ringDims_rest: "ringRest a = ringRest b \<Longrightarrow> ringDims a = ringDims b"
  by (cases a; cases b) (auto simp: ringRest_def ringDims_def)

lemma createTx_fresh:
  fixes e :: "'a MlxEthernet"
  assumes d: "ringDims (eTxRing e)" and f: "createTxResources xc caps env e = (kIOReturnSuccess, e')"
  shows "txPending e' []"
proof -
  obtain r where r: "eTxRing e = Some r" "ring_size r = 256" "length (ring_mbuf r) = 256" using d by (auto simp: ringDims_def)
  obtain l where l: "foldl (\<lambda>r i. clearWqeMbuf i r) r [0..<256] = r\<lparr>ring_mbuf := l\<rparr>" "length l = 256" "\<forall>i < 256. l ! i = None"
    using clear_ring [OF r(3), of 256] by auto
  let ?e0 = "txClearRing (txResetCounters e)"
  have e0: "?e0 = (txResetCounters e)\<lparr>eTxRing := Some (r\<lparr>ring_mbuf := l\<rparr>)\<rparr>"
    using r(1) l(1) by (simp add: txClearRing_def txResetCounters_def updTx_def MLX5E_DEFAULT_LOG_SQ_SIZE_def)
  have p0: "txPending ?e0 []" unfolding e0 using r l(2,3) by (simp add: txPending_def txResetCounters_def updTx_def pendAt_def)
  obtain k m e1 where al: "ethAllocMem (enTxPool env) ?e0 = (k, m, e1)" by (metis prod_cases3)
  then have q1: "txQueue e1 = txQueue ?e0" by (auto simp: ethAllocMem_def Let_def split: prod.splits if_splits)
  let ?e2 = "updTx (\<lambda>t. t\<lparr>tx_buf := m, tx_pool := replicate (2 ^ MLX5E_DEFAULT_LOG_SQ_SIZE * MLX5E_TX_BUF_SIZE) 0\<rparr>) e1"
  let ?fs = "[cmdCreateTis xc, txCreateCq xc env, cmdCreateSq xc, txAllocBf caps, cmdModifySqReady xc]"
  obtain k3 e3 where x3: "ethRun ?fs ?e2 = (k3, e3)" by fastforce
  have e': "e' = e3" using f al x3 unfolding createTxResources_def by (auto simp: Let_def simp del: ethRun.simps split: if_splits)
  have "ethKeeps txQueue (txCreateCq xc env)"
  proof -
    have "txQueue e' = txQueue e" if "cmdCreateCq xc en lg (\<lambda>cqn mem off. updTx (\<lambda>t. t\<lparr>tx_cqn := cqn, tx_cqBuf := True, tx_cq := mem, tx_cqDbOffset := off\<rparr>)) e = (kr, e')"
      for en lg kr and e e' :: "'a MlxEthernet"
    proof -
      obtain k m e1 where al: "ethAllocMem en e = (k, m, e1)" by (metis prod_cases3)
      have q1: "txQueue e1 = txQueue e" using al by (auto simp: ethAllocMem_def Let_def split: prod.splits if_splits)
      show ?thesis using that al q1
        by (auto simp: cmdCreateCq_def Let_def queue_updTx split: prod.splits if_splits dest!: blind_exec [OF blind(1)])
    qed
    then show ?thesis unfolding ethKeeps_def txCreateCq_def by (metis prod.collapse)
  qed
  moreover have "ethKeeps txQueue (cmdCreateSq xc)"
    unfolding ethKeeps_def
  proof
    fix e :: "'a MlxEthernet"
    show "txQueue (snd (cmdCreateSq xc e)) = txQueue e"
    proof (cases "\<exists>r. eTxRing e = Some r \<and> ring_wqBuf r \<noteq> None \<and> em_dma (ring_mem r) \<noteq> 0")
      case False
      then show ?thesis by (auto simp: cmdCreateSq_def split: option.split)
    next
      case True
      then obtain r where r: "eTxRing e = Some r" "ring_wqBuf r \<noteq> None" "em_dma (ring_mem r) \<noteq> 0" by blast
      obtain k offo uar where db: "allocDbSlots 2 (ethUar e) = (k, offo, uar)" by (metis prod_cases3)
      let ?in = "ethSqInput (eTxMinInlineMode e) (tx_cqn (eTx e)) (tx_tisn (eTx e)) (ePd e) (fBootIndex uar)
        (fDbRecordDMA uar + ucast (case offo of Some x \<Rightarrow> x | None \<Rightarrow> 0)) (em_dma (ring_mem r))"
      obtain k3 out e3 where x: "ethExec xc MLX_CMD_OP_CREATE_SQ ?in 16 (setUar uar e) = (k3, out, e3)" by (metis prod_cases3)
      have q3: "txQueue e3 = txQueue e" using blind_exec [OF blind(1) x] by simp
      have r3: "eTxRing e3 = Some r" using ethExec_cmd [OF x] r(1) by (auto simp: setUar_def)
      have ring: "txQueue ((updTx (\<lambda>t. t\<lparr>tx_sqn := a, tx_dbOffset := b\<rparr>) e3)
          \<lparr>eTxRing := Some (r\<lparr>ring_db := i, ring_dbDMA := v\<rparr>)\<rparr>) = txQueue e" for a b i v
        using q3 r3 by (simp add: txQueue_def updTx_def)
      show ?thesis using r db x [unfolded setUar_def] q3 ring blind(1) by (auto simp: cmdCreateSq_def Let_def setUar_def cmdBlind_def)
    qed
  qed
  moreover have "ethKeeps txQueue (txAllocBf caps :: 'a ethStep)"
    by (auto simp: ethKeeps_def txAllocBf_def Let_def queue_updTx split: prod.split)
  moreover have "ethKeeps txQueue (cmdCreateTis xc)"
    unfolding cmdCreateTis_def by (rule keeps_cmds(1) [OF blind(1)]) (simp add: queue_updTx)
  ultimately have "ethKeeps txQueue (ethRun ?fs)" using keeps_cmds(4) [OF blind(1)] by (intro keeps_run) simp
  from keepsD [OF this x3] q1 have "txQueue e' = txQueue ?e0" unfolding e' by (simp add: queue_updTx)
  then show ?thesis using p0 queue_pending by blast
qed

lemma run_all:
  assumes "ethRun (f # fs) e = (kIOReturnSuccess, e')"
  obtains e1 where "f e = (kIOReturnSuccess, e1)" "ethRun fs e1 = (kIOReturnSuccess, e')"
  using assms by (auto split: prod.splits if_splits)

lemma refresh_view [simp]: "txView (refreshLink xc e) = txView e"
proof -
  obtain kr out e1 where x: "ethExec xc MLX_CMD_OP_QUERY_VPORT_STATE (ethInput 16 MLX_CMD_OP_QUERY_VPORT_STATE [(0x30, 16, 0)]) 16 e
    = (kr, out, e1)" by (metis prod_cases3)
  then have "txView e1 = txView e" using ethExec_cmd [OF x] by (auto simp: txView_def)
  then show ?thesis using x by (simp add: refreshLink_def queryLinkState_def setLinkState_def) (simp add: txView_def)
qed

lemma enable_fresh:
  assumes bf: "ucLogBfRegSize caps \<le> 30" and i: "ethInv caps O' B e"
    and off: "\<not> eEnabled e" "\<not> alive (ePd e)" and d: "ringDims (eTxRing e)"
    and f: "ethEnable xc caps env me e = (kIOReturnSuccess, e')"
  shows "txPending e' []"
proof -
  have r2: "ethRest2 caps O' B e" and g: "\<not> eEnabling e" "\<not> eDisabling e" "eCore e" "eEq e \<noteq> None"
    and h: "ringHeld (eTxRing e)" "ringHeld (eRxRing e)" using i by (simp_all add: ethInv_def)
  have idle: "partsIdle e" "globIdle e" using dead_idle [OF r2 off(2)] by simp_all
  let ?e0 = "e\<lparr>eEnabling := True\<rparr>"
  obtain k1 e1 where x1: "allocGlobalResources xc ?e0 = (k1, e1)" by fastforce
  obtain k2 e2 where x2: "ethRun [createTxResources xc caps env, createRxResources xc env, notifierOn me, createRxFlowSteering xc] e1 = (k2, e2)"
    by fastforce
  have ok: "k1 = kIOReturnSuccess" "k2 = kIOReturnSuccess" and e': "e' = refreshLink xc (e2\<lparr>eEnabled := True, eEnabling := False\<rparr>)"
    using f x1 x2 off idle g unfolding ethEnable_def ethEnableFail_def
    by (auto simp: globIdle_def partsIdle_def flowIdle_def txIdle_def rxIdle_def simp del: ethRun.simps split: if_splits)
  have "ethBase caps O' B ?e0" "partsIdle ?e0" "globIdle ?e0"
    using r2 idle by (simp_all add: ethRest2_def partsIdle_def flowIdle_def globIdle_def)
  note s1 = allocGlobal_spec [OF this x1]
  then have r1: "eTxRing e1 = eTxRing e" "eRxRing e1 = eRxRing e" "eEq e1 = eEq e" by (simp_all add: globRest_def)
  obtain a where xa: "createTxResources xc caps env e1 = (kIOReturnSuccess, a)"
    and ra: "ethRun [createRxResources xc env, notifierOn me, createRxFlowSteering xc] a = (kIOReturnSuccess, e2)"
    using run_all x2 ok(2) by metis
  obtain b where xb: "createRxResources xc env a = (kIOReturnSuccess, b)"
    and rb: "ethRun [notifierOn me, createRxFlowSteering xc] b = (kIOReturnSuccess, e2)" using run_all ra by metis
  obtain c where xc: "notifierOn me b = (kIOReturnSuccess, c)" and rc: "ethRun [createRxFlowSteering xc] c = (kIOReturnSuccess, e2)"
    using run_all rb by metis
  obtain z where xz: "createRxFlowSteering xc c = (kIOReturnSuccess, z)" and "ethRun [] z = (kIOReturnSuccess, e2)"
    using run_all rc by metis
  then have z: "z = e2" by simp
  have idle1: "txIdle (eTx e1)" "rxIdle (eRx e1)" "flowIdle e1" "alive (ePd e1)" "alive (eTd e1)" "alive (eMkeyIndex e1)"
    using s1 ok(1) by (simp_all add: partsIdle_def)
  have pa: "txPending a []" by (rule createTx_fresh [OF _ xa]) (simp add: r1 d)
  have "txEnv e1" using idle1 h r1 by (simp add: txEnv_def)
  note sa = createTx_spec [OF bf conjunct1 [OF s1] idle1(1) this xa]
  then have ra': "eRx a = eRx e1" "eRxRing a = eRxRing e1" "ePd a = ePd e1" "eTd a = eTd e1" "eMkeyIndex a = eMkeyIndex e1"
    "flowIdle a = flowIdle e1" "eEq a = eEq e1" by (simp_all add: txRest_def flowIdle_def)
  have ea: "rxIdle (eRx a)" "rxEnv a" "\<not> eFlowEntryValid a"
    using idle1 ra' h r1 by (simp_all add: rxEnv_def flowIdle_def)
  note sb = createRx_spec [OF conjunct1 [OF sa] ea xb]
  then have vb: "eTx b = eTx a" "eTxRing b = eTxRing a" "flowIdle b = flowIdle a" "ePd b = ePd a" "eEq b = eEq a"
    by (simp_all add: rxRest_def flowIdle_def)
  have eqb: "eEq b \<noteq> None" using vb ra' r1 g by simp
  note sc = notifierOn_spec [OF conjunct1 [OF sb] xc eqb]
  obtain q where q: "eEq b = Some q" using eqb by auto
  have vc: "txView c = txView b" using xc q by (auto simp: notifierOn_def armTxCq_def armRxCq_def) (simp add: txView_def)
  have "ethBase caps O' B c" "flowIdle c" "alive (rx_tirn (eRx c))" "alive (ePd c)"
    using sc vb ra' idle1 sb by (simp_all add: rxUp_def)
  note sz = createFlow_spec [OF this xz]
  then have "eTx e2 = eTx c" "eTxRing e2 = eTxRing c" by (simp_all add: flowRest_def z)
  then have "txPending e2 []" using pa vb vc by (simp add: txView_def txPending_def)
  moreover have "txView e' = txView (e2\<lparr>eEnabled := True, eEnabling := False\<rparr>)" unfolding e' by simp
  ultimately show ?thesis by (simp add: txView_def txPending_def)
qed

section \<open>Tearing down\<close>

definition somes :: "nat option list \<Rightarrow> nat list" where
  "somes l = concat (map (\<lambda>x. case x of None \<Rightarrow> [] | Some m \<Rightarrow> [m]) l)"

lemma somes_update: "i < length l \<Longrightarrow> l ! i = Some x \<Longrightarrow> mset (somes l) = add_mset x (mset (somes (l[i := None])))"
proof (induction l arbitrary: i)
  case (Cons a l)
  then show ?case by (cases i) (auto simp: somes_def)
qed simp

lemma pend_mset:
  assumes "length l = 256" and "length ids \<le> 256" and "\<And>i. i < 256 \<Longrightarrow> l ! i = pendAt cc ids i"
  shows "mset (somes l) = mset ids"
  using assms
proof (induction ids arbitrary: l cc)
  case Nil
  then have "\<forall>x \<in> set l. x = None" by (auto simp: in_set_conv_nth pendAt_def)
  then show ?case by (auto simp: somes_def)
next
  case (Cons x ids)
  let ?i = "unat (ucast cc :: 8 word)"
  have i: "?i < 256" by (simp add: byte_unat)
  have "mset (somes (l[?i := None])) = mset ids"
    by (rule Cons.IH [of _ "cc + 1"])
      (use Cons.prems pendAt_tl [of ids _ cc x] in \<open>auto simp: nth_list_update\<close>)
  moreover have "l ! ?i = Some x" using Cons.prems(3) [OF i] by (simp add: pendAt_hd)
  ultimately show ?case using somes_update [of ?i l x] i Cons.prems(1) by simp
qed

lemma free_slots:
  assumes "eTxRing e = Some r" "length (ring_mbuf r) = 256" and "n \<le> 256"
  shows "\<exists>e'. foldl (\<lambda>e i. txFreeSlot i e) e [0..<n] = e' \<and>
    txFreed e' = txFreed e @ somes (take n (ring_mbuf r)) \<and>
    (\<exists>l. eTxRing e' = Some (r\<lparr>ring_mbuf := l\<rparr>) \<and> length l = 256 \<and> drop n l = drop n (ring_mbuf r))"
  using assms(3)
proof (induction n)
  case 0
  show ?case using assms(1,2) by (auto simp: somes_def intro!: exI [of _ "ring_mbuf r"])
next
  case (Suc n)
  then obtain e' l where e': "foldl (\<lambda>e i. txFreeSlot i e) e [0..<n] = e'" "txFreed e' = txFreed e @ somes (take n (ring_mbuf r))"
    "eTxRing e' = Some (r\<lparr>ring_mbuf := l\<rparr>)" "length l = 256" "drop n l = drop n (ring_mbuf r)" by auto
  have n: "n < 256" "l ! n = ring_mbuf r ! n"
    using Suc.prems e'(4,5) assms(2) by (simp, metis Cons_nth_drop_Suc Suc_le_lessD list.inject)
  have dn: "drop (Suc n) l = drop (Suc n) (ring_mbuf r)" using e'(5) by (metis drop_Suc tl_drop)
  have tk: "somes (take (Suc n) (ring_mbuf r)) = somes (take n (ring_mbuf r)) @ (case ring_mbuf r ! n of None \<Rightarrow> [] | Some m \<Rightarrow> [m])"
    using n(1) assms(2) by (simp add: take_Suc_conv_app_nth somes_def)
  show ?case
  proof (cases "l ! n")
    case None
    then have "txFreeSlot n e' = e'" using e'(3) n(1) by (simp add: txFreeSlot_def getWqeMbuf_def)
    then show ?thesis using e' tk n(2) None dn by auto
  next
    case (Some m)
    then have "txFreeSlot n e' = (ethLog (FreeMbuf m) e')\<lparr>eTxRing := Some (r\<lparr>ring_mbuf := l[n := None]\<rparr>)\<rparr>"
      using e'(3) n(1) by (simp add: txFreeSlot_def getWqeMbuf_def clearWqeMbuf_def setWqeMbuf_def)
    moreover have "ring_mbuf r ! n = Some m" using Some n(2) by simp
    moreover have "drop (Suc n) (l[n := None]) = drop (Suc n) (ring_mbuf r)" using dn by simp
    ultimately show ?thesis using e' tk
      by (intro exI [of _ "txFreeSlot n e'"]) (auto simp: txFreed_def ethLog_def intro!: exI [of _ "l[n := None]"])
  qed
qed

lemma freeMbufs_all:
  assumes "txPending e ids" shows "mset (txFreed (txFreeMbufs e)) = mset (txFreed e) + mset ids"
proof -
  obtain r where r: "eTxRing e = Some r" "length (ring_mbuf r) = 256" "length ids \<le> 256"
    "\<And>i. i < 256 \<Longrightarrow> ring_mbuf r ! i = pendAt (tx_cc (eTx e)) ids i" using assms by (auto simp: txPending_def)
  obtain e' where "foldl (\<lambda>e i. txFreeSlot i e) e [0..<256] = e'" "txFreed e' = txFreed e @ somes (take 256 (ring_mbuf r))"
    using free_slots [OF r(1,2), of 256] by auto
  then show ?thesis using pend_mset [OF r(2-4)] r(2) by (simp add: txFreeMbufs_def MLX5E_DEFAULT_LOG_SQ_SIZE_def)
qed

lemma destroyTx_frees:
  fixes e :: "'a MlxEthernet"
  assumes p: "txPending e ids" and f: "destroyTxResources xc caps e = (kIOReturnSuccess, e')"
  shows "mset (txFreed e') = mset (txFreed e) + mset ids"
proof -
  define rest :: "'a ethStep list" where "rest = [ethDo txFreePool, ethDo txFreeDb, ethDo (txFreeBf caps),
      ethDestroy xc MLX_CMD_OP_DESTROY_CQ (\<lambda>e. tx_cqn (eTx e)) (updTx (\<lambda>t. t\<lparr>tx_cqn := MLX5E_INVALID_RESOURCE\<rparr>)),
      ethDo txFreeCq, ethDo txFreeCqDb,
      ethDestroy xc MLX_CMD_OP_DESTROY_TIS (\<lambda>e. tx_tisn (eTx e)) (updTx (\<lambda>t. t\<lparr>tx_tisn := MLX5E_INVALID_RESOURCE\<rparr>)),
      ethDo txResetCounters]"
  obtain e1 where x1: "ethDestroy xc MLX_CMD_OP_DESTROY_SQ (\<lambda>e. tx_sqn (eTx e)) (updTx (\<lambda>t. t\<lparr>tx_sqn := MLX5E_INVALID_RESOURCE\<rparr>)) e
      = (kIOReturnSuccess, e1)" and r1: "ethRun (ethDo txFreeMbufs # rest) e1 = (kIOReturnSuccess, e')"
    using f unfolding destroyTxResources_def rest_def by (rule run_all)
  have "ethKeeps txQueue (ethDestroy xc MLX_CMD_OP_DESTROY_SQ (\<lambda>e. tx_sqn (eTx e)) (updTx (\<lambda>t. t\<lparr>tx_sqn := MLX5E_INVALID_RESOURCE\<rparr>)))"
    by (rule keeps_cmds(3) [OF blind(1)]) (simp add: queue_updTx)
  from keepsD [OF this x1] have q1: "txQueue e1 = txQueue e" .
  have x2: "ethRun rest (txFreeMbufs e1) = (kIOReturnSuccess, e')"
    using run_all [OF r1] by (metis (no_types, lifting) ethDo_def prod.inject)
  have des: "ethKeeps txFreed (ethDestroy xc opc ident (updTx g))" for opc ident g by (rule keeps_cmds(3) [OF blind(2)]) simp
  have "ethKeeps txFreed (ethDo txFreePool :: 'a ethStep)" "ethKeeps txFreed (ethDo txFreeDb :: 'a ethStep)"
    "ethKeeps txFreed (ethDo (txFreeBf caps) :: 'a ethStep)" "ethKeeps txFreed (ethDo txFreeCq :: 'a ethStep)"
    "ethKeeps txFreed (ethDo txFreeCqDb :: 'a ethStep)" "ethKeeps txFreed (ethDo txResetCounters :: 'a ethStep)"
    by (rule keeps_do, simp add: txFreePool_def txFreeDb_def txFreeBf_def txFreeCq_def txFreeCqDb_def txResetCounters_def)+
  then have "ethKeeps txFreed (ethRun rest)" unfolding rest_def using des by (intro keeps_run) simp
  from keepsD [OF this x2] have "txFreed e' = txFreed (txFreeMbufs e1)" .
  moreover have "mset (txFreed (txFreeMbufs e1)) = mset (txFreed e1) + mset ids"
    using freeMbufs_all p queue_pending [OF q1] by blast
  ultimately show ?thesis using queue_freed [OF q1] by simp
qed

lemma disable_frees:
  fixes e :: "'a MlxEthernet"
  assumes p: "txPending e ids" and f: "ethDisable xc caps me e = (kIOReturnSuccess, e')"
  shows "mset (txFreed e') = mset (txFreed e) + mset ids"
proof -
  let ?a = "notifierOff me (setLinkState False 0 (e\<lparr>eDisabling := True, eEnabled := False\<rparr>))"
  have off: "txQueue (notifierOff me d) = txQueue d" for d :: "'a MlxEthernet"
    by (simp add: notifierOff_def txQueue_def split: option.split)
  have qa: "txQueue ?a = txQueue e" by (simp add: off setLinkState_def) (simp add: ethLog_def txQueue_def)
  obtain fk b where xb: "destroyRxFlowSteering xc ?a = (fk, b)" by fastforce
  obtain rk c where xc: "(if fk = kIOReturnSuccess then destroyRxResources xc b else (fk, b)) = (rk, c)" by fastforce
  obtain tk d where xd: "destroyTxResources xc caps c = (tk, d)" by fastforce
  obtain k g where xg: "deallocGlobalResources xc d = (k, g)" by fastforce
  have ok: "fk = kIOReturnSuccess" "rk = kIOReturnSuccess" "tk = kIOReturnSuccess" "e' = g\<lparr>eDisabling := False\<rparr>"
    using f xb xc xd xg unfolding ethDisable_def destroyAllResources_def by (auto split: if_splits)
  have qc: "txQueue c = txQueue e"
    using keepsD [OF keeps_flow xb] keepsD [OF keeps_rx, of xc b rk c] xc ok(1) qa by simp
  have des: "ethKeeps txFreed (ethDestroy xc opc ident upd)" if "\<And>e. txFreed (upd e) = txFreed e"
    for opc ident and upd :: "'a MlxEthernet \<Rightarrow> 'a MlxEthernet"
    by (rule keeps_cmds(3) [OF blind(2)]) (rule that)
  have "ethKeeps txFreed (deallocGlobalResources xc)"
    unfolding deallocGlobalResources_def by (rule keeps_run) (auto intro!: des simp: txFreed_def)
  from keepsD [OF this xg] have "txFreed e' = txFreed d" unfolding ok(4) by (simp add: txFreed_def)
  moreover have "txPending c ids" using p queue_pending [OF qc] by blast
  ultimately show ?thesis using destroyTx_frees [of c ids] xd ok(3) queue_freed [OF qc] by simp
qed

section \<open>Every run of the data path\<close>

lemma view_rx [simp]:
  "txView (updRx f e) = txView e" "txView (e\<lparr>eRxRing := ro\<rparr>) = txView e" "txView (receivePacket p len e) = txView e"
  "txView (rxDoorbell e) = txView e"
proof -
  show "txView (e\<lparr>eRxRing := ro\<rparr>) = txView e" "txView (updRx f e) = txView e" by (simp_all add: txView_def updRx_def)
  show "txView (receivePacket p len e) = txView e" by (simp add: receivePacket_def)
  show "txView (rxDoorbell e) = txView e" by (simp add: rxDoorbell_def split: option.split)
qed

lemma view_handleRx: "txView (handleRxCqe mb slot cqe e) = txView e"
proof -
  obtain kr e1 where p: "postRxWqe (unat (rx_pc (eRx e) AND 255)) e = (kr, e1)" by fastforce
  then have "txView e1 = txView e" by (auto simp: postRxWqe_def split: option.splits if_splits)
  then show ?thesis by (simp add: handleRxCqe_def Let_def p split: option.split)
qed

lemma view_rxPoll:
  assumes "rxPollLoop cqes slots mb i e = Some e'" shows "txView e' = txView e"
proof (rule rxPollLoop.raw_induct [where P = "\<lambda>cqes slots mb i e e'. txView e' = txView e", OF _ assms], goal_cases)
  case (1 loop cqes slots mb i e e')
  from 1(2) show ?case by (auto simp: Let_def view_handleRx split: if_splits dest: 1(1))
qed

text \<open>The events that make the driver poll the send completions.\<close>

definition txEvent :: "u32 \<Rightarrow> MlxEqe option \<Rightarrow> 'w MlxEthernet \<Rightarrow> bool" where
  "txEvent type eqe e \<longleftrightarrow> type = ucast MLX_EVENT_TYPE_COMPLETION \<and>
     (\<exists>q. eqe = Some q \<and> eqe_data q ! 6 AND 0xFFFFFF = tx_cqn (eTx e))"

lemma event_types: "(ucast MLX_EVENT_TYPE_COMPLETION :: u32) \<noteq> ucast MLX_EVENT_TYPE_PORT_STATE_CHANGE"
  by (simp add: MLX_EVENT_TYPE_COMPLETION_def MLX_EVENT_TYPE_PORT_STATE_CHANGE_def)

lemma other_event:
  assumes "ethHandleEvent xc cqes slots mb type eqe e = Some e'" and "\<not> txEvent type eqe e"
  shows "txView e' = txView e"
  using assms
  by (auto simp: ethHandleEvent_def txEvent_def Let_def pollRxCq_def armRxCq_def split: if_splits option.splits dest!: view_rxPoll)

lemma tx_event:
  assumes "txEvent type eqe e"
  shows "ethHandleEvent xc cqes slots mb type eqe e = pollTxCq cqes (updTx (\<lambda>t. t\<lparr>tx_armSn := tx_armSn t + 1\<rparr>) e)"
  using assms event_types by (auto simp: ethHandleEvent_def txEvent_def Let_def)

text \<open>
  \<open>txRun xc e S Q n d\<close>: from \<open>e\<close>, by packets of the stack and events in any order, to \<open>d\<close>. \<open>S\<close>
  are the packets the driver accepted, \<open>Q\<close> those of them it queued for the device, which advances
  the producer counter (the others it drops on the spot), and \<open>n\<close> counts the entries the device
  has completed when the driver looked: \<open>ns\<close> are the groups it has published since the last look.
  The device completes only slots that were posted.
\<close>

inductive txRun :: "'w execFn \<Rightarrow> 'w MlxEthernet \<Rightarrow> nat list \<Rightarrow> nat list \<Rightarrow> nat \<Rightarrow> 'w MlxEthernet \<Rightarrow> bool" for xc e where
  fresh: "txRun xc e [] [] 0 e"
| queued: "txRun xc e S Q n d \<Longrightarrow> outputPacket (Some m) d = (kIOReturnOutputSuccess, d') \<Longrightarrow>
    tx_pc (eTx d') \<noteq> tx_pc (eTx d) \<Longrightarrow> txRun xc e (S @ [mb_id m]) (Q @ [mb_id m]) n d'"
| dropped: "txRun xc e S Q n d \<Longrightarrow> outputPacket (Some m) d = (kIOReturnOutputSuccess, d') \<Longrightarrow>
    tx_pc (eTx d') = tx_pc (eTx d) \<Longrightarrow> txRun xc e (S @ [mb_id m]) Q n d'"
| refused: "txRun xc e S Q n d \<Longrightarrow> outputPacket p d = (kr, d') \<Longrightarrow> kr \<noteq> kIOReturnOutputSuccess \<Longrightarrow> txRun xc e S Q n d'"
| completed: "txRun xc e S Q n d \<Longrightarrow> txEvent type eqe d \<Longrightarrow> tx_cqBuf (eTx d) \<Longrightarrow>
    txPublished cqes 0 ns (tx_cqCc (eTx d)) (tx_cc (eTx d)) \<Longrightarrow> sum_list ns \<le> unat (tx_pc (eTx d) - tx_cc (eTx d)) \<Longrightarrow>
    ethHandleEvent xc cqes slots mb type eqe d = Some d' \<Longrightarrow> txRun xc e S Q (n + sum_list ns) d'"
| other: "txRun xc e S Q n d \<Longrightarrow> \<not> (txEvent type eqe d \<and> tx_cqBuf (eTx d)) \<Longrightarrow>
    ethHandleEvent xc cqes slots mb type eqe d = Some d' \<Longrightarrow> txRun xc e S Q n d'"

lemma subseq_mset: "subseq xs ys \<Longrightarrow> mset xs \<subseteq># mset ys"
  by (induction rule: list_emb.induct) (auto intro: subset_mset.order_trans)

lemma view_freed: "txView e' = txView e \<Longrightarrow> txFreed e' = txFreed e"
  by (simp add: txView_def txFreed_def)

text \<open>What holds after a run: the first \<open>n\<close> queued packets are freed, the others pending in order.\<close>

definition txRunInv :: "'w MlxEthernet \<Rightarrow> nat list \<Rightarrow> nat list \<Rightarrow> nat \<Rightarrow> 'w MlxEthernet \<Rightarrow> bool" where
  "txRunInv e S Q n d \<longleftrightarrow> subseq Q S \<and> n \<le> length Q \<and> txPending d (drop n Q) \<and>
     mset (txFreed d) + mset Q = mset (txFreed e) + mset S + mset (take n Q)"

lemma run_inv:
  assumes "txRun xc e S Q n d" and "txPending e []"
  shows "txRunInv e S Q n d"
  using assms(1)
proof induction
  case fresh
  show ?case using assms(2) by (simp add: txRunInv_def)
next
  case (queued S Q n d m d')
  then have "txPending d' (drop n Q @ [mb_id m])" "txFreed d' = txFreed d"
    using output_pending [OF _ queued.hyps(2), of "drop n Q"] by (auto simp: txRunInv_def txFreed_def)
  then show ?case using queued.IH by (simp add: txRunInv_def list_emb_append_mono)
next
  case (dropped S Q n d m d')
  then have "txPending d' (drop n Q)" "txFreed d' = txFreed d @ [mb_id m]"
    using output_pending [OF _ dropped.hyps(2), of "drop n Q"] by (auto simp: txRunInv_def txFreed_def)
  moreover have "subseq Q (S @ [mb_id m])"
    using dropped.IH by (auto simp: txRunInv_def intro: list_emb_append2)
  ultimately show ?case using dropped.IH by (simp add: txRunInv_def)
next
  case (refused S Q n d p kr d')
  have "d' = d"
  proof (cases p)
    case None
    then show ?thesis using refused.hyps(2) by (simp add: outputPacket_def)
  next
    case (Some m)
    then show ?thesis using output_pending [of d "drop n Q" m kr d'] refused by (simp add: txRunInv_def)
  qed
  then show ?case using refused.IH by simp
next
  case (completed S Q n d type eqe cqes ns slots mb d')
  let ?d = "updTx (\<lambda>t. t\<lparr>tx_armSn := tx_armSn t + 1\<rparr>) d" and ?ids = "drop n Q"
  have ids: "txPending d ?ids" using completed.IH by (simp add: txRunInv_def)
  have q: "txQueue ?d = txQueue d" by (simp add: queue_updTx)
  have p: "txPending ?d ?ids" using ids queue_pending [OF q] by blast
  have poll: "pollTxCq cqes ?d = Some d'" using tx_event [OF completed.hyps(2), of xc cqes slots mb] completed.hyps(6) by simp
  have len: "sum_list ns \<le> length ?ids" using completed.hyps(5) pending_room [OF ids] by simp
  have pub: "txPublished cqes 0 ns (tx_cqCc (eTx ?d)) (tx_cc (eTx ?d))" "tx_cqBuf (eTx ?d)"
    using completed.hyps(3,4) by (simp_all add: updTx_def)
  from poll_pending [OF p pub(1) len pub(2)] poll
  have "txPending d' (drop (sum_list ns) ?ids)" "txFreed d' = txFreed ?d @ take (sum_list ns) ?ids" by (auto simp: txFreed_def)
  moreover have "n + sum_list ns \<le> length Q" using completed.IH len by (auto simp: txRunInv_def)
  ultimately show ?case using completed.IH queue_freed [OF q] by (simp add: txRunInv_def take_add add.commute)
next
  case (other S Q n d type eqe cqes slots mb d')
  have v: "txView d' = txView d \<or> d' = updTx (\<lambda>t. t\<lparr>tx_armSn := tx_armSn t + 1\<rparr>) d"
  proof (cases "txEvent type eqe d")
    case True
    then show ?thesis
      using other.hyps(2,3) tx_event [OF True, of xc cqes slots mb] by (auto simp: pollTxCq_def updTx_def)
  next
    case False
    then show ?thesis using other_event [OF other.hyps(3)] by blast
  qed
  have "txPending d' (drop n Q) \<and> txFreed d' = txFreed d"
    if "txPending d (drop n Q)"
  proof -
    have q: "txQueue (updTx (\<lambda>t. t\<lparr>tx_armSn := tx_armSn t + 1\<rparr>) d) = txQueue d" by (simp add: queue_updTx)
    show ?thesis using v that view_pending [of d' d] view_freed [of d' d] queue_pending [OF q] queue_freed [OF q] by blast
  qed
  then show ?case using other.IH by (simp add: txRunInv_def)
qed

end
