(* ===== verification/MlxEthIO.thy ===== *)
theory MlxEthIO
  imports MlxEthTx
begin

text \<open>
  What the device finds: the send entry describes exactly the packet, the receive entries
  describe exactly the slots of the pool, and every completion of the receive queue is handed
  to the stack once and its slot posted again.
\<close>

unbundle bit_operations_syntax

section \<open>The send entry\<close>

lemma ucast_wide [simp]: "unat (ucast (x :: u32) :: u64) = unat x" "(ucast (ucast (y :: u16) :: u32) :: u64) = ucast y"
  "take_bit 32 (ucast (y :: u16) :: u64) = ucast y"
proof -
  have "unat x < 2 ^ 32" using unsigned_less [of x] by simp
  then show "unat (ucast x :: u64) = unat x" by (simp add: unsigned_ucast_eq take_bit_nat_eq_self)
  show "(ucast (ucast y :: u32) :: u64) = ucast y" by (rule bit_word_eqI) (auto simp: bit_simps dest: bit_imp_le_length)
  show "take_bit 32 (ucast y :: u64) = ucast y" by (rule bit_word_eqI) (auto simp: bit_simps dest: bit_imp_le_length)
qed

lemma txWqe_plain:
  assumes w: "w = txWqe pc sqn lkey 0 len addr bytes"
  shows "length w = 64" "mlxGetBits w 0 32 = ucast (push_bit 8 (ucast pc :: u32) OR MLX_OPCODE_SEND)"
    "mlxGetBits w 32 32 = ucast (push_bit 8 sqn OR 3 :: u32)" "mlxGetBits w 224 16 = 0"
    "mlxGetBits w 256 32 = ucast len" "mlxGetBits w 288 32 = ucast lkey" "mlxGetBits w 320 64 = addr" "w ! 11 = MLX_WQE_CTRL_CQ_UPDATE"
  by (simp_all add: w txWqe_def Let_def OSWriteBig_mlxSetBits mlxGetBits_set_same mlxGetBits_set_other
      getBits_list_update_other bufBits_def)

lemma txWqe_inline:
  assumes "14 \<le> length bytes" and w: "w = txWqe pc sqn lkey 14 len addr bytes"
  shows "length w = 64" "mlxGetBits w 0 32 = ucast (push_bit 8 (ucast pc :: u32) OR MLX_OPCODE_SEND)"
    "mlxGetBits w 32 32 = ucast (push_bit 8 sqn OR 4 :: u32)" "mlxGetBits w 224 16 = 14"
    "mlxGetBits w 384 32 = ucast (len - 14)" "mlxGetBits w 416 32 = ucast lkey" "mlxGetBits w 448 64 = addr + 14"
    "w ! 11 = MLX_WQE_CTRL_CQ_UPDATE" "bytesAt w 30 14 = take 14 bytes"
proof -
  show "length w = 64" "mlxGetBits w 0 32 = ucast (push_bit 8 (ucast pc :: u32) OR MLX_OPCODE_SEND)"
    "mlxGetBits w 32 32 = ucast (push_bit 8 sqn OR 4 :: u32)" "mlxGetBits w 224 16 = 14"
    "mlxGetBits w 384 32 = ucast (len - 14)" "mlxGetBits w 416 32 = ucast lkey" "mlxGetBits w 448 64 = addr + 14"
    "w ! 11 = MLX_WQE_CTRL_CQ_UPDATE"
    using assms(1) by (simp_all add: w txWqe_def Let_def OSWriteBig_mlxSetBits mlxGetBits_set_same mlxGetBits_set_other
      getBits_list_update_other getBits_copyInto_other bufBits_def min_def)
  show "bytesAt w 30 14 = take 14 bytes"
    using assms(1) by (simp add: w txWqe_def Let_def bytesAt_list_update_other bytesAt_OSWriteBig_other bytesAt_copyInto_same min_def)
qed

text \<open>
  The packet a device sends for an entry: the inline bytes, then what the last segment points
  to. \<open>dma\<close> is the device address of the pool.
\<close>

definition wireBytes :: "buffer \<Rightarrow> u64 \<Rightarrow> buffer \<Rightarrow> buffer" where
  "wireBytes w dma pool =
     (let ds = unat (mlxGetBits w 32 32 AND 0x3f); inl = unat (mlxGetBits w 224 16); seg = 128 * (ds - 1)
      in bytesAt w 30 inl @ bytesAt pool (unat (mlxGetBits w (seg + 64) 64 - dma)) (unat (mlxGetBits w seg 32)))"

lemma wqe_low_bits: "(ucast (push_bit 8 sqn OR c) :: u64) AND 0x3f = ucast (c AND 0x3f)" for sqn c :: u32
proof -
  have m: "(0x3f :: u64) = mask 6" "(0x3f :: u32) = mask 6" by (simp_all add: mask_eq_exp_minus_1)
  have "take_bit 6 (push_bit 8 sqn) = 0" by (simp add: take_bit_push_bit)
  then show ?thesis by (simp add: m take_bit_eq_mask [symmetric] flip: unsigned_take_bit_eq)
qed

lemma wire_exact:
  fixes e :: "'a MlxEthernet"
  assumes w: "w = txWqe pc sqn lkey inl len (dma + of_nat off) bytes" and inl: "inl = 0 \<or> inl = 14"
    and len: "length bytes = unat len" "inl \<le> unat len" and pool: "off + length bytes \<le> length pool" "length pool < 2 ^ 32"
  shows "wireBytes w dma (copyInto pool off bytes) = bytes"
proof -
  have at: "bytesAt (copyInto pool off bytes) (off + k) (length bytes - k) = drop k bytes" if "k \<le> length bytes" for k
    unfolding bytesAt_def by (rule nth_equalityI) (use pool that in \<open>auto simp: nth_copyInto\<close>)
  have un: "unat (of_nat n :: u64) = n" if "n < 2 ^ 32" for n using that by (intro unat_of_nat_small) simp
  from inl show ?thesis
  proof
    assume i: "inl = 0"
    note f = txWqe_plain [OF w [unfolded i]]
    have "unat (mlxGetBits w 256 32) = length bytes" by (simp add: f len(1))
    moreover have "unat (mlxGetBits w 320 64 - dma) = off" using un [of off] pool by (simp add: f)
    ultimately show ?thesis using at [of 0] by (simp add: wireBytes_def Let_def f(3,4) wqe_low_bits) (simp add: bytesAt_def)
  next
    assume i: "inl = 14"
    have l: "14 \<le> length bytes" using len i by simp
    note f = txWqe_inline [OF l w [unfolded i]]
    have "unat (len - 14) = unat len - 14" using len(2) i by (simp add: unat_sub word_le_nat_alt)
    then have "unat (mlxGetBits w 384 32) = length bytes - 14" by (simp add: f len(1))
    moreover have "unat (mlxGetBits w 448 64 - dma) = off + 14"
    proof -
      have "mlxGetBits w 448 64 - dma = of_nat (off + 14)" by (simp add: f)
      then show ?thesis using un [of "off + 14"] pool l by (simp only:)
    qed
    ultimately show ?thesis using at [OF l] by (simp add: wireBytes_def Let_def f(3,4,9) wqe_low_bits)
  qed
qed

section \<open>A transmission\<close>

lemma copy_slots:
  assumes "length b = 64 * 256" "length w = 64" "i < 256" "j < 256"
  shows "bytesAt (copyInto b (i * 64) w) (j * 64) 64 = (if j = i then w else bytesAt b (j * 64) 64)"
  by (rule ring_slots [of b 256 w i j]) (use assms in simp_all)

lemma writeDb_page:
  "fDbRecord (ethUar e) = Some page \<Longrightarrow> fDbRecord (ethUar (writeDb d v e)) = Some (OSWriteBigInt32 page d (ucast v))"
  by (simp add: writeDb_def)

lemma txWqe_length: "inl \<le> 34 \<Longrightarrow> length (txWqe pc sqn lkey inl len addr bytes) = 64"
  by (simp add: txWqe_def Let_def min_def)

lemma sent_frame:
  "eTx (txSent m r bytes e) = (eTx e)\<lparr>tx_pool := copyInto (tx_pool (eTx e)) (txSlot r (tx_pc (eTx e)) * 2048) bytes,
     tx_pc := tx_pc (eTx e) + 1\<rparr>"
  by (simp add: txSent_def Let_def ethLog_def ringWriteDb_def writeDb_def setUar_def updTx_def MLX5E_TX_BUF_SIZE_def split: option.split)

lemma sent_exact:
  assumes r: "ring_size r = 256" "ring_wqebb r = 64" "ring_wqBuf r = Some b" "length b = 64 * 256"
    and pool: "length (tx_pool (eTx e)) = 256 * 2048"
    and data: "length bytes = unat (mb_len m)" "0 < mb_len m" "unat (mb_len m) \<le> MLX5E_TX_BUF_SIZE" "txInlineLen e \<le> unat (mb_len m)"
    and i: "i = unat (tx_pc (eTx e) AND 255)"
    and w: "w = txWqe (tx_pc (eTx e)) (tx_sqn (eTx e)) (eLkey e) (txInlineLen e) (mb_len m)
                (em_dma (tx_buf (eTx e)) + of_nat (i * 2048)) bytes"
  shows "(\<exists>r'. eTxRing (txSent m r bytes e) = Some r' \<and> ring_wqBuf r' = Some (copyInto b (i * 64) w) \<and> ring_db r' = ring_db r) \<and>
    wireBytes w (em_dma (tx_buf (eTx e))) (tx_pool (eTx (txSent m r bytes e))) = bytes \<and>
    tx_pc (eTx (txSent m r bytes e)) = tx_pc (eTx e) + 1 \<and>
    eLog (txSent m r bytes e) = eLog e @ [WriteBf (bf_map (tx_bf (eTx e))) (take 8 w)] \<and>
    (\<forall>d page. ring_db r = Some d \<longrightarrow> fDbRecord (ethUar e) = Some page \<longrightarrow>
       fDbRecord (ethUar (txSent m r bytes e)) = Some (OSWriteBigInt32 page d (ucast (ucast (tx_pc (eTx e) + 1) :: u32))))"
proof -
  have s: "txSlot r (tx_pc (eTx e)) = i" by (simp add: txSlot_def r(1) i)
  have i': "i < 256" by (simp add: i slot_byte byte_unat)
  let ?r = "r\<lparr>ring_wqBuf := Some (copyInto b (i * 64) w), ring_head := tx_pc (eTx e), ring_mbuf := (ring_mbuf r)[i := Some (mb_id m)]\<rparr>"
  let ?e = "e\<lparr>eTxRing := Some ?r, eTx := (eTx e)\<lparr>tx_pool := copyInto (tx_pool (eTx e)) (i * 2048) bytes, tx_pc := tx_pc (eTx e) + 1\<rparr>\<rparr>"
  have sent: "txSent m r bytes e = ethLog (WriteBf (bf_map (tx_bf (eTx e))) (take 8 w)) (ringWriteDb ?r (ucast (tx_pc (eTx e) + 1)) ?e)"
    using i' by (simp add: txSent_def Let_def s setWqeMbuf_def setTxWqe_def updTx_def r MLX5E_TX_BUF_SIZE_def w)
  have frame: "eTx (ringWriteDb ?r v ?e) = eTx ?e \<and> eTxRing (ringWriteDb ?r v ?e) = Some ?r \<and> eLog (ringWriteDb ?r v ?e) = eLog e" for v
    by (simp add: ringWriteDb_def writeDb_def setUar_def split: option.split)
  have "wireBytes w (em_dma (tx_buf (eTx e))) (copyInto (tx_pool (eTx e)) (i * 2048) bytes) = bytes"
    by (rule wire_exact [OF w]) (use data pool i' in \<open>auto simp: txInlineLen_def MLX5E_TX_BUF_SIZE_def\<close>)
  moreover have "fDbRecord (ethUar (txSent m r bytes e)) = Some (OSWriteBigInt32 page d (ucast (ucast (tx_pc (eTx e) + 1) :: u32)))"
    if "ring_db r = Some d" "fDbRecord (ethUar e) = Some page" for d page
    using that unfolding sent by (simp add: ethLog_def ringWriteDb_def writeDb_page)
  ultimately show ?thesis using frame unfolding sent by (simp add: ethLog_def)
qed

section \<open>Receive completions\<close>

definition rxSlotDma :: "'w MlxEthernet \<Rightarrow> nat \<Rightarrow> u64" where
  "rxSlotDma e i = em_dma (rx_buf (eRx e)) + of_nat (i * MLX5E_RX_BUF_SIZE)"

text \<open>Every entry of the receive queue describes its slot of the pool.\<close>

definition rxPosted :: "'w MlxEthernet \<Rightarrow> bool" where
  "rxPosted e \<longleftrightarrow> em_desc (rx_buf (eRx e)) \<noteq> None \<and> em_dma (rx_buf (eRx e)) \<noteq> 0 \<and>
     (\<exists>r b. eRxRing e = Some r \<and> ring_wqBuf r = Some b \<and> length b = 64 * 256 \<and>
       (\<forall>i < 256. bytesAt b (i * 64) 64 = rxWqe (eLkey e) (rxSlotDma e i)))"

text \<open>What one completion hands to the stack.\<close>

definition rxPacket :: "bool \<Rightarrow> (nat \<Rightarrow> buffer) \<Rightarrow> MlxCqe64 \<Rightarrow> (buffer \<times> u32) list" where
  "rxPacket mb slot cqe =
     (if MLX_CQE_GET_OPCODE cqe = MLX_CQE_RESP \<and> 0 < cqe_byteCnt cqe \<and> unat (cqe_byteCnt cqe) \<le> MLX5E_RX_BUF_SIZE \<and> mb
      then [(take (unat (cqe_byteCnt cqe)) (slot (unat (cqe_wqeCounter cqe AND 255))), cqe_byteCnt cqe)] else [])"

fun rxInputs :: "ethEffect list \<Rightarrow> (buffer \<times> u32) list" where
  "rxInputs [] = []"
| "rxInputs (x # l) = (case x of InputPacket p n \<Rightarrow> (p, n) # rxInputs l | _ \<Rightarrow> rxInputs l)"

lemma inputs_append [simp]: "rxInputs (a @ b) = rxInputs a @ rxInputs b"
  by (induction a) (auto split: ethEffect.split)

definition rxDbWord :: "'w MlxEthernet \<Rightarrow> u64 option" where
  "rxDbWord e = (case eRxRing e of None \<Rightarrow> None | Some r \<Rightarrow> (case ring_db r of None \<Rightarrow> None | Some d \<Rightarrow>
     map_option (\<lambda>page. mlxGetBits page (8 * d) 32) (fDbRecord (ethUar e))))"

text \<open>The doorbell record of the receive queue is in the page.\<close>

definition rxDbOk :: "'w MlxEthernet \<Rightarrow> bool" where
  "rxDbOk e \<longleftrightarrow> (\<exists>r d page. eRxRing e = Some r \<and> ring_db r = Some d \<and> fDbRecord (ethUar e) = Some page \<and> d + 4 \<le> length page)"

lemma rxWqe_length [simp]: "length (rxWqe lkey addr) = 64"
  by (simp add: rxWqe_def)

lemma handleRx_spec:
  fixes e :: "'a MlxEthernet"
  assumes p: "rxPosted e" and db: "rxDbOk e" and f: "handleRxCqe mb slot cqe e = e'"
  shows "rxPosted e' \<and> rxDbOk e' \<and> rx_pc (eRx e') = rx_pc (eRx e) + 1 \<and> rx_cqCc (eRx e') = rx_cqCc (eRx e) \<and>
    rx_cc (eRx e') = cqe_wqeCounter cqe + 1 \<and> rxDbWord e' = Some (ucast (rx_pc (eRx e) + 1)) \<and>
    rx_cqBuf (eRx e') = rx_cqBuf (eRx e) \<and> rx_cqDbOffset (eRx e') = rx_cqDbOffset (eRx e) \<and>
    eEnabled e' = eEnabled e \<and> eNic e' = eNic e \<and> map_option ring_db (eRxRing e') = map_option ring_db (eRxRing e) \<and>
    map_option length (fDbRecord (ethUar e')) = map_option length (fDbRecord (ethUar e)) \<and>
    rxInputs (eLog e') = rxInputs (eLog e) @ (if eEnabled e \<and> eNic e then rxPacket mb slot cqe else [])"
proof -
  let ?i = "unat (rx_pc (eRx e) AND 255)"
  have i: "?i < 256" by (simp add: slot_byte byte_unat)
  obtain r b where r: "eRxRing e = Some r" "ring_wqBuf r = Some b" "length b = 64 * 256"
    "\<And>i. i < 256 \<Longrightarrow> bytesAt b (i * 64) 64 = rxWqe (eLkey e) (rxSlotDma e i)"
    and buf: "em_desc (rx_buf (eRx e)) \<noteq> None" "em_dma (rx_buf (eRx e)) \<noteq> 0" using p by (auto simp: rxPosted_def)
  obtain d page where d: "ring_db r = Some d" "fDbRecord (ethUar e) = Some page" "d + 4 \<le> length page"
    using db r(1) by (auto simp: rxDbOk_def)
  let ?b = "copyInto b (?i * 64) (rxWqe (eLkey e) (rxSlotDma e ?i))"
  let ?e1 = "e\<lparr>eRxRing := Some (r\<lparr>ring_wqBuf := Some ?b\<rparr>)\<rparr>"
  have post: "postRxWqe ?i e = (kIOReturnSuccess, ?e1)"
    using i r by (simp add: postRxWqe_def MLX5E_MAX_RX_BUFS_def rxSlotDma_def)
  let ?page = "OSWriteBigInt32 page d (ucast (ucast (rx_pc (eRx e) + 1) :: u32))"
  let ?e2 = "?e1\<lparr>eCo := (eCo e)\<lparr>coUar := (ethUar e)\<lparr>fDbRecord := Some ?page\<rparr>\<rparr>,
    eRx := (eRx e)\<lparr>rx_pc := rx_pc (eRx e) + 1, rx_cc := cqe_wqeCounter cqe + 1\<rparr>\<rparr>"
  have e': "e' = (case rxPacket mb slot cqe of [] \<Rightarrow> ?e2 | x # xs \<Rightarrow> receivePacket (fst x) (snd x) ?e2)"
    using f buf d(1,2) unfolding handleRxCqe_def post
    by (auto simp: Let_def rxPacket_def rxDoorbell_def ringWriteDb_def writeDb_def setUar_def updRx_def split: option.splits if_splits)
  have same: "length ?b = 64 * 256" "\<And>j. j < 256 \<Longrightarrow> bytesAt ?b (j * 64) 64 = rxWqe (eLkey e) (rxSlotDma e j)"
    using r(3,4) i copy_slots [OF r(3) _ i] by auto
  have get: "mlxGetBits ?page (8 * d) 32 = ucast (rx_pc (eRx e) + 1)"
    using d(3) by (simp add: OSWriteBig_mlxSetBits mlxGetBits_set_same bufBits_def)
  have p2: "rxPosted ?e2" using same buf by (simp add: rxPosted_def rxSlotDma_def)
  have "rxDbOk ?e2" "rxDbWord ?e2 = Some (ucast (rx_pc (eRx e) + 1))" using d get by (simp_all add: rxDbOk_def rxDbWord_def)
  then have all: "rxPosted ?e2 \<and> rxDbOk ?e2 \<and> rxDbWord ?e2 = Some (ucast (rx_pc (eRx e) + 1))" using p2 by simp
  have len: "length (rxPacket mb slot cqe) \<le> 1" by (simp add: rxPacket_def)
  show ?thesis
  proof (cases "rxPacket mb slot cqe")
    case Nil
    then show ?thesis using all r(1) d(2) by (simp add: e')
  next
    case (Cons x xs)
    then have x: "rxPacket mb slot cqe = [x]" using len by simp
    then show ?thesis using all r(1) d(2) unfolding e'
      by (auto simp: receivePacket_def ethLog_def rxPosted_def rxSlotDma_def rxDbOk_def rxDbWord_def)
  qed
qed

section \<open>A poll of the receive completions\<close>

text \<open>The device has written \<open>n\<close> entries; the one after them is not yet owned by the driver.\<close>

fun rxPublished :: "(nat \<Rightarrow> nat \<Rightarrow> MlxCqe64) \<Rightarrow> nat \<Rightarrow> nat \<Rightarrow> u32 \<Rightarrow> bool" where
  "rxPublished cqes i 0 q = (\<not> cqOwned q (cqes i (cqSlot q)))"
| "rxPublished cqes i (Suc n) q = (cqOwned q (cqes i (cqSlot q)) \<and> rxPublished cqes (i + 1) n (q + 1))"

text \<open>The packets of these entries, in their order.\<close>

fun rxArrived ::
  "(nat \<Rightarrow> nat \<Rightarrow> MlxCqe64) \<Rightarrow> (nat \<Rightarrow> nat \<Rightarrow> buffer) \<Rightarrow> (nat \<Rightarrow> bool) \<Rightarrow> nat \<Rightarrow> nat \<Rightarrow> u32 \<Rightarrow> (buffer \<times> u32) list" where
  "rxArrived cqes slots mb i 0 q = []"
| "rxArrived cqes slots mb i (Suc n) q =
     rxPacket (mb i) (slots i) (cqes i (cqSlot q)) @ rxArrived cqes slots mb (i + 1) n (q + 1)"

text \<open>What the polls keep: where the two doorbell records are and how large their page is.\<close>

definition rxFix :: "'w MlxEthernet \<Rightarrow> _" where
  "rxFix e = (rx_cqBuf (eRx e), rx_cqDbOffset (eRx e), eEnabled e, eNic e, map_option ring_db (eRxRing e),
     map_option length (fDbRecord (ethUar e)))"

lemma posted_cc [simp]: "rxPosted (updRx (\<lambda>t. t\<lparr>rx_cqCc := q\<rparr>) e) = rxPosted e"
  "rxDbOk (updRx (\<lambda>t. t\<lparr>rx_cqCc := q\<rparr>) e) = rxDbOk e" "rxDbWord (updRx (\<lambda>t. t\<lparr>rx_cqCc := q\<rparr>) e) = rxDbWord e"
  "rxFix (updRx (\<lambda>t. t\<lparr>rx_cqCc := q\<rparr>) e) = rxFix e"
  by (simp_all add: updRx_def rxPosted_def rxSlotDma_def rxDbOk_def rxDbWord_def rxFix_def split: option.split)

lemma rxPollLoop_done:
  fixes e :: "'a MlxEthernet"
  assumes "rxPosted e" "rxDbOk e" and "rxPublished cqes i n (rx_cqCc (eRx e))"
  shows "\<exists>e'. rxPollLoop cqes slots mb i e = Some e' \<and> rxPosted e' \<and> rxDbOk e' \<and> rxFix e' = rxFix e \<and>
    rx_pc (eRx e') = rx_pc (eRx e) + of_nat n \<and> rx_cqCc (eRx e') = rx_cqCc (eRx e) + of_nat n \<and>
    rxDbWord e' = (if n = 0 then rxDbWord e else Some (ucast (rx_pc (eRx e) + of_nat n))) \<and>
    rxInputs (eLog e') = rxInputs (eLog e) @
      (if eEnabled e \<and> eNic e then rxArrived cqes slots mb i n (rx_cqCc (eRx e)) else [])"
  using assms
proof (induction n arbitrary: i e)
  case 0
  then show ?case by (subst rxPollLoop.simps) (simp add: Let_def)
next
  case (Suc n)
  let ?q = "rx_cqCc (eRx e)"
  let ?cqe = "cqes i (cqSlot ?q)"
  define e1 where "e1 = handleRxCqe (mb i) (slots i) ?cqe e"
  note h = handleRx_spec [OF Suc.prems(1,2) e1_def [symmetric]]
  let ?e2 = "updRx (\<lambda>t. t\<lparr>rx_cqCc := ?q + 1\<rparr>) e1"
  have q2: "rx_cqCc (eRx ?e2) = ?q + 1" "rx_pc (eRx ?e2) = rx_pc (eRx e) + 1" "eEnabled ?e2 = eEnabled e" "eNic ?e2 = eNic e"
    "eLog ?e2 = eLog e1" using h by (simp_all add: updRx_def)
  have fix2: "rxFix ?e2 = rxFix e" using h by (simp add: rxFix_def updRx_def)
  have "rxPosted ?e2" "rxDbOk ?e2" "rxPublished cqes (i + 1) n (rx_cqCc (eRx ?e2))"
    using h Suc.prems(3) unfolding q2(1) by simp_all
  from Suc.IH [OF this] obtain e' where rec: "rxPollLoop cqes slots mb (i + 1) ?e2 = Some e'" "rxPosted e'" "rxDbOk e'"
    "rxFix e' = rxFix e" "rx_pc (eRx e') = rx_pc (eRx e) + 1 + of_nat n" "rx_cqCc (eRx e') = ?q + 1 + of_nat n"
    "rxDbWord e' = (if n = 0 then rxDbWord ?e2 else Some (ucast (rx_pc (eRx e) + 1 + of_nat n)))"
    "rxInputs (eLog e') = rxInputs (eLog e1) @ (if eEnabled e \<and> eNic e then rxArrived cqes slots mb (i + 1) n (?q + 1) else [])"
    unfolding q2 fix2 by blast
  have "rxPollLoop cqes slots mb i e = Some e'"
    using rec(1) Suc.prems(3) by (subst rxPollLoop.simps) (simp add: Let_def e1_def)
  then show ?case using rec h by (intro exI [of _ e']) (simp add: ac_simps)
qed

text \<open>The doorbell record of the completion queue is in the page, apart from the one of the receive queue.\<close>

definition rxCqApart :: "'w MlxEthernet \<Rightarrow> bool" where
  "rxCqApart e \<longleftrightarrow> (let c = unat (rx_cqDbOffset (eRx e) div 4) * 4 in
     \<exists>r d page. eRxRing e = Some r \<and> ring_db r = Some d \<and> fDbRecord (ethUar e) = Some page \<and>
       c + 8 \<le> length page \<and> d + 4 \<le> length page \<and> (c + 8 \<le> d \<or> d + 4 \<le> c))"

lemma apart_fix:
  assumes "rxFix e' = rxFix e" and "rxDbOk e'" shows "rxCqApart e' = rxCqApart e"
proof -
  obtain r' d page' where "eRxRing e' = Some r'" "ring_db r' = Some d" "fDbRecord (ethUar e') = Some page'"
    using assms(2) by (auto simp: rxDbOk_def)
  moreover from this have "map_option ring_db (eRxRing e) = Some (Some d)"
    "map_option length (fDbRecord (ethUar e)) = Some (length page')" "rx_cqDbOffset (eRx e') = rx_cqDbOffset (eRx e)"
    using assms(1) by (simp_all add: rxFix_def)
  moreover from this obtain r page where "eRxRing e = Some r" "ring_db r = Some d" "fDbRecord (ethUar e) = Some page"
    "length page = length page'" by (auto simp: map_option_eq_Some)
  ultimately show ?thesis by (simp add: rxCqApart_def Let_def)
qed

definition rxKeep :: "'w MlxEthernet \<Rightarrow> _" where
  "rxKeep e = (eRx e, eRxRing e, eLkey e, eEnabled e, eNic e, rxInputs (eLog e), map_option length (fDbRecord (ethUar e)))"

lemma keep_writeDb: "rxKeep (writeDb i v e) = rxKeep e"
  by (simp add: writeDb_def setUar_def rxKeep_def OSWriteBig_mlxSetBits split: option.split)

lemma writeDb_word:
  assumes "rxCqApart e" "i = unat (rx_cqDbOffset (eRx e) div 4) * 4 \<or> i = (unat (rx_cqDbOffset (eRx e) div 4) + 1) * 4"
  shows "rxDbWord (writeDb i v e) = rxDbWord e \<and> rxCqApart (writeDb i v e)"
  using assms
  by (auto simp: rxCqApart_def rxDbWord_def writeDb_def setUar_def Let_def OSWriteBig_mlxSetBits mlxGetBits_set_other bufBits_def)

lemma poll_tail:
  fixes e :: "'a MlxEthernet"
  assumes "rxCqApart e"
  shows "rxKeep (armRxCq (ethUpdateCq (rx_cqDbOffset (eRx e)) (rx_cqCc (eRx e)) e)) = rxKeep e \<and>
    rxDbWord (armRxCq (ethUpdateCq (rx_cqDbOffset (eRx e)) (rx_cqCc (eRx e)) e)) = rxDbWord e"
proof -
  let ?a = "ethUpdateCq (rx_cqDbOffset (eRx e)) (rx_cqCc (eRx e)) e"
  have a: "rxKeep ?a = rxKeep e" "rxDbWord ?a = rxDbWord e" "rxCqApart ?a" using assms
    by (simp_all add: ethUpdateCq_def keep_writeDb writeDb_word)
  have log: "rxKeep (ethLog (WriteCqDoorbell x w) d) = rxKeep d" "rxDbWord (ethLog (WriteCqDoorbell x w) d) = rxDbWord d"
    for x w and d :: "'a MlxEthernet" by (simp_all add: rxKeep_def rxDbWord_def ethLog_def split: option.split)
  have "rxKeep (armRxCq ?a) = rxKeep ?a \<and> rxDbWord (armRxCq ?a) = rxDbWord ?a"
    using writeDb_word [OF a(3), of "(unat (rx_cqDbOffset (eRx ?a) div 4) + 1) * 4"]
    by (simp add: armRxCq_def armCq_def Let_def log keep_writeDb)
  then show ?thesis using a by simp
qed

section \<open>Posting every slot\<close>

lemma postOnes:
  fixes e :: "'a MlxEthernet"
  assumes "eRxRing e = Some r" "ring_wqBuf r = Some b" "length b = 64 * 256" and "n \<le> 256"
    and "\<And>i. i < n \<Longrightarrow> bytesAt b (i * 64) 64 = rxWqe (eLkey e) (rxSlotDma e i)"
  shows "\<exists>b'. length b' = 64 * 256 \<and> (\<forall>i < 256. bytesAt b' (i * 64) 64 = rxWqe (eLkey e) (rxSlotDma e i)) \<and>
    ethRun (map postOne [n..<256] @ fs) e = ethRun fs (e\<lparr>eRxRing := Some (r\<lparr>ring_wqBuf := Some b'\<rparr>),
      eRx := (eRx e)\<lparr>rx_pc := rx_pc (eRx e) + of_nat (256 - n)\<rparr>\<rparr>)"
  using assms
proof (induction "256 - n" arbitrary: n e r b)
  case 0
  then have n: "n = 256" by simp
  have "e\<lparr>eRxRing := Some (r\<lparr>ring_wqBuf := Some b\<rparr>), eRx := (eRx e)\<lparr>rx_pc := rx_pc (eRx e) + of_nat (256 - n)\<rparr>\<rparr> = e"
    using 0(2,3) n by (cases e, cases r) simp
  then show ?case using 0(4,6) n by (intro exI [of _ b]) (simp only:, simp)
next
  case (Suc k)
  then have n: "n < 256" by simp
  let ?b = "copyInto b (n * 64) (rxWqe (eLkey e) (rxSlotDma e n))"
  let ?r = "r\<lparr>ring_wqBuf := Some ?b\<rparr>"
  let ?e = "e\<lparr>eRxRing := Some ?r, eRx := (eRx e)\<lparr>rx_pc := rx_pc (eRx e) + 1\<rparr>\<rparr>"
  have one: "postOne n e = (kIOReturnSuccess, ?e)"
    using Suc.prems n by (simp add: postOne_def postRxWqe_def MLX5E_MAX_RX_BUFS_def rxSlotDma_def updRx_def)
  have slots: "bytesAt ?b (i * 64) 64 = rxWqe (eLkey ?e) (rxSlotDma ?e i)" if "i < Suc n" for i
    using copy_slots [OF Suc.prems(3) _ n, of "rxWqe (eLkey e) (rxSlotDma e n)" i] Suc.prems(5) [of i] that n
    by (simp add: rxSlotDma_def)
  have c: "(1 + of_nat (255 - n) :: u16) = of_nat (256 - n)"
    using n by (simp add: Suc_diff_le flip: of_nat_Suc)
  have "k = 256 - Suc n" "eRxRing ?e = Some ?r" "ring_wqBuf ?r = Some ?b" "length ?b = 64 * 256" "Suc n \<le> 256"
    using Suc.hyps(2) Suc.prems(3) n by simp_all
  from Suc.hyps(1) [OF this slots] obtain b' where b': "length b' = 64 * 256" "\<forall>i < 256. bytesAt b' (i * 64) 64 = rxWqe (eLkey ?e) (rxSlotDma ?e i)"
    "ethRun (map postOne [Suc n..<256] @ fs) ?e = ethRun fs (?e\<lparr>eRxRing := Some (?r\<lparr>ring_wqBuf := Some b'\<rparr>),
      eRx := (eRx ?e)\<lparr>rx_pc := rx_pc (eRx ?e) + of_nat (256 - Suc n)\<rparr>\<rparr>)"
    by blast
  have "ethRun (map postOne [n..<256] @ fs) e = ethRun (map postOne [Suc n..<256] @ fs) ?e"
    using n by (simp add: upt_conv_Cons one)
  then show ?case using b' by (intro exI [of _ b']) (simp add: rxSlotDma_def add.assoc c)
qed

text \<open>After \<open>postAllRx\<close> every slot is posted and the doorbell record says so.\<close>

lemma postAll_posted:
  fixes e :: "'a MlxEthernet"
  assumes r: "eRxRing e = Some r" "ring_wqBuf r = Some b" "length b = 64 * 256"
    and buf: "em_desc (rx_buf (eRx e)) \<noteq> None" "em_dma (rx_buf (eRx e)) \<noteq> 0"
    and d: "ring_db r = Some d" "fDbRecord (ethUar e) = Some page" "d + 4 \<le> length page"
  shows "\<exists>e'. postAllRx e = (kIOReturnSuccess, e') \<and> rxPosted e' \<and> rxDbOk e' \<and> rxFix e' = rxFix e \<and>
    rx_cqCc (eRx e') = rx_cqCc (eRx e) \<and> rx_pc (eRx e') = rx_pc (eRx e) + 256 \<and>
    rxDbWord e' = Some (ucast (rx_pc (eRx e) + 256)) \<and> rxInputs (eLog e') = rxInputs (eLog e)"
proof -
  obtain b' where b': "length b' = 64 * 256" "\<forall>i < 256. bytesAt b' (i * 64) 64 = rxWqe (eLkey e) (rxSlotDma e i)"
    "ethRun (map postOne [0..<256] @ [ethDo rxDoorbell]) e = ethRun [ethDo rxDoorbell] (e\<lparr>eRxRing := Some (r\<lparr>ring_wqBuf := Some b'\<rparr>),
      eRx := (eRx e)\<lparr>rx_pc := rx_pc (eRx e) + of_nat 256\<rparr>\<rparr>)"
    using postOnes [OF r, of 0 "[ethDo rxDoorbell]"] by auto
  let ?page = "OSWriteBigInt32 page d (ucast (ucast (rx_pc (eRx e) + 256) :: u32))"
  let ?e = "e\<lparr>eCo := (eCo e)\<lparr>coUar := (ethUar e)\<lparr>fDbRecord := Some ?page\<rparr>\<rparr>,
    eRxRing := Some (r\<lparr>ring_wqBuf := Some b'\<rparr>), eRx := (eRx e)\<lparr>rx_pc := rx_pc (eRx e) + 256\<rparr>\<rparr>"
  have "postAllRx e = (kIOReturnSuccess, ?e)"
    using b'(3) d by (simp add: postAllRx_def MLX5E_DEFAULT_LOG_RQ_SIZE_def ethDo_def rxDoorbell_def ringWriteDb_def writeDb_def setUar_def)
  moreover have "mlxGetBits ?page (8 * d) 32 = ucast (rx_pc (eRx e) + 256)"
    using d(3) by (simp add: OSWriteBig_mlxSetBits mlxGetBits_set_same bufBits_def)
  moreover have "length ?page = length page" by (simp add: OSWriteBig_mlxSetBits)
  ultimately show ?thesis using b' buf d r
    by (intro exI [of _ ?e]) (simp add: rxPosted_def rxSlotDma_def rxDbOk_def rxDbWord_def rxFix_def)
qed

lemma poll_spec:
  fixes e :: "'a MlxEthernet"
  assumes p: "rxPosted e" "rxCqApart e" and cq: "rx_cqBuf (eRx e)" and pub: "rxPublished cqes 0 n (rx_cqCc (eRx e))"
  shows "\<exists>e'. pollRxCq cqes slots mb e = Some e' \<and> rxPosted e' \<and>
    rx_pc (eRx e') = rx_pc (eRx e) + of_nat n \<and> rx_cqCc (eRx e') = rx_cqCc (eRx e) + of_nat n \<and>
    rxDbWord e' = (if n = 0 then rxDbWord e else Some (ucast (rx_pc (eRx e) + of_nat n))) \<and>
    rxInputs (eLog e') = rxInputs (eLog e) @ (if eEnabled e \<and> eNic e then rxArrived cqes slots mb 0 n (rx_cqCc (eRx e)) else [])"
proof -
  have ok: "rxDbOk e" and ring: "eRxRing e \<noteq> None" using p(2) by (auto simp: rxCqApart_def rxDbOk_def Let_def)
  obtain e1 where l: "rxPollLoop cqes slots mb 0 e = Some e1" "rxPosted e1" "rxDbOk e1" "rxFix e1 = rxFix e"
    "rx_pc (eRx e1) = rx_pc (eRx e) + of_nat n" "rx_cqCc (eRx e1) = rx_cqCc (eRx e) + of_nat n"
    "rxDbWord e1 = (if n = 0 then rxDbWord e else Some (ucast (rx_pc (eRx e) + of_nat n)))"
    "rxInputs (eLog e1) = rxInputs (eLog e) @ (if eEnabled e \<and> eNic e then rxArrived cqes slots mb 0 n (rx_cqCc (eRx e)) else [])"
    using rxPollLoop_done [OF p(1) ok pub] by blast
  let ?e = "armRxCq (ethUpdateCq (rx_cqDbOffset (eRx e1)) (rx_cqCc (eRx e1)) e1)"
  have "rxCqApart e1" using apart_fix [OF l(4,3)] p(2) by simp
  note t = poll_tail [OF this]
  have "pollRxCq cqes slots mb e = Some ?e" using l(1) ring cq by (auto simp: pollRxCq_def)
  moreover have "rxPosted ?e" using t l(2) by (simp add: rxKeep_def rxPosted_def rxSlotDma_def)
  ultimately show ?thesis using t l by (intro exI [of _ ?e]) (simp add: rxKeep_def)
qed

section \<open>Claims\<close>

text \<open>C33: no packet is lost, freed twice or freed before the device has completed it. After any
  sequence of packets of the stack and of events from an empty queue (\<open>enable_fresh\<close>: an enabled
  interface starts with one), with \<open>Q\<close> the packets queued for the device in order and \<open>n\<close> the
  number of entries the device has completed, exactly the first \<open>n\<close> of \<open>Q\<close> have been freed, once
  each, besides the packets accepted but dropped without queueing; the others of \<open>Q\<close> are pending in their order in
  the slots from \<open>fTxCc\<close> on; and a \<open>disable\<close> that succeeds frees these.\<close>

theorem tx_exactly_once:
  fixes e :: "'a MlxEthernet"
  assumes "txPending e []" and "txRun xc e S Q n d"
  shows "subseq Q S \<and> n \<le> length Q \<and> txPending d (drop n Q) \<and>
    mset (txFreed d) = mset (txFreed e) + (mset S - mset Q) + mset (take n Q) \<and>
    (\<forall>caps me d'. ethDisable xc caps me d = (kIOReturnSuccess, d') \<longrightarrow> mset (txFreed d') = mset (txFreed e) + mset S)"
proof -
  have i: "subseq Q S" "n \<le> length Q" "txPending d (drop n Q)"
    "mset (txFreed d) + mset Q = mset (txFreed e) + mset S + mset (take n Q)"
    using run_inv [OF assms(2,1)] by (simp_all add: txRunInv_def)
  obtain R where R: "mset S = mset Q + R" using subseq_mset [OF i(1)] by (auto simp: mset_subset_eq_exists_conv)
  have Q: "mset Q = mset (take n Q) + mset (drop n Q)" by (metis append_take_drop_id mset_append)
  from i(4) have f: "mset (txFreed d) = mset (txFreed e) + (mset S - mset Q) + mset (take n Q)"
    by (simp add: R ac_simps)
  have "mset (txFreed d') = mset (txFreed e) + mset S"
    if "ethDisable xc caps me d = (kIOReturnSuccess, d')" for caps me d'
    using disable_frees [OF i(3) that] f Q R by (simp add: ac_simps)
  with i f show ?thesis by blast
qed

text \<open>An interface with an empty queue, its pool at 0x1000, and a packet.\<close>

definition samplePool :: buffer where "samplePool = replicate 524288 0"
definition sampleWq :: buffer where "sampleWq = replicate 16384 0"

definition sampleTx :: "unit MlxEthernet" where
  "sampleTx = (ethInit sampleEthCo None)\<lparr>eTxRing := Some ((ringInit 256 64)\<lparr>ring_wqBuf := Some sampleWq, ring_db := Some 0\<rparr>),
     eEnabled := True, eLkey := 1,
     eTx := txInit\<lparr>tx_sqn := 7, tx_cqn := 5, tx_bfValid := True, tx_cqBuf := True, tx_buf := \<lparr>em_desc = Some 0, em_map = Some 1, em_dma = 0x1000\<rparr>,
       tx_pool := samplePool\<rparr>\<rparr>"

definition sampleMbuf :: mbuf where
  "sampleMbuf = \<lparr>mb_id = 9, mb_len = 60, mb_data = Some (replicate 60 1)\<rparr>"

lemma sampleTx_fresh: "txPending sampleTx []"
  by (simp add: txPending_def sampleTx_def ringInit_def txInit_def pendAt_def)

lemma sampleTx_output: "fst (outputPacket (Some sampleMbuf) sampleTx) = kIOReturnOutputSuccess"
  by (simp add: outputPacket_def xmitPacket_def Let_def sampleTx_def sampleMbuf_def ringInit_def txInit_def txInlineLen_def ethInit_def
      MLX5E_INVALID_RESOURCE_def MLX5E_TX_BUF_SIZE_def)

lemma sampleTx_sent:
  assumes out: "outputPacket (Some sampleMbuf) sampleTx = (kIOReturnOutputSuccess, d)"
  obtains r where "d = txSent sampleMbuf r (replicate 60 1) sampleTx" "eTxRing sampleTx = Some r"
proof -
  let ?r = "(ringInit 256 64)\<lparr>ring_wqBuf := Some sampleWq, ring_db := Some 0\<rparr>"
  have "d = snd (outputPacket (Some sampleMbuf) sampleTx)" using out by simp
  then have "d = txSent sampleMbuf ?r (replicate 60 1) sampleTx"
    by (simp add: outputPacket_def xmitPacket_def Let_def sampleTx_def sampleMbuf_def ringInit_def txInit_def txInlineLen_def ethInit_def
        MLX5E_INVALID_RESOURCE_def MLX5E_TX_BUF_SIZE_def txSent_def txSlot_def updTx_def del: replicate.simps)
  then show thesis using that by (simp add: sampleTx_def)
qed

theorem tx_exactly_once_witness:
  "\<exists>d. txRun onesXc sampleTx [9] [9] 1 d \<and> txPending d [] \<and> freedMbufs (eLog d) = [9]"
proof -
  obtain d1 where out: "outputPacket (Some sampleMbuf) sampleTx = (kIOReturnOutputSuccess, d1)"
    using sampleTx_output by (metis prod.collapse)
    have nf: "freedMbufs (eLog sampleTx) = []" by (simp add: sampleTx_def ethInit_def)
  let ?eqe = "Some \<lparr>eqe_type = 0, eqe_subType = 0, eqe_data = [0, 0, 0, 0, 0, 0, 5], eqe_owner = 0\<rparr>"
  let ?cqes = "\<lambda>i s :: nat. \<lparr>cqe_byteCnt = 0, cqe_wqeCounter = 0, cqe_opOwn = if i = 0 then 0 else 0xF0\<rparr>"
  obtain r where d1: "d1 = txSent sampleMbuf r (replicate 60 1) sampleTx" "eTxRing sampleTx = Some r" by (rule sampleTx_sent [OF out])
  have p1: "txPending d1 [9]" "freedMbufs (eLog d1) = []"
    using sent_pending [OF sampleTx_fresh _ d1(2), of sampleMbuf "replicate 60 1"] nf unfolding d1(1) by (simp_all add: sampleMbuf_def)
  have v: "tx_cqn (eTx d1) = 5" "tx_cqBuf (eTx d1)" "tx_cqCc (eTx d1) = 0" "tx_cc (eTx d1) = 0" "tx_pc (eTx d1) = 1"
    unfolding d1(1) sent_frame by (simp_all add: sampleTx_def txInit_def)
  have run1: "txRun onesXc sampleTx [9] [9] 0 d1"
    using txRun.queued [OF txRun.fresh out] v(5) by (simp add: sampleMbuf_def sampleTx_def txInit_def)
  let ?d = "updTx (\<lambda>t. t\<lparr>tx_armSn := tx_armSn t + 1\<rparr>) d1"
  have q: "txQueue ?d = txQueue d1" by (simp add: queue_updTx)
  have p: "txPending ?d [9]" using p1(1) queue_pending [OF q] by blast
  have pub: "txPublished ?cqes 0 [1] 0 0" by code_simp
  have "tx_cqBuf (eTx ?d)" "tx_cqCc (eTx ?d) = 0" "tx_cc (eTx ?d) = 0" using v by (simp_all add: updTx_def)
  then obtain d where d: "pollTxCq ?cqes ?d = Some d" "freedMbufs (eLog d) = freedMbufs (eLog ?d) @ [9]"
    using poll_pending [OF p, of ?cqes "[1]"] pub by auto
  have ev: "txEvent (ucast MLX_EVENT_TYPE_COMPLETION) ?eqe d1" by (simp add: txEvent_def v)
  have "txRun onesXc sampleTx [9] [9] (0 + sum_list [1]) d"
    by (rule txRun.completed [OF run1 ev, of ?cqes "[1]" "\<lambda>i s. []" "\<lambda>i. True"]) (use pub v tx_event [OF ev] d(1) in simp_all)
  moreover have "freedMbufs (eLog d) = [9]" using d(2) p1(2) by (simp add: updTx_def)
  ultimately show ?thesis
    using tx_exactly_once [OF sampleTx_fresh, of onesXc "[9]" "[9]" 1 d] by auto
qed

text \<open>C34: what a transmission leaves for the device. When the driver queues a packet, the entry in its slot
  is a SEND of exactly the bytes of the packet (inlined header and pool together), from this queue,
  under the driver's key and asking for a completion; every other entry and every other slot of
  the pool are as they were; the doorbell record carries the new producer counter and the first
  8 bytes of the entry are written to the BF register, once.\<close>

theorem xmit_posts_packet:
  fixes e :: "'a MlxEthernet"
  assumes "txPending e ids" and "eTxRing e = Some r" "ring_wqebb r = 64" "ring_wqBuf r = Some b" "length b = 64 * 256"
    and "length (tx_pool (eTx e)) = 256 * 2048" and "mb_data m = Some bytes" "length bytes = unat (mb_len m)"
    and "outputPacket (Some m) e = (kIOReturnOutputSuccess, e')" "tx_pc (eTx e') \<noteq> tx_pc (eTx e)"
  shows "\<exists>r' b' w. eTxRing e' = Some r' \<and> ring_wqBuf r' = Some b' \<and> tx_pc (eTx e') = tx_pc (eTx e) + 1 \<and>
    (let i = unat (tx_pc (eTx e) AND 255) in
      (\<forall>j < 256. bytesAt b' (j * 64) 64 = (if j = i then w else bytesAt b (j * 64) 64)) \<and>
      (\<forall>j < 256. j \<noteq> i \<longrightarrow> bytesAt (tx_pool (eTx e')) (j * 2048) 2048 = bytesAt (tx_pool (eTx e)) (j * 2048) 2048)) \<and>
    wireBytes w (em_dma (tx_buf (eTx e))) (tx_pool (eTx e')) = bytes \<and>
    mlxGetBits w 0 32 = ucast (push_bit 8 (ucast (tx_pc (eTx e)) :: u32) OR MLX_OPCODE_SEND) \<and>
    mlxGetBits w 32 32 = ucast (push_bit 8 (tx_sqn (eTx e)) OR (if txInlineLen e = 0 then 3 else 4)) \<and>
    mlxGetBits w (if txInlineLen e = 0 then 288 else 416) 32 = ucast (eLkey e) \<and> w ! 11 = MLX_WQE_CTRL_CQ_UPDATE \<and>
    eLog e' = eLog e @ [WriteBf (bf_map (tx_bf (eTx e))) (take 8 w)] \<and>
    (\<forall>d page. ring_db r = Some d \<longrightarrow> fDbRecord (ethUar e) = Some page \<longrightarrow>
       fDbRecord (ethUar e') = Some (OSWriteBigInt32 page d (ucast (ucast (tx_pc (eTx e) + 1) :: u32))))"
proof -
  obtain k where x: "xmitPacket m e = (k, e')" "k = kIOReturnSuccess"
    using assms(9) by (cases "xmitPacket m e") (auto simp: outputPacket_def split: if_splits)
  have size: "ring_size r = 256" using assms(1,2) by (auto simp: txPending_def)
  from x(1) obtain "0 < mb_len m" "unat (mb_len m) \<le> MLX5E_TX_BUF_SIZE" "txInlineLen e \<le> unat (mb_len m)" "e' = txSent m r bytes e"
    by (cases rule: xmit_cases) (use assms x(2) in \<open>auto simp: ethLog_def updTx_def\<close>)
  note c = this
  define i where "i = unat (tx_pc (eTx e) AND 255)"
  define w where "w = txWqe (tx_pc (eTx e)) (tx_sqn (eTx e)) (eLkey e) (txInlineLen e) (mb_len m)
    (em_dma (tx_buf (eTx e)) + of_nat (i * 2048)) bytes"
  have i: "i < 256" by (simp add: i_def slot_byte byte_unat)
  have inl: "txInlineLen e = 0 \<or> txInlineLen e = 14" by (simp add: txInlineLen_def)
  have lw: "length w = 64" using inl by (auto simp: w_def intro!: txWqe_length)
  note s = sent_exact [OF size assms(3-6,8) c(1-3) i_def w_def, folded c(4)]
  have pool: "tx_pool (eTx e') = copyInto (tx_pool (eTx e)) (i * 2048) bytes"
    by (simp add: c(4) sent_frame txSlot_def size i_def)
  have lb: "length bytes \<le> 2048" using c(2) assms(8) by (simp add: MLX5E_TX_BUF_SIZE_def)
  have other: "bytesAt (tx_pool (eTx e')) (j * 2048) 2048 = bytesAt (tx_pool (eTx e)) (j * 2048) 2048" if "j < 256" "j \<noteq> i" for j
  proof -
    have "j * 2048 + 2048 \<le> i * 2048 \<or> i * 2048 + 2048 \<le> j * 2048" using that(2) by linarith
    then show ?thesis using that i lb assms(6) by (auto simp: pool bytesAt_copyInto_other)
  qed
  have fields: "mlxGetBits w 0 32 = ucast (push_bit 8 (ucast (tx_pc (eTx e)) :: u32) OR MLX_OPCODE_SEND)"
    "mlxGetBits w 32 32 = ucast (push_bit 8 (tx_sqn (eTx e)) OR (if txInlineLen e = 0 then 3 else 4))"
    "mlxGetBits w (if txInlineLen e = 0 then 288 else 416) 32 = ucast (eLkey e)" "w ! 11 = MLX_WQE_CTRL_CQ_UPDATE"
    using inl txWqe_plain [of w] txWqe_inline [of bytes w] c(3) assms(8) by (auto simp: w_def)
  show ?thesis using s copy_slots [OF assms(5) lw i] other fields
    by (auto simp: Let_def i_def [symmetric])
qed

theorem xmit_posts_packet_witness:
  "\<exists>e' w. outputPacket (Some sampleMbuf) sampleTx = (kIOReturnOutputSuccess, e') \<and>
     wireBytes w 0x1000 (tx_pool (eTx e')) = replicate 60 1 \<and> mlxGetBits w 0 32 = 0x0A \<and>
     mlxGetBits w 32 32 = 0x703 \<and> eLog e' = [WriteBf 0 (take 8 w)]"
proof -
  obtain e' where out: "outputPacket (Some sampleMbuf) sampleTx = (kIOReturnOutputSuccess, e')"
    using sampleTx_output by (metis prod.collapse)
  obtain r where d: "e' = txSent sampleMbuf r (replicate 60 1) sampleTx" by (rule sampleTx_sent [OF out])
  let ?r = "(ringInit 256 64)\<lparr>ring_wqBuf := Some sampleWq, ring_db := Some 0\<rparr>"
  have ring: "eTxRing sampleTx = Some ?r" "ring_wqebb ?r = 64" "ring_wqBuf ?r = Some sampleWq" by (simp_all add: sampleTx_def ringInit_def)
  have lens: "length sampleWq = 64 * 256" "length (tx_pool (eTx sampleTx)) = 256 * 2048"
    by (simp_all add: sampleWq_def sampleTx_def samplePool_def del: replicate.simps)
  have m: "mb_data sampleMbuf = Some (replicate 60 1)" "length (replicate 60 1 :: buffer) = unat (mb_len sampleMbuf)"
    by (simp_all add: sampleMbuf_def del: replicate.simps)
  have pc: "tx_pc (eTx e') \<noteq> tx_pc (eTx sampleTx)" unfolding d sent_frame by simp
  have v: "tx_pc (eTx sampleTx) = 0" "tx_sqn (eTx sampleTx) = 7" "em_dma (tx_buf (eTx sampleTx)) = 0x1000" "txInlineLen sampleTx = 0"
    "eLog sampleTx = []" "bf_map (tx_bf (eTx sampleTx)) = 0"
    by (simp_all add: sampleTx_def txInit_def txInlineLen_def ethInit_def)
  from xmit_posts_packet [OF sampleTx_fresh ring lens m out pc] out show ?thesis
    unfolding v by (auto simp: MLX_OPCODE_SEND_def)
qed

text \<open>C35: no received packet is lost, and the ring never runs dry. When the device has written \<open>n\<close> completions, a
  poll returns after exactly these; every one of them that carries a packet is handed to the
  stack, in order, with the bytes of its slot (when there is an mbuf for it and the interface is
  up); every entry of the queue still describes its slot of the pool; and \<open>n\<close> slots have been
  posted again, with the doorbell record saying so.\<close>

theorem rx_poll_delivers:
  fixes e :: "'a MlxEthernet"
  assumes "rxPosted e" "rxCqApart e" "rx_cqBuf (eRx e)" and "rxPublished cqes 0 n (rx_cqCc (eRx e))"
  shows "\<exists>e'. pollRxCq cqes slots mb e = Some e' \<and> rxPosted e' \<and>
    rx_pc (eRx e') = rx_pc (eRx e) + of_nat n \<and> rx_cqCc (eRx e') = rx_cqCc (eRx e) + of_nat n \<and>
    rxDbWord e' = (if n = 0 then rxDbWord e else Some (ucast (rx_pc (eRx e) + of_nat n))) \<and>
    rxInputs (eLog e') = rxInputs (eLog e) @ (if eEnabled e \<and> eNic e then rxArrived cqes slots mb 0 n (rx_cqCc (eRx e)) else [])"
  by (rule poll_spec [OF assms])

text \<open>An enabled interface, and the three answers of one poll: a packet of 3 bytes, an error, nothing.\<close>

definition sampleRx :: "unit MlxEthernet" where
  "sampleRx = (ethInit sampleEthCo None)\<lparr>eRxRing := Some ((ringInit 256 64)\<lparr>ring_wqBuf := Some sampleWq, ring_db := Some 0\<rparr>),
     eEnabled := True, eNic := True, eLkey := 1,
     eRx := rxInit\<lparr>rx_cqBuf := True, rx_cqDbOffset := 8, rx_buf := \<lparr>em_desc = Some 0, em_map = Some 1, em_dma = 0x1000\<rparr>\<rparr>\<rparr>"

definition sampleCqes :: "nat \<Rightarrow> nat \<Rightarrow> MlxCqe64" where
  "sampleCqes i s = \<lparr>cqe_byteCnt = 3, cqe_wqeCounter = of_nat i, cqe_opOwn = if i = 0 then 0x20 else if i = 1 then 0xE0 else 0xF0\<rparr>"

theorem rx_poll_delivers_witness:
  "\<exists>e e'. postAllRx sampleRx = (kIOReturnSuccess, e) \<and> pollRxCq sampleCqes (\<lambda>i s. [1, 2, 3, 4]) (\<lambda>i. True) e = Some e' \<and>
     rxInputs (eLog e') = [([1, 2, 3], 3)] \<and> rxDbWord e' = Some 258 \<and> rxPosted e'"
proof -
  obtain r page where r: "eRxRing sampleRx = Some r" "ring_wqBuf r = Some sampleWq" "length sampleWq = 64 * 256" "ring_db r = Some 0"
    "fDbRecord (ethUar sampleRx) = Some page" "length page = 4096"
    by (simp add: sampleRx_def sampleWq_def ringInit_def ethInit_def sampleEthCo_def sampleCo_def)
  obtain e where e: "postAllRx sampleRx = (kIOReturnSuccess, e)" "rxPosted e" "rxDbOk e" "rxFix e = rxFix sampleRx"
    "rx_cqCc (eRx e) = 0" "rx_pc (eRx e) = 256" "rxInputs (eLog e) = []"
    using postAll_posted [OF r(1-3) _ _ r(4,5)] r(6) by (auto simp: sampleRx_def rxInit_def ethInit_def)
  have "rxCqApart e" using apart_fix [OF e(4,3)] r by (simp add: rxCqApart_def Let_def) (simp add: sampleRx_def)
  moreover have "rx_cqBuf (eRx e)" "eEnabled e" "eNic e" using e(4) by (simp_all add: rxFix_def sampleRx_def)
  moreover have "rxPublished sampleCqes 0 2 (rx_cqCc (eRx e))" unfolding e(5) by code_simp
  moreover have "rxArrived sampleCqes (\<lambda>i s. [1, 2, 3, 4]) (\<lambda>i. True) 0 2 0 = [([1, 2, 3], 3)]" by code_simp
  ultimately show ?thesis
    using rx_poll_delivers [OF e(2), of sampleCqes 2 "\<lambda>i s. [1, 2, 3, 4]" "\<lambda>i. True"] e(1,5,6,7) by auto
qed

end
