(* ===== verification/MlxLib.thy ===== *)
theory MlxLib
  imports MlxUserClient MlxEthData
begin

text \<open>
  \<^verbatim>\<open>usermode/libmlx/libmlx.{h,c}\<close>: the library a process links. The control path goes through
  \<^verbatim>\<open>IOConnectCallStructMethod\<close>, a function \<open>call\<close> on the kernel side \<open>'k\<close> of the connection that
  may not return; \<open>mapMem\<close> is \<^verbatim>\<open>IOConnectMapMemory\<close>. \<open>kernelCall\<close> and \<open>kernelMap\<close> are the two
  for the user client of this repository. The data path writes the process's own memory: the
  queue buffers, the doorbell record and the UAR are parts of the queue pair's record, and the
  completion entries, which the device writes, are an argument of the poll.
\<close>

unbundle bit_operations_syntax

section \<open>Constants\<close>

definition kMlxUCMethodQueryDevice :: u32 where "kMlxUCMethodQueryDevice = 0x1002"
definition kMlxUCMethodQueryPort :: u32 where "kMlxUCMethodQueryPort = 0x1003"
definition kMlxUCMethodCreateQP :: u32 where "kMlxUCMethodCreateQP = 0x1020"
definition kMlxUCMethodModifyQP :: u32 where "kMlxUCMethodModifyQP = 0x1021"
definition kMlxUCMethodDestroyQP :: u32 where "kMlxUCMethodDestroyQP = 0x1022"
definition kMlxUCMethodCreateCQ :: u32 where "kMlxUCMethodCreateCQ = 0x1030"
definition kMlxUCMethodDestroyCQ :: u32 where "kMlxUCMethodDestroyCQ = 0x1031"
definition kMlxUCMethodRegMR :: u32 where "kMlxUCMethodRegMR = 0x1040"
definition kMlxUCMethodDeregMR :: u32 where "kMlxUCMethodDeregMR = 0x1041"
definition kMlxUCMethodCreateAH :: u32 where "kMlxUCMethodCreateAH = 0x1050"
definition kMlxUCMethodDestroyAH :: u32 where "kMlxUCMethodDestroyAH = 0x1051"
definition kMlxUCMethodVirtToPhys :: u32 where "kMlxUCMethodVirtToPhys = 0x1090"
definition kMlxUCMethodQueryCqCompletions :: u32 where "kMlxUCMethodQueryCqCompletions = 0x1092"
definition kMlxUCMethodGetAsyncEvent :: u32 where "kMlxUCMethodGetAsyncEvent = 0x1093"
definition kMlxUCMethodUpdateCqConsumer :: u32 where "kMlxUCMethodUpdateCqConsumer = 0x1094"

definition MLX_OPCODE_RDMA_WRITE :: u32 where "MLX_OPCODE_RDMA_WRITE = 0x08"
definition MLX_OPCODE_RDMA_READ :: u32 where "MLX_OPCODE_RDMA_READ = 0x10"
definition MLX_WR_SEND :: u32 where "MLX_WR_SEND = 0"
definition MLX_WR_RDMA_WRITE :: u32 where "MLX_WR_RDMA_WRITE = 1"
definition MLX_WR_RDMA_READ :: u32 where "MLX_WR_RDMA_READ = 2"

text \<open>The values of \<^verbatim>\<open>errno.h\<close> on macOS.\<close>

definition EINVAL :: int where "EINVAL = 22"
definition EIO :: int where "EIO = 5"
definition EAGAIN :: int where "EAGAIN = 35"

section \<open>The kernel side of a connection\<close>

type_synonym 'k ucCall = "u32 \<Rightarrow> ucArgs \<Rightarrow> 'k \<Rightarrow> (ioreturn \<times> ucOut \<times> 'k) option"

text \<open>Result code, address and size of the mapping.\<close>

type_synonym 'k ucMap = "u32 \<Rightarrow> 'k \<Rightarrow> ioreturn \<times> u64 \<times> u64"

definition portZero :: mlx_query_port_resp where
  "portZero = \<lparr>qpr_portNum = 0, qpr_linkLayer = 0, qpr_portState = 0, qpr_gidType = 0, qpr_activeSpeed = 0,
     qpr_maxMtu = 0, qpr_lid = 0, qpr_smLid = 0, qpr_pkeyTblLen = 0, qpr_gidTblLen = 0\<rparr>"

definition noArgs :: ucArgs where
  "noArgs = \<lparr>aOut = False, aHandle = 0, aVirt = None, aCreateQp = None, aModifyQp = None, aEntries = 0,
     aRegMr = None, aCreateAh = None, aCc = None, aCqHandle = None, aConsumer = None, aPort = portZero\<rparr>"

text \<open>The user client as the kernel side; \<open>at\<close> says where IOKit maps a descriptor.\<close>

definition kernelCall ::
  "'w execFn \<Rightarrow> (nat \<Rightarrow> nat \<Rightarrow> ioreturn option) \<Rightarrow> ucEnv \<Rightarrow> (MlxUserClient \<times> 'w MlxRoCE) ucCall" where
  "kernelCall xc super env selector a k =
     (case externalMethod xc super env selector a (fst k) (snd k) of
        None \<Rightarrow> None
      | Some (kr, out, uc, ro) \<Rightarrow> Some (kr, out, uc, ro))"

definition kernelMap :: "(nat \<Rightarrow> ioreturn \<times> u64 \<times> u64) \<Rightarrow> (MlxUserClient \<times> 'w MlxRoCE) ucMap" where
  "kernelMap at type k =
     (case clientMemoryForType type True (fst k) (snd k) of
        (kr, Some d) \<Rightarrow> (if kr = kIOReturnSuccess then at d else (kr, 0, 0))
      | (kr, None) \<Rightarrow> (if kr = kIOReturnSuccess then kIOReturnError else kr, 0, 0))"

section \<open>Device\<close>

text \<open>
  \<open>cx_conn\<close> is the connection, numbered by the service it was opened on; \<open>cx_uarMap = 0\<close> is the
  NULL pointer.
\<close>

record mlx_context =
  cx_conn :: nat
  cx_uarMap :: u64
  cx_devname :: string

text \<open>A service of the registry: its device name, when it is a string that fits, and what
  \<^verbatim>\<open>IOServiceOpen\<close> returns.\<close>

record mlxService =
  sv_name :: "string option"
  sv_open :: ioreturn

fun findService :: "string option \<Rightarrow> nat \<Rightarrow> mlxService list \<Rightarrow> (nat \<times> mlxService) option" where
  "findService name i [] = None"
| "findService name i (s # ss) =
     (if name = None \<or> name = Some [] \<or> (sv_name s \<noteq> None \<and> sv_name s = name) then Some (i, s)
      else findService name (i + 1) ss)"

text \<open>\<open>matching\<close> is the result of \<^verbatim>\<open>IOServiceGetMatchingServices\<close>, \<open>k i\<close> the fresh kernel side of service \<open>i\<close>.\<close>

definition mlx_open_device_by_name ::
  "'k ucMap \<Rightarrow> (nat \<Rightarrow> 'k) \<Rightarrow> bool \<Rightarrow> ioreturn \<Rightarrow> mlxService list \<Rightarrow> string option \<Rightarrow> mlx_context option" where
  "mlx_open_device_by_name mapMem k alloc matching svcs name =
     (if \<not> alloc then None
      else if matching \<noteq> kIOReturnSuccess then None
      else
        (case findService name 0 svcs of
           None \<Rightarrow> None
         | Some (i, s) \<Rightarrow>
             if sv_open s \<noteq> kIOReturnSuccess then None
             else
               (case mapMem kMlxUCMemIndexUar (k i) of
                  (kr, uar, uarSize) \<Rightarrow>
                    Some \<lparr>cx_conn = i, cx_uarMap = (if kr = kIOReturnSuccess \<and> uar \<noteq> 0 then uar else 0),
                          cx_devname = (case name of None \<Rightarrow> [] | Some n \<Rightarrow> take 63 n)\<rparr>)))"

definition mlx_open_device ::
  "'k ucMap \<Rightarrow> (nat \<Rightarrow> 'k) \<Rightarrow> bool \<Rightarrow> ioreturn \<Rightarrow> mlxService list \<Rightarrow> mlx_context option" where
  "mlx_open_device mapMem k alloc matching svcs = mlx_open_device_by_name mapMem k alloc matching svcs None"

text \<open>\<open>dup i\<close> says whether \<^verbatim>\<open>strdup\<close> finds memory for service \<open>i\<close>.\<close>

fun listNames :: "(nat \<Rightarrow> bool) \<Rightarrow> nat \<Rightarrow> nat \<Rightarrow> mlxService list \<Rightarrow> string list" where
  "listNames dup i room [] = []"
| "listNames dup i 0 (s # ss) = []"
| "listNames dup i (Suc room) (s # ss) =
     (case sv_name s of
        None \<Rightarrow> listNames dup (i + 1) (Suc room) ss
      | Some n \<Rightarrow> if dup i then n # listNames dup (i + 1) room ss else listNames dup (i + 1) (Suc room) ss)"

definition mlx_list_devices :: "(nat \<Rightarrow> bool) \<Rightarrow> ioreturn \<Rightarrow> mlxService list \<Rightarrow> bool \<Rightarrow> int \<Rightarrow> string list" where
  "mlx_list_devices dup matching svcs names limit =
     (if \<not> names \<or> limit \<le> 0 then []
      else if matching \<noteq> kIOReturnSuccess then []
      else listNames dup 0 (nat limit) svcs)"

text \<open>\<open>close\<close> is what \<^verbatim>\<open>IOServiceClose\<close> makes the kernel do.\<close>

definition mlx_close_device :: "('k \<Rightarrow> 'k) \<Rightarrow> mlx_context option \<Rightarrow> 'k \<Rightarrow> 'k" where
  "mlx_close_device close ctx k = (case ctx of None \<Rightarrow> k | Some c \<Rightarrow> close k)"

definition mlx_query_device ::
  "'k ucCall \<Rightarrow> mlx_context option \<Rightarrow> bool \<Rightarrow> 'k \<Rightarrow> (int \<times> mlx_query_device_resp option \<times> 'k) option" where
  "mlx_query_device call ctx resp k =
     (if ctx = None \<or> \<not> resp then Some (EINVAL, None, k)
      else
        (case call kMlxUCMethodQueryDevice (noArgs\<lparr>aOut := True\<rparr>) k of
           None \<Rightarrow> None
         | Some (kr, out, k) \<Rightarrow>
             Some (if kr = kIOReturnSuccess then 0 else EIO, (case out of OutDevice r \<Rightarrow> Some r | _ \<Rightarrow> None), k)))"

definition mlx_query_port ::
  "'k ucCall \<Rightarrow> mlx_context option \<Rightarrow> mlx_query_port_resp option \<Rightarrow> 'k \<Rightarrow>
   (int \<times> mlx_query_port_resp option \<times> 'k) option" where
  "mlx_query_port call ctx resp k =
     (case resp of
        None \<Rightarrow> Some (EINVAL, None, k)
      | Some old \<Rightarrow>
          if ctx = None then Some (EINVAL, resp, k)
          else
            (case call kMlxUCMethodQueryPort (noArgs\<lparr>aOut := True, aPort := old\<rparr>) k of
               None \<Rightarrow> None
             | Some (kr, out, k) \<Rightarrow>
                 Some (if kr = kIOReturnSuccess then 0 else EIO, Some (case out of OutPort r \<Rightarrow> r | _ \<Rightarrow> old), k)))"

definition virt_to_phys :: "'k ucCall \<Rightarrow> u64 \<Rightarrow> 'k \<Rightarrow> (u64 \<times> 'k) option" where
  "virt_to_phys call virt k =
     (case call kMlxUCMethodVirtToPhys (noArgs\<lparr>aVirt := Some virt, aOut := True\<rparr>) k of
        None \<Rightarrow> None
      | Some (kr, out, k) \<Rightarrow>
          Some (if kr = kIOReturnSuccess then (case out of OutU64 p \<Rightarrow> p | _ \<Rightarrow> 0) else 0, k))"

section \<open>Protection domain and completion queue\<close>

record mlx_pd =
  pd_pd :: u32

definition mlx_alloc_pd :: "bool \<Rightarrow> mlx_context option \<Rightarrow> mlx_pd option" where
  "mlx_alloc_pd alloc ctx = (if ctx = None \<or> \<not> alloc then None else Some \<lparr>pd_pd = 1\<rparr>)"

record mlx_cq =
  lc_cqHandle :: u32
  lc_cqeBuf :: u64
  lc_logSize :: u32
  lc_consIndex :: u32

definition destroyCall :: "'k ucCall \<Rightarrow> u32 \<Rightarrow> u32 \<Rightarrow> 'k \<Rightarrow> 'k option" where
  "destroyCall call selector handle k = map_option (\<lambda>(kr, out, k). k) (call selector (noArgs\<lparr>aHandle := handle\<rparr>) k)"

text \<open>The second result is what was stored through \<^verbatim>\<open>cqHandle\<close>, if anything was.\<close>

definition mlx_create_cq ::
  "'k ucCall \<Rightarrow> 'k ucMap \<Rightarrow> bool \<Rightarrow> mlx_context option \<Rightarrow> u32 \<Rightarrow> bool \<Rightarrow> 'k \<Rightarrow>
   (mlx_cq option \<times> u32 option \<times> 'k) option" where
  "mlx_create_cq call mapMem alloc ctx cqe cqHandle k =
     (if ctx = None \<or> \<not> cqHandle then Some (None, None, k)
      else if \<not> alloc then Some (None, None, k)
      else
        (case call kMlxUCMethodCreateCQ (noArgs\<lparr>aEntries := cqe, aOut := True\<rparr>) k of
           None \<Rightarrow> None
         | Some (kr, out, k) \<Rightarrow>
             if kr \<noteq> kIOReturnSuccess then Some (None, None, k)
             else
               (let (h, lg) = (case out of OutCq r \<Rightarrow> (cqr_cqHandle r, cqr_logSize r) | _ \<Rightarrow> (0, 0));
                    (mkr, mapped, mappedSize) = mapMem kMlxUCMemIndexCqe k
                in if mkr = kIOReturnSuccess \<and> mapped \<noteq> 0
                   then Some (Some \<lparr>lc_cqHandle = h, lc_cqeBuf = mapped, lc_logSize = lg, lc_consIndex = 0\<rparr>, Some h, k)
                   else map_option (\<lambda>k. (None, Some h, k)) (destroyCall call kMlxUCMethodDestroyCQ h k))))"

definition mlx_destroy_cq :: "'k ucCall \<Rightarrow> mlx_cq option \<Rightarrow> 'k \<Rightarrow> 'k option" where
  "mlx_destroy_cq call cq k =
     (case cq of None \<Rightarrow> Some k | Some c \<Rightarrow> destroyCall call kMlxUCMethodDestroyCQ (lc_cqHandle c) k)"

section \<open>Queue pair\<close>

text \<open>
  \<open>lq_sqBuf\<close>, \<open>lq_rqBuf\<close> and \<open>lq_dbRecord\<close> are the bytes in the process's memory, \<open>lq_uar\<close> the
  address of the mapped UAR, \<open>lq_bells\<close> the doorbells written, with their address.
\<close>

record mlx_qp =
  lq_qpn :: u32
  lq_qpType :: u32
  lq_sqBuf :: buffer
  lq_rqBuf :: buffer
  lq_sqSize :: u32
  lq_rqSize :: u32
  lq_uar :: u64
  lq_bfOffset :: u32
  lq_dbRecord :: "buffer option"
  lq_sqHead :: u32
  lq_rqHead :: u32
  lq_state :: u32
  lq_wrid :: "u64 list"
  lq_bells :: "(u64 \<times> buffer) list"

text \<open>The caller's buffers: their address and their bytes.\<close>

type_synonym userBuf = "u64 \<times> buffer"

text \<open>\<open>alloc\<close> and \<open>wrid\<close> answer the two allocations, \<open>db\<close> is what the doorbell page holds at an offset.\<close>

definition mlx_create_qp ::
  "'k ucCall \<Rightarrow> 'k ucMap \<Rightarrow> bool \<Rightarrow> bool \<Rightarrow> (u32 \<Rightarrow> buffer) \<Rightarrow> mlx_context option \<Rightarrow> mlx_pd option \<Rightarrow>
   mlx_cq option \<Rightarrow> mlx_cq option \<Rightarrow> u32 \<Rightarrow> u32 \<Rightarrow> u32 \<Rightarrow> userBuf \<Rightarrow> userBuf \<Rightarrow> 'k \<Rightarrow> (mlx_qp option \<times> 'k) option" where
  "mlx_create_qp call mapMem alloc wrid db ctx pd sendCq recvCq ty sqSize rqSize sqBuf rqBuf k =
     (case (ctx, sendCq) of
        (Some c, Some scq) \<Rightarrow>
          if \<not> alloc \<or> \<not> wrid then Some (None, k)
          else
            (let req = \<lparr>cq_pd = (case pd of None \<Rightarrow> 1 | Some p \<Rightarrow> pd_pd p), cq_sendCq = lc_cqHandle scq,
                   cq_recvCq = lc_cqHandle (case recvCq of None \<Rightarrow> scq | Some r \<Rightarrow> r), cq_qpType = ty,
                   cq_sqSize = sqSize, cq_rqSize = rqSize, cq_sqBufAddr = fst sqBuf, cq_rqBufAddr = fst rqBuf\<rparr>
             in case call kMlxUCMethodCreateQP (noArgs\<lparr>aCreateQp := Some req, aOut := True\<rparr>) k of
                  None \<Rightarrow> None
                | Some (kr, out, k) \<Rightarrow>
                    if kr \<noteq> kIOReturnSuccess then Some (None, k)
                    else
                      (let (qpn, off, bf) = (case out of
                               OutQp r \<Rightarrow> (cr_qpn r, cr_dbRecordOffset r, cr_bfOffset r) | _ \<Rightarrow> (0, 0, 0));
                           (mkr, dbAddr, dbSize) = mapMem kMlxUCMemIndexDbRecord k;
                           dbOk = (mkr = kIOReturnSuccess \<and> dbAddr \<noteq> 0 \<and> ucast off + 8 \<le> dbSize)
                       in if cx_uarMap c = 0 \<or> \<not> dbOk
                          then map_option (\<lambda>k. (None, k)) (destroyCall call kMlxUCMethodDestroyQP qpn k)
                          else Some (Some \<lparr>lq_qpn = qpn, lq_qpType = ty, lq_sqBuf = snd sqBuf,
                                 lq_rqBuf = snd rqBuf, lq_sqSize = sqSize, lq_rqSize = rqSize,
                                 lq_uar = cx_uarMap c, lq_bfOffset = bf, lq_dbRecord = Some (db off),
                                 lq_sqHead = 0, lq_rqHead = 0, lq_state = 0,
                                 lq_wrid = replicate (unat sqSize) 0, lq_bells = []\<rparr>, k)))
      | _ \<Rightarrow> Some (None, k))"

text \<open>\<^verbatim>\<open>memset(&req, 0, sizeof(req))\<close>\<close>

definition modifyZero :: mlx_modify_qp_req where
  "modifyZero = \<lparr>mq_qpn = 0, mq_curState = 0, mq_newState = 0, mq_destQpn = 0, mq_pathMtu = 0, mq_rqPsn = 0,
     mq_sqPsn = 0, mq_pkeyIndex = 0, mq_portNum = 0, mq_ahDmac = replicate 6 0, mq_ahDgid = replicate 16 0,
     mq_ahSgidIndex = 0, mq_ahHopLimit = 0, mq_ahTrafficClass = 0, mq_ahUdpSport = 0, mq_minRnrTimer = 0,
     mq_maxDestRdAtomic = 0, mq_maxRdAtomic = 0\<rparr>"

definition mlx_modify_qp ::
  "'k ucCall \<Rightarrow> mlx_qp option \<Rightarrow> u32 \<Rightarrow> u32 \<Rightarrow> mlx_modify_qp_req option \<Rightarrow> 'k \<Rightarrow> (int \<times> mlx_qp option \<times> 'k) option" where
  "mlx_modify_qp call qp curState newState attr k =
     (case qp of
        None \<Rightarrow> Some (EINVAL, None, k)
      | Some q \<Rightarrow>
          (let req = (case attr of None \<Rightarrow> modifyZero | Some a \<Rightarrow> a)
                 \<lparr>mq_qpn := lq_qpn q, mq_curState := curState, mq_newState := newState\<rparr>
           in case call kMlxUCMethodModifyQP (noArgs\<lparr>aModifyQp := Some req\<rparr>) k of
                None \<Rightarrow> None
              | Some (kr, out, k) \<Rightarrow>
                  if kr \<noteq> kIOReturnSuccess then Some (EIO, qp, k)
                  else Some (0, Some (q\<lparr>lq_state := newState\<rparr>), k)))"

definition mlx_destroy_qp :: "'k ucCall \<Rightarrow> mlx_qp option \<Rightarrow> 'k \<Rightarrow> 'k option" where
  "mlx_destroy_qp call qp k =
     (case qp of None \<Rightarrow> Some k | Some q \<Rightarrow> destroyCall call kMlxUCMethodDestroyQP (lq_qpn q) k)"

section \<open>Memory region and address handle\<close>

record mlx_mr =
  lm_mrHandle :: u32
  lm_lkey :: u32
  lm_rkey :: u32
  lm_addr :: u64
  lm_length :: u64

definition mlx_reg_mr ::
  "'k ucCall \<Rightarrow> bool \<Rightarrow> mlx_pd option \<Rightarrow> u64 \<Rightarrow> u64 \<Rightarrow> u32 \<Rightarrow> bool \<Rightarrow> 'k \<Rightarrow>
   (mlx_mr option \<times> mlx_reg_mr_resp option \<times> 'k) option" where
  "mlx_reg_mr call alloc pd addr len accessFlags outp k =
     (case pd of
        None \<Rightarrow> Some (None, None, k)
      | Some p \<Rightarrow>
          if addr = 0 \<or> \<not> outp \<or> \<not> alloc then Some (None, None, k)
          else
            (case call kMlxUCMethodRegMR
                    (noArgs\<lparr>aRegMr := Some \<lparr>rm_startAddr = addr, rm_length = len, rm_pd = pd_pd p,
                       rm_accessFlags = accessFlags\<rparr>, aOut := True\<rparr>) k of
               None \<Rightarrow> None
             | Some (kr, out, k) \<Rightarrow>
                 if kr \<noteq> kIOReturnSuccess then Some (None, None, k)
                 else
                   (let r = (case out of OutMr r \<Rightarrow> r | _ \<Rightarrow> \<lparr>rmr_mrHandle = 0, rmr_lkey = 0, rmr_rkey = 0\<rparr>)
                    in Some (Some \<lparr>lm_mrHandle = rmr_mrHandle r, lm_lkey = rmr_lkey r, lm_rkey = rmr_rkey r,
                               lm_addr = addr, lm_length = len\<rparr>, Some r, k))))"

definition mlx_dereg_mr :: "'k ucCall \<Rightarrow> mlx_mr option \<Rightarrow> 'k \<Rightarrow> 'k option" where
  "mlx_dereg_mr call mr k =
     (case mr of None \<Rightarrow> Some k | Some m \<Rightarrow> destroyCall call kMlxUCMethodDeregMR (lm_mrHandle m) k)"

text \<open>The handle of the new address handle is both results.\<close>

definition mlx_create_ah ::
  "'k ucCall \<Rightarrow> bool \<Rightarrow> mlx_context option \<Rightarrow> mlx_create_ah_req option \<Rightarrow> bool \<Rightarrow> 'k \<Rightarrow> (u32 option \<times> 'k) option" where
  "mlx_create_ah call alloc ctx req outp k =
     (if ctx = None \<or> req = None \<or> \<not> outp \<or> \<not> alloc then Some (None, k)
      else
        (case call kMlxUCMethodCreateAH (noArgs\<lparr>aCreateAh := req, aOut := True\<rparr>) k of
           None \<Rightarrow> None
         | Some (kr, out, k) \<Rightarrow>
             if kr \<noteq> kIOReturnSuccess then Some (None, k)
             else Some (Some (case out of OutAh h \<Rightarrow> h | _ \<Rightarrow> 0), k)))"

definition mlx_destroy_ah :: "'k ucCall \<Rightarrow> u32 option \<Rightarrow> 'k \<Rightarrow> 'k option" where
  "mlx_destroy_ah call ah k = (case ah of None \<Rightarrow> Some k | Some h \<Rightarrow> destroyCall call kMlxUCMethodDestroyAH h k)"

section \<open>Posting\<close>

record mlx_send_wr =
  sw_wrType :: u32
  sw_remoteAddr :: u64
  sw_rkey :: u32
  sw_data :: u64
  sw_length :: u32
  sw_lkey :: u32
  sw_wrId :: u64

definition wrRdma :: "mlx_send_wr \<Rightarrow> bool" where
  "wrRdma wr \<longleftrightarrow> sw_wrType wr = MLX_WR_RDMA_WRITE \<or> sw_wrType wr = MLX_WR_RDMA_READ"

definition wrOpcode :: "mlx_send_wr \<Rightarrow> u32" where
  "wrOpcode wr =
     (if sw_wrType wr = MLX_WR_RDMA_WRITE then MLX_OPCODE_RDMA_WRITE
      else if sw_wrType wr = MLX_WR_RDMA_READ then MLX_OPCODE_RDMA_READ
      else MLX_OPCODE_SEND)"

text \<open>The 16-byte units of an entry.\<close>

definition wrUnits :: "mlx_send_wr \<Rightarrow> u32" where
  "wrUnits wr = (if wrRdma wr then 3 else 2)"

text \<open>The data segment at a byte of the entry.\<close>

definition dataSeg :: "nat \<Rightarrow> u32 \<Rightarrow> u32 \<Rightarrow> u64 \<Rightarrow> buffer \<Rightarrow> buffer" where
  "dataSeg off len lkey addr w =
     OSWriteBigInt64 (OSWriteBigInt32 (OSWriteBigInt32 w off (ucast len)) (off + 4) (ucast lkey)) (off + 8) addr"

text \<open>An entry written over the 64 bytes \<open>w\<close> of its slot: only the control segment is cleared first.\<close>

definition sendWqe :: "u32 \<Rightarrow> u32 \<Rightarrow> mlx_send_wr \<Rightarrow> buffer \<Rightarrow> buffer" where
  "sendWqe idx qpn wr w =
     (let w = copyInto w 0 (replicate 16 0);
          w = OSWriteBigInt32 w 0 (ucast (push_bit 8 idx OR wrOpcode wr));
          w = OSWriteBigInt32 w 4 (ucast (push_bit 16 (wrUnits wr) OR qpn));
          w = w[11 := MLX_WQE_CTRL_CQ_UPDATE];
          w = (if wrRdma wr
               then OSWriteBigInt32 (OSWriteBigInt64 w 16 (sw_remoteAddr wr)) 24 (ucast (sw_rkey wr)) else w)
      in dataSeg (if wrRdma wr then 32 else 16) (sw_length wr) (sw_lkey wr) (sw_data wr) w)"

definition mlx_post_send :: "mlx_qp option \<Rightarrow> mlx_send_wr option \<Rightarrow> int \<times> mlx_qp option" where
  "mlx_post_send qp wr =
     (case (qp, wr) of
        (Some q, Some wr) \<Rightarrow>
          (case lq_dbRecord q of
             None \<Rightarrow> (EINVAL, qp)
           | Some rec \<Rightarrow>
               if lq_uar q = 0 then (EINVAL, qp)
               else
                 (let idx = lq_sqHead q AND (lq_sqSize q - 1);
                      off = unat (idx * 64);
                      w = sendWqe idx (lq_qpn q) wr (bytesAt (lq_sqBuf q) off 64);
                      head = lq_sqHead q + 1
                  in (0, Some (q\<lparr>lq_sqBuf := copyInto (lq_sqBuf q) off w,
                           lq_wrid := (lq_wrid q)[unat idx := sw_wrId wr],
                           lq_sqHead := head, lq_dbRecord := Some (OSWriteBigInt32 rec 4 (ucast head)),
                           lq_bells := lq_bells q @ [(lq_uar q + ucast (lq_bfOffset q), take 8 w)]\<rparr>))))
      | _ \<Rightarrow> (EINVAL, qp))"

definition mlx_post_recv :: "mlx_qp option \<Rightarrow> u64 \<Rightarrow> u32 \<Rightarrow> u32 \<Rightarrow> u64 \<Rightarrow> int \<times> mlx_qp option" where
  "mlx_post_recv qp buf len lkey wrId =
     (case qp of
        None \<Rightarrow> (EINVAL, None)
      | Some q \<Rightarrow>
          if buf = 0 then (EINVAL, qp)
          else
            (let idx = lq_rqHead q AND (lq_rqSize q - 1);
                 off = unat (idx * 64);
                 w = dataSeg 0 len lkey buf (bytesAt (lq_rqBuf q) off 64);
                 head = lq_rqHead q + 1
             in (0, Some (q\<lparr>lq_rqBuf := copyInto (lq_rqBuf q) off w, lq_rqHead := head,
                      lq_dbRecord := map_option (\<lambda>rec. OSWriteBigInt32 rec 0 (ucast head)) (lq_dbRecord q)\<rparr>))))"

section \<open>Polling\<close>

text \<open>A completion as the poll hands it out, in host order.\<close>

record mlx_cqe = MlxCqe64 +
  cqe_flagsRqpn :: u32
  cqe_sopDropQpn :: u32

definition mlx_update_cq_consumer :: "'k ucCall \<Rightarrow> mlx_cq option \<Rightarrow> u32 \<Rightarrow> 'k \<Rightarrow> (int \<times> 'k) option" where
  "mlx_update_cq_consumer call cq consumerIndex k =
     (case cq of
        None \<Rightarrow> Some (EINVAL, k)
      | Some c \<Rightarrow>
          (case call kMlxUCMethodUpdateCqConsumer (noArgs\<lparr>aConsumer := Some (lc_cqHandle c, consumerIndex)\<rparr>) k of
             None \<Rightarrow> None
           | Some (kr, out, k) \<Rightarrow> Some (if kr = kIOReturnSuccess then 0 else EIO, k)))"

definition cqeReady :: "mlx_cq \<Rightarrow> mlx_cqe \<Rightarrow> bool" where
  "cqeReady c e \<longleftrightarrow> cqe_opOwn e AND 1 = ucast (drop_bit (unat (lc_logSize c)) (lc_consIndex c) AND 1) \<and>
     drop_bit 4 (cqe_opOwn e) \<noteq> 0x0f"

text \<open>\<open>cqes i slot\<close> is the entry in \<open>slot\<close> when the loop reads it the \<open>i\<close>-th time.\<close>

fun pollEntries :: "(nat \<Rightarrow> nat \<Rightarrow> mlx_cqe) \<Rightarrow> nat \<Rightarrow> nat \<Rightarrow> mlx_cq \<Rightarrow> mlx_cqe list \<times> mlx_cq" where
  "pollEntries cqes i 0 c = ([], c)"
| "pollEntries cqes i (Suc n) c =
     (let e = cqes i (unat (lc_consIndex c AND (push_bit (unat (lc_logSize c)) 1 - 1)))
      in if \<not> cqeReady c e then ([], c)
         else (case pollEntries cqes (i + 1) n (c\<lparr>lc_consIndex := lc_consIndex c + 1\<rparr>) of
                 (es, c) \<Rightarrow> (e # es, c)))"

text \<open>The number of entries is the length of the list, or \<^verbatim>\<open>EINVAL\<close>, which is positive too.\<close>

definition mlx_poll_cq ::
  "'k ucCall \<Rightarrow> (nat \<Rightarrow> nat \<Rightarrow> mlx_cqe) \<Rightarrow> mlx_cq option \<Rightarrow> bool \<Rightarrow> int \<Rightarrow> 'k \<Rightarrow>
   (int \<times> mlx_cqe list \<times> mlx_cq option \<times> 'k) option" where
  "mlx_poll_cq call cqes cq cqe num k =
     (case cq of
        None \<Rightarrow> Some (EINVAL, [], None, k)
      | Some c \<Rightarrow>
          if \<not> cqe \<or> num \<le> 0 then Some (EINVAL, [], cq, k)
          else
            (case pollEntries cqes 0 (nat num) c of
               (es, c) \<Rightarrow>
                 if es = [] then Some (0, [], Some c, k)
                 else map_option (\<lambda>(r, k). (int (length es), es, Some c, k))
                        (mlx_update_cq_consumer call (Some c) (lc_consIndex c) k)))"

definition mlx_query_cq_completions ::
  "'k ucCall \<Rightarrow> mlx_context option \<Rightarrow> u32 \<Rightarrow> u64 option \<Rightarrow> 'k \<Rightarrow> (int \<times> u64 option \<times> 'k) option" where
  "mlx_query_cq_completions call ctx cqHandle count k =
     (case count of
        None \<Rightarrow> Some (EINVAL, None, k)
      | Some old \<Rightarrow>
          if ctx = None then Some (EINVAL, count, k)
          else
            (case call kMlxUCMethodQueryCqCompletions (noArgs\<lparr>aCqHandle := Some cqHandle, aOut := True\<rparr>) k of
               None \<Rightarrow> None
             | Some (kr, out, k) \<Rightarrow>
                 Some (if kr = kIOReturnSuccess then 0 else EIO, Some (case out of OutU64 n \<Rightarrow> n | _ \<Rightarrow> old), k)))"

definition mlx_get_async_event ::
  "'k ucCall \<Rightarrow> mlx_context option \<Rightarrow> bool \<Rightarrow> 'k \<Rightarrow> (int \<times> mlx_async_event option \<times> 'k) option" where
  "mlx_get_async_event call ctx event k =
     (if ctx = None \<or> \<not> event then Some (EINVAL, None, k)
      else
        (case call kMlxUCMethodGetAsyncEvent (noArgs\<lparr>aOut := True\<rparr>) k of
           None \<Rightarrow> None
         | Some (kr, out, k) \<Rightarrow>
             Some (if kr = kIOReturnNotFound then EAGAIN else if kr = kIOReturnSuccess then 0 else EIO,
                   (case out of OutEvent e \<Rightarrow> Some e | _ \<Rightarrow> None), k)))"

end
