(* ===== verification/MlxVerbs.thy ===== *)
theory MlxVerbs
  imports MlxLib
begin

text \<open>
  \<^verbatim>\<open>usermode/toolchain/libverbs/verbs_compat.c\<close>: the verbs API of Linux on top of \<open>MlxLib\<close>.
  Objects of the process are records, pointers to them options; a linked list of work requests
  is a list. The static variables are \<open>verbsState\<close>.
\<close>

unbundle bit_operations_syntax

section \<open>Constants and types\<close>

definition MLX_MAX_DEVICES :: nat where "MLX_MAX_DEVICES = 8"
definition IBV_SYSFS_NAME_MAX :: nat where "IBV_SYSFS_NAME_MAX = 64"
definition ENODEV :: int where "ENODEV = 19"
definition EOPNOTSUPP :: int where "EOPNOTSUPP = 102"

definition IBV_QPT_RC :: u32 where "IBV_QPT_RC = 2"
definition IBV_QPS_RESET :: u32 where "IBV_QPS_RESET = 0"
definition IBV_QPS_INIT :: u32 where "IBV_QPS_INIT = 1"
definition IBV_QPS_RTR :: u32 where "IBV_QPS_RTR = 2"
definition IBV_QP_AV :: u32 where "IBV_QP_AV = 0x80"
definition IBV_MTU_4096 :: u32 where "IBV_MTU_4096 = 5"
definition IBV_LINK_LAYER_INFINIBAND :: u8 where "IBV_LINK_LAYER_INFINIBAND = 1"
definition IBV_LINK_LAYER_ETHERNET :: u8 where "IBV_LINK_LAYER_ETHERNET = 2"
definition IBV_PORT_DOWN :: u32 where "IBV_PORT_DOWN = 1"
definition IBV_PORT_ACTIVE :: u32 where "IBV_PORT_ACTIVE = 4"
definition IBV_WR_RDMA_WRITE :: u32 where "IBV_WR_RDMA_WRITE = 0"
definition IBV_WR_SEND :: u32 where "IBV_WR_SEND = 2"
definition IBV_WR_RDMA_READ :: u32 where "IBV_WR_RDMA_READ = 4"
definition IBV_WC_SUCCESS :: u32 where "IBV_WC_SUCCESS = 0"
definition IBV_WC_GENERAL_ERR :: u32 where "IBV_WC_GENERAL_ERR = 21"

record ibv_context =
  vx_id :: nat
  vx_device :: nat
  vx_mlx_ctx :: mlx_context

record ibv_cq =
  vc_id :: nat
  vc_context :: ibv_context
  vc_handle :: u32
  vc_cqe :: int
  vc_mlx_cq :: mlx_cq
  vc_event_count :: u64

text \<open>
  \<open>g_devices\<close> has the name of \<^verbatim>\<open>g_device_arr[i]\<close> in slot \<open>i\<close> when the pointer there is not NULL.
\<close>

record verbsState =
  g_devices :: "string option list"
  g_dev_ctx :: "mlx_context option list"
  g_last_cq :: "ibv_cq option"

definition verbsInit :: verbsState where
  "verbsInit = \<lparr>g_devices = replicate 9 None, g_dev_ctx = replicate 8 None, g_last_cq = None\<rparr>"

section \<open>Devices\<close>

fun openAll :: "(nat \<Rightarrow> string \<Rightarrow> mlx_context option) \<Rightarrow> nat \<Rightarrow> string list \<Rightarrow> verbsState \<Rightarrow> verbsState" where
  "openAll opn i [] st = st"
| "openAll opn i (n # ns) st =
     openAll opn (i + 1) ns
       (case opn i n of
          None \<Rightarrow> st
        | Some c \<Rightarrow> st\<lparr>g_devices := (g_devices st)[i := Some (take IBV_SYSFS_NAME_MAX n)],
                     g_dev_ctx := (g_dev_ctx st)[i := Some c]\<rparr>)"

text \<open>Whether the list is not NULL, and \<^verbatim>\<open>*num_devices\<close>.\<close>

definition ibv_get_device_list ::
  "'k ucMap \<Rightarrow> (nat \<Rightarrow> 'k) \<Rightarrow> (nat \<Rightarrow> bool) \<Rightarrow> (nat \<Rightarrow> bool) \<Rightarrow> ioreturn \<Rightarrow> mlxService list \<Rightarrow> verbsState \<Rightarrow>
   bool \<times> nat \<times> verbsState" where
  "ibv_get_device_list mapMem k alloc dup matching svcs st =
     (if g_devices st ! 0 \<noteq> None then (True, 0, st)
      else
        (let names = mlx_list_devices dup matching svcs True (int MLX_MAX_DEVICES)
         in if names = []
            then (case mlx_open_device mapMem k (alloc 0) matching svcs of
                    None \<Rightarrow> (False, 0, st)
                  | Some c \<Rightarrow> (True, 1, st\<lparr>g_devices := (g_devices st)[0 := Some ''mlx5_0''],
                                        g_dev_ctx := (g_dev_ctx st)[0 := Some c]\<rparr>))
            else
              (let st = openAll (\<lambda>i n. mlx_open_device_by_name mapMem k (alloc i) matching svcs (Some n)) 0 names st
               in (True, length names, st\<lparr>g_devices := (g_devices st)[length names := None]\<rparr>))))"

definition ibv_get_device_name :: "string option \<Rightarrow> string" where
  "ibv_get_device_name device = (case device of None \<Rightarrow> ''mlx5_0'' | Some n \<Rightarrow> n)"

text \<open>A device is the index of its \<^verbatim>\<open>g_device_arr\<close> element; \<open>new\<close> names the new object.\<close>

definition ibv_open_device :: "bool \<Rightarrow> nat \<Rightarrow> nat option \<Rightarrow> verbsState \<Rightarrow> ibv_context option" where
  "ibv_open_device alloc new device st =
     (case device of
        None \<Rightarrow> None
      | Some d \<Rightarrow>
          if \<not> alloc then None
          else if d < MLX_MAX_DEVICES \<and> g_devices st ! d \<noteq> None
          then map_option (\<lambda>c. \<lparr>vx_id = new, vx_device = d, vx_mlx_ctx = c\<rparr>) (g_dev_ctx st ! d)
          else None)"

text \<open>The fields that are not always zero.\<close>

record ibv_device_attr =
  da_fw_ver :: u64
  da_vendor_part_id :: u32
  da_max_qp :: u32
  da_max_cq :: u32
  da_max_mr :: u32
  da_max_qp_wr :: u32
  da_max_cqe :: u32
  da_max_sge :: u32
  da_max_sge_rd :: u32
  da_max_pd :: u32
  da_max_ah :: u32
  da_max_qp_rd_atom :: u32
  da_max_qp_init_rd_atom :: u32
  da_page_size_cap :: u64
  da_phys_port_cnt :: u8
  da_max_pkeys :: u16
  da_num_comp_vectors :: u8
  da_vendor_id :: u32

definition deviceAttr :: "mlx_query_device_resp \<Rightarrow> ibv_device_attr" where
  "deviceAttr r =
     \<lparr>da_fw_ver = qd_fwVersion r, da_vendor_part_id = qd_deviceId r, da_max_qp = qd_maxQp r,
      da_max_cq = qd_maxCq r, da_max_mr = qd_maxMr r, da_max_qp_wr = push_bit 12 1, da_max_cqe = push_bit 12 1,
      da_max_sge = 4, da_max_sge_rd = 4, da_max_pd = 16, da_max_ah = 128, da_max_qp_rd_atom = 16,
      da_max_qp_init_rd_atom = 16, da_page_size_cap = 4096, da_phys_port_cnt = ucast (qd_numPorts r),
      da_max_pkeys = 16, da_num_comp_vectors = 4, da_vendor_id = 0x15b3\<rparr>"

definition ibv_query_device ::
  "'k ucCall \<Rightarrow> ibv_context option \<Rightarrow> bool \<Rightarrow> 'k \<Rightarrow> (int \<times> ibv_device_attr option \<times> 'k) option" where
  "ibv_query_device call context device_attr k =
     (case context of
        None \<Rightarrow> Some (- 1, None, k)
      | Some x \<Rightarrow>
          if \<not> device_attr then Some (- 1, None, k)
          else
            (case mlx_query_device call (Some (vx_mlx_ctx x)) True k of
               None \<Rightarrow> None
             | Some (rc, r, k) \<Rightarrow>
                 Some (if rc \<noteq> 0 then (- 1, None, k) else (0, map_option deviceAttr r, k))))"

record ibv_port_attr =
  pa_state :: u32
  pa_max_mtu :: u32
  pa_active_mtu :: u32
  pa_gid_tbl_len :: u16
  pa_pkey_tbl_len :: u16
  pa_link_layer :: u8
  pa_active_speed :: u8
  pa_lid :: u16
  pa_sm_lid :: u16

definition portAttr :: "mlx_query_port_resp \<Rightarrow> ibv_port_attr" where
  "portAttr r =
     \<lparr>pa_state = (if qpr_portState r \<noteq> 0 then IBV_PORT_ACTIVE else IBV_PORT_DOWN), pa_max_mtu = IBV_MTU_4096,
      pa_active_mtu = IBV_MTU_4096, pa_gid_tbl_len = (if qpr_gidTblLen r \<noteq> 0 then qpr_gidTblLen r else 128),
      pa_pkey_tbl_len = (if qpr_pkeyTblLen r \<noteq> 0 then qpr_pkeyTblLen r else 16),
      pa_link_layer = (if qpr_linkLayer r = MLX_LINK_LAYER_INFINIBAND then IBV_LINK_LAYER_INFINIBAND
                       else IBV_LINK_LAYER_ETHERNET),
      pa_active_speed = 2, pa_lid = qpr_lid r, pa_sm_lid = qpr_smLid r\<rparr>"

text \<open>\<open>old\<close> is what the stack holds where \<^verbatim>\<open>resp\<close> is declared.\<close>

definition ibv_query_port ::
  "'k ucCall \<Rightarrow> mlx_query_port_resp \<Rightarrow> ibv_context option \<Rightarrow> bool \<Rightarrow> 'k \<Rightarrow> (int \<times> ibv_port_attr option \<times> 'k) option" where
  "ibv_query_port call old context port_attr k =
     (case context of
        None \<Rightarrow> Some (- 1, None, k)
      | Some x \<Rightarrow>
          if \<not> port_attr then Some (- 1, None, k)
          else
            (case mlx_query_port call (Some (vx_mlx_ctx x)) (Some old) k of
               None \<Rightarrow> None
             | Some (rc, r, k) \<Rightarrow>
                 Some (if rc \<noteq> 0 then (- 1, None, k) else (0, map_option portAttr r, k))))"

section \<open>Protection domain, memory region, completion queue\<close>

record ibv_pd =
  vp_context :: ibv_context
  vp_mlx_pd :: mlx_pd

definition ibv_alloc_pd :: "bool \<Rightarrow> bool \<Rightarrow> ibv_context option \<Rightarrow> ibv_pd option" where
  "ibv_alloc_pd alloc alloc2 context =
     (case context of
        None \<Rightarrow> None
      | Some x \<Rightarrow>
          if \<not> alloc then None
          else map_option (\<lambda>p. \<lparr>vp_context = x, vp_mlx_pd = p\<rparr>) (mlx_alloc_pd alloc2 (Some (vx_mlx_ctx x))))"

record ibv_mr =
  vm_addr :: u64
  vm_length :: u64
  vm_lkey :: u32
  vm_rkey :: u32
  vm_mlx_mr :: mlx_mr

definition ibv_reg_mr ::
  "'k ucCall \<Rightarrow> bool \<Rightarrow> bool \<Rightarrow> ibv_pd option \<Rightarrow> u64 \<Rightarrow> u64 \<Rightarrow> u32 \<Rightarrow> 'k \<Rightarrow> (ibv_mr option \<times> 'k) option" where
  "ibv_reg_mr call alloc alloc2 pd addr len access k =
     (case pd of
        None \<Rightarrow> Some (None, k)
      | Some p \<Rightarrow>
          if addr = 0 then Some (None, k)
          else
            (case mlx_reg_mr call alloc (Some (vp_mlx_pd p)) addr len (access AND 0x0f) True k of
               None \<Rightarrow> None
             | Some (None, r, k) \<Rightarrow> Some (None, k)
             | Some (Some mr, r, k) \<Rightarrow>
                 if alloc2
                 then Some (Some \<lparr>vm_addr = addr, vm_length = len, vm_lkey = lm_lkey mr, vm_rkey = lm_rkey mr,
                              vm_mlx_mr = mr\<rparr>, k)
                 else map_option (\<lambda>k. (None, k)) (mlx_dereg_mr call (Some mr) k)))"

definition ibv_dereg_mr :: "'k ucCall \<Rightarrow> ibv_mr option \<Rightarrow> 'k \<Rightarrow> (int \<times> 'k) option" where
  "ibv_dereg_mr call mr k =
     (case mr of None \<Rightarrow> Some (0, k) | Some m \<Rightarrow> map_option (Pair 0) (mlx_dereg_mr call (Some (vm_mlx_mr m)) k))"

definition ibv_create_cq ::
  "'k ucCall \<Rightarrow> 'k ucMap \<Rightarrow> bool \<Rightarrow> bool \<Rightarrow> nat \<Rightarrow> ibv_context option \<Rightarrow> int \<Rightarrow> verbsState \<Rightarrow> 'k \<Rightarrow>
   (ibv_cq option \<times> verbsState \<times> 'k) option" where
  "ibv_create_cq call mapMem alloc alloc2 new context cqe st k =
     (case context of
        None \<Rightarrow> Some (None, st, k)
      | Some x \<Rightarrow>
          if cqe \<le> 0 \<or> \<not> alloc then Some (None, st, k)
          else
            (case mlx_create_cq call mapMem alloc2 (Some (vx_mlx_ctx x)) (of_int cqe) True k of
               None \<Rightarrow> None
             | Some (Some c, h, k) \<Rightarrow>
                 (let cq = \<lparr>vc_id = new, vc_context = x, vc_handle = lc_cqHandle c, vc_cqe = cqe, vc_mlx_cq = c,
                        vc_event_count = 0\<rparr>
                  in Some (Some cq, st\<lparr>g_last_cq := Some cq\<rparr>, k))
             | Some (None, h, k) \<Rightarrow> Some (None, st, k)))"

definition ibv_destroy_cq :: "'k ucCall \<Rightarrow> ibv_cq option \<Rightarrow> verbsState \<Rightarrow> 'k \<Rightarrow> (int \<times> verbsState \<times> 'k) option" where
  "ibv_destroy_cq call cq st k =
     (case cq of
        None \<Rightarrow> Some (0, st, k)
      | Some c \<Rightarrow>
          map_option
            (\<lambda>k. (0, if map_option vc_id (g_last_cq st) = Some (vc_id c) then st\<lparr>g_last_cq := None\<rparr> else st, k))
            (mlx_destroy_cq call (Some (vc_mlx_cq c)) k))"

section \<open>Queue pair\<close>

record ibv_qp_init_attr =
  ia_send_cq :: "ibv_cq option"
  ia_recv_cq :: "ibv_cq option"
  ia_max_send_wr :: u32
  ia_max_recv_wr :: u32
  ia_qp_type :: u32

record ibv_qp =
  vq_qp_num :: u32
  vq_state :: u32
  vq_mlx_qp :: "mlx_qp option"

text \<open>\<^verbatim>\<open>while (value < sqSize) value <<= 1;\<close>\<close>

partial_function (option) pow2Loop :: "u32 \<Rightarrow> u32 \<Rightarrow> u32 option" where
  "pow2Loop n v = (if v < n then pow2Loop n (push_bit 1 v) else Some v)"

text \<open>The number of entries of a queue for a wish: \<open>None\<close> when the loop does not end.\<close>

definition queueSize :: "u32 \<Rightarrow> u32 option" where
  "queueSize wish =
     (let n = (if wish = 0 then 128 else wish);
          n = (if n < 64 then 64 else n)
      in if n AND (n - 1) \<noteq> 0 then pow2Loop n 1 else Some n)"

text \<open>\<open>sqMem n\<close> and \<open>rqMem n\<close> are what \<^verbatim>\<open>posix_memalign\<close> returns for \<open>n\<close> entries.\<close>

definition ibv_create_qp ::
  "'k ucCall \<Rightarrow> 'k ucMap \<Rightarrow> bool \<Rightarrow> bool \<Rightarrow> bool \<Rightarrow> (u32 \<Rightarrow> userBuf option) \<Rightarrow> (u32 \<Rightarrow> userBuf option) \<Rightarrow>
   (u32 \<Rightarrow> buffer) \<Rightarrow> ibv_pd option \<Rightarrow> ibv_qp_init_attr option \<Rightarrow> 'k \<Rightarrow> (ibv_qp option \<times> 'k) option" where
  "ibv_create_qp call mapMem alloc alloc2 wrid sqMem rqMem db pd attr k =
     (case (pd, attr) of
        (Some p, Some a) \<Rightarrow>
          if \<not> alloc then Some (None, k)
          else
            (case (queueSize (ia_max_send_wr a), queueSize (ia_max_recv_wr a)) of
               (Some sqSize, Some rqSize) \<Rightarrow>
                 (case (sqMem sqSize, rqMem rqSize) of
                    (Some sq, Some rq) \<Rightarrow>
                      (let send = map_option vc_mlx_cq (ia_send_cq a);
                           recv = (case ia_recv_cq a of None \<Rightarrow> send | Some c \<Rightarrow> Some (vc_mlx_cq c))
                       in case mlx_create_qp call mapMem alloc2 wrid db (Some (vx_mlx_ctx (vp_context p)))
                                 (Some (vp_mlx_pd p)) send recv (if ia_qp_type a = IBV_QPT_RC then 0 else 1)
                                 sqSize rqSize sq rq k of
                            None \<Rightarrow> None
                          | Some (None, k) \<Rightarrow> Some (None, k)
                          | Some (Some q, k) \<Rightarrow> Some (Some \<lparr>vq_qp_num = 0, vq_state = 0, vq_mlx_qp = Some q\<rparr>, k))
                  | _ \<Rightarrow> Some (None, k))
             | _ \<Rightarrow> None)
      | _ \<Rightarrow> Some (None, k))"

record ibv_qp_attr =
  qa_qp_state :: u32
  qa_dest_qp_num :: u32
  qa_path_mtu :: u32
  qa_rq_psn :: u32
  qa_sq_psn :: u32
  qa_pkey_index :: u16
  qa_port_num :: u8
  qa_min_rnr_timer :: u32
  qa_max_dest_rd_atomic :: u32
  qa_max_rd_atomic :: u32
  qa_dgid :: buffer
  qa_sgid_index :: u8
  qa_hop_limit :: u8
  qa_traffic_class :: u8
  qa_ah_port_num :: u8

text \<open>The request \<open>ibv_modify_qp\<close> builds; \<^verbatim>\<open>attrMask\<close> is not read by the kernel.\<close>

definition verbsModifyReq :: "u32 \<Rightarrow> ibv_qp_attr \<Rightarrow> u32 \<Rightarrow> mlx_modify_qp_req" where
  "verbsModifyReq cur a attr_mask =
     (let req = modifyZero\<lparr>mq_curState := cur, mq_newState := qa_qp_state a, mq_destQpn := qa_dest_qp_num a,
            mq_pathMtu := qa_path_mtu a, mq_rqPsn := qa_rq_psn a, mq_sqPsn := qa_sq_psn a,
            mq_pkeyIndex := ucast (qa_pkey_index a), mq_portNum := ucast (qa_port_num a),
            mq_minRnrTimer := qa_min_rnr_timer a, mq_maxDestRdAtomic := qa_max_dest_rd_atomic a,
            mq_maxRdAtomic := qa_max_rd_atomic a\<rparr>
      in if attr_mask AND IBV_QP_AV \<noteq> 0
         then req\<lparr>mq_portNum := ucast (qa_ah_port_num a), mq_ahDgid := qa_dgid a, mq_ahSgidIndex := ucast (qa_sgid_index a),
                mq_ahHopLimit := qa_hop_limit a, mq_ahTrafficClass := qa_traffic_class a, mq_ahUdpSport := 0\<rparr>
         else req)"

definition verbsCurState :: "u32 \<Rightarrow> u32" where
  "verbsCurState old =
     (if old = IBV_QPS_RESET then 0 else if old = IBV_QPS_INIT then 1 else if old = IBV_QPS_RTR then 2 else 3)"

definition ibv_modify_qp ::
  "'k ucCall \<Rightarrow> ibv_qp option \<Rightarrow> ibv_qp_attr option \<Rightarrow> u32 \<Rightarrow> 'k \<Rightarrow> (int \<times> ibv_qp option \<times> 'k) option" where
  "ibv_modify_qp call qp attr attr_mask k =
     (case (qp, attr) of
        (Some q, Some a) \<Rightarrow>
          (case vq_mlx_qp q of
             None \<Rightarrow> Some (0, Some (q\<lparr>vq_state := qa_qp_state a\<rparr>), k)
           | Some mq \<Rightarrow>
               (let cur = verbsCurState (vq_state q)
                in case mlx_modify_qp call (Some mq) cur (qa_qp_state a) (Some (verbsModifyReq cur a attr_mask)) k of
                     None \<Rightarrow> None
                   | Some (rc, mq, k) \<Rightarrow>
                       if rc \<noteq> 0 then Some (rc, Some (q\<lparr>vq_mlx_qp := mq\<rparr>), k)
                       else Some (0, Some (q\<lparr>vq_state := qa_qp_state a, vq_mlx_qp := mq\<rparr>), k)))
      | _ \<Rightarrow> Some (- 1, qp, k))"

definition ibv_destroy_qp :: "'k ucCall \<Rightarrow> ibv_qp option \<Rightarrow> 'k \<Rightarrow> (int \<times> 'k) option" where
  "ibv_destroy_qp call qp k =
     (case qp of None \<Rightarrow> Some (0, k) | Some q \<Rightarrow> map_option (Pair 0) (mlx_destroy_qp call (vq_mlx_qp q) k))"

section \<open>Data path\<close>

record ibv_sge =
  sg_addr :: u64
  sg_length :: u32
  sg_lkey :: u32

text \<open>\<open>vw_sge\<close> is \<^verbatim>\<open>sg_list[0]\<close> when there is a list.\<close>

record ibv_send_wr =
  vw_wr_id :: u64
  vw_sge :: "ibv_sge option"
  vw_num_sge :: int
  vw_opcode :: u32
  vw_remote_addr :: u64
  vw_rkey :: u32

text \<open>The work request of libmlx for one of verbs, \<open>None\<close> when it is not supported.\<close>

definition verbsSendWr :: "ibv_send_wr \<Rightarrow> mlx_send_wr option" where
  "verbsSendWr w =
     (let wr = \<lparr>sw_wrType = 0, sw_remoteAddr = 0, sw_rkey = 0, sw_data = 0, sw_length = 0, sw_lkey = 0, sw_wrId = 0\<rparr>;
          rdma = (\<lambda>t. wr\<lparr>sw_wrType := t, sw_remoteAddr := vw_remote_addr w, sw_rkey := vw_rkey w\<rparr>);
          wro = (if vw_opcode w = IBV_WR_RDMA_WRITE then Some (rdma MLX_WR_RDMA_WRITE)
                 else if vw_opcode w = IBV_WR_RDMA_READ then Some (rdma MLX_WR_RDMA_READ)
                 else if vw_opcode w = IBV_WR_SEND then Some (wr\<lparr>sw_wrType := MLX_WR_SEND\<rparr>)
                 else None)
      in case wro of
           None \<Rightarrow> None
         | Some wr \<Rightarrow>
             if 1 < vw_num_sge w then None
             else
               (let wr = (case vw_sge w of
                      Some s \<Rightarrow> if 0 < vw_num_sge w
                                then wr\<lparr>sw_data := sg_addr s, sw_length := sg_length s, sw_lkey := sg_lkey s\<rparr> else wr
                    | None \<Rightarrow> wr)
                in Some (wr\<lparr>sw_wrId := vw_wr_id w\<rparr>)))"

text \<open>The second result is \<^verbatim>\<open>*bad_wr\<close>: the list from the request that failed on.\<close>

fun postSends :: "ibv_send_wr list \<Rightarrow> ibv_qp \<Rightarrow> int \<times> ibv_send_wr list option \<times> ibv_qp" where
  "postSends [] q = (0, None, q)"
| "postSends (w # ws) q =
     (case verbsSendWr w of
        None \<Rightarrow> (EOPNOTSUPP, Some (w # ws), q)
      | Some wr \<Rightarrow>
          (case vq_mlx_qp q of
             None \<Rightarrow> (ENODEV, Some (w # ws), q)
           | Some mq \<Rightarrow>
               (case mlx_post_send (Some mq) (Some wr) of
                  (rc, mq) \<Rightarrow>
                    if rc \<noteq> 0 then (rc, Some (w # ws), q\<lparr>vq_mlx_qp := mq\<rparr>)
                    else postSends ws (q\<lparr>vq_mlx_qp := mq\<rparr>))))"

definition ibv_post_send :: "ibv_qp option \<Rightarrow> ibv_send_wr list \<Rightarrow> int \<times> ibv_send_wr list option \<times> ibv_qp option" where
  "ibv_post_send qp wr =
     (case qp of
        None \<Rightarrow> (- 1, Some wr, None)
      | Some q \<Rightarrow> (case postSends wr q of (rc, bad, q) \<Rightarrow> (rc, bad, Some q)))"

record ibv_recv_wr =
  vr_wr_id :: u64
  vr_sge :: "ibv_sge option"
  vr_num_sge :: int

fun postRecvs :: "ibv_recv_wr list \<Rightarrow> ibv_qp \<Rightarrow> int \<times> ibv_recv_wr list option \<times> ibv_qp" where
  "postRecvs [] q = (0, None, q)"
| "postRecvs (w # ws) q =
     (case (vr_sge w, vq_mlx_qp q) of
        (Some s, Some mq) \<Rightarrow>
          if vr_num_sge w \<noteq> 1 then (EOPNOTSUPP, Some (w # ws), q)
          else
            (case mlx_post_recv (Some mq) (sg_addr s) (sg_length s) (sg_lkey s) (vr_wr_id w) of
               (rc, mq) \<Rightarrow>
                 if rc \<noteq> 0 then (rc, Some (w # ws), q\<lparr>vq_mlx_qp := mq\<rparr>)
                 else postRecvs ws (q\<lparr>vq_mlx_qp := mq\<rparr>))
      | _ \<Rightarrow> (EOPNOTSUPP, Some (w # ws), q))"

definition ibv_post_recv :: "ibv_qp option \<Rightarrow> ibv_recv_wr list \<Rightarrow> int \<times> ibv_recv_wr list option \<times> ibv_qp option" where
  "ibv_post_recv qp wr =
     (case qp of
        None \<Rightarrow> (- 1, Some wr, None)
      | Some q \<Rightarrow> (case postRecvs wr q of (rc, bad, q) \<Rightarrow> (rc, bad, Some q)))"

record ibv_wc =
  wc_wr_id :: u64
  wc_status :: u32
  wc_byte_len :: u32
  wc_qp_num :: u32

definition wcOf :: "mlx_cqe \<Rightarrow> ibv_wc" where
  "wcOf c =
     (let opcode = drop_bit 4 (cqe_opOwn c)
      in \<lparr>wc_wr_id = ucast (cqe_wqeCounter c),
          wc_status = (if opcode = 0x0d \<or> opcode = 0x0e \<or> opcode = 0x0c then IBV_WC_GENERAL_ERR else IBV_WC_SUCCESS),
          wc_byte_len = cqe_byteCnt c, wc_qp_num = cqe_sopDropQpn c AND 0xFFFFFF\<rparr>)"

definition ibv_poll_cq ::
  "'k ucCall \<Rightarrow> (nat \<Rightarrow> nat \<Rightarrow> mlx_cqe) \<Rightarrow> ibv_cq option \<Rightarrow> int \<Rightarrow> bool \<Rightarrow> 'k \<Rightarrow>
   (int \<times> ibv_wc list \<times> ibv_cq option \<times> 'k) option" where
  "ibv_poll_cq call cqes cq num_entries wc k =
     (case cq of
        None \<Rightarrow> Some (0, [], None, k)
      | Some c \<Rightarrow>
          if \<not> wc \<or> num_entries \<le> 0 then Some (0, [], cq, k)
          else
            (case mlx_poll_cq call cqes (Some (vc_mlx_cq c)) True (if 8 < num_entries then 8 else num_entries) k of
               None \<Rightarrow> None
             | Some (got, es, mc, k) \<Rightarrow>
                 Some (got, map wcOf (take (nat got) es),
                       map_option (\<lambda>mc. c\<lparr>vc_mlx_cq := mc\<rparr>) mc, k)))"

section \<open>The other calls\<close>

definition ibv_query_gid :: "ibv_context option \<Rightarrow> u8 \<Rightarrow> int \<Rightarrow> bool \<Rightarrow> int \<times> buffer option" where
  "ibv_query_gid context port_num index gid =
     (if context = None \<or> \<not> gid \<or> port_num = 0 \<or> index < 0 then (- 1, None)
      else (0, Some [0xfe, 0x80, 0, 0, 0, 0, 0, 0, 0x02, 0x02, 0xc9, 0xff, 0xfe, 0, 0, 1]))"

definition ibv_query_pkey :: "ibv_context option \<Rightarrow> u8 \<Rightarrow> int \<Rightarrow> bool \<Rightarrow> int \<times> u16 option" where
  "ibv_query_pkey context port_num index pkey =
     (if context = None \<or> \<not> pkey \<or> port_num = 0 \<or> index < 0 then (- 1, None) else (0, Some 0xffff))"

record ibv_async_event =
  ev_event_type :: u32
  ev_port_num :: u32

text \<open>The element of a CQ or QP event is NULL; \<open>ev_port_num\<close> is 0 unless the event is a port's.\<close>

definition ibv_get_async_event ::
  "'k ucCall \<Rightarrow> ibv_context option \<Rightarrow> bool \<Rightarrow> 'k \<Rightarrow> (int \<times> ibv_async_event option \<times> 'k) option" where
  "ibv_get_async_event call context event k =
     (case context of
        None \<Rightarrow> Some (- 1, None, k)
      | Some x \<Rightarrow>
          if \<not> event then Some (- 1, None, k)
          else
            (case mlx_get_async_event call (Some (vx_mlx_ctx x)) True k of
               None \<Rightarrow> None
             | Some (rc, mev, k) \<Rightarrow>
                 Some (if rc \<noteq> 0 then (- 1, None, k)
                       else (0, map_option (\<lambda>m. \<lparr>ev_event_type = ae_eventType m,
                               ev_port_num = (if ae_elementType m = MLX_ASYNC_ELEMENT_PORT then ae_elementHandle m else 0)\<rparr>) mev, k))))"

text \<open>The calls that have no effect outside the process's heap: an address handle is the caller's attribute.\<close>

definition ibv_dealloc_pd :: "ibv_pd option \<Rightarrow> int" where
  "ibv_dealloc_pd pd = (if pd = None then EINVAL else 0)"

definition ibv_create_ah :: "bool \<Rightarrow> ibv_pd option \<Rightarrow> 'attr option \<Rightarrow> (ibv_pd \<times> 'attr) option" where
  "ibv_create_ah alloc pd attr =
     (case (pd, attr) of (Some p, Some a) \<Rightarrow> if alloc then Some (p, a) else None | _ \<Rightarrow> None)"

definition ibv_query_qp :: int where "ibv_query_qp = - 1"

definition ibv_req_notify_cq :: int where "ibv_req_notify_cq = 0"

text \<open>A completion channel is the context it was created for.\<close>

definition ibv_create_comp_channel :: "bool \<Rightarrow> ibv_context option \<Rightarrow> ibv_context option" where
  "ibv_create_comp_channel alloc context = (if alloc then context else None)"

definition ibv_get_cq_event ::
  "'k ucCall \<Rightarrow> ibv_context option \<Rightarrow> bool \<Rightarrow> verbsState \<Rightarrow> 'k \<Rightarrow> (int \<times> ibv_cq option \<times> verbsState \<times> 'k) option" where
  "ibv_get_cq_event call channel cq st k =
     (case (channel, g_last_cq st) of
        (Some x, Some c) \<Rightarrow>
          if \<not> cq \<or> vx_id (vc_context c) \<noteq> vx_id x then Some (- 1, None, st, k)
          else
            (case mlx_query_cq_completions call (Some (vx_mlx_ctx x)) (vc_handle c) (Some 0) k of
               None \<Rightarrow> None
             | Some (rc, count, k) \<Rightarrow>
                 (let n = (case count of None \<Rightarrow> 0 | Some n \<Rightarrow> n); c' = c\<lparr>vc_event_count := n\<rparr>
                  in if rc \<noteq> 0 \<or> n = vc_event_count c then Some (- 1, None, st, k)
                     else Some (0, Some c', st\<lparr>g_last_cq := Some c'\<rparr>, k)))
      | _ \<Rightarrow> Some (- 1, None, st, k))"

end
