(* ===== verification/MlxLibProps.thy ===== *)
theory MlxLibProps
  imports MlxVerbs
begin

text \<open>
  What the verbs layer asks for and what a post writes: the rounding of the queue sizes, and the
  entries, doorbell record and doorbells of a list of send requests.
\<close>

unbundle bit_operations_syntax

section \<open>The size of a queue\<close>

lemma unat_pow2: "k < 32 \<Longrightarrow> unat (2 ^ k :: u32) = 2 ^ k"
proof -
  assume "k < 32"
  then have "(2::nat) ^ k < 2 ^ 32" by (rule power_strict_increasing) simp
  then have "unat (of_nat (2 ^ k) :: u32) = 2 ^ k" by (intro unat_of_nat_small) simp
  then show ?thesis by simp
qed

lemma pow2_bit:
  fixes x :: u32
  assumes "2 ^ k \<le> unat x" "unat x < 2 ^ (k + 1)"
  shows "bit x k"
proof -
  have "unat x div 2 ^ k = 1" using assms by (simp add: div_nat_eqI)
  then have "bit (unat x) k" by (simp add: bit_iff_odd)
  then show ?thesis by (simp add: bit_unsigned_iff)
qed

lemma pow2_below:
  fixes x :: u32
  assumes "x \<noteq> 0"
  obtains k where "2 ^ k \<le> unat x" "unat x < 2 ^ (k + 1)" "k < 32"
proof -
  have "0 < unat x" using assms by (simp add: unat_gt_0)
  then obtain k where k: "2 ^ k \<le> unat x" "unat x < 2 ^ (k + 1)" using ex_power_ivl1 [of 2 "unat x"] by auto
  have "(2::nat) ^ k < 2 ^ 32" using k(1) unsigned_less [of x, where 'a = nat] by (simp add: order_le_less_trans)
  then have "k < 32" by (rule power_less_imp_less_exp [rotated]) simp
  with k that show thesis by blast
qed

lemma pow2_test:
  fixes x :: u32
  assumes "x \<noteq> 0" and "x AND (x - 1) = 0"
  shows "\<exists>k < 32. unat x = 2 ^ k"
proof -
  obtain k where k: "2 ^ k \<le> unat x" "unat x < 2 ^ (k + 1)" "k < 32" by (rule pow2_below [OF assms(1)])
  have "unat x = 2 ^ k"
  proof (rule ccontr)
    assume "unat x \<noteq> 2 ^ k"
    then have "2 ^ k \<le> unat (x - 1)" "unat (x - 1) < 2 ^ (k + 1)"
      using k assms(1) by (simp_all add: unat_minus_one)
    then have "bit (x AND (x - 1)) k" using pow2_bit [OF k(1,2)] pow2_bit by (simp add: bit_and_iff)
    then show False using assms(2) by simp
  qed
  then show ?thesis using k(3) by blast
qed

lemma pow2_test_power:
  fixes x :: u32
  assumes "unat x = 2 ^ k" shows "x AND (x - 1) = 0"
proof -
  have k: "k < 32" using assms unsigned_less [of x, where 'a = nat] by (auto intro: power_less_imp_less_exp [where a = "2::nat"])
  then have "x = 2 ^ k" using assms by (simp add: word_unat_eq_iff unat_pow2)
  then show ?thesis by (intro bit_word_eqI) (auto simp: bit_simps simp flip: mask_eq_exp_minus_1)
qed

text \<open>The rounding loop ends on the least power of two from its start, and never above \<open>2 ^ 31\<close>.\<close>

lemma pow2Loop_returns:
  assumes "k \<le> 31" "unat n \<le> 2 ^ 31"
  shows "\<exists>m. k \<le> m \<and> m \<le> 31 \<and> pow2Loop n (2 ^ k) = Some (2 ^ m) \<and> unat n \<le> 2 ^ m \<and> (\<forall>j. k \<le> j \<and> j < m \<longrightarrow> 2 ^ j < unat n)"
  using assms(1)
proof (induction "31 - k" arbitrary: k)
  case 0
  then have k: "k = 31" by simp
  have "\<not> (2 ^ 31 :: u32) < n" if "unat n < 2 ^ 31" using that by (simp add: word_less_nat_alt)
  then show ?case using assms(2) k by (subst pow2Loop.simps) (auto simp: word_less_nat_alt)
next
  case (Suc d)
  have u: "unat (2 ^ k :: u32) = 2 ^ k" using Suc.prems by (simp add: unat_pow2)
  show ?case
  proof (cases "2 ^ k < unat n")
    case True
    have "k + 1 \<le> 31" "d = 31 - (k + 1)" using Suc.hyps(2) by auto
    from Suc.hyps(1) [OF this(2,1)] obtain m where m: "k + 1 \<le> m" "m \<le> 31" "pow2Loop n (2 ^ (k + 1)) = Some (2 ^ m)"
      "unat n \<le> 2 ^ m" "\<forall>j. k + 1 \<le> j \<and> j < m \<longrightarrow> 2 ^ j < unat n" by auto
    have "pow2Loop n (2 ^ k) = Some (2 ^ m)"
      using True u m(3) by (subst pow2Loop.simps) (simp add: word_less_nat_alt push_bit_eq_mult mult.commute)
    moreover have "\<forall>j. k \<le> j \<and> j < m \<longrightarrow> 2 ^ j < unat n" using m(5) True by (metis Suc_eq_plus1 Suc_leI le_neq_implies_less)
    ultimately show ?thesis using m by (intro exI [of _ m]) auto
  next
    case False
    then have "pow2Loop n (2 ^ k) = Some (2 ^ k)" using u by (subst pow2Loop.simps) (simp add: word_less_nat_alt)
    then show ?thesis using False Suc.prems by (intro exI [of _ k]) auto
  qed
qed

lemma pow2Loop_hangs:
  assumes "2 ^ 31 < unat n" and "v = 0 \<or> (\<exists>k \<le> 31. v = 2 ^ k)"
  shows "pow2Loop n v = None"
proof -
  have "False" if "pow2Loop n v = Some r" for r
    using that assms
  proof (induction rule: pow2Loop.raw_induct [rotated, consumes 1, case_names step])
    case (step f n v r)
    have lt: "v < n"
    proof -
      have "unat v \<le> 2 ^ 31" using step.prems(2) by (auto simp: unat_pow2 intro: power_increasing [where n = _ and N = 31 and a = "2::nat", simplified])
      then show ?thesis using step.prems(1) by (simp add: word_less_nat_alt)
    qed
    have "push_bit 1 v = 0 \<or> (\<exists>k \<le> 31. push_bit 1 v = 2 ^ k)"
    proof (cases "\<exists>k \<le> 30. v = 2 ^ k")
      case True
      then obtain k where "k \<le> 30" "v = 2 ^ k" by blast
      then have "push_bit 1 v = 2 ^ (k + 1)" "k + 1 \<le> 31" by (simp_all add: push_bit_eq_mult)
      then show ?thesis by blast
    next
      case False
      then have "v = 0 \<or> v = 2 ^ 31" using step.prems(2) by (metis Suc_leI le_neq_implies_less less_Suc_eq_le eval_nat_numeral(3))
      then show ?thesis by (auto simp: push_bit_eq_mult)
    qed
    then show ?case using step lt by auto
  qed
  then show ?thesis by (cases "pow2Loop n v") auto
qed

text \<open>The number of entries a wish stands for, before it is rounded.\<close>

definition queueWish :: "u32 \<Rightarrow> nat" where
  "queueWish wish = (if wish = 0 then 128 else if wish < 64 then 64 else unat wish)"

lemma queueSize_wish:
  "queueSize wish = (let n = of_nat (queueWish wish) in if n AND (n - 1) \<noteq> 0 then pow2Loop n 1 else Some n)"
  by (simp add: queueSize_def queueWish_def)

lemma queueWish_bounds:
  "64 \<le> queueWish wish" "unat (of_nat (queueWish wish) :: u32) = queueWish wish" "2 ^ 31 < queueWish wish \<longleftrightarrow> 2 ^ 31 < unat wish"
  by (auto simp: queueWish_def word_less_nat_alt not_less)

text \<open>C40: The loop that rounds the size of a queue up to a power of two. A wish of at most
  \<open>2 ^ 31\<close> entries gives the least power of two, 64 or more, that is not below the wish (128 for 0).
  A larger wish makes the loop shift its value to 0 and run for ever, and \<^verbatim>\<open>ibv_create_qp\<close>
  with it: neither a queue pair nor an error is returned.\<close>

theorem queueSize_exact:
  "(if unat wish \<le> 2 ^ 31
    then \<exists>k. 6 \<le> k \<and> k \<le> 31 \<and> queueSize wish = Some (2 ^ k) \<and> queueWish wish \<le> 2 ^ k \<and> (\<forall>j. 2 ^ j < queueWish wish \<or> k \<le> j)
    else queueSize wish = None \<and>
      ibv_create_qp call mapMem True alloc wrid sqMem rqMem db (Some pd) (Some (attr\<lparr>ia_max_send_wr := wish\<rparr>)) kern = None)"
proof (cases "unat wish \<le> 2 ^ 31")
  case True
  let ?n = "of_nat (queueWish wish) :: u32"
  have n: "unat ?n = queueWish wish" "queueWish wish \<le> 2 ^ 31" "64 \<le> queueWish wish"
    using queueWish_bounds [of wish] True by auto
  obtain k where k: "k \<le> 31" "queueSize wish = Some (2 ^ k)" "queueWish wish \<le> 2 ^ k" "\<And>j. j < k \<Longrightarrow> 2 ^ j < queueWish wish"
  proof (cases "?n AND (?n - 1) = 0")
    case True
    have "?n \<noteq> 0" using n(1,3) by (metis unat_0 not_numeral_le_zero)
    then obtain k where k: "k < 32" "unat ?n = 2 ^ k" using pow2_test [OF _ True] by blast
    have "queueSize wish = Some ?n" using True by (simp add: queueSize_wish)
    moreover have "?n = 2 ^ k" using k unat_pow2 [of k] by (simp only: word_unat_eq_iff)
    moreover have "2 ^ j < queueWish wish" if "j < k" for j
      using power_strict_increasing [OF that, of "2::nat"] k(2) n(1) by simp
    ultimately show thesis using that [of k] k n(1) by simp
  next
    case False
    have "unat ?n \<le> 2 ^ 31" using n by simp
    from pow2Loop_returns [OF le0 this] obtain m where m: "m \<le> 31" "pow2Loop ?n 1 = Some (2 ^ m)" "unat ?n \<le> 2 ^ m"
      "\<forall>j < m. 2 ^ j < unat ?n" by auto
    then show thesis using that [of m] False n(1) by (simp add: queueSize_wish Let_def)
  qed
  have "6 \<le> k"
  proof (rule ccontr)
    assume "\<not> 6 \<le> k"
    then have "(2::nat) ^ k < 2 ^ 6" by (intro power_strict_increasing) auto
    then show False using k(3) n(3) by simp
  qed
  moreover have "2 ^ j < queueWish wish \<or> k \<le> j" for j using k(4) [of j] by linarith
  ultimately show ?thesis using True k(1-3) by auto
next
  case False
  let ?n = "of_nat (queueWish wish) :: u32"
  have n: "unat ?n = queueWish wish" "2 ^ 31 < unat ?n" using queueWish_bounds [of wish] False by auto
  have "?n AND (?n - 1) \<noteq> 0"
  proof
    assume z: "?n AND (?n - 1) = 0"
    have "?n \<noteq> 0" using n(2) by (metis unat_0 not_less0)
    then obtain k where k: "k < 32" "unat ?n = 2 ^ k" using pow2_test [OF _ z] by blast
    have "(2::nat) ^ k \<le> 2 ^ 31" using k(1) by (intro power_increasing) auto
    then show False using n(2) k(2) by linarith
  qed
  moreover have "pow2Loop ?n 1 = None" by (intro pow2Loop_hangs [OF n(2)] disjI2 exI [of _ 0]) simp
  ultimately have none: "queueSize wish = None" by (simp add: queueSize_wish Let_def)
  then show ?thesis using False by (simp add: ibv_create_qp_def)
qed

section \<open>Posting\<close>

text \<open>
  The memory \<^verbatim>\<open>mlx_create_qp\<close> was given: a send ring of a power of two of 64-byte slots, an id per
  slot, a doorbell record of two words and a mapped UAR. The control segment has 16 bits for
  the slot and 16 for the queue number, so a ring has at most 65536 slots here and the number
  fits.
\<close>

definition sqWf :: "mlx_qp \<Rightarrow> bool" where
  "sqWf q \<longleftrightarrow> (\<exists>k \<le> 16. lq_sqSize q = 2 ^ k) \<and> lq_qpn q < 2 ^ 16 \<and> length (lq_sqBuf q) = unat (lq_sqSize q) * 64 \<and>
     length (lq_wrid q) = unat (lq_sqSize q) \<and> lq_uar q \<noteq> 0 \<and>
     (\<exists>rec. lq_dbRecord q = Some rec \<and> 8 \<le> length rec)"

definition sqSlot :: "mlx_qp \<Rightarrow> nat \<Rightarrow> buffer" where
  "sqSlot q i = bytesAt (lq_sqBuf q) (i * 64) 64"

text \<open>The slot a free-running head stands for.\<close>

definition sqIndex :: "mlx_qp \<Rightarrow> nat \<Rightarrow> nat" where
  "sqIndex q h = h mod unat (lq_sqSize q)"

text \<open>
  What a 64-byte entry says, field by field, in the layout of \<^verbatim>\<open>MlxWQE.hpp\<close>: operation modifier,
  slot and opcode; size in 16-byte units and queue number; the completion request; the remote
  address of an RDMA request; the one data segment, last.
\<close>

definition wqeSays :: "u32 \<Rightarrow> nat \<Rightarrow> mlx_send_wr \<Rightarrow> buffer \<Rightarrow> bool" where
  "wqeSays qpn i wr w \<longleftrightarrow> length w = 64 \<and>
     mlxGetBits w 0 8 = 0 \<and> mlxGetBits w 8 16 = of_nat i \<and> mlxGetBits w 24 8 = ucast (wrOpcode wr) \<and>
     mlxGetBits w 32 16 = (if wrRdma wr then 3 else 2) \<and> mlxGetBits w 48 16 = ucast qpn \<and>
     w ! 11 = MLX_WQE_CTRL_CQ_UPDATE \<and>
     (wrRdma wr \<longrightarrow> mlxGetBits w 128 64 = sw_remoteAddr wr \<and> mlxGetBits w 192 32 = ucast (sw_rkey wr)) \<and>
     (let seg = (if wrRdma wr then 256 else 128)
      in mlxGetBits w seg 32 = ucast (sw_length wr) \<and> mlxGetBits w (seg + 32) 32 = ucast (sw_lkey wr) \<and>
         mlxGetBits w (seg + 64) 64 = sw_data wr)"

text \<open>The two control words as written, whatever the slot and the queue number.\<close>

lemma sendWqe_words:
  assumes "length w = 64"
  shows "mlxGetBits (sendWqe idx qpn wr w) 0 32 = ucast (push_bit 8 idx OR wrOpcode wr)"
    and "mlxGetBits (sendWqe idx qpn wr w) 32 32 = ucast (push_bit 16 (wrUnits wr) OR qpn)"
proof -
  have "length (copyInto w 0 (replicate 16 0)) = 64" using assms by simp
  then obtain b where b: "copyInto w 0 (replicate 16 0) = b" "length b = 64" by simp
  show "mlxGetBits (sendWqe idx qpn wr w) 0 32 = ucast (push_bit 8 idx OR wrOpcode wr)"
    and "mlxGetBits (sendWqe idx qpn wr w) 32 32 = ucast (push_bit 16 (wrUnits wr) OR qpn)"
    by (cases "wrRdma wr"; simp add: sendWqe_def Let_def b dataSeg_def OSWriteBig_mlxSetBits
        mlxGetBits_set_same mlxGetBits_set_other getBits_list_update_other bufBits_def)+
qed

lemma getBits_sub: "a + l \<le> 32 \<Longrightarrow> mlxGetBits b (off + a) l = take_bit l (drop_bit (32 - a - l) (mlxGetBits b off 32))"
  by (rule bit_word_eqI) (auto simp: bit_take_bit_iff bit_drop_bit_eq bit_mlxGetBits add_ac diff_diff_add)

lemma wrOpcode_byte: "bit (wrOpcode wr) n \<Longrightarrow> n < 8"
proof -
  have "wrOpcode wr \<in> {0x08, 0x10, 0x0A}"
    by (simp add: wrOpcode_def MLX_OPCODE_RDMA_WRITE_def MLX_OPCODE_RDMA_READ_def MLX_OPCODE_SEND_def)
  then have "take_bit 8 (wrOpcode wr) = wrOpcode wr" by auto
  then show "bit (wrOpcode wr) n \<Longrightarrow> n < 8" by (metis bit_take_bit_iff)
qed

lemma wrUnits_bit: "bit (wrUnits wr) n \<Longrightarrow> n < 2"
proof -
  have "take_bit 2 (wrUnits wr) = wrUnits wr" by (simp add: wrUnits_def)
  then show "bit (wrUnits wr) n \<Longrightarrow> n < 2" by (metis bit_take_bit_iff)
qed

lemma small_bit: "x < 2 ^ 16 \<Longrightarrow> bit x n \<Longrightarrow> n < 16" for x :: u32
proof -
  assume x: "x < 2 ^ 16" and b: "bit x n"
  from x have "unat x < 2 ^ 16" by (simp add: word_less_nat_alt)
  then have "take_bit 16 x = x" by (rule take_bit_word_small)
  with b show "n < 16" by (metis bit_take_bit_iff)
qed

lemma sendWqe_says:
  assumes "length w = 64" and "idx < 2 ^ 16" and "qpn < 2 ^ 16"
  shows "wqeSays qpn (unat idx) wr (sendWqe idx qpn wr w)"
proof -
  let ?w = "sendWqe idx qpn wr w"
  note wd = sendWqe_words [OF assms(1)] and sb = small_bit [OF assms(2)] small_bit [OF assms(3)]
  have "length (copyInto w 0 (replicate 16 0)) = 64" using assms by simp
  then obtain b where b: "copyInto w 0 (replicate 16 0) = b" "length b = 64" by simp
  have "?w ! 11 = MLX_WQE_CTRL_CQ_UPDATE"
    by (simp add: sendWqe_def Let_def b dataSeg_def OSWriteBigInt64_def OSWriteBigInt32_def nth_osWriteBig)
  moreover have "mlxGetBits ?w 0 8 = 0" "mlxGetBits ?w 8 16 = ucast idx" "mlxGetBits ?w 24 8 = ucast (wrOpcode wr)"
    using getBits_sub [of 0 8 ?w 0] getBits_sub [of 8 16 ?w 0] getBits_sub [of 24 8 ?w 0]
    by (auto simp: wd intro!: bit_word_eqI dest: sb wrOpcode_byte)
       (auto simp: bit_simps dest: sb wrOpcode_byte)
  moreover have "mlxGetBits ?w 32 16 = ucast (wrUnits wr)" "mlxGetBits ?w 48 16 = ucast qpn"
    using getBits_sub [of 0 16 ?w 32] getBits_sub [of 16 16 ?w 32]
    by (auto simp: wd bit_simps intro!: bit_word_eqI dest: sb) (auto dest: wrUnits_bit)
  moreover have "ucast (wrUnits wr) = (if wrRdma wr then 3 else 2 :: u64)" by (simp add: wrUnits_def)
  ultimately show ?thesis
    by (cases "wrRdma wr")
      (simp_all add: wqeSays_def, simp_all add: sendWqe_def Let_def b dataSeg_def OSWriteBig_mlxSetBits
        mlxGetBits_set_same mlxGetBits_set_other getBits_list_update_other bufBits_def)
qed

text \<open>The two words of the doorbell record: receive and send counter.\<close>

definition dbWord :: "nat \<Rightarrow> mlx_qp \<Rightarrow> u64 option" where
  "dbWord i q = map_option (\<lambda>rec. mlxGetBits rec (32 * i) 32) (lq_dbRecord q)"

lemma sqIndex_and:
  assumes "lq_sqSize q = 2 ^ k" "k \<le> 16"
  shows "unat (lq_sqHead q AND (lq_sqSize q - 1)) = sqIndex q (unat (lq_sqHead q))"
proof -
  have "lq_sqHead q AND (lq_sqSize q - 1) = take_bit k (lq_sqHead q)"
    by (simp add: assms take_bit_eq_mask mask_eq_exp_minus_1)
  then show ?thesis using assms by (simp add: sqIndex_def unat_pow2 take_bit_eq_mod unat_mod_distrib)
qed

lemma sqIndex_shift:
  assumes "sqWf q"
  shows "sqIndex q (unat (lq_sqHead q + of_nat i)) = sqIndex q (unat (lq_sqHead q) + i)"
proof -
  obtain k where k: "k \<le> 16" "lq_sqSize q = 2 ^ k" using assms by (auto simp: sqWf_def)
  have "(2::nat) ^ k dvd 2 ^ 32" using k(1) by (intro le_imp_power_dvd) simp
  moreover have "unat (lq_sqHead q + of_nat i) = (unat (lq_sqHead q) + i) mod 2 ^ 32"
    by (simp add: unat_word_ariths unat_of_nat mod_simps)
  ultimately show ?thesis using k unat_pow2 [of k] by (simp add: sqIndex_def mod_mod_cancel)
qed

lemma mlx_post_send_spec:
  assumes "sqWf q"
  shows "\<exists>q'. mlx_post_send (Some q) (Some wr) = (0, Some q') \<and> sqWf q' \<and> lq_qpn q' = lq_qpn q \<and> lq_sqSize q' = lq_sqSize q \<and>
    lq_uar q' = lq_uar q \<and> lq_bfOffset q' = lq_bfOffset q \<and>
    lq_sqHead q' = lq_sqHead q + 1 \<and> dbWord 1 q' = Some (ucast (lq_sqHead q + 1)) \<and> dbWord 0 q' = dbWord 0 q \<and>
    (let i = sqIndex q (unat (lq_sqHead q))
     in i < unat (lq_sqSize q) \<and> wqeSays (lq_qpn q) i wr (sqSlot q' i) \<and>
        (\<forall>j < unat (lq_sqSize q). j \<noteq> i \<longrightarrow> sqSlot q' j = sqSlot q j) \<and> lq_wrid q' = (lq_wrid q)[i := sw_wrId wr] \<and>
        lq_bells q' = lq_bells q @ [(lq_uar q + ucast (lq_bfOffset q), take 8 (sqSlot q' i))])"
proof -
  obtain k rec where k: "k \<le> 16" "lq_sqSize q = 2 ^ k" and r: "lq_dbRecord q = Some rec" "8 \<le> length rec"
    using assms by (auto simp: sqWf_def)
  have wf: "length (lq_sqBuf q) = unat (lq_sqSize q) * 64" "lq_uar q \<noteq> 0" "length (lq_wrid q) = unat (lq_sqSize q)"
    and q16: "lq_qpn q < 2 ^ 16"
    using assms by (auto simp: sqWf_def)
  let ?idx = "lq_sqHead q AND (lq_sqSize q - 1)"
  define i where "i = sqIndex q (unat (lq_sqHead q))"
  have idx: "unat ?idx = i" unfolding i_def by (rule sqIndex_and [OF k(2,1)])
  have sz: "unat (lq_sqSize q) = 2 ^ k" using k unat_pow2 [of k] by simp
  have i: "i < 2 ^ k" by (simp add: i_def sqIndex_def sz)
  have p16: "(2::nat) ^ k \<le> 2 ^ 16" using k(1) by (intro power_increasing) auto
  then have off: "unat (?idx * 64) = i * 64" using i idx by (simp add: unat_word_ariths)
  define w where "w = sendWqe ?idx (lq_qpn q) wr (bytesAt (lq_sqBuf q) (i * 64) 64)"
  have slot: "length (bytesAt (lq_sqBuf q) (i * 64) 64) = 64" using wf(1) sz i by (simp add: bytesAt_def)
  have ii: "?idx < 2 ^ 16"
    using i idx p16 by (simp add: word_less_nat_alt)
  have w: "wqeSays (lq_qpn q) i wr w" unfolding w_def using sendWqe_says [OF slot ii q16, of wr] idx by simp
  then have lw: "length w = 64" by (simp add: wqeSays_def)
  let ?q = "q\<lparr>lq_sqBuf := copyInto (lq_sqBuf q) (i * 64) w, lq_wrid := (lq_wrid q)[i := sw_wrId wr],
      lq_sqHead := lq_sqHead q + 1, lq_dbRecord := Some (OSWriteBigInt32 rec 4 (ucast (lq_sqHead q + 1))),
      lq_bells := lq_bells q @ [(lq_uar q + ucast (lq_bfOffset q), take 8 w)]\<rparr>"
  have post: "mlx_post_send (Some q) (Some wr) = (0, Some ?q)"
    using r(1) wf(2) by (simp add: mlx_post_send_def Let_def off idx w_def)
  have fit: "i * 64 + 64 \<le> length (lq_sqBuf q)" using wf(1) sz i by simp
  have slots: "sqSlot ?q j = (if j = i then w else sqSlot q j)" if "j < 2 ^ k" for j
    using ring_slots [OF wf(1) lw] i that sz by (simp add: sqSlot_def)
  have db: "dbWord 1 ?q = Some (ucast (lq_sqHead q + 1))" "dbWord 0 ?q = dbWord 0 q"
    using r by (simp_all add: dbWord_def OSWriteBig_mlxSetBits mlxGetBits_set_same mlxGetBits_set_other bufBits_def)
  have "sqWf ?q" using wf q16 k r fit lw sz by (auto simp: sqWf_def)
  then show ?thesis using post db w slots i unfolding Let_def i_def [symmetric] by (intro exI [of _ ?q]) (simp add: sz)
qed

lemma postSends_refused:
  "rest = [] \<or> verbsSendWr (hd rest) = None \<Longrightarrow>
   postSends rest q = (if rest = [] then 0 else EOPNOTSUPP, if rest = [] then None else Some rest, q)"
  by (cases rest) simp_all

text \<open>The state of the ring after the requests \<open>ws\<close>: the last ring-full of them is in it.\<close>

definition postedAll :: "ibv_send_wr list \<Rightarrow> mlx_qp \<Rightarrow> mlx_qp \<Rightarrow> bool" where
  "postedAll ws q q' \<longleftrightarrow> sqWf q' \<and> lq_sqHead q' = lq_sqHead q + of_nat (length ws) \<and> lq_qpn q' = lq_qpn q \<and>
     lq_sqSize q' = lq_sqSize q \<and> length (lq_bells q') = length (lq_bells q) + length ws \<and>
     (\<forall>i < unat (lq_sqSize q).
        let j = sqIndex q (unat (lq_sqHead q) + i) in length ws \<le> i \<longrightarrow> sqSlot q' j = sqSlot q j) \<and>
     (\<forall>i < length ws. length ws \<le> i + unat (lq_sqSize q) \<longrightarrow>
        (let j = sqIndex q (unat (lq_sqHead q) + i)
         in wqeSays (lq_qpn q) j (the (verbsSendWr (ws ! i))) (sqSlot q' j)))"

lemma sqIndex_distinct:
  assumes "i < unat (lq_sqSize q)" "0 < i"
  shows "sqIndex q (h + i) \<noteq> sqIndex q h"
proof
  assume "sqIndex q (h + i) = sqIndex q h"
  then have "unat (lq_sqSize q) dvd i" by (simp add: sqIndex_def mod_eq_dvd_iff_nat)
  then show False using assms by (auto dest: dvd_imp_le)
qed

lemma postSends_spec:
  assumes "sqWf mq" and "\<forall>w \<in> set ws. verbsSendWr w \<noteq> None" and "vq_mlx_qp q = Some mq"
  shows "\<exists>mq'. postSends (ws @ rest) q = postSends rest (q\<lparr>vq_mlx_qp := Some mq'\<rparr>) \<and> postedAll ws mq mq' \<and>
    dbWord 1 mq' = (if ws = [] then dbWord 1 mq else Some (ucast (lq_sqHead mq')))"
  using assms
proof (induction ws arbitrary: mq q)
  case Nil
  have "q\<lparr>vq_mlx_qp := Some mq\<rparr> = q" using Nil.prems(3) by simp
  then show ?case using Nil.prems(1) by (intro exI [of _ mq]) (simp add: postedAll_def)
next
  case (Cons w ws)
  obtain wr where wr: "verbsSendWr w = Some wr" using Cons.prems(2) by auto
  let ?h = "unat (lq_sqHead mq)" and ?n = "unat (lq_sqSize mq)"
  obtain m1 where m1: "mlx_post_send (Some mq) (Some wr) = (0, Some m1)" "sqWf m1" "lq_qpn m1 = lq_qpn mq"
      "lq_sqSize m1 = lq_sqSize mq" "lq_sqHead m1 = lq_sqHead mq + 1" "dbWord 1 m1 = Some (ucast (lq_sqHead m1))"
      "length (lq_bells m1) = length (lq_bells mq) + 1"
      "sqIndex mq ?h < ?n" "wqeSays (lq_qpn mq) (sqIndex mq ?h) wr (sqSlot m1 (sqIndex mq ?h))"
      "\<forall>j < ?n. j \<noteq> sqIndex mq ?h \<longrightarrow> sqSlot m1 j = sqSlot mq j"
    using mlx_post_send_spec [OF Cons.prems(1), of wr] by (auto simp: Let_def)
  let ?q1 = "q\<lparr>vq_mlx_qp := Some m1\<rparr>"
  obtain m2 where m2: "postSends (ws @ rest) ?q1 = postSends rest (?q1\<lparr>vq_mlx_qp := Some m2\<rparr>)" "postedAll ws m1 m2"
      "dbWord 1 m2 = (if ws = [] then dbWord 1 m1 else Some (ucast (lq_sqHead m2)))"
    using Cons.IH [OF m1(2), of ?q1] Cons.prems(2) by auto
  have run: "postSends ((w # ws) @ rest) q = postSends rest (q\<lparr>vq_mlx_qp := Some m2\<rparr>)"
    using wr m1(1) m2(1) Cons.prems(3) by simp
  have ix: "sqIndex m1 (unat (lq_sqHead m1) + i) = sqIndex mq (?h + Suc i)" for i
  proof -
    have "sqIndex m1 (unat (lq_sqHead m1) + i) = sqIndex m1 (unat (lq_sqHead m1 + of_nat i))"
      by (rule sqIndex_shift [OF m1(2), symmetric])
    also have "\<dots> = sqIndex mq (unat (lq_sqHead mq + of_nat (Suc i)))" by (simp add: sqIndex_def m1(4,5) ac_simps)
    also have "\<dots> = sqIndex mq (?h + Suc i)" by (rule sqIndex_shift [OF Cons.prems(1)])
    finally show ?thesis .
  qed
  note p = m2(2) [unfolded postedAll_def Let_def ix, unfolded m1(3,4,5,7)]
  have ring: "sqIndex mq x < ?n" for x using m1(8) by (simp add: sqIndex_def)
  have keep: "sqSlot m2 (sqIndex mq (?h + i)) = sqSlot mq (sqIndex mq (?h + i))" if k: "i < ?n" "length (w # ws) \<le> i" for i
  proof -
    obtain i' where i': "i = Suc i'" using k(2) by (cases i) auto
    have "sqSlot m2 (sqIndex mq (?h + i)) = sqSlot m1 (sqIndex mq (?h + i))" using p k unfolding i' by simp
    also have "\<dots> = sqSlot mq (sqIndex mq (?h + i))"
      using m1(10) ring sqIndex_distinct [OF k(1), of ?h] i' by blast
    finally show ?thesis .
  qed
  have says: "wqeSays (lq_qpn mq) (sqIndex mq (?h + i)) (the (verbsSendWr ((w # ws) ! i))) (sqSlot m2 (sqIndex mq (?h + i)))"
    if i: "i < length (w # ws)" "length (w # ws) \<le> i + ?n" for i
  proof (cases i)
    case 0
    obtain n' where n': "?n = Suc n'" using m1(8) by (cases ?n) auto
    have wrap: "sqIndex mq (?h + Suc n') = sqIndex mq ?h" by (simp add: sqIndex_def flip: n')
    have "sqSlot m2 (sqIndex mq (?h + Suc n')) = sqSlot m1 (sqIndex mq (?h + Suc n'))"
      using p i(2) 0 unfolding n' by simp
    then show ?thesis using m1(9) wr 0 wrap by simp
  next
    case (Suc i')
    then show ?thesis using p i by simp
  qed
  have "postedAll (w # ws) mq m2"
    unfolding postedAll_def Let_def using p keep says by (auto simp: ac_simps)
  moreover have "dbWord 1 m2 = Some (ucast (lq_sqHead m2))"
    using m2(3) m1(5,6) p by (cases "ws = []") auto
  ultimately show ?case using run by (intro exI [of _ m2]) simp
qed

text \<open>C39: Posting a list of send requests through verbs, on a ring of at most 65536 slots for a queue
  number of at most 16 bits. The requests before the first unsupported one are posted in order,
  each as one entry in its own slot that says the request field by field in the layout of
  \<^verbatim>\<open>MlxWQE.hpp\<close> (slot, opcode, size, queue number, remote address, data segment), with its producer counter in
  the doorbell record and one doorbell; the call returns the list from the unsupported request on.
  Nothing checks for room: the last ring-full of requests is in the ring, so a longer list, or
  one posted on pending entries, overwrites the older ones and succeeds. In the layout
  \<^verbatim>\<open>MlxEthernet\<close> uses for the same word the entry names another queue: \<open>post_names_other_queue\<close>.\<close>

theorem ibv_post_send_exact:
  assumes "vq_mlx_qp q = Some mq" and "sqWf mq" and "\<forall>w \<in> set ws. verbsSendWr w \<noteq> None"
    and "rest = [] \<or> verbsSendWr (hd rest) = None"
  shows "\<exists>mq'. ibv_post_send (Some q) (ws @ rest) =
      (if rest = [] then 0 else EOPNOTSUPP, if rest = [] then None else Some rest, Some (q\<lparr>vq_mlx_qp := Some mq'\<rparr>)) \<and>
    postedAll ws mq mq' \<and> dbWord 1 mq' = (if ws = [] then dbWord 1 mq else Some (ucast (lq_sqHead mq')))"
  using postSends_spec [OF assms(2,3,1), of rest] postSends_refused [OF assms(4)]
  by (fastforce simp: ibv_post_send_def)

text \<open>
  The second word of an entry, whatever its slot, read as \<^verbatim>\<open>MlxEthernet\<close> writes it (the queue number above the low
  byte, the size in the low byte): what libmlx writes there, the size in the high half, names
  another queue.
\<close>

lemma post_names_other_queue:
  assumes "length w = 64" "qpn < 2 ^ 16"
  shows "unat (drop_bit 8 (mlxGetBits (sendWqe idx qpn wr w) 32 32)) = unat (wrUnits wr) * 256 + unat qpn div 256"
proof -
  have u: "unat (wrUnits wr) < 4" by (simp add: wrUnits_def)
  have q: "unat qpn < 2 ^ 16" using assms(2) by (simp add: word_less_nat_alt)
  have "push_bit 16 (wrUnits wr) AND qpn = 0"
  proof (rule bit_word_eqI)
    have "take_bit 16 qpn = qpn" using q by (rule take_bit_word_small)
    then have "bit qpn n \<Longrightarrow> n < 16" for n by (metis bit_take_bit_iff)
    then show "bit (push_bit 16 (wrUnits wr) AND qpn) n = bit (0 :: u32) n" for n
      by (fastforce simp: bit_and_iff bit_push_bit_iff)
  qed
  then have "push_bit 16 (wrUnits wr) OR qpn = push_bit 16 (wrUnits wr) + qpn" by (simp add: disjunctive_add_eq_or)
  moreover have "unat (push_bit 16 (wrUnits wr) + qpn) = unat (wrUnits wr) * 65536 + unat qpn"
    using u q by (simp add: wrUnits_def unat_word_ariths)
  ultimately show ?thesis using sendWqe_words(2) [OF assms(1)] u q
    by (simp add: drop_bit_eq_div unat_div_distrib)
qed

section \<open>Witnesses\<close>

theorem queueSize_exact_witness: "queueSize 100 = Some 128"
proof -
  obtain k where k: "6 \<le> k" "k \<le> 31" "queueSize 100 = Some (2 ^ k)" "100 \<le> (2 :: nat) ^ k" "\<forall>j. (2 :: nat) ^ j < 100 \<or> k \<le> j"
    using queueSize_exact [of 100] by (auto simp: queueWish_def)
  have "k \<le> 7" using k(5) [rule_format, of 7] by simp
  moreover have "k \<noteq> 6" using k(4) by auto
  ultimately have "k = 7" using k(1) by simp
  then show ?thesis using k(3) by simp
qed

definition sampleLibQp :: mlx_qp where
  "sampleLibQp = \<lparr>lq_qpn = 5, lq_qpType = 0, lq_sqBuf = replicate 4096 0, lq_rqBuf = replicate 4096 0, lq_sqSize = 64, lq_rqSize = 64,
     lq_uar = 0x7000, lq_bfOffset = 0x800, lq_dbRecord = Some (replicate 8 0), lq_sqHead = 0, lq_rqHead = 0, lq_state = 3,
     lq_wrid = replicate 64 0, lq_bells = []\<rparr>"

definition sampleWr :: "u32 \<Rightarrow> ibv_send_wr" where
  "sampleWr opcode = \<lparr>vw_wr_id = 9, vw_sge = Some \<lparr>sg_addr = 0x4000, sg_length = 100, sg_lkey = 7\<rparr>, vw_num_sge = 1, vw_opcode = opcode,
     vw_remote_addr = 0, vw_rkey = 0\<rparr>"

theorem ibv_post_send_exact_witness:
  "\<exists>mq. ibv_post_send (Some \<lparr>vq_qp_num = 0, vq_state = 3, vq_mlx_qp = Some sampleLibQp\<rparr>) [sampleWr IBV_WR_SEND, sampleWr 99] =
      (EOPNOTSUPP, Some [sampleWr 99], Some \<lparr>vq_qp_num = 0, vq_state = 3, vq_mlx_qp = Some mq\<rparr>) \<and>
    lq_sqHead mq = 1 \<and> dbWord 1 mq = Some 1 \<and> mlxGetBits (sqSlot mq 0) 128 32 = 100 \<and> mlxGetBits (sqSlot mq 0) 192 64 = 0x4000"
proof -
  let ?q = "\<lparr>vq_qp_num = 0, vq_state = 3, vq_mlx_qp = Some sampleLibQp\<rparr>"
  have wf: "sqWf sampleLibQp"
    by (simp add: sqWf_def sampleLibQp_def) (intro exI [of _ 6], simp)
  have s: "\<forall>w \<in> set [sampleWr IBV_WR_SEND]. verbsSendWr w \<noteq> None" by code_simp
  have n: "[sampleWr 99] = [] \<or> verbsSendWr (hd [sampleWr 99]) = None" by code_simp
  have w: "\<not> wrRdma (the (verbsSendWr (sampleWr IBV_WR_SEND)))" "sw_length (the (verbsSendWr (sampleWr IBV_WR_SEND))) = 100"
    "sw_data (the (verbsSendWr (sampleWr IBV_WR_SEND))) = 0x4000" by code_simp+
  from ibv_post_send_exact [of ?q, OF _ wf s n] w show ?thesis
    by (auto simp: postedAll_def wqeSays_def Let_def sampleLibQp_def sqIndex_def)
qed

end
