(* ===== verification/MlxLibKernel.thy ===== *)
theory MlxLibKernel
  imports MlxLibProps MlxCQProps MlxUserClientProps "HOL-Library.Multiset"
begin

text \<open>
  The library composed with the user client of the driver: \<open>kernelCall\<close> and \<open>kernelMap\<close> are its two
  entry points. What a poll hands out and what of it reaches the device, what creating a completion
  queue maps, and why no process can have a queue pair.
\<close>

unbundle bit_operations_syntax

section \<open>Polling\<close>

text \<open>What the poll reads for its \<open>i\<close>-th completion, and whether that entry is the device's next one.\<close>

definition polled :: "(nat \<Rightarrow> nat \<Rightarrow> mlx_cqe) \<Rightarrow> mlx_cq \<Rightarrow> nat \<Rightarrow> mlx_cqe" where
  "polled cqes c i = cqes i (unat (lc_consIndex c + of_nat i) mod 2 ^ unat (lc_logSize c))"

definition polledReady :: "(nat \<Rightarrow> nat \<Rightarrow> mlx_cqe) \<Rightarrow> mlx_cq \<Rightarrow> nat \<Rightarrow> bool" where
  "polledReady cqes c i \<longleftrightarrow>
     bit (cqe_opOwn (polled cqes c i)) 0 = bit (lc_consIndex c + of_nat i) (unat (lc_logSize c)) \<and>
     drop_bit 4 (cqe_opOwn (polled cqes c i)) \<noteq> 15"

lemma cqeReady_bits:
  "cqeReady c e \<longleftrightarrow> bit (cqe_opOwn e) 0 = bit (lc_consIndex c) (unat (lc_logSize c)) \<and> drop_bit 4 (cqe_opOwn e) \<noteq> 15"
proof -
  have a: "x AND 1 = of_bool (bit x 0)" for x :: "'a::len word"
    by (rule bit_word_eqI) (auto simp: bit_simps bit_1_iff)
  have "cqe_opOwn e AND 1 = ucast (drop_bit (unat (lc_logSize c)) (lc_consIndex c) AND 1) \<longleftrightarrow>
      bit (cqe_opOwn e) 0 = bit (lc_consIndex c) (unat (lc_logSize c))"
    by (simp only: a) (simp add: bit_drop_bit_eq)
  then show ?thesis by (simp add: cqeReady_def)
qed

lemma polled_index:
  assumes "unat (lc_logSize c) < 32"
  shows "unat (lc_consIndex c AND (push_bit (unat (lc_logSize c)) 1 - 1)) = unat (lc_consIndex c) mod 2 ^ unat (lc_logSize c)"
proof -
  have "lc_consIndex c AND (push_bit (unat (lc_logSize c)) 1 - 1) = take_bit (unat (lc_logSize c)) (lc_consIndex c)"
    by (simp add: take_bit_eq_mask mask_eq_exp_minus_1 push_bit_eq_mult)
  then show ?thesis using assms by (simp add: take_bit_eq_mod unat_mod_distrib unat_pow2)
qed

lemma pollEntries_spec:
  assumes "unat (lc_logSize c) < 32"
  shows "\<exists>m \<le> n. pollEntries cqes i n c =
      (map (polled (\<lambda>y. cqes (i + y)) c) [0..<m], c\<lparr>lc_consIndex := lc_consIndex c + of_nat m\<rparr>) \<and>
    (\<forall>x < m. polledReady (\<lambda>y. cqes (i + y)) c x) \<and> (m < n \<longrightarrow> \<not> polledReady (\<lambda>y. cqes (i + y)) c m)"
  using assms
proof (induction n arbitrary: i c)
  case 0
  then show ?case by simp
next
  case (Suc n)
  let ?e = "cqes i (unat (lc_consIndex c AND (push_bit (unat (lc_logSize c)) 1 - 1)))"
  let ?c = "c\<lparr>lc_consIndex := lc_consIndex c + 1\<rparr>"
  have e: "?e = polled (\<lambda>y. cqes (i + y)) c 0" unfolding polled_index [OF Suc.prems] by (simp add: polled_def)
  have r: "cqeReady c ?e \<longleftrightarrow> polledReady (\<lambda>y. cqes (i + y)) c 0"
    unfolding cqeReady_bits e by (simp add: polledReady_def)
  have shift: "polled (\<lambda>y. cqes (Suc (i + y))) ?c x = polled (\<lambda>y. cqes (i + y)) c (Suc x)"
    "polledReady (\<lambda>y. cqes (Suc (i + y))) ?c x = polledReady (\<lambda>y. cqes (i + y)) c (Suc x)" for x
    by (simp_all add: polled_def polledReady_def ac_simps)
  show ?case
  proof (cases "cqeReady c ?e")
    case False
    then show ?thesis using r by (intro exI [of _ 0]) (simp add: Let_def)
  next
    case True
    from Suc.IH [of ?c "Suc i"] Suc.prems obtain m where m: "m \<le> n"
      "pollEntries cqes (Suc i) n ?c =
        (map (polled (\<lambda>y. cqes (Suc i + y)) ?c) [0..<m], ?c\<lparr>lc_consIndex := lc_consIndex ?c + of_nat m\<rparr>)"
      "\<forall>x < m. polledReady (\<lambda>y. cqes (Suc i + y)) ?c x" "m < n \<longrightarrow> \<not> polledReady (\<lambda>y. cqes (Suc i + y)) ?c m"
      by auto
    have body: "map (polled (\<lambda>y. cqes (Suc i + y)) ?c) [0..<m] = map (polled (\<lambda>y. cqes (i + y)) c) [Suc 0..<Suc m]"
      by (rule nth_equalityI) (simp_all add: shift del: upt_Suc)
    have "pollEntries cqes i (Suc n) c =
        (map (polled (\<lambda>y. cqes (i + y)) c) [0..<Suc m], c\<lparr>lc_consIndex := lc_consIndex c + of_nat (Suc m)\<rparr>)"
      using True m(2) [unfolded body] by (simp add: Let_def e [simplified] upt_conv_Cons ac_simps del: upt_Suc)
    moreover have "\<forall>x < Suc m. polledReady (\<lambda>y. cqes (i + y)) c x"
      using m(3) True r by (auto simp: shift less_Suc_eq_0_disj)
    ultimately show ?thesis using m(1,4) by (intro exI [of _ "Suc m"]) (simp add: shift)
  qed
qed

text \<open>The consumer index the device reads for a queue: the big-endian word of its doorbell slot.\<close>

definition kernelConsumer :: "u32 \<Rightarrow> 'w MlxRoCE \<Rightarrow> u64 option" where
  "kernelConsumer h ro =
     (case (cqLookup h (fCqTable (roCQ ro)), fDbRecord (coUar (roCo ro))) of
        (Some ctx, Some page) \<Rightarrow> Some (mlxGetBits page (8 * unat (cq_dbRecordOffset ctx)) 32)
      | _ \<Rightarrow> None)"

text \<open>
  A queue of the library and the queue of the driver it was created on: same size, owned by the
  client, its doorbell slot inside the page.
\<close>

definition cqLinked :: "mlx_cq \<Rightarrow> MlxUserClient \<Rightarrow> 'w MlxRoCE \<Rightarrow> bool" where
  "cqLinked c uc ro \<longleftrightarrow> ucRoce uc \<and> owns (fOwnedLock uc) (lc_cqHandle c) (fOwnedCq uc) \<and> unat (lc_logSize c) < 31 \<and>
     (\<exists>ctx page. cqLookup (lc_cqHandle c) (fCqTable (roCQ ro)) = Some ctx \<and> cq_logSize ctx = lc_logSize c \<and>
        fDbRecord (coUar (roCo ro)) = Some page \<and> unat (cq_dbRecordOffset ctx) + 4 \<le> length page \<and> 4 dvd unat (cq_dbRecordOffset ctx))"

lemma kernel_update:
  assumes "cqLinked c uc ro"
  shows "\<exists>kr ro'. kernelCall xc (\<lambda>_ _. None) env kMlxUCMethodUpdateCqConsumer (noArgs\<lparr>aConsumer := Some (lc_cqHandle c, ci)\<rparr>) (uc, ro) =
      Some (kr, NoOut, uc, ro') \<and> cqLinked c uc ro' \<and>
    (if 2 * 2 ^ unat (lc_logSize c) < unat ci then kr = kIOReturnBadArgument \<and> ro' = ro
     else kr = kIOReturnSuccess \<and> kernelConsumer (lc_cqHandle c) ro' = Some (ucast ci))"
proof -
  obtain ctx page where l: "cqLookup (lc_cqHandle c) (fCqTable (roCQ ro)) = Some ctx" "cq_logSize ctx = lc_logSize c"
    "fDbRecord (coUar (roCo ro)) = Some page" "unat (cq_dbRecordOffset ctx) + 4 \<le> length page" "4 dvd unat (cq_dbRecordOffset ctx)"
    and own: "ucRoce uc" "owns (fOwnedLock uc) (lc_cqHandle c) (fOwnedCq uc)" and ls: "unat (lc_logSize c) < 31"
    using assms by (auto simp: cqLinked_def)
  have off: "unat (cq_dbRecordOffset ctx div 4) * 4 = unat (cq_dbRecordOffset ctx)"
    using l(5) by (simp add: unat_div_distrib)
  have "unat (2 ^ (unat (lc_logSize c) + 1) :: u32) = 2 ^ (unat (lc_logSize c) + 1)" using ls by (intro unat_pow2) simp
  then have lim: "2 ^ unat (lc_logSize c) * 2 < ci \<longleftrightarrow> 2 * 2 ^ unat (lc_logSize c) < unat ci"
    by (simp add: word_less_nat_alt mult.commute)
  let ?p = "OSWriteBigInt32 page (unat (cq_dbRecordOffset ctx)) (ucast ci)"
  let ?ro = "ro\<lparr>roCo := (roCo ro)\<lparr>coUar := (coUar (roCo ro))\<lparr>fDbRecord := Some ?p\<rparr>\<rparr>\<rparr>"
  have upd: "updateCqConsumer (lc_cqHandle c) ci (roCQ ro) (roCo ro) =
      (if 2 * 2 ^ unat (lc_logSize c) < unat ci then (kIOReturnBadArgument, roCo ro) else (kIOReturnSuccess, roCo ?ro))"
    using l(1-3) by (simp add: updateCqConsumer_def Let_def push_bit_eq_mult lim off)
  have call: "kernelCall xc (\<lambda>_ _. None) env kMlxUCMethodUpdateCqConsumer (noArgs\<lparr>aConsumer := Some (lc_cqHandle c, ci)\<rparr>) (uc, ro) =
      Some (if 2 * 2 ^ unat (lc_logSize c) < unat ci then (kIOReturnBadArgument, NoOut, uc, ro) else (kIOReturnSuccess, NoOut, uc, ?ro))"
    using own upd by (simp add: kernelCall_def externalMethod_def selectorMap_def sMethods_def kMlxUCMethodUpdateCqConsumer_def ucRun_def
        noArgs_def sUpdateCqConsumer_def ucUpdateCqConsumer_def)
  have "cqLinked c uc ?ro" using l own ls by (simp add: cqLinked_def)
  moreover have "kernelConsumer (lc_cqHandle c) ?ro = Some (ucast ci)"
    using l by (simp add: kernelConsumer_def OSWriteBig_mlxSetBits mlxGetBits_set_same bufBits_def)
  ultimately show ?thesis using call assms by auto
qed

lemma poll_kernel_spec:
  assumes "cqLinked c uc ro" and "0 < num"
  shows "\<exists>m ro'. mlx_poll_cq (kernelCall xc (\<lambda>_ _. None) env) cqes (Some c) True num (uc, ro) =
      Some (int m, map (polled cqes c) [0..<m], Some (c\<lparr>lc_consIndex := lc_consIndex c + of_nat m\<rparr>), uc, ro') \<and>
    int m \<le> num \<and> (\<forall>x < m. polledReady cqes c x) \<and> (int m < num \<longrightarrow> \<not> polledReady cqes c m) \<and> cqLinked c uc ro' \<and>
    (if m = 0 \<or> 2 * 2 ^ unat (lc_logSize c) < unat (lc_consIndex c + of_nat m) then ro' = ro
     else kernelConsumer (lc_cqHandle c) ro' = Some (ucast (lc_consIndex c + of_nat m)))"
proof -
  have "unat (lc_logSize c) < 32" using assms(1) by (simp add: cqLinked_def)
  from pollEntries_spec [OF this, of "nat num" cqes 0] obtain m where m: "m \<le> nat num"
    "pollEntries cqes 0 (nat num) c = (map (polled cqes c) [0..<m], c\<lparr>lc_consIndex := lc_consIndex c + of_nat m\<rparr>)"
    "\<forall>x < m. polledReady cqes c x" "m < nat num \<longrightarrow> \<not> polledReady cqes c m" by auto
  let ?ci = "lc_consIndex c + of_nat m"
  obtain kr ro' where u: "kernelCall xc (\<lambda>_ _. None) env kMlxUCMethodUpdateCqConsumer
      (noArgs\<lparr>aConsumer := Some (lc_cqHandle c, ?ci)\<rparr>) (uc, ro) = Some (kr, NoOut, uc, ro')" "cqLinked c uc ro'"
    "if 2 * 2 ^ unat (lc_logSize c) < unat ?ci then kr = kIOReturnBadArgument \<and> ro' = ro
     else kr = kIOReturnSuccess \<and> kernelConsumer (lc_cqHandle c) ro' = Some (ucast ?ci)"
    using kernel_update [OF assms(1), of xc env ?ci] by blast
  have poll: "mlx_poll_cq (kernelCall xc (\<lambda>_ _. None) env) cqes (Some c) True num (uc, ro) =
      Some (int m, map (polled cqes c) [0..<m], Some (c\<lparr>lc_consIndex := ?ci\<rparr>), uc, if m = 0 then ro else ro')"
    using assms(2) m(2) u(1) by (cases "m = 0") (simp_all add: mlx_poll_cq_def mlx_update_cq_consumer_def)
  show ?thesis using m(1,3,4) u(2,3) assms poll by (intro exI [of _ m] exI [of _ "if m = 0 then ro else ro'"]) auto
qed

text \<open>C38: Polling a completion queue created in the driver. The poll returns, in order, the
  entries from the consumer index on that the device owns no longer, at most as many as asked for and
  all of them when they are fewer; the library's index advances by that number. The driver writes
  the new index into the doorbell record only while it is at most twice the depth of the ring. The index
  runs freely and the library does not look at the answer, so after that the device's index stays
  where it was while the poll goes on succeeding.\<close>

theorem mlx_poll_cq_exact:
  assumes "cqLinked c uc ro" and "0 < num"
  shows "\<exists>m ro'. mlx_poll_cq (kernelCall xc (\<lambda>_ _. None) env) cqes (Some c) True num (uc, ro) =
      Some (int m, map (polled cqes c) [0..<m], Some (c\<lparr>lc_consIndex := lc_consIndex c + of_nat m\<rparr>), uc, ro') \<and>
    int m \<le> num \<and> (\<forall>x < m. polledReady cqes c x) \<and> (int m < num \<longrightarrow> \<not> polledReady cqes c m) \<and> cqLinked c uc ro' \<and>
    (if m = 0 \<or> 2 * 2 ^ unat (lc_logSize c) < unat (lc_consIndex c + of_nat m) then ro' = ro
     else kernelConsumer (lc_cqHandle c) ro' = Some (ucast (lc_consIndex c + of_nat m)))"
  using assms by (rule poll_kernel_spec)

section \<open>No queue pair for a process\<close>

lemma kernelMap_refuses:
  "kernelMap at kMlxUCMemIndexUar k = (kIOReturnUnsupported, 0, 0)"
  "kernelMap at kMlxUCMemIndexDbRecord k = (kIOReturnUnsupported, 0, 0)"
  by (simp_all add: kernelMap_def clientMemoryForType_def kMlxUCMemIndexUar_def kMlxUCMemIndexDbRecord_def kMlxUCMemIndexCqe_def)

lemma kernel_create:
  "kernelCall xc (\<lambda>_ _. None) env kMlxUCMethodCreateQP (noArgs\<lparr>aCreateQp := Some req, aOut := True\<rparr>) (uc, ro) =
   (case ucCreateQP xc env (Some req) True uc ro of (kr, out, uc', ro') \<Rightarrow> Some (kr, out, uc', ro'))"
  by (simp add: kernelCall_def externalMethod_def selectorMap_def sMethods_def kMlxUCMethodCreateQP_def ucRun_def noArgs_def
      split: prod.split)

lemma kernel_destroy:
  "kernelCall xc (\<lambda>_ _. None) env kMlxUCMethodDestroyQP (noArgs\<lparr>aHandle := h\<rparr>) (uc, ro) =
   (case ucDestroyQP xc env h uc ro of (kr, out, uc', ro') \<Rightarrow> Some (kr, out, uc', ro'))"
  by (simp add: kernelCall_def externalMethod_def selectorMap_def sMethods_def kMlxUCMethodDestroyQP_def ucRun_def noArgs_def
      split: prod.split)

lemma fresh_key:
  assumes "tblLookup key h t = None"
  shows "h \<notin> key ` set t" "filter (\<lambda>c. key c \<noteq> h) t = t"
  using assms by (auto simp: tblLookup_None filter_id_conv)

text \<open>Creating a queue pair and destroying it again leaves the driver's table as it was.\<close>

lemma ucCreateQP_adds:
  assumes "ucCreateQP xc env (Some req) True uc ro = (kr, out, uc', ro')" and "freshFw xc ro" and "destroysSucceed xc"
    and "tablesUnique ro"
  shows "if kr = kIOReturnSuccess
    then \<exists>r ctx xs. out = OutQp r \<and> roQP ro' = roQP ro @ [ctx] \<and> qp_qpNum ctx = cr_qpn r \<and> qpLookup (cr_qpn r) (roQP ro) = None \<and>
      fOwnedQp uc = Some xs \<and> uc' = uc\<lparr>fOwnedQp := Some (xs @ [cr_qpn r])\<rparr> \<and> fOwnedLock uc
    else roQP ro' = roQP ro \<and> uc' = uc"
proof -
  obtain k r t co where c: "createQP xc (ueQp env) req (roQP ro) (roCo ro) = (k, r, t, co)" by (metis prod_cases4)
  have t: "if k = kIOReturnSuccess then \<exists>r' ctx. r = Some r' \<and> t = roQP ro @ [ctx] \<and> qp_qpNum ctx = cr_qpn r' \<and>
      qpLookup (cr_qpn r') (roQP ro) = None else t = roQP ro"
    using assms(2) by (intro createQP_table [OF c]) (simp add: freshFw_def)
  have undo: "roQP (snd (roceDestroyQP xc h (ro\<lparr>roQP := roQP ro @ [ctx], roCo := co\<rparr>))) = roQP ro"
    if h: "qpLookup h (roQP ro) = None" "qp_qpNum ctx = h" for h ctx
  proof -
    note n = fresh_key [OF h(1) [unfolded table_fns]]
    from n(1) have d: "distinct (map qp_qpNum (roQP (ro\<lparr>roQP := roQP ro @ [ctx], roCo := co\<rparr>)))"
      using assms(4) h(2) by (simp add: tablesUnique_def)
    show ?thesis using destroyed_tables(1) [OF d, of xc h] destroysSucceedD(1) [OF assms(3)] n(2) h(2) by simp
  qed
  show ?thesis
    using assms(1) c t undo
    by (auto simp: ucCreateQP_def roceCreateQP_def addOwned_def outOf_def Let_def split: if_splits option.splits prod.splits)
qed

lemma ucDestroyQP_undoes:
  assumes "fOwnedQp uc = Some (xs @ [qp_qpNum ctx])" "fOwnedLock uc" "roQP ro = t @ [ctx]" "qpLookup (qp_qpNum ctx) t = None"
    and "distinct (map qp_qpNum t)" "destroysSucceed xc" and "ucDestroyQP xc env (qp_qpNum ctx) uc ro = (kr, out, uc', ro')"
  shows "roQP ro' = t \<and> own (fOwnedQp uc') = set xs \<and> kr = kIOReturnSuccess"
proof -
  obtain ro1 where d: "roceDestroyQP xc (qp_qpNum ctx) ro = (kIOReturnSuccess, ro1)"
    using destroysSucceedD(1) [OF assms(6), of "qp_qpNum ctx" ro] by (cases "roceDestroyQP xc (qp_qpNum ctx) ro") auto
  note n = fresh_key [OF assms(4) [unfolded table_fns]]
  then have "roQP ro1 = t" using destroyed_tables(1) [of ro xc "qp_qpNum ctx"] d assms(3,5) by simp
  moreover have "set (remove1 (qp_qpNum ctx) (xs @ [qp_qpNum ctx])) = set xs"
    by (rule mset_eq_setD) simp
  moreover have "ucDestroyQP xc env (qp_qpNum ctx) uc ro =
      (kIOReturnSuccess, NoOut, uc\<lparr>fOwnedQp := Some (remove1 (qp_qpNum ctx) (xs @ [qp_qpNum ctx]))\<rparr>, ro1)"
    by (simp add: ucDestroyQP_def removeOwned_def assms(1,2) d del: remove1_append)
  ultimately show ?thesis using assms(7) by (auto simp: own_def simp del: remove1_append)
qed

lemma create_qp_spec:
  assumes "freshFw xc ro" and "tablesUnique ro" and "destroysSucceed xc"
  shows "\<exists>uc' ro'. mlx_create_qp (kernelCall xc (\<lambda>_ _. None) env) (kernelMap at) alloc wrid db ctx pd scq rcq ty sq rq sqb rqb (uc, ro) =
      Some (None, uc', ro') \<and> roQP ro' = roQP ro \<and> own (fOwnedQp uc') = own (fOwnedQp uc)"
proof (cases "\<exists>c s. ctx = Some c \<and> scq = Some s \<and> alloc \<and> wrid")
  case False
  then show ?thesis by (auto simp: mlx_create_qp_def split: option.split)
next
  case True
  then obtain c s where cs: "ctx = Some c" "scq = Some s" "alloc" "wrid" by blast
  define req where "req = \<lparr>cq_pd = (case pd of None \<Rightarrow> 1 | Some p \<Rightarrow> pd_pd p), cq_sendCq = lc_cqHandle s,
    cq_recvCq = lc_cqHandle (case rcq of None \<Rightarrow> s | Some r \<Rightarrow> r), cq_qpType = ty,
    cq_sqSize = sq, cq_rqSize = rq, cq_sqBufAddr = fst sqb, cq_rqBufAddr = fst rqb\<rparr>"
  obtain kr out uc1 ro1 where k: "ucCreateQP xc env (Some req) True uc ro = (kr, out, uc1, ro1)" by (metis prod_cases4)
  note add = ucCreateQP_adds [OF k assms(1,3,2)]
  show ?thesis
  proof (cases "kr = kIOReturnSuccess")
    case False
    then show ?thesis using cs k add by (simp add: mlx_create_qp_def Let_def flip: req_def) (simp add: kernel_create)
  next
    case True
    then obtain r q xs where a: "out = OutQp r" "roQP ro1 = roQP ro @ [q]" "qp_qpNum q = cr_qpn r" "qpLookup (cr_qpn r) (roQP ro) = None"
      "fOwnedQp uc = Some xs" "uc1 = uc\<lparr>fOwnedQp := Some (xs @ [cr_qpn r])\<rparr>" "fOwnedLock uc" using add by auto
    obtain dk o' uc2 ro2 where d: "ucDestroyQP xc env (cr_qpn r) uc1 ro1 = (dk, o', uc2, ro2)" by (metis prod_cases4)
    have "roQP ro2 = roQP ro \<and> own (fOwnedQp uc2) = set xs \<and> dk = kIOReturnSuccess"
      by (rule ucDestroyQP_undoes [where ctx = q and xc = xc and env = env and uc = uc1 and ro = ro1 and out = o'])
        (use a d assms(2,3) in \<open>auto simp: tablesUnique_def\<close>)
    moreover have "mlx_create_qp (kernelCall xc (\<lambda>_ _. None) env) (kernelMap at) alloc wrid db ctx pd scq rcq ty sq rq sqb rqb (uc, ro) =
        Some (None, uc2, ro2)"
      using cs k True a(1) d
      by (simp add: mlx_create_qp_def Let_def kernelMap_refuses destroyCall_def kernel_destroy flip: req_def)
        (simp add: kernel_create kernelMap_refuses destroyCall_def kernel_destroy)
    ultimately show ?thesis using a(5) by (auto simp: own_def)
  qed
qed

text \<open>What the client owns, whatever the device answers to the two commands.\<close>

lemma ucCreateQP_owner:
  assumes "ucCreateQP xc env (Some req) True uc ro = (kr, out, uc', ro')"
  shows "if kr = kIOReturnSuccess
    then \<exists>r xs. out = OutQp r \<and> fOwnedQp uc = Some xs \<and> uc' = uc\<lparr>fOwnedQp := Some (xs @ [cr_qpn r])\<rparr> \<and> fOwnedLock uc
    else uc' = uc"
proof -
  obtain k r t co where c: "createQP xc (ueQp env) req (roQP ro) (roCo ro) = (k, r, t, co)" by (metis prod_cases4)
  have "k = kIOReturnSuccess \<Longrightarrow> r \<noteq> None"
    using c by (auto simp: createQP_def Let_def split: prod.splits if_splits)
  then show ?thesis
    using assms c
    by (auto simp: ucCreateQP_def roceCreateQP_def addOwned_def outOf_def Let_def split: if_splits option.splits prod.splits)
qed

lemma ucDestroyQP_owner:
  assumes "fOwnedQp uc = Some (xs @ [h])" "fOwnedLock uc" and "ucDestroyQP xc env h uc ro = (kr, out, uc', ro')"
  shows "own (fOwnedQp uc') = set xs \<or> own (fOwnedQp uc') = insert h (set xs) \<and> fst (roceDestroyQP xc h ro) \<noteq> kIOReturnSuccess"
proof -
  define ys where "ys = remove1 h (xs @ [h])"
  have ys: "set ys = set xs" unfolding ys_def by (rule mset_eq_setD) simp
  obtain k r1 where d: "roceDestroyQP xc h ro = (k, r1)" by fastforce
  have "removeOwned (fOwnedLock uc) h (fOwnedQp uc) = (True, Some ys)"
    by (simp add: removeOwned_def assms(1,2) ys_def del: remove1_append)
  then have "fOwnedQp uc' = (if k \<noteq> kIOReturnSuccess then snd (addOwned (fOwnedLock uc) (ueAdd env) h (Some ys)) else Some ys)"
    using assms(3) d by (auto simp: ucDestroyQP_def)
  moreover have "own (snd (addOwned (fOwnedLock uc) (ueAdd env) h (Some ys))) = (if ueAdd env then insert h (set ys) else set ys)"
    using assms(2) by (simp add: addOwned_def own_def)
  ultimately show ?thesis using d ys by (auto simp: own_def split: if_splits)
qed

lemma create_qp_null:
  "\<exists>uc' ro' h. mlx_create_qp (kernelCall xc (\<lambda>_ _. None) env) (kernelMap at) alloc wrid db ctx pd scq rcq ty sq rq sqb rqb (uc, ro) =
      Some (None, uc', ro') \<and>
    (own (fOwnedQp uc') = own (fOwnedQp uc) \<or> own (fOwnedQp uc') = insert h (own (fOwnedQp uc)) \<and>
      (\<exists>ro1. fst (roceDestroyQP xc h ro1) \<noteq> kIOReturnSuccess))"
proof (cases "\<exists>c s. ctx = Some c \<and> scq = Some s \<and> alloc \<and> wrid")
  case False
  then show ?thesis by (auto simp: mlx_create_qp_def split: option.split)
next
  case True
  then obtain c s where cs: "ctx = Some c" "scq = Some s" "alloc" "wrid" by blast
  define req where "req = \<lparr>cq_pd = (case pd of None \<Rightarrow> 1 | Some p \<Rightarrow> pd_pd p), cq_sendCq = lc_cqHandle s,
    cq_recvCq = lc_cqHandle (case rcq of None \<Rightarrow> s | Some r \<Rightarrow> r), cq_qpType = ty,
    cq_sqSize = sq, cq_rqSize = rq, cq_sqBufAddr = fst sqb, cq_rqBufAddr = fst rqb\<rparr>"
  obtain kr out uc1 ro1 where k: "ucCreateQP xc env (Some req) True uc ro = (kr, out, uc1, ro1)" by (metis prod_cases4)
  note add = ucCreateQP_owner [OF k]
  show ?thesis
  proof (cases "kr = kIOReturnSuccess")
    case False
    then show ?thesis using cs k add by (simp add: mlx_create_qp_def Let_def flip: req_def) (simp add: kernel_create)
  next
    case True
    then obtain r xs where a: "out = OutQp r" "fOwnedQp uc = Some xs" "uc1 = uc\<lparr>fOwnedQp := Some (xs @ [cr_qpn r])\<rparr>"
      "fOwnedLock uc" using add by auto
    obtain dk o' uc2 ro2 where d: "ucDestroyQP xc env (cr_qpn r) uc1 ro1 = (dk, o', uc2, ro2)" by (metis prod_cases4)
    have "own (fOwnedQp uc2) = set xs \<or> own (fOwnedQp uc2) = insert (cr_qpn r) (set xs) \<and>
        fst (roceDestroyQP xc (cr_qpn r) ro1) \<noteq> kIOReturnSuccess"
      by (rule ucDestroyQP_owner [OF _ _ d]) (simp_all add: a)
    moreover have "mlx_create_qp (kernelCall xc (\<lambda>_ _. None) env) (kernelMap at) alloc wrid db ctx pd scq rcq ty sq rq sqb rqb (uc, ro) =
        Some (None, uc2, ro2)"
      using cs k True a(1) d
      by (simp add: mlx_create_qp_def Let_def kernelMap_refuses destroyCall_def kernel_destroy flip: req_def)
        (simp add: kernel_create kernelMap_refuses destroyCall_def kernel_destroy)
    ultimately show ?thesis using a(2) by (auto simp: own_def)
  qed
qed

text \<open>C36: No process gets a queue pair. Whatever the device answers, the user client maps
  neither the UAR nor the doorbell page, so every device of the library is open without a UAR,
  creating a queue pair through the library always returns NULL, and through verbs it returns
  NULL or does not return. A queue pair the driver created before that is destroyed again,
  with the answer ignored: the client owns what it owned before, and besides at most the queue pair
  whose destroy command failed, which closing the client tries again. With a firmware that
  carries out the destroy commands and gives out unused numbers the driver's queue pairs are as
  before the call too.\<close>

theorem no_user_queue_pair:
  "map_option cx_uarMap (mlx_open_device_by_name (kernelMap at) (\<lambda>_. (uc, ro)) al matching svcs name) \<in> {None, Some 0} \<and>
    (\<exists>uc' ro' h. mlx_create_qp (kernelCall xc (\<lambda>_ _. None) env) (kernelMap at) alloc wrid db ctx pd scq rcq ty sq rq sqb rqb (uc, ro) =
        Some (None, uc', ro') \<and>
      (own (fOwnedQp uc') = own (fOwnedQp uc) \<or> own (fOwnedQp uc') = insert h (own (fOwnedQp uc)) \<and>
        (\<exists>ro1. fst (roceDestroyQP xc h ro1) \<noteq> kIOReturnSuccess)) \<and>
      (freshFw xc ro \<and> tablesUnique ro \<and> destroysSucceed xc \<longrightarrow>
        roQP ro' = roQP ro \<and> own (fOwnedQp uc') = own (fOwnedQp uc))) \<and>
    map_option fst (ibv_create_qp (kernelCall xc (\<lambda>_ _. None) env) (kernelMap at) alloc alloc2 wrid sqMem rqMem db vpd attr (uc, ro)) \<in>
      {None, Some None}"
proof (intro conjI)
  show "map_option cx_uarMap (mlx_open_device_by_name (kernelMap at) (\<lambda>_. (uc, ro)) al matching svcs name) \<in> {None, Some 0}"
    by (simp add: mlx_open_device_by_name_def kernelMap_refuses split: option.split)
  show "\<exists>uc' ro' h. mlx_create_qp (kernelCall xc (\<lambda>_ _. None) env) (kernelMap at) alloc wrid db ctx pd scq rcq ty sq rq sqb rqb (uc, ro) =
        Some (None, uc', ro') \<and>
      (own (fOwnedQp uc') = own (fOwnedQp uc) \<or> own (fOwnedQp uc') = insert h (own (fOwnedQp uc)) \<and>
        (\<exists>ro1. fst (roceDestroyQP xc h ro1) \<noteq> kIOReturnSuccess)) \<and>
      (freshFw xc ro \<and> tablesUnique ro \<and> destroysSucceed xc \<longrightarrow>
        roQP ro' = roQP ro \<and> own (fOwnedQp uc') = own (fOwnedQp uc))"
    using create_qp_null [of xc env at alloc wrid db ctx pd scq rcq ty sq rq sqb rqb uc ro]
      create_qp_spec [of xc ro env at alloc wrid db ctx pd scq rcq ty sq rq sqb rqb uc]
    by (elim exE conjE) (rule exI, rule exI, rule exI, rule conjI, assumption, auto)
  have never: "mlx_create_qp (kernelCall xc (\<lambda>_ _. None) env) (kernelMap at) a w db x p s r t n m b b' (uc, ro) \<noteq> None"
    "mlx_create_qp (kernelCall xc (\<lambda>_ _. None) env) (kernelMap at) a w db x p s r t n m b b' (uc, ro) \<noteq> Some (Some q, k)"
    for a w x p s r t n m b b' q k using create_qp_null [of xc env at a w db x p s r t n m b b' uc ro] by auto
  show "map_option fst (ibv_create_qp (kernelCall xc (\<lambda>_ _. None) env) (kernelMap at) alloc alloc2 wrid sqMem rqMem db vpd attr (uc, ro)) \<in>
      {None, Some None}"
    by (simp add: ibv_create_qp_def Let_def never split: option.split prod.split)
qed

section \<open>Creating a completion queue\<close>

lemma kernel_create_cq:
  "kernelCall xc (\<lambda>_ _. None) env kMlxUCMethodCreateCQ (noArgs\<lparr>aEntries := cqe, aOut := True\<rparr>) (uc, ro) =
   (case ucCreateCQ xc env cqe True uc ro of None \<Rightarrow> None | Some (kr, out, uc', ro') \<Rightarrow> Some (kr, out, uc', ro'))"
  by (simp add: kernelCall_def externalMethod_def selectorMap_def sMethods_def kMlxUCMethodCreateCQ_def ucRun_def noArgs_def
      split: prod.split option.split)

lemma zero_word:
  assumes "off + 4 \<le> length b" "\<forall>i < length b. off \<le> i \<and> i < off + 4 \<longrightarrow> b ! i = 0"
  shows "mlxGetBits b (8 * off) 32 = 0"
proof (rule bit_word_eqI)
  fix n
  have "\<not> bufBit b k" if "8 * off \<le> k" "k < 8 * off + 32" for k
  proof -
    have "off \<le> k div 8" "k div 8 < off + 4" using that by linarith+
    then show ?thesis using assms by (simp add: bufBit_def)
  qed
  then show "bit (mlxGetBits b (8 * off) 32) n = bit (0 :: u64) n" by (auto simp: bit_mlxGetBits)
qed

text \<open>A queue the driver has just created, in the terms of the library's record of it.\<close>

lemma createCQ_linked:
  assumes "createCQ xc env True cqe eqn (roCQ ro) (roCo ro) = Some (kIOReturnSuccess, resp, st', co')"
    and "coWf (roCo ro)" and "cqFresh (roCQ ro)" and "freshFw xc ro"
  shows "\<exists>r ctx page. resp = Some r \<and> cqLookup (cqr_cqHandle r) (fCqTable st') = Some ctx \<and> cq_logSize ctx = cqr_logSize r \<and>
    6 \<le> unat (cqr_logSize r) \<and> unat (cqr_logSize r) \<le> 11 \<and> max 64 (unat cqe) \<le> 2 ^ unat (cqr_logSize r) \<and>
    fDbRecord (coUar co') = Some page \<and> unat (cq_dbRecordOffset ctx) + 4 \<le> length page \<and> 4 dvd unat (cq_dbRecordOffset ctx) \<and>
    mlxGetBits page (8 * unat (cq_dbRecordOffset ctx)) 32 = 0"
  using assms(2,3,1)
proof (cases rule: createCQ_cases)
  case failed
  then show ?thesis by simp
next
  case (created n off u pages r)
  define e where "e = unat (cqEntries cqe)"
  have ee: "e = max 64 (unat cqe)" by (auto simp: e_def cqEntries_def word_less_nat_alt)
  have "64 \<le> e" "e \<le> 2048" using created(4) by (auto simp: ee word_le_nat_alt)
  from cqLog_bounds [OF this] have n: "e \<le> 2 ^ n" "6 \<le> n" "n \<le> 11" by (simp_all add: created(5) e_def)
  have "unat (of_nat n :: u32) = n" using n(3) by (intro unat_of_nat_small) simp
  then have l: "unat (cqr_logSize r) = n" by (simp add: created(12))
  have none: "cqLookup (cqr_cqHandle r) (fCqTable (roCQ ro)) = None"
    using createCQ_table [OF assms(1)] assms(4) created(2) by (auto simp: freshFw_def)
  let ?ctx = "(cqContext env n off (cqNext (roCQ ro)) (Suc (cqNext (roCQ ro))) pages)\<lparr>cq_cqNumber := cqr_cqHandle r\<rparr>"
  have look: "cqLookup (cqr_cqHandle r) (fCqTable st') = Some ?ctx"
    using cqt.lookup_inserted [of ?ctx "fCqTable (roCQ ro)"] none by (simp add: created(11) tblInsert_def)
  obtain page0 where wf: "dbWf (coUar (roCo ro))" "fDbRecord (coUar (roCo ro)) = Some page0" "fDbLock (coUar (roCo ro))"
    using assms(2) by (auto simp: coWf_def)
  obtain slot page where s: "unat off = 4 * slot" "slot + 2 \<le> 128" "fDbRecord u = Some page" "length page = 4096"
    "\<forall>i < 4096. page ! i = (if 4 * slot \<le> i \<and> i < 4 * (slot + 2) then 0 else page0 ! i)"
    using allocDbSlots_spec [OF wf, of 2] created(6) by auto
  have "mlxGetBits page (8 * unat off) 32 = 0" using s by (intro zero_word) auto
  then show ?thesis using look l n s created(2,7) by (auto simp: cqContext_def created(12) ee)
qed

lemma create_cq_linked:
  assumes "coWf (roCo ro)" and "cqFresh (roCQ ro)" and "freshFw xc ro"
    and "mlx_create_cq (kernelCall xc (\<lambda>_ _. None) env) (kernelMap at) alloc ctx cqe hp (uc, ro) = Some (Some c, h, uc', ro')"
  shows "h = Some (lc_cqHandle c) \<and> fActiveCq uc = 0 \<and> fActiveCq uc' = lc_cqHandle c \<and> cqLinked c uc' ro' \<and> lc_consIndex c = 0 \<and>
    kernelConsumer (lc_cqHandle c) ro' = Some 0 \<and>
    (\<exists>d bytes. getCqMemDesc (lc_cqHandle c) (roCQ ro') = Some d \<and> at d = (kIOReturnSuccess, lc_cqeBuf c, bytes)) \<and> lc_cqeBuf c \<noteq> 0 \<and>
    6 \<le> unat (lc_logSize c) \<and> unat (lc_logSize c) \<le> 11 \<and> max 64 (unat cqe) \<le> 2 ^ unat (lc_logSize c)"
proof -
  obtain out bytes where u: "ucCreateCQ xc env cqe True uc ro = Some (kIOReturnSuccess, out, uc', ro')"
    and m: "kernelMap at kMlxUCMemIndexCqe (uc', ro') = (kIOReturnSuccess, lc_cqeBuf c, bytes)" "lc_cqeBuf c \<noteq> 0"
    and c: "lc_cqHandle c = (case out of OutCq r \<Rightarrow> cqr_cqHandle r | _ \<Rightarrow> 0)" "lc_logSize c = (case out of OutCq r \<Rightarrow> cqr_logSize r | _ \<Rightarrow> 0)"
      "lc_consIndex c = 0" "h = Some (lc_cqHandle c)"
    using assms(4)
    by (auto simp: mlx_create_cq_def kernel_create_cq Let_def split: if_splits option.splits prod.splits ucOut.splits)
  obtain resp st' co' where cr: "createCQ xc (ueCq env) True cqe (ueCqEqn env) (roCQ ro) (roCo ro) = Some (kIOReturnSuccess, resp, st', co')"
    and g: "fActiveCq uc = 0" "ucRoce uc" "ro' = ro\<lparr>roCQ := st', roCo := co'\<rparr>" "out = outOf OutCq resp" "uc' = uc\<lparr>fOwnedCq := fOwnedCq uc', fActiveCq := fActiveCq uc'\<rparr>"
      "fActiveCq uc' = (case resp of None \<Rightarrow> 0 | Some r \<Rightarrow> cqr_cqHandle r)" "owns (fOwnedLock uc) (fActiveCq uc') (fOwnedCq uc')"
    using u by (auto simp: ucCreateCQ_def roceCreateCQ_def addOwned_def owns_def Let_def split: if_splits option.splits prod.splits)
  obtain r ctx page where l: "resp = Some r" "cqLookup (cqr_cqHandle r) (fCqTable st') = Some ctx" "cq_logSize ctx = cqr_logSize r"
    "6 \<le> unat (cqr_logSize r)" "unat (cqr_logSize r) \<le> 11" "max 64 (unat cqe) \<le> 2 ^ unat (cqr_logSize r)"
    "fDbRecord (coUar co') = Some page" "unat (cq_dbRecordOffset ctx) + 4 \<le> length page" "4 dvd unat (cq_dbRecordOffset ctx)"
    "mlxGetBits page (8 * unat (cq_dbRecordOffset ctx)) 32 = 0"
    using createCQ_linked [OF cr assms(1-3)] by auto
  have h: "lc_cqHandle c = cqr_cqHandle r" "lc_logSize c = cqr_logSize r" "fActiveCq uc' = cqr_cqHandle r"
    using c(1,2) g(4,6) l(1) by (simp_all add: outOf_def)
  have "\<exists>d. getCqMemDesc (lc_cqHandle c) (roCQ ro') = Some d \<and> at d = (kIOReturnSuccess, lc_cqeBuf c, bytes)"
    using m h by (auto simp: kernelMap_def clientMemoryForType_def kMlxUCMemIndexCqe_def kMlxUCMemIndexUar_def
        split: if_splits option.splits)
  moreover have "ucRoce uc' \<and> fOwnedLock uc' = fOwnedLock uc" by (subst (1 2) g(5)) (simp add: g(2))
  moreover have "kernelConsumer (lc_cqHandle c) ro' = Some 0" using l h g(3) by (simp add: kernelConsumer_def)
  ultimately show ?thesis using c(3,4) g(1,3,7) h l m(2) by (auto simp: cqLinked_def)
qed

text \<open>C37: Creating a completion queue in the driver through the library. The queue that comes back
  is the client's one queue: owned by it, found in the driver's table under the library's handle with the
  same size (the least power of two from 64 up to 2048 that holds the wish, or larger), its buffer is the mapping of
  that queue's own descriptor, and both consumer indices are 0. It is \<open>cqLinked\<close>, which is what polling
  relies on. A client that has a queue gets no second one.\<close>

theorem mlx_create_cq_maps_ring:
  assumes "coWf (roCo ro)" and "cqFresh (roCQ ro)" and "freshFw xc ro"
    and "mlx_create_cq (kernelCall xc (\<lambda>_ _. None) env) (kernelMap at) alloc ctx cqe hp (uc, ro) = Some (Some c, h, uc', ro')"
  shows "h = Some (lc_cqHandle c) \<and> fActiveCq uc = 0 \<and> fActiveCq uc' = lc_cqHandle c \<and> cqLinked c uc' ro' \<and> lc_consIndex c = 0 \<and>
    kernelConsumer (lc_cqHandle c) ro' = Some 0 \<and>
    (\<exists>d bytes. getCqMemDesc (lc_cqHandle c) (roCQ ro') = Some d \<and> at d = (kIOReturnSuccess, lc_cqeBuf c, bytes)) \<and> lc_cqeBuf c \<noteq> 0 \<and>
    6 \<le> unat (lc_logSize c) \<and> unat (lc_logSize c) \<le> 11 \<and> max 64 (unat cqe) \<le> 2 ^ unat (lc_logSize c)"
  using assms by (rule create_cq_linked)

section \<open>Witnesses\<close>

text \<open>A firmware that gives every new object the number 5, and a client without objects.\<close>

definition fiveXc :: "unit execFn" where
  "fiveXc w opcode inb n t = (kIOReturnSuccess, (replicate n 0)[11 := 5], w)"

definition libRo :: "unit MlxRoCE" where
  "libRo = (roceInit sampleCo)\<lparr>roObjs := [RoCQ]\<rparr>"

definition libCtx :: mlx_context where
  "libCtx = \<lparr>cx_conn = 1, cx_uarMap = 0, cx_devname = ''mlx5_0''\<rparr>"

lemma coExec_five: "coExec fiveXc opc inb n co = (kIOReturnSuccess, (replicate n 0)[11 := 5], co)"
  by (simp add: coExec_def fiveXc_def)

lemma five_fresh: "freshFw fiveXc libRo" "tablesUnique libRo" "destroysSucceed fiveXc" "coWf (roCo libRo)" "cqFresh (roCQ libRo)"
  by (simp_all add: freshFw_def tablesUnique_def destroysSucceed_def fiveXc_def libRo_def roceInit_def table_fns tblLookup_def
      cqInit_def mrInit_def ahInit_def sampleCo_wf cqFresh_def)

lemma five_created:
  "\<exists>r st co ctx. createCQ fiveXc sampleCqEnv True 100 eqn cqInit sampleCo = Some (kIOReturnSuccess, Some r, st, co) \<and>
    cqr_cqHandle r = 5 \<and> fCqTable st = [ctx] \<and> cq_cqNumber ctx = 5 \<and> cq_cqeBufDesc ctx = Some 0"
proof -
  obtain off u where al: "allocDbSlots 2 (coUar sampleCo) = (kIOReturnSuccess, Some off, u)"
    using sampleCo_alloc by blast
  have e: "cqEntries 100 = 100" by (simp add: cqEntries_def)
  have l: "cqLogLoop 0 100 = 7" by (simp add: cqLogLoop.simps)
  have b: "cqRingBytes 7 = 8192" by (simp add: cqRingBytes_def)
  have bits: "mlxGetBits ((replicate 64 0)[11 := 5]) 72 24 = 5" by code_simp
  have cm: "cmdCreateCQ fiveXc cq eqn co = (kIOReturnSuccess, cq\<lparr>cq_cqNumber := 5\<rparr>, co)" for cq and co :: "unit mlxCore"
    by (simp add: cmdCreateCQ_def coExec_five bits)
  have env: "ceAlloc sampleCqEnv" "ceBuf sampleCqEnv" "ceMap sampleCqEnv" "ceSet sampleCqEnv = kIOReturnSuccess"
    "ceRecord sampleCqEnv" "ceAdded sampleCqEnv" by (simp_all add: sampleCqEnv_def)
  show ?thesis
    using al by (simp add: createCQ_def Let_def e l cqInit_def env, simp add: sampleCq_loop b, simp add: cm env tblInsert_def b,
        simp add: l cqContext_def b)
qed

theorem mlx_create_cq_maps_ring_witness:
  "\<forall>env. \<exists>c uc ro. mlx_create_cq (kernelCall fiveXc (\<lambda>_ _. None) (env\<lparr>ueAdd := True, ueCq := sampleCqEnv\<rparr>))
      (kernelMap (\<lambda>d. (kIOReturnSuccess, 0x7000, 8192))) True (Some libCtx) 100 True (sampleUc [] [], libRo) =
      Some (Some c, Some 5, uc, ro) \<and> cqLinked c uc ro \<and> lc_cqeBuf c = 0x7000"
proof
  fix env :: ucEnv
  let ?env = "env\<lparr>ueAdd := True, ueCq := sampleCqEnv\<rparr>" and ?at = "\<lambda>d :: nat. (kIOReturnSuccess, 0x7000 :: u64, 8192 :: u64)"
  obtain r st co ctx where c: "createCQ fiveXc sampleCqEnv True 100 (ueCqEqn ?env) (roCQ libRo) (roCo libRo) = Some (kIOReturnSuccess, Some r, st, co)"
    "cqr_cqHandle r = 5" "fCqTable st = [ctx]" "cq_cqNumber ctx = 5" "cq_cqeBufDesc ctx = Some 0"
    using five_created [of "ueCqEqn ?env"] by (auto simp: libRo_def roceInit_def)
  let ?ro = "libRo\<lparr>roCQ := st, roCo := co\<rparr>" and ?uc = "(sampleUc [] [])\<lparr>fOwnedCq := Some [5], fActiveCq := 5\<rparr>"
  have u: "ucCreateCQ fiveXc ?env 100 True (sampleUc [] []) libRo = Some (kIOReturnSuccess, OutCq r, ?uc, ?ro)"
    using c(1,2) by (simp add: ucCreateCQ_def sampleUc_def roceCreateCQ_def addOwned_def outOf_def)
  have "getCqMemDesc 5 st = Some 0" using c(3-5) by (simp add: getCqMemDesc_def table_fns tblLookup_def)
  then have m: "kernelMap ?at kMlxUCMemIndexCqe (?uc, ?ro) = (kIOReturnSuccess, 0x7000, 8192)"
    by (simp add: kernelMap_def clientMemoryForType_def kMlxUCMemIndexCqe_def kMlxUCMemIndexUar_def libRo_def)
  let ?c = "\<lparr>lc_cqHandle = 5, lc_cqeBuf = 0x7000, lc_logSize = cqr_logSize r, lc_consIndex = 0\<rparr>"
  have run: "mlx_create_cq (kernelCall fiveXc (\<lambda>_ _. None) ?env) (kernelMap ?at) True (Some libCtx) 100 True (sampleUc [] [], libRo) =
      Some (Some ?c, Some 5, ?uc, ?ro)"
    using c(2) by (simp add: mlx_create_cq_def kernel_create_cq u m)
  from mlx_create_cq_maps_ring [OF five_fresh(4,5,1) run] run
  show "\<exists>c uc ro. mlx_create_cq (kernelCall fiveXc (\<lambda>_ _. None) ?env) (kernelMap ?at) True (Some libCtx) 100 True (sampleUc [] [], libRo) =
      Some (Some c, Some 5, uc, ro) \<and> cqLinked c uc ro \<and> lc_cqeBuf c = 0x7000" by auto
qed

text \<open>After 128 completions of a ring of 64 the driver refuses the index.\<close>

definition stuckCqes :: "nat \<Rightarrow> nat \<Rightarrow> mlx_cqe" where
  "stuckCqes i s = \<lparr>cqe_byteCnt = 3, cqe_wqeCounter = of_nat i, cqe_opOwn = if i = 0 then 0 else 0xF0, cqe_flagsRqpn = 0, cqe_sopDropQpn = 5\<rparr>"

definition stuckCq :: mlx_cq where
  "stuckCq = \<lparr>lc_cqHandle = 5, lc_cqeBuf = 0x7000, lc_logSize = 6, lc_consIndex = 128\<rparr>"

definition stuckRo :: "unit MlxRoCE" where
  "stuckRo = libRo\<lparr>roCQ := cqInit\<lparr>fCqTable := [(cqContext sampleCqEnv 6 0 0 1 [0x20000])\<lparr>cq_cqNumber := 5\<rparr>]\<rparr>\<rparr>"

theorem mlx_poll_cq_exact_witness:
  "\<forall>env. mlx_poll_cq (kernelCall fiveXc (\<lambda>_ _. None) env) stuckCqes (Some stuckCq) True 4 (sampleUc [] [5], stuckRo) =
    Some (1, [stuckCqes 0 0], Some (stuckCq\<lparr>lc_consIndex := 129\<rparr>), sampleUc [] [5], stuckRo)"
proof
  fix env :: ucEnv
  have l: "cqLinked stuckCq (sampleUc [] [5]) stuckRo"
    by (simp add: cqLinked_def stuckCq_def stuckRo_def sampleUc_def owns_def cqInit_def table_fns tblLookup_def cqContext_def
        libRo_def roceInit_def sampleCo_def uarInit_def)
  obtain m ro' where p: "mlx_poll_cq (kernelCall fiveXc (\<lambda>_ _. None) env) stuckCqes (Some stuckCq) True 4 (sampleUc [] [5], stuckRo) =
      Some (int m, map (polled stuckCqes stuckCq) [0..<m], Some (stuckCq\<lparr>lc_consIndex := lc_consIndex stuckCq + of_nat m\<rparr>), sampleUc [] [5], ro')"
    "\<forall>x < m. polledReady stuckCqes stuckCq x" "int m < 4 \<longrightarrow> \<not> polledReady stuckCqes stuckCq m"
    "if m = 0 \<or> 2 * 2 ^ unat (lc_logSize stuckCq) < unat (lc_consIndex stuckCq + of_nat m) then ro' = stuckRo
     else kernelConsumer (lc_cqHandle stuckCq) ro' = Some (ucast (lc_consIndex stuckCq + of_nat m))"
    using mlx_poll_cq_exact [OF l, of 4 fiveXc env stuckCqes] by auto
  have "polledReady stuckCqes stuckCq 0" "\<not> polledReady stuckCqes stuckCq 1" by code_simp+
  then have "m = 1" using p(2,3) by (metis less_one linorder_neqE_nat of_nat_0_less_iff of_nat_eq_0_iff zero_less_numeral)
  then show "mlx_poll_cq (kernelCall fiveXc (\<lambda>_ _. None) env) stuckCqes (Some stuckCq) True 4 (sampleUc [] [5], stuckRo) =
      Some (1, [stuckCqes 0 0], Some (stuckCq\<lparr>lc_consIndex := 129\<rparr>), sampleUc [] [5], stuckRo)"
    using p(1,4) by (simp add: stuckCq_def polled_def)
qed

theorem no_user_queue_pair_witness:
  "\<forall>env. \<exists>uc ro. mlx_create_qp (kernelCall fiveXc (\<lambda>_ _. None) env) (kernelMap (\<lambda>d. (kIOReturnSuccess, 0x7000, 4096))) True True
      (\<lambda>_. []) (Some libCtx) None (Some stuckCq) None 0 64 64 (0x1000, []) (0x2000, []) (sampleUc [] [5], libRo) = Some (None, uc, ro) \<and>
    roQP ro = [] \<and> own (fOwnedQp uc) = {}"
proof
  fix env :: ucEnv
  show "\<exists>uc ro. mlx_create_qp (kernelCall fiveXc (\<lambda>_ _. None) env) (kernelMap (\<lambda>d. (kIOReturnSuccess, 0x7000, 4096))) True True
      (\<lambda>_. []) (Some libCtx) None (Some stuckCq) None 0 64 64 (0x1000, []) (0x2000, []) (sampleUc [] [5], libRo) = Some (None, uc, ro) \<and>
    roQP ro = [] \<and> own (fOwnedQp uc) = {}"
  proof -
    have f: "freshFw fiveXc libRo \<and> tablesUnique libRo \<and> destroysSucceed fiveXc" using five_fresh(1-3) by simp
    have e: "roQP libRo = []" "own (fOwnedQp (sampleUc [] [5])) = {}" by (simp_all add: libRo_def roceInit_def sampleUc_def own_def)
    note n = no_user_queue_pair [of "\<lambda>d. (kIOReturnSuccess, 0x7000, 4096)" "sampleUc [] [5]" libRo True kIOReturnSuccess "[]" None
        fiveXc env True True "\<lambda>_. []" "Some libCtx" None "Some stuckCq" None 0 64 64 "(0x1000, [])" "(0x2000, [])",
        THEN conjunct2, THEN conjunct1]
    from n f show ?thesis unfolding e by blast
  qed
qed

end
