(* ===== verification/Spec2Isabelle.thy ===== *)
theory Spec2Isabelle
  imports MlxP0 MlxExec MlxCmdRace MlxUAR MlxHealth MlxDMA MlxEQ MlxFwPagesProps MlxFwDrain
    MlxQPProps MlxCQProps MlxMRProps MlxRoCEProps MlxUserClientProps MlxPCIProps MlxEthIO MlxLibKernel
begin

text \<open>
  A model of AppleMCX, a macOS driver (IOKit, C++) for NVIDIA/Mellanox ConnectX network adapters, and of the
  C libraries that user processes link against it. Paths are relative to \<^verbatim>\<open>src/\<close>.

  \<^bold>\<open>The program.\<close> \<^verbatim>\<open>MlxPCIDriver\<close> finds the adapter, brings it up and owns the core objects: the command
  interface \<^verbatim>\<open>MlxCmd\<close> (a ring of command slots polled for completion), the pages lent to the firmware
  \<^verbatim>\<open>MlxFwPages\<close>, the UAR page and doorbell records \<^verbatim>\<open>MlxUAR\<close>, the event queues \<^verbatim>\<open>MlxEQ\<close>, the health watchdog
  \<^verbatim>\<open>MlxHealth\<close>, pinned user memory \<^verbatim>\<open>MlxDMA\<close> and one adapter object \<^verbatim>\<open>MlxHCA\<close>. On top of it stand two clients
  of the core: the Ethernet interface \<^verbatim>\<open>MlxEthernet\<close>, and the RDMA device \<^verbatim>\<open>MlxRoCE\<close> with its queue pairs,
  completion queues, memory regions, address handles, GID table and congestion control. A process reaches the RDMA
  device through \<^verbatim>\<open>MlxUserClient\<close>, from \<^verbatim>\<open>libmlx\<close> and the verbs layer \<^verbatim>\<open>verbs_compat.c\<close>. Everything that talks to the
  firmware does so through \<^verbatim>\<open>MlxCmd::exec\<close>; asynchronous events go from the event queue to the notifiers the other
  objects registered.

  \<^bold>\<open>Theories and code.\<close>
    \<^item> \<open>MlxPrelude\<close>: integer types, IOKit results, buffers and big-endian stores; \<open>MlxTables\<close> (handle tables),
      \<open>MlxRing\<close> (bounded queues): the interfaces \<open>handle_table\<close> and \<open>bounded_fifo\<close>.
    \<^item> \<open>MlxIfc\<close>: \<^verbatim>\<open>Sources/hw/MlxIfcHelpers.hpp\<close>, the bit fields of every command, with the interface \<open>bit_store\<close>;
      \<open>MlxP0\<close>, \<open>MlxP1\<close>: \<^verbatim>\<open>MlxP0Encoding.hpp\<close>, \<^verbatim>\<open>MlxP1Encoding.hpp\<close>; \<open>MlxRegs\<close>: \<^verbatim>\<open>MlxRegs.hpp\<close>, \<^verbatim>\<open>MlxWQE.hpp\<close>; \<^verbatim>\<open>MlxDoorbell.hpp\<close> is in \<open>MlxEth\<close>.
    \<^item> \<open>MlxCmd\<close>, \<open>MlxCmdProps\<close>: \<^verbatim>\<open>Sources/core/MlxCmd.cpp\<close> as a sequential program; \<open>MlxCmdRace\<close>: its slot protocol as a
      step relation of several threads; \<open>MlxCmdIfc\<close>: the command interface as its callers use it, a locale that
      \<open>MlxExec\<close> interprets on the model of \<^verbatim>\<open>MlxCmd\<close>.
    \<^item> \<open>MlxUAR\<close>, \<open>MlxHealth\<close>, \<open>MlxDMA\<close>, \<open>MlxEQ\<close>, \<open>MlxFwPages\<close> with \<open>MlxFwPagesProps\<close> and \<open>MlxFwDrain\<close> (the shutdown of the
      page worker as a step relation): the files of the same names in \<^verbatim>\<open>Sources/core\<close>; \<open>MlxCore\<close> is what the objects above
      share of them. \<open>MlxHCA\<close>: \<^verbatim>\<open>Sources/hw/MlxHCA*\<close>.
    \<^item> \<open>MlxPCI\<close>, \<open>MlxPCIDown\<close>, \<open>MlxPCIProps\<close>: \<^verbatim>\<open>Sources/core/MlxPCIDriver.cpp\<close>; the locale \<open>device_commands\<close> is what
      teardown relies on.
    \<^item> \<open>MlxQP\<close>, \<open>MlxCQ\<close>, \<open>MlxMR\<close>, \<open>MlxAH\<close>, \<open>MlxGID\<close>, \<open>MlxCC\<close>, \<open>MlxRoCE\<close> and their \<open>Props\<close>: \<^verbatim>\<open>Sources/ib\<close>.
    \<^item> \<open>MlxUserClient\<close>, \<open>MlxUserClientProps\<close>: \<^verbatim>\<open>Sources/userclient\<close>.
    \<^item> \<open>MlxEth\<close> (data and control path), \<open>MlxEthLife\<close> (objects, enable, disable, start, stop), \<open>MlxEthData\<close> (packets and
      completions): \<^verbatim>\<open>Sources/netif/MlxEthernet.cpp\<close>. \<open>MlxEthInv\<close>, \<open>MlxEthCtl\<close>, \<open>MlxEthOps\<close>, \<open>MlxEthProps\<close>, \<open>MlxEthRun\<close>: what the interface
      holds is accounted for, by triples over the steps; \<open>MlxEthLive\<close>: it comes up when nothing fails; \<open>MlxEthTx\<close>, \<open>MlxEthIO\<close>: the
      rings as queues, and what the device finds in them.
    \<^item> \<open>MlxLib\<close>: \<^verbatim>\<open>usermode/libmlx\<close>; \<open>MlxVerbs\<close>: \<^verbatim>\<open>usermode/toolchain/libverbs/verbs_compat.c\<close>; \<open>MlxLibProps\<close>: queue sizes and posting;
      \<open>MlxLibKernel\<close>: the library composed with the user client.

  \<^bold>\<open>How state and operations correspond.\<close> A class is a record with the source's member names, a method a function
  that returns its result and the new record; a pointer that may be NULL is an option. Memory, mappings and DMA commands
  are numbered, and a list holds the live ones, so that leaks and double frees show. Integers keep their width as words;
  an array index is a number, and a length is one where the source uses \<^verbatim>\<open>size_t\<close>. A command is an argument of type \<open>execFn\<close>
  over a world of its own, so that every theorem about a client holds for every firmware; \<open>MlxExec\<close> puts the model of
  \<^verbatim>\<open>MlxCmd\<close> there. What IOKit answers (allocations, mappings, segments, time) is a record of answers per component
  (\<open>CqEnv\<close>, \<open>pciEnv\<close>, \<open>ethEnv\<close> and so on), and a theorem about all of them is about every failure path. What
  the device writes (completion entries, event entries, received bytes) is an argument of the poll. Register writes and calls into
  the network stack are appended to a log.

  \<^bold>\<open>What the lemmas show.\<close> Encoders: each field where the hardware reads it, and nothing else changed. Command
  interface: slots are conserved, the wait ends, a quarantined interface stays silent, the firmware sees exactly
  the caller's bytes, two threads never share a slot and a timed-out slot stays out of use. Resources: creating an object is all or nothing for every
  answer of the firmware (a creating command that times out is under the deviations), destroying it gives back exactly what it held, teardown either releases memory or, when the firmware may still write to it, keeps it.
  Queues: the event queue, the send ring, the receive ring and the completion ring deliver every entry exactly once
  and in order. Processes: a client reaches only its own objects, a completion queue outlives its queue pairs, closing takes
  back what was owned, and no process gets a queue pair. Refinement: notifier table, event ring, request
  queue and handle tables implement their abstract map or queue (\<open>handle_table\<close>, \<open>bounded_fifo\<close>).

  \<^bold>\<open>Loops, bounds and fuel.\<close> Loops whose end depends on IOKit or the device are \<open>partial_function (option)\<close>, \<open>None\<close> meaning
  that they do not end: \<open>pollLoop\<close> (proved to end for every timeout but 0, and for 0 exactly when the device answers), \<open>reclaimLoop\<close> (proved to end), \<open>eqSegLoop\<close>, \<open>pblLoop\<close>,
  \<open>cqPageLoop\<close> (which can run for ever, shown by \<open>createCQ_can_hang\<close>), the two completion polls of the interface (an end is a hypothesis that the
  device publishes finitely many entries), and \<open>pow2Loop\<close>, for which the wishes that end are characterised. Counted loops
  carry a number: \<open>handleCompletionBits\<close> 32, the width of the vector; \<open>takeLoop\<close> the pages still wanted, each round taking at
  least one; \<open>cqFreeLoop\<close> and its siblings the length of the table, which each round shortens; \<open>pollEntries\<close> the count the caller asks for.

  \<^bold>\<open>Concurrency.\<close> An operation under one lock is one step. Where threads interleave inside an operation and a property depends
  on it, the critical sections are the steps of a relation: command slots (\<open>MlxCmdRace\<close>) and the page worker
  (\<open>MlxFwDrain\<close>). Transmission and polling of the interface, the calls of a client, and events are interleaved as sequences of whole
  operations (\<open>ethRun\<close>, \<open>ucHistory\<close>).

  \<^bold>\<open>Not modelled.\<close> The command-line tools (\<^verbatim>\<open>usermode/toolchain\<close>: libmft, mlxstatus, mlxlink, mlxreg, mlnx_qos,
  mlxconfig) and the performance tests parse arguments, print, measure time and forward single calls of the user client, which are modelled;
  the host tests check examples of the encoders, whose theorems hold for all inputs. \<^verbatim>\<open>MlxDMA::getSegments\<close> has no caller.
  Logging, retain counts, property-list publication and the release of a process's own heap have no model. IOKit and the
  firmware are not in the repository: they are parameters, and hypotheses about them (a mapping service reports
  lengths as documented, fresh object numbers, a firmware that carries out a destroy command, or answers a creating one) are named where a theorem needs them.

  \<^bold>\<open>Deviations found.\<close> Lemmas of the development also show where the code does not do what it means to; the text before each
  says so. Memory the firmware may still use is released after a creating command timed out: \<open>createQP_timeout_releases\<close>,
  \<open>createCQ_timeout_releases\<close>, \<open>regMR_timeout_releases\<close>, \<open>eth_create_timeout_releases\<close>; or after a failed destroy:
  \<open>createCQ_unrecorded_releases\<close>. The others are \<open>submit_without_entity_reachable\<close>, \<open>drain_can_hang\<close>, \<open>createCQ_can_hang\<close>, \<open>modifyQP_orphans\<close>, \<open>allocDbRecord_dangling\<close>,
  \<open>gid_encoding_truncated\<close>, \<open>post_names_other_queue\<close>, \<open>create_qp_null\<close>, and among the properties the ones on polling, posting, queue sizes and user
  queue pairs.
\<close>

end
